(* ===== verification/Stoc_Prelude.thy ===== *)
theory Stoc_Prelude
  imports Main "HOL-Library.Word" "HOL-Library.Char_ord" "HOL-Library.List_Lexorder"
    "HOL-Library.Sublist"
begin

text \<open>
  The vocabulary the component theories share: the result type of fallible Go code with its
  sequencing operator, the errors of the program, strings as byte lists with the functions of
  the Go packages \<^verbatim>\<open>strings\<close> and \<^verbatim>\<open>strconv\<close> the program calls, and the coins of the chain.

  \<^item> A Go function that returns \<open>(T, error)\<close> has the type \<open>go_err + 't\<close>; a function that
    returns only an error has \<open>go_err + unit\<close>. A panic is the error \<open>GoPanic\<close>.
  \<^item> Wrapping an error (\<open>errors.Wrap\<close>, \<open>%w\<close>) keeps its root cause, which is what the
    model records; the formatted message text around it is not modelled. An error made by
    \<open>fmt.Errorf\<close> is \<open>Errorf\<close> with a short tag for its message.
  \<^item> Logging has no effect on the state and is not modelled.
\<close>

named_theorems go_simps \<open>equations that unfold the sequencing operators of fallible code\<close>
named_theorems kv_simps \<open>lookups in an updated store\<close>

section \<open>Errors and results\<close>

datatype go_err =
    ErrInvalidSigner
  | ErrTokenExists
  | ErrInvalidToken
  | ErrTokenNotFound
  | ErrInsufficientTokens
  | ErrInvalidTokenAmount
  | ErrInvalidTokenSymbol
  | ErrUnauthorized
  | ErrCannotMint
  | ErrInvalidAmount
  | ErrInvalidCreatorAddress
  | ErrInsufficientFunds
  | ErrAmbiguousSymbol
  | ErrInvalidAddress
  | ErrInvalidTaxRecipient
  | ErrInvalidDenom
  | ErrInsufficientBalance
  | SdkErr string
  | Errorf string
  | GoPanic string

type_synonym 'a res = "go_err + 'a"

definition tryE :: "'a res \<Rightarrow> ('a \<Rightarrow> 'b res) \<Rightarrow> 'b res" where
  "tryE m f = (case m of Inl e \<Rightarrow> Inl e | Inr x \<Rightarrow> f x)"

definition asErr :: "go_err \<Rightarrow> 'a res \<Rightarrow> 'a res" where
  "asErr e m = (case m of Inl _ \<Rightarrow> Inl e | Inr x \<Rightarrow> Inr x)"

definition deref :: "'a option \<Rightarrow> 'a res" where
  "deref v = (case v of None \<Rightarrow> Inl (GoPanic ''nil'') | Some x \<Rightarrow> Inr x)"

text \<open>A \<open>range\<close> loop whose body may return early with an error.\<close>

fun forE :: "('a \<Rightarrow> 's \<Rightarrow> 's res) \<Rightarrow> 'a list \<Rightarrow> 's \<Rightarrow> 's res" where
  "forE f [] s = Inr s"
| "forE f (x # xs) s = tryE (f x s) (forE f xs)"

lemma tryE_simps [simp, go_simps]:
  "tryE (Inr x) f = f x"
  "tryE (Inl e) f = Inl e"
  by (simp_all add: tryE_def)

lemma tryE_Inr [simp, go_simps]: "tryE m f = Inr y \<longleftrightarrow> (\<exists>x. m = Inr x \<and> f x = Inr y)"
  by (auto simp: tryE_def split: sum.splits)

lemma tryE_Inl [go_simps]: "tryE m f = Inl e \<longleftrightarrow> m = Inl e \<or> (\<exists>x. m = Inr x \<and> f x = Inl e)"
  by (auto simp: tryE_def split: sum.splits)

lemma asErr_simps [simp, go_simps]:
  "asErr e (Inr x) = Inr x"
  "asErr e (Inl e') = Inl e"
  by (simp_all add: asErr_def)

lemma asErr_Inr [simp, go_simps]: "asErr e m = Inr y \<longleftrightarrow> m = Inr y"
  by (auto simp: asErr_def split: sum.splits)

lemma deref_simps [simp, go_simps]:
  "deref (Some x) = Inr x"
  "deref None = Inl (GoPanic ''nil'')"
  by (simp_all add: deref_def)

lemma deref_Inr [simp, go_simps]: "deref v = Inr x \<longleftrightarrow> v = Some x"
  by (auto simp: deref_def split: option.splits)

lemma tryE_cong [fundef_cong]:
  "m = m' \<Longrightarrow> (\<And>x. m' = Inr x \<Longrightarrow> f x = f' x) \<Longrightarrow> tryE m f = tryE m' f'"
  by (auto simp: tryE_def split: sum.splits)

lemma forE_append: "forE f (xs @ ys) s = tryE (forE f xs s) (forE f ys)"
  by (induction xs arbitrary: s) (auto simp: tryE_def split: sum.splits)

lemma forE_cong [fundef_cong]:
  "xs = ys \<Longrightarrow> s = t \<Longrightarrow> (\<And>x u. x \<in> set ys \<Longrightarrow> f x u = g x u) \<Longrightarrow> forE f xs s = forE g ys t"
  by (induction xs arbitrary: ys s t) (auto intro!: tryE_cong)

text \<open>The rule for loops: an invariant that every successful iteration keeps.\<close>

lemma forE_invariant:
  assumes "forE f xs s = Inr s'" and "P s"
    and "\<And>x t t'. x \<in> set xs \<Longrightarrow> P t \<Longrightarrow> f x t = Inr t' \<Longrightarrow> P t'"
  shows "P s'"
  using assms by (induction xs arbitrary: s) auto

text \<open>A loop that only checks its elements succeeds when every element passes.\<close>

lemma forE_check:
  "forE (\<lambda>x (_::unit). f x) xs () = Inr () \<longleftrightarrow> (\<forall>x \<in> set xs. f x = Inr ())"
  by (induction xs) auto

text \<open>A body that is a sequence of checks with early returns: the first error is returned.\<close>

fun allE :: "unit res list \<Rightarrow> unit res" where
  "allE [] = Inr ()"
| "allE (r # rs) = tryE r (\<lambda>_. allE rs)"

definition failIf :: "bool \<Rightarrow> go_err \<Rightarrow> unit res" where
  "failIf b e = (if b then Inl e else Inr ())"

text \<open>\<open>x.IsNil() || p(x)\<close> and \<open>!x.IsNil() && p(x)\<close>; and \<open>p(x)\<close> with no nil check, which
  panics on a nil number.\<close>

definition nilOr :: "'a option \<Rightarrow> ('a \<Rightarrow> bool) \<Rightarrow> bool" where
  "nilOr x p = (case x of None \<Rightarrow> True | Some v \<Rightarrow> p v)"

definition notNilAnd :: "'a option \<Rightarrow> ('a \<Rightarrow> bool) \<Rightarrow> bool" where
  "notNilAnd x p = (case x of None \<Rightarrow> False | Some v \<Rightarrow> p v)"

definition failWhen :: "'a option \<Rightarrow> ('a \<Rightarrow> bool) \<Rightarrow> go_err \<Rightarrow> unit res" where
  "failWhen x p e = tryE (deref x) (\<lambda>v. failIf (p v) e)"

lemma allE_Inr [simp]: "allE rs = Inr u \<longleftrightarrow> list_all (\<lambda>r. r = Inr ()) rs"
  by (induction rs) auto

lemma failIf_Inr [simp]: "failIf b e = Inr u \<longleftrightarrow> \<not> b"
  by (simp add: failIf_def)

lemma nilOr_simps [simp]: "nilOr None p" "nilOr (Some v) p = p v"
  by (simp_all add: nilOr_def)

lemma notNilAnd_simps [simp]: "\<not> notNilAnd None p" "notNilAnd (Some v) p = p v"
  by (simp_all add: notNilAnd_def)

lemma not_nilOr [simp]: "\<not> nilOr x p \<longleftrightarrow> (\<exists>v. x = Some v \<and> \<not> p v)"
  by (cases x) auto

lemma not_notNilAnd: "\<not> notNilAnd x p \<longleftrightarrow> (\<forall>v. x = Some v \<longrightarrow> \<not> p v)"
  by (cases x) auto

lemma failWhen_Inr [simp]: "failWhen x p e = Inr u \<longleftrightarrow> (\<exists>v. x = Some v \<and> \<not> p v)"
  by (cases x) (auto simp: failWhen_def)

lemma unit_res_cases: "(r :: unit res) = Inr () \<or> (\<exists>e. r = Inl e)"
  by (cases r) auto

section \<open>Addresses, coins, events\<close>

type_synonym addr = string
type_synonym denom = string
type_synonym u32 = "32 word"
type_synonym u64 = "64 word"
type_synonym dec = int \<comment> \<open>a LegacyDec, in units of \<open>10 ^ -18\<close>\<close>

record coin =
  Denom :: denom
  Amount :: int

type_synonym coins = "coin list"

definition mk_coin :: "denom \<Rightarrow> int \<Rightarrow> coin" where
  "mk_coin d a = \<lparr>Denom = d, Amount = a\<rparr>"

text \<open>The amount a coin list carries of one denomination.\<close>

definition amount_of :: "coins \<Rightarrow> denom \<Rightarrow> int" where
  "amount_of cs d = (\<Sum>c \<leftarrow> cs. if Denom c = d then Amount c else 0)"

datatype event = Event string "(string \<times> string) list"

lemma mk_coin_sel [simp]: "Denom (mk_coin d a) = d" "Amount (mk_coin d a) = a"
  by (simp_all add: mk_coin_def)

lemma amount_of_simps [simp]:
  "amount_of [] d = 0"
  "amount_of (c # cs) d = (if Denom c = d then Amount c else 0) + amount_of cs d"
  by (simp_all add: amount_of_def)

lemma amount_of_append [simp]: "amount_of (cs @ ds) d = amount_of cs d + amount_of ds d"
  by (induction cs) auto

lemma amount_of_nonneg: "(\<And>c. c \<in> set cs \<Longrightarrow> 0 \<le> Amount c) \<Longrightarrow> 0 \<le> amount_of cs d"
  by (induction cs) auto

section \<open>Integers of \<open>cosmossdk.io/math\<close>\<close>

text \<open>Division truncates towards zero; a result of more than 256 bits panics.\<close>

definition IntQuo :: "int \<Rightarrow> int \<Rightarrow> int" where
  "IntQuo x y = (if 0 \<le> x then x div y else - ((- x) div y))"

definition chk256 :: "int \<Rightarrow> int res" where
  "chk256 x = (if \<bar>x\<bar> < 2 ^ 256 then Inr x else Inl (GoPanic ''Int overflow''))"

lemma chk256_Inr [simp]: "chk256 x = Inr y \<longleftrightarrow> y = x \<and> \<bar>x\<bar> < 2 ^ 256"
  by (auto simp: chk256_def)

section \<open>Strings\<close>

text \<open>
  Go strings are byte sequences, and so is \<open>string\<close>. A \<open>range\<close> loop over a string yields
  runes; the loops of this program compare runes with ASCII bounds, which every byte of a
  multi-byte rune (at least 128) and the replacement rune satisfy in the same way.
\<close>

definition code_of :: "char \<Rightarrow> nat" where
  "code_of c = of_char c"

definition is_digit :: "char \<Rightarrow> bool" where
  "is_digit c \<longleftrightarrow> 48 \<le> code_of c \<and> code_of c \<le> 57"

definition is_lower :: "char \<Rightarrow> bool" where
  "is_lower c \<longleftrightarrow> 97 \<le> code_of c \<and> code_of c \<le> 122"

definition is_upper :: "char \<Rightarrow> bool" where
  "is_upper c \<longleftrightarrow> 65 \<le> code_of c \<and> code_of c \<le> 90"

definition is_alpha :: "char \<Rightarrow> bool" where
  "is_alpha c \<longleftrightarrow> is_lower c \<or> is_upper c"

definition is_alnum :: "char \<Rightarrow> bool" where
  "is_alnum c \<longleftrightarrow> is_alpha c \<or> is_digit c"

definition is_control :: "char \<Rightarrow> bool" where
  "is_control c \<longleftrightarrow> code_of c < 32 \<or> code_of c = 127"

definition is_space :: "char \<Rightarrow> bool" where
  "is_space c \<longleftrightarrow> code_of c \<in> {9, 10, 11, 12, 13, 32}"

definition to_upper :: "char \<Rightarrow> char" where
  "to_upper c = (if is_lower c then char_of (code_of c - 32) else c)"

definition to_lower :: "char \<Rightarrow> char" where
  "to_lower c = (if is_upper c then char_of (code_of c + 32) else c)"

definition HasPrefix :: "string \<Rightarrow> string \<Rightarrow> bool" where
  "HasPrefix s p = prefix p s"

definition TrimPrefix :: "string \<Rightarrow> string \<Rightarrow> string" where
  "TrimPrefix s p = (if prefix p s then drop (length p) s else s)"

definition TrimSpace :: "string \<Rightarrow> string" where
  "TrimSpace s = rev (dropWhile is_space (rev (dropWhile is_space s)))"

definition Contains :: "string \<Rightarrow> string \<Rightarrow> bool" where
  "Contains s p = sublist p s"

text \<open>\<open>strings.LastIndex\<close> and \<open>strings.Index\<close> for a one-byte pattern, followed by the slice
  the callers take: the text after the last, or before the first, occurrence.\<close>

definition after_last :: "char \<Rightarrow> string \<Rightarrow> string option" where
  "after_last c s = (if c \<in> set s then Some (rev (takeWhile (\<lambda>x. x \<noteq> c) (rev s))) else None)"

definition before_first :: "char \<Rightarrow> string \<Rightarrow> string option" where
  "before_first c s = (if c \<in> set s then Some (takeWhile (\<lambda>x. x \<noteq> c) s) else None)"

lemma HasPrefix_append [simp]: "HasPrefix (p @ s) p"
  by (simp add: HasPrefix_def)

lemma TrimPrefix_append [simp]: "TrimPrefix (p @ s) p = s"
  by (simp add: TrimPrefix_def)

lemma HasPrefix_TrimPrefix: "HasPrefix s p \<Longrightarrow> s = p @ TrimPrefix s p"
  by (auto simp: HasPrefix_def TrimPrefix_def elim: prefixE)

lemma after_last_append: "c \<notin> set t \<Longrightarrow> after_last c (s @ c # t) = Some t"
proof -
  assume "c \<notin> set t"
  then have "takeWhile (\<lambda>x. x \<noteq> c) (rev t @ c # rev s) = rev t"
    by (subst takeWhile_append2) auto
  then show ?thesis by (simp add: after_last_def)
qed

lemma TrimSpace_id:
  assumes "s \<noteq> []" and "\<not> is_space (hd s)" and "\<not> is_space (last s)"
  shows "TrimSpace s = s"
proof -
  from assms(1,2) have a: "dropWhile is_space s = s"
    by (cases s) auto
  from assms(1,3) have "dropWhile is_space (rev s) = rev s"
    by (metis (no_types, lifting) dropWhile.simps(2) hd_rev list.collapse rev_is_Nil_conv)
  with a show ?thesis by (simp add: TrimSpace_def)
qed

section \<open>Decimal numbers\<close>

definition digit_char :: "nat \<Rightarrow> char" where
  "digit_char n = char_of (48 + n)"

definition char_digit :: "char \<Rightarrow> nat" where
  "char_digit c = code_of c - 48"

fun show_nat :: "nat \<Rightarrow> string" where
  "show_nat n = (if n < 10 then [digit_char n] else show_nat (n div 10) @ [digit_char (n mod 10)])"

declare show_nat.simps [simp del]

definition show_int :: "int \<Rightarrow> string" where
  "show_int i = (if i < 0 then ''-'' @ show_nat (nat (- i)) else show_nat (nat i))"

definition read_nat :: "string \<Rightarrow> nat" where
  "read_nat s = foldl (\<lambda>n c. 10 * n + char_digit c) 0 s"

definition FormatUint :: "u64 \<Rightarrow> string" where
  "FormatUint w = show_nat (unat w)"

definition ParseUint :: "string \<Rightarrow> u64 res" where
  "ParseUint s =
     (if s = [] \<or> \<not> list_all is_digit s then Inl (Errorf ''invalid syntax'')
      else if read_nat s < 2 ^ 64 then Inr (of_nat (read_nat s))
      else Inl (Errorf ''value out of range''))"

lemma is_digit_digit_char: "n < 10 \<Longrightarrow> is_digit (digit_char n)"
  by (simp add: is_digit_def digit_char_def code_of_def)

lemma char_digit_digit_char: "n < 10 \<Longrightarrow> char_digit (digit_char n) = n"
  by (simp add: char_digit_def digit_char_def code_of_def)

lemma read_nat_append: "read_nat (s @ [c]) = 10 * read_nat s + char_digit c"
  by (simp add: read_nat_def)

lemma show_nat_nonempty [simp]: "show_nat n \<noteq> []"
  by (subst show_nat.simps) simp

lemma show_nat_digits: "list_all is_digit (show_nat n)"
proof (induction n rule: show_nat.induct)
  case (1 n)
  show ?case
    by (cases "n < 10") (use 1 in \<open>auto simp: show_nat.simps [of n] is_digit_digit_char\<close>)
qed

lemma read_show_nat [simp]: "read_nat (show_nat n) = n"
proof (induction n rule: show_nat.induct)
  case (1 n)
  show ?case
  proof (cases "n < 10")
    case True
    then show ?thesis
      by (simp add: show_nat.simps [of n] read_nat_def char_digit_digit_char)
  next
    case False
    with 1 show ?thesis
      by (simp add: show_nat.simps [of n] read_nat_append char_digit_digit_char)
  qed
qed

lemma show_nat_inject [simp]: "show_nat m = show_nat n \<longleftrightarrow> m = n"
  by (metis read_show_nat)

lemma u64_bound: "unat (w :: u64) < 18446744073709551616"
  using unsigned_less [of w, where ?'a = nat] by simp

lemma ParseUint_FormatUint [simp]: "ParseUint (FormatUint w) = Inr w"
  using u64_bound [of w] by (simp add: ParseUint_def FormatUint_def show_nat_digits)

lemma FormatUint_inject [simp]: "FormatUint v = FormatUint w \<longleftrightarrow> v = w"
  by (simp add: FormatUint_def word_unat_eq_iff)

lemma FormatUint_digits: "list_all is_digit (FormatUint w)"
  by (simp add: FormatUint_def show_nat_digits)

lemma FormatUint_nonempty [simp]: "FormatUint w \<noteq> []"
  by (simp add: FormatUint_def)

lemma show_nat_length: "0 < k \<Longrightarrow> n < 10 ^ k \<Longrightarrow> length (show_nat n) \<le> k"
proof (induction n arbitrary: k rule: show_nat.induct)
  case (1 n)
  show ?case
  proof (cases "n < 10")
    case True
    with 1 show ?thesis by (simp add: show_nat.simps [of n])
  next
    case False
    with 1 obtain j where k: "k = Suc j" and "0 < j"
      by (cases k; cases "k - 1") auto
    with 1(3) have "n div 10 < 10 ^ j"
      by (simp add: less_mult_imp_div_less mult.commute)
    with 1(1) False k \<open>0 < j\<close> show ?thesis
      by (simp add: show_nat.simps [of n])
  qed
qed

lemma FormatUint_length: "length (FormatUint w) \<le> 20"
proof -
  have "unat w < 10 ^ 20" using u64_bound [of w] by simp
  then show ?thesis by (simp add: FormatUint_def show_nat_length)
qed

lemma digit_not_space: "is_digit c \<Longrightarrow> \<not> is_space c"
  by (auto simp: is_digit_def is_space_def)

lemma alpha_not_space: "is_alpha c \<Longrightarrow> \<not> is_space c"
  by (auto simp: is_alpha_def is_lower_def is_upper_def is_space_def)

lemma underscore_not_digit: "\<not> is_digit (CHR ''_'')"
  by (simp add: is_digit_def code_of_def)

lemma underscore_not_alnum: "\<not> is_alnum (CHR ''_'')"
  by (simp add: is_alnum_def is_alpha_def is_lower_def is_upper_def is_digit_def code_of_def)

lemma FormatUint_no_underscore: "CHR ''_'' \<notin> set (FormatUint w)"
  using FormatUint_digits [of w] underscore_not_digit by (auto simp: list_all_iff)

end
