(* ===== verification/Sdk_Interface.thy ===== *)
theory Sdk_Interface
  imports Stoc_Prelude
begin

text \<open>
  The code outside the repository that the program calls, as parameters.

  \<^item> \<open>sdk\<close> collects the functions of the Cosmos SDK and of \<^verbatim>\<open>cosmossdk.io/math\<close> the sources
    call: the bech32 address codec, coin construction, denomination validation, and the
    18-decimal fixed point type \<open>LegacyDec\<close>. A \<open>math.Int\<close> is an \<open>int\<close> (its nil value is
    \<open>None\<close> of an \<open>int option\<close>) and a \<open>LegacyDec\<close> the \<open>int\<close> of its \<open>10 ^ -18\<close> units.
  \<^item> \<open>BankKeeper\<close> is the interface x/stoc declares in \<^verbatim>\<open>x/stoc/types/expected_keepers.go\<close>
    for the bank module, over an arbitrary bank state \<open>'b\<close>.

  What the program relies on is stated as locales: \<open>bech32_codec\<close>, \<open>coin_api\<close>,
  \<open>legacy_dec\<close> (together \<open>sdk_laws\<close>) and \<open>bank_laws\<close>. They are interpreted on
  \<open>ref_sdk\<close> and \<open>ref_bank\<close>, a ledger with balances per account and denomination, which
  the witnesses evaluate.
\<close>

section \<open>SDK functions\<close>

record sdk =
  DefaultBondDenom :: string
  AccAddressFromBech32 :: "string \<Rightarrow> addr res"
  AccAddress_String :: "addr \<Rightarrow> string"
  NewModuleAddress :: "string \<Rightarrow> addr"
  ValidateDenom :: "string \<Rightarrow> unit res"
  NewCoin :: "denom \<Rightarrow> int \<Rightarrow> coin res"
  NewCoins :: "coins \<Rightarrow> coins res"
  Coins_Add :: "coins \<Rightarrow> coin \<Rightarrow> coins"
  Dec_FromInt :: "int \<Rightarrow> dec"
  Dec_Mul :: "dec \<Rightarrow> dec \<Rightarrow> dec"
  Dec_Quo :: "dec \<Rightarrow> dec \<Rightarrow> dec"
  Dec_Ceil :: "dec \<Rightarrow> dec"
  Dec_RoundInt :: "dec \<Rightarrow> int"
  Dec_TruncateInt :: "dec \<Rightarrow> int"

text \<open>\<open>sdk.NewCoins(sdk.NewCoin(d, a))\<close>, the idiom for a one-coin set.\<close>

definition one_coin :: "'x sdk_scheme \<Rightarrow> denom \<Rightarrow> int \<Rightarrow> coins res" where
  "one_coin K d a = tryE (NewCoin K d a) (\<lambda>c. NewCoins K [c])"

text \<open>Re-encoding a parsed address gives its canonical form.\<close>

definition canonical :: "'x sdk_scheme \<Rightarrow> string \<Rightarrow> bool" where
  "canonical K s \<longleftrightarrow> (\<exists>a. AccAddressFromBech32 K s = Inr a \<and> AccAddress_String K a = s)"

definition is_denom_char :: "char \<Rightarrow> bool" where
  "is_denom_char c \<longleftrightarrow> is_alnum c \<or> c \<in> set ''/:._-''"

locale bech32_codec =
  fixes K :: "'x sdk_scheme"
  assumes decode_String:
      "AccAddressFromBech32 K s = Inr a \<Longrightarrow> AccAddressFromBech32 K (AccAddress_String K a) = Inr a"
    and decode_empty: "AccAddressFromBech32 K [] \<noteq> Inr a"
begin

lemma canonical_String: "AccAddressFromBech32 K s = Inr a \<Longrightarrow> canonical K (AccAddress_String K a)"
  by (auto simp: canonical_def dest: decode_String)

lemma String_nonempty: "AccAddressFromBech32 K s = Inr a \<Longrightarrow> AccAddress_String K a \<noteq> []"
  using decode_String decode_empty by metis

lemma String_inject:
  "AccAddressFromBech32 K s = Inr a \<Longrightarrow> AccAddressFromBech32 K t = Inr b \<Longrightarrow>
   AccAddress_String K a = AccAddress_String K b \<longleftrightarrow> a = b"
  using decode_String by (metis sum.inject(2))

lemma canonical_nonempty: "canonical K s \<Longrightarrow> s \<noteq> []"
  by (auto simp: canonical_def decode_empty)

end

locale coin_api =
  fixes K :: "'x sdk_scheme"
  assumes NewCoin_Inr:
      "NewCoin K d a = Inr c \<longleftrightarrow> c = mk_coin d a \<and> 0 \<le> a \<and> ValidateDenom K d = Inr ()"
    and NewCoins_single: "Amount c \<noteq> 0 \<Longrightarrow>
      NewCoins K [c] = Inr cs \<longleftrightarrow> cs = [c] \<and> 0 < Amount c \<and> ValidateDenom K (Denom c) = Inr ()"
    and NewCoins_zero: "Amount c = 0 \<Longrightarrow> NewCoins K [c] = Inr []"
    and NewCoins_Nil: "NewCoins K [] = Inr []"
    and Coins_Add_amount:
      "amount_of (Coins_Add K cs c) d = amount_of cs d + (if Denom c = d then Amount c else 0)"
    and denom_valid:
      "is_alpha x \<Longrightarrow> list_all is_denom_char xs \<Longrightarrow> 2 \<le> length xs \<Longrightarrow> length xs \<le> 127 \<Longrightarrow>
       ValidateDenom K (x # xs) = Inr ()"
    and denom_empty: "ValidateDenom K [] \<noteq> Inr ()"
begin

lemma one_coin_Inr:
  "one_coin K d a = Inr cs \<longleftrightarrow>
     cs = (if a = 0 then [] else [mk_coin d a]) \<and> 0 \<le> a \<and> ValidateDenom K d = Inr ()"
  by (cases "a = 0") (auto simp: one_coin_def NewCoin_Inr NewCoins_single NewCoins_zero)

lemma one_coin_amount:
  "one_coin K d a = Inr cs \<Longrightarrow> amount_of cs d' = (if d' = d then a else 0)"
  by (auto simp: one_coin_Inr)

lemma one_coin_ok:
  "0 \<le> a \<Longrightarrow> ValidateDenom K d = Inr () \<Longrightarrow>
   one_coin K d a = Inr (if a = 0 then [] else [mk_coin d a])"
  by (simp add: one_coin_Inr)

end

abbreviation dec_one :: int where
  "dec_one \<equiv> 1000000000000000000"

locale legacy_dec =
  fixes K :: "'x sdk_scheme"
  assumes Dec_FromInt_eq: "Dec_FromInt K n = n * dec_one"
    and Dec_Mul_exact: "dec_one dvd x * y \<Longrightarrow> Dec_Mul K x y = x * y div dec_one"
    and Dec_Quo_close: "y \<noteq> 0 \<Longrightarrow> 2 * \<bar>Dec_Quo K x y * y - x * dec_one\<bar> \<le> \<bar>y\<bar>"
    and Dec_Ceil_eq: "Dec_Ceil K x = - ((- x) div dec_one) * dec_one"
    and Dec_RoundInt_exact: "Dec_RoundInt K (n * dec_one) = n"
    and Dec_TruncateInt_nonneg: "0 \<le> x \<Longrightarrow> Dec_TruncateInt K x = x div dec_one"
begin

lemma Dec_Mul_FromInt: "Dec_Mul K (Dec_FromInt K n) p = n * p"
proof -
  have "dec_one dvd n * dec_one * p" by simp
  then have "Dec_Mul K (n * dec_one) p = n * dec_one * p div dec_one"
    by (rule Dec_Mul_exact)
  also have "\<dots> = n * p" by simp
  finally show ?thesis by (simp add: Dec_FromInt_eq)
qed

lemma Dec_Mul_FromInt_right: "Dec_Mul K p (Dec_FromInt K n) = p * n"
proof -
  have "dec_one dvd p * (n * dec_one)" by simp
  then have "Dec_Mul K p (n * dec_one) = p * (n * dec_one) div dec_one"
    by (rule Dec_Mul_exact)
  also have "\<dots> = p * n * dec_one div dec_one" by (simp only: mult.assoc)
  also have "\<dots> = p * n" by simp
  finally show ?thesis by (simp add: Dec_FromInt_eq)
qed

lemma Dec_Quo_exact: "y \<noteq> 0 \<Longrightarrow> y dvd x * dec_one \<Longrightarrow> Dec_Quo K x y = x * dec_one div y"
proof -
  assume y: "y \<noteq> 0" and "y dvd x * dec_one"
  then obtain q where q: "x * dec_one = y * q" by (elim dvdE)
  have "2 * \<bar>(Dec_Quo K x y - q) * y\<bar> \<le> \<bar>y\<bar>"
    using Dec_Quo_close [OF y, of x] unfolding q by (simp add: algebra_simps)
  then have "2 * \<bar>Dec_Quo K x y - q\<bar> * \<bar>y\<bar> \<le> 1 * \<bar>y\<bar>"
    by (simp add: abs_mult)
  then have "2 * \<bar>Dec_Quo K x y - q\<bar> \<le> 1"
    using y by (metis mult_le_cancel_right zero_less_abs_iff)
  then have "Dec_Quo K x y = q" by arith
  with y q show ?thesis by simp
qed

lemma Dec_RoundInt_Ceil: "Dec_RoundInt K (Dec_Ceil K x) = - ((- x) div dec_one)"
  by (simp only: Dec_Ceil_eq Dec_RoundInt_exact)

end

locale sdk_laws = bech32_codec K + coin_api K + legacy_dec K for K :: "'x sdk_scheme"

section \<open>The bank keeper\<close>

record denom_unit =
  duDenom :: denom
  duExponent :: u32
  duAliases :: "string list"

record metadata =
  mdDescription :: string
  mdDenomUnits :: "denom_unit list"
  mdBase :: denom
  mdDisplay :: denom
  mdName :: string
  mdSymbol :: string
  mdURI :: string
  mdURIHash :: string

record 'b BankKeeper =
  SpendableCoins :: "'b \<Rightarrow> addr \<Rightarrow> coins"
  SendCoins :: "'b \<Rightarrow> addr \<Rightarrow> addr \<Rightarrow> coins \<Rightarrow> 'b res"
  SendCoinsFromModuleToAccount :: "'b \<Rightarrow> string \<Rightarrow> addr \<Rightarrow> coins \<Rightarrow> 'b res"
  SendCoinsFromAccountToModule :: "'b \<Rightarrow> addr \<Rightarrow> string \<Rightarrow> coins \<Rightarrow> 'b res"
  MintCoins :: "'b \<Rightarrow> string \<Rightarrow> coins \<Rightarrow> 'b res"
  BurnCoins :: "'b \<Rightarrow> string \<Rightarrow> coins \<Rightarrow> 'b res"
  GetAllBalances :: "'b \<Rightarrow> addr \<Rightarrow> coins"
  GetBalance :: "'b \<Rightarrow> addr \<Rightarrow> denom \<Rightarrow> coin"
  GetSupply :: "'b \<Rightarrow> denom \<Rightarrow> coin"
  SetDenomMetaData :: "'b \<Rightarrow> metadata \<Rightarrow> 'b"
  IterateAccountBalances :: "'b \<Rightarrow> addr \<Rightarrow> coins"
  BlockedAddr :: "addr \<Rightarrow> bool"

abbreviation bal :: "('b, 'y) BankKeeper_scheme \<Rightarrow> 'b \<Rightarrow> addr \<Rightarrow> denom \<Rightarrow> int" where
  "bal B s a d \<equiv> Amount (GetBalance B s a d)"

abbreviation bsupply :: "('b, 'y) BankKeeper_scheme \<Rightarrow> 'b \<Rightarrow> denom \<Rightarrow> int" where
  "bsupply B s d \<equiv> Amount (GetSupply B s d)"

locale bank_laws =
  fixes K :: "'x sdk_scheme"
    and B :: "('b, 'y) BankKeeper_scheme"
    and wfb :: "'b \<Rightarrow> bool"
  assumes supply_nonneg: "wfb s \<Longrightarrow> 0 \<le> bsupply B s d"
    and bal_nonneg: "wfb s \<Longrightarrow> 0 \<le> bal B s a d"
    and Mint_wf: "wfb s \<Longrightarrow> MintCoins B s m cs = Inr s' \<Longrightarrow> wfb s'"
    and Mint_supply: "wfb s \<Longrightarrow> MintCoins B s m cs = Inr s' \<Longrightarrow>
      bsupply B s' d = bsupply B s d + amount_of cs d"
    and Mint_bal: "wfb s \<Longrightarrow> MintCoins B s m cs = Inr s' \<Longrightarrow>
      bal B s' a d = bal B s a d + (if a = NewModuleAddress K m then amount_of cs d else 0)"
    and Burn_wf: "wfb s \<Longrightarrow> BurnCoins B s m cs = Inr s' \<Longrightarrow> wfb s'"
    and Burn_supply: "wfb s \<Longrightarrow> BurnCoins B s m cs = Inr s' \<Longrightarrow>
      bsupply B s' d = bsupply B s d - amount_of cs d"
    and Burn_bal: "wfb s \<Longrightarrow> BurnCoins B s m cs = Inr s' \<Longrightarrow>
      bal B s' a d = bal B s a d - (if a = NewModuleAddress K m then amount_of cs d else 0)"
    and Send_wf: "wfb s \<Longrightarrow> SendCoins B s f t cs = Inr s' \<Longrightarrow> wfb s'"
    and Send_supply: "wfb s \<Longrightarrow> SendCoins B s f t cs = Inr s' \<Longrightarrow> bsupply B s' d = bsupply B s d"
    and Send_bal: "wfb s \<Longrightarrow> SendCoins B s f t cs = Inr s' \<Longrightarrow>
      bal B s' a d = bal B s a d - (if a = f then amount_of cs d else 0)
        + (if a = t then amount_of cs d else 0)"
    and ModuleToAccount: "SendCoinsFromModuleToAccount B s m t cs = Inr s' \<Longrightarrow>
      \<not> BlockedAddr B t \<and> SendCoins B s (NewModuleAddress K m) t cs = Inr s'"
    and AccountToModule: "SendCoinsFromAccountToModule B s f m cs = Inr s' \<Longrightarrow>
      SendCoins B s f (NewModuleAddress K m) cs = Inr s'"
    and Meta_wf: "wfb s \<Longrightarrow> wfb (SetDenomMetaData B s md)"
    and Meta_supply: "bsupply B (SetDenomMetaData B s md) d = bsupply B s d"
    and Meta_bal: "bal B (SetDenomMetaData B s md) a d = bal B s a d"
begin

lemmas bank_wf = Mint_wf Burn_wf Send_wf Meta_wf
lemmas bank_supply = Mint_supply Burn_supply Send_supply Meta_supply
lemmas bank_bal = Mint_bal Burn_bal Send_bal Meta_bal

text \<open>The two compound movements of the token module: coins minted for, and burnt from, an
  ordinary account. The module's own balance is the same before and after.\<close>

lemma mint_to_account:
  assumes "wfb s" and "MintCoins B s m cs = Inr s1"
    and "SendCoinsFromModuleToAccount B s1 m t cs = Inr s2"
    and "BlockedAddr B (NewModuleAddress K m)"
  shows "wfb s2"
    and "bsupply B s2 d = bsupply B s d + amount_of cs d"
    and "bal B s2 a d = bal B s a d + (if a = t then amount_of cs d else 0)"
    and "t \<noteq> NewModuleAddress K m"
proof -
  from ModuleToAccount [OF assms(3)] have nb: "\<not> BlockedAddr B t"
    and snd: "SendCoins B s1 (NewModuleAddress K m) t cs = Inr s2" by auto
  from nb assms(4) show ne: "t \<noteq> NewModuleAddress K m" by auto
  from assms(1,2) have "wfb s1" by (rule Mint_wf)
  with snd show "wfb s2" by (rule Send_wf [rotated])
  show "bsupply B s2 d = bsupply B s d + amount_of cs d"
    using Send_supply [OF \<open>wfb s1\<close> snd] Mint_supply [OF assms(1,2)] by simp
  show "bal B s2 a d = bal B s a d + (if a = t then amount_of cs d else 0)"
    using Send_bal [OF \<open>wfb s1\<close> snd, of a d] Mint_bal [OF assms(1,2), of a d] ne by auto
qed

lemma burn_from_account:
  assumes "wfb s" and "SendCoinsFromAccountToModule B s f m cs = Inr s1"
    and "BurnCoins B s1 m cs = Inr s2" and "f \<noteq> NewModuleAddress K m"
  shows "wfb s2"
    and "bsupply B s2 d = bsupply B s d - amount_of cs d"
    and "bal B s2 a d = bal B s a d - (if a = f then amount_of cs d else 0)"
proof -
  from AccountToModule [OF assms(2)]
  have snd: "SendCoins B s f (NewModuleAddress K m) cs = Inr s1" .
  from assms(1) snd have w1: "wfb s1" by (rule Send_wf)
  with assms(3) show "wfb s2" by (rule Burn_wf [rotated])
  show "bsupply B s2 d = bsupply B s d - amount_of cs d"
    using Send_supply [OF assms(1) snd] Burn_supply [OF w1 assms(3)] by simp
  show "bal B s2 a d = bal B s a d - (if a = f then amount_of cs d else 0)"
    using Send_bal [OF assms(1) snd, of a d] Burn_bal [OF w1 assms(3), of a d] assms(4) by auto
qed

end

section \<open>A reference SDK\<close>

text \<open>Addresses are their own bytes and print as lower case; an all-upper-case string decodes
  to the same address as its lower-case form, as bech32 does.\<close>

definition ref_FromBech32 :: "string \<Rightarrow> addr res" where
  "ref_FromBech32 s =
     (if s = [] then Inl (SdkErr ''empty address'')
      else if list_all (\<lambda>c. is_lower c \<or> is_digit c) s then Inr s
      else if list_all (\<lambda>c. is_upper c \<or> is_digit c) s then Inr (map to_lower s)
      else Inl (SdkErr ''bech32''))"

definition ref_ValidateDenom :: "string \<Rightarrow> unit res" where
  "ref_ValidateDenom s =
     (case s of [] \<Rightarrow> Inl (SdkErr ''denom'')
      | x # xs \<Rightarrow> if is_alpha x \<and> list_all is_denom_char xs \<and> 2 \<le> length xs \<and> length xs \<le> 127
          then Inr () else Inl (SdkErr ''denom''))"

definition ref_NewCoin :: "denom \<Rightarrow> int \<Rightarrow> coin res" where
  "ref_NewCoin d a =
     (if ref_ValidateDenom d = Inr () \<and> 0 \<le> a then Inr (mk_coin d a) else Inl (GoPanic ''coin''))"

fun ref_Coins_Add :: "coins \<Rightarrow> coin \<Rightarrow> coins" where
  "ref_Coins_Add [] c = (if Amount c = 0 then [] else [c])"
| "ref_Coins_Add (x # xs) c =
     (if Denom x = Denom c then mk_coin (Denom x) (Amount x + Amount c) # xs
      else x # ref_Coins_Add xs c)"

text \<open>Zero coins are dropped; what is left must be positive and well named.\<close>

definition ref_NewCoins :: "coins \<Rightarrow> coins res" where
  "ref_NewCoins cs =
     (let nz = filter (\<lambda>c. Amount c \<noteq> 0) cs
      in if list_all (\<lambda>c. 0 < Amount c \<and> ref_ValidateDenom (Denom c) = Inr ()) nz then Inr nz
         else Inl (GoPanic ''coins''))"

text \<open>Division to the nearest multiple of \<open>10 ^ -18\<close>.\<close>

definition round_div :: "int \<Rightarrow> int \<Rightarrow> int" where
  "round_div n d = (if 0 < d then (2 * n + d) div (2 * d) else (2 * (- n) + (- d)) div (2 * (- d)))"

definition ref_sdk :: sdk where
  "ref_sdk = \<lparr>
     DefaultBondDenom = ''ustoc'',
     AccAddressFromBech32 = ref_FromBech32,
     AccAddress_String = (\<lambda>a. a),
     NewModuleAddress = (\<lambda>n. ''module'' @ n),
     ValidateDenom = ref_ValidateDenom,
     NewCoin = ref_NewCoin,
     NewCoins = ref_NewCoins,
     Coins_Add = ref_Coins_Add,
     Dec_FromInt = (\<lambda>n. n * dec_one),
     Dec_Mul = (\<lambda>x y. round_div (x * y) dec_one),
     Dec_Quo = (\<lambda>x y. round_div (x * dec_one) y),
     Dec_Ceil = (\<lambda>x. - ((- x) div dec_one) * dec_one),
     Dec_RoundInt = (\<lambda>x. round_div x dec_one),
     Dec_TruncateInt = (\<lambda>x. x div dec_one)\<rparr>"

lemma to_lower_upper: "is_upper c \<Longrightarrow> is_lower (to_lower c)"
  by (auto simp: is_upper_def is_lower_def to_lower_def code_of_def)

lemma to_lower_digit: "is_digit c \<Longrightarrow> to_lower c = c"
  by (auto simp: is_upper_def is_digit_def to_lower_def)

lemma ref_FromBech32_canonical: "ref_FromBech32 s = Inr a \<Longrightarrow> ref_FromBech32 a = Inr a"
  by (auto simp: ref_FromBech32_def list_all_iff to_lower_digit dest!: to_lower_upper
      split: if_splits) (metis to_lower_digit to_lower_upper)+

lemma round_div_close_pos:
  fixes n d :: int
  assumes "0 < d" shows "2 * \<bar>(2 * n + d) div (2 * d) * d - n\<bar> \<le> d"
proof -
  let ?q = "(2 * n + d) div (2 * d)" and ?r = "(2 * n + d) mod (2 * d)"
  have "2 * n + d = ?q * (2 * d) + ?r" by (simp add: div_mult_mod_eq)
  moreover have "0 \<le> ?r" "?r < 2 * d" using assms by simp_all
  ultimately have "2 * (?q * d - n) = d - ?r" by (simp add: algebra_simps)
  with \<open>0 \<le> ?r\<close> \<open>?r < 2 * d\<close> show ?thesis by linarith
qed

lemma round_div_close: "d \<noteq> 0 \<Longrightarrow> 2 * \<bar>round_div n d * d - n\<bar> \<le> \<bar>d\<bar>"
proof (cases "0 < d")
  case True
  then show ?thesis using round_div_close_pos [of d n] by (simp add: round_div_def)
next
  case False
  assume "d \<noteq> 0"
  with False have "0 < - d" by simp
  from round_div_close_pos [OF this, of "- n"] False \<open>d \<noteq> 0\<close> show ?thesis
    by (simp add: round_div_def algebra_simps abs_minus_commute)
qed

lemma round_div_exact: "0 < d \<Longrightarrow> d dvd n \<Longrightarrow> round_div n d = n div d"
proof -
  assume d: "0 < d" and "d dvd n"
  then obtain q where n: "n = d * q" by (elim dvdE)
  have "round_div n d * d - n = (round_div n d - q) * d" by (simp add: n algebra_simps)
  with round_div_close [of d n] d have "2 * (\<bar>round_div n d - q\<bar> * d) \<le> 1 * d"
    by (simp add: abs_mult)
  then have "2 * \<bar>round_div n d - q\<bar> \<le> 1"
    using d by (metis mult.assoc mult_le_cancel_right not_less)
  then have "round_div n d = q" by arith
  with d n show ?thesis by simp
qed

interpretation ref: sdk_laws ref_sdk
proof (unfold_locales, goal_cases)
  case (1 s a) then show ?case by (simp add: ref_sdk_def ref_FromBech32_canonical)
next
  case (2 a) then show ?case by (simp add: ref_sdk_def ref_FromBech32_def)
next
  case (3 d a c) then show ?case by (auto simp: ref_sdk_def ref_NewCoin_def)
next
  case (4 c cs) then show ?case by (auto simp: ref_sdk_def ref_NewCoins_def)
next
  case (5 c) then show ?case by (simp add: ref_sdk_def ref_NewCoins_def)
next
  case 6 then show ?case by (simp add: ref_sdk_def ref_NewCoins_def)
next
  case (7 cs c d)
  have "amount_of (ref_Coins_Add cs c) d = amount_of cs d + (if Denom c = d then Amount c else 0)"
    by (induction cs) auto
  then show ?case by (simp add: ref_sdk_def)
next
  case (8 x xs) then show ?case by (simp add: ref_sdk_def ref_ValidateDenom_def)
next
  case 9 then show ?case by (simp add: ref_sdk_def ref_ValidateDenom_def)
next
  case (10 n) then show ?case by (simp add: ref_sdk_def)
next
  case (11 x y) then show ?case by (simp add: ref_sdk_def round_div_exact)
next
  case (12 y x) then show ?case by (simp add: ref_sdk_def round_div_close)
next
  case (13 x) then show ?case by (simp add: ref_sdk_def)
next
  case (14 n) then show ?case by (simp add: ref_sdk_def round_div_exact)
next
  case (15 x) then show ?case by (simp add: ref_sdk_def)
qed

section \<open>A reference bank\<close>

record ledger =
  lgBal :: "addr \<Rightarrow> denom \<Rightarrow> int"
  lgSupply :: "denom \<Rightarrow> int"
  lgDenoms :: "denom list"
  lgMeta :: "metadata list"

definition ledger_ok :: "ledger \<Rightarrow> bool" where
  "ledger_ok s \<longleftrightarrow> (\<forall>a d. 0 \<le> lgBal s a d) \<and> (\<forall>d. 0 \<le> lgSupply s d)"

definition empty_ledger :: ledger where
  "empty_ledger = \<lparr>lgBal = (\<lambda>_ _. 0), lgSupply = (\<lambda>_. 0), lgDenoms = [], lgMeta = []\<rparr>"

definition all_nonneg :: "coins \<Rightarrow> bool" where
  "all_nonneg cs = list_all (\<lambda>c. 0 \<le> Amount c) cs"

definition covers :: "(denom \<Rightarrow> int) \<Rightarrow> coins \<Rightarrow> bool" where
  "covers b cs = list_all (\<lambda>c. amount_of cs (Denom c) \<le> b (Denom c)) cs"

definition add_bal :: "addr \<Rightarrow> coins \<Rightarrow> (addr \<Rightarrow> denom \<Rightarrow> int) \<Rightarrow> addr \<Rightarrow> denom \<Rightarrow> int" where
  "add_bal a cs b = b(a := \<lambda>d. b a d + amount_of cs d)"

definition sub_bal :: "addr \<Rightarrow> coins \<Rightarrow> (addr \<Rightarrow> denom \<Rightarrow> int) \<Rightarrow> addr \<Rightarrow> denom \<Rightarrow> int" where
  "sub_bal a cs b = b(a := \<lambda>d. b a d - amount_of cs d)"

definition lg_Mint :: "addr \<Rightarrow> ledger \<Rightarrow> coins \<Rightarrow> ledger res" where
  "lg_Mint m s cs =
     (if \<not> all_nonneg cs then Inl (SdkErr ''coins'')
      else Inr (s\<lparr>lgBal := add_bal m cs (lgBal s),
                  lgSupply := (\<lambda>d. lgSupply s d + amount_of cs d),
                  lgDenoms := remdups (lgDenoms s @ map Denom cs)\<rparr>))"

definition lg_Burn :: "addr \<Rightarrow> ledger \<Rightarrow> coins \<Rightarrow> ledger res" where
  "lg_Burn m s cs =
     (if \<not> all_nonneg cs \<or> \<not> covers (lgBal s m) cs \<or> \<not> covers (lgSupply s) cs
      then Inl (SdkErr ''insufficient funds'')
      else Inr (s\<lparr>lgBal := sub_bal m cs (lgBal s),
                  lgSupply := (\<lambda>d. lgSupply s d - amount_of cs d)\<rparr>))"

definition lg_Send :: "ledger \<Rightarrow> addr \<Rightarrow> addr \<Rightarrow> coins \<Rightarrow> ledger res" where
  "lg_Send s f t cs =
     (if \<not> all_nonneg cs \<or> \<not> covers (lgBal s f) cs then Inl (SdkErr ''insufficient funds'')
      else Inr (s\<lparr>lgBal := add_bal t cs (sub_bal f cs (lgBal s))\<rparr>))"

definition ref_bank :: "'x sdk_scheme \<Rightarrow> addr list \<Rightarrow> ledger BankKeeper" where
  "ref_bank K blocked = \<lparr>
     SpendableCoins = (\<lambda>s a. [c \<leftarrow> map (\<lambda>d. mk_coin d (lgBal s a d)) (lgDenoms s). Amount c \<noteq> 0]),
     SendCoins = lg_Send,
     SendCoinsFromModuleToAccount = (\<lambda>s m t cs.
       if t \<in> set blocked then Inl (SdkErr ''blocked'') else lg_Send s (NewModuleAddress K m) t cs),
     SendCoinsFromAccountToModule = (\<lambda>s f m cs. lg_Send s f (NewModuleAddress K m) cs),
     MintCoins = (\<lambda>s m cs. lg_Mint (NewModuleAddress K m) s cs),
     BurnCoins = (\<lambda>s m cs. lg_Burn (NewModuleAddress K m) s cs),
     GetAllBalances = (\<lambda>s a. [c \<leftarrow> map (\<lambda>d. mk_coin d (lgBal s a d)) (lgDenoms s). Amount c \<noteq> 0]),
     GetBalance = (\<lambda>s a d. mk_coin d (lgBal s a d)),
     GetSupply = (\<lambda>s d. mk_coin d (lgSupply s d)),
     SetDenomMetaData = (\<lambda>s md. s\<lparr>lgMeta := md # lgMeta s\<rparr>),
     IterateAccountBalances = (\<lambda>s a. [c \<leftarrow> map (\<lambda>d. mk_coin d (lgBal s a d)) (lgDenoms s). Amount c \<noteq> 0]),
     BlockedAddr = (\<lambda>a. a \<in> set blocked)\<rparr>"

lemma amount_of_absent: "d \<notin> Denom ` set cs \<Longrightarrow> amount_of cs d = 0"
  by (induction cs) auto

lemma all_nonneg_amount: "all_nonneg cs \<Longrightarrow> 0 \<le> amount_of cs d"
  by (auto simp: all_nonneg_def list_all_iff intro: amount_of_nonneg)

lemma covers_amount: "covers b cs \<Longrightarrow> 0 \<le> b d \<Longrightarrow> amount_of cs d \<le> b d"
  by (cases "d \<in> Denom ` set cs") (auto simp: covers_def list_all_iff amount_of_absent)

lemma lg_Mint_ok: "ledger_ok s \<Longrightarrow> lg_Mint m s cs = Inr s' \<Longrightarrow> ledger_ok s'"
  by (auto simp: lg_Mint_def ledger_ok_def add_bal_def all_nonneg_amount split: if_splits)

lemma lg_Burn_ok: "ledger_ok s \<Longrightarrow> lg_Burn m s cs = Inr s' \<Longrightarrow> ledger_ok s'"
  by (auto simp: lg_Burn_def ledger_ok_def sub_bal_def covers_amount split: if_splits)

lemma lg_Send_ok: "ledger_ok s \<Longrightarrow> lg_Send s f t cs = Inr s' \<Longrightarrow> ledger_ok s'"
  by (auto simp: lg_Send_def ledger_ok_def add_bal_def sub_bal_def covers_amount
      all_nonneg_amount split: if_splits)

interpretation refbank: bank_laws K "ref_bank K blocked" ledger_ok
  for K :: "'x sdk_scheme" and blocked
proof (unfold_locales, goal_cases)
  case (1 s d) then show ?case by (simp add: ref_bank_def ledger_ok_def)
next
  case (2 s a d) then show ?case by (simp add: ref_bank_def ledger_ok_def)
next
  case (3 s m cs s') then show ?case by (simp add: ref_bank_def) (rule lg_Mint_ok)
next
  case (4 s m cs s' d) then show ?case by (auto simp: ref_bank_def lg_Mint_def split: if_splits)
next
  case (5 s m cs s' a d)
  then show ?case by (auto simp: ref_bank_def lg_Mint_def add_bal_def split: if_splits)
next
  case (6 s m cs s') then show ?case by (simp add: ref_bank_def) (rule lg_Burn_ok)
next
  case (7 s m cs s' d) then show ?case by (auto simp: ref_bank_def lg_Burn_def split: if_splits)
next
  case (8 s m cs s' a d)
  then show ?case by (auto simp: ref_bank_def lg_Burn_def sub_bal_def split: if_splits)
next
  case (9 s f t cs s') then show ?case by (simp add: ref_bank_def) (rule lg_Send_ok)
next
  case (10 s f t cs s' d) then show ?case by (auto simp: ref_bank_def lg_Send_def split: if_splits)
next
  case (11 s f t cs s' a d)
  then show ?case
    by (auto simp: ref_bank_def lg_Send_def add_bal_def sub_bal_def split: if_splits)
next
  case (12 s m t cs s') then show ?case by (simp add: ref_bank_def split: if_splits)
next
  case (13 s f m cs s') then show ?case by (simp add: ref_bank_def)
next
  case (14 s md) then show ?case by (simp add: ref_bank_def ledger_ok_def)
next
  case (15 s md d) then show ?case by (simp add: ref_bank_def)
next
  case (16 s md a d) then show ?case by (simp add: ref_bank_def)
qed

end
