(* ===== verification/Kv_Interface.thy ===== *)
theory Kv_Interface
  imports Sdk_Interface
begin

text \<open>
  The key-value store of a module, as a parameter. \<open>KVStore\<close> has the operations of
  \<^verbatim>\<open>cosmossdk.io/store\<close> the keepers call: point reads and writes, deletion, and ascending
  iteration over the keys with a given prefix. The locale \<open>kv_laws\<close> states what the store
  documents of them; \<open>prefix.NewStore(s, p)\<close> is rendered by prepending \<open>p\<close> to the keys.
  The laws are interpreted on \<open>ref_kv\<close>, an association list.

  The client lemmas of the locale say how an iteration changes under \<open>Set\<close> and
  \<open>Delete\<close> outside the prefix, and that two stores with the same entries iterate alike.
\<close>

record 's KVStore =
  KV_Get :: "'s \<Rightarrow> string \<Rightarrow> string option"
  KV_Set :: "'s \<Rightarrow> string \<Rightarrow> string \<Rightarrow> 's"
  KV_Delete :: "'s \<Rightarrow> string \<Rightarrow> 's"
  KV_Iter :: "'s \<Rightarrow> string \<Rightarrow> (string \<times> string) list"

locale kv_laws =
  fixes S :: "('s, 'z) KVStore_scheme"
  assumes Get_Set: "KV_Get S (KV_Set S s k v) k' = (if k' = k then Some v else KV_Get S s k')"
    and Get_Delete: "KV_Get S (KV_Delete S s k) k' = (if k' = k then None else KV_Get S s k')"
    and Iter_mem: "(k, v) \<in> set (KV_Iter S s p) \<longleftrightarrow> prefix p k \<and> KV_Get S s k = Some v"
    and Iter_ascending: "sorted_wrt (<) (map fst (KV_Iter S s p))"
begin

lemma Iter_keys: "fst ` set (KV_Iter S s p) = {k. prefix p k \<and> KV_Get S s k \<noteq> None}"
proof (rule set_eqI)
  fix k
  have "k \<in> fst ` set (KV_Iter S s p) \<longleftrightarrow> (\<exists>v. (k, v) \<in> set (KV_Iter S s p))" by force
  then show "k \<in> fst ` set (KV_Iter S s p) \<longleftrightarrow> k \<in> {k. prefix p k \<and> KV_Get S s k \<noteq> None}"
    by (simp add: Iter_mem)
qed

lemma Iter_distinct: "distinct (map fst (KV_Iter S s p))"
  using Iter_ascending strict_sorted_iff by blast

lemma Iter_eq_entries:
  "KV_Iter S s p = map (\<lambda>k. (k, the (KV_Get S s k))) (map fst (KV_Iter S s p))"
proof -
  have "map (\<lambda>e. (fst e, the (KV_Get S s (fst e)))) (KV_Iter S s p) = map id (KV_Iter S s p)"
    by (rule map_cong) (auto simp: Iter_mem)
  then show ?thesis by (simp add: o_def)
qed

text \<open>Iteration depends only on the entries under the prefix.\<close>

lemma Iter_cong:
  assumes "\<And>k. prefix p k \<Longrightarrow> KV_Get S s k = KV_Get S t k"
  shows "KV_Iter S s p = KV_Iter S t p"
proof -
  have "set (map fst (KV_Iter S s p)) = set (map fst (KV_Iter S t p))"
    using assms by (auto simp: Iter_keys)
  then have keys: "map fst (KV_Iter S s p) = map fst (KV_Iter S t p)"
    using Iter_ascending strict_sorted_equal by blast
  have "KV_Iter S s p = map (\<lambda>k. (k, the (KV_Get S s k))) (map fst (KV_Iter S t p))"
    using Iter_eq_entries [of s p] unfolding keys .
  also have "\<dots> = map (\<lambda>k. (k, the (KV_Get S t k))) (map fst (KV_Iter S t p))"
    by (rule map_cong) (auto simp: assms Iter_mem)
  also have "\<dots> = KV_Iter S t p" using Iter_eq_entries [of t p] by (rule sym)
  finally show ?thesis .
qed

lemma Iter_Set_other: "\<not> prefix p k \<Longrightarrow> KV_Iter S (KV_Set S s k v) p = KV_Iter S s p"
  by (rule Iter_cong) (auto simp: Get_Set)

lemma Iter_Delete_other: "\<not> prefix p k \<Longrightarrow> KV_Iter S (KV_Delete S s k) p = KV_Iter S s p"
  by (rule Iter_cong) (auto simp: Get_Delete)

lemma Iter_empty: "KV_Iter S s p = [] \<longleftrightarrow> (\<forall>k. prefix p k \<longrightarrow> KV_Get S s k = None)"
proof -
  have "KV_Iter S s p = [] \<longleftrightarrow> fst ` set (KV_Iter S s p) = {}" by simp
  then show ?thesis unfolding Iter_keys by auto
qed

end

section \<open>A reference store\<close>

definition ref_iter :: "(string \<times> string) list \<Rightarrow> string \<Rightarrow> (string \<times> string) list" where
  "ref_iter s p = map (\<lambda>k. (k, the (map_of s k))) (sort (remdups (filter (prefix p) (map fst s))))"

definition ref_kv :: "(string \<times> string) list KVStore" where
  "ref_kv = \<lparr>
     KV_Get = map_of,
     KV_Set = (\<lambda>s k v. (k, v) # s),
     KV_Delete = (\<lambda>s k. filter (\<lambda>e. fst e \<noteq> k) s),
     KV_Iter = ref_iter\<rparr>"

lemma map_of_filter_fst: "map_of (filter (\<lambda>e. fst e \<noteq> k) s) k' = (if k' = k then None else map_of s k')"
  by (induction s) auto

lemma ref_iter_mem: "(k, v) \<in> set (ref_iter s p) \<longleftrightarrow> prefix p k \<and> map_of s k = Some v"
proof -
  have "(\<exists>v. map_of s k = Some v) \<longleftrightarrow> k \<in> fst ` set s"
    by (metis map_of_eq_None_iff not_None_eq)
  then show ?thesis by (auto simp: ref_iter_def image_iff)
qed

interpretation refkv: kv_laws ref_kv
proof (unfold_locales, goal_cases)
  case (1 s k v k') then show ?case by (simp add: ref_kv_def)
next
  case (2 s k k') then show ?case by (simp add: ref_kv_def map_of_filter_fst)
next
  case (3 k v s p) then show ?case by (simp add: ref_kv_def ref_iter_mem)
next
  case (4 s p)
  have "sorted_wrt (<) (sort (remdups (filter (prefix p) (map fst s))))"
    by (simp add: strict_sorted_iff)
  then show ?case by (simp add: ref_kv_def ref_iter_def o_def)
qed

end
