(* ===== verification/Token_Types.thy ===== *)
theory Token_Types
  imports Kv_Interface
begin

text \<open>
  The data of the token module (\<^verbatim>\<open>x/stoc/types\<close>) and its stateless validation: the native
  denominations (with \<^verbatim>\<open>x/evmutil/types/keys.go\<close>), the token record, the messages, the
  creation-time check \<open>Validate\<close>, the persistence check \<open>ValidateState\<close> and the
  \<open>ValidateBasic\<close> methods.

  Shown here: \<open>ValidateState\<close> accepts exactly the tokens of the declarative predicate
  \<open>token_ok\<close>; its minimal denominations are in one-to-one correspondence with pairs of a
  symbol and a counter; the 32-bit percentage loops compute the unbounded sum.
\<close>

section \<open>Native denominations\<close>

definition ConversionMultiplier :: int where
  "ConversionMultiplier = 1000000000000"

definition GetCosmosDenom :: "'x sdk_scheme \<Rightarrow> denom" where
  "GetCosmosDenom K = DefaultBondDenom K"

definition SafeGetEvmDenom :: "'x sdk_scheme \<Rightarrow> denom res" where
  "SafeGetEvmDenom K =
     (let cosmosDenom = DefaultBondDenom K
      in if length cosmosDenom < 2 \<or> hd cosmosDenom \<noteq> CHR ''u''
         then Inl (Errorf ''DefaultBondDenom must start with u'')
         else Inr (''a'' @ drop 1 cosmosDenom))"

definition GetEvmDenom :: "'x sdk_scheme \<Rightarrow> denom res" where
  "GetEvmDenom K =
     (case SafeGetEvmDenom K of Inl _ \<Rightarrow> Inl (GoPanic ''GetEvmDenom'') | Inr d \<Rightarrow> Inr d)"

definition IsNativeDenom :: "'x sdk_scheme \<Rightarrow> denom \<Rightarrow> bool" where
  "IsNativeDenom K d =
     (let cosmosDenom = DefaultBondDenom K
      in if d = cosmosDenom then True
         else if SafeGetEvmDenom K = Inr d then True
         else if 0 < length cosmosDenom \<and> hd cosmosDenom = CHR ''u''
                 \<and> d = drop 1 cosmosDenom then True
         else False)"

section \<open>Tokens and messages\<close>

record WalletDistribution =
  wdAddress :: string
  wdPercent :: u32

record TokenTax =
  txPercent :: "dec option"
  txRecipientAddress :: string

record Token =
  tkId :: string
  tkName :: string
  tkSymbol :: string
  tkInitialSupply :: "int option"
  tkTotalSupply :: "int option"
  tkDecimals :: u32
  tkLogo :: string
  tkDistributions :: "WalletDistribution list"
  tkTax :: TokenTax
  tkCreator :: string
  tkRemainingSupply :: "int option"
  tkUnlimited :: bool
  tkMinimalDenom :: string

record ReleaseRecipient =
  rrAddress :: string
  rrAmount :: "int option"

record MsgCreateToken =
  mcCreator :: string
  mcName :: string
  mcSymbol :: string
  mcInitialSupply :: "int option"
  mcTotalSupply :: "int option"
  mcDecimals :: u32
  mcLogo :: string
  mcDistributions :: "WalletDistribution list"
  mcTax :: TokenTax
  mcUnlimited :: bool

record MsgReleaseTokens =
  mrCreator :: string
  mrSymbol :: string
  mrDistributions :: "ReleaseRecipient list"

record MsgMintTokens =
  mmCreator :: string
  mmSymbol :: string
  mmAmount :: "int option"

record MsgBurnToken =
  mbCreator :: string
  mbAmount :: "int option"
  mbDenom :: denom
  mbBurnAll :: bool

record MsgUpdateParams =
  muAuthority :: string

definition MaxTokenSupply :: int where
  "MaxTokenSupply = 10 ^ 30"

definition MaxTaxPercent :: dec where
  "MaxTaxPercent = 5 * 10 ^ 17"

abbreviation (input) MaxDistributions :: nat where
  "MaxDistributions \<equiv> 20"

abbreviation (input) MaxTokenIDLength :: nat where
  "MaxTokenIDLength \<equiv> 64"

abbreviation (input) MaxMultiSendOutputs :: nat where
  "MaxMultiSendOutputs \<equiv> 50"

abbreviation (input) MaxQueryLimit :: nat where
  "MaxQueryLimit \<equiv> 100"

abbreviation (input) stocModule :: string where
  "stocModule \<equiv> ''stoc''"

definition TokenSymbolRegex :: "string \<Rightarrow> bool" where
  "TokenSymbolRegex s =
     (case s of [] \<Rightarrow> False
      | c # cs \<Rightarrow> is_alpha c \<and> list_all is_alnum cs \<and> length cs \<le> 31)"

definition blockedTaxRecipientModules :: "string list" where
  "blockedTaxRecipientModules =
     [''distribution'', ''gov'', ''bonded_tokens_pool'', ''not_bonded_tokens_pool'', stocModule]"

definition BlockedTaxRecipientModule :: "'x sdk_scheme \<Rightarrow> addr \<Rightarrow> string" where
  "BlockedTaxRecipientModule K a =
     (case find (\<lambda>name. a = NewModuleAddress K name) blockedTaxRecipientModules of
        Some name \<Rightarrow> name | None \<Rightarrow> [])"

definition validLogo :: "string \<Rightarrow> bool" where
  "validLogo s \<longleftrightarrow> HasPrefix s ''https://'' \<or> HasPrefix s ''ipfs://''"

section \<open>Validation for persistence\<close>

definition ValidateState_fields :: "Token \<Rightarrow> unit res list" where
  "ValidateState_fields t =
     [failIf (MaxTokenIDLength < length (tkId t)) (Errorf ''token id too long''),
      failIf (tkName t = []) (Errorf ''token name cannot be empty''),
      failIf (64 < length (tkName t)) (Errorf ''token name too long''),
      failIf (list_ex is_control (tkName t)) (Errorf ''token name control characters''),
      failIf (tkSymbol t = []) (Errorf ''token symbol cannot be empty''),
      failIf (\<not> TokenSymbolRegex (tkSymbol t)) (Errorf ''token symbol format''),
      failIf (18 < tkDecimals t) (Errorf ''decimals''),
      failIf (tkLogo t = []) (Errorf ''logo cannot be empty''),
      failIf (256 < length (tkLogo t)) (Errorf ''logo too long''),
      failIf (\<not> validLogo (tkLogo t)) (Errorf ''logo must be a valid URL''),
      failIf (nilOr (tkTotalSupply t) (\<lambda>v. v < 0)) (Errorf ''total supply nil or negative''),
      failWhen (tkTotalSupply t) (\<lambda>v. MaxTokenSupply < v) (Errorf ''total supply exceeds maximum''),
      failIf (notNilAnd (tkRemainingSupply t) (\<lambda>v. v < 0)) (Errorf ''remaining supply negative''),
      failIf (notNilAnd (tkRemainingSupply t) (\<lambda>r. notNilAnd (tkTotalSupply t) (\<lambda>v. v < r)))
        (Errorf ''remaining supply exceeds total supply'')]"

definition ValidateState_denom :: "Token \<Rightarrow> unit res list" where
  "ValidateState_denom t =
     (let expectedPrefix = tkSymbol t @ ''_'';
          suffix = TrimPrefix (tkMinimalDenom t) expectedPrefix
      in [failIf (tkMinimalDenom t = []) (Errorf ''minimal denom cannot be empty''),
          failIf (\<not> HasPrefix (tkMinimalDenom t) expectedPrefix) (Errorf ''minimal denom prefix''),
          failIf (suffix = []) (Errorf ''missing counter suffix''),
          failIf (list_ex (\<lambda>c. \<not> is_digit c) suffix)
            (Errorf ''counter suffix must be numeric''),
          failIf (TrimSpace (tkMinimalDenom t) \<noteq> tkMinimalDenom t) (Errorf ''contains whitespace''),
          tryE (ParseUint suffix)
            (\<lambda>parsed. failIf (FormatUint parsed \<noteq> suffix) (Errorf ''not in canonical form'')),
          failIf (tkId t \<noteq> [] \<and> tkId t \<noteq> tkMinimalDenom t) (Errorf ''token.Id mismatch'')])"

definition ValidateState_creator :: "'x sdk_scheme \<Rightarrow> Token \<Rightarrow> unit res list" where
  "ValidateState_creator K t =
     [failIf (tkCreator t = []) (Errorf ''creator address cannot be empty''),
      tryE (asErr (Errorf ''invalid creator address in state'') (AccAddressFromBech32 K (tkCreator t)))
        (\<lambda>a. failIf (AccAddress_String K a \<noteq> tkCreator t) (Errorf ''creator not canonical''))]"

definition ValidateState_tax :: "'x sdk_scheme \<Rightarrow> TokenTax \<Rightarrow> unit res" where
  "ValidateState_tax K tax =
     (case txPercent tax of None \<Rightarrow> Inr ()
      | Some p \<Rightarrow> allE
         [failIf (p < 0 \<or> MaxTaxPercent < p) (Errorf ''tax percentage''),
          (if txRecipientAddress tax \<noteq> []
           then tryE (asErr (Errorf ''invalid tax recipient'')
                       (AccAddressFromBech32 K (txRecipientAddress tax)))
                  (\<lambda>a. allE [failIf (AccAddress_String K a \<noteq> txRecipientAddress tax)
                                 (Errorf ''tax recipient not canonical''),
                              failIf (BlockedTaxRecipientModule K a \<noteq> [])
                                 (Errorf ''tax recipient module account'')])
           else Inr ()),
          failIf (0 < p \<and> txRecipientAddress tax = []) (Errorf ''tax recipient missing'')])"

definition ValidateState_distributions :: "'x sdk_scheme \<Rightarrow> WalletDistribution list \<Rightarrow> unit res" where
  "ValidateState_distributions K ds =
     (if MaxDistributions < length ds then Inl (Errorf ''too many distributions'')
      else if ds = [] then Inr ()
      else tryE (forE (\<lambda>dist totalPercent.
              tryE (asErr (Errorf ''invalid address in distribution'')
                     (AccAddressFromBech32 K (wdAddress dist)))
                (\<lambda>a. if AccAddress_String K a \<noteq> wdAddress dist
                      then Inl (Errorf ''distribution address not canonical'')
                      else if wdPercent dist = 0 \<or> 100 < wdPercent dist
                      then Inl (Errorf ''distribution percent'')
                      else if 100 - wdPercent dist < totalPercent
                      then Inl (Errorf ''distribution percentages overflow'')
                      else Inr (totalPercent + wdPercent dist))) ds 0)
            (\<lambda>totalPercent. failIf (totalPercent \<noteq> 100) (Errorf ''must sum to 100'')))"

definition ValidateState :: "'x sdk_scheme \<Rightarrow> Token \<Rightarrow> unit res" where
  "ValidateState K t =
     allE (ValidateState_fields t @ ValidateState_denom t @ ValidateState_creator K t
           @ [ValidateState_tax K (tkTax t), ValidateState_distributions K (tkDistributions t)])"

section \<open>Validation at creation\<close>

definition Validate_fields :: "Token \<Rightarrow> unit res list" where
  "Validate_fields t =
     [failIf (tkName t = []) (Errorf ''token name cannot be empty''),
      failIf (list_ex is_control (tkName t)) (Errorf ''token name control characters''),
      failIf (tkSymbol t = []) (Errorf ''token symbol cannot be empty''),
      failIf (\<not> TokenSymbolRegex (tkSymbol t)) (Errorf ''token symbol format''),
      failIf (18 < tkDecimals t) (Errorf ''decimals''),
      failIf (tkLogo t = []) (Errorf ''logo cannot be empty''),
      failIf (256 < length (tkLogo t)) (Errorf ''logo too long''),
      failIf (\<not> validLogo (tkLogo t)) (Errorf ''logo must be a valid URL'')]"

definition Validate_supply :: "Token \<Rightarrow> unit res list" where
  "Validate_supply t =
     [failIf (tkInitialSupply t = None) (Errorf ''initial supply cannot be nil''),
      failWhen (tkInitialSupply t) (\<lambda>v. v < 0) (Errorf ''initial supply negative''),
      failIf (tkTotalSupply t = None) (Errorf ''total supply cannot be nil''),
      failWhen (tkTotalSupply t) (\<lambda>v. v < 0) (Errorf ''total supply negative''),
      failWhen (tkInitialSupply t) (\<lambda>v. MaxTokenSupply < v) (Errorf ''initial supply exceeds maximum''),
      failWhen (tkTotalSupply t) (\<lambda>v. MaxTokenSupply < v) (Errorf ''total supply exceeds maximum''),
      failIf (notNilAnd (tkTotalSupply t) (\<lambda>v. notNilAnd (tkInitialSupply t) (\<lambda>i. v < i)))
        (Errorf ''total supply less than initial supply''),
      failIf (\<not> tkUnlimited t \<and> notNilAnd (tkTotalSupply t) (\<lambda>v. v = 0))
        (Errorf ''total supply zero for non-unlimited token''),
      failIf (tkMinimalDenom t = []) (Errorf ''minimal denom cannot be empty'')]"

definition Validate_distributions :: "'x sdk_scheme \<Rightarrow> WalletDistribution list \<Rightarrow> unit res" where
  "Validate_distributions K ds =
     (if MaxDistributions < length ds then Inl (Errorf ''too many distributions'')
      else if ds = [] then Inr ()
      else tryE (forE (\<lambda>dist totalPercent.
              tryE (asErr (Errorf ''invalid address in distribution'')
                     (AccAddressFromBech32 K (wdAddress dist)))
                (\<lambda>_. if wdPercent dist = 0 \<or> 100 < wdPercent dist
                      then Inl (Errorf ''distribution percent'')
                      else if 100 - wdPercent dist < totalPercent
                      then Inl (Errorf ''distribution percentages overflow'')
                      else Inr (totalPercent + wdPercent dist))) ds 0)
            (\<lambda>totalPercent. failIf (totalPercent \<noteq> 100) (Errorf ''must sum to 100'')))"

definition Validate_tax :: "'x sdk_scheme \<Rightarrow> TokenTax \<Rightarrow> unit res" where
  "Validate_tax K tax =
     (case txPercent tax of None \<Rightarrow> Inr ()
      | Some p \<Rightarrow>
          if p < 0 \<or> MaxTaxPercent < p then Inl (Errorf ''tax percentage'')
          else if 0 < p then
            if txRecipientAddress tax = [] then Inl (Errorf ''tax recipient missing'')
            else tryE (asErr (Errorf ''invalid tax recipient'')
                        (AccAddressFromBech32 K (txRecipientAddress tax))) (\<lambda>_. Inr ())
          else Inr ())"

definition Validate :: "'x sdk_scheme \<Rightarrow> Token \<Rightarrow> unit res" where
  "Validate K t =
     allE (Validate_fields t @ Validate_supply t
           @ [(if tkCreator t \<noteq> []
               then tryE (asErr (Errorf ''invalid creator address'')
                           (AccAddressFromBech32 K (tkCreator t))) (\<lambda>_. Inr ())
               else Inr ()),
              Validate_distributions K (tkDistributions t),
              Validate_tax K (tkTax t)])"

section \<open>Stateless message validation\<close>

definition ValidateBasic_create_fields :: "'x sdk_scheme \<Rightarrow> MsgCreateToken \<Rightarrow> unit res list" where
  "ValidateBasic_create_fields K m =
     [tryE (AccAddressFromBech32 K (mcCreator m)) (\<lambda>_. Inr ()),
      failIf (mcName m = []) ErrInvalidToken,
      failIf (64 < length (mcName m)) ErrInvalidToken,
      failIf (list_ex is_control (mcName m)) ErrInvalidToken,
      failIf (mcSymbol m = []) ErrInvalidTokenSymbol,
      failIf (\<not> TokenSymbolRegex (mcSymbol m)) ErrInvalidTokenSymbol,
      failIf (18 < mcDecimals m) ErrInvalidToken,
      failIf (mcLogo m = []) ErrInvalidToken,
      failIf (256 < length (mcLogo m)) ErrInvalidToken,
      failIf (\<not> validLogo (mcLogo m)) ErrInvalidToken,
      failIf (nilOr (mcInitialSupply m) (\<lambda>v. v < 0)) ErrInvalidTokenAmount,
      failWhen (mcInitialSupply m) (\<lambda>v. MaxTokenSupply < v) ErrInvalidTokenAmount,
      failIf (nilOr (mcTotalSupply m) (\<lambda>v. v < 0)) ErrInvalidTokenAmount,
      failWhen (mcTotalSupply m) (\<lambda>v. MaxTokenSupply < v) ErrInvalidTokenAmount,
      failIf (notNilAnd (mcTotalSupply m) (\<lambda>v. notNilAnd (mcInitialSupply m) (\<lambda>i. v < i)))
        ErrInvalidTokenAmount,
      failIf (\<not> mcUnlimited m \<and> notNilAnd (mcTotalSupply m) (\<lambda>v. v = 0)) ErrInvalidTokenAmount]"

definition ValidateBasic_create_distributions :: "'x sdk_scheme \<Rightarrow> WalletDistribution list \<Rightarrow> unit res" where
  "ValidateBasic_create_distributions K ds =
     (if MaxDistributions < length ds then Inl ErrInvalidToken
      else if ds = [] then Inr ()
      else tryE (forE (\<lambda>dist (seenAddrs, totalPercent).
              tryE (asErr ErrInvalidAddress (AccAddressFromBech32 K (wdAddress dist)))
                (\<lambda>a. let canonical = AccAddress_String K a
                      in if canonical \<in> set seenAddrs then Inl ErrInvalidToken
                      else if wdPercent dist = 0 \<or> 100 < wdPercent dist then Inl ErrInvalidToken
                      else Inr (canonical # seenAddrs, totalPercent + wdPercent dist)))
              ds ([], 0))
            (\<lambda>(_, totalPercent). failIf (totalPercent \<noteq> 100) ErrInvalidToken))"

definition ValidateBasic_create_tax :: "'x sdk_scheme \<Rightarrow> TokenTax \<Rightarrow> unit res" where
  "ValidateBasic_create_tax K tax =
     (case txPercent tax of None \<Rightarrow> Inr ()
      | Some p \<Rightarrow>
          if p < 0 then Inl ErrInvalidToken
          else if MaxTaxPercent < p then Inl ErrInvalidToken
          else if 0 < p then
            if txRecipientAddress tax = [] then Inl ErrInvalidTaxRecipient
            else tryE (asErr ErrInvalidTaxRecipient (AccAddressFromBech32 K (txRecipientAddress tax)))
                   (\<lambda>a. failIf (BlockedTaxRecipientModule K a \<noteq> []) ErrInvalidTaxRecipient)
          else Inr ())"

definition MsgCreateToken_ValidateBasic :: "'x sdk_scheme \<Rightarrow> MsgCreateToken \<Rightarrow> unit res" where
  "MsgCreateToken_ValidateBasic K m =
     allE (ValidateBasic_create_fields K m
           @ [ValidateBasic_create_distributions K (mcDistributions m),
              ValidateBasic_create_tax K (mcTax m)])"

definition MsgMintTokens_ValidateBasic :: "'x sdk_scheme \<Rightarrow> MsgMintTokens \<Rightarrow> unit res" where
  "MsgMintTokens_ValidateBasic K m =
     allE [tryE (AccAddressFromBech32 K (mmCreator m)) (\<lambda>_. Inr ()),
           failIf (mmSymbol m = []) ErrInvalidTokenSymbol,
           asErr ErrInvalidTokenSymbol (ValidateDenom K (mmSymbol m)),
           failIf (nilOr (mmAmount m) (\<lambda>v. v = 0 \<or> v < 0)) ErrInvalidAmount,
           failWhen (mmAmount m) (\<lambda>v. MaxTokenSupply < v) ErrInvalidAmount]"

definition MsgBurnToken_ValidateBasic :: "'x sdk_scheme \<Rightarrow> MsgBurnToken \<Rightarrow> unit res" where
  "MsgBurnToken_ValidateBasic K m =
     allE [tryE (AccAddressFromBech32 K (mbCreator m)) (\<lambda>_. Inr ()),
           failIf (mbDenom m = []) ErrInvalidTokenSymbol,
           asErr ErrInvalidTokenSymbol (ValidateDenom K (mbDenom m)),
           (if \<not> mbBurnAll m
            then allE [failIf (nilOr (mbAmount m) (\<lambda>v. \<not> 0 < v)) ErrInvalidAmount,
                       failWhen (mbAmount m) (\<lambda>v. MaxTokenSupply < v) ErrInvalidAmount]
            else Inr ()),
           failIf (mbBurnAll m \<and> notNilAnd (mbAmount m) (\<lambda>v. 0 < v)) ErrInvalidAmount]"

definition MsgReleaseTokens_ValidateBasic :: "'x sdk_scheme \<Rightarrow> MsgReleaseTokens \<Rightarrow> unit res" where
  "MsgReleaseTokens_ValidateBasic K m =
     allE [tryE (AccAddressFromBech32 K (mrCreator m)) (\<lambda>_. Inr ()),
           failIf (mrSymbol m = []) ErrInvalidTokenSymbol,
           asErr ErrInvalidTokenSymbol (ValidateDenom K (mrSymbol m)),
           failIf (length (mrDistributions m) = 0) ErrInvalidAmount,
           failIf (MaxMultiSendOutputs < length (mrDistributions m)) ErrInvalidAmount,
           tryE (forE (\<lambda>dist seenAddrs.
                   tryE (AccAddressFromBech32 K (rrAddress dist))
                     (\<lambda>a. let canonical = AccAddress_String K a
                           in if canonical \<in> set seenAddrs then Inl ErrInvalidAmount
                           else tryE (allE
                                 [failIf (nilOr (rrAmount dist) (\<lambda>v. v = 0 \<or> v < 0)) ErrInvalidAmount,
                                  failWhen (rrAmount dist) (\<lambda>v. MaxTokenSupply < v) ErrInvalidAmount])
                                 (\<lambda>_. Inr (canonical # seenAddrs))))
                   (mrDistributions m) [])
             (\<lambda>_. Inr ())]"

definition Params_Validate :: "unit res" where
  "Params_Validate = Inr ()"

definition MsgUpdateParams_ValidateBasic :: "'x sdk_scheme \<Rightarrow> MsgUpdateParams \<Rightarrow> unit res" where
  "MsgUpdateParams_ValidateBasic K m =
     allE [tryE (AccAddressFromBech32 K (muAuthority m)) (\<lambda>_. Inr ()), Params_Validate]"

text \<open>\<open>GetSigners\<close> of the messages: the account that signs, or nobody for an address that does
  not parse.\<close>

definition GetSigners_of :: "'x sdk_scheme \<Rightarrow> string \<Rightarrow> addr list" where
  "GetSigners_of K s = (case AccAddressFromBech32 K s of Inl _ \<Rightarrow> [] | Inr a \<Rightarrow> [a])"

section \<open>Minimal denominations\<close>

text \<open>The shape of a minimal denomination: the symbol, an underscore, the counter in decimal.\<close>

definition denom_of :: "string \<Rightarrow> u64 \<Rightarrow> denom" where
  "denom_of s w = s @ ''_'' @ FormatUint w"

lemma symbol_no_underscore: "TokenSymbolRegex s \<Longrightarrow> CHR ''_'' \<notin> set s"
  using underscore_not_alnum
  by (auto simp: TokenSymbolRegex_def list_all_iff is_alnum_def split: list.splits)

lemma symbol_nonempty: "TokenSymbolRegex s \<Longrightarrow> s \<noteq> []"
  by (auto simp: TokenSymbolRegex_def)

lemma split_at_char:
  "c \<notin> set xs \<Longrightarrow> c \<notin> set xs' \<Longrightarrow> xs @ c # ys = xs' @ c # ys' \<longleftrightarrow> xs = xs' \<and> ys = ys'"
proof (induction xs arbitrary: xs')
  case Nil then show ?case by (cases xs') auto
next
  case (Cons a xs) then show ?case by (cases xs') auto
qed

lemma denom_of_inject:
  "TokenSymbolRegex s \<Longrightarrow> TokenSymbolRegex s' \<Longrightarrow> denom_of s w = denom_of s' w' \<longleftrightarrow> s = s' \<and> w = w'"
  using split_at_char [of "CHR ''_''" s s' "FormatUint w" "FormatUint w'"]
  by (simp add: denom_of_def symbol_no_underscore)

lemma denom_of_TrimPrefix: "TrimPrefix (denom_of s w) (s @ ''_'') = FormatUint w"
  unfolding denom_of_def using TrimPrefix_append [of "s @ ''_''" "FormatUint w"] by simp

lemma denom_of_HasPrefix: "HasPrefix (denom_of s w) (s @ ''_'')"
  unfolding denom_of_def using HasPrefix_append [of "s @ ''_''" "FormatUint w"] by simp

lemma denom_of_nonempty [simp]: "denom_of s w \<noteq> []" "[] \<noteq> denom_of s w"
  by (simp_all add: denom_of_def)

lemma denom_of_TrimSpace:
  assumes "TokenSymbolRegex s"
  shows "TrimSpace (denom_of s w) = denom_of s w"
proof (rule TrimSpace_id)
  from assms obtain c cs where s: "s = c # cs" and "is_alpha c"
    by (auto simp: TokenSymbolRegex_def split: list.splits)
  then show "\<not> is_space (hd (denom_of s w))"
    by (simp add: denom_of_def alpha_not_space)
  have "last (denom_of s w) = last (FormatUint w)" by (simp add: denom_of_def)
  moreover have "is_digit (last (FormatUint w))"
    using FormatUint_digits [of w] by (simp add: list_all_iff)
  ultimately show "\<not> is_space (last (denom_of s w))"
    by (simp add: digit_not_space)
qed simp

lemma denom_of_length: "TokenSymbolRegex s \<Longrightarrow> length (denom_of s w) \<le> 53"
  using FormatUint_length [of w]
  by (auto simp: denom_of_def TokenSymbolRegex_def split: list.splits)

text \<open>The denomination block of \<open>ValidateState\<close> accepts exactly these denominations.\<close>

lemma ValidateState_denom_iff:
  assumes "TokenSymbolRegex (tkSymbol t)"
  shows "list_all (\<lambda>r. r = Inr ()) (ValidateState_denom t) \<longleftrightarrow>
    (\<exists>w. tkMinimalDenom t = denom_of (tkSymbol t) w) \<and> (tkId t = [] \<or> tkId t = tkMinimalDenom t)"
proof
  assume "list_all (\<lambda>r. r = Inr ()) (ValidateState_denom t)"
  then obtain w where "HasPrefix (tkMinimalDenom t) (tkSymbol t @ ''_'')"
      and w: "FormatUint w = TrimPrefix (tkMinimalDenom t) (tkSymbol t @ ''_'')"
      and "tkId t = [] \<or> tkId t = tkMinimalDenom t"
    by (auto simp: ValidateState_denom_def Let_def)
  moreover from HasPrefix_TrimPrefix [OF this(1)] w
  have "tkMinimalDenom t = denom_of (tkSymbol t) w" by (simp add: denom_of_def)
  ultimately show "(\<exists>w. tkMinimalDenom t = denom_of (tkSymbol t) w) \<and>
    (tkId t = [] \<or> tkId t = tkMinimalDenom t)" by blast
next
  assume "(\<exists>w. tkMinimalDenom t = denom_of (tkSymbol t) w) \<and>
    (tkId t = [] \<or> tkId t = tkMinimalDenom t)"
  then obtain w where "tkMinimalDenom t = denom_of (tkSymbol t) w"
    and "tkId t = [] \<or> tkId t = tkMinimalDenom t" by blast
  moreover have "\<not> list_ex (\<lambda>c. \<not> is_digit c) (FormatUint w)"
    using FormatUint_digits [of w] by (auto simp: list_ex_iff list_all_iff)
  ultimately show "list_all (\<lambda>r. r = Inr ()) (ValidateState_denom t)"
    using denom_of_TrimSpace [OF assms, of w]
    by (auto simp: ValidateState_denom_def Let_def denom_of_TrimPrefix denom_of_HasPrefix)
qed

section \<open>Percentage loops\<close>

definition sum_percent :: "WalletDistribution list \<Rightarrow> nat" where
  "sum_percent ds = (\<Sum>d \<leftarrow> ds. unat (wdPercent d))"

definition percents_ok :: "WalletDistribution list \<Rightarrow> bool" where
  "percents_ok ds = list_all (\<lambda>d. 1 \<le> unat (wdPercent d) \<and> unat (wdPercent d) \<le> 100) ds"

lemma sum_percent_simps [simp]:
  "sum_percent [] = 0" "sum_percent (d # ds) = unat (wdPercent d) + sum_percent ds"
  by (simp_all add: sum_percent_def)

lemma percents_ok_simps [simp]:
  "percents_ok []"
  "percents_ok (d # ds) \<longleftrightarrow> 1 \<le> unat (wdPercent d) \<and> unat (wdPercent d) \<le> 100 \<and> percents_ok ds"
  by (simp_all add: percents_ok_def)

lemma percent_bad: "(p = 0 \<or> 100 < p) \<longleftrightarrow> \<not> (1 \<le> unat p \<and> unat p \<le> 100)" for p :: u32
  by (auto simp: word_less_nat_alt unat_eq_0 unat_gt_0 Suc_le_eq)

lemma percent_guard:
  fixes p tot :: u32
  assumes "unat p \<le> 100" and "unat tot \<le> 100"
  shows "100 - p < tot \<longleftrightarrow> 100 < unat tot + unat p"
    and "unat (tot + p) = unat tot + unat p"
proof -
  have "p \<le> 100" using assms(1) by (simp add: word_le_nat_alt)
  then have "unat (100 - p) = 100 - unat p" by (simp add: unat_sub)
  then show "100 - p < tot \<longleftrightarrow> 100 < unat tot + unat p"
    using assms by (auto simp: word_less_nat_alt)
  show "unat (tot + p) = unat tot + unat p"
    using assms by (subst unat_plus_simple [THEN iffD1]) (auto simp: no_olen_add_nat)
qed

text \<open>The guarded loop, shared by \<open>Validate\<close> and \<open>ValidateState\<close>: it succeeds exactly when
  every address passes \<open>chk\<close>, every percentage is in range and the sum stays within 100, and
  the 32-bit total it returns is that sum.\<close>

definition pct_body :: "(string \<Rightarrow> unit res) \<Rightarrow> WalletDistribution \<Rightarrow> u32 \<Rightarrow> u32 res" where
  "pct_body chk dist tot =
     tryE (chk (wdAddress dist))
       (\<lambda>_. if wdPercent dist = 0 \<or> 100 < wdPercent dist then Inl (Errorf ''distribution percent'')
            else if 100 - wdPercent dist < tot then Inl (Errorf ''distribution percentages overflow'')
            else Inr (tot + wdPercent dist))"

lemma pct_body_Inr:
  assumes "unat tot \<le> 100"
  shows "pct_body chk d tot = Inr tot' \<longleftrightarrow>
    chk (wdAddress d) = Inr () \<and> 1 \<le> unat (wdPercent d) \<and>
    unat tot + unat (wdPercent d) \<le> 100 \<and> unat tot' = unat tot + unat (wdPercent d)"
  using percent_guard [OF _ assms, of "wdPercent d"]
  unfolding pct_body_def percent_bad by (auto simp: word_unat_eq_iff not_less)

lemma pct_loop:
  assumes "unat tot \<le> 100"
  shows "forE (pct_body chk) ds tot = Inr tot' \<longleftrightarrow>
    (\<forall>d \<in> set ds. chk (wdAddress d) = Inr ()) \<and> percents_ok ds \<and>
    unat tot + sum_percent ds \<le> 100 \<and> unat tot' = unat tot + sum_percent ds"
  using assms
proof (induction ds arbitrary: tot)
  case Nil
  then show ?case by (auto simp: word_unat_eq_iff)
next
  case (Cons d ds)
  show ?case
  proof (cases "pct_body chk d tot")
    case (Inl e)
    then have "pct_body chk d tot \<noteq> Inr (tot + wdPercent d)" by simp
    with pct_body_Inr [OF Cons.prems, of chk d] percent_guard(2) [OF _ Cons.prems, of "wdPercent d"]
    have "\<not> (chk (wdAddress d) = Inr () \<and> 1 \<le> unat (wdPercent d) \<and>
      unat tot + unat (wdPercent d) \<le> 100)" by auto
    with Inl show ?thesis by auto
  next
    case (Inr u)
    with pct_body_Inr [OF Cons.prems, of chk d u] Cons.IH [of u] show ?thesis by auto
  qed
qed

section \<open>What the validators accept\<close>

definition dists_ok :: "'x sdk_scheme \<Rightarrow> WalletDistribution list \<Rightarrow> bool" where
  "dists_ok K ds \<longleftrightarrow> ds = [] \<or>
     length ds \<le> MaxDistributions \<and> (\<forall>d \<in> set ds. canonical K (wdAddress d)) \<and>
     percents_ok ds \<and> sum_percent ds = 100"

definition tax_ok :: "'x sdk_scheme \<Rightarrow> TokenTax \<Rightarrow> bool" where
  "tax_ok K tax \<longleftrightarrow> (\<forall>p. txPercent tax = Some p \<longrightarrow>
     0 \<le> p \<and> p \<le> MaxTaxPercent \<and> (0 < p \<longrightarrow> txRecipientAddress tax \<noteq> []) \<and>
     (txRecipientAddress tax \<noteq> [] \<longrightarrow> canonical K (txRecipientAddress tax) \<and>
        (\<forall>m \<in> set blockedTaxRecipientModules.
           AccAddressFromBech32 K (txRecipientAddress tax) \<noteq> Inr (NewModuleAddress K m))))"

definition token_ok :: "'x sdk_scheme \<Rightarrow> Token \<Rightarrow> bool" where
  "token_ok K t \<longleftrightarrow>
     tkName t \<noteq> [] \<and> length (tkName t) \<le> 64 \<and> list_all (\<lambda>c. \<not> is_control c) (tkName t) \<and>
     TokenSymbolRegex (tkSymbol t) \<and> tkDecimals t \<le> 18 \<and>
     length (tkLogo t) \<le> 256 \<and> validLogo (tkLogo t) \<and>
     (\<exists>T. tkTotalSupply t = Some T \<and> 0 \<le> T \<and> T \<le> MaxTokenSupply \<and>
        (\<forall>r. tkRemainingSupply t = Some r \<longrightarrow> 0 \<le> r \<and> r \<le> T)) \<and>
     (\<exists>w. tkMinimalDenom t = denom_of (tkSymbol t) w) \<and>
     (tkId t = [] \<or> tkId t = tkMinimalDenom t) \<and>
     tkCreator t \<noteq> [] \<and> canonical K (tkCreator t) \<and>
     tax_ok K (tkTax t) \<and> dists_ok K (tkDistributions t)"

lemma BlockedTaxRecipientModule_empty:
  "BlockedTaxRecipientModule K a = [] \<longleftrightarrow> a \<notin> NewModuleAddress K ` set blockedTaxRecipientModules"
  by (auto simp: BlockedTaxRecipientModule_def blockedTaxRecipientModules_def)

lemma ValidateState_tax_iff: "ValidateState_tax K tax = Inr () \<longleftrightarrow> tax_ok K tax"
proof (cases "txPercent tax")
  case None
  then show ?thesis by (simp add: ValidateState_tax_def tax_ok_def)
next
  case (Some p)
  then show ?thesis
    by (cases "AccAddressFromBech32 K (txRecipientAddress tax)")
      (auto simp: ValidateState_tax_def tax_ok_def canonical_def BlockedTaxRecipientModule_empty
        not_less)
qed

lemma ValidateState_distributions_eq:
  "ValidateState_distributions K ds =
     (if MaxDistributions < length ds then Inl (Errorf ''too many distributions'')
      else if ds = [] then Inr ()
      else tryE (forE (pct_body (\<lambda>s. tryE (asErr (Errorf ''invalid address in distribution'')
                          (AccAddressFromBech32 K s))
                   (\<lambda>a. failIf (AccAddress_String K a \<noteq> s)
                           (Errorf ''distribution address not canonical'')))) ds 0)
            (\<lambda>totalPercent. failIf (totalPercent \<noteq> 100) (Errorf ''must sum to 100'')))"
proof -
  have "(\<lambda>dist totalPercent.
          tryE (asErr (Errorf ''invalid address in distribution'') (AccAddressFromBech32 K (wdAddress dist)))
            (\<lambda>a. if AccAddress_String K a \<noteq> wdAddress dist
                 then Inl (Errorf ''distribution address not canonical'')
                 else if wdPercent dist = 0 \<or> 100 < wdPercent dist
                 then Inl (Errorf ''distribution percent'')
                 else if 100 - wdPercent dist < totalPercent
                 then Inl (Errorf ''distribution percentages overflow'')
                 else Inr (totalPercent + wdPercent dist)))
    = pct_body (\<lambda>s. tryE (asErr (Errorf ''invalid address in distribution'')
                          (AccAddressFromBech32 K s))
                   (\<lambda>a. failIf (AccAddress_String K a \<noteq> s)
                           (Errorf ''distribution address not canonical'')))"
    by (auto simp: pct_body_def fun_eq_iff tryE_def failIf_def split: sum.splits)
  then show ?thesis unfolding ValidateState_distributions_def by presburger
qed

lemma pct_total_100:
  "forE (pct_body chk) ds 0 = Inr 100 \<longleftrightarrow>
     (\<forall>d \<in> set ds. chk (wdAddress d) = Inr ()) \<and> percents_ok ds \<and> sum_percent ds = 100"
  by (auto simp: pct_loop)

lemma pct_checked:
  "tryE (forE (pct_body chk) ds 0) (\<lambda>tot. failIf (tot \<noteq> 100) e) = Inr () \<longleftrightarrow>
     (\<forall>d \<in> set ds. chk (wdAddress d) = Inr ()) \<and> percents_ok ds \<and> sum_percent ds = 100"
  unfolding pct_total_100 [symmetric] by auto

lemma ValidateState_distributions_iff:
  "ValidateState_distributions K ds = Inr () \<longleftrightarrow> dists_ok K ds"
proof -
  have "tryE (asErr e (AccAddressFromBech32 K s)) (\<lambda>a. failIf (AccAddress_String K a \<noteq> s) e') = Inr ()
      \<longleftrightarrow> canonical K s" for s e e'
    by (simp add: canonical_def)
  then show ?thesis
    unfolding ValidateState_distributions_eq dists_ok_def by (auto simp: pct_checked simp del: tryE_Inr)
qed

text \<open>The persistence check of a token, \<open>ValidateState\<close>, accepts a token exactly when it is
  well formed (\<open>token_ok\<close>): bounded printable name, symbol and logo, at most 18 decimals, a
  total supply between 0 and \<open>10 ^ 30\<close> that covers the remaining supply, a minimal
  denomination that is the symbol, an underscore and a canonical 64-bit counter, an id that is
  empty or that denomination, a canonical creator address, a tax of at most one half with a
  canonical recipient that is no blocked module account, and distributions that are absent or
  at most 20 canonical entries of 1 to 100 percent that add up to exactly 100.
\<close>

theorem ValidateState_correct: "ValidateState K t = Inr () \<longleftrightarrow> token_ok K t"
proof (cases "TokenSymbolRegex (tkSymbol t)")
  case False
  then show ?thesis by (simp add: ValidateState_def ValidateState_fields_def token_ok_def)
next
  case True
  have logo: "validLogo s \<Longrightarrow> s \<noteq> []" for s by (auto simp: validLogo_def HasPrefix_def)
  have fields: "list_all (\<lambda>r. r = Inr ()) (ValidateState_fields t) \<longleftrightarrow>
     length (tkId t) \<le> 64 \<and> tkName t \<noteq> [] \<and> length (tkName t) \<le> 64 \<and>
     list_all (\<lambda>c. \<not> is_control c) (tkName t) \<and> tkDecimals t \<le> 18 \<and>
     length (tkLogo t) \<le> 256 \<and> validLogo (tkLogo t) \<and>
     (\<exists>T. tkTotalSupply t = Some T \<and> 0 \<le> T \<and> T \<le> MaxTokenSupply \<and>
        (\<forall>r. tkRemainingSupply t = Some r \<longrightarrow> 0 \<le> r \<and> r \<le> T))"
    using True logo symbol_nonempty [OF True]
    by (auto simp: ValidateState_fields_def not_notNilAnd not_less list_ex_iff list_all_iff)
  have creator: "list_all (\<lambda>r. r = Inr ()) (ValidateState_creator K t) \<longleftrightarrow>
     tkCreator t \<noteq> [] \<and> canonical K (tkCreator t)"
    by (auto simp: ValidateState_creator_def canonical_def)
  have "length (denom_of (tkSymbol t) w) \<le> 64" for w using denom_of_length [OF True, of w] by simp
  then show ?thesis
    using True by (auto simp: ValidateState_def token_ok_def fields creator ValidateState_denom_iff
        ValidateState_tax_iff ValidateState_distributions_iff)
qed

text \<open>The message check keeps the addresses it has seen in canonical form and adds the
  percentages without a guard; the cap on the number of entries keeps the 32-bit sum exact.\<close>

definition canon :: "'x sdk_scheme \<Rightarrow> string \<Rightarrow> string" where
  "canon K s = (case AccAddressFromBech32 K s of Inl _ \<Rightarrow> [] | Inr a \<Rightarrow> AccAddress_String K a)"

definition parses :: "'x sdk_scheme \<Rightarrow> string \<Rightarrow> bool" where
  "parses K s = (\<exists>a. AccAddressFromBech32 K s = Inr a)"

lemma parses_simps [simp]:
  "AccAddressFromBech32 K s = Inr a \<Longrightarrow> parses K s"
  "AccAddressFromBech32 K s = Inl e \<Longrightarrow> \<not> parses K s"
  by (simp_all add: parses_def)

definition basic_body where
  "basic_body K dist st = (case st of (seenAddrs, totalPercent) \<Rightarrow>
     tryE (asErr ErrInvalidAddress (AccAddressFromBech32 K (wdAddress dist)))
       (\<lambda>a. let canonical = AccAddress_String K a
             in if canonical \<in> set seenAddrs then Inl ErrInvalidToken
             else if wdPercent dist = 0 \<or> 100 < wdPercent dist then Inl ErrInvalidToken
             else Inr (canonical # seenAddrs, totalPercent + wdPercent dist)))"

lemma basic_body_Inr:
  "basic_body K d (seen, tot) = Inr st \<longleftrightarrow>
     parses K (wdAddress d) \<and> canon K (wdAddress d) \<notin> set seen \<and>
     1 \<le> unat (wdPercent d) \<and> unat (wdPercent d) \<le> 100 \<and>
     st = (canon K (wdAddress d) # seen, tot + wdPercent d)"
  unfolding basic_body_def percent_bad
  by (cases "AccAddressFromBech32 K (wdAddress d)") (auto simp: Let_def canon_def)

lemma basic_loop:
  assumes "unat tot + 100 * length ds < 2 ^ 32"
  shows "(\<exists>seen'. forE (basic_body K) ds (seen, tot) = Inr (seen', tot')) \<longleftrightarrow>
    (\<forall>d \<in> set ds. parses K (wdAddress d)) \<and> distinct (map (canon K \<circ> wdAddress) ds) \<and>
    set seen \<inter> (canon K \<circ> wdAddress) ` set ds = {} \<and> percents_ok ds \<and>
    unat tot' = unat tot + sum_percent ds"
  using assms
proof (induction ds arbitrary: seen tot)
  case Nil
  then show ?case by (auto simp: word_unat_eq_iff)
next
  case (Cons d ds)
  show ?case
  proof (cases "\<exists>st. basic_body K d (seen, tot) = Inr st")
    case False
    then have "\<not> (parses K (wdAddress d) \<and> canon K (wdAddress d) \<notin> set seen \<and>
      1 \<le> unat (wdPercent d) \<and> unat (wdPercent d) \<le> 100)"
      unfolding basic_body_Inr by blast
    with False show ?thesis by auto
  next
    case True
    then have step: "basic_body K d (seen, tot) = Inr (canon K (wdAddress d) # seen, tot + wdPercent d)"
      and ok: "parses K (wdAddress d)" "canon K (wdAddress d) \<notin> set seen"
        "1 \<le> unat (wdPercent d)" "unat (wdPercent d) \<le> 100"
      by (auto simp: basic_body_Inr)
    then have "unat (tot + wdPercent d) = unat tot + unat (wdPercent d)"
      using Cons.prems by (subst unat_plus_simple [THEN iffD1]) (auto simp: no_olen_add_nat)
    with step ok Cons.prems Cons.IH [of "tot + wdPercent d" "canon K (wdAddress d) # seen"]
    show ?thesis by (auto simp: o_def)
  qed
qed

text \<open>The distribution check of \<open>MsgCreateToken.ValidateBasic\<close> accepts a list exactly when it is
  empty, or has at most 20 entries whose addresses parse and are pairwise different in canonical
  form, with percentages between 1 and 100 whose sum, as an unbounded number, is 100. In
  particular the unguarded 32-bit addition of the loop never wraps around.
\<close>

theorem ValidateBasic_create_distributions_correct:
  "ValidateBasic_create_distributions K ds = Inr () \<longleftrightarrow> ds = [] \<or>
     length ds \<le> 20 \<and> (\<forall>d \<in> set ds. parses K (wdAddress d)) \<and>
     distinct (map (canon K \<circ> wdAddress) ds) \<and> percents_ok ds \<and> sum_percent ds = 100"
proof (cases "ds = [] \<or> 20 < length ds")
  case True
  then show ?thesis by (auto simp: ValidateBasic_create_distributions_def)
next
  case False
  have "ValidateBasic_create_distributions K ds =
      tryE (forE (basic_body K) ds ([], 0)) (\<lambda>(_, tot). failIf (tot \<noteq> 100) ErrInvalidToken)"
    using False unfolding ValidateBasic_create_distributions_def basic_body_def
    by (simp add: case_prod_unfold)
  then have "ValidateBasic_create_distributions K ds = Inr () \<longleftrightarrow>
      (\<exists>seen'. forE (basic_body K) ds ([], 0) = Inr (seen', 100))" by auto
  with False show ?thesis by (simp add: basic_loop)
qed

theorem ValidateBasic_create_distributions_witness:
  "ValidateBasic_create_distributions ref_sdk
     [\<lparr>wdAddress = ''alice'', wdPercent = 60\<rparr>, \<lparr>wdAddress = ''bob'', wdPercent = 40\<rparr>] = Inr ()"
  by (subst ValidateBasic_create_distributions_correct)
    (simp add: parses_def ref_sdk_def ref_FromBech32_def is_lower_def code_of_def canon_def)

end
