(* ===== verification/Token_Keeper.thy ===== *)
theory Token_Keeper
  imports Token_Types
begin

text \<open>
  The keeper of the token module (\<^verbatim>\<open>x/stoc/keeper\<close>): its wiring, the layout of its store and
  the operations on it. The store holds

  \<^item> \<open>Token-\<close> followed by the minimal denomination: the encoded token;
  \<^item> \<open>TokenSymbol-\<close> followed by symbol, colon, id: the symbol index, with value 1;
  \<^item> \<open>TokenCounter-\<close>: the counter of issued tokens, 8 bytes big endian;
  \<^item> \<open>p_stoc\<close>: the module parameters.

  \<open>Keeper\<close> is the keeper struct; the state a handler runs on is \<open>ctx\<close>, the module's store, the
  bank's state and the events emitted so far. The locale \<open>stoc_env\<close> collects what the module
  needs of its environment (SDK, bank, store, codec, and that the module's account is blocked);
  the client lemmas about lookups after writes are proved in it.
\<close>

section \<open>The keeper and its environment\<close>

record ('s, 'b) Keeper = sdk +
  storeService :: "'s KVStore"
  cdc_MarshalToken :: "Token \<Rightarrow> string res"
  cdc_UnmarshalToken :: "string \<Rightarrow> Token res"
  cdc_MarshalParams :: "string"
  authority :: string
  bankKeeper :: "'b BankKeeper"

record ('s, 'b) ctx =
  store :: 's
  bank :: 'b
  events :: "event list"

text \<open>What the binary codec does to a token: a nil number is written as zero.\<close>

definition norm_token :: "Token \<Rightarrow> Token" where
  "norm_token t = t\<lparr>
     tkInitialSupply := Some (case tkInitialSupply t of None \<Rightarrow> 0 | Some v \<Rightarrow> v),
     tkTotalSupply := Some (case tkTotalSupply t of None \<Rightarrow> 0 | Some v \<Rightarrow> v),
     tkRemainingSupply := Some (case tkRemainingSupply t of None \<Rightarrow> 0 | Some v \<Rightarrow> v),
     tkTax := (tkTax t)\<lparr>txPercent := Some (case txPercent (tkTax t) of None \<Rightarrow> 0 | Some v \<Rightarrow> v)\<rparr>\<rparr>"

definition fits256 :: "int option \<Rightarrow> bool" where
  "fits256 v = (case v of None \<Rightarrow> True | Some i \<Rightarrow> \<bar>i\<bar> < 2 ^ 256)"

definition token_fits :: "Token \<Rightarrow> bool" where
  "token_fits t \<longleftrightarrow> fits256 (tkInitialSupply t) \<and> fits256 (tkTotalSupply t) \<and>
     fits256 (tkRemainingSupply t) \<and> fits256 (txPercent (tkTax t))"

locale token_codec =
  fixes k :: "('s, 'b, 'x) Keeper_scheme"
  assumes Unmarshal_Marshal: "cdc_MarshalToken k t = Inr bz \<Longrightarrow> cdc_UnmarshalToken k bz = Inr (norm_token t)"
    and Marshal_total: "token_fits t \<Longrightarrow> \<exists>bz. cdc_MarshalToken k t = Inr bz"

section \<open>Big endian counters\<close>

definition PutUint64 :: "u64 \<Rightarrow> string" where
  "PutUint64 w = map (\<lambda>i. char_of (unat w div 256 ^ (7 - i) mod 256)) [0..<8]"

definition Uint64 :: "string \<Rightarrow> u64" where
  "Uint64 bz = of_nat (foldl (\<lambda>n c. 256 * n + code_of c) 0 bz)"

section \<open>Operations\<close>

definition TokenKey :: string where "TokenKey = ''Token-''"
definition TokenSymbolKey :: string where "TokenSymbolKey = ''TokenSymbol-''"
definition TokenCounterKey :: string where "TokenCounterKey = ''TokenCounter-''"
definition ParamsKey :: string where "ParamsKey = ''p_stoc''"

definition NewKeeper :: "('s, 'b, 'x) Keeper_scheme \<Rightarrow> unit res" where
  "NewKeeper k =
     (case AccAddressFromBech32 k (authority k) of
        Inl _ \<Rightarrow> Inl (GoPanic ''invalid authority address'') | Inr _ \<Rightarrow> Inr ())"

definition GetTokenCounter :: "('s, 'b, 'x) Keeper_scheme \<Rightarrow> ('s, 'b) ctx \<Rightarrow> u64 res" where
  "GetTokenCounter k c =
     (case KV_Get (storeService k) (store c) TokenCounterKey of
        None \<Rightarrow> Inr 0
      | Some bz \<Rightarrow> if length bz \<noteq> 8 then Inl (Errorf ''corrupted token counter'')
          else Inr (Uint64 bz))"

definition SetTokenCounter :: "('s, 'b, 'x) Keeper_scheme \<Rightarrow> u64 \<Rightarrow> ('s, 'b) ctx \<Rightarrow> ('s, 'b) ctx res" where
  "SetTokenCounter k counter c =
     Inr (c\<lparr>store := KV_Set (storeService k) (store c) TokenCounterKey (PutUint64 counter)\<rparr>)"

definition SetParams :: "('s, 'b, 'x) Keeper_scheme \<Rightarrow> ('s, 'b) ctx \<Rightarrow> ('s, 'b) ctx res" where
  "SetParams k c =
     Inr (c\<lparr>store := KV_Set (storeService k) (store c) ParamsKey (cdc_MarshalParams k)\<rparr>)"

definition indexKey :: "Token \<Rightarrow> string" where
  "indexKey t = TokenSymbolKey @ tkSymbol t @ '':'' @ tkId t"

definition SetToken :: "('s, 'b, 'x) Keeper_scheme \<Rightarrow> Token \<Rightarrow> ('s, 'b) ctx \<Rightarrow> ('s, 'b) ctx res" where
  "SetToken k token0 c =
     tryE (ValidateState k token0) (\<lambda>_.
     let token = token0\<lparr>tkId := tkMinimalDenom token0\<rparr>;
         S = storeService k
     in tryE (cdc_MarshalToken k token) (\<lambda>bz.
        let mainStore = KV_Set S (store c) (TokenKey @ tkId token) bz
        in Inr (c\<lparr>store := KV_Set S mainStore (indexKey token) [CHR 0x01]\<rparr>)))"

definition GetToken :: "('s, 'b, 'x) Keeper_scheme \<Rightarrow> ('s, 'b) ctx \<Rightarrow> denom \<Rightarrow> Token option" where
  "GetToken k c minimalDenom =
     (case KV_Get (storeService k) (store c) (TokenKey @ minimalDenom) of
        None \<Rightarrow> None
      | Some b \<Rightarrow> (case cdc_UnmarshalToken k b of Inl _ \<Rightarrow> None | Inr token \<Rightarrow> Some token))"

definition HasToken :: "('s, 'b, 'x) Keeper_scheme \<Rightarrow> ('s, 'b) ctx \<Rightarrow> denom \<Rightarrow> bool" where
  "HasToken k c minimalDenom \<longleftrightarrow>
     KV_Get (storeService k) (store c) (TokenKey @ minimalDenom) \<noteq> None"

definition HasTokenSymbol :: "('s, 'b, 'x) Keeper_scheme \<Rightarrow> ('s, 'b) ctx \<Rightarrow> string \<Rightarrow> bool" where
  "HasTokenSymbol k c symbol \<longleftrightarrow>
     KV_Iter (storeService k) (store c) (TokenSymbolKey @ symbol @ '':'') \<noteq> []"

definition DeleteToken :: "('s, 'b, 'x) Keeper_scheme \<Rightarrow> denom \<Rightarrow> ('s, 'b) ctx \<Rightarrow> ('s, 'b) ctx res" where
  "DeleteToken k minimalDenom c =
     (let S = storeService k; key = TokenKey @ minimalDenom
      in case KV_Get S (store c) key of
           None \<Rightarrow> Inr (c\<lparr>store := KV_Delete S (store c) key\<rparr>)
         | Some b \<Rightarrow> tryE (cdc_UnmarshalToken k b) (\<lambda>token.
             Inr (c\<lparr>store := KV_Delete S (KV_Delete S (store c) (indexKey token)) key\<rparr>)))"

definition decoded :: "('s, 'b, 'x) Keeper_scheme \<Rightarrow> string \<Rightarrow> Token list" where
  "decoded k bz = (case cdc_UnmarshalToken k bz of Inl _ \<Rightarrow> [] | Inr token \<Rightarrow> [token])"

definition GetAllTokens :: "('s, 'b, 'x) Keeper_scheme \<Rightarrow> ('s, 'b) ctx \<Rightarrow> Token list" where
  "GetAllTokens k c =
     concat (map (\<lambda>(key, bz). decoded k bz) (KV_Iter (storeService k) (store c) TokenKey))"

fun collectBySymbol :: "('s, 'b, 'x) Keeper_scheme \<Rightarrow> ('s, 'b) ctx \<Rightarrow> string \<Rightarrow> Token list \<Rightarrow>
    string list \<Rightarrow> Token list" where
  "collectBySymbol k c symbolPrefix tokens [] = tokens"
| "collectBySymbol k c symbolPrefix tokens (rawKey # rest) =
     (if MaxQueryLimit \<le> length tokens then tokens
      else let tokenId = TrimPrefix rawKey symbolPrefix
           in if tokenId = [] then collectBySymbol k c symbolPrefix tokens rest
              else case KV_Get (storeService k) (store c) (TokenKey @ tokenId) of
                     None \<Rightarrow> collectBySymbol k c symbolPrefix tokens rest
                   | Some b \<Rightarrow> collectBySymbol k c symbolPrefix (tokens @ decoded k b) rest)"

definition GetTokensBySymbol :: "('s, 'b, 'x) Keeper_scheme \<Rightarrow> ('s, 'b) ctx \<Rightarrow> string \<Rightarrow> Token list" where
  "GetTokensBySymbol k c symbol =
     collectBySymbol k c (symbol @ '':'') []
       (map (\<lambda>(key, _). drop (length TokenSymbolKey) key)
          (KV_Iter (storeService k) (store c) (TokenSymbolKey @ symbol @ '':'')))"

definition FindToken :: "('s, 'b, 'x) Keeper_scheme \<Rightarrow> ('s, 'b) ctx \<Rightarrow> string \<Rightarrow> Token res" where
  "FindToken k c symbolOrDenom =
     (case GetToken k c symbolOrDenom of Some token \<Rightarrow> Inr token
      | None \<Rightarrow>
          (let tokens = GetTokensBySymbol k c symbolOrDenom
           in if length tokens = 0 then Inl ErrTokenNotFound
              else if 1 < length tokens then Inl ErrAmbiguousSymbol
              else Inr (tokens ! 0)))"

definition EmitEvent :: "event \<Rightarrow> ('s, 'b) ctx \<Rightarrow> ('s, 'b) ctx" where
  "EmitEvent e c = c\<lparr>events := events c @ [e]\<rparr>"

text \<open>The bank operations, lifted to the context.\<close>

definition withBank :: "'b res \<Rightarrow> ('s, 'b) ctx \<Rightarrow> ('s, 'b) ctx res" where
  "withBank r c = tryE r (\<lambda>b. Inr (c\<lparr>bank := b\<rparr>))"

definition MintToken ::
  "('s, 'b, 'x) Keeper_scheme \<Rightarrow> addr \<Rightarrow> denom \<Rightarrow> int option \<Rightarrow> ('s, 'b) ctx \<Rightarrow> ('s, 'b) ctx res" where
  "MintToken k owner minimalDenom amount c =
     (let B = bankKeeper k in
      if nilOr amount (\<lambda>v. \<not> 0 < v) then Inl ErrInvalidTokenAmount
      else tryE (deref amount) (\<lambda>amt.
      case GetToken k c minimalDenom of None \<Rightarrow> Inl ErrTokenNotFound
      | Some token0 \<Rightarrow>
        if tkCreator token0 \<noteq> AccAddress_String k owner then Inl ErrUnauthorized
        else if \<not> tkUnlimited token0 then Inl ErrCannotMint
        else tryE (deref (tkTotalSupply token0)) (\<lambda>total.
        let newTotal = total + amt in
        if MaxTokenSupply < newTotal then Inl ErrInvalidTokenAmount
        else let token = token0\<lparr>tkTotalSupply := Some newTotal\<rparr> in
        tryE (ValidateState k token) (\<lambda>_.
        tryE (one_coin k (tkMinimalDenom token) amt) (\<lambda>coins.
        tryE (withBank (MintCoins B (bank c) stocModule coins) c) (\<lambda>c1.
        tryE (withBank (SendCoinsFromModuleToAccount B (bank c1) stocModule owner coins) c1) (\<lambda>c2.
        tryE (SetToken k token c2) (\<lambda>c3.
        Inr (EmitEvent (Event ''mint_token''
               [(''token_symbol'', tkSymbol token), (''minimal_denom'', tkMinimalDenom token),
                (''token_creator'', tkCreator token), (''mint_amount'', show_int amt)]) c3)))))))))"

section \<open>Key spaces\<close>

lemmas key_defs = TokenKey_def TokenSymbolKey_def TokenCounterKey_def ParamsKey_def

lemma keys_disjoint [simp]:
  "TokenKey @ x \<noteq> TokenSymbolKey @ y" "TokenSymbolKey @ y \<noteq> TokenKey @ x"
  "TokenKey @ x \<noteq> TokenCounterKey" "TokenCounterKey \<noteq> TokenKey @ x"
  "TokenSymbolKey @ x \<noteq> TokenCounterKey" "TokenCounterKey \<noteq> TokenSymbolKey @ x"
  "TokenKey @ x \<noteq> ParamsKey" "ParamsKey \<noteq> TokenKey @ x"
  "TokenSymbolKey @ x \<noteq> ParamsKey" "ParamsKey \<noteq> TokenSymbolKey @ x"
  "TokenCounterKey \<noteq> ParamsKey" "ParamsKey \<noteq> TokenCounterKey"
  by (simp_all add: key_defs)

lemma indexKey_disjoint [simp]:
  "TokenKey @ x \<noteq> indexKey t" "indexKey t \<noteq> TokenKey @ x"
  "indexKey t \<noteq> TokenCounterKey" "TokenCounterKey \<noteq> indexKey t"
  "indexKey t \<noteq> ParamsKey" "ParamsKey \<noteq> indexKey t"
  by (simp_all add: indexKey_def)

lemma indexKey_eq: "TokenSymbolKey @ x = indexKey t \<longleftrightarrow> x = tkSymbol t @ '':'' @ tkId t"
  by (simp add: indexKey_def)

section \<open>Counter encoding\<close>

lemma digit_step: "256 * (n div (256 * m)) + n div m mod 256 = n div m" for n m :: nat
  by (metis div_mult2_eq mult.commute mult_div_mod_eq)

lemma Uint64_PutUint64 [simp]: "Uint64 (PutUint64 w) = w"
proof -
  let ?n = "unat w"
  have c: "code_of (char_of m) = m mod 256" for m :: nat
    by (simp add: code_of_def)
  have top: "?n div 72057594037927936 mod 256 = ?n div 72057594037927936"
    using u64_bound [of w] by (simp add: less_mult_imp_div_less)
  note ds = digit_step [of ?n 1] digit_step [of ?n 256] digit_step [of ?n 65536]
    digit_step [of ?n 16777216] digit_step [of ?n 4294967296] digit_step [of ?n 1099511627776]
    digit_step [of ?n 281474976710656]
  have low: "256 * (?n div 256) + ?n mod 256 = ?n" by simp
  have "foldl (\<lambda>n c. 256 * n + code_of c) 0 (PutUint64 w) = ?n"
    unfolding PutUint64_def using ds [simplified] low top
    by (simp add: upt_rec c del: upt_Suc mult_div_mod_eq)
  then show ?thesis by (simp add: Uint64_def)
qed

lemma PutUint64_length [simp]: "length (PutUint64 w) = 8"
  by (simp add: PutUint64_def)

section \<open>Well-formed stores\<close>

text \<open>A token as it comes back from the store under the key \<open>d\<close>.\<close>

definition stored_ok :: "'x sdk_scheme \<Rightarrow> denom \<Rightarrow> Token \<Rightarrow> bool" where
  "stored_ok K d t \<longleftrightarrow>
     tkId t = d \<and> tkMinimalDenom t = d \<and> TokenSymbolRegex (tkSymbol t) \<and>
     (\<exists>w. d = denom_of (tkSymbol t) w) \<and>
     (\<exists>T R. tkTotalSupply t = Some T \<and> tkRemainingSupply t = Some R \<and>
        0 \<le> R \<and> R \<le> T \<and> T \<le> MaxTokenSupply) \<and>
     canonical K (tkCreator t) \<and> norm_token t = t"

text \<open>Every main entry decodes to a well-formed token filed under its own denomination, the
  symbol index lists exactly the stored tokens, and the counter can be read.\<close>

definition store_ok :: "('s, 'b, 'x) Keeper_scheme \<Rightarrow> ('s, 'b) ctx \<Rightarrow> bool" where
  "store_ok k c \<longleftrightarrow>
     (\<forall>d. HasToken k c d \<longrightarrow> (\<exists>t. GetToken k c d = Some t \<and> stored_ok k d t)) \<and>
     (\<forall>x. KV_Get (storeService k) (store c) (TokenSymbolKey @ x) \<noteq> None \<longleftrightarrow>
        (\<exists>d t. GetToken k c d = Some t \<and> x = tkSymbol t @ '':'' @ d)) \<and>
     (\<exists>w. GetTokenCounter k c = Inr w)"

lemma norm_token_sel [simp]:
  "tkId (norm_token t) = tkId t" "tkName (norm_token t) = tkName t"
  "tkSymbol (norm_token t) = tkSymbol t" "tkDecimals (norm_token t) = tkDecimals t"
  "tkLogo (norm_token t) = tkLogo t" "tkDistributions (norm_token t) = tkDistributions t"
  "tkCreator (norm_token t) = tkCreator t" "tkUnlimited (norm_token t) = tkUnlimited t"
  "tkMinimalDenom (norm_token t) = tkMinimalDenom t"
  "txRecipientAddress (tkTax (norm_token t)) = txRecipientAddress (tkTax t)"
  "tkTotalSupply (norm_token t) = Some (case tkTotalSupply t of None \<Rightarrow> 0 | Some v \<Rightarrow> v)"
  "tkInitialSupply (norm_token t) = Some (case tkInitialSupply t of None \<Rightarrow> 0 | Some v \<Rightarrow> v)"
  "tkRemainingSupply (norm_token t) = Some (case tkRemainingSupply t of None \<Rightarrow> 0 | Some v \<Rightarrow> v)"
  "txPercent (tkTax (norm_token t)) = Some (case txPercent (tkTax t) of None \<Rightarrow> 0 | Some v \<Rightarrow> v)"
  by (simp_all add: norm_token_def)

lemma norm_token_idem [simp]: "norm_token (norm_token t) = norm_token t"
  by (simp add: norm_token_def)

lemma token_ok_stored:
  "token_ok K t \<Longrightarrow> stored_ok K (tkMinimalDenom t) (norm_token (t\<lparr>tkId := tkMinimalDenom t\<rparr>))"
  by (cases "tkRemainingSupply t") (auto simp: token_ok_def stored_ok_def)

text \<open>When the tax percentage is set, what is stored passes the persistence check again.\<close>

lemma token_ok_norm:
  assumes "token_ok K t" and "txPercent (tkTax t) \<noteq> None"
  shows "token_ok K (norm_token (t\<lparr>tkId := tkMinimalDenom t\<rparr>))"
proof -
  from assms(2) have tax: "tkTax (norm_token (t\<lparr>tkId := tkMinimalDenom t\<rparr>)) = tkTax t"
    by (auto simp: norm_token_def)
  show ?thesis
    using assms(1) unfolding token_ok_def tax
    by (cases "tkRemainingSupply t"; cases "tkTotalSupply t") simp_all
qed

lemma stored_ok_symbol:
  "stored_ok K d t \<Longrightarrow> stored_ok K d t' \<Longrightarrow> tkSymbol t = tkSymbol t'"
  by (auto simp: stored_ok_def denom_of_inject)

lemma GetToken_HasToken: "GetToken k c d = Some t \<Longrightarrow> HasToken k c d"
  by (auto simp: GetToken_def HasToken_def split: option.splits)

lemma store_okD:
  "store_ok k c \<Longrightarrow> GetToken k c d = Some t \<Longrightarrow> stored_ok k d t"
  by (metis GetToken_HasToken option.inject store_ok_def)

lemma symbol_no_colon: "TokenSymbolRegex s \<Longrightarrow> CHR '':'' \<notin> set s"
  by (auto simp: TokenSymbolRegex_def list_all_iff is_alnum_def is_alpha_def is_lower_def is_upper_def
      is_digit_def code_of_def split: list.splits)

lemma denom_of_no_colon: "TokenSymbolRegex s \<Longrightarrow> CHR '':'' \<notin> set (denom_of s w)"
  using FormatUint_digits [of w] symbol_no_colon [of s]
  by (auto simp: denom_of_def list_all_iff is_digit_def code_of_def)

lemma one_split:
  "c \<notin> set xs \<Longrightarrow> c \<notin> set ys \<Longrightarrow> as @ c # bs = xs @ c # ys \<longleftrightarrow> as = xs \<and> bs = ys"
proof (induction xs arbitrary: as)
  case Nil then show ?case by (cases as) auto
next
  case (Cons x xs) then show ?case by (cases as) auto
qed

lemma append_less_cancel [simp]: "p @ x < p @ y \<longleftrightarrow> x < y" for p x y :: string
  by (induction p) simp_all

locale stoc_env =
  sdk_laws k + bank_laws k "bankKeeper k" wfb + kv_laws "storeService k" + token_codec k
  for k :: "('s, 'b, 'x) Keeper_scheme" and wfb :: "'b \<Rightarrow> bool" +
  assumes module_blocked: "BlockedAddr (bankKeeper k) (NewModuleAddress k ''stoc'')"
begin

text \<open>Writing a token: the entry under its denomination is the token as the codec writes it,
  the index gains its entry, everything else is unchanged.\<close>

lemma SetToken_Inr:
  assumes "SetToken k t c = Inr c'"
  shows "token_ok k t" and "bank c' = bank c" and "events c' = events c"
    and "GetToken k c' d = (if d = tkMinimalDenom t
           then Some (norm_token (t\<lparr>tkId := tkMinimalDenom t\<rparr>)) else GetToken k c d)"
    and "HasToken k c' d \<longleftrightarrow> d = tkMinimalDenom t \<or> HasToken k c d"
    and "GetTokenCounter k c' = GetTokenCounter k c"
    and "KV_Get (storeService k) (store c') (TokenSymbolKey @ x) \<noteq> None \<longleftrightarrow>
         x = tkSymbol t @ '':'' @ tkMinimalDenom t \<or>
         KV_Get (storeService k) (store c) (TokenSymbolKey @ x) \<noteq> None"
proof -
  let ?t = "t\<lparr>tkId := tkMinimalDenom t\<rparr>"
  from assms obtain bz where ok: "ValidateState k t = Inr ()" and bz: "cdc_MarshalToken k ?t = Inr bz"
    and c': "c' = c\<lparr>store := KV_Set (storeService k) (KV_Set (storeService k) (store c)
               (TokenKey @ tkMinimalDenom t) bz) (indexKey ?t) [CHR 0x01]\<rparr>"
    by (auto simp: SetToken_def Let_def)
  from ok show "token_ok k t" by (simp add: ValidateState_correct)
  show "bank c' = bank c" "events c' = events c" by (simp_all add: c')
  show "GetToken k c' d = (if d = tkMinimalDenom t then Some (norm_token ?t) else GetToken k c d)"
    using Unmarshal_Marshal [OF bz] by (simp add: c' GetToken_def Get_Set)
  show "HasToken k c' d \<longleftrightarrow> d = tkMinimalDenom t \<or> HasToken k c d"
    by (simp add: c' HasToken_def Get_Set)
  show "GetTokenCounter k c' = GetTokenCounter k c"
    by (simp add: c' GetTokenCounter_def Get_Set)
  show "KV_Get (storeService k) (store c') (TokenSymbolKey @ x) \<noteq> None \<longleftrightarrow>
         x = tkSymbol t @ '':'' @ tkMinimalDenom t \<or>
         KV_Get (storeService k) (store c) (TokenSymbolKey @ x) \<noteq> None"
    by (simp add: c' Get_Set indexKey_eq)
qed

lemma SetToken_store_ok:
  assumes "SetToken k t c = Inr c'" and "store_ok k c"
  shows "store_ok k c'"
proof -
  let ?t = "norm_token (t\<lparr>tkId := tkMinimalDenom t\<rparr>)"
  note set = SetToken_Inr [OF assms(1)]
  have t: "stored_ok k (tkMinimalDenom t) ?t" using token_ok_stored [OF set(1)] .
  have old: "GetToken k c (tkMinimalDenom t) = Some t' \<Longrightarrow> tkSymbol t' = tkSymbol t" for t'
    using stored_ok_symbol [OF store_okD [OF assms(2)] t] by simp
  have "KV_Get (storeService k) (store c') (TokenSymbolKey @ x) \<noteq> None \<longleftrightarrow>
      (\<exists>d u. GetToken k c' d = Some u \<and> x = tkSymbol u @ '':'' @ d)" for x
  proof -
    have "(\<exists>d u. GetToken k c' d = Some u \<and> x = tkSymbol u @ '':'' @ d) \<longleftrightarrow>
        x = tkSymbol t @ '':'' @ tkMinimalDenom t \<or>
        (\<exists>d u. GetToken k c d = Some u \<and> x = tkSymbol u @ '':'' @ d)"
      unfolding set(4) using old by (auto split: if_splits) metis
    then show ?thesis using assms(2) unfolding set(7) store_ok_def by blast
  qed
  moreover have "HasToken k c' d \<Longrightarrow> \<exists>u. GetToken k c' d = Some u \<and> stored_ok k d u" for d
    using t assms(2) unfolding set(4) set(5) store_ok_def by auto
  ultimately show ?thesis using assms(2) set(6) unfolding store_ok_def by simp
qed

text \<open>The full scan visits every stored token once, in the byte order of the denominations.\<close>

lemma decoded_GetToken:
  "KV_Get (storeService k) (store c) (TokenKey @ d) = Some bz \<Longrightarrow> GetToken k c d = Some t \<Longrightarrow>
   decoded k bz = [t]"
  by (auto simp: GetToken_def decoded_def split: sum.splits)

lemma GetAllTokens_eq:
  assumes "store_ok k c"
  shows "GetAllTokens k c = map (\<lambda>e. the (GetToken k c (drop (length TokenKey) (fst e))))
    (KV_Iter (storeService k) (store c) TokenKey)"
proof -
  have "decoded k bz = [the (GetToken k c (drop (length TokenKey) key))]"
    if e: "(key, bz) \<in> set (KV_Iter (storeService k) (store c) TokenKey)" for key bz
  proof -
    from e obtain d where d: "key = TokenKey @ d" and bz: "KV_Get (storeService k) (store c) key = Some bz"
      by (auto simp: Iter_mem elim: prefixE)
    then obtain t where "GetToken k c d = Some t"
      using assms by (auto simp: store_ok_def HasToken_def)
    with d bz show ?thesis by (simp add: decoded_GetToken)
  qed
  then have "map (\<lambda>(key, bz). decoded k bz) (KV_Iter (storeService k) (store c) TokenKey) =
      map (\<lambda>e. [the (GetToken k c (drop (length TokenKey) (fst e)))])
        (KV_Iter (storeService k) (store c) TokenKey)" by auto
  then show ?thesis by (simp only: GetAllTokens_def concat_map_singleton)
qed

lemma iter_denoms:
  assumes "store_ok k c"
    and keys: "\<And>e. e \<in> set es \<Longrightarrow> \<exists>d t. fst e = p @ d \<and> GetToken k c d = Some t"
    and asc: "sorted_wrt (<) (map fst es)"
  shows "sorted_wrt (<) (map tkMinimalDenom (map (\<lambda>e. the (GetToken k c (drop (length p) (fst e)))) es))"
proof -
  have "map fst es = map ((@) p) (map tkMinimalDenom (map (\<lambda>e. the (GetToken k c (drop (length p) (fst e)))) es))"
    using keys store_okD [OF assms(1)] by (fastforce simp: stored_ok_def)
  with asc show ?thesis by (metis (no_types, lifting) sorted_wrt_map sorted_wrt_mono_rel append_less_cancel)
qed

lemma GetAllTokens_keys:
  assumes "store_ok k c" and "e \<in> set (KV_Iter (storeService k) (store c) TokenKey)"
  shows "\<exists>d t. fst e = TokenKey @ d \<and> GetToken k c d = Some t"
  using assms by (cases e) (auto simp: Iter_mem store_ok_def HasToken_def elim!: prefixE)

lemma GetAllTokens_sorted:
  "store_ok k c \<Longrightarrow> sorted_wrt (<) (map tkMinimalDenom (GetAllTokens k c))"
  using iter_denoms [OF _ GetAllTokens_keys Iter_ascending] by (simp add: GetAllTokens_eq)

lemma GetAllTokens_set:
  assumes "store_ok k c"
  shows "t \<in> set (GetAllTokens k c) \<longleftrightarrow> GetToken k c (tkMinimalDenom t) = Some t"
proof
  assume "t \<in> set (GetAllTokens k c)"
  then obtain e where e: "e \<in> set (KV_Iter (storeService k) (store c) TokenKey)"
    and t: "t = the (GetToken k c (drop (length TokenKey) (fst e)))"
    by (auto simp: GetAllTokens_eq [OF assms])
  from GetAllTokens_keys [OF assms e] obtain d where "GetToken k c d = Some t" by (auto simp: t)
  moreover from store_okD [OF assms this] have "tkMinimalDenom t = d" by (simp add: stored_ok_def)
  ultimately show "GetToken k c (tkMinimalDenom t) = Some t" by simp
next
  assume g: "GetToken k c (tkMinimalDenom t) = Some t"
  then obtain bz where "KV_Get (storeService k) (store c) (TokenKey @ tkMinimalDenom t) = Some bz"
    by (auto simp: GetToken_def split: option.splits)
  then have "(TokenKey @ tkMinimalDenom t, bz) \<in> set (KV_Iter (storeService k) (store c) TokenKey)"
    by (simp add: Iter_mem)
  with g show "t \<in> set (GetAllTokens k c)"
    unfolding GetAllTokens_eq [OF assms] by (force simp: image_iff)
qed

text \<open>The symbol index lists the denominations of the tokens with that symbol.\<close>

lemma index_keys:
  assumes "store_ok k c"
    and "e \<in> set (KV_Iter (storeService k) (store c) (TokenSymbolKey @ smb @ '':''))"
  shows "\<exists>d t. fst e = (TokenSymbolKey @ smb @ '':'') @ d \<and> GetToken k c d = Some t \<and> tkSymbol t = smb"
proof -
  obtain key v where e: "e = (key, v)" by fastforce
  with assms(2) obtain rest where key: "fst e = TokenSymbolKey @ (smb @ '':'' @ rest)"
    and "KV_Get (storeService k) (store c) (TokenSymbolKey @ (smb @ '':'' @ rest)) = Some v"
    by (auto simp: Iter_mem elim!: prefixE)
  then obtain d t where t: "GetToken k c d = Some t" and eq: "smb @ '':'' @ rest = tkSymbol t @ '':'' @ d"
    using assms(1) unfolding store_ok_def by blast
  from store_okD [OF assms(1) t] have "CHR '':'' \<notin> set (tkSymbol t)" "CHR '':'' \<notin> set d"
    using denom_of_no_colon symbol_no_colon by (auto simp: stored_ok_def)
  with eq have "smb = tkSymbol t \<and> rest = d"
    using one_split [of "CHR '':''" "tkSymbol t" d smb rest] by simp
  with key t show ?thesis by auto
qed

lemma index_entry:
  assumes "store_ok k c" and "GetToken k c d = Some t"
  shows "\<exists>v. (TokenSymbolKey @ tkSymbol t @ '':'' @ d, v) \<in>
    set (KV_Iter (storeService k) (store c) (TokenSymbolKey @ tkSymbol t @ '':''))"
  using assms by (simp add: Iter_mem store_ok_def) blast

lemma collectBySymbol_take:
  assumes "\<And>r. r \<in> set rs \<Longrightarrow> \<exists>d t. r = p @ d \<and> d \<noteq> [] \<and> GetToken k c d = Some t"
    and "length acc \<le> 100"
  shows "collectBySymbol k c p acc rs =
    take 100 (acc @ map (\<lambda>r. the (GetToken k c (drop (length p) r))) rs)"
  using assms
proof (induction rs arbitrary: acc)
  case Nil
  then show ?case by simp
next
  case (Cons r rs)
  from Cons.prems(1) [of r] obtain d t where r: "r = p @ d" "d \<noteq> []" and t: "GetToken k c d = Some t"
    by auto
  from t obtain bz where bz: "KV_Get (storeService k) (store c) (TokenKey @ d) = Some bz"
    by (auto simp: GetToken_def split: option.splits)
  have dec: "decoded k bz = [t]" using decoded_GetToken [OF bz t] .
  show ?case
  proof (cases "100 \<le> length acc")
    case True
    with Cons.prems(2) show ?thesis by simp
  next
    case False
    with Cons.IH [of "acc @ [t]"] Cons.prems(1) r t bz dec show ?thesis by simp
  qed
qed

lemma same_tokens:
  assumes "sorted_wrt (<) (map tkMinimalDenom xs)" and "sorted_wrt (<) (map tkMinimalDenom ys)"
    and "set xs = set ys"
  shows "xs = ys"
proof -
  have "map tkMinimalDenom xs = map tkMinimalDenom ys"
    using assms by (intro strict_sorted_equal) simp_all
  moreover have "inj_on tkMinimalDenom (set xs \<union> set ys)"
    using assms(2,3) by (simp add: strict_sorted_iff distinct_map)
  ultimately show ?thesis by (rule map_inj_on)
qed

lemma GetTokensBySymbol_eq:
  assumes ok: "store_ok k c"
  shows "GetTokensBySymbol k c smb = take 100 (filter (\<lambda>t. tkSymbol t = smb) (GetAllTokens k c))"
proof -
  let ?p = "TokenSymbolKey @ smb @ '':''"
  let ?es = "KV_Iter (storeService k) (store c) ?p"
  let ?xs = "map (\<lambda>e. the (GetToken k c (drop (length ?p) (fst e)))) ?es"
  have ne: "GetToken k c d = Some t \<Longrightarrow> d \<noteq> []" for d t
    using store_okD [OF ok, of d t] by (auto simp: stored_ok_def)
  have "GetTokensBySymbol k c smb = take 100 ([] @ map (\<lambda>r. the (GetToken k c (drop (length (smb @ '':'')) r)))
      (map (\<lambda>(key, _). drop (length TokenSymbolKey) key) ?es))"
    unfolding GetTokensBySymbol_def
  proof (rule collectBySymbol_take)
    fix r assume "r \<in> set (map (\<lambda>(key, _). drop (length TokenSymbolKey) key) ?es)"
    then obtain e where "e \<in> set ?es" "r = drop (length TokenSymbolKey) (fst e)" by auto
    with index_keys [OF ok, of e smb] ne show "\<exists>d t. r = (smb @ '':'') @ d \<and> d \<noteq> [] \<and> GetToken k c d = Some t"
      by fastforce
  qed simp
  also have "\<dots> = take 100 ?xs" by (simp add: o_def case_prod_unfold add.commute)
  also have "?xs = filter (\<lambda>t. tkSymbol t = smb) (GetAllTokens k c)"
  proof (rule same_tokens)
    show "sorted_wrt (<) (map tkMinimalDenom ?xs)"
      using index_keys [OF ok] Iter_ascending by (intro iter_denoms [OF ok]) blast+
    show "sorted_wrt (<) (map tkMinimalDenom (filter (\<lambda>t. tkSymbol t = smb) (GetAllTokens k c)))"
      using GetAllTokens_sorted [OF ok] by (auto simp: sorted_wrt_map intro: sorted_wrt_filter)
    show "set ?xs = set (filter (\<lambda>t. tkSymbol t = smb) (GetAllTokens k c))"
    proof (intro set_eqI iffI)
      fix t assume "t \<in> set ?xs"
      then obtain e where "e \<in> set ?es" "t = the (GetToken k c (drop (length ?p) (fst e)))" by auto
      with index_keys [OF ok, of e smb] obtain d where "GetToken k c d = Some t" "tkSymbol t = smb"
        by fastforce
      with store_okD [OF ok, of d t] show "t \<in> set (filter (\<lambda>t. tkSymbol t = smb) (GetAllTokens k c))"
        by (auto simp: GetAllTokens_set [OF ok] stored_ok_def)
    next
      fix t assume "t \<in> set (filter (\<lambda>t. tkSymbol t = smb) (GetAllTokens k c))"
      then have t: "GetToken k c (tkMinimalDenom t) = Some t" and "tkSymbol t = smb"
        by (auto simp: GetAllTokens_set [OF ok])
      with index_entry [OF ok t] show "t \<in> set ?xs" by (force simp: image_iff)
    qed
  qed
  finally show ?thesis .
qed

lemma HasTokenSymbol_iff:
  assumes ok: "store_ok k c"
  shows "HasTokenSymbol k c smb \<longleftrightarrow> (\<exists>d t. GetToken k c d = Some t \<and> tkSymbol t = smb)"
proof
  assume "HasTokenSymbol k c smb"
  then obtain e where "e \<in> set (KV_Iter (storeService k) (store c) (TokenSymbolKey @ smb @ '':''))"
    unfolding HasTokenSymbol_def by (meson list.set_sel(1))
  from index_keys [OF ok this] show "\<exists>d t. GetToken k c d = Some t \<and> tkSymbol t = smb" by blast
next
  assume "\<exists>d t. GetToken k c d = Some t \<and> tkSymbol t = smb"
  then obtain d t where "GetToken k c d = Some t" and "tkSymbol t = smb" by blast
  with index_entry [OF ok this(1)] show "HasTokenSymbol k c smb" by (auto simp: HasTokenSymbol_def)
qed

lemma DeleteToken_Inr:
  assumes ok: "store_ok k c"
  shows "\<exists>c'. DeleteToken k d c = Inr c' \<and> bank c' = bank c \<and> events c' = events c \<and>
    GetTokenCounter k c' = GetTokenCounter k c \<and>
    (\<forall>e. GetToken k c' e = (if e = d then None else GetToken k c e)) \<and> store_ok k c'"
proof -
  let ?S = "storeService k"
  define s' where "s' = (case GetToken k c d of None \<Rightarrow> KV_Delete ?S (store c) (TokenKey @ d)
    | Some t \<Rightarrow> KV_Delete ?S (KV_Delete ?S (store c) (indexKey t)) (TokenKey @ d))"
  define c' where "c' = c\<lparr>store := s'\<rparr>"
  have del: "DeleteToken k d c = Inr c'"
    using ok unfolding c'_def s'_def store_ok_def
    by (auto simp: DeleteToken_def GetToken_def HasToken_def Let_def split: option.splits sum.splits)
  have main: "KV_Get ?S s' (TokenKey @ e) = (if e = d then None else KV_Get ?S (store c) (TokenKey @ e))"
    and cnt: "KV_Get ?S s' TokenCounterKey = KV_Get ?S (store c) TokenCounterKey" for e
    by (simp_all add: s'_def Get_Delete split: option.splits)
  have g: "GetToken k c' e = (if e = d then None else GetToken k c e)"
    and h: "HasToken k c' e \<longleftrightarrow> e \<noteq> d \<and> HasToken k c e" for e
    by (simp_all add: c'_def GetToken_def HasToken_def main)
  have cn: "GetTokenCounter k c' = GetTokenCounter k c"
    by (simp add: c'_def GetTokenCounter_def cnt)
  have idx: "KV_Get ?S s' (TokenSymbolKey @ x) \<noteq> None \<longleftrightarrow>
      KV_Get ?S (store c) (TokenSymbolKey @ x) \<noteq> None \<and>
      (\<forall>t. GetToken k c d = Some t \<longrightarrow> x \<noteq> tkSymbol t @ '':'' @ d)" for x
    using store_okD [OF ok, of d]
    by (auto simp: s'_def Get_Delete indexKey_eq stored_ok_def split: option.splits)
  have "KV_Get ?S s' (TokenSymbolKey @ x) \<noteq> None \<longleftrightarrow>
      (\<exists>e t. GetToken k c' e = Some t \<and> x = tkSymbol t @ '':'' @ e)" for x
  proof -
    have "KV_Get ?S (store c) (TokenSymbolKey @ x) \<noteq> None \<longleftrightarrow>
        (\<exists>e t. GetToken k c e = Some t \<and> x = tkSymbol t @ '':'' @ e)"
      using ok unfolding store_ok_def by blast
    moreover have "tkSymbol t @ '':'' @ e = tkSymbol u @ '':'' @ d \<Longrightarrow> e = d"
      if "GetToken k c e = Some t" "GetToken k c d = Some u" for e t u
      using split_at_char [of "CHR '':''" "tkSymbol t" "tkSymbol u" e d] symbol_no_colon
        store_okD [OF ok that(1)] store_okD [OF ok that(2)] by (auto simp: stored_ok_def)
    ultimately show ?thesis unfolding idx g by (auto split: if_splits) metis+
  qed
  then have "store_ok k c'"
    using ok unfolding store_ok_def cn h g by (auto simp: c'_def)
  with del g cn show ?thesis by (auto simp: c'_def)
qed

lemma SetTokenCounter_Inr:
  assumes "SetTokenCounter k w c = Inr c'"
  shows "bank c' = bank c" and "events c' = events c" and "GetToken k c' d = GetToken k c d"
    and "HasToken k c' d \<longleftrightarrow> HasToken k c d" and "GetTokenCounter k c' = Inr w"
    and "KV_Get (storeService k) (store c') (TokenSymbolKey @ x)
         = KV_Get (storeService k) (store c) (TokenSymbolKey @ x)"
  using assms
  by (auto simp: SetTokenCounter_def GetToken_def HasToken_def GetTokenCounter_def Get_Set)

lemma SetTokenCounter_store_ok:
  "SetTokenCounter k w c = Inr c' \<Longrightarrow> store_ok k c \<Longrightarrow> store_ok k c'"
  unfolding store_ok_def by (simp add: SetTokenCounter_Inr)

lemma SetParams_Inr:
  assumes "SetParams k c = Inr c'"
  shows "bank c' = bank c" and "events c' = events c" and "GetToken k c' d = GetToken k c d"
    and "HasToken k c' d \<longleftrightarrow> HasToken k c d" and "GetTokenCounter k c' = GetTokenCounter k c"
    and "KV_Get (storeService k) (store c') (TokenSymbolKey @ x)
         = KV_Get (storeService k) (store c) (TokenSymbolKey @ x)"
  using assms by (auto simp: SetParams_def GetToken_def HasToken_def GetTokenCounter_def Get_Set)

lemma SetParams_store_ok: "SetParams k c = Inr c' \<Longrightarrow> store_ok k c \<Longrightarrow> store_ok k c'"
  unfolding store_ok_def by (simp add: SetParams_Inr)

end

end
