(* ===== verification/Ante_Msgs.thy ===== *)
theory Ante_Msgs
  imports Token_Keeper
begin

text \<open>
  Transactions as the ante and post handlers see them: the message types their type switches
  distinguish, and what they ask of the SDK's message wrappers.

  A wrapper (\<open>authz.MsgExec\<close>, a gov or group proposal) carries its inner messages packed as
  protobuf \<open>Any\<close> values. Packed values are an arbitrary type \<open>'a\<close> and unpacking is a parameter,
  \<open>msg_api\<close>, because it is SDK code; the handlers bound their recursion by a depth counter, not by
  the structure of the packed value, and so do their definitions here.

  \<open>carried\<close> says which messages a transaction carries at which nesting depth, and whether below a
  proposal, whose messages run later and outside the handlers. The theorems about the handlers
  speak of all messages carried.
\<close>

section \<open>Messages\<close>

datatype 'a sdk_msg =
    MsgSend (msFromAddress: string) (msToAddress: string) (msAmount: coins)
  | MsgMultiSend (mmInputs: "(string \<times> coins) list") (mmOutputs: "(string \<times> coins) list")
  | MsgFundCommunityPool coins string
  | GovSubmitProposal "'a list" coins string
  | GovDeposit coins string
  | LegacyGovSubmitProposal coins string
  | LegacyGovDeposit coins string
  | GroupSubmitProposal "'a list"
  | GroupExec
  | MsgCreateVestingAccount string string coins
  | MsgCreatePermanentLockedAccount string string coins
  | MsgCreatePeriodicVestingAccount string string "coins list"
  | MsgConvertCoin coin string string
  | IbcMsgTransfer coin string
  | AuthzExec "'a list"
  | AuthzGrant 'a
  | MsgEthereumTx 'a
  | StocCreate MsgCreateToken
  | StocMint MsgMintTokens
  | StocRelease MsgReleaseTokens
  | StocBurn MsgBurnToken
  | StocParams MsgUpdateParams
  | OtherMsg string

text \<open>The protobuf message type of a message, which its type URL depends on.\<close>

datatype msg_kind =
    KBank | KMultiSend | KFundPool | KGovSubmit | KGovDeposit | KLegacySubmit | KLegacyDeposit
  | KGroupSubmit | KGroupExec | KVesting | KPermanentLocked | KPeriodicVesting | KConvertCoin
  | KTransfer | KAuthzExec | KAuthzGrant | KEthereumTx | KCreateToken | KMintTokens
  | KReleaseTokens | KBurnToken | KUpdateParams | KOther string

fun kind_of :: "'a sdk_msg \<Rightarrow> msg_kind" where
  "kind_of (MsgSend _ _ _) = KBank"
| "kind_of (MsgMultiSend _ _) = KMultiSend"
| "kind_of (MsgFundCommunityPool _ _) = KFundPool"
| "kind_of (GovSubmitProposal _ _ _) = KGovSubmit"
| "kind_of (GovDeposit _ _) = KGovDeposit"
| "kind_of (LegacyGovSubmitProposal _ _) = KLegacySubmit"
| "kind_of (LegacyGovDeposit _ _) = KLegacyDeposit"
| "kind_of (GroupSubmitProposal _) = KGroupSubmit"
| "kind_of GroupExec = KGroupExec"
| "kind_of (MsgCreateVestingAccount _ _ _) = KVesting"
| "kind_of (MsgCreatePermanentLockedAccount _ _ _) = KPermanentLocked"
| "kind_of (MsgCreatePeriodicVestingAccount _ _ _) = KPeriodicVesting"
| "kind_of (MsgConvertCoin _ _ _) = KConvertCoin"
| "kind_of (IbcMsgTransfer _ _) = KTransfer"
| "kind_of (AuthzExec _) = KAuthzExec"
| "kind_of (AuthzGrant _) = KAuthzGrant"
| "kind_of (MsgEthereumTx _) = KEthereumTx"
| "kind_of (StocCreate _) = KCreateToken"
| "kind_of (StocMint _) = KMintTokens"
| "kind_of (StocRelease _) = KReleaseTokens"
| "kind_of (StocBurn _) = KBurnToken"
| "kind_of (StocParams _) = KUpdateParams"
| "kind_of (OtherMsg url) = KOther url"

text \<open>
  What the handlers call on packed values: \<open>GetMessages\<close> of an \<open>authz.MsgExec\<close>, \<open>GetMsgs\<close> of gov and
  group proposals, \<open>GetAuthorization\<close> of a grant (the type URL of the authorization; \<open>None\<close> when it
  is nil), type URL and cached value of an \<open>Any\<close>, \<open>sdk.MsgTypeURL\<close>.
\<close>

record 'a msg_api =
  authz_GetMessages :: "'a list \<Rightarrow> 'a sdk_msg list res"
  gov_GetMsgs :: "'a list \<Rightarrow> 'a sdk_msg list res"
  group_GetMsgs :: "'a list \<Rightarrow> 'a sdk_msg list res"
  GetAuthorization :: "'a \<Rightarrow> string option res"
  Any_IsNil :: "'a \<Rightarrow> bool"
  Any_TypeUrl :: "'a \<Rightarrow> string"
  Any_GetCachedValue :: "'a \<Rightarrow> 'a sdk_msg option"
  MsgTypeURL :: "msg_kind \<Rightarrow> string"

text \<open>An extension option: its type URL and, when its cached value is an \<open>ExtensionOptionDynamicFeeTx\<close>, the
  maximal priority price of that (\<open>None\<close> inside when it is nil).\<close>

record ext_option =
  GetTypeUrl :: string
  dynamicFee :: "dec option option"

record 'a tx =
  GetMsgs :: "'a sdk_msg list"
  GetFee :: "coins option"
  GetGas :: u64
  IsFeeTx :: bool
  GetExtensionOptions :: "ext_option list option"

type_synonym ('s, 'b, 'a) ante_handler = "('s, 'b) ctx \<Rightarrow> 'a tx \<Rightarrow> bool \<Rightarrow> ('s, 'b) ctx res"

section \<open>Messages carried by a transaction\<close>

text \<open>
  \<open>carried A p msgs n q m\<close>: unpacking wrappers \<open>n\<close> times reaches \<open>m\<close> from the list \<open>msgs\<close>; \<open>q\<close>
  tells whether a proposal was among the wrappers, where \<open>p\<close> tells it for the list itself.
\<close>

inductive carried :: "('a, 'z) msg_api_scheme \<Rightarrow> bool \<Rightarrow> 'a sdk_msg list \<Rightarrow> nat \<Rightarrow> bool \<Rightarrow> 'a sdk_msg \<Rightarrow> bool"
  for A :: "('a, 'z) msg_api_scheme" and p :: bool and msgs :: "'a sdk_msg list" where
  top: "m \<in> set msgs \<Longrightarrow> carried A p msgs 0 p m"
| authz: "carried A p msgs n q (AuthzExec as) \<Longrightarrow> authz_GetMessages A as = Inr inner \<Longrightarrow>
    m \<in> set inner \<Longrightarrow> carried A p msgs (Suc n) q m"
| gov: "carried A p msgs n q (GovSubmitProposal as cs pr) \<Longrightarrow> gov_GetMsgs A as = Inr inner \<Longrightarrow>
    m \<in> set inner \<Longrightarrow> carried A p msgs (Suc n) True m"
| group: "carried A p msgs n q (GroupSubmitProposal as) \<Longrightarrow> group_GetMsgs A as = Inr inner \<Longrightarrow>
    m \<in> set inner \<Longrightarrow> carried A p msgs (Suc n) True m"

text \<open>Messages reached through authz wrappers only: what runs in the transaction itself.\<close>

inductive executed :: "('a, 'z) msg_api_scheme \<Rightarrow> 'a sdk_msg list \<Rightarrow> nat \<Rightarrow> 'a sdk_msg \<Rightarrow> bool"
  for A :: "('a, 'z) msg_api_scheme" and msgs :: "'a sdk_msg list" where
  top: "m \<in> set msgs \<Longrightarrow> executed A msgs 0 m"
| authz: "executed A msgs n (AuthzExec as) \<Longrightarrow> authz_GetMessages A as = Inr inner \<Longrightarrow>
    m \<in> set inner \<Longrightarrow> executed A msgs (Suc n) m"

lemma executed_carried: "executed A msgs n m \<Longrightarrow> carried A False msgs n False m"
  by (induction rule: executed.induct) (auto intro: carried.intros)

lemma carried_executed: "carried A False msgs n q m \<Longrightarrow> \<not> q \<Longrightarrow> executed A msgs n m"
  by (induction rule: carried.induct) (auto intro: executed.intros)

text \<open>What is carried by an inner list is carried by the list with the wrapper.\<close>

lemma carried_authz:
  assumes "carried A p inner n q m" and "AuthzExec as \<in> set msgs" and "authz_GetMessages A as = Inr inner"
  shows "carried A p msgs (Suc n) q m"
  using assms by (induction rule: carried.induct) (auto intro: carried.intros)

lemma carried_gov:
  assumes "carried A True inner n q m" and "GovSubmitProposal as cs pr \<in> set msgs" and "gov_GetMsgs A as = Inr inner"
  shows "carried A p msgs (Suc n) q m"
  using assms by (induction rule: carried.induct) (auto intro: carried.intros)

lemma carried_group:
  assumes "carried A True inner n q m" and "GroupSubmitProposal as \<in> set msgs" and "group_GetMsgs A as = Inr inner"
  shows "carried A p msgs (Suc n) q m"
  using assms by (induction rule: carried.induct) (auto intro: carried.intros)

section \<open>Custom denominations\<close>

text \<open>Denominations of stored tokens contain an underscore, which the native ones do not.\<close>

definition bond_ok :: "'x sdk_scheme \<Rightarrow> bool" where
  "bond_ok K \<longleftrightarrow> CHR ''_'' \<notin> set (DefaultBondDenom K)"

lemma native_no_underscore: "bond_ok K \<Longrightarrow> IsNativeDenom K d \<Longrightarrow> CHR ''_'' \<notin> set d"
  by (auto simp: bond_ok_def IsNativeDenom_def SafeGetEvmDenom_def Let_def dest!: in_set_dropD split: if_splits)

lemma custom_not_native:
  assumes "store_ok k c" and "bond_ok k" and "HasToken k c d"
  shows "\<not> IsNativeDenom k d"
proof
  assume "IsNativeDenom k d"
  with native_no_underscore [OF assms(2)] have "CHR ''_'' \<notin> set d" .
  moreover obtain s w where "d = denom_of s w"
    using assms(1,3) unfolding store_ok_def stored_ok_def by blast
  ultimately show False by (simp add: denom_of_def)
qed

section \<open>A concrete packing\<close>

text \<open>Packed values that carry their type URL and, unless they are malformed, the message; an
  authorization carries the URL it grants.\<close>

datatype ref_any = RNil | RAny string "ref_any sdk_msg option" | RAuth "string option"

definition ref_unpack :: "ref_any list \<Rightarrow> ref_any sdk_msg list res" where
  "ref_unpack as = forE (\<lambda>a ms.
     case a of RAny _ (Some m) \<Rightarrow> Inr (ms @ [m]) | _ \<Rightarrow> Inl (SdkErr ''any'')) as []"

definition ref_api :: "ref_any msg_api" where
  "ref_api = \<lparr>authz_GetMessages = ref_unpack, gov_GetMsgs = ref_unpack, group_GetMsgs = ref_unpack,
     GetAuthorization = (\<lambda>a. case a of RAuth u \<Rightarrow> Inr u | _ \<Rightarrow> Inl (SdkErr ''any'')),
     Any_IsNil = (\<lambda>a. case a of RNil \<Rightarrow> True | _ \<Rightarrow> False),
     Any_TypeUrl = (\<lambda>a. case a of RAny u _ \<Rightarrow> u | _ \<Rightarrow> []),
     Any_GetCachedValue = (\<lambda>a. case a of RAny _ m \<Rightarrow> m | _ \<Rightarrow> None),
     MsgTypeURL = (\<lambda>q. case q of
        KAuthzExec \<Rightarrow> ''/cosmos.authz.v1beta1.MsgExec'' | KBank \<Rightarrow> ''/cosmos.bank.v1beta1.MsgSend''
      | KEthereumTx \<Rightarrow> ''/cosmos.evm.vm.v1.MsgEthereumTx'' | KMintTokens \<Rightarrow> ''/stoc.stoc.MsgMintTokens''
      | KBurnToken \<Rightarrow> ''/stoc.stoc.MsgBurnToken'' | KCreateToken \<Rightarrow> ''/stoc.stoc.MsgCreateToken''
      | KReleaseTokens \<Rightarrow> ''/stoc.stoc.MsgReleaseTokens''
      | KVesting \<Rightarrow> ''/cosmos.vesting.v1beta1.MsgCreateVestingAccount''
      | KPermanentLocked \<Rightarrow> ''/cosmos.vesting.v1beta1.MsgCreatePermanentLockedAccount''
      | KPeriodicVesting \<Rightarrow> ''/cosmos.vesting.v1beta1.MsgCreatePeriodicVestingAccount''
      | KOther u \<Rightarrow> u | _ \<Rightarrow> [])\<rparr>"

definition ref_tx :: "ref_any sdk_msg list \<Rightarrow> ref_any tx" where
  "ref_tx msgs = \<lparr>GetMsgs = msgs, GetFee = Some [mk_coin ''ustoc'' 1000], GetGas = 200000, IsFeeTx = True,
     GetExtensionOptions = Some []\<rparr>"

end
