(* ===== verification/Ref_Keeper.thy ===== *)
theory Ref_Keeper
  imports Token_Keeper "HOL-Library.Code_Target_Numeral"
begin

text \<open>
  A concrete environment for the token module, on which the laws of \<open>stoc_env\<close> are proved and
  the witnesses are evaluated: the reference SDK, store and bank of the interface theories, and a
  codec that writes the fields of a token as self-delimiting strings.
\<close>

section \<open>A codec for tokens\<close>

definition enc_str :: "string \<Rightarrow> string" where
  "enc_str s = concat (map (\<lambda>c. [CHR ''a'', c]) s) @ ''b''"

fun dec_fields :: "string \<Rightarrow> string \<Rightarrow> string list" where
  "dec_fields acc [] = []"
| "dec_fields acc [x] = [acc]"
| "dec_fields acc (x # y # r) =
     (if x = CHR ''a'' then dec_fields (acc @ [y]) r else acc # dec_fields [] (y # r))"

lemma dec_enc_str: "dec_fields acc (enc_str s @ r) = (acc @ s) # dec_fields [] r"
proof (induction s arbitrary: acc)
  case Nil
  then show ?case by (cases r) (simp_all add: enc_str_def)
next
  case (Cons c s)
  then show ?case by (simp add: enc_str_def)
qed

lemma dec_enc_fields: "dec_fields [] (concat (map enc_str xs)) = xs"
  by (induction xs) (simp_all add: dec_enc_str)

definition read_int :: "string \<Rightarrow> int" where
  "read_int s = (case s of [] \<Rightarrow> 0
     | c # cs \<Rightarrow> if c = CHR ''-'' then - int (read_nat cs) else int (read_nat s))"

lemma read_show_int [simp]: "read_int (show_int i) = i"
proof (cases "i < 0")
  case True
  then show ?thesis by (simp add: show_int_def read_int_def)
next
  case False
  obtain c cs where s: "show_nat (nat i) = c # cs" by (metis show_nat_nonempty neq_Nil_conv)
  with show_nat_digits [of "nat i"] have "c \<noteq> CHR ''-''" by (auto simp: is_digit_def code_of_def)
  moreover have "read_nat (c # cs) = nat i" using read_show_nat [of "nat i"] s by simp
  ultimately show ?thesis using False s by (simp add: show_int_def read_int_def)
qed

definition enc_opt :: "int option \<Rightarrow> string" where
  "enc_opt v = show_int (case v of None \<Rightarrow> 0 | Some i \<Rightarrow> i)"

fun enc_dists :: "WalletDistribution list \<Rightarrow> string list" where
  "enc_dists [] = []"
| "enc_dists (d # ds) = wdAddress d # show_nat (unat (wdPercent d)) # enc_dists ds"

fun dec_dists :: "string list \<Rightarrow> WalletDistribution list" where
  "dec_dists (a # p # r) = \<lparr>wdAddress = a, wdPercent = of_nat (read_nat p)\<rparr> # dec_dists r"
| "dec_dists _ = []"

lemma dec_enc_dists [simp]: "dec_dists (enc_dists ds) = ds"
  by (induction ds) simp_all

definition ref_Marshal :: "Token \<Rightarrow> string res" where
  "ref_Marshal t = Inr (concat (map enc_str
     ([tkId t, tkName t, tkSymbol t, enc_opt (tkInitialSupply t), enc_opt (tkTotalSupply t),
       show_nat (unat (tkDecimals t)), tkLogo t, enc_opt (txPercent (tkTax t)),
       txRecipientAddress (tkTax t), tkCreator t, enc_opt (tkRemainingSupply t),
       (if tkUnlimited t then ''1'' else ''0''), tkMinimalDenom t] @ enc_dists (tkDistributions t))))"

definition ref_Unmarshal :: "string \<Rightarrow> Token res" where
  "ref_Unmarshal bz = (case dec_fields [] bz of
     i # n # sy # ini # tot # dc # lg # tp # tr # cr # rem # un # md # ds \<Rightarrow>
       Inr \<lparr>tkId = i, tkName = n, tkSymbol = sy, tkInitialSupply = Some (read_int ini),
            tkTotalSupply = Some (read_int tot), tkDecimals = of_nat (read_nat dc), tkLogo = lg,
            tkDistributions = dec_dists ds,
            tkTax = \<lparr>txPercent = Some (read_int tp), txRecipientAddress = tr\<rparr>,
            tkCreator = cr, tkRemainingSupply = Some (read_int rem), tkUnlimited = (un = ''1''),
            tkMinimalDenom = md\<rparr>
   | _ \<Rightarrow> Inl (SdkErr ''proto''))"

lemma ref_codec: "ref_Marshal t = Inr bz \<Longrightarrow> ref_Unmarshal bz = Inr (norm_token t)"
  by (cases t; cases "tkTax t") (auto simp: ref_Marshal_def ref_Unmarshal_def enc_opt_def norm_token_def
      dec_enc_fields dec_enc_str)

section \<open>The keeper\<close>

definition ref_keeper :: "addr list \<Rightarrow> ((string \<times> string) list, ledger) Keeper" where
  "ref_keeper blocked = sdk.extend ref_sdk (Keeper.fields ref_kv ref_Marshal ref_Unmarshal []
     ''gov'' (ref_bank ref_sdk blocked))"

definition ref_k :: "((string \<times> string) list, ledger) Keeper" where
  "ref_k = ref_keeper [''modulestoc'', ''modulegov'']"

definition empty_ctx :: "((string \<times> string) list, ledger) ctx" where
  "empty_ctx = \<lparr>store = [], bank = empty_ledger, events = []\<rparr>"

lemma ref_keeper_sel [simp]:
  "DefaultBondDenom (ref_keeper bl) = ''ustoc''"
  "AccAddressFromBech32 (ref_keeper bl) = ref_FromBech32"
  "AccAddress_String (ref_keeper bl) = (\<lambda>a. a)"
  "NewModuleAddress (ref_keeper bl) = (\<lambda>n. ''module'' @ n)"
  "ValidateDenom (ref_keeper bl) = ref_ValidateDenom"
  "NewCoin (ref_keeper bl) = ref_NewCoin"
  "NewCoins (ref_keeper bl) = ref_NewCoins"
  "storeService (ref_keeper bl) = ref_kv"
  "cdc_MarshalToken (ref_keeper bl) = ref_Marshal"
  "cdc_UnmarshalToken (ref_keeper bl) = ref_Unmarshal"
  "authority (ref_keeper bl) = ''gov''"
  "bankKeeper (ref_keeper bl) = ref_bank ref_sdk bl"
  by (simp_all add: ref_keeper_def ref_sdk_def sdk.defs Keeper.defs)

lemma sdk_laws_extend: "sdk_laws K \<Longrightarrow> sdk_laws (sdk.extend K m)" for K :: sdk
  by (cases K) (simp add: sdk_laws_def bech32_codec_def coin_api_def legacy_dec_def sdk.defs)

lemma ref_keeper_env:
  assumes "''modulestoc'' \<in> set bl"
  shows "stoc_env (ref_keeper bl) ledger_ok"
proof (intro stoc_env.intro)
  show "sdk_laws (ref_keeper bl)"
    unfolding ref_keeper_def by (rule sdk_laws_extend) (rule ref.sdk_laws_axioms)
  have "bankKeeper (ref_keeper bl) = ref_bank (ref_keeper bl) bl"
    by (simp add: ref_bank_def ref_sdk_def cong: if_cong)
  then show "bank_laws (ref_keeper bl) (bankKeeper (ref_keeper bl)) ledger_ok"
    using refbank.bank_laws_axioms by metis
  show "kv_laws (storeService (ref_keeper bl))" by (simp add: refkv.kv_laws_axioms)
  show "token_codec (ref_keeper bl)"
    by unfold_locales (simp_all add: ref_codec, simp add: ref_Marshal_def)
  show "stoc_env_axioms (ref_keeper bl)"
    using assms by unfold_locales (simp add: ref_bank_def)
qed

interpretation refenv: stoc_env ref_k ledger_ok
  unfolding ref_k_def by (rule ref_keeper_env) simp

lemma empty_ctx_ok: "store_ok ref_k empty_ctx"
  by (simp add: store_ok_def HasToken_def GetToken_def GetTokenCounter_def ref_k_def empty_ctx_def
      ref_kv_def)

end
