(* ===== verification/Token_Msgs.thy ===== *)
theory Token_Msgs
  imports Ref_Keeper
begin

text \<open>
  The message server of the token module (\<^verbatim>\<open>x/stoc/keeper/msg_server_*.go\<close>), its supply
  invariant (\<^verbatim>\<open>x/stoc/keeper/invariants.go\<close>) and the transition system they form.

  A handler maps a context to an error or a response with the new context; an error discards the
  new context, as the transaction cache of the SDK does. \<open>CreateToken\<close> is split along the
  phases of the source: the addresses are put in canonical form, the token is assembled and
  checked, the initial supply is minted entry by entry, the reserve is minted to the module
  account, then counter, token and metadata are written.

  The invariant \<open>supply_inv\<close> ties the store to the bank: for every token, the bank's supply is
  the tracked total and the module account's balance is the tracked reserve, and denominations
  with a counter not issued yet are unused. Every handler preserves it.
\<close>

unbundle bit_operations_syntax

section \<open>CreateToken\<close>

record MsgCreateTokenResponse =
  rcSymbol :: string
  rcCreator :: string
  rcSuccess :: bool
  rcMessage :: string

definition create_distributions ::
  "'x sdk_scheme \<Rightarrow> bool \<Rightarrow> string \<Rightarrow> WalletDistribution list \<Rightarrow> WalletDistribution list res" where
  "create_distributions K skip canonicalCreator ds =
     (if skip then Inr []
      else if length ds = 0 then Inr [\<lparr>wdAddress = canonicalCreator, wdPercent = 100\<rparr>]
      else forE (\<lambda>d acc.
             tryE (asErr ErrInvalidCreatorAddress (AccAddressFromBech32 K (wdAddress d)))
               (\<lambda>distAddr. Inr (acc @ [\<lparr>wdAddress = AccAddress_String K distAddr, wdPercent = wdPercent d\<rparr>])))
             ds [])"

definition create_tax :: "'x sdk_scheme \<Rightarrow> TokenTax \<Rightarrow> TokenTax res" where
  "create_tax K tax =
     (if txPercent tax = None then Inr \<lparr>txPercent = Some 0, txRecipientAddress = []\<rparr>
      else if txRecipientAddress tax \<noteq> [] then
        tryE (asErr ErrInvalidTokenAmount (AccAddressFromBech32 K (txRecipientAddress tax)))
          (\<lambda>a. Inr \<lparr>txPercent = txPercent tax, txRecipientAddress = AccAddress_String K a\<rparr>)
      else Inr tax)"

definition create_token ::
  "MsgCreateToken \<Rightarrow> WalletDistribution list \<Rightarrow> TokenTax \<Rightarrow> string \<Rightarrow> u64 \<Rightarrow> Token" where
  "create_token msg distributions tax canonicalCreator counter =
     (let minimalDenom = mcSymbol msg @ ''_'' @ FormatUint counter
      in \<lparr>tkId = minimalDenom, tkName = mcName msg, tkSymbol = mcSymbol msg,
          tkInitialSupply = mcInitialSupply msg, tkTotalSupply = mcTotalSupply msg,
          tkDecimals = mcDecimals msg, tkLogo = mcLogo msg, tkDistributions = distributions,
          tkTax = tax, tkCreator = canonicalCreator, tkRemainingSupply = None,
          tkUnlimited = mcUnlimited msg, tkMinimalDenom = minimalDenom\<rparr>)"

definition create_checks :: "('s, 'b, 'x) Keeper_scheme \<Rightarrow> Token \<Rightarrow> ('s, 'b) ctx \<Rightarrow> unit res" where
  "create_checks k token c =
     allE [Validate k token,
           (if txRecipientAddress (tkTax token) \<noteq> []
            then case AccAddressFromBech32 k (txRecipientAddress (tkTax token)) of
                   Inl _ \<Rightarrow> Inr ()
                 | Inr taxRecipient \<Rightarrow>
                     failIf (BlockedAddr (bankKeeper k) taxRecipient) ErrInvalidTokenAmount
            else Inr ()),
           asErr ErrInvalidTokenSymbol (ValidateDenom k (tkMinimalDenom token)),
           failIf (HasToken k c (tkMinimalDenom token)) ErrTokenExists]"

fun mintDistributions :: "('s, 'b, 'x) Keeper_scheme \<Rightarrow> denom \<Rightarrow> int \<Rightarrow> int \<Rightarrow>
    WalletDistribution list \<Rightarrow> ('s, 'b) ctx \<Rightarrow> ('s, 'b) ctx res" where
  "mintDistributions k d initialSupply totalMinted [] c = Inr c"
| "mintDistributions k d initialSupply totalMinted (dist # rest) c =
     tryE (AccAddressFromBech32 k (wdAddress dist)) (\<lambda>recipient.
     let B = bankKeeper k;
         amount = (if rest = [] then initialSupply - totalMinted
                   else IntQuo (initialSupply * uint (wdPercent dist)) 100)
     in if amount < 0 then Inl ErrInvalidAmount
        else if amount = 0 then Inl ErrInvalidAmount
        else tryE (one_coin k d amount) (\<lambda>coins.
             tryE (withBank (MintCoins B (bank c) stocModule coins) c) (\<lambda>c1.
             tryE (withBank (SendCoinsFromModuleToAccount B (bank c1) stocModule recipient coins) c1) (\<lambda>c2.
             mintDistributions k d initialSupply (totalMinted + amount) rest c2))))"

definition create_metadata :: "Token \<Rightarrow> metadata" where
  "create_metadata token =
     (let minimalDenom = tkMinimalDenom token
      in \<lparr>mdDescription = ''Token '' @ tkName token @ '' ('' @ tkSymbol token @ '') created on STOChain'',
          mdDenomUnits =
            (if 0 < tkDecimals token
             then [\<lparr>duDenom = minimalDenom, duExponent = 0, duAliases = []\<rparr>,
                   \<lparr>duDenom = minimalDenom @ ''_display'', duExponent = tkDecimals token,
                    duAliases = [tkSymbol token]\<rparr>]
             else [\<lparr>duDenom = minimalDenom, duExponent = 0, duAliases = [tkSymbol token]\<rparr>]),
          mdBase = minimalDenom, mdDisplay = minimalDenom, mdName = tkName token,
          mdSymbol = tkSymbol token, mdURI = tkLogo token, mdURIHash = []\<rparr>)"

text \<open>The bank operations: the initial supply by the distribution list, then the reserve.\<close>

definition create_mint :: "('s, 'b, 'x) Keeper_scheme \<Rightarrow> MsgCreateToken \<Rightarrow> Token \<Rightarrow> int \<Rightarrow> int \<Rightarrow>
    ('s, 'b) ctx \<Rightarrow> ('s, 'b) ctx res" where
  "create_mint k msg token initialSupply remainingSupply c =
     (let skipDistribution = (tkUnlimited token \<and> initialSupply = 0)
      in if skipDistribution \<and> 0 < length (mcDistributions msg) then Inl ErrInvalidAmount
         else tryE (if skipDistribution then Inr c
                    else mintDistributions k (tkMinimalDenom token) initialSupply 0
                           (tkDistributions token) c) (\<lambda>c1.
              if 0 < remainingSupply
              then tryE (one_coin k (tkMinimalDenom token) remainingSupply) (\<lambda>coins.
                   withBank (MintCoins (bankKeeper k) (bank c1) stocModule coins) c1)
              else Inr c1))"

text \<open>The writes after the bank operations: counter, token, metadata, event.\<close>

definition create_persist :: "('s, 'b, 'x) Keeper_scheme \<Rightarrow> Token \<Rightarrow> int \<Rightarrow> u64 \<Rightarrow> ('s, 'b) ctx \<Rightarrow>
    (MsgCreateTokenResponse \<times> ('s, 'b) ctx) res" where
  "create_persist k token initialSupply counter c =
     tryE (SetTokenCounter k (counter + 1) c) (\<lambda>c1.
     tryE (SetToken k token c1) (\<lambda>c2.
     let c3 = c2\<lparr>bank := SetDenomMetaData (bankKeeper k) (bank c2) (create_metadata token)\<rparr>
     in Inr (\<lparr>rcSymbol = tkSymbol token, rcCreator = tkCreator token, rcSuccess = True,
              rcMessage = tkMinimalDenom token\<rparr>,
             EmitEvent (Event ''create_token''
               [(''token_symbol'', tkSymbol token), (''token_name'', tkName token),
                (''token_creator'', tkCreator token), (''initial_supply'', show_int initialSupply),
                (''minimal_denom'', tkMinimalDenom token)]) c3)))"

definition create_reserve :: "int \<Rightarrow> int \<Rightarrow> int" where
  "create_reserve totalSupply initialSupply =
     (if initialSupply < totalSupply then totalSupply - initialSupply else 0)"

definition CreateToken :: "('s, 'b, 'x) Keeper_scheme \<Rightarrow> MsgCreateToken \<Rightarrow> ('s, 'b) ctx \<Rightarrow>
    (MsgCreateTokenResponse \<times> ('s, 'b) ctx) res" where
  "CreateToken k msg c =
     tryE (asErr ErrInvalidCreatorAddress (AccAddressFromBech32 k (mcCreator msg))) (\<lambda>creatorAddr.
     let canonicalCreator = AccAddress_String k creatorAddr in
     if mcInitialSupply msg = None then Inl ErrInvalidAmount
     else tryE (deref (mcInitialSupply msg)) (\<lambda>initialSupply.
     let skipDistributionForToken = (mcUnlimited msg \<and> initialSupply = 0) in
     tryE (create_distributions k skipDistributionForToken canonicalCreator (mcDistributions msg)) (\<lambda>ds.
     tryE (create_tax k (mcTax msg)) (\<lambda>taxToUse.
     tryE (GetTokenCounter k c) (\<lambda>counter.
     if counter = NOT 0 then Inl ErrInvalidTokenAmount
     else let token0 = create_token msg ds taxToUse canonicalCreator counter in
     tryE (create_checks k token0 c) (\<lambda>_.
     tryE (deref (tkTotalSupply token0)) (\<lambda>totalSupply.
     let remainingSupply = create_reserve totalSupply initialSupply;
         token = token0\<lparr>tkRemainingSupply := Some remainingSupply\<rparr> in
     tryE (create_mint k msg token initialSupply remainingSupply c) (\<lambda>c1.
     create_persist k token initialSupply counter c1))))))))"

section \<open>ReleaseTokens\<close>

record MsgReleaseTokensResponse =
  rrSymbol :: string
  rrTotalAmount :: string
  rrRecipientCount :: u32
  rrSuccess :: bool
  rrMessage :: string

definition release_total :: "ReleaseRecipient list \<Rightarrow> int res" where
  "release_total ds =
     forE (\<lambda>dist totalAmount.
       if nilOr (rrAmount dist) (\<lambda>v. \<not> 0 < v) then Inl ErrInvalidAmount
       else tryE (deref (rrAmount dist)) (\<lambda>v. Inr (totalAmount + v))) ds 0"

definition release_one :: "('s, 'b, 'x) Keeper_scheme \<Rightarrow> Token \<Rightarrow> ReleaseRecipient \<Rightarrow> ('s, 'b) ctx \<Rightarrow>
    ('s, 'b) ctx res" where
  "release_one k token dist c =
     tryE (AccAddressFromBech32 k (rrAddress dist)) (\<lambda>recipientAddr.
     let canonicalRecipient = AccAddress_String k recipientAddr; B = bankKeeper k in
     if rrAddress dist \<noteq> canonicalRecipient then Inl ErrInvalidAmount
     else if BlockedAddr B recipientAddr then Inl ErrInvalidAmount
     else tryE (deref (rrAmount dist)) (\<lambda>amount.
     tryE (one_coin k (tkMinimalDenom token) amount) (\<lambda>coins.
     tryE (withBank (SendCoinsFromModuleToAccount B (bank c) stocModule recipientAddr coins) c) (\<lambda>c1.
     Inr (EmitEvent (Event ''release_tokens''
            [(''token_symbol'', tkSymbol token), (''minimal_denom'', tkMinimalDenom token),
             (''amount'', show_int amount), (''recipient'', canonicalRecipient),
             (''token_creator'', tkCreator token)]) c1)))))"

definition ReleaseTokens :: "('s, 'b, 'x) Keeper_scheme \<Rightarrow> MsgReleaseTokens \<Rightarrow> ('s, 'b) ctx \<Rightarrow>
    (MsgReleaseTokensResponse \<times> ('s, 'b) ctx) res" where
  "ReleaseTokens k msg c =
     tryE (FindToken k c (mrSymbol msg)) (\<lambda>token.
     tryE (asErr ErrInvalidCreatorAddress (AccAddressFromBech32 k (mrCreator msg))) (\<lambda>creatorAddr.
     if AccAddress_String k creatorAddr \<noteq> tkCreator token then Inl ErrUnauthorized
     else tryE (release_total (mrDistributions msg)) (\<lambda>totalAmount.
     tryE (deref (tkRemainingSupply token)) (\<lambda>remaining.
     if remaining < totalAmount then Inl ErrInsufficientTokens
     else let token' = token\<lparr>tkRemainingSupply := Some (remaining - totalAmount)\<rparr> in
     tryE (ValidateState k token') (\<lambda>_.
     tryE (forE (release_one k token) (mrDistributions msg) c) (\<lambda>c1.
     tryE (SetToken k token' c1) (\<lambda>c2.
     Inr (\<lparr>rrSymbol = tkSymbol token, rrTotalAmount = show_int totalAmount,
           rrRecipientCount = of_nat (length (mrDistributions msg)), rrSuccess = True,
           rrMessage = ''tokens released''\<rparr>, c2))))))))"

section \<open>BurnToken\<close>

record MsgBurnTokenResponse =
  rbSuccess :: bool
  rbMessage :: string

text \<open>The checks on a managed token before any coin moves; the result is the token to persist.\<close>

definition burn_managed :: "('s, 'b, 'x) Keeper_scheme \<Rightarrow> Token \<Rightarrow> int \<Rightarrow> Token res" where
  "burn_managed k token amountToBurn =
     tryE (deref (tkTotalSupply token)) (\<lambda>total.
     if total < amountToBurn then Inl ErrInvalidAmount
     else let token' = token\<lparr>tkTotalSupply := Some (total - amountToBurn)\<rparr> in
     if notNilAnd (tkRemainingSupply token') (\<lambda>r. total - amountToBurn < r) then Inl ErrInvalidAmount
     else tryE (ValidateState k token') (\<lambda>_. Inr token'))"

definition BurnToken :: "('s, 'b, 'x) Keeper_scheme \<Rightarrow> MsgBurnToken \<Rightarrow> ('s, 'b) ctx \<Rightarrow>
    (MsgBurnTokenResponse \<times> ('s, 'b) ctx) res" where
  "BurnToken k msg c =
     tryE (AccAddressFromBech32 k (mbCreator msg)) (\<lambda>creator.
     let B = bankKeeper k; managed = GetToken k c (mbDenom msg);
         amountToBurn = (if mbBurnAll msg then Some (bal B (bank c) creator (mbDenom msg)) else mbAmount msg) in
     if nilOr amountToBurn (\<lambda>v. v = 0) then Inl ErrInvalidAmount
     else tryE (deref amountToBurn) (\<lambda>amount.
     tryE (case managed of None \<Rightarrow> Inr None
           | Some token \<Rightarrow> tryE (burn_managed k token amount) (\<lambda>t. Inr (Some t))) (\<lambda>after.
     tryE (one_coin k (mbDenom msg) amount) (\<lambda>coins.
     tryE (withBank (SendCoinsFromAccountToModule B (bank c) creator stocModule coins) c) (\<lambda>c1.
     tryE (withBank (BurnCoins B (bank c1) stocModule coins) c1) (\<lambda>c2.
     tryE (case after of None \<Rightarrow> Inr c2 | Some t \<Rightarrow> SetToken k t c2) (\<lambda>c3.
     Inr (\<lparr>rbSuccess = True, rbMessage = ''Tokens burned successfully''\<rparr>,
          EmitEvent (Event ''burn_token''
            [(''burner'', AccAddress_String k creator), (''minimal_denom'', mbDenom msg),
             (''burn_amount'', show_int amount)]) c3))))))))"

section \<open>MintTokens and UpdateParams\<close>

definition MintTokens :: "('s, 'b, 'x) Keeper_scheme \<Rightarrow> MsgMintTokens \<Rightarrow> ('s, 'b) ctx \<Rightarrow> ('s, 'b) ctx res" where
  "MintTokens k msg c =
     tryE (asErr ErrInvalidCreatorAddress (AccAddressFromBech32 k (mmCreator msg))) (\<lambda>creator.
     tryE (FindToken k c (mmSymbol msg)) (\<lambda>token.
     MintToken k creator (tkMinimalDenom token) (mmAmount msg) c))"

definition UpdateParams :: "('s, 'b, 'x) Keeper_scheme \<Rightarrow> MsgUpdateParams \<Rightarrow> ('s, 'b) ctx \<Rightarrow> ('s, 'b) ctx res" where
  "UpdateParams k req c =
     (if authority k \<noteq> muAuthority req then Inl ErrInvalidSigner
      else tryE Params_Validate (\<lambda>_.
           tryE (SetParams k c) (\<lambda>c1.
           Inr (EmitEvent (Event ''update_params''
                  [(''module'', stocModule), (''authority'', muAuthority req)]) c1))))"

section \<open>SupplyInvariant\<close>

definition drift_line :: "Token \<Rightarrow> string \<Rightarrow> string \<Rightarrow> string \<Rightarrow> string \<Rightarrow> string" where
  "drift_line token what x rel y =
     [CHR 0x09] @ ''token '' @ tkSymbol token @ '' ('' @ tkMinimalDenom token @ ''): '' @
     what @ x @ rel @ y @ [CHR 0x0A]"

definition token_drift :: "('s, 'b, 'x) Keeper_scheme \<Rightarrow> ('s, 'b) ctx \<Rightarrow> Token \<Rightarrow> string list res" where
  "token_drift k c token =
     (let B = bankKeeper k; denom = tkMinimalDenom token;
          bankSupply = bsupply B (bank c) denom;
          moduleBalance = bal B (bank c) (NewModuleAddress k stocModule) denom
      in tryE (deref (tkTotalSupply token)) (\<lambda>total.
         tryE (deref (tkRemainingSupply token)) (\<lambda>remaining.
         Inr ((if bankSupply \<noteq> total
               then [drift_line token ''bank supply '' (show_int bankSupply) '' != tracked TotalSupply '' (show_int total)]
               else []) @
              (if moduleBalance \<noteq> remaining
               then [drift_line token ''module balance '' (show_int moduleBalance)
                       '' != tracked RemainingSupply '' (show_int remaining)]
               else []) @
              (if total < remaining
               then [drift_line token ''RemainingSupply '' (show_int remaining) '' > TotalSupply '' (show_int total)]
               else [])))))"

definition SupplyInvariant :: "('s, 'b, 'x) Keeper_scheme \<Rightarrow> ('s, 'b) ctx \<Rightarrow> (bool \<times> ('s, 'b) ctx) res" where
  "SupplyInvariant k c =
     tryE (forE (\<lambda>token lines. tryE (token_drift k c token) (\<lambda>l. Inr (lines @ l))) (GetAllTokens k c) [])
       (\<lambda>lines. Inr (False,
          if lines \<noteq> [] then EmitEvent (Event ''stoc_supply_drift'' [(''details'', concat lines)]) c else c))"

section \<open>The supply invariant\<close>

abbreviation sup_of :: "('s, 'b, 'x) Keeper_scheme \<Rightarrow> ('s, 'b) ctx \<Rightarrow> denom \<Rightarrow> int" where
  "sup_of k c d \<equiv> bsupply (bankKeeper k) (bank c) d"

abbreviation bal_of :: "('s, 'b, 'x) Keeper_scheme \<Rightarrow> ('s, 'b) ctx \<Rightarrow> addr \<Rightarrow> denom \<Rightarrow> int" where
  "bal_of k c a d \<equiv> bal (bankKeeper k) (bank c) a d"

abbreviation modAddr :: "'x sdk_scheme \<Rightarrow> addr" where
  "modAddr K \<equiv> NewModuleAddress K ''stoc''"

definition books_ok :: "('s, 'b, 'x) Keeper_scheme \<Rightarrow> ('s, 'b) ctx \<Rightarrow> bool" where
  "books_ok k c \<longleftrightarrow> (\<forall>d t. GetToken k c d = Some t \<longrightarrow>
     tkTotalSupply t = Some (sup_of k c d) \<and> tkRemainingSupply t = Some (bal_of k c (modAddr k) d))"

definition fresh_ok :: "('s, 'b, 'x) Keeper_scheme \<Rightarrow> ('s, 'b) ctx \<Rightarrow> bool" where
  "fresh_ok k c \<longleftrightarrow> (\<forall>n smb w. GetTokenCounter k c = Inr n \<longrightarrow> TokenSymbolRegex smb \<longrightarrow> n \<le> w \<longrightarrow>
     GetToken k c (denom_of smb w) = None \<and> sup_of k c (denom_of smb w) = 0 \<and>
     bal_of k c (modAddr k) (denom_of smb w) = 0)"

definition supply_inv :: "('s, 'b, 'x) Keeper_scheme \<Rightarrow> ('b \<Rightarrow> bool) \<Rightarrow> ('s, 'b) ctx \<Rightarrow> bool" where
  "supply_inv k wfb c \<longleftrightarrow> store_ok k c \<and> wfb (bank c) \<and> books_ok k c \<and> fresh_ok k c"

lemma withBank_Inr [simp]: "withBank r c = Inr c' \<longleftrightarrow> (\<exists>b. r = Inr b \<and> c' = c\<lparr>bank := b\<rparr>)"
  by (auto simp: withBank_def)

text \<open>The token views depend on the module's store only.\<close>

lemma store_views:
  assumes "store c' = store c"
  shows "GetToken k c' = GetToken k c" and "HasToken k c' = HasToken k c"
    and "GetTokenCounter k c' = GetTokenCounter k c" and "store_ok k c' \<longleftrightarrow> store_ok k c"
    and "FindToken k c' = FindToken k c" and "GetAllTokens k c' = GetAllTokens k c"
proof -
  have coll: "collectBySymbol k c' p acc rs = collectBySymbol k c p acc rs" for p acc rs
    by (induction rs arbitrary: acc) (auto simp: assms Let_def split: option.splits)
  show g: "GetToken k c' = GetToken k c" and h: "HasToken k c' = HasToken k c"
    and n: "GetTokenCounter k c' = GetTokenCounter k c"
    and "GetAllTokens k c' = GetAllTokens k c"
    by (auto simp: fun_eq_iff GetToken_def HasToken_def GetTokenCounter_def GetAllTokens_def assms)
  show "store_ok k c' \<longleftrightarrow> store_ok k c"
    by (simp add: store_ok_def g h n assms)
  have f: "GetTokensBySymbol k c' = GetTokensBySymbol k c"
    by (simp add: fun_eq_iff GetTokensBySymbol_def coll assms)
  show "FindToken k c' = FindToken k c" by (intro ext) (unfold FindToken_def g f, rule refl)
qed

lemma bank_views [simp]:
  "GetToken k (c\<lparr>bank := b\<rparr>) = GetToken k c" "HasToken k (c\<lparr>bank := b\<rparr>) = HasToken k c"
  "GetTokenCounter k (c\<lparr>bank := b\<rparr>) = GetTokenCounter k c" "store_ok k (c\<lparr>bank := b\<rparr>) \<longleftrightarrow> store_ok k c"
  by (simp_all add: store_views [of "c\<lparr>bank := b\<rparr>" c])

lemma supply_inv_cong:
  assumes "store c' = store c" and "bank c' = bank c"
  shows "supply_inv k wfb c' \<longleftrightarrow> supply_inv k wfb c"
  using store_views [OF assms(1), of k] assms(2)
  by (simp add: supply_inv_def books_ok_def fresh_ok_def)

lemma EmitEvent_sel [simp]: "store (EmitEvent e c) = store c" "bank (EmitEvent e c) = bank c"
  "events (EmitEvent e c) = events c @ [e]"
  by (simp_all add: EmitEvent_def)

text \<open>The sum a release pays out, and the part of it that goes to one account.\<close>

definition released :: "ReleaseRecipient list \<Rightarrow> int" where
  "released ds = (\<Sum>d \<leftarrow> ds. the (rrAmount d))"

definition received :: "'x sdk_scheme \<Rightarrow> ReleaseRecipient list \<Rightarrow> addr \<Rightarrow> int" where
  "received K ds x = (\<Sum>d \<leftarrow> ds. if AccAddressFromBech32 K (rrAddress d) = Inr x then the (rrAmount d) else 0)"

text \<open>The shares of the initial supply: the rounded-down percentage for every entry but the last,
  which gets what is left.\<close>

fun shares :: "int \<Rightarrow> int \<Rightarrow> WalletDistribution list \<Rightarrow> int list" where
  "shares init tot [] = []"
| "shares init tot (d # rest) =
     (let a = (if rest = [] then init - tot else init * int (unat (wdPercent d)) div 100)
      in a # shares init (tot + a) rest)"

definition granted :: "'x sdk_scheme \<Rightarrow> WalletDistribution list \<Rightarrow> int list \<Rightarrow> addr \<Rightarrow> int" where
  "granted K ds as x =
     (\<Sum>(d, a) \<leftarrow> zip ds as. if AccAddressFromBech32 K (wdAddress d) = Inr x then a else 0)"

lemma granted_simps [simp]:
  "granted K [] as x = 0"
  "granted K (d # ds) (a # as) x =
     (if AccAddressFromBech32 K (wdAddress d) = Inr x then a else 0) + granted K ds as x"
  by (simp_all add: granted_def)

lemma shares_length [simp]: "length (shares init tot ds) = length ds"
  by (induction init tot ds rule: shares.induct) (simp_all add: Let_def)

lemma shares_sum: "ds \<noteq> [] \<Longrightarrow> sum_list (shares init tot ds) = init - tot"
  by (induction init tot ds rule: shares.induct) (auto simp: Let_def)

lemma word_less_succ: "n \<noteq> - 1 \<Longrightarrow> n < n + 1" for n :: u64
  using unatSuc [of n] by (auto simp: word_less_nat_alt add.commute add_eq_0_iff)

context stoc_env
begin

lemma mint_step:
  assumes "one_coin k d a = Inr coins" and "wfb (bank c)"
    and "MintCoins (bankKeeper k) (bank c) ''stoc'' coins = Inr b1"
    and "SendCoinsFromModuleToAccount (bankKeeper k) b1 ''stoc'' r coins = Inr b2"
  shows "wfb b2" and "r \<noteq> modAddr k" and "0 \<le> a"
    and "bsupply (bankKeeper k) b2 e = sup_of k c e + (if e = d then a else 0)"
    and "bal (bankKeeper k) b2 x e = bal_of k c x e + (if x = r \<and> e = d then a else 0)"
  using mint_to_account [OF assms(2-4) module_blocked] one_coin_amount [OF assms(1)] assms(1)
  by (auto simp: one_coin_Inr)

lemma burn_step:
  assumes "one_coin k d a = Inr coins" and "wfb (bank c)" and "f \<noteq> modAddr k"
    and "SendCoinsFromAccountToModule (bankKeeper k) (bank c) f ''stoc'' coins = Inr b1"
    and "BurnCoins (bankKeeper k) b1 ''stoc'' coins = Inr b2"
  shows "wfb b2" and "0 \<le> a"
    and "bsupply (bankKeeper k) b2 e = sup_of k c e - (if e = d then a else 0)"
    and "bal (bankKeeper k) b2 x e = bal_of k c x e - (if x = f \<and> e = d then a else 0)"
  using burn_from_account [OF assms(2,4,5,3)] one_coin_amount [OF assms(1)] assms(1)
  by (auto simp: one_coin_Inr)

lemma release_step:
  assumes "one_coin k d a = Inr coins" and "wfb (bank c)"
    and "SendCoinsFromModuleToAccount (bankKeeper k) (bank c) ''stoc'' r coins = Inr b"
  shows "wfb b" and "r \<noteq> modAddr k" and "0 \<le> a"
    and "bsupply (bankKeeper k) b e = sup_of k c e"
    and "bal (bankKeeper k) b x e = bal_of k c x e - (if x = modAddr k \<and> e = d then a else 0)
           + (if x = r \<and> e = d then a else 0)"
proof -
  from ModuleToAccount [OF assms(3)] have nb: "\<not> BlockedAddr (bankKeeper k) r"
    and snd: "SendCoins (bankKeeper k) (bank c) (modAddr k) r coins = Inr b" by auto
  show "wfb b" using Send_wf [OF assms(2) snd] .
  show "r \<noteq> modAddr k" using nb module_blocked by auto
  show "0 \<le> a" using assms(1) by (simp add: one_coin_Inr)
  show "bsupply (bankKeeper k) b e = sup_of k c e" using Send_supply [OF assms(2) snd] .
  show "bal (bankKeeper k) b x e = bal_of k c x e - (if x = modAddr k \<and> e = d then a else 0)
           + (if x = r \<and> e = d then a else 0)"
    using Send_bal [OF assms(2) snd, of x e] one_coin_amount [OF assms(1), of e] by auto
qed

text \<open>Rewriting the entry of an existing token after its coins moved keeps the invariant, when
  the new numbers are those of the bank and no other denomination moved.\<close>

lemma supply_inv_update:
  assumes inv: "supply_inv k wfb c" and st: "store c1 = store c" and wf: "wfb (bank c1)"
    and old: "GetToken k c (tkMinimalDenom t) = Some t0"
    and T: "tkTotalSupply t = Some (sup_of k c1 (tkMinimalDenom t))"
    and R: "tkRemainingSupply t = Some (bal_of k c1 (modAddr k) (tkMinimalDenom t))"
    and other: "\<And>e. e \<noteq> tkMinimalDenom t \<Longrightarrow>
      sup_of k c1 e = sup_of k c e \<and> bal_of k c1 (modAddr k) e = bal_of k c (modAddr k) e"
    and set: "SetToken k t c1 = Inr c'"
  shows "supply_inv k wfb c'"
proof -
  note s = SetToken_Inr [OF set] and v = store_views [OF st, of k]
  have "store_ok k c'"
    using SetToken_store_ok [OF set] inv v(4) by (simp add: supply_inv_def)
  moreover have "books_ok k c'"
    using inv T R other unfolding supply_inv_def books_ok_def s(2,4) v(1) by auto
  moreover have "fresh_ok k c'"
  proof -
    have "denom_of smb w \<noteq> tkMinimalDenom t"
      if "GetTokenCounter k c = Inr n" "TokenSymbolRegex smb" "n \<le> w" for n smb w
      using inv old that unfolding supply_inv_def fresh_ok_def by fastforce
    then show ?thesis
      using inv other unfolding supply_inv_def fresh_ok_def s(2,4,6) v(1,3) by simp
  qed
  ultimately show ?thesis using wf s(2) by (simp add: supply_inv_def)
qed

text \<open>Minting: what a successful \<open>MintToken\<close> did.\<close>

lemma MintToken_Inr:
  assumes inv: "supply_inv k wfb c" and run: "MintToken k owner d amount c = Inr c'"
  shows "\<exists>t amt T. amount = Some amt \<and> 0 < amt \<and> GetToken k c d = Some t \<and>
    tkCreator t = AccAddress_String k owner \<and> tkUnlimited t \<and> tkTotalSupply t = Some T \<and>
    T + amt \<le> MaxTokenSupply \<and>
    token_ok k (t\<lparr>tkTotalSupply := Some (T + amt)\<rparr>) \<and>
    GetToken k c' = (GetToken k c)(d \<mapsto> t\<lparr>tkTotalSupply := Some (T + amt)\<rparr>) \<and>
    GetTokenCounter k c' = GetTokenCounter k c \<and>
    (\<forall>e. sup_of k c' e = sup_of k c e + (if e = d then amt else 0)) \<and>
    (\<forall>x e. bal_of k c' x e = bal_of k c x e + (if x = owner \<and> e = d then amt else 0)) \<and>
    supply_inv k wfb c'"
proof -
  from run obtain t amt T coins b1 b2 c2 where
    amt: "amount = Some amt" "0 < amt" and t: "GetToken k c d = Some t"
    and auth: "tkCreator t = AccAddress_String k owner" "tkUnlimited t"
    and T: "tkTotalSupply t = Some T" "T + amt \<le> MaxTokenSupply"
    and coins: "one_coin k (tkMinimalDenom t) amt = Inr coins"
    and b1: "MintCoins (bankKeeper k) (bank c) ''stoc'' coins = Inr b1"
    and b2: "SendCoinsFromModuleToAccount (bankKeeper k) b1 ''stoc'' owner coins = Inr b2"
    and set: "SetToken k (t\<lparr>tkTotalSupply := Some (T + amt)\<rparr>) (c\<lparr>bank := b2\<rparr>) = Inr c2"
    and c': "store c' = store c2" "bank c' = bank c2"
    by (auto simp: MintToken_def Let_def not_less split: if_splits option.splits)
  have ok: "store_ok k c" and wf: "wfb (bank c)" and books: "books_ok k c"
    using inv by (auto simp: supply_inv_def)
  have st: "stored_ok k d t" using store_okD [OF ok t] .
  then have d: "tkMinimalDenom t = d" "tkId t = d" "norm_token t = t" by (auto simp: stored_ok_def)
  note m = mint_step [OF coins wf b1 b2, unfolded d(1)]
  note s = SetToken_Inr [OF set] and v = bank_views
  note v' = store_views [OF c'(1), of k]
  have nt: "norm_token (t\<lparr>tkTotalSupply := Some (T + amt), tkId := d\<rparr>) = t\<lparr>tkTotalSupply := Some (T + amt)\<rparr>"
    using d by (cases t) (auto simp: norm_token_def split: option.splits)
  have tok: "GetToken k c' = (GetToken k c)(d \<mapsto> t\<lparr>tkTotalSupply := Some (T + amt)\<rparr>)"
    using nt by (auto simp: fun_eq_iff v' s(4) d(1) v)
  have "supply_inv k wfb c2"
    using books t T m d(1) by (intro supply_inv_update [OF inv _ _ _ _ _ _ set]) (auto simp: books_ok_def)
  then have "supply_inv k wfb c'" using supply_inv_cong [OF c', of k wfb] by simp
  with amt t auth T tok m s v v' c' show ?thesis by (auto simp: d(1))
qed

lemma FindToken_Inr:
  assumes ok: "store_ok k c" and "FindToken k c x = Inr t"
  shows "GetToken k c (tkMinimalDenom t) = Some t" and "tkMinimalDenom t = x \<or> tkSymbol t = x"
proof -
  have "GetToken k c (tkMinimalDenom t) = Some t \<and> (tkMinimalDenom t = x \<or> tkSymbol t = x)"
  proof (cases "GetToken k c x")
    case (Some u)
    with assms store_okD [OF ok Some] show ?thesis by (simp add: FindToken_def stored_ok_def)
  next
    case None
    with assms(2) have "t \<in> set (GetTokensBySymbol k c x)"
      by (auto simp: FindToken_def Let_def split: if_splits)
    then have "t \<in> set (GetAllTokens k c)" and "tkSymbol t = x"
      unfolding GetTokensBySymbol_eq [OF ok] by (auto dest: in_set_takeD)
    then show ?thesis by (simp add: GetAllTokens_set [OF ok])
  qed
  then show "GetToken k c (tkMinimalDenom t) = Some t" and "tkMinimalDenom t = x \<or> tkSymbol t = x"
    by auto
qed

text \<open>Releasing: the amounts are positive and their sum leaves the module account.\<close>

lemma release_total_Inr:
  "release_total ds = Inr v \<Longrightarrow> v = released ds \<and> (\<forall>d \<in> set ds. \<exists>a. rrAmount d = Some a \<and> 0 < a)"
proof -
  have "forE (\<lambda>dist tot. if nilOr (rrAmount dist) (\<lambda>v. \<not> 0 < v) then Inl ErrInvalidAmount
       else tryE (deref (rrAmount dist)) (\<lambda>v. Inr (tot + v))) ds u = Inr v \<Longrightarrow>
     v = u + released ds \<and> (\<forall>d \<in> set ds. \<exists>a. rrAmount d = Some a \<and> 0 < a)" for u
    by (induction ds arbitrary: u) (fastforce simp: released_def split: if_splits)+
  from this [of 0] show "release_total ds = Inr v \<Longrightarrow>
     v = released ds \<and> (\<forall>d \<in> set ds. \<exists>a. rrAmount d = Some a \<and> 0 < a)"
    by (simp add: release_total_def)
qed

lemma release_loop:
  assumes "forE (release_one k t) ds c = Inr c'" and "wfb (bank c)"
  shows "store c' = store c \<and> wfb (bank c') \<and> (\<forall>e. sup_of k c' e = sup_of k c e) \<and>
    (\<forall>e. bal_of k c' (modAddr k) e = bal_of k c (modAddr k) e
       - (if e = tkMinimalDenom t then released ds else 0)) \<and>
    (\<forall>x e. x \<noteq> modAddr k \<longrightarrow> bal_of k c' x e = bal_of k c x e
       + (if e = tkMinimalDenom t then received k ds x else 0))"
  using assms
proof (induction ds arbitrary: c)
  case Nil
  then show ?case by (simp add: released_def received_def)
next
  case (Cons d ds)
  then obtain c1 where one: "release_one k t d c = Inr c1" and rest: "forE (release_one k t) ds c1 = Inr c'"
    by auto
  from one obtain r a coins b where r: "AccAddressFromBech32 k (rrAddress d) = Inr r" and a: "rrAmount d = Some a"
    and coins: "one_coin k (tkMinimalDenom t) a = Inr coins"
    and b: "SendCoinsFromModuleToAccount (bankKeeper k) (bank c) ''stoc'' r coins = Inr b"
    and c1: "store c1 = store c" "bank c1 = b"
    by (auto simp: release_one_def Let_def split: if_splits)
  note st = release_step [OF coins Cons.prems(2) b]
  have "wfb (bank c1)" using st(1) c1 by simp
  from Cons.IH [OF rest this] st c1 r a show ?case
    by (auto simp: released_def received_def)
qed

lemma ReleaseTokens_Inr:
  assumes inv: "supply_inv k wfb c" and run: "ReleaseTokens k msg c = Inr (resp, c')"
  shows "\<exists>t creator R. FindToken k c (mrSymbol msg) = Inr t \<and>
    AccAddressFromBech32 k (mrCreator msg) = Inr creator \<and> tkCreator t = AccAddress_String k creator \<and>
    (\<forall>d \<in> set (mrDistributions msg). \<exists>a. rrAmount d = Some a \<and> 0 < a) \<and>
    tkRemainingSupply t = Some R \<and> released (mrDistributions msg) \<le> R \<and>
    token_ok k (t\<lparr>tkRemainingSupply := Some (R - released (mrDistributions msg))\<rparr>) \<and>
    GetToken k c' = (GetToken k c)(tkMinimalDenom t \<mapsto>
      t\<lparr>tkRemainingSupply := Some (R - released (mrDistributions msg))\<rparr>) \<and>
    GetTokenCounter k c' = GetTokenCounter k c \<and>
    (\<forall>e. sup_of k c' e = sup_of k c e) \<and>
    (\<forall>x e. x \<noteq> modAddr k \<longrightarrow> bal_of k c' x e = bal_of k c x e
       + (if e = tkMinimalDenom t then received k (mrDistributions msg) x else 0)) \<and>
    supply_inv k wfb c'"
proof -
  let ?ds = "mrDistributions msg"
  from run obtain t creator v R c1 where
    t: "FindToken k c (mrSymbol msg) = Inr t"
    and auth: "AccAddressFromBech32 k (mrCreator msg) = Inr creator" "tkCreator t = AccAddress_String k creator"
    and v: "release_total ?ds = Inr v" and R: "tkRemainingSupply t = Some R" "v \<le> R"
    and loop: "forE (release_one k t) ?ds c = Inr c1"
    and set: "SetToken k (t\<lparr>tkRemainingSupply := Some (R - v)\<rparr>) c1 = Inr c'"
    by (auto simp: ReleaseTokens_def Let_def not_less split: if_splits)
  have ok: "store_ok k c" and wf: "wfb (bank c)" and books: "books_ok k c"
    using inv by (auto simp: supply_inv_def)
  have g: "GetToken k c (tkMinimalDenom t) = Some t" using FindToken_Inr [OF ok t] by simp
  have d: "tkId t = tkMinimalDenom t" "norm_token t = t" using store_okD [OF ok g] by (auto simp: stored_ok_def)
  note tot = release_total_Inr [OF v]
  from release_loop [OF loop wf] have st: "store c1 = store c" and wf1: "wfb (bank c1)"
    and sup: "\<And>e. sup_of k c1 e = sup_of k c e"
    and bmod: "\<And>e. bal_of k c1 (modAddr k) e = bal_of k c (modAddr k) e
         - (if e = tkMinimalDenom t then released ?ds else 0)"
    and bals: "\<And>x e. x \<noteq> modAddr k \<Longrightarrow> bal_of k c1 x e = bal_of k c x e
         + (if e = tkMinimalDenom t then received k ?ds x else 0)"
    by auto
  note s = SetToken_Inr [OF set] and w = store_views [OF st, of k]
  have "norm_token (t\<lparr>tkRemainingSupply := Some (R - v), tkId := tkMinimalDenom t\<rparr>)
      = t\<lparr>tkRemainingSupply := Some (R - v)\<rparr>"
    using d by (cases t) (auto simp: norm_token_def split: option.splits)
  then have tok: "GetToken k c' = (GetToken k c)(tkMinimalDenom t \<mapsto> t\<lparr>tkRemainingSupply := Some (R - v)\<rparr>)"
    by (auto simp: fun_eq_iff s(4) w)
  have "supply_inv k wfb c'"
    using books g R tot sup bmod
    by (intro supply_inv_update [OF inv st wf1 _ _ _ _ set]) (auto simp: books_ok_def)
  then show ?thesis
    using t auth R tot tok sup bals s(1,2,6) w(3) by (intro exI [of _ t] exI [of _ creator] exI [of _ R]) simp
qed

text \<open>Burning: only the signer's own balance, and the total supply of a managed token, go down.\<close>

lemma BurnToken_Inr:
  assumes inv: "supply_inv k wfb c" and run: "BurnToken k msg c = Inr (resp, c')"
    and signer: "AccAddressFromBech32 k (mbCreator msg) \<noteq> Inr (modAddr k)"
  shows "\<exists>creator amt. AccAddressFromBech32 k (mbCreator msg) = Inr creator \<and>
    (if mbBurnAll msg then amt = bal_of k c creator (mbDenom msg) else mbAmount msg = Some amt) \<and> 0 < amt \<and>
    GetToken k c' = (case GetToken k c (mbDenom msg) of None \<Rightarrow> GetToken k c
      | Some t \<Rightarrow> (GetToken k c)(mbDenom msg \<mapsto> t\<lparr>tkTotalSupply := Some (sup_of k c (mbDenom msg) - amt)\<rparr>)) \<and>
    (\<forall>t. GetToken k c (mbDenom msg) = Some t \<longrightarrow>
       token_ok k (t\<lparr>tkTotalSupply := Some (sup_of k c (mbDenom msg) - amt)\<rparr>)) \<and>
    GetTokenCounter k c' = GetTokenCounter k c \<and>
    (\<forall>e. sup_of k c' e = sup_of k c e - (if e = mbDenom msg then amt else 0)) \<and>
    (\<forall>x e. bal_of k c' x e = bal_of k c x e - (if x = creator \<and> e = mbDenom msg then amt else 0)) \<and>
    supply_inv k wfb c'"
proof -
  let ?d = "mbDenom msg"
  from run obtain creator amt aft coins b1 b2 c3 where
    cr: "AccAddressFromBech32 k (mbCreator msg) = Inr creator"
    and amt: "if mbBurnAll msg then amt = bal_of k c creator ?d else mbAmount msg = Some amt" "amt \<noteq> 0"
    and aft: "(case GetToken k c ?d of None \<Rightarrow> Inr None
        | Some token \<Rightarrow> tryE (burn_managed k token amt) (\<lambda>t. Inr (Some t))) = Inr aft"
    and coins: "one_coin k ?d amt = Inr coins"
    and b1: "SendCoinsFromAccountToModule (bankKeeper k) (bank c) creator ''stoc'' coins = Inr b1"
    and b2: "BurnCoins (bankKeeper k) b1 ''stoc'' coins = Inr b2"
    and fin: "(case aft of None \<Rightarrow> Inr (c\<lparr>bank := b1, bank := b2\<rparr>)
        | Some t \<Rightarrow> SetToken k t (c\<lparr>bank := b1, bank := b2\<rparr>)) = Inr c3"
    and c': "store c' = store c3" "bank c' = bank c3"
    by (auto simp: BurnToken_def Let_def split: if_splits)
  have ok: "store_ok k c" and wf: "wfb (bank c)" and books: "books_ok k c" and fresh: "fresh_ok k c"
    using inv by (auto simp: supply_inv_def)
  have ne: "creator \<noteq> modAddr k" using signer cr by auto
  note m = burn_step [OF coins wf ne b1 b2]
  have pos: "0 < amt" using m(2) amt(2) by simp
  note v = bank_views and v' = store_views [OF c'(1), of k]
  have "GetToken k c' = (case GetToken k c ?d of None \<Rightarrow> GetToken k c
      | Some t \<Rightarrow> (GetToken k c)(?d \<mapsto> t\<lparr>tkTotalSupply := Some (sup_of k c ?d - amt)\<rparr>)) \<and>
    (\<forall>t. GetToken k c ?d = Some t \<longrightarrow> token_ok k (t\<lparr>tkTotalSupply := Some (sup_of k c ?d - amt)\<rparr>)) \<and>
    GetTokenCounter k c' = GetTokenCounter k c \<and> bank c3 = b2 \<and> supply_inv k wfb c3"
  proof (cases "GetToken k c ?d")
    case None
    with aft fin have c3: "c3 = c\<lparr>bank := b2\<rparr>" by auto
    have "books_ok k c3"
      using books None m(3,4) ne unfolding books_ok_def c3 v by auto
    moreover have "fresh_ok k c3"
    proof -
      have "denom_of smb w \<noteq> ?d" if "GetTokenCounter k c = Inr n" "TokenSymbolRegex smb" "n \<le> w" for n smb w
        using fresh that pos m(3) [of ?d] supply_nonneg [OF m(1), of ?d] unfolding fresh_ok_def by fastforce
      then show ?thesis using fresh m(3,4) ne unfolding fresh_ok_def c3 v by auto
    qed
    ultimately have "supply_inv k wfb c3" using ok m(1) v by (simp add: supply_inv_def c3)
    with None v' v c3 show ?thesis by simp
  next
    case (Some t)
    have d: "tkMinimalDenom t = ?d" "tkId t = ?d" "norm_token t = t"
      using store_okD [OF ok Some] by (auto simp: stored_ok_def)
    have T: "tkTotalSupply t = Some (sup_of k c ?d)" using books Some by (auto simp: books_ok_def)
    let ?t = "t\<lparr>tkTotalSupply := Some (sup_of k c ?d - amt)\<rparr>"
    have set: "SetToken k ?t (c\<lparr>bank := b2\<rparr>) = Inr c3"
      using aft fin Some T by (auto simp: burn_managed_def Let_def split: if_splits)
    note s = SetToken_Inr [OF set]
    have "norm_token (t\<lparr>tkTotalSupply := Some (sup_of k c ?d - amt), tkId := ?d\<rparr>) = ?t"
      using d by (cases t) (auto simp: norm_token_def split: option.splits)
    then have "GetToken k c' = (GetToken k c)(?d \<mapsto> ?t)"
      by (auto simp: fun_eq_iff v' s(4) d(1) v)
    moreover have "supply_inv k wfb c3"
      using books Some m d(1) ne by (intro supply_inv_update [OF inv _ _ _ _ _ _ set]) (auto simp: books_ok_def)
    ultimately show ?thesis using Some s(1,2,6) v v' by simp
  qed
  moreover then have "supply_inv k wfb c'" using supply_inv_cong [OF c', of k wfb] by simp
  ultimately show ?thesis
    using cr amt(1) pos m(3,4) c' by (intro exI [of _ creator] exI [of _ amt]) simp
qed

text \<open>Creating: the distribution loop.\<close>

lemma mintDistributions_Inr:
  assumes "mintDistributions k d init tot ds c = Inr c'" and "wfb (bank c)" and "0 \<le> init"
  shows "store c' = store c \<and> events c' = events c \<and> wfb (bank c') \<and>
    list_all (\<lambda>a. 0 < a) (shares init tot ds) \<and>
    (\<forall>e. sup_of k c' e = sup_of k c e + (if e = d then sum_list (shares init tot ds) else 0)) \<and>
    granted k ds (shares init tot ds) (modAddr k) = 0 \<and>
    (\<forall>x e. bal_of k c' x e = bal_of k c x e
       + (if e = d then granted k ds (shares init tot ds) x else 0))"
  using assms
proof (induction ds arbitrary: tot c)
  case Nil
  then show ?case by simp
next
  case (Cons dist rest)
  define a where "a = (if rest = [] then init - tot else init * int (unat (wdPercent dist)) div 100)"
  have a: "a = (if rest = [] then init - tot else IntQuo (init * uint (wdPercent dist)) 100)"
    using Cons.prems(3) by (simp add: a_def IntQuo_def flip: uint_nat)
  from Cons.prems(1) obtain r coins b1 b2 where r: "AccAddressFromBech32 k (wdAddress dist) = Inr r"
    and pos: "0 < a" and coins: "one_coin k d a = Inr coins"
    and b1: "MintCoins (bankKeeper k) (bank c) ''stoc'' coins = Inr b1"
    and b2: "SendCoinsFromModuleToAccount (bankKeeper k) b1 ''stoc'' r coins = Inr b2"
    and rec: "mintDistributions k d init (tot + a) rest (c\<lparr>bank := b2\<rparr>) = Inr c'"
    unfolding mintDistributions.simps a [symmetric] Let_def
    by (auto split: if_splits)
  note m = mint_step [OF coins Cons.prems(2) b1 b2]
  have wf: "wfb (bank (c\<lparr>bank := b2\<rparr>))" using m(1) by simp
  have sh: "shares init tot (dist # rest) = a # shares init (tot + a) rest"
    by (simp add: a_def Let_def)
  from Cons.IH [OF rec wf Cons.prems(3)] m r pos show ?case
    unfolding sh by auto
qed

lemma create_mint_Inr:
  assumes run: "create_mint k msg t init R c = Inr c'" and wf: "wfb (bank c)" and "0 \<le> init" "0 \<le> R"
    and ds: "\<not> (tkUnlimited t \<and> init = 0) \<Longrightarrow> tkDistributions t \<noteq> []"
      "tkUnlimited t \<and> init = 0 \<Longrightarrow> tkDistributions t = []"
  shows "store c' = store c \<and> events c' = events c \<and> wfb (bank c') \<and>
    (\<forall>e. sup_of k c' e = sup_of k c e + (if e = tkMinimalDenom t then init + R else 0)) \<and>
    (\<forall>e. bal_of k c' (modAddr k) e = bal_of k c (modAddr k) e + (if e = tkMinimalDenom t then R else 0)) \<and>
    (\<forall>x e. x \<noteq> modAddr k \<longrightarrow> bal_of k c' x e = bal_of k c x e
       + (if e = tkMinimalDenom t then granted k (tkDistributions t) (shares init 0 (tkDistributions t)) x else 0))"
proof -
  let ?d = "tkMinimalDenom t" and ?ds = "tkDistributions t"
  from run obtain c1 where
    c1: "(if tkUnlimited t \<and> init = 0 then Inr c else mintDistributions k ?d init 0 ?ds c) = Inr c1"
    and c': "(if 0 < R then tryE (one_coin k ?d R) (\<lambda>coins.
               withBank (MintCoins (bankKeeper k) (bank c1) ''stoc'' coins) c1) else Inr c1) = Inr c'"
    by (auto simp: create_mint_def Let_def split: if_splits)
  have 1: "store c1 = store c \<and> events c1 = events c \<and> wfb (bank c1) \<and>
    (\<forall>e. sup_of k c1 e = sup_of k c e + (if e = ?d then init else 0)) \<and>
    granted k ?ds (shares init 0 ?ds) (modAddr k) = 0 \<and>
    (\<forall>x e. bal_of k c1 x e = bal_of k c x e + (if e = ?d then granted k ?ds (shares init 0 ?ds) x else 0))"
  proof (cases "tkUnlimited t \<and> init = 0")
    case True
    with c1 wf ds(2) show ?thesis by simp
  next
    case False
    with c1 have "mintDistributions k ?d init 0 ?ds c = Inr c1" by auto
    from mintDistributions_Inr [OF this wf assms(3)] shares_sum [OF ds(1) [OF False], of init 0]
    show ?thesis by simp
  qed
  show ?thesis
  proof (cases "0 < R")
    case False
    with c' assms(4) 1 show ?thesis by simp
  next
    case True
    with c' obtain coins b where coins: "one_coin k ?d R = Inr coins"
      and b: "MintCoins (bankKeeper k) (bank c1) ''stoc'' coins = Inr b" and "c' = c1\<lparr>bank := b\<rparr>"
      by auto
    moreover from 1 have "wfb (bank c1)" by simp
    ultimately show ?thesis
      using 1 Mint_wf [OF _ b] Mint_supply [OF _ b] Mint_bal [OF _ b] one_coin_amount [OF coins] by auto
  qed
qed

lemma create_distributions_Inr:
  assumes "create_distributions k skip cr ds = Inr ds'"
  shows "skip \<Longrightarrow> ds' = []" and "\<not> skip \<Longrightarrow> ds' \<noteq> []"
proof -
  have loop: "forE (\<lambda>d acc. tryE (asErr ErrInvalidCreatorAddress (AccAddressFromBech32 k (wdAddress d)))
      (\<lambda>a. Inr (acc @ [\<lparr>wdAddress = AccAddress_String k a, wdPercent = wdPercent d\<rparr>]))) ds acc = Inr ds'
      \<Longrightarrow> length ds' = length acc + length ds" for acc
    by (induction ds arbitrary: acc) auto
  show "skip \<Longrightarrow> ds' = []" using assms by (simp add: create_distributions_def)
  show "\<not> skip \<Longrightarrow> ds' \<noteq> []"
    using assms loop [of "[]"] by (auto simp: create_distributions_def split: if_splits)
qed

lemma create_tax_Inr: "create_tax k tax = Inr tax' \<Longrightarrow> txPercent tax' \<noteq> None"
  by (auto simp: create_tax_def split: if_splits)

lemma create_token_sel [simp]:
  "tkMinimalDenom (create_token msg ds tax cr n) = denom_of (mcSymbol msg) n"
  "tkId (create_token msg ds tax cr n) = denom_of (mcSymbol msg) n"
  "tkSymbol (create_token msg ds tax cr n) = mcSymbol msg"
  "tkInitialSupply (create_token msg ds tax cr n) = mcInitialSupply msg"
  "tkTotalSupply (create_token msg ds tax cr n) = mcTotalSupply msg"
  "tkDistributions (create_token msg ds tax cr n) = ds"
  "tkUnlimited (create_token msg ds tax cr n) = mcUnlimited msg"
  "tkCreator (create_token msg ds tax cr n) = cr"
  "tkTax (create_token msg ds tax cr n) = tax"
  by (simp_all add: create_token_def denom_of_def Let_def)

text \<open>A new denomination enters the books with the supply the bank has of it.\<close>

lemma supply_inv_insert:
  assumes inv: "supply_inv k wfb c" and st: "store c1 = store c" and wf: "wfb (bank c1)"
    and n: "GetTokenCounter k c = Inr n" "n \<noteq> - 1" and d: "tkMinimalDenom t = denom_of (tkSymbol t) n"
    and T: "tkTotalSupply t = Some (sup_of k c1 (tkMinimalDenom t))"
    and R: "tkRemainingSupply t = Some (bal_of k c1 (modAddr k) (tkMinimalDenom t))"
    and other: "\<And>e. e \<noteq> tkMinimalDenom t \<Longrightarrow>
      sup_of k c1 e = sup_of k c e \<and> bal_of k c1 (modAddr k) e = bal_of k c (modAddr k) e"
    and cnt: "SetTokenCounter k (n + 1) c1 = Inr c2" and set: "SetToken k t c2 = Inr c'"
  shows "supply_inv k wfb c'"
proof -
  note s = SetToken_Inr [OF set] and q = SetTokenCounter_Inr [OF cnt] and v = store_views [OF st, of k]
  have "store_ok k c'"
    using SetToken_store_ok [OF set] SetTokenCounter_store_ok [OF cnt] inv v(4) by (simp add: supply_inv_def)
  moreover have "books_ok k c'"
    using inv T R other unfolding supply_inv_def books_ok_def s(2,4) q(1,3) v(1) by auto
  moreover have "fresh_ok k c'"
  proof -
    have smb: "TokenSymbolRegex (tkSymbol t)" using s(1) by (simp add: token_ok_def)
    have "n \<le> w \<and> (TokenSymbolRegex smb \<longrightarrow> denom_of smb w \<noteq> tkMinimalDenom t)" if "n + 1 \<le> w" for smb w
      using that word_less_succ [OF n(2)] denom_of_inject [OF _ smb] unfolding d by force
    then show ?thesis
      using inv other n(1) unfolding supply_inv_def fresh_ok_def s(2,4,6) q(1,3,5) v(1,3) by simp
  qed
  ultimately show ?thesis using wf s(2) q(1) by (simp add: supply_inv_def)
qed

lemma CreateToken_Inr:
  assumes inv: "supply_inv k wfb c" and run: "CreateToken k msg c = Inr (resp, c')"
  shows "\<exists>creator n I T ds t. AccAddressFromBech32 k (mcCreator msg) = Inr creator \<and>
    GetTokenCounter k c = Inr n \<and> n \<noteq> - 1 \<and> GetTokenCounter k c' = Inr (n + 1) \<and>
    mcInitialSupply msg = Some I \<and> mcTotalSupply msg = Some T \<and> 0 \<le> I \<and> I \<le> T \<and> T \<le> MaxTokenSupply \<and>
    create_distributions k (mcUnlimited msg \<and> I = 0) (AccAddress_String k creator) (mcDistributions msg) = Inr ds \<and>
    rcMessage resp = denom_of (mcSymbol msg) n \<and> GetToken k c (denom_of (mcSymbol msg) n) = None \<and>
    GetToken k c' = (GetToken k c)(denom_of (mcSymbol msg) n \<mapsto> t) \<and>
    tkCreator t = AccAddress_String k creator \<and> tkSymbol t = mcSymbol msg \<and> tkUnlimited t = mcUnlimited msg \<and>
    token_ok k t \<and> tkInitialSupply t = Some I \<and>
    tkTotalSupply t = Some T \<and> tkRemainingSupply t = Some (T - I) \<and> tkDistributions t = ds \<and>
    (\<forall>e. sup_of k c' e = sup_of k c e + (if e = denom_of (mcSymbol msg) n then T else 0)) \<and>
    (\<forall>e. bal_of k c' (modAddr k) e
       = bal_of k c (modAddr k) e + (if e = denom_of (mcSymbol msg) n then T - I else 0)) \<and>
    (\<forall>x e. x \<noteq> modAddr k \<longrightarrow> bal_of k c' x e
       = bal_of k c x e + (if e = denom_of (mcSymbol msg) n then granted k ds (shares I 0 ds) x else 0)) \<and>
    supply_inv k wfb c'"
proof -
  from run obtain creator I ds tax n T c1 where
    cr: "AccAddressFromBech32 k (mcCreator msg) = Inr creator" and I: "mcInitialSupply msg = Some I"
    and ds: "create_distributions k (mcUnlimited msg \<and> I = 0) (AccAddress_String k creator) (mcDistributions msg) = Inr ds"
    and tax: "create_tax k (mcTax msg) = Inr tax"
    and n: "GetTokenCounter k c = Inr n" "n \<noteq> - 1"
    and chk: "create_checks k (create_token msg ds tax (AccAddress_String k creator) n) c = Inr ()"
    and T: "mcTotalSupply msg = Some T"
    and mint: "create_mint k msg ((create_token msg ds tax (AccAddress_String k creator) n)
        \<lparr>tkRemainingSupply := Some (create_reserve T I)\<rparr>) I (create_reserve T I) c = Inr c1"
    and per: "create_persist k ((create_token msg ds tax (AccAddress_String k creator) n)
        \<lparr>tkRemainingSupply := Some (create_reserve T I)\<rparr>) I n c1 = Inr (resp, c')"
    by (auto simp: CreateToken_def Let_def split: if_splits)
  let ?t = "create_token msg ds tax (AccAddress_String k creator) n"
  let ?d = "denom_of (mcSymbol msg) n"
  have "0 \<le> I \<and> I \<le> T \<and> T \<le> MaxTokenSupply" and new: "\<not> HasToken k c ?d"
    using chk I T by (auto simp: create_checks_def Validate_def Validate_supply_def not_less)
  moreover then have R: "create_reserve T I = T - I" by (auto simp: create_reserve_def)
  ultimately have bnd: "0 \<le> I" "I \<le> T" "T \<le> MaxTokenSupply" by auto
  have none: "GetToken k c ?d = None" using new GetToken_HasToken by (metis not_None_eq)
  define t where "t = ?t\<lparr>tkRemainingSupply := Some (T - I)\<rparr>"
  have sel: "tkMinimalDenom t = ?d" "tkSymbol t = mcSymbol msg" "tkDistributions t = ds" "tkId t = ?d"
    "tkUnlimited t = mcUnlimited msg" "tkTotalSupply t = Some T" "tkRemainingSupply t = Some (T - I)"
    "tkCreator t = AccAddress_String k creator" "tkTax t = tax" "tkInitialSupply t = Some I"
    by (simp_all add: t_def T I)
  from per obtain c2 c3 where cnt: "SetTokenCounter k (n + 1) c1 = Inr c2" and set: "SetToken k t c2 = Inr c3"
    and resp: "rcMessage resp = ?d" and c': "store c' = store c3"
      "bank c' = SetDenomMetaData (bankKeeper k) (bank c3) (create_metadata t)"
    unfolding create_persist_def R t_def by (auto simp: Let_def)
  have wf: "wfb (bank c)" and ok: "store_ok k c" and fresh: "fresh_ok k c"
    using inv by (auto simp: supply_inv_def)
  have mi: "store c1 = store c \<and> wfb (bank c1) \<and>
    (\<forall>e. sup_of k c1 e = sup_of k c e + (if e = ?d then T else 0)) \<and>
    (\<forall>e. bal_of k c1 (modAddr k) e = bal_of k c (modAddr k) e + (if e = ?d then T - I else 0)) \<and>
    (\<forall>x e. x \<noteq> modAddr k \<longrightarrow> bal_of k c1 x e = bal_of k c x e + (if e = ?d then granted k ds (shares I 0 ds) x else 0))"
    using create_mint_Inr [OF mint [unfolded R, folded t_def] wf bnd(1)] create_distributions_Inr [OF ds] bnd
    by (simp add: sel)
  note q = SetTokenCounter_Inr [OF cnt] and s = SetToken_Inr [OF set] and v = store_views [OF mi [THEN conjunct1], of k]
  have smb: "TokenSymbolRegex (mcSymbol msg)" using s(1) by (simp add: token_ok_def sel)
  have zero: "sup_of k c ?d = 0" "bal_of k c (modAddr k) ?d = 0"
    using fresh n(1) smb unfolding fresh_ok_def by auto
  have inv3: "supply_inv k wfb c3"
    using mi zero n by (intro supply_inv_insert [OF inv _ _ n _ _ _ _ cnt set]) (auto simp: sel)
  note v3 = store_views [OF c'(1), of k]
  have inv': "supply_inv k wfb c'"
    using inv3 Meta_wf unfolding supply_inv_def books_ok_def fresh_ok_def v3 c'(2)
    by (simp add: Meta_supply Meta_bal)
  have tok: "GetToken k c' = (GetToken k c)(?d \<mapsto> norm_token (t\<lparr>tkId := ?d\<rparr>))"
    by (auto simp: fun_eq_iff v3 s(4) q(3) v sel)
  have bank3: "bank c3 = bank c1" using s(2) q(1) by simp
  have tk: "token_ok k (norm_token (t\<lparr>tkId := ?d\<rparr>))"
    using token_ok_norm [OF s(1)] create_tax_Inr [OF tax] by (simp add: sel)
  show ?thesis
    by (intro exI [of _ creator] exI [of _ n] exI [of _ I] exI [of _ T] exI [of _ ds]
        exI [of _ "norm_token (t\<lparr>tkId := ?d\<rparr>)"] conjI)
      (use cr n I T bnd ds resp none tok inv' mi tk in
        \<open>simp_all add: sel v3 s(6) q(5) c'(2) bank3 Meta_supply Meta_bal\<close>)
qed

lemma create_distributions_entries:
  assumes "create_distributions k skip cr ds = Inr ds'"
  shows "if skip then ds' = [] else if ds = [] then ds' = [\<lparr>wdAddress = cr, wdPercent = 100\<rparr>]
    else list_all2 (\<lambda>d d'. \<exists>a. AccAddressFromBech32 k (wdAddress d) = Inr a \<and> d' = \<lparr>wdAddress = AccAddress_String k a, wdPercent = wdPercent d\<rparr>) ds ds'"
proof -
  have loop: "forE (\<lambda>d acc. tryE (asErr ErrInvalidCreatorAddress (AccAddressFromBech32 k (wdAddress d)))
      (\<lambda>a. Inr (acc @ [\<lparr>wdAddress = AccAddress_String k a, wdPercent = wdPercent d\<rparr>]))) xs acc = Inr r
      \<Longrightarrow> \<exists>ys. r = acc @ ys \<and> list_all2 (\<lambda>d d'. \<exists>a. AccAddressFromBech32 k (wdAddress d) = Inr a \<and>
        d' = \<lparr>wdAddress = AccAddress_String k a, wdPercent = wdPercent d\<rparr>) xs ys" for xs acc r
  proof (induction xs arbitrary: acc)
    case (Cons x xs)
    then obtain a where a: "AccAddressFromBech32 k (wdAddress x) = Inr a"
      and "forE (\<lambda>d acc. tryE (asErr ErrInvalidCreatorAddress (AccAddressFromBech32 k (wdAddress d)))
      (\<lambda>a. Inr (acc @ [\<lparr>wdAddress = AccAddress_String k a, wdPercent = wdPercent d\<rparr>]))) xs
      (acc @ [\<lparr>wdAddress = AccAddress_String k a, wdPercent = wdPercent x\<rparr>]) = Inr r" by auto
    from Cons.IH [OF this(2)] a show ?case by auto
  qed simp
  show ?thesis using assms loop [of ds "[]"] by (auto simp: create_distributions_def split: if_splits)
qed

text \<open>The token that is stored, field by field, the metadata of its denomination and the response.\<close>

lemma CreateToken_stored:
  assumes run: "CreateToken k msg c = Inr (resp, c')"
  shows "\<exists>creator n I T ds tax t b. AccAddressFromBech32 k (mcCreator msg) = Inr creator \<and> GetTokenCounter k c = Inr n \<and>
    mcInitialSupply msg = Some I \<and> mcTotalSupply msg = Some T \<and>
    create_distributions k (mcUnlimited msg \<and> I = 0) (AccAddress_String k creator) (mcDistributions msg) = Inr ds \<and>
    create_tax k (mcTax msg) = Inr tax \<and> GetToken k c' (denom_of (mcSymbol msg) n) = Some t \<and>
    t = \<lparr>tkId = denom_of (mcSymbol msg) n, tkName = mcName msg, tkSymbol = mcSymbol msg, tkInitialSupply = Some I, tkTotalSupply = Some T,
      tkDecimals = mcDecimals msg, tkLogo = mcLogo msg, tkDistributions = ds, tkTax = tax, tkCreator = AccAddress_String k creator,
      tkRemainingSupply = Some (T - I), tkUnlimited = mcUnlimited msg, tkMinimalDenom = denom_of (mcSymbol msg) n\<rparr> \<and>
    bank c' = SetDenomMetaData (bankKeeper k) b (create_metadata t) \<and>
    resp = \<lparr>rcSymbol = mcSymbol msg, rcCreator = AccAddress_String k creator, rcSuccess = True, rcMessage = denom_of (mcSymbol msg) n\<rparr>"
proof -
  from run obtain creator I ds tax n T c1 where
    cr: "AccAddressFromBech32 k (mcCreator msg) = Inr creator" and I: "mcInitialSupply msg = Some I"
    and ds: "create_distributions k (mcUnlimited msg \<and> I = 0) (AccAddress_String k creator) (mcDistributions msg) = Inr ds"
    and tax: "create_tax k (mcTax msg) = Inr tax" and n: "GetTokenCounter k c = Inr n"
    and chk: "create_checks k (create_token msg ds tax (AccAddress_String k creator) n) c = Inr ()" and T: "mcTotalSupply msg = Some T"
    and per: "create_persist k ((create_token msg ds tax (AccAddress_String k creator) n)
        \<lparr>tkRemainingSupply := Some (create_reserve T I)\<rparr>) I n c1 = Inr (resp, c')"
    by (auto simp: CreateToken_def Let_def split: if_splits)
  let ?d = "denom_of (mcSymbol msg) n"
  define t where "t = (create_token msg ds tax (AccAddress_String k creator) n)\<lparr>tkRemainingSupply := Some (T - I)\<rparr>"
  have "I \<le> T" using chk I T by (auto simp: create_checks_def Validate_def Validate_supply_def not_less)
  then have R: "create_reserve T I = T - I" by (auto simp: create_reserve_def)
  have t: "t = \<lparr>tkId = ?d, tkName = mcName msg, tkSymbol = mcSymbol msg, tkInitialSupply = Some I, tkTotalSupply = Some T,
      tkDecimals = mcDecimals msg, tkLogo = mcLogo msg, tkDistributions = ds, tkTax = tax, tkCreator = AccAddress_String k creator,
      tkRemainingSupply = Some (T - I), tkUnlimited = mcUnlimited msg, tkMinimalDenom = ?d\<rparr>"
    by (simp add: t_def create_token_def denom_of_def Let_def I T)
  from per obtain c2 c3 where set: "SetToken k t c2 = Inr c3" and st: "store c' = store c3"
    and b: "bank c' = SetDenomMetaData (bankKeeper k) (bank c3) (create_metadata t)"
    and resp: "resp = \<lparr>rcSymbol = tkSymbol t, rcCreator = tkCreator t, rcSuccess = True, rcMessage = tkMinimalDenom t\<rparr>"
    unfolding create_persist_def R t_def [symmetric] by (auto simp: Let_def)
  have "norm_token (t\<lparr>tkId := tkMinimalDenom t\<rparr>) = t"
    using create_tax_Inr [OF tax] by (auto simp: norm_token_def t)
  moreover have "tkMinimalDenom t = ?d" by (simp add: t)
  ultimately have "GetToken k c' ?d = Some t" using SetToken_Inr(4) [OF set, of ?d] store_views(1) [OF st, of k] by simp
  with cr n I T ds tax t b resp show ?thesis by (intro exI [of _ creator] exI [of _ n] exI [of _ I] exI [of _ T] exI [of _ ds]
     exI [of _ tax] exI [of _ t] exI [of _ "bank c3"]) simp
qed

lemma UpdateParams_Inr:
  assumes "UpdateParams k req c = Inr c'"
  shows "authority k = muAuthority req" and "bank c' = bank c" and "GetToken k c' = GetToken k c"
    and "GetTokenCounter k c' = GetTokenCounter k c" and "store_ok k c \<Longrightarrow> store_ok k c'"
proof -
  from assms obtain c1 where "authority k = muAuthority req" and p: "SetParams k c = Inr c1"
    and c': "store c' = store c1" "bank c' = bank c1"
    by (auto simp: UpdateParams_def split: if_splits)
  note q = SetParams_Inr [OF p] and v = store_views [OF c'(1), of k]
  show "authority k = muAuthority req" by fact
  show "bank c' = bank c" "GetToken k c' = GetToken k c" "GetTokenCounter k c' = GetTokenCounter k c"
    using q v c' by (auto simp: fun_eq_iff)
  show "store_ok k c \<Longrightarrow> store_ok k c'" using SetParams_store_ok [OF p] v by simp
qed

lemma token_drift_Inr:
  assumes "stored_ok k (tkMinimalDenom t) t"
  shows "\<exists>l. token_drift k c t = Inr l \<and> (l = [] \<longleftrightarrow>
    tkTotalSupply t = Some (sup_of k c (tkMinimalDenom t)) \<and>
    tkRemainingSupply t = Some (bal_of k c (modAddr k) (tkMinimalDenom t)))"
proof -
  from assms obtain T R where t: "tkTotalSupply t = Some T" "tkRemainingSupply t = Some R" "R \<le> T"
    by (auto simp: stored_ok_def)
  show ?thesis
    unfolding token_drift_def Let_def t deref_simps tryE_simps
    by (intro exI conjI, rule refl) (use t(3) in auto)
qed

lemma SupplyInvariant_Inr:
  assumes ok: "store_ok k c"
  shows "\<exists>c'. SupplyInvariant k c = Inr (False, c') \<and> (c' = c \<longleftrightarrow> books_ok k c)"
proof -
  let ?f = "\<lambda>token lines. tryE (token_drift k c token) (\<lambda>l. Inr (lines @ l))"
  have "\<exists>ls. forE ?f ts acc = Inr (acc @ ls) \<and> (ls = [] \<longleftrightarrow> (\<forall>t \<in> set ts.
      tkTotalSupply t = Some (sup_of k c (tkMinimalDenom t)) \<and>
      tkRemainingSupply t = Some (bal_of k c (modAddr k) (tkMinimalDenom t))))"
    if "\<forall>t \<in> set ts. stored_ok k (tkMinimalDenom t) t" for ts acc
    using that
  proof (induction ts arbitrary: acc)
    case Nil then show ?case by simp
  next
    case (Cons t ts)
    then obtain l where "token_drift k c t = Inr l" "l = [] \<longleftrightarrow>
      tkTotalSupply t = Some (sup_of k c (tkMinimalDenom t)) \<and>
      tkRemainingSupply t = Some (bal_of k c (modAddr k) (tkMinimalDenom t))"
      using token_drift_Inr [of t c] by auto
    with Cons.IH [of "acc @ l"] Cons.prems show ?case by auto
  qed
  moreover have "\<forall>t \<in> set (GetAllTokens k c). stored_ok k (tkMinimalDenom t) t"
    using store_okD [OF ok] by (auto simp: GetAllTokens_set [OF ok])
  ultimately obtain ls where "forE ?f (GetAllTokens k c) [] = Inr ls" and "ls = [] \<longleftrightarrow>
      (\<forall>t \<in> set (GetAllTokens k c). tkTotalSupply t = Some (sup_of k c (tkMinimalDenom t)) \<and>
      tkRemainingSupply t = Some (bal_of k c (modAddr k) (tkMinimalDenom t)))"
    by (metis append_Nil)
  moreover have "(\<forall>t \<in> set (GetAllTokens k c). tkTotalSupply t = Some (sup_of k c (tkMinimalDenom t)) \<and>
      tkRemainingSupply t = Some (bal_of k c (modAddr k) (tkMinimalDenom t))) \<longleftrightarrow> books_ok k c"
  proof -
    have "t \<in> set (GetAllTokens k c) \<and> tkMinimalDenom t = d" if "GetToken k c d = Some t" for d t
      using store_okD [OF ok that] that by (auto simp: stored_ok_def GetAllTokens_set [OF ok])
    moreover have "GetToken k c (tkMinimalDenom t) = Some t" if "t \<in> set (GetAllTokens k c)" for t
      using that by (simp add: GetAllTokens_set [OF ok])
    ultimately show ?thesis unfolding books_ok_def by blast
  qed
  moreover have "EmitEvent e c \<noteq> c" for e
    by (metis EmitEvent_sel(3) append_self_conv list.discI)
  ultimately show ?thesis by (auto simp: SupplyInvariant_def)
qed

end

section \<open>The transition system\<close>

text \<open>
  One transaction of the token module, or anything else that happens on the chain: other modules
  move coins, but they neither mint nor burn denominations of the shape the token module issues
  nor change the module account's balance of them. A burn is signed by an account other than the
  module's own, which has no key.
\<close>

inductive stoc_step :: "('s, 'b, 'x) Keeper_scheme \<Rightarrow> ('b \<Rightarrow> bool) \<Rightarrow> ('s, 'b) ctx \<Rightarrow> ('s, 'b) ctx \<Rightarrow> bool"
  for k :: "('s, 'b, 'x) Keeper_scheme" and wfb :: "'b \<Rightarrow> bool" where
  create: "CreateToken k m c = Inr (r, c') \<Longrightarrow> stoc_step k wfb c c'"
| mint: "MintTokens k m c = Inr c' \<Longrightarrow> stoc_step k wfb c c'"
| burn: "BurnToken k m c = Inr (r, c') \<Longrightarrow> AccAddressFromBech32 k (mbCreator m) \<noteq> Inr (modAddr k) \<Longrightarrow>
    stoc_step k wfb c c'"
| release: "ReleaseTokens k m c = Inr (r, c') \<Longrightarrow> stoc_step k wfb c c'"
| params: "UpdateParams k m c = Inr c' \<Longrightarrow> stoc_step k wfb c c'"
| env: "store c' = store c \<Longrightarrow> wfb (bank c') \<Longrightarrow>
    (\<And>smb w. TokenSymbolRegex smb \<Longrightarrow> sup_of k c' (denom_of smb w) = sup_of k c (denom_of smb w) \<and>
       bal_of k c' (modAddr k) (denom_of smb w) = bal_of k c (modAddr k) (denom_of smb w)) \<Longrightarrow>
    stoc_step k wfb c c'"

text \<open>The part of a token that no message may change.\<close>

definition config :: "Token \<Rightarrow> Token" where
  "config t = t\<lparr>tkTotalSupply := None, tkRemainingSupply := None\<rparr>"

lemma config_creator: "tkCreator (config t) = tkCreator t"
  by (simp add: config_def)

lemma config_symbol: "tkSymbol (config t) = tkSymbol t"
  by (simp add: config_def)

lemma config_update [simp]:
  "config (t\<lparr>tkTotalSupply := v\<rparr>) = config t" "config (t\<lparr>tkRemainingSupply := v\<rparr>) = config t"
  by (simp_all add: config_def)

context stoc_env
begin

lemma env_supply_inv:
  assumes inv: "supply_inv k wfb c" and st: "store c' = store c" and wf: "wfb (bank c')"
    and same: "\<And>smb w. TokenSymbolRegex smb \<Longrightarrow> sup_of k c' (denom_of smb w) = sup_of k c (denom_of smb w) \<and>
       bal_of k c' (modAddr k) (denom_of smb w) = bal_of k c (modAddr k) (denom_of smb w)"
  shows "supply_inv k wfb c'"
proof -
  note v = store_views [OF st, of k]
  have ok: "store_ok k c" using inv by (simp add: supply_inv_def)
  have "books_ok k c'"
    unfolding books_ok_def v
  proof (intro allI impI)
    fix d t assume t: "GetToken k c d = Some t"
    from store_okD [OF ok t] obtain w where "d = denom_of (tkSymbol t) w" "TokenSymbolRegex (tkSymbol t)"
      by (auto simp: stored_ok_def)
    with same inv t show "tkTotalSupply t = Some (sup_of k c' d) \<and>
        tkRemainingSupply t = Some (bal_of k c' (modAddr k) d)"
      by (auto simp: supply_inv_def books_ok_def)
  qed
  moreover have "fresh_ok k c'"
    using inv same unfolding supply_inv_def fresh_ok_def v by auto
  ultimately show ?thesis using ok wf v by (simp add: supply_inv_def)
qed

lemma MintTokens_Inr:
  assumes "supply_inv k wfb c" and "MintTokens k m c = Inr c'"
  shows "\<exists>t creator. FindToken k c (mmSymbol m) = Inr t \<and> AccAddressFromBech32 k (mmCreator m) = Inr creator \<and>
    MintToken k creator (tkMinimalDenom t) (mmAmount m) c = Inr c'"
  using assms(2) by (auto simp: MintTokens_def)

lemma step_supply_inv: "stoc_step k wfb c c' \<Longrightarrow> supply_inv k wfb c \<Longrightarrow> supply_inv k wfb c'"
proof (induction rule: stoc_step.induct)
  case (create m c r c') from CreateToken_Inr [OF create(2,1)] show ?case by blast
next
  case (mint m c c')
  then obtain d cr where "MintToken k cr d (mmAmount m) c = Inr c'"
    using MintTokens_Inr [OF mint(2,1)] by blast
  from MintToken_Inr [OF mint(2) this] show ?case by blast
next
  case (burn m c r c') from BurnToken_Inr [OF burn(3,1,2)] show ?case by blast
next
  case (release m c r c') from ReleaseTokens_Inr [OF release(2,1)] show ?case by blast
next
  case (params m c c')
  from UpdateParams_Inr [OF params(1)] params(2) show ?case
    by (simp add: supply_inv_def books_ok_def fresh_ok_def)
next
  case (env c' c) from env_supply_inv [OF env(4,1,2,3)] show ?case .
qed

lemma steps_supply_inv: "(stoc_step k wfb)\<^sup>*\<^sup>* c c' \<Longrightarrow> supply_inv k wfb c \<Longrightarrow> supply_inv k wfb c'"
  by (induction rule: rtranclp_induct) (auto intro: step_supply_inv)

lemma step_config:
  assumes "stoc_step k wfb c c'" and "supply_inv k wfb c" and "GetToken k c d = Some t"
  shows "\<exists>t'. GetToken k c' d = Some t' \<and> config t' = config t"
  using assms
proof (induction rule: stoc_step.induct)
  case (create m c r c') from CreateToken_Inr [OF create(2,1)] create(3) show ?case by auto
next
  case (mint m c c')
  then obtain e cr where "MintToken k cr e (mmAmount m) c = Inr c'"
    using MintTokens_Inr [OF mint(2,1)] by blast
  from MintToken_Inr [OF mint(2) this] mint(3) show ?case by auto
next
  case (burn m c r c') from BurnToken_Inr [OF burn(3,1,2)] burn(4) show ?case by (auto split: option.splits)
next
  case (release m c r c')
  from ReleaseTokens_Inr [OF release(2,1)] obtain u R where f: "FindToken k c (mrSymbol m) = Inr u"
    and g: "GetToken k c' = (GetToken k c)(tkMinimalDenom u \<mapsto> u\<lparr>tkRemainingSupply := Some R\<rparr>)" by blast
  have "GetToken k c (tkMinimalDenom u) = Some u"
    using FindToken_Inr(1) [OF _ f] release(2) by (simp add: supply_inv_def)
  with g release(3) show ?case by auto
next
  case (params m c c') with UpdateParams_Inr [OF params(1)] show ?case by simp
next
  case (env c' c) then show ?case by (simp add: store_views [OF env(1)])
qed

lemma steps_config:
  "(stoc_step k wfb)\<^sup>*\<^sup>* c c' \<Longrightarrow> supply_inv k wfb c \<Longrightarrow> GetToken k c d = Some t \<Longrightarrow>
   \<exists>t'. GetToken k c' d = Some t' \<and> config t' = config t"
proof (induction rule: rtranclp_induct)
  case base then show ?case by simp
next
  case (step y z)
  then obtain u where "GetToken k y d = Some u" "config u = config t" by auto
  moreover have "supply_inv k wfb y" using steps_supply_inv step by blast
  ultimately show ?case using step_config [OF step(2)] by metis
qed

end

end
