(* ===== verification/Token_Theorems.thy ===== *)
theory Token_Theorems
  imports Token_Msgs
begin

text \<open>
  The theorems about the token module, with a small scenario on the reference environment that
  shows their hypotheses can be met: Alice creates an unlimited token \<open>AB_0\<close> with an initial
  supply of 10 and a reserve of 5, mints 7 more, releases 2 of the reserve to Bob, and burns 3.
\<close>

section \<open>A scenario\<close>

type_synonym ref_ctx = "((string \<times> string) list, ledger) ctx"

definition ran :: "('r \<times> ref_ctx) res \<Rightarrow> ref_ctx" where
  "ran r = (case r of Inr (_, c) \<Rightarrow> c | Inl _ \<Rightarrow> empty_ctx)"

definition demo_create :: MsgCreateToken where
  "demo_create = \<lparr>mcCreator = ''alice'', mcName = ''N'', mcSymbol = ''AB'', mcInitialSupply = Some 10,
     mcTotalSupply = Some 15, mcDecimals = 2, mcLogo = ''ipfs://x'', mcDistributions = [],
     mcTax = \<lparr>txPercent = None, txRecipientAddress = []\<rparr>, mcUnlimited = True\<rparr>"

definition demo_mint :: MsgMintTokens where
  "demo_mint = \<lparr>mmCreator = ''alice'', mmSymbol = ''AB'', mmAmount = Some 7\<rparr>"

definition demo_release :: MsgReleaseTokens where
  "demo_release = \<lparr>mrCreator = ''alice'', mrSymbol = ''AB_0'',
     mrDistributions = [\<lparr>rrAddress = ''bob'', rrAmount = Some 2\<rparr>]\<rparr>"

definition demo_burn :: MsgBurnToken where
  "demo_burn = \<lparr>mbCreator = ''alice'', mbAmount = Some 3, mbDenom = ''AB_0'', mbBurnAll = False\<rparr>"

definition demo1 :: ref_ctx where "demo1 = ran (CreateToken ref_k demo_create empty_ctx)"

lemma ran_ok: "\<not> isl r \<Longrightarrow> \<exists>x. r = Inr (x, ran r)"
  by (cases r) (auto simp: ran_def)

lemma demo_create_ok: "\<not> isl (CreateToken ref_k demo_create empty_ctx)"
  by code_simp

lemma demo_mint_ok: "\<not> isl (MintTokens ref_k demo_mint demo1)"
  by code_simp

lemma demo_release_ok: "\<not> isl (ReleaseTokens ref_k demo_release demo1)"
  by code_simp

lemma demo_burn_ok: "\<not> isl (BurnToken ref_k demo_burn demo1)"
  by code_simp

lemma empty_supply_inv: "supply_inv ref_k ledger_ok empty_ctx"
  using empty_ctx_ok
  by (simp add: supply_inv_def books_ok_def fresh_ok_def GetToken_def GetTokenCounter_def ref_k_def
      empty_ctx_def empty_ledger_def ledger_ok_def ref_kv_def ref_bank_def)

lemma demo1_run: "\<exists>r. CreateToken ref_k demo_create empty_ctx = Inr (r, demo1)"
  using ran_ok [OF demo_create_ok] by (simp add: demo1_def)

lemma demo1_inv: "supply_inv ref_k ledger_ok demo1"
  using demo1_run refenv.CreateToken_Inr [OF empty_supply_inv] by blast

section \<open>The store\<close>

text \<open>Writing and reading tokens. When \<open>SetToken\<close> accepts a token into a well-formed store, the
  store stays well formed, the token is found under its minimal denomination as the codec writes
  it (id set to the denomination, nil numbers zero), it is found under its symbol, and the lookup
  of every other denomination and the token counter are unchanged.
\<close>

theorem SetToken_roundtrip:
  assumes "stoc_env k wfb" and "store_ok k c" and "SetToken k t c = Inr c'"
  shows "store_ok k c' \<and>
    GetToken k c' (tkMinimalDenom t) = Some (norm_token (t\<lparr>tkId := tkMinimalDenom t\<rparr>)) \<and>
    HasTokenSymbol k c' (tkSymbol t) \<and>
    (\<forall>d. d \<noteq> tkMinimalDenom t \<longrightarrow> GetToken k c' d = GetToken k c d) \<and>
    GetTokenCounter k c' = GetTokenCounter k c"
proof -
  note s = stoc_env.SetToken_Inr [OF assms(1,3)]
  have ok: "store_ok k c'" by (rule stoc_env.SetToken_store_ok [OF assms(1,3,2)])
  have g: "GetToken k c' (tkMinimalDenom t) = Some (norm_token (t\<lparr>tkId := tkMinimalDenom t\<rparr>))"
    by (simp add: s)
  have "HasTokenSymbol k c' (tkSymbol t)"
    unfolding stoc_env.HasTokenSymbol_iff [OF assms(1) ok]
    by (intro exI [of _ "tkMinimalDenom t"] exI conjI, rule g) simp
  with ok g show ?thesis by (simp add: s)
qed

definition demo_token :: Token where
  "demo_token = \<lparr>tkId = [], tkName = ''N'', tkSymbol = ''AB'', tkInitialSupply = Some 1,
     tkTotalSupply = Some 1, tkDecimals = 0, tkLogo = ''ipfs://x'', tkDistributions = [],
     tkTax = \<lparr>txPercent = None, txRecipientAddress = ''nonsense!''\<rparr>, tkCreator = ''alice'',
     tkRemainingSupply = None, tkUnlimited = False, tkMinimalDenom = ''AB_7''\<rparr>"

definition demo_set :: ref_ctx where
  "demo_set = (case SetToken ref_k demo_token empty_ctx of Inr c \<Rightarrow> c | Inl _ \<Rightarrow> empty_ctx)"

lemma demo_set_run: "SetToken ref_k demo_token empty_ctx = Inr demo_set"
proof -
  have "\<not> isl (SetToken ref_k demo_token empty_ctx)" by code_simp
  then show ?thesis by (cases "SetToken ref_k demo_token empty_ctx") (auto simp: demo_set_def)
qed

theorem SetToken_roundtrip_witness:
  "store_ok ref_k demo_set \<and> HasTokenSymbol ref_k demo_set ''AB'' \<and>
   GetToken ref_k demo_set ''AB_7'' = Some (norm_token (demo_token\<lparr>tkId := ''AB_7''\<rparr>))"
  using SetToken_roundtrip [OF refenv.stoc_env_axioms empty_ctx_ok demo_set_run]
  by (simp add: demo_token_def)

text \<open>The symbol index gives what a scan of all tokens would give: for every query string,
  \<open>GetTokensBySymbol\<close> returns the tokens with exactly that symbol, in the byte order of their
  denominations, cut at 100, and \<open>FindToken\<close> resolves a denomination first and a symbol only
  when it names exactly one token.
\<close>

theorem GetTokensBySymbol_scan:
  assumes "stoc_env k wfb" and "store_ok k c"
  shows "GetTokensBySymbol k c smb = take 100 (filter (\<lambda>t. tkSymbol t = smb) (GetAllTokens k c)) \<and>
    sorted_wrt (<) (map tkMinimalDenom (GetAllTokens k c)) \<and>
    set (GetAllTokens k c) = {t. GetToken k c (tkMinimalDenom t) = Some t} \<and>
    FindToken k c smb = (case GetToken k c smb of Some t \<Rightarrow> Inr t | None \<Rightarrow>
           (case filter (\<lambda>t. tkSymbol t = smb) (GetAllTokens k c) of
              [] \<Rightarrow> Inl ErrTokenNotFound | [t] \<Rightarrow> Inr t | _ \<Rightarrow> Inl ErrAmbiguousSymbol))"
proof (intro conjI)
  show g: "GetTokensBySymbol k c smb = take 100 (filter (\<lambda>t. tkSymbol t = smb) (GetAllTokens k c))"
    by (rule stoc_env.GetTokensBySymbol_eq [OF assms])
  show "sorted_wrt (<) (map tkMinimalDenom (GetAllTokens k c))"
    by (rule stoc_env.GetAllTokens_sorted [OF assms])
  show "set (GetAllTokens k c) = {t. GetToken k c (tkMinimalDenom t) = Some t}"
    using stoc_env.GetAllTokens_set [OF assms] by blast
  show "FindToken k c smb = (case GetToken k c smb of Some t \<Rightarrow> Inr t | None \<Rightarrow>
           (case filter (\<lambda>t. tkSymbol t = smb) (GetAllTokens k c) of
              [] \<Rightarrow> Inl ErrTokenNotFound | [t] \<Rightarrow> Inr t | _ \<Rightarrow> Inl ErrAmbiguousSymbol))"
    unfolding FindToken_def g by (auto simp: Let_def split: option.splits list.splits)
qed

theorem GetTokensBySymbol_scan_witness:
  "GetTokensBySymbol ref_k demo1 ''AB'' = take 100 (filter (\<lambda>t. tkSymbol t = ''AB'') (GetAllTokens ref_k demo1))
   \<and> length (GetTokensBySymbol ref_k demo1 ''AB'') = 1"
proof -
  have ok: "store_ok ref_k demo1" using demo1_inv by (simp add: supply_inv_def)
  have "length (GetTokensBySymbol ref_k demo1 ''AB'') = 1" by code_simp
  with GetTokensBySymbol_scan [OF refenv.stoc_env_axioms ok] show ?thesis by simp
qed

section \<open>The messages\<close>

lemma create_tax_cases:
  "create_tax K tax = Inr tax' \<longleftrightarrow>
    (case txPercent tax of None \<Rightarrow> tax' = \<lparr>txPercent = Some 0, txRecipientAddress = []\<rparr>
     | Some p \<Rightarrow> txPercent tax' = Some p \<and> (if txRecipientAddress tax = [] then txRecipientAddress tax' = []
         else \<exists>a. AccAddressFromBech32 K (txRecipientAddress tax) = Inr a \<and> txRecipientAddress tax' = AccAddress_String K a))"
  by (cases tax, cases tax') (auto simp: create_tax_def split: option.splits)

text \<open>
  C2. What a successful \<open>CreateToken\<close> does. The new token gets the minimal denomination made of
  its symbol and the current counter, which was unused; the counter goes up by one; the stored token
  is given field by field: name, symbol, decimals, logo and supplies as in the message, the creator
  in canonical form, the distributions with canonical addresses (none for an unlimited token without
  initial supply, the creator with 100 percent when none is given), and the tax, which is zero
  without a recipient when the message has no percentage and otherwise has the percentage of the
  message and its recipient in canonical form. The bank keeps the metadata of the token and mints exactly the total
  supply, of which the total minus the initial supply stays with the module account as reserve and
  every other account gets its shares of the initial supply; no other denomination moves; and the
  supply invariant is kept.
\<close>

theorem CreateToken_correct:
  assumes "stoc_env k wfb" and "supply_inv k wfb c" and "CreateToken k msg c = Inr (resp, c')"
  shows "\<exists>creator n I T ds tax t b. AccAddressFromBech32 k (mcCreator msg) = Inr creator \<and>
    GetTokenCounter k c = Inr n \<and> n \<noteq> - 1 \<and> GetTokenCounter k c' = Inr (n + 1) \<and>
    mcInitialSupply msg = Some I \<and> mcTotalSupply msg = Some T \<and> 0 \<le> I \<and> I \<le> T \<and> T \<le> MaxTokenSupply \<and>
    (if mcUnlimited msg \<and> I = 0 then ds = []
     else if mcDistributions msg = [] then ds = [\<lparr>wdAddress = AccAddress_String k creator, wdPercent = 100\<rparr>]
     else list_all2 (\<lambda>d d'. \<exists>a. AccAddressFromBech32 k (wdAddress d) = Inr a \<and>
       d' = \<lparr>wdAddress = AccAddress_String k a, wdPercent = wdPercent d\<rparr>) (mcDistributions msg) ds) \<and>
    (case txPercent (mcTax msg) of None \<Rightarrow> tax = \<lparr>txPercent = Some 0, txRecipientAddress = []\<rparr>
     | Some p \<Rightarrow> txPercent tax = Some p \<and> (if txRecipientAddress (mcTax msg) = [] then txRecipientAddress tax = []
         else \<exists>a. AccAddressFromBech32 k (txRecipientAddress (mcTax msg)) = Inr a \<and> txRecipientAddress tax = AccAddress_String k a)) \<and>
    GetToken k c (denom_of (mcSymbol msg) n) = None \<and> GetToken k c' = (GetToken k c)(denom_of (mcSymbol msg) n \<mapsto> t) \<and>
    t = \<lparr>tkId = denom_of (mcSymbol msg) n, tkName = mcName msg, tkSymbol = mcSymbol msg, tkInitialSupply = Some I, tkTotalSupply = Some T,
      tkDecimals = mcDecimals msg, tkLogo = mcLogo msg, tkDistributions = ds, tkTax = tax, tkCreator = AccAddress_String k creator,
      tkRemainingSupply = Some (T - I), tkUnlimited = mcUnlimited msg, tkMinimalDenom = denom_of (mcSymbol msg) n\<rparr> \<and> token_ok k t \<and>
    resp = \<lparr>rcSymbol = mcSymbol msg, rcCreator = AccAddress_String k creator, rcSuccess = True, rcMessage = denom_of (mcSymbol msg) n\<rparr> \<and>
    bank c' = SetDenomMetaData (bankKeeper k) b (create_metadata t) \<and>
    (\<forall>e. sup_of k c' e = sup_of k c e + (if e = denom_of (mcSymbol msg) n then T else 0)) \<and>
    (\<forall>e. bal_of k c' (modAddr k) e
       = bal_of k c (modAddr k) e + (if e = denom_of (mcSymbol msg) n then T - I else 0)) \<and>
    (\<forall>x e. x \<noteq> modAddr k \<longrightarrow> bal_of k c' x e
       = bal_of k c x e + (if e = denom_of (mcSymbol msg) n then granted k ds (shares I 0 ds) x else 0)) \<and>
    supply_inv k wfb c'"
proof -
  from stoc_env.CreateToken_stored [OF assms(1,3)] obtain creator n I T ds tax t b where
    e: "AccAddressFromBech32 k (mcCreator msg) = Inr creator" "GetTokenCounter k c = Inr n" "mcInitialSupply msg = Some I" "mcTotalSupply msg = Some T"
      "create_distributions k (mcUnlimited msg \<and> I = 0) (AccAddress_String k creator) (mcDistributions msg) = Inr ds"
      "create_tax k (mcTax msg) = Inr tax" "GetToken k c' (denom_of (mcSymbol msg) n) = Some t"
    and t: "t = \<lparr>tkId = denom_of (mcSymbol msg) n, tkName = mcName msg, tkSymbol = mcSymbol msg, tkInitialSupply = Some I, tkTotalSupply = Some T,
      tkDecimals = mcDecimals msg, tkLogo = mcLogo msg, tkDistributions = ds, tkTax = tax, tkCreator = AccAddress_String k creator,
      tkRemainingSupply = Some (T - I), tkUnlimited = mcUnlimited msg, tkMinimalDenom = denom_of (mcSymbol msg) n\<rparr>"
    and b: "bank c' = SetDenomMetaData (bankKeeper k) b (create_metadata t)"
    and r: "resp = \<lparr>rcSymbol = mcSymbol msg, rcCreator = AccAddress_String k creator, rcSuccess = True, rcMessage = denom_of (mcSymbol msg) n\<rparr>"
    by blast
  note D = stoc_env.create_distributions_entries [OF assms(1) e(5)] and X = e(6) [unfolded create_tax_cases]
  from stoc_env.CreateToken_Inr [OF assms] e show ?thesis using D X t b r
    by (intro exI [of _ creator] exI [of _ n] exI [of _ I] exI [of _ T] exI [of _ ds] exI [of _ tax] exI [of _ t] exI [of _ b])
      (elim exE conjE, intro conjI; simp)
qed

theorem CreateToken_correct_witness:
  "GetTokenCounter ref_k demo1 = Inr 1 \<and> supply_inv ref_k ledger_ok demo1"
proof -
  have n: "GetTokenCounter ref_k empty_ctx = Inr 0" by code_simp
  from demo1_run obtain r where "CreateToken ref_k demo_create empty_ctx = Inr (r, demo1)" by blast
  from CreateToken_correct [OF refenv.stoc_env_axioms empty_supply_inv this] n show ?thesis by auto
qed

text \<open>
  C5. What a successful \<open>MintTokens\<close> does. Only the creator of an unlimited token can mint it;
  the amount is positive and the new total stays within the cap; total supply, bank supply and the
  signer's balance go up by the amount; nothing else in the token, no other token, no other
  balance and not the reserve changes; and the supply invariant is kept.
\<close>

theorem MintTokens_correct:
  assumes "stoc_env k wfb" and "supply_inv k wfb c" and "MintTokens k msg c = Inr c'"
  shows "\<exists>t creator amt T. FindToken k c (mmSymbol msg) = Inr t \<and>
    AccAddressFromBech32 k (mmCreator msg) = Inr creator \<and> tkCreator t = AccAddress_String k creator \<and>
    tkUnlimited t \<and> mmAmount msg = Some amt \<and> 0 < amt \<and> tkTotalSupply t = Some T \<and>
    T + amt \<le> MaxTokenSupply \<and>
    token_ok k (t\<lparr>tkTotalSupply := Some (T + amt)\<rparr>) \<and>
    GetToken k c' = (GetToken k c)(tkMinimalDenom t \<mapsto> t\<lparr>tkTotalSupply := Some (T + amt)\<rparr>) \<and>
    GetTokenCounter k c' = GetTokenCounter k c \<and>
    (\<forall>e. sup_of k c' e = sup_of k c e + (if e = tkMinimalDenom t then amt else 0)) \<and>
    (\<forall>x e. bal_of k c' x e = bal_of k c x e + (if x = creator \<and> e = tkMinimalDenom t then amt else 0)) \<and>
    supply_inv k wfb c'"
proof -
  from stoc_env.MintTokens_Inr [OF assms] obtain t creator
    where f: "FindToken k c (mmSymbol msg) = Inr t" and cr: "AccAddressFromBech32 k (mmCreator msg) = Inr creator"
      and m: "MintToken k creator (tkMinimalDenom t) (mmAmount msg) c = Inr c'" by blast
  have g: "GetToken k c (tkMinimalDenom t) = Some t"
    using stoc_env.FindToken_Inr(1) [OF assms(1) _ f] assms(2) by (simp add: supply_inv_def)
  from stoc_env.MintToken_Inr [OF assms(1,2) m] show ?thesis
    unfolding g using f cr by (intro exI [of _ t] exI [of _ creator]) auto
qed

theorem MintTokens_correct_witness:
  "\<exists>c'. MintTokens ref_k demo_mint demo1 = Inr c' \<and> supply_inv ref_k ledger_ok c'"
proof -
  obtain c' where "MintTokens ref_k demo_mint demo1 = Inr c'"
    using demo_mint_ok by (cases "MintTokens ref_k demo_mint demo1") auto
  with MintTokens_correct [OF refenv.stoc_env_axioms demo1_inv this] show ?thesis by blast
qed

text \<open>
  C6. What a successful \<open>BurnToken\<close> does, signed by any account but the module's own. The amount
  is positive: the given one, or the signer's whole balance. Exactly that much of the
  denomination leaves the signer's balance and the bank supply; no other account and no other
  denomination changes. For a managed token the tracked total follows the bank supply and the
  reserve is untouched; for any other denomination no token changes. The invariant is kept.
\<close>

theorem BurnToken_correct:
  assumes "stoc_env k wfb" and "supply_inv k wfb c" and "BurnToken k msg c = Inr (resp, c')"
    and "AccAddressFromBech32 k (mbCreator msg) \<noteq> Inr (modAddr k)"
  shows "\<exists>creator amt. AccAddressFromBech32 k (mbCreator msg) = Inr creator \<and>
    (if mbBurnAll msg then amt = bal_of k c creator (mbDenom msg) else mbAmount msg = Some amt) \<and> 0 < amt \<and>
    GetToken k c' = (case GetToken k c (mbDenom msg) of None \<Rightarrow> GetToken k c
      | Some t \<Rightarrow> (GetToken k c)(mbDenom msg \<mapsto> t\<lparr>tkTotalSupply := Some (sup_of k c (mbDenom msg) - amt)\<rparr>)) \<and>
    (\<forall>t. GetToken k c (mbDenom msg) = Some t \<longrightarrow>
       token_ok k (t\<lparr>tkTotalSupply := Some (sup_of k c (mbDenom msg) - amt)\<rparr>)) \<and>
    GetTokenCounter k c' = GetTokenCounter k c \<and>
    (\<forall>e. sup_of k c' e = sup_of k c e - (if e = mbDenom msg then amt else 0)) \<and>
    (\<forall>x e. bal_of k c' x e = bal_of k c x e - (if x = creator \<and> e = mbDenom msg then amt else 0)) \<and>
    supply_inv k wfb c'"
  by (rule stoc_env.BurnToken_Inr [OF assms])

theorem BurnToken_correct_witness:
  "\<exists>r c'. BurnToken ref_k demo_burn demo1 = Inr (r, c') \<and> sup_of ref_k c' ''AB_0'' = 12 \<and>
     supply_inv ref_k ledger_ok c'"
proof -
  obtain r c' where run: "BurnToken ref_k demo_burn demo1 = Inr (r, c')"
    using demo_burn_ok by (cases "BurnToken ref_k demo_burn demo1") auto
  have "AccAddressFromBech32 ref_k (mbCreator demo_burn) \<noteq> Inr (modAddr ref_k)" by code_simp
  from BurnToken_correct [OF refenv.stoc_env_axioms demo1_inv run this]
  have "sup_of ref_k c' ''AB_0'' = sup_of ref_k demo1 ''AB_0'' - 3 \<and> supply_inv ref_k ledger_ok c'"
    by (auto simp: demo_burn_def)
  moreover have "sup_of ref_k demo1 ''AB_0'' = 15" by code_simp
  ultimately show ?thesis using run by auto
qed

text \<open>
  C7. What a successful \<open>ReleaseTokens\<close> does. Only the creator can release; every amount is
  positive and their sum does not exceed the reserve; the reserve and the module account go down
  by the sum, every other account goes up by the entries that name it, bank supply and total
  supply stay, and the supply invariant is kept.
\<close>

theorem ReleaseTokens_correct:
  assumes "stoc_env k wfb" and "supply_inv k wfb c" and "ReleaseTokens k msg c = Inr (resp, c')"
  shows "\<exists>t creator R. FindToken k c (mrSymbol msg) = Inr t \<and>
    AccAddressFromBech32 k (mrCreator msg) = Inr creator \<and> tkCreator t = AccAddress_String k creator \<and>
    (\<forall>d \<in> set (mrDistributions msg). \<exists>a. rrAmount d = Some a \<and> 0 < a) \<and>
    tkRemainingSupply t = Some R \<and> released (mrDistributions msg) \<le> R \<and>
    token_ok k (t\<lparr>tkRemainingSupply := Some (R - released (mrDistributions msg))\<rparr>) \<and>
    GetToken k c' = (GetToken k c)(tkMinimalDenom t \<mapsto>
      t\<lparr>tkRemainingSupply := Some (R - released (mrDistributions msg))\<rparr>) \<and>
    GetTokenCounter k c' = GetTokenCounter k c \<and>
    (\<forall>e. sup_of k c' e = sup_of k c e) \<and>
    (\<forall>x e. x \<noteq> modAddr k \<longrightarrow> bal_of k c' x e = bal_of k c x e
       + (if e = tkMinimalDenom t then received k (mrDistributions msg) x else 0)) \<and>
    supply_inv k wfb c'"
  by (rule stoc_env.ReleaseTokens_Inr [OF assms])

theorem ReleaseTokens_correct_witness:
  "\<exists>r c'. ReleaseTokens ref_k demo_release demo1 = Inr (r, c') \<and> bal_of ref_k c' (modAddr ref_k) ''AB_0'' = 3"
proof -
  obtain r c' where run: "ReleaseTokens ref_k demo_release demo1 = Inr (r, c')"
    using demo_release_ok by (cases "ReleaseTokens ref_k demo_release demo1") auto
  have f: "FindToken ref_k demo1 (mrSymbol demo_release) = Inr t \<Longrightarrow>
      tkMinimalDenom t = ''AB_0'' \<and> tkRemainingSupply t = Some 5" for t
  proof -
    assume "FindToken ref_k demo1 (mrSymbol demo_release) = Inr t"
    moreover have "case FindToken ref_k demo1 (mrSymbol demo_release) of Inl _ \<Rightarrow> False
      | Inr t \<Rightarrow> tkMinimalDenom t = ''AB_0'' \<and> tkRemainingSupply t = Some 5" by code_simp
    ultimately show ?thesis by simp
  qed
  from ReleaseTokens_correct [OF refenv.stoc_env_axioms demo1_inv run] f
  have "\<exists>t. GetToken ref_k c' ''AB_0'' = Some t \<and> tkRemainingSupply t = Some 3"
    and "books_ok ref_k c'"
    by (auto simp: demo_release_def released_def supply_inv_def)
  with run show ?thesis by (auto simp: books_ok_def)
qed

lemma last_share:
  fixes p q tot I z :: int
  assumes "p = 100 - q" and "100 * tot \<le> I * p" and "I * p \<le> 100 * tot + z"
  shows "I * q div 100 \<le> I - tot \<and> 100 * (I - tot) \<le> I * q + z"
proof -
  have "I * p = I * 100 - I * q" unfolding assms(1) by (rule right_diff_distrib)
  with assms(2,3) have "I * q \<le> (I - tot) * 100" and b: "100 * (I - tot) \<le> I * q + z" by simp_all
  then have "I * q div 100 \<le> (I - tot) * 100 div 100" by (intro zdiv_mono1) simp_all
  with b show ?thesis by simp
qed

text \<open>Rounding: with \<open>p\<close> percent already handed out in \<open>m\<close> rounded-down steps, every further
  share is at least its rounded-down percentage and exceeds the exact one by less than one unit
  per earlier entry.\<close>

lemma shares_bounds:
  assumes "0 \<le> init" and "p + int (sum_percent ds) = 100"
    and "100 * tot \<le> init * p" and "init * p \<le> 100 * tot + 99 * int m" and "i < length ds"
  shows "init * int (unat (wdPercent (ds ! i))) div 100 \<le> shares init tot ds ! i \<and>
    100 * shares init tot ds ! i \<le> init * int (unat (wdPercent (ds ! i))) + 99 * int (m + i)"
  using assms
proof (induction ds arbitrary: p tot m i)
  case Nil
  then show ?case by simp
next
  case (Cons d ds)
  let ?q = "int (unat (wdPercent d))"
  show ?case
  proof (cases "ds = []")
    case True
    then have "p = 100 - ?q" and "i = 0" using Cons.prems by auto
    with last_share [of p ?q tot init "99 * int m"] Cons.prems(3,4)
    have "init * ?q div 100 \<le> init - tot \<and> 100 * (init - tot) \<le> init * ?q + 99 * int m" by simp
    with True \<open>i = 0\<close> show ?thesis by simp
  next
    case False
    let ?a = "init * ?q div 100"
    have a: "100 * ?a \<le> init * ?q" "init * ?q \<le> 100 * ?a + 99" by simp_all
    have sh: "shares init tot (d # ds) = ?a # shares init (tot + ?a) ds" using False by (simp add: Let_def)
    show ?thesis
    proof (cases i)
      case 0
      then show ?thesis unfolding sh using a(1) by simp
    next
      case (Suc j)
      have "100 * (tot + ?a) \<le> init * (p + ?q)" "init * (p + ?q) \<le> 100 * (tot + ?a) + 99 * int (m + 1)"
        using a Cons.prems(3,4) by (simp_all add: algebra_simps)
      from Cons.IH [OF Cons.prems(1) _ this, of j] Cons.prems(2,5) show ?thesis
        unfolding sh Suc by simp
    qed
  qed
qed

text \<open>The initial distribution is fair. When the mint loop of \<open>CreateToken\<close> succeeds on entries that
  add up to 100 percent, it mints exactly the initial supply, every entry gets a positive amount,
  at least its percentage rounded down and less than one unit per entry above its exact
  percentage, and an account named by exactly one entry is credited exactly that amount.
\<close>

theorem mintDistributions_fair:
  assumes "stoc_env k wfb" and "wfb (bank c)" and "0 \<le> I" and "sum_percent ds = 100"
    and "mintDistributions k d I 0 ds c = Inr c'" and "i < length ds"
    and "AccAddressFromBech32 k (wdAddress (ds ! i)) = Inr x"
    and "\<forall>j < length ds. j \<noteq> i \<longrightarrow> AccAddressFromBech32 k (wdAddress (ds ! j)) \<noteq> Inr x"
  shows "\<exists>a. 0 < a \<and> I * int (unat (wdPercent (ds ! i))) div 100 \<le> a \<and>
    100 * a < I * int (unat (wdPercent (ds ! i))) + 100 * int (length ds) \<and>
    bal_of k c' x d = bal_of k c x d + a \<and> sup_of k c' d = sup_of k c d + I"
proof -
  let ?as = "shares I 0 ds"
  note M = stoc_env.mintDistributions_Inr [OF assms(1,5,2,3)]
  have "granted k ds ?as x = ?as ! i"
  proof -
    have len: "length (zip ds ?as) = length ds" by simp
    have "granted k ds ?as x = (\<Sum>j < length ds. if j = i then ?as ! i else 0)"
      unfolding granted_def sum_list_sum_nth
      by (rule sum.cong) (use assms(7,8) in \<open>auto simp: atLeast0LessThan\<close>)
    with assms(6) show ?thesis by simp
  qed
  moreover have "0 < ?as ! i" using M assms(6) by (simp add: list_all_length)
  moreover have "I * int (unat (wdPercent (ds ! i))) div 100 \<le> ?as ! i"
    and "100 * ?as ! i \<le> I * int (unat (wdPercent (ds ! i))) + 99 * int (0 + i)"
    using shares_bounds [of I 0 ds 0 0 i] assms(3,4,6) by auto
  moreover have "sum_list ?as = I" using shares_sum [of ds I 0] assms(6) by (cases ds) auto
  ultimately show ?thesis using M assms(6) by (intro exI [of _ "?as ! i"]) auto
qed

definition demo_dists :: "WalletDistribution list" where
  "demo_dists = [\<lparr>wdAddress = ''alice'', wdPercent = 33\<rparr>, \<lparr>wdAddress = ''bob'', wdPercent = 67\<rparr>]"

theorem mintDistributions_fair_witness:
  "\<exists>c' a. mintDistributions ref_k ''AB_0'' 10 0 demo_dists empty_ctx = Inr c' \<and> 6 \<le> a \<and> 100 * a < 870 \<and>
     bal_of ref_k c' ''bob'' ''AB_0'' = a"
proof -
  have "\<not> isl (mintDistributions ref_k ''AB_0'' 10 0 demo_dists empty_ctx)" by code_simp
  then obtain c' where run: "mintDistributions ref_k ''AB_0'' 10 0 demo_dists empty_ctx = Inr c'"
    by (cases "mintDistributions ref_k ''AB_0'' 10 0 demo_dists empty_ctx") auto
  have wf: "ledger_ok (bank empty_ctx)" using empty_supply_inv by (simp add: supply_inv_def)
  have b: "AccAddressFromBech32 ref_k (wdAddress (demo_dists ! 1)) = Inr ''bob''"
    and a: "AccAddressFromBech32 ref_k (wdAddress (demo_dists ! 0)) \<noteq> Inr ''bob''"
    and z: "bal_of ref_k empty_ctx ''bob'' ''AB_0'' = 0" and len: "length demo_dists = 2"
    and sum: "sum_percent demo_dists = 100" and p: "int (unat (wdPercent (demo_dists ! 1))) = 67"
    by code_simp+
  have "\<forall>j < length demo_dists. j \<noteq> 1 \<longrightarrow>
      AccAddressFromBech32 ref_k (wdAddress (demo_dists ! j)) \<noteq> Inr ''bob''"
    using a len by (auto simp: less_2_cases_iff)
  with mintDistributions_fair [OF refenv.stoc_env_axioms wf _ sum run _ b] len p z run show ?thesis by auto
qed

section \<open>Reachable states\<close>

text \<open>
  C1. The supply invariant holds in every state the chain can reach. From a state that satisfies
  it, after any sequence of successful token messages interleaved with any other activity that
  does not mint or burn issued denominations or touch the module account's balance of them, for
  every token the bank's supply is the tracked total and the module account holds the tracked
  reserve, the store is well formed, and no denomination with a counter still to come is in use.
\<close>

theorem reachable_supply_inv:
  assumes "stoc_env k wfb" and "supply_inv k wfb c" and "(stoc_step k wfb)\<^sup>*\<^sup>* c c'"
  shows "supply_inv k wfb c'"
  by (rule stoc_env.steps_supply_inv [OF assms(1,3,2)])

theorem reachable_supply_inv_witness: "\<exists>c'. stoc_step ref_k ledger_ok empty_ctx c' \<and>
   c' \<noteq> empty_ctx \<and> supply_inv ref_k ledger_ok c'"
proof -
  have "stoc_step ref_k ledger_ok empty_ctx demo1" using demo1_run stoc_step.create by blast
  moreover then have "supply_inv ref_k ledger_ok demo1"
    using reachable_supply_inv [OF refenv.stoc_env_axioms empty_supply_inv] by blast
  moreover have "GetTokenCounter ref_k demo1 \<noteq> GetTokenCounter ref_k empty_ctx" by code_simp
  ultimately show ?thesis by metis
qed

text \<open>A token once created is there for ever and only its two supply numbers can change: after any
  sequence of steps it is found under the same denomination with the same id, name, symbol, initial
  supply, decimals, logo, distributions, tax, creator and minting flag.
\<close>

theorem token_config_immutable:
  assumes "stoc_env k wfb" and "supply_inv k wfb c" and "(stoc_step k wfb)\<^sup>*\<^sup>* c c'"
    and "GetToken k c d = Some t"
  shows "\<exists>t'. GetToken k c' d = Some t' \<and> config t' = config t"
  by (rule stoc_env.steps_config [OF assms(1,3,2,4)])

theorem token_config_immutable_witness:
  "\<exists>c' t'. MintTokens ref_k demo_mint demo1 = Inr c' \<and> GetToken ref_k c' ''AB_0'' = Some t' \<and>
     tkCreator t' = ''alice''"
proof -
  obtain c' where run: "MintTokens ref_k demo_mint demo1 = Inr c'"
    using demo_mint_ok by (cases "MintTokens ref_k demo_mint demo1") auto
  then have "(stoc_step ref_k ledger_ok)\<^sup>*\<^sup>* demo1 c'" using stoc_step.mint by blast
  moreover obtain t where t: "GetToken ref_k demo1 ''AB_0'' = Some t" "tkCreator t = ''alice''"
  proof -
    have "case GetToken ref_k demo1 ''AB_0'' of None \<Rightarrow> False | Some t \<Rightarrow> tkCreator t = ''alice''" by code_simp
    then show ?thesis using that by (auto split: option.splits)
  qed
  ultimately obtain t' where "GetToken ref_k c' ''AB_0'' = Some t'" "config t' = config t"
    using token_config_immutable [OF refenv.stoc_env_axioms demo1_inv] by blast
  moreover then have "tkCreator t' = ''alice''"
    using t(2) by (metis config_creator)
  ultimately show ?thesis using run by blast
qed

text \<open>The runtime check \<open>SupplyInvariant\<close> never panics on a well-formed store and never reports
  the chain as broken, and it stays silent (emits no drift event) exactly when for every stored
  token the bank's supply is the tracked total and the module balance the tracked reserve.
\<close>

theorem SupplyInvariant_exact:
  assumes "stoc_env k wfb" and "store_ok k c"
  shows "\<exists>c'. SupplyInvariant k c = Inr (False, c') \<and> (c' = c \<longleftrightarrow> books_ok k c)"
  by (rule stoc_env.SupplyInvariant_Inr [OF assms])

theorem SupplyInvariant_exact_witness: "SupplyInvariant ref_k demo1 = Inr (False, demo1)"
proof -
  have "store_ok ref_k demo1" and "books_ok ref_k demo1" using demo1_inv by (auto simp: supply_inv_def)
  with SupplyInvariant_exact [OF refenv.stoc_env_axioms, of demo1] show ?thesis by auto
qed

text \<open>A token whose tax percentage is nil passes the persistence check with any recipient string;
  the codec stores the percentage as zero, and the token read back is one that the same check
  rejects, so no later message can rewrite it.
\<close>

theorem nil_tax_not_reimportable:
  "ValidateState ref_k demo_token = Inr () \<and> (\<exists>c t. SetToken ref_k demo_token empty_ctx = Inr c \<and>
     GetToken ref_k c ''AB_7'' = Some t \<and> ValidateState ref_k t = Inl (Errorf ''invalid tax recipient''))"
proof -
  have "ValidateState ref_k demo_token = Inr ()" by code_simp
  moreover have "case GetToken ref_k demo_set ''AB_7'' of None \<Rightarrow> False
    | Some t \<Rightarrow> ValidateState ref_k t = Inl (Errorf ''invalid tax recipient'')" by code_simp
  ultimately show ?thesis using demo_set_run by (auto split: option.splits)
qed

text \<open>
  The creation-time check accepts a token with a limited supply, no initial supply and a
  positive total; it rejects limited tokens only for a zero total.
\<close>

theorem Validate_accepts_reserve_only:
  "Validate ref_k (demo_token\<lparr>tkInitialSupply := Some 0, tkUnlimited := False\<rparr>) = Inr () \<and>
   Validate ref_k (demo_token\<lparr>tkInitialSupply := Some 0, tkTotalSupply := Some 0, tkUnlimited := False\<rparr>)
     = Inl (Errorf ''total supply zero for non-unlimited token'')"
  by code_simp

end
