(* ===== verification/Ante_Restrictions.thy ===== *)
theory Ante_Restrictions
  imports Ante_Msgs Token_Theorems
begin

text \<open>
  The two ante decorators of the token module (\<^verbatim>\<open>x/stoc/ante/ibc_restriction.go\<close> and
  \<^verbatim>\<open>x/stoc/ante/custom_token_restriction.go\<close>), which keep custom tokens out of IBC transfers
  and of every chain-level operation, at any nesting of authz executions and of gov and group
  proposals. Both recurse under the depth cap \<open>MaxAuthzUnwrapDepth\<close>, which is what makes them
  terminate.

  A rejection also emits an event; events of a rejected transaction are discarded with it.
\<close>

definition MaxAuthzUnwrapDepth :: nat where "MaxAuthzUnwrapDepth = 3"

section \<open>IBC transfers\<close>

definition checkTransfer :: "('s, 'b, 'x) Keeper_scheme \<Rightarrow> ('s, 'b) ctx \<Rightarrow> coin \<Rightarrow> unit res" where
  "checkTransfer k c coin =
     (if IsNativeDenom k (Denom coin) then Inr ()
      else if HasToken k c (Denom coin) then Inl (Errorf ''IBC transfer of custom token'')
      else Inr ())"

function ibc_checkMsgs :: "('s, 'b, 'x) Keeper_scheme \<Rightarrow> ('a, 'z) msg_api_scheme \<Rightarrow> ('s, 'b) ctx \<Rightarrow> nat \<Rightarrow>
    'a sdk_msg list \<Rightarrow> unit res" where
  "ibc_checkMsgs k A c depth msgs = forE (\<lambda>msg _.
     (case msg of
        IbcMsgTransfer coin _ \<Rightarrow> checkTransfer k c coin
      | AuthzExec as \<Rightarrow>
          if MaxAuthzUnwrapDepth \<le> depth then Inl (Errorf ''authz MsgExec nesting depth exceeded'')
          else tryE (authz_GetMessages A as) (\<lambda>innerMsgs. ibc_checkMsgs k A c (depth + 1) innerMsgs)
      | GroupSubmitProposal as \<Rightarrow>
          if MaxAuthzUnwrapDepth \<le> depth then Inl (Errorf ''group proposal nesting depth exceeded'')
          else tryE (group_GetMsgs A as) (\<lambda>innerMsgs. ibc_checkMsgs k A c (depth + 1) innerMsgs)
      | GovSubmitProposal as _ _ \<Rightarrow>
          if MaxAuthzUnwrapDepth \<le> depth then Inl (Errorf ''gov proposal nesting depth exceeded'')
          else tryE (gov_GetMsgs A as) (\<lambda>innerMsgs. ibc_checkMsgs k A c (depth + 1) innerMsgs)
      | _ \<Rightarrow> Inr ())) msgs ()"
  by pat_completeness auto
termination
  by (relation "measure (\<lambda>(k, A, c, depth, msgs). MaxAuthzUnwrapDepth - depth)")
    (auto simp: MaxAuthzUnwrapDepth_def)

declare ibc_checkMsgs.simps [simp del]

definition IBCCustomTokenRestriction :: "('s, 'b, 'x) Keeper_scheme \<Rightarrow> ('a, 'z) msg_api_scheme \<Rightarrow>
    ('s, 'b, 'a) ante_handler \<Rightarrow> ('s, 'b, 'a) ante_handler" where
  "IBCCustomTokenRestriction k A nxt c tx simulate =
     tryE (ibc_checkMsgs k A c 0 (GetMsgs tx)) (\<lambda>_. nxt c tx simulate)"

section \<open>Chain operations\<close>

definition rejectCustomTokens :: "('s, 'b, 'x) Keeper_scheme \<Rightarrow> ('s, 'b) ctx \<Rightarrow> coins \<Rightarrow> unit res" where
  "rejectCustomTokens k c coins = forE (\<lambda>coin _.
     if IsNativeDenom k (Denom coin) then Inr ()
     else if HasToken k c (Denom coin) then Inl (Errorf ''custom token in chain operation'')
     else Inr ()) coins ()"

function ops_checkMsgs :: "('s, 'b, 'x) Keeper_scheme \<Rightarrow> ('a, 'z) msg_api_scheme \<Rightarrow> ('s, 'b) ctx \<Rightarrow> nat \<Rightarrow>
    bool \<Rightarrow> 'a sdk_msg list \<Rightarrow> unit res" where
  "ops_checkMsgs k A c depth insideProposalWrapper msgs = forE (\<lambda>msg _.
     (case msg of
        MsgSend _ _ amount \<Rightarrow>
          if insideProposalWrapper then rejectCustomTokens k c amount else Inr ()
      | MsgMultiSend _ outputs \<Rightarrow>
          if insideProposalWrapper
          then forE (\<lambda>out _. rejectCustomTokens k c (snd out)) outputs () else Inr ()
      | MsgFundCommunityPool amount _ \<Rightarrow> rejectCustomTokens k c amount
      | GovSubmitProposal as initialDeposit _ \<Rightarrow>
          tryE (rejectCustomTokens k c initialDeposit) (\<lambda>_.
          if MaxAuthzUnwrapDepth \<le> depth then Inl (Errorf ''gov proposal nesting depth exceeded'')
          else tryE (gov_GetMsgs A as) (\<lambda>inner. ops_checkMsgs k A c (depth + 1) True inner))
      | GovDeposit amount _ \<Rightarrow> rejectCustomTokens k c amount
      | LegacyGovSubmitProposal initialDeposit _ \<Rightarrow> rejectCustomTokens k c initialDeposit
      | LegacyGovDeposit amount _ \<Rightarrow> rejectCustomTokens k c amount
      | GroupSubmitProposal as \<Rightarrow>
          if MaxAuthzUnwrapDepth \<le> depth then Inl (Errorf ''group proposal nesting depth exceeded'')
          else tryE (group_GetMsgs A as) (\<lambda>inner. ops_checkMsgs k A c (depth + 1) True inner)
      | MsgCreateVestingAccount _ _ amount \<Rightarrow> rejectCustomTokens k c amount
      | MsgCreatePermanentLockedAccount _ _ amount \<Rightarrow> rejectCustomTokens k c amount
      | MsgCreatePeriodicVestingAccount _ _ periods \<Rightarrow>
          forE (\<lambda>amount _. rejectCustomTokens k c amount) periods ()
      | MsgConvertCoin coin _ _ \<Rightarrow> tryE (NewCoins k [coin]) (\<lambda>coins. rejectCustomTokens k c coins)
      | AuthzExec as \<Rightarrow>
          if MaxAuthzUnwrapDepth \<le> depth then Inl (Errorf ''authz MsgExec nesting depth exceeded'')
          else tryE (authz_GetMessages A as) (\<lambda>inner.
               ops_checkMsgs k A c (depth + 1) insideProposalWrapper inner)
      | _ \<Rightarrow> Inr ())) msgs ()"
  by pat_completeness auto
termination
  by (relation "measure (\<lambda>(k, A, c, depth, ins, msgs). MaxAuthzUnwrapDepth - depth)")
    (auto simp: MaxAuthzUnwrapDepth_def)

declare ops_checkMsgs.simps [simp del]

definition CustomTokenChainOpsRestriction :: "('s, 'b, 'x) Keeper_scheme \<Rightarrow> ('a, 'z) msg_api_scheme \<Rightarrow>
    ('s, 'b, 'a) ante_handler \<Rightarrow> ('s, 'b, 'a) ante_handler" where
  "CustomTokenChainOpsRestriction k A nxt c tx simulate =
     tryE (ops_checkMsgs k A c 0 False (GetMsgs tx)) (\<lambda>_. nxt c tx simulate)"

section \<open>What the walkers check\<close>

text \<open>The denominations a message moves across chains, and those it puts into a chain operation:
  for a bank transfer that is the case inside a proposal.\<close>

fun ibc_denoms :: "'a sdk_msg \<Rightarrow> denom set" where
  "ibc_denoms (IbcMsgTransfer coin _) = {Denom coin}"
| "ibc_denoms _ = {}"

fun ops_denoms :: "bool \<Rightarrow> 'a sdk_msg \<Rightarrow> denom set" where
  "ops_denoms q (MsgSend _ _ cs) = (if q then Denom ` set cs else {})"
| "ops_denoms q (MsgMultiSend _ outs) = (if q then (\<Union>out \<in> set outs. Denom ` set (snd out)) else {})"
| "ops_denoms q (MsgFundCommunityPool cs _) = Denom ` set cs"
| "ops_denoms q (GovSubmitProposal _ cs _) = Denom ` set cs"
| "ops_denoms q (GovDeposit cs _) = Denom ` set cs"
| "ops_denoms q (LegacyGovSubmitProposal cs _) = Denom ` set cs"
| "ops_denoms q (LegacyGovDeposit cs _) = Denom ` set cs"
| "ops_denoms q (MsgCreateVestingAccount _ _ cs) = Denom ` set cs"
| "ops_denoms q (MsgCreatePermanentLockedAccount _ _ cs) = Denom ` set cs"
| "ops_denoms q (MsgCreatePeriodicVestingAccount _ _ ps) = (\<Union>cs \<in> set ps. Denom ` set cs)"
| "ops_denoms q (MsgConvertCoin coin _ _) = (if Amount coin = 0 then {} else {Denom coin})"
| "ops_denoms q _ = {}"

text \<open>A wrapper at this depth can be opened.\<close>

fun opens :: "('a, 'z) msg_api_scheme \<Rightarrow> nat \<Rightarrow> 'a sdk_msg \<Rightarrow> bool" where
  "opens A n (AuthzExec as) = (n < 3 \<and> \<not> isl (authz_GetMessages A as))"
| "opens A n (GovSubmitProposal as _ _) = (n < 3 \<and> \<not> isl (gov_GetMsgs A as))"
| "opens A n (GroupSubmitProposal as) = (n < 3 \<and> \<not> isl (group_GetMsgs A as))"
| "opens A n _ = True"

text \<open>A coin conversion whose coin is well formed; the SDK panics on any other.\<close>

fun converts :: "'x sdk_scheme \<Rightarrow> 'a sdk_msg \<Rightarrow> bool" where
  "converts K (MsgConvertCoin coin _ _) =
     (Amount coin = 0 \<or> 0 < Amount coin \<and> ValidateDenom K (Denom coin) = Inr ())"
| "converts K _ = True"

definition custom :: "('s, 'b, 'x) Keeper_scheme \<Rightarrow> ('s, 'b) ctx \<Rightarrow> denom set" where
  "custom k c = {d. \<not> IsNativeDenom k d \<and> HasToken k c d}"

lemma custom_HasToken: "store_ok k c \<Longrightarrow> bond_ok k \<Longrightarrow> custom k c = {d. HasToken k c d}"
  by (auto simp: custom_def custom_not_native)

lemma forE_Inr_unit: "forE (\<lambda>x (_::unit). f x) xs u = Inr v \<longleftrightarrow> (\<forall>x \<in> set xs. f x = Inr ())"
  using forE_check [of f xs] by simp

lemma rejectCustomTokens_Inr:
  "rejectCustomTokens k c cs = Inr u \<longleftrightarrow> Denom ` set cs \<inter> custom k c = {}"
  by (auto simp: rejectCustomTokens_def forE_Inr_unit custom_def split: if_splits)

lemma checkTransfer_Inr: "checkTransfer k c coin = Inr u \<longleftrightarrow> Denom coin \<notin> custom k c"
  by (auto simp: checkTransfer_def custom_def)

text \<open>One round of each walker: the check of the message itself, and of the list inside it.\<close>

lemma res_ok_cases: "(\<exists>x. r = Inr x \<and> P x) \<longleftrightarrow> \<not> isl r \<and> (\<forall>x. r = Inr x \<longrightarrow> P x)" for r :: "'a res"
  by (cases r) auto

definition inner_ok :: "('a, 'z) msg_api_scheme \<Rightarrow> (bool \<Rightarrow> 'a sdk_msg list \<Rightarrow> bool) \<Rightarrow> bool \<Rightarrow> 'a sdk_msg \<Rightarrow> bool" where
  "inner_ok A P q m =
     (case m of
        AuthzExec as \<Rightarrow> (\<forall>l. authz_GetMessages A as = Inr l \<longrightarrow> P q l)
      | GovSubmitProposal as _ _ \<Rightarrow> (\<forall>l. gov_GetMsgs A as = Inr l \<longrightarrow> P True l)
      | GroupSubmitProposal as \<Rightarrow> (\<forall>l. group_GetMsgs A as = Inr l \<longrightarrow> P True l)
      | _ \<Rightarrow> True)"

text \<open>A walker: a check of message lists that does its own test on each message and applies itself,
  one level deeper, to the list inside each wrapper. It accepts a list exactly when all messages
  carried pass the test and all wrappers among them can be opened.\<close>

locale walker =
  fixes A :: "('a, 'z) msg_api_scheme"
    and chk :: "nat \<Rightarrow> bool \<Rightarrow> 'a sdk_msg list \<Rightarrow> bool"
    and test :: "bool \<Rightarrow> 'a sdk_msg \<Rightarrow> bool"
  assumes round: "chk n q msgs \<longleftrightarrow> (\<forall>m \<in> set msgs. test q m \<and> opens A n m \<and> inner_ok A (chk (Suc n)) q m)"
begin

lemma accepted_carried:
  assumes "carried A p msgs j q m" and "chk n p msgs"
  shows "test q m \<and> opens A (n + j) m \<and> inner_ok A (chk (Suc (n + j))) q m"
  using assms
proof (induction rule: carried.induct)
  case (top m) with round [of n p msgs] show ?case by auto
next
  case (authz j q as inner m)
  then have "chk (Suc (n + j)) q inner" by (auto simp: inner_ok_def)
  with round [of "Suc (n + j)" q inner] authz(3) show ?case by auto
next
  case (gov j q as cs pr inner m)
  then have "chk (Suc (n + j)) True inner" by (auto simp: inner_ok_def)
  with round [of "Suc (n + j)" True inner] gov(3) show ?case by auto
next
  case (group j q as inner m)
  then have "chk (Suc (n + j)) True inner" by (auto simp: inner_ok_def)
  with round [of "Suc (n + j)" True inner] group(3) show ?case by auto
qed

lemma carried_accepted:
  assumes "\<And>j q m. carried A p msgs j q m \<Longrightarrow> test q m \<and> opens A (n + j) m"
  shows "chk n p msgs"
  using assms
proof (induction "3 - n" arbitrary: n p msgs rule: less_induct)
  case less
  have "inner_ok A (chk (Suc n)) p m" if m: "m \<in> set msgs" for m
  proof -
    have op: "opens A n m" using less.prems [OF carried.top [OF m]] by simp
    have sub: "chk (Suc n) q l" if "n < 3" and "\<And>j q' m'. carried A q l j q' m' \<Longrightarrow> carried A p msgs (Suc j) q' m'"
      for q l
    proof (rule less.hyps)
      show "3 - Suc n < 3 - n" using that(1) by simp
      fix j q' m' assume "carried A q l j q' m'"
      from less.prems [OF that(2) [OF this]] show "test q' m' \<and> opens A (Suc n + j) m'" by simp
    qed
    show ?thesis
      using op m by (cases m)
        (auto simp: inner_ok_def intro!: sub intro: carried_authz carried_gov carried_group)
  qed
  moreover have "test p m \<and> opens A n m" if "m \<in> set msgs" for m
    using less.prems [OF carried.top [OF that]] by simp
  ultimately show ?case using round [of n p msgs] by simp
qed

theorem accepts_iff: "chk n p msgs \<longleftrightarrow> (\<forall>j q m. carried A p msgs j q m \<longrightarrow> test q m \<and> opens A (n + j) m)"
  using accepted_carried carried_accepted by metis

lemma accepted_depth: "carried A p msgs j q m \<Longrightarrow> chk n p msgs \<Longrightarrow> n \<le> 3 \<Longrightarrow> n + j \<le> 3"
  by (induction rule: carried.induct) (use accepted_carried in fastforce)+

end

text \<open>One round of each decorator.\<close>

lemma ibc_round:
  "ibc_checkMsgs k A c n msgs = Inr () \<longleftrightarrow> (\<forall>m \<in> set msgs. ibc_denoms m \<inter> custom k c = {} \<and> opens A n m \<and>
     inner_ok A (\<lambda>_ l. ibc_checkMsgs k A c (Suc n) l = Inr ()) q m)"
  unfolding ibc_checkMsgs.simps [of k A c n msgs] forE_Inr_unit
  apply (rule ball_cong [OF refl])
  subgoal for m
    by (cases m) (auto simp: checkTransfer_Inr inner_ok_def MaxAuthzUnwrapDepth_def res_ok_cases)
  done

lemma UN_disjoint: "(\<Union>x \<in> S. f x) \<inter> T = {} \<longleftrightarrow> (\<forall>x \<in> S. f x \<inter> T = {})"
  by auto

lemma convert_round:
  assumes "coin_api k"
  shows "(\<exists>cs. NewCoins k [coin] = Inr cs \<and> Denom ` set cs \<inter> custom k c = {}) \<longleftrightarrow>
    ops_denoms q (MsgConvertCoin coin x y) \<inter> custom k c = {} \<and> converts k (MsgConvertCoin coin x y)"
  by (cases "Amount coin = 0")
    (auto simp: coin_api.NewCoins_zero [OF assms] coin_api.NewCoins_single [OF assms])

lemma ops_round:
  assumes "coin_api k"
  shows "ops_checkMsgs k A c n q msgs = Inr () \<longleftrightarrow> (\<forall>m \<in> set msgs. (ops_denoms q m \<inter> custom k c = {} \<and> converts k m) \<and>
     opens A n m \<and> inner_ok A (\<lambda>q l. ops_checkMsgs k A c (Suc n) q l = Inr ()) q m)"
  unfolding ops_checkMsgs.simps [of k A c n q msgs] forE_Inr_unit
  apply (rule ball_cong [OF refl])
  subgoal for m
  proof (cases m)
    case (MsgConvertCoin coin x y)
    then show ?thesis
      using convert_round [OF assms, of coin c q x y]
      by (simp add: rejectCustomTokens_Inr inner_ok_def del: ops_denoms.simps converts.simps)
  qed (auto simp: rejectCustomTokens_Inr inner_ok_def MaxAuthzUnwrapDepth_def res_ok_cases
      forE_Inr_unit UN_disjoint)
  done

interpretation ibc_walk: walker A "\<lambda>n _ msgs. ibc_checkMsgs k A c n msgs = Inr ()"
    "\<lambda>_ m. ibc_denoms m \<inter> custom k c = {}"
  for A :: "('a, 'z) msg_api_scheme" and k :: "('s, 'b, 'x) Keeper_scheme" and c
  by unfold_locales (rule ibc_round)

sublocale stoc_env \<subseteq> ops_walk: walker A "\<lambda>n q msgs. ops_checkMsgs k A c n q msgs = Inr ()"
    "\<lambda>q m. ops_denoms q m \<inter> custom k c = {} \<and> converts k m"
  for A :: "('a, 'z) msg_api_scheme" and c
  by unfold_locales (rule ops_round, rule coin_api_axioms)

context stoc_env
begin

lemmas ops_accepts_iff = ops_walk.accepts_iff
lemmas ops_accepted_depth = ops_walk.accepted_depth

end

section \<open>Theorems\<close>

text \<open>The IBC decorator is exact at every nesting. In a well-formed store it hands a transaction on
  exactly when no message the transaction carries, bare or inside any nesting of authz executions
  and gov or group proposals, is an IBC transfer of a token of the module, and every wrapper can
  be unpacked and lies at a nesting depth below three.
\<close>

theorem IBCCustomTokenRestriction_exact:
  assumes "store_ok k c" and "bond_ok k"
  shows "IBCCustomTokenRestriction k A nxt c tx sim = Inr c' \<longleftrightarrow> nxt c tx sim = Inr c' \<and>
    (\<forall>n q m. carried A False (GetMsgs tx) n q m \<longrightarrow> (\<forall>d \<in> ibc_denoms m. \<not> HasToken k c d) \<and> opens A n m)"
  using ibc_walk.accepts_iff [of k A c 0 "GetMsgs tx" False]
  by (auto simp: IBCCustomTokenRestriction_def custom_HasToken [OF assms])

definition demo_send :: "ref_any sdk_msg" where
  "demo_send = MsgSend ''alice'' ''bob'' [mk_coin ''AB_0'' 4]"

definition demo_exec :: "ref_any sdk_msg \<Rightarrow> ref_any sdk_msg" where
  "demo_exec m = AuthzExec [RAny ''/m'' (Some m)]"

definition demo_next :: "ref_ctx \<Rightarrow> ref_any tx \<Rightarrow> bool \<Rightarrow> ref_ctx res" where
  "demo_next c tx sim = Inr c"

lemma ref_bond: "bond_ok ref_k"
  by (simp add: bond_ok_def ref_k_def)

lemma demo1_store: "store_ok ref_k demo1"
  using demo1_inv by (simp add: supply_inv_def)

lemma guard_ok: "\<not> isl r \<Longrightarrow> tryE r (\<lambda>_::unit. Inr s) = Inr s"
  by (cases r) simp_all

lemma guard_fails: "isl r \<Longrightarrow> tryE r (\<lambda>_::unit. s) \<noteq> Inr t"
  by (cases r) simp_all

theorem IBCCustomTokenRestriction_witness:
  "\<not> (\<exists>n q m. carried ref_api False [demo_exec demo_send] n q m \<and>
      \<not> ((\<forall>d \<in> ibc_denoms m. \<not> HasToken ref_k demo1 d) \<and> opens ref_api n m)) \<and>
   \<not> (\<forall>n q m. carried ref_api False [demo_exec (IbcMsgTransfer (mk_coin ''AB_0'' 1) ''alice'')] n q m \<longrightarrow>
      (\<forall>d \<in> ibc_denoms m. \<not> HasToken ref_k demo1 d) \<and> opens ref_api n m)"
proof -
  have a: "\<not> isl (ibc_checkMsgs ref_k ref_api demo1 0 [demo_exec demo_send])"
    and r: "isl (ibc_checkMsgs ref_k ref_api demo1 0 [demo_exec (IbcMsgTransfer (mk_coin ''AB_0'' 1) ''alice'')])"
    by code_simp+
  note e = IBCCustomTokenRestriction_exact [OF demo1_store ref_bond, of ref_api demo_next _ False demo1]
  show ?thesis
    using e [of "ref_tx [demo_exec demo_send]"] guard_ok [OF a, of demo1] guard_fails [OF r, of _ demo1]
      e [of "ref_tx [demo_exec (IbcMsgTransfer (mk_coin ''AB_0'' 1) ''alice'')]"]
    unfolding IBCCustomTokenRestriction_def demo_next_def ref_tx_def tx.simps by blast
qed

text \<open>
  C38. The chain-operation decorator is exact at every nesting. In a well-formed store it hands a
  transaction on exactly when no message the transaction carries puts a token of the module into the
  community pool, a gov deposit, a vesting account or an ERC20 conversion, no bank transfer of such a
  token is hidden below a gov or group proposal, and every wrapper can be unpacked and lies at
  a nesting depth below three. Bank transfers that run in the transaction itself pass.
\<close>

theorem CustomTokenChainOpsRestriction_exact:
  assumes "stoc_env k wfb" and "store_ok k c" and "bond_ok k"
  shows "CustomTokenChainOpsRestriction k A nxt c tx sim = Inr c' \<longleftrightarrow> nxt c tx sim = Inr c' \<and>
    (\<forall>n q m. carried A False (GetMsgs tx) n q m \<longrightarrow>
       (\<forall>d \<in> ops_denoms q m. \<not> HasToken k c d) \<and> converts k m \<and> opens A n m)"
  using stoc_env.ops_accepts_iff [OF assms(1), of A c 0 False "GetMsgs tx"]
  by (auto simp: CustomTokenChainOpsRestriction_def custom_HasToken [OF assms(2,3)])

theorem CustomTokenChainOpsRestriction_witness:
  "\<not> (\<exists>n q m. carried ref_api False [demo_exec demo_send] n q m \<and>
      \<not> ((\<forall>d \<in> ops_denoms q m. \<not> HasToken ref_k demo1 d) \<and> converts ref_k m \<and> opens ref_api n m)) \<and>
   \<not> (\<forall>n q m. carried ref_api False [GroupSubmitProposal [RAny ''/m'' (Some (demo_exec demo_send))]] n q m \<longrightarrow>
      (\<forall>d \<in> ops_denoms q m. \<not> HasToken ref_k demo1 d) \<and> converts ref_k m \<and> opens ref_api n m)"
proof -
  have a: "\<not> isl (ops_checkMsgs ref_k ref_api demo1 0 False [demo_exec demo_send])"
    and r: "isl (ops_checkMsgs ref_k ref_api demo1 0 False
              [GroupSubmitProposal [RAny ''/m'' (Some (demo_exec demo_send))]])"
    by code_simp+
  note e = CustomTokenChainOpsRestriction_exact [OF refenv.stoc_env_axioms demo1_store ref_bond,
      of ref_api demo_next _ False demo1]
  show ?thesis
    using e [of "ref_tx [demo_exec demo_send]"] guard_ok [OF a, of demo1] guard_fails [OF r, of _ demo1]
      e [of "ref_tx [GroupSubmitProposal [RAny ''/m'' (Some (demo_exec demo_send))]]"]
    unfolding CustomTokenChainOpsRestriction_def demo_next_def ref_tx_def tx.simps by blast
qed

end
