(* ===== verification/Token_Genesis.thy ===== *)
theory Token_Genesis
  imports Token_Theorems
begin

text \<open>
  Genesis import and export of the token module (\<^verbatim>\<open>x/stoc/types/genesis.go\<close>,
  \<^verbatim>\<open>x/stoc/module/genesis.go\<close>). A refused import panics, which is an error of the model.

  Shown: an import builds a well-formed store with exactly the tokens of the genesis file and a
  counter above all of them; together with the reserve balances it establishes the supply
  invariant; and the export of any reachable state can be imported again and gives the same
  tokens.
\<close>

section \<open>Operations\<close>

definition GenesisState_Validate :: "'x sdk_scheme \<Rightarrow> Token list \<Rightarrow> unit res" where
  "GenesisState_Validate K tokens =
     tryE (forE (\<lambda>token seenDenoms.
             tryE (ValidateState K token) (\<lambda>_.
             if tkMinimalDenom token \<in> set seenDenoms then Inl (Errorf ''duplicate token MinimalDenom'')
             else Inr (tkMinimalDenom token # seenDenoms))) tokens [])
       (\<lambda>_. Params_Validate)"

definition genesis_counter :: "denom \<Rightarrow> u64 \<Rightarrow> u64 res" where
  "genesis_counter minimalDenom maxCounter =
     (case after_last (CHR ''_'') minimalDenom of
        None \<Rightarrow> Inr maxCounter
      | Some sfx \<Rightarrow>
          (case ParseUint sfx of
             Inl _ \<Rightarrow> Inr maxCounter
           | Inr n \<Rightarrow> if NOT 0 - 1 \<le> n then Inl (GoPanic ''would saturate the token counter'')
               else Inr (if maxCounter < n + 1 then n + 1 else maxCounter)))"

definition genesis_token :: "('s, 'b, 'x) Keeper_scheme \<Rightarrow> Token \<Rightarrow> denom list \<times> u64 \<times> ('s, 'b) ctx \<Rightarrow>
    (denom list \<times> u64 \<times> ('s, 'b) ctx) res" where
  "genesis_token k token = (\<lambda>(seen, maxCounter, c).
     if tkMinimalDenom token = [] then Inl (GoPanic ''empty MinimalDenom'')
     else if tkMinimalDenom token \<in> set seen then Inl (GoPanic ''duplicate MinimalDenom'')
     else tryE (asErr (GoPanic ''SetToken'') (SetToken k token c)) (\<lambda>c1.
          tryE (genesis_counter (tkMinimalDenom token) maxCounter) (\<lambda>m.
          Inr (tkMinimalDenom token # seen, m, c1))))"

definition genesis_supply_check :: "('s, 'b, 'x) Keeper_scheme \<Rightarrow> ('s, 'b) ctx \<Rightarrow> Token \<Rightarrow> unit res" where
  "genesis_supply_check k c token =
     tryE (deref (tkTotalSupply token)) (\<lambda>total.
     failIf (bsupply (bankKeeper k) (bank c) (tkMinimalDenom token) \<noteq> total)
       (GoPanic ''genesis supply mismatch''))"

definition InitGenesis :: "('s, 'b, 'x) Keeper_scheme \<Rightarrow> Token list \<Rightarrow> ('s, 'b) ctx \<Rightarrow> ('s, 'b) ctx res" where
  "InitGenesis k tokens c =
     tryE (asErr (GoPanic ''invalid genesis params'') Params_Validate) (\<lambda>_.
     tryE (asErr (GoPanic ''SetParams'') (SetParams k c)) (\<lambda>c0.
     tryE (forE (genesis_token k) tokens ([], 0, c0)) (\<lambda>(_, maxCounter, c1).
     if maxCounter = 0 \<and> 0 < length tokens then Inl (GoPanic ''no parseable suffix'')
     else tryE (if 0 < maxCounter then SetTokenCounter k maxCounter c1 else Inr c1) (\<lambda>c2.
     tryE (forE (\<lambda>token _. genesis_supply_check k c2 token) tokens ()) (\<lambda>_. Inr c2)))))"

definition ExportGenesis :: "('s, 'b, 'x) Keeper_scheme \<Rightarrow> ('s, 'b) ctx \<Rightarrow> Token list" where
  "ExportGenesis k c = GetAllTokens k c"

section \<open>Import\<close>

definition as_stored :: "Token \<Rightarrow> Token" where
  "as_stored t = norm_token (t\<lparr>tkId := tkMinimalDenom t\<rparr>)"

lemma genesis_counter_eq:
  "genesis_counter (denom_of s w) m =
     (if - 2 \<le> w then Inl (GoPanic ''would saturate the token counter'') else Inr (max m (w + 1)))"
proof -
  have "after_last (CHR ''_'') (denom_of s w) = Some (FormatUint w)"
    unfolding denom_of_def using after_last_append [OF FormatUint_no_underscore] by simp
  then show ?thesis by (auto simp: genesis_counter_def max_def dest: less_imp_le)
qed

lemma token_id_same: "tkId t = d \<Longrightarrow> t\<lparr>tkId := d\<rparr> = t" for t :: Token
  by (cases t) simp

lemma word_less_succ_le: "w < v + 1 \<Longrightarrow> w \<le> v" for w v :: u64
  by (cases "v = - 1") (auto simp: word_less_nat_alt word_le_nat_alt unatSuc [of v] add.commute add_eq_0_iff)

lemma below_saturation: "\<not> - 2 \<le> w \<Longrightarrow> w < w + 1" for w :: u64
  by (rule word_less_succ) auto

context stoc_env
begin

lemma genesis_token_Inr:
  assumes ok: "store_ok k c" and run: "genesis_token k t (seen, m, c) = Inr (seen', m', c')"
  shows "store_ok k c' \<and> bank c' = bank c \<and> GetTokenCounter k c' = GetTokenCounter k c \<and> token_ok k t \<and>
    tkMinimalDenom t \<notin> set seen \<and> seen' = tkMinimalDenom t # seen \<and>
    GetToken k c' = (GetToken k c)(tkMinimalDenom t \<mapsto> as_stored t) \<and>
    (\<exists>w. tkMinimalDenom t = denom_of (tkSymbol t) w \<and> w < - 2 \<and> w < w + 1 \<and> m' = max m (w + 1))"
proof -
  from run obtain set: "SetToken k t c = Inr c'" and "tkMinimalDenom t \<notin> set seen"
    and "seen' = tkMinimalDenom t # seen" and cnt: "genesis_counter (tkMinimalDenom t) m = Inr m'"
    by (auto simp: genesis_token_def split: if_splits)
  moreover note s = SetToken_Inr [OF set]
  moreover obtain w where w: "tkMinimalDenom t = denom_of (tkSymbol t) w" using s(1) by (auto simp: token_ok_def)
  moreover have "w < - 2 \<and> w < w + 1 \<and> m' = max m (w + 1)"
    using cnt below_saturation [of w] by (auto simp: w genesis_counter_eq not_le split: if_splits)
  moreover have "GetToken k c' = (GetToken k c)(tkMinimalDenom t \<mapsto> as_stored t)"
    by (auto simp: fun_eq_iff s(4) as_stored_def)
  ultimately show ?thesis using SetToken_store_ok [OF set ok] by blast
qed

text \<open>The import loop; \<open>m'\<close> is the least counter above all imported ones and \<open>m\<close>.\<close>

lemma genesis_loop:
  assumes "forE (genesis_token k) ts (seen, m, c) = Inr (seen', m', c')" and "store_ok k c"
  shows "store_ok k c' \<and> bank c' = bank c \<and> GetTokenCounter k c' = GetTokenCounter k c \<and>
    distinct (map tkMinimalDenom ts) \<and> set seen \<inter> tkMinimalDenom ` set ts = {} \<and>
    (\<forall>t \<in> set ts. token_ok k t \<and> GetToken k c' (tkMinimalDenom t) = Some (as_stored t) \<and>
       (\<exists>w. tkMinimalDenom t = denom_of (tkSymbol t) w \<and> w < m')) \<and>
    (\<forall>d. d \<notin> tkMinimalDenom ` set ts \<longrightarrow> GetToken k c' d = GetToken k c d) \<and> m \<le> m' \<and>
    (m' = m \<or> (\<exists>t \<in> set ts. \<exists>w. tkMinimalDenom t = denom_of (tkSymbol t) w \<and> m' = w + 1))"
  using assms
proof (induction ts arbitrary: seen m c)
  case Nil
  then show ?case by auto
next
  case (Cons t ts)
  then obtain seen1 m1 c1 where one: "genesis_token k t (seen, m, c) = Inr (seen1, m1, c1)"
    and rest: "forE (genesis_token k) ts (seen1, m1, c1) = Inr (seen', m', c')" by auto
  from genesis_token_Inr [OF Cons.prems(2) one] obtain w where 1: "store_ok k c1" "bank c1 = bank c"
    "GetTokenCounter k c1 = GetTokenCounter k c" "token_ok k t" "tkMinimalDenom t \<notin> set seen"
    "seen1 = tkMinimalDenom t # seen" "GetToken k c1 = (GetToken k c)(tkMinimalDenom t \<mapsto> as_stored t)"
    and w: "tkMinimalDenom t = denom_of (tkSymbol t) w" "w < w + 1" "m1 = max m (w + 1)" by blast
  note IH = Cons.IH [OF rest 1(1)]
  have "w < m'" using IH w(2,3) by (auto simp: max_def split: if_splits)
  moreover have "m \<le> m'" using IH w(3) by (auto simp: max_def split: if_splits)
  moreover have "m' = m \<or> (\<exists>u \<in> set (t # ts). \<exists>w. tkMinimalDenom u = denom_of (tkSymbol u) w \<and> m' = w + 1)"
    using IH w(1,3) by (auto simp: max_def split: if_splits)
  ultimately show ?case using IH 1 w(1) by auto
qed

lemma InitGenesis_Inr:
  assumes ok: "store_ok k c" and none: "\<And>d. GetToken k c d = None" and zero: "GetTokenCounter k c = Inr 0"
    and run: "InitGenesis k ts c = Inr c'"
  shows "store_ok k c' \<and> bank c' = bank c \<and> distinct (map tkMinimalDenom ts) \<and>
    (\<forall>t \<in> set ts. token_ok k t \<and> GetToken k c' (tkMinimalDenom t) = Some (as_stored t) \<and>
       tkTotalSupply t = Some (sup_of k c' (tkMinimalDenom t))) \<and>
    (\<forall>d. d \<notin> tkMinimalDenom ` set ts \<longrightarrow> GetToken k c' d = None) \<and>
    (\<exists>n. GetTokenCounter k c' = Inr n \<and>
       (\<forall>t \<in> set ts. \<exists>w. tkMinimalDenom t = denom_of (tkSymbol t) w \<and> w < n) \<and>
       (n = 0 \<or> (\<exists>t \<in> set ts. \<exists>w. tkMinimalDenom t = denom_of (tkSymbol t) w \<and> n = w + 1)))"
proof -
  from run obtain c0 seen m c1 where p: "SetParams k c = Inr c0"
    and loop: "forE (genesis_token k) ts ([], 0, c0) = Inr (seen, m, c1)"
    and c2: "(if 0 < m then SetTokenCounter k m c1 else Inr c1) = Inr c'"
    and sup: "\<forall>t \<in> set ts. genesis_supply_check k c' t = Inr ()"
    by (auto simp: InitGenesis_def Params_Validate_def forE_check split: if_splits)
  note q = SetParams_Inr [OF p]
  note L = genesis_loop [OF loop SetParams_store_ok [OF p ok]]
  have c': "store_ok k c' \<and> bank c' = bank c1 \<and> GetToken k c' = GetToken k c1 \<and> GetTokenCounter k c' = Inr m"
  proof (cases "0 < m")
    case True
    with c2 have "SetTokenCounter k m c1 = Inr c'" by simp
    with SetTokenCounter_Inr [OF this] SetTokenCounter_store_ok [OF this] L show ?thesis by (auto simp: fun_eq_iff)
  next
    case False
    then have "m = 0" by (simp add: word_gt_0)
    with c2 L zero q show ?thesis by simp
  qed
  moreover have "\<forall>t \<in> set ts. tkTotalSupply t = Some (sup_of k c' (tkMinimalDenom t))"
    using sup by (auto simp: genesis_supply_check_def)
  ultimately show ?thesis using L q none by auto
qed

lemma InitGenesis_supply_inv:
  assumes ok: "store_ok k c" and none: "\<And>d. GetToken k c d = None" and zero: "GetTokenCounter k c = Inr 0"
    and run: "InitGenesis k ts c = Inr c'" and wf: "wfb (bank c)"
    and reserve: "\<And>t. t \<in> set ts \<Longrightarrow>
      bal_of k c (modAddr k) (tkMinimalDenom t) = (case tkRemainingSupply t of None \<Rightarrow> 0 | Some r \<Rightarrow> r)"
    and unused: "\<And>smb w. TokenSymbolRegex smb \<Longrightarrow> denom_of smb w \<notin> tkMinimalDenom ` set ts \<Longrightarrow>
      sup_of k c (denom_of smb w) = 0 \<and> bal_of k c (modAddr k) (denom_of smb w) = 0"
  shows "supply_inv k wfb c'"
proof -
  from InitGenesis_Inr [OF ok none zero run] obtain n where I: "store_ok k c'" "bank c' = bank c"
    "\<forall>t \<in> set ts. token_ok k t \<and> GetToken k c' (tkMinimalDenom t) = Some (as_stored t) \<and>
       tkTotalSupply t = Some (sup_of k c' (tkMinimalDenom t))"
    "\<forall>d. d \<notin> tkMinimalDenom ` set ts \<longrightarrow> GetToken k c' d = None"
    and n: "GetTokenCounter k c' = Inr n" "\<forall>t \<in> set ts. \<exists>w. tkMinimalDenom t = denom_of (tkSymbol t) w \<and> w < n"
    by blast
  have "books_ok k c'"
    unfolding books_ok_def
  proof (intro allI impI)
    fix d t assume g: "GetToken k c' d = Some t"
    with I(4) obtain u where "u \<in> set ts" "d = tkMinimalDenom u" by force
    with g I(2,3) reserve show "tkTotalSupply t = Some (sup_of k c' d) \<and>
        tkRemainingSupply t = Some (bal_of k c' (modAddr k) d)"
      by (auto simp: as_stored_def split: option.splits)
  qed
  moreover have "fresh_ok k c'"
    unfolding fresh_ok_def
  proof (intro allI impI)
    fix n' smb w assume "GetTokenCounter k c' = Inr n'" and smb: "TokenSymbolRegex smb" and "n' \<le> w"
    then have "n \<le> w" using n(1) by simp
    have "denom_of smb w \<notin> tkMinimalDenom ` set ts"
    proof
      assume "denom_of smb w \<in> tkMinimalDenom ` set ts"
      then obtain t v where t: "t \<in> set ts" and v: "denom_of smb w = denom_of (tkSymbol t) v" "v < n"
        using n(2) by (metis imageE)
      moreover have "TokenSymbolRegex (tkSymbol t)" using I(3) t by (simp add: token_ok_def)
      ultimately show False using \<open>n \<le> w\<close> denom_of_inject [OF smb] by auto
    qed
    with unused [OF smb] I(2,4) show "GetToken k c' (denom_of smb w) = None \<and>
        sup_of k c' (denom_of smb w) = 0 \<and> bal_of k c' (modAddr k) (denom_of smb w) = 0" by simp
  qed
  ultimately show ?thesis using I(1,2) wf by (simp add: supply_inv_def)
qed

end

section \<open>Export\<close>

text \<open>Every stored token passes the persistence check and can be encoded.\<close>

definition all_valid :: "('s, 'b, 'x) Keeper_scheme \<Rightarrow> ('s, 'b) ctx \<Rightarrow> bool" where
  "all_valid k c \<longleftrightarrow> (\<forall>d t. GetToken k c d = Some t \<longrightarrow> token_ok k t \<and> fits256 (tkInitialSupply t))"

lemma MaxTokenSupply_fits: "0 \<le> v \<Longrightarrow> v \<le> MaxTokenSupply \<Longrightarrow> fits256 (Some v)"
  by (simp add: fits256_def MaxTokenSupply_def)

lemma token_ok_fits:
  assumes "token_ok K t" and "fits256 (tkInitialSupply t)"
  shows "token_fits t"
proof -
  have "fits256 (txPercent (tkTax t))"
    using assms(1) by (cases "txPercent (tkTax t)") (auto simp: token_ok_def tax_ok_def MaxTaxPercent_def fits256_def)
  moreover have "fits256 (tkTotalSupply t)" "fits256 (tkRemainingSupply t)"
    using assms(1) by (cases "tkRemainingSupply t"; auto simp: token_ok_def fits256_def MaxTokenSupply_def)+
  ultimately show ?thesis using assms(2) by (simp add: token_fits_def)
qed

context stoc_env
begin

lemma step_all_valid:
  assumes "stoc_step k wfb c c'" and "supply_inv k wfb c" and "all_valid k c"
  shows "all_valid k c'"
  using assms
proof (induction rule: stoc_step.induct)
  case (create m c r c')
  from CreateToken_Inr [OF create(2,1)] obtain d t I where
    "GetToken k c' = (GetToken k c)(d \<mapsto> t)" "token_ok k t" "tkInitialSupply t = Some I"
    "0 \<le> I" "I \<le> MaxTokenSupply" by force
  with create(3) show ?case by (auto simp: all_valid_def MaxTokenSupply_fits split: if_splits)
next
  case (mint m c c')
  then obtain e cr where "MintToken k cr e (mmAmount m) c = Inr c'"
    using MintTokens_Inr [OF mint(2,1)] by blast
  from MintToken_Inr [OF mint(2) this] mint(3) show ?case by (auto simp: all_valid_def split: if_splits)
next
  case (burn m c r c')
  from BurnToken_Inr [OF burn(3,1,2)] burn(4) show ?case
    by (auto simp: all_valid_def split: if_splits option.splits)
next
  case (release m c r c')
  from ReleaseTokens_Inr [OF release(2,1)] obtain u R where f: "FindToken k c (mrSymbol m) = Inr u"
    and ok: "token_ok k (u\<lparr>tkRemainingSupply := Some R\<rparr>)"
    and g: "GetToken k c' = (GetToken k c)(tkMinimalDenom u \<mapsto> u\<lparr>tkRemainingSupply := Some R\<rparr>)" by blast
  have "GetToken k c (tkMinimalDenom u) = Some u"
    using FindToken_Inr(1) [OF _ f] release(2) by (simp add: supply_inv_def)
  with g ok release(3) show ?case by (auto simp: all_valid_def split: if_splits)
next
  case (params m c c') with UpdateParams_Inr [OF params(1)] show ?case by (simp add: all_valid_def)
next
  case (env c' c) then show ?case by (simp add: all_valid_def store_views [OF env(1)])
qed

lemma steps_all_valid:
  "(stoc_step k wfb)\<^sup>*\<^sup>* c c' \<Longrightarrow> supply_inv k wfb c \<Longrightarrow> all_valid k c \<Longrightarrow> all_valid k c'"
  by (induction rule: rtranclp_induct) (use steps_supply_inv step_all_valid in blast)+

end

text \<open>The counter is one above the counter of some token, or zero.\<close>

definition counter_tight :: "('s, 'b, 'x) Keeper_scheme \<Rightarrow> ('s, 'b) ctx \<Rightarrow> bool" where
  "counter_tight k c \<longleftrightarrow> (\<forall>n. GetTokenCounter k c = Inr n \<longrightarrow> n = 0 \<or>
     (\<exists>t w. GetToken k c (denom_of (tkSymbol t) w) = Some t \<and> n = w + 1))"

lemma counter_tight_keep:
  assumes "counter_tight k c" and "GetTokenCounter k c' = GetTokenCounter k c"
    and "\<And>d t. GetToken k c d = Some t \<Longrightarrow> \<exists>t'. GetToken k c' d = Some t' \<and> tkSymbol t' = tkSymbol t"
  shows "counter_tight k c'"
  using assms unfolding counter_tight_def by metis

context stoc_env
begin

lemma step_counter_tight:
  assumes step: "stoc_step k wfb c c'" and inv: "supply_inv k wfb c" and tight: "counter_tight k c"
  shows "counter_tight k c'"
proof -
  have sym: "\<exists>t'. GetToken k c' d = Some t' \<and> tkSymbol t' = tkSymbol t" if "GetToken k c d = Some t" for d t
    using step_config [OF step inv that] by (metis config_symbol)
  have keep: "GetTokenCounter k c' = GetTokenCounter k c \<Longrightarrow> ?thesis"
    using counter_tight_keep [OF tight _ sym] by blast
  show ?thesis using step
  proof (cases rule: stoc_step.cases)
    case (create m r)
    from CreateToken_Inr [OF inv create] obtain n t where "GetTokenCounter k c' = Inr (n + 1)"
      and "GetToken k c' = (GetToken k c)(denom_of (mcSymbol m) n \<mapsto> t)" "tkSymbol t = mcSymbol m" by blast
    then have "GetToken k c' (denom_of (tkSymbol t) n) = Some t" by simp
    with \<open>GetTokenCounter k c' = Inr (n + 1)\<close> show ?thesis unfolding counter_tight_def by auto
  next
    case (mint m)
    then obtain e cr where "MintToken k cr e (mmAmount m) c = Inr c'" using MintTokens_Inr [OF inv mint] by blast
    from MintToken_Inr [OF inv this] keep show ?thesis by blast
  next
    case (burn m r) from BurnToken_Inr [OF inv burn] keep show ?thesis by blast
  next
    case (release m r) from ReleaseTokens_Inr [OF inv release] keep show ?thesis by blast
  next
    case (params m) from UpdateParams_Inr [OF params] keep show ?thesis by blast
  next
    case env with keep show ?thesis by (simp add: store_views [OF env(1)])
  qed
qed

lemma steps_counter_tight:
  "(stoc_step k wfb)\<^sup>*\<^sup>* c c' \<Longrightarrow> supply_inv k wfb c \<Longrightarrow> counter_tight k c \<Longrightarrow> counter_tight k c'"
  by (induction rule: rtranclp_induct) (use steps_supply_inv step_counter_tight in blast)+

lemma SetToken_total:
  assumes "token_ok k t" and "token_fits t"
  shows "\<exists>c'. SetToken k t c = Inr c'"
proof -
  have "token_fits (t\<lparr>tkId := tkMinimalDenom t\<rparr>)" using assms(2) by (simp add: token_fits_def)
  from Marshal_total [OF this] assms(1) show ?thesis
    by (auto simp: SetToken_def Let_def ValidateState_correct [THEN iffD2])
qed

lemma genesis_loop_total:
  assumes "\<And>t. t \<in> set ts \<Longrightarrow> token_ok k t \<and> token_fits t \<and>
      (\<exists>w. tkMinimalDenom t = denom_of (tkSymbol t) w \<and> w < - 2)"
    and "distinct (map tkMinimalDenom ts)" and "set seen \<inter> tkMinimalDenom ` set ts = {}"
  shows "\<exists>r. forE (genesis_token k) ts (seen, m, c) = Inr r"
  using assms
proof (induction ts arbitrary: seen m c)
  case Nil
  then show ?case by simp
next
  case (Cons t ts)
  from Cons.prems(1) [of t] obtain w where "token_ok k t" "token_fits t"
    and w: "tkMinimalDenom t = denom_of (tkSymbol t) w" "w < - 2" by auto
  then obtain c1 where "SetToken k t c = Inr c1" using SetToken_total by blast
  moreover have "genesis_counter (tkMinimalDenom t) m = Inr (max m (w + 1))"
    using w by (simp add: genesis_counter_eq)
  ultimately have "genesis_token k t (seen, m, c) = Inr (tkMinimalDenom t # seen, max m (w + 1), c1)"
    using Cons.prems(3) w by (simp add: genesis_token_def)
  with Cons.IH [of "tkMinimalDenom t # seen" "max m (w + 1)" c1] Cons.prems show ?case by auto
qed

text \<open>Importing an export.\<close>

lemma export_import:
  assumes inv: "supply_inv k wfb c" and val: "all_valid k c" and tight: "counter_tight k c"
    and n: "GetTokenCounter k c = Inr n" "n \<le> - 2"
    and c0: "store_ok k c0" "\<And>d. GetToken k c0 d = None" "GetTokenCounter k c0 = Inr 0" "bank c0 = bank c"
  shows "\<exists>c'. InitGenesis k (ExportGenesis k c) c0 = Inr c' \<and> GetToken k c' = GetToken k c \<and>
    GetTokenCounter k c' = Inr n \<and> bank c' = bank c \<and> supply_inv k wfb c'"
proof -
  let ?ts = "GetAllTokens k c"
  have ok: "store_ok k c" and books: "books_ok k c" and fresh: "fresh_ok k c" and wf: "wfb (bank c)"
    using inv by (auto simp: supply_inv_def)
  note mem = GetAllTokens_set [OF ok]
  have st: "stored_ok k (tkMinimalDenom t) t" if "t \<in> set ?ts" for t
    using store_okD [OF ok] that by (simp add: mem)
  have low: "w < n" if t: "t \<in> set ?ts" and w: "tkMinimalDenom t = denom_of (tkSymbol t) w" for t w
  proof (rule ccontr)
    assume "\<not> w < n"
    moreover have "TokenSymbolRegex (tkSymbol t)" using st [OF t] by (simp add: stored_ok_def)
    ultimately have "GetToken k c (denom_of (tkSymbol t) w) = None"
      using fresh n(1) unfolding fresh_ok_def by (simp add: not_less)
    with t w show False by (simp add: mem)
  qed
  have each: "token_ok k t \<and> token_fits t \<and> (\<exists>w. tkMinimalDenom t = denom_of (tkSymbol t) w \<and> w < - 2)"
    if t: "t \<in> set ?ts" for t
  proof -
    have "token_ok k t \<and> fits256 (tkInitialSupply t)" using val t by (auto simp: mem all_valid_def)
    moreover obtain w where "tkMinimalDenom t = denom_of (tkSymbol t) w"
      using st [OF t] by (auto simp: stored_ok_def)
    ultimately show ?thesis using low [OF t] n(2) token_ok_fits by (meson order_less_le_trans)
  qed
  have dist: "distinct (map tkMinimalDenom ?ts)"
    using GetAllTokens_sorted [OF ok] strict_sorted_iff by blast
  obtain cp where p: "SetParams k c0 = Inr cp" by (simp add: SetParams_def)
  from genesis_loop_total [OF each dist, of "[]" 0 cp] obtain seen m c1
    where loop: "forE (genesis_token k) ?ts ([], 0, cp) = Inr (seen, m, c1)" by auto
  note L = genesis_loop [OF loop SetParams_store_ok [OF p c0(1)]]
  have "m = 0 \<Longrightarrow> ?ts = []" using L by (cases ?ts) auto
  moreover obtain c2 where c2: "(if 0 < m then SetTokenCounter k m c1 else Inr c1) = Inr c2"
    by (cases "0 < m") (auto simp: SetTokenCounter_def)
  moreover have "bank c2 = bank c1" using c2 by (auto simp: SetTokenCounter_def split: if_splits)
  then have "\<forall>t \<in> set ?ts. genesis_supply_check k c2 t = Inr ()"
    using books L SetParams_Inr(1) [OF p] c0(4) by (auto simp: mem books_ok_def genesis_supply_check_def)
  ultimately have run: "InitGenesis k ?ts c0 = Inr c2"
    using p loop by (simp add: InitGenesis_def Params_Validate_def forE_check)
  note I = InitGenesis_Inr [OF c0(1-3) run]
  have id: "as_stored t = t" if "t \<in> set ?ts" for t
    using st [OF that] by (simp add: as_stored_def stored_ok_def token_id_same)
  have same: "GetToken k c2 d = GetToken k c d" for d
  proof (cases "GetToken k c d")
    case None
    then have "d \<notin> tkMinimalDenom ` set ?ts" by (auto simp: mem)
    with I None show ?thesis by simp
  next
    case (Some t)
    moreover then have "tkMinimalDenom t = d" using store_okD [OF ok] by (auto simp: stored_ok_def)
    ultimately have "t \<in> set ?ts" "tkMinimalDenom t = d" by (auto simp: mem)
    with I id Some show ?thesis by auto
  qed
  obtain n' where n': "GetTokenCounter k c2 = Inr n'"
    "\<forall>t \<in> set ?ts. \<exists>w. tkMinimalDenom t = denom_of (tkSymbol t) w \<and> w < n'"
    "n' = 0 \<or> (\<exists>t \<in> set ?ts. \<exists>w. tkMinimalDenom t = denom_of (tkSymbol t) w \<and> n' = w + 1)"
    using I by blast
  have "n' = n"
  proof (cases "?ts = []")
    case True
    then have "GetToken k c d \<noteq> Some t" for d t
      using store_okD [OF ok, of d t] mem [of t] by (auto simp: stored_ok_def)
    with tight n(1) have "n = 0" by (auto simp: counter_tight_def)
    with True n'(3) show ?thesis by simp
  next
    case False
    then obtain t0 where "t0 \<in> set ?ts" by (meson list.set_sel(1))
    with n'(2,3) obtain t' w' where t': "t' \<in> set ?ts" "tkMinimalDenom t' = denom_of (tkSymbol t') w'" "n' = w' + 1"
      by (metis word_not_simps(1))
    with low have "w' < n" by blast
    with tight n(1) obtain t w where tw: "GetToken k c (denom_of (tkSymbol t) w) = Some t" "n = w + 1"
      unfolding counter_tight_def by (metis word_not_simps(1))
    then have t: "t \<in> set ?ts" "tkMinimalDenom t = denom_of (tkSymbol t) w"
      using store_okD [OF ok tw(1)] by (auto simp: mem stored_ok_def)
    then have "w < n'" using n'(2) st [OF t(1)] denom_of_inject by (metis stored_ok_def)
    with \<open>w' < n\<close> tw(2) t'(3) show ?thesis using word_less_succ_le by (metis order_antisym)
  qed
  moreover have "supply_inv k wfb c2"
    using I same n n' \<open>n' = n\<close> books fresh wf c0(4) by (auto simp: supply_inv_def books_ok_def fresh_ok_def)
  ultimately show ?thesis
    using run I same n' c0(4) by (intro exI [of _ c2]) (auto simp: ExportGenesis_def fun_eq_iff)
qed

end

section \<open>Theorems\<close>

lemma genesis_validate_loop:
  "(\<exists>seen'. forE (\<lambda>token seen. tryE (ValidateState K token) (\<lambda>_.
       if tkMinimalDenom token \<in> set seen then Inl (Errorf ''duplicate token MinimalDenom'')
       else Inr (tkMinimalDenom token # seen))) ts seen = Inr seen') \<longleftrightarrow>
   (\<forall>t \<in> set ts. token_ok K t) \<and> distinct (map tkMinimalDenom ts) \<and> set seen \<inter> tkMinimalDenom ` set ts = {}"
proof (induction ts arbitrary: seen)
  case Nil
  then show ?case by simp
next
  case (Cons t ts)
  show ?case
  proof (cases "ValidateState K t = Inr () \<and> tkMinimalDenom t \<notin> set seen")
    case True
    with Cons.IH [of "tkMinimalDenom t # seen"] show ?thesis by (auto simp: ValidateState_correct)
  next
    case False
    then show ?thesis by (cases "ValidateState K t") (auto simp flip: ValidateState_correct)
  qed
qed

text \<open>
  \<open>GenesisState.Validate\<close> accepts a list of tokens exactly when every token is well formed and
  no two have the same minimal denomination.
\<close>

theorem GenesisState_Validate_correct:
  "GenesisState_Validate K ts = Inr () \<longleftrightarrow> list_all (token_ok K) ts \<and> distinct (map tkMinimalDenom ts)"
  using genesis_validate_loop [of K ts "[]"]
  by (simp add: GenesisState_Validate_def Params_Validate_def list_all_iff)

text \<open>Genesis import establishes the supply invariant. When \<open>InitGenesis\<close> does not panic on a store
  with no tokens, every imported token is stored, the counter is above all of them and the bank
  supplies agree with the tracked totals; if moreover the module account holds the tracked reserves
  (which the import does not check) and no other denomination of that shape is in circulation,
  the invariant of the message handlers holds.
\<close>

theorem InitGenesis_establishes:
  assumes "stoc_env k wfb" and "store_ok k c" and "\<forall>d. GetToken k c d = None"
    and "GetTokenCounter k c = Inr 0" and "wfb (bank c)" and "InitGenesis k ts c = Inr c'"
    and "\<forall>t \<in> set ts. bal_of k c (modAddr k) (tkMinimalDenom t)
           = (case tkRemainingSupply t of None \<Rightarrow> 0 | Some r \<Rightarrow> r)"
    and "\<forall>smb w. TokenSymbolRegex smb \<longrightarrow> denom_of smb w \<notin> tkMinimalDenom ` set ts \<longrightarrow>
           sup_of k c (denom_of smb w) = 0 \<and> bal_of k c (modAddr k) (denom_of smb w) = 0"
  shows "supply_inv k wfb c' \<and> (\<forall>t \<in> set ts. GetToken k c' (tkMinimalDenom t) = Some (as_stored t)) \<and>
    (\<forall>d. d \<notin> tkMinimalDenom ` set ts \<longrightarrow> GetToken k c' d = None)"
  using stoc_env.InitGenesis_supply_inv [OF assms(1,2) _ assms(4,6,5)]
    stoc_env.InitGenesis_Inr [OF assms(1,2) _ assms(4,6)] assms(3,7,8) by simp

definition issued_ledger :: ledger where
  "issued_ledger = empty_ledger\<lparr>lgBal := (\<lambda>a d. if a = ''alice'' \<and> d = ''AB_7'' then 1 else 0),
     lgSupply := (\<lambda>d. if d = ''AB_7'' then 1 else 0)\<rparr>"

lemma AB_7: "''AB_7'' = denom_of ''AB'' 7" "TokenSymbolRegex ''AB''"
  by code_simp+

theorem InitGenesis_establishes_witness:
  "\<exists>c'. InitGenesis ref_k [demo_token] (empty_ctx\<lparr>bank := issued_ledger\<rparr>) = Inr c' \<and>
     supply_inv ref_k ledger_ok c'"
proof -
  let ?c = "empty_ctx\<lparr>bank := issued_ledger\<rparr>"
  have "\<not> isl (InitGenesis ref_k [demo_token] ?c)" by code_simp
  then obtain c' where run: "InitGenesis ref_k [demo_token] ?c = Inr c'"
    by (cases "InitGenesis ref_k [demo_token] ?c") auto
  have "store_ok ref_k ?c" using empty_ctx_ok by simp
  moreover have "\<forall>d. GetToken ref_k ?c d = None"
    by (simp add: GetToken_def ref_k_def empty_ctx_def ref_kv_def)
  moreover have "GetTokenCounter ref_k ?c = Inr 0" by code_simp
  moreover have "ledger_ok (bank ?c)" by (simp add: ledger_ok_def issued_ledger_def empty_ledger_def)
  moreover have "\<forall>t \<in> set [demo_token]. bal_of ref_k ?c (modAddr ref_k) (tkMinimalDenom t)
           = (case tkRemainingSupply t of None \<Rightarrow> 0 | Some r \<Rightarrow> r)"
    by (simp add: demo_token_def ref_k_def ref_bank_def issued_ledger_def)
  moreover have "\<forall>smb w. TokenSymbolRegex smb \<longrightarrow> denom_of smb w \<notin> tkMinimalDenom ` set [demo_token] \<longrightarrow>
           sup_of ref_k ?c (denom_of smb w) = 0 \<and> bal_of ref_k ?c (modAddr ref_k) (denom_of smb w) = 0"
    by (auto simp: demo_token_def ref_k_def ref_bank_def issued_ledger_def)
  ultimately have "supply_inv ref_k ledger_ok c'"
    using InitGenesis_establishes [OF refenv.stoc_env_axioms _ _ _ _ run] by blast
  with run show ?thesis by blast
qed

text \<open>
  C28. Exporting and importing again loses nothing. Take any state reached from one that satisfies the
  invariants, with the counter not within one of saturation. Its export passes the validation of genesis states, and
  importing it into an empty store next to the same bank succeeds, and gives the same tokens, the same counter (which is not
  part of the exported state) and again the supply invariant.
\<close>

theorem export_import_roundtrip:
  assumes "stoc_env k wfb" and "supply_inv k wfb ci" and "all_valid k ci" and "counter_tight k ci"
    and "(stoc_step k wfb)\<^sup>*\<^sup>* ci c" and "GetTokenCounter k c = Inr n" and "n \<le> - 2"
    and "store_ok k c0" and "\<forall>d. GetToken k c0 d = None" and "GetTokenCounter k c0 = Inr 0"
    and "bank c0 = bank c"
  shows "GenesisState_Validate k (ExportGenesis k c) = Inr () \<and>
    (\<exists>c'. InitGenesis k (ExportGenesis k c) c0 = Inr c' \<and> GetToken k c' = GetToken k c \<and>
      GetTokenCounter k c' = Inr n \<and> bank c' = bank c \<and> supply_inv k wfb c')"
proof -
  have inv: "supply_inv k wfb c" "all_valid k c"
    by (rule stoc_env.steps_supply_inv [OF assms(1,5,2)], rule stoc_env.steps_all_valid [OF assms(1,5,2,3)])
  then have ok: "store_ok k c" by (simp add: supply_inv_def)
  have "list_all (token_ok k) (ExportGenesis k c)"
    using inv(2) stoc_env.GetAllTokens_set [OF assms(1) ok] by (auto simp: ExportGenesis_def list_all_iff all_valid_def)
  moreover have "distinct (map tkMinimalDenom (ExportGenesis k c))"
    using stoc_env.GetAllTokens_sorted [OF assms(1) ok] strict_sorted_iff by (auto simp: ExportGenesis_def)
  ultimately have "GenesisState_Validate k (ExportGenesis k c) = Inr ()" by (simp add: GenesisState_Validate_correct)
  with stoc_env.export_import [OF assms(1) inv stoc_env.steps_counter_tight [OF assms(1,5,2,4)] assms(6-8) _ assms(10,11)] assms(9)
  show ?thesis by blast
qed

theorem export_import_roundtrip_witness:
  "GenesisState_Validate ref_k (ExportGenesis ref_k demo1) = Inr () \<and>
   (\<exists>c'. InitGenesis ref_k (ExportGenesis ref_k demo1) (empty_ctx\<lparr>bank := bank demo1\<rparr>) = Inr c' \<and>
     GetToken ref_k c' = GetToken ref_k demo1)"
proof -
  have none: "GetToken ref_k empty_ctx d = None" for d
    by (simp add: GetToken_def ref_k_def empty_ctx_def ref_kv_def)
  have "all_valid ref_k empty_ctx" by (simp add: all_valid_def none)
  moreover have zero: "GetTokenCounter ref_k empty_ctx = Inr 0" by code_simp
  then have "counter_tight ref_k empty_ctx" by (simp add: counter_tight_def)
  moreover have "(stoc_step ref_k ledger_ok)\<^sup>*\<^sup>* empty_ctx demo1" using demo1_run stoc_step.create by blast
  moreover have "GetTokenCounter ref_k demo1 = Inr 1" by code_simp
  moreover have "(1 :: u64) \<le> - 2" by code_simp
  ultimately show ?thesis
    using export_import_roundtrip [OF refenv.stoc_env_axioms empty_supply_inv, of demo1 1
        "empty_ctx\<lparr>bank := bank demo1\<rparr>"] none zero empty_ctx_ok by fastforce
qed

end
