(* ===== verification/Tax_Post.thy ===== *)
theory Tax_Post
  imports Ante_Restrictions Token_Genesis
begin

text \<open>
  The post handler that collects the transfer tax (\<^verbatim>\<open>x/stoc/ante/tax_post.go\<close>). After the messages
  of a transaction ran, it walks them again, through authz executions, and for every coin of a
  taxed token moves the tax from the recipient of the transfer to the token's tax recipient.

  The body of the loop over coins, \<open>applyTax_coin\<close>, follows the source in three parts: which
  transfers are exempt, how much the tax is (\<open>taxAmount\<close>), and the transfer of the tax
  (\<open>collectTax\<close>), whose failure is ignored. \<open>tax_dues\<close> lists what the executed transfers owe, without the walk,
  and \<open>settle\<close> pays one entry as far as the bank lets it: the handler leaves exactly the bank that settling the list leaves.
\<close>

definition MaxMultiSendOutputs :: nat where "MaxMultiSendOutputs = 50"

section \<open>Operations\<close>

definition taxAmount :: "'x sdk_scheme \<Rightarrow> int \<Rightarrow> dec \<Rightarrow> int res" where
  "taxAmount K amount percent =
     (let taxPercent = (if MaxTaxPercent < percent then MaxTaxPercent else percent);
          tax1 = Dec_TruncateInt K (Dec_Mul K (Dec_FromInt K amount) taxPercent);
          tax2 = (if tax1 = 0 then 1 else tax1);
          halfAmount = IntQuo amount 2;
          tax3 = (if halfAmount < tax2 then halfAmount else tax2);
          tax4 = (if amount - tax3 < 1 then amount - 1 else tax3)
      in if tax4 = 0 then Inl (Errorf ''tax computation collapsed to zero'') else Inr tax4)"

definition collectTax :: "('s, 'b, 'x) Keeper_scheme \<Rightarrow> Token \<Rightarrow> denom \<Rightarrow> addr \<Rightarrow> addr \<Rightarrow> int \<Rightarrow>
    ('s, 'b) ctx \<Rightarrow> ('s, 'b) ctx res" where
  "collectTax k token d recipientAddr taxRecipientAddr amount c =
     tryE (one_coin k d amount) (\<lambda>coins.
     case SendCoins (bankKeeper k) (bank c) recipientAddr taxRecipientAddr coins of
       Inl _ \<Rightarrow> Inr c
     | Inr b \<Rightarrow> Inr (EmitEvent (Event ''token_tax_applied''
          [(''token_denom'', d), (''token_symbol'', tkSymbol token), (''tax_amount'', show_int amount),
           (''recipient'', AccAddress_String k recipientAddr),
           (''tax_recipient'', AccAddress_String k taxRecipientAddr)]) (c\<lparr>bank := b\<rparr>)))"

definition applyTax_coin :: "('s, 'b, 'x) Keeper_scheme \<Rightarrow> string \<Rightarrow> addr \<Rightarrow> coin \<Rightarrow> ('s, 'b) ctx \<Rightarrow>
    ('s, 'b) ctx res" where
  "applyTax_coin k senderCanonical recipientAddr coin c =
     (if IsNativeDenom k (Denom coin) then Inr c
      else case GetToken k c (Denom coin) of None \<Rightarrow> Inr c
      | Some token \<Rightarrow>
        if nilOr (txPercent (tkTax token)) (\<lambda>p. p = 0) \<or> txRecipientAddress (tkTax token) = [] then Inr c
        else tryE (asErr (Errorf ''malformed Tax.RecipientAddress'')
               (AccAddressFromBech32 k (txRecipientAddress (tkTax token)))) (\<lambda>taxRecipientAddr.
        let taxRecipientCanonical = AccAddress_String k taxRecipientAddr in
        if senderCanonical = taxRecipientCanonical
        then Inr (EmitEvent (Event ''tax_skipped_creator_send''
               [(''denom'', Denom coin), (''symbol'', tkSymbol token), (''amount'', show_int (Amount coin)),
                (''sender'', senderCanonical), (''tax_recipient'', taxRecipientCanonical),
                (''reason'', ''sender_is_tax_recipient'')]) c)
        else if AccAddress_String k recipientAddr = taxRecipientCanonical then Inr c
        else if nilOr (txPercent (tkTax token)) (\<lambda>p. p < 0) then Inr c
        else if Amount coin = 0 then Inr c
        else if Amount coin \<le> 1 then Inl (Errorf ''below minimum taxable amount'')
        else tryE (deref (txPercent (tkTax token))) (\<lambda>percent.
             tryE (taxAmount k (Amount coin) percent) (\<lambda>tax.
             collectTax k token (Denom coin) recipientAddr taxRecipientAddr tax c))))"

definition applyTaxForRecipientCanonical :: "('s, 'b, 'x) Keeper_scheme \<Rightarrow> string \<Rightarrow> string \<Rightarrow> coins \<Rightarrow>
    ('s, 'b) ctx \<Rightarrow> ('s, 'b) ctx res" where
  "applyTaxForRecipientCanonical k senderCanonical recipientAddress coins c =
     tryE (asErr (Errorf ''invalid recipient address'') (AccAddressFromBech32 k recipientAddress))
       (\<lambda>recipientAddr. forE (applyTax_coin k senderCanonical recipientAddr) coins c)"

definition applyTaxForRecipient :: "('s, 'b, 'x) Keeper_scheme \<Rightarrow> string \<Rightarrow> string \<Rightarrow> coins \<Rightarrow>
    ('s, 'b) ctx \<Rightarrow> ('s, 'b) ctx res" where
  "applyTaxForRecipient k senderAddress recipientAddress coins c =
     tryE (asErr (Errorf ''invalid sender address'') (AccAddressFromBech32 k senderAddress))
       (\<lambda>sender. applyTaxForRecipientCanonical k (AccAddress_String k sender) recipientAddress coins c)"

function applyTaxesForMsgs :: "('s, 'b, 'x) Keeper_scheme \<Rightarrow> ('a, 'z) msg_api_scheme \<Rightarrow> nat \<Rightarrow>
    'a sdk_msg list \<Rightarrow> ('s, 'b) ctx \<Rightarrow> ('s, 'b) ctx res" where
  "applyTaxesForMsgs k A depth msgs c = forE (\<lambda>msg c.
     (case msg of
        MsgSend from to amount \<Rightarrow> applyTaxForRecipient k from to amount c
      | MsgMultiSend inputs outputs \<Rightarrow>
          if MaxMultiSendOutputs < length inputs then Inl (Errorf ''too many inputs'')
          else if MaxMultiSendOutputs < length outputs then Inl (Errorf ''too many outputs'')
          else if length inputs \<noteq> 1 then Inl (Errorf ''single-input only'')
          else tryE (asErr (Errorf ''invalid sender address'') (AccAddressFromBech32 k (fst (inputs ! 0))))
            (\<lambda>sender. forE (\<lambda>out c.
               applyTaxForRecipientCanonical k (AccAddress_String k sender) (fst out) (snd out) c) outputs c)
      | AuthzExec as \<Rightarrow>
          if MaxAuthzUnwrapDepth \<le> depth then Inl (Errorf ''authz MsgExec nesting depth exceeded'')
          else tryE (authz_GetMessages A as) (\<lambda>innerMsgs. applyTaxesForMsgs k A (depth + 1) innerMsgs c)
      | _ \<Rightarrow> Inr c)) msgs c"
  by pat_completeness auto
termination
  by (relation "measure (\<lambda>(k, A, depth, msgs, c). MaxAuthzUnwrapDepth - depth)")
    (auto simp: MaxAuthzUnwrapDepth_def)

declare applyTaxesForMsgs.simps [simp del]

definition applyTaxes :: "('s, 'b, 'x) Keeper_scheme \<Rightarrow> ('a, 'z) msg_api_scheme \<Rightarrow> 'a tx \<Rightarrow> ('s, 'b) ctx \<Rightarrow>
    ('s, 'b) ctx res" where
  "applyTaxes k A tx c = applyTaxesForMsgs k A 0 (GetMsgs tx) c"

definition PostHandle :: "('s, 'b, 'x) Keeper_scheme \<Rightarrow> ('a, 'z) msg_api_scheme \<Rightarrow>
    (('s, 'b) ctx \<Rightarrow> 'a tx \<Rightarrow> bool \<Rightarrow> bool \<Rightarrow> ('s, 'b) ctx res) \<Rightarrow>
    ('s, 'b) ctx \<Rightarrow> 'a tx \<Rightarrow> bool \<Rightarrow> bool \<Rightarrow> ('s, 'b) ctx res" where
  "PostHandle k A nxt c tx simulate success =
     (if \<not> success \<or> simulate then nxt c tx simulate success
      else tryE (applyTaxes k A tx c) (\<lambda>c1. nxt c1 tx simulate success))"

section \<open>The amount\<close>

lemma MaxTaxPercent_twice: "dec_one = 2 * MaxTaxPercent"
  by (simp add: MaxTaxPercent_def)

context legacy_dec
begin

lemma taxAmount_eq:
  assumes "2 \<le> a" and "0 < p"
  shows "taxAmount K a p = Inr (max 1 (a * min p MaxTaxPercent div dec_one))"
proof -
  define q where "q = min p MaxTaxPercent"
  define t where "t = a * q div dec_one"
  define h where "h = a div 2"
  have nn: "0 \<le> a * q" using assms by (simp add: q_def MaxTaxPercent_def)
  have tr: "Dec_TruncateInt K (Dec_Mul K (Dec_FromInt K a) q) = t"
    unfolding t_def using Dec_TruncateInt_nonneg [OF nn] by (simp only: Dec_Mul_FromInt)
  have "t \<le> a * MaxTaxPercent div dec_one"
    unfolding t_def using assms(1) by (intro zdiv_mono1 mult_left_mono) (simp_all add: q_def)
  also have "\<dots> = a * MaxTaxPercent div (2 * MaxTaxPercent)" by (simp only: MaxTaxPercent_twice)
  also have "\<dots> = h" unfolding h_def by (rule div_mult_mult2) (simp add: MaxTaxPercent_def)
  finally have "t \<le> h" .
  moreover have "0 \<le> t" unfolding t_def using nn by (intro pos_imp_zdiv_nonneg_iff [THEN iffD2]) simp_all
  moreover have "1 \<le> h" "1 \<le> a - h" "IntQuo a 2 = h" using assms(1) by (simp_all add: h_def IntQuo_def)
  moreover have "(if MaxTaxPercent < p then MaxTaxPercent else p) = q" by (simp add: q_def)
  ultimately have "taxAmount K a p = Inr (max 1 t)"
    by (simp add: taxAmount_def tr Let_def max_def)
  then show ?thesis by (simp only: t_def q_def)
qed

end

section \<open>Effects\<close>

text \<open>A step that leaves the module's store, all supplies and the module account alone.\<close>

definition quiet :: "('s, 'b, 'x) Keeper_scheme \<Rightarrow> ('b \<Rightarrow> bool) \<Rightarrow> ('s, 'b) ctx \<Rightarrow> ('s, 'b) ctx \<Rightarrow> bool" where
  "quiet k wfb c c' \<longleftrightarrow> store c' = store c \<and> wfb (bank c') \<and> (\<forall>e. sup_of k c' e = sup_of k c e) \<and>
     (\<forall>e. bal_of k c' (modAddr k) e = bal_of k c (modAddr k) e)"

lemma quiet_refl: "wfb (bank c) \<Longrightarrow> quiet k wfb c c"
  by (simp add: quiet_def)

lemma quiet_trans: "quiet k wfb c c1 \<Longrightarrow> quiet k wfb c1 c2 \<Longrightarrow> quiet k wfb c c2"
  by (simp add: quiet_def)

lemma quiet_views: "quiet k wfb c c' \<Longrightarrow> wfb (bank c') \<and> GetToken k c' = GetToken k c \<and>
    (all_valid k c' \<longleftrightarrow> all_valid k c)"
  by (simp add: quiet_def all_valid_def store_views [of c' c])

lemma quiet_step: "quiet k wfb c c' \<Longrightarrow> stoc_step k wfb c c'"
  by (rule stoc_step.env) (simp_all add: quiet_def)

text \<open>The transfers of a message: sender, recipient and coins.\<close>

fun transfers :: "'a sdk_msg \<Rightarrow> (string \<times> string \<times> coins) list" where
  "transfers (MsgSend from to cs) = [(from, to, cs)]"
| "transfers (MsgMultiSend ins outs) = map (\<lambda>(to, cs). (fst (hd ins), to, cs)) outs"
| "transfers _ = []"

lemma executed_authz:
  assumes "executed A inner n m" and "AuthzExec as \<in> set msgs" and "authz_GetMessages A as = Inr inner"
  shows "executed A msgs (Suc n) m"
  using assms by (induction rule: executed.induct) (auto intro: executed.intros)

text \<open>The tax on one message that is not a wrapper; a message that pays nothing to the module
  account; and a message each of whose coins was taxed in some state of the walk.\<close>

definition tax_msg :: "('s, 'b, 'x) Keeper_scheme \<Rightarrow> 'a sdk_msg \<Rightarrow> ('s, 'b) ctx \<Rightarrow> ('s, 'b) ctx res" where
  "tax_msg k msg c =
     (case msg of
        MsgSend from to amount \<Rightarrow> applyTaxForRecipient k from to amount c
      | MsgMultiSend inputs outputs \<Rightarrow>
          if MaxMultiSendOutputs < length inputs then Inl (Errorf ''too many inputs'')
          else if MaxMultiSendOutputs < length outputs then Inl (Errorf ''too many outputs'')
          else if length inputs \<noteq> 1 then Inl (Errorf ''single-input only'')
          else tryE (asErr (Errorf ''invalid sender address'') (AccAddressFromBech32 k (fst (inputs ! 0))))
            (\<lambda>sender. forE (\<lambda>out c.
               applyTaxForRecipientCanonical k (AccAddress_String k sender) (fst out) (snd out) c) outputs c)
      | _ \<Rightarrow> Inr c)"

definition safe_msg :: "'x sdk_scheme \<Rightarrow> 'a sdk_msg \<Rightarrow> bool" where
  "safe_msg k m \<longleftrightarrow> (\<forall>(s, r, cs) \<in> set (transfers m). AccAddressFromBech32 k r \<noteq> Inr (modAddr k))"

definition visited :: "('s, 'b, 'x) Keeper_scheme \<Rightarrow> ('b \<Rightarrow> bool) \<Rightarrow> ('s, 'b) ctx \<Rightarrow> 'a sdk_msg \<Rightarrow> bool" where
  "visited k wfb c m \<longleftrightarrow> (\<forall>(s, r, cs) \<in> set (transfers m). \<exists>sa ra. AccAddressFromBech32 k s = Inr sa \<and>
     AccAddressFromBech32 k r = Inr ra \<and> (\<forall>coin \<in> set cs. \<exists>c1 c2. quiet k wfb c c1 \<and>
       applyTax_coin k (AccAddress_String k sa) ra coin c1 = Inr c2))"

text \<open>The denomination belongs to a token with a tax, its percentage and its recipient.\<close>

definition taxed :: "('s, 'b, 'x) Keeper_scheme \<Rightarrow> ('s, 'b) ctx \<Rightarrow> denom \<Rightarrow> Token \<Rightarrow> dec \<Rightarrow> addr \<Rightarrow> bool" where
  "taxed K c d t p tr \<longleftrightarrow> \<not> IsNativeDenom K d \<and> GetToken K c d = Some t \<and> txPercent (tkTax t) = Some p \<and> p \<noteq> 0 \<and>
     AccAddressFromBech32 K (txRecipientAddress (tkTax t)) = Inr tr"

lemma executed_split:
  "executed A msgs j m \<Longrightarrow> m \<in> set msgs \<and> j = 0 \<or> (\<exists>as inner i. AuthzExec as \<in> set msgs \<and>
     authz_GetMessages A as = Inr inner \<and> executed A inner i m \<and> j = Suc i)"
  by (induction rule: executed.induct) (auto intro: executed.intros)

lemma visited_mono: "quiet k wfb c c1 \<Longrightarrow> visited k wfb c1 m \<Longrightarrow> visited k wfb c m"
  unfolding visited_def
proof clarify
  fix s r cs
  assume q: "quiet k wfb c c1" and in_m: "(s, r, cs) \<in> set (transfers m)"
    and v: "\<forall>(s, r, cs) \<in> set (transfers m). \<exists>sa ra. AccAddressFromBech32 k s = Inr sa \<and>
     AccAddressFromBech32 k r = Inr ra \<and> (\<forall>coin \<in> set cs. \<exists>c2 c3. quiet k wfb c1 c2 \<and>
       applyTax_coin k (AccAddress_String k sa) ra coin c2 = Inr c3)"
  from bspec [OF v in_m] quiet_trans [OF q] show "\<exists>sa ra. AccAddressFromBech32 k s = Inr sa \<and>
     AccAddressFromBech32 k r = Inr ra \<and> (\<forall>coin \<in> set cs. \<exists>c1 c2. quiet k wfb c c1 \<and>
       applyTax_coin k (AccAddress_String k sa) ra coin c1 = Inr c2)" by fast
qed

lemma applyTaxesForMsgs_round:
  "applyTaxesForMsgs k A n msgs c = forE (\<lambda>m c. case m of
       AuthzExec as \<Rightarrow> if 3 \<le> n then Inl (Errorf ''authz MsgExec nesting depth exceeded'')
         else tryE (authz_GetMessages A as) (\<lambda>inner. applyTaxesForMsgs k A (Suc n) inner c)
     | _ \<Rightarrow> tax_msg k m c) msgs c"
  unfolding applyTaxesForMsgs.simps [of k A n msgs c]
  apply (rule forE_cong [OF refl refl])
  subgoal for m u by (cases m) (simp_all add: tax_msg_def MaxAuthzUnwrapDepth_def)
  done

context stoc_env
begin

lemma denom_of_valid:
  assumes "TokenSymbolRegex s" shows "ValidateDenom k (denom_of s w) = Inr ()"
proof -
  from assms obtain x xs where s: "s = x # xs" "is_alpha x" "list_all is_alnum xs" "length xs \<le> 31"
    by (auto simp: TokenSymbolRegex_def split: list.splits)
  let ?r = "xs @ ''_'' @ FormatUint w"
  have "list_all is_denom_char ?r"
    using s(3) FormatUint_digits [of w] by (auto simp: list_all_iff is_denom_char_def is_alnum_def)
  moreover have "2 \<le> length ?r" "length ?r \<le> 127"
    using FormatUint_length [of w] s(4) by (simp_all add: Suc_le_eq)
  ultimately show ?thesis using denom_valid [OF s(2), of ?r] by (simp add: denom_of_def s(1))
qed

lemma stored_valid: "store_ok k c \<Longrightarrow> GetToken k c d = Some t \<Longrightarrow> ValidateDenom k d = Inr ()"
  using store_okD [of k c d t] denom_of_valid by (auto simp: stored_ok_def)

lemma collectTax_cases:
  assumes "wfb (bank c)" and "0 < a" and "ValidateDenom k d = Inr ()"
  shows "(\<exists>e. SendCoins (bankKeeper k) (bank c) ra tr [mk_coin d a] = Inl e) \<and>
      collectTax k t d ra tr a c = Inr c \<or>
    (\<exists>c'. collectTax k t d ra tr a c = Inr c' \<and> store c' = store c \<and> wfb (bank c') \<and>
      (\<forall>e. sup_of k c' e = sup_of k c e) \<and>
      (\<forall>x e. bal_of k c' x e = bal_of k c x e +
         (if e = d then (if x = tr then a else 0) - (if x = ra then a else 0) else 0)))"
proof -
  have one: "one_coin k d a = Inr [mk_coin d a]" using one_coin_ok [OF _ assms(3), of a] assms(2) by simp
  show ?thesis
  proof (cases "SendCoins (bankKeeper k) (bank c) ra tr [mk_coin d a]")
    case (Inl e) then show ?thesis by (simp add: collectTax_def one)
  next
    case (Inr b)
    note L = Send_wf [OF assms(1) Inr] Send_supply [OF assms(1) Inr] Send_bal [OF assms(1) Inr]
    obtain c' where "collectTax k t d ra tr a c = Inr c'" "store c' = store c" "bank c' = b"
      by (auto simp: collectTax_def one Inr)
    with L show ?thesis by auto
  qed
qed

text \<open>The token's tax as the loop sees it: percentage and recipient of a taxed token.\<close>

lemma taxed_token:
  assumes "all_valid k c" and "GetToken k c d = Some t" and "txPercent (tkTax t) = Some p" and "p \<noteq> 0"
  shows "\<exists>tr. AccAddressFromBech32 k (txRecipientAddress (tkTax t)) = Inr tr \<and>
    AccAddress_String k tr = txRecipientAddress (tkTax t) \<and> tr \<noteq> modAddr k \<and> 0 < p \<and> p \<le> MaxTaxPercent"
proof -
  have "tax_ok k (tkTax t)" using assms(1,2) by (auto simp: all_valid_def token_ok_def)
  with assms(3,4) have p: "0 < p" "p \<le> MaxTaxPercent" and c: "canonical k (txRecipientAddress (tkTax t))"
    and b: "AccAddressFromBech32 k (txRecipientAddress (tkTax t)) \<noteq> Inr (modAddr k)"
    by (auto simp: tax_ok_def blockedTaxRecipientModules_def)
  from c obtain tr where "AccAddressFromBech32 k (txRecipientAddress (tkTax t)) = Inr tr"
    "AccAddress_String k tr = txRecipientAddress (tkTax t)" by (auto simp: canonical_def)
  with p b show ?thesis by auto
qed

text \<open>One coin: exempt, or taxed by the exact amount.\<close>

lemma applyTax_coin_exempt:
  assumes "all_valid k c" and "\<nexists>t p tr. taxed k c (Denom coin) t p tr"
  shows "applyTax_coin k s ra coin c = Inr c"
proof -
  have "nilOr (txPercent (tkTax t)) (\<lambda>p. p = 0)"
    if "\<not> IsNativeDenom k (Denom coin)" "GetToken k c (Denom coin) = Some t" for t
    using that assms taxed_token [OF assms(1) that(2)]
    by (cases "txPercent (tkTax t)") (auto simp: taxed_def)
  then show ?thesis by (auto simp: applyTax_coin_def split: option.splits)
qed

lemma applyTax_coin_taxed:
  assumes "all_valid k c" and "taxed k c (Denom coin) t p tr"
  shows "\<exists>e. applyTax_coin k s ra coin c =
     (if s = AccAddress_String k tr then Inr (EmitEvent e c)
      else if AccAddress_String k ra = AccAddress_String k tr \<or> Amount coin = 0 then Inr c
      else if Amount coin \<le> 1 then Inl (Errorf ''below minimum taxable amount'')
      else collectTax k t (Denom coin) ra tr (max 1 (Amount coin * p div dec_one)) c)"
proof -
  note T = assms(2) [unfolded taxed_def]
  from taxed_token [OF assms(1), of "Denom coin" t p] T have p: "0 < p" "min p MaxTaxPercent = p" by auto
  have ne: "txRecipientAddress (tkTax t) \<noteq> []" using T decode_empty [of tr] by auto
  have ta: "taxAmount k (Amount coin) p = Inr (max 1 (Amount coin * p div dec_one))" if "\<not> Amount coin \<le> 1"
    using taxAmount_eq [of "Amount coin" p] that p by simp
  show ?thesis
    unfolding applyTax_coin_def Let_def using T p(1) ne by (simp add: ta) blast
qed

lemma applyTax_coin_quiet:
  assumes "all_valid k c" and "store_ok k c" and "wfb (bank c)" and "ra \<noteq> modAddr k"
    and run: "applyTax_coin k s ra coin c = Inr c'"
  shows "quiet k wfb c c'"
proof (cases "\<exists>t p tr. taxed k c (Denom coin) t p tr")
  case True
  then obtain t p tr where t: "taxed k c (Denom coin) t p tr" by blast
  have g: "GetToken k c (Denom coin) = Some t" using t by (simp add: taxed_def)
  from taxed_token [OF assms(1) g] t have tr: "tr \<noteq> modAddr k" by (auto simp: taxed_def)
  from applyTax_coin_taxed [OF assms(1) t, of s ra] run
  consider e where "c' = EmitEvent e c" | "c' = c"
    | "collectTax k t (Denom coin) ra tr (max 1 (Amount coin * p div dec_one)) c = Inr c'"
    by (auto split: if_splits)
  then show ?thesis
  proof cases
    case 3
    have "0 < max 1 (Amount coin * p div dec_one)" by (simp add: max_def)
    from collectTax_cases [OF assms(3) this stored_valid [OF assms(2) g], of ra tr t] 3 tr assms(3,4)
    show ?thesis by (auto simp: quiet_def)
  qed (use assms(3) in \<open>simp_all add: quiet_def\<close>)
next
  case False
  with applyTax_coin_exempt [OF assms(1)] run assms(3) show ?thesis by (auto simp: quiet_def)
qed

lemma quiet_ok: "quiet k wfb c c' \<Longrightarrow> all_valid k c \<Longrightarrow> store_ok k c \<Longrightarrow>
    all_valid k c' \<and> store_ok k c' \<and> wfb (bank c')"
  using quiet_views [of k wfb c c'] store_views(4) [of c' c k] by (simp add: quiet_def)

text \<open>A loop of quiet steps is quiet, and every element of the list had its turn.\<close>

lemma forE_quiet:
  assumes "forE f xs c = Inr c'" and "all_valid k c" and "store_ok k c" and "wfb (bank c)"
    and step: "\<And>x c1 c2. x \<in> set xs \<Longrightarrow> all_valid k c1 \<Longrightarrow> store_ok k c1 \<Longrightarrow> wfb (bank c1) \<Longrightarrow>
      f x c1 = Inr c2 \<Longrightarrow> quiet k wfb c1 c2"
  shows "quiet k wfb c c' \<and> (\<forall>x \<in> set xs. \<exists>c1 c2. quiet k wfb c c1 \<and> f x c1 = Inr c2)"
  using assms
proof (induction xs arbitrary: c)
  case Nil then show ?case by (simp add: quiet_refl)
next
  case (Cons x xs)
  then obtain c1 where 1: "f x c = Inr c1" and rest: "forE f xs c1 = Inr c'" by auto
  then have q: "quiet k wfb c c1" using Cons.prems(2-5) by auto
  note ok = quiet_ok [OF q Cons.prems(2,3)]
  have "quiet k wfb c1 c' \<and> (\<forall>x \<in> set xs. \<exists>c2 c3. quiet k wfb c1 c2 \<and> f x c2 = Inr c3)"
    by (rule Cons.IH [OF rest]) (use ok Cons.prems(5) in auto)
  moreover have "\<exists>c1 c2. quiet k wfb c c1 \<and> f x c1 = Inr c2" using 1 quiet_refl Cons.prems(4) by blast
  ultimately show ?case using q quiet_trans by (metis set_ConsD)
qed

lemma applyTaxForRecipientCanonical_quiet:
  assumes "applyTaxForRecipientCanonical k s r cs c = Inr c'" and "all_valid k c" and "store_ok k c"
    and "wfb (bank c)" and "AccAddressFromBech32 k r \<noteq> Inr (modAddr k)"
  shows "quiet k wfb c c' \<and> (\<exists>ra. AccAddressFromBech32 k r = Inr ra \<and>
    (\<forall>coin \<in> set cs. \<exists>c1 c2. quiet k wfb c c1 \<and> applyTax_coin k s ra coin c1 = Inr c2))"
proof -
  from assms(1) obtain ra where ra: "AccAddressFromBech32 k r = Inr ra"
    and loop: "forE (applyTax_coin k s ra) cs c = Inr c'" by (auto simp: applyTaxForRecipientCanonical_def)
  with assms(5) have "ra \<noteq> modAddr k" by auto
  with forE_quiet [OF loop assms(2-4)] applyTax_coin_quiet ra show ?thesis by metis
qed

lemma tax_msg_quiet:
  assumes "tax_msg k m c = Inr c'" and ok: "all_valid k c" "store_ok k c" "wfb (bank c)" and "safe_msg k m"
  shows "quiet k wfb c c' \<and> visited k wfb c m"
proof (cases m)
  case (MsgSend f t cs)
  with assms obtain sa where "AccAddressFromBech32 k f = Inr sa"
    and "applyTaxForRecipientCanonical k (AccAddress_String k sa) t cs c = Inr c'"
    by (auto simp: tax_msg_def applyTaxForRecipient_def)
  with applyTaxForRecipientCanonical_quiet [OF this(2) ok] assms(5) MsgSend show ?thesis
    by (auto simp: safe_msg_def visited_def)
next
  case (MsgMultiSend ins outs)
  with assms(1) obtain sa where len: "length ins = 1" and sa: "AccAddressFromBech32 k (fst (ins ! 0)) = Inr sa"
    and loop: "forE (\<lambda>out c. applyTaxForRecipientCanonical k (AccAddress_String k sa) (fst out) (snd out) c) outs c = Inr c'"
    by (auto simp: tax_msg_def split: if_splits)
  have hd: "hd ins = ins ! 0" using len by (cases ins) auto
  have safe: "AccAddressFromBech32 k (fst out) \<noteq> Inr (modAddr k)" if "out \<in> set outs" for out
    using that assms(5) MsgMultiSend by (fastforce simp: safe_msg_def)
  have Q: "quiet k wfb c c' \<and> (\<forall>out \<in> set outs. \<exists>c1 c2. quiet k wfb c c1 \<and>
      applyTaxForRecipientCanonical k (AccAddress_String k sa) (fst out) (snd out) c1 = Inr c2)"
    by (rule forE_quiet [OF loop ok]) (use applyTaxForRecipientCanonical_quiet safe in blast)
  then have "quiet k wfb c c'" and each: "\<forall>out \<in> set outs. \<exists>c1 c2. quiet k wfb c c1 \<and>
      applyTaxForRecipientCanonical k (AccAddress_String k sa) (fst out) (snd out) c1 = Inr c2"
    by blast+
  moreover have "visited k wfb c m"
    unfolding visited_def MsgMultiSend transfers.simps
  proof (clarsimp simp: hd sa)
    fix r cs assume out: "(r, cs) \<in> set outs"
    with each obtain c1 c2 where q: "quiet k wfb c c1"
      and run: "applyTaxForRecipientCanonical k (AccAddress_String k sa) r cs c1 = Inr c2" by fastforce
    note ok1 = quiet_ok [OF q ok(1,2)]
    from applyTaxForRecipientCanonical_quiet [OF run] ok1 safe [OF out] q quiet_trans
    show "\<exists>ra. AccAddressFromBech32 k r = Inr ra \<and> (\<forall>coin \<in> set cs. \<exists>c1. quiet k wfb c c1 \<and>
        (\<exists>c2. applyTax_coin k (AccAddress_String k sa) ra coin c1 = Inr c2))"
      by (metis fst_conv)
  qed
  ultimately show ?thesis by blast
qed (use assms in \<open>auto simp: tax_msg_def visited_def quiet_refl\<close>)

lemma applyTaxesForMsgs_quiet:
  assumes "applyTaxesForMsgs k A n msgs c = Inr c'" and ok: "all_valid k c" "store_ok k c" "wfb (bank c)"
    and "\<And>j m. executed A msgs j m \<Longrightarrow> safe_msg k m" and "n \<le> 3"
  shows "quiet k wfb c c' \<and> (\<forall>j m. executed A msgs j m \<longrightarrow> n + j \<le> 3 \<and> visited k wfb c m)"
  using assms
proof (induction "3 - n" arbitrary: n msgs c c' rule: less_induct)
  case less
  define body where "body = (\<lambda>m c. case m of
       AuthzExec as \<Rightarrow> if 3 \<le> n then Inl (Errorf ''authz MsgExec nesting depth exceeded'')
         else tryE (authz_GetMessages A as) (\<lambda>inner. applyTaxesForMsgs k A (Suc n) inner c)
     | _ \<Rightarrow> tax_msg k m c)"
  have loop: "forE body msgs c = Inr c'"
    using less.prems(1) unfolding applyTaxesForMsgs_round [of k A n] body_def .
  have step: "quiet k wfb c1 c2 \<and> (case m of
        AuthzExec as \<Rightarrow> \<forall>inner. authz_GetMessages A as = Inr inner \<longrightarrow>
          (\<forall>j x. executed A inner j x \<longrightarrow> Suc n + j \<le> 3 \<and> visited k wfb c1 x)
      | _ \<Rightarrow> True) \<and> visited k wfb c1 m"
    if m: "m \<in> set msgs" and ok1: "all_valid k c1" "store_ok k c1" "wfb (bank c1)" and run: "body m c1 = Inr c2"
    for m c1 c2
  proof (cases "\<exists>as. m = AuthzExec as")
    case True
    then obtain as where as: "m = AuthzExec as" by blast
    with run obtain inner where n: "n < 3" and i: "authz_GetMessages A as = Inr inner"
      and r: "applyTaxesForMsgs k A (Suc n) inner c1 = Inr c2"
      by (auto simp: body_def split: if_splits)
    have "quiet k wfb c1 c2 \<and> (\<forall>j x. executed A inner j x \<longrightarrow> Suc n + j \<le> 3 \<and> visited k wfb c1 x)"
      by (rule less.hyps [OF _ r ok1]) (use n less.prems(5) executed_authz [of A inner _ _ as msgs] m as i in auto)
    with as i show ?thesis by (simp add: visited_def)
  next
    case False
    then have "tax_msg k m c1 = Inr c2" using run by (cases m) (auto simp: body_def)
    moreover have "safe_msg k m" using less.prems(5) executed.top [OF m] by blast
    ultimately have "quiet k wfb c1 c2 \<and> visited k wfb c1 m" using tax_msg_quiet ok1 by blast
    with False show ?thesis by (cases m) auto
  qed
  have Q: "quiet k wfb c c' \<and> (\<forall>m \<in> set msgs. \<exists>c1 c2. quiet k wfb c c1 \<and> body m c1 = Inr c2)"
    by (rule forE_quiet [OF loop less.prems(2-4)]) (use step in blast)
  have "n + j \<le> 3 \<and> visited k wfb c m" if "executed A msgs j m" for j m
    using executed_split [OF that]
  proof (elim disjE exE conjE)
    assume m: "m \<in> set msgs" and "j = 0"
    from Q m obtain c1 c2 where q: "quiet k wfb c c1" and r: "body m c1 = Inr c2" by blast
    from step [OF m _ _ _ r] quiet_ok [OF q less.prems(2,3)] have "visited k wfb c1 m" by blast
    with visited_mono [OF q] \<open>j = 0\<close> less.prems(6) show ?thesis by simp
  next
    fix as inner i assume as: "AuthzExec as \<in> set msgs" and i: "authz_GetMessages A as = Inr inner"
      and e: "executed A inner i m" and j: "j = Suc i"
    from Q as obtain c1 c2 where q: "quiet k wfb c c1" and r: "body (AuthzExec as) c1 = Inr c2" by blast
    from step [OF as _ _ _ r] quiet_ok [OF q less.prems(2,3)] i e
    have "Suc n + i \<le> 3 \<and> visited k wfb c1 m" by simp
    with visited_mono [OF q, of m] j show ?thesis by simp
  qed
  with Q show ?case by blast
qed

end

lemma transfers_ops:
  assumes "(s, r, cs) \<in> set (transfers m)" and "coin \<in> set cs"
  shows "Denom coin \<in> ops_denoms True m"
proof (cases m)
  case (MsgMultiSend ins outs)
  with assms(1) have "(r, cs) \<in> set outs" by auto
  with assms(2) MsgMultiSend show ?thesis by (auto intro!: bexI [of _ "(r, cs)"])
qed (use assms in auto)

lemma config_tax: "config t' = config t \<Longrightarrow> tkTax t' = tkTax t"
  by (metis Token.select_convs(9) Token.surjective Token.update_convs(5,11) config_def)

section \<open>What is due\<close>

text \<open>
  The taxes of a transaction as one list, independent of the walk: payer, tax recipient, denomination and amount, for
  every coin of every transfer that is executed at any nesting, in order. \<open>settle\<close> pays one entry, unless the
  bank refuses it.
\<close>

type_synonym due = "addr \<times> addr \<times> denom \<times> int"

definition coin_due :: "('s, 'b, 'x) Keeper_scheme \<Rightarrow> ('s, 'b) ctx \<Rightarrow> addr \<Rightarrow> addr \<Rightarrow> coin \<Rightarrow> due list" where
  "coin_due k c sa ra coin =
     (if IsNativeDenom k (Denom coin) then []
      else case GetToken k c (Denom coin) of None \<Rightarrow> []
      | Some t \<Rightarrow> (case (txPercent (tkTax t), AccAddressFromBech32 k (txRecipientAddress (tkTax t))) of
          (Some p, Inr tr) \<Rightarrow> if p = 0 \<or> sa = tr \<or> ra = tr \<or> Amount coin = 0 then []
             else [(ra, tr, Denom coin, max 1 (Amount coin * p div dec_one))]
        | _ \<Rightarrow> []))"

definition transfer_dues :: "('s, 'b, 'x) Keeper_scheme \<Rightarrow> ('s, 'b) ctx \<Rightarrow> string \<times> string \<times> coins \<Rightarrow> due list" where
  "transfer_dues k c = (\<lambda>(s, r, cs). case (AccAddressFromBech32 k s, AccAddressFromBech32 k r) of
     (Inr sa, Inr ra) \<Rightarrow> concat (map (coin_due k c sa ra) cs) | _ \<Rightarrow> [])"

primrec flat_msgs :: "('a, 'z) msg_api_scheme \<Rightarrow> nat \<Rightarrow> 'a sdk_msg list \<Rightarrow> 'a sdk_msg list" where
  "flat_msgs A 0 msgs = concat (map (\<lambda>m. case m of AuthzExec as \<Rightarrow> [] | _ \<Rightarrow> [m]) msgs)"
| "flat_msgs A (Suc n) msgs = concat (map (\<lambda>m. case m of
     AuthzExec as \<Rightarrow> (case authz_GetMessages A as of Inl _ \<Rightarrow> [] | Inr inner \<Rightarrow> flat_msgs A n inner) | _ \<Rightarrow> [m]) msgs)"

definition tax_dues :: "('s, 'b, 'x) Keeper_scheme \<Rightarrow> ('s, 'b) ctx \<Rightarrow> 'a sdk_msg list \<Rightarrow> due list" where
  "tax_dues k c msgs = concat (map (transfer_dues k c) (concat (map transfers msgs)))"

definition settle :: "('s, 'b, 'x) Keeper_scheme \<Rightarrow> 'b \<Rightarrow> due \<Rightarrow> 'b" where
  "settle k b = (\<lambda>(ra, tr, d, a). case SendCoins (bankKeeper k) b ra tr [mk_coin d a] of Inl _ \<Rightarrow> b | Inr b' \<Rightarrow> b')"

definition paid :: "('s, 'b, 'x) Keeper_scheme \<Rightarrow> ('b \<Rightarrow> bool) \<Rightarrow> due list \<Rightarrow> ('s, 'b) ctx \<Rightarrow> ('s, 'b) ctx \<Rightarrow> bool" where
  "paid k wfb D c c' \<longleftrightarrow> store c' = store c \<and> wfb (bank c') \<and> bank c' = foldl (settle k) (bank c) D"

lemma dues_store: "store c1 = store c \<Longrightarrow> coin_due k c1 = coin_due k c" "store c1 = store c \<Longrightarrow> transfer_dues k c1 = transfer_dues k c"
proof -
  show *: "coin_due k c1 = coin_due k c" if "store c1 = store c"
    using store_views(1) [OF that, of k] by (simp add: coin_due_def fun_eq_iff)
  show "transfer_dues k c1 = transfer_dues k c" if "store c1 = store c"
    unfolding transfer_dues_def * [OF that] ..
qed

lemma tax_dues_simps [simp]: "tax_dues k c [] = []" "tax_dues k c (xs @ ys) = tax_dues k c xs @ tax_dues k c ys"
  by (simp_all add: tax_dues_def)

lemma tax_dues_concat: "tax_dues k c (concat xss) = concat (map (tax_dues k c) xss)"
  by (induction xss) simp_all

lemma flat_msgs_mem: "executed A msgs j m \<Longrightarrow> j \<le> n \<Longrightarrow> \<nexists>as. m = AuthzExec as \<Longrightarrow> m \<in> set (flat_msgs A n msgs)"
proof (induction n arbitrary: msgs j)
  case 0
  then have "m \<in> set msgs" using executed_split [OF 0(1)] by auto
  with 0(3) show ?case by (auto intro!: bexI [of _ m] split: sdk_msg.splits)
next
  case (Suc n)
  from executed_split [OF Suc.prems(1)] show ?case
  proof (elim disjE exE conjE)
    assume "m \<in> set msgs" with Suc.prems(3) show ?thesis by (auto intro!: bexI [of _ m] split: sdk_msg.splits)
  next
    fix as inner i assume a: "AuthzExec as \<in> set msgs" "authz_GetMessages A as = Inr inner" "executed A inner i m" "j = Suc i"
    with Suc.IH [of inner i] Suc.prems have "m \<in> set (flat_msgs A n inner)" by simp
    with a(1,2) show ?thesis by (auto intro!: bexI [of _ "AuthzExec as"])
  qed
qed

text \<open>A loop whose rounds pay their part pays the whole, and every round had its turn.\<close>

lemma forE_paid:
  assumes "forE f xs c = Inr c'" and "wfb (bank c)"
    and "\<And>x c1 c2. x \<in> set xs \<Longrightarrow> store c1 = store c \<Longrightarrow> wfb (bank c1) \<Longrightarrow> f x c1 = Inr c2 \<Longrightarrow> paid k wfb (D x) c1 c2"
  shows "paid k wfb (concat (map D xs)) c c' \<and> (\<forall>x \<in> set xs. \<exists>c1 c2. store c1 = store c \<and> wfb (bank c1) \<and> f x c1 = Inr c2)"
  using assms
proof (induction xs arbitrary: c)
  case (Cons x xs)
  then obtain c1 where 1: "f x c = Inr c1" "forE f xs c1 = Inr c'" by auto
  have p: "paid k wfb (D x) c c1" by (rule Cons.prems(3)) (use 1 Cons.prems(2) in auto)
  then have st: "store c1 = store c" and wf: "wfb (bank c1)" unfolding paid_def by blast+
  have "paid k wfb (concat (map D xs)) c1 c' \<and> (\<forall>x \<in> set xs. \<exists>c2 c3. store c2 = store c1 \<and> wfb (bank c2) \<and> f x c2 = Inr c3)"
    by (rule Cons.IH [OF 1(2) wf]) (use Cons.prems(3) st in auto)
  with p st 1(1) Cons.prems(2) show ?case by (auto simp: paid_def)
qed (simp add: paid_def)

text \<open>A transfer whose addresses are valid and whose coins are exempt by a rule or due.\<close>

definition transfer_treated :: "('s, 'b, 'x) Keeper_scheme \<Rightarrow> ('s, 'b) ctx \<Rightarrow> string \<times> string \<times> coins \<Rightarrow> bool" where
  "transfer_treated k c = (\<lambda>(s, r, cs). \<exists>sa ra. AccAddressFromBech32 k s = Inr sa \<and> AccAddressFromBech32 k r = Inr ra \<and>
     (\<forall>coin \<in> set cs. \<forall>t p tr. taxed k c (Denom coin) t p tr \<longrightarrow> sa = tr \<or> ra = tr \<or> Amount coin = 0 \<or>
        2 \<le> Amount coin \<and> (ra, tr, Denom coin, max 1 (Amount coin * p div dec_one)) \<in> set (transfer_dues k c (s, r, cs))))"

context stoc_env
begin

lemma applyTax_coin_paid:
  assumes "all_valid k c" and "store_ok k c" and "wfb (bank c)" and "AccAddressFromBech32 k s = Inr sa" and "AccAddressFromBech32 k r = Inr ra"
    and run: "applyTax_coin k (AccAddress_String k sa) ra coin c = Inr c'"
  shows "paid k wfb (coin_due k c sa ra coin) c c'"
    and "taxed k c (Denom coin) t p tr \<Longrightarrow> sa = tr \<or> ra = tr \<or> Amount coin = 0 \<or>
      2 \<le> Amount coin \<and> coin_due k c sa ra coin = [(ra, tr, Denom coin, max 1 (Amount coin * p div dec_one))]"
proof -
  have inj: "AccAddress_String k sa = AccAddress_String k tr \<longleftrightarrow> sa = tr" "AccAddress_String k ra = AccAddress_String k tr \<longleftrightarrow> ra = tr"
    if "taxed k c (Denom coin) t p tr" for t p tr
    using String_inject [OF assms(4)] String_inject [OF assms(5)] that by (auto simp: taxed_def)
  have two: "sa = tr \<or> ra = tr \<or> Amount coin = 0 \<or>
      2 \<le> Amount coin \<and> coin_due k c sa ra coin = [(ra, tr, Denom coin, max 1 (Amount coin * p div dec_one))]"
    if t: "taxed k c (Denom coin) t p tr" for t p tr
    using applyTax_coin_taxed [OF assms(1) t, of "AccAddress_String k sa" ra] run inj [OF t] t
    by (auto simp: taxed_def coin_due_def split: if_splits)
  then show "taxed k c (Denom coin) t p tr \<Longrightarrow> sa = tr \<or> ra = tr \<or> Amount coin = 0 \<or>
      2 \<le> Amount coin \<and> coin_due k c sa ra coin = [(ra, tr, Denom coin, max 1 (Amount coin * p div dec_one))]" .
  show "paid k wfb (coin_due k c sa ra coin) c c'"
  proof (cases "\<exists>t p tr. taxed k c (Denom coin) t p tr")
    case False
    then have "coin_due k c sa ra coin = []" by (auto simp: coin_due_def taxed_def split: option.splits sum.splits)
    with applyTax_coin_exempt [OF assms(1) False] run assms(3) show ?thesis by (simp add: paid_def)
  next
    case True
    then obtain t p tr where t: "taxed k c (Denom coin) t p tr" by blast
    let ?a = "max 1 (Amount coin * p div dec_one)"
    have g: "GetToken k c (Denom coin) = Some t" using t by (simp add: taxed_def)
    show ?thesis
    proof (cases "sa = tr \<or> ra = tr \<or> Amount coin = 0")
      case True
      then have "coin_due k c sa ra coin = []" using t by (auto simp: coin_due_def taxed_def)
      moreover have "store c' = store c \<and> bank c' = bank c"
        using applyTax_coin_taxed [OF assms(1) t, of "AccAddress_String k sa" ra] run inj [OF t] True by (auto split: if_splits)
      ultimately show ?thesis using assms(3) by (simp add: paid_def)
    next
      case False
      then have d: "coin_due k c sa ra coin = [(ra, tr, Denom coin, ?a)]" and "2 \<le> Amount coin" using two [OF t] by auto
      then have "collectTax k t (Denom coin) ra tr ?a c = Inr c'"
        using applyTax_coin_taxed [OF assms(1) t, of "AccAddress_String k sa" ra] run inj [OF t] False by (auto split: if_splits)
      moreover have "one_coin k (Denom coin) ?a = Inr [mk_coin (Denom coin) ?a]"
        using one_coin_ok [OF _ stored_valid [OF assms(2) g], of ?a] by simp
      ultimately have "bank c' = settle k (bank c) (ra, tr, Denom coin, ?a) \<and> store c' = store c"
        by (auto simp: collectTax_def settle_def split: sum.splits)
      moreover have "wfb (settle k (bank c) (ra, tr, Denom coin, ?a))"
        using Send_wf [OF assms(3)] assms(3) by (auto simp: settle_def split: sum.splits)
      ultimately show ?thesis by (simp add: paid_def d)
    qed
  qed
qed

lemma recipient_paid:
  assumes ok: "all_valid k c" "store_ok k c" "wfb (bank c)" and s: "AccAddressFromBech32 k s = Inr sa"
    and run: "applyTaxForRecipientCanonical k (AccAddress_String k sa) r cs c = Inr c'"
  shows "paid k wfb (transfer_dues k c (s, r, cs)) c c' \<and> transfer_treated k c (s, r, cs)"
proof -
  from run obtain ra where ra: "AccAddressFromBech32 k r = Inr ra"
    and loop: "forE (applyTax_coin k (AccAddress_String k sa) ra) cs c = Inr c'" by (auto simp: applyTaxForRecipientCanonical_def)
  have ok1: "all_valid k c1 \<and> store_ok k c1" if "store c1 = store c" for c1
    using that ok store_views(4) [of c1 c k] by (simp add: all_valid_def store_views(1) [of c1 c k])
  have D: "transfer_dues k c (s, r, cs) = concat (map (coin_due k c sa ra) cs)" by (simp add: transfer_dues_def s ra)
  have L: "paid k wfb (concat (map (coin_due k c sa ra) cs)) c c' \<and>
      (\<forall>x \<in> set cs. \<exists>c1 c2. store c1 = store c \<and> wfb (bank c1) \<and> applyTax_coin k (AccAddress_String k sa) ra x c1 = Inr c2)"
  proof (rule forE_paid [where wfb = wfb, OF loop ok(3)])
    fix x c1 c2 assume st: "store c1 = store c" and r: "wfb (bank c1)" "applyTax_coin k (AccAddress_String k sa) ra x c1 = Inr c2"
    from applyTax_coin_paid(1) [OF _ _ r(1) s ra r(2)] ok1 [OF st] show "paid k wfb (coin_due k c sa ra x) c1 c2"
      unfolding dues_store(1) [OF st] by blast
  qed
  have each: "sa = tr \<or> ra = tr \<or> Amount x = 0 \<or> 2 \<le> Amount x \<and> coin_due k c sa ra x = [(ra, tr, Denom x, max 1 (Amount x * p div dec_one))]"
    if x: "x \<in> set cs" and t: "taxed k c (Denom x) t p tr" for x t p tr
  proof -
    from L x obtain c1 c2 where c1: "store c1 = store c" "wfb (bank c1)" "applyTax_coin k (AccAddress_String k sa) ra x c1 = Inr c2" by blast
    have "taxed k c1 (Denom x) t p tr" using t store_views(1) [OF c1(1), of k] by (simp add: taxed_def)
    from applyTax_coin_paid(2) [OF _ _ c1(2) s ra c1(3) this] ok1 [OF c1(1)] show ?thesis by (simp add: dues_store(1) [OF c1(1), of k])
  qed
  have "transfer_treated k c (s, r, cs)"
    unfolding transfer_treated_def prod.case
  proof (intro exI conjI ballI allI impI, rule s, rule ra)
    fix x t p tr assume x: "x \<in> set cs" and t: "taxed k c (Denom x) t p tr"
    have "set (coin_due k c sa ra x) \<subseteq> set (transfer_dues k c (s, r, cs))" using x unfolding D by auto
    with each [OF x t] show "sa = tr \<or> ra = tr \<or> Amount x = 0 \<or>
        2 \<le> Amount x \<and> (ra, tr, Denom x, max 1 (Amount x * p div dec_one)) \<in> set (transfer_dues k c (s, r, cs))" by auto
  qed
  with L D show ?thesis by simp
qed

lemma tax_msg_paid:
  assumes run: "tax_msg k m c = Inr c'" and ok: "all_valid k c" "store_ok k c" "wfb (bank c)" and wr: "\<nexists>as. m = AuthzExec as"
  shows "paid k wfb (tax_dues k c [m]) c c' \<and> (\<forall>x \<in> set (transfers m). transfer_treated k c x)"
proof (cases m)
  case (MsgSend f t cs)
  with run obtain sa where "AccAddressFromBech32 k f = Inr sa"
    and "applyTaxForRecipientCanonical k (AccAddress_String k sa) t cs c = Inr c'" by (auto simp: tax_msg_def applyTaxForRecipient_def)
  from recipient_paid [OF ok this] MsgSend show ?thesis by (simp add: tax_dues_def)
next
  case (MsgMultiSend ins outs)
  with run obtain sa where len: "length ins = 1" and sa: "AccAddressFromBech32 k (fst (ins ! 0)) = Inr sa"
    and loop: "forE (\<lambda>out c. applyTaxForRecipientCanonical k (AccAddress_String k sa) (fst out) (snd out) c) outs c = Inr c'"
    by (auto simp: tax_msg_def split: if_splits)
  have sa: "AccAddressFromBech32 k (fst (hd ins)) = Inr sa" using len sa by (cases ins) auto
  have each: "paid k wfb (transfer_dues k c (fst (hd ins), out)) c1 c2 \<and> transfer_treated k c (fst (hd ins), out)"
    if st: "store c1 = store c" and "wfb (bank c1)" "applyTaxForRecipientCanonical k (AccAddress_String k sa) (fst out) (snd out) c1 = Inr c2" for out c1 c2
  proof -
    have "all_valid k c1" "store_ok k c1" using st ok store_views(4) [OF st, of k] by (simp_all add: all_valid_def store_views(1) [OF st, of k])
    from recipient_paid [OF this that(2) sa that(3)] show ?thesis
      using store_views(1) [OF st, of k] by (simp add: dues_store(2) [OF st] transfer_treated_def taxed_def split: prod.splits)
  qed
  have L: "paid k wfb (concat (map (\<lambda>out. transfer_dues k c (fst (hd ins), out)) outs)) c c' \<and>
      (\<forall>x \<in> set outs. \<exists>c1 c2. store c1 = store c \<and> wfb (bank c1) \<and> applyTaxForRecipientCanonical k (AccAddress_String k sa) (fst x) (snd x) c1 = Inr c2)"
    by (rule forE_paid [where wfb = wfb, OF loop ok(3)]) (use each in blast)
  moreover have "transfers m = map (Pair (fst (hd ins))) outs" using MsgMultiSend by auto
  ultimately show ?thesis using each by (auto simp: tax_dues_def comp_def)
qed (use run ok wr in \<open>auto simp: tax_msg_def tax_dues_def paid_def\<close>)

lemma applyTaxesForMsgs_paid:
  assumes "applyTaxesForMsgs k A n msgs c = Inr c'" and ok: "all_valid k c" "store_ok k c" "wfb (bank c)" and "n \<le> 3"
  shows "paid k wfb (tax_dues k c (flat_msgs A (3 - n) msgs)) c c' \<and>
    (\<forall>j m. executed A msgs j m \<longrightarrow> n + j \<le> 3 \<and> (\<forall>x \<in> set (transfers m). transfer_treated k c x))"
  using assms
proof (induction "3 - n" arbitrary: n msgs c c' rule: less_induct)
  case less
  define body where "body = (\<lambda>m c. case m of
       AuthzExec as \<Rightarrow> if 3 \<le> n then Inl (Errorf ''authz MsgExec nesting depth exceeded'')
         else tryE (authz_GetMessages A as) (\<lambda>inner. applyTaxesForMsgs k A (Suc n) inner c)
     | _ \<Rightarrow> tax_msg k m c)"
  define D where "D = (\<lambda>m. tax_dues k c (flat_msgs A (3 - n) [m]))"
  have loop: "forE body msgs c = Inr c'"
    using less.prems(1) unfolding applyTaxesForMsgs_round [of k A n] body_def .
  have same: "all_valid k c1" "store_ok k c1" "tax_dues k c1 = tax_dues k c" "transfer_treated k c1 = transfer_treated k c" if "store c1 = store c" for c1
    using that less.prems(2,3) store_views(4) [OF that, of k] store_views(1) [OF that, of k]
    by (simp_all add: all_valid_def tax_dues_def dues_store(2) [OF that] transfer_treated_def taxed_def fun_eq_iff)
  have step: "paid k wfb (D m) c1 c2 \<and> (case m of
        AuthzExec as \<Rightarrow> \<forall>inner. authz_GetMessages A as = Inr inner \<longrightarrow>
          (\<forall>j x. executed A inner j x \<longrightarrow> Suc n + j \<le> 3 \<and> (\<forall>y \<in> set (transfers x). transfer_treated k c y))
      | _ \<Rightarrow> \<forall>y \<in> set (transfers m). transfer_treated k c y)"
    if st: "store c1 = store c" and wf: "wfb (bank c1)" and run: "body m c1 = Inr c2" for m c1 c2
  proof (cases "\<exists>as. m = AuthzExec as")
    case True
    then obtain as where as: "m = AuthzExec as" by blast
    with run obtain inner where n: "n < 3" and i: "authz_GetMessages A as = Inr inner"
      and r: "applyTaxesForMsgs k A (Suc n) inner c1 = Inr c2"
      by (auto simp: body_def split: if_splits)
    have "paid k wfb (tax_dues k c1 (flat_msgs A (3 - Suc n) inner)) c1 c2 \<and>
        (\<forall>j x. executed A inner j x \<longrightarrow> Suc n + j \<le> 3 \<and> (\<forall>y \<in> set (transfers x). transfer_treated k c1 y))"
      by (rule less.hyps [OF _ r same(1,2) [OF st] wf]) (use n in auto)
    moreover have "3 - n = Suc (3 - Suc n)" using n by simp
    ultimately show ?thesis using as i by (simp add: D_def same(3,4) [OF st])
  next
    case False
    then have "tax_msg k m c1 = Inr c2" using run by (cases m) (auto simp: body_def)
    from tax_msg_paid [OF this same(1,2) [OF st] wf False]
    have "paid k wfb (tax_dues k c [m]) c1 c2 \<and> (\<forall>y \<in> set (transfers m). transfer_treated k c y)" unfolding same(3,4) [OF st] by blast
    moreover have "flat_msgs A l [m] = [m]" for l using False by (cases l) (simp_all split: sdk_msg.splits)
    ultimately show ?thesis using False by (cases m) (auto simp: D_def)
  qed
  have Q: "paid k wfb (concat (map D msgs)) c c' \<and> (\<forall>m \<in> set msgs. \<exists>c1 c2. store c1 = store c \<and> wfb (bank c1) \<and> body m c1 = Inr c2)"
    by (rule forE_paid [where wfb = wfb, OF loop less.prems(4)]) (use step in blast)
  have "concat (map D msgs) = tax_dues k c (flat_msgs A (3 - n) msgs)"
    unfolding D_def by (cases "3 - n") (simp_all add: tax_dues_concat comp_def)
  moreover have "n + j \<le> 3 \<and> (\<forall>x \<in> set (transfers m). transfer_treated k c x)" if "executed A msgs j m" for j m
    using executed_split [OF that]
  proof (elim disjE exE conjE)
    assume m: "m \<in> set msgs" and j: "j = 0"
    from Q m obtain c1 c2 where "store c1 = store c" "wfb (bank c1)" "body m c1 = Inr c2" by blast
    from step [OF this] show ?thesis using j less.prems(5) by (cases m) auto
  next
    fix as inner i assume as: "AuthzExec as \<in> set msgs" and i: "authz_GetMessages A as = Inr inner" and e: "executed A inner i m" and j: "j = Suc i"
    from Q as obtain c1 c2 where "store c1 = store c" "wfb (bank c1)" "body (AuthzExec as) c1 = Inr c2" by blast
    from step [OF this] i e j show ?thesis by simp
  qed
  ultimately show ?case using Q by simp
qed

lemma settle_effect:
  assumes "wfb b"
  shows "wfb (settle k b (ra, tr, d, a))"
    and "(\<exists>e. SendCoins (bankKeeper k) b ra tr [mk_coin d a] = Inl e) \<and> settle k b (ra, tr, d, a) = b \<or>
      (\<forall>e. bsupply (bankKeeper k) (settle k b (ra, tr, d, a)) e = bsupply (bankKeeper k) b e) \<and>
      (\<forall>x e. bal (bankKeeper k) (settle k b (ra, tr, d, a)) x e = bal (bankKeeper k) b x e +
         (if e = d then (if x = tr then a else 0) - (if x = ra then a else 0) else 0))"
  using assms Send_wf [OF assms] Send_supply [OF assms] Send_bal [OF assms]
  by (auto simp: settle_def split: sum.splits)

lemma settle_all_wf: "wfb b \<Longrightarrow> wfb (foldl (settle k) b D)"
  by (induction D arbitrary: b) (auto simp: settle_effect(1) split_paired_all)

end

section \<open>A scenario\<close>

text \<open>Alice issues 100 units of \<open>CD_0\<close> with a tax of 10 percent for Carol and sends 45 to Bob.\<close>

definition demo_taxed :: MsgCreateToken where
  "demo_taxed = demo_create\<lparr>mcSymbol := ''CD'', mcInitialSupply := Some 100, mcTotalSupply := Some 100,
     mcTax := \<lparr>txPercent = Some (10 ^ 17), txRecipientAddress = ''carol''\<rparr>\<rparr>"

definition demo2 :: ref_ctx where "demo2 = ran (CreateToken ref_k demo_taxed empty_ctx)"

definition demo_pay :: "ref_any sdk_msg" where
  "demo_pay = MsgSend ''alice'' ''bob'' [mk_coin ''CD_0'' 45]"

definition demo_sent :: ref_ctx where
  "demo_sent = demo2\<lparr>bank := (case lg_Send (bank demo2) ''alice'' ''bob'' [mk_coin ''CD_0'' 45] of
     Inr b \<Rightarrow> b | Inl _ \<Rightarrow> bank demo2)\<rparr>"

lemma demo2_run: "\<exists>r. CreateToken ref_k demo_taxed empty_ctx = Inr (r, demo2)"
proof -
  have "\<not> isl (CreateToken ref_k demo_taxed empty_ctx)" by code_simp
  from ran_ok [OF this] show ?thesis by (simp add: demo2_def)
qed

lemma demo2_steps: "(stoc_step ref_k ledger_ok)\<^sup>*\<^sup>* empty_ctx demo2"
  using demo2_run stoc_step.create by blast

lemma demo2_inv: "supply_inv ref_k ledger_ok demo2"
  by (rule refenv.steps_supply_inv [OF demo2_steps empty_supply_inv])

lemma demo2_valid: "all_valid ref_k demo2"
proof (rule refenv.steps_all_valid [OF demo2_steps empty_supply_inv])
  show "all_valid ref_k empty_ctx"
    by (simp add: all_valid_def GetToken_def ref_k_def empty_ctx_def ref_kv_def)
qed

lemma demo_sent_bank:
  "SendCoins (bankKeeper ref_k) (bank demo2) ''alice'' ''bob'' [mk_coin ''CD_0'' 45] = Inr (bank demo_sent)"
proof -
  have "\<not> isl (lg_Send (bank demo2) ''alice'' ''bob'' [mk_coin ''CD_0'' 45])" by code_simp
  then show ?thesis
    by (cases "lg_Send (bank demo2) ''alice'' ''bob'' [mk_coin ''CD_0'' 45]")
      (simp_all add: demo_sent_def ref_k_def ref_bank_def)
qed

lemma demo2_wf: "ledger_ok (bank demo2)"
  using demo2_inv by (simp add: supply_inv_def)

lemma demo_sent_quiet: "quiet ref_k ledger_ok demo2 demo_sent"
proof -
  have m: "modAddr ref_k = ''modulestoc''" by (simp add: ref_k_def)
  have st: "store demo_sent = store demo2" by (simp add: demo_sent_def)
  show ?thesis
    using refenv.Send_wf [OF demo2_wf demo_sent_bank] refenv.Send_supply [OF demo2_wf demo_sent_bank]
      refenv.Send_bal [OF demo2_wf demo_sent_bank] by (simp add: quiet_def st m)
qed

lemma demo_sent_bal: "45 \<le> bal_of ref_k demo_sent ''bob'' ''CD_0''"
  using refenv.Send_bal [OF demo2_wf demo_sent_bank, of "''bob''" "''CD_0''"]
    refenv.bal_nonneg [OF demo2_wf, of "''bob''" "''CD_0''"] by simp

lemma demo_sent_ok: "supply_inv ref_k ledger_ok demo_sent" "all_valid ref_k demo_sent"
  using refenv.step_supply_inv [OF quiet_step [OF demo_sent_quiet] demo2_inv]
    quiet_views [OF demo_sent_quiet] demo2_valid by auto

lemma demo_taxed_token: "\<exists>t. taxed ref_k demo2 ''CD_0'' t (10 ^ 17) ''carol'' \<and> taxed ref_k demo_sent ''CD_0'' t (10 ^ 17) ''carol''"
proof -
  have "case GetToken ref_k demo2 ''CD_0'' of None \<Rightarrow> False | Some t \<Rightarrow> txPercent (tkTax t) = Some (10 ^ 17) \<and>
      AccAddressFromBech32 ref_k (txRecipientAddress (tkTax t)) = Inr ''carol''" by code_simp
  moreover have "\<not> IsNativeDenom ref_k ''CD_0''" by code_simp
  moreover have "GetToken ref_k demo_sent = GetToken ref_k demo2" using quiet_views [OF demo_sent_quiet] by blast
  ultimately show ?thesis by (auto simp: taxed_def split: option.splits)
qed

section \<open>Theorems\<close>

lemma tax_run:
  assumes "stoc_env k wfb" and "supply_inv k wfb c" and "all_valid k c"
    and "taxed k c (Denom coin) t p tr" and "2 \<le> Amount coin"
    and "AccAddressFromBech32 k sender = Inr sa" and "AccAddressFromBech32 k recipient = Inr ra"
    and "sa \<noteq> tr" and "ra \<noteq> tr" and "tax = max 1 (Amount coin * p div dec_one)"
  shows "applyTaxForRecipient k sender recipient [coin] c = collectTax k t (Denom coin) ra tr tax c"
    and "1 \<le> tax" and "tax \<le> Amount coin div 2" and "ValidateDenom k (Denom coin) = Inr ()"
proof -
  have sdk: "sdk_laws k" using assms(1) by (simp add: stoc_env_def)
  then have cod: "bech32_codec k" and dec: "legacy_dec k" by (simp_all add: sdk_laws_def)
  have tr: "AccAddressFromBech32 k (txRecipientAddress (tkTax t)) = Inr tr"
    and g: "GetToken k c (Denom coin) = Some t" using assms(4) by (simp_all add: taxed_def)
  have p: "0 < p" "p \<le> MaxTaxPercent"
    using stoc_env.taxed_token [OF assms(1,3) g] assms(4) by (auto simp: taxed_def)
  show "ValidateDenom k (Denom coin) = Inr ()"
    using stoc_env.stored_valid [OF assms(1) _ g] assms(2) by (simp add: supply_inv_def)
  have "AccAddress_String k sa \<noteq> AccAddress_String k tr" "AccAddress_String k ra \<noteq> AccAddress_String k tr"
    using bech32_codec.String_inject [OF cod assms(6) tr] bech32_codec.String_inject [OF cod assms(7) tr] assms(8,9)
    by auto
  with stoc_env.applyTax_coin_taxed [OF assms(1,3,4), of "AccAddress_String k sa" ra] assms(5,10)
  show "applyTaxForRecipient k sender recipient [coin] c = collectTax k t (Denom coin) ra tr tax c"
    by (auto simp: applyTaxForRecipient_def applyTaxForRecipientCanonical_def assms(6,7) tryE_def
        split: sum.splits)
  have "Inr tax = taxAmount k (Amount coin) p"
    using legacy_dec.taxAmount_eq [OF dec assms(5) p(1)] p(2) assms(10) by (simp add: min_def)
  then show "1 \<le> tax" "tax \<le> Amount coin div 2"
    using assms(5,10) by (auto simp: taxAmount_def Let_def IntQuo_def split: if_splits)
qed

lemma tax_applied:
  assumes "stoc_env k wfb" and "supply_inv k wfb c" and "all_valid k c"
    and "taxed k c (Denom coin) t p tr" and "2 \<le> Amount coin"
    and "AccAddressFromBech32 k sender = Inr sa" and "AccAddressFromBech32 k recipient = Inr ra"
    and "sa \<noteq> tr" and "ra \<noteq> tr" and "tax = max 1 (Amount coin * p div dec_one)"
  shows "\<exists>c'. applyTaxForRecipient k sender recipient [coin] c = Inr c' \<and> 1 \<le> tax \<and> tax \<le> Amount coin div 2 \<and>
    ((\<exists>e. SendCoins (bankKeeper k) (bank c) ra tr [mk_coin (Denom coin) tax] = Inl e) \<and> c' = c \<or>
     store c' = store c \<and> (\<forall>e. sup_of k c' e = sup_of k c e) \<and>
     (\<forall>x e. bal_of k c' x e = bal_of k c x e +
        (if e = Denom coin then (if x = tr then tax else 0) - (if x = ra then tax else 0) else 0)))"
proof -
  note R = tax_run [OF assms]
  have "wfb (bank c)" "0 < tax" using assms(2) R(2) by (simp_all add: supply_inv_def)
  from stoc_env.collectTax_cases [OF assms(1) this R(4), of ra tr t] R show ?thesis by auto
qed

text \<open>The tax on a transfer is exact. For a transfer of at least two units of a taxed token between
  two accounts of which neither is the tax recipient, the handler succeeds; the tax is the token's
  percentage of the amount rounded down, but at least one unit, and never more than half of the
  amount; either the bank refuses the tax payment and the state is unchanged, or exactly the tax
  moves from the recipient of the transfer to the tax recipient, with all supplies and the module's
  store unchanged.
\<close>

theorem tax_exact:
  assumes "stoc_env k wfb" and "supply_inv k wfb c" and "all_valid k c"
    and "taxed k c (Denom coin) t p tr" and "2 \<le> Amount coin"
    and "AccAddressFromBech32 k sender = Inr sa" and "AccAddressFromBech32 k recipient = Inr ra"
    and "sa \<noteq> tr" and "ra \<noteq> tr" and "tax = max 1 (Amount coin * p div dec_one)"
  shows "\<exists>c'. applyTaxForRecipient k sender recipient [coin] c = Inr c' \<and> 1 \<le> tax \<and> tax \<le> Amount coin div 2 \<and>
    ((\<exists>e. SendCoins (bankKeeper k) (bank c) ra tr [mk_coin (Denom coin) tax] = Inl e) \<and> c' = c \<or>
     store c' = store c \<and> (\<forall>e. sup_of k c' e = sup_of k c e) \<and>
     (\<forall>x e. bal_of k c' x e = bal_of k c x e +
        (if e = Denom coin then (if x = tr then tax else 0) - (if x = ra then tax else 0) else 0)))"
  by (rule tax_applied [OF assms])

theorem tax_exact_witness:
  "\<exists>c'. applyTaxForRecipient ref_k ''alice'' ''bob'' [mk_coin ''CD_0'' 45] demo_sent = Inr c' \<and>
     bal_of ref_k c' ''carol'' ''CD_0'' = bal_of ref_k demo_sent ''carol'' ''CD_0'' + 4"
proof -
  let ?coin = "mk_coin ''CD_0'' 45"
  have d: "Denom ?coin = ''CD_0''" and two: "2 \<le> Amount ?coin"
    and tax: "4 = max 1 (Amount ?coin * 10 ^ 17 div dec_one)" by simp_all
  have ne: "''alice'' \<noteq> ''carol''" "''bob'' \<noteq> ''carol''" "''carol'' \<noteq> ''bob''" by simp_all
  obtain t where t: "taxed ref_k demo_sent (Denom ?coin) t (10 ^ 17) ''carol''"
    unfolding d using demo_taxed_token by blast
  have a: "AccAddressFromBech32 ref_k ''alice'' = Inr ''alice''" "AccAddressFromBech32 ref_k ''bob'' = Inr ''bob''"
    by code_simp+
  have s: "SendCoins (bankKeeper ref_k) (bank demo_sent) ''bob'' ''carol'' [mk_coin ''CD_0'' 4] \<noteq> Inl e" for e
    using demo_sent_bal by (simp add: ref_k_def ref_bank_def lg_Send_def all_nonneg_def covers_def)
  from tax_exact [OF refenv.stoc_env_axioms demo_sent_ok t two a ne(1,2) tax, unfolded d]
  obtain c' where run: "applyTaxForRecipient ref_k ''alice'' ''bob'' [?coin] demo_sent = Inr c'"
    and "\<forall>x e. bal_of ref_k c' x e = bal_of ref_k demo_sent x e + (if e = ''CD_0''
      then (if x = ''carol'' then 4 else 0) - (if x = ''bob'' then 4 else 0) else 0)"
    using s by blast
  then have "bal_of ref_k c' ''carol'' ''CD_0'' = bal_of ref_k demo_sent ''carol'' ''CD_0'' + 4"
    using ne(3) by (simp only: if_True if_False refl simp_thms diff_0_right)
  with run show ?thesis by blast
qed

text \<open>Collecting taxes is harmless to the books. When the post handler runs after the messages of a
  transaction none of whose transfers pays the module account, and hands on, then what it did before
  handing on is a step of the transition system that changes no supply and nothing in the module's
  store, so the supply invariant is kept.
\<close>

theorem PostHandle_keeps_books:
  assumes "stoc_env k wfb" and "supply_inv k wfb c" and "all_valid k c"
    and "\<forall>j m. executed A (GetMsgs tx) j m \<longrightarrow> safe_msg k m"
    and "PostHandle k A nxt c tx False True = Inr c'"
  shows "\<exists>c1. stoc_step k wfb c c1 \<and> supply_inv k wfb c1 \<and> store c1 = store c \<and>
    (\<forall>e. sup_of k c1 e = sup_of k c e) \<and> nxt c1 tx False True = Inr c'"
proof -
  from assms(5) obtain c1 where run: "applyTaxesForMsgs k A 0 (GetMsgs tx) c = Inr c1"
    and n: "nxt c1 tx False True = Inr c'" by (auto simp: PostHandle_def applyTaxes_def)
  have ok: "store_ok k c" "wfb (bank c)" using assms(2) by (simp_all add: supply_inv_def)
  have q: "quiet k wfb c c1"
    using stoc_env.applyTaxesForMsgs_quiet [OF assms(1) run assms(3) ok] assms(4) by blast
  with quiet_step [OF q] stoc_env.step_supply_inv [OF assms(1) quiet_step [OF q] assms(2)] n show ?thesis
    by (auto simp: quiet_def)
qed

definition demo_nextp :: "ref_ctx \<Rightarrow> ref_any tx \<Rightarrow> bool \<Rightarrow> bool \<Rightarrow> ref_ctx res" where
  "demo_nextp c tx sim success = Inr c"

lemma demo_executed: "executed ref_api [demo_exec demo_pay] j m \<Longrightarrow> m = demo_exec demo_pay \<or> m = demo_pay"
  by (induction rule: executed.induct) (auto simp: demo_exec_def demo_pay_def ref_api_def ref_unpack_def)

lemma demo_safe: "\<forall>j m. executed ref_api (GetMsgs (ref_tx [demo_exec demo_pay])) j m \<longrightarrow> safe_msg ref_k m"
proof -
  have "AccAddressFromBech32 ref_k ''bob'' \<noteq> Inr (modAddr ref_k)" by code_simp
  then have "safe_msg ref_k demo_pay" "safe_msg ref_k (demo_exec demo_pay)"
    by (simp_all add: safe_msg_def demo_pay_def demo_exec_def)
  then show ?thesis using demo_executed by (auto simp: ref_tx_def)
qed

lemma demo_post_run:
  "PostHandle ref_k ref_api demo_nextp c (ref_tx [demo_exec demo_pay]) False True
     = applyTaxForRecipient ref_k ''alice'' ''bob'' [mk_coin ''CD_0'' 45] c"
  by (simp add: PostHandle_def applyTaxes_def applyTaxesForMsgs.simps ref_tx_def demo_exec_def demo_pay_def
      ref_api_def ref_unpack_def demo_nextp_def MaxAuthzUnwrapDepth_def tryE_def split: sum.splits)

lemma demo_pay_taxed:
  "\<exists>c'. applyTaxForRecipient ref_k ''alice'' ''bob'' [mk_coin ''CD_0'' 45] demo_sent = Inr c'"
proof -
  obtain t where t: "taxed ref_k demo_sent (Denom (mk_coin ''CD_0'' 45)) t (10 ^ 17) ''carol''"
    using demo_taxed_token by auto
  have a: "AccAddressFromBech32 ref_k ''alice'' = Inr ''alice''" "AccAddressFromBech32 ref_k ''bob'' = Inr ''bob''"
    by code_simp+
  have "2 \<le> Amount (mk_coin ''CD_0'' 45)" "''alice'' \<noteq> ''carol''" "''bob'' \<noteq> ''carol''" by simp_all
  from tax_applied [OF refenv.stoc_env_axioms demo_sent_ok t this(1) a this(2,3) refl] show ?thesis by blast
qed

theorem PostHandle_keeps_books_witness:
  "\<exists>c'. PostHandle ref_k ref_api demo_nextp demo_sent (ref_tx [demo_exec demo_pay]) False True = Inr c' \<and>
     supply_inv ref_k ledger_ok c'"
proof -
  obtain c' where run: "PostHandle ref_k ref_api demo_nextp demo_sent (ref_tx [demo_exec demo_pay]) False True = Inr c'"
    unfolding demo_post_run using demo_pay_taxed by blast
  from PostHandle_keeps_books [OF refenv.stoc_env_axioms demo_sent_ok demo_safe run]
  obtain c1 where "supply_inv ref_k ledger_ok c1" and "demo_nextp c1 (ref_tx [demo_exec demo_pay]) False True = Inr c'"
    by blast
  then have "supply_inv ref_k ledger_ok c'" by (simp add: demo_nextp_def)
  with run show ?thesis by blast
qed

lemma carried_due:
  assumes "stoc_env k wfb" and "supply_inv k wfb c0" and "CustomTokenChainOpsRestriction k A nxt c0 tx False = Inr ca"
    and "(stoc_step k wfb)\<^sup>*\<^sup>* c0 c"
    and E: "\<And>j m. executed A (GetMsgs tx) j m \<Longrightarrow> j \<le> 3 \<and> (\<forall>x \<in> set (transfers m). transfer_treated k c x)"
    and car: "carried A False (GetMsgs tx) n q m" and tf: "(s, r, cs) \<in> set (transfers m)" "coin \<in> set cs" and T: "taxed k c0 (Denom coin) t p tr"
  shows "\<exists>sa ra. AccAddressFromBech32 k s = Inr sa \<and> AccAddressFromBech32 k r = Inr ra \<and> (sa = tr \<or> ra = tr \<or> Amount coin = 0 \<or>
      2 \<le> Amount coin \<and> (ra, tr, Denom coin, max 1 (Amount coin * p div dec_one)) \<in> set (tax_dues k c (flat_msgs A 3 (GetMsgs tx))))"
proof -
  let ?dues = "tax_dues k c (flat_msgs A 3 (GetMsgs tx))"
  have "HasToken k c0 (Denom coin)" using T by (auto simp: taxed_def HasToken_def GetToken_def split: option.splits)
  then have "Denom coin \<in> custom k c0" using T by (simp add: custom_def taxed_def)
  moreover have "ops_denoms q m \<inter> custom k c0 = {}"
    using stoc_env.ops_accepts_iff [OF assms(1), of A c0 0 False "GetMsgs tx"] assms(3) car by (auto simp: CustomTokenChainOpsRestriction_def)
  ultimately have "\<not> q" using transfers_ops [OF tf] by (cases q) auto
  then have ex: "executed A (GetMsgs tx) n m" using carried_executed [OF car] by blast
  have "GetToken k c0 (Denom coin) = Some t" using T by (simp add: taxed_def)
  with stoc_env.steps_config [OF assms(1,4,2), of "Denom coin" t] obtain t'
    where "GetToken k c (Denom coin) = Some t'" "tkTax t' = tkTax t" using config_tax by blast
  then have T': "taxed k c (Denom coin) t' p tr" using T by (simp add: taxed_def)
  have "\<nexists>as. m = AuthzExec as" using tf(1) by auto
  then have "m \<in> set (flat_msgs A 3 (GetMsgs tx))" using flat_msgs_mem [OF ex] E [OF ex] by blast
  then have sub: "set (transfer_dues k c (s, r, cs)) \<subseteq> set ?dues" using tf(1) by (auto simp: tax_dues_def)
  have "transfer_treated k c (s, r, cs)" using E [OF ex] tf(1) by blast
  then obtain sa ra where a: "AccAddressFromBech32 k s = Inr sa" "AccAddressFromBech32 k r = Inr ra"
    and tr: "\<forall>coin \<in> set cs. \<forall>t p tr. taxed k c (Denom coin) t p tr \<longrightarrow> sa = tr \<or> ra = tr \<or> Amount coin = 0 \<or>
    2 \<le> Amount coin \<and> (ra, tr, Denom coin, max 1 (Amount coin * p div dec_one)) \<in> set (transfer_dues k c (s, r, cs))"
    unfolding transfer_treated_def prod.case by blast
  from bspec [OF tr tf(2)] T' have "sa = tr \<or> ra = tr \<or> Amount coin = 0 \<or>
    2 \<le> Amount coin \<and> (ra, tr, Denom coin, max 1 (Amount coin * p div dec_one)) \<in> set (transfer_dues k c (s, r, cs))" by blast
  then show ?thesis using a sub by (intro exI [of _ sa] exI [of _ ra]) auto
qed

text \<open>C3. No custom-token transfer of an admitted transaction goes untaxed by the walk. When the chain-operation decorator has admitted a transaction and
  the post handler runs on the state its messages left, the state handed on has the same store and the bank that paying
  the list of dues leaves: one entry for every coin of every executed transfer that is not exempt. Every coin of a taxed
  token in a transfer that the transaction carries at any nesting is exempt by rule (a party is the tax recipient, or the amount
  is zero) or has its exact tax in that list. Paying an entry either moves exactly its amount from
  the receiver to the tax recipient, or the bank refuses it and it is dropped, so that the transfer stands
  without its tax; nothing else changes.\<close>

theorem every_transfer_taxed:
  assumes "stoc_env k wfb" and "supply_inv k wfb c0" and "all_valid k c0"
    and "CustomTokenChainOpsRestriction k A nxt c0 tx False = Inr ca" and "(stoc_step k wfb)\<^sup>*\<^sup>* c0 c"
    and "PostHandle k A pnxt c tx False True = Inr c'"
  shows "\<exists>cp dues. pnxt cp tx False True = Inr c' \<and> store cp = store c \<and> bank cp = foldl (settle k) (bank c) dues \<and>
    dues = tax_dues k c (flat_msgs A 3 (GetMsgs tx)) \<and>
    (\<forall>n q m s r cs coin t p tr. carried A False (GetMsgs tx) n q m \<longrightarrow> (s, r, cs) \<in> set (transfers m) \<longrightarrow> coin \<in> set cs \<longrightarrow>
       taxed k c0 (Denom coin) t p tr \<longrightarrow> (\<exists>sa ra. AccAddressFromBech32 k s = Inr sa \<and> AccAddressFromBech32 k r = Inr ra \<and>
         (sa = tr \<or> ra = tr \<or> Amount coin = 0 \<or>
          2 \<le> Amount coin \<and> (ra, tr, Denom coin, max 1 (Amount coin * p div dec_one)) \<in> set dues))) \<and>
    (\<forall>ds ra tr d a es. dues = ds @ (ra, tr, d, a) # es \<longrightarrow> (let b = foldl (settle k) (bank c) ds; b' = settle k b (ra, tr, d, a) in
       (\<exists>e. SendCoins (bankKeeper k) b ra tr [mk_coin d a] = Inl e) \<and> b' = b \<or>
       (\<forall>e. bsupply (bankKeeper k) b' e = bsupply (bankKeeper k) b e) \<and>
       (\<forall>x e. bal (bankKeeper k) b' x e = bal (bankKeeper k) b x e +
          (if e = d then (if x = tr then a else 0) - (if x = ra then a else 0) else 0))))"
proof -
  have inv: "supply_inv k wfb c" "all_valid k c"
    by (rule stoc_env.steps_supply_inv [OF assms(1,5,2)], rule stoc_env.steps_all_valid [OF assms(1,5,2,3)])
  then have ok: "store_ok k c" "wfb (bank c)" by (simp_all add: supply_inv_def)
  from assms(6) obtain cp where run: "applyTaxesForMsgs k A 0 (GetMsgs tx) c = Inr cp" and n: "pnxt cp tx False True = Inr c'"
    by (auto simp: PostHandle_def applyTaxes_def)
  define dues where "dues = tax_dues k c (flat_msgs A 3 (GetMsgs tx))"
  note AP = stoc_env.applyTaxesForMsgs_paid [OF assms(1) run inv(2) ok le0]
  have P: "store cp = store c" "bank cp = foldl (settle k) (bank c) dues"
    using AP [THEN conjunct1] unfolding dues_def paid_def diff_zero by blast+
  have E: "j \<le> 3 \<and> (\<forall>x \<in> set (transfers m). transfer_treated k c x)" if "executed A (GetMsgs tx) j m" for j m
    using AP [THEN conjunct2, rule_format, OF that] by simp
  note C = carried_due [OF assms(1,2,4,5) E, folded dues_def]
  have S: "let b = foldl (settle k) (bank c) ds; b' = settle k b (ra, tr, d, a) in
       (\<exists>e. SendCoins (bankKeeper k) b ra tr [mk_coin d a] = Inl e) \<and> b' = b \<or>
       (\<forall>e. bsupply (bankKeeper k) b' e = bsupply (bankKeeper k) b e) \<and>
       (\<forall>x e. bal (bankKeeper k) b' x e = bal (bankKeeper k) b x e + (if e = d then (if x = tr then a else 0) - (if x = ra then a else 0) else 0))"
    for ds ra tr d a
    using stoc_env.settle_effect(2) [OF assms(1) stoc_env.settle_all_wf [OF assms(1) ok(2)], of ds ra tr d a] by (simp add: Let_def)
  show ?thesis
  proof (intro exI [of _ cp] exI [of _ dues] conjI n P dues_def)
    show "\<forall>n q m s r cs coin t p tr. carried A False (GetMsgs tx) n q m \<longrightarrow> (s, r, cs) \<in> set (transfers m) \<longrightarrow> coin \<in> set cs \<longrightarrow>
       taxed k c0 (Denom coin) t p tr \<longrightarrow> (\<exists>sa ra. AccAddressFromBech32 k s = Inr sa \<and> AccAddressFromBech32 k r = Inr ra \<and>
         (sa = tr \<or> ra = tr \<or> Amount coin = 0 \<or>
          2 \<le> Amount coin \<and> (ra, tr, Denom coin, max 1 (Amount coin * p div dec_one)) \<in> set dues))"
      by (intro allI impI) (rule C)
  qed (intro allI impI S)
qed

theorem every_transfer_taxed_witness:
  "\<exists>cp. demo_nextp cp (ref_tx [demo_exec demo_pay]) False True = Inr cp \<and> bank cp = settle ref_k (bank demo_sent) (''bob'', ''carol'', ''CD_0'', 4) \<and>
     (''bob'', ''carol'', ''CD_0'', 4) \<in> set (tax_dues ref_k demo_sent (flat_msgs ref_api 3 [demo_exec demo_pay]))"
proof -
  let ?tx = "ref_tx [demo_exec demo_pay]"
  have "\<not> isl (ops_checkMsgs ref_k ref_api demo2 0 False [demo_exec demo_pay])" by code_simp
  then have ante: "CustomTokenChainOpsRestriction ref_k ref_api demo_next demo2 ?tx False = Inr demo2"
    by (simp add: CustomTokenChainOpsRestriction_def demo_next_def ref_tx_def guard_ok)
  obtain c' where post: "PostHandle ref_k ref_api demo_nextp demo_sent ?tx False True = Inr c'"
    unfolding demo_post_run using demo_pay_taxed by blast
  have ran: "(stoc_step ref_k ledger_ok)\<^sup>*\<^sup>* demo2 demo_sent" using quiet_step [OF demo_sent_quiet] by blast
  have dues: "tax_dues ref_k demo_sent (flat_msgs ref_api 3 [demo_exec demo_pay]) = [(''bob'', ''carol'', ''CD_0'', 4)]" by code_simp
  from every_transfer_taxed [OF refenv.stoc_env_axioms demo2_inv demo2_valid ante ran post] obtain cp
    where "demo_nextp cp ?tx False True = Inr c'" "bank cp = foldl (settle ref_k) (bank demo_sent) (tax_dues ref_k demo_sent (flat_msgs ref_api 3 (GetMsgs ?tx)))"
    by blast
  then show ?thesis using dues by (auto simp: demo_nextp_def ref_tx_def)
qed

text \<open>A tax payment the bank refuses is dropped and the transfer stands: for a transfer of at least two
  units of a taxed token, neither party being the tax recipient, a refused payment makes the
  handler hand on with the state unchanged.
\<close>

theorem refused_tax_is_dropped:
  assumes "stoc_env k wfb" and "supply_inv k wfb c" and "all_valid k c"
    and "taxed k c (Denom coin) t p tr" and "2 \<le> Amount coin"
    and "AccAddressFromBech32 k sender = Inr sa" and "AccAddressFromBech32 k recipient = Inr ra"
    and "sa \<noteq> tr" and "ra \<noteq> tr"
    and "SendCoins (bankKeeper k) (bank c) ra tr [mk_coin (Denom coin) (max 1 (Amount coin * p div dec_one))] = Inl e"
    and "GetMsgs tx = [MsgSend sender recipient [coin]]"
  shows "PostHandle k A nxt c tx False True = nxt c tx False True"
proof -
  define tax where "tax = max 1 (Amount coin * p div dec_one)"
  note R = tax_run [OF assms(1-9) tax_def]
  have "coin_api k" using assms(1) by (simp add: stoc_env_def sdk_laws_def)
  from coin_api.one_coin_ok [OF this _ R(4), of tax] R(2)
  have "one_coin k (Denom coin) tax = Inr [mk_coin (Denom coin) tax]" by simp
  with R(1) assms(10) have "applyTaxForRecipient k sender recipient [coin] c = Inr c"
    by (simp add: collectTax_def flip: tax_def)
  then show ?thesis by (simp add: PostHandle_def applyTaxes_def applyTaxesForMsgs.simps assms(11))
qed

theorem refused_tax_is_dropped_witness:
  "PostHandle ref_k ref_api demo_nextp demo2 (ref_tx [demo_pay]) False True = Inr demo2"
proof -
  let ?coin = "mk_coin ''CD_0'' 45"
  have d: "Denom ?coin = ''CD_0''" and two: "2 \<le> Amount ?coin" and a: "Amount ?coin = 45" by simp_all
  obtain t where t: "taxed ref_k demo2 (Denom ?coin) t (10 ^ 17) ''carol''"
    unfolding d using demo_taxed_token by blast
  have ad: "AccAddressFromBech32 ref_k ''alice'' = Inr ''alice''" "AccAddressFromBech32 ref_k ''bob'' = Inr ''bob''"
    by code_simp+
  have ne: "''alice'' \<noteq> ''carol''" "''bob'' \<noteq> ''carol''" and tax: "max 1 (45 * 10 ^ 17 div dec_one) = (4 :: int)" by simp_all
  have "isl (SendCoins (bankKeeper ref_k) (bank demo2) ''bob'' ''carol'' [mk_coin ''CD_0'' 4])" by code_simp
  then obtain e where "SendCoins (bankKeeper ref_k) (bank demo2) ''bob'' ''carol'' [mk_coin ''CD_0'' 4] = Inl e"
    by (auto simp: isl_def)
  then have e: "SendCoins (bankKeeper ref_k) (bank demo2) ''bob'' ''carol''
      [mk_coin (Denom ?coin) (max 1 (Amount ?coin * 10 ^ 17 div dec_one))] = Inl e" unfolding d a tax .
  have "GetMsgs (ref_tx [demo_pay]) = [MsgSend ''alice'' ''bob'' [?coin]]" by (simp add: ref_tx_def demo_pay_def)
  from refused_tax_is_dropped [OF refenv.stoc_env_axioms demo2_inv demo2_valid t two ad ne e this,
      of ref_api demo_nextp] show ?thesis by (simp only: demo_nextp_def)
qed

end
