(* ===== verification/Evm_Bank.thy ===== *)
theory Evm_Bank
  imports Ref_Keeper
begin

text \<open>
  The bank as the EVM sees it (\<^verbatim>\<open>x/evmutil/keeper/bank_keeper.go\<close>): a wrapper around the bank
  keeper that shows the 6-decimal native coin as an 18-decimal one and hides all other
  denominations. One unit of the Cosmos denomination is \<open>ConversionMultiplier\<close> units of the EVM
  denomination. Payments into a module round up, everything else rounds down; a part that rounds
  down to nothing is dropped with an event.

  The bank interface of the module (\<^verbatim>\<open>x/evmutil/types/expected_keepers.go\<close>) extends the one of the
  token module. An iteration with a callback is a list that is walked until the callback stops it.
  The context of a call is the bank's state and the events, if an SDK context is wrapped in it.
\<close>

section \<open>State\<close>

record 'b FullBankKeeper = "'b BankKeeper" +
  SendCoinsFromModuleToModule :: "'b \<Rightarrow> string \<Rightarrow> string \<Rightarrow> coins \<Rightarrow> 'b res"
  SpendableCoin :: "'b \<Rightarrow> addr \<Rightarrow> denom \<Rightarrow> coin"
  LockedCoins :: "'b \<Rightarrow> addr \<Rightarrow> coins"
  GetDenomMetaData :: "'b \<Rightarrow> denom \<Rightarrow> metadata option"
  IsSendEnabledCoin :: "'b \<Rightarrow> coin \<Rightarrow> bool"
  IsSendEnabledCoins :: "'b \<Rightarrow> coins \<Rightarrow> unit res"
  IterateAllBalances :: "'b \<Rightarrow> (addr \<times> coin) list"
  IterateTotalSupply :: "'b \<Rightarrow> coins"

record 'b EvmBankKeeper =
  eb_bank :: "'b FullBankKeeper"
  eb_evmDenom :: denom
  eb_cosmosDenom :: denom

record 'b evmctx =
  ebank :: 'b
  eevents :: "event list option"

definition NewEvmBankKeeper :: "'x sdk_scheme \<Rightarrow> 'b FullBankKeeper \<Rightarrow> 'b EvmBankKeeper res" where
  "NewEvmBankKeeper K bk =
     tryE (asErr (GoPanic ''failed to resolve EVM denom at init'') (SafeGetEvmDenom K)) (\<lambda>evmDenom.
     Inr \<lparr>eb_bank = bk, eb_evmDenom = evmDenom, eb_cosmosDenom = GetCosmosDenom K\<rparr>)"

section \<open>Conversions\<close>

definition ConvertCosmosAmountToEvmAmount :: "int \<Rightarrow> int res" where
  "ConvertCosmosAmountToEvmAmount amount = chk256 (amount * ConversionMultiplier)"

definition ConvertEvmAmountToCosmosAmount :: "int \<Rightarrow> int" where
  "ConvertEvmAmountToCosmosAmount amount = IntQuo amount ConversionMultiplier"

definition ConvertCosmosCoinToEvmCoin :: "'x sdk_scheme \<Rightarrow> coin \<Rightarrow> coin res" where
  "ConvertCosmosCoinToEvmCoin K coin =
     (if Denom coin \<noteq> GetCosmosDenom K then Inl ErrInvalidDenom
      else tryE (chk256 (Amount coin * ConversionMultiplier)) (\<lambda>evmAmount.
           tryE (GetEvmDenom K) (\<lambda>d. NewCoin K d evmAmount)))"

definition ConvertEvmCoinToCosmosCoin :: "'x sdk_scheme \<Rightarrow> coin \<Rightarrow> coin res" where
  "ConvertEvmCoinToCosmosCoin K coin =
     tryE (GetEvmDenom K) (\<lambda>evmDenom.
     if Denom coin \<noteq> evmDenom then Inl ErrInvalidDenom
     else NewCoin K (GetCosmosDenom K) (IntQuo (Amount coin) ConversionMultiplier))"

definition inflow_coin :: "'x sdk_scheme \<Rightarrow> 'b EvmBankKeeper \<Rightarrow> coin \<Rightarrow> coins \<Rightarrow> coins res" where
  "inflow_coin K k = (\<lambda>coin convertedAmt.
     if Amount coin < 0 then Inl ErrInvalidDenom
     else if Amount coin = 0 then Inr convertedAmt
     else if Denom coin = eb_evmDenom k then
       (let remainder = Amount coin mod ConversionMultiplier
        in tryE (if remainder \<noteq> 0 then chk256 (Amount coin - remainder + ConversionMultiplier)
                 else Inr (Amount coin)) (\<lambda>amount.
           let cosmosAmount = IntQuo amount ConversionMultiplier
           in if cosmosAmount = 0 then Inl (Errorf ''amount too small'')
              else tryE (NewCoin K (eb_cosmosDenom k) cosmosAmount) (\<lambda>c.
                   Inr (Coins_Add K convertedAmt c))))
     else if Denom coin = eb_cosmosDenom k then Inr (Coins_Add K convertedAmt coin)
     else Inl ErrInvalidDenom)"

definition convertCoinsForInflow :: "'x sdk_scheme \<Rightarrow> 'b EvmBankKeeper \<Rightarrow> coins \<Rightarrow> coins res" where
  "convertCoinsForInflow K k amt = forE (inflow_coin K k) amt []"

definition convertAndValidateCoins :: "'x sdk_scheme \<Rightarrow> 'b EvmBankKeeper \<Rightarrow> coins \<Rightarrow> coins res" where
  "convertAndValidateCoins K k amt = convertCoinsForInflow K k amt"

definition trySDKContext :: "'b evmctx \<Rightarrow> event list option" where
  "trySDKContext c = eevents c"

definition emit_dust :: "'b EvmBankKeeper \<Rightarrow> coin \<Rightarrow> 'b evmctx \<Rightarrow> 'b evmctx" where
  "emit_dust k coin c =
     (case trySDKContext c of None \<Rightarrow> c
      | Some es \<Rightarrow> c\<lparr>eevents := Some (es @ [Event ''evm_dust_dropped''
          [(''evm_denom'', Denom coin), (''evm_amount'', show_int (Amount coin)),
           (''cosmos_denom'', eb_cosmosDenom k),
           (''reason'', ''amount below 1 ustoc resolution after round-down (SA-2026-06-02 MED-3 silent drop)'')]])\<rparr>)"

definition outflow_coin :: "'x sdk_scheme \<Rightarrow> 'b EvmBankKeeper \<Rightarrow> coin \<Rightarrow> coins \<times> 'b evmctx \<Rightarrow> (coins \<times> 'b evmctx) res" where
  "outflow_coin K k = (\<lambda>coin (convertedAmt, c).
     if Amount coin < 0 then Inl ErrInvalidDenom
     else if Amount coin = 0 then Inr (convertedAmt, c)
     else if Denom coin = eb_evmDenom k then
       (let cosmosAmount = IntQuo (Amount coin) ConversionMultiplier
        in if cosmosAmount = 0 then Inr (convertedAmt, emit_dust k coin c)
           else tryE (NewCoin K (eb_cosmosDenom k) cosmosAmount) (\<lambda>x.
                Inr (Coins_Add K convertedAmt x, c)))
     else if Denom coin = eb_cosmosDenom k then Inr (Coins_Add K convertedAmt coin, c)
     else Inl ErrInvalidDenom)"

definition convertCoinsForOutflow :: "'x sdk_scheme \<Rightarrow> 'b EvmBankKeeper \<Rightarrow> 'b evmctx \<Rightarrow> coins \<Rightarrow>
    (coins \<times> 'b evmctx) res" where
  "convertCoinsForOutflow K k c amt = forE (outflow_coin K k) amt ([], c)"

section \<open>Movements\<close>

definition withEBank :: "'b res \<Rightarrow> 'b evmctx \<Rightarrow> 'b evmctx res" where
  "withEBank r c = tryE r (\<lambda>b. Inr (c\<lparr>ebank := b\<rparr>))"

definition Evm_SendCoins :: "'x sdk_scheme \<Rightarrow> 'b EvmBankKeeper \<Rightarrow> 'b evmctx \<Rightarrow> addr \<Rightarrow> addr \<Rightarrow> coins \<Rightarrow> 'b evmctx res" where
  "Evm_SendCoins K k c from to amt = tryE (convertCoinsForOutflow K k c amt) (\<lambda>(cs, c1).
     withEBank (SendCoins (eb_bank k) (ebank c1) from to cs) c1)"

definition Evm_MintCoins :: "'x sdk_scheme \<Rightarrow> 'b EvmBankKeeper \<Rightarrow> 'b evmctx \<Rightarrow> string \<Rightarrow> coins \<Rightarrow> 'b evmctx res" where
  "Evm_MintCoins K k c moduleName amt = tryE (convertCoinsForOutflow K k c amt) (\<lambda>(cs, c1).
     withEBank (MintCoins (eb_bank k) (ebank c1) moduleName cs) c1)"

definition Evm_BurnCoins :: "'x sdk_scheme \<Rightarrow> 'b EvmBankKeeper \<Rightarrow> 'b evmctx \<Rightarrow> string \<Rightarrow> coins \<Rightarrow> 'b evmctx res" where
  "Evm_BurnCoins K k c moduleName amt = tryE (convertCoinsForOutflow K k c amt) (\<lambda>(cs, c1).
     withEBank (BurnCoins (eb_bank k) (ebank c1) moduleName cs) c1)"

definition Evm_SendCoinsFromModuleToAccount :: "'x sdk_scheme \<Rightarrow> 'b EvmBankKeeper \<Rightarrow> 'b evmctx \<Rightarrow> string \<Rightarrow> addr \<Rightarrow>
    coins \<Rightarrow> 'b evmctx res" where
  "Evm_SendCoinsFromModuleToAccount K k c senderModule recipientAddr amt =
     tryE (convertCoinsForOutflow K k c amt) (\<lambda>(cs, c1).
     withEBank (SendCoinsFromModuleToAccount (eb_bank k) (ebank c1) senderModule recipientAddr cs) c1)"

definition Evm_SendCoinsFromAccountToModule :: "'x sdk_scheme \<Rightarrow> 'b EvmBankKeeper \<Rightarrow> 'b evmctx \<Rightarrow> addr \<Rightarrow> string \<Rightarrow>
    coins \<Rightarrow> 'b evmctx res" where
  "Evm_SendCoinsFromAccountToModule K k c senderAddr recipientModule amt =
     tryE (convertCoinsForInflow K k amt) (\<lambda>cs.
     withEBank (SendCoinsFromAccountToModule (eb_bank k) (ebank c) senderAddr recipientModule cs) c)"

definition Evm_SendCoinsFromModuleToModule :: "'x sdk_scheme \<Rightarrow> 'b EvmBankKeeper \<Rightarrow> 'b evmctx \<Rightarrow> string \<Rightarrow> string \<Rightarrow>
    coins \<Rightarrow> 'b evmctx res" where
  "Evm_SendCoinsFromModuleToModule K k c senderModule recipientModule amt =
     tryE (convertCoinsForOutflow K k c amt) (\<lambda>(cs, c1).
     withEBank (SendCoinsFromModuleToModule (eb_bank k) (ebank c1) senderModule recipientModule cs) c1)"

definition Evm_SetDenomMetaData :: "'b EvmBankKeeper \<Rightarrow> 'b evmctx \<Rightarrow> metadata \<Rightarrow> 'b evmctx" where
  "Evm_SetDenomMetaData k c md =
     (if mdBase md = eb_evmDenom k then c
      else if mdBase md \<noteq> eb_cosmosDenom k then c
      else c\<lparr>ebank := SetDenomMetaData (eb_bank k) (ebank c) md\<rparr>)"

section \<open>Queries\<close>

text \<open>An error of the conversion gives a zero coin; a panic goes through.\<close>

definition orZero :: "'x sdk_scheme \<Rightarrow> denom \<Rightarrow> coin res \<Rightarrow> coin res" where
  "orZero K d r = (case r of Inr x \<Rightarrow> Inr x | Inl (GoPanic s) \<Rightarrow> Inl (GoPanic s) | Inl _ \<Rightarrow> NewCoin K d 0)"

definition Evm_GetBalance :: "'x sdk_scheme \<Rightarrow> 'b EvmBankKeeper \<Rightarrow> 'b \<Rightarrow> addr \<Rightarrow> denom \<Rightarrow> coin res" where
  "Evm_GetBalance K k b addr d =
     (if d = eb_evmDenom k
      then orZero K (eb_evmDenom k) (ConvertCosmosCoinToEvmCoin K (GetBalance (eb_bank k) b addr (eb_cosmosDenom k)))
      else if d \<noteq> eb_cosmosDenom k then NewCoin K d 0
      else Inr (GetBalance (eb_bank k) b addr d))"

definition Evm_SpendableCoin :: "'x sdk_scheme \<Rightarrow> 'b EvmBankKeeper \<Rightarrow> 'b \<Rightarrow> addr \<Rightarrow> denom \<Rightarrow> coin res" where
  "Evm_SpendableCoin K k b addr d =
     (if d = eb_evmDenom k
      then orZero K (eb_evmDenom k) (ConvertCosmosCoinToEvmCoin K (SpendableCoin (eb_bank k) b addr (eb_cosmosDenom k)))
      else if d \<noteq> eb_cosmosDenom k then NewCoin K d 0
      else Inr (SpendableCoin (eb_bank k) b addr d))"

definition Evm_GetSupply :: "'x sdk_scheme \<Rightarrow> 'b EvmBankKeeper \<Rightarrow> 'b \<Rightarrow> denom \<Rightarrow> coin res" where
  "Evm_GetSupply K k b d =
     (if d = eb_evmDenom k
      then orZero K (eb_evmDenom k) (ConvertCosmosCoinToEvmCoin K (GetSupply (eb_bank k) b (eb_cosmosDenom k)))
      else if d \<noteq> eb_cosmosDenom k then NewCoin K d 0
      else Inr (GetSupply (eb_bank k) b d))"

definition evm_coins :: "'x sdk_scheme \<Rightarrow> denom \<Rightarrow> int \<Rightarrow> coins res" where
  "evm_coins K d cosmosAmount =
     (if 0 < cosmosAmount
      then tryE (chk256 (cosmosAmount * ConversionMultiplier)) (\<lambda>evmAmount. one_coin K d evmAmount)
      else NewCoins K [])"

definition Evm_SpendableCoins :: "'x sdk_scheme \<Rightarrow> 'b EvmBankKeeper \<Rightarrow> 'b \<Rightarrow> addr \<Rightarrow> coins res" where
  "Evm_SpendableCoins K k b addr =
     evm_coins K (eb_evmDenom k) (Amount (SpendableCoin (eb_bank k) b addr (eb_cosmosDenom k)))"

definition Evm_GetAllBalances :: "'x sdk_scheme \<Rightarrow> 'b EvmBankKeeper \<Rightarrow> 'b \<Rightarrow> addr \<Rightarrow> coins res" where
  "Evm_GetAllBalances K k b addr =
     evm_coins K (eb_evmDenom k) (Amount (GetBalance (eb_bank k) b addr (eb_cosmosDenom k)))"

definition Evm_LockedCoins :: "'x sdk_scheme \<Rightarrow> 'b EvmBankKeeper \<Rightarrow> 'b \<Rightarrow> addr \<Rightarrow> coins res" where
  "Evm_LockedCoins K k b addr =
     evm_coins K (eb_cosmosDenom k) (amount_of (LockedCoins (eb_bank k) b addr) (eb_cosmosDenom k))"

definition Evm_BlockedAddr :: "'b EvmBankKeeper \<Rightarrow> addr \<Rightarrow> bool" where
  "Evm_BlockedAddr k addr = BlockedAddr (eb_bank k) addr"

definition getDisplayDenom :: "'x sdk_scheme \<Rightarrow> denom" where
  "getDisplayDenom K = TrimPrefix (GetCosmosDenom K) ''u''"

definition Evm_GetDenomMetaData :: "'x sdk_scheme \<Rightarrow> 'b EvmBankKeeper \<Rightarrow> 'b \<Rightarrow> denom \<Rightarrow> metadata option" where
  "Evm_GetDenomMetaData K k b d =
     (if d = eb_evmDenom k
      then let displayDenom = getDisplayDenom K; displayUpper = map to_upper displayDenom
           in Some \<lparr>mdDescription = displayUpper @ '' token in EVM format (18 decimals)'',
                mdDenomUnits = [\<lparr>duDenom = eb_evmDenom k, duExponent = 0, duAliases = [eb_evmDenom k]\<rparr>,
                  \<lparr>duDenom = displayDenom, duExponent = 18, duAliases = []\<rparr>],
                mdBase = eb_evmDenom k, mdDisplay = displayDenom, mdName = displayUpper,
                mdSymbol = displayUpper, mdURI = [], mdURIHash = []\<rparr>
      else GetDenomMetaData (eb_bank k) b d)"

definition Evm_IsSendEnabledCoin :: "'x sdk_scheme \<Rightarrow> 'b EvmBankKeeper \<Rightarrow> 'b \<Rightarrow> coin \<Rightarrow> bool res" where
  "Evm_IsSendEnabledCoin K k b coin =
     (if Denom coin = eb_evmDenom k
      then tryE (NewCoin K (eb_cosmosDenom k) 1) (\<lambda>cosmosCoin. Inr (IsSendEnabledCoin (eb_bank k) b cosmosCoin))
      else if Denom coin \<noteq> eb_cosmosDenom k then Inr False
      else Inr (IsSendEnabledCoin (eb_bank k) b coin))"

definition Evm_IsSendEnabledCoins :: "'x sdk_scheme \<Rightarrow> 'b EvmBankKeeper \<Rightarrow> 'b \<Rightarrow> coins \<Rightarrow> unit res" where
  "Evm_IsSendEnabledCoins K k b coins =
     tryE (forE (\<lambda>coin convertedCoins.
       if Denom coin = eb_evmDenom k
       then tryE (ConvertEvmCoinToCosmosCoin K coin) (\<lambda>cosmosCoin. Inr (convertedCoins @ [cosmosCoin]))
       else if Denom coin = eb_cosmosDenom k then Inr (convertedCoins @ [coin])
       else Inl ErrInvalidDenom) coins [])
     (\<lambda>convertedCoins. IsSendEnabledCoins (eb_bank k) b convertedCoins)"

section \<open>Iterations\<close>

text \<open>Walk a list with a callback that has a state and may stop the walk.\<close>

fun iterate :: "('x \<Rightarrow> 'c \<Rightarrow> bool \<times> 'c) \<Rightarrow> 'x list \<Rightarrow> 'c \<Rightarrow> 'c" where
  "iterate cb [] s = s"
| "iterate cb (x # xs) s = (case cb x s of (stop, s') \<Rightarrow> if stop then s' else iterate cb xs s')"

text \<open>The callback of all three iterations; a panic of the conversion would leave the walk.\<close>

definition evm_visit :: "'x sdk_scheme \<Rightarrow> 'b EvmBankKeeper \<Rightarrow> coin \<Rightarrow> coin option res" where
  "evm_visit K k coin =
     (if Denom coin \<noteq> eb_cosmosDenom k then Inr None
      else case ConvertCosmosCoinToEvmCoin K coin of
        Inr evmCoin \<Rightarrow> Inr (Some evmCoin)
      | Inl (GoPanic s) \<Rightarrow> Inl (GoPanic s)
      | Inl _ \<Rightarrow> Inr None)"

fun iterateE :: "('x \<Rightarrow> 'y option res) \<Rightarrow> ('y \<Rightarrow> 'c \<Rightarrow> bool \<times> 'c) \<Rightarrow> 'x list \<Rightarrow> 'c \<Rightarrow> 'c res" where
  "iterateE f cb [] s = Inr s"
| "iterateE f cb (x # xs) s = tryE (f x) (\<lambda>v. case v of None \<Rightarrow> iterateE f cb xs s
     | Some y \<Rightarrow> (case cb y s of (stop, s') \<Rightarrow> if stop then Inr s' else iterateE f cb xs s'))"

definition Evm_IterateAccountBalances :: "'x sdk_scheme \<Rightarrow> 'b EvmBankKeeper \<Rightarrow> 'b \<Rightarrow> addr \<Rightarrow>
    (coin \<Rightarrow> 'c \<Rightarrow> bool \<times> 'c) \<Rightarrow> 'c \<Rightarrow> 'c res" where
  "Evm_IterateAccountBalances K k b account cb s =
     iterateE (evm_visit K k) cb (IterateAccountBalances (eb_bank k) b account) s"

definition Evm_IterateAllBalances :: "'x sdk_scheme \<Rightarrow> 'b EvmBankKeeper \<Rightarrow> 'b \<Rightarrow>
    (addr \<times> coin \<Rightarrow> 'c \<Rightarrow> bool \<times> 'c) \<Rightarrow> 'c \<Rightarrow> 'c res" where
  "Evm_IterateAllBalances K k b cb s =
     iterateE (\<lambda>(a, coin). tryE (evm_visit K k coin) (\<lambda>v. Inr (map_option (Pair a) v))) cb
       (IterateAllBalances (eb_bank k) b) s"

definition Evm_IterateTotalSupply :: "'x sdk_scheme \<Rightarrow> 'b EvmBankKeeper \<Rightarrow> 'b \<Rightarrow>
    (coin \<Rightarrow> 'c \<Rightarrow> bool \<times> 'c) \<Rightarrow> 'c \<Rightarrow> 'c res" where
  "Evm_IterateTotalSupply K k b cb s =
     iterateE (evm_visit K k) cb (IterateTotalSupply (eb_bank k) b) s"

section \<open>Environment\<close>

text \<open>The keeper was built by \<open>NewEvmBankKeeper\<close> for a bond denomination the SDK accepts, on a bank
  that obeys the bank laws, answers with the denomination asked for, and pays between modules as
  between their accounts.\<close>

locale evm_env = sdk_laws K + bank_laws K "eb_bank k" wfb
  for K :: "'x sdk_scheme" and k :: "'b EvmBankKeeper" and wfb :: "'b \<Rightarrow> bool" +
  assumes built: "NewEvmBankKeeper K (eb_bank k) = Inr k"
    and valid_evm: "ValidateDenom K (eb_evmDenom k) = Inr ()"
    and valid_cosmos: "ValidateDenom K (eb_cosmosDenom k) = Inr ()"
    and GetBalance_denom: "Denom (GetBalance (eb_bank k) s a d) = d"
    and GetSupply_denom: "Denom (GetSupply (eb_bank k) s d) = d"
    and ModuleToModule: "SendCoinsFromModuleToModule (eb_bank k) s m n cs = Inr s' \<Longrightarrow>
      SendCoins (eb_bank k) s (NewModuleAddress K m) (NewModuleAddress K n) cs = Inr s'"

abbreviation CM :: int where "CM \<equiv> 1000000000000"

text \<open>What the coins are worth in EVM units, how many of them are in EVM units, and what they become
  in Cosmos units, rounded down and rounded up.\<close>

definition worth :: "'b EvmBankKeeper \<Rightarrow> coins \<Rightarrow> int" where
  "worth k cs = (\<Sum>c \<leftarrow> cs. if Denom c = eb_evmDenom k then Amount c else Amount c * CM)"

definition legs :: "'b EvmBankKeeper \<Rightarrow> coins \<Rightarrow> int" where
  "legs k cs = int (length (filter (\<lambda>c. Denom c = eb_evmDenom k) cs))"

definition floors :: "'b EvmBankKeeper \<Rightarrow> coins \<Rightarrow> int" where
  "floors k cs = (\<Sum>c \<leftarrow> cs. if Denom c = eb_evmDenom k then Amount c div CM else Amount c)"

definition ceils :: "'b EvmBankKeeper \<Rightarrow> coins \<Rightarrow> int" where
  "ceils k cs = (\<Sum>c \<leftarrow> cs. if Denom c = eb_evmDenom k then - ((- Amount c) div CM) else Amount c)"

definition native_only :: "'b EvmBankKeeper \<Rightarrow> coins \<Rightarrow> bool" where
  "native_only k cs \<longleftrightarrow> (\<forall>c \<in> set cs. 0 \<le> Amount c \<and>
     (Amount c = 0 \<or> Denom c = eb_evmDenom k \<or> Denom c = eb_cosmosDenom k))"

lemma round_up: "0 < a \<Longrightarrow> (if a mod CM \<noteq> 0 then a - a mod CM + CM else a) = - ((- a) div CM) * CM"
proof -
  have "a - a mod CM = a div CM * CM" by (simp add: minus_mod_eq_div_mult)
  moreover have "(- a) div CM = (if a mod CM = 0 then - (a div CM) else - (a div CM) - 1)"
    by (simp add: zdiv_zminus1_eq_if)
  ultimately show ?thesis by (auto simp: algebra_simps)
qed

lemma CM_div: "CM * (a div CM) \<le> a \<and> a \<le> CM * (a div CM) + (CM - 1)"
proof -
  have "a = CM * (a div CM) + a mod CM" "0 \<le> a mod CM" "a mod CM < CM" by simp_all
  then show ?thesis by linarith
qed

lemma worth_floors: "native_only k cs \<Longrightarrow> CM * floors k cs \<le> worth k cs \<and> worth k cs \<le> CM * floors k cs + (CM - 1) * legs k cs"
proof (induction cs)
  case (Cons c cs)
  then have IH: "CM * floors k cs \<le> worth k cs \<and> worth k cs \<le> CM * floors k cs + (CM - 1) * legs k cs"
    by (simp add: native_only_def)
  from IH CM_div [of "Amount c"] show ?case by (auto simp: worth_def floors_def legs_def distrib_left)
qed (simp add: worth_def floors_def legs_def)

lemma worth_ceils: "native_only k cs \<Longrightarrow> worth k cs \<le> CM * ceils k cs \<and> CM * ceils k cs \<le> worth k cs + (CM - 1) * legs k cs"
proof (induction cs)
  case (Cons c cs)
  then have IH: "worth k cs \<le> CM * ceils k cs \<and> CM * ceils k cs \<le> worth k cs + (CM - 1) * legs k cs"
    by (simp add: native_only_def)
  from IH CM_div [of "- Amount c"] show ?case by (auto simp: worth_def ceils_def legs_def distrib_left)
qed (simp add: worth_def ceils_def legs_def)

context evm_env
begin

lemma denoms: "eb_cosmosDenom k = DefaultBondDenom K" "SafeGetEvmDenom K = Inr (eb_evmDenom k)"
    "GetEvmDenom K = Inr (eb_evmDenom k)" "GetCosmosDenom K = eb_cosmosDenom k"
    "eb_evmDenom k \<noteq> eb_cosmosDenom k"
proof -
  show c: "eb_cosmosDenom k = DefaultBondDenom K" and e: "SafeGetEvmDenom K = Inr (eb_evmDenom k)"
    using built by (cases k; auto simp: NewEvmBankKeeper_def GetCosmosDenom_def)+
  from c e show "GetEvmDenom K = Inr (eb_evmDenom k)" "GetCosmosDenom K = eb_cosmosDenom k"
    by (simp_all add: GetEvmDenom_def GetCosmosDenom_def)
  from e show "eb_evmDenom k \<noteq> eb_cosmosDenom k"
    unfolding c by (cases "DefaultBondDenom K") (auto simp: SafeGetEvmDenom_def Let_def split: if_splits)
qed

lemma NewCoin_cosmos: "0 \<le> a \<Longrightarrow> NewCoin K (eb_cosmosDenom k) a = Inr (mk_coin (eb_cosmosDenom k) a)"
  by (simp add: NewCoin_Inr valid_cosmos)

lemma NewCoin_evm: "0 \<le> a \<Longrightarrow> NewCoin K (eb_evmDenom k) a = Inr (mk_coin (eb_evmDenom k) a)"
  by (simp add: NewCoin_Inr valid_evm)

text \<open>One coin of each conversion loop.\<close>

lemma IntQuo_CM: "0 \<le> a \<Longrightarrow> IntQuo a ConversionMultiplier = a div CM"
  by (simp add: IntQuo_def ConversionMultiplier_def)

lemma outflow_coin_ok:
  assumes "0 \<le> Amount x" and "Amount x = 0 \<or> Denom x = eb_evmDenom k \<or> Denom x = eb_cosmosDenom k"
  shows "\<exists>cs c'. outflow_coin K k x (acc, c) = Inr (cs, c') \<and> ebank c' = ebank c \<and>
    (\<forall>d. amount_of cs d = amount_of acc d + (if d = eb_cosmosDenom k then floors k [x] else 0))"
proof -
  have "ebank (emit_dust k x c) = ebank c"
    by (simp add: emit_dust_def trySDKContext_def split: option.splits)
  moreover have "0 \<le> Amount x div CM" using assms(1) by simp
  ultimately show ?thesis
    using assms denoms(5)
    by (auto simp: outflow_coin_def Let_def IntQuo_CM NewCoin_cosmos floors_def Coins_Add_amount)
qed

lemma outflow_coin_bad:
  "\<not> (0 \<le> Amount x \<and> (Amount x = 0 \<or> Denom x = eb_evmDenom k \<or> Denom x = eb_cosmosDenom k)) \<Longrightarrow>
   outflow_coin K k x s = Inl ErrInvalidDenom"
  by (cases s) (auto simp: outflow_coin_def)

lemma outflow_loop:
  "if native_only k amt
   then \<exists>cs c'. forE (outflow_coin K k) amt (acc, c) = Inr (cs, c') \<and> ebank c' = ebank c \<and>
     (\<forall>d. amount_of cs d = amount_of acc d + (if d = eb_cosmosDenom k then floors k amt else 0))
   else forE (outflow_coin K k) amt (acc, c) = Inl ErrInvalidDenom"
proof (induction amt arbitrary: acc c)
  case Nil then show ?case by (simp add: native_only_def floors_def)
next
  case (Cons x xs)
  let ?ok = "0 \<le> Amount x \<and> (Amount x = 0 \<or> Denom x = eb_evmDenom k \<or> Denom x = eb_cosmosDenom k)"
  have n: "native_only k (x # xs) \<longleftrightarrow> ?ok \<and> native_only k xs" by (auto simp: native_only_def)
  have f: "floors k (x # xs) = floors k [x] + floors k xs" by (simp add: floors_def)
  show ?case
  proof (cases ?ok)
    case True
    then obtain cs c1 where "outflow_coin K k x (acc, c) = Inr (cs, c1)" "ebank c1 = ebank c"
      "\<forall>d. amount_of cs d = amount_of acc d + (if d = eb_cosmosDenom k then floors k [x] else 0)"
      using outflow_coin_ok by blast
    with Cons.IH [of cs c1] n f True show ?thesis by (auto simp: algebra_simps)
  next
    case False
    with outflow_coin_bad [OF False, of "(acc, c)"] n show ?thesis by simp
  qed
qed

lemma outflow_Inr:
  "convertCoinsForOutflow K k c amt = Inr (cs, c') \<Longrightarrow> native_only k amt \<and> ebank c' = ebank c \<and>
     amount_of cs d = (if d = eb_cosmosDenom k then floors k amt else 0)"
  using outflow_loop [of amt "[]" c] by (auto simp: convertCoinsForOutflow_def split: if_splits)

lemma outflow_total:
  "(\<exists>cs c'. convertCoinsForOutflow K k c amt = Inr (cs, c')) \<longleftrightarrow> native_only k amt"
  "\<not> native_only k amt \<Longrightarrow> convertCoinsForOutflow K k c amt = Inl ErrInvalidDenom"
  using outflow_loop [of amt "[]" c] by (auto simp: convertCoinsForOutflow_def split: if_splits)

lemma inflow_coin_Inr:
  assumes "inflow_coin K k x acc = Inr cs"
  shows "0 \<le> Amount x \<and> (Amount x = 0 \<or> Denom x = eb_evmDenom k \<or> Denom x = eb_cosmosDenom k) \<and>
    (\<forall>d. amount_of cs d = amount_of acc d + (if d = eb_cosmosDenom k then ceils k [x] else 0))"
proof (cases "0 < Amount x \<and> Denom x = eb_evmDenom k")
  case True
  define u where "u = - ((- Amount x) div CM)"
  have up: "(if Amount x mod CM \<noteq> 0 then Amount x - Amount x mod CM + CM else Amount x) = u * CM"
    unfolding u_def using round_up True by simp
  have "(- Amount x) div CM < 0" using True by (simp add: div_neg_pos_less0)
  then have "0 < u" by (simp add: u_def)
  then have "IntQuo (u * CM) ConversionMultiplier = u" by (simp add: IntQuo_CM)
  with assms True up \<open>0 < u\<close> denoms(5) show ?thesis
    by (auto simp: inflow_coin_def Let_def ConversionMultiplier_def NewCoin_cosmos ceils_def Coins_Add_amount
        simp flip: u_def split: if_splits)
next
  case False
  with assms denoms(5) show ?thesis
    by (auto simp: inflow_coin_def ceils_def Coins_Add_amount split: if_splits)
qed

lemma inflow_loop:
  "forE (inflow_coin K k) amt acc = Inr cs \<Longrightarrow> native_only k amt \<and>
     (\<forall>d. amount_of cs d = amount_of acc d + (if d = eb_cosmosDenom k then ceils k amt else 0))"
proof (induction amt arbitrary: acc)
  case Nil then show ?case by (simp add: native_only_def ceils_def)
next
  case (Cons x xs)
  then obtain a1 where one: "inflow_coin K k x acc = Inr a1" and rest: "forE (inflow_coin K k) xs a1 = Inr cs" by auto
  from inflow_coin_Inr [OF one] Cons.IH [OF rest] show ?case
    by (auto simp: native_only_def ceils_def)
qed

lemma inflow_Inr:
  "convertCoinsForInflow K k amt = Inr cs \<Longrightarrow> native_only k amt \<and>
     amount_of cs d = (if d = eb_cosmosDenom k then ceils k amt else 0)"
  using inflow_loop [of amt "[]" cs] by (simp add: convertCoinsForInflow_def)

end

section \<open>The 18-decimal ledger\<close>

text \<open>The abstract bank of the EVM: one currency, a balance per account and the supply. The concrete
  state stands for the ledger with every amount of the native coin scaled up.\<close>

type_synonym evm_ledger = "(addr \<Rightarrow> int) \<times> int"

definition evm_abs :: "'b EvmBankKeeper \<Rightarrow> 'b \<Rightarrow> evm_ledger" where
  "evm_abs k b = (\<lambda>x. CM * bal (eb_bank k) b x (eb_cosmosDenom k), CM * bsupply (eb_bank k) b (eb_cosmosDenom k))"

definition a_send :: "addr \<Rightarrow> addr \<Rightarrow> int \<Rightarrow> evm_ledger \<Rightarrow> evm_ledger" where
  "a_send f t v L = (\<lambda>x. fst L x - (if x = f then v else 0) + (if x = t then v else 0), snd L)"

definition a_mint :: "addr \<Rightarrow> int \<Rightarrow> evm_ledger \<Rightarrow> evm_ledger" where
  "a_mint m v L = (\<lambda>x. fst L x + (if x = m then v else 0), snd L + v)"

text \<open>Nothing but the native coin moves.\<close>

definition others_same :: "'b EvmBankKeeper \<Rightarrow> 'b \<Rightarrow> 'b \<Rightarrow> bool" where
  "others_same k b b' \<longleftrightarrow> (\<forall>d. d \<noteq> eb_cosmosDenom k \<longrightarrow>
     bsupply (eb_bank k) b' d = bsupply (eb_bank k) b d \<and> (\<forall>x. bal (eb_bank k) b' x d = bal (eb_bank k) b x d))"

text \<open>The scaled amount of a native coin fits into 256 bits.\<close>

definition fits_evm :: "'b EvmBankKeeper \<Rightarrow> coin \<Rightarrow> bool" where
  "fits_evm k x \<longleftrightarrow> (Denom x = eb_cosmosDenom k \<longrightarrow> 0 \<le> Amount x \<and> CM * Amount x < 2 ^ 256)"

lemma withEBank_Inr [simp]: "withEBank r c = Inr c' \<longleftrightarrow> (\<exists>b. r = Inr b \<and> c' = c\<lparr>ebank := b\<rparr>)"
  by (auto simp: withEBank_def)

context evm_env
begin

lemma send_step:
  assumes "wfb b" and "SendCoins (eb_bank k) b f t cs = Inr b'"
    and "\<And>d. amount_of cs d = (if d = eb_cosmosDenom k then u else 0)"
  shows "wfb b' \<and> evm_abs k b' = a_send f t (CM * u) (evm_abs k b) \<and> others_same k b b'"
  using Send_wf [OF assms(1,2)]
  by (auto simp: evm_abs_def a_send_def a_mint_def others_same_def Send_supply [OF assms(1,2)] Send_bal [OF assms(1,2)]
      assms(3) distrib_left right_diff_distrib)

lemma mint_step:
  assumes "wfb b" and "MintCoins (eb_bank k) b m cs = Inr b'"
    and "\<And>d. amount_of cs d = (if d = eb_cosmosDenom k then u else 0)"
  shows "wfb b' \<and> evm_abs k b' = a_mint (NewModuleAddress K m) (CM * u) (evm_abs k b) \<and> others_same k b b'"
  using Mint_wf [OF assms(1,2)]
  by (auto simp: evm_abs_def a_send_def a_mint_def others_same_def Mint_supply [OF assms(1,2)] Mint_bal [OF assms(1,2)]
      assms(3) distrib_left right_diff_distrib)

lemma burn_step:
  assumes "wfb b" and "BurnCoins (eb_bank k) b m cs = Inr b'"
    and "\<And>d. amount_of cs d = (if d = eb_cosmosDenom k then u else 0)"
  shows "wfb b' \<and> evm_abs k b' = a_mint (NewModuleAddress K m) (- (CM * u)) (evm_abs k b) \<and> others_same k b b'"
  using Burn_wf [OF assms(1,2)]
  by (auto simp: evm_abs_def a_send_def a_mint_def others_same_def Burn_supply [OF assms(1,2)] Burn_bal [OF assms(1,2)]
      assms(3) distrib_left right_diff_distrib)

lemma view_coin:
  assumes "Denom x = eb_cosmosDenom k" and "0 \<le> Amount x" and "CM * Amount x < 2 ^ 256"
  shows "ConvertCosmosCoinToEvmCoin K x = Inr (mk_coin (eb_evmDenom k) (CM * Amount x))"
  using assms NewCoin_evm [of "CM * Amount x"]
  by (simp add: ConvertCosmosCoinToEvmCoin_def denoms ConversionMultiplier_def chk256_def mult.commute)

text \<open>Every movement but the payment into a module converts by rounding down.\<close>

lemma outflow_via:
  assumes "tryE (convertCoinsForOutflow K k c amt) (\<lambda>(cs, c1). withEBank (move (ebank c1) cs) c1) = Inr c'"
  shows "\<exists>cs. move (ebank c) cs = Inr (ebank c') \<and> native_only k amt \<and>
    (\<forall>d. amount_of cs d = (if d = eb_cosmosDenom k then floors k amt else 0))"
proof -
  from assms obtain cs c1 b where o: "convertCoinsForOutflow K k c amt = Inr (cs, c1)"
    and s: "move (ebank c1) cs = Inr b" and c': "c' = c1\<lparr>ebank := b\<rparr>" by auto
  with outflow_Inr [OF o] show ?thesis by auto
qed

lemma Evm_SendCoins_Inr:
  assumes "wfb (ebank c)" and "Evm_SendCoins K k c f t amt = Inr c'"
  shows "native_only k amt \<and> wfb (ebank c') \<and> others_same k (ebank c) (ebank c') \<and>
    evm_abs k (ebank c') = a_send f t (CM * floors k amt) (evm_abs k (ebank c))"
  using outflow_via [OF assms(2) [unfolded Evm_SendCoins_def]] send_step [OF assms(1), where u = "floors k amt"] by metis

lemma Evm_MintCoins_Inr:
  assumes "wfb (ebank c)" and "Evm_MintCoins K k c m amt = Inr c'"
  shows "native_only k amt \<and> wfb (ebank c') \<and> others_same k (ebank c) (ebank c') \<and>
    evm_abs k (ebank c') = a_mint (NewModuleAddress K m) (CM * floors k amt) (evm_abs k (ebank c))"
  using outflow_via [OF assms(2) [unfolded Evm_MintCoins_def]] mint_step [OF assms(1), where u = "floors k amt"] by metis

lemma Evm_BurnCoins_Inr:
  assumes "wfb (ebank c)" and "Evm_BurnCoins K k c m amt = Inr c'"
  shows "native_only k amt \<and> wfb (ebank c') \<and> others_same k (ebank c) (ebank c') \<and>
    evm_abs k (ebank c') = a_mint (NewModuleAddress K m) (- (CM * floors k amt)) (evm_abs k (ebank c))"
  using outflow_via [OF assms(2) [unfolded Evm_BurnCoins_def]] burn_step [OF assms(1), where u = "floors k amt"] by metis

lemma Evm_ModuleToAccount_Inr:
  assumes "wfb (ebank c)" and "Evm_SendCoinsFromModuleToAccount K k c m t amt = Inr c'"
  shows "native_only k amt \<and> wfb (ebank c') \<and> others_same k (ebank c) (ebank c') \<and>
    evm_abs k (ebank c') = a_send (NewModuleAddress K m) t (CM * floors k amt) (evm_abs k (ebank c))"
  using outflow_via [OF assms(2) [unfolded Evm_SendCoinsFromModuleToAccount_def]] ModuleToAccount send_step [OF assms(1), where u = "floors k amt"] by metis

lemma Evm_ModuleToModule_Inr:
  assumes "wfb (ebank c)" and "Evm_SendCoinsFromModuleToModule K k c m n amt = Inr c'"
  shows "native_only k amt \<and> wfb (ebank c') \<and> others_same k (ebank c) (ebank c') \<and>
    evm_abs k (ebank c') = a_send (NewModuleAddress K m) (NewModuleAddress K n) (CM * floors k amt) (evm_abs k (ebank c))"
  using outflow_via [OF assms(2) [unfolded Evm_SendCoinsFromModuleToModule_def]] ModuleToModule send_step [OF assms(1), where u = "floors k amt"] by metis

lemma Evm_AccountToModule_Inr:
  assumes "wfb (ebank c)" and "Evm_SendCoinsFromAccountToModule K k c f m amt = Inr c'"
  shows "native_only k amt \<and> wfb (ebank c') \<and> others_same k (ebank c) (ebank c') \<and>
    evm_abs k (ebank c') = a_send f (NewModuleAddress K m) (CM * ceils k amt) (evm_abs k (ebank c))"
proof -
  from assms(2) obtain cs b where o: "convertCoinsForInflow K k amt = Inr cs"
    and s: "SendCoinsFromAccountToModule (eb_bank k) (ebank c) f m cs = Inr b" and c': "c' = c\<lparr>ebank := b\<rparr>"
    by (auto simp: Evm_SendCoinsFromAccountToModule_def)
  from send_step [OF assms(1) AccountToModule [OF s], of "ceils k amt"] inflow_Inr [OF o] show ?thesis
    by (simp add: c')
qed

text \<open>The callback iterations walk the native coins only.\<close>

lemma evm_visit_eq:
  assumes "fits_evm k x"
  shows "evm_visit K k x =
    Inr (if Denom x = eb_cosmosDenom k then Some (mk_coin (eb_evmDenom k) (CM * Amount x)) else None)"
  using assms view_coin [of x] unfolding fits_evm_def by (auto simp: evm_visit_def)

end

lemma iterateE_iterate:
  assumes "\<forall>x \<in> set xs. f x = Inr (if P x then Some (g x) else None)"
  shows "iterateE f cb xs s = Inr (iterate cb (map g (filter P xs)) s)"
  using assms by (induction xs arbitrary: s) (auto split: prod.splits)

section \<open>A concrete environment\<close>

definition ref_full :: "ledger FullBankKeeper" where
  "ref_full = BankKeeper.extend (ref_bank ref_sdk [''modulestoc'']) (FullBankKeeper.fields
     (\<lambda>s m n cs. lg_Send s (''module'' @ m) (''module'' @ n) cs) (\<lambda>s a d. mk_coin d (lgBal s a d)) (\<lambda>s a. [])
     (\<lambda>s d. None) (\<lambda>s c. True) (\<lambda>s cs. Inr ()) (\<lambda>s. []) (\<lambda>s. map (\<lambda>d. mk_coin d (lgSupply s d)) (lgDenoms s)))"

definition ref_eb :: "ledger EvmBankKeeper" where
  "ref_eb = \<lparr>eb_bank = ref_full, eb_evmDenom = ''astoc'', eb_cosmosDenom = ''ustoc''\<rparr>"

lemma bank_extend_sel:
  fixes B :: "'b BankKeeper"
  shows "SendCoins (BankKeeper.extend B m) = SendCoins B" "MintCoins (BankKeeper.extend B m) = MintCoins B"
    "BurnCoins (BankKeeper.extend B m) = BurnCoins B" "GetBalance (BankKeeper.extend B m) = GetBalance B"
    "GetSupply (BankKeeper.extend B m) = GetSupply B" "BlockedAddr (BankKeeper.extend B m) = BlockedAddr B"
    "SetDenomMetaData (BankKeeper.extend B m) = SetDenomMetaData B"
    "SendCoinsFromModuleToAccount (BankKeeper.extend B m) = SendCoinsFromModuleToAccount B"
    "SendCoinsFromAccountToModule (BankKeeper.extend B m) = SendCoinsFromAccountToModule B"
  by (cases B; simp add: BankKeeper.defs)+

lemma bank_laws_extend: "bank_laws K (BankKeeper.extend B m) wfb \<longleftrightarrow> bank_laws K B wfb" for B :: "'b BankKeeper"
  unfolding bank_laws_def bank_extend_sel by (rule refl)

lemma ref_full_sel [simp]:
  "GetBalance ref_full = (\<lambda>s a d. mk_coin d (lgBal s a d))" "GetSupply ref_full = (\<lambda>s d. mk_coin d (lgSupply s d))"
  "SendCoins ref_full = lg_Send"
  "SendCoinsFromModuleToModule ref_full = (\<lambda>s m n cs. lg_Send s (''module'' @ m) (''module'' @ n) cs)"
  by (simp_all add: ref_full_def ref_bank_def BankKeeper.defs FullBankKeeper.defs)

interpretation refevm: evm_env ref_sdk ref_eb ledger_ok
proof (intro evm_env.intro)
  show "sdk_laws ref_sdk" by (rule ref.sdk_laws_axioms)
  show "bank_laws ref_sdk (eb_bank ref_eb) ledger_ok"
    by (simp add: ref_eb_def ref_full_def bank_laws_extend refbank.bank_laws_axioms)
  show "evm_env_axioms ref_sdk ref_eb"
    by unfold_locales (simp_all add: ref_eb_def NewEvmBankKeeper_def SafeGetEvmDenom_def GetCosmosDenom_def ref_sdk_def
        ref_ValidateDenom_def is_alpha_def is_lower_def is_denom_char_def is_alnum_def code_of_def)
qed

section \<open>Theorems\<close>

text \<open>
  C14. The EVM bank refines an 18-decimal ledger of one currency. Let the abstract ledger of a bank
  state have every native balance and the native supply scaled by the conversion factor. Each
  successful movement is the ledger's transfer, mint or burn of the amount rounded to whole Cosmos
  units (up for a payment into a module, down otherwise), every coin of the request is native, and
  no balance or supply of any other denomination changes.
\<close>

theorem evm_bank_refines_ledger:
  assumes "evm_env K k wfb" and "wfb (ebank c)"
  shows "(Evm_SendCoins K k c f t amt = Inr c' \<longrightarrow> native_only k amt \<and> others_same k (ebank c) (ebank c') \<and>
      evm_abs k (ebank c') = a_send f t (CM * floors k amt) (evm_abs k (ebank c))) \<and>
    (Evm_SendCoinsFromModuleToAccount K k c m t amt = Inr c' \<longrightarrow> native_only k amt \<and> others_same k (ebank c) (ebank c') \<and>
      evm_abs k (ebank c') = a_send (NewModuleAddress K m) t (CM * floors k amt) (evm_abs k (ebank c))) \<and>
    (Evm_SendCoinsFromAccountToModule K k c f m amt = Inr c' \<longrightarrow> native_only k amt \<and> others_same k (ebank c) (ebank c') \<and>
      evm_abs k (ebank c') = a_send f (NewModuleAddress K m) (CM * ceils k amt) (evm_abs k (ebank c))) \<and>
    (Evm_SendCoinsFromModuleToModule K k c m n amt = Inr c' \<longrightarrow> native_only k amt \<and> others_same k (ebank c) (ebank c') \<and>
      evm_abs k (ebank c') = a_send (NewModuleAddress K m) (NewModuleAddress K n) (CM * floors k amt) (evm_abs k (ebank c))) \<and>
    (Evm_MintCoins K k c m amt = Inr c' \<longrightarrow> native_only k amt \<and> others_same k (ebank c) (ebank c') \<and>
      evm_abs k (ebank c') = a_mint (NewModuleAddress K m) (CM * floors k amt) (evm_abs k (ebank c))) \<and>
    (Evm_BurnCoins K k c m amt = Inr c' \<longrightarrow> native_only k amt \<and> others_same k (ebank c) (ebank c') \<and>
      evm_abs k (ebank c') = a_mint (NewModuleAddress K m) (- (CM * floors k amt)) (evm_abs k (ebank c)))"
  by (auto dest: evm_env.Evm_SendCoins_Inr [OF assms] evm_env.Evm_ModuleToAccount_Inr [OF assms]
    evm_env.Evm_AccountToModule_Inr [OF assms] evm_env.Evm_ModuleToModule_Inr [OF assms]
    evm_env.Evm_MintCoins_Inr [OF assms] evm_env.Evm_BurnCoins_Inr [OF assms])

definition evm_demo :: "ledger evmctx" where
  "evm_demo = \<lparr>ebank = empty_ledger\<lparr>lgBal := (\<lambda>a d. if a = ''alice'' \<and> d = ''ustoc'' then 5 else 0)\<rparr>, eevents = Some []\<rparr>"

definition evm_pay :: coins where
  "evm_pay = [mk_coin ''astoc'' 2500000000000]"

lemma evm_demo_wf: "ledger_ok (ebank evm_demo)"
  by (simp add: evm_demo_def ledger_ok_def empty_ledger_def)

lemma evm_demo_send: "\<exists>c'. Evm_SendCoins ref_sdk ref_eb evm_demo ''alice'' ''bob'' evm_pay = Inr c'"
proof -
  have "\<not> isl (Evm_SendCoins ref_sdk ref_eb evm_demo ''alice'' ''bob'' evm_pay)" by code_simp
  then show ?thesis by (metis isl_def sum.exhaust)
qed

theorem evm_bank_refines_ledger_witness:
  "\<exists>c'. Evm_SendCoins ref_sdk ref_eb evm_demo ''alice'' ''bob'' evm_pay = Inr c' \<and>
     evm_abs ref_eb (ebank c') = a_send ''alice'' ''bob'' 2000000000000 (evm_abs ref_eb (ebank evm_demo))"
proof -
  obtain c' where run: "Evm_SendCoins ref_sdk ref_eb evm_demo ''alice'' ''bob'' evm_pay = Inr c'"
    using evm_demo_send by blast
  have "CM * floors ref_eb evm_pay = 2000000000000" by code_simp
  with evm_bank_refines_ledger [OF refevm.evm_env_axioms evm_demo_wf, of "''alice''" "''bob''" evm_pay c'] run
  show ?thesis by auto
qed

text \<open>Rounding never creates value and loses less than one Cosmos unit per EVM-denominated coin. What
  leaves through the wrapper is worth at most the request, what a module is paid is worth at least
  the request, and both differ from it by less than one Cosmos unit per coin given in EVM units.
\<close>

theorem evm_rounding_bounds:
  assumes "evm_env K k wfb"
  shows "(convertCoinsForOutflow K k c amt = Inr (cs, c') \<longrightarrow>
      CM * amount_of cs (eb_cosmosDenom k) \<le> worth k amt \<and>
      worth k amt \<le> CM * amount_of cs (eb_cosmosDenom k) + (CM - 1) * legs k amt) \<and>
    (convertCoinsForInflow K k amt = Inr cs \<longrightarrow>
      worth k amt \<le> CM * amount_of cs (eb_cosmosDenom k) \<and>
      CM * amount_of cs (eb_cosmosDenom k) \<le> worth k amt + (CM - 1) * legs k amt)"
  using evm_env.outflow_Inr [OF assms, of c amt cs c' "eb_cosmosDenom k"]
    evm_env.inflow_Inr [OF assms, of amt cs "eb_cosmosDenom k"] worth_floors [of k amt] worth_ceils [of k amt] by auto

theorem evm_rounding_bounds_witness:
  "\<exists>cs. convertCoinsForInflow ref_sdk ref_eb evm_pay = Inr cs \<and> 2500000000000 \<le> CM * amount_of cs ''ustoc''"
proof -
  have "\<not> isl (convertCoinsForInflow ref_sdk ref_eb evm_pay)" by code_simp
  then obtain cs where run: "convertCoinsForInflow ref_sdk ref_eb evm_pay = Inr cs" by (metis isl_def sum.exhaust)
  have "worth ref_eb evm_pay = 2500000000000" "eb_cosmosDenom ref_eb = ''ustoc''" by code_simp+
  with evm_rounding_bounds [OF refevm.evm_env_axioms, of evm_demo evm_pay cs evm_demo] run show ?thesis by auto
qed

text \<open>Custom tokens are out of reach of the EVM. A request with a positive amount of a denomination
  other than the two native ones is refused by all six movements; the balance, the spendable
  balance and the supply of such a denomination read as zero; it is not send-enabled; and writing
  its metadata does nothing.
\<close>

theorem evm_custom_tokens_hidden:
  assumes "evm_env K k wfb" and "d \<noteq> eb_evmDenom k" and "d \<noteq> eb_cosmosDenom k" and "ValidateDenom K d = Inr ()"
    and "coin \<in> set amt" and "Denom coin = d" and "0 < Amount coin" and "mdBase md = d"
  shows "Evm_SendCoins K k c f t amt = Inl ErrInvalidDenom \<and> Evm_MintCoins K k c m amt = Inl ErrInvalidDenom \<and>
    Evm_BurnCoins K k c m amt = Inl ErrInvalidDenom \<and>
    Evm_SendCoinsFromModuleToAccount K k c m t amt = Inl ErrInvalidDenom \<and>
    Evm_SendCoinsFromModuleToModule K k c m n amt = Inl ErrInvalidDenom \<and>
    (\<exists>e. Evm_SendCoinsFromAccountToModule K k c f m amt = Inl e) \<and>
    Evm_GetBalance K k b x d = Inr (mk_coin d 0) \<and> Evm_SpendableCoin K k b x d = Inr (mk_coin d 0) \<and>
    Evm_GetSupply K k b d = Inr (mk_coin d 0) \<and> Evm_IsSendEnabledCoin K k b coin = Inr False \<and>
    Evm_SetDenomMetaData k c md = c"
proof -
  have bad: "\<not> native_only k amt" using assms(2,3,5-7) unfolding native_only_def by force
  note out = evm_env.outflow_total(2) [OF assms(1) bad]
  have "convertCoinsForInflow K k amt \<noteq> Inr cs" for cs
    using evm_env.inflow_Inr [OF assms(1), of amt cs] bad by blast
  then obtain e where inf: "convertCoinsForInflow K k amt = Inl e" by (cases "convertCoinsForInflow K k amt") auto
  have "coin_api K" using assms(1) by (simp add: evm_env_def sdk_laws_def)
  then have "NewCoin K d 0 = Inr (mk_coin d 0)" using assms(4) by (simp add: coin_api.NewCoin_Inr)
  then show ?thesis
    using assms(2,3,6,8) out inf
    by (simp add: Evm_SendCoins_def Evm_MintCoins_def Evm_BurnCoins_def Evm_SendCoinsFromModuleToAccount_def
        Evm_SendCoinsFromModuleToModule_def Evm_SendCoinsFromAccountToModule_def Evm_GetBalance_def
        Evm_SpendableCoin_def Evm_GetSupply_def Evm_IsSendEnabledCoin_def Evm_SetDenomMetaData_def)
qed

theorem evm_custom_tokens_hidden_witness:
  "Evm_SendCoins ref_sdk ref_eb evm_demo ''alice'' ''bob'' (mk_coin ''AB_0'' 1 # evm_pay) = Inl ErrInvalidDenom"
proof -
  have d: "''AB_0'' \<noteq> eb_evmDenom ref_eb" "''AB_0'' \<noteq> eb_cosmosDenom ref_eb" "ValidateDenom ref_sdk ''AB_0'' = Inr ()"
    by code_simp+
  let ?coin = "mk_coin ''AB_0'' 1"
  have c: "?coin \<in> set (?coin # evm_pay)" "Denom ?coin = ''AB_0''" "0 < Amount ?coin" by simp_all
  have m: "mdBase \<lparr>mdDescription = [], mdDenomUnits = [], mdBase = ''AB_0'', mdDisplay = [], mdName = [],
      mdSymbol = [], mdURI = [], mdURIHash = []\<rparr> = ''AB_0''" by simp
  show ?thesis using evm_custom_tokens_hidden [OF refevm.evm_env_axioms d c m] by blast
qed

text \<open>Collecting a fee and refunding the unused part never costs the fee collector. If an account pays
  a fee into a module through the wrapper and the module later refunds at most that much to it, both
  in EVM units, the module keeps at least the difference and the account is charged less than two
  Cosmos units more than it.
\<close>

theorem evm_fee_cycle:
  assumes "evm_env K k wfb" and "wfb (ebank c)" and "x \<noteq> NewModuleAddress K m"
    and "Evm_SendCoinsFromAccountToModule K k c x m [mk_coin (eb_evmDenom k) fee] = Inr c1"
    and "Evm_SendCoinsFromModuleToAccount K k c1 m x [mk_coin (eb_evmDenom k) refund] = Inr c2"
  shows "\<exists>net. fst (evm_abs k (ebank c2)) (NewModuleAddress K m) = fst (evm_abs k (ebank c)) (NewModuleAddress K m) + net \<and>
    fst (evm_abs k (ebank c2)) x = fst (evm_abs k (ebank c)) x - net \<and>
    snd (evm_abs k (ebank c2)) = snd (evm_abs k (ebank c)) \<and> fee - refund \<le> net \<and> net < fee - refund + 2 * CM"
proof -
  note 1 = evm_env.Evm_AccountToModule_Inr [OF assms(1,2,4)]
  note 2 = evm_env.Evm_ModuleToAccount_Inr [OF assms(1) _ assms(5)]
  let ?net = "CM * ceils k [mk_coin (eb_evmDenom k) fee] - CM * floors k [mk_coin (eb_evmDenom k) refund]"
  have n: "native_only k [mk_coin (eb_evmDenom k) fee]" "native_only k [mk_coin (eb_evmDenom k) refund]"
    using 1 2 by blast+
  have "fee - refund \<le> ?net" "?net < fee - refund + 2 * CM"
    using worth_ceils [OF n(1)] worth_floors [OF n(2)] by (simp_all add: worth_def legs_def)
  moreover have "evm_abs k (ebank c2) = a_send (NewModuleAddress K m) x (CM * floors k [mk_coin (eb_evmDenom k) refund])
     (a_send x (NewModuleAddress K m) (CM * ceils k [mk_coin (eb_evmDenom k) fee]) (evm_abs k (ebank c)))"
    using 1 2 by simp
  ultimately show ?thesis using assms(3) by (intro exI [of _ ?net]) (auto simp: a_send_def)
qed

theorem evm_fee_cycle_witness:
  "\<exists>c1 c2. Evm_SendCoinsFromAccountToModule ref_sdk ref_eb evm_demo ''alice'' ''fees'' evm_pay = Inr c1 \<and>
     Evm_SendCoinsFromModuleToAccount ref_sdk ref_eb c1 ''fees'' ''alice'' [mk_coin ''astoc'' 1] = Inr c2 \<and>
     snd (evm_abs ref_eb (ebank c2)) = snd (evm_abs ref_eb (ebank evm_demo))"
proof -
  have "case Evm_SendCoinsFromAccountToModule ref_sdk ref_eb evm_demo ''alice'' ''fees'' evm_pay of Inl _ \<Rightarrow> False
    | Inr c1 \<Rightarrow> \<not> isl (Evm_SendCoinsFromModuleToAccount ref_sdk ref_eb c1 ''fees'' ''alice'' [mk_coin ''astoc'' 1])"
    by code_simp
  then obtain c1 c2 where r: "Evm_SendCoinsFromAccountToModule ref_sdk ref_eb evm_demo ''alice'' ''fees'' evm_pay = Inr c1"
    "Evm_SendCoinsFromModuleToAccount ref_sdk ref_eb c1 ''fees'' ''alice'' [mk_coin ''astoc'' 1] = Inr c2"
    by (auto split: sum.splits simp: isl_def) (metis sum.exhaust)
  have a: "evm_pay = [mk_coin (eb_evmDenom ref_eb) 2500000000000]" "''astoc'' = eb_evmDenom ref_eb"
    by (simp_all add: evm_pay_def ref_eb_def)
  have "''alice'' \<noteq> NewModuleAddress ref_sdk ''fees''" by code_simp
  from evm_fee_cycle [OF refevm.evm_env_axioms evm_demo_wf this r [unfolded a]] r show ?thesis by auto
qed

text \<open>
  The iterations show the EVM exactly the native coins. As long as the scaled amounts fit into 256
  bits, iterating over an account's balances, over all balances or over the supply is the walk of the
  caller's callback over the native entries, in the bank's order, each as a coin of the EVM
  denomination with the scaled amount, up to the entry where the callback stops.
\<close>

theorem evm_iteration:
  assumes "evm_env K k wfb"
    and "\<forall>x \<in> set (IterateAccountBalances (eb_bank k) b a) \<union> snd ` set (IterateAllBalances (eb_bank k) b) \<union>
      set (IterateTotalSupply (eb_bank k) b). fits_evm k x"
    and "native = (\<lambda>x. Denom x = eb_cosmosDenom k)" and "scaled = (\<lambda>x. mk_coin (eb_evmDenom k) (CM * Amount x))"
  shows "Evm_IterateAccountBalances K k b a cb s
      = Inr (iterate cb (map scaled (filter native (IterateAccountBalances (eb_bank k) b a))) s) \<and>
    Evm_IterateAllBalances K k b cbp s
      = Inr (iterate cbp (map (\<lambda>(y, x). (y, scaled x)) (filter (\<lambda>(y, x). native x) (IterateAllBalances (eb_bank k) b))) s) \<and>
    Evm_IterateTotalSupply K k b cb s
      = Inr (iterate cb (map scaled (filter native (IterateTotalSupply (eb_bank k) b))) s)"
proof -
  note v = evm_env.evm_visit_eq [OF assms(1)]
  have f: "fits_evm k x" if "(y, x) \<in> set (IterateAllBalances (eb_bank k) b)" for y x
    using assms(2) that by force
  show ?thesis
    unfolding Evm_IterateAccountBalances_def Evm_IterateAllBalances_def Evm_IterateTotalSupply_def assms(3,4)
    using assms(2) by (intro conjI; intro iterateE_iterate) (auto simp: v f split: prod.splits)
qed

theorem evm_iteration_witness:
  "Evm_IterateTotalSupply ref_sdk ref_eb (empty_ledger\<lparr>lgSupply := (\<lambda>d. 7), lgDenoms := [''AB_0'', ''ustoc'']\<rparr>)
     (\<lambda>x s. (False, x # s)) [] = Inr [mk_coin ''astoc'' 7000000000000]"
proof -
  let ?b = "empty_ledger\<lparr>lgSupply := (\<lambda>d. 7), lgDenoms := [''AB_0'', ''ustoc'']\<rparr>"
  have L: "IterateTotalSupply (eb_bank ref_eb) ?b = [mk_coin ''AB_0'' 7, mk_coin ''ustoc'' 7]"
    "IterateAllBalances (eb_bank ref_eb) ?b = []" "eb_cosmosDenom ref_eb = ''ustoc''" "eb_evmDenom ref_eb = ''astoc''"
    "IterateAccountBalances (eb_bank ref_eb) ?b [] = []"
    by (simp_all add: ref_eb_def ref_full_def ref_bank_def BankKeeper.defs FullBankKeeper.defs empty_ledger_def)
  have "\<forall>x \<in> set (IterateAccountBalances (eb_bank ref_eb) ?b []) \<union> snd ` set (IterateAllBalances (eb_bank ref_eb) ?b) \<union>
      set (IterateTotalSupply (eb_bank ref_eb) ?b). fits_evm ref_eb x"
    unfolding L by (simp add: fits_evm_def)
  from evm_iteration [OF refevm.evm_env_axioms this refl refl, of "\<lambda>x s. (False, x # s)" "[]" "\<lambda>x s. (False, s)"]
  show ?thesis unfolding L by simp
qed

end
