(* ===== verification/Authz_Screen.thy ===== *)
theory Authz_Screen
  imports Ante_Msgs
begin

text \<open>
  The two decorators that keep certain messages out of authz: the screen that runs before signature
  verification (\<^verbatim>\<open>app/ante/top_level_authz_screen.go\<close>), which peeks at type URLs to a small depth, and
  the limiter that runs after the fees (\<^verbatim>\<open>forks/cosmos-evm-v0.6.0/ante/cosmos/authz.go\<close>), which
  unpacks everything. Both get the list of \<^verbatim>\<open>app/ante/authz_disabled_types.go\<close>.

  The limiter counts nesting with a variable that also grows from one wrapper to the next at the same
  level; its loop is the recursion \<open>limit_loop\<close> here, with that counter as an argument.
\<close>

section \<open>The disabled types\<close>

definition disabled_kinds :: "msg_kind list" where
  "disabled_kinds = [KEthereumTx, KVesting, KPermanentLocked, KPeriodicVesting, KCreateToken, KMintTokens,
     KReleaseTokens, KBurnToken]"

definition AuthzDisabledMsgTypes :: "('a, 'z) msg_api_scheme \<Rightarrow> string list" where
  "AuthzDisabledMsgTypes A = map (MsgTypeURL A) disabled_kinds"

section \<open>The screen before signatures\<close>

definition AuthzPreSigScreenMaxDepth :: nat where "AuthzPreSigScreenMaxDepth = 3"

definition authzMsgExecTypeURL :: string where
  "authzMsgExecTypeURL = ''/cosmos.authz.v1beta1.MsgExec''"

function screenMsg :: "('a, 'z) msg_api_scheme \<Rightarrow> string list \<Rightarrow> 'a sdk_msg \<Rightarrow> nat \<Rightarrow> unit res" where
  "screenMsg A disabledMsgTypes msg depth =
     (if AuthzPreSigScreenMaxDepth \<le> depth then Inr ()
      else case msg of
        AuthzExec as \<Rightarrow> forE (\<lambda>anyMsg _.
          if Any_IsNil A anyMsg then Inr ()
          else if Any_TypeUrl A anyMsg \<in> set disabledMsgTypes then Inl (SdkErr ''unauthorized: disabled inner msg type'')
          else if Any_TypeUrl A anyMsg = authzMsgExecTypeURL then
            (case Any_GetCachedValue A anyMsg of
               Some (AuthzExec bs) \<Rightarrow> screenMsg A disabledMsgTypes (AuthzExec bs) (depth + 1)
             | _ \<Rightarrow> Inl (SdkErr ''unauthorized: nested MsgExec without a cached struct''))
          else Inr ()) as ()
      | AuthzGrant g \<Rightarrow>
          (case GetAuthorization A g of
             Inr (Some grantedURL) \<Rightarrow>
               if grantedURL \<in> set disabledMsgTypes then Inl (SdkErr ''unauthorized: grants disabled msg type'')
               else Inr ()
           | _ \<Rightarrow> Inr ())
      | _ \<Rightarrow> Inr ())"
  by pat_completeness auto
termination
  by (relation "measure (\<lambda>(A, dis, msg, depth). AuthzPreSigScreenMaxDepth - depth)")
    (auto simp: AuthzPreSigScreenMaxDepth_def)

declare screenMsg.simps [simp del]

definition AuthzPreSigScreen :: "('a, 'z) msg_api_scheme \<Rightarrow> string list \<Rightarrow>
    ('s, 'b, 'a) ante_handler \<Rightarrow> ('s, 'b, 'a) ante_handler" where
  "AuthzPreSigScreen A disabledMsgTypes nxt c tx simulate =
     (if length disabledMsgTypes = 0 then nxt c tx simulate
      else tryE (forE (\<lambda>msg _. screenMsg A disabledMsgTypes msg 0) (GetMsgs tx) ()) (\<lambda>_. nxt c tx simulate))"

section \<open>The limiter after fees\<close>

definition maxNestedMsgs :: nat where "maxNestedMsgs = 7"

definition isDisabledMsg :: "string list \<Rightarrow> string \<Rightarrow> bool" where
  "isDisabledMsg disabledMsgTypes msgTypeURL = list_ex (\<lambda>disabledType. msgTypeURL = disabledType) disabledMsgTypes"

function limit_loop :: "('a, 'z) msg_api_scheme \<Rightarrow> string list \<Rightarrow> bool \<Rightarrow> nat \<Rightarrow> 'a sdk_msg list \<Rightarrow> unit res" where
  "limit_loop A dis isAuthzInnerMsg nestedLvl [] = Inr ()"
| "limit_loop A dis isAuthzInnerMsg nestedLvl (msg # rest) =
     (case msg of
        AuthzExec as \<Rightarrow> tryE (authz_GetMessages A as) (\<lambda>innerMsgs.
          if maxNestedMsgs \<le> nestedLvl + 1 then Inl (Errorf ''found more nested msgs than permitted'')
          else tryE (limit_loop A dis True (nestedLvl + 1) innerMsgs) (\<lambda>_.
               limit_loop A dis isAuthzInnerMsg (nestedLvl + 1) rest))
      | AuthzGrant g \<Rightarrow> tryE (GetAuthorization A g) (\<lambda>authorization.
          tryE (deref authorization) (\<lambda>url.
          if isDisabledMsg dis url then Inl (Errorf ''found disabled msg type'')
          else limit_loop A dis isAuthzInnerMsg nestedLvl rest))
      | _ \<Rightarrow>
          if isAuthzInnerMsg \<and> isDisabledMsg dis (MsgTypeURL A (kind_of msg)) then Inl (Errorf ''found disabled msg type'')
          else limit_loop A dis isAuthzInnerMsg nestedLvl rest)"
  by pat_completeness auto
termination
  by (relation "measures [\<lambda>(A, dis, inn, lvl, msgs). maxNestedMsgs - lvl, \<lambda>(A, dis, inn, lvl, msgs). length msgs]")
    (auto simp: maxNestedMsgs_def)

definition checkDisabledMsgs :: "('a, 'z) msg_api_scheme \<Rightarrow> string list \<Rightarrow> 'a sdk_msg list \<Rightarrow> bool \<Rightarrow> nat \<Rightarrow> unit res" where
  "checkDisabledMsgs A dis msgs isAuthzInnerMsg nestedLvl =
     (if maxNestedMsgs \<le> nestedLvl then Inl (Errorf ''found more nested msgs than permitted'')
      else limit_loop A dis isAuthzInnerMsg nestedLvl msgs)"

definition AuthzLimiter :: "('a, 'z) msg_api_scheme \<Rightarrow> string list \<Rightarrow>
    ('s, 'b, 'a) ante_handler \<Rightarrow> ('s, 'b, 'a) ante_handler" where
  "AuthzLimiter A dis nxt c tx simulate =
     tryE (asErr (SdkErr ''unauthorized'') (checkDisabledMsgs A dis (GetMsgs tx) False 1)) (\<lambda>_. nxt c tx simulate)"

section \<open>What the limiter guarantees\<close>

lemma isDisabledMsg_iff: "isDisabledMsg dis url \<longleftrightarrow> url \<in> set dis"
  by (auto simp: isDisabledMsg_def list_ex_iff)

text \<open>A message that is not itself an authz wrapper or grant.\<close>

fun plain :: "'a sdk_msg \<Rightarrow> bool" where
  "plain (AuthzExec _) = False"
| "plain (AuthzGrant _) = False"
| "plain _ = True"

definition limited :: "('a, 'z) msg_api_scheme \<Rightarrow> string list \<Rightarrow> bool \<Rightarrow> 'a sdk_msg \<Rightarrow> bool" where
  "limited A dis inn m \<longleftrightarrow>
     (inn \<and> plain m \<longrightarrow> MsgTypeURL A (kind_of m) \<notin> set dis) \<and>
     (\<forall>g. m = AuthzGrant g \<longrightarrow> (\<exists>url. GetAuthorization A g = Inr (Some url) \<and> url \<notin> set dis))"

lemma executed_Cons:
  "executed A (x # xs) n m \<Longrightarrow> executed A [x] n m \<or> executed A xs n m"
  by (induction rule: executed.induct) (auto intro: executed.intros)

lemma executed_single:
  "executed A [x] n m \<Longrightarrow> n = 0 \<and> m = x \<or> (\<exists>as inner i. x = AuthzExec as \<and> authz_GetMessages A as = Inr inner \<and>
     executed A inner i m \<and> n = Suc i)"
  by (induction rule: executed.induct) (auto intro: executed.intros)

lemma executed_nonempty: "executed A msgs n m \<Longrightarrow> msgs \<noteq> []"
  by (induction rule: executed.induct) auto

text \<open>One round of the loop, with the messages that are not wrappers treated alike.\<close>

lemma limit_round:
  "limit_loop A dis inn lvl (msg # rest) = Inr () \<longleftrightarrow>
     limited A dis inn msg \<and>
     (if plain msg \<or> (\<exists>g. msg = AuthzGrant g) then limit_loop A dis inn lvl rest = Inr ()
      else \<exists>as inner. msg = AuthzExec as \<and> authz_GetMessages A as = Inr inner \<and> lvl + 1 < maxNestedMsgs \<and>
        limit_loop A dis True (lvl + 1) inner = Inr () \<and> limit_loop A dis inn (lvl + 1) rest = Inr ())"
  by (cases msg) (auto simp: limited_def isDisabledMsg_iff not_le)

lemma limit_loop_sound:
  "limit_loop A dis inn lvl msgs = Inr () \<Longrightarrow> executed A msgs n m \<Longrightarrow> limited A dis (inn \<or> 0 < n) m"
proof (induction "maxNestedMsgs - lvl" arbitrary: inn lvl msgs n m rule: less_induct)
  case less
  note outer = less.hyps
  from less.prems show ?case
  proof (induction msgs)
    case Nil then show ?case using executed_nonempty by blast
  next
    case (Cons msg rest)
    note R = Cons.prems(1) [unfolded limit_round]
    from executed_Cons [OF Cons.prems(2)] show ?case
    proof
      assume "executed A [msg] n m"
      from executed_single [OF this] show ?thesis
      proof (elim disjE exE conjE)
        assume "n = 0" "m = msg" with R show ?thesis by simp
      next
        fix as inner i assume m: "msg = AuthzExec as" "authz_GetMessages A as = Inr inner" "executed A inner i m" "n = Suc i"
        with R have "limit_loop A dis True (lvl + 1) inner = Inr ()" "lvl + 1 < maxNestedMsgs" by auto
        with outer [of "lvl + 1" True inner i m] m show ?thesis by simp
      qed
    next
      assume e: "executed A rest n m"
      show ?thesis
      proof (cases "plain msg \<or> (\<exists>g. msg = AuthzGrant g)")
        case True with R Cons.IH e show ?thesis by simp
      next
        case False
        with R have "limit_loop A dis inn (lvl + 1) rest = Inr ()" "lvl + 1 < maxNestedMsgs" by auto
        with outer [of "lvl + 1" inn rest n m] e show ?thesis by simp
      qed
    qed
  qed
qed

text \<open>Wrappers side by side use up the nesting allowance.\<close>

lemma limit_loop_siblings:
  assumes "limit_loop A dis inn lvl msgs = Inr ()" and "lvl < maxNestedMsgs"
  shows "lvl + length (filter (\<lambda>m. \<exists>as. m = AuthzExec as) msgs) < maxNestedMsgs"
  using assms
proof (induction msgs arbitrary: lvl)
  case (Cons msg rest)
  show ?case
  proof (cases "\<exists>as. msg = AuthzExec as")
    case True
    with Cons.prems(1) have "limit_loop A dis inn (lvl + 1) rest = Inr ()" "lvl + 1 < maxNestedMsgs"
      unfolding limit_round by auto
    from Cons.IH [OF this] True show ?thesis by simp
  next
    case False
    then have "plain msg \<or> (\<exists>g. msg = AuthzGrant g)" by (cases msg) auto
    with Cons.prems(1) have "limit_loop A dis inn lvl rest = Inr ()" unfolding limit_round by simp
    from Cons.IH [OF this Cons.prems(2)] False show ?thesis by simp
  qed
qed simp

section \<open>What the screen guarantees\<close>

text \<open>\<open>packed A msg n a\<close>: \<open>a\<close> lies in the execution \<open>msg\<close> below \<open>n\<close> cached executions.\<close>

inductive packed :: "('a, 'z) msg_api_scheme \<Rightarrow> 'a sdk_msg \<Rightarrow> nat \<Rightarrow> 'a \<Rightarrow> bool" for A :: "('a, 'z) msg_api_scheme" where
  here: "a \<in> set as \<Longrightarrow> packed A (AuthzExec as) 0 a"
| below: "b \<in> set as \<Longrightarrow> \<not> Any_IsNil A b \<Longrightarrow> Any_TypeUrl A b = authzMsgExecTypeURL \<Longrightarrow>
    Any_GetCachedValue A b = Some (AuthzExec bs) \<Longrightarrow> packed A (AuthzExec bs) n a \<Longrightarrow> packed A (AuthzExec as) (Suc n) a"

lemma screen_exec_eq:
  assumes "d < 3"
  shows "screenMsg A dis (AuthzExec as) d = Inr () \<longleftrightarrow> (\<forall>b\<in>set as. Any_IsNil A b \<or> (Any_TypeUrl A b \<notin> set dis \<and>
    (Any_TypeUrl A b = authzMsgExecTypeURL \<longrightarrow>
      (\<exists>bs. Any_GetCachedValue A b = Some (AuthzExec bs) \<and> screenMsg A dis (AuthzExec bs) (Suc d) = Inr ()))))"
  (is "?L \<longleftrightarrow> (\<forall>b\<in>set as. ?R b)")
proof -
  define f where "f = (\<lambda>anyMsg.
          if Any_IsNil A anyMsg then Inr ()
          else if Any_TypeUrl A anyMsg \<in> set dis then Inl (SdkErr ''unauthorized: disabled inner msg type'')
          else if Any_TypeUrl A anyMsg = authzMsgExecTypeURL then
            (case Any_GetCachedValue A anyMsg of
               Some (AuthzExec bs) \<Rightarrow> screenMsg A dis (AuthzExec bs) (d + 1)
             | _ \<Rightarrow> Inl (SdkErr ''unauthorized: nested MsgExec without a cached struct''))
          else Inr ())"
  have "screenMsg A dis (AuthzExec as) d = forE (\<lambda>anyMsg _. f anyMsg) as ()"
    using assms unfolding f_def by (subst screenMsg.simps) (simp add: AuthzPreSigScreenMaxDepth_def)
  then have "?L \<longleftrightarrow> (\<forall>b\<in>set as. f b = Inr ())" by (simp add: forE_check)
  moreover have "f b = Inr () \<longleftrightarrow> ?R b" for b
  proof (cases "Any_GetCachedValue A b")
    case None then show ?thesis unfolding f_def by simp
  next
    case (Some m) then show ?thesis unfolding f_def by (cases m) simp_all
  qed
  ultimately show ?thesis by simp
qed

lemma screen_packed:
  "packed A m n a \<Longrightarrow> screenMsg A dis m d = Inr () \<Longrightarrow> d + n < 3 \<Longrightarrow> \<not> Any_IsNil A a \<Longrightarrow> Any_TypeUrl A a \<notin> set dis"
proof (induction arbitrary: d rule: packed.induct)
  case (here a as)
  then have "d < 3" by simp
  from here.prems(1) [unfolded screen_exec_eq [OF this]] here.hyps here.prems(3) show ?case by blast
next
  case (below b as bs n a)
  then have "d < 3" by simp
  from below.prems(1) [unfolded screen_exec_eq [OF this]] below.hyps(1-4)
  have "screenMsg A dis (AuthzExec bs) (Suc d) = Inr ()" by fastforce
  from below.IH [OF this] below.prems show ?case by simp
qed

section \<open>Properties of the two decorators\<close>

lemma limiter_Inr:
  "AuthzLimiter A dis nxt c tx simulate = Inr c' \<longleftrightarrow>
     limit_loop A dis False 1 (GetMsgs tx) = Inr () \<and> nxt c tx simulate = Inr c'"
  by (simp add: AuthzLimiter_def checkDisabledMsgs_def maxNestedMsgs_def)

lemma limiter_executed:
  assumes "AuthzLimiter A dis nxt c tx simulate = Inr c'" and "executed A (GetMsgs tx) n m"
  shows "limited A dis (0 < n) m"
  using limit_loop_sound [of A dis False 1 "GetMsgs tx" n m] assms by (simp add: limiter_Inr)

lemma limited_kind:
  assumes "limited A (AuthzDisabledMsgTypes A) True m" shows "kind_of m \<notin> set disabled_kinds"
proof (cases "plain m")
  case True
  with assms show ?thesis by (auto simp: limited_def AuthzDisabledMsgTypes_def)
next
  case False
  then show ?thesis by (cases m) (simp_all add: disabled_kinds_def)
qed

text \<open>The authz limiter, with the list the application hands it: in a transaction it accepts, a message run
  through one or more authz wrappers is none of the token messages, no EVM transaction and no creation
  of a vesting account, however deep it is packed; and a grant, at any depth, grants none of these
  types. Token messages therefore always carry the signature of the account they act for.\<close>

theorem AuthzLimiter_safe:
  assumes "AuthzLimiter A (AuthzDisabledMsgTypes A) nxt c tx simulate = Inr c'"
    and "executed A (GetMsgs tx) n m"
  shows "(0 < n \<longrightarrow> kind_of m \<notin> set disabled_kinds) \<and>
    (\<forall>g. m = AuthzGrant g \<longrightarrow> (\<exists>url. GetAuthorization A g = Inr (Some url) \<and>
      (\<forall>q\<in>set disabled_kinds. url \<noteq> MsgTypeURL A q)))"
proof -
  have L: "limited A (AuthzDisabledMsgTypes A) (0 < n) m" by (rule limiter_executed [OF assms])
  have "kind_of m \<notin> set disabled_kinds" if "0 < n" using limited_kind [of A m] L that by simp
  with L show ?thesis unfolding limited_def AuthzDisabledMsgTypes_def by auto
qed

definition pass :: "('s, 'b, 'a) ante_handler" where
  "pass c tx simulate = Inr c"

definition unit_ctx :: "(unit, unit) ctx" where
  "unit_ctx = \<lparr>store = (), bank = (), events = []\<rparr>"

definition wrap :: "ref_any sdk_msg \<Rightarrow> ref_any sdk_msg" where
  "wrap m = AuthzExec [RAny (MsgTypeURL ref_api (kind_of m)) (Some m)]"

definition sample_send :: "ref_any sdk_msg" where
  "sample_send = MsgSend ''a'' ''b'' [mk_coin ''ustoc'' 5]"

definition sample_burn :: "ref_any sdk_msg" where
  "sample_burn = StocBurn \<lparr>mbCreator = ''a'', mbAmount = Some 5, mbDenom = ''d'', mbBurnAll = False\<rparr>"

lemma executed_wrap: "executed ref_api [wrap m] 1 m"
  using executed.authz [OF executed.top [of "wrap m" "[wrap m]" ref_api, unfolded wrap_def], of "[m]" m]
  by (simp add: wrap_def ref_api_def ref_unpack_def)

theorem AuthzLimiter_safe_witness:
  "AuthzLimiter ref_api (AuthzDisabledMsgTypes ref_api) pass unit_ctx (ref_tx [wrap sample_send]) False = Inr unit_ctx \<and>
   kind_of sample_send \<notin> set disabled_kinds \<and>
   isl (AuthzLimiter ref_api (AuthzDisabledMsgTypes ref_api) pass unit_ctx (ref_tx [wrap (wrap sample_burn)]) False)"
proof -
  have a: "AuthzLimiter ref_api (AuthzDisabledMsgTypes ref_api) pass unit_ctx (ref_tx [wrap sample_send]) False = Inr unit_ctx"
    by code_simp
  moreover have "kind_of sample_send \<notin> set disabled_kinds"
    using AuthzLimiter_safe [OF a, of 1 sample_send] executed_wrap by (simp add: ref_tx_def)
  moreover have "isl (AuthzLimiter ref_api (AuthzDisabledMsgTypes ref_api) pass unit_ctx (ref_tx [wrap (wrap sample_burn)]) False)"
    by code_simp
  ultimately show ?thesis by simp
qed

text \<open>The limiter's nesting bound also counts wrappers that stand side by side: of the messages of an
  accepted transaction at most five are authz executions, whether or not any of them is nested. The bound
  counts every execution, so this holds whatever the executions contain.\<close>

theorem AuthzLimiter_caps_siblings:
  assumes "AuthzLimiter A dis nxt c tx simulate = Inr c'"
  shows "length (filter (\<lambda>m. \<exists>as. m = AuthzExec as) (GetMsgs tx)) \<le> 5"
  using limit_loop_siblings [of A dis False 1 "GetMsgs tx"] assms
  by (simp add: limiter_Inr maxNestedMsgs_def)

theorem AuthzLimiter_caps_siblings_witness:
  "length (filter (\<lambda>m. \<exists>as. m = AuthzExec as) (replicate 5 (wrap sample_send))) \<le> 5 \<and>
   isl (AuthzLimiter ref_api (AuthzDisabledMsgTypes ref_api) pass unit_ctx (ref_tx (replicate 6 (wrap sample_send))) False)"
proof
  have "AuthzLimiter ref_api (AuthzDisabledMsgTypes ref_api) pass unit_ctx (ref_tx (replicate 5 (wrap sample_send))) False = Inr unit_ctx"
    by code_simp
  from AuthzLimiter_caps_siblings [OF this]
  show "length (filter (\<lambda>m. \<exists>as. m = AuthzExec as) (replicate 5 (wrap sample_send))) \<le> 5" by (simp add: ref_tx_def)
  show "isl (AuthzLimiter ref_api (AuthzDisabledMsgTypes ref_api) pass unit_ctx (ref_tx (replicate 6 (wrap sample_send))) False)"
    by code_simp
qed

text \<open>The screen before signature verification: when it accepts a transaction, nothing packed in an authz
  execution with at most two executions around that one has a disabled type URL.\<close>

theorem AuthzPreSigScreen_shallow:
  assumes "AuthzPreSigScreen A dis nxt c tx simulate = Inr c'"
    and "msg \<in> set (GetMsgs tx)" and "packed A msg n a" and "n < AuthzPreSigScreenMaxDepth" and "\<not> Any_IsNil A a"
  shows "Any_TypeUrl A a \<notin> set dis"
proof (cases "dis = []")
  case False
  with assms(1,2) have "screenMsg A dis msg 0 = Inr ()" by (simp add: AuthzPreSigScreen_def forE_check)
  from screen_packed [OF assms(3) this] assms(4,5) show ?thesis by (simp add: AuthzPreSigScreenMaxDepth_def)
qed simp

theorem AuthzPreSigScreen_shallow_witness:
  "AuthzPreSigScreen ref_api (AuthzDisabledMsgTypes ref_api) pass unit_ctx (ref_tx [wrap sample_send]) False = Inr unit_ctx \<and>
   Any_TypeUrl ref_api (RAny (MsgTypeURL ref_api KBank) (Some sample_send)) \<notin> set (AuthzDisabledMsgTypes ref_api) \<and>
   isl (AuthzPreSigScreen ref_api (AuthzDisabledMsgTypes ref_api) pass unit_ctx (ref_tx [wrap (wrap (wrap sample_burn))]) False)"
proof -
  have a: "AuthzPreSigScreen ref_api (AuthzDisabledMsgTypes ref_api) pass unit_ctx (ref_tx [wrap sample_send]) False = Inr unit_ctx"
    by code_simp
  have p: "packed ref_api (wrap sample_send) 0 (RAny (MsgTypeURL ref_api KBank) (Some sample_send))"
    unfolding wrap_def sample_send_def by (rule packed.here) simp
  have "Any_TypeUrl ref_api (RAny (MsgTypeURL ref_api KBank) (Some sample_send)) \<notin> set (AuthzDisabledMsgTypes ref_api)"
    by (rule AuthzPreSigScreen_shallow [OF a _ p]) (simp_all add: ref_tx_def AuthzPreSigScreenMaxDepth_def ref_api_def)
  moreover have "isl (AuthzPreSigScreen ref_api (AuthzDisabledMsgTypes ref_api) pass unit_ctx (ref_tx [wrap (wrap (wrap sample_burn))]) False)"
    by code_simp
  ultimately show ?thesis using a by blast
qed

end
