(* ===== verification/Fee_Market.thy ===== *)
theory Fee_Market
  imports Ref_Keeper
begin

text \<open>
  The fee market module of the EVM fork (\<^verbatim>\<open>forks/cosmos-evm-v0.6.0/x/feemarket\<close>): its parameters and
  their validation, the EIP-1559 base fee computed at the start of each block from the gas the previous
  block wanted, the bookkeeping of that gas, the parameter update of governance, genesis and queries.

  The module keeps its parameters and the gas number of the last block in the persistent store and the gas
  number of the current block in the transient store; the three keys are the fields of \<open>fm_state\<close>. The
  codec writes a nil decimal as zero. Absent parameters read as the defaults.

  Numbers: gas is a 64-bit word, decimals are \<open>LegacyDec\<close> values. An operation on decimals panics when
  its result leaves the range of the type, which \<open>chkDec\<close> makes visible; a panic at the start of a block
  stops the chain (\<open>fee_hooks_halt_exactly\<close>). \<open>fm_step\<close> has the blocks with a positive gas target, \<open>fm_any_step\<close> all
  of them.
\<close>

section \<open>The SDK functions of this component\<close>

record fee_sdk = sdk +
  Dec_QuoInt :: "dec \<Rightarrow> int \<Rightarrow> dec"
  Dec_InRange :: "dec \<Rightarrow> bool"
  Dec_String :: "dec \<Rightarrow> string"
  IsAnyGTE :: "coins \<Rightarrow> coins \<Rightarrow> bool"
  AmountOfNoDenomValidation :: "coins \<Rightarrow> denom \<Rightarrow> int"
  DefaultPowerReduction :: int
  DefaultBaseFeeChangeDenominator :: u32
  DefaultElasticityMultiplier :: u32

definition chkDec :: "'x fee_sdk_scheme \<Rightarrow> dec \<Rightarrow> dec res" where
  "chkDec K x = (if Dec_InRange K x then Inr x else Inl (GoPanic ''decimal out of range''))"

text \<open>Division by an integer truncates; dividing by zero panics.\<close>

definition quoInt :: "'x fee_sdk_scheme \<Rightarrow> dec \<Rightarrow> int \<Rightarrow> dec res" where
  "quoInt K x n = (if n = 0 then Inl (GoPanic ''division by zero'') else Inr (Dec_QuoInt K x n))"

locale fee_sdk_laws = sdk_laws K for K :: "'x fee_sdk_scheme" +
  assumes Dec_QuoInt_nonneg: "0 \<le> x \<Longrightarrow> 0 < n \<Longrightarrow> Dec_QuoInt K x n = x div n"
    and Dec_InRange_315: "\<bar>x\<bar> < 2 ^ 315 \<Longrightarrow> Dec_InRange K x"
    and IsAnyGTE_single: "0 < Amount q \<Longrightarrow> IsAnyGTE K [c] [q] \<longleftrightarrow> Denom c = Denom q \<and> Amount q \<le> Amount c"
    and IsAnyGTE_none: "\<not> IsAnyGTE K [] cs"
    and AmountOf_eq: "sorted (map Denom cs) \<Longrightarrow> distinct (map Denom cs) \<Longrightarrow> AmountOfNoDenomValidation K cs d = amount_of cs d"
    and PowerReduction_pos: "0 < DefaultPowerReduction K"
    and Default_nonzero: "DefaultBaseFeeChangeDenominator K \<noteq> 0" "DefaultElasticityMultiplier K \<noteq> 0"

section \<open>The coin of the EVM\<close>

record EvmCoinInfo =
  eciDenom :: denom
  eciExtendedDenom :: denom
  eciDisplayDenom :: denom
  eciDecimals :: u32

text \<open>A map lookup: a decimals value that is not listed gives a nil number.\<close>

definition ConversionFactor :: "u32 \<Rightarrow> int option" where
  "ConversionFactor d = (if 0 < d \<and> d \<le> 18 then Some (10 ^ (18 - unat d)) else None)"

section \<open>Parameters\<close>

record fm_params =
  NoBaseFee :: bool
  BaseFeeChangeDenominator :: u32
  ElasticityMultiplier :: u32
  EnableHeight :: int
  BaseFee :: "dec option"
  MinGasPrice :: "dec option"
  MinGasMultiplier :: "dec option"

definition DefaultParams :: "'x fee_sdk_scheme \<Rightarrow> fm_params" where
  "DefaultParams K = \<lparr>NoBaseFee = False, BaseFeeChangeDenominator = DefaultBaseFeeChangeDenominator K,
     ElasticityMultiplier = DefaultElasticityMultiplier K, EnableHeight = 0,
     BaseFee = Some (Dec_FromInt K 1000000000), MinGasPrice = Some 0, MinGasMultiplier = Some (dec_one div 2)\<rparr>"

definition MaxFeemarketGasPrice :: "'x sdk_scheme \<Rightarrow> dec" where
  "MaxFeemarketGasPrice K = Dec_FromInt K 1000000000000000000"

definition validateMinGasPrice :: "'x sdk_scheme \<Rightarrow> dec option \<Rightarrow> unit res" where
  "validateMinGasPrice K gasPrice = allE
     [failIf (gasPrice = None) (Errorf ''invalid parameter: nil''),
      failWhen gasPrice (\<lambda>p. p < 0) (Errorf ''value cannot be negative''),
      failWhen gasPrice (\<lambda>p. MaxFeemarketGasPrice K < p) (Errorf ''min gas price exceeds max allowed'')]"

definition validateMinGasMultiplier :: "dec option \<Rightarrow> unit res" where
  "validateMinGasMultiplier multiplier = allE
     [failIf (multiplier = None) (Errorf ''invalid parameter: nil''),
      failWhen multiplier (\<lambda>p. p < 0) (Errorf ''value cannot be negative''),
      failWhen multiplier (\<lambda>p. dec_one < p) (Errorf ''value cannot be greater than 1'')]"

definition FeeParams_Validate :: "'x sdk_scheme \<Rightarrow> fm_params \<Rightarrow> unit res" where
  "FeeParams_Validate K p = allE
     [failIf (BaseFeeChangeDenominator p = 0) (Errorf ''base fee change denominator cannot be 0''),
      failIf (BaseFee p = None) (Errorf ''base fee cannot be nil''),
      failWhen (BaseFee p) (\<lambda>b. b < 0) (Errorf ''initial base fee cannot be negative''),
      failWhen (BaseFee p) (\<lambda>b. MaxFeemarketGasPrice K < b) (Errorf ''base fee exceeds max allowed''),
      failIf (EnableHeight p < 0) (Errorf ''enable height cannot be negative''),
      failIf (ElasticityMultiplier p = 0) (Errorf ''elasticity multiplier cannot be zero''),
      validateMinGasMultiplier (MinGasMultiplier p),
      validateMinGasPrice K (MinGasPrice p),
      (if NoBaseFee p then Inr ()
       else failWhen (BaseFee p) (\<lambda>b. notNilAnd (MinGasPrice p) (\<lambda>m. b < m)) (Errorf ''base fee must be >= min gas price'')),
      (if NoBaseFee p then Inr ()
       else failWhen (BaseFee p) (\<lambda>b. b = 0) (Errorf ''base fee cannot be zero when base fee is enabled''))]"

definition IsBaseFeeEnabled :: "fm_params \<Rightarrow> int \<Rightarrow> bool" where
  "IsBaseFeeEnabled p height \<longleftrightarrow> \<not> NoBaseFee p \<and> EnableHeight p \<le> height"

section \<open>State and keeper\<close>

record fm_state =
  fmParams :: "fm_params option"
  blockGasWanted :: u64
  transientGasWanted :: u64
  fmEvents :: "event list"

record block_meter =
  Limit :: u64
  GasConsumedToLimit :: u64

text \<open>What the module reads from the context: the height, \<open>MaxGas\<close> of the consensus parameters
  (absent when these have no block section) and the block gas meter.\<close>

record block_ctx =
  BlockHeight :: int
  MaxGas :: "int option"
  BlockGasMeter :: "block_meter option"

definition stored_dec :: "dec option \<Rightarrow> dec option" where
  "stored_dec d = (case d of None \<Rightarrow> Some 0 | Some x \<Rightarrow> Some x)"

definition GetParams :: "'x fee_sdk_scheme \<Rightarrow> fm_state \<Rightarrow> fm_params" where
  "GetParams K s = (case fmParams s of None \<Rightarrow> DefaultParams K | Some p \<Rightarrow> p)"

definition SetFeeParams :: "fm_params \<Rightarrow> fm_state \<Rightarrow> fm_state" where
  "SetFeeParams p s = s\<lparr>fmParams := Some (p\<lparr>BaseFee := stored_dec (BaseFee p), MinGasPrice := stored_dec (MinGasPrice p),
     MinGasMultiplier := stored_dec (MinGasMultiplier p)\<rparr>)\<rparr>"

definition GetBaseFee :: "'x fee_sdk_scheme \<Rightarrow> fm_state \<Rightarrow> dec option" where
  "GetBaseFee K s = (if NoBaseFee (GetParams K s) then None else BaseFee (GetParams K s))"

definition SetBaseFee :: "'x fee_sdk_scheme \<Rightarrow> dec \<Rightarrow> fm_state \<Rightarrow> fm_state" where
  "SetBaseFee K baseFee s = SetFeeParams ((GetParams K s)\<lparr>BaseFee := Some baseFee\<rparr>) s"

definition SetBlockGasWanted :: "u64 \<Rightarrow> fm_state \<Rightarrow> fm_state" where
  "SetBlockGasWanted gas s = s\<lparr>blockGasWanted := gas\<rparr>"

definition GetBlockGasWanted :: "fm_state \<Rightarrow> u64" where
  "GetBlockGasWanted s = blockGasWanted s"

definition GetTransientGasWanted :: "fm_state \<Rightarrow> u64" where
  "GetTransientGasWanted s = transientGasWanted s"

definition SetTransientBlockGasWanted :: "u64 \<Rightarrow> fm_state \<Rightarrow> fm_state" where
  "SetTransientBlockGasWanted gas s = s\<lparr>transientGasWanted := gas\<rparr>"

definition AddTransientGasWanted :: "u64 \<Rightarrow> fm_state \<Rightarrow> u64 \<times> fm_state" where
  "AddTransientGasWanted gas s =
     (let result = GetTransientGasWanted s + gas in (result, SetTransientBlockGasWanted result s))"

definition emit :: "event \<Rightarrow> fm_state \<Rightarrow> fm_state" where
  "emit e s = s\<lparr>fmEvents := fmEvents s @ [e]\<rparr>"

section \<open>The base fee\<close>

definition CalcGasBaseFee :: "'x fee_sdk_scheme \<Rightarrow> u64 \<Rightarrow> u64 \<Rightarrow> u64 \<Rightarrow> dec \<Rightarrow> dec \<Rightarrow> dec option \<Rightarrow> dec res" where
  "CalcGasBaseFee K gasUsed gasTarget baseFeeChangeDenom baseFee minUnitGas minGasPrice =
     (if gasUsed = gasTarget then Inr baseFee
      else if gasTarget = 0 then Inr 0
      else tryE (chkDec K (Dec_Mul K (Dec_FromInt K \<bar>uint gasUsed - uint gasTarget\<bar>) baseFee)) (\<lambda>num1.
           tryE (quoInt K num1 (uint gasTarget)) (\<lambda>num2.
           tryE (quoInt K num2 (uint baseFeeChangeDenom)) (\<lambda>num.
           if gasTarget < gasUsed then chkDec K (baseFee + max num minUnitGas)
           else tryE (chkDec K (baseFee - num)) (\<lambda>lower.
                tryE (deref minGasPrice) (\<lambda>floor. Inr (max lower floor)))))))"

definition MaxUint64 :: int where "MaxUint64 = 2 ^ 64 - 1"

text \<open>The block gas limit divided by the elasticity.\<close>

definition parentGasTarget :: "fm_params \<Rightarrow> block_ctx \<Rightarrow> int res" where
  "parentGasTarget p c =
     (let gasLimit = (case MaxGas c of Some g \<Rightarrow> if - 1 < g then g else MaxUint64 | None \<Rightarrow> MaxUint64)
      in if ElasticityMultiplier p = 0 then Inl (GoPanic ''division by zero'')
         else Inr (IntQuo gasLimit (uint (ElasticityMultiplier p))))"

definition CalculateBaseFee :: "'x fee_sdk_scheme \<Rightarrow> EvmCoinInfo \<Rightarrow> block_ctx \<Rightarrow> fm_state \<Rightarrow> dec option res" where
  "CalculateBaseFee K evmCoin c s =
     (let params = GetParams K s in
      if \<not> IsBaseFeeEnabled params (BlockHeight c) then Inr None
      else if BlockHeight c = EnableHeight params then Inr (BaseFee params)
      else case BaseFee params of None \<Rightarrow> Inr None
      | Some parentBaseFee \<Rightarrow>
          tryE (parentGasTarget params c) (\<lambda>target.
          if \<not> (0 \<le> target \<and> target \<le> MaxUint64) then Inr None
          else tryE (deref (ConversionFactor (eciDecimals evmCoin))) (\<lambda>factor.
               tryE (quoInt K dec_one factor) (\<lambda>minUnitGas.
               tryE (CalcGasBaseFee K (GetBlockGasWanted s) (word_of_int target) (ucast (BaseFeeChangeDenominator params))
                       parentBaseFee minUnitGas (MinGasPrice params)) (\<lambda>fee. Inr (Some fee))))))"

definition BeginBlock :: "'x fee_sdk_scheme \<Rightarrow> EvmCoinInfo \<Rightarrow> block_ctx \<Rightarrow> fm_state \<Rightarrow> fm_state res" where
  "BeginBlock K evmCoin c s =
     tryE (CalculateBaseFee K evmCoin c s) (\<lambda>baseFee.
     case baseFee of None \<Rightarrow> Inr s
     | Some b \<Rightarrow> Inr (emit (Event ''fee_market'' [(''base_fee'', Dec_String K b)]) (SetBaseFee K b s)))"

definition MaxInt64 :: int where "MaxInt64 = 2 ^ 63 - 1"

definition clamp64 :: "u64 \<Rightarrow> int" where
  "clamp64 g = (if uint g \<le> MaxInt64 then uint g else MaxInt64)"

definition EndBlock :: "'x fee_sdk_scheme \<Rightarrow> block_ctx \<Rightarrow> fm_state \<Rightarrow> fm_state res" where
  "EndBlock K c s =
     (case BlockGasMeter c of None \<Rightarrow> Inl (Errorf ''block gas meter is nil when setting block gas wanted'')
      | Some meter \<Rightarrow>
          let gasWanted = clamp64 (GetTransientGasWanted s);
              gasUsed = clamp64 (GasConsumedToLimit meter) in
          tryE (deref (MinGasMultiplier (GetParams K s))) (\<lambda>minGasMultiplier.
          tryE (chkDec K (Dec_Mul K (Dec_FromInt K gasWanted) minGasMultiplier)) (\<lambda>limitedGasWanted.
          let updated = Dec_TruncateInt K (max limitedGasWanted (Dec_FromInt K gasUsed)) in
          if \<not> (0 \<le> updated \<and> updated \<le> MaxUint64) then Inl (GoPanic ''Uint64() out of bounds'')
          else Inr (emit (Event ''block_gas''
                 [(''height'', show_int (BlockHeight c)), (''amount'', show_int updated)])
                 (SetBlockGasWanted (word_of_int updated) s)))))"

section \<open>Governance, genesis, queries\<close>

record fm_MsgUpdateParams =
  fmuAuthority :: string
  fmuParams :: fm_params

definition fm_UpdateParams :: "'x fee_sdk_scheme \<Rightarrow> addr \<Rightarrow> fm_MsgUpdateParams \<Rightarrow> fm_state \<Rightarrow> fm_state res" where
  "fm_UpdateParams K govAuthority req s =
     (if AccAddress_String K govAuthority \<noteq> fmuAuthority req then Inl ErrInvalidSigner
      else tryE (FeeParams_Validate K (fmuParams req)) (\<lambda>_. Inr (SetFeeParams (fmuParams req) s)))"

definition fm_MsgUpdateParams_ValidateBasic :: "'x sdk_scheme \<Rightarrow> fm_MsgUpdateParams \<Rightarrow> unit res" where
  "fm_MsgUpdateParams_ValidateBasic K m =
     tryE (AccAddressFromBech32 K (fmuAuthority m)) (\<lambda>_. FeeParams_Validate K (fmuParams m))"

record fm_GenesisState =
  fgParams :: fm_params
  fgBlockGas :: u64

definition fm_DefaultGenesisState :: "'x fee_sdk_scheme \<Rightarrow> fm_GenesisState" where
  "fm_DefaultGenesisState K = \<lparr>fgParams = DefaultParams K, fgBlockGas = 0\<rparr>"

definition fm_GenesisState_Validate :: "'x sdk_scheme \<Rightarrow> fm_GenesisState \<Rightarrow> unit res" where
  "fm_GenesisState_Validate K gs = FeeParams_Validate K (fgParams gs)"

definition fm_InitGenesis :: "fm_GenesisState \<Rightarrow> fm_state \<Rightarrow> fm_state" where
  "fm_InitGenesis data s = SetBlockGasWanted (fgBlockGas data) (SetFeeParams (fgParams data) s)"

definition fm_ExportGenesis :: "'x fee_sdk_scheme \<Rightarrow> fm_state \<Rightarrow> fm_GenesisState" where
  "fm_ExportGenesis K s = \<lparr>fgParams = GetParams K s, fgBlockGas = GetBlockGasWanted s\<rparr>"

definition Query_BaseFee :: "'x fee_sdk_scheme \<Rightarrow> fm_state \<Rightarrow> dec option" where
  "Query_BaseFee K s = GetBaseFee K s"

definition Query_BlockGas :: "fm_state \<Rightarrow> int res" where
  "Query_BlockGas s =
     (let gas = uint (GetBlockGasWanted s) in
      if gas \<le> MaxInt64 then Inr gas else Inl (SdkErr ''block gas is higher than MaxInt64''))"

section \<open>Valid parameters\<close>

definition fm_ok :: "'x sdk_scheme \<Rightarrow> fm_params \<Rightarrow> bool" where
  "fm_ok K p \<longleftrightarrow> BaseFeeChangeDenominator p \<noteq> 0 \<and> ElasticityMultiplier p \<noteq> 0 \<and> 0 \<le> EnableHeight p \<and>
     (\<exists>m. MinGasMultiplier p = Some m \<and> 0 \<le> m \<and> m \<le> dec_one) \<and>
     (\<exists>b g. BaseFee p = Some b \<and> MinGasPrice p = Some g \<and> 0 \<le> b \<and> 0 \<le> g \<and> g \<le> MaxFeemarketGasPrice K \<and>
        (\<not> NoBaseFee p \<longrightarrow> g \<le> b))"

lemma FeeParams_Validate_iff:
  "FeeParams_Validate K p = Inr () \<longleftrightarrow> fm_ok K p \<and> (\<exists>b. BaseFee p = Some b \<and> b \<le> MaxFeemarketGasPrice K \<and> (\<not> NoBaseFee p \<longrightarrow> 0 < b))"
  by (auto simp: FeeParams_Validate_def fm_ok_def validateMinGasPrice_def validateMinGasMultiplier_def
      not_notNilAnd not_less)

lemma GetParams_SetFeeParams:
  "GetParams K (SetFeeParams p s) = p\<lparr>BaseFee := stored_dec (BaseFee p), MinGasPrice := stored_dec (MinGasPrice p),
     MinGasMultiplier := stored_dec (MinGasMultiplier p)\<rparr>"
  by (simp add: GetParams_def SetFeeParams_def)

lemma stored_dec_Some [simp]: "stored_dec (Some x) = Some x"
  by (simp add: stored_dec_def)

lemma fm_ok_stored [simp]: "fm_ok K p \<Longrightarrow> GetParams K (SetFeeParams p s) = p"
  by (auto simp: fm_ok_def GetParams_SetFeeParams)

lemma GetParams_simps [simp]:
  "GetParams K (emit e s) = GetParams K s"
  "GetParams K (SetBlockGasWanted g s) = GetParams K s"
  "GetParams K (SetTransientBlockGasWanted g s) = GetParams K s"
  "GetParams K (s\<lparr>transientGasWanted := g\<rparr>) = GetParams K s"
  by (simp_all add: GetParams_def emit_def SetBlockGasWanted_def SetTransientBlockGasWanted_def)

text \<open>Valid but for the floor: what a block with the gas target zero leaves.\<close>

definition fm_sound :: "'x sdk_scheme \<Rightarrow> fm_params \<Rightarrow> bool" where
  "fm_sound K p \<longleftrightarrow> BaseFeeChangeDenominator p \<noteq> 0 \<and> ElasticityMultiplier p \<noteq> 0 \<and> 0 \<le> EnableHeight p \<and>
     (\<exists>m. MinGasMultiplier p = Some m \<and> 0 \<le> m \<and> m \<le> dec_one) \<and>
     (\<exists>b g. BaseFee p = Some b \<and> MinGasPrice p = Some g \<and> 0 \<le> b \<and> 0 \<le> g \<and> g \<le> MaxFeemarketGasPrice K)"

lemma fm_ok_sound: "fm_ok K p \<Longrightarrow> fm_sound K p"
  by (auto simp: fm_ok_def fm_sound_def)

lemma fm_sound_stored [simp]: "fm_sound K p \<Longrightarrow> GetParams K (SetFeeParams p s) = p"
  by (auto simp: fm_sound_def GetParams_SetFeeParams)

text \<open>The gas target of a block, and the EIP-1559 rule on exact numbers.\<close>

definition gas_target :: "fm_params \<Rightarrow> block_ctx \<Rightarrow> int" where
  "gas_target p c = (case MaxGas c of Some g \<Rightarrow> if - 1 < g then g else MaxUint64 | None \<Rightarrow> MaxUint64) div
     uint (ElasticityMultiplier p)"

definition eip1559 :: "int \<Rightarrow> int \<Rightarrow> int \<Rightarrow> int \<Rightarrow> int \<Rightarrow> int \<Rightarrow> int" where
  "eip1559 used target denom fee unit floor =
     (if used = target then fee
      else if target < used then fee + max ((used - target) * fee div target div denom) unit
      else max (fee - (target - used) * fee div target div denom) floor)"

lemma parentGasTarget_eq: "ElasticityMultiplier p \<noteq> 0 \<Longrightarrow> parentGasTarget p c = Inr (gas_target p c)"
  by (auto simp: parentGasTarget_def gas_target_def IntQuo_def MaxUint64_def Let_def split: option.splits)

lemma uint_pos: "w \<noteq> 0 \<Longrightarrow> 0 < uint w" for w :: "'w :: len word"
  by (metis uint_0_iff less_le uint_nonnegative)

lemma abs_diff_le: "0 \<le> x \<Longrightarrow> x < m \<Longrightarrow> 0 \<le> y \<Longrightarrow> y < m \<Longrightarrow> \<bar>x - y\<bar> \<le> m" for x y m :: int
  by arith

lemma gas_target_range: "ElasticityMultiplier p \<noteq> 0 \<Longrightarrow> MaxGas c = None \<or> (\<exists>g. MaxGas c = Some g \<and> g < 2 ^ 63) \<Longrightarrow>
   0 \<le> gas_target p c \<and> gas_target p c \<le> MaxUint64"
proof -
  assume e: "ElasticityMultiplier p \<noteq> 0" and g: "MaxGas c = None \<or> (\<exists>g. MaxGas c = Some g \<and> g < 2 ^ 63)"
  define l where "l = (case MaxGas c of Some g \<Rightarrow> if - 1 < g then g else MaxUint64 | None \<Rightarrow> MaxUint64)"
  have l: "0 \<le> l" "l \<le> MaxUint64" using g by (auto simp: l_def MaxUint64_def)
  have u: "0 < uint (ElasticityMultiplier p)" by (rule uint_pos [OF e])
  have "l div uint (ElasticityMultiplier p) \<le> l div 1" using l(1) u by (intro zdiv_mono2) simp_all
  with l u show ?thesis unfolding gas_target_def l_def [symmetric] by (simp add: pos_imp_zdiv_nonneg_iff)
qed

lemma gas_target_nonneg: "0 \<le> gas_target p c"
  by (auto simp: gas_target_def MaxUint64_def intro!: div_int_pos_iff [THEN iffD2] split: option.splits)

context fee_sdk_laws
begin

lemma chkDec_small: "\<bar>x\<bar> < 2 ^ 315 \<Longrightarrow> chkDec K x = Inr x"
  by (simp add: chkDec_def Dec_InRange_315)

lemma chkDec_InrD: "chkDec K x = Inr y \<Longrightarrow> y = x"
  by (simp add: chkDec_def split: if_splits)

lemma quoInt_pos: "0 \<le> x \<Longrightarrow> 0 < n \<Longrightarrow> quoInt K x n = Inr (x div n)"
  by (simp add: quoInt_def Dec_QuoInt_nonneg)

lemma Calc_zero_target: "used \<noteq> 0 \<Longrightarrow> CalcGasBaseFee K used 0 denom fee unit floor = Inr 0"
  by (simp add: CalcGasBaseFee_def)

lemma Calc_cases:
  assumes "target \<noteq> 0" and "denom \<noteq> 0" and "0 \<le> fee" and "used \<noteq> target"
  defines "num \<equiv> \<bar>uint used - uint target\<bar> * fee div uint target div uint denom"
  shows "CalcGasBaseFee K used target denom fee unit floor =
    tryE (chkDec K (\<bar>uint used - uint target\<bar> * fee)) (\<lambda>_.
      if target < used then chkDec K (fee + max num unit)
      else tryE (chkDec K (fee - num)) (\<lambda>lower. tryE (deref floor) (\<lambda>fl. Inr (max lower fl))))"
proof -
  have t: "0 < uint target" "0 < uint denom" using assms(1,2) by (simp_all add: uint_pos)
  have n: "0 \<le> \<bar>uint used - uint target\<bar> * fee" using assms(3) by simp
  have "0 \<le> \<bar>uint used - uint target\<bar> * fee div uint target" using n t by (simp add: pos_imp_zdiv_nonneg_iff)
  with n t assms(1,4) show ?thesis
    unfolding CalcGasBaseFee_def Dec_Mul_FromInt
    by (simp add: quoInt_pos num_def chkDec_def)
qed

lemma Calc_sound:
  assumes "target \<noteq> 0" and "denom \<noteq> 0" and "0 \<le> fee"
    and "CalcGasBaseFee K used target denom fee unit (Some fl) = Inr y"
  shows "y = eip1559 (uint used) (uint target) (uint denom) fee unit fl"
proof (cases "used = target")
  case True with assms(4) show ?thesis by (simp add: CalcGasBaseFee_def eip1559_def)
next
  case False
  then have ne: "uint used \<noteq> uint target" by (simp add: word_uint_eq_iff)
  from assms(4) [unfolded Calc_cases [OF assms(1-3) False]] ne show ?thesis
    by (cases "target < used") (auto simp: eip1559_def word_less_def dest!: chkDec_InrD)
qed

lemma Calc_total:
  assumes "target \<noteq> 0" and "denom \<noteq> 0" and "0 \<le> fee" and "fee < 2 ^ 250" and "0 \<le> unit" and "unit < 2 ^ 250"
  shows "\<exists>y. CalcGasBaseFee K used target denom fee unit (Some fl) = Inr y"
proof (cases "used = target")
  case True then show ?thesis by (simp add: CalcGasBaseFee_def)
next
  case False
  define d where "d = \<bar>uint used - uint target\<bar>"
  define num where "num = d * fee div uint target div uint denom"
  have t: "0 < uint target" "0 < uint denom" using assms(1,2) by (simp_all add: uint_pos)
  have "0 \<le> d" "d \<le> 2 ^ 64" using abs_diff_le [of "uint used" "2 ^ 64" "uint target"] uint_bounded [of used] uint_bounded [of target]
    unfolding d_def by simp_all
  then have p: "0 \<le> d * fee" "d * fee \<le> 2 ^ 64 * 2 ^ 250"
    using assms(3,4) mult_mono [of d "2 ^ 64" fee "2 ^ 250"] by simp_all
  have q: "0 \<le> d * fee div uint target" using p(1) t by (simp add: pos_imp_zdiv_nonneg_iff)
  have "d * fee div uint target \<le> d * fee div 1" using p(1) t by (intro zdiv_mono2) simp_all
  moreover have "num \<le> d * fee div uint target div 1" unfolding num_def using q t by (intro zdiv_mono2) simp_all
  ultimately have n: "num \<le> 2 ^ 64 * 2 ^ 250" "0 \<le> num"
    using p q t by (simp_all add: num_def pos_imp_zdiv_nonneg_iff)
  have "chkDec K (d * fee) = Inr (d * fee)" "chkDec K (fee - num) = Inr (fee - num)"
    "chkDec K (fee + max num unit) = Inr (fee + max num unit)"
    using p n assms(3-6) by (auto intro!: chkDec_small)
  then show ?thesis unfolding Calc_cases [OF assms(1-3) False] d_def num_def by simp
qed

lemma Calc_fails:
  fixes used :: u64
  assumes "target \<noteq> 0" and "denom \<noteq> 0" and "0 \<le> fee"
  defines "u \<equiv> uint used" and "t \<equiv> uint target"
  defines "num \<equiv> \<bar>u - t\<bar> * fee div t div uint denom"
  shows "isl (CalcGasBaseFee K used target denom fee unit (Some fl)) \<longleftrightarrow>
    u \<noteq> t \<and> (\<not> Dec_InRange K (\<bar>u - t\<bar> * fee) \<or> \<not> Dec_InRange K (if t < u then fee + max num unit else fee - num))"
proof (cases "used = target")
  case True then show ?thesis by (simp add: CalcGasBaseFee_def u_def t_def)
next
  case False
  then have "u \<noteq> t" by (simp add: u_def t_def word_uint_eq_iff)
  with Calc_cases [OF assms(1-3) False, of unit "Some fl"] show ?thesis
    by (auto simp: u_def t_def num_def chkDec_def word_less_def)
qed

end

lemma eip1559_floor: "0 \<le> fee \<Longrightarrow> 0 \<le> unit \<Longrightarrow> fl \<le> fee \<Longrightarrow> fl \<le> eip1559 used target denom fee unit fl"
  by (auto simp: eip1559_def)

lemma eip1559_nonneg: "0 \<le> fee \<Longrightarrow> 0 \<le> unit \<Longrightarrow> 0 \<le> fl \<Longrightarrow> 0 \<le> eip1559 used target denom fee unit fl"
  by (auto simp: eip1559_def)

lemma share_le: "0 \<le> fee \<Longrightarrow> 0 < target \<Longrightarrow> 0 < denom \<Longrightarrow> 0 \<le> d \<Longrightarrow> d \<le> e * target \<Longrightarrow>
   d * fee div target div denom \<le> e * fee div denom" for fee :: int
proof -
  assume a: "0 \<le> fee" "0 < target" "0 < denom" "0 \<le> d" "d \<le> e * target"
  then have "d * fee \<le> (e * target) * fee" by (intro mult_right_mono)
  then have "d * fee div target \<le> (e * fee) * target div target" using a(2) by (intro zdiv_mono1) (simp_all add: mult_ac)
  then have "d * fee div target \<le> e * fee" using a(2) by simp
  then show ?thesis using a(3) by (rule zdiv_mono1)
qed

lemma eip1559_bounds:
  assumes "0 \<le> fee" and "0 < target" and "0 < denom" and "0 \<le> used" and "used \<le> e * target" and "0 \<le> unit"
  shows "target < used \<Longrightarrow> eip1559 used target denom fee unit fl \<le> fee + max ((e - 1) * fee div denom) unit"
    and "fee - fee div denom \<le> eip1559 used target denom fee unit fl"
proof -
  show "eip1559 used target denom fee unit fl \<le> fee + max ((e - 1) * fee div denom) unit" if "target < used"
    using share_le [of fee target denom "used - target" "e - 1"] assms that by (auto simp: eip1559_def algebra_simps)
  have "(target - used) * fee div target div denom \<le> fee div denom" if "used < target"
    using share_le [of fee target denom "target - used" 1] assms that by simp
  moreover have "0 \<le> fee div denom" using assms by (simp add: pos_imp_zdiv_nonneg_iff)
  ultimately show "fee - fee div denom \<le> eip1559 used target denom fee unit fl"
    using assms(6) by (auto simp: eip1559_def max_def)
qed

section \<open>The module over a chain of blocks\<close>

text \<open>
  What happens to the module's state: the start of a block, a transaction that adds its gas, the end of a
  block, the reset of the transient store at commit, a parameter update by governance. Blocks are those
  whose gas limit gives a positive gas target (an unlimited block, or a limit of at least the elasticity).
\<close>

inductive fm_step :: "'x fee_sdk_scheme \<Rightarrow> addr \<Rightarrow> EvmCoinInfo \<Rightarrow> fm_state \<Rightarrow> fm_state \<Rightarrow> bool"
  for K :: "'x fee_sdk_scheme" and gov :: addr and evmCoin :: EvmCoinInfo where
  begin_block: "0 < gas_target (GetParams K s) c \<Longrightarrow> BeginBlock K evmCoin c s = Inr s' \<Longrightarrow> fm_step K gov evmCoin s s'"
| add_gas: "fm_step K gov evmCoin s (snd (AddTransientGasWanted g s))"
| end_block: "EndBlock K c s = Inr s' \<Longrightarrow> fm_step K gov evmCoin s s'"
| commit: "fm_step K gov evmCoin s (s\<lparr>transientGasWanted := 0\<rparr>)"
| update_params: "fm_UpdateParams K gov req s = Inr s' \<Longrightarrow> fm_step K gov evmCoin s s'"

text \<open>The same with every block, whatever its gas limit.\<close>

inductive fm_any_step :: "'x fee_sdk_scheme \<Rightarrow> addr \<Rightarrow> EvmCoinInfo \<Rightarrow> fm_state \<Rightarrow> fm_state \<Rightarrow> bool"
  for K :: "'x fee_sdk_scheme" and gov :: addr and evmCoin :: EvmCoinInfo where
  any_block: "BeginBlock K evmCoin c s = Inr s' \<Longrightarrow> fm_any_step K gov evmCoin s s'"
| other: "fm_step K gov evmCoin s s' \<Longrightarrow> fm_any_step K gov evmCoin s s'"

definition min_unit :: "EvmCoinInfo \<Rightarrow> int" where
  "min_unit evmCoin = 10 ^ unat (eciDecimals evmCoin)"

lemma factor_div: "ConversionFactor d = Some f \<Longrightarrow> 0 < f \<and> dec_one div f = 10 ^ unat d \<and> 10 ^ unat d \<le> dec_one"
proof -
  assume "ConversionFactor d = Some f"
  then have d: "d \<le> 18" and f: "f = 10 ^ (18 - unat d)" by (simp_all add: ConversionFactor_def split: if_splits)
  from d have n: "unat d \<le> 18" by (simp add: word_le_nat_alt)
  have "(10::int) ^ 18 = 10 ^ (18 - unat d) * 10 ^ unat d" using n by (simp flip: power_add)
  then have "dec_one = f * 10 ^ unat d" by (simp add: f)
  moreover from this have "dec_one div f = 10 ^ unat d" unfolding f
    by (metis nonzero_mult_div_cancel_left power_not_zero zero_neq_numeral)
  moreover have "(10::int) ^ unat d \<le> 10 ^ 18" using n by (intro power_increasing) simp_all
  ultimately show ?thesis using f by simp
qed

context fee_sdk_laws
begin

lemma Default_ok: "fm_ok K (DefaultParams K)"
  by (simp add: fm_ok_def DefaultParams_def Default_nonzero MaxFeemarketGasPrice_def Dec_FromInt_eq)

lemma CalculateBaseFee_eq:
  assumes "fm_ok K (GetParams K s)" and "0 < gas_target (GetParams K s) c" and "gas_target (GetParams K s) c \<le> MaxUint64"
    and "ConversionFactor (eciDecimals evmCoin) = Some f"
    and "IsBaseFeeEnabled (GetParams K s) (BlockHeight c)" and "BlockHeight c \<noteq> EnableHeight (GetParams K s)"
    and "BaseFee (GetParams K s) = Some b"
  shows "CalculateBaseFee K evmCoin c s = tryE (CalcGasBaseFee K (GetBlockGasWanted s) (word_of_int (gas_target (GetParams K s) c))
    (ucast (BaseFeeChangeDenominator (GetParams K s))) b (min_unit evmCoin) (MinGasPrice (GetParams K s))) (\<lambda>fee. Inr (Some fee))"
proof -
  have "ElasticityMultiplier (GetParams K s) \<noteq> 0" using assms(1) by (simp add: fm_ok_def)
  moreover have "quoInt K dec_one f = Inr (min_unit evmCoin)"
    using factor_div [OF assms(4)] by (simp add: quoInt_pos min_unit_def)
  ultimately show ?thesis
    using assms(2-7) by (simp add: CalculateBaseFee_def Let_def parentGasTarget_eq)
qed

lemma target_word:
  assumes "0 < t" and "t \<le> MaxUint64"
  shows "uint (word_of_int t :: u64) = t" and "(word_of_int t :: u64) \<noteq> 0"
proof -
  show "uint (word_of_int t :: u64) = t" using assms by (simp add: uint_word_of_int MaxUint64_def)
  with assms(1) show "(word_of_int t :: u64) \<noteq> 0" by (auto simp flip: uint_0_iff)
qed

lemma denom_word: "d \<noteq> 0 \<Longrightarrow> (ucast d :: u64) \<noteq> 0 \<and> uint (ucast d :: u64) = uint d" for d :: u32
proof -
  assume "d \<noteq> 0"
  moreover have "uint (ucast d :: u64) = uint d"
    using uint_bounded [of d] by (simp add: unsigned_ucast_eq take_bit_int_eq_self)
  ultimately show ?thesis by (simp flip: uint_0_iff)
qed

text \<open>The new base fee keeps the parameters valid, and so does the rest of the block cycle.\<close>

lemma CalculateBaseFee_Some:
  assumes ok: "fm_ok K p" and p: "p = GetParams K s" and t: "0 < gas_target p c"
    and run: "CalculateBaseFee K evmCoin c s = Inr (Some fee)"
  obtains b g where "BaseFee p = Some b" and "MinGasPrice p = Some g"
    and "fee = b \<or> fee = eip1559 (uint (GetBlockGasWanted s)) (gas_target p c) (uint (BaseFeeChangeDenominator p)) b
           (min_unit evmCoin) g"
proof -
  obtain b g where b: "BaseFee p = Some b" "MinGasPrice p = Some g" "0 \<le> b" using ok by (auto simp: fm_ok_def)
  have e: "ElasticityMultiplier p \<noteq> 0" "BaseFeeChangeDenominator p \<noteq> 0" using ok by (simp_all add: fm_ok_def)
  have en: "IsBaseFeeEnabled p (BlockHeight c)" using run p by (auto simp: CalculateBaseFee_def Let_def split: if_splits)
  show ?thesis
  proof (cases "BlockHeight c = EnableHeight p")
    case True
    then show ?thesis using run p b en that by (auto simp: CalculateBaseFee_def Let_def)
  next
    case False
    have u: "gas_target p c \<le> MaxUint64" and f: "\<exists>f. ConversionFactor (eciDecimals evmCoin) = Some f"
      using run p b en e False by (auto simp: CalculateBaseFee_def Let_def parentGasTarget_eq split: if_splits)
    from f obtain f where f: "ConversionFactor (eciDecimals evmCoin) = Some f" by blast
    from run have "CalcGasBaseFee K (GetBlockGasWanted s) (word_of_int (gas_target p c)) (ucast (BaseFeeChangeDenominator p)) b
      (min_unit evmCoin) (Some g) = Inr fee"
      unfolding CalculateBaseFee_eq [of s c evmCoin f b, folded p, OF ok t u f en False b(1)] using b(2) by simp
    from Calc_sound [OF _ _ b(3) this] target_word [OF t u] denom_word [OF e(2)]
    have "fee = eip1559 (uint (GetBlockGasWanted s)) (gas_target p c) (uint (BaseFeeChangeDenominator p)) b (min_unit evmCoin) g"
      by simp
    with b that show ?thesis by blast
  qed
qed

lemma BeginBlock_result:
  assumes ok: "fm_ok K (GetParams K s)" and t: "0 < gas_target (GetParams K s) c" and run: "BeginBlock K evmCoin c s = Inr s'"
  shows "fm_ok K (GetParams K s')"
proof (cases "CalculateBaseFee K evmCoin c s")
  case (Inl e) with run show ?thesis by (simp add: BeginBlock_def)
next
  case (Inr r)
  show ?thesis
  proof (cases r)
    case None with Inr run ok show ?thesis by (simp add: BeginBlock_def)
  next
    case (Some fee)
    obtain b g where b: "BaseFee (GetParams K s) = Some b" "MinGasPrice (GetParams K s) = Some g"
      and fee: "fee = b \<or> fee = eip1559 (uint (GetBlockGasWanted s)) (gas_target (GetParams K s) c)
        (uint (BaseFeeChangeDenominator (GetParams K s))) b (min_unit evmCoin) g"
      using CalculateBaseFee_Some [OF ok refl t Inr [unfolded Some]] by metis
    have u: "0 \<le> min_unit evmCoin" by (simp add: min_unit_def)
    have r: "0 \<le> b" "0 \<le> g" "\<not> NoBaseFee (GetParams K s) \<longrightarrow> g \<le> b" using ok b by (auto simp: fm_ok_def)
    have "0 \<le> fee" using fee r eip1559_nonneg [OF r(1) u r(2)] by auto
    moreover have "\<not> NoBaseFee (GetParams K s) \<longrightarrow> g \<le> fee" using fee r eip1559_floor [OF r(1) u, of g] by auto
    ultimately have "fm_ok K ((GetParams K s)\<lparr>BaseFee := Some fee\<rparr>)" using ok b by (auto simp: fm_ok_def)
    with Inr Some run show ?thesis by (auto simp: BeginBlock_def SetBaseFee_def)
  qed
qed

lemma fm_step_ok: "fm_step K gov evmCoin s s' \<Longrightarrow> fm_ok K (GetParams K s) \<Longrightarrow> fm_ok K (GetParams K s')"
proof (induction rule: fm_step.induct)
  case (begin_block s c s')
  then show ?case by (rule_tac BeginBlock_result)
next
  case (end_block c s s')
  then show ?case by (auto simp: EndBlock_def Let_def split: option.splits if_splits)
next
  case (update_params req s s')
  then show ?case by (auto simp: fm_UpdateParams_def FeeParams_Validate_iff fm_ok_stored split: if_splits)
qed (simp_all add: AddTransientGasWanted_def Let_def)

lemma fm_reach_ok:
  assumes "(fm_step K gov evmCoin)\<^sup>*\<^sup>* s s'" and "FeeParams_Validate K (GetParams K s) = Inr ()"
  shows "fm_ok K (GetParams K s')"
  using assms by (induction rule: rtranclp_induct) (simp_all add: FeeParams_Validate_iff fm_step_ok)

text \<open>Every block: its exact result, when it fails, and what it keeps.\<close>

lemma CalculateBaseFee_exact:
  assumes "fm_sound K p" and "p = GetParams K s" and "BaseFee p = Some b" and "MinGasPrice p = Some g"
  shows "CalculateBaseFee K evmCoin c s =
    (if \<not> IsBaseFeeEnabled p (BlockHeight c) then Inr None else if BlockHeight c = EnableHeight p then Inr (Some b)
     else if MaxUint64 < gas_target p c then Inr None
     else if ConversionFactor (eciDecimals evmCoin) = None then Inl (GoPanic ''nil'')
     else tryE (CalcGasBaseFee K (GetBlockGasWanted s) (word_of_int (gas_target p c)) (ucast (BaseFeeChangeDenominator p)) b
       (min_unit evmCoin) (Some g)) (\<lambda>fee. Inr (Some fee)))"
proof -
  have e: "ElasticityMultiplier p \<noteq> 0" using assms(1) by (simp add: fm_sound_def)
  have "quoInt K dec_one f = Inr (min_unit evmCoin)" if "ConversionFactor (eciDecimals evmCoin) = Some f" for f
    using factor_div [OF that] by (simp add: quoInt_pos min_unit_def)
  then show ?thesis using assms(3,4) gas_target_nonneg [of p c]
    unfolding CalculateBaseFee_def Let_def assms(2) [symmetric] parentGasTarget_eq [OF e]
    by (cases "ConversionFactor (eciDecimals evmCoin)") (simp_all add: not_less)
qed

lemma BeginBlock_fails:
  fixes s c evmCoin
  assumes "fm_sound K p" and "p = GetParams K s" and "BaseFee p = Some b"
  defines "u \<equiv> uint (GetBlockGasWanted s)" and "t \<equiv> gas_target p c"
  defines "num \<equiv> \<bar>u - t\<bar> * b div t div uint (BaseFeeChangeDenominator p)"
  shows "isl (BeginBlock K evmCoin c s) \<longleftrightarrow> IsBaseFeeEnabled p (BlockHeight c) \<and> BlockHeight c \<noteq> EnableHeight p \<and> t \<le> MaxUint64 \<and>
    (ConversionFactor (eciDecimals evmCoin) = None \<or>
     0 < t \<and> u \<noteq> t \<and> (\<not> Dec_InRange K (\<bar>u - t\<bar> * b) \<or> \<not> Dec_InRange K (if t < u then b + max num (min_unit evmCoin) else b - num)))"
proof -
  obtain g where g: "MinGasPrice p = Some g" and b0: "0 \<le> b" using assms(1,3) by (auto simp: fm_sound_def)
  have d: "BaseFeeChangeDenominator p \<noteq> 0" using assms(1) by (simp add: fm_sound_def)
  have B: "isl (BeginBlock K evmCoin c s) \<longleftrightarrow> isl (CalculateBaseFee K evmCoin c s)"
    by (cases "CalculateBaseFee K evmCoin c s") (auto simp: BeginBlock_def split: option.splits)
  have C: "isl (CalcGasBaseFee K (GetBlockGasWanted s) (word_of_int t) (ucast (BaseFeeChangeDenominator p)) b (min_unit evmCoin) (Some g)) \<longleftrightarrow>
      0 < t \<and> u \<noteq> t \<and> (\<not> Dec_InRange K (\<bar>u - t\<bar> * b) \<or> \<not> Dec_InRange K (if t < u then b + max num (min_unit evmCoin) else b - num))"
    if "t \<le> MaxUint64"
  proof (cases "t = 0")
    case True then show ?thesis by (simp add: CalcGasBaseFee_def)
  next
    case False
    then have t: "0 < t" using gas_target_nonneg [of p c] by (simp add: t_def)
    note w = target_word [OF t that] and dw = denom_word [OF d]
    from Calc_fails [OF w(2) dw [THEN conjunct1] b0, of "GetBlockGasWanted s" "min_unit evmCoin" g] w(1) dw t
    show ?thesis by (simp add: u_def num_def)
  qed
  have T: "isl (tryE r (\<lambda>fee. Inr (Some fee))) \<longleftrightarrow> isl r" for r :: "dec res" by (cases r) simp_all
  show ?thesis unfolding B CalculateBaseFee_exact [OF assms(1-3) g] using C T by (auto simp: t_def not_less deref_def)
qed

lemma BeginBlock_any:
  assumes ok: "fm_sound K p" and p: "p = GetParams K s" and run: "BeginBlock K evmCoin c s = Inr s'"
    and b: "BaseFee p = Some b" and g: "MinGasPrice p = Some g"
  shows "\<exists>b'. GetParams K s' = p\<lparr>BaseFee := Some b'\<rparr> \<and> 0 \<le> b' \<and>
    (b' = b \<or> gas_target p c = 0 \<and> b' = 0 \<or>
     0 < gas_target p c \<and> b' = eip1559 (uint (GetBlockGasWanted s)) (gas_target p c) (uint (BaseFeeChangeDenominator p)) b (min_unit evmCoin) g)"
proof -
  have b0: "0 \<le> b" "0 \<le> g" using ok b g by (auto simp: fm_sound_def)
  have d: "BaseFeeChangeDenominator p \<noteq> 0" using ok by (simp add: fm_sound_def)
  have same: "p\<lparr>BaseFee := Some b\<rparr> = p" using b by (cases p) simp
  from run consider "CalculateBaseFee K evmCoin c s = Inr None" "s' = s"
    | fee where "CalculateBaseFee K evmCoin c s = Inr (Some fee)" "GetParams K s' = GetParams K (SetBaseFee K fee s)"
    by (cases "CalculateBaseFee K evmCoin c s") (auto simp: BeginBlock_def split: option.splits)
  then show ?thesis
  proof cases
    case 1
    then show ?thesis using p same b0 by (intro exI [of _ b]) simp
  next
    case 2
    have G: "GetParams K s' = p\<lparr>BaseFee := Some fee\<rparr>"
      using ok b g unfolding 2(2) SetBaseFee_def GetParams_SetFeeParams p [symmetric] by (cases p) (auto simp: fm_sound_def)
    have R: "fee = b \<or> gas_target p c \<le> MaxUint64 \<and> CalcGasBaseFee K (GetBlockGasWanted s) (word_of_int (gas_target p c))
        (ucast (BaseFeeChangeDenominator p)) b (min_unit evmCoin) (Some g) = Inr fee"
      using 2(1) unfolding CalculateBaseFee_exact [OF ok p b g] by (auto simp: not_less deref_def split: if_splits)
    have "fee = b \<or> gas_target p c = 0 \<and> fee = 0 \<or>
      0 < gas_target p c \<and> fee = eip1559 (uint (GetBlockGasWanted s)) (gas_target p c) (uint (BaseFeeChangeDenominator p)) b (min_unit evmCoin) g"
    proof (cases "gas_target p c = 0")
      case True then show ?thesis using R by (auto simp: CalcGasBaseFee_def split: if_splits)
    next
      case False
      then have t: "0 < gas_target p c" using gas_target_nonneg [of p c] by simp
      show ?thesis using R Calc_sound [OF _ _ b0(1)] target_word [OF t] denom_word [OF d] t by metis
    qed
    moreover have "0 \<le> min_unit evmCoin" by (simp add: min_unit_def)
    ultimately show ?thesis using G b0 eip1559_nonneg [OF b0(1) _ b0(2)] by (intro exI [of _ fee]) auto
  qed
qed

lemma any_block_sound: "fm_sound K (GetParams K s) \<Longrightarrow> BeginBlock K evmCoin c s = Inr s' \<Longrightarrow> fm_sound K (GetParams K s')"
proof -
  assume ok: "fm_sound K (GetParams K s)" and run: "BeginBlock K evmCoin c s = Inr s'"
  obtain b g where "BaseFee (GetParams K s) = Some b" "MinGasPrice (GetParams K s) = Some g" using ok by (auto simp: fm_sound_def)
  from BeginBlock_any [OF ok refl run this] ok show ?thesis by (auto simp: fm_sound_def)
qed

lemma fm_any_step_sound: "fm_any_step K gov evmCoin s s' \<Longrightarrow> fm_sound K (GetParams K s) \<Longrightarrow> fm_sound K (GetParams K s')"
proof (induction rule: fm_any_step.induct)
  case (any_block c s s')
  then show ?case using any_block_sound by blast
next
  case (other s s')
  then show ?case
  proof (induction rule: fm_step.induct)
    case (begin_block s c s')
    then show ?case using any_block_sound by blast
  next
    case (end_block c s s')
    then show ?case by (auto simp: EndBlock_def Let_def split: option.splits if_splits)
  next
    case (update_params req s s')
    then show ?case by (auto simp: fm_UpdateParams_def FeeParams_Validate_iff fm_ok_sound split: if_splits)
  qed (simp_all add: AddTransientGasWanted_def Let_def)
qed

lemma fm_any_reach:
  assumes "(fm_any_step K gov evmCoin)\<^sup>*\<^sup>* s s'" and "FeeParams_Validate K (GetParams K s) = Inr ()"
  shows "fm_sound K (GetParams K s')"
  using assms by (induction rule: rtranclp_induct) (simp_all add: FeeParams_Validate_iff fm_ok_sound fm_any_step_sound)

lemma BeginBlock_total:
  assumes ok: "fm_sound K (GetParams K s)" and b: "BaseFee (GetParams K s) = Some b" "b < 2 ^ 250"
    and f: "ConversionFactor (eciDecimals evmCoin) = Some f"
  shows "\<exists>s'. BeginBlock K evmCoin c s = Inr s'"
proof -
  define p where "p = GetParams K s"
  obtain g where g: "MinGasPrice p = Some g" and b0: "0 \<le> b" using ok b by (auto simp: fm_sound_def p_def)
  have e: "ElasticityMultiplier p \<noteq> 0" "BaseFeeChangeDenominator p \<noteq> 0" using ok by (simp_all add: fm_sound_def p_def)
  have unit: "quoInt K dec_one f = Inr (min_unit evmCoin)" "0 \<le> min_unit evmCoin" "min_unit evmCoin < 2 ^ 250"
    using factor_div [OF f] by (simp_all add: quoInt_pos min_unit_def)
  have calc: "\<exists>y. CalcGasBaseFee K used (word_of_int t) (ucast (BaseFeeChangeDenominator p)) b (min_unit evmCoin) (Some g) = Inr y"
    for used and t :: int
  proof (cases "(word_of_int t :: u64) = 0")
    case True then show ?thesis by (simp add: CalcGasBaseFee_def)
  next
    case False
    from Calc_total [OF this _ b0 b(2) unit(2,3)] denom_word [OF e(2)] show ?thesis by blast
  qed
  have "\<exists>r. CalculateBaseFee K evmCoin c s = Inr r"
    using calc [of "GetBlockGasWanted s" "gas_target p c"] e b g f unit(1)
    by (auto simp: CalculateBaseFee_def Let_def parentGasTarget_eq simp flip: p_def)
  then obtain r where "CalculateBaseFee K evmCoin c s = Inr r" by blast
  then show ?thesis by (cases r) (simp_all add: BeginBlock_def)
qed

lemma EndBlock_total:
  assumes ok: "fm_sound K (GetParams K s)" and "BlockGasMeter c = Some meter"
  shows "\<exists>s'. EndBlock K c s = Inr s'"
proof -
  obtain m where m: "MinGasMultiplier (GetParams K s) = Some m" "0 \<le> m" "m \<le> dec_one" using ok by (auto simp: fm_sound_def)
  define w where "w = clamp64 (GetTransientGasWanted s)"
  define u where "u = clamp64 (GasConsumedToLimit meter)"
  have w: "0 \<le> w" "w \<le> MaxInt64" and u: "0 \<le> u" "u \<le> MaxInt64" by (simp_all add: w_def u_def clamp64_def MaxInt64_def)
  have x: "0 \<le> w * m" "w * m \<le> MaxInt64 * dec_one" using w m mult_mono [of w MaxInt64 m dec_one] by (simp_all add: MaxInt64_def)
  then have c: "chkDec K (w * m) = Inr (w * m)" by (auto intro!: chkDec_small simp: MaxInt64_def)
  define z where "z = max (w * m) (u * dec_one)"
  have z: "0 \<le> z" "z \<le> MaxInt64 * dec_one" using x u by (auto simp: z_def)
  have "z div dec_one \<le> MaxInt64 * dec_one div dec_one" using z(2) by (rule zdiv_mono1) simp
  then have "0 \<le> z div dec_one" "z div dec_one \<le> MaxUint64" using z(1)
    by (simp_all add: pos_imp_zdiv_nonneg_iff MaxInt64_def MaxUint64_def)
  moreover have "Dec_TruncateInt K (max (w * m) (Dec_FromInt K u)) = z div dec_one"
    using z(1) by (simp add: Dec_TruncateInt_nonneg Dec_FromInt_eq flip: z_def)
  ultimately show ?thesis using assms(2) m(1) c
    by (simp add: EndBlock_def Let_def Dec_Mul_FromInt del: tryE_Inr flip: w_def u_def)
qed

end

section \<open>A concrete fee market\<close>

definition ref_fee :: fee_sdk where
  "ref_fee = sdk.extend ref_sdk (fee_sdk.fields (\<lambda>x n. IntQuo x n) (\<lambda>x. \<bar>x\<bar> < 2 ^ 315) show_int
     (\<lambda>cs qs. list_ex (\<lambda>c. amount_of qs (Denom c) \<noteq> 0 \<and> amount_of qs (Denom c) \<le> Amount c) cs) amount_of 1000000 8 2)"

interpretation reffee: fee_sdk_laws ref_fee
proof (intro fee_sdk_laws.intro fee_sdk_laws_axioms.intro)
  show "sdk_laws ref_fee" unfolding ref_fee_def by (rule sdk_laws_extend) (rule ref.sdk_laws_axioms)
qed (simp_all add: ref_fee_def sdk.defs fee_sdk.defs IntQuo_def)

definition stoc_coin :: EvmCoinInfo where
  "stoc_coin = \<lparr>eciDenom = ''ustoc'', eciExtendedDenom = ''astoc'', eciDisplayDenom = ''stoc'', eciDecimals = 6\<rparr>"

text \<open>The parameters the v5.0.0 upgrade sets, and a block context of the chain.\<close>

definition v5_params :: fm_params where
  "v5_params = (DefaultParams ref_fee)\<lparr>BaseFee := Some (10 ^ 15), MinGasPrice := Some (10 ^ 15)\<rparr>"

definition fm_start :: fm_state where
  "fm_start = \<lparr>fmParams = Some v5_params, blockGasWanted = 30000000, transientGasWanted = 0, fmEvents = []\<rparr>"

definition fm_block :: block_ctx where
  "fm_block = \<lparr>BlockHeight = 100, MaxGas = Some 40000000, BlockGasMeter = Some \<lparr>Limit = 40000000, GasConsumedToLimit = 5\<rparr>\<rparr>"

section \<open>Theorems\<close>

text \<open>C12.
  Whatever sequence of blocks, transactions and parameter updates a chain goes through from a state with
  valid parameters (for instance the defaults, or parameters that genesis or governance validated), the
  numbers of the parameters stay present and in their ranges: no division by zero can arise from them, no price is negative
  and the gas multiplier is at most one. While all blocks have a positive gas target, an enabled base fee never
  falls below the minimum gas price. A block whose gas target is zero is the only one that takes a base
  fee at or above the minimum gas price below it, and it sets the fee to zero.\<close>

theorem fee_params_stay_valid:
  assumes "fee_sdk_laws K" and "FeeParams_Validate K (GetParams K s) = Inr ()" and "(fm_any_step K gov evmCoin)\<^sup>*\<^sup>* s s'"
  shows "\<exists>b g m. let p = GetParams K s' in BaseFeeChangeDenominator p \<noteq> 0 \<and> ElasticityMultiplier p \<noteq> 0 \<and> 0 \<le> EnableHeight p \<and>
    BaseFee p = Some b \<and> MinGasPrice p = Some g \<and> MinGasMultiplier p = Some m \<and>
    0 \<le> b \<and> 0 \<le> g \<and> g \<le> MaxFeemarketGasPrice K \<and> 0 \<le> m \<and> m \<le> dec_one \<and>
    ((fm_step K gov evmCoin)\<^sup>*\<^sup>* s s' \<longrightarrow> \<not> NoBaseFee p \<longrightarrow> g \<le> b) \<and>
    (\<forall>c s1. BeginBlock K evmCoin c s' = Inr s1 \<longrightarrow> (\<exists>b1. GetParams K s1 = p\<lparr>BaseFee := Some b1\<rparr> \<and>
       (g \<le> b \<longrightarrow> g \<le> b1 \<or> gas_target p c = 0 \<and> b1 = 0)))"
proof -
  let ?p = "GetParams K s'"
  have ok: "fm_sound K ?p" by (rule fee_sdk_laws.fm_any_reach [OF assms(1,3,2)])
  obtain b g where b: "BaseFee ?p = Some b" "MinGasPrice ?p = Some g" "0 \<le> b" using ok by (auto simp: fm_sound_def)
  have floor: "\<not> NoBaseFee ?p \<longrightarrow> g \<le> b" if "(fm_step K gov evmCoin)\<^sup>*\<^sup>* s s'"
    using fee_sdk_laws.fm_reach_ok [OF assms(1) that assms(2)] b by (auto simp: fm_ok_def)
  have blk: "\<exists>b1. GetParams K s1 = ?p\<lparr>BaseFee := Some b1\<rparr> \<and> (g \<le> b \<longrightarrow> g \<le> b1 \<or> gas_target ?p c = 0 \<and> b1 = 0)"
    if "BeginBlock K evmCoin c s' = Inr s1" for c s1
    using fee_sdk_laws.BeginBlock_any [OF assms(1) ok refl that b(1,2)] eip1559_floor [OF b(3), of "min_unit evmCoin" g]
    by (fastforce simp: min_unit_def)
  from ok b floor blk show ?thesis by (auto simp: fm_sound_def Let_def)
qed

lemma ref_fee_sel [simp]:
  "Dec_FromInt ref_fee = (\<lambda>n. n * dec_one)"
  "DefaultBaseFeeChangeDenominator ref_fee = 8" "DefaultElasticityMultiplier ref_fee = 2"
  by (simp_all add: ref_fee_def ref_sdk_def sdk.defs fee_sdk.defs)

lemma fm_start_params: "GetParams ref_fee fm_start = \<lparr>NoBaseFee = False, BaseFeeChangeDenominator = 8, ElasticityMultiplier = 2,
    EnableHeight = 0, BaseFee = Some (10 ^ 15), MinGasPrice = Some (10 ^ 15), MinGasMultiplier = Some (dec_one div 2)\<rparr>"
  by (simp add: GetParams_def fm_start_def v5_params_def DefaultParams_def)

lemma v5_valid: "FeeParams_Validate ref_fee (GetParams ref_fee fm_start) = Inr ()"
  by (simp add: FeeParams_Validate_iff fm_start_params fm_ok_def MaxFeemarketGasPrice_def)

lemma stoc_factor: "ConversionFactor (eciDecimals stoc_coin) = Some (10 ^ 12)"
  by (simp add: ConversionFactor_def stoc_coin_def)

lemma fm_start_steps: "\<exists>s'. BeginBlock ref_fee stoc_coin fm_block fm_start = Inr s' \<and>
   BaseFee (GetParams ref_fee s') = Some 1062500000000000 \<and> \<not> NoBaseFee (GetParams ref_fee s')"
proof -
  have "(case BeginBlock ref_fee stoc_coin fm_block fm_start of Inl e \<Rightarrow> False
    | Inr s' \<Rightarrow> BaseFee (GetParams ref_fee s') = Some 1062500000000000 \<and> \<not> NoBaseFee (GetParams ref_fee s'))" by code_simp
  then show ?thesis by (simp split: sum.splits)
qed

theorem fee_params_stay_valid_witness:
  "\<exists>s' g b. BeginBlock ref_fee stoc_coin fm_block fm_start = Inr s' \<and> BaseFee (GetParams ref_fee s') = Some b \<and>
     MinGasPrice (GetParams ref_fee s') = Some g \<and> b = 1062500000000000 \<and> 0 \<le> g \<and> g \<le> b"
proof -
  obtain s' where s': "BeginBlock ref_fee stoc_coin fm_block fm_start = Inr s'" "BaseFee (GetParams ref_fee s') = Some 1062500000000000"
    "\<not> NoBaseFee (GetParams ref_fee s')" using fm_start_steps by blast
  have "0 < gas_target (GetParams ref_fee fm_start) fm_block" by (simp add: fm_start_params gas_target_def fm_block_def)
  then have st: "(fm_step ref_fee ''gov'' stoc_coin)\<^sup>*\<^sup>* fm_start s'" using s'(1) by (blast intro: fm_step.begin_block)
  have "(fm_any_step ref_fee ''gov'' stoc_coin)\<^sup>*\<^sup>* fm_start s'" using s'(1) by (blast intro: fm_any_step.any_block)
  from fee_params_stay_valid [OF reffee.fee_sdk_laws_axioms v5_valid this] s' st show ?thesis by (auto simp: Let_def)
qed



text \<open>C39.
  The base fee of a block is the EIP-1559 rule on exact numbers: unchanged when the previous block met its
  gas target; above it, raised by the proportional share, at least one smallest unit and at most the share
  of a block that used \<open>e\<close> times its target; below it, lowered by at most one part in the change
  denominator and never under the minimum gas price.\<close>

theorem CalcGasBaseFee_eip1559:
  assumes "fee_sdk_laws K" and "target \<noteq> 0" and "denom \<noteq> 0" and "0 \<le> fee" and "fee < 2 ^ 250" and "0 \<le> unit" and "unit < 2 ^ 250"
    and "uint used \<le> e * uint target"
  shows "\<exists>y. CalcGasBaseFee K used target denom fee unit (Some fl) = Inr y \<and>
    y = eip1559 (uint used) (uint target) (uint denom) fee unit fl \<and>
    fee - fee div uint denom \<le> y \<and> (fl \<le> fee \<longrightarrow> fl \<le> y) \<and>
    (target < used \<longrightarrow> fee + unit \<le> y \<and> y \<le> fee + max ((e - 1) * fee div uint denom) unit) \<and>
    (used < target \<longrightarrow> y \<le> max fee fl)"
proof -
  have t: "0 < uint target" "0 < uint denom" using assms(2,3) by (simp_all add: uint_pos)
  obtain y where y: "CalcGasBaseFee K used target denom fee unit (Some fl) = Inr y"
    using fee_sdk_laws.Calc_total [OF assms(1-7)] by blast
  have e: "y = eip1559 (uint used) (uint target) (uint denom) fee unit fl"
    by (rule fee_sdk_laws.Calc_sound [OF assms(1-4) y])
  note bounds = eip1559_bounds [OF assms(4) t uint_nonnegative assms(8,6), of fl, folded e]
  have "0 \<le> (uint target - uint used) * fee div uint target div uint denom" if "uint used < uint target"
    using t assms(4) that by (simp add: pos_imp_zdiv_nonneg_iff)
  then have "target < used \<longrightarrow> fee + unit \<le> y" "used < target \<longrightarrow> y \<le> max fee fl"
    unfolding e by (auto simp: eip1559_def word_less_def)
  with bounds eip1559_floor [OF assms(4,6), of fl "uint used" "uint target" "uint denom", folded e] y e show ?thesis
    by (auto simp: word_less_def)
qed

theorem CalcGasBaseFee_eip1559_witness:
  "\<exists>y. CalcGasBaseFee ref_fee 30000000 20000000 8 (10 ^ 15) (10 ^ 6) (Some (10 ^ 15)) = Inr y \<and>
     10 ^ 15 + 10 ^ 6 \<le> y \<and> y \<le> 10 ^ 15 + max ((2 - 1) * 10 ^ 15 div 8) (10 ^ 6)"
proof -
  have w: "uint (30000000 :: u64) \<le> 2 * uint (20000000 :: u64)" "(20000000 :: u64) \<noteq> 0" "(8 :: u64) \<noteq> 0"
    "(20000000 :: u64) < 30000000" by simp_all
  from CalcGasBaseFee_eip1559 [OF reffee.fee_sdk_laws_axioms w(2,3) _ _ _ _ w(1), of "10 ^ 15" "10 ^ 6" "10 ^ 15"] w(4)
  show ?thesis by (auto simp: uint_numeral)
qed

text \<open>A block gas limit below the elasticity multiplier gives a gas target of zero, and then a block after one
  that used gas gets the base fee zero whatever the minimum gas price is. The clamp by the minimum gas
  price does not apply on this path.\<close>

theorem zero_target_drops_base_fee:
  assumes "fee_sdk_laws K" and "fm_ok K (GetParams K s)" and "IsBaseFeeEnabled (GetParams K s) (BlockHeight c)"
    and "EnableHeight (GetParams K s) < BlockHeight c" and "MaxGas c = Some g" and "0 \<le> g"
    and "g < uint (ElasticityMultiplier (GetParams K s))" and "GetBlockGasWanted s \<noteq> 0"
    and "ConversionFactor (eciDecimals evmCoin) = Some f"
  shows "\<exists>s'. BeginBlock K evmCoin c s = Inr s' \<and> BaseFee (GetParams K s') = Some 0"
proof -
  obtain b where b: "BaseFee (GetParams K s) = Some b" using assms(2) by (auto simp: fm_ok_def)
  have t: "parentGasTarget (GetParams K s) c = Inr 0"
    using assms(2,5,6,7) by (simp add: fm_ok_def parentGasTarget_eq gas_target_def)
  have "quoInt K dec_one f = Inr (min_unit evmCoin)"
    using factor_div [OF assms(9)] fee_sdk_laws.quoInt_pos [OF assms(1)] by (simp add: min_unit_def)
  then have "CalculateBaseFee K evmCoin c s = Inr (Some 0)"
    using assms(3,4,8,9) b t by (simp add: CalculateBaseFee_def Let_def MaxUint64_def fee_sdk_laws.Calc_zero_target [OF assms(1)])
  then show ?thesis by (simp add: BeginBlock_def SetBaseFee_def GetParams_SetFeeParams)
qed

theorem zero_target_drops_base_fee_witness:
  "MinGasPrice (GetParams ref_fee fm_start) = Some (10 ^ 15) \<and>
   (\<exists>s'. BeginBlock ref_fee stoc_coin (fm_block\<lparr>MaxGas := Some 1\<rparr>) fm_start = Inr s' \<and> BaseFee (GetParams ref_fee s') = Some 0)"
proof
  show "MinGasPrice (GetParams ref_fee fm_start) = Some (10 ^ 15)" by (simp add: fm_start_params)
  have ok: "fm_ok ref_fee (GetParams ref_fee fm_start)" using v5_valid by (simp add: FeeParams_Validate_iff)
  have h: "IsBaseFeeEnabled (GetParams ref_fee fm_start) (BlockHeight (fm_block\<lparr>MaxGas := Some 1\<rparr>))"
    "EnableHeight (GetParams ref_fee fm_start) < BlockHeight (fm_block\<lparr>MaxGas := Some 1\<rparr>)"
    "1 < uint (ElasticityMultiplier (GetParams ref_fee fm_start))" "GetBlockGasWanted fm_start \<noteq> 0"
    by (simp_all add: fm_start_params fm_block_def IsBaseFeeEnabled_def) (simp add: fm_start_def GetBlockGasWanted_def)
  show "\<exists>s'. BeginBlock ref_fee stoc_coin (fm_block\<lparr>MaxGas := Some 1\<rparr>) fm_start = Inr s' \<and> BaseFee (GetParams ref_fee s') = Some 0"
    by (rule zero_target_drops_base_fee [OF reffee.fee_sdk_laws_axioms ok h(1,2) _ _ h(3,4) stoc_factor]) simp_all
qed

end
