(* ===== verification/Cosmos_Fees.thy ===== *)
theory Cosmos_Fees
  imports Fee_Market Ante_Msgs
begin

text \<open>
  The fee rules for Cosmos transactions: the decorator that compares the fee with the minimum gas price
  (\<^verbatim>\<open>app/ante/cosmos_min_gas_price.go\<close>), the dynamic fee checker that the fee deduction uses
  (\<^verbatim>\<open>forks/cosmos-evm-v0.6.0/ante/evm/fee_checker.go\<close>) and the check of the gas limit against the
  block (\<^verbatim>\<open>ante/evm/10_gas_wanted.go\<close>, \<^verbatim>\<open>ante/types/block.go\<close>).

  The theorems connect them with the fee market: a transaction the checker accepts is charged at least the
  base fee, so at least the minimum gas price, for all its gas, and never more than it offered.
\<close>

section \<open>Gas wanted\<close>

definition BlockGasLimit :: "block_ctx \<Rightarrow> u64" where
  "BlockGasLimit c =
     (case BlockGasMeter c of
        Some meter \<Rightarrow> if Limit meter \<noteq> 0 then Limit meter else
          (case MaxGas c of None \<Rightarrow> 0 | Some g \<Rightarrow> if g = - 1 then - 1 else if 0 < g then word_of_int g else 0)
      | None \<Rightarrow> (case MaxGas c of None \<Rightarrow> 0 | Some g \<Rightarrow> if g = - 1 then - 1 else if 0 < g then word_of_int g else 0))"

text \<open>\<open>addGas\<close> is \<open>AddTransientGasWanted\<close> of the fee market keeper the check is given.\<close>

definition CheckGasWanted :: "(u64 \<Rightarrow> 'c \<Rightarrow> (u64 \<times> 'c) res) \<Rightarrow> block_ctx \<Rightarrow> 'a tx \<Rightarrow> bool \<Rightarrow> fm_params \<Rightarrow> 'c \<Rightarrow> 'c res" where
  "CheckGasWanted addGas c tx isLondon feemarketParams s =
     (if \<not> isLondon then Inr s
      else if \<not> IsFeeTx tx then Inr s
      else let gasWanted = GetGas tx; blockGasLimit = BlockGasLimit c in
      if blockGasLimit < gasWanted then Inl (SdkErr ''out of gas: tx gas exceeds block gas limit'')
      else if \<not> IsBaseFeeEnabled feemarketParams (BlockHeight c) then Inr s
      else tryE (addGas gasWanted s) (\<lambda>(_, s'). Inr s'))"

section \<open>The dynamic fee checker\<close>

text \<open>What the checker reads from the context besides the block: the mode and the node's own minimum prices.\<close>

record check_ctx = block_ctx +
  IsCheckTx :: bool
  IsReCheckTx :: bool
  MinGasPrices :: "(denom \<times> dec) list"

text \<open>Division of integers, truncated, for a divisor of either sign.\<close>

definition QuoRaw :: "int \<Rightarrow> int \<Rightarrow> int res" where
  "QuoRaw x y = (if y = 0 then Inl (GoPanic ''division by zero'') else if y < 0 then Inr (IntQuo (- x) (- y)) else Inr (IntQuo x y))"

definition clampInt64 :: "int \<Rightarrow> int" where
  "clampInt64 a = (if - MaxInt64 - 1 \<le> a \<and> a \<le> MaxInt64 then a else MaxInt64)"

definition getTxPriority :: "'x fee_sdk_scheme \<Rightarrow> coins \<Rightarrow> int \<Rightarrow> int res" where
  "getTxPriority K fees gas = forE (\<lambda>fee priority.
     tryE (QuoRaw (Amount fee) gas) (\<lambda>gasPrice.
     tryE (QuoRaw gasPrice (DefaultPowerReduction K)) (\<lambda>amt.
     let p = clampInt64 amt in Inr (if priority = 0 \<or> p < priority then p else priority)))) fees 0"

definition requiredFees :: "'x sdk_scheme \<Rightarrow> (denom \<times> dec) list \<Rightarrow> dec \<Rightarrow> coins res" where
  "requiredFees K minGasPrices glDec = forE (\<lambda>(d, price) acc.
     tryE (NewCoin K d (Dec_RoundInt K (Dec_Ceil K (Dec_Mul K price glDec)))) (\<lambda>coin. Inr (acc @ [coin]))) minGasPrices []"

definition feeCoins :: "'a tx \<Rightarrow> coins" where
  "feeCoins tx = (case GetFee tx of None \<Rightarrow> [] | Some cs \<Rightarrow> cs)"

definition checkTxFeeWithValidatorMinGasPrices :: "'x fee_sdk_scheme \<Rightarrow> check_ctx \<Rightarrow> 'a tx \<Rightarrow> (coins \<times> int) res" where
  "checkTxFeeWithValidatorMinGasPrices K c tx =
     (let minGasPrices = MinGasPrices c; gas = sint (GetGas tx) in
      tryE (if IsCheckTx c \<and> \<not> list_all (\<lambda>(_, p). p = 0) minGasPrices
            then tryE (requiredFees K minGasPrices (Dec_FromInt K gas)) (\<lambda>required.
                 failIf (\<not> IsAnyGTE K (feeCoins tx) required) (SdkErr ''insufficient fee''))
            else Inr ()) (\<lambda>_.
      tryE (getTxPriority K (feeCoins tx) gas) (\<lambda>priority. Inr (feeCoins tx, priority))))"

definition effectiveGasPriceLegacyDec :: "'x fee_sdk_scheme \<Rightarrow> dec \<Rightarrow> dec \<Rightarrow> dec \<Rightarrow> dec res" where
  "effectiveGasPriceLegacyDec K baseFee feeCap tipCap = tryE (chkDec K (tipCap + baseFee)) (\<lambda>t. Inr (min t feeCap))"

text \<open>The tip cap: that of the first dynamic fee option, where nil counts as zero; the largest 64-bit number
  when there is none.\<close>

definition maxPriorityPrice :: "'x sdk_scheme \<Rightarrow> 'a tx \<Rightarrow> dec" where
  "maxPriorityPrice K tx =
     (let opts = (case GetExtensionOptions tx of None \<Rightarrow> [] | Some os \<Rightarrow> os) in
      case find (\<lambda>opt. dynamicFee opt \<noteq> None) opts of
        None \<Rightarrow> Dec_FromInt K MaxInt64
      | Some opt \<Rightarrow> (case dynamicFee opt of Some (Some p) \<Rightarrow> p | _ \<Rightarrow> 0))"

definition FeeChecker :: "'x fee_sdk_scheme \<Rightarrow> (int \<Rightarrow> bool) \<Rightarrow> check_ctx \<Rightarrow> fm_params \<Rightarrow> denom \<Rightarrow> 'a tx \<Rightarrow> (coins \<times> int) res" where
  "FeeChecker K isLondon c feemarketParams denom tx =
     (if \<not> isLondon (BlockHeight c) then checkTxFeeWithValidatorMinGasPrices K c tx
      else let baseFee = (case BaseFee feemarketParams of None \<Rightarrow> 0 | Some b \<Rightarrow> b);
               tip = maxPriorityPrice K tx; gas = uint (GetGas tx) in
      if tip < 0 then Inl (SdkErr ''insufficient fee: max priority price cannot be negative'')
      else if gas = 0 then Inl (SdkErr ''invalid request: gas cannot be zero'')
      else tryE (quoInt K (Dec_FromInt K (AmountOfNoDenomValidation K (feeCoins tx) denom)) gas) (\<lambda>feeCap.
      if feeCap < baseFee then Inl (SdkErr ''insufficient fee: gas prices too low'')
      else tryE (effectiveGasPriceLegacyDec K baseFee feeCap tip) (\<lambda>effectivePrice.
      tryE (chkDec K (effectivePrice * gas)) (\<lambda>total.
      tryE (chkDec K (effectivePrice - baseFee)) (\<lambda>over.
      tryE (quoInt K over (DefaultPowerReduction K)) (\<lambda>scaled.
      Inr ([mk_coin denom (Dec_RoundInt K (Dec_Ceil K total))], clampInt64 (Dec_TruncateInt K scaled))))))))"

definition NewDynamicFeeChecker :: "'x fee_sdk_scheme \<Rightarrow> (int \<Rightarrow> bool) \<Rightarrow> EvmCoinInfo \<Rightarrow> fm_params \<Rightarrow> check_ctx \<Rightarrow> 'a tx \<Rightarrow>
    (coins \<times> int) res" where
  "NewDynamicFeeChecker K isLondon evmCoin feemarketParams c tx =
     (if \<not> IsFeeTx tx then Inl (SdkErr ''tx decode: Tx must be a FeeTx'')
      else if BlockHeight c = 0 then checkTxFeeWithValidatorMinGasPrices K c tx
      else FeeChecker K isLondon c feemarketParams (eciDenom evmCoin) tx)"

section \<open>The minimum gas price of Cosmos transactions\<close>

definition requiredFeeAmount :: "'x fee_sdk_scheme \<Rightarrow> EvmCoinInfo \<Rightarrow> dec \<Rightarrow> u64 \<Rightarrow> int res" where
  "requiredFeeAmount K evmCoin minGasPrice gas =
     tryE (deref (ConversionFactor (eciDecimals evmCoin))) (\<lambda>factor.
     tryE (chkDec K (Dec_Quo K minGasPrice (Dec_FromInt K factor))) (\<lambda>cosmosMinGasPrice.
     tryE (chkDec K (Dec_Mul K cosmosMinGasPrice (Dec_FromInt K (uint gas)))) (\<lambda>fee.
     Inr (Dec_RoundInt K (Dec_Ceil K fee)))))"

definition CosmosMinGasPriceDecorator :: "'x fee_sdk_scheme \<Rightarrow> EvmCoinInfo \<Rightarrow> fm_params \<Rightarrow>
    ('s, 'b, 'a) ante_handler \<Rightarrow> ('s, 'b, 'a) ante_handler" where
  "CosmosMinGasPriceDecorator K evmCoin feemarketParams nxt c tx simulate =
     (if \<not> IsFeeTx tx then Inl (SdkErr ''invalid type: expected sdk.FeeTx'')
      else tryE (deref (MinGasPrice feemarketParams)) (\<lambda>minGasPrice.
      if minGasPrice = 0 \<or> simulate then nxt c tx simulate
      else tryE (requiredFeeAmount K evmCoin minGasPrice (GetGas tx)) (\<lambda>required.
      if \<not> 0 < required then nxt c tx simulate
      else let evmDenom = eciDenom evmCoin in
      case GetFee tx of None \<Rightarrow> Inl (SdkErr ''insufficient fee: fee not provided'')
      | Some cs \<Rightarrow>
          if 1 < length cs then Inl (SdkErr ''invalid coins: expected only one fee coin'')
          else if length cs = 1 \<and> Denom (cs ! 0) \<noteq> evmDenom then Inl (SdkErr ''invalid coins: wrong fee denom'')
          else if \<not> IsAnyGTE K cs [mk_coin evmDenom required] then Inl (SdkErr ''insufficient fee'')
          else nxt c tx simulate)))"

section \<open>What the checker charges\<close>

text \<open>Fees of a transaction as the SDK hands them over: sorted, one coin per denomination, none negative.\<close>

definition fees_ok :: "'a tx \<Rightarrow> bool" where
  "fees_ok tx \<longleftrightarrow> sorted (map Denom (feeCoins tx)) \<and> distinct (map Denom (feeCoins tx)) \<and> (\<forall>c \<in> set (feeCoins tx). 0 \<le> Amount c)"

lemma ceil_le: "x \<le> n * dec_one \<Longrightarrow> - ((- x) div dec_one) \<le> n" for x n :: int
proof -
  assume "x \<le> n * dec_one"
  then have "(- n) * dec_one div dec_one \<le> (- x) div dec_one" by (intro zdiv_mono1) simp_all
  then show ?thesis by simp
qed

lemma le_ceil: "x \<le> - ((- x) div dec_one) * dec_one" for x :: int
proof -
  have "(- x) div dec_one * dec_one \<le> - x" 
    using div_mult_mod_eq [of "- x" dec_one] pos_mod_sign [of dec_one "- x"] by linarith
  then show ?thesis by simp
qed

context fee_sdk_laws
begin

lemma FeeChecker_Inr:
  assumes "FeeChecker K isLondon c p denom tx = Inr (fee, priority)" and "isLondon (BlockHeight c)" and "fees_ok tx"
    and "BaseFee p = Some b" and "0 \<le> b"
  obtains e where "b \<le> e" and "e \<le> amount_of (feeCoins tx) denom * dec_one div uint (GetGas tx)" and "0 < uint (GetGas tx)"
    and "fee = [mk_coin denom (- ((- (e * uint (GetGas tx))) div dec_one))]" and "0 \<le> priority" and "priority \<le> MaxInt64"
proof -
  define gas where "gas = uint (GetGas tx)"
  define tip where "tip = maxPriorityPrice K tx"
  define amt where "amt = amount_of (feeCoins tx) denom"
  have a: "AmountOfNoDenomValidation K (feeCoins tx) denom = amt" "0 \<le> amt"
    using assms(3) by (simp_all add: fees_ok_def AmountOf_eq amt_def amount_of_nonneg)
  from assms(1,2,4) have g: "gas \<noteq> 0" "0 \<le> tip" by (auto simp: FeeChecker_def Let_def gas_def tip_def split: if_splits)
  then have gp: "0 < gas" using uint_nonnegative [of "GetGas tx"] unfolding gas_def by linarith
  define cap where "cap = amt * dec_one div gas"
  have cap: "quoInt K (Dec_FromInt K amt) gas = Inr cap"
    using a(2) gp by (simp add: quoInt_pos Dec_FromInt_eq cap_def)
  from assms(1,2,4) a cap g have bc: "b \<le> cap" by (auto simp: FeeChecker_def Let_def gas_def [symmetric] split: if_splits)
  define e where "e = min (tip + b) cap"
  have e: "b \<le> e" "e \<le> cap" using g bc by (auto simp: e_def)
  from assms(1,2,4) a cap g bc obtain q where
    "fee = [mk_coin denom (Dec_RoundInt K (Dec_Ceil K (e * gas)))]" "quoInt K (e - b) (DefaultPowerReduction K) = Inr q"
    "priority = clampInt64 (Dec_TruncateInt K q)"
    by (auto simp: FeeChecker_def Let_def effectiveGasPriceLegacyDec_def e_def gas_def [symmetric] tip_def [symmetric]
        dest!: chkDec_InrD split: if_splits)
  moreover have "0 \<le> (e - b) div DefaultPowerReduction K"
    using e PowerReduction_pos by (simp add: pos_imp_zdiv_nonneg_iff)
  moreover have "quoInt K (e - b) (DefaultPowerReduction K) = Inr ((e - b) div DefaultPowerReduction K)"
    using e PowerReduction_pos by (simp add: quoInt_pos)
  ultimately show thesis
    using that [of e] e gp by (simp add: Dec_RoundInt_Ceil Dec_TruncateInt_nonneg clampInt64_def cap_def amt_def gas_def MaxInt64_def
        pos_imp_zdiv_nonneg_iff split: if_splits)
qed

end

section \<open>Theorems\<close>

text \<open>What a Cosmos transaction pays, in any state of the chain with the base fee enabled: when the dynamic fee
  checker accepts it, it is charged one coin of the EVM denomination that covers the base fee, and with it
  the minimum gas price, for every unit of gas it asks for; the charge is at most the fee it offered, and
  its priority is a number from 0 to the largest 64-bit integer.\<close>

theorem fee_checker_charges_base_fee:
  assumes "fee_sdk_laws K" and "FeeParams_Validate K (GetParams K s0) = Inr ()" and "(fm_step K gov evmCoin)\<^sup>*\<^sup>* s0 s"
    and "\<not> NoBaseFee (GetParams K s)"
    and "NewDynamicFeeChecker K isLondon evmCoin (GetParams K s) c tx = Inr (fee, priority)"
    and "BlockHeight c \<noteq> 0" and "isLondon (BlockHeight c)" and "fees_ok tx"
  shows "\<exists>a b g. fee = [mk_coin (eciDenom evmCoin) a] \<and> BaseFee (GetParams K s) = Some b \<and> MinGasPrice (GetParams K s) = Some g \<and>
    b * uint (GetGas tx) \<le> a * dec_one \<and> g * uint (GetGas tx) \<le> a * dec_one \<and>
    a \<le> amount_of (feeCoins tx) (eciDenom evmCoin) \<and> 0 \<le> priority \<and> priority \<le> MaxInt64"
proof -
  have ok: "fm_ok K (GetParams K s)" by (rule fee_sdk_laws.fm_reach_ok [OF assms(1,3,2)])
  then obtain b g where p: "BaseFee (GetParams K s) = Some b" "MinGasPrice (GetParams K s) = Some g" "0 \<le> b" "g \<le> b"
    using assms(4) by (auto simp: fm_ok_def)
  have run: "FeeChecker K isLondon c (GetParams K s) (eciDenom evmCoin) tx = Inr (fee, priority)"
    using assms(5,6) by (simp add: NewDynamicFeeChecker_def split: if_splits)
  define gas where "gas = uint (GetGas tx)"
  define amt where "amt = amount_of (feeCoins tx) (eciDenom evmCoin)"
  obtain e where e: "b \<le> e" "e \<le> amt * dec_one div gas" "0 < gas"
    "fee = [mk_coin (eciDenom evmCoin) (- ((- (e * gas)) div dec_one))]" "0 \<le> priority" "priority \<le> MaxInt64"
    using fee_sdk_laws.FeeChecker_Inr [OF assms(1) run assms(7,8) p(1,3)] unfolding gas_def amt_def by metis
  have "e * gas \<le> amt * dec_one div gas * gas" using e by (intro mult_right_mono) simp_all
  also have "\<dots> \<le> amt * dec_one" using div_mult_mod_eq [of "amt * dec_one" gas] pos_mod_sign [OF e(3), of "amt * dec_one"] by linarith
  finally have "- ((- (e * gas)) div dec_one) \<le> amt" by (rule ceil_le)
  moreover have "b * gas \<le> e * gas" "g * gas \<le> e * gas" using e p by (intro mult_right_mono; simp)+
  moreover have "e * gas \<le> - ((- (e * gas)) div dec_one) * dec_one" by (rule le_ceil)
  ultimately show ?thesis using e(4-6) p(1,2) unfolding gas_def [symmetric] amt_def [symmetric]
    by (intro exI [of _ "- ((- (e * gas)) div dec_one)"] exI [of _ b] exI [of _ g]) linarith
qed

definition plain_ctx :: check_ctx where
  "plain_ctx = \<lparr>BlockHeight = 100, MaxGas = Some 40000000, BlockGasMeter = None, IsCheckTx = True, IsReCheckTx = False, MinGasPrices = []\<rparr>"

lemma ref_fee_more [simp]:
  "Dec_QuoInt ref_fee = IntQuo" "Dec_InRange ref_fee = (\<lambda>x. \<bar>x\<bar> < 2 ^ 315)" "DefaultPowerReduction ref_fee = 1000000"
  "AmountOfNoDenomValidation ref_fee = amount_of" "Dec_Ceil ref_fee = (\<lambda>x. - ((- x) div dec_one) * dec_one)"
  "Dec_TruncateInt ref_fee = (\<lambda>x. x div dec_one)"
  by (simp_all add: ref_fee_def ref_sdk_def sdk.defs fee_sdk.defs IntQuo_def fun_eq_iff)

lemma sample_charge:
  "NewDynamicFeeChecker ref_fee (\<lambda>_. True) stoc_coin (GetParams ref_fee fm_start) plain_ctx (ref_tx []) = Inr ([mk_coin ''ustoc'' 1000], 0)"
  using reffee.Dec_RoundInt_exact [of 1000]
  by (simp add: NewDynamicFeeChecker_def FeeChecker_def fm_start_params stoc_coin_def plain_ctx_def ref_tx_def feeCoins_def
      maxPriorityPrice_def effectiveGasPriceLegacyDec_def quoInt_def chkDec_def IntQuo_def MaxInt64_def clampInt64_def Let_def)

theorem fee_checker_charges_base_fee_witness:
  "\<exists>a g. NewDynamicFeeChecker ref_fee (\<lambda>_. True) stoc_coin (GetParams ref_fee fm_start) plain_ctx (ref_tx []) = Inr ([mk_coin ''ustoc'' a], 0) \<and>
     MinGasPrice (GetParams ref_fee fm_start) = Some g \<and> g * 200000 \<le> a * dec_one"
proof -
  have "\<not> NoBaseFee (GetParams ref_fee fm_start)" "BlockHeight plain_ctx \<noteq> 0" "fees_ok (ref_tx [])"
    by (simp_all add: fm_start_params plain_ctx_def fees_ok_def ref_tx_def feeCoins_def)
  from fee_checker_charges_base_fee [OF reffee.fee_sdk_laws_axioms v5_valid rtranclp.rtrancl_refl this(1) sample_charge this(2) TrueI this(3)]
  show ?thesis using sample_charge by (auto simp: ref_tx_def mk_coin_def)
qed

section \<open>The decorator of the minimum gas price\<close>

context fee_sdk_laws
begin

lemma IsAnyGTE_required:
  assumes "0 < r" and "length cs \<le> 1"
  shows "IsAnyGTE K cs [mk_coin d r] \<longleftrightarrow> (\<exists>a. cs = [mk_coin d a] \<and> r \<le> a)"
proof (cases cs)
  case Nil then show ?thesis by (simp add: IsAnyGTE_none)
next
  case (Cons x xs)
  with assms(2) have cs: "cs = [x]" by simp
  have x: "x = mk_coin d a \<longleftrightarrow> Denom x = d \<and> Amount x = a" for a by (cases x) (auto simp: mk_coin_def)
  show ?thesis unfolding cs using IsAnyGTE_single [of "mk_coin d r" x] assms(1) by (simp add: x)
qed

lemma requiredFeeAmount_eq:
  assumes "ConversionFactor (eciDecimals evmCoin) = Some f" and "f dvd m" and "0 \<le> m" and "m < 2 ^ 250"
  shows "requiredFeeAmount K evmCoin m gas = Inr (- ((- (m div f * uint gas)) div dec_one))"
proof -
  have f: "0 < f" using factor_div [OF assms(1)] by simp
  obtain q where q: "m = f * q" using assms(2) by (elim dvdE)
  have "Dec_Quo K m (Dec_FromInt K f) = m div f"
    using Dec_Quo_exact [of "f * dec_one" m] f by (simp add: Dec_FromInt_eq q)
  moreover have r: "0 \<le> m div f" "m div f \<le> m" using f assms(3) zdiv_mono2 [of m 1 f] by (simp_all add: pos_imp_zdiv_nonneg_iff)
  moreover have "m div f * uint gas \<le> 2 ^ 250 * 2 ^ 64"
    using r assms(4) uint_bounded [of gas] mult_mono [of "m div f" "2 ^ 250" "uint gas" "2 ^ 64"] by simp
  ultimately show ?thesis using assms(1,4) chkDec_small [of "m div f"] chkDec_small [of "m div f * uint gas"]
    by (simp add: requiredFeeAmount_def Dec_Mul_FromInt_right Dec_RoundInt_Ceil)
qed

end

text \<open>The decorator of the minimum gas price lets a transaction through exactly when its only fee coin is of the
  EVM denomination and covers the minimum gas price, converted from the 18-decimal scale, for all its gas,
  rounded up; or when that amount is zero. So with the price 0.001 that the v5.0.0 upgrade sets in the
  Cosmos scale, one \<open>ustoc\<close> is enough for any transaction of up to \<open>10 ^ 15\<close> gas.\<close>

theorem CosmosMinGasPrice_exact:
  assumes "fee_sdk_laws K" and "ConversionFactor (eciDecimals evmCoin) = Some f" and "MinGasPrice p = Some m" and "f dvd m"
    and "0 < m" and "m < 2 ^ 250" and "IsFeeTx tx"
  shows "CosmosMinGasPriceDecorator K evmCoin p nxt c tx False = Inr c' \<longleftrightarrow>
    (let r = - ((- (m div f * uint (GetGas tx))) div dec_one)
     in r \<le> 0 \<or> (\<exists>a. GetFee tx = Some [mk_coin (eciDenom evmCoin) a] \<and> r \<le> a)) \<and> nxt c tx False = Inr c'"
proof -
  define r where "r = - ((- (m div f * uint (GetGas tx))) div dec_one)"
  have r: "requiredFeeAmount K evmCoin m (GetGas tx) = Inr r"
    using fee_sdk_laws.requiredFeeAmount_eq [OF assms(1,2,4) _ assms(6)] assms(5) by (simp add: r_def)
  note one = fee_sdk_laws.IsAnyGTE_required [OF assms(1)]
  have D: "CosmosMinGasPriceDecorator K evmCoin p nxt c tx False =
    (if \<not> 0 < r then nxt c tx False
     else case GetFee tx of None \<Rightarrow> Inl (SdkErr ''insufficient fee: fee not provided'')
      | Some cs \<Rightarrow>
          if 1 < length cs then Inl (SdkErr ''invalid coins: expected only one fee coin'')
          else if length cs = 1 \<and> Denom (cs ! 0) \<noteq> eciDenom evmCoin then Inl (SdkErr ''invalid coins: wrong fee denom'')
          else if \<not> IsAnyGTE K cs [mk_coin (eciDenom evmCoin) r] then Inl (SdkErr ''insufficient fee'')
          else nxt c tx False)"
    using assms(3,5,7) r by (simp add: CosmosMinGasPriceDecorator_def Let_def)
  show ?thesis unfolding r_def [symmetric] Let_def D
    using one [of r "the (GetFee tx)" "eciDenom evmCoin"]
    by (cases "GetFee tx"; cases "0 < r"; cases "1 < length (the (GetFee tx))") auto
qed

theorem CosmosMinGasPrice_witness:
  "CosmosMinGasPriceDecorator ref_fee stoc_coin v5_params (\<lambda>c tx sim. Inr c) (\<lparr>store = (), bank = (), events = []\<rparr>)
     (ref_tx []\<lparr>GetFee := Some [mk_coin ''ustoc'' 1]\<rparr>) False = Inr \<lparr>store = (), bank = (), events = []\<rparr>"
proof -
  have p: "MinGasPrice v5_params = Some (10 ^ 15)" by (simp add: v5_params_def)
  have "IsFeeTx (ref_tx []\<lparr>GetFee := Some [mk_coin ''ustoc'' 1]\<rparr>)" by (simp add: ref_tx_def)
  note X = CosmosMinGasPrice_exact [OF reffee.fee_sdk_laws_axioms stoc_factor p _ _ _ this]
  show ?thesis by (subst X) (simp_all add: ref_tx_def stoc_coin_def Let_def mk_coin_def)
qed

end
