(* ===== verification/App_Ante.thy ===== *)
theory App_Ante
  imports Authz_Screen Ante_Restrictions Cosmos_Fees
begin

text \<open>
  The ante handler of the application (\<^verbatim>\<open>app/ante\<close>): the router that sends a transaction to the EVM or
  the Cosmos chain by its extension option, the order of the Cosmos decorators, and the decorators the
  application adds.

  Decorators of the SDK and of IBC are parameters (\<open>sdk_decorators\<close>). What is assumed of them is that they
  pass the same transaction on and leave the store of x/stoc alone, which is the contract of an
  \<open>AnteDecorator\<close>; the same holds for the fee market keeper's gas counter. The EVM decorator of the fork is
  an argument here, with nothing assumed of it.
\<close>

section \<open>Options\<close>

type_synonym ('s, 'b, 'a) ante_decorator = "('s, 'b, 'a) ante_handler \<Rightarrow> ('s, 'b, 'a) ante_handler"

type_synonym 'a fee_checker = "check_ctx \<Rightarrow> 'a tx \<Rightarrow> (coins \<times> int) res"

record ('s, 'b, 'a) sdk_decorators =
  SetUpContextDecorator :: "('s, 'b, 'a) ante_decorator"
  ExtensionOptionsDecorator :: "('s, 'b, 'a) ante_decorator"
  ValidateBasicDecorator :: "('s, 'b, 'a) ante_decorator"
  TxTimeoutHeightDecorator :: "('s, 'b, 'a) ante_decorator"
  ValidateMemoDecorator :: "('s, 'b, 'a) ante_decorator"
  ConsumeGasForTxSizeDecorator :: "('s, 'b, 'a) ante_decorator"
  DeductFeeDecorator :: "'a fee_checker option \<Rightarrow> ('s, 'b, 'a) ante_decorator"
  SetPubKeyDecorator :: "('s, 'b, 'a) ante_decorator"
  ValidateSigCountDecorator :: "('s, 'b, 'a) ante_decorator"
  SigGasConsumeDecorator :: "('s, 'b, 'a) ante_decorator"
  SigVerificationDecorator :: "('s, 'b, 'a) ante_decorator"
  IncrementSequenceDecorator :: "('s, 'b, 'a) ante_decorator"
  RedundantRelayDecorator :: "('s, 'b, 'a) ante_decorator"
  ChainAnteDecorators :: "('s, 'b, 'a) ante_decorator list \<Rightarrow> ('s, 'b, 'a) ante_handler"

text \<open>An Ethereum message: the bytes of its \<open>From\<close> field, signature recovery with the signer of a block,
  the conversion of bytes to an address.\<close>

record 'a eth_api =
  msgFrom :: "'a \<Rightarrow> string"
  recoverSender :: "check_ctx \<Rightarrow> 'a \<Rightarrow> string res"
  BytesToAddress :: "string \<Rightarrow> addr"

text \<open>The mempool getter, which may be nil, as may be what it returns and the pool inside that; a pool gives
  the pending and the queued transactions of a sender.\<close>

type_synonym 'a mempool_getter = "(addr \<Rightarrow> 'a list \<times> 'a list) option option option"

record ('s, 'b, 'a) StocAnteOptions =
  StocKeeper :: "('s, 'b) Keeper"
  msgApi :: "'a msg_api"
  ethApi :: "'a eth_api"
  feeSdk :: fee_sdk
  evmCoinInfo :: EvmCoinInfo
  ethIsLondon :: "int \<Rightarrow> bool"
  fmGetParams :: "('s, 'b) ctx \<Rightarrow> fm_params"
  fmAddTransientGasWanted :: "u64 \<Rightarrow> ('s, 'b) ctx \<Rightarrow> (u64 \<times> ('s, 'b) ctx) res"
  DynamicFeeChecker :: bool
  sdkDecorators :: "('s, 'b, 'a) sdk_decorators"
  EVMMonoDecorator :: "('s, 'b) ctx \<Rightarrow> ('s, 'b, 'a) ante_decorator"
  PendingTxListener :: "('a \<Rightarrow> ('s, 'b) ctx \<Rightarrow> ('s, 'b) ctx) option"
  GetEVMMempool :: "'a mempool_getter"
  MaxPendingTxPerWallet :: int

section \<open>Decorators of the application and of the fork\<close>

definition RejectMessagesDecorator :: "('s, 'b, 'a) ante_decorator" where
  "RejectMessagesDecorator nxt c tx simulate =
     tryE (forE (\<lambda>msg _. case msg of MsgEthereumTx _ \<Rightarrow> Inl (SdkErr ''invalid type: MsgEthereumTx'') | _ \<Rightarrow> Inr ())
             (GetMsgs tx) ()) (\<lambda>_. nxt c tx simulate)"

definition GasWantedDecorator :: "('s, 'b, 'a) StocAnteOptions \<Rightarrow> check_ctx \<Rightarrow> fm_params \<Rightarrow> ('s, 'b, 'a) ante_decorator" where
  "GasWantedDecorator opt info feemarketParams nxt c tx simulate =
     tryE (CheckGasWanted (fmAddTransientGasWanted opt) (block_ctx.truncate info) tx (ethIsLondon opt (BlockHeight info)) feemarketParams c)
       (\<lambda>c1. nxt c1 tx simulate)"

definition VerifySender :: "'a eth_api \<Rightarrow> check_ctx \<Rightarrow> 'a \<Rightarrow> unit res" where
  "VerifySender E info ethMsg =
     tryE (recoverSender E info ethMsg) (\<lambda>from.
     if msgFrom E ethMsg \<noteq> from then Inl (Errorf ''sender verification failed'') else Inr ())"

definition GetSender :: "'a eth_api \<Rightarrow> 'a \<Rightarrow> addr" where
  "GetSender E ethMsg = BytesToAddress E (msgFrom E ethMsg)"

definition DefaultMaxPendingTxPerWallet :: int where "DefaultMaxPendingTxPerWallet = 50"

definition NewMaxPendingTxPerWalletDecorator :: "int \<Rightarrow> int" where
  "NewMaxPendingTxPerWalletDecorator m = (if m \<le> 0 then DefaultMaxPendingTxPerWallet else m)"

definition MaxPendingTxPerWalletDecorator :: "'a eth_api \<Rightarrow> 'a mempool_getter \<Rightarrow> int \<Rightarrow> check_ctx \<Rightarrow> ('s, 'b, 'a) ante_decorator" where
  "MaxPendingTxPerWalletDecorator E getMempool mx info nxt c tx simulate =
     (if simulate \<or> \<not> (IsCheckTx info \<or> IsReCheckTx info) then nxt c tx simulate
      else if length (GetMsgs tx) \<noteq> 1 then nxt c tx simulate
      else case GetMsgs tx ! 0 of
        MsgEthereumTx ethMsg \<Rightarrow>
          tryE (asErr (SdkErr ''invalid signer'') (VerifySender E info ethMsg)) (\<lambda>_.
          case getMempool of Some (Some (Some contentFrom)) \<Rightarrow>
            (let (pending, queued) = contentFrom (GetSender E ethMsg);
                 count = int (length pending) + int (length queued) in
             if mx \<le> count then Inl (SdkErr ''mempool is full'') else nxt c tx simulate)
          | _ \<Rightarrow> nxt c tx simulate)
      | _ \<Rightarrow> nxt c tx simulate)"

text \<open>The listener is a callback of the RPC server; what it does with the message is an argument.\<close>

definition TxListenerDecorator :: "('a \<Rightarrow> ('s, 'b) ctx \<Rightarrow> ('s, 'b) ctx) option \<Rightarrow> check_ctx \<Rightarrow> ('s, 'b, 'a) ante_decorator" where
  "TxListenerDecorator pendingTxListener info nxt c tx simulate =
     (if IsReCheckTx info then nxt c tx simulate
      else case pendingTxListener of
        Some listener \<Rightarrow>
          if IsCheckTx info \<and> \<not> simulate
          then nxt (fold (\<lambda>msg c. case msg of MsgEthereumTx ethTx \<Rightarrow> listener ethTx c | _ \<Rightarrow> c) (GetMsgs tx) c) tx simulate
          else nxt c tx simulate
      | None \<Rightarrow> nxt c tx simulate)"

section \<open>The handlers\<close>

definition newCosmosAnteHandler :: "('s, 'b, 'a) StocAnteOptions \<Rightarrow> check_ctx \<Rightarrow> ('s, 'b) ctx \<Rightarrow> ('s, 'b, 'a) ante_handler" where
  "newCosmosAnteHandler opt info c =
     (let D = sdkDecorators opt; A = msgApi opt;
          feemarketParams = fmGetParams opt c;
          txFeeChecker = (if DynamicFeeChecker opt
            then Some (NewDynamicFeeChecker (feeSdk opt) (ethIsLondon opt) (evmCoinInfo opt) feemarketParams) else None);
          authzDisabledMsgTypes = AuthzDisabledMsgTypes A in
      ChainAnteDecorators D
        [RejectMessagesDecorator,
         SetUpContextDecorator D,
         ExtensionOptionsDecorator D,
         ValidateBasicDecorator D,
         TxTimeoutHeightDecorator D,
         ValidateMemoDecorator D,
         AuthzPreSigScreen A authzDisabledMsgTypes,
         CosmosMinGasPriceDecorator (feeSdk opt) (evmCoinInfo opt) feemarketParams,
         ConsumeGasForTxSizeDecorator D,
         DeductFeeDecorator D txFeeChecker,
         SetPubKeyDecorator D,
         ValidateSigCountDecorator D,
         SigGasConsumeDecorator D,
         SigVerificationDecorator D,
         IncrementSequenceDecorator D,
         AuthzLimiter A authzDisabledMsgTypes,
         IBCCustomTokenRestriction (StocKeeper opt) A,
         CustomTokenChainOpsRestriction (StocKeeper opt) A,
         RedundantRelayDecorator D,
         GasWantedDecorator opt info feemarketParams])"

definition newMonoEVMAnteHandler :: "('s, 'b, 'a) StocAnteOptions \<Rightarrow> check_ctx \<Rightarrow> ('s, 'b) ctx \<Rightarrow> ('s, 'b, 'a) ante_handler" where
  "newMonoEVMAnteHandler opt info c =
     ChainAnteDecorators (sdkDecorators opt)
       [MaxPendingTxPerWalletDecorator (ethApi opt) (GetEVMMempool opt)
          (NewMaxPendingTxPerWalletDecorator (MaxPendingTxPerWallet opt)) info,
        EVMMonoDecorator opt c,
        TxListenerDecorator (PendingTxListener opt) info]"

definition NewAnteHandler :: "('s, 'b, 'a) StocAnteOptions \<Rightarrow> check_ctx \<Rightarrow> ('s, 'b, 'a) ante_handler" where
  "NewAnteHandler opt info c tx sim =
     (case GetExtensionOptions tx of
        Some opts \<Rightarrow>
          if 1 < length opts then Inl (SdkErr ''unknown extension options: multiple'')
          else if 0 < length opts then
            (let typeURL = GetTypeUrl (opts ! 0) in
             if typeURL = ''/cosmos.evm.vm.v1.ExtensionOptionsEthereumTx'' then newMonoEVMAnteHandler opt info c c tx sim
             else if typeURL = ''/cosmos.evm.ante.v1.ExtensionOptionDynamicFeeTx'' then newCosmosAnteHandler opt info c c tx sim
             else Inl (SdkErr ''unknown extension options: unsupported''))
          else newCosmosAnteHandler opt info c c tx sim
      | None \<Rightarrow> newCosmosAnteHandler opt info c c tx sim)"

section \<open>Chains of decorators\<close>

text \<open>A decorator that, when it accepts, has passed the same transaction on with the same x/stoc store, and
  has made sure of \<open>Q\<close>, a condition on the store, the transaction and the simulation flag.\<close>

definition ensures :: "('s, 'b, 'a) ante_decorator \<Rightarrow> ('s \<Rightarrow> 'a tx \<Rightarrow> bool \<Rightarrow> bool) \<Rightarrow> bool" where
  "ensures D Q \<longleftrightarrow> (\<forall>nxt c tx sim c'. D nxt c tx sim = Inr c' \<longrightarrow>
     Q (store c) tx sim \<and> (\<exists>c1. nxt c1 tx sim = Inr c' \<and> store c1 = store c))"

abbreviation transparent :: "('s, 'b, 'a) ante_decorator \<Rightarrow> bool" where
  "transparent D \<equiv> ensures D (\<lambda>_ _ _. True)"

lemma ensuresI:
  "(\<And>nxt c tx sim c'. D nxt c tx sim = Inr c' \<Longrightarrow> Q (store c) tx sim \<and> (\<exists>c1. nxt c1 tx sim = Inr c' \<and> store c1 = store c)) \<Longrightarrow> ensures D Q"
  by (simp add: ensures_def)

lemma ensuresD:
  "ensures D Q \<Longrightarrow> D nxt c tx sim = Inr c' \<Longrightarrow> Q (store c) tx sim \<and> (\<exists>c1. nxt c1 tx sim = Inr c' \<and> store c1 = store c)"
  unfolding ensures_def by blast

lemma chain_ensures:
  "list_all2 ensures Ds Qs \<Longrightarrow> foldr (\<lambda>D. D) Ds nxt c tx sim = Inr c' \<Longrightarrow> list_all (\<lambda>Q. Q (store c) tx sim) Qs"
proof (induction Ds arbitrary: Qs c)
  case (Cons D Ds)
  then obtain Q Qs' where Qs: "Qs = Q # Qs'" "ensures D Q" "list_all2 ensures Ds Qs'" by (auto simp: list_all2_Cons1)
  from ensuresD [OF Qs(2), of "foldr (\<lambda>D. D) Ds nxt" c tx sim c'] Cons.prems(2)
  obtain c1 where c1: "Q (store c) tx sim" "foldr (\<lambda>D. D) Ds nxt c1 tx sim = Inr c'" "store c1 = store c" by auto
  from Cons.IH [OF Qs(3) c1(2)] c1(1,3) Qs(1) show ?case by simp
qed simp

locale ante_env = stoc_env "StocKeeper opt" wfb
  for opt :: "('s, 'b, 'a) StocAnteOptions" and wfb :: "'b \<Rightarrow> bool" +
  assumes chain: "ChainAnteDecorators (sdkDecorators opt) Ds = foldr (\<lambda>D. D) Ds (\<lambda>c tx sim. Inr c)"
    and sdk_transparent:
      "transparent (SetUpContextDecorator (sdkDecorators opt))" "transparent (ExtensionOptionsDecorator (sdkDecorators opt))"
      "transparent (ValidateBasicDecorator (sdkDecorators opt))" "transparent (TxTimeoutHeightDecorator (sdkDecorators opt))"
      "transparent (ValidateMemoDecorator (sdkDecorators opt))" "transparent (ConsumeGasForTxSizeDecorator (sdkDecorators opt))"
      "transparent (DeductFeeDecorator (sdkDecorators opt) checker)" "transparent (SetPubKeyDecorator (sdkDecorators opt))"
      "transparent (ValidateSigCountDecorator (sdkDecorators opt))" "transparent (SigGasConsumeDecorator (sdkDecorators opt))"
      "transparent (SigVerificationDecorator (sdkDecorators opt))" "transparent (IncrementSequenceDecorator (sdkDecorators opt))"
      "transparent (RedundantRelayDecorator (sdkDecorators opt))"
    and gas_counter: "fmAddTransientGasWanted opt g c = Inr (t, c1) \<Longrightarrow> store c1 = store c"
    and native_denom: "bond_ok (StocKeeper opt)"

text \<open>What the decorators of this repository ensure.\<close>

definition no_eth :: "'a tx \<Rightarrow> bool" where
  "no_eth tx \<longleftrightarrow> (\<forall>m \<in> set (GetMsgs tx). \<forall>e. m \<noteq> MsgEthereumTx e)"

lemma reject_ensures: "ensures RejectMessagesDecorator (\<lambda>_ tx _. no_eth tx)"
proof (rule ensuresI)
  fix nxt c tx sim c' assume run: "RejectMessagesDecorator nxt c tx sim = Inr c'"
  then have "\<forall>m \<in> set (GetMsgs tx). (case m of MsgEthereumTx _ \<Rightarrow> Inl (SdkErr ''invalid type: MsgEthereumTx'') | _ \<Rightarrow> Inr ()) = Inr ()"
    by (simp add: RejectMessagesDecorator_def forE_check)
  then have "no_eth tx" by (auto simp: no_eth_def)
  with run show "no_eth tx \<and> (\<exists>c1. nxt c1 tx sim = Inr c' \<and> store c1 = store c)" by (auto simp: RejectMessagesDecorator_def)
qed

lemma screen_ensures: "transparent (AuthzPreSigScreen A dis)"
  by (rule ensuresI) (auto simp: AuthzPreSigScreen_def split: if_splits)

lemma min_gas_ensures: "transparent (CosmosMinGasPriceDecorator K evmCoin p)"
  by (rule ensuresI) (auto simp: CosmosMinGasPriceDecorator_def Let_def split: if_splits option.splits)

lemma limiter_ensures: "ensures (AuthzLimiter A dis) (\<lambda>_ tx _. \<forall>n m. executed A (GetMsgs tx) n m \<longrightarrow> limited A dis (0 < n) m)"
proof (rule ensuresI)
  fix nxt c tx sim c' assume run: "AuthzLimiter A dis nxt c tx sim = Inr c'"
  show "(\<forall>n m. executed A (GetMsgs tx) n m \<longrightarrow> limited A dis (0 < n) m) \<and> (\<exists>c1. nxt c1 tx sim = Inr c' \<and> store c1 = store c)"
    using limiter_executed [OF run] run by (auto simp: limiter_Inr)
qed

lemma custom_store: "store c = store c1 \<Longrightarrow> custom k c = custom k c1"
  by (simp add: custom_def HasToken_def)

lemma ibc_ensures:
  "ensures (IBCCustomTokenRestriction k A) (\<lambda>s tx _. \<forall>c n q m. store c = s \<longrightarrow> carried A False (GetMsgs tx) n q m \<longrightarrow>
     ibc_denoms m \<inter> custom k c = {})"
proof (rule ensuresI)
  fix nxt c tx sim c' assume run: "IBCCustomTokenRestriction k A nxt c tx sim = Inr c'"
  then have chk: "ibc_checkMsgs k A c 0 (GetMsgs tx) = Inr ()" and n: "nxt c tx sim = Inr c'"
    by (simp_all add: IBCCustomTokenRestriction_def)
  have "ibc_denoms m \<inter> custom k c = {}" if "carried A False (GetMsgs tx) n q m" for n q m
    using ibc_walk.accepted_carried [OF that chk] by simp
  with custom_store [of _ c k] n
  show "(\<forall>c1 n q m. store c1 = store c \<longrightarrow> carried A False (GetMsgs tx) n q m \<longrightarrow> ibc_denoms m \<inter> custom k c1 = {}) \<and>
    (\<exists>c1. nxt c1 tx sim = Inr c' \<and> store c1 = store c)"
    by blast
qed

context stoc_env
begin

lemma ops_ensures:
  "ensures (CustomTokenChainOpsRestriction k A) (\<lambda>s tx _. \<forall>c n q m. store c = s \<longrightarrow> carried A False (GetMsgs tx) n q m \<longrightarrow>
     ops_denoms q m \<inter> custom k c = {})"
proof (rule ensuresI)
  fix nxt c tx sim c' assume "CustomTokenChainOpsRestriction k A nxt c tx sim = Inr c'"
  then have chk: "ops_checkMsgs k A c 0 False (GetMsgs tx) = Inr ()" and n: "nxt c tx sim = Inr c'"
    by (simp_all add: CustomTokenChainOpsRestriction_def)
  have "ops_denoms q m \<inter> custom k c = {}" if "carried A False (GetMsgs tx) n q m" for n q m
    using ops_walk.accepted_carried [OF that chk] by simp
  with custom_store [of _ c k] n
  show "(\<forall>c1 n q m. store c1 = store c \<longrightarrow> carried A False (GetMsgs tx) n q m \<longrightarrow> ops_denoms q m \<inter> custom k c1 = {}) \<and>
    (\<exists>c1. nxt c1 tx sim = Inr c' \<and> store c1 = store c)"
    by blast
qed

end

context ante_env
begin

lemma gas_wanted_ensures: "transparent (GasWantedDecorator opt info p)"
proof (rule ensuresI)
  fix nxt c tx sim c' assume "GasWantedDecorator opt info p nxt c tx sim = Inr c'"
  then obtain c1 where c1: "CheckGasWanted (fmAddTransientGasWanted opt) (block_ctx.truncate info) tx (ethIsLondon opt (BlockHeight info)) p c = Inr c1"
    "nxt c1 tx sim = Inr c'" by (auto simp: GasWantedDecorator_def)
  from c1(1) have "store c1 = store c" by (auto simp: CheckGasWanted_def Let_def dest: gas_counter split: if_splits)
  with c1(2) show "True \<and> (\<exists>c1. nxt c1 tx sim = Inr c' \<and> store c1 = store c)" by blast
qed

lemma cosmos_handler:
  assumes "newCosmosAnteHandler opt info c c tx sim = Inr c'"
  shows "no_eth tx \<and>
    (\<forall>n m. executed (msgApi opt) (GetMsgs tx) n m \<longrightarrow> limited (msgApi opt) (AuthzDisabledMsgTypes (msgApi opt)) (0 < n) m) \<and>
    (\<forall>n q m. carried (msgApi opt) False (GetMsgs tx) n q m \<longrightarrow>
       (ibc_denoms m \<union> ops_denoms q m) \<inter> custom (StocKeeper opt) c = {})"
proof -
  note run = assms [unfolded newCosmosAnteHandler_def Let_def chain]
  from chain_ensures [OF _ run, of
      "[\<lambda>_ tx _. no_eth tx, \<lambda>_ _ _. True, \<lambda>_ _ _. True, \<lambda>_ _ _. True, \<lambda>_ _ _. True, \<lambda>_ _ _. True, \<lambda>_ _ _. True, \<lambda>_ _ _. True,
        \<lambda>_ _ _. True, \<lambda>_ _ _. True, \<lambda>_ _ _. True, \<lambda>_ _ _. True, \<lambda>_ _ _. True, \<lambda>_ _ _. True, \<lambda>_ _ _. True,
        \<lambda>_ tx _. \<forall>n m. executed (msgApi opt) (GetMsgs tx) n m \<longrightarrow> limited (msgApi opt) (AuthzDisabledMsgTypes (msgApi opt)) (0 < n) m,
        \<lambda>s tx _. \<forall>c n q m. store c = s \<longrightarrow> carried (msgApi opt) False (GetMsgs tx) n q m \<longrightarrow> ibc_denoms m \<inter> custom (StocKeeper opt) c = {},
        \<lambda>s tx _. \<forall>c n q m. store c = s \<longrightarrow> carried (msgApi opt) False (GetMsgs tx) n q m \<longrightarrow> ops_denoms q m \<inter> custom (StocKeeper opt) c = {},
        \<lambda>_ _ _. True, \<lambda>_ _ _. True]"]
  show ?thesis
    unfolding list_all2_Cons list_all2_Nil list.pred_inject
    using sdk_transparent reject_ensures screen_ensures min_gas_ensures limiter_ensures ibc_ensures ops_ensures gas_wanted_ensures
    by blast
qed

end

section \<open>Theorems\<close>

text \<open>C4.
  The ante handler as a whole. A transaction that the router admits in a well-formed state either carries
  the Ethereum extension option and passed the EVM chain, or went through all of the Cosmos chain: then it
  has no Ethereum message at the top level; no message run through an authz wrapper is a token message, an
  Ethereum transaction or a vesting account creation; and no message it carries, at any nesting of authz
  wrappers and proposals, moves a custom token across IBC or into a chain operation.\<close>

theorem NewAnteHandler_guards:
  assumes "ante_env opt wfb" and "store_ok (StocKeeper opt) c" and "NewAnteHandler opt info c tx sim = Inr c'"
  shows "(\<exists>x. GetExtensionOptions tx = Some [x] \<and> GetTypeUrl x = ''/cosmos.evm.vm.v1.ExtensionOptionsEthereumTx'' \<and>
      newMonoEVMAnteHandler opt info c c tx sim = Inr c') \<or>
    (\<forall>m \<in> set (GetMsgs tx). kind_of m \<noteq> KEthereumTx) \<and>
    (\<forall>n m. executed (msgApi opt) (GetMsgs tx) n m \<longrightarrow> 0 < n \<longrightarrow> kind_of m \<notin> set disabled_kinds) \<and>
    (\<forall>n q m. carried (msgApi opt) False (GetMsgs tx) n q m \<longrightarrow>
       (\<forall>d \<in> ibc_denoms m \<union> ops_denoms q m. \<not> HasToken (StocKeeper opt) c d))"
proof -
  from assms(3) consider
      (evm) x where "GetExtensionOptions tx = Some [x]" "GetTypeUrl x = ''/cosmos.evm.vm.v1.ExtensionOptionsEthereumTx''"
        "newMonoEVMAnteHandler opt info c c tx sim = Inr c'"
    | (cosmos) "newCosmosAnteHandler opt info c c tx sim = Inr c'"
    by (auto simp: NewAnteHandler_def Let_def length_Suc_conv not_less le_Suc_eq split: option.splits if_splits)
  then show ?thesis
  proof cases
    case evm then show ?thesis by blast
  next
    case cosmos
    have "no_eth tx \<Longrightarrow> m \<in> set (GetMsgs tx) \<Longrightarrow> kind_of m \<noteq> KEthereumTx" for m by (cases m) (auto simp: no_eth_def)
    moreover have "custom (StocKeeper opt) c = {d. HasToken (StocKeeper opt) c d}"
      using custom_HasToken [OF assms(2)] assms(1) by (simp add: ante_env_def ante_env_axioms_def)
    ultimately show ?thesis using ante_env.cosmos_handler [OF assms(1) cosmos] limited_kind [of "msgApi opt"] by fastforce
  qed
qed

text \<open>The per-wallet cap counts the transaction under recheck itself. A signed Ethereum transaction that is
  admitted as the last one the cap allows is in the pool afterwards; when the node rechecks it there after
  a block, with nothing else changed, the decorator refuses it.\<close>

theorem MaxPending_recheck_refuses_admitted:
  assumes "GetMsgs tx = [MsgEthereumTx e]" and "recoverSender E info e = Inr (msgFrom E e)" and "recoverSender E info' e = Inr (msgFrom E e)"
    and "IsCheckTx info" and "IsReCheckTx info'" and "content (GetSender E e) = (pending, queued)"
    and "mx = int (length pending) + int (length queued) + 1"
  shows "MaxPendingTxPerWalletDecorator E (Some (Some (Some content))) mx info nxt c tx False = nxt c tx False \<and>
    MaxPendingTxPerWalletDecorator E (Some (Some (Some (content(GetSender E e := (pending @ [e], queued)))))) mx info' nxt c tx False =
      Inl (SdkErr ''mempool is full'')"
  using assms by (simp add: MaxPendingTxPerWalletDecorator_def VerifySender_def Let_def)

section \<open>A concrete application\<close>

definition ref_decorators :: "('s, 'b, 'a) sdk_decorators" where
  "ref_decorators = \<lparr>SetUpContextDecorator = (\<lambda>h. h), ExtensionOptionsDecorator = (\<lambda>h. h), ValidateBasicDecorator = (\<lambda>h. h),
     TxTimeoutHeightDecorator = (\<lambda>h. h), ValidateMemoDecorator = (\<lambda>h. h), ConsumeGasForTxSizeDecorator = (\<lambda>h. h),
     DeductFeeDecorator = (\<lambda>_ h. h), SetPubKeyDecorator = (\<lambda>h. h), ValidateSigCountDecorator = (\<lambda>h. h),
     SigGasConsumeDecorator = (\<lambda>h. h), SigVerificationDecorator = (\<lambda>h. h), IncrementSequenceDecorator = (\<lambda>h. h),
     RedundantRelayDecorator = (\<lambda>h. h), ChainAnteDecorators = (\<lambda>Ds. foldr (\<lambda>D. D) Ds (\<lambda>c tx sim. Inr c))\<rparr>"

definition ref_eth :: "ref_any eth_api" where
  "ref_eth = \<lparr>msgFrom = (\<lambda>_. ''alice''), recoverSender = (\<lambda>_ _. Inr ''alice''), BytesToAddress = (\<lambda>b. b)\<rparr>"

definition ref_opts :: "((string \<times> string) list, ledger, ref_any) StocAnteOptions" where
  "ref_opts = \<lparr>StocKeeper = ref_k, msgApi = ref_api, ethApi = ref_eth, feeSdk = ref_fee, evmCoinInfo = stoc_coin,
     ethIsLondon = (\<lambda>_. True), fmGetParams = (\<lambda>_. v5_params), fmAddTransientGasWanted = (\<lambda>g c. Inr (g, c)),
     DynamicFeeChecker = True, sdkDecorators = ref_decorators, EVMMonoDecorator = (\<lambda>_ h. h), PendingTxListener = None,
     GetEVMMempool = None, MaxPendingTxPerWallet = 0\<rparr>"

lemma transparent_id: "transparent (\<lambda>h. h)"
  unfolding ensures_def by blast

interpretation refante: ante_env ref_opts ledger_ok
proof (intro ante_env.intro ante_env_axioms.intro)
  show "stoc_env (StocKeeper ref_opts) ledger_ok" by (simp add: ref_opts_def refenv.stoc_env_axioms)
  show "bond_ok (StocKeeper ref_opts)" by (simp add: ref_opts_def ref_bond)
qed (simp_all add: ref_opts_def ref_decorators_def transparent_id)

theorem NewAnteHandler_guards_witness:
  "(\<exists>c'. NewAnteHandler ref_opts plain_ctx demo1 (ref_tx [demo_exec demo_send]) False = Inr c') \<and>
   \<not> (\<exists>n q m d. carried ref_api False [demo_exec demo_send] n q m \<and> d \<in> ibc_denoms m \<union> ops_denoms q m \<and> HasToken ref_k demo1 d)"
proof -
  have "\<not> isl (NewAnteHandler ref_opts plain_ctx demo1 (ref_tx [demo_exec demo_send]) False)" by code_simp
  then obtain c' where run: "NewAnteHandler ref_opts plain_ctx demo1 (ref_tx [demo_exec demo_send]) False = Inr c'"
    by (metis isl_def sum.exhaust)
  have "store_ok (StocKeeper ref_opts) demo1" by (simp add: ref_opts_def demo1_store)
  from NewAnteHandler_guards [OF refante.ante_env_axioms this run]
  have "\<forall>n q m. carried ref_api False [demo_exec demo_send] n q m \<longrightarrow> (\<forall>d \<in> ibc_denoms m \<union> ops_denoms q m. \<not> HasToken ref_k demo1 d)"
    by (simp add: ref_opts_def ref_tx_def)
  with run show ?thesis by blast
qed

theorem MaxPending_recheck_witness:
  "MaxPendingTxPerWalletDecorator ref_eth (Some (Some (Some (\<lambda>_. ([], []))))) 1 plain_ctx (\<lambda>c tx sim. Inr c) unit_ctx
     (ref_tx [MsgEthereumTx RNil]) False = Inr unit_ctx \<and>
   isl (MaxPendingTxPerWalletDecorator ref_eth (Some (Some (Some ((\<lambda>_. ([], []))(''alice'' := ([] @ [RNil], []))))))
     1 (plain_ctx\<lparr>IsReCheckTx := True\<rparr>) (\<lambda>c tx sim. Inr c) unit_ctx (ref_tx [MsgEthereumTx RNil]) False)"
  using MaxPending_recheck_refuses_admitted [of "ref_tx [MsgEthereumTx RNil]" RNil ref_eth plain_ctx "plain_ctx\<lparr>IsReCheckTx := True\<rparr>"
      "\<lambda>_. ([], [])" "[]" "[]" 1 "\<lambda>c tx sim. Inr c" unit_ctx]
  by (simp add: ref_tx_def ref_eth_def plain_ctx_def GetSender_def)

end
