(* ===== verification/Send_Restrictions.thy ===== *)
theory Send_Restrictions
  imports Ante_Restrictions
begin

text \<open>
  The two send restrictions the application adds to the bank (\<^verbatim>\<open>app/app.go\<close>), which every coin transfer
  passes whatever path it takes: no custom token to or from the escrow account of an IBC transfer channel,
  and none to or from an account that is not a wallet.

  The first keeps a cache of the escrow addresses, rebuilt at most once per block; what it knows are the
  channels of the first transfer of custom tokens in the newest block it has seen. The cache is shared by
  concurrent callers under a lock; a call is one atomic step here. Channels, the escrow address of a
  channel and the account store are parameters: they belong to ibc-go and the auth module. The restriction
  returns the receiver it was given or an error.
\<close>

section \<open>Definitions\<close>

record channel =
  PortId :: string
  ChannelId :: string

record ibc_api =
  transferPortID :: string
  GetEscrowAddress :: "string \<Rightarrow> string \<Rightarrow> addr"

record escrow_cache =
  escrowAddrs :: "(string \<rightharpoonup> string) option"
  cacheHeight :: int

text \<open>The first coin of a custom denomination; the empty string when there is none.\<close>

definition customDenom :: "('s, 'b, 'x) Keeper_scheme \<Rightarrow> ('s, 'b) ctx \<Rightarrow> coins \<Rightarrow> denom" where
  "customDenom k c amt =
     (case find (\<lambda>coin. \<not> IsNativeDenom k (Denom coin) \<and> HasToken k c (Denom coin)) amt of
        None \<Rightarrow> [] | Some coin \<Rightarrow> Denom coin)"

definition newCache :: "'x sdk_scheme \<Rightarrow> ibc_api \<Rightarrow> channel list \<Rightarrow> (string \<rightharpoonup> string)" where
  "newCache K I channels = fold (\<lambda>ch m.
     if PortId ch = transferPortID I
     then m(AccAddress_String K (GetEscrowAddress I (PortId ch) (ChannelId ch)) \<mapsto> ChannelId ch) else m) channels Map.empty"

definition rebuild :: "'x sdk_scheme \<Rightarrow> ibc_api \<Rightarrow> int \<Rightarrow> channel list \<Rightarrow> escrow_cache \<Rightarrow> escrow_cache" where
  "rebuild K I currentHeight channels cache =
     (if escrowAddrs cache = None \<or> 1 \<le> currentHeight - cacheHeight cache
      then \<lparr>escrowAddrs = Some (newCache K I channels), cacheHeight = currentHeight\<rparr> else cache)"

definition blockCustomTokenIBCTransfers :: "('s, 'b, 'x) Keeper_scheme \<Rightarrow> ibc_api \<Rightarrow> ('s, 'b) ctx \<Rightarrow> int \<Rightarrow> channel list \<Rightarrow>
    escrow_cache \<Rightarrow> addr \<Rightarrow> addr \<Rightarrow> coins \<Rightarrow> addr res \<times> escrow_cache" where
  "blockCustomTokenIBCTransfers k I c currentHeight channels cache fromAddr toAddr amt =
     (if customDenom k c amt = [] then (Inr toAddr, cache)
      else let cache' = rebuild k I currentHeight channels cache;
               lookup = (\<lambda>a. case escrowAddrs cache' of None \<Rightarrow> None | Some m \<Rightarrow> m (AccAddress_String k a)) in
      (if lookup toAddr \<noteq> None then Inl (Errorf ''IBC transfer of custom token is not allowed'')
       else if lookup fromAddr \<noteq> None then Inl (Errorf ''IBC inbound credit of custom-token denom rejected'')
       else Inr toAddr, cache'))"

text \<open>What the type assertions on an account find; an interchain, vesting or module account may be more
  than one of these at once.\<close>

record account =
  isICA :: bool
  isVesting :: bool
  isModule :: bool

definition rejectIfNonWallet :: "(addr \<Rightarrow> account option) \<Rightarrow> addr \<Rightarrow> unit res" where
  "rejectIfNonWallet getAccount a =
     (case getAccount a of None \<Rightarrow> Inr ()
      | Some acc \<Rightarrow>
          if isICA acc then Inl (Errorf ''custom token and interchain account'')
          else if isVesting acc then Inl (Errorf ''custom token and vesting account'')
          else if isModule acc then Inl (Errorf ''custom token and module account'')
          else Inr ())"

definition blockCustomTokenNonWalletAccounts :: "('s, 'b, 'x) Keeper_scheme \<Rightarrow> (addr \<Rightarrow> account option) \<Rightarrow> ('s, 'b) ctx \<Rightarrow>
    addr \<Rightarrow> addr \<Rightarrow> coins \<Rightarrow> addr res" where
  "blockCustomTokenNonWalletAccounts k getAccount c fromAddr toAddr amt =
     (if customDenom k c amt = [] then Inr toAddr
      else let stocModuleAddr = NewModuleAddress k stocModule in
      tryE (if fromAddr \<noteq> stocModuleAddr then rejectIfNonWallet getAccount fromAddr else Inr ()) (\<lambda>_.
      tryE (if toAddr \<noteq> stocModuleAddr then rejectIfNonWallet getAccount toAddr else Inr ()) (\<lambda>_.
      Inr toAddr)))"

section \<open>Lemmas\<close>

lemma customDenom_Nil:
  assumes "store_ok k c" and "bond_ok k"
  shows "customDenom k c amt = [] \<longleftrightarrow> (\<forall>coin \<in> set amt. \<not> HasToken k c (Denom coin))"
proof -
  have n: "HasToken k c d \<Longrightarrow> \<not> IsNativeDenom k d \<and> d \<noteq> []" for d
    using custom_not_native [OF assms, of d] assms(1) by (auto simp: store_ok_def stored_ok_def denom_of_def)
  then have P: "(\<lambda>coin. \<not> IsNativeDenom k (Denom coin) \<and> HasToken k c (Denom coin)) = (\<lambda>coin. HasToken k c (Denom coin))" by auto
  show ?thesis unfolding customDenom_def P
    using find_Some_iff [of "\<lambda>coin. HasToken k c (Denom coin)" amt] n
    by (auto simp: find_None_iff split: option.splits)
qed

text \<open>The escrow addresses of a list of channels, and what the cache built from it holds.\<close>

definition escrows :: "ibc_api \<Rightarrow> channel list \<Rightarrow> addr set" where
  "escrows I channels = (\<lambda>ch. GetEscrowAddress I (PortId ch) (ChannelId ch)) ` {ch \<in> set channels. PortId ch = transferPortID I}"

lemma newCache_dom: "dom (newCache K I channels) = AccAddress_String K ` escrows I channels"
proof -
  have "dom (fold (\<lambda>ch m. if PortId ch = transferPortID I
     then m(AccAddress_String K (GetEscrowAddress I (PortId ch) (ChannelId ch)) \<mapsto> ChannelId ch) else m) channels m) =
     dom m \<union> AccAddress_String K ` escrows I channels" for m
    by (induction channels arbitrary: m) (auto simp: escrows_def)
  from this [of Map.empty] show ?thesis unfolding newCache_def by simp
qed

text \<open>
  The caches a node goes through: none at the start, then calls at any heights and with any channels. The list
  records height and channels of the calls that carry a custom token; the others do not look at the cache.
\<close>

inductive cache_after :: "('s, 'b, 'x) Keeper_scheme \<Rightarrow> ibc_api \<Rightarrow> (int \<times> channel list) list \<Rightarrow> escrow_cache \<Rightarrow> bool"
  for k :: "('s, 'b, 'x) Keeper_scheme" and I :: ibc_api where
  start: "escrowAddrs cache = None \<Longrightarrow> cache_after k I [] cache"
| custom_call: "cache_after k I calls cache \<Longrightarrow> customDenom k c amt \<noteq> [] \<Longrightarrow>
    blockCustomTokenIBCTransfers k I c h channels cache fromAddr toAddr amt = (r, cache') \<Longrightarrow> cache_after k I (calls @ [(h, channels)]) cache'"
| other_call: "cache_after k I calls cache \<Longrightarrow> customDenom k c amt = [] \<Longrightarrow>
    blockCustomTokenIBCTransfers k I c h channels cache fromAddr toAddr amt = (r, cache') \<Longrightarrow> cache_after k I calls cache'"

text \<open>The call that the cache was built at: the first one at the greatest height so far.\<close>

definition built_at :: "(int \<times> channel list) list \<Rightarrow> int \<times> channel list" where
  "built_at calls = the (find (\<lambda>(h, _). \<forall>(h', _) \<in> set calls. h' \<le> h) calls)"

lemma find_append: "find P (xs @ ys) = (case find P xs of None \<Rightarrow> find P ys | Some x \<Rightarrow> Some x)"
  by (induction xs) auto

lemma built_at_snoc:
  assumes "calls \<noteq> []"
  shows "built_at (calls @ [(h, chs)]) = (if fst (built_at calls) < h then (h, chs) else built_at calls)"
    and "built_at calls \<in> set calls" and "\<forall>(h', _) \<in> set calls. h' \<le> fst (built_at calls)"
proof -
  let ?P = "\<lambda>(h, _ :: channel list). \<forall>(h', _) \<in> set calls. h' \<le> h"
  define m where "m = Max (fst ` set calls)"
  have "m \<in> fst ` set calls" using assms by (simp add: m_def)
  then obtain x where x: "x \<in> set calls" "fst x = m" by auto
  have le: "\<forall>(h', _) \<in> set calls. h' \<le> m" by (auto simp: m_def intro!: Max_ge imageI [of "(_, _)" _ fst, simplified])
  then have "?P x" using x(2) by (auto simp: split_beta)
  with x(1) have "find ?P calls \<noteq> None" unfolding find_None_iff by blast
  then obtain y where y: "find ?P calls = Some y" by blast
  then have b: "built_at calls = y" by (simp add: built_at_def)
  from y obtain i where i: "i < length calls" "calls ! i = y" "?P y" unfolding find_Some_iff by auto
  then show mem: "built_at calls \<in> set calls" and top: "\<forall>(h', _) \<in> set calls. h' \<le> fst (built_at calls)" unfolding b by (auto simp: split_beta)
  show "built_at (calls @ [(h, chs)]) = (if fst (built_at calls) < h then (h, chs) else built_at calls)"
  proof (cases "fst y < h")
    case True
    then have "find (\<lambda>(h1, _). \<forall>(h', _) \<in> set (calls @ [(h, chs)]). h' \<le> h1) calls = None"
      using top unfolding b find_None_iff by force
    moreover have "\<forall>(h', _) \<in> set calls. h' \<le> h" using top True unfolding b by force
    ultimately show ?thesis using True by (auto simp: built_at_def find_append b [unfolded built_at_def])
  next
    case False
    have "(\<lambda>(h1, _). \<forall>(h', _) \<in> set (calls @ [(h, chs)]). h' \<le> h1) z = ?P z" if "z \<in> set calls" for z
      using False mem that unfolding b by (cases z) force
    then have "find (\<lambda>(h1, _). \<forall>(h', _) \<in> set (calls @ [(h, chs)]). h' \<le> h1) calls = find ?P calls" by (intro find_cong) auto
    then show ?thesis using False y by (simp add: built_at_def find_append b [unfolded built_at_def])
  qed
qed

lemma cache_after_inv:
  "cache_after k I calls cache \<Longrightarrow> if calls = [] then escrowAddrs cache = None
     else escrowAddrs cache = Some (newCache k I (snd (built_at calls))) \<and> cacheHeight cache = fst (built_at calls)"
proof (induction rule: cache_after.induct)
  case (custom_call calls cache c amt h channels fromAddr toAddr r cache')
  have c': "cache' = rebuild k I h channels cache" using custom_call.hyps(2,3) by (auto simp: blockCustomTokenIBCTransfers_def Let_def)
  show ?case
  proof (cases "calls = []")
    case True
    then show ?thesis using custom_call.IH c' by (simp add: rebuild_def built_at_def)
  next
    case False
    then show ?thesis using custom_call.IH c' built_at_snoc(1) [OF False, of h channels] by (auto simp: rebuild_def)
  qed
qed (auto simp: blockCustomTokenIBCTransfers_def)

section \<open>Theorems\<close>

text \<open>C40.
  Custom tokens and IBC escrow accounts, whatever calls the cache has been through. The restriction refuses exactly
  the transfers of a coin of a stored token whose receiver or sender is the escrow address of one of the transfer
  channels that the cache was built from: those of the first transfer of custom tokens at the greatest height
  so far. The height of the cache is never below that of the call, and the first transfer of custom tokens at a new height sees
  the channels of the moment; a channel opened later in the block stays unknown until the next one.\<close>

theorem escrow_restriction_exact:
  assumes "store_ok k c" and "bond_ok k" and "cache_after k I calls cache" and "(h0, channels0) = built_at (calls @ [(h, channels)])"
    and "inj_on (AccAddress_String k) (insert fromAddr (insert toAddr (escrows I channels0)))"
  shows "(fst (blockCustomTokenIBCTransfers k I c h channels cache fromAddr toAddr amt) = Inr toAddr \<longleftrightarrow>
      (\<forall>coin \<in> set amt. \<not> HasToken k c (Denom coin)) \<or> fromAddr \<notin> escrows I channels0 \<and> toAddr \<notin> escrows I channels0) \<and>
    h \<le> h0 \<and> ((\<forall>(h', _) \<in> set calls. h' < h) \<longrightarrow> channels0 = channels)"
proof -
  have top: "h \<le> h0" using built_at_snoc(3) [of "calls @ [(h, channels)]"] assms(4) by (metis (no_types, lifting) append_is_Nil_conv case_prodD fst_conv in_set_conv_decomp not_Cons_self2)
  have new: "channels0 = channels" if "\<forall>(h', _) \<in> set calls. h' < h"
  proof (cases "calls = []")
    case True then show ?thesis using assms(4) by (simp add: built_at_def)
  next
    case False
    have "fst (built_at calls) < h" using built_at_snoc(2) [OF False] that by force
    then show ?thesis using assms(4) built_at_snoc(1) [OF False, of h channels] by simp
  qed
  have cur: "escrowAddrs (rebuild k I h channels cache) = Some (newCache k I channels0)"
  proof (cases "calls = []")
    case True
    then show ?thesis using cache_after_inv [OF assms(3)] assms(4) by (simp add: rebuild_def built_at_def)
  next
    case False
    have "channels0 = snd (if fst (built_at calls) < h then (h, channels) else built_at calls)"
      using assms(4) built_at_snoc(1) [OF False, of h channels] by (metis snd_conv)
    then show ?thesis using cache_after_inv [OF assms(3)] False by (auto simp: rebuild_def)
  qed
  have "AccAddress_String k e \<in> AccAddress_String k ` escrows I channels0 \<longleftrightarrow> e \<in> escrows I channels0" if "e = fromAddr \<or> e = toAddr" for e
    using assms(5) that by (auto simp: inj_on_def)
  then have m: "newCache k I channels0 (AccAddress_String k e) \<noteq> None \<longleftrightarrow> e \<in> escrows I channels0" if "e = fromAddr \<or> e = toAddr" for e
    using that unfolding domIff [symmetric] newCache_dom by blast
  have "fst (blockCustomTokenIBCTransfers k I c h channels cache fromAddr toAddr amt) = Inr toAddr \<longleftrightarrow>
      (\<forall>coin \<in> set amt. \<not> HasToken k c (Denom coin)) \<or> fromAddr \<notin> escrows I channels0 \<and> toAddr \<notin> escrows I channels0"
    using customDenom_Nil [OF assms(1,2), of amt] m [of fromAddr] m [of toAddr]
    by (cases "customDenom k c amt = []") (auto simp: blockCustomTokenIBCTransfers_def Let_def cur)
  with top new show ?thesis by blast
qed

text \<open>A coin of a stored token moves only between wallets and the module account of x/stoc: the second
  restriction accepts a transfer exactly when it carries no such coin, or each end is that module account,
  an address with no account yet, or an account that is neither interchain, vesting nor module account.\<close>

theorem wallet_restriction_exact:
  assumes "store_ok k c" and "bond_ok k"
  shows "blockCustomTokenNonWalletAccounts k getAccount c fromAddr toAddr amt = Inr a \<longleftrightarrow> a = toAddr \<and>
    ((\<forall>coin \<in> set amt. \<not> HasToken k c (Denom coin)) \<or>
     (\<forall>e \<in> {fromAddr, toAddr}. e = NewModuleAddress k stocModule \<or>
        (\<forall>acc. getAccount e = Some acc \<longrightarrow> \<not> isICA acc \<and> \<not> isVesting acc \<and> \<not> isModule acc)))"
proof -
  have w: "rejectIfNonWallet getAccount e = Inr u \<longleftrightarrow>
    (\<forall>acc. getAccount e = Some acc \<longrightarrow> \<not> isICA acc \<and> \<not> isVesting acc \<and> \<not> isModule acc)" for e u
    by (auto simp: rejectIfNonWallet_def split: option.splits)
  show ?thesis
    using customDenom_Nil [OF assms, of amt] w by (auto simp: blockCustomTokenNonWalletAccounts_def Let_def)
qed

definition demo_coins :: coins where
  "demo_coins = [mk_coin ''AB_0'' 4]"

definition ref_ibc :: ibc_api where
  "ref_ibc = \<lparr>transferPortID = ''transfer'', GetEscrowAddress = (\<lambda>p ch. ''escrow'' @ ch)\<rparr>"

definition demo_channel :: channel where "demo_channel = \<lparr>PortId = ''transfer'', ChannelId = ''channel0''\<rparr>"

definition no_cache :: escrow_cache where
  "no_cache = \<lparr>escrowAddrs = None, cacheHeight = 0\<rparr>"

lemma demo_custom: "HasToken ref_k demo1 ''AB_0''"
  by code_simp

text \<open>A channel that is opened within block 5, after a first transfer of the block: its escrow account is not refused
  for the rest of the block, and refused from block 6 on.\<close>

theorem escrow_restriction_witness:
  "\<exists>cache. cache_after ref_k ref_ibc [(5, [])] cache \<and>
     fst (blockCustomTokenIBCTransfers ref_k ref_ibc demo1 5 [demo_channel] cache ''alice'' ''escrowchannel0'' demo_coins) = Inr ''escrowchannel0'' \<and>
     fst (blockCustomTokenIBCTransfers ref_k ref_ibc demo1 6 [demo_channel] cache ''alice'' ''escrowchannel0'' demo_coins) \<noteq> Inr ''escrowchannel0''"
proof -
  have d: "customDenom ref_k demo1 demo_coins \<noteq> []"
    using demo_custom customDenom_Nil [OF demo1_store ref_bond, of demo_coins] by (simp add: demo_coins_def)
  obtain r cache where "blockCustomTokenIBCTransfers ref_k ref_ibc demo1 5 [] no_cache ''alice'' ''bob'' demo_coins = (r, cache)" by fastforce
  with cache_after.custom_call [OF cache_after.start [of no_cache] d] have c: "cache_after ref_k ref_ibc [(5, [])] cache" by (auto simp: no_cache_def)
  have i: "inj_on (AccAddress_String ref_k) S" for S by (simp add: ref_k_def)
  have e: "''escrowchannel0'' \<in> escrows ref_ibc [demo_channel]" by (auto simp: escrows_def demo_channel_def ref_ibc_def image_iff)
  have b: "(5, []) = built_at ([(5, [])] @ [(5, [demo_channel])])" "(6, [demo_channel]) = built_at ([(5, [])] @ [(6, [demo_channel])])"
    by (simp_all add: built_at_def)
  note old = escrow_restriction_exact [OF demo1_store ref_bond c b(1) i, of "''alice''" "''escrowchannel0''" demo_coins]
  note new = escrow_restriction_exact [OF demo1_store ref_bond c b(2) i, of "''alice''" "''escrowchannel0''" demo_coins]
  show ?thesis using c old new e demo_custom by (intro exI [of _ cache]) (auto simp: escrows_def demo_coins_def)
qed

theorem wallet_restriction_witness:
  "blockCustomTokenNonWalletAccounts ref_k (\<lambda>_. None) demo1 ''alice'' ''bob'' demo_coins = Inr ''bob'' \<and>
   blockCustomTokenNonWalletAccounts ref_k (\<lambda>a. if a = ''pool'' then Some \<lparr>isICA = False, isVesting = False, isModule = True\<rparr> else None)
     demo1 ''alice'' ''pool'' demo_coins \<noteq> Inr ''pool''"
  unfolding wallet_restriction_exact [OF demo1_store ref_bond]
  using demo_custom by (simp add: demo_coins_def ref_k_def)

end
