(* ===== verification/Proposal.thy ===== *)
theory Proposal
  imports Stoc_Prelude
begin

text \<open>
  Block building (\<^verbatim>\<open>app/abci_proposal.go\<close>, \<^verbatim>\<open>app/permanent_nonce_err.go\<close>): the handler walks the mempool with
  its own iterator, keeps the sequence numbers of the signers it has taken, skips the rest of a sender whose
  EVM transaction failed with a permanent nonce error, and falls back to the default handler when anything
  panics.

  The mempool and its iterator, the transaction verifier, the selector and the default handler live
  outside this file of the program: they are parameters that act on a world \<open>'w\<close>. A call that panics returns
  \<open>GoPanic\<close>. The theorems hold for every iterator, including one that never advances.
\<close>

section \<open>Permanent nonce errors\<close>

definition permanentNonceErrSubstrings :: "string list" where
  "permanentNonceErrSubstrings =
     [''nonce too high'', ''nonce too low'', ''nonce is higher than account nonce'', ''nonce is lower than account nonce'',
      ''intrinsic gas'', ''invalid nonce'', ''invalid sequence'']"

definition IsPermanentNonceErr :: "string \<Rightarrow> bool" where
  "IsPermanentNonceErr errMsg = list_ex (\<lambda>s. Contains errMsg s) permanentNonceErrSubstrings"

section \<open>What the handler calls\<close>

fun is_panic :: "go_err \<Rightarrow> bool" where
  "is_panic (GoPanic _) = True"
| "is_panic _ = False"

type_synonym bytes = string

record ('w, 't, 'i) proposal_api =
  mp_Select :: "bytes list \<Rightarrow> 'w \<Rightarrow> 'i option res \<times> 'w"
  mp_Remove :: "'t \<Rightarrow> 'w \<Rightarrow> unit res \<times> 'w"
  it_Tx :: "'i \<Rightarrow> 't option res"
  it_Next :: "'i \<Rightarrow> 'w \<Rightarrow> 'i option res \<times> 'w"
  it_CurrentIsEVM :: "'i \<Rightarrow> bool option"
  it_PopCurrentAccount :: "'i \<Rightarrow> 'w \<Rightarrow> 'i res \<times> 'w"
  tx_Unordered :: "'t \<Rightarrow> bool"
  GetSigners :: "'t \<Rightarrow> (string \<times> u64) list res"
  PrepareProposalVerifyTx :: "'t \<Rightarrow> 'w \<Rightarrow> bytes res \<times> 'w"
  TxDecode :: "bytes \<Rightarrow> 't res"
  err_Error :: "go_err \<Rightarrow> string"
  SelectTxForProposal :: "'t \<Rightarrow> bytes \<Rightarrow> 'w \<Rightarrow> bool res \<times> 'w"
  SelectedTxs :: "'w \<Rightarrow> bytes list"
  selector_Clear :: "'w \<Rightarrow> 'w"
  inner_PrepareProposal :: "bytes list \<Rightarrow> 'w \<Rightarrow> bytes list res \<times> 'w"

section \<open>The loop\<close>

record ('t, 'i) proposal_state =
  piter :: "'i option"
  prevMemTx :: "'t option"
  sameTxCount :: nat
  currentMemTx :: "'t option"
  selectedTxsSignersSeqs :: "string \<rightharpoonup> u64"
  selectedTxsNums :: nat
  invalidTxs :: "'t list"

datatype flow = Continue | Break | Return go_err | Panicked

definition maxInvalidTxsPerBlock :: nat where "maxInvalidTxsPerBlock = 1024"

definition maxIterations :: nat where "maxIterations = 8 * maxInvalidTxsPerBlock"

text \<open>The signers of a transaction against the sequences already taken: whether it fits, and its own.\<close>

fun signer_loop :: "(string \<rightharpoonup> u64) \<Rightarrow> (string \<times> u64) list \<Rightarrow> (string \<rightharpoonup> u64) \<Rightarrow> bool \<times> (string \<rightharpoonup> u64)" where
  "signer_loop seqs [] acc = (True, acc)"
| "signer_loop seqs ((s, n) # rest) acc =
     (case seqs s of
        None \<Rightarrow> signer_loop seqs rest (acc(s \<mapsto> n))
      | Some q \<Rightarrow> if q + 1 \<noteq> n then (False, acc) else signer_loop seqs rest (acc(s \<mapsto> n)))"

definition next_iter :: "('w, 't, 'i) proposal_api \<Rightarrow> 'i \<Rightarrow> ('t, 'i) proposal_state \<Rightarrow> 'w \<Rightarrow>
    flow \<times> ('t, 'i) proposal_state \<times> 'w" where
  "next_iter P it st w =
     (case it_Next P it w of (Inr i, w') \<Rightarrow> (Continue, st\<lparr>piter := i\<rparr>, w') | (Inl _, w') \<Rightarrow> (Panicked, st, w'))"

text \<open>The sequences after the selector has seen the transaction: its own when it was taken, one less for a
  signer seen for the first time when it was not.\<close>

definition update_seqs :: "bool \<Rightarrow> (string \<rightharpoonup> u64) \<Rightarrow> (string \<rightharpoonup> u64) \<Rightarrow> (string \<rightharpoonup> u64)" where
  "update_seqs taken txSeqs seqs = (\<lambda>s.
     case txSeqs s of None \<Rightarrow> seqs s
     | Some q \<Rightarrow> if taken then Some q else (case seqs s of Some x \<Rightarrow> Some x | None \<Rightarrow> Some (q - 1)))"

definition verify_failed :: "('w, 't, 'i) proposal_api \<Rightarrow> 'i \<Rightarrow> 't \<Rightarrow> go_err \<Rightarrow> ('t, 'i) proposal_state \<Rightarrow> 'w \<Rightarrow>
    flow \<times> ('t, 'i) proposal_state \<times> 'w" where
  "verify_failed P it memTx err st w =
     (let st1 = (if length (invalidTxs st) < maxInvalidTxsPerBlock then st\<lparr>invalidTxs := invalidTxs st @ [memTx]\<rparr> else st) in
      if it_CurrentIsEVM P it = Some True \<and> IsPermanentNonceErr (err_Error P err)
      then (case it_PopCurrentAccount P it w of
              (Inr it', w') \<Rightarrow> (Continue, st1\<lparr>piter := Some it'\<rparr>, w') | (Inl _, w') \<Rightarrow> (Panicked, st1, w'))
      else next_iter P it st1 w)"

definition select_tx :: "('w, 't, 'i) proposal_api \<Rightarrow> 'i \<Rightarrow> 't \<Rightarrow> (string \<rightharpoonup> u64) \<Rightarrow> bytes \<Rightarrow> ('t, 'i) proposal_state \<Rightarrow> 'w \<Rightarrow>
    flow \<times> ('t, 'i) proposal_state \<times> 'w" where
  "select_tx P it memTx txSignersSeqs txBz st w =
     (case SelectTxForProposal P memTx txBz w of
        (Inl _, w1) \<Rightarrow> (Panicked, st, w1)
      | (Inr stop, w1) \<Rightarrow>
          if stop then (Break, st, w1)
          else let txsLen = length (SelectedTxs P w1);
                   st1 = (if tx_Unordered P memTx then st
                          else st\<lparr>selectedTxsSignersSeqs := update_seqs (txsLen \<noteq> selectedTxsNums st) txSignersSeqs (selectedTxsSignersSeqs st)\<rparr>) in
               next_iter P it (st1\<lparr>selectedTxsNums := txsLen\<rparr>) w1)"

definition prop_tx :: "('w, 't, 'i) proposal_api \<Rightarrow> 'i \<Rightarrow> 't \<Rightarrow> ('t, 'i) proposal_state \<Rightarrow> 'w \<Rightarrow>
    flow \<times> ('t, 'i) proposal_state \<times> 'w" where
  "prop_tx P it memTx st w =
     (case (if tx_Unordered P memTx then Inr [] else GetSigners P memTx) of
        Inl e \<Rightarrow> (if is_panic e then Panicked else Return e, st, w)
      | Inr signerData \<Rightarrow>
          let (shouldAdd, txSignersSeqs) = signer_loop (selectedTxsSignersSeqs st) signerData Map.empty in
          if \<not> shouldAdd then next_iter P it st w
          else case PrepareProposalVerifyTx P memTx w of
            (Inl err, w1) \<Rightarrow> if is_panic err then (Panicked, st, w1) else verify_failed P it memTx err st w1
          | (Inr txBz, w1) \<Rightarrow> select_tx P it memTx txSignersSeqs txBz st w1)"

text \<open>One round: an iterator that shows the same transaction a third time in a row is forced on.\<close>

definition prop_round :: "('w, 't, 'i) proposal_api \<Rightarrow> 'i \<Rightarrow> 't \<Rightarrow> ('t, 'i) proposal_state \<Rightarrow> 'w \<Rightarrow>
    flow \<times> ('t, 'i) proposal_state \<times> 'w" where
  "prop_round P it memTx st w =
     (let same = (if prevMemTx st = Some memTx then sameTxCount st + 1 else 0) in
      if 2 \<le> same then next_iter P it (st\<lparr>currentMemTx := None, sameTxCount := 0\<rparr>) w
      else prop_tx P it memTx (st\<lparr>sameTxCount := same, prevMemTx := Some memTx, currentMemTx := Some memTx\<rparr>) w)"

function prop_loop :: "('w, 't, 'i) proposal_api \<Rightarrow> nat \<Rightarrow> ('t, 'i) proposal_state \<Rightarrow> 'w \<Rightarrow>
    flow \<times> ('t, 'i) proposal_state \<times> 'w \<times> nat" where
  "prop_loop P iterCount st w =
     (case piter st of None \<Rightarrow> (Break, st, w, iterCount)
      | Some it \<Rightarrow> (case it_Tx P it of
          Inl _ \<Rightarrow> (Panicked, st, w, iterCount)
        | Inr None \<Rightarrow> (Break, st, w, iterCount)
        | Inr (Some memTx) \<Rightarrow>
            if maxIterations < iterCount + 1 then (Break, st, w, iterCount + 1)
            else (case prop_round P it memTx st w of
                (Continue, st', w') \<Rightarrow> prop_loop P (iterCount + 1) st' w'
              | (fl, st', w') \<Rightarrow> (fl, st', w', iterCount + 1))))"
  by pat_completeness auto
termination
  by (relation "measure (\<lambda>(P, n, st, w). maxIterations - n)") auto

declare prop_loop.simps [simp del]

section \<open>The handler\<close>

fun noop_loop :: "('w, 't, 'i) proposal_api \<Rightarrow> bytes list \<Rightarrow> 'w \<Rightarrow> unit res \<times> 'w" where
  "noop_loop P [] w = (Inr (), w)"
| "noop_loop P (txBz # rest) w =
     (case TxDecode P txBz of Inl e \<Rightarrow> (Inl e, w)
      | Inr tx \<Rightarrow> (case SelectTxForProposal P tx txBz w of
          (Inl _, w1) \<Rightarrow> (Inl (GoPanic ''SelectTxForProposal''), w1)
        | (Inr stop, w1) \<Rightarrow> if stop then (Inr (), w1) else noop_loop P rest w1))"

text \<open>Removal of invalid transactions: an error is logged and ignored, a panic is not.\<close>

fun remove_all :: "('w, 't, 'i) proposal_api \<Rightarrow> 't list \<Rightarrow> 'w \<Rightarrow> unit res \<times> 'w" where
  "remove_all P [] w = (Inr (), w)"
| "remove_all P (tx # rest) w =
     (case mp_Remove P tx w of
        (Inl e, w1) \<Rightarrow> if is_panic e then (Inl e, w1) else remove_all P rest w1
      | (Inr _, w1) \<Rightarrow> remove_all P rest w1)"

definition proposal_start :: "'i option \<Rightarrow> ('t, 'i) proposal_state" where
  "proposal_start iter = \<lparr>piter = iter, prevMemTx = None, sameTxCount = 0, currentMemTx = None,
     selectedTxsSignersSeqs = Map.empty, selectedTxsNums = 0, invalidTxs = []\<rparr>"

text \<open>The body, with the transaction in flight when it ends.\<close>

definition proposal_body :: "('w, 't, 'i) proposal_api \<Rightarrow> bool \<Rightarrow> bytes list \<Rightarrow> 'w \<Rightarrow> bytes list res \<times> 't option \<times> 'w" where
  "proposal_body P noMempool reqTxs w =
     (if noMempool then
        (case noop_loop P reqTxs w of (Inl e, w1) \<Rightarrow> (Inl e, None, w1) | (Inr _, w1) \<Rightarrow> (Inr (SelectedTxs P w1), None, w1))
      else case mp_Select P reqTxs w of
        (Inl _, w1) \<Rightarrow> (Inl (GoPanic ''Select''), None, w1)
      | (Inr iter, w1) \<Rightarrow>
          (case prop_loop P 0 (proposal_start iter) w1 of
             (Panicked, st, w2, _) \<Rightarrow> (Inl (GoPanic ''loop''), currentMemTx st, w2)
           | (Return e, st, w2, _) \<Rightarrow> (Inl e, currentMemTx st, w2)
           | (_, st, w2, _) \<Rightarrow>
               let selectedTxs = SelectedTxs P w2 in
               (case remove_all P (invalidTxs st) w2 of
                  (Inl e, w3) \<Rightarrow> (Inl e, currentMemTx st, w3)
                | (Inr _, w3) \<Rightarrow> (Inr selectedTxs, currentMemTx st, w3))))"

text \<open>The recover block: the default handler, and an empty block should that panic too.\<close>

definition fallback :: "('w, 't, 'i) proposal_api \<Rightarrow> bytes list \<Rightarrow> 'w \<Rightarrow> bytes list res \<times> 'w" where
  "fallback P reqTxs w =
     (case inner_PrepareProposal P reqTxs w of
        (Inl e, w1) \<Rightarrow> if is_panic e then (Inr [], w1) else (Inl e, w1)
      | (Inr txs, w1) \<Rightarrow> (Inr txs, w1))"

definition PrepareProposalHandler :: "('w, 't, 'i) proposal_api \<Rightarrow> bool \<Rightarrow> bytes list \<Rightarrow> 'w \<Rightarrow> bytes list res \<times> 'w" where
  "PrepareProposalHandler P noMempool reqTxs w =
     (case proposal_body P noMempool reqTxs w of
        (Inr txs, _, w1) \<Rightarrow> (Inr txs, selector_Clear P w1)
      | (Inl e, current, w1) \<Rightarrow>
          let w2 = selector_Clear P w1 in
          if \<not> is_panic e then (Inl e, w2)
          else case current of None \<Rightarrow> fallback P reqTxs w2
          | Some tx \<Rightarrow> (case mp_Remove P tx w2 of
              (Inl e', w3) \<Rightarrow> if is_panic e' then (Inl e', w3) else fallback P reqTxs w3
            | (Inr _, w3) \<Rightarrow> fallback P reqTxs w3))"

section \<open>The loop ends\<close>

lemma next_iter_invalid: "next_iter P it st w = (fl, st', w') \<Longrightarrow> invalidTxs st' = invalidTxs st"
  by (auto simp: next_iter_def split: prod.splits sum.splits)

lemma verify_failed_invalid:
  "verify_failed P it memTx err st w = (fl, st', w') \<Longrightarrow> length (invalidTxs st) \<le> maxInvalidTxsPerBlock \<Longrightarrow>
   length (invalidTxs st') \<le> maxInvalidTxsPerBlock"
  by (auto simp: verify_failed_def Let_def dest!: next_iter_invalid split: prod.splits sum.splits if_splits)

lemma select_tx_invalid: "select_tx P it memTx ts bz st w = (fl, st', w') \<Longrightarrow> invalidTxs st' = invalidTxs st"
  by (auto simp: select_tx_def Let_def dest!: next_iter_invalid split: prod.splits sum.splits if_splits)

lemma prop_tx_invalid:
  "prop_tx P it memTx st w = (fl, st', w') \<Longrightarrow> length (invalidTxs st) \<le> maxInvalidTxsPerBlock \<Longrightarrow>
   length (invalidTxs st') \<le> maxInvalidTxsPerBlock"
  unfolding prop_tx_def
  by (auto simp: Let_def dest: next_iter_invalid verify_failed_invalid select_tx_invalid split: prod.splits sum.splits if_splits)

lemma prop_round_invalid:
  "prop_round P it memTx st w = (fl, st', w') \<Longrightarrow> length (invalidTxs st) \<le> maxInvalidTxsPerBlock \<Longrightarrow>
   length (invalidTxs st') \<le> maxInvalidTxsPerBlock"
  unfolding prop_round_def
  by (auto simp: Let_def dest: next_iter_invalid prop_tx_invalid split: if_splits)

text \<open>Block building ends, whatever the mempool does: for every iterator, also one that never advances or shows
  the same transaction for ever, the loop makes at most 8192 rounds (its counter stops at 8193), and it holds at most 1024 invalid
  transactions for removal.\<close>

theorem prop_loop_bounded:
  assumes "iterCount \<le> maxIterations" and "length (invalidTxs st) \<le> maxInvalidTxsPerBlock"
    and "prop_loop P iterCount st w = (fl, st', w', n)"
  shows "n \<le> maxIterations + 1 \<and> fl \<noteq> Continue \<and> length (invalidTxs st') \<le> maxInvalidTxsPerBlock"
  using assms
proof (induction P iterCount st w rule: prop_loop.induct)
  case (1 P iterCount st w)
  show ?case
  proof (cases "\<exists>it memTx. piter st = Some it \<and> it_Tx P it = Inr (Some memTx) \<and> iterCount + 1 \<le> maxIterations")
    case False
    with 1 show ?thesis
      by (subst (asm) (2) prop_loop.simps) (auto split: option.splits sum.splits if_splits)
  next
    case True
    then obtain it memTx where it: "piter st = Some it" "it_Tx P it = Inr (Some memTx)" "iterCount + 1 \<le> maxIterations" by blast
    obtain f st1 w1 where r: "prop_round P it memTx st w = (f, st1, w1)" by (metis prod_cases3)
    from prop_round_invalid [OF r 1(3)] 1 it r show ?thesis
      by (subst (asm) (2) prop_loop.simps) (cases f; auto)
  qed
qed

section \<open>A block is proposed\<close>

lemma next_iter_flow: "next_iter P it st w = (fl, st', w') \<Longrightarrow> fl \<noteq> Return e"
  by (auto simp: next_iter_def split: prod.splits sum.splits)

lemma prop_round_flow:
  assumes "prop_round P it memTx st w = (Return e, st', w')"
  shows "GetSigners P memTx = Inl e \<and> \<not> is_panic e"
proof -
  from assms obtain st1 where "prop_tx P it memTx st1 w = (Return e, st', w')"
    by (auto simp: prop_round_def Let_def dest: next_iter_flow split: if_splits)
  then show ?thesis unfolding prop_tx_def verify_failed_def select_tx_def
    by (auto simp: Let_def dest: next_iter_flow split: prod.splits sum.splits if_splits)
qed

lemma prop_loop_flow:
  "prop_loop P n st w = (Return e, st', w', n') \<Longrightarrow> \<exists>it tx. it_Tx P it = Inr (Some tx) \<and> GetSigners P tx = Inl e \<and> \<not> is_panic e"
proof (induction P n st w rule: prop_loop.induct)
  case (1 P iterCount st w)
  show ?case
  proof (cases "\<exists>it memTx. piter st = Some it \<and> it_Tx P it = Inr (Some memTx) \<and> iterCount + 1 \<le> maxIterations")
    case False
    with 1 show ?thesis by (subst (asm) (2) prop_loop.simps) (auto split: option.splits sum.splits if_splits)
  next
    case True
    then obtain it memTx where it: "piter st = Some it" "it_Tx P it = Inr (Some memTx)" "iterCount + 1 \<le> maxIterations" by blast
    obtain f st1 w1 where r: "prop_round P it memTx st w = (f, st1, w1)" by (metis prod_cases3)
    from 1 it r prop_round_flow [of P it memTx st w _ st1 w1] show ?thesis
      by (subst (asm) (2) prop_loop.simps) (cases f; auto)
  qed
qed

lemma noop_loop_flow: "noop_loop P txs w = (Inl e, w') \<Longrightarrow> \<not> is_panic e \<Longrightarrow> \<exists>bz \<in> set txs. TxDecode P bz = Inl e"
  by (induction txs arbitrary: w) (auto split: sum.splits prod.splits if_splits)

lemma remove_all_flow: "remove_all P txs w = (Inl e, w') \<Longrightarrow> is_panic e"
  by (induction txs arbitrary: w) (auto split: sum.splits prod.splits if_splits)

lemma body_error:
  assumes "proposal_body P noMempool reqTxs w = (Inl e, cur, w1)" and "\<not> is_panic e"
  shows "if noMempool then \<exists>bz \<in> set reqTxs. TxDecode P bz = Inl e else \<exists>it tx. it_Tx P it = Inr (Some tx) \<and> GetSigners P tx = Inl e"
proof (cases noMempool)
  case True
  with assms show ?thesis using noop_loop_flow [of P reqTxs w e] by (auto simp: proposal_body_def split: prod.splits sum.splits)
next
  case False
  then obtain i v st w' m where "prop_loop P 0 (proposal_start i) v = (Return e, st, w', m)"
    using assms by (auto simp: proposal_body_def Let_def dest: remove_all_flow split: prod.splits sum.splits flow.splits)
  from prop_loop_flow [OF this] False show ?thesis by auto
qed

text \<open>C32.
  What a proposer gets, whatever happens while the block is built. The handler returns the block that the walk
  selected, and clears the selector. When anything panics during the walk (the iterator, signature extraction, verification, selection,
  the removal of invalid transactions), it removes the transaction in flight, and returns what the default handler returns from there,
  or an empty block should that panic too. It returns an error only where the source does: the walk met a transaction of the
  mempool whose signers cannot be read, or, without a mempool, a transaction of the request that does not decode, or the
  default handler reported one. A panic leaves it only from the removal of the transaction in flight.\<close>

theorem proposal_outcomes:
  assumes "PrepareProposalHandler P noMempool reqTxs w = (r, w')" and "proposal_body P noMempool reqTxs w = (r0, current, w1)"
    and "wc = selector_Clear P w1" and "v = (case current of None \<Rightarrow> wc | Some tx \<Rightarrow> snd (mp_Remove P tx wc))"
  shows "case r of
      Inr txs \<Rightarrow> r0 = Inr txs \<and> w' = wc \<or> (\<exists>p. r0 = Inl (GoPanic p)) \<and>
        (case inner_PrepareProposal P reqTxs v of (Inr txs', v') \<Rightarrow> txs = txs' \<and> w' = v' | (Inl e, v') \<Rightarrow> is_panic e \<and> txs = [] \<and> w' = v')
    | Inl e \<Rightarrow> if is_panic e then \<exists>tx p. current = Some tx \<and> r0 = Inl (GoPanic p) \<and> mp_Remove P tx wc = (Inl e, w')
        else r0 = Inl e \<and> w' = wc \<and> (if noMempool then \<exists>bz \<in> set reqTxs. TxDecode P bz = Inl e else \<exists>it tx. it_Tx P it = Inr (Some tx) \<and> GetSigners P tx = Inl e) \<or>
          (\<exists>p. r0 = Inl (GoPanic p)) \<and> inner_PrepareProposal P reqTxs v = (Inl e, w')"
proof (cases r0)
  case (Inr txs)
  then show ?thesis using assms by (auto simp: PrepareProposalHandler_def)
next
  case (Inl e)
  show ?thesis
  proof (cases "is_panic e")
    case False
    then have "r = Inl e" "w' = wc" using assms Inl by (auto simp: PrepareProposalHandler_def Let_def)
    then show ?thesis using body_error [OF assms(2) [unfolded Inl] False] False Inl by auto
  next
    case True
    then obtain p where p: "r0 = Inl (GoPanic p)" using Inl by (cases e) auto
    from True consider "fallback P reqTxs v = (r, w')"
      | tx e' where "current = Some tx" "mp_Remove P tx wc = (Inl e', w')" "is_panic e'" "r = Inl e'"
      using assms Inl by (auto simp: PrepareProposalHandler_def Let_def split: option.splits prod.splits sum.splits if_splits)
    then show ?thesis
    proof cases
      case 1
      then show ?thesis using p by (auto simp: fallback_def split: prod.splits sum.splits if_splits)
    next
      case 2
      then show ?thesis using p by auto
    qed
  qed
qed

section \<open>The sequences of a signer\<close>

text \<open>The sequence number an ordered transaction has for a signer, and those of a list of transactions.\<close>

definition sig_of :: "('w, 't, 'i) proposal_api \<Rightarrow> string \<Rightarrow> 't \<Rightarrow> u64 option" where
  "sig_of P s tx = (if tx_Unordered P tx then None
     else case GetSigners P tx of Inl _ \<Rightarrow> None | Inr d \<Rightarrow> map_of (rev d) s)"

definition seqs_of :: "('w, 't, 'i) proposal_api \<Rightarrow> string \<Rightarrow> 't list \<Rightarrow> u64 list" where
  "seqs_of P s txs = List.map_filter (sig_of P s) txs"

abbreviation consecutive :: "u64 list \<Rightarrow> bool" where
  "consecutive xs \<equiv> successively (\<lambda>a b. b = a + 1) xs"

lemma seqs_of_snoc: "seqs_of P s (txs @ [tx]) = seqs_of P s txs @ (case sig_of P s tx of None \<Rightarrow> [] | Some n \<Rightarrow> [n])"
  by (simp add: seqs_of_def map_filter_def split: option.splits)

lemma signer_loop_ok:
  "signer_loop seqs d acc = (True, a) \<Longrightarrow> a = acc ++ map_of (rev d) \<and> (\<forall>s n q. (s, n) \<in> set d \<longrightarrow> seqs s = Some q \<longrightarrow> n = q + 1)"
proof (induction d arbitrary: acc)
  case (Cons p rest)
  obtain s n where p: "p = (s, n)" by fastforce
  with Cons.prems have run: "signer_loop seqs rest (acc(s \<mapsto> n)) = (True, a)" and q: "\<forall>q. seqs s = Some q \<longrightarrow> n = q + 1"
    by (auto split: option.splits if_splits)
  from Cons.IH [OF run] q show ?case unfolding p by (auto simp: map_add_def fun_eq_iff split: option.splits)
qed simp

text \<open>The laws of the outside calls: only the selector changes the list of selected transactions, and it
  appends the transaction it is given or leaves the list as it is.\<close>

locale proposal_env =
  fixes P :: "('w, 't, 'i) proposal_api"
  assumes Select_keeps: "SelectedTxs P (snd (mp_Select P txs w)) = SelectedTxs P w"
    and Next_keeps: "SelectedTxs P (snd (it_Next P it w)) = SelectedTxs P w"
    and Pop_keeps: "SelectedTxs P (snd (it_PopCurrentAccount P it w)) = SelectedTxs P w"
    and Verify_keeps: "SelectedTxs P (snd (PrepareProposalVerifyTx P tx w)) = SelectedTxs P w"
    and selector: "SelectedTxs P (snd (SelectTxForProposal P tx bz w)) = SelectedTxs P w \<or>
      SelectedTxs P (snd (SelectTxForProposal P tx bz w)) = SelectedTxs P w @ [bz]"
begin

definition block_ok :: "'t list \<Rightarrow> bytes list \<Rightarrow> bool" where
  "block_ok txs bzs \<longleftrightarrow> list_all2 (\<lambda>tx bz. \<exists>v. fst (PrepareProposalVerifyTx P tx v) = Inr bz) txs bzs \<and>
     (\<forall>s. consecutive (seqs_of P s txs))"

definition linv :: "('t, 'i) proposal_state \<Rightarrow> 'w \<Rightarrow> bool" where
  "linv st w \<longleftrightarrow> (\<exists>txs. block_ok txs (SelectedTxs P w) \<and>
     (\<forall>s. seqs_of P s txs \<noteq> [] \<longrightarrow> selectedTxsSignersSeqs st s = Some (last (seqs_of P s txs)))) \<and>
     selectedTxsNums st = length (SelectedTxs P w)"

text \<open>After a round the invariant holds, or the round has ended the loop and the block is in order.\<close>

definition rinv :: "flow \<times> ('t, 'i) proposal_state \<times> 'w \<Rightarrow> bool" where
  "rinv = (\<lambda>(fl, st, w). linv st w \<or> fl \<noteq> Continue \<and> (\<exists>txs. block_ok txs (SelectedTxs P w)))"

lemma next_keeps: "linv st w \<Longrightarrow> rinv (next_iter P it st w)"
  using Next_keeps [of it w] by (auto simp: next_iter_def rinv_def linv_def split: prod.splits sum.splits)

lemma block_snoc:
  assumes "block_ok txs bzs" and "fst (PrepareProposalVerifyTx P tx v) = Inr bz"
    and "\<And>s n. sig_of P s tx = Some n \<Longrightarrow> seqs_of P s txs \<noteq> [] \<Longrightarrow> n = last (seqs_of P s txs) + 1"
  shows "block_ok (txs @ [tx]) (bzs @ [bz])"
  using assms unfolding block_ok_def seqs_of_snoc
  by (auto intro!: list_all2_appendI simp: successively_append_iff split: option.splits)

lemma select_keeps:
  assumes inv: "linv st w" and v: "fst (PrepareProposalVerifyTx P memTx v) = Inr bz"
    and sig: "ts = (\<lambda>s. sig_of P s memTx)"
    and fit: "\<And>s n q. sig_of P s memTx = Some n \<Longrightarrow> selectedTxsSignersSeqs st s = Some q \<Longrightarrow> n = q + 1"
  shows "rinv (select_tx P it memTx ts bz st w)"
proof -
  obtain r w1 where w1: "SelectTxForProposal P memTx bz w = (r, w1)" by fastforce
  from inv obtain txs where txs: "block_ok txs (SelectedTxs P w)" and num: "selectedTxsNums st = length (SelectedTxs P w)"
    and last: "\<And>s. seqs_of P s txs \<noteq> [] \<Longrightarrow> selectedTxsSignersSeqs st s = Some (last (seqs_of P s txs))"
    by (auto simp: linv_def)
  define taken where "taken \<longleftrightarrow> SelectedTxs P w1 = SelectedTxs P w @ [bz]"
  define txs' where "txs' = (if taken then txs @ [memTx] else txs)"
  have sel: "taken \<or> SelectedTxs P w1 = SelectedTxs P w" using selector [of memTx bz w] w1 by (auto simp: taken_def)
  have "block_ok (txs @ [memTx]) (SelectedTxs P w @ [bz])" using block_snoc [OF txs v] last fit by blast
  then have ok: "block_ok txs' (SelectedTxs P w1)" using sel txs by (auto simp: txs'_def taken_def)
  have len: "length (SelectedTxs P w1) \<noteq> selectedTxsNums st \<longleftrightarrow> taken" using sel num by (auto simp: taken_def)
  define st' where "st' = (if tx_Unordered P memTx then st
    else st\<lparr>selectedTxsSignersSeqs := update_seqs taken ts (selectedTxsSignersSeqs st)\<rparr>)\<lparr>selectedTxsNums := length (SelectedTxs P w1)\<rparr>"
  have "selectedTxsSignersSeqs st' s = Some (last (seqs_of P s txs'))" if "seqs_of P s txs' \<noteq> []" for s
  proof (cases "sig_of P s memTx")
    case None
    with that last [of s] show ?thesis
      by (auto simp: txs'_def seqs_of_snoc st'_def update_seqs_def sig split: if_splits)
  next
    case (Some n)
    then have "\<not> tx_Unordered P memTx" by (auto simp: sig_of_def)
    with Some that last [of s] show ?thesis
      by (auto simp: txs'_def seqs_of_snoc st'_def update_seqs_def sig split: if_splits)
  qed
  with ok have "linv st' w1" unfolding linv_def by (auto simp: st'_def)
  then have "rinv (next_iter P it st' w1)" by (rule next_keeps)
  moreover have "select_tx P it memTx ts bz st w = (case r of Inl _ \<Rightarrow> (Panicked, st, w1)
    | Inr stop \<Rightarrow> if stop then (Break, st, w1) else next_iter P it st' w1)"
    by (simp add: select_tx_def w1 Let_def len st'_def split: sum.split)
  ultimately show ?thesis using ok by (cases r) (auto simp: rinv_def)
qed

lemma tx_keeps:
  assumes inv: "linv st w" shows "rinv (prop_tx P it memTx st w)"
proof (cases "if tx_Unordered P memTx then Inr [] else GetSigners P memTx")
  case (Inl e)
  with inv show ?thesis by (auto simp: prop_tx_def rinv_def linv_def)
next
  case (Inr d)
  obtain add ts where l: "signer_loop (selectedTxsSignersSeqs st) d Map.empty = (add, ts)" by fastforce
  obtain r w1 where v: "PrepareProposalVerifyTx P memTx w = (r, w1)" by fastforce
  have inv1: "linv st w1" using inv Verify_keeps [of memTx w] v by (simp add: linv_def)
  have bad: "rinv (verify_failed P it memTx e st w1)" for e
    using inv1 next_keeps [of st w1 it] next_keeps [of "st\<lparr>invalidTxs := invalidTxs st @ [memTx]\<rparr>" w1 it] Pop_keeps [of it w1]
    by (auto simp: verify_failed_def Let_def rinv_def linv_def split: prod.splits sum.splits)
  have good: "rinv (select_tx P it memTx ts bz st w1)" if "add" "r = Inr bz" for bz
  proof (rule select_keeps [OF inv1])
    note L = signer_loop_ok [OF l [unfolded that(1) [THEN eqTrueI]]]
    show "fst (PrepareProposalVerifyTx P memTx w) = Inr bz" using v that by simp
    have e: "ts = map_of (rev d)" using L by simp
    then show "ts = (\<lambda>s. sig_of P s memTx)" using Inr by (auto simp: sig_of_def fun_eq_iff split: if_splits)
    then show "\<And>s n q. sig_of P s memTx = Some n \<Longrightarrow> selectedTxsSignersSeqs st s = Some q \<Longrightarrow> n = q + 1"
      using L e by (metis map_of_SomeD set_rev)
  qed
  show ?thesis using inv1 bad good next_keeps [OF inv, of it]
    by (auto simp: prop_tx_def Inr l v Let_def rinv_def linv_def split: sum.splits)
qed

lemma round_keeps: "linv st w \<Longrightarrow> rinv (prop_round P it memTx st w)"
  unfolding prop_round_def Let_def by (auto intro!: next_keeps tx_keeps simp: linv_def)

lemma loop_keeps: "linv st w \<Longrightarrow> prop_loop P n st w = (fl, st', w', m) \<Longrightarrow> \<exists>txs. block_ok txs (SelectedTxs P w')"
proof (induction "maxIterations - n" arbitrary: n st w rule: less_induct)
  case less
  show ?case
  proof (cases "\<exists>it memTx. piter st = Some it \<and> it_Tx P it = Inr (Some memTx) \<and> n + 1 \<le> maxIterations")
    case False
    with less.prems show ?thesis
      by (subst (asm) prop_loop.simps) (auto simp: linv_def split: option.splits sum.splits if_splits)
  next
    case True
    then obtain it memTx where it: "piter st = Some it" "it_Tx P it = Inr (Some memTx)" "n + 1 \<le> maxIterations" by blast
    obtain f st1 w1 where r: "prop_round P it memTx st w = (f, st1, w1)" by (metis prod_cases3)
    have k: "rinv (f, st1, w1)" using round_keeps [OF less.prems(1), of it memTx] r by simp
    show ?thesis
    proof (cases "f = Continue")
      case True
      with k have "linv st1 w1" by (simp add: rinv_def)
      from less.hyps [OF _ this, of "n + 1"] less.prems(2) it r True show ?thesis
        by (subst (asm) prop_loop.simps) auto
    next
      case False
      with k less.prems(2) it r show ?thesis
        by (subst (asm) prop_loop.simps) (cases f; auto simp: rinv_def linv_def)
    qed
  qed
qed

end

text \<open>C13.
  The proposed block respects the account sequences. When the walk of the mempool itself builds the block,
  its transactions are encodings that the verifier produced, in order, and for every signer the sequence
  numbers of that signer's ordered transactions in the block follow each other without gap or repetition,
  also when the selector passes over some of them.\<close>

theorem proposal_sequences_consecutive:
  assumes "proposal_env P" and "SelectedTxs P w = []" and "proposal_body P False reqTxs w = (Inr bzs, current, w')"
  shows "\<exists>txs. list_all2 (\<lambda>tx bz. \<exists>v. fst (PrepareProposalVerifyTx P tx v) = Inr bz) txs bzs \<and>
    (\<forall>s. consecutive (seqs_of P s txs))"
proof -
  obtain r w1 where sel: "mp_Select P reqTxs w = (r, w1)" by fastforce
  with proposal_env.Select_keeps [OF assms(1), of reqTxs w] assms(2) have e: "SelectedTxs P w1 = []" by simp
  have inv: "proposal_env.linv P (proposal_start i) w1" for i
    unfolding proposal_env.linv_def [OF assms(1)] proposal_env.block_ok_def [OF assms(1)]
    by (auto simp: e proposal_start_def seqs_of_def map_filter_def)
  from assms(3) sel obtain i fl st w2 n where "prop_loop P 0 (proposal_start i) w1 = (fl, st, w2, n)" "bzs = SelectedTxs P w2"
    by (auto simp: proposal_body_def Let_def split: sum.splits prod.splits flow.splits)
  with proposal_env.loop_keeps [OF assms(1) inv] show ?thesis
    unfolding proposal_env.block_ok_def [OF assms(1)] by blast
qed

section \<open>A concrete mempool\<close>

text \<open>Transactions are a signer with a sequence number, the iterator is the list of those to come, the world
  the list of selected encodings; the transactions of one signer do not verify.\<close>

type_synonym ref_ptx = "string \<times> u64"

definition ref_pool :: "ref_ptx list" where
  "ref_pool = [(''a'', 1), (''x'', 1), (''a'', 3), (''a'', 2)]"

definition ref_prop :: "(bytes list, ref_ptx, ref_ptx list) proposal_api" where
  "ref_prop = \<lparr>mp_Select = (\<lambda>_ w. (Inr (Some ref_pool), w)), mp_Remove = (\<lambda>_ w. (Inr (), w)),
     it_Tx = (\<lambda>it. Inr (case it of [] \<Rightarrow> None | t # _ \<Rightarrow> Some t)), it_Next = (\<lambda>it w. (Inr (Some (tl it)), w)),
     it_CurrentIsEVM = (\<lambda>_. Some True), it_PopCurrentAccount = (\<lambda>it w. (Inr (dropWhile (\<lambda>t. fst t = fst (hd it)) it), w)),
     tx_Unordered = (\<lambda>_. False), GetSigners = (\<lambda>t. Inr [t]),
     PrepareProposalVerifyTx = (\<lambda>t w. (if fst t = ''x'' then Inl (Errorf ''invalid nonce'') else Inr (fst t), w)),
     TxDecode = (\<lambda>bz. Inr (bz, 0)), err_Error = (\<lambda>e. case e of Errorf m \<Rightarrow> m | _ \<Rightarrow> []),
     SelectTxForProposal = (\<lambda>_ bz w. (Inr False, w @ [bz])), SelectedTxs = (\<lambda>w. w), selector_Clear = (\<lambda>_. []),
     inner_PrepareProposal = (\<lambda>txs w. (Inr txs, w))\<rparr>"

interpretation refprop: proposal_env ref_prop
  by unfold_locales (simp_all add: ref_prop_def)

theorem prop_loop_bounded_witness:
  "\<exists>fl st w n. prop_loop ref_prop 0 (proposal_start (Some ref_pool)) [] = (fl, st, w, n) \<and> n \<le> maxIterations + 1 \<and> fl \<noteq> Continue"
proof -
  obtain fl st w n where r: "prop_loop ref_prop 0 (proposal_start (Some ref_pool)) [] = (fl, st, w, n)" by (metis prod_cases4)
  from prop_loop_bounded [OF _ _ r] r show ?thesis by (simp add: proposal_start_def)
qed

lemma ref_body: "proposal_body ref_prop False [] [] = (Inr [''a'', ''a''], Some (''a'', 2), [''a'', ''a''])"
  by (simp add: proposal_body_def ref_prop_def ref_pool_def proposal_start_def prop_loop.simps prop_round_def prop_tx_def
      next_iter_def verify_failed_def select_tx_def update_seqs_def maxIterations_def maxInvalidTxsPerBlock_def Let_def
      IsPermanentNonceErr_def permanentNonceErrSubstrings_def Contains_def)

text \<open>A mempool whose selection panics: the default handler takes over.\<close>

definition ref_panic :: "(bytes list, ref_ptx, ref_ptx list) proposal_api" where
  "ref_panic = ref_prop\<lparr>mp_Select := \<lambda>_ w. (Inl (GoPanic ''nil''), w)\<rparr>"

theorem proposal_outcomes_witness:
  "fst (PrepareProposalHandler ref_prop False [] []) = Inr [''a'', ''a''] \<and> fst (PrepareProposalHandler ref_panic False [''b''] []) = Inr [''b'']"
proof -
  obtain r w' where run: "PrepareProposalHandler ref_prop False [] [] = (r, w')" by fastforce
  obtain q v' where run': "PrepareProposalHandler ref_panic False [''b''] [] = (q, v')" by fastforce
  have body': "proposal_body ref_panic False [''b''] [] = (Inl (GoPanic ''Select''), None, [])" by (simp add: proposal_body_def ref_panic_def)
  have "r = Inr [''a'', ''a'']" using proposal_outcomes [OF run ref_body refl refl] by (auto split: sum.splits if_splits)
  moreover have "q = Inr [''b'']" using proposal_outcomes [OF run' body' refl refl]
    by (auto simp: ref_panic_def ref_prop_def split: sum.splits if_splits)
  ultimately show ?thesis using run run' by simp
qed

theorem proposal_sequences_witness:
  "proposal_body ref_prop False [] [] = (Inr [''a'', ''a''], Some (''a'', 2), [''a'', ''a'']) \<and>
   (\<exists>txs. list_all2 (\<lambda>tx bz. \<exists>v. fst (PrepareProposalVerifyTx ref_prop tx v) = Inr bz) txs [''a'', ''a''] \<and>
     (\<forall>s. consecutive (seqs_of ref_prop s txs)))"
  using proposal_sequences_consecutive [OF refprop.proposal_env_axioms _ ref_body] ref_body by (simp add: ref_prop_def)

end
