(* ===== verification/Vm_Keeper.thy ===== *)
theory Vm_Keeper
  imports Evm_Bank App_Ante "HOL-Library.AList" "HOL-Library.Multiset"
begin

text \<open>
  The keeper of the EVM module of the fork, as far as accounts, balances and fees go
  (\<^verbatim>\<open>forks/cosmos-evm-v0.6.0/x/vm/keeper\<close>: \<^verbatim>\<open>statedb.go\<close>, \<^verbatim>\<open>fees.go\<close>, \<^verbatim>\<open>gas.go\<close>, parts of \<^verbatim>\<open>keeper.go\<close> and
  \<^verbatim>\<open>utils.go\<close>), its bank wrapper (\<^verbatim>\<open>x/vm/wrappers/bank.go\<close>), which stands on the bank of x/evmutil, and the
  fee arithmetic of a message (\<^verbatim>\<open>x/vm/types/msg.go\<close>).

  The state of the SDK modules that an EVM transaction touches is \<open>sdk_state\<close>: the bank, the accounts of
  x/auth, the stores of the EVM module and of the fee market. It stands where the other theories have the
  bank's state. The account keeper and go-ethereum are parameters with their laws in \<open>account_laws\<close> and
  \<open>geth_laws\<close>. A payment into the fee collector leaves the accounts alone, since the account of the
  collector exists.

  The theorems show that the writing of balances by the EVM keeps the coins of the bank: an account gets
  its target rounded down to a whole Cosmos unit, and what a transfer loses by that is in the account of the
  EVM module.
\<close>

section \<open>State\<close>

text \<open>The persistent entries by prefix (code hash, code, storage; an absent entry is empty) and the numbers
  of the transient store.\<close>

record vm_state =
  vmCodeHash :: "addr \<Rightarrow> string"
  vmCode :: "string \<Rightarrow> string"
  vmStorage :: "addr \<Rightarrow> (string \<times> string) list"
  vmTxIndex :: u64
  vmGasUsed :: u64
  vmLogSize :: u64

record ('k, 'm) sdk_state =
  sdkBank :: 'k
  sdkAccounts :: 'm
  sdkVm :: vm_state
  sdkFm :: fm_state

type_synonym ('s, 'k, 'm) vctx = "('s, ('k, 'm) sdk_state) ctx"

definition setAccounts :: "'m \<Rightarrow> ('s, 'k, 'm) vctx \<Rightarrow> ('s, 'k, 'm) vctx" where
  "setAccounts m c = c\<lparr>bank := (bank c)\<lparr>sdkAccounts := m\<rparr>\<rparr>"

definition setVm :: "vm_state \<Rightarrow> ('s, 'k, 'm) vctx \<Rightarrow> ('s, 'k, 'm) vctx" where
  "setVm v c = c\<lparr>bank := (bank c)\<lparr>sdkVm := v\<rparr>\<rparr>"

definition setFm :: "fm_state \<Rightarrow> ('s, 'k, 'm) vctx \<Rightarrow> ('s, 'k, 'm) vctx" where
  "setFm f c = c\<lparr>bank := (bank c)\<lparr>sdkFm := f\<rparr>\<rparr>"

text \<open>A call of the bank of x/evmutil with the context.\<close>

definition onBank :: "('k evmctx \<Rightarrow> 'k evmctx res) \<Rightarrow> ('s, 'k, 'm) vctx \<Rightarrow> ('s, 'k, 'm) vctx res" where
  "onBank f c = tryE (f \<lparr>ebank = sdkBank (bank c), eevents = Some (events c)\<rparr>) (\<lambda>e.
     Inr (c\<lparr>bank := (bank c)\<lparr>sdkBank := ebank e\<rparr>, events := (case eevents e of None \<Rightarrow> events c | Some es \<Rightarrow> es)\<rparr>))"

abbreviation accounts :: "('s, 'k, 'm) vctx \<Rightarrow> 'm" where "accounts c \<equiv> sdkAccounts (bank c)"
abbreviation coinsOf :: "('s, 'k, 'm) vctx \<Rightarrow> 'k" where "coinsOf c \<equiv> sdkBank (bank c)"
abbreviation vmOf :: "('s, 'k, 'm) vctx \<Rightarrow> vm_state" where "vmOf c \<equiv> sdkVm (bank c)"
abbreviation fmOf :: "('s, 'k, 'm) vctx \<Rightarrow> fm_state" where "fmOf c \<equiv> sdkFm (bank c)"

lemma set_simps [simp]:
  "accounts (setAccounts m c) = m" "coinsOf (setAccounts m c) = coinsOf c" "vmOf (setAccounts m c) = vmOf c" "fmOf (setAccounts m c) = fmOf c"
  "accounts (setVm v c) = accounts c" "coinsOf (setVm v c) = coinsOf c" "vmOf (setVm v c) = v" "fmOf (setVm v c) = fmOf c"
  "accounts (setFm f c) = accounts c" "coinsOf (setFm f c) = coinsOf c" "vmOf (setFm f c) = vmOf c" "fmOf (setFm f c) = f"
  "store (setAccounts m c) = store c" "store (setVm v c) = store c" "store (setFm f c) = store c"
  "events (setAccounts m c) = events c" "events (setVm v c) = events c" "events (setFm f c) = events c"
  by (simp_all add: setAccounts_def setVm_def setFm_def)

section \<open>Transactions of go-ethereum\<close>

record eth_tx =
  Protected :: bool
  TxType :: nat
  TxNonce :: u64
  TxGas :: u64
  GasFeeCap :: int
  GasTipCap :: int
  TxTo :: "addr option"
  TxValue :: int
  TxData :: string
  AccessList :: "string list"
  SetCodeAuthorizations :: "string list"
  TxHash :: string

record eth_rules =
  IsHomestead :: bool
  IsIstanbul :: bool
  IsLondon :: bool
  IsShanghai :: bool

text \<open>Functions of go-ethereum: the price and cost of a transaction, its tip over a base fee (the value; the
  callers ignore the error), its intrinsic gas, the validation against a header with the given base fee and
  the gas limit of the transaction, delegated code, the rules of a block.\<close>

record geth =
  GasPrice :: "eth_tx \<Rightarrow> int"
  Cost :: "eth_tx \<Rightarrow> int"
  EffectiveGasTip :: "eth_tx \<Rightarrow> int option \<Rightarrow> int"
  IntrinsicGas :: "string \<Rightarrow> string list \<Rightarrow> string list \<Rightarrow> bool \<Rightarrow> bool \<Rightarrow> bool \<Rightarrow> bool \<Rightarrow> u64 res"
  ValidateTransaction :: "check_ctx \<Rightarrow> int option \<Rightarrow> eth_tx \<Rightarrow> unit res"
  ParseDelegation :: "string \<Rightarrow> bool"
  chainRules :: "check_ctx \<Rightarrow> eth_rules"
  BytesToHash :: "string \<Rightarrow> string"
  EmptyCodeHash :: string

definition BlobTxType :: nat where "BlobTxType = 3"
definition SetCodeTxType :: nat where "SetCodeTxType = 4"
definition DynamicFeeTxType :: nat where "DynamicFeeTxType = 2"

text \<open>The gas price of a transaction with a fee cap is the cap, and a legacy transaction has its price as the
  cap; the cost is gas by price and the value, but for blob transactions, which the validation refuses. The
  validation refuses a negative value, a negative tip and a tip above the cap.\<close>

locale geth_laws =
  fixes G :: geth
  assumes GasPrice_eq: "GasPrice G t = GasFeeCap t"
    and Cost_eq: "TxType t \<noteq> BlobTxType \<Longrightarrow> Cost G t = uint (TxGas t) * GasPrice G t + TxValue t"
    and Tip_nil: "EffectiveGasTip G t None = GasTipCap t"
    and Tip_eq: "EffectiveGasTip G t (Some b) = min (GasTipCap t) (GasFeeCap t - b)"
    and ValidateTransaction_Inr: "ValidateTransaction G info bf t = Inr () \<Longrightarrow>
      TxType t \<noteq> BlobTxType \<and> 0 \<le> TxValue t \<and> 0 \<le> GasTipCap t \<and> GasTipCap t \<le> GasFeeCap t"

section \<open>The account keeper\<close>

record ('m, 'acc) AccountKeeper =
  ak_GetAccount :: "'m \<Rightarrow> addr \<Rightarrow> 'acc option"
  ak_SetAccount :: "'m \<Rightarrow> 'acc \<Rightarrow> 'm"
  ak_NewAccountWithAddress :: "'m \<Rightarrow> addr \<Rightarrow> 'acc \<times> 'm"
  ak_RemoveAccount :: "'m \<Rightarrow> 'acc \<Rightarrow> 'm"
  acc_GetAddress :: "'acc \<Rightarrow> addr"
  acc_GetSequence :: "'acc \<Rightarrow> u64"
  acc_SetSequence :: "'acc \<Rightarrow> u64 \<Rightarrow> 'acc res"
  acc_IsModule :: "'acc \<Rightarrow> bool"
  acc_ToBase :: "'acc \<Rightarrow> 'acc"

locale account_laws =
  fixes A :: "('m, 'acc) AccountKeeper"
  assumes Get_address: "ak_GetAccount A m x = Some a \<Longrightarrow> acc_GetAddress A a = x"
    and Get_Set: "ak_GetAccount A (ak_SetAccount A m a) x = (if x = acc_GetAddress A a then Some a else ak_GetAccount A m x)"
    and Get_Remove: "ak_GetAccount A (ak_RemoveAccount A m a) x = (if x = acc_GetAddress A a then None else ak_GetAccount A m x)"
    and New_account: "ak_NewAccountWithAddress A m x = (a, m') \<Longrightarrow>
      acc_GetAddress A a = x \<and> acc_GetSequence A a = 0 \<and> \<not> acc_IsModule A a \<and> ak_GetAccount A m' = ak_GetAccount A m"
    and SetSequence_Inr: "acc_SetSequence A a n = Inr a' \<Longrightarrow>
      acc_GetAddress A a' = acc_GetAddress A a \<and> acc_GetSequence A a' = n \<and> acc_IsModule A a' = acc_IsModule A a"
    and ToBase: "acc_GetAddress A (acc_ToBase A a) = acc_GetAddress A a" "\<not> acc_IsModule A (acc_ToBase A a)"

section \<open>The keeper\<close>

text \<open>\<open>vkBank\<close> is the bank of x/evmutil, \<open>vkDeductFees\<close> the SDK's \<open>DeductFees\<close> with the payment it makes as its
  first argument.\<close>

record ('k, 'm, 'acc) VmKeeper =
  vkSdk :: fee_sdk
  vkBank :: "'k EvmBankKeeper"
  vkAccounts :: "('m, 'acc) AccountKeeper"
  vkCoin :: EvmCoinInfo
  vkGeth :: geth
  vkDeductFees :: "(addr \<Rightarrow> string \<Rightarrow> coins \<Rightarrow> 'k evmctx \<Rightarrow> 'k evmctx res) \<Rightarrow> addr \<Rightarrow> coins \<Rightarrow> 'k evmctx \<Rightarrow> 'k evmctx res"
  vkCoinsSort :: "coins \<Rightarrow> coins"
  vkCoinsString :: "coins \<Rightarrow> string"

definition feeCollector :: string where "feeCollector = ''fee_collector''"
definition evmModule :: string where "evmModule = ''evm''"

definition Coins_IsZero :: "coins \<Rightarrow> bool" where
  "Coins_IsZero cs = list_all (\<lambda>c. Amount c = 0) cs"

definition Coins_AmountOf :: "'x fee_sdk_scheme \<Rightarrow> coins \<Rightarrow> denom \<Rightarrow> int res" where
  "Coins_AmountOf K cs d = tryE (asErr (GoPanic ''invalid denom'') (ValidateDenom K d)) (\<lambda>_. Inr (AmountOfNoDenomValidation K cs d))"

subsection \<open>Scaling\<close>

definition ConvertAmountTo18DecimalsLegacy :: "'x fee_sdk_scheme \<Rightarrow> EvmCoinInfo \<Rightarrow> dec \<Rightarrow> dec res" where
  "ConvertAmountTo18DecimalsLegacy K evmCoin amt = tryE (deref (ConversionFactor (eciDecimals evmCoin))) (\<lambda>f. chkDec K (amt * f))"

definition ConvertEvmCoinDenomToExtendedDenom :: "EvmCoinInfo \<Rightarrow> coin \<Rightarrow> coin res" where
  "ConvertEvmCoinDenomToExtendedDenom evmCoin x =
     (if Denom x \<noteq> eciDenom evmCoin then Inl (Errorf ''expected coin denom'') else Inr (mk_coin (eciExtendedDenom evmCoin) (Amount x)))"

definition ConvertCoinsDenomToExtendedDenom :: "('k, 'm, 'acc) VmKeeper \<Rightarrow> coins \<Rightarrow> coins" where
  "ConvertCoinsDenomToExtendedDenom V cs = vkCoinsSort V (map (\<lambda>x.
     if Denom x = eciDenom (vkCoin V) then mk_coin (eciExtendedDenom (vkCoin V)) (Amount x) else x) cs)"

definition Uint256FromBigInt :: "int \<Rightarrow> int res" where
  "Uint256FromBigInt i =
     (if i < 0 then Inl (Errorf ''negative'') else if 2 ^ 256 \<le> i then Inl (Errorf ''overflow'') else Inr i)"

subsection \<open>The bank wrapper\<close>

definition W_GetBalance :: "('k, 'm, 'acc) VmKeeper \<Rightarrow> 'k \<Rightarrow> addr \<Rightarrow> denom \<Rightarrow> coin res" where
  "W_GetBalance V b addr d =
     (if d \<noteq> eciDenom (vkCoin V) then Inl (GoPanic ''expected evm denom'')
      else Evm_GetBalance (vkSdk V) (vkBank V) b addr (eciExtendedDenom (vkCoin V)))"

definition W_SpendableCoin :: "('k, 'm, 'acc) VmKeeper \<Rightarrow> 'k \<Rightarrow> addr \<Rightarrow> denom \<Rightarrow> coin res" where
  "W_SpendableCoin V b addr d =
     (if d \<noteq> eciDenom (vkCoin V) then Inl (GoPanic ''expected evm denom'')
      else Evm_SpendableCoin (vkSdk V) (vkBank V) b addr (eciExtendedDenom (vkCoin V)))"

definition W_SendCoinsFromAccountToModule :: "('k, 'm, 'acc) VmKeeper \<Rightarrow> addr \<Rightarrow> string \<Rightarrow> coins \<Rightarrow> 'k evmctx \<Rightarrow> 'k evmctx res" where
  "W_SendCoinsFromAccountToModule V from m coins e =
     (let converted = ConvertCoinsDenomToExtendedDenom V coins in
      if Coins_IsZero converted then Inr e
      else Evm_SendCoinsFromAccountToModule (vkSdk V) (vkBank V) e from m converted)"

definition W_SendCoinsFromModuleToAccount :: "('k, 'm, 'acc) VmKeeper \<Rightarrow> string \<Rightarrow> addr \<Rightarrow> coins \<Rightarrow> 'k evmctx \<Rightarrow> 'k evmctx res" where
  "W_SendCoinsFromModuleToAccount V m to coins e =
     (let converted = ConvertCoinsDenomToExtendedDenom V coins in
      if Coins_IsZero converted then Inr e
      else Evm_SendCoinsFromModuleToAccount (vkSdk V) (vkBank V) e m to converted)"

definition MintAmountToAccount :: "('k, 'm, 'acc) VmKeeper \<Rightarrow> addr \<Rightarrow> int \<Rightarrow> 'k evmctx \<Rightarrow> 'k evmctx res" where
  "MintAmountToAccount V to amt e =
     tryE (chk256 amt) (\<lambda>a.
     tryE (ConvertEvmCoinDenomToExtendedDenom (vkCoin V) (mk_coin (eciDenom (vkCoin V)) a)) (\<lambda>converted.
     tryE (Evm_MintCoins (vkSdk V) (vkBank V) e evmModule [converted]) (\<lambda>e1.
     Evm_SendCoinsFromModuleToAccount (vkSdk V) (vkBank V) e1 evmModule to [converted])))"

definition BurnAmountFromAccount :: "('k, 'm, 'acc) VmKeeper \<Rightarrow> addr \<Rightarrow> int \<Rightarrow> 'k evmctx \<Rightarrow> 'k evmctx res" where
  "BurnAmountFromAccount V from amt e =
     tryE (chk256 amt) (\<lambda>a.
     tryE (ConvertEvmCoinDenomToExtendedDenom (vkCoin V) (mk_coin (eciDenom (vkCoin V)) a)) (\<lambda>converted.
     tryE (Evm_SendCoinsFromAccountToModule (vkSdk V) (vkBank V) e from evmModule [converted]) (\<lambda>e1.
     Evm_BurnCoins (vkSdk V) (vkBank V) e1 evmModule [converted])))"

subsection \<open>Accounts\<close>

record vm_account =
  acNonce :: u64
  acBalance :: "int option"
  acCodeHash :: string
  lockedBalance :: "int option"

definition NewEmptyAccount :: "geth \<Rightarrow> vm_account" where
  "NewEmptyAccount G = \<lparr>acNonce = 0, acBalance = Some 0, acCodeHash = EmptyCodeHash G, lockedBalance = None\<rparr>"

definition IsEmptyCodeHash :: "geth \<Rightarrow> string \<Rightarrow> bool" where
  "IsEmptyCodeHash G bz = (bz = EmptyCodeHash G)"

definition HasCodeHash :: "geth \<Rightarrow> vm_account \<Rightarrow> bool" where
  "HasCodeHash G a = (\<not> IsEmptyCodeHash G (acCodeHash a))"

definition Vm_SpendableCoin :: "('k, 'm, 'acc) VmKeeper \<Rightarrow> 'k \<Rightarrow> addr \<Rightarrow> int option res" where
  "Vm_SpendableCoin V b addr = tryE (W_SpendableCoin V b addr (eciDenom (vkCoin V))) (\<lambda>coin.
     Inr (case Uint256FromBigInt (Amount coin) of Inl _ \<Rightarrow> None | Inr r \<Rightarrow> Some r))"

definition Vm_GetBalance :: "('k, 'm, 'acc) VmKeeper \<Rightarrow> 'k \<Rightarrow> addr \<Rightarrow> int option res" where
  "Vm_GetBalance V b addr = tryE (W_GetBalance V b addr (eciDenom (vkCoin V))) (\<lambda>coin.
     Inr (case Uint256FromBigInt (Amount coin) of Inl _ \<Rightarrow> None | Inr r \<Rightarrow> Some r))"

definition lockedCoin :: "('k, 'm, 'acc) VmKeeper \<Rightarrow> 'k \<Rightarrow> addr \<Rightarrow> int res" where
  "lockedCoin V b addr = tryE (Evm_LockedCoins (vkSdk V) (vkBank V) b addr) (\<lambda>lockedCoins.
     Coins_AmountOf (vkSdk V) lockedCoins (eciDenom (vkCoin V)))"

definition GetCodeHash :: "('k, 'm, 'acc) VmKeeper \<Rightarrow> vm_state \<Rightarrow> addr \<Rightarrow> string" where
  "GetCodeHash V v addr =
     (if vmCodeHash v addr = [] then BytesToHash (vkGeth V) (EmptyCodeHash (vkGeth V)) else BytesToHash (vkGeth V) (vmCodeHash v addr))"

definition GetCode :: "vm_state \<Rightarrow> string \<Rightarrow> string" where
  "GetCode v codeHash = vmCode v codeHash"

definition IsContract :: "('k, 'm, 'acc) VmKeeper \<Rightarrow> vm_state \<Rightarrow> addr \<Rightarrow> bool" where
  "IsContract V v addr =
     (let code = GetCode v (GetCodeHash V v addr) in 0 < length code \<and> \<not> ParseDelegation (vkGeth V) code)"

definition Vm_GetAccount :: "('k, 'm, 'acc) VmKeeper \<Rightarrow> ('s, 'k, 'm) vctx \<Rightarrow> addr \<Rightarrow> vm_account option res" where
  "Vm_GetAccount V c addr =
     (case ak_GetAccount (vkAccounts V) (accounts c) addr of None \<Rightarrow> Inr None
      | Some acct \<Rightarrow>
          tryE (Vm_SpendableCoin V (coinsOf c) addr) (\<lambda>balance.
          tryE (lockedCoin V (coinsOf c) addr) (\<lambda>locked.
          Inr (Some \<lparr>acNonce = acc_GetSequence (vkAccounts V) acct, acBalance = balance,
            acCodeHash = GetCodeHash V (vmOf c) addr, lockedBalance = Some locked\<rparr>))))"

definition GetNonce :: "('k, 'm, 'acc) VmKeeper \<Rightarrow> ('s, 'k, 'm) vctx \<Rightarrow> addr \<Rightarrow> u64" where
  "GetNonce V c addr = (case ak_GetAccount (vkAccounts V) (accounts c) addr of None \<Rightarrow> 0 | Some acct \<Rightarrow> acc_GetSequence (vkAccounts V) acct)"

definition SetBalanceWithLocked :: "('k, 'm, 'acc) VmKeeper \<Rightarrow> addr \<Rightarrow> int option \<Rightarrow> int \<Rightarrow> ('s, 'k, 'm) vctx \<Rightarrow> ('s, 'k, 'm) vctx res" where
  "SetBalanceWithLocked V addr amount locked c =
     (case amount of None \<Rightarrow> Inr c
      | Some a \<Rightarrow>
          if notNilAnd (ak_GetAccount (vkAccounts V) (accounts c) addr) (acc_IsModule (vkAccounts V))
          then Inl (SdkErr ''unauthorized: not allowed to receive funds'')
          else let target = a + locked in
          tryE (W_GetBalance V (coinsOf c) addr (eciDenom (vkCoin V))) (\<lambda>current.
          let delta = target - Amount current in
          if 0 < delta then onBank (MintAmountToAccount V addr delta) c
          else if delta < 0 then onBank (BurnAmountFromAccount V addr (- delta)) c
          else Inr c))"

definition SetBalance :: "('k, 'm, 'acc) VmKeeper \<Rightarrow> addr \<Rightarrow> int option \<Rightarrow> ('s, 'k, 'm) vctx \<Rightarrow> ('s, 'k, 'm) vctx res" where
  "SetBalance V addr amount c = tryE (lockedCoin V (coinsOf c) addr) (\<lambda>locked. SetBalanceWithLocked V addr amount locked c)"

definition SetAccountBalance :: "('k, 'm, 'acc) VmKeeper \<Rightarrow> addr \<Rightarrow> vm_account \<Rightarrow> ('s, 'k, 'm) vctx \<Rightarrow> ('s, 'k, 'm) vctx res" where
  "SetAccountBalance V addr account c =
     (case lockedBalance account of None \<Rightarrow> SetBalance V addr (acBalance account) c
      | Some locked \<Rightarrow> SetBalanceWithLocked V addr (acBalance account) locked c)"

definition DeleteCodeHash :: "addr \<Rightarrow> vm_state \<Rightarrow> vm_state" where
  "DeleteCodeHash addr v = v\<lparr>vmCodeHash := (vmCodeHash v)(addr := [])\<rparr>"

definition SetCodeHash :: "addr \<Rightarrow> string \<Rightarrow> vm_state \<Rightarrow> vm_state" where
  "SetCodeHash addr hash v = v\<lparr>vmCodeHash := (vmCodeHash v)(addr := hash)\<rparr>"

definition SetCode :: "string \<Rightarrow> string \<Rightarrow> vm_state \<Rightarrow> vm_state" where
  "SetCode codeHash code v = v\<lparr>vmCode := (vmCode v)(codeHash := code)\<rparr>"

definition DeleteCode :: "string \<Rightarrow> vm_state \<Rightarrow> vm_state" where
  "DeleteCode codeHash v = v\<lparr>vmCode := (vmCode v)(codeHash := [])\<rparr>"

definition SetState :: "addr \<Rightarrow> string \<Rightarrow> string \<Rightarrow> vm_state \<Rightarrow> vm_state" where
  "SetState addr key val v = v\<lparr>vmStorage := (vmStorage v)(addr := AList.update key val (vmStorage v addr))\<rparr>"

definition DeleteState :: "addr \<Rightarrow> string \<Rightarrow> vm_state \<Rightarrow> vm_state" where
  "DeleteState addr key v = v\<lparr>vmStorage := (vmStorage v)(addr := AList.delete key (vmStorage v addr))\<rparr>"

text \<open>The callback returns false to stop; a list is walked in the order of the store.\<close>

fun storage_loop :: "(string \<Rightarrow> string \<Rightarrow> 'c \<Rightarrow> bool \<times> 'c) \<Rightarrow> (string \<times> string) list \<Rightarrow> 'c \<Rightarrow> 'c" where
  "storage_loop cb [] s = s"
| "storage_loop cb ((key, val) # rest) s = (case cb key val s of (go_on, s') \<Rightarrow> if \<not> go_on then s' else storage_loop cb rest s')"

definition ForEachStorage :: "geth \<Rightarrow> vm_state \<Rightarrow> addr \<Rightarrow> (string \<Rightarrow> string \<Rightarrow> 'c \<Rightarrow> bool \<times> 'c) \<Rightarrow> 'c \<Rightarrow> 'c" where
  "ForEachStorage G v addr cb = storage_loop (\<lambda>key val. cb (BytesToHash G key) (BytesToHash G val)) (vmStorage v addr)"

definition Vm_SetAccount :: "('k, 'm, 'acc) VmKeeper \<Rightarrow> addr \<Rightarrow> vm_account \<Rightarrow> ('s, 'k, 'm) vctx \<Rightarrow> ('s, 'k, 'm) vctx res" where
  "Vm_SetAccount V addr account c =
     (let A = vkAccounts V;
          (acct, c1) = (case ak_GetAccount A (accounts c) addr of Some acct \<Rightarrow> (acct, c)
            | None \<Rightarrow> (case ak_NewAccountWithAddress A (accounts c) addr of (acct, m) \<Rightarrow> (acct, setAccounts m c))) in
      tryE (acc_SetSequence A acct (acNonce account)) (\<lambda>acct1.
      let c2 = setVm (if IsEmptyCodeHash (vkGeth V) (acCodeHash account) then DeleteCodeHash addr (vmOf c1)
                      else SetCodeHash addr (acCodeHash account) (vmOf c1)) c1 in
      SetAccountBalance V addr account (setAccounts (ak_SetAccount A (accounts c2) acct1) c2)))"

definition DeleteAccount :: "('k, 'm, 'acc) VmKeeper \<Rightarrow> addr \<Rightarrow> ('s, 'k, 'm) vctx \<Rightarrow> ('s, 'k, 'm) vctx res" where
  "DeleteAccount V addr c =
     (let A = vkAccounts V in
      case ak_GetAccount A (accounts c) addr of None \<Rightarrow> Inr c
      | Some acct \<Rightarrow>
          if \<not> IsContract V (vmOf c) addr then Inl (Errorf ''only smart contracts can be self-destructed'')
          else tryE (SetBalanceWithLocked V addr (Some 0) 0 (setAccounts (ak_SetAccount A (accounts c) (acc_ToBase A acct)) c)) (\<lambda>c1.
          let keys = ForEachStorage (vkGeth V) (vmOf c1) addr (\<lambda>key _ keys. (True, keys @ [key])) [];
              c2 = setVm (DeleteCodeHash addr (fold (DeleteState addr) keys (vmOf c1))) c1 in
          Inr (setAccounts (ak_RemoveAccount A (accounts c2) acct) c2)))"

subsection \<open>Transient numbers\<close>

definition ResetTransientGasUsed :: "vm_state \<Rightarrow> vm_state" where "ResetTransientGasUsed v = v\<lparr>vmGasUsed := 0\<rparr>"
definition GetTransientGasUsed :: "vm_state \<Rightarrow> u64" where "GetTransientGasUsed v = vmGasUsed v"
definition SetTransientGasUsed :: "u64 \<Rightarrow> vm_state \<Rightarrow> vm_state" where "SetTransientGasUsed g v = v\<lparr>vmGasUsed := g\<rparr>"
definition GetTxIndexTransient :: "vm_state \<Rightarrow> u64" where "GetTxIndexTransient v = vmTxIndex v"
definition SetTxIndexTransient :: "u64 \<Rightarrow> vm_state \<Rightarrow> vm_state" where "SetTxIndexTransient i v = v\<lparr>vmTxIndex := i\<rparr>"
definition GetLogSizeTransient :: "vm_state \<Rightarrow> u64" where "GetLogSizeTransient v = vmLogSize v"
definition SetLogSizeTransient :: "u64 \<Rightarrow> vm_state \<Rightarrow> vm_state" where "SetLogSizeTransient n v = v\<lparr>vmLogSize := n\<rparr>"

definition AddTransientGasUsed :: "u64 \<Rightarrow> vm_state \<Rightarrow> (u64 \<times> vm_state) res" where
  "AddTransientGasUsed gasUsed v =
     (let result = GetTransientGasUsed v + gasUsed in
      if result < gasUsed then Inl (SdkErr ''gas overflow: transient gas used'') else Inr (result, SetTransientGasUsed result v))"

subsection \<open>Fees\<close>

definition CheckSenderBalance :: "geth \<Rightarrow> int \<Rightarrow> eth_tx \<Rightarrow> unit res" where
  "CheckSenderBalance G balance t =
     (let cost = Cost G t in
      if cost < 0 then Inl (SdkErr ''invalid coins: tx cost is negative'')
      else if balance < 0 \<or> balance < cost then Inl (SdkErr ''insufficient funds: sender balance < tx cost'')
      else Inr ())"

definition DeductTxCostsFromUserBalance :: "('k, 'm, 'acc) VmKeeper \<Rightarrow> coins \<Rightarrow> addr \<Rightarrow> ('s, 'k, 'm) vctx \<Rightarrow> ('s, 'k, 'm) vctx res" where
  "DeductTxCostsFromUserBalance V fees from c =
     (case ak_GetAccount (vkAccounts V) (accounts c) from of
        None \<Rightarrow> Inl (SdkErr ''unknown address: account not found for sender'')
      | Some signerAcc \<Rightarrow>
          onBank (vkDeductFees V (W_SendCoinsFromAccountToModule V) (acc_GetAddress (vkAccounts V) signerAcc) fees) c)"

definition VerifyFee :: "geth \<Rightarrow> eth_tx \<Rightarrow> denom \<Rightarrow> int option \<Rightarrow> bool \<Rightarrow> bool \<Rightarrow> bool \<Rightarrow> bool \<Rightarrow> coins res" where
  "VerifyFee G t denom baseFee homestead istanbul shanghai isCheckTx =
     (let isContractCreation = (TxTo t = None); gasLimit = TxGas t in
      tryE (IntrinsicGas G (TxData t) (AccessList t) (SetCodeAuthorizations t) isContractCreation homestead istanbul shanghai) (\<lambda>intrinsicGas.
      if isCheckTx \<and> gasLimit < intrinsicGas then Inl (SdkErr ''out of gas: gas limit too low'')
      else if notNilAnd baseFee (\<lambda>b. GasFeeCap t < b) then Inl (SdkErr ''insufficient fee: the tx gasfeecap is lower than the tx baseFee'')
      else tryE (deref baseFee) (\<lambda>b.
      let price = EffectiveGasTip G t baseFee + b; feeAmt = uint (TxGas t) * price in
      if feeAmt = 0 then Inr [] else tryE (chk256 feeAmt) (\<lambda>a. Inr [mk_coin denom a]))))"

definition GetEthMsgFee :: "geth \<Rightarrow> eth_tx \<Rightarrow> int" where
  "GetEthMsgFee G t = uint (TxGas t) * GasPrice G t"

definition GetEffectiveFee :: "geth \<Rightarrow> eth_tx \<Rightarrow> int \<Rightarrow> int" where
  "GetEffectiveFee G t baseFee = uint (TxGas t) * (EffectiveGasTip G t (Some baseFee) + baseFee)"

record core_message =
  cmNonce :: u64
  cmGasLimit :: u64
  cmGasPrice :: int
  cmGasFeeCap :: int
  cmGasTipCap :: int
  cmTo :: "addr option"
  cmValue :: int
  cmData :: string
  cmAccessList :: "string list"
  cmSetCodeAuthorizations :: "string list"
  cmFrom :: addr

definition AsMessage :: "geth \<Rightarrow> addr \<Rightarrow> eth_tx \<Rightarrow> int option \<Rightarrow> core_message" where
  "AsMessage G sender t baseFee =
     \<lparr>cmNonce = TxNonce t, cmGasLimit = TxGas t,
      cmGasPrice = (case baseFee of None \<Rightarrow> GasPrice G t
        | Some b \<Rightarrow> if GasFeeCap t < GasTipCap t + b then GasFeeCap t else GasTipCap t + b),
      cmGasFeeCap = GasFeeCap t, cmGasTipCap = GasTipCap t, cmTo = TxTo t, cmValue = TxValue t, cmData = TxData t,
      cmAccessList = AccessList t, cmSetCodeAuthorizations = SetCodeAuthorizations t, cmFrom = sender\<rparr>"

definition RefundGas :: "('k, 'm, 'acc) VmKeeper \<Rightarrow> core_message \<Rightarrow> u64 \<Rightarrow> denom \<Rightarrow> ('s, 'k, 'm) vctx \<Rightarrow> ('s, 'k, 'm) vctx res" where
  "RefundGas V msg leftoverGas denom c =
     (let remaining = uint leftoverGas * cmGasPrice msg in
      if remaining < 0 then Inl (SdkErr ''invalid gas refund amount'')
      else if 0 < remaining then
        tryE (chk256 remaining) (\<lambda>r.
        tryE (NewCoin (vkSdk V) denom r) (\<lambda>coin.
        onBank (W_SendCoinsFromModuleToAccount V feeCollector (cmFrom msg) [coin]) c))
      else Inr c)"

definition GasToRefund :: "u64 \<Rightarrow> u64 \<Rightarrow> u64 \<Rightarrow> u64 res" where
  "GasToRefund availableRefund gasConsumed refundQuotient =
     (if refundQuotient = 0 then Inl (GoPanic ''division by zero'')
      else let refund = gasConsumed div refundQuotient in Inr (if availableRefund < refund then availableRefund else refund))"

text \<open>The base fee in 18 decimals as the ante handler and the RPC see it: nil when it is off or zero.\<close>

definition Vm_GetBaseFee :: "'x fee_sdk_scheme \<Rightarrow> EvmCoinInfo \<Rightarrow> (int \<Rightarrow> bool) \<Rightarrow> int \<Rightarrow> fm_params \<Rightarrow> int option res" where
  "Vm_GetBaseFee K evmCoin isLondon height p =
     (if \<not> isLondon height then Inr None
      else if NoBaseFee p then Inr None
      else tryE (deref (BaseFee p)) (\<lambda>baseFee.
      if baseFee = 0 then Inr None
      else tryE (ConvertAmountTo18DecimalsLegacy K evmCoin baseFee) (\<lambda>x. Inr (Some (Dec_TruncateInt K x)))))"

definition GetTxPriority :: "'x fee_sdk_scheme \<Rightarrow> geth \<Rightarrow> eth_tx \<Rightarrow> int option \<Rightarrow> int res" where
  "GetTxPriority K G t baseFee = tryE (QuoRaw (EffectiveGasTip G t baseFee) (DefaultPowerReduction K)) (\<lambda>p. Inr (clampInt64 p))"

section \<open>Environment\<close>

text \<open>The bank of x/evmutil, the SDK, the accounts and go-ethereum obey their laws; the coin of the EVM has the
  denominations of that bank. \<open>Coins.Sort\<close> permutes, \<open>DeductFees\<close> pays the fee collector, and what is
  spendable is part of the balance.\<close>

locale vm_env = evm_env "vkSdk V" "vkBank V" wfb + fee_sdk_laws "vkSdk V" + account_laws "vkAccounts V" + geth_laws "vkGeth V"
  for V :: "('k, 'm, 'acc) VmKeeper" and wfb :: "'k \<Rightarrow> bool" +
  assumes coin_denoms: "eciDenom (vkCoin V) = eb_cosmosDenom (vkBank V)" "eciExtendedDenom (vkCoin V) = eb_evmDenom (vkBank V)"
    and Sort_mset: "mset (vkCoinsSort V cs) = mset cs"
    and DeductFees_Inr: "vkDeductFees V send x fees e = Inr e' \<Longrightarrow> send x feeCollector fees e = Inr e'"
    and Spendable_denom: "Denom (SpendableCoin (eb_bank (vkBank V)) b x d) = d"
    and Spendable_le: "wfb b \<Longrightarrow> 0 \<le> Amount (SpendableCoin (eb_bank (vkBank V)) b x d) \<and>
      Amount (SpendableCoin (eb_bank (vkBank V)) b x d) \<le> bal (eb_bank (vkBank V)) b x d"

lemma onBank_Inr [simp]: "onBank f c = Inr c' \<longleftrightarrow> (\<exists>e. f \<lparr>ebank = sdkBank (bank c), eevents = Some (events c)\<rparr> = Inr e \<and>
    c' = c\<lparr>bank := (bank c)\<lparr>sdkBank := ebank e\<rparr>, events := (case eevents e of None \<Rightarrow> events c | Some es \<Rightarrow> es)\<rparr>)"
  by (auto simp: onBank_def)

abbreviation evmL :: "('k, 'm, 'acc) VmKeeper \<Rightarrow> ('s, 'k, 'm) vctx \<Rightarrow> evm_ledger" where
  "evmL V c \<equiv> evm_abs (vkBank V) (coinsOf c)"

abbreviation moduleOf :: "('k, 'm, 'acc) VmKeeper \<Rightarrow> string \<Rightarrow> addr" where
  "moduleOf V m \<equiv> NewModuleAddress (vkSdk V) m"

text \<open>Integers that are multiples of a unit, and a target between them.\<close>

lemma div_target_up: "CM dvd cur \<Longrightarrow> cur + CM * ((t - cur) div CM) = CM * (t div CM)" for t cur :: int
proof (elim dvdE)
  fix q assume "cur = CM * q"
  moreover have "(t + CM * (- q)) div CM = - q + t div CM" by (rule div_mult_self2) simp
  ultimately show ?thesis by (simp add: algebra_simps)
qed

text \<open>What a burn leaves behind: paid in rounded up, burnt rounded down.\<close>

lemma dust_eq: "CM * (- ((- v) div CM)) - CM * (v div CM) = (if CM dvd v then 0 else CM)" for v :: int
  by (auto simp: zdiv_zminus1_eq_if dvd_eq_mod_eq_0 algebra_simps)

context vm_env
begin

lemma W_view:
  assumes "wfb b" and "Denom x = eb_cosmosDenom (vkBank V)" and "0 \<le> Amount x"
    and "orZero (vkSdk V) (eb_evmDenom (vkBank V)) (ConvertCosmosCoinToEvmCoin (vkSdk V) x) = Inr coin"
  shows "Amount coin = CM * Amount x"
  using assms NewCoin_evm [of "Amount x * CM"]
  by (auto simp: orZero_def ConvertCosmosCoinToEvmCoin_def denoms ConversionMultiplier_def chk256_def split: if_splits)

lemma W_GetBalance_Inr:
  assumes "wfb b" and "W_GetBalance V b x d = Inr coin"
  shows "Amount coin = fst (evm_abs (vkBank V) b) x"
  using assms W_view [OF assms(1), of "GetBalance (eb_bank (vkBank V)) b x (eb_cosmosDenom (vkBank V))" coin] bal_nonneg [OF assms(1)]
  by (simp add: W_GetBalance_def Evm_GetBalance_def coin_denoms GetBalance_denom evm_abs_def split: if_splits)

lemma W_SpendableCoin_Inr:
  assumes "wfb b" and "W_SpendableCoin V b x d = Inr coin"
  shows "0 \<le> Amount coin" and "Amount coin \<le> fst (evm_abs (vkBank V) b) x" and "CM dvd Amount coin"
proof -
  let ?s = "SpendableCoin (eb_bank (vkBank V)) b x (eb_cosmosDenom (vkBank V))"
  have "Amount coin = CM * Amount ?s"
    using assms W_view [OF assms(1), of ?s coin] Spendable_le [OF assms(1)]
    by (simp add: W_SpendableCoin_def Evm_SpendableCoin_def coin_denoms Spendable_denom split: if_splits)
  with Spendable_le [OF assms(1), of x "eb_cosmosDenom (vkBank V)"]
  show "0 \<le> Amount coin" "Amount coin \<le> fst (evm_abs (vkBank V) b) x" "CM dvd Amount coin" by (auto simp: evm_abs_def)
qed

lemma Mint_Inr:
  assumes "wfb (ebank e)" and "MintAmountToAccount V x v e = Inr e'" and "0 \<le> v"
  shows "wfb (ebank e') \<and> others_same (vkBank V) (ebank e) (ebank e') \<and>
    evm_abs (vkBank V) (ebank e') = a_send (moduleOf V evmModule) x (CM * (v div CM)) (a_mint (moduleOf V evmModule) (CM * (v div CM)) (evm_abs (vkBank V) (ebank e)))"
proof -
  let ?cs = "[mk_coin (eb_evmDenom (vkBank V)) v]"
  from assms(2) obtain e1 where 1: "Evm_MintCoins (vkSdk V) (vkBank V) e evmModule ?cs = Inr e1"
    "Evm_SendCoinsFromModuleToAccount (vkSdk V) (vkBank V) e1 evmModule x ?cs = Inr e'"
    by (auto simp: MintAmountToAccount_def ConvertEvmCoinDenomToExtendedDenom_def coin_denoms chk256_def split: if_splits)
  note 2 = Evm_MintCoins_Inr [OF assms(1) 1(1)]
  note 3 = Evm_ModuleToAccount_Inr [OF _ 1(2)]
  have f: "floors (vkBank V) ?cs = v div CM" by (simp add: floors_def)
  from 2 3 f show ?thesis by (auto simp: others_same_def)
qed

lemma Burn_Inr:
  assumes "wfb (ebank e)" and "BurnAmountFromAccount V x v e = Inr e'" and "0 \<le> v"
  shows "wfb (ebank e') \<and> others_same (vkBank V) (ebank e) (ebank e') \<and>
    evm_abs (vkBank V) (ebank e') = a_mint (moduleOf V evmModule) (- (CM * (v div CM)))
      (a_send x (moduleOf V evmModule) (CM * (- ((- v) div CM))) (evm_abs (vkBank V) (ebank e)))"
proof -
  let ?cs = "[mk_coin (eb_evmDenom (vkBank V)) v]"
  from assms(2) obtain e1 where 1: "Evm_SendCoinsFromAccountToModule (vkSdk V) (vkBank V) e x evmModule ?cs = Inr e1"
    "Evm_BurnCoins (vkSdk V) (vkBank V) e1 evmModule ?cs = Inr e'"
    by (auto simp: BurnAmountFromAccount_def ConvertEvmCoinDenomToExtendedDenom_def coin_denoms chk256_def split: if_splits)
  note 2 = Evm_AccountToModule_Inr [OF assms(1) 1(1)]
  note 3 = Evm_BurnCoins_Inr [OF _ 1(2)]
  have f: "floors (vkBank V) ?cs = v div CM" "ceils (vkBank V) ?cs = - ((- v) div CM)" by (simp_all add: floors_def ceils_def)
  from 2 3 f show ?thesis by (auto simp: others_same_def)
qed

lemma evm_abs_dvd: "CM dvd fst (evm_abs k b) x" "CM dvd snd (evm_abs k b)"
  by (simp_all add: evm_abs_def)

lemma SetBalance_Inr:
  fixes x t c
  defines "dust \<equiv> (if t < fst (evmL V c) x \<and> \<not> CM dvd t then CM else 0)"
  assumes "wfb (coinsOf c)" and "SetBalanceWithLocked V x (Some a) locked c = Inr c'" and "x \<noteq> moduleOf V evmModule" and "t = a + locked"
  shows "wfb (coinsOf c')" and "others_same (vkBank V) (coinsOf c) (coinsOf c')"
    and "accounts c' = accounts c" and "vmOf c' = vmOf c" and "fmOf c' = fmOf c" and "store c' = store c"
    and "fst (evmL V c') x = CM * (t div CM)"
    and "fst (evmL V c') (moduleOf V evmModule) = fst (evmL V c) (moduleOf V evmModule) + dust"
    and "snd (evmL V c') = snd (evmL V c) + (fst (evmL V c') x - fst (evmL V c) x) + dust"
    and "y \<noteq> x \<Longrightarrow> y \<noteq> moduleOf V evmModule \<Longrightarrow> fst (evmL V c') y = fst (evmL V c) y"
proof -
  let ?e = "\<lparr>ebank = coinsOf c, eevents = Some (events c)\<rparr>" and ?m = "moduleOf V evmModule"
  define cur where "cur = fst (evmL V c) x"
  from assms(3) obtain coin where "W_GetBalance V (coinsOf c) x (eciDenom (vkCoin V)) = Inr coin"
    and step: "(if 0 < t - Amount coin then onBank (MintAmountToAccount V x (t - Amount coin)) c
          else if t - Amount coin < 0 then onBank (BurnAmountFromAccount V x (- (t - Amount coin))) c
          else Inr c) = Inr c'"
    by (auto simp: SetBalanceWithLocked_def Let_def assms(5) split: if_splits)
  then have coin: "Amount coin = cur" using W_GetBalance_Inr [OF assms(2)] by (simp add: cur_def)
  have dvd: "CM dvd cur" by (simp add: cur_def evm_abs_dvd)
  have up: "cur + CM * ((t - cur) div CM) = CM * (t div CM)" by (rule div_target_up [OF dvd])
  have w: "wfb (ebank ?e)" using assms(2) by simp
  consider (mint) e where "cur < t" "MintAmountToAccount V x (t - cur) ?e = Inr e"
      "c' = c\<lparr>bank := (bank c)\<lparr>sdkBank := ebank e\<rparr>, events := (case eevents e of None \<Rightarrow> events c | Some es \<Rightarrow> es)\<rparr>"
    | (burn) e where "t < cur" "BurnAmountFromAccount V x (cur - t) ?e = Inr e"
      "c' = c\<lparr>bank := (bank c)\<lparr>sdkBank := ebank e\<rparr>, events := (case eevents e of None \<Rightarrow> events c | Some es \<Rightarrow> es)\<rparr>"
    | (same) "t = cur" "c' = c"
    using step coin by (auto split: if_splits)
  then have "wfb (coinsOf c') \<and> others_same (vkBank V) (coinsOf c) (coinsOf c') \<and> accounts c' = accounts c \<and> vmOf c' = vmOf c \<and>
    fmOf c' = fmOf c \<and> store c' = store c \<and> fst (evmL V c') x = CM * (t div CM) \<and> fst (evmL V c') ?m = fst (evmL V c) ?m + dust \<and>
    snd (evmL V c') = snd (evmL V c) + (fst (evmL V c') x - cur) + dust \<and> (\<forall>y. y \<noteq> x \<longrightarrow> y \<noteq> ?m \<longrightarrow> fst (evmL V c') y = fst (evmL V c) y)"
  proof cases
    case mint
    note M = Mint_Inr [OF w mint(2)]
    have "dust = 0" using mint(1) by (simp add: dust_def cur_def)
    with M mint(1,3) up assms(4) show ?thesis by (auto simp: a_send_def a_mint_def cur_def)
  next
    case burn
    note B = Burn_Inr [OF w burn(2)]
    have "CM dvd cur - t \<longleftrightarrow> CM dvd t" using dvd by (metis dvd_diff_commute dvd_diff_left_iff)
    then have "dust = (if CM dvd cur - t then 0 else CM)" using burn(1) by (simp add: dust_def cur_def)
    with dust_eq [of "cur - t"] have d: "CM * (- ((- (cur - t)) div CM)) = CM * ((cur - t) div CM) + dust" by linarith
    have "cur - CM * (- ((- (cur - t)) div CM)) = CM * (t div CM)" using up by simp
    with B burn(1,3) d assms(4) show ?thesis by (simp add: a_send_def a_mint_def cur_def)
  next
    case same
    with dvd assms(2) show ?thesis by (simp add: dust_def cur_def others_same_def)
  qed
  then show "wfb (coinsOf c')" "others_same (vkBank V) (coinsOf c) (coinsOf c')" "accounts c' = accounts c" "vmOf c' = vmOf c"
    "fmOf c' = fmOf c" "store c' = store c" "fst (evmL V c') x = CM * (t div CM)" "fst (evmL V c') ?m = fst (evmL V c) ?m + dust"
    "snd (evmL V c') = snd (evmL V c) + (fst (evmL V c') x - fst (evmL V c) x) + dust"
    "y \<noteq> x \<Longrightarrow> y \<noteq> ?m \<Longrightarrow> fst (evmL V c') y = fst (evmL V c) y"
    by (simp_all add: cur_def)
qed

end

text \<open>Writing a whole account.\<close>

context vm_env
begin

lemma SetAccount_Inr:
  assumes "Vm_SetAccount V x account c = Inr c'" and "acBalance account = Some a" and "lockedBalance account = Some l"
    and "wfb (coinsOf c)" and "x \<noteq> moduleOf V evmModule"
  obtains acct c1 where "acc_GetAddress (vkAccounts V) acct = x" and "acc_GetSequence (vkAccounts V) acct = acNonce account"
    and "\<And>y. ak_GetAccount (vkAccounts V) (accounts c1) y = (if y = x then Some acct else ak_GetAccount (vkAccounts V) (accounts c) y)"
    and "vmOf c1 = (if IsEmptyCodeHash (vkGeth V) (acCodeHash account) then DeleteCodeHash x (vmOf c) else SetCodeHash x (acCodeHash account) (vmOf c))"
    and "coinsOf c1 = coinsOf c" and "store c1 = store c" and "SetBalanceWithLocked V x (Some a) l c1 = Inr c'"
proof (cases "ak_GetAccount (vkAccounts V) (accounts c) x")
  case (Some acct)
  with assms(1-3) obtain acct1 where r: "acc_SetSequence (vkAccounts V) acct (acNonce account) = Inr acct1"
    "SetBalanceWithLocked V x (Some a) l (setAccounts (ak_SetAccount (vkAccounts V) (accounts c) acct1)
       (setVm (if IsEmptyCodeHash (vkGeth V) (acCodeHash account) then DeleteCodeHash x (vmOf c)
               else SetCodeHash x (acCodeHash account) (vmOf c)) c)) = Inr c'"
    by (auto simp: Vm_SetAccount_def SetAccountBalance_def Let_def)
  from SetSequence_Inr [OF r(1)] Get_address [OF Some]
  show thesis using that [OF _ _ _ _ _ _ r(2)] by (auto simp: Get_Set)
next
  case None
  obtain acct m where new: "ak_NewAccountWithAddress (vkAccounts V) (accounts c) x = (acct, m)" by fastforce
  with None assms(1-3) obtain acct1 where r: "acc_SetSequence (vkAccounts V) acct (acNonce account) = Inr acct1"
    "SetBalanceWithLocked V x (Some a) l (setAccounts (ak_SetAccount (vkAccounts V) m acct1)
       (setVm (if IsEmptyCodeHash (vkGeth V) (acCodeHash account) then DeleteCodeHash x (vmOf c)
               else SetCodeHash x (acCodeHash account) (vmOf c)) (setAccounts m c))) = Inr c'"
    by (auto simp: Vm_SetAccount_def SetAccountBalance_def Let_def cong: if_cong)
  from SetSequence_Inr [OF r(1)] New_account [OF new]
  show thesis using that [OF _ _ _ _ _ _ r(2)] by (auto simp: Get_Set)
qed

end

section \<open>A concrete keeper\<close>

text \<open>Accounts as a map from addresses to a sequence and a module flag; a go-ethereum that charges 21000 gas
  for every transaction.\<close>

type_synonym ref_acc = "addr \<times> u64 \<times> bool"

definition ref_accounts :: "(addr \<Rightarrow> (u64 \<times> bool) option, ref_acc) AccountKeeper" where
  "ref_accounts = \<lparr>ak_GetAccount = (\<lambda>m x. case m x of None \<Rightarrow> None | Some (s, b) \<Rightarrow> Some (x, s, b)),
     ak_SetAccount = (\<lambda>m (x, s, b). m(x \<mapsto> (s, b))), ak_NewAccountWithAddress = (\<lambda>m x. ((x, 0, False), m)),
     ak_RemoveAccount = (\<lambda>m (x, s, b). m(x := None)), acc_GetAddress = fst, acc_GetSequence = (\<lambda>(x, s, b). s),
     acc_SetSequence = (\<lambda>(x, s, b) n. Inr (x, n, b)), acc_IsModule = (\<lambda>(x, s, b). b), acc_ToBase = (\<lambda>(x, s, b). (x, s, False))\<rparr>"

definition ref_geth :: geth where
  "ref_geth = \<lparr>GasPrice = GasFeeCap, Cost = (\<lambda>t. uint (TxGas t) * GasFeeCap t + TxValue t),
     EffectiveGasTip = (\<lambda>t b. case b of None \<Rightarrow> GasTipCap t | Some b \<Rightarrow> min (GasTipCap t) (GasFeeCap t - b)),
     IntrinsicGas = (\<lambda>_ _ _ _ _ _ _. Inr 21000),
     ValidateTransaction = (\<lambda>_ _ t. failIf (\<not> (TxType t \<noteq> BlobTxType \<and> 0 \<le> TxValue t \<and> 0 \<le> GasTipCap t \<and> GasTipCap t \<le> GasFeeCap t))
       (Errorf ''invalid'')),
     ParseDelegation = (\<lambda>_. False), chainRules = (\<lambda>_. \<lparr>IsHomestead = True, IsIstanbul = True, IsLondon = True, IsShanghai = True\<rparr>),
     BytesToHash = (\<lambda>b. if b = [] then ''0'' else b), EmptyCodeHash = ''empty''\<rparr>"

definition ref_vm :: "(ledger, addr \<Rightarrow> (u64 \<times> bool) option, ref_acc) VmKeeper" where
  "ref_vm = \<lparr>vkSdk = ref_fee, vkBank = ref_eb, vkAccounts = ref_accounts, vkCoin = stoc_coin, vkGeth = ref_geth,
     vkDeductFees = (\<lambda>send x fees e. send x feeCollector fees e), vkCoinsSort = (\<lambda>cs. cs), vkCoinsString = (\<lambda>cs. [])\<rparr>"

interpretation refvm: vm_env ref_vm ledger_ok
proof (intro vm_env.intro evm_env.intro)
  show "sdk_laws (vkSdk ref_vm)" by (simp add: ref_vm_def reffee.sdk_laws_axioms)
  show "fee_sdk_laws (vkSdk ref_vm)" by (simp add: ref_vm_def reffee.fee_sdk_laws_axioms)
  have m: "NewModuleAddress ref_fee = NewModuleAddress ref_sdk" by (simp add: ref_fee_def ref_sdk_def sdk.defs)
  have "bank_laws ref_fee (eb_bank ref_eb) ledger_ok"
    unfolding bank_laws_def m by (rule refevm.bank_laws_axioms [unfolded bank_laws_def])
  then show "bank_laws (vkSdk ref_vm) (eb_bank (vkBank ref_vm)) ledger_ok" by (simp add: ref_vm_def)
  have k: "NewEvmBankKeeper ref_fee = NewEvmBankKeeper ref_sdk" "ValidateDenom ref_fee = ValidateDenom ref_sdk"
    by (simp_all add: fun_eq_iff NewEvmBankKeeper_def SafeGetEvmDenom_def GetCosmosDenom_def ref_fee_def ref_sdk_def sdk.defs)
  show "evm_env_axioms (vkSdk ref_vm) (vkBank ref_vm)"
    using refevm.evm_env_axioms by (simp add: ref_vm_def evm_env_def evm_env_axioms_def k m)
  show "account_laws (vkAccounts ref_vm)"
    by unfold_locales (auto simp: ref_vm_def ref_accounts_def split: option.splits if_splits)
  show "geth_laws (vkGeth ref_vm)" by unfold_locales (auto simp: ref_vm_def ref_geth_def)
  show "vm_env_axioms ref_vm ledger_ok"
    by unfold_locales (auto simp: ref_vm_def stoc_coin_def ref_eb_def ref_full_def ref_bank_def BankKeeper.defs FullBankKeeper.defs ledger_ok_def)
qed

definition vm_demo :: "(unit, ledger, addr \<Rightarrow> (u64 \<times> bool) option) vctx" where
  "vm_demo = \<lparr>store = (), bank = \<lparr>sdkBank = (ebank evm_demo)\<lparr>lgSupply := (\<lambda>d. if d = ''ustoc'' then 5 else 0)\<rparr>, sdkAccounts = (\<lambda>x. if x = ''alice'' then Some (7, False) else None),
     sdkVm = \<lparr>vmCodeHash = (\<lambda>_. []), vmCode = (\<lambda>_. []), vmStorage = (\<lambda>_. []), vmTxIndex = 3, vmGasUsed = 0, vmLogSize = 0\<rparr>,
     sdkFm = fm_start\<rparr>, events = []\<rparr>"

lemma vm_demo_wf: "ledger_ok (coinsOf vm_demo)"
  by (simp add: vm_demo_def evm_demo_def ledger_ok_def empty_ledger_def)

lemma Inr_of: "\<not> isl r \<Longrightarrow> \<exists>x. r = Inr x"
  by (cases r) auto

section \<open>Theorems\<close>

text \<open>Writing an account's balance. The EVM hands the keeper the spendable amount it wants and the locked amount
  it saw; after a successful write the account of the bank holds their sum in 18 decimals, rounded down to a
  whole Cosmos unit. The total supply changes by the change of that balance, but for one Cosmos unit that
  goes to the account of the EVM module when the write is a reduction to an amount that is no whole number of
  units. No other balance, no other denomination, no account, no code and no token changes.\<close>

theorem SetBalanceWithLocked_exact:
  assumes "vm_env V wfb" and "wfb (coinsOf c)" and "x \<noteq> moduleOf V evmModule"
    and "SetBalanceWithLocked V x (Some a) locked c = Inr c'"
  shows "let dust = (if a + locked < fst (evmL V c) x \<and> \<not> CM dvd a + locked then CM else 0) in
    fst (evmL V c') x = CM * ((a + locked) div CM) \<and>
    fst (evmL V c') (moduleOf V evmModule) = fst (evmL V c) (moduleOf V evmModule) + dust \<and>
    snd (evmL V c') = snd (evmL V c) + (fst (evmL V c') x - fst (evmL V c) x) + dust \<and>
    (\<forall>y. y \<noteq> x \<and> y \<noteq> moduleOf V evmModule \<longrightarrow> fst (evmL V c') y = fst (evmL V c) y) \<and>
    others_same (vkBank V) (coinsOf c) (coinsOf c') \<and> accounts c' = accounts c \<and> vmOf c' = vmOf c \<and> store c' = store c"
  using vm_env.SetBalance_Inr [OF assms(1,2,4,3) refl] unfolding Let_def by blast

theorem SetBalanceWithLocked_exact_witness:
  "\<exists>c'. SetBalanceWithLocked ref_vm ''alice'' (Some 2500000000000) 0 vm_demo = Inr c' \<and>
     fst (evmL ref_vm c') ''alice'' = 2000000000000 \<and>
     fst (evmL ref_vm c') (moduleOf ref_vm evmModule) = fst (evmL ref_vm vm_demo) (moduleOf ref_vm evmModule) + CM"
proof -
  have "\<not> isl (SetBalanceWithLocked ref_vm ''alice'' (Some 2500000000000) 0 vm_demo)" by code_simp
  then obtain c' where run: "SetBalanceWithLocked ref_vm ''alice'' (Some 2500000000000) 0 vm_demo = Inr c'" using Inr_of by blast
  have m: "''alice'' \<noteq> moduleOf ref_vm evmModule" "fst (evmL ref_vm vm_demo) ''alice'' = 5000000000000" by code_simp+
  from SetBalanceWithLocked_exact [OF refvm.vm_env_axioms vm_demo_wf m(1) run] run show ?thesis
    unfolding Let_def m(2) by simp
qed

text \<open>C9.
  A transfer of the EVM, written back as two balances, creates no coins. When the sender is set to its
  balance less the value and the recipient to its balance plus the value, the supply stays as it was; the
  sender loses the value rounded up to whole Cosmos units, the recipient gets it rounded down, and the unit
  between the two, if any, is in the account of the EVM module.\<close>

theorem evm_transfer_conserves:
  assumes "vm_env V wfb" and "wfb (coinsOf c)" and "from \<noteq> to" and "from \<noteq> moduleOf V evmModule" and "to \<noteq> moduleOf V evmModule"
    and "0 \<le> v" and "a + la = fst (evmL V c) from" and "b + lb = fst (evmL V c) to"
    and "SetBalanceWithLocked V from (Some (a - v)) la c = Inr c1" and "SetBalanceWithLocked V to (Some (b + v)) lb c1 = Inr c2"
  shows "snd (evmL V c2) = snd (evmL V c) \<and>
    fst (evmL V c2) from = fst (evmL V c) from - CM * (- ((- v) div CM)) \<and>
    fst (evmL V c2) to = fst (evmL V c) to + CM * (v div CM) \<and>
    fst (evmL V c2) (moduleOf V evmModule) = fst (evmL V c) (moduleOf V evmModule) + (if CM dvd v then 0 else CM)"
proof -
  let ?m = "moduleOf V evmModule"
  note 1 = vm_env.SetBalance_Inr [OF assms(1,2,9,4) refl]
  note 2 = vm_env.SetBalance_Inr [OF assms(1) 1(1) assms(10,5) refl]
  define f t where "f = fst (evmL V c) from" and "t = fst (evmL V c) to"
  have d: "CM dvd f" "CM dvd t" by (simp_all add: f_def t_def evm_abs_def)
  have s: "a - v + la = f - v" "b + v + lb = t + v" using assms(7,8) by (simp_all add: f_def t_def)
  have to1: "fst (evmL V c1) to = t" using 1(10) [of to] assms(3,5) by (simp add: t_def)
  have F: "CM * ((f - v) div CM) = f - CM * (- ((- v) div CM))" using div_target_up [OF d(1), of "f - v"] by simp
  have T: "CM * ((t + v) div CM) = t + CM * (v div CM)" using div_target_up [OF d(2), of "t + v"] by simp
  have D: "(if f - v < f \<and> \<not> CM dvd f - v then CM else 0) = (if CM dvd v then 0 else CM)"
    using d(1) assms(6) by (auto simp: dvd_diff_right_iff less_le)
  have "\<not> t + v < t" using assms(6) by simp
  with 1 2(7-9) 2(10) [of "from"] s to1 F T D dust_eq [of v] assms(3,4) show ?thesis
    by (simp add: f_def [symmetric] t_def [symmetric])
qed

theorem evm_transfer_conserves_witness:
  "\<exists>c1 c2. SetBalanceWithLocked ref_vm ''alice'' (Some (5000000000000 - 2500000000000)) 0 vm_demo = Inr c1 \<and>
     SetBalanceWithLocked ref_vm ''bob'' (Some (0 + 2500000000000)) 0 c1 = Inr c2 \<and>
     snd (evmL ref_vm c2) = snd (evmL ref_vm vm_demo) \<and> fst (evmL ref_vm c2) ''bob'' = 2000000000000"
proof -
  let ?r = "SetBalanceWithLocked ref_vm ''alice'' (Some (5000000000000 - 2500000000000)) 0 vm_demo"
  have "(case ?r of Inl _ \<Rightarrow> False | Inr c1 \<Rightarrow> \<not> isl (SetBalanceWithLocked ref_vm ''bob'' (Some (0 + 2500000000000)) 0 c1))" by code_simp
  then obtain c1 c2 where r: "?r = Inr c1" "SetBalanceWithLocked ref_vm ''bob'' (Some (0 + 2500000000000)) 0 c1 = Inr c2"
    by (auto split: sum.splits dest: Inr_of)
  have m: "''alice'' \<noteq> ''bob''" "''alice'' \<noteq> moduleOf ref_vm evmModule" "''bob'' \<noteq> moduleOf ref_vm evmModule"
    "(0::int) \<le> 2500000000000" "5000000000000 + 0 = fst (evmL ref_vm vm_demo) ''alice''" "0 + 0 = fst (evmL ref_vm vm_demo) ''bob''"
    by code_simp+
  have b: "fst (evmL ref_vm vm_demo) ''bob'' = 0" using m(6) by simp
  from evm_transfer_conserves [OF refvm.vm_env_axioms vm_demo_wf m r] r b show ?thesis by auto
qed

text \<open>An account that the EVM writes is the account it reads back: the nonce becomes the sequence, a new account
  is made where there was none, the code hash is stored unless it is the empty one, the balance is the
  spendable and the locked amount rounded down to whole Cosmos units, and all other accounts and code hashes
  stay.\<close>

theorem SetAccount_roundtrip:
  assumes "vm_env V wfb" and "wfb (coinsOf c)" and "x \<noteq> moduleOf V evmModule"
    and "acBalance account = Some a" and "lockedBalance account = Some l" and "acCodeHash account \<noteq> []"
    and "Vm_SetAccount V x account c = Inr c'"
  shows "GetNonce V c' x = acNonce account \<and> ak_GetAccount (vkAccounts V) (accounts c') x \<noteq> None \<and>
    GetCodeHash V (vmOf c') x = BytesToHash (vkGeth V) (acCodeHash account) \<and>
    fst (evmL V c') x = CM * ((a + l) div CM) \<and> store c' = store c \<and>
    (\<forall>y. y \<noteq> x \<longrightarrow> ak_GetAccount (vkAccounts V) (accounts c') y = ak_GetAccount (vkAccounts V) (accounts c) y \<and>
       GetCodeHash V (vmOf c') y = GetCodeHash V (vmOf c) y)"
proof -
  obtain acct c1 where r: "acc_GetSequence (vkAccounts V) acct = acNonce account"
    "\<And>y. ak_GetAccount (vkAccounts V) (accounts c1) y = (if y = x then Some acct else ak_GetAccount (vkAccounts V) (accounts c) y)"
    "vmOf c1 = (if IsEmptyCodeHash (vkGeth V) (acCodeHash account) then DeleteCodeHash x (vmOf c) else SetCodeHash x (acCodeHash account) (vmOf c))"
    "coinsOf c1 = coinsOf c" "store c1 = store c" "SetBalanceWithLocked V x (Some a) l c1 = Inr c'"
    using vm_env.SetAccount_Inr [OF assms(1,7,4,5,2,3)] by metis
  have "wfb (coinsOf c1)" using assms(2) r(4) by simp
  note b = vm_env.SetBalance_Inr [OF assms(1) this r(6) assms(3) refl]
  show ?thesis using r(1-5) b(3-7) assms(6)
    by (auto simp: GetNonce_def GetCodeHash_def DeleteCodeHash_def SetCodeHash_def IsEmptyCodeHash_def)
qed

theorem SetAccount_roundtrip_witness:
  "\<exists>c'. Vm_SetAccount ref_vm ''bob'' \<lparr>acNonce = 1, acBalance = Some 3000000000000, acCodeHash = ''code'', lockedBalance = Some 0\<rparr> vm_demo = Inr c' \<and>
     GetNonce ref_vm c' ''bob'' = 1 \<and> GetNonce ref_vm c' ''alice'' = 7"
proof -
  let ?a = "\<lparr>acNonce = 1, acBalance = Some 3000000000000, acCodeHash = ''code'', lockedBalance = Some 0\<rparr>"
  have "\<not> isl (Vm_SetAccount ref_vm ''bob'' ?a vm_demo)" by code_simp
  then obtain c' where run: "Vm_SetAccount ref_vm ''bob'' ?a vm_demo = Inr c'" using Inr_of by blast
  have m: "''bob'' \<noteq> moduleOf ref_vm evmModule" by code_simp
  have n: "GetNonce ref_vm vm_demo ''alice'' = 7" by code_simp
  from SetAccount_roundtrip [OF refvm.vm_env_axioms vm_demo_wf m _ _ _ run] have
    "GetNonce ref_vm c' ''bob'' = 1" "ak_GetAccount (vkAccounts ref_vm) (accounts c') ''alice'' = ak_GetAccount (vkAccounts ref_vm) (accounts vm_demo) ''alice''"
    by simp_all
  with n run show ?thesis by (auto simp: GetNonce_def)
qed

end
