(* ===== verification/Snapshot_Store.thy ===== *)
theory Snapshot_Store
  imports Stoc_Prelude
begin

text \<open>
  The snapshot stores of the fork (\<^verbatim>\<open>x/vm/store\<close>), on which precompiled contracts write:
  \<^verbatim>\<open>snapshotkv/store.go\<close>, a stack of cache layers over one store, and \<^verbatim>\<open>snapshotmulti/store.go\<close>, such a
  stack for every store key of the application.

  A cache layer of the SDK (\<open>cachekv\<close>) shows the contents of the store under it until it is written to, and
  \<open>Write\<close> makes its contents those of the store under it; here a layer is the contents it shows, of any
  type \<open>'v\<close>. The theorem shows that the multi store is one stack whose layers hold the contents of all keys:
  the stacks of the single stores never get out of step.
\<close>

section \<open>A stack of cache layers\<close>

text \<open>\<open>storetypes.CacheKVStore\<close>: its contents and those of the store under it.\<close>

type_synonym 'v cache_kv = "'v \<times> 'v"

record 'v kv_store =
  baseStore :: 'v
  initialStore :: 'v
  cacheStores :: "'v list"

definition kv_NewStore :: "'v cache_kv \<Rightarrow> 'v kv_store" where
  "kv_NewStore st = \<lparr>baseStore = snd st, initialStore = fst st, cacheStores = []\<rparr>"

definition CurrentStore :: "'v kv_store \<Rightarrow> 'v" where
  "CurrentStore cs = (let l = length (cacheStores cs) in if l = 0 then initialStore cs else cacheStores cs ! (l - 1))"

text \<open>\<open>Write\<close> of the layer with the given index, and the loop of \<open>Commit\<close> from the top layer down.\<close>

definition write_layer :: "nat \<Rightarrow> 'v kv_store \<Rightarrow> 'v kv_store" where
  "write_layer i cs = (if i = 0 then cs\<lparr>initialStore := cacheStores cs ! 0\<rparr>
     else cs\<lparr>cacheStores := (cacheStores cs)[i - 1 := cacheStores cs ! i]\<rparr>)"

primrec commit_layers :: "nat \<Rightarrow> 'v kv_store \<Rightarrow> 'v kv_store" where
  "commit_layers 0 cs = cs"
| "commit_layers (Suc i) cs = commit_layers i (write_layer i cs)"

definition kv_Commit :: "'v kv_store \<Rightarrow> 'v kv_store" where
  "kv_Commit cs = (let cs1 = commit_layers (length (cacheStores cs)) cs in cs1\<lparr>baseStore := initialStore cs1, cacheStores := []\<rparr>)"

definition kv_Snapshot :: "'v kv_store \<Rightarrow> int \<times> 'v kv_store" where
  "kv_Snapshot cs = (let cs1 = cs\<lparr>cacheStores := cacheStores cs @ [CurrentStore cs]\<rparr> in (int (length (cacheStores cs1)) - 1, cs1))"

definition kv_RevertToSnapshot :: "int \<Rightarrow> 'v kv_store \<Rightarrow> 'v kv_store res" where
  "kv_RevertToSnapshot target cs =
     (if target < 0 \<or> int (length (cacheStores cs)) \<le> target then Inl (GoPanic ''snapshot index out of bound'')
      else Inr (cs\<lparr>cacheStores := take (nat target) (cacheStores cs)\<rparr>))"

text \<open>Writing through the store that \<open>CurrentStore\<close> returns.\<close>

definition setCurrent :: "'v \<Rightarrow> 'v kv_store \<Rightarrow> 'v kv_store" where
  "setCurrent v cs = (let l = length (cacheStores cs) in
     if l = 0 then cs\<lparr>initialStore := v\<rparr> else cs\<lparr>cacheStores := (cacheStores cs)[l - 1 := v]\<rparr>)"

lemma CurrentStore_last: "CurrentStore cs = last (initialStore cs # cacheStores cs)"
  by (auto simp: CurrentStore_def Let_def last_conv_nth)

lemma Current_setCurrent [simp]: "CurrentStore (setCurrent v cs) = v"
  by (auto simp: CurrentStore_def setCurrent_def Let_def)

lemma setCurrent_frame [simp]:
  "length (cacheStores (setCurrent v cs)) = length (cacheStores cs)" "baseStore (setCurrent v cs) = baseStore cs"
  by (simp_all add: setCurrent_def Let_def)

lemma kv_Snapshot_index [simp]: "fst (kv_Snapshot cs) = int (length (cacheStores cs))"
  by (simp add: kv_Snapshot_def Let_def)

lemma kv_Snapshot_sel [simp]:
  "cacheStores (snd (kv_Snapshot cs)) = cacheStores cs @ [CurrentStore cs]"
  "initialStore (snd (kv_Snapshot cs)) = initialStore cs" "baseStore (snd (kv_Snapshot cs)) = baseStore cs"
  by (simp_all add: kv_Snapshot_def Let_def)

lemma Current_Snapshot [simp]: "CurrentStore (snd (kv_Snapshot cs)) = CurrentStore cs"
  by (simp add: CurrentStore_last)

text \<open>What is written after a snapshot is gone after the return to it, and nothing below is touched.\<close>

lemma kv_revert_snapshot:
  "kv_RevertToSnapshot (fst (kv_Snapshot cs)) (setCurrent v (snd (kv_Snapshot cs))) = Inr cs"
  by (simp add: kv_RevertToSnapshot_def kv_Snapshot_def setCurrent_def Let_def)

text \<open>The loop pushes the contents of the top layer down to the initial store.\<close>

lemma commit_layers_initial:
  "n \<le> length (cacheStores cs) \<Longrightarrow> initialStore (commit_layers n cs) = (if n = 0 then initialStore cs else cacheStores cs ! (n - 1))"
proof (induction n arbitrary: cs)
  case (Suc n)
  have "initialStore (commit_layers n (write_layer n cs)) = cacheStores cs ! n"
    using Suc.IH [of "write_layer n cs"] Suc.prems by (cases n) (auto simp: write_layer_def)
  then show ?case by simp
qed simp

lemma kv_Commit_eq: "kv_Commit cs = \<lparr>baseStore = CurrentStore cs, initialStore = CurrentStore cs, cacheStores = []\<rparr>"
  using commit_layers_initial [of "length (cacheStores cs)" cs]
  by (auto simp: kv_Commit_def Let_def CurrentStore_def intro!: kv_store.equality)

section \<open>The multi store\<close>

record 'v multi_store =
  stores :: "string \<rightharpoonup> 'v kv_store"
  storeKeys :: "string list"
  head :: int

definition InitialHead :: int where "InitialHead = 0"

definition ms_NewStore :: "(string \<Rightarrow> 'v cache_kv) \<Rightarrow> string list \<Rightarrow> 'v multi_store" where
  "ms_NewStore cms keys = (let ks = sort keys in
     \<lparr>stores = fold (\<lambda>key m. m(key \<mapsto> kv_NewStore (cms key))) ks Map.empty, storeKeys = ks, head = InitialHead\<rparr>)"

text \<open>A loop over the store keys that applies one method to each store; a missing entry is a nil interface.\<close>

definition eachStore :: "('v kv_store \<Rightarrow> 'v kv_store res) \<Rightarrow> 'v multi_store \<Rightarrow> 'v multi_store res" where
  "eachStore f s = tryE (forE (\<lambda>key m. tryE (deref (m key)) (\<lambda>st. tryE (f st) (\<lambda>st1. Inr (m(key \<mapsto> st1))))) (storeKeys s) (stores s))
     (\<lambda>m. Inr (s\<lparr>stores := m\<rparr>))"

definition ms_Snapshot :: "'v multi_store \<Rightarrow> (int \<times> 'v multi_store) res" where
  "ms_Snapshot s = tryE (eachStore (\<lambda>st. Inr (snd (kv_Snapshot st))) s) (\<lambda>s1.
     let s2 = s1\<lparr>head := head s1 + 1\<rparr> in Inr (head s2 - 1, s2))"

definition ms_RevertToSnapshot :: "int \<Rightarrow> 'v multi_store \<Rightarrow> 'v multi_store res" where
  "ms_RevertToSnapshot target s = tryE (eachStore (kv_RevertToSnapshot target) s) (\<lambda>s1. Inr (s1\<lparr>head := target\<rparr>))"

definition ms_Write :: "'v multi_store \<Rightarrow> 'v multi_store res" where
  "ms_Write s = tryE (eachStore (\<lambda>st. Inr (kv_Commit st)) s) (\<lambda>s1. Inr (s1\<lparr>head := InitialHead\<rparr>))"

definition CacheMultiStore :: "'v multi_store \<Rightarrow> 'v multi_store res" where
  "CacheMultiStore s = tryE (ms_Snapshot s) (\<lambda>(_, s1). Inr s1)"

definition GetKVStore :: "'v multi_store \<Rightarrow> string \<Rightarrow> 'v res" where
  "GetKVStore s key = (case stores s key of None \<Rightarrow> Inl (GoPanic ''kv store with key has not been registered in stores'')
     | Some st \<Rightarrow> Inr (CurrentStore st))"

definition LatestVersion :: "'v multi_store \<Rightarrow> int" where
  "LatestVersion s = head s"

text \<open>Writing through the store that \<open>GetKVStore\<close> returns.\<close>

definition ms_set :: "string \<Rightarrow> 'v \<Rightarrow> 'v multi_store \<Rightarrow> 'v multi_store" where
  "ms_set key v s = s\<lparr>stores := (case stores s key of None \<Rightarrow> stores s | Some st \<Rightarrow> (stores s)(key \<mapsto> setCurrent v st))\<rparr>"

section \<open>One stack of all contents\<close>

text \<open>The invariant: exactly the stores of the keys are there, and every stack is as high as \<open>head\<close> says.\<close>

definition ms_ok :: "'v multi_store \<Rightarrow> bool" where
  "ms_ok s \<longleftrightarrow> distinct (storeKeys s) \<and> dom (stores s) = set (storeKeys s) \<and> 0 \<le> head s \<and>
     (\<forall>key st. stores s key = Some st \<longrightarrow> int (length (cacheStores st)) = head s)"

definition layer_of :: "('v kv_store \<Rightarrow> 'v) \<Rightarrow> 'v multi_store \<Rightarrow> (string \<rightharpoonup> 'v)" where
  "layer_of f s key = map_option f (stores s key)"

definition ms_abs :: "'v multi_store \<Rightarrow> (string \<rightharpoonup> 'v) kv_store" where
  "ms_abs s = \<lparr>baseStore = layer_of baseStore s, initialStore = layer_of initialStore s,
     cacheStores = map (\<lambda>i. layer_of (\<lambda>st. cacheStores st ! i) s) [0..<nat (head s)]\<rparr>"

lemma ms_ok_stores:
  assumes "ms_ok s"
  shows "key \<in> set (storeKeys s) \<longleftrightarrow> stores s key \<noteq> None"
    and "stores s key = Some st \<Longrightarrow> length (cacheStores st) = nat (head s)"
  using assms unfolding ms_ok_def by (blast, metis nat_int)

lemma loop_stores:
  assumes "distinct ks" and "set ks \<subseteq> dom m" and "\<And>key st. key \<in> set ks \<Longrightarrow> m key = Some st \<Longrightarrow> f st = Inr (g st)"
  shows "forE (\<lambda>key m. tryE (deref (m key)) (\<lambda>st. tryE (f st) (\<lambda>st1. Inr (m(key \<mapsto> st1))))) ks m
    = Inr (\<lambda>key. if key \<in> set ks then map_option g (m key) else m key)"
  using assms
proof (induction ks arbitrary: m)
  case (Cons k ks)
  then obtain st where st: "m k = Some st" "f st = Inr (g st)" by fastforce
  have "forE (\<lambda>key m. tryE (deref (m key)) (\<lambda>st. tryE (f st) (\<lambda>st1. Inr (m(key \<mapsto> st1))))) ks (m(k \<mapsto> g st))
      = Inr (\<lambda>key. if key \<in> set ks then map_option g ((m(k \<mapsto> g st)) key) else (m(k \<mapsto> g st)) key)"
    using Cons.prems by (intro Cons.IH) (auto split: if_splits)
  moreover have "(\<lambda>key. if key \<in> set ks then map_option g ((m(k \<mapsto> g st)) key) else (m(k \<mapsto> g st)) key)
      = (\<lambda>key. if key \<in> set (k # ks) then map_option g (m key) else m key)"
    using st Cons.prems(1) by (auto simp: fun_eq_iff)
  ultimately show ?case using st by (simp del: fun_upd_apply)
qed simp

lemma eachStore_eq:
  assumes "ms_ok s" and "\<And>key st. stores s key = Some st \<Longrightarrow> f st = Inr (g st)"
  shows "eachStore f s = Inr (s\<lparr>stores := (\<lambda>key. map_option g (stores s key))\<rparr>)"
proof -
  have "(\<lambda>key. if key \<in> set (storeKeys s) then map_option g (stores s key) else stores s key) = (\<lambda>key. map_option g (stores s key))"
    using ms_ok_stores(1) [OF assms(1)] by (auto simp: fun_eq_iff)
  moreover have "distinct (storeKeys s)" "set (storeKeys s) \<subseteq> dom (stores s)" using assms(1) by (auto simp: ms_ok_def)
  ultimately show ?thesis using loop_stores [of "storeKeys s" "stores s" f g] assms(2) by (simp add: eachStore_def)
qed

lemma ms_NewStore_ok:
  assumes "distinct keys"
  shows "ms_ok (ms_NewStore cms keys)"
proof -
  have "fold (\<lambda>key m. m(key \<mapsto> kv_NewStore (cms key))) ks m key
      = (if key \<in> set ks then Some (kv_NewStore (cms key)) else m key)" for ks m key
    by (induction ks arbitrary: m) auto
  with assms show ?thesis by (auto simp: ms_ok_def ms_NewStore_def Let_def InitialHead_def kv_NewStore_def split: if_splits)
qed

lemma ms_abs_height [simp]: "length (cacheStores (ms_abs s)) = nat (head s)"
  by (simp add: ms_abs_def)

lemma ms_abs_current:
  assumes "ms_ok s"
  shows "CurrentStore (ms_abs s) = layer_of CurrentStore s"
proof
  fix key
  show "CurrentStore (ms_abs s) key = layer_of CurrentStore s key"
    using ms_ok_stores(2) [OF assms, of key]
    by (cases "stores s key") (auto simp: CurrentStore_def ms_abs_def layer_of_def Let_def)
qed

text \<open>A method that changes every store by \<open>g\<close> and the height to \<open>h\<close> keeps the invariant.\<close>

lemma each_ok:
  assumes "ms_ok s" and "0 \<le> h" and "\<And>key st. stores s key = Some st \<Longrightarrow> int (length (cacheStores (g st))) = h"
  shows "ms_ok (s\<lparr>stores := (\<lambda>key. map_option g (stores s key)), head := h\<rparr>)"
  using assms by (auto simp: ms_ok_def dom_def)

lemma ms_Snapshot_eq:
  assumes "ms_ok s"
  shows "ms_Snapshot s = Inr (head s, s\<lparr>stores := (\<lambda>key. map_option (\<lambda>st. snd (kv_Snapshot st)) (stores s key)), head := head s + 1\<rparr>)"
  by (simp add: ms_Snapshot_def Let_def eachStore_eq [OF assms, where g = "\<lambda>st. snd (kv_Snapshot st)"])

lemma ms_Write_eq:
  assumes "ms_ok s"
  shows "ms_Write s = Inr (s\<lparr>stores := (\<lambda>key. map_option kv_Commit (stores s key)), head := 0\<rparr>)"
  by (simp add: ms_Write_def InitialHead_def eachStore_eq [OF assms, where g = kv_Commit])

lemma ms_Revert_eq:
  assumes "ms_ok s" and "0 \<le> target" and "target < head s"
  shows "ms_RevertToSnapshot target s
    = Inr (s\<lparr>stores := (\<lambda>key. map_option (\<lambda>st. st\<lparr>cacheStores := take (nat target) (cacheStores st)\<rparr>) (stores s key)), head := target\<rparr>)"
proof -
  have "kv_RevertToSnapshot target st = Inr (st\<lparr>cacheStores := take (nat target) (cacheStores st)\<rparr>)" if "stores s key = Some st" for key st
    using assms(2,3) ms_ok_stores(2) [OF assms(1) that] by (simp add: kv_RevertToSnapshot_def)
  from eachStore_eq [OF assms(1) this] show ?thesis by (simp add: ms_RevertToSnapshot_def)
qed

lemma ms_Revert_panics:
  assumes "ms_ok s" and "storeKeys s \<noteq> []" and "target < 0 \<or> head s \<le> target"
  shows "ms_RevertToSnapshot target s = Inl (GoPanic ''snapshot index out of bound'')"
proof -
  obtain k ks where ks: "storeKeys s = k # ks" using assms(2) by (cases "storeKeys s") auto
  then obtain st where st: "stores s k = Some st" using ms_ok_stores(1) [OF assms(1), of k] by auto
  have "kv_RevertToSnapshot target st = Inl (GoPanic ''snapshot index out of bound'')"
    using assms(3) ms_ok_stores(2) [OF assms(1) st] by (auto simp: kv_RevertToSnapshot_def)
  with ks st show ?thesis by (simp add: ms_RevertToSnapshot_def eachStore_def)
qed

lemma ms_abs_Snapshot:
  assumes "ms_ok s" and "ms_Snapshot s = Inr (i, s')"
  shows "ms_ok s' \<and> kv_Snapshot (ms_abs s) = (i, ms_abs s')"
proof -
  have s': "i = head s" "s' = s\<lparr>stores := (\<lambda>key. map_option (\<lambda>st. snd (kv_Snapshot st)) (stores s key)), head := head s + 1\<rparr>"
    using assms(2) ms_Snapshot_eq [OF assms(1)] by auto
  have h: "0 \<le> head s" using assms(1) by (simp add: ms_ok_def)
  have ok: "ms_ok s'" unfolding s'(2) using assms(1) h by (intro each_ok) (auto simp: ms_ok_def)
  have up: "[0..<nat (head s + 1)] = [0..<nat (head s)] @ [nat (head s)]" using h by (simp add: nat_add_distrib)
  have low: "layer_of (\<lambda>st. cacheStores st ! j) s' = layer_of (\<lambda>st. cacheStores st ! j) s" if "j < nat (head s)" for j
    using ms_ok_stores(2) [OF assms(1)] that by (auto simp: s' layer_of_def fun_eq_iff nth_append map_option.compositionality intro!: option.map_cong)
  have top: "layer_of (\<lambda>st. cacheStores st ! nat (head s)) s' = CurrentStore (ms_abs s)"
    unfolding ms_abs_current [OF assms(1)] using ms_ok_stores(2) [OF assms(1)]
    by (auto simp: s' layer_of_def fun_eq_iff nth_append map_option.compositionality intro!: option.map_cong)
  have rest: "layer_of baseStore s' = layer_of baseStore s" "layer_of initialStore s' = layer_of initialStore s"
    by (auto simp: s' layer_of_def fun_eq_iff map_option.compositionality comp_def)
  have "cacheStores (ms_abs s') = cacheStores (ms_abs s) @ [CurrentStore (ms_abs s)]"
    using low top by (simp add: ms_abs_def s'(2) up)
  then have "snd (kv_Snapshot (ms_abs s)) = ms_abs s'"
    using rest by (intro kv_store.equality) (simp_all, simp_all add: ms_abs_def)
  moreover have "fst (kv_Snapshot (ms_abs s)) = i" using h s'(1) by simp
  ultimately show ?thesis using ok by (metis prod.collapse)
qed

lemma ms_abs_Revert:
  assumes "ms_ok s" and "storeKeys s \<noteq> []"
  shows "case ms_RevertToSnapshot target s of Inl e \<Rightarrow> kv_RevertToSnapshot target (ms_abs s) = Inl e
    | Inr s' \<Rightarrow> ms_ok s' \<and> kv_RevertToSnapshot target (ms_abs s) = Inr (ms_abs s')"
proof (cases "target < 0 \<or> head s \<le> target")
  case True
  then show ?thesis using assms(1) by (auto simp: ms_Revert_panics [OF assms True] kv_RevertToSnapshot_def ms_ok_def)
next
  case False
  let ?s = "s\<lparr>stores := (\<lambda>key. map_option (\<lambda>st. st\<lparr>cacheStores := take (nat target) (cacheStores st)\<rparr>) (stores s key)), head := target\<rparr>"
  have r: "ms_RevertToSnapshot target s = Inr ?s" using False by (intro ms_Revert_eq [OF assms(1)]) auto
  have ok: "ms_ok ?s" using False ms_ok_stores(2) [OF assms(1)] by (intro each_ok [OF assms(1)]) auto
  have low: "layer_of (\<lambda>st. cacheStores st ! j) ?s = layer_of (\<lambda>st. cacheStores st ! j) s" if "j < nat target" for j
    using that by (auto simp: layer_of_def fun_eq_iff map_option.compositionality intro!: option.map_cong)
  have up: "take (nat target) [0..<nat (head s)] = [0..<nat target]" using False by (subst take_upt) auto
  have "ms_abs ?s = (ms_abs s)\<lparr>cacheStores := take (nat target) (cacheStores (ms_abs s))\<rparr>"
    using low by (intro kv_store.equality)
      (auto simp: ms_abs_def take_map up layer_of_def fun_eq_iff map_option.compositionality intro!: option.map_cong)
  then have "kv_RevertToSnapshot target (ms_abs s) = Inr (ms_abs ?s)" using False by (simp add: kv_RevertToSnapshot_def)
  with r ok show ?thesis by simp
qed

lemma ms_abs_Write:
  assumes "ms_ok s" and "ms_Write s = Inr s'"
  shows "ms_ok s' \<and> kv_Commit (ms_abs s) = ms_abs s'"
proof -
  have s': "s' = s\<lparr>stores := (\<lambda>key. map_option kv_Commit (stores s key)), head := 0\<rparr>" using assms(2) ms_Write_eq [OF assms(1)] by simp
  have "ms_ok s'" unfolding s' by (intro each_ok [OF assms(1)]) (simp_all add: kv_Commit_eq)
  moreover have "kv_Commit (ms_abs s) = ms_abs s'"
    unfolding kv_Commit_eq ms_abs_current [OF assms(1)]
    by (auto simp: s' ms_abs_def layer_of_def kv_Commit_eq fun_eq_iff map_option.compositionality comp_def)
  ultimately show ?thesis ..
qed

lemma ms_abs_set:
  assumes "ms_ok s" and "key \<in> set (storeKeys s)"
  shows "ms_ok (ms_set key v s) \<and> ms_abs (ms_set key v s) = setCurrent ((CurrentStore (ms_abs s))(key \<mapsto> v)) (ms_abs s)"
proof -
  obtain st where st: "stores s key = Some st" using ms_ok_stores(1) [OF assms(1)] assms(2) by blast
  have n: "length (cacheStores st) = nat (head s)" by (rule ms_ok_stores(2) [OF assms(1) st])
  have ok: "ms_ok (ms_set key v s)" using assms(1) st by (auto simp: ms_ok_def ms_set_def)
  have l: "layer_of f (ms_set key v s) = (layer_of f s)(key \<mapsto> f (setCurrent v st))" for f
    using st by (auto simp: layer_of_def ms_set_def fun_eq_iff)
  have same: "layer_of f s = (layer_of f s)(key \<mapsto> f st)" for f using st by (auto simp: layer_of_def fun_eq_iff)
  show ?thesis
  proof (cases "nat (head s)")
    case 0
    with n l same ok st show ?thesis by (auto simp: ms_abs_def ms_set_def setCurrent_def Let_def CurrentStore_def)
  next
    case (Suc h)
    have "layer_of (\<lambda>t. cacheStores t ! j) (ms_set key v s) = layer_of (\<lambda>t. cacheStores t ! j) s" if "j < h" for j
      using l [of "\<lambda>t. cacheStores t ! j"] same [of "\<lambda>t. cacheStores t ! j"] that n Suc by (simp add: setCurrent_def Let_def)
    moreover have "layer_of (\<lambda>t. cacheStores t ! h) (ms_set key v s) = (layer_of (\<lambda>t. cacheStores t ! h) s)(key \<mapsto> v)"
      using l [of "\<lambda>t. cacheStores t ! h"] n Suc by (simp add: setCurrent_def Let_def)
    moreover have "layer_of initialStore (ms_set key v s) = layer_of initialStore s" "layer_of baseStore (ms_set key v s) = layer_of baseStore s"
      using l [of initialStore] l [of baseStore] same [of initialStore] same [of baseStore] n Suc by (simp_all add: setCurrent_def Let_def)
    moreover have "head (ms_set key v s) = head s" by (simp add: ms_set_def)
    ultimately show ?thesis using ok Suc by (simp add: ms_abs_def setCurrent_def Let_def CurrentStore_def nth_append list_update_append)
  qed
qed

section \<open>Results\<close>

text \<open>The multi store is one stack. On a multi store over at least one key whose stacks are in step, as a new one
  is, every operation (snapshot, return to a snapshot, writing to a key, committing) does to the stack of all
  contents what the single store does, gives the same index or the same panic, and keeps the stacks in step.
  So a return to a snapshot brings back every store of the application, together.\<close>

theorem multistore_is_one_stack:
  assumes "ms_ok s" and "storeKeys s \<noteq> []"
  shows "(\<exists>i s'. ms_Snapshot s = Inr (i, s') \<and> ms_ok s' \<and> kv_Snapshot (ms_abs s) = (i, ms_abs s')) \<and>
    (case ms_RevertToSnapshot target s of Inl e \<Rightarrow> kv_RevertToSnapshot target (ms_abs s) = Inl e
      | Inr s' \<Rightarrow> ms_ok s' \<and> kv_RevertToSnapshot target (ms_abs s) = Inr (ms_abs s')) \<and>
    (\<exists>s'. ms_Write s = Inr s' \<and> ms_ok s' \<and> kv_Commit (ms_abs s) = ms_abs s') \<and>
    (key \<in> set (storeKeys s) \<longrightarrow>
      ms_ok (ms_set key v s) \<and> ms_abs (ms_set key v s) = setCurrent ((CurrentStore (ms_abs s))(key \<mapsto> v)) (ms_abs s))"
proof (intro conjI)
  show "case ms_RevertToSnapshot target s of Inl e \<Rightarrow> kv_RevertToSnapshot target (ms_abs s) = Inl e
      | Inr s' \<Rightarrow> ms_ok s' \<and> kv_RevertToSnapshot target (ms_abs s) = Inr (ms_abs s')" using ms_abs_Revert [OF assms] by blast
qed (use ms_Snapshot_eq [OF assms(1)] ms_abs_Snapshot [OF assms(1)] ms_Write_eq [OF assms(1)] ms_abs_Write [OF assms(1)]
    ms_abs_set [OF assms(1)] in blast)+

definition ms_demo :: "int multi_store" where
  "ms_demo = ms_NewStore (\<lambda>key. (int (length key), 0)) [''evm'', ''bank'']"

lemma ms_demo_ok: "ms_ok ms_demo" "storeKeys ms_demo = [''bank'', ''evm'']"
  unfolding ms_demo_def by (rule ms_NewStore_ok, simp) (simp add: ms_NewStore_def Let_def less_char_def)

theorem multistore_is_one_stack_witness:
  "(\<exists>i s'. ms_Snapshot ms_demo = Inr (i, s') \<and> kv_Snapshot (ms_abs ms_demo) = (i, ms_abs s')) \<and>
     (\<exists>s'. ms_Write ms_demo = Inr s' \<and> kv_Commit (ms_abs ms_demo) = ms_abs s') \<and> ms_ok (ms_set ''evm'' 7 ms_demo)"
  using multistore_is_one_stack [of ms_demo 0 "''evm''" 7] ms_demo_ok by auto

text \<open>A branch of the multi store is not isolated from it. \<open>CacheMultiStore\<close>, which the SDK calls to branch a
  context, pushes a layer and returns the store itself: what is written in the branch shows in the store
  although the branch is never written back. When the branch is written back, all layers are collapsed, and the
  return to a snapshot taken before panics.\<close>

theorem branch_not_isolated:
  assumes "ms_ok s" and "key \<in> set (storeKeys s)" and "ms_Snapshot s = Inr (i, s1)" and "CacheMultiStore s1 = Inr s2"
  shows "GetKVStore (ms_set key v s2) key = Inr v \<and>
    (\<exists>s3. ms_Write (ms_set key v s2) = Inr s3 \<and> ms_RevertToSnapshot i s3 = Inl (GoPanic ''snapshot index out of bound''))"
proof -
  have 1: "ms_ok s1" "storeKeys s1 = storeKeys s" "0 \<le> i"
    using ms_abs_Snapshot [OF assms(1,3)] ms_Snapshot_eq [OF assms(1)] assms(1,3) by (auto simp: ms_ok_def)
  have 2: "ms_ok s2" "storeKeys s2 = storeKeys s"
    using assms(4) ms_Snapshot_eq [OF 1(1)] ms_abs_Snapshot [OF 1(1)] 1(2) by (auto simp: CacheMultiStore_def)
  have ok: "ms_ok (ms_set key v s2)" using ms_abs_set [OF 2(1)] assms(2) 2(2) by simp
  obtain st where "stores s2 key = Some st" using ms_ok_stores(1) [OF 2(1), of key] assms(2) 2(2) by auto
  then have "GetKVStore (ms_set key v s2) key = Inr v" by (simp add: GetKVStore_def ms_set_def)
  let ?s3 = "(ms_set key v s2)\<lparr>stores := (\<lambda>k. map_option kv_Commit (stores (ms_set key v s2) k)), head := 0\<rparr>"
  have w: "ms_Write (ms_set key v s2) = Inr ?s3" by (rule ms_Write_eq [OF ok])
  then have "ms_ok ?s3" using ms_abs_Write [OF ok] by blast
  moreover have "storeKeys ?s3 \<noteq> []" using assms(2) 2(2) by (auto simp: ms_set_def)
  ultimately have "ms_RevertToSnapshot i ?s3 = Inl (GoPanic ''snapshot index out of bound'')"
    using 1(3) by (intro ms_Revert_panics) auto
  with w \<open>GetKVStore (ms_set key v s2) key = Inr v\<close> show ?thesis by blast
qed

theorem branch_not_isolated_witness:
  "\<exists>s1 s2. ms_Snapshot ms_demo = Inr (0, s1) \<and> CacheMultiStore s1 = Inr s2 \<and> GetKVStore ms_demo ''evm'' = Inr 3 \<and>
     GetKVStore (ms_set ''evm'' 7 s2) ''evm'' = Inr 7 \<and>
     (\<exists>s3. ms_Write (ms_set ''evm'' 7 s2) = Inr s3 \<and> ms_RevertToSnapshot 0 s3 = Inl (GoPanic ''snapshot index out of bound''))"
proof -
  have h: "head ms_demo = 0" by (simp add: ms_demo_def ms_NewStore_def InitialHead_def Let_def)
  obtain s1 where s1: "ms_Snapshot ms_demo = Inr (0, s1)" using ms_Snapshot_eq [OF ms_demo_ok(1)] h by simp
  then have "ms_ok s1" using ms_abs_Snapshot [OF ms_demo_ok(1)] by blast
  then obtain s2 where s2: "CacheMultiStore s1 = Inr s2" using ms_Snapshot_eq by (auto simp: CacheMultiStore_def)
  have "GetKVStore ms_demo ''evm'' = Inr 3" by (simp add: ms_demo_def ms_NewStore_def GetKVStore_def kv_NewStore_def CurrentStore_def Let_def less_char_def)
  with branch_not_isolated [OF ms_demo_ok(1) _ s1 s2, of "''evm''" 7] s1 s2 ms_demo_ok(2) show ?thesis by auto
qed

end
