(* ===== verification/State_Db.thy ===== *)
theory State_Db
  imports Vm_Keeper Snapshot_Store
begin

text \<open>
  The state database of the virtual machine (\<^verbatim>\<open>x/vm/statedb\<close> of the fork): accounts as cached objects, a
  journal of changes with snapshots, the access list, transient storage, logs and the refund counter, and
  the cache context in which precompiled contracts run.

  Correspondence: \<open>StateDB\<close>, \<open>revision\<close> and every method of \<^verbatim>\<open>statedb.go\<close>; \<open>stateObject\<close> and its methods
  (\<^verbatim>\<open>state_object.go\<close>); \<open>journal_entry\<close> with \<open>Revert\<close> and \<open>Dirtied\<close>, \<open>journal_append\<close>, \<open>journal_Revert\<close>
  (\<^verbatim>\<open>journal.go\<close>); \<open>access_list\<close> (\<^verbatim>\<open>access_list.go\<close>); transient storage (\<^verbatim>\<open>transient_storage.go\<close>). Go hands out
  pointers to the objects of the live set; here a method of an object takes the object and writes the
  changed object back under its address, which is what the pointer does as long as the object is live. The
  object an account reset replaces is kept by the journal only, and nothing writes to it.

  The keeper behind the database is the interface \<open>SKeeper\<close> (\<^verbatim>\<open>interfaces.go\<close>) with the x/vm keeper as its
  implementation, \<open>vm_skeeper\<close>. The cache context reads and writes the stores through a snapshot store; by
  the refinement of \<open>Snapshot_Store\<close> it is taken as one store of all contents. A hash is its 32 bytes.
\<close>

section \<open>The access list\<close>

type_synonym hash = string

definition zeroHash :: hash where "zeroHash = replicate 32 (CHR 0x00)"

record access_list =
  al_addresses :: "addr \<rightharpoonup> int"
  al_slots :: "hash set list"

definition newAccessList :: access_list where
  "newAccessList = \<lparr>al_addresses = Map.empty, al_slots = []\<rparr>"

definition ContainsAddress :: "access_list \<Rightarrow> addr \<Rightarrow> bool" where
  "ContainsAddress al address = (al_addresses al address \<noteq> None)"

text \<open>Indexing of a slice panics out of range.\<close>

definition idx :: "'a list \<Rightarrow> int \<Rightarrow> 'a res" where
  "idx xs i = (if 0 \<le> i \<and> i < int (length xs) then Inr (xs ! nat i) else Inl (GoPanic ''index out of range''))"

definition al_Contains :: "access_list \<Rightarrow> addr \<Rightarrow> hash \<Rightarrow> (bool \<times> bool) res" where
  "al_Contains al address slot =
     (case al_addresses al address of None \<Rightarrow> Inr (False, False)
      | Some i \<Rightarrow> if i = - 1 then Inr (True, False) else tryE (idx (al_slots al) i) (\<lambda>m. Inr (True, slot \<in> m)))"

definition AddAddress :: "addr \<Rightarrow> access_list \<Rightarrow> bool \<times> access_list" where
  "AddAddress address al =
     (if al_addresses al address \<noteq> None then (False, al)
      else (True, al\<lparr>al_addresses := (al_addresses al)(address \<mapsto> - 1)\<rparr>))"

definition AddSlot :: "addr \<Rightarrow> hash \<Rightarrow> access_list \<Rightarrow> ((bool \<times> bool) \<times> access_list) res" where
  "AddSlot address slot al =
     (let addrPresent = (al_addresses al address \<noteq> None) in
      if \<not> addrPresent \<or> al_addresses al address = Some (- 1) then
        Inr ((\<not> addrPresent, True), al\<lparr>al_addresses := (al_addresses al)(address \<mapsto> int (length (al_slots al))), al_slots := al_slots al @ [{slot}]\<rparr>)
      else let i = the (al_addresses al address) in
        tryE (idx (al_slots al) i) (\<lambda>slotmap.
        if slot \<notin> slotmap then Inr ((False, True), al\<lparr>al_slots := (al_slots al)[nat i := insert slot slotmap]\<rparr>)
        else Inr ((False, False), al)))"

definition DeleteSlot :: "addr \<Rightarrow> hash \<Rightarrow> access_list \<Rightarrow> access_list res" where
  "DeleteSlot address slot al =
     (case al_addresses al address of None \<Rightarrow> Inl (GoPanic ''reverting slot change, address not present in list'')
      | Some i \<Rightarrow>
          tryE (idx (al_slots al) i) (\<lambda>slotmap.
          let slotmap1 = slotmap - {slot} in
          Inr (if slotmap1 = {} then al\<lparr>al_slots := take (nat i) (al_slots al), al_addresses := (al_addresses al)(address \<mapsto> - 1)\<rparr>
               else al\<lparr>al_slots := (al_slots al)[nat i := slotmap1]\<rparr>)))"

definition DeleteAddress :: "addr \<Rightarrow> access_list \<Rightarrow> access_list" where
  "DeleteAddress address al = al\<lparr>al_addresses := (al_addresses al)(address := None)\<rparr>"

section \<open>Storage and transient storage\<close>

text \<open>\<open>map[common.Hash]common.Hash\<close> as an association list with distinct keys.\<close>

type_synonym Storage = "(hash \<times> hash) list"

definition SortedKeys :: "Storage \<Rightarrow> hash list" where
  "SortedKeys s = sort (map fst s)"

type_synonym transientStorage = "addr \<rightharpoonup> Storage"

definition ts_Set :: "addr \<Rightarrow> hash \<Rightarrow> hash \<Rightarrow> transientStorage \<Rightarrow> transientStorage" where
  "ts_Set addr key val t =
     (if val = zeroHash then
        case t addr of None \<Rightarrow> t
        | Some storage \<Rightarrow> let storage1 = AList.delete key storage in if storage1 = [] then t(addr := None) else t(addr \<mapsto> storage1)
      else t(addr \<mapsto> AList.update key val (case t addr of None \<Rightarrow> [] | Some storage \<Rightarrow> storage)))"

definition ts_Get :: "transientStorage \<Rightarrow> addr \<Rightarrow> hash \<Rightarrow> hash" where
  "ts_Get t addr key =
     (case t addr of None \<Rightarrow> zeroHash | Some storage \<Rightarrow> (case map_of storage key of None \<Rightarrow> zeroHash | Some val \<Rightarrow> val))"

section \<open>The keeper behind the database\<close>

text \<open>A missing code is nil; \<open>sk_Storage\<close> lists what \<open>ForEachStorage\<close> visits, in order. The hash function and
  the constants of go-ethereum come with it.\<close>

record ('s, 'b) SKeeper =
  sk_GetAccount :: "('s, 'b) ctx \<Rightarrow> addr \<Rightarrow> vm_account option res"
  sk_GetState :: "('s, 'b) ctx \<Rightarrow> addr \<Rightarrow> hash \<Rightarrow> hash"
  sk_GetCode :: "('s, 'b) ctx \<Rightarrow> hash \<Rightarrow> string option"
  sk_Storage :: "('s, 'b) ctx \<Rightarrow> addr \<Rightarrow> (hash \<times> hash) list"
  sk_SetAccount :: "addr \<Rightarrow> vm_account \<Rightarrow> ('s, 'b) ctx \<Rightarrow> ('s, 'b) ctx res"
  sk_DeleteState :: "addr \<Rightarrow> hash \<Rightarrow> ('s, 'b) ctx \<Rightarrow> ('s, 'b) ctx"
  sk_SetState :: "addr \<Rightarrow> hash \<Rightarrow> string \<Rightarrow> ('s, 'b) ctx \<Rightarrow> ('s, 'b) ctx"
  sk_DeleteCode :: "string \<Rightarrow> ('s, 'b) ctx \<Rightarrow> ('s, 'b) ctx"
  sk_SetCode :: "string \<Rightarrow> string \<Rightarrow> ('s, 'b) ctx \<Rightarrow> ('s, 'b) ctx"
  sk_DeleteAccount :: "addr \<Rightarrow> ('s, 'b) ctx \<Rightarrow> ('s, 'b) ctx res"
  sk_geth :: geth
  Keccak256Hash :: "string \<Rightarrow> hash"

definition Vm_GetState :: "geth \<Rightarrow> vm_state \<Rightarrow> addr \<Rightarrow> hash \<Rightarrow> hash" where
  "Vm_GetState G v addr key =
     (case map_of (vmStorage v addr) key of None \<Rightarrow> zeroHash | Some val \<Rightarrow> if val = [] then zeroHash else BytesToHash G val)"

definition vm_skeeper :: "('k, 'm, 'acc) VmKeeper \<Rightarrow> (string \<Rightarrow> hash) \<Rightarrow> ('s, ('k, 'm) sdk_state) SKeeper" where
  "vm_skeeper V keccak =
     \<lparr>sk_GetAccount = Vm_GetAccount V, sk_GetState = (\<lambda>c. Vm_GetState (vkGeth V) (vmOf c)),
      sk_GetCode = (\<lambda>c h. let code = GetCode (vmOf c) h in if code = [] then None else Some code),
      sk_Storage = (\<lambda>c addr. map (\<lambda>(key, val). (BytesToHash (vkGeth V) key, BytesToHash (vkGeth V) val)) (vmStorage (vmOf c) addr)),
      sk_SetAccount = Vm_SetAccount V, sk_DeleteState = (\<lambda>addr key c. setVm (DeleteState addr key (vmOf c)) c),
      sk_SetState = (\<lambda>addr key val c. setVm (SetState addr key val (vmOf c)) c),
      sk_DeleteCode = (\<lambda>h c. setVm (DeleteCode h (vmOf c)) c), sk_SetCode = (\<lambda>h code c. setVm (SetCode h code (vmOf c)) c),
      sk_DeleteAccount = DeleteAccount V, sk_geth = vkGeth V, Keccak256Hash = keccak\<rparr>"

section \<open>State objects and the journal\<close>

record stateObject =
  soAccount :: vm_account
  soCode :: "string option"
  originStorage :: Storage
  dirtyStorage :: Storage
  overrideStorage :: "Storage option"
  soAddress :: addr
  dirtyCode :: bool
  selfDestructed :: bool
  newContract :: bool

datatype journal_entry =
    createObjectChange addr
  | resetObjectChange stateObject
  | selfDestructChange addr bool "int option"
  | balanceChange addr "int option"
  | nonceChange addr u64
  | storageChange addr hash hash
  | transientStorageChange addr hash hash
  | codeChange addr "string option" string
  | refundChange u64
  | addLogChange
  | accessListAddAccountChange addr
  | accessListAddSlotChange addr hash
  | precompileCallChange int "event list" int
  | createContractChange addr

fun Dirtied :: "journal_entry \<Rightarrow> addr option" where
  "Dirtied (createObjectChange a) = Some a"
| "Dirtied (selfDestructChange a _ _) = Some a"
| "Dirtied (balanceChange a _) = Some a"
| "Dirtied (nonceChange a _) = Some a"
| "Dirtied (storageChange a _ _) = Some a"
| "Dirtied (codeChange a _ _) = Some a"
| "Dirtied _ = None"

record revision =
  revId :: int
  journalIndex :: int

record TxConfig =
  cfgTxHash :: hash
  cfgTxIndex :: u64
  cfgLogIndex :: u64

record eth_log =
  logAddress :: addr
  logTopics :: "hash list"
  logData :: string
  logTxIndex :: u64
  logIndex :: u64

text \<open>\<open>cacheCtx\<close>, \<open>writeCache\<close> and \<open>snapshotter\<close> are set together: the cache is there or not.\<close>

record ('s, 'b) cache_ctx =
  snapshotter :: "('s \<times> 'b) kv_store"
  cacheEvents :: "event list"

record ('s, 'b) StateDB =
  sdCtx :: "('s, 'b) ctx"
  sdCache :: "('s, 'b) cache_ctx option"
  transient :: transientStorage
  entries :: "journal_entry list"
  dirties :: "(addr \<times> int) list"
  validRevisions :: "revision list"
  nextRevisionID :: int
  stateObjects :: "addr \<rightharpoonup> stateObject"
  txConfig :: TxConfig
  refund :: u64
  logs :: "eth_log list"
  accessList :: access_list
  precompileCallsCounter :: "8 word"
  processedEventsCount :: int

definition Db_New :: "('s, 'b) ctx \<Rightarrow> TxConfig \<Rightarrow> ('s, 'b) StateDB" where
  "Db_New c cfg = \<lparr>sdCtx = c, sdCache = None, transient = Map.empty, entries = [], dirties = [], validRevisions = [], nextRevisionID = 0,
     stateObjects = Map.empty, txConfig = cfg, refund = 0, logs = [], accessList = newAccessList, precompileCallsCounter = 0,
     processedEventsCount = int (length (events c))\<rparr>"

definition newObject :: "geth \<Rightarrow> addr \<Rightarrow> vm_account \<Rightarrow> stateObject" where
  "newObject G address account =
     \<lparr>soAccount = account\<lparr>acBalance := Some (case acBalance account of None \<Rightarrow> 0 | Some b \<Rightarrow> b),
        acCodeHash := (if acCodeHash account = [] then EmptyCodeHash G else acCodeHash account)\<rparr>,
      soCode = None, originStorage = [], dirtyStorage = [], overrideStorage = None, soAddress = address,
      dirtyCode = False, selfDestructed = False, newContract = False\<rparr>"

text \<open>\<open>Account{}\<close>: the zero value, with a nil code hash.\<close>

definition zeroAccount :: vm_account where
  "zeroAccount = \<lparr>acNonce = 0, acBalance = None, acCodeHash = [], lockedBalance = None\<rparr>"

definition obj_empty :: "geth \<Rightarrow> stateObject \<Rightarrow> bool res" where
  "obj_empty G obj = (if acNonce (soAccount obj) \<noteq> 0 then Inr False
     else tryE (deref (acBalance (soAccount obj))) (\<lambda>b. Inr (b = 0 \<and> IsEmptyCodeHash G (acCodeHash (soAccount obj)))))"

definition setStateObject :: "stateObject \<Rightarrow> ('s, 'b) StateDB \<Rightarrow> ('s, 'b) StateDB" where
  "setStateObject obj s = s\<lparr>stateObjects := (stateObjects s)(soAddress obj \<mapsto> obj)\<rparr>"

definition dirtyCount :: "(addr \<times> int) list \<Rightarrow> addr \<Rightarrow> int" where
  "dirtyCount ds a = (case map_of ds a of None \<Rightarrow> 0 | Some n \<Rightarrow> n)"

definition journal_append :: "journal_entry \<Rightarrow> ('s, 'b) StateDB \<Rightarrow> ('s, 'b) StateDB" where
  "journal_append entry s = s\<lparr>entries := entries s @ [entry],
     dirties := (case Dirtied entry of None \<Rightarrow> dirties s | Some a \<Rightarrow> AList.update a (dirtyCount (dirties s) a + 1) (dirties s))\<rparr>"

definition sortedDirties :: "('s, 'b) StateDB \<Rightarrow> addr list" where
  "sortedDirties s = sort (map fst (dirties s))"

text \<open>A live object is preferred; an account of the keeper becomes live.\<close>

definition getStateObject :: "('s, 'b) SKeeper \<Rightarrow> addr \<Rightarrow> ('s, 'b) StateDB \<Rightarrow> (stateObject option \<times> ('s, 'b) StateDB) res" where
  "getStateObject K addr s =
     (case stateObjects s addr of Some obj \<Rightarrow> Inr (Some obj, s)
      | None \<Rightarrow> tryE (sk_GetAccount K (sdCtx s) addr) (\<lambda>account.
          case account of None \<Rightarrow> Inr (None, s)
          | Some a \<Rightarrow> let obj = newObject (sk_geth K) addr a in Inr (Some obj, setStateObject obj s)))"

definition createObject :: "('s, 'b) SKeeper \<Rightarrow> addr \<Rightarrow> ('s, 'b) StateDB \<Rightarrow> (stateObject \<times> stateObject option \<times> ('s, 'b) StateDB) res" where
  "createObject K addr s =
     tryE (getStateObject K addr s) (\<lambda>(prev, s1).
     let newobj = newObject (sk_geth K) addr zeroAccount;
         s2 = journal_append (case prev of None \<Rightarrow> createObjectChange addr | Some p \<Rightarrow> resetObjectChange p) s1 in
     Inr (newobj, prev, setStateObject newobj s2))"

definition getOrNewStateObject :: "('s, 'b) SKeeper \<Rightarrow> addr \<Rightarrow> ('s, 'b) StateDB \<Rightarrow> (stateObject \<times> ('s, 'b) StateDB) res" where
  "getOrNewStateObject K addr s =
     tryE (getStateObject K addr s) (\<lambda>(obj, s1).
     case obj of Some o1 \<Rightarrow> Inr (o1, s1) | None \<Rightarrow> tryE (createObject K addr s1) (\<lambda>(o1, _, s2). Inr (o1, s2)))"

definition CreateAccount :: "('s, 'b) SKeeper \<Rightarrow> addr \<Rightarrow> ('s, 'b) StateDB \<Rightarrow> ('s, 'b) StateDB res" where
  "CreateAccount K addr s =
     tryE (createObject K addr s) (\<lambda>(newObj, prev, s1).
     case prev of None \<Rightarrow> Inr s1
     | Some p \<Rightarrow> Inr (setStateObject (newObj\<lparr>soAccount := (soAccount newObj)\<lparr>acBalance := acBalance (soAccount p)\<rparr>\<rparr>) s1))"

definition CreateContract :: "('s, 'b) SKeeper \<Rightarrow> addr \<Rightarrow> ('s, 'b) StateDB \<Rightarrow> ('s, 'b) StateDB res" where
  "CreateContract K address s =
     tryE (getStateObject K address s) (\<lambda>(o0, s1). tryE (deref o0) (\<lambda>obj.
     if \<not> newContract obj then Inr (journal_append (createContractChange address) (setStateObject (obj\<lparr>newContract := True\<rparr>) s1))
     else Inr s1))"

subsection \<open>Methods of an object\<close>

definition setBalance :: "int option \<Rightarrow> stateObject \<Rightarrow> stateObject" where
  "setBalance amount obj = obj\<lparr>soAccount := (soAccount obj)\<lparr>acBalance := amount\<rparr>\<rparr>"

definition setNonce :: "u64 \<Rightarrow> stateObject \<Rightarrow> stateObject" where
  "setNonce nonce obj = obj\<lparr>soAccount := (soAccount obj)\<lparr>acNonce := nonce\<rparr>\<rparr>"

definition setCode :: "hash \<Rightarrow> string option \<Rightarrow> stateObject \<Rightarrow> stateObject" where
  "setCode codeHash code obj = obj\<lparr>soCode := code, soAccount := (soAccount obj)\<lparr>acCodeHash := codeHash\<rparr>, dirtyCode := True\<rparr>"

definition setState :: "hash \<Rightarrow> hash \<Rightarrow> stateObject \<Rightarrow> stateObject" where
  "setState key val obj = obj\<lparr>dirtyStorage := AList.update key val (dirtyStorage obj)\<rparr>"

definition Obj_SetBalance :: "int \<Rightarrow> stateObject \<Rightarrow> ('s, 'b) StateDB \<Rightarrow> (int \<times> ('s, 'b) StateDB) res" where
  "Obj_SetBalance amount obj s =
     tryE (deref (acBalance (soAccount obj))) (\<lambda>prev.
     Inr (prev, setStateObject (setBalance (Some amount) obj) (journal_append (balanceChange (soAddress obj) (Some prev)) s)))"

definition Obj_AddBalance :: "int \<Rightarrow> stateObject \<Rightarrow> ('s, 'b) StateDB \<Rightarrow> (int \<times> ('s, 'b) StateDB) res" where
  "Obj_AddBalance amount obj s =
     tryE (deref (acBalance (soAccount obj))) (\<lambda>b.
     if amount = 0 then Inr (b, s)
     else if 2 ^ 256 \<le> b + amount then Inl (GoPanic ''state balance overflow'')
     else Obj_SetBalance (b + amount) obj s)"

definition Obj_SubBalance :: "int \<Rightarrow> stateObject \<Rightarrow> ('s, 'b) StateDB \<Rightarrow> (int \<times> ('s, 'b) StateDB) res" where
  "Obj_SubBalance amount obj s =
     tryE (deref (acBalance (soAccount obj))) (\<lambda>b.
     if amount = 0 then Inr (b, s)
     else if b < amount then Inl (GoPanic ''state balance underflow'')
     else Obj_SetBalance (b - amount) obj s)"

definition Obj_SetNonce :: "u64 \<Rightarrow> stateObject \<Rightarrow> ('s, 'b) StateDB \<Rightarrow> ('s, 'b) StateDB" where
  "Obj_SetNonce nonce obj s =
     setStateObject (setNonce nonce obj) (journal_append (nonceChange (soAddress obj) (acNonce (soAccount obj))) s)"

text \<open>The code is loaded once and kept in the object.\<close>

definition Obj_Code :: "('s, 'b) SKeeper \<Rightarrow> ('s, 'b) ctx \<Rightarrow> stateObject \<Rightarrow> string option \<times> stateObject" where
  "Obj_Code K c obj =
     (if soCode obj \<noteq> None then (soCode obj, obj)
      else if IsEmptyCodeHash (sk_geth K) (acCodeHash (soAccount obj)) then (None, obj)
      else let code = sk_GetCode K c (BytesToHash (sk_geth K) (acCodeHash (soAccount obj))) in (code, obj\<lparr>soCode := code\<rparr>))"

definition Obj_SetCode :: "('s, 'b) SKeeper \<Rightarrow> hash \<Rightarrow> string option \<Rightarrow> stateObject \<Rightarrow> ('s, 'b) StateDB \<Rightarrow> ('s, 'b) StateDB" where
  "Obj_SetCode K codeHash code obj s =
     (case Obj_Code K (sdCtx s) obj of (prevcode, obj1) \<Rightarrow>
      setStateObject (setCode codeHash code obj1)
        (journal_append (codeChange (soAddress obj1) prevcode (acCodeHash (soAccount obj1))) s))"

definition Obj_GetCommittedState :: "('s, 'b) SKeeper \<Rightarrow> ('s, 'b) ctx \<Rightarrow> hash \<Rightarrow> stateObject \<Rightarrow> hash \<times> stateObject" where
  "Obj_GetCommittedState K c key obj =
     (case overrideStorage obj of
        Some ov \<Rightarrow> (case map_of ov key of Some val \<Rightarrow> (val, obj) | None \<Rightarrow> (zeroHash, obj))
      | None \<Rightarrow> (case map_of (originStorage obj) key of Some val \<Rightarrow> (val, obj)
          | None \<Rightarrow> let val = sk_GetState K c (soAddress obj) key in (val, obj\<lparr>originStorage := AList.update key val (originStorage obj)\<rparr>)))"

definition Obj_GetState :: "('s, 'b) SKeeper \<Rightarrow> ('s, 'b) ctx \<Rightarrow> hash \<Rightarrow> stateObject \<Rightarrow> hash \<times> stateObject" where
  "Obj_GetState K c key obj =
     (case map_of (dirtyStorage obj) key of Some val \<Rightarrow> (val, obj) | None \<Rightarrow> Obj_GetCommittedState K c key obj)"

definition Obj_SetState :: "('s, 'b) SKeeper \<Rightarrow> hash \<Rightarrow> hash \<Rightarrow> stateObject \<Rightarrow> ('s, 'b) StateDB \<Rightarrow> hash \<times> ('s, 'b) StateDB" where
  "Obj_SetState K key val obj s =
     (case Obj_GetState K (sdCtx s) key obj of (prev, obj1) \<Rightarrow>
      if prev = val then (prev, setStateObject obj1 s)
      else (prev, setStateObject (setState key val obj1) (journal_append (storageChange (soAddress obj1) key prev) s)))"

definition Obj_SetStorage :: "Storage \<Rightarrow> stateObject \<Rightarrow> stateObject" where
  "Obj_SetStorage storage obj = obj\<lparr>overrideStorage := Some storage, originStorage := [], dirtyStorage := []\<rparr>"

section \<open>Methods of the database\<close>

subsection \<open>Readers\<close>

text \<open>Every reader may make an account live, so it returns the database too.\<close>

definition readObject :: "('s, 'b) SKeeper \<Rightarrow> addr \<Rightarrow> 'r \<Rightarrow> (stateObject \<Rightarrow> 'r \<times> stateObject) \<Rightarrow> ('s, 'b) StateDB \<Rightarrow> ('r \<times> ('s, 'b) StateDB) res" where
  "readObject K addr missing f s =
     tryE (getStateObject K addr s) (\<lambda>(o0, s1).
     case o0 of None \<Rightarrow> Inr (missing, s1) | Some obj \<Rightarrow> (case f obj of (r, obj1) \<Rightarrow> Inr (r, setStateObject obj1 s1)))"

definition Exist :: "('s, 'b) SKeeper \<Rightarrow> addr \<Rightarrow> ('s, 'b) StateDB \<Rightarrow> (bool \<times> ('s, 'b) StateDB) res" where
  "Exist K addr s = tryE (getStateObject K addr s) (\<lambda>(o0, s1). Inr (o0 \<noteq> None, s1))"

definition Db_Empty :: "('s, 'b) SKeeper \<Rightarrow> addr \<Rightarrow> ('s, 'b) StateDB \<Rightarrow> (bool \<times> ('s, 'b) StateDB) res" where
  "Db_Empty K addr s = tryE (getStateObject K addr s) (\<lambda>(o0, s1).
     case o0 of None \<Rightarrow> Inr (True, s1) | Some obj \<Rightarrow> tryE (obj_empty (sk_geth K) obj) (\<lambda>b. Inr (b, s1)))"

definition Db_GetBalance :: "('s, 'b) SKeeper \<Rightarrow> addr \<Rightarrow> ('s, 'b) StateDB \<Rightarrow> (int option \<times> ('s, 'b) StateDB) res" where
  "Db_GetBalance K addr = readObject K addr (Some 0) (\<lambda>obj. (acBalance (soAccount obj), obj))"

definition Db_GetNonce :: "('s, 'b) SKeeper \<Rightarrow> addr \<Rightarrow> ('s, 'b) StateDB \<Rightarrow> (u64 \<times> ('s, 'b) StateDB) res" where
  "Db_GetNonce K addr = readObject K addr 0 (\<lambda>obj. (acNonce (soAccount obj), obj))"

definition Db_GetCode :: "('s, 'b) SKeeper \<Rightarrow> addr \<Rightarrow> ('s, 'b) StateDB \<Rightarrow> (string option \<times> ('s, 'b) StateDB) res" where
  "Db_GetCode K addr s = readObject K addr None (Obj_Code K (sdCtx s)) s"

definition Db_GetCodeSize :: "('s, 'b) SKeeper \<Rightarrow> addr \<Rightarrow> ('s, 'b) StateDB \<Rightarrow> (nat \<times> ('s, 'b) StateDB) res" where
  "Db_GetCodeSize K addr s = readObject K addr 0
     (\<lambda>obj. case Obj_Code K (sdCtx s) obj of (code, obj1) \<Rightarrow> (case code of None \<Rightarrow> 0 | Some b \<Rightarrow> length b, obj1)) s"

definition Db_GetCodeHash :: "('s, 'b) SKeeper \<Rightarrow> addr \<Rightarrow> ('s, 'b) StateDB \<Rightarrow> (hash \<times> ('s, 'b) StateDB) res" where
  "Db_GetCodeHash K addr = readObject K addr zeroHash (\<lambda>obj. (BytesToHash (sk_geth K) (acCodeHash (soAccount obj)), obj))"

definition Db_GetState :: "('s, 'b) SKeeper \<Rightarrow> addr \<Rightarrow> hash \<Rightarrow> ('s, 'b) StateDB \<Rightarrow> (hash \<times> ('s, 'b) StateDB) res" where
  "Db_GetState K addr key s = readObject K addr zeroHash (Obj_GetState K (sdCtx s) key) s"

definition Db_GetCommittedState :: "('s, 'b) SKeeper \<Rightarrow> addr \<Rightarrow> hash \<Rightarrow> ('s, 'b) StateDB \<Rightarrow> (hash \<times> ('s, 'b) StateDB) res" where
  "Db_GetCommittedState K addr key s = readObject K addr zeroHash (Obj_GetCommittedState K (sdCtx s) key) s"

definition GetStateAndCommittedState :: "('s, 'b) SKeeper \<Rightarrow> addr \<Rightarrow> hash \<Rightarrow> ('s, 'b) StateDB \<Rightarrow> ((hash \<times> hash) \<times> ('s, 'b) StateDB) res" where
  "GetStateAndCommittedState K addr key s = readObject K addr (zeroHash, zeroHash)
     (\<lambda>obj. case Obj_GetState K (sdCtx s) key obj of (val, obj1) \<Rightarrow>
        (case Obj_GetCommittedState K (sdCtx s) key obj1 of (orig, obj2) \<Rightarrow> ((val, orig), obj2))) s"

definition HasSelfDestructed :: "('s, 'b) SKeeper \<Rightarrow> addr \<Rightarrow> ('s, 'b) StateDB \<Rightarrow> (bool \<times> ('s, 'b) StateDB) res" where
  "HasSelfDestructed K addr = readObject K addr False (\<lambda>obj. (selfDestructed obj, obj))"

definition IsStorageEmpty :: "('s, 'b) SKeeper \<Rightarrow> addr \<Rightarrow> ('s, 'b) StateDB \<Rightarrow> bool" where
  "IsStorageEmpty K addr s = storage_loop (\<lambda>_ _ _. (False, False)) (sk_Storage K (sdCtx s) addr) True"

definition Db_ForEachStorage :: "('s, 'b) SKeeper \<Rightarrow> addr \<Rightarrow> (hash \<Rightarrow> hash \<Rightarrow> 'c \<Rightarrow> bool \<times> 'c) \<Rightarrow> 'c \<Rightarrow> ('s, 'b) StateDB \<Rightarrow> ('c \<times> ('s, 'b) StateDB) res" where
  "Db_ForEachStorage K addr cb acc s =
     tryE (getStateObject K addr s) (\<lambda>(o0, s1).
     case o0 of None \<Rightarrow> Inr (acc, s1)
     | Some so \<Rightarrow> Inr (storage_loop (\<lambda>key val acc. case map_of (dirtyStorage so) key of Some d \<Rightarrow> cb key d acc
           | None \<Rightarrow> if 0 < length val then cb key val acc else (True, acc)) (sk_Storage K (sdCtx s1) addr) acc, s1))"

definition GetTransientState :: "addr \<Rightarrow> hash \<Rightarrow> ('s, 'b) StateDB \<Rightarrow> hash" where
  "GetTransientState addr key s = ts_Get (transient s) addr key"

definition AddressInAccessList :: "addr \<Rightarrow> ('s, 'b) StateDB \<Rightarrow> bool" where
  "AddressInAccessList addr s = ContainsAddress (accessList s) addr"

definition SlotInAccessList :: "addr \<Rightarrow> hash \<Rightarrow> ('s, 'b) StateDB \<Rightarrow> (bool \<times> bool) res" where
  "SlotInAccessList addr slot s = al_Contains (accessList s) addr slot"

definition IsEventProcessed :: "int \<Rightarrow> ('s, 'b) StateDB \<Rightarrow> bool" where
  "IsEventProcessed i s = (i < processedEventsCount s)"

subsection \<open>Setters\<close>

definition Db_AddBalance :: "('s, 'b) SKeeper \<Rightarrow> addr \<Rightarrow> int \<Rightarrow> ('s, 'b) StateDB \<Rightarrow> (int \<times> ('s, 'b) StateDB) res" where
  "Db_AddBalance K addr amount s = tryE (getOrNewStateObject K addr s) (\<lambda>(obj, s1). Obj_AddBalance amount obj s1)"

definition Db_SubBalance :: "('s, 'b) SKeeper \<Rightarrow> addr \<Rightarrow> int \<Rightarrow> ('s, 'b) StateDB \<Rightarrow> (int \<times> ('s, 'b) StateDB) res" where
  "Db_SubBalance K addr amount s = tryE (getOrNewStateObject K addr s) (\<lambda>(obj, s1).
     if amount = 0 then tryE (deref (acBalance (soAccount obj))) (\<lambda>b. Inr (b, s1)) else Obj_SubBalance amount obj s1)"

definition Db_SetBalance :: "('s, 'b) SKeeper \<Rightarrow> addr \<Rightarrow> int \<Rightarrow> ('s, 'b) StateDB \<Rightarrow> ('s, 'b) StateDB res" where
  "Db_SetBalance K addr amount s = tryE (getOrNewStateObject K addr s) (\<lambda>(obj, s1).
     tryE (Obj_SetBalance amount obj s1) (\<lambda>(_, s2). Inr s2))"

definition Db_SetNonce :: "('s, 'b) SKeeper \<Rightarrow> addr \<Rightarrow> u64 \<Rightarrow> ('s, 'b) StateDB \<Rightarrow> ('s, 'b) StateDB res" where
  "Db_SetNonce K addr nonce s = tryE (getOrNewStateObject K addr s) (\<lambda>(obj, s1). Inr (Obj_SetNonce nonce obj s1))"

definition bytesOf :: "string option \<Rightarrow> string" where
  "bytesOf b = (case b of None \<Rightarrow> [] | Some x \<Rightarrow> x)"

definition Db_SetCode :: "('s, 'b) SKeeper \<Rightarrow> addr \<Rightarrow> string option \<Rightarrow> ('s, 'b) StateDB \<Rightarrow> (string option \<times> ('s, 'b) StateDB) res" where
  "Db_SetCode K addr code s = tryE (getOrNewStateObject K addr s) (\<lambda>(obj, s1).
     Inr (soCode obj, Obj_SetCode K (Keccak256Hash K (bytesOf code)) code obj s1))"

definition Db_SetState :: "('s, 'b) SKeeper \<Rightarrow> addr \<Rightarrow> hash \<Rightarrow> hash \<Rightarrow> ('s, 'b) StateDB \<Rightarrow> (hash \<times> ('s, 'b) StateDB) res" where
  "Db_SetState K addr key val s = tryE (getOrNewStateObject K addr s) (\<lambda>(obj, s1). Inr (Obj_SetState K key val obj s1))"

definition Db_SetStorage :: "('s, 'b) SKeeper \<Rightarrow> addr \<Rightarrow> Storage \<Rightarrow> ('s, 'b) StateDB \<Rightarrow> ('s, 'b) StateDB res" where
  "Db_SetStorage K addr storage s = tryE (getOrNewStateObject K addr s) (\<lambda>(obj, s1). Inr (setStateObject (Obj_SetStorage storage obj) s1))"

definition SelfDestruct :: "('s, 'b) SKeeper \<Rightarrow> addr \<Rightarrow> ('s, 'b) StateDB \<Rightarrow> (int \<times> ('s, 'b) StateDB) res" where
  "SelfDestruct K addr s = tryE (getStateObject K addr s) (\<lambda>(o0, s1).
     case o0 of None \<Rightarrow> Inr (0, s1)
     | Some obj \<Rightarrow> tryE (deref (acBalance (soAccount obj))) (\<lambda>prevBalance.
         Inr (prevBalance, setStateObject (setBalance (Some 0) (obj\<lparr>selfDestructed := True\<rparr>))
           (journal_append (selfDestructChange addr (selfDestructed obj) (Some prevBalance)) s1))))"

definition SelfDestruct6780 :: "('s, 'b) SKeeper \<Rightarrow> addr \<Rightarrow> ('s, 'b) StateDB \<Rightarrow> ((int \<times> bool) \<times> ('s, 'b) StateDB) res" where
  "SelfDestruct6780 K addr s = tryE (getStateObject K addr s) (\<lambda>(o0, s1).
     case o0 of None \<Rightarrow> Inr ((0, False), s1)
     | Some obj \<Rightarrow>
         if newContract obj then tryE (SelfDestruct K addr s1) (\<lambda>(b, s2). Inr ((b, True), s2))
         else tryE (deref (acBalance (soAccount obj))) (\<lambda>b. Inr ((b, False), s1)))"

definition AddLog :: "eth_log \<Rightarrow> ('s, 'b) StateDB \<Rightarrow> ('s, 'b) StateDB" where
  "AddLog log s = (let s1 = journal_append addLogChange s in
     s1\<lparr>logs := logs s1 @ [log\<lparr>logTxIndex := cfgTxIndex (txConfig s1), logIndex := cfgLogIndex (txConfig s1) + of_nat (length (logs s1))\<rparr>]\<rparr>)"

definition AddRefund :: "u64 \<Rightarrow> ('s, 'b) StateDB \<Rightarrow> ('s, 'b) StateDB" where
  "AddRefund gas s = (let s1 = journal_append (refundChange (refund s)) s in s1\<lparr>refund := refund s1 + gas\<rparr>)"

definition SubRefund :: "u64 \<Rightarrow> ('s, 'b) StateDB \<Rightarrow> ('s, 'b) StateDB res" where
  "SubRefund gas s = (let s1 = journal_append (refundChange (refund s)) s in
     if refund s1 < gas then Inl (GoPanic ''Refund counter below zero'') else Inr (s1\<lparr>refund := refund s1 - gas\<rparr>))"

definition SetTransientState :: "addr \<Rightarrow> hash \<Rightarrow> hash \<Rightarrow> ('s, 'b) StateDB \<Rightarrow> ('s, 'b) StateDB" where
  "SetTransientState addr key val s =
     (let prev = GetTransientState addr key s in
      if prev = val then s
      else let s1 = journal_append (transientStorageChange addr key prev) s in s1\<lparr>transient := ts_Set addr key val (transient s1)\<rparr>)"

record prepare_rules = eth_rules +
  IsEIP2929 :: bool
  IsEIP4762 :: bool

definition Prepare :: "prepare_rules \<Rightarrow> addr \<Rightarrow> addr \<Rightarrow> addr option \<Rightarrow> addr list \<Rightarrow> (addr \<times> hash list) list \<Rightarrow>
    ('s, 'b) StateDB \<Rightarrow> ('s, 'b) StateDB res" where
  "Prepare rules sender coinbase dst precompiles list s =
     (if IsEIP2929 rules \<and> IsEIP4762 rules then Inl (GoPanic ''eip2929 and eip4762 are both activated'')
      else tryE (if IsEIP2929 rules then
            (let addA = (\<lambda>a al. snd (AddAddress a al));
                 al1 = addA sender newAccessList;
                 al2 = (case dst of None \<Rightarrow> al1 | Some d \<Rightarrow> addA d al1);
                 al3 = fold addA precompiles al2 in
             tryE (forE (\<lambda>(a, keys) al. forE (\<lambda>key al. tryE (AddSlot a key al) (\<lambda>(_, al1). Inr al1)) keys (addA a al)) list al3) (\<lambda>al4.
             Inr (s\<lparr>accessList := (if IsShanghai rules then addA coinbase al4 else al4)\<rparr>)))
           else Inr s) (\<lambda>s1. Inr (s1\<lparr>transient := Map.empty\<rparr>)))"

definition AddAddressToAccessList :: "addr \<Rightarrow> ('s, 'b) StateDB \<Rightarrow> ('s, 'b) StateDB" where
  "AddAddressToAccessList addr s = (case AddAddress addr (accessList s) of (changed, al) \<Rightarrow>
     let s1 = s\<lparr>accessList := al\<rparr> in if changed then journal_append (accessListAddAccountChange addr) s1 else s1)"

definition AddSlotToAccessList :: "addr \<Rightarrow> hash \<Rightarrow> ('s, 'b) StateDB \<Rightarrow> ('s, 'b) StateDB res" where
  "AddSlotToAccessList addr slot s = tryE (AddSlot addr slot (accessList s)) (\<lambda>((addrMod, slotMod), al).
     let s1 = s\<lparr>accessList := al\<rparr>;
         s2 = (if addrMod then journal_append (accessListAddAccountChange addr) s1 else s1) in
     Inr (if slotMod then journal_append (accessListAddSlotChange addr slot) s2 else s2))"

definition MarkEventProcessed :: "int \<Rightarrow> ('s, 'b) StateDB \<Rightarrow> ('s, 'b) StateDB res" where
  "MarkEventProcessed i s =
     (if i \<noteq> processedEventsCount s then Inl (GoPanic ''balance events must be processed sequentially'')
      else Inr (s\<lparr>processedEventsCount := processedEventsCount s + 1\<rparr>))"

definition finalise_one :: "geth \<Rightarrow> bool \<Rightarrow> addr \<Rightarrow> ('s, 'b) StateDB \<Rightarrow> ('s, 'b) StateDB res" where
  "finalise_one G deleteEmptyObjects addr s =
     (case stateObjects s addr of None \<Rightarrow> Inr s
      | Some obj \<Rightarrow> tryE (if selfDestructed obj then Inr True else if deleteEmptyObjects then obj_empty G obj else Inr False) (\<lambda>del.
          Inr (if del then s\<lparr>stateObjects := (stateObjects s)(soAddress obj := None)\<rparr> else s)))"

definition Finalise :: "geth \<Rightarrow> bool \<Rightarrow> ('s, 'b) StateDB \<Rightarrow> ('s, 'b) StateDB res" where
  "Finalise G deleteEmptyObjects s = forE (finalise_one G deleteEmptyObjects) (map fst (dirties s)) s"

subsection \<open>The cache context\<close>

text \<open>\<open>CacheContext\<close> of the SDK: the stores are branched, the events start empty and are appended to those of
  the parent when the branch is written.\<close>

definition CacheContext :: "('s, 'b) ctx \<Rightarrow> ('s, 'b) ctx" where
  "CacheContext c = c\<lparr>events := []\<rparr>"

definition writeContext :: "('s, 'b) ctx \<Rightarrow> ('s, 'b) ctx \<Rightarrow> ('s, 'b) ctx" where
  "writeContext branch c = branch\<lparr>events := events c @ events branch\<rparr>"

definition Db_cache :: "('s, 'b) ctx \<Rightarrow> ('s, 'b) cache_ctx" where
  "Db_cache c = \<lparr>snapshotter = kv_NewStore ((store c, bank c), (store c, bank c)), cacheEvents = []\<rparr>"

definition cacheCtx :: "('s, 'b) cache_ctx \<Rightarrow> ('s, 'b) ctx" where
  "cacheCtx k = \<lparr>store = fst (CurrentStore (snapshotter k)), bank = snd (CurrentStore (snapshotter k)), events = cacheEvents k\<rparr>"

definition setCacheCtx :: "('s, 'b) ctx \<Rightarrow> ('s, 'b) cache_ctx \<Rightarrow> ('s, 'b) cache_ctx" where
  "setCacheCtx c k = \<lparr>snapshotter = setCurrent (store c, bank c) (snapshotter k), cacheEvents = events c\<rparr>"

definition GetCacheContext :: "('s, 'b) StateDB \<Rightarrow> ('s, 'b) ctx \<times> ('s, 'b) StateDB" where
  "GetCacheContext s =
     (case sdCache s of Some k \<Rightarrow> (cacheCtx k, s)
      | None \<Rightarrow> let k = Db_cache (sdCtx s) in (cacheCtx k, s\<lparr>sdCache := Some k\<rparr>))"

definition MultiStoreSnapshot :: "('s, 'b) StateDB \<Rightarrow> (int \<times> ('s, 'b) StateDB) res" where
  "MultiStoreSnapshot s = tryE (deref (sdCache s)) (\<lambda>k.
     case kv_Snapshot (snapshotter k) of (i, st) \<Rightarrow> Inr (i, s\<lparr>sdCache := Some (k\<lparr>snapshotter := st\<rparr>)\<rparr>))"

definition RevertMultiStore :: "int \<Rightarrow> ('s, 'b) StateDB \<Rightarrow> ('s, 'b) StateDB res" where
  "RevertMultiStore snapshot s = tryE (deref (sdCache s)) (\<lambda>k.
     tryE (kv_RevertToSnapshot snapshot (snapshotter k)) (\<lambda>st. Inr (s\<lparr>sdCache := Some (k\<lparr>snapshotter := st\<rparr>)\<rparr>)))"

definition MaxPrecompileCalls :: "8 word" where "MaxPrecompileCalls = 20"

text \<open>The error is returned next to the changed database.\<close>

definition AddPrecompileFn :: "int \<Rightarrow> ('s, 'b) StateDB \<Rightarrow> (go_err option \<times> ('s, 'b) StateDB) res" where
  "AddPrecompileFn snapshot s = tryE (deref (sdCache s)) (\<lambda>k.
     let s1 = journal_append (precompileCallChange snapshot (cacheEvents k) (processedEventsCount s)) s;
         s2 = s1\<lparr>precompileCallsCounter := precompileCallsCounter s1 + 1\<rparr> in
     Inr (if MaxPrecompileCalls < precompileCallsCounter s2 then Some (Errorf ''max calls to precompiles reached'') else None, s2))"

subsection \<open>Committing\<close>

text \<open>One key of the dirty storage; the bytes of a hash are 32.\<close>

definition commit_slot :: "('s, 'b) SKeeper \<Rightarrow> stateObject \<Rightarrow> hash \<Rightarrow> ('s, 'b) ctx \<Rightarrow> ('s, 'b) ctx" where
  "commit_slot K obj key c =
     (let valueBytes = (case map_of (dirtyStorage obj) key of None \<Rightarrow> zeroHash | Some val \<Rightarrow> val) in
      if length valueBytes = 0 then sk_DeleteState K (soAddress obj) key c else sk_SetState K (soAddress obj) key valueBytes c)"

definition commit_code :: "('s, 'b) SKeeper \<Rightarrow> stateObject \<Rightarrow> ('s, 'b) ctx \<Rightarrow> ('s, 'b) ctx" where
  "commit_code K obj c =
     (case soCode obj of None \<Rightarrow> c
      | Some code \<Rightarrow>
          if dirtyCode obj then
            (if length code = 0 then sk_DeleteCode K (acCodeHash (soAccount obj)) c else sk_SetCode K (acCodeHash (soAccount obj)) code c)
          else c)"

definition commit_object :: "('s, 'b) SKeeper \<Rightarrow> stateObject \<Rightarrow> ('s, 'b) ctx \<Rightarrow> ('s, 'b) ctx res" where
  "commit_object K obj c =
     (if selfDestructed obj then sk_DeleteAccount K (soAddress obj) c
      else tryE (sk_SetAccount K (soAddress obj) (soAccount obj) (commit_code K obj c)) (\<lambda>c1.
        Inr (fold (commit_slot K obj) (SortedKeys (dirtyStorage obj)) c1)))"

definition commitWithCtx :: "('s, 'b) SKeeper \<Rightarrow> ('s, 'b) StateDB \<Rightarrow> ('s, 'b) ctx \<Rightarrow> ('s, 'b) ctx res" where
  "commitWithCtx K s c = forE (\<lambda>addr c. tryE (deref (stateObjects s addr)) (\<lambda>obj. commit_object K obj c)) (sortedDirties s) c"

text \<open>The write of the cache collapses its layers into the stores of the transaction.\<close>

definition Db_Commit :: "('s, 'b) SKeeper \<Rightarrow> ('s, 'b) StateDB \<Rightarrow> ('s, 'b) StateDB res" where
  "Db_Commit K s =
     (case sdCache s of
        Some k \<Rightarrow> tryE (commitWithCtx K s (cacheCtx k)) (\<lambda>c.
          let k1 = setCacheCtx c k; st = kv_Commit (snapshotter k1) in
          Inr (s\<lparr>sdCtx := \<lparr>store = fst (baseStore st), bank = snd (baseStore st), events = events (sdCtx s) @ cacheEvents k1\<rparr>,
            sdCache := Some (k1\<lparr>snapshotter := st\<rparr>)\<rparr>))
      | None \<Rightarrow> tryE (commitWithCtx K s (CacheContext (sdCtx s))) (\<lambda>c. Inr (s\<lparr>sdCtx := writeContext c (sdCtx s)\<rparr>)))"

definition FlushToCacheCtx :: "('s, 'b) SKeeper \<Rightarrow> ('s, 'b) StateDB \<Rightarrow> ('s, 'b) StateDB res" where
  "FlushToCacheCtx K s = tryE (deref (sdCache s)) (\<lambda>k. tryE (commitWithCtx K s (cacheCtx k)) (\<lambda>c.
     Inr (s\<lparr>sdCache := Some (setCacheCtx c k), processedEventsCount := int (length (events c))\<rparr>)))"

section \<open>Snapshots\<close>

definition Db_Snapshot :: "('s, 'b) StateDB \<Rightarrow> int \<times> ('s, 'b) StateDB" where
  "Db_Snapshot s = (let i = nextRevisionID s in
     (i, s\<lparr>nextRevisionID := i + 1, validRevisions := validRevisions s @ [\<lparr>revId = i, journalIndex = int (length (entries s))\<rparr>]\<rparr>))"

text \<open>Undoing one entry: a pointer to a missing object is nil.\<close>

definition onObject :: "('s, 'b) SKeeper \<Rightarrow> addr \<Rightarrow> (stateObject \<Rightarrow> stateObject) \<Rightarrow> ('s, 'b) StateDB \<Rightarrow> ('s, 'b) StateDB res" where
  "onObject K addr f s = tryE (getStateObject K addr s) (\<lambda>(o0, s1). tryE (deref o0) (\<lambda>obj. Inr (setStateObject (f obj) s1)))"

fun Revert :: "('s, 'b) SKeeper \<Rightarrow> journal_entry \<Rightarrow> ('s, 'b) StateDB \<Rightarrow> ('s, 'b) StateDB res" where
  "Revert K (createContractChange a) s = onObject K a (\<lambda>obj. obj\<lparr>newContract := False\<rparr>) s"
| "Revert K (precompileCallChange snapshot prevEvents prevCount) s =
     tryE (RevertMultiStore snapshot s) (\<lambda>s1. tryE (deref (sdCache s1)) (\<lambda>k.
     Inr (s1\<lparr>sdCache := Some (k\<lparr>cacheEvents := prevEvents\<rparr>), processedEventsCount := prevCount\<rparr>)))"
| "Revert K (createObjectChange a) s = Inr (s\<lparr>stateObjects := (stateObjects s)(a := None)\<rparr>)"
| "Revert K (resetObjectChange prev) s = Inr (setStateObject prev s)"
| "Revert K (selfDestructChange a prev prevbalance) s =
     tryE (getStateObject K a s) (\<lambda>(o0, s1). case o0 of None \<Rightarrow> Inr s1
       | Some obj \<Rightarrow> Inr (setStateObject (setBalance prevbalance (obj\<lparr>selfDestructed := prev\<rparr>)) s1))"
| "Revert K (balanceChange a prev) s = onObject K a (setBalance prev) s"
| "Revert K (nonceChange a prev) s = onObject K a (setNonce prev) s"
| "Revert K (codeChange a prevcode prevhash) s = onObject K a (setCode (BytesToHash (sk_geth K) prevhash) prevcode) s"
| "Revert K (storageChange a key prevalue) s = onObject K a (setState key prevalue) s"
| "Revert K (transientStorageChange a key prevalue) s = Inr (s\<lparr>transient := ts_Set a key prevalue (transient s)\<rparr>)"
| "Revert K (refundChange prev) s = Inr (s\<lparr>refund := prev\<rparr>)"
| "Revert K addLogChange s = (if logs s = [] then Inl (GoPanic ''slice bounds out of range'') else Inr (s\<lparr>logs := butlast (logs s)\<rparr>))"
| "Revert K (accessListAddAccountChange a) s = Inr (s\<lparr>accessList := DeleteAddress a (accessList s)\<rparr>)"
| "Revert K (accessListAddSlotChange a slot) s = tryE (DeleteSlot a slot (accessList s)) (\<lambda>al. Inr (s\<lparr>accessList := al\<rparr>))"

definition undirty :: "journal_entry \<Rightarrow> ('s, 'b) StateDB \<Rightarrow> ('s, 'b) StateDB" where
  "undirty entry s = (case Dirtied entry of None \<Rightarrow> s
     | Some a \<Rightarrow> let n = dirtyCount (dirties s) a - 1 in
         s\<lparr>dirties := (if n = 0 then AList.delete a (dirties s) else AList.update a n (dirties s))\<rparr>)"

definition journal_Revert :: "('s, 'b) SKeeper \<Rightarrow> nat \<Rightarrow> ('s, 'b) StateDB \<Rightarrow> ('s, 'b) StateDB res" where
  "journal_Revert K snapshot s =
     tryE (forE (\<lambda>entry s. tryE (Revert K entry s) (\<lambda>s1. Inr (undirty entry s1))) (rev (drop snapshot (entries s))) s) (\<lambda>s1.
     Inr (s1\<lparr>entries := take snapshot (entries s1)\<rparr>))"

text \<open>\<open>sort.Search\<close> of the Go library: the binary search, with its bounds and its midpoint.\<close>

function search_loop :: "(nat \<Rightarrow> bool) \<Rightarrow> nat \<Rightarrow> nat \<Rightarrow> nat" where
  "search_loop f i j = (if i < j then let h = (i + j) div 2 in if \<not> f h then search_loop f (h + 1) j else search_loop f i h else i)"
  by pat_completeness auto
termination by (relation "measure (\<lambda>(f, i, j). j - i)") auto

declare search_loop.simps [simp del]

definition sort_Search :: "nat \<Rightarrow> (nat \<Rightarrow> bool) \<Rightarrow> nat" where
  "sort_Search n f = search_loop f 0 n"

definition RevertToSnapshot :: "('s, 'b) SKeeper \<Rightarrow> int \<Rightarrow> ('s, 'b) StateDB \<Rightarrow> ('s, 'b) StateDB res" where
  "RevertToSnapshot K revid s =
     (let n = length (validRevisions s); i = sort_Search n (\<lambda>i. revid \<le> revId (validRevisions s ! i)) in
      if i = n \<or> revId (validRevisions s ! i) \<noteq> revid then Inl (GoPanic ''revision id cannot be reverted'')
      else tryE (journal_Revert K (nat (journalIndex (validRevisions s ! i))) s) (\<lambda>s1.
        Inr (s1\<lparr>validRevisions := take i (validRevisions s1)\<rparr>)))"

end
