(* ===== verification/State_Revert.thy ===== *)
theory State_Revert
  imports State_Db
begin

text \<open>
  Snapshots of the state database. What the database shows of an account does not depend on what it has
  cached; the view \<open>view_db\<close> is what it shows of everything: accounts, code, storage, refund, logs, transient
  storage, access list, the dirty accounts, and the cache context with its events. The journal refines an
  undo on views (\<open>undo_entry\<close>), and every method that changes the database appends entries whose undo gives
  the view back (\<open>undoable\<close>). So a return to a snapshot, after any sequence of methods with snapshots and
  returns nested in it (\<open>db_step\<close>), gives the view the database had when the snapshot was taken.
\<close>

section \<open>What the database shows\<close>

record obj_view =
  vAccount :: vm_account
  vCode :: "string option"
  vState :: "hash \<Rightarrow> hash"
  vCommitted :: "hash \<Rightarrow> hash"
  vDestructed :: bool
  vNew :: bool

definition view_obj :: "('s, 'b) SKeeper \<Rightarrow> ('s, 'b) ctx \<Rightarrow> stateObject \<Rightarrow> obj_view" where
  "view_obj K c obj = \<lparr>vAccount = soAccount obj, vCode = fst (Obj_Code K c obj), vState = (\<lambda>key. fst (Obj_GetState K c key obj)),
     vCommitted = (\<lambda>key. fst (Obj_GetCommittedState K c key obj)), vDestructed = selfDestructed obj, vNew = newContract obj\<rparr>"

definition view_kept :: "('s, 'b) SKeeper \<Rightarrow> ('s, 'b) ctx \<Rightarrow> addr \<Rightarrow> obj_view option res" where
  "view_kept K c a = tryE (sk_GetAccount K c a) (\<lambda>account. Inr (map_option (\<lambda>acc. view_obj K c (newObject (sk_geth K) a acc)) account))"

definition view_at :: "('s, 'b) SKeeper \<Rightarrow> ('s, 'b) StateDB \<Rightarrow> addr \<Rightarrow> obj_view option res" where
  "view_at K s a = (case stateObjects s a of Some obj \<Rightarrow> Inr (Some (view_obj K (sdCtx s) obj)) | None \<Rightarrow> view_kept K (sdCtx s) a)"

record ('s, 'b) db_view =
  wObjects :: "addr \<Rightarrow> obj_view option res"
  wRefund :: u64
  wLogs :: "eth_log list"
  wTransient :: "addr \<Rightarrow> hash \<Rightarrow> hash"
  wAccess :: access_list
  wDirties :: "addr \<rightharpoonup> int"
  wCache :: "('s, 'b) cache_ctx"
  wProcessed :: int

definition cacheOf :: "('s, 'b) StateDB \<Rightarrow> ('s, 'b) cache_ctx" where
  "cacheOf s = (case sdCache s of None \<Rightarrow> Db_cache (sdCtx s) | Some k \<Rightarrow> k)"

definition view_db :: "('s, 'b) SKeeper \<Rightarrow> ('s, 'b) StateDB \<Rightarrow> ('s, 'b) db_view" where
  "view_db K s = \<lparr>wObjects = view_at K s, wRefund = refund s, wLogs = logs s, wTransient = ts_Get (transient s), wAccess = accessList s,
     wDirties = map_of (dirties s), wCache = cacheOf s, wProcessed = processedEventsCount s\<rparr>"

lemma view_db_sel [simp]:
  "wObjects (view_db K s) = view_at K s" "wRefund (view_db K s) = refund s" "wLogs (view_db K s) = logs s"
  "wTransient (view_db K s) = ts_Get (transient s)" "wAccess (view_db K s) = accessList s" "wDirties (view_db K s) = map_of (dirties s)"
  "wCache (view_db K s) = cacheOf s" "wProcessed (view_db K s) = processedEventsCount s"
  by (simp_all add: view_db_def)

section \<open>Undo on views\<close>

definition code_seen :: "('s, 'b) SKeeper \<Rightarrow> ('s, 'b) ctx \<Rightarrow> string option \<Rightarrow> string \<Rightarrow> string option" where
  "code_seen K c code h = (if code \<noteq> None then code else if IsEmptyCodeHash (sk_geth K) h then None else sk_GetCode K c (BytesToHash (sk_geth K) h))"

definition onView :: "addr \<Rightarrow> (obj_view \<Rightarrow> obj_view) \<Rightarrow> ('s, 'b) db_view \<Rightarrow> ('s, 'b) db_view res" where
  "onView a f w = tryE (wObjects w a) (\<lambda>v0. tryE (deref v0) (\<lambda>v. Inr (w\<lparr>wObjects := (wObjects w)(a := Inr (Some (f v)))\<rparr>)))"

fun undo_entry :: "('s, 'b) SKeeper \<Rightarrow> ('s, 'b) ctx \<Rightarrow> journal_entry \<Rightarrow> ('s, 'b) db_view \<Rightarrow> ('s, 'b) db_view res" where
  "undo_entry K c (createContractChange a) w = onView a (\<lambda>v. v\<lparr>vNew := False\<rparr>) w"
| "undo_entry K c (precompileCallChange snapshot prevEvents prevCount) w =
     tryE (kv_RevertToSnapshot snapshot (snapshotter (wCache w))) (\<lambda>st.
     Inr (w\<lparr>wCache := (wCache w)\<lparr>snapshotter := st, cacheEvents := prevEvents\<rparr>, wProcessed := prevCount\<rparr>))"
| "undo_entry K c (createObjectChange a) w = Inr (w\<lparr>wObjects := (wObjects w)(a := view_kept K c a)\<rparr>)"
| "undo_entry K c (resetObjectChange prev) w = Inr (w\<lparr>wObjects := (wObjects w)(soAddress prev := Inr (Some (view_obj K c prev)))\<rparr>)"
| "undo_entry K c (selfDestructChange a prev prevbalance) w =
     tryE (wObjects w a) (\<lambda>v0. case v0 of None \<Rightarrow> Inr w
       | Some v \<Rightarrow> Inr (w\<lparr>wObjects := (wObjects w)(a := Inr (Some (v\<lparr>vAccount := (vAccount v)\<lparr>acBalance := prevbalance\<rparr>, vDestructed := prev\<rparr>)))\<rparr>))"
| "undo_entry K c (balanceChange a prev) w = onView a (\<lambda>v. v\<lparr>vAccount := (vAccount v)\<lparr>acBalance := prev\<rparr>\<rparr>) w"
| "undo_entry K c (nonceChange a prev) w = onView a (\<lambda>v. v\<lparr>vAccount := (vAccount v)\<lparr>acNonce := prev\<rparr>\<rparr>) w"
| "undo_entry K c (codeChange a prevcode prevhash) w = (let h = BytesToHash (sk_geth K) prevhash in
     onView a (\<lambda>v. v\<lparr>vAccount := (vAccount v)\<lparr>acCodeHash := h\<rparr>, vCode := code_seen K c prevcode h\<rparr>) w)"
| "undo_entry K c (storageChange a key prevalue) w = onView a (\<lambda>v. v\<lparr>vState := (vState v)(key := prevalue)\<rparr>) w"
| "undo_entry K c (transientStorageChange a key prevalue) w = Inr (w\<lparr>wTransient := (wTransient w)(a := (wTransient w a)(key := prevalue))\<rparr>)"
| "undo_entry K c (refundChange prev) w = Inr (w\<lparr>wRefund := prev\<rparr>)"
| "undo_entry K c addLogChange w = (if wLogs w = [] then Inl (GoPanic ''slice bounds out of range'') else Inr (w\<lparr>wLogs := butlast (wLogs w)\<rparr>))"
| "undo_entry K c (accessListAddAccountChange a) w = Inr (w\<lparr>wAccess := DeleteAddress a (wAccess w)\<rparr>)"
| "undo_entry K c (accessListAddSlotChange a slot) w = tryE (DeleteSlot a slot (wAccess w)) (\<lambda>al. Inr (w\<lparr>wAccess := al\<rparr>))"

definition undirty_view :: "journal_entry \<Rightarrow> ('s, 'b) db_view \<Rightarrow> ('s, 'b) db_view" where
  "undirty_view entry w = (case Dirtied entry of None \<Rightarrow> w
     | Some a \<Rightarrow> let n = (case wDirties w a of None \<Rightarrow> 0 | Some n \<Rightarrow> n) - 1 in
         w\<lparr>wDirties := (wDirties w)(a := (if n = 0 then None else Some n))\<rparr>)"

definition undo :: "('s, 'b) SKeeper \<Rightarrow> ('s, 'b) ctx \<Rightarrow> journal_entry list \<Rightarrow> ('s, 'b) db_view \<Rightarrow> ('s, 'b) db_view res" where
  "undo K c es = forE (\<lambda>entry w. tryE (undo_entry K c entry w) (\<lambda>w1. Inr (undirty_view entry w1))) (rev es)"

lemma undo_Nil [simp]: "undo K c [] w = Inr w"
  by (simp add: undo_def)

lemma undo_append: "undo K c (es @ fs) w = tryE (undo K c fs w) (undo K c es)"
  by (simp add: undo_def forE_append)

section \<open>The invariant of the database\<close>

definition obj_ok :: "('s, 'b) SKeeper \<Rightarrow> stateObject \<Rightarrow> bool" where
  "obj_ok K obj \<longleftrightarrow> BytesToHash (sk_geth K) (acCodeHash (soAccount obj)) = acCodeHash (soAccount obj)"

definition objects_ok :: "('s, 'b) SKeeper \<Rightarrow> ('s, 'b) StateDB \<Rightarrow> bool" where
  "objects_ok K s \<longleftrightarrow> (\<forall>a obj. stateObjects s a = Some obj \<longrightarrow> soAddress obj = a \<and> obj_ok K obj)"

definition resets_ok :: "('s, 'b) SKeeper \<Rightarrow> journal_entry list \<Rightarrow> bool" where
  "resets_ok K es \<longleftrightarrow> (\<forall>prev. resetObjectChange prev \<in> set es \<longrightarrow> obj_ok K prev)"

definition al_ok :: "access_list \<Rightarrow> bool" where
  "al_ok al \<longleftrightarrow> {} \<notin> set (al_slots al) \<and> (\<forall>a i. al_addresses al a = Some i \<longrightarrow> - 1 \<le> i \<and> i < int (length (al_slots al)))"

definition view_ok :: "('s, 'b) db_view \<Rightarrow> bool" where
  "view_ok w \<longleftrightarrow> al_ok (wAccess w) \<and> (\<forall>a n. wDirties w a = Some n \<longrightarrow> 0 < n)"

definition core_ok :: "('s, 'b) SKeeper \<Rightarrow> ('s, 'b) StateDB \<Rightarrow> bool" where
  "core_ok K s \<longleftrightarrow> objects_ok K s \<and> resets_ok K (entries s) \<and> distinct (map fst (dirties s)) \<and> view_ok (view_db K s)"

text \<open>A method keeps the invariant, and undoing the entries it appended gives the view back.\<close>

definition undoable :: "('s, 'b) SKeeper \<Rightarrow> ('s, 'b) StateDB \<Rightarrow> ('s, 'b) StateDB \<Rightarrow> bool" where
  "undoable K s s1 \<longleftrightarrow> (core_ok K s \<longrightarrow> core_ok K s1 \<and>
     (\<exists>fs. entries s1 = entries s @ fs \<and> undo K (sdCtx s) fs (view_db K s1) = Inr (view_db K s))) \<and>
     sdCtx s1 = sdCtx s \<and> validRevisions s1 = validRevisions s \<and> nextRevisionID s1 = nextRevisionID s"

locale statedb_laws =
  fixes K :: "('s, 'b) SKeeper"
  assumes hash_idem: "BytesToHash (sk_geth K) (BytesToHash (sk_geth K) h) = BytesToHash (sk_geth K) h"
    and hash_nonempty: "BytesToHash (sk_geth K) h \<noteq> []"
    and hash_empty: "BytesToHash (sk_geth K) (EmptyCodeHash (sk_geth K)) = EmptyCodeHash (sk_geth K)"
    and hash_keccak: "BytesToHash (sk_geth K) (Keccak256Hash K b) = Keccak256Hash K b"
    and GetAccount_hash: "sk_GetAccount K c a = Inr (Some acc) \<Longrightarrow> BytesToHash (sk_geth K) (acCodeHash acc) = acCodeHash acc"


lemma undoable_refl [simp]: "undoable K s s"
  by (simp add: undoable_def)

lemma undoable_trans [trans]:
  assumes "undoable K s s1" and "undoable K s1 s2"
  shows "undoable K s s2"
proof -
  have "\<exists>fs. entries s2 = entries s @ fs \<and> undo K (sdCtx s) fs (view_db K s2) = Inr (view_db K s)" if "core_ok K s"
  proof -
    from assms(1) that obtain fs where 1: "entries s1 = entries s @ fs" "undo K (sdCtx s) fs (view_db K s1) = Inr (view_db K s)"
      "core_ok K s1" "sdCtx s1 = sdCtx s" by (auto simp: undoable_def)
    with assms(2) obtain gs where "entries s2 = entries s1 @ gs" "undo K (sdCtx s) gs (view_db K s2) = Inr (view_db K s1)"
      by (auto simp: undoable_def)
    with 1 have "entries s2 = entries s @ (fs @ gs)" "undo K (sdCtx s) (fs @ gs) (view_db K s2) = Inr (view_db K s)"
      by (simp_all add: undo_append)
    then show ?thesis by blast
  qed
  with assms show ?thesis by (simp add: undoable_def)
qed

text \<open>A change that appends nothing and shows nothing.\<close>

lemma undoable_silent:
  assumes "core_ok K s \<Longrightarrow> view_db K s1 = view_db K s" and "core_ok K s \<Longrightarrow> objects_ok K s1"
    and "entries s1 = entries s" "dirties s1 = dirties s" "sdCtx s1 = sdCtx s" "validRevisions s1 = validRevisions s" "nextRevisionID s1 = nextRevisionID s"
  shows "undoable K s s1"
proof -
  have "core_ok K s1" if "core_ok K s" using assms(1,2) [OF that] assms(3,4) that by (simp add: core_ok_def)
  with assms show ?thesis by (auto simp: undoable_def intro!: exI [of _ "[]"])
qed

text \<open>A change with one entry: the entry undoes it, but for the count of dirty accounts.\<close>

definition dirtied :: "journal_entry \<Rightarrow> (addr \<rightharpoonup> int) \<Rightarrow> (addr \<rightharpoonup> int)" where
  "dirtied e d = (case Dirtied e of None \<Rightarrow> d | Some a \<Rightarrow> d(a \<mapsto> (case d a of None \<Rightarrow> 0 | Some n \<Rightarrow> n) + 1))"

lemma undirty_dirtied:
  assumes "\<forall>a n. wDirties w a = Some n \<longrightarrow> 0 < n"
  shows "undirty_view e (w\<lparr>wDirties := dirtied e (wDirties w)\<rparr>) = w"
proof (cases "Dirtied e")
  case (Some a)
  then show ?thesis using assms by (cases "wDirties w a") (auto simp: undirty_view_def dirtied_def Let_def intro!: db_view.equality)
qed (simp add: undirty_view_def dirtied_def)

lemma append_sel [simp]:
  "entries (journal_append e s) = entries s @ [e]" "map_of (dirties (journal_append e s)) = dirtied e (map_of (dirties s))"
  "stateObjects (journal_append e s) = stateObjects s" "refund (journal_append e s) = refund s" "logs (journal_append e s) = logs s"
  "transient (journal_append e s) = transient s" "accessList (journal_append e s) = accessList s" "sdCache (journal_append e s) = sdCache s"
  "processedEventsCount (journal_append e s) = processedEventsCount s" "sdCtx (journal_append e s) = sdCtx s"
  "validRevisions (journal_append e s) = validRevisions s" "nextRevisionID (journal_append e s) = nextRevisionID s"
  "txConfig (journal_append e s) = txConfig s" "precompileCallsCounter (journal_append e s) = precompileCallsCounter s"
  by (auto simp: journal_append_def dirtied_def dirtyCount_def update_conv' split: option.splits)

lemma append_clean [simp]: "Dirtied e = None \<Longrightarrow> dirties (journal_append e s) = dirties s" "Dirtied e = None \<Longrightarrow> dirtied e d = d"
  by (simp_all add: journal_append_def dirtied_def)

lemma append_distinct: "distinct (map fst (dirties s)) \<Longrightarrow> distinct (map fst (dirties (journal_append e s)))"
  by (auto simp: journal_append_def distinct_update split: option.splits)

lemma undoable_entry:
  assumes "core_ok K s \<Longrightarrow> undo_entry K (sdCtx s) e (view_db K s1) = Inr ((view_db K s)\<lparr>wDirties := dirtied e (map_of (dirties s))\<rparr>)"
    and "core_ok K s \<Longrightarrow> objects_ok K s1 \<and> al_ok (accessList s1)" and "core_ok K s \<Longrightarrow> resets_ok K [e]"
    and "entries s1 = entries s @ [e]" and "dirties s1 = dirties (journal_append e s)"
    and "sdCtx s1 = sdCtx s" "validRevisions s1 = validRevisions s" "nextRevisionID s1 = nextRevisionID s"
  shows "undoable K s s1"
proof -
  have "core_ok K s1" "undo K (sdCtx s) [e] (view_db K s1) = Inr (view_db K s)" if ok: "core_ok K s"
  proof -
    have pos: "\<forall>a n. wDirties (view_db K s) a = Some n \<longrightarrow> 0 < n" using ok by (simp add: core_ok_def view_ok_def)
    have "0 < n" if "dirtied e (map_of (dirties s)) a = Some n" for a n
    proof (cases "Dirtied e = Some a")
      case True
      with that have "n = (case map_of (dirties s) a of None \<Rightarrow> 0 | Some n \<Rightarrow> n) + 1" by (simp add: dirtied_def)
      moreover have "0 < m" if "map_of (dirties s) a = Some m" for m using pos that by simp
      ultimately show ?thesis by (auto split: option.splits)
    next
      case False
      with that have "map_of (dirties s) a = Some n" by (auto simp: dirtied_def split: option.splits if_splits)
      then show ?thesis using pos by simp
    qed
    then have "view_ok (view_db K s1)" using assms(2) [OF ok] assms(5) by (simp add: view_ok_def)
    then show "core_ok K s1" using assms(2,3) [OF ok] ok assms(4,5)
      by (auto simp: core_ok_def resets_ok_def append_distinct)
    show "undo K (sdCtx s) [e] (view_db K s1) = Inr (view_db K s)"
      using assms(1) [OF ok] undirty_dirtied [OF pos, of e] by (simp add: undo_def)
  qed
  with assms(4,6-) show ?thesis by (auto simp: undoable_def)
qed

section \<open>Objects\<close>

lemma put_sel [simp]:
  "stateObjects (setStateObject obj s) = (stateObjects s)(soAddress obj \<mapsto> obj)" "entries (setStateObject obj s) = entries s"
  "dirties (setStateObject obj s) = dirties s" "refund (setStateObject obj s) = refund s" "logs (setStateObject obj s) = logs s"
  "transient (setStateObject obj s) = transient s" "accessList (setStateObject obj s) = accessList s" "sdCache (setStateObject obj s) = sdCache s"
  "processedEventsCount (setStateObject obj s) = processedEventsCount s" "sdCtx (setStateObject obj s) = sdCtx s"
  "validRevisions (setStateObject obj s) = validRevisions s" "nextRevisionID (setStateObject obj s) = nextRevisionID s"
  "precompileCallsCounter (setStateObject obj s) = precompileCallsCounter s"
  by (simp_all add: setStateObject_def)

lemma view_at_put [simp]:
  "view_at K (setStateObject obj s) = (view_at K s)(soAddress obj := Inr (Some (view_obj K (sdCtx s) obj)))"
  by (auto simp: view_at_def fun_eq_iff split: option.split)

lemma view_at_append [simp]: "view_at K (journal_append e s) = view_at K s"
  by (simp add: view_at_def fun_eq_iff split: option.split)

lemma view_at_live: "stateObjects s a = Some obj \<Longrightarrow> view_at K s a = Inr (Some (view_obj K (sdCtx s) obj))"
  by (simp add: view_at_def)

lemma cacheOf_put [simp]: "cacheOf (setStateObject obj s) = cacheOf s" "cacheOf (journal_append e s) = cacheOf s"
  by (simp_all add: cacheOf_def split: option.split)

lemma newObject_address [simp]: "soAddress (newObject G a acc) = a"
  by (simp add: newObject_def)

lemma view_put: "view_db K (setStateObject obj s) = (view_db K s)\<lparr>wObjects := (view_at K s)(soAddress obj := Inr (Some (view_obj K (sdCtx s) obj)))\<rparr>"
  by (simp add: view_db_def)

lemma view_append: "view_db K (journal_append e s) = (view_db K s)\<lparr>wDirties := dirtied e (map_of (dirties s))\<rparr>"
  by (simp add: view_db_def)

lemma objects_ok_put: "objects_ok K s \<Longrightarrow> obj_ok K obj \<Longrightarrow> objects_ok K (setStateObject obj s)"
  by (auto simp: objects_ok_def)

lemma objects_ok_append [simp]: "objects_ok K (journal_append e s) = objects_ok K s"
  by (simp add: objects_ok_def)

text \<open>Caching in an object does not show, and changes neither address nor account.\<close>

lemma Obj_Code_snd:
  "view_obj K c (snd (Obj_Code K c obj)) = view_obj K c obj" "soAddress (snd (Obj_Code K c obj)) = soAddress obj"
  "soAccount (snd (Obj_Code K c obj)) = soAccount obj" "obj_ok K (snd (Obj_Code K c obj)) = obj_ok K obj"
  by (auto simp: Obj_Code_def view_obj_def Obj_GetState_def Obj_GetCommittedState_def obj_ok_def Let_def split: option.splits)

lemma Committed_snd:
  "view_obj K c (snd (Obj_GetCommittedState K c key obj)) = view_obj K c obj" "soAddress (snd (Obj_GetCommittedState K c key obj)) = soAddress obj"
  "obj_ok K (snd (Obj_GetCommittedState K c key obj)) = obj_ok K obj"
  by (auto simp: Obj_Code_def view_obj_def Obj_GetState_def Obj_GetCommittedState_def obj_ok_def Let_def update_conv' fun_eq_iff split: option.splits)

lemma GetState_snd:
  "view_obj K c (snd (Obj_GetState K c key obj)) = view_obj K c obj" "soAddress (snd (Obj_GetState K c key obj)) = soAddress obj"
  "obj_ok K (snd (Obj_GetState K c key obj)) = obj_ok K obj"
  using Committed_snd [of K c key obj] by (auto simp: Obj_GetState_def split: option.splits)

text \<open>How the setters change the view.\<close>

lemma obj_ok_upd [simp]:
  "obj_ok K (setBalance b obj) = obj_ok K obj" "obj_ok K (setNonce n obj) = obj_ok K obj" "obj_ok K (setState key val obj) = obj_ok K obj"
  "obj_ok K (obj\<lparr>newContract := x\<rparr>) = obj_ok K obj" "obj_ok K (obj\<lparr>selfDestructed := x\<rparr>) = obj_ok K obj"
  "obj_ok K (setCode h code obj) = (BytesToHash (sk_geth K) h = h)"
  by (simp_all add: obj_ok_def setBalance_def setNonce_def setState_def setCode_def)

lemma address_upd [simp]:
  "soAddress (setBalance b obj) = soAddress obj" "soAddress (setNonce n obj) = soAddress obj" "soAddress (setState key val obj) = soAddress obj"
  "soAddress (setCode h code obj) = soAddress obj"
  by (simp_all add: setBalance_def setNonce_def setState_def setCode_def)

lemma view_upd:
  "view_obj K c (setBalance b obj) = (view_obj K c obj)\<lparr>vAccount := (soAccount obj)\<lparr>acBalance := b\<rparr>\<rparr>"
  "view_obj K c (setNonce n obj) = (view_obj K c obj)\<lparr>vAccount := (soAccount obj)\<lparr>acNonce := n\<rparr>\<rparr>"
  "view_obj K c (obj\<lparr>newContract := x\<rparr>) = (view_obj K c obj)\<lparr>vNew := x\<rparr>"
  "view_obj K c (obj\<lparr>selfDestructed := x\<rparr>) = (view_obj K c obj)\<lparr>vDestructed := x\<rparr>"
  "view_obj K c (setCode h code obj) = (view_obj K c obj)\<lparr>vAccount := (soAccount obj)\<lparr>acCodeHash := h\<rparr>, vCode := code_seen K c code h\<rparr>"
  "view_obj K c (setState key val obj) = (view_obj K c obj)\<lparr>vState := (vState (view_obj K c obj))(key := val)\<rparr>"
  by (auto simp: view_obj_def setBalance_def setNonce_def setCode_def setState_def code_seen_def Obj_Code_def Obj_GetState_def
      Obj_GetCommittedState_def Let_def update_conv' fun_eq_iff split: option.split)

lemma view_sel [simp]: "vAccount (view_obj K c obj) = soAccount obj" "vDestructed (view_obj K c obj) = selfDestructed obj"
  "vNew (view_obj K c obj) = newContract obj"
  by (simp_all add: view_obj_def)

lemma undoable_cache:
  assumes "stateObjects s a = Some obj" and "view_obj K (sdCtx s) obj1 = view_obj K (sdCtx s) obj"
    and "soAddress obj1 = soAddress obj" "obj_ok K obj1 = obj_ok K obj"
  shows "undoable K s (setStateObject obj1 s)"
proof (rule undoable_silent)
  assume "core_ok K s"
  then have ok: "soAddress obj = a" "obj_ok K obj" "objects_ok K s" using assms(1) by (auto simp: core_ok_def objects_ok_def)
  have "(view_at K s)(a := Inr (Some (view_obj K (sdCtx s) obj))) = view_at K s" using view_at_live [OF assms(1), of K] by (auto simp: fun_eq_iff)
  then show "view_db K (setStateObject obj1 s) = view_db K s" using assms(2,3) ok(1) by (simp add: view_put)
  show "objects_ok K (setStateObject obj1 s)" using assms(4) ok by (intro objects_ok_put) auto
qed simp_all

text \<open>A journaled change of a live object, undone by a function on its view.\<close>

lemma undoable_object:
  assumes "stateObjects s a = Some obj" and "\<And>w. undo_entry K (sdCtx s) e w = onView (soAddress obj) f w"
    and "core_ok K s \<Longrightarrow> f (view_obj K (sdCtx s) obj1) = view_obj K (sdCtx s) obj"
    and "soAddress obj1 = soAddress obj" and "core_ok K s \<Longrightarrow> obj_ok K obj \<Longrightarrow> obj_ok K obj1" and "\<And>p. e \<noteq> resetObjectChange p"
  shows "undoable K s (setStateObject obj1 (journal_append e s))"
proof (rule undoable_entry [where e = e])
  assume core: "core_ok K s"
  then have ok: "soAddress obj = a" "obj_ok K obj" "objects_ok K s" "al_ok (accessList s)"
    using assms(1) by (auto simp: core_ok_def objects_ok_def view_ok_def)
  have "(view_at K s)(a := Inr (Some (view_obj K (sdCtx s) obj))) = view_at K s" using view_at_live [OF assms(1), of K] by (auto simp: fun_eq_iff)
  then show "undo_entry K (sdCtx s) e (view_db K (setStateObject obj1 (journal_append e s)))
      = Inr ((view_db K s)\<lparr>wDirties := dirtied e (map_of (dirties s))\<rparr>)"
    using assms(3) [OF core] assms(4) ok(1) by (simp add: assms(2) ok(1) onView_def view_put view_append view_db_def)
  show "objects_ok K (setStateObject obj1 (journal_append e s)) \<and> al_ok (accessList (setStateObject obj1 (journal_append e s)))"
    using assms(5) [OF core ok(2)] ok by (simp add: objects_ok_put)
  show "resets_ok K [e]" using assms(6) by (auto simp: resets_ok_def)
qed simp_all

context statedb_laws
begin

lemma newObject_ok [simp]: "sk_GetAccount K c a = Inr (Some acc) \<Longrightarrow> obj_ok K (newObject (sk_geth K) a' acc)"
  "obj_ok K (newObject (sk_geth K) a' zeroAccount)"
  using GetAccount_hash hash_empty by (auto simp: newObject_def obj_ok_def zeroAccount_def)

text \<open>Loading an account does not show.\<close>

lemma getStateObject_undoable:
  assumes "getStateObject K a s = Inr (x, s1)"
  shows "undoable K s s1" and "x = stateObjects s1 a" and "x = None \<Longrightarrow> s1 = s \<and> view_at K s a = Inr None \<and> view_kept K (sdCtx s) a = Inr None"
proof -
  show "x = stateObjects s1 a" using assms by (auto simp: getStateObject_def Let_def split: option.splits)
  show "s1 = s \<and> view_at K s a = Inr None \<and> view_kept K (sdCtx s) a = Inr None" if "x = None"
    using assms that by (auto simp: getStateObject_def Let_def view_at_def view_kept_def split: option.splits)
  show "undoable K s s1"
  proof (cases "stateObjects s a")
    case (Some obj)
    then show ?thesis using assms by (simp add: getStateObject_def)
  next
    case None
    note live = this
    with assms obtain acc where acc: "sk_GetAccount K (sdCtx s) a = Inr acc" by (auto simp: getStateObject_def)
    show ?thesis
    proof (cases acc)
      case None
      with live acc assms show ?thesis by (simp add: getStateObject_def)
    next
      case (Some acct)
      let ?o = "newObject (sk_geth K) a acct"
      have s1: "s1 = setStateObject ?o s" using assms live acc Some by (simp add: getStateObject_def Let_def)
      have "(view_at K s)(a := Inr (Some (view_obj K (sdCtx s) ?o))) = view_at K s"
        using live acc Some by (auto simp: view_at_def view_kept_def fun_eq_iff)
      then have "view_db K s1 = view_db K s" unfolding s1 view_put by simp
      moreover have "objects_ok K s1" if "core_ok K s" using that acc Some by (simp add: s1 core_ok_def objects_ok_put)
      ultimately show ?thesis by (intro undoable_silent) (simp_all add: s1)
    qed
  qed
qed

lemma getStateObject_ok:
  assumes "getStateObject K a s = Inr (Some obj, s1)" and "core_ok K s"
  shows "stateObjects s1 a = Some obj" and "soAddress obj = a" and "obj_ok K obj" and "core_ok K s1"
proof -
  show l: "stateObjects s1 a = Some obj" using getStateObject_undoable(2) [OF assms(1)] by simp
  show c: "core_ok K s1" using getStateObject_undoable(1) [OF assms(1)] assms(2) by (simp add: undoable_def)
  from l c show "soAddress obj = a" "obj_ok K obj" by (auto simp: core_ok_def objects_ok_def)
qed

lemma undoable_reset:
  assumes "stateObjects s a = Some p" and "soAddress obj = a" and "obj_ok K obj"
  shows "undoable K s (setStateObject obj (journal_append (resetObjectChange p) s))"
proof (rule undoable_entry [where e = "resetObjectChange p"])
  assume "core_ok K s"
  then have ok: "soAddress p = a" "obj_ok K p" "objects_ok K s" "al_ok (accessList s)"
    using assms(1) by (auto simp: core_ok_def objects_ok_def view_ok_def)
  have "(view_at K s)(a := Inr (Some (view_obj K (sdCtx s) p))) = view_at K s" using view_at_live [OF assms(1), of K] by (auto simp: fun_eq_iff)
  then show "undo_entry K (sdCtx s) (resetObjectChange p) (view_db K (setStateObject obj (journal_append (resetObjectChange p) s)))
      = Inr ((view_db K s)\<lparr>wDirties := dirtied (resetObjectChange p) (map_of (dirties s))\<rparr>)"
    using assms(2) ok(1) by (simp add: view_put view_append view_db_def)
  show "objects_ok K (setStateObject obj (journal_append (resetObjectChange p) s)) \<and>
      al_ok (accessList (setStateObject obj (journal_append (resetObjectChange p) s)))"
    using assms(3) ok by (simp add: objects_ok_put)
  show "resets_ok K [resetObjectChange p]" using ok(2) by (simp add: resets_ok_def)
qed simp_all

lemma undoable_create:
  assumes "view_at K s a = Inr None" and "view_kept K (sdCtx s) a = Inr None" and "soAddress obj = a" and "obj_ok K obj"
  shows "undoable K s (setStateObject obj (journal_append (createObjectChange a) s))"
proof (rule undoable_entry [where e = "createObjectChange a"])
  assume "core_ok K s"
  then have ok: "objects_ok K s" "al_ok (accessList s)" by (auto simp: core_ok_def view_ok_def)
  have "(view_at K s)(a := Inr None) = view_at K s" using assms(1) by (auto simp: fun_eq_iff)
  then show "undo_entry K (sdCtx s) (createObjectChange a) (view_db K (setStateObject obj (journal_append (createObjectChange a) s)))
      = Inr ((view_db K s)\<lparr>wDirties := dirtied (createObjectChange a) (map_of (dirties s))\<rparr>)"
    using assms(2,3) by (simp add: view_put view_append view_db_def)
  show "objects_ok K (setStateObject obj (journal_append (createObjectChange a) s)) \<and>
      al_ok (accessList (setStateObject obj (journal_append (createObjectChange a) s)))"
    using assms(4) ok by (simp add: objects_ok_put)
qed (simp_all add: resets_ok_def)

lemma createObject_undoable:
  assumes "createObject K a s = Inr (obj, prev, s1)" and "obj1 = obj\<lparr>soAccount := acc\<rparr>" and "obj_ok K obj1"
  shows "undoable K s (setStateObject obj1 s1)" and "obj = newObject (sk_geth K) a zeroAccount" and "stateObjects s1 a = Some obj"
proof -
  from assms(1) obtain s0 where g: "getStateObject K a s = Inr (prev, s0)"
    and o: "obj = newObject (sk_geth K) a zeroAccount"
    and s1: "s1 = setStateObject obj (journal_append (case prev of None \<Rightarrow> createObjectChange a | Some p \<Rightarrow> resetObjectChange p) s0)"
    by (auto simp: createObject_def Let_def)
  show "obj = newObject (sk_geth K) a zeroAccount" "stateObjects s1 a = Some obj" using o s1 by simp_all
  have two: "setStateObject obj1 s1 = setStateObject obj1 (journal_append (case prev of None \<Rightarrow> createObjectChange a | Some p \<Rightarrow> resetObjectChange p) s0)"
    by (simp add: s1 setStateObject_def assms(2))
  have addr: "soAddress obj1 = a" by (simp add: assms(2) o)
  have "undoable K s0 (setStateObject obj1 s1)"
  proof (cases prev)
    case None
    with getStateObject_undoable(3) [OF g] have "view_at K s0 a = Inr None" "view_kept K (sdCtx s0) a = Inr None" by auto
    from undoable_create [OF this addr assms(3)] show ?thesis unfolding two None by simp
  next
    case (Some p)
    with getStateObject_undoable(2) [OF g] have "stateObjects s0 a = Some p" by simp
    from undoable_reset [OF this addr assms(3)] show ?thesis unfolding two Some by simp
  qed
  with getStateObject_undoable(1) [OF g] show "undoable K s (setStateObject obj1 s1)" by (rule undoable_trans)
qed

lemma createObject_plain:
  assumes "createObject K a s = Inr (obj, prev, s1)"
  shows "undoable K s s1" and "stateObjects s1 a = Some obj"
proof -
  have o: "obj = newObject (sk_geth K) a zeroAccount" "setStateObject obj s1 = s1"
    using assms by (auto simp: createObject_def Let_def setStateObject_def)
  have "obj_ok K obj" "obj = obj\<lparr>soAccount := soAccount obj\<rparr>" by (simp_all add: o(1))
  from createObject_undoable [OF assms this(2,1)] o(2) show "undoable K s s1" "stateObjects s1 a = Some obj" by simp_all
qed

lemma getOrNew_undoable:
  assumes "getOrNewStateObject K a s = Inr (obj, s1)"
  shows "undoable K s s1" and "stateObjects s1 a = Some obj"
proof -
  from assms obtain x s0 where g: "getStateObject K a s = Inr (x, s0)"
    and r: "(case x of Some o1 \<Rightarrow> Inr (o1, s0) | None \<Rightarrow> tryE (createObject K a s0) (\<lambda>(o1, _, s2). Inr (o1, s2))) = Inr (obj, s1)"
    by (auto simp: getOrNewStateObject_def)
  note l = getStateObject_undoable [OF g]
  have "undoable K s0 s1 \<and> stateObjects s1 a = Some obj"
  proof (cases x)
    case None
    with r obtain prev where "createObject K a s0 = Inr (obj, prev, s1)" by auto
    with createObject_plain show ?thesis by blast
  next
    case (Some o1)
    with r have "obj = o1" "s1 = s0" by simp_all
    with Some l(2) show ?thesis by simp
  qed
  with undoable_trans [OF l(1)] show "undoable K s s1" "stateObjects s1 a = Some obj" by blast+
qed

lemma CreateAccount_undoable:
  assumes "CreateAccount K a s = Inr s1"
  shows "undoable K s s1"
proof -
  from assms obtain obj prev s0 where c: "createObject K a s = Inr (obj, prev, s0)"
    and s1: "s1 = (case prev of None \<Rightarrow> s0 | Some p \<Rightarrow> setStateObject (obj\<lparr>soAccount := (soAccount obj)\<lparr>acBalance := acBalance (soAccount p)\<rparr>\<rparr>) s0)"
    by (auto simp: CreateAccount_def split: option.splits)
  have "obj = newObject (sk_geth K) a zeroAccount" using c by (auto simp: createObject_def Let_def)
  then have "obj_ok K (obj\<lparr>soAccount := (soAccount obj)\<lparr>acBalance := b\<rparr>\<rparr>)" for b using newObject_ok(2) [of a] by (simp add: obj_ok_def)
  with createObject_undoable(1) [OF c refl] createObject_plain(1) [OF c] s1 show ?thesis by (auto split: option.splits)
qed

lemma CreateContract_undoable:
  assumes "CreateContract K a s = Inr s1"
  shows "undoable K s s1"
proof -
  from assms obtain obj s0 where g: "getStateObject K a s = Inr (Some obj, s0)"
    and s1: "s1 = (if \<not> newContract obj then journal_append (createContractChange a) (setStateObject (obj\<lparr>newContract := True\<rparr>) s0) else s0)"
    by (auto simp: CreateContract_def split: if_splits)
  note l = getStateObject_undoable [OF g]
  have swap: "journal_append e (setStateObject o1 s0) = setStateObject o1 (journal_append e s0)" for e o1
    by (cases "Dirtied e") (simp_all add: journal_append_def setStateObject_def)
  have live: "stateObjects s0 a = Some obj" using l(2) by simp
  have "undoable K s0 (setStateObject (obj\<lparr>newContract := True\<rparr>) (journal_append (createContractChange a) s0))"
    if "\<not> newContract obj" "core_ok K s0"
  proof -
    have "soAddress obj = a" using live that(2) by (auto simp: core_ok_def objects_ok_def)
    with that(1) show ?thesis
      by (intro undoable_object [OF live, where f = "\<lambda>v. v\<lparr>vNew := False\<rparr>"]) (auto simp: view_upd intro!: obj_view.equality)
  qed
  then have "undoable K s0 s1" using s1 by (cases "core_ok K s0") (auto simp: swap undoable_def)
  with l(1) show ?thesis by (rule undoable_trans)
qed

section \<open>Methods\<close>

text \<open>Methods of a live object.\<close>

lemma SetBalance_undoable:
  assumes "stateObjects s a = Some obj" and "Obj_SetBalance x obj s = Inr (r, s1)"
  shows "undoable K s s1"
proof -
  from assms(2) obtain prev where p: "acBalance (soAccount obj) = Some prev"
    and s1: "s1 = setStateObject (setBalance (Some x) obj) (journal_append (balanceChange (soAddress obj) (Some prev)) s)"
    by (auto simp: Obj_SetBalance_def)
  have e: "(soAccount obj)\<lparr>acBalance := Some prev\<rparr> = soAccount obj" by (rule vm_account.equality) (simp_all add: p)
  show ?thesis unfolding s1
    by (rule undoable_object [OF assms(1), where f = "\<lambda>v. v\<lparr>vAccount := (vAccount v)\<lparr>acBalance := Some prev\<rparr>\<rparr>"])
      (auto simp: view_upd e intro!: obj_view.equality)
qed

lemma SetNonce_undoable:
  assumes "stateObjects s a = Some obj"
  shows "undoable K s (Obj_SetNonce n obj s)"
  unfolding Obj_SetNonce_def
  by (rule undoable_object [OF assms, where f = "\<lambda>v. v\<lparr>vAccount := (vAccount v)\<lparr>acNonce := acNonce (soAccount obj)\<rparr>\<rparr>"])
    (auto simp: view_upd intro!: obj_view.equality)

lemma SetCode_undoable:
  assumes "stateObjects s a = Some obj" and "BytesToHash (sk_geth K) h = h"
  shows "undoable K s (Obj_SetCode K h code obj s)"
proof -
  obtain prevcode obj1 where c: "Obj_Code K (sdCtx s) obj = (prevcode, obj1)" by fastforce
  note o1 = Obj_Code_snd [of K "sdCtx s" obj, unfolded c snd_conv]
  let ?s = "setStateObject obj1 s"
  have 1: "undoable K s ?s" using o1 assms(1) by (intro undoable_cache)
  show ?thesis
  proof (cases "core_ok K s")
    case True
    then have ok: "soAddress obj = a" "obj_ok K obj" using assms(1) by (auto simp: core_ok_def objects_ok_def)
    have live: "stateObjects ?s a = Some obj1" using o1(2) ok(1) by simp
    have hh: "BytesToHash (sk_geth K) (acCodeHash (soAccount obj)) = acCodeHash (soAccount obj)" using ok(2) by (simp add: obj_ok_def)
    have pc: "code_seen K (sdCtx s) prevcode (acCodeHash (soAccount obj)) = vCode (view_obj K (sdCtx s) obj)"
      using c by (auto simp: view_obj_def code_seen_def Obj_Code_def Let_def split: if_splits)
    have "undoable K ?s (setStateObject (setCode h code obj1) (journal_append (codeChange (soAddress obj1) prevcode (acCodeHash (soAccount obj1))) ?s))"
      using o1 hh pc assms(2)
      by (intro undoable_object [OF live, where f = "\<lambda>v. v\<lparr>vAccount := (vAccount v)\<lparr>acCodeHash := acCodeHash (soAccount obj)\<rparr>,
            vCode := code_seen K (sdCtx s) prevcode (acCodeHash (soAccount obj))\<rparr>"])
        (auto simp: view_upd intro!: obj_view.equality)
    moreover have "setStateObject (setCode h code obj1) (journal_append e ?s) = setStateObject (setCode h code obj1) (journal_append e s)" for e
      by (cases "Dirtied e") (simp_all add: setStateObject_def journal_append_def)
    ultimately show ?thesis using undoable_trans [OF 1] c by (simp add: Obj_SetCode_def)
  qed (simp add: undoable_def Obj_SetCode_def c)
qed

lemma SetState_undoable:
  assumes "stateObjects s a = Some obj" and "Obj_SetState K key val obj s = (r, s1)"
  shows "undoable K s s1"
proof -
  obtain prev obj1 where c: "Obj_GetState K (sdCtx s) key obj = (prev, obj1)" by fastforce
  note o1 = GetState_snd [of K "sdCtx s" key obj, unfolded c snd_conv]
  let ?s = "setStateObject obj1 s"
  have 1: "undoable K s ?s" using o1 assms(1) by (intro undoable_cache)
  show ?thesis
  proof (cases "core_ok K s \<and> prev \<noteq> val")
    case True
    then have live: "stateObjects ?s a = Some obj1" using o1(2) assms(1) by (auto simp: core_ok_def objects_ok_def)
    have "vState (view_obj K (sdCtx s) obj1) key = prev" using c o1(1) by (simp add: view_obj_def)
    then have same: "(view_obj K (sdCtx s) obj1)\<lparr>vState := (vState (view_obj K (sdCtx s) obj1))(key := prev)\<rparr> = view_obj K (sdCtx s) obj1"
      by (intro obj_view.equality) auto
    have "undoable K ?s (setStateObject (setState key val obj1) (journal_append (storageChange (soAddress obj1) key prev) ?s))"
      using same by (intro undoable_object [OF live, where f = "\<lambda>v. v\<lparr>vState := (vState v)(key := prev)\<rparr>"]) (simp_all add: view_upd)
    moreover have "setStateObject (setState key val obj1) (journal_append e ?s) = setStateObject (setState key val obj1) (journal_append e s)" for e
      by (cases "Dirtied e") (simp_all add: setStateObject_def journal_append_def)
    ultimately show ?thesis using undoable_trans [OF 1] c assms(2) True by (auto simp: Obj_SetState_def)
  qed (use 1 c assms(2) in \<open>auto simp: undoable_def Obj_SetState_def split: if_splits\<close>)
qed

lemma AddBalance_undoable:
  assumes "stateObjects s a = Some obj" and "Obj_AddBalance x obj s = Inr (r, s1)"
  shows "undoable K s s1"
  using assms(2) SetBalance_undoable [OF assms(1)] by (auto simp: Obj_AddBalance_def split: if_splits)

lemma SubBalance_undoable:
  assumes "stateObjects s a = Some obj" and "Obj_SubBalance x obj s = Inr (r, s1)"
  shows "undoable K s s1"
  using assms(2) SetBalance_undoable [OF assms(1)] by (auto simp: Obj_SubBalance_def split: if_splits)

text \<open>Methods of the database.\<close>

lemma via_object:
  assumes "tryE (getOrNewStateObject K a s) (\<lambda>(obj, s0). f obj s0) = Inr r"
    and "\<And>obj s0. stateObjects s0 a = Some obj \<Longrightarrow> f obj s0 = Inr r \<Longrightarrow> undoable K s0 s1"
  shows "undoable K s s1"
proof -
  from assms(1) obtain obj s0 where g: "getOrNewStateObject K a s = Inr (obj, s0)" and f: "f obj s0 = Inr r" by auto
  from getOrNew_undoable [OF g] assms(2) [OF _ f] undoable_trans show ?thesis by blast
qed

lemma Db_AddBalance_undoable: "Db_AddBalance K a x s = Inr (r, s1) \<Longrightarrow> undoable K s s1"
  unfolding Db_AddBalance_def by (erule via_object) (rule AddBalance_undoable)

lemma Db_SubBalance_undoable: "Db_SubBalance K a x s = Inr (r, s1) \<Longrightarrow> undoable K s s1"
  unfolding Db_SubBalance_def by (erule via_object) (auto split: if_splits dest: SubBalance_undoable)

lemma Db_SetBalance_undoable: "Db_SetBalance K a x s = Inr s1 \<Longrightarrow> undoable K s s1"
  unfolding Db_SetBalance_def by (erule via_object) (auto dest: SetBalance_undoable)

lemma Db_SetNonce_undoable: "Db_SetNonce K a n s = Inr s1 \<Longrightarrow> undoable K s s1"
  unfolding Db_SetNonce_def by (erule via_object) (auto intro: SetNonce_undoable)

lemma Db_SetCode_undoable: "Db_SetCode K a code s = Inr (r, s1) \<Longrightarrow> undoable K s s1"
  unfolding Db_SetCode_def by (erule via_object) (auto intro!: SetCode_undoable hash_keccak)

lemma Db_SetState_undoable: "Db_SetState K a key val s = Inr (r, s1) \<Longrightarrow> undoable K s s1"
  unfolding Db_SetState_def by (erule via_object) (auto dest: SetState_undoable)

lemma SelfDestruct_undoable:
  assumes "SelfDestruct K a s = Inr (r, s1)"
  shows "undoable K s s1"
proof -
  from assms obtain x s0 where g: "getStateObject K a s = Inr (x, s0)" by (auto simp: SelfDestruct_def)
  note l = getStateObject_undoable [OF g]
  show ?thesis
  proof (cases x)
    case None
    with assms g l(1) show ?thesis by (simp add: SelfDestruct_def)
  next
    case (Some obj)
    with assms g obtain prev where p: "acBalance (soAccount obj) = Some prev"
      and s1: "s1 = setStateObject (setBalance (Some 0) (obj\<lparr>selfDestructed := True\<rparr>)) (journal_append (selfDestructChange a (selfDestructed obj) (Some prev)) s0)"
      by (auto simp: SelfDestruct_def)
    let ?e = "selfDestructChange a (selfDestructed obj) (Some prev)" and ?o = "setBalance (Some 0) (obj\<lparr>selfDestructed := True\<rparr>)"
    have e: "(soAccount obj)\<lparr>acBalance := Some prev\<rparr> = soAccount obj" by (rule vm_account.equality) (simp_all add: p)
    have live: "stateObjects s0 a = Some obj" using l(2) Some by simp
    have "undoable K s0 s1" unfolding s1
    proof (rule undoable_entry [where e = ?e])
      assume core: "core_ok K s0"
      then have ok: "soAddress obj = a" "obj_ok K obj" "objects_ok K s0" "al_ok (accessList s0)"
        using live by (auto simp: core_ok_def objects_ok_def view_ok_def)
      have v: "(view_obj K (sdCtx s0) ?o)\<lparr>vAccount := (vAccount (view_obj K (sdCtx s0) ?o))\<lparr>acBalance := Some prev\<rparr>, vDestructed := selfDestructed obj\<rparr>
          = view_obj K (sdCtx s0) obj" by (rule obj_view.equality) (simp_all add: view_upd e)
      have "(view_at K s0)(a := Inr (Some (view_obj K (sdCtx s0) obj))) = view_at K s0" using view_at_live [OF live, of K] by (auto simp: fun_eq_iff)
      with v show "undo_entry K (sdCtx s0) ?e (view_db K (setStateObject ?o (journal_append ?e s0)))
          = Inr ((view_db K s0)\<lparr>wDirties := dirtied ?e (map_of (dirties s0))\<rparr>)"
        using ok(1) by (simp add: view_put view_append view_db_def del: view_sel)
      show "objects_ok K (setStateObject ?o (journal_append ?e s0)) \<and> al_ok (accessList (setStateObject ?o (journal_append ?e s0)))"
        using ok by (simp add: objects_ok_put)
    qed (simp_all add: resets_ok_def)
    with l(1) show ?thesis by (rule undoable_trans)
  qed
qed

lemma SelfDestruct6780_undoable:
  assumes "SelfDestruct6780 K a s = Inr (r, s1)"
  shows "undoable K s s1"
proof -
  from assms obtain x s0 where g: "getStateObject K a s = Inr (x, s0)" by (auto simp: SelfDestruct6780_def)
  have "undoable K s0 s1" using assms g SelfDestruct_undoable by (auto simp: SelfDestruct6780_def split: option.splits if_splits)
  with getStateObject_undoable(1) [OF g] show ?thesis by (rule undoable_trans)
qed

text \<open>Readers only cache.\<close>

lemma readObject_undoable:
  assumes "readObject K a m f s = Inr (r, s1)"
    and "\<And>obj. view_obj K (sdCtx s) (snd (f obj)) = view_obj K (sdCtx s) obj \<and> soAddress (snd (f obj)) = soAddress obj \<and> obj_ok K (snd (f obj)) = obj_ok K obj"
  shows "undoable K s s1"
proof -
  from assms(1) obtain x s0 where g: "getStateObject K a s = Inr (x, s0)" by (auto simp: readObject_def)
  note l = getStateObject_undoable [OF g]
  have "undoable K s0 s1"
  proof (cases x)
    case None
    with assms(1) g show ?thesis by (simp add: readObject_def)
  next
    case (Some obj)
    with assms(1) g have s1: "s1 = setStateObject (snd (f obj)) s0" by (auto simp: readObject_def split: prod.splits)
    have "sdCtx s0 = sdCtx s" using l(1) by (simp add: undoable_def)
    with assms(2) [of obj] l(2) Some show ?thesis unfolding s1 by (intro undoable_cache) auto
  qed
  with l(1) show ?thesis by (rule undoable_trans)
qed

lemma readers_undoable:
  "Db_GetBalance K a s = Inr (r1, s1) \<Longrightarrow> undoable K s s1" "Db_GetNonce K a s = Inr (r2, s1) \<Longrightarrow> undoable K s s1"
  "Db_GetCode K a s = Inr (r3, s1) \<Longrightarrow> undoable K s s1" "Db_GetCodeHash K a s = Inr (r4, s1) \<Longrightarrow> undoable K s s1"
  "Db_GetState K a key s = Inr (r5, s1) \<Longrightarrow> undoable K s s1" "Db_GetCommittedState K a key s = Inr (r6, s1) \<Longrightarrow> undoable K s s1"
  "HasSelfDestructed K a s = Inr (r7, s1) \<Longrightarrow> undoable K s s1"
  unfolding Db_GetBalance_def Db_GetNonce_def Db_GetCode_def Db_GetCodeHash_def Db_GetState_def Db_GetCommittedState_def HasSelfDestructed_def
  by (erule readObject_undoable, simp add: Obj_Code_snd GetState_snd Committed_snd)+

lemma Exist_undoable: "Exist K a s = Inr (r, s1) \<Longrightarrow> undoable K s s1"
  using getStateObject_undoable(1) by (auto simp: Exist_def)

lemma Empty_undoable: "Db_Empty K a s = Inr (r, s1) \<Longrightarrow> undoable K s s1"
  using getStateObject_undoable(1) by (auto simp: Db_Empty_def split: option.splits)

end

text \<open>The other parts of the database.\<close>

lemma view_at_frame [simp]:
  "view_at K (s\<lparr>refund := x1\<rparr>) = view_at K s" "view_at K (s\<lparr>logs := x2\<rparr>) = view_at K s" "view_at K (s\<lparr>transient := x3\<rparr>) = view_at K s"
  "view_at K (s\<lparr>accessList := x4\<rparr>) = view_at K s" "view_at K (s\<lparr>sdCache := x5\<rparr>) = view_at K s"
  "view_at K (s\<lparr>processedEventsCount := x6\<rparr>) = view_at K s" "view_at K (s\<lparr>precompileCallsCounter := x7\<rparr>) = view_at K s"
  "view_at K (s\<lparr>entries := x8\<rparr>) = view_at K s" "view_at K (s\<lparr>dirties := x9\<rparr>) = view_at K s"
  "view_at K (s\<lparr>validRevisions := x10\<rparr>) = view_at K s" "view_at K (s\<lparr>nextRevisionID := x11\<rparr>) = view_at K s"
  by (simp_all add: view_at_def fun_eq_iff split: option.split)

lemma cacheOf_frame [simp]:
  "cacheOf (s\<lparr>refund := x1\<rparr>) = cacheOf s" "cacheOf (s\<lparr>logs := x2\<rparr>) = cacheOf s" "cacheOf (s\<lparr>transient := x3\<rparr>) = cacheOf s"
  "cacheOf (s\<lparr>accessList := x4\<rparr>) = cacheOf s" "cacheOf (s\<lparr>processedEventsCount := x6\<rparr>) = cacheOf s"
  "cacheOf (s\<lparr>precompileCallsCounter := x7\<rparr>) = cacheOf s" "cacheOf (s\<lparr>entries := x8\<rparr>) = cacheOf s"
  "cacheOf (s\<lparr>dirties := x9\<rparr>) = cacheOf s" "cacheOf (s\<lparr>validRevisions := x10\<rparr>) = cacheOf s" "cacheOf (s\<lparr>nextRevisionID := x11\<rparr>) = cacheOf s"
  "cacheOf (s\<lparr>stateObjects := x12\<rparr>) = cacheOf s"
  by (simp_all add: cacheOf_def split: option.split)

lemma cacheOf_set [simp]: "cacheOf (s\<lparr>sdCache := Some k\<rparr>) = k"
  by (simp add: cacheOf_def)

lemma objects_frame [simp]:
  "objects_ok K (s\<lparr>refund := x1\<rparr>) = objects_ok K s" "objects_ok K (s\<lparr>logs := x2\<rparr>) = objects_ok K s" "objects_ok K (s\<lparr>transient := x3\<rparr>) = objects_ok K s"
  "objects_ok K (s\<lparr>accessList := x4\<rparr>) = objects_ok K s" "objects_ok K (s\<lparr>sdCache := x5\<rparr>) = objects_ok K s"
  "objects_ok K (s\<lparr>processedEventsCount := x6\<rparr>) = objects_ok K s" "objects_ok K (s\<lparr>precompileCallsCounter := x7\<rparr>) = objects_ok K s"
  "objects_ok K (s\<lparr>entries := x8\<rparr>) = objects_ok K s" "objects_ok K (s\<lparr>dirties := x9\<rparr>) = objects_ok K s"
  "objects_ok K (s\<lparr>validRevisions := x10\<rparr>) = objects_ok K s" "objects_ok K (s\<lparr>nextRevisionID := x11\<rparr>) = objects_ok K s"
  by (simp_all add: objects_ok_def)

lemma core_parts: "core_ok K s \<Longrightarrow> objects_ok K s \<and> al_ok (accessList s)"
  by (simp add: core_ok_def view_ok_def)

lemma AddRefund_undoable: "undoable K s (AddRefund gas s)"
  by (rule undoable_entry [where e = "refundChange (refund s)"])
    (auto simp: AddRefund_def Let_def view_db_def core_parts resets_ok_def)

lemma SubRefund_undoable: "SubRefund gas s = Inr s1 \<Longrightarrow> undoable K s s1"
  by (rule undoable_entry [where e = "refundChange (refund s)"])
    (auto simp: SubRefund_def Let_def view_db_def core_parts resets_ok_def split: if_splits)

lemma AddLog_undoable: "undoable K s (AddLog log s)"
  by (rule undoable_entry [where e = addLogChange]) (auto simp: AddLog_def Let_def view_db_def core_parts resets_ok_def)

lemma ts_Get_Set: "ts_Get (ts_Set a key val t) = (ts_Get t)(a := (ts_Get t a)(key := val))"
  by (auto simp: ts_Get_def ts_Set_def Let_def fun_eq_iff update_conv' delete_conv' split: option.splits)
    (metis delete_conv' fun_upd_other map_of.simps(1) option.distinct(1))+

lemma SetTransientState_undoable: "undoable K s (SetTransientState a key val s)"
proof (cases "GetTransientState a key s = val")
  case False
  let ?e = "transientStorageChange a key (GetTransientState a key s)"
  show ?thesis
    by (rule undoable_entry [where e = ?e])
      (use False in \<open>auto simp: SetTransientState_def Let_def view_db_def core_parts resets_ok_def ts_Get_Set GetTransientState_def fun_eq_iff\<close>)
qed (simp add: SetTransientState_def)

lemma AddAddress_undoable: "undoable K s (AddAddressToAccessList a s)"
proof (cases "al_addresses (accessList s) a")
  case None
  have d: "DeleteAddress a ((accessList s)\<lparr>al_addresses := (al_addresses (accessList s))(a \<mapsto> - 1)\<rparr>) = accessList s"
    using None by (intro access_list.equality) (auto simp: DeleteAddress_def fun_upd_idem)
  have "al_ok ((accessList s)\<lparr>al_addresses := (al_addresses (accessList s))(a \<mapsto> - 1)\<rparr>)" if "al_ok (accessList s)"
    using that by (auto simp: al_ok_def)
  with None d show ?thesis
    by (intro undoable_entry [where e = "accessListAddAccountChange a"])
      (auto simp: AddAddressToAccessList_def AddAddress_def Let_def view_db_def core_parts resets_ok_def)
qed (simp add: AddAddressToAccessList_def AddAddress_def Let_def)

lemma idx_Inr [simp]: "idx xs i = Inr x \<longleftrightarrow> 0 \<le> i \<and> i < int (length xs) \<and> xs ! nat i = x"
  by (auto simp: idx_def)

text \<open>Deleting the slot that was added last gives the list back.\<close>

lemma DeleteSlot_AddSlot:
  assumes "al_ok al" and "al_addresses al a \<noteq> None" and "AddSlot a slot al = Inr ((b, True), al1)"
  shows "DeleteSlot a slot al1 = Inr al" and "al_ok al1" and "\<not> b"
proof -
  obtain i where i: "al_addresses al a = Some i" "- 1 \<le> i" "i < int (length (al_slots al))" using assms(1,2) by (auto simp: al_ok_def)
  have "DeleteSlot a slot al1 = Inr al \<and> al_ok al1 \<and> \<not> b"
  proof (cases "i = - 1")
    case True
    with assms(3) i(1) have al1: "al1 = al\<lparr>al_addresses := (al_addresses al)(a \<mapsto> int (length (al_slots al))), al_slots := al_slots al @ [{slot}]\<rparr>" "\<not> b"
      by (auto simp: AddSlot_def Let_def)
    have "idx (al_slots al @ [{slot}]) (int (length (al_slots al))) = Inr {slot}" by simp
    then have "DeleteSlot a slot al1 = Inr al"
      using i(1) True by (auto simp: al1 DeleteSlot_def Let_def fun_upd_idem intro!: access_list.equality)
    moreover have "al_ok al1" using assms(1) by (fastforce simp: al1 al_ok_def)
    ultimately show ?thesis using al1 by simp
  next
    case False
    let ?m = "al_slots al ! nat i"
    have r: "0 \<le> i" "nat i < length (al_slots al)" using False i by auto
    then have ix: "idx (al_slots al) i = Inr ?m" by simp
    have new: "slot \<notin> ?m" "al1 = al\<lparr>al_slots := (al_slots al)[nat i := insert slot ?m]\<rparr>" "\<not> b"
      using assms(3) i(1) False ix by (auto simp: AddSlot_def Let_def split: if_splits)
    have ne: "?m \<noteq> {}" using assms(1) r(2) by (metis al_ok_def nth_mem)
    have ix1: "idx ((al_slots al)[nat i := insert slot ?m]) i = Inr (insert slot ?m)" using r by simp
    have "DeleteSlot a slot al1 = Inr al"
      using i(1) new(1) ne ix1 by (auto simp: new(2) DeleteSlot_def Let_def intro!: access_list.equality)
    moreover have "al_ok al1" using assms(1) r(2) by (auto simp: new(2) al_ok_def dest!: set_update_subset_insert [THEN subsetD])
    ultimately show ?thesis using new by simp
  qed
  then show "DeleteSlot a slot al1 = Inr al" "al_ok al1" "\<not> b" by simp_all
qed

lemma AddSlot_present_undoable:
  assumes "al_addresses (accessList s) a \<noteq> None" and "AddSlotToAccessList a slot s = Inr s1"
  shows "undoable K s s1"
proof -
  from assms(2) obtain b d al where r: "AddSlot a slot (accessList s) = Inr ((b, d), al)" by (auto simp: AddSlotToAccessList_def)
  show ?thesis
  proof (cases "core_ok K s \<and> d")
    case True
    then have "al_ok (accessList s)" using core_parts by blast
    moreover have "AddSlot a slot (accessList s) = Inr ((b, True), al)" using r True by simp
    ultimately have x: "DeleteSlot a slot al = Inr (accessList s)" "al_ok al" "\<not> b" using DeleteSlot_AddSlot assms(1) by blast+
    have s1: "s1 = journal_append (accessListAddSlotChange a slot) (s\<lparr>accessList := al\<rparr>)" "DeleteSlot a slot al = Inr (accessList s)" "al_ok al"
      using assms(2) r True x by (simp_all add: AddSlotToAccessList_def Let_def)
    then show ?thesis
      by (intro undoable_entry [where e = "accessListAddSlotChange a slot"]) (auto simp: view_db_def core_parts resets_ok_def)
  next
    case False
    then consider "\<not> d" | "\<not> core_ok K s" "d" by blast
    then show ?thesis
    proof cases
      case 1
      with r have "al = accessList s" "\<not> b" by (auto simp: AddSlot_def Let_def split: if_splits)
      with 1 r assms(2) show ?thesis by (simp add: AddSlotToAccessList_def)
    qed (use assms(2) r in \<open>auto simp: undoable_def AddSlotToAccessList_def Let_def\<close>)
  qed
qed

lemma AddSlot_undoable:
  assumes "AddSlotToAccessList a slot s = Inr s1"
  shows "undoable K s s1"
proof (cases "al_addresses (accessList s) a")
  case None
  let ?s = "AddAddressToAccessList a s"
  have "al_addresses (accessList ?s) a \<noteq> None" using None by (simp add: AddAddressToAccessList_def AddAddress_def Let_def)
  moreover have "AddSlotToAccessList a slot ?s = Inr s1"
    using assms None by (auto simp: AddSlotToAccessList_def AddAddressToAccessList_def AddAddress_def AddSlot_def Let_def journal_append_def)
  ultimately show ?thesis using undoable_trans [OF AddAddress_undoable] AddSlot_present_undoable by blast
qed (use assms AddSlot_present_undoable in blast)

text \<open>A precompiled contract writes to the cache context and its events at will, after the snapshot and the
  entry: the flush of the dirty accounts, the native action, and what either leaves behind when it fails.\<close>

definition precompile_run :: "('s, 'b) StateDB \<Rightarrow> ('s, 'b) StateDB \<Rightarrow> bool" where
  "precompile_run s s1 \<longleftrightarrow> (\<exists>i s2 err s3 k c n. MultiStoreSnapshot (snd (GetCacheContext s)) = Inr (i, s2) \<and> AddPrecompileFn i s2 = Inr (err, s3) \<and>
     sdCache s3 = Some k \<and> s1 = s3\<lparr>sdCache := Some (setCacheCtx c k), processedEventsCount := n\<rparr>)"

lemma precompile_undoable:
  assumes "precompile_run s s1"
  shows "undoable K s s1"
proof -
  from assms obtain i s2 err s3 k c n where r: "MultiStoreSnapshot (snd (GetCacheContext s)) = Inr (i, s2)" "AddPrecompileFn i s2 = Inr (err, s3)"
    "sdCache s3 = Some k" "s1 = s3\<lparr>sdCache := Some (setCacheCtx c k), processedEventsCount := n\<rparr>" by (auto simp: precompile_run_def)
  let ?k = "cacheOf s" and ?e = "precompileCallChange i (cacheEvents (cacheOf s)) (processedEventsCount s)"
  have g: "snd (GetCacheContext s) = s\<lparr>sdCache := Some ?k\<rparr>"
    by (cases "sdCache s") (simp_all add: GetCacheContext_def cacheOf_def Let_def)
  have s2: "i = fst (kv_Snapshot (snapshotter ?k))" "s2 = s\<lparr>sdCache := Some (?k\<lparr>snapshotter := snd (kv_Snapshot (snapshotter ?k))\<rparr>)\<rparr>"
    using r(1) by (auto simp: g MultiStoreSnapshot_def case_prod_beta simp del: kv_Snapshot_index)
  have s3: "s3 = (journal_append ?e s2)\<lparr>precompileCallsCounter := precompileCallsCounter s2 + 1\<rparr>"
    "k = ?k\<lparr>snapshotter := snd (kv_Snapshot (snapshotter ?k))\<rparr>"
    using r(2,3) by (auto simp: AddPrecompileFn_def Let_def s2(2))
  have k: "k = ?k\<lparr>snapshotter := snd (kv_Snapshot (snapshotter ?k))\<rparr>" by (rule s3(2))
  have "kv_RevertToSnapshot i (snapshotter (setCacheCtx c k)) = Inr (snapshotter ?k)"
    unfolding s2(1) k setCacheCtx_def using kv_revert_snapshot [of "snapshotter ?k"] by simp
  moreover have "(setCacheCtx c k)\<lparr>snapshotter := snapshotter ?k, cacheEvents := cacheEvents ?k\<rparr> = ?k" by simp
  moreover have "view_db K s1 = (view_db K s)\<lparr>wDirties := dirtied ?e (map_of (dirties s)), wCache := setCacheCtx c k, wProcessed := n\<rparr>"
    by (simp add: r(4) s3(1) s2(2) view_db_def)
  ultimately have "undo_entry K (sdCtx s) ?e (view_db K s1) = Inr ((view_db K s)\<lparr>wDirties := dirtied ?e (map_of (dirties s))\<rparr>)"
    by (simp add: view_db_def)
  then show ?thesis
    by (intro undoable_entry [where e = ?e]) (auto simp: r(4) s3(1) s2(2) core_parts resets_ok_def)
qed

section \<open>The journal refines the undo on views\<close>

definition same_frame :: "('s, 'b) StateDB \<Rightarrow> ('s, 'b) StateDB \<Rightarrow> bool" where
  "same_frame s s1 \<longleftrightarrow> entries s1 = entries s \<and> sdCtx s1 = sdCtx s \<and> validRevisions s1 = validRevisions s \<and> nextRevisionID s1 = nextRevisionID s"

lemma same_frame_refl [simp]: "same_frame s s" and same_frame_trans: "same_frame s s1 \<Longrightarrow> same_frame s1 s2 \<Longrightarrow> same_frame s s2"
  by (simp_all add: same_frame_def)

lemma undirty_sel [simp]:
  "view_at K (undirty e s) = view_at K s" "objects_ok K (undirty e s) = objects_ok K s" "same_frame s1 (undirty e s) = same_frame s1 s"
  "cacheOf (undirty e s) = cacheOf s" "entries (undirty e s) = entries s"
  by (auto simp: undirty_def Let_def same_frame_def split: option.splits)

lemma view_undirty: "view_db K (undirty e s) = undirty_view e (view_db K s)"
  by (auto simp: undirty_def undirty_view_def view_db_def Let_def dirtyCount_def update_conv' delete_conv' split: option.split intro!: db_view.equality)

lemma undirty_distinct: "distinct (map fst (dirties s)) \<Longrightarrow> distinct (map fst (dirties (undirty e s)))"
  by (auto simp: undirty_def Let_def distinct_update distinct_delete split: option.split)

context statedb_laws
begin

lemma getStateObject_view:
  assumes "objects_ok K s" and "view_at K s a = Inr (Some v)"
  obtains obj s1 where "getStateObject K a s = Inr (Some obj, s1)" "view_obj K (sdCtx s) obj = v" "soAddress obj = a" "obj_ok K obj"
    "view_db K s1 = view_db K s" "objects_ok K s1" "same_frame s s1" "dirties s1 = dirties s"
proof (cases "stateObjects s a")
  case (Some obj)
  with assms show thesis by (intro that [of obj s]) (auto simp: getStateObject_def view_at_def objects_ok_def)
next
  case None
  with assms(2) obtain acc where acc: "sk_GetAccount K (sdCtx s) a = Inr (Some acc)" and v: "v = view_obj K (sdCtx s) (newObject (sk_geth K) a acc)"
    by (auto simp: view_at_def view_kept_def)
  let ?o = "newObject (sk_geth K) a acc"
  have "(view_at K s)(a := Inr (Some (view_obj K (sdCtx s) ?o))) = view_at K s" using assms(2) v by (auto simp: fun_eq_iff)
  then have "view_db K (setStateObject ?o s) = view_db K s" by (simp add: view_put)
  with None acc v assms(1) show thesis
    by (intro that [of ?o "setStateObject ?o s"]) (auto simp: getStateObject_def Let_def same_frame_def objects_ok_put)
qed

lemma onObject_sim:
  assumes "objects_ok K s" and "onView a f (view_db K s) = Inr w"
    and "\<And>obj. view_obj K (sdCtx s) (g obj) = f (view_obj K (sdCtx s) obj)" and "\<And>obj. soAddress (g obj) = soAddress obj"
    and "\<And>obj. obj_ok K obj \<Longrightarrow> obj_ok K (g obj)"
  shows "\<exists>s1. onObject K a g s = Inr s1 \<and> view_db K s1 = w \<and> objects_ok K s1 \<and> same_frame s s1 \<and> dirties s1 = dirties s"
proof -
  from assms(2) obtain v where v: "view_at K s a = Inr (Some v)" and w: "w = (view_db K s)\<lparr>wObjects := (view_at K s)(a := Inr (Some (f v)))\<rparr>"
    by (auto simp: onView_def)
  obtain obj s0 where g: "getStateObject K a s = Inr (Some obj, s0)" and o: "view_obj K (sdCtx s) obj = v" "soAddress obj = a" "obj_ok K obj"
    and s0: "view_db K s0 = view_db K s" "objects_ok K s0" "same_frame s s0" "dirties s0 = dirties s"
    by (rule getStateObject_view [OF assms(1) v])
  have at: "view_at K s0 = view_at K s" using arg_cong [OF s0(1), of wObjects] by simp
  have "view_db K (setStateObject (g obj) s0) = w"
    using s0 o assms(3,4) at by (simp add: view_put w same_frame_def)
  moreover have "onObject K a g s = Inr (setStateObject (g obj) s0)" by (simp add: onObject_def g)
  moreover have "objects_ok K (setStateObject (g obj) s0)" using s0(2) assms(5) [OF o(3)] by (rule objects_ok_put)
  ultimately show ?thesis using s0(3,4) by (simp add: same_frame_def)
qed

lemma Revert_sim:
  assumes "objects_ok K s" and "resets_ok K [e]" and "undo_entry K (sdCtx s) e (view_db K s) = Inr w"
  shows "\<exists>s1. Revert K e s = Inr s1 \<and> view_db K s1 = w \<and> objects_ok K s1 \<and> same_frame s s1 \<and> dirties s1 = dirties s"
proof (cases e)
  case (createObjectChange a)
  have "view_at K (s\<lparr>stateObjects := (stateObjects s)(a := None)\<rparr>) = (view_at K s)(a := view_kept K (sdCtx s) a)"
    by (auto simp: view_at_def fun_eq_iff split: option.split)
  with assms createObjectChange show ?thesis by (auto simp: view_db_def same_frame_def objects_ok_def)
next
  case (resetObjectChange p)
  with assms show ?thesis by (auto simp: view_put same_frame_def resets_ok_def objects_ok_put)
next
  case (selfDestructChange a d b)
  from assms(3) obtain v0 where v0: "view_at K s a = Inr v0" by (auto simp: selfDestructChange)
  show ?thesis
  proof (cases v0)
    case None
    then have "stateObjects s a = None" "sk_GetAccount K (sdCtx s) a = Inr None" using v0 by (auto simp: view_at_def view_kept_def split: option.splits)
    then have "getStateObject K a s = Inr (None, s)" by (simp add: getStateObject_def)
    with v0 None assms selfDestructChange show ?thesis by auto
  next
    case (Some v)
    obtain obj s0 where g: "getStateObject K a s = Inr (Some obj, s0)" and o: "view_obj K (sdCtx s) obj = v" "soAddress obj = a" "obj_ok K obj"
      and s0: "view_db K s0 = view_db K s" "objects_ok K s0" "same_frame s s0" "dirties s0 = dirties s"
      by (rule getStateObject_view [OF assms(1) v0 [unfolded Some]])
    have at: "view_at K s0 = view_at K s" using arg_cong [OF s0(1), of wObjects] by simp
    let ?o = "setBalance b (obj\<lparr>selfDestructed := d\<rparr>)"
    have "view_obj K (sdCtx s) ?o = v\<lparr>vAccount := (vAccount v)\<lparr>acBalance := b\<rparr>, vDestructed := d\<rparr>" by (simp add: view_upd o(1) [symmetric])
    then have "view_db K (setStateObject ?o s0) = w"
      using s0 o at assms(3) v0 Some by (auto simp: view_put selfDestructChange same_frame_def)
    with g o s0 selfDestructChange show ?thesis by (auto simp: objects_ok_put same_frame_def)
  qed
next
  case (balanceChange a b)
  then have "onView a (\<lambda>v. v\<lparr>vAccount := (vAccount v)\<lparr>acBalance := b\<rparr>\<rparr>) (view_db K s) = Inr w" using assms(3) by (simp add: Let_def)
  from onObject_sim [OF assms(1) this, of "setBalance b"] show ?thesis by (simp add: balanceChange view_upd)
next
  case (nonceChange a n)
  then have "onView a (\<lambda>v. v\<lparr>vAccount := (vAccount v)\<lparr>acNonce := n\<rparr>\<rparr>) (view_db K s) = Inr w" using assms(3) by (simp add: Let_def)
  from onObject_sim [OF assms(1) this, of "setNonce n"] show ?thesis by (simp add: nonceChange view_upd)
next
  case (storageChange a key val)
  then have "onView a (\<lambda>v. v\<lparr>vState := (vState v)(key := val)\<rparr>) (view_db K s) = Inr w" using assms(3) by (simp add: Let_def)
  from onObject_sim [OF assms(1) this, of "setState key val"] show ?thesis by (simp add: storageChange view_upd)
next
  case (codeChange a code h)
  then have "onView a (\<lambda>v. v\<lparr>vAccount := (vAccount v)\<lparr>acCodeHash := BytesToHash (sk_geth K) h\<rparr>, vCode := code_seen K (sdCtx s) code (BytesToHash (sk_geth K) h)\<rparr>) (view_db K s) = Inr w" using assms(3) by (simp add: Let_def)
  from onObject_sim [OF assms(1) this, of "setCode (BytesToHash (sk_geth K) h) code"] show ?thesis by (simp add: codeChange view_upd hash_idem)
next
  case (createContractChange a)
  then have "onView a (\<lambda>v. v\<lparr>vNew := False\<rparr>) (view_db K s) = Inr w" using assms(3) by (simp add: Let_def)
  from onObject_sim [OF assms(1) this, of "\<lambda>obj. obj\<lparr>newContract := False\<rparr>"] show ?thesis by (simp add: createContractChange view_upd)
next
  case (precompileCallChange i es n)
  with assms(3) obtain st where st: "kv_RevertToSnapshot i (snapshotter (cacheOf s)) = Inr st" by auto
  then obtain k where k: "sdCache s = Some k"
    by (cases "sdCache s") (auto simp: kv_RevertToSnapshot_def cacheOf_def Db_cache_def kv_NewStore_def split: if_splits)
  with st assms precompileCallChange show ?thesis
    by (auto simp: RevertMultiStore_def cacheOf_def same_frame_def view_db_def)
qed (use assms in \<open>auto simp: view_db_def same_frame_def ts_Get_Set\<close>)

lemma undo_sim:
  assumes "objects_ok K s" and "resets_ok K es" and "distinct (map fst (dirties s))" and "undo K (sdCtx s) es (view_db K s) = Inr w"
  shows "\<exists>s1. forE (\<lambda>entry s. tryE (Revert K entry s) (\<lambda>s1. Inr (undirty entry s1))) (rev es) s = Inr s1 \<and> view_db K s1 = w \<and>
    objects_ok K s1 \<and> same_frame s s1 \<and> distinct (map fst (dirties s1))"
  using assms
proof (induction es arbitrary: s rule: rev_induct)
  case (snoc e es)
  from snoc.prems(4) obtain w1 where w1: "undo_entry K (sdCtx s) e (view_db K s) = Inr w1" "undo K (sdCtx s) es (undirty_view e w1) = Inr w"
    by (auto simp: undo_append) (auto simp: undo_def)
  have "resets_ok K [e]" "resets_ok K es" using snoc.prems(2) by (auto simp: resets_ok_def)
  from Revert_sim [OF snoc.prems(1) this(1) w1(1)] obtain s1 where s1: "Revert K e s = Inr s1" "view_db K s1 = w1" "objects_ok K s1"
    "same_frame s s1" "dirties s1 = dirties s" by blast
  let ?s = "undirty e s1"
  have "sdCtx ?s = sdCtx s" using s1(4) same_frame_def undirty_sel(3) by metis
  then have "undo K (sdCtx ?s) es (view_db K ?s) = Inr w" using w1(2) s1(2) by (simp add: view_undirty)
  from snoc.IH [OF _ \<open>resets_ok K es\<close> undirty_distinct this] s1 snoc.prems(3)
  obtain s2 where s2: "forE (\<lambda>entry s. tryE (Revert K entry s) (\<lambda>s1. Inr (undirty entry s1))) (rev es) ?s = Inr s2" "view_db K s2 = w"
    "objects_ok K s2" "same_frame ?s s2" "distinct (map fst (dirties s2))" by auto
  have "same_frame s ?s" using s1(4) by simp
  from same_frame_trans [OF this s2(4)] s1(1) s2 show ?case by auto
qed simp

end

section \<open>Steps\<close>

text \<open>The methods the virtual machine calls while it executes; \<open>Prepare\<close>, \<open>Finalise\<close>, \<open>SetStorage\<close> and the
  commit stand before and after.\<close>

inductive db_op :: "('s, 'b) SKeeper \<Rightarrow> ('s, 'b) StateDB \<Rightarrow> ('s, 'b) StateDB \<Rightarrow> bool" for K where
  "Db_AddBalance K a x s = Inr (r, s1) \<Longrightarrow> db_op K s s1"
| "Db_SubBalance K a x s = Inr (r, s1) \<Longrightarrow> db_op K s s1"
| "Db_SetBalance K a x s = Inr s1 \<Longrightarrow> db_op K s s1"
| "Db_SetNonce K a n s = Inr s1 \<Longrightarrow> db_op K s s1"
| "Db_SetCode K a code s = Inr (rc, s1) \<Longrightarrow> db_op K s s1"
| "Db_SetState K a key val s = Inr (rh, s1) \<Longrightarrow> db_op K s s1"
| "CreateAccount K a s = Inr s1 \<Longrightarrow> db_op K s s1"
| "CreateContract K a s = Inr s1 \<Longrightarrow> db_op K s s1"
| "SelfDestruct K a s = Inr (r, s1) \<Longrightarrow> db_op K s s1"
| "SelfDestruct6780 K a s = Inr (rb, s1) \<Longrightarrow> db_op K s s1"
| "db_op K s (AddLog log s)"
| "db_op K s (AddRefund gas s)"
| "SubRefund gas s = Inr s1 \<Longrightarrow> db_op K s s1"
| "db_op K s (SetTransientState a key val s)"
| "db_op K s (AddAddressToAccessList a s)"
| "AddSlotToAccessList a slot s = Inr s1 \<Longrightarrow> db_op K s s1"
| "precompile_run s s1 \<Longrightarrow> db_op K s s1"
| "Exist K a s = Inr (b, s1) \<Longrightarrow> db_op K s s1"
| "Db_Empty K a s = Inr (b, s1) \<Longrightarrow> db_op K s s1"
| "Db_GetBalance K a s = Inr (ro, s1) \<Longrightarrow> db_op K s s1"
| "Db_GetNonce K a s = Inr (n, s1) \<Longrightarrow> db_op K s s1"
| "Db_GetCode K a s = Inr (rc, s1) \<Longrightarrow> db_op K s s1"
| "Db_GetCodeHash K a s = Inr (rh, s1) \<Longrightarrow> db_op K s s1"
| "Db_GetState K a key s = Inr (rh, s1) \<Longrightarrow> db_op K s s1"
| "Db_GetCommittedState K a key s = Inr (rh, s1) \<Longrightarrow> db_op K s s1"
| "HasSelfDestructed K a s = Inr (b, s1) \<Longrightarrow> db_op K s s1"

inductive db_step :: "('s, 'b) SKeeper \<Rightarrow> ('s, 'b) StateDB \<Rightarrow> ('s, 'b) StateDB \<Rightarrow> bool" for K where
  op: "db_op K s s1 \<Longrightarrow> db_step K s s1"
| snapshot: "db_step K s (snd (Db_Snapshot s))"
| revert: "RevertToSnapshot K i s = Inr s1 \<Longrightarrow> db_step K s s1"

text \<open>What undoing back to a revision would show.\<close>

definition saved :: "('s, 'b) SKeeper \<Rightarrow> ('s, 'b) StateDB \<Rightarrow> revision \<Rightarrow> ('s, 'b) db_view \<Rightarrow> bool" where
  "saved K s r w \<longleftrightarrow> undo K (sdCtx s) (drop (nat (journalIndex r)) (entries s)) (view_db K s) = Inr w"

definition revs_ok :: "('s, 'b) StateDB \<Rightarrow> bool" where
  "revs_ok s \<longleftrightarrow> sorted_wrt (\<lambda>r r'. revId r < revId r' \<and> journalIndex r \<le> journalIndex r') (validRevisions s) \<and>
     (\<forall>r \<in> set (validRevisions s). revId r < nextRevisionID s \<and> 0 \<le> journalIndex r \<and> journalIndex r \<le> int (length (entries s)))"

definition db_ok :: "('s, 'b) SKeeper \<Rightarrow> ('s, 'b) StateDB \<Rightarrow> bool" where
  "db_ok K s \<longleftrightarrow> core_ok K s \<and> revs_ok s \<and> (\<forall>r \<in> set (validRevisions s). \<exists>w. saved K s r w \<and> view_ok w)"

subsection \<open>The search for a revision\<close>

text \<open>On a condition that stays true once it is, the binary search gives the first index where it holds.\<close>

lemma search_loop_spec:
  assumes "i \<le> j" and "\<And>x y. x \<le> y \<Longrightarrow> y < n \<Longrightarrow> f x \<Longrightarrow> f y" and "j \<le> n" and "\<And>x. x < i \<Longrightarrow> \<not> f x" and "\<And>x. j \<le> x \<Longrightarrow> x < n \<Longrightarrow> f x"
  shows "search_loop f i j \<le> n \<and> (\<forall>x < search_loop f i j. \<not> f x) \<and> (\<forall>x. search_loop f i j \<le> x \<longrightarrow> x < n \<longrightarrow> f x)"
  using assms
proof (induction f i j rule: search_loop.induct)
  case (1 f i j)
  show ?case
  proof (cases "i < j")
    case True
    let ?h = "(i + j) div 2"
    have h: "i \<le> ?h" "?h < j" using True by auto
    show ?thesis
    proof (cases "f ?h")
      case True
      have "search_loop f i ?h \<le> n \<and> (\<forall>x < search_loop f i ?h. \<not> f x) \<and> (\<forall>x. search_loop f i ?h \<le> x \<longrightarrow> x < n \<longrightarrow> f x)"
        using \<open>i < j\<close> True h "1.prems" by (intro "1.IH"(2)) auto
      with True \<open>i < j\<close> show ?thesis by (subst (1 2 3) search_loop.simps) (simp add: Let_def)
    next
      case False
      have "\<not> f x" if "x < ?h + 1" for x using "1.prems"(2) [of x ?h] that False h "1.prems"(3) by (cases "x = ?h") auto
      then have "search_loop f (?h + 1) j \<le> n \<and> (\<forall>x < search_loop f (?h + 1) j. \<not> f x) \<and> (\<forall>x. search_loop f (?h + 1) j \<le> x \<longrightarrow> x < n \<longrightarrow> f x)"
        using \<open>i < j\<close> False h "1.prems" by (intro "1.IH"(1)) auto
      with False \<open>i < j\<close> show ?thesis by (subst (1 2 3) search_loop.simps) (simp add: Let_def)
    qed
  next
    case False
    with "1.prems" show ?thesis by (subst (1 2 3) search_loop.simps) auto
  qed
qed

lemma search_revision:
  assumes "sorted_wrt (\<lambda>r r'. revId r < revId r' \<and> journalIndex r \<le> journalIndex r') rs"
  shows "rs = ps @ r # qs \<Longrightarrow> sort_Search (length rs) (\<lambda>i. revId r \<le> revId (rs ! i)) = length ps"
    and "revid \<notin> revId ` set rs \<Longrightarrow> sort_Search (length rs) (\<lambda>i. revid \<le> revId (rs ! i)) = length rs \<or>
      revId (rs ! sort_Search (length rs) (\<lambda>i. revid \<le> revId (rs ! i))) \<noteq> revid"
proof -
  have lt: "revId (rs ! x) < revId (rs ! y)" if "x < y" "y < length rs" for x y using assms that by (auto simp: sorted_wrt_iff_nth_less)
  have mono: "v \<le> revId (rs ! y)" if "x \<le> y" "y < length rs" "v \<le> revId (rs ! x)" for x y v using lt [of x y] that by (cases "x = y") auto
  have spec: "sort_Search (length rs) (\<lambda>i. v \<le> revId (rs ! i)) \<le> length rs"
    "\<forall>x < sort_Search (length rs) (\<lambda>i. v \<le> revId (rs ! i)). \<not> v \<le> revId (rs ! x)"
    "\<forall>x. sort_Search (length rs) (\<lambda>i. v \<le> revId (rs ! i)) \<le> x \<longrightarrow> x < length rs \<longrightarrow> v \<le> revId (rs ! x)" for v
  proof -
    have "search_loop (\<lambda>i. v \<le> revId (rs ! i)) 0 (length rs) \<le> length rs \<and>
        (\<forall>x < search_loop (\<lambda>i. v \<le> revId (rs ! i)) 0 (length rs). \<not> v \<le> revId (rs ! x)) \<and>
        (\<forall>x. search_loop (\<lambda>i. v \<le> revId (rs ! i)) 0 (length rs) \<le> x \<longrightarrow> x < length rs \<longrightarrow> v \<le> revId (rs ! x))"
      by (rule search_loop_spec) (simp_all add: mono)
    then show "sort_Search (length rs) (\<lambda>i. v \<le> revId (rs ! i)) \<le> length rs"
      "\<forall>x < sort_Search (length rs) (\<lambda>i. v \<le> revId (rs ! i)). \<not> v \<le> revId (rs ! x)"
      "\<forall>x. sort_Search (length rs) (\<lambda>i. v \<le> revId (rs ! i)) \<le> x \<longrightarrow> x < length rs \<longrightarrow> v \<le> revId (rs ! x)"
      unfolding sort_Search_def by blast+
  qed
  show "sort_Search (length rs) (\<lambda>i. revId r \<le> revId (rs ! i)) = length ps" if "rs = ps @ r # qs"
  proof -
    have r: "rs ! length ps = r" "length ps < length rs" using that by simp_all
    have "\<not> sort_Search (length rs) (\<lambda>i. revId r \<le> revId (rs ! i)) < length ps"
      using spec(3) [of "revId r"] lt [of _ "length ps"] r by (metis linorder_not_le order_refl order.strict_trans)
    moreover have "\<not> length ps < sort_Search (length rs) (\<lambda>i. revId r \<le> revId (rs ! i))" using spec(2) [of "revId r"] r by auto
    ultimately show ?thesis by linarith
  qed
  show "sort_Search (length rs) (\<lambda>i. revid \<le> revId (rs ! i)) = length rs \<or> revId (rs ! sort_Search (length rs) (\<lambda>i. revid \<le> revId (rs ! i))) \<noteq> revid"
    if "revid \<notin> revId ` set rs"
    using that spec(1) [of revid] by (metis image_eqI le_neq_implies_less nth_mem)
qed

lemma revisions_distinct: "sorted_wrt (\<lambda>r r'. revId r < revId r' \<and> journalIndex r \<le> journalIndex r') rs \<Longrightarrow> distinct rs"
  by (induction rs) auto

lemma prefix_before:
  "xs @ y # ys = ps @ r # qs \<Longrightarrow> r \<in> set xs \<Longrightarrow> distinct (ps @ r # qs) \<Longrightarrow> \<exists>us. xs = ps @ r # us"
proof (induction ps arbitrary: xs)
  case Nil
  then show ?case by (cases xs) auto
next
  case (Cons p ps)
  then show ?case by (cases xs) auto
qed

section \<open>The invariant over steps\<close>

lemma saved_undoable:
  assumes "undoable K s s1" and "core_ok K s" and "journalIndex r \<le> int (length (entries s))" and "saved K s r w"
  shows "saved K s1 r w" and "take (nat (journalIndex r)) (entries s1) = take (nat (journalIndex r)) (entries s)"
proof -
  from assms(1,2) obtain fs where fs: "entries s1 = entries s @ fs" "undo K (sdCtx s) fs (view_db K s1) = Inr (view_db K s)" "sdCtx s1 = sdCtx s"
    by (auto simp: undoable_def)
  have n: "nat (journalIndex r) \<le> length (entries s)" using assms(3) by linarith
  then show "take (nat (journalIndex r)) (entries s1) = take (nat (journalIndex r)) (entries s)" by (simp add: fs(1))
  show "saved K s1 r w" using assms(4) fs n by (simp add: saved_def undo_append)
qed

lemma db_ok_op:
  assumes "undoable K s s1" and "db_ok K s"
  shows "db_ok K s1"
proof -
  have c: "core_ok K s" and r: "revs_ok s" using assms(2) by (simp_all add: db_ok_def)
  from assms(1) c obtain fs where fs: "entries s1 = entries s @ fs" "validRevisions s1 = validRevisions s" "nextRevisionID s1 = nextRevisionID s" "core_ok K s1"
    by (auto simp: undoable_def)
  have "\<exists>w. saved K s1 q w \<and> view_ok w" if q: "q \<in> set (validRevisions s)" for q
  proof -
    have "journalIndex q \<le> int (length (entries s))" using r q by (auto simp: revs_ok_def)
    moreover obtain w where "saved K s q w" "view_ok w" using assms(2) q by (auto simp: db_ok_def)
    ultimately show ?thesis using saved_undoable(1) [OF assms(1) c] by blast
  qed
  moreover have "revs_ok s1" using r by (fastforce simp: revs_ok_def fs)
  ultimately show ?thesis using fs by (simp add: db_ok_def)
qed

lemma Snapshot_sel [simp]:
  "view_db K (snd (Db_Snapshot s)) = view_db K s" "entries (snd (Db_Snapshot s)) = entries s" "sdCtx (snd (Db_Snapshot s)) = sdCtx s"
  "validRevisions (snd (Db_Snapshot s)) = validRevisions s @ [\<lparr>revId = nextRevisionID s, journalIndex = int (length (entries s))\<rparr>]"
  "nextRevisionID (snd (Db_Snapshot s)) = nextRevisionID s + 1" "dirties (snd (Db_Snapshot s)) = dirties s"
  "objects_ok K (snd (Db_Snapshot s)) = objects_ok K s" "fst (Db_Snapshot s) = nextRevisionID s"
  by (simp_all add: Db_Snapshot_def Let_def view_db_def)

lemma saved_Snapshot [simp]: "saved K (snd (Db_Snapshot s)) r w = saved K s r w"
  by (simp add: saved_def)

lemma saved_now: "saved K s \<lparr>revId = i, journalIndex = int (length (entries s))\<rparr> (view_db K s)"
  by (simp add: saved_def)

lemma db_ok_snapshot:
  assumes "db_ok K s"
  shows "db_ok K (snd (Db_Snapshot s))"
  using assms saved_now by (fastforce simp: db_ok_def core_ok_def revs_ok_def sorted_wrt_append)

context statedb_laws
begin

lemma db_op_undoable: "db_op K s s1 \<Longrightarrow> undoable K s s1"
  by (induction rule: db_op.induct)
    (simp_all add: Db_AddBalance_undoable Db_SubBalance_undoable Db_SetBalance_undoable Db_SetNonce_undoable Db_SetCode_undoable
      Db_SetState_undoable CreateAccount_undoable CreateContract_undoable SelfDestruct_undoable SelfDestruct6780_undoable AddLog_undoable
      AddRefund_undoable SubRefund_undoable SetTransientState_undoable AddAddress_undoable AddSlot_undoable precompile_undoable
      Exist_undoable Empty_undoable readers_undoable)

text \<open>Returning to a valid revision.\<close>

lemma RevertToSnapshot_valid:
  assumes "db_ok K s" and "validRevisions s = ps @ r # qs" and "saved K s r w"
  obtains s1 where "RevertToSnapshot K (revId r) s = Inr s1" "view_db K s1 = w" "entries s1 = take (nat (journalIndex r)) (entries s)"
    "validRevisions s1 = ps" "nextRevisionID s1 = nextRevisionID s" "sdCtx s1 = sdCtx s" "db_ok K s1"
proof -
  let ?n = "nat (journalIndex r)"
  have core: "core_ok K s" and rev: "revs_ok s" using assms(1) by (simp_all add: db_ok_def)
  have sorted: "sorted_wrt (\<lambda>r r'. revId r < revId r' \<and> journalIndex r \<le> journalIndex r') (validRevisions s)" using rev by (simp add: revs_ok_def)
  have "objects_ok K s" "resets_ok K (drop ?n (entries s))" "distinct (map fst (dirties s))"
    using core by (auto simp: core_ok_def resets_ok_def dest: in_set_dropD)
  from undo_sim [OF this] assms(3) obtain s0 where s0: "view_db K s0 = w" "objects_ok K s0" "same_frame s s0" "distinct (map fst (dirties s0))"
    "forE (\<lambda>entry s. tryE (Revert K entry s) (\<lambda>s1. Inr (undirty entry s1))) (rev (drop ?n (entries s))) s = Inr s0"
    by (auto simp: saved_def)
  let ?s = "s0\<lparr>entries := take ?n (entries s), validRevisions := ps\<rparr>"
  have found: "sort_Search (length (validRevisions s)) (\<lambda>i. revId r \<le> revId (validRevisions s ! i)) = length ps"
    by (rule search_revision(1) [OF sorted assms(2)])
  have run: "RevertToSnapshot K (revId r) s = Inr ?s"
    unfolding RevertToSnapshot_def Let_def found using s0(3,5) by (simp add: assms(2) journal_Revert_def same_frame_def)
  have view: "view_db K ?s = w" using s0(1) by (simp add: view_db_def)
  have frame: "sdCtx ?s = sdCtx s" "nextRevisionID ?s = nextRevisionID s" using s0(3) by (simp_all add: same_frame_def)
  have w_ok: "view_ok w" using assms by (auto simp: db_ok_def saved_def)
  have core1: "core_ok K ?s" using s0(2,4) view w_ok core by (auto simp: core_ok_def resets_ok_def dest: in_set_takeD)
  have keep: "saved K ?s q w'" if q: "q \<in> set ps" and "saved K s q w'" for q w'
  proof -
    have "0 \<le> journalIndex q" "journalIndex q \<le> journalIndex r" "journalIndex r \<le> int (length (entries s))"
      using q rev sorted assms(2) by (auto simp: revs_ok_def sorted_wrt_append)
    then have n: "nat (journalIndex q) \<le> ?n" "?n \<le> length (entries s)" by linarith+
    have "drop (nat (journalIndex q)) (entries s) = drop (nat (journalIndex q)) (take ?n (entries s)) @ drop ?n (entries s)"
      using n by (metis append_take_drop_id drop_append length_take min.absorb2 diff_is_0_eq drop_0)
    with that(2) assms(3) show ?thesis by (simp add: saved_def undo_append view frame)
  qed
  have "revs_ok ?s" using rev sorted assms(2) frame by (fastforce simp: revs_ok_def sorted_wrt_append)
  then have "db_ok K ?s" using core1 keep assms(1,2) by (fastforce simp: db_ok_def)
  with run view frame show thesis by (intro that [of ?s]) simp_all
qed

lemma RevertToSnapshot_stale:
  assumes "db_ok K s" and "i \<notin> revId ` set (validRevisions s)"
  shows "RevertToSnapshot K i s = Inl (GoPanic ''revision id cannot be reverted'')"
  using search_revision(2) [OF _ assms(2)] assms(1) by (auto simp: RevertToSnapshot_def db_ok_def revs_ok_def Let_def)

lemma Revert_cases:
  assumes "db_ok K s" and "RevertToSnapshot K i s = Inr s1"
  obtains ps r qs w where "validRevisions s = ps @ r # qs" "revId r = i" "saved K s r w" "view_db K s1 = w" "validRevisions s1 = ps"
    "entries s1 = take (nat (journalIndex r)) (entries s)" "nextRevisionID s1 = nextRevisionID s" "sdCtx s1 = sdCtx s" "db_ok K s1"
proof -
  have "i \<in> revId ` set (validRevisions s)" using RevertToSnapshot_stale [OF assms(1), of i] assms(2) by auto
  then obtain r where r: "r \<in> set (validRevisions s)" "revId r = i" by blast
  then obtain ps qs where s: "validRevisions s = ps @ r # qs" by (meson split_list)
  from assms(1) r(1) obtain w where w: "saved K s r w" by (auto simp: db_ok_def)
  from RevertToSnapshot_valid [OF assms(1) s w] assms(2) r(2) show thesis using that [OF s r(2) w] by auto
qed

lemma db_step_ok: "db_step K s s1 \<Longrightarrow> db_ok K s \<Longrightarrow> db_ok K s1"
proof (induction rule: db_step.induct)
  case (op s s1)
  then show ?case using db_op_undoable db_ok_op by blast
next
  case (snapshot s)
  then show ?case by (rule db_ok_snapshot)
next
  case (revert i s s1)
  from revert(2,1) show ?case by (rule Revert_cases)
qed

text \<open>Numbers are not used again.\<close>

lemma old_revisions:
  assumes "(db_step K)\<^sup>*\<^sup>* s s1" and "db_ok K s"
  shows "db_ok K s1 \<and> nextRevisionID s \<le> nextRevisionID s1 \<and> (\<forall>q \<in> set (validRevisions s1). revId q < nextRevisionID s \<longrightarrow> q \<in> set (validRevisions s))"
  using assms(1)
proof (induction rule: rtranclp_induct)
  case base
  show ?case using assms(2) by simp
next
  case (step s1 s2)
  then have ok: "db_ok K s1" by simp
  have ok2: "db_ok K s2" by (rule db_step_ok [OF step.hyps(2) ok])
  from step.hyps(2) show ?case
  proof cases
    case op
    from db_op_undoable [OF this] step.IH ok2 show ?thesis by (auto simp: undoable_def)
  next
    case snapshot
    with step.IH ok2 show ?thesis by auto
  next
    case (revert i)
    obtain ps r qs where "validRevisions s1 = ps @ r # qs" "validRevisions s2 = ps" "nextRevisionID s2 = nextRevisionID s1"
      by (rule Revert_cases [OF ok revert])
    with step.IH ok2 show ?thesis by auto
  qed
qed

text \<open>A revision that is still valid has kept what was saved with it.\<close>

lemma saved_steps:
  assumes "(db_step K)\<^sup>*\<^sup>* s s1" and "db_ok K s" and "validRevisions s = ps @ [r]" and "saved K s r w" and "r \<in> set (validRevisions s1)"
  shows "(\<exists>qs. validRevisions s1 = ps @ r # qs) \<and> saved K s1 r w \<and>
    take (nat (journalIndex r)) (entries s1) = take (nat (journalIndex r)) (entries s)"
proof -
  let ?n = "nat (journalIndex r)"
  have "db_ok K s1 \<and> revId r < nextRevisionID s1 \<and> (r \<in> set (validRevisions s1) \<longrightarrow> (\<exists>qs. validRevisions s1 = ps @ r # qs) \<and> saved K s1 r w \<and>
    take ?n (entries s1) = take ?n (entries s))"
    using assms(1)
  proof (induction rule: rtranclp_induct)
    case base
    have "r \<in> set (validRevisions s)" using assms(3) by simp
    then have "revId r < nextRevisionID s" using assms(2) by (auto simp: db_ok_def revs_ok_def)
    then show ?case using assms(2-4) by auto
  next
    case (step s1 s2)
    then have ok: "db_ok K s1" and nxt: "revId r < nextRevisionID s1" by simp_all
    have ok2: "db_ok K s2" by (rule db_step_ok [OF step.hyps(2) ok])
    from step.hyps(2) show ?case
    proof cases
      case op
      note u = db_op_undoable [OF op]
      have same: "validRevisions s2 = validRevisions s1" "nextRevisionID s2 = nextRevisionID s1" using u by (simp_all add: undoable_def)
      have core: "core_ok K s1" using ok by (simp add: db_ok_def)
      have "journalIndex r \<le> int (length (entries s1))" if "r \<in> set (validRevisions s1)" using ok that by (auto simp: db_ok_def revs_ok_def)
      with saved_undoable [OF u core] step.IH ok2 same show ?thesis by auto
    next
      case snapshot
      have "r \<in> set (validRevisions s1)" if "r \<in> set (validRevisions s2)" using that nxt by (auto simp: snapshot)
      with step.IH ok2 show ?thesis by (auto simp: snapshot)
    next
      case (revert i)
      obtain ps1 r1 qs1 w1 where x: "validRevisions s1 = ps1 @ r1 # qs1" "revId r1 = i" "saved K s1 r1 w1" "view_db K s2 = w1" "validRevisions s2 = ps1"
        "entries s2 = take (nat (journalIndex r1)) (entries s1)" "nextRevisionID s2 = nextRevisionID s1" "sdCtx s2 = sdCtx s1" "db_ok K s2"
        by (rule Revert_cases [OF ok revert])
      have sorted: "sorted_wrt (\<lambda>r r'. revId r < revId r' \<and> journalIndex r \<le> journalIndex r') (ps1 @ r1 # qs1)"
        and bnd: "0 \<le> journalIndex r1" "journalIndex r1 \<le> int (length (entries s1))"
        using ok x(1) by (auto simp: db_ok_def revs_ok_def)
      show ?thesis
      proof (cases "r \<in> set ps1")
        case True
        with step.IH x(1) obtain qs where qs: "ps1 @ r1 # qs1 = ps @ r # qs" and sv: "saved K s1 r w" "take ?n (entries s1) = take ?n (entries s)" by auto
        have le: "journalIndex r \<le> journalIndex r1" "revId r < revId r1" using True sorted by (auto simp: sorted_wrt_append)
        then have n: "?n \<le> nat (journalIndex r1)" "nat (journalIndex r1) \<le> length (entries s1)" using bnd by linarith+
        have "\<exists>us. ps1 = ps @ r # us" by (rule prefix_before [OF qs True]) (use revisions_distinct [OF sorted] qs in simp)
        moreover have "drop ?n (entries s1) = drop ?n (take (nat (journalIndex r1)) (entries s1)) @ drop (nat (journalIndex r1)) (entries s1)"
          using n by (metis append_take_drop_id drop_append length_take min.absorb2 diff_is_0_eq drop_0)
        with sv(1) x(3,4,6,8) have "saved K s2 r w" by (simp add: saved_def undo_append)
        moreover have "take ?n (entries s2) = take ?n (entries s)" using sv(2) n by (simp add: x(6) min.absorb1)
        ultimately show ?thesis using ok2 nxt x(5,7) by auto
      qed (use ok2 nxt x in auto)
    qed
  qed
  with assms(5) show ?thesis by blast
qed

end

lemma AddAddress_ok: "al_ok al \<Longrightarrow> al_ok (snd (AddAddress a al))"
  by (auto simp: al_ok_def AddAddress_def)

lemma AddSlot_ok: "al_ok al \<Longrightarrow> AddSlot a slot al = Inr (r, al1) \<Longrightarrow> al_ok al1"
  by (fastforce simp: al_ok_def AddSlot_def Let_def split: if_splits dest!: set_update_subset_insert [THEN subsetD])

lemma Prepare_start:
  assumes "Prepare rules sender coinbase dst precompiles list (Db_New c cfg) = Inr s"
  shows "db_ok K s"
proof -
  have fold: "al_ok (fold (\<lambda>a al. snd (AddAddress a al)) as al)" if "al_ok al" for as al
    using that by (induction as arbitrary: al) (auto intro: AddAddress_ok)
  have slots: "al_ok al1" if "forE (\<lambda>key al. tryE (AddSlot a key al) (\<lambda>(_, al1). Inr al1)) keys al = Inr al1" "al_ok al" for a keys al al1
    by (rule forE_invariant [where P = al_ok, OF that]) (auto intro: AddSlot_ok)
  have lists: "al_ok al1" if "forE (\<lambda>(a, keys) al. forE (\<lambda>key al. tryE (AddSlot a key al) (\<lambda>(_, al1). Inr al1)) keys (snd (AddAddress a al))) list al = Inr al1" "al_ok al"
    for al al1 by (rule forE_invariant [where P = al_ok, OF that]) (auto intro: slots AddAddress_ok)
  have new: "al_ok newAccessList" by (simp add: al_ok_def newAccessList_def)
  have al: "al_ok (accessList s)"
    using assms by (auto simp: Prepare_def Let_def Db_New_def new split: if_splits option.splits
        intro!: AddAddress_ok dest!: lists intro: fold AddAddress_ok new)
  moreover have "entries s = []" "dirties s = []" "validRevisions s = []" "stateObjects s = Map.empty"
    using assms by (auto simp: Prepare_def Db_New_def Let_def split: if_splits)
  ultimately show ?thesis by (simp add: db_ok_def core_ok_def objects_ok_def resets_ok_def view_ok_def revs_ok_def)
qed

section \<open>Results\<close>

text \<open>C10.
  A return to a snapshot restores everything the database shows. Start a database for a transaction, let the
  virtual machine call any methods with any snapshots and returns among them, take a snapshot, and again let it
  call any methods with nested snapshots and returns. As long as the snapshot has not been given up by a
  return to an older one, \<open>RevertToSnapshot\<close> succeeds, and every account with its code and storage, the refund
  counter, the logs, the transient storage, the access list, the set of dirty accounts and the stores and
  events of the precompiled contracts are as they were when the snapshot was taken; so are the journal and the
  older snapshots. A snapshot that was given up is refused with a panic.\<close>

theorem revert_restores_snapshot:
  assumes "statedb_laws K" and "Prepare rules sender coinbase dst precompiles list (Db_New c cfg) = Inr s"
    and "(db_step K)\<^sup>*\<^sup>* s s0" and "Db_Snapshot s0 = (i, s1)" and "(db_step K)\<^sup>*\<^sup>* s1 s2"
  shows "if i \<in> revId ` set (validRevisions s2)
    then \<exists>s3. RevertToSnapshot K i s2 = Inr s3 \<and> view_db K s3 = view_db K s0 \<and> entries s3 = entries s0 \<and> validRevisions s3 = validRevisions s0
    else RevertToSnapshot K i s2 = Inl (GoPanic ''revision id cannot be reverted'')"
proof -
  have ok: "db_ok K s'" if "(db_step K)\<^sup>*\<^sup>* s'' s'" "db_ok K s''" for s' s''
    using that by (induction rule: rtranclp_induct) (auto intro: statedb_laws.db_step_ok [OF assms(1)])
  have ok0: "db_ok K s0" by (rule ok [OF assms(3) Prepare_start [OF assms(2)]])
  let ?r = "\<lparr>revId = nextRevisionID s0, journalIndex = int (length (entries s0))\<rparr>"
  have s1: "s1 = snd (Db_Snapshot s0)" "i = revId ?r" using assms(4) Snapshot_sel(8) [of s0] by simp_all
  have ok1: "db_ok K s1" unfolding s1 by (rule db_ok_snapshot [OF ok0])
  have ok2: "db_ok K s2" by (rule ok [OF assms(5) ok1])
  show ?thesis
  proof (cases "i \<in> revId ` set (validRevisions s2)")
    case True
    then obtain r where r: "r \<in> set (validRevisions s2)" "revId r = i" by blast
    have "r \<in> set (validRevisions s1)"
      using statedb_laws.old_revisions [OF assms(1,5) ok1] r s1 by auto
    moreover have "r \<notin> set (validRevisions s0)" using ok0 r(2) s1(2) by (auto simp: db_ok_def revs_ok_def)
    ultimately have "r = ?r" by (auto simp: s1)
    then have in2: "?r \<in> set (validRevisions s2)" using r by simp
    have sv: "saved K s1 ?r (view_db K s0)" unfolding s1 saved_Snapshot by (rule saved_now)
    from statedb_laws.saved_steps [OF assms(1,5) ok1 _ sv in2, of "validRevisions s0"] obtain qs where
      x: "validRevisions s2 = validRevisions s0 @ ?r # qs" "saved K s2 ?r (view_db K s0)" "take (length (entries s0)) (entries s2) = entries s0"
      by (auto simp: s1)
    from statedb_laws.RevertToSnapshot_valid [OF assms(1) ok2 x(1,2)] x(3) True s1(2) show ?thesis by auto
  qed (use statedb_laws.RevertToSnapshot_stale [OF assms(1) ok2] in simp)
qed

text \<open>The x/vm keeper behind the database.\<close>

lemma vm_skeeper_sel [simp]: "sk_geth (vm_skeeper V keccak) = vkGeth V" "Keccak256Hash (vm_skeeper V keccak) = keccak"
  "sk_GetAccount (vm_skeeper V keccak) = Vm_GetAccount V"
  by (simp_all add: vm_skeeper_def)

lemma vm_skeeper_laws:
  assumes "\<And>h. BytesToHash (vkGeth V) (BytesToHash (vkGeth V) h) = BytesToHash (vkGeth V) h" and "\<And>h. BytesToHash (vkGeth V) h \<noteq> []"
    and "BytesToHash (vkGeth V) (EmptyCodeHash (vkGeth V)) = EmptyCodeHash (vkGeth V)" and "\<And>b. BytesToHash (vkGeth V) (keccak b) = keccak b"
  shows "statedb_laws (vm_skeeper V keccak)"
  using assms by unfold_locales (auto simp: Vm_GetAccount_def GetCodeHash_def split: option.splits)

definition ref_keccak :: "string \<Rightarrow> hash" where
  "ref_keccak b = (if b = [] then ''empty'' else ''h'' @ b)"

definition ref_sk :: "(unit, (ledger, addr \<Rightarrow> (u64 \<times> bool) option) sdk_state) SKeeper" where
  "ref_sk = vm_skeeper ref_vm ref_keccak"

interpretation refsdb: statedb_laws ref_sk
  unfolding ref_sk_def by (rule vm_skeeper_laws) (auto simp: ref_vm_def ref_geth_def ref_keccak_def)

definition demo_cfg :: TxConfig where
  "demo_cfg = \<lparr>cfgTxHash = ''0xab'', cfgTxIndex = 3, cfgLogIndex = 0\<rparr>"

definition demo_rules :: prepare_rules where
  "demo_rules = \<lparr>IsHomestead = True, IsIstanbul = True, IsLondon = True, IsShanghai = True, IsEIP2929 = False, IsEIP4762 = False\<rparr>"

lemma demo_prepare: "Prepare demo_rules ''alice'' ''val'' None [] [] (Db_New vm_demo demo_cfg) = Inr (Db_New vm_demo demo_cfg)"
  by (simp add: Prepare_def demo_rules_def Db_New_def)

lemma demo_carol:
  assumes "stateObjects s ''carol'' = None" and "sdCtx s = vm_demo"
  shows "\<exists>s1. Db_SetNonce ref_sk ''carol'' 4 s = Inr s1 \<and> validRevisions s1 = validRevisions s \<and> map_of (dirties s1) ''carol'' \<noteq> None"
proof -
  have "sk_GetAccount ref_sk vm_demo ''carol'' = Inr None"
    by (simp add: ref_sk_def Vm_GetAccount_def ref_vm_def ref_accounts_def vm_demo_def)
  with assms show ?thesis
    by (auto simp: Db_SetNonce_def getOrNewStateObject_def getStateObject_def createObject_def Obj_SetNonce_def Let_def dirtied_def newObject_def)
qed

theorem revert_restores_snapshot_witness:
  "\<exists>s1 s2 s3. Db_Snapshot (Db_New vm_demo demo_cfg) = (0, s1) \<and> Db_SetNonce ref_sk ''carol'' 4 (AddRefund 5 s1) = Inr s2 \<and> refund (AddRefund 5 s1) = 5 \<and>
     map_of (dirties s2) ''carol'' \<noteq> None \<and> RevertToSnapshot ref_sk 0 s2 = Inr s3 \<and> refund s3 = 0 \<and> map_of (dirties s3) ''carol'' = None"
proof -
  let ?s0 = "Db_New vm_demo demo_cfg"
  let ?s1 = "snd (Db_Snapshot ?s0)"
  have sn: "Db_Snapshot ?s0 = (0, ?s1)" by (simp add: Db_Snapshot_def Db_New_def Let_def)
  have "stateObjects (AddRefund 5 ?s1) ''carol'' = None" "sdCtx (AddRefund 5 ?s1) = vm_demo" "refund (AddRefund 5 ?s1) = 5"
    by (simp_all add: AddRefund_def Let_def Db_Snapshot_def Db_New_def)
  note a = this
  obtain s2 where s2: "Db_SetNonce ref_sk ''carol'' 4 (AddRefund 5 ?s1) = Inr s2" "validRevisions s2 = validRevisions (AddRefund 5 ?s1)"
    "map_of (dirties s2) ''carol'' \<noteq> None" using demo_carol [OF a(1,2)] by blast
  have v: "validRevisions (AddRefund 5 ?s1) = validRevisions ?s1" by (simp add: AddRefund_def Let_def)
  have "db_step ref_sk ?s1 (AddRefund 5 ?s1)" "db_step ref_sk (AddRefund 5 ?s1) s2" using s2(1) by (auto intro: db_step.op db_op.intros)
  then have steps: "(db_step ref_sk)\<^sup>*\<^sup>* ?s1 s2" by (meson converse_rtranclp_into_rtranclp r_into_rtranclp)
  have "0 \<in> revId ` set (validRevisions s2)" using s2(2) v by (simp add: Db_New_def)
  with revert_restores_snapshot [OF refsdb.statedb_laws_axioms demo_prepare rtranclp.rtrancl_refl sn steps]
  obtain s3 where s3: "RevertToSnapshot ref_sk 0 s2 = Inr s3" "view_db ref_sk s3 = view_db ref_sk ?s0" by auto
  have "refund s3 = 0" "map_of (dirties s3) ''carol'' = None"
    using arg_cong [OF s3(2), of wRefund] arg_cong [OF s3(2), of wDirties] by (simp_all add: Db_New_def)
  with sn s2 a(3) s3(1) show ?thesis by blast
qed

end
