(* ===== verification/State_Commit.thy ===== *)
theory State_Commit
  imports State_Revert
begin

text \<open>
  Committing the state database to the x/vm keeper: what \<open>Db_Commit\<close> leaves in the stores, account by account.
  The walk over the sorted dirty accounts writes each of them once, and no write of one account touches the
  sequence, the code hash or the storage of another.
\<close>

section \<open>What the writes of the keeper leave alone\<close>

lemma onBank_frame: "onBank f c = Inr c' \<Longrightarrow> accounts c' = accounts c \<and> vmOf c' = vmOf c"
  by (auto simp: onBank_def)

lemma SetBalanceWithLocked_frame:
  "SetBalanceWithLocked V x amount l c = Inr c' \<Longrightarrow> accounts c' = accounts c \<and> vmOf c' = vmOf c"
  by (auto simp: SetBalanceWithLocked_def Let_def dest!: onBank_frame split: option.splits if_splits)

lemma SetAccountBalance_frame: "SetAccountBalance V x account c = Inr c' \<Longrightarrow> accounts c' = accounts c \<and> vmOf c' = vmOf c"
  by (auto simp: SetAccountBalance_def SetBalance_def dest!: SetBalanceWithLocked_frame split: option.splits)

definition hashAt :: "('s, 'k, 'm) vctx \<Rightarrow> addr \<Rightarrow> string" where
  "hashAt c a = vmCodeHash (vmOf c) a"

definition storageAt :: "('s, 'k, 'm) vctx \<Rightarrow> addr \<Rightarrow> (string \<rightharpoonup> string)" where
  "storageAt c a = map_of (vmStorage (vmOf c) a)"

context account_laws
begin

lemma SetAccount_effect:
  assumes "vkAccounts V = A" and "Vm_SetAccount V x account c = Inr c'"
  shows "GetNonce V c' x = acNonce account" and "hashAt c' x = (if IsEmptyCodeHash (vkGeth V) (acCodeHash account) then [] else acCodeHash account)"
    and "storageAt c' = storageAt c" and "y \<noteq> x \<Longrightarrow> ak_GetAccount A (accounts c') y = ak_GetAccount A (accounts c) y \<and> hashAt c' y = hashAt c y"
proof -
  obtain acct c1 where start: "(case ak_GetAccount A (accounts c) x of Some acct \<Rightarrow> (acct, c)
      | None \<Rightarrow> (case ak_NewAccountWithAddress A (accounts c) x of (acct, m) \<Rightarrow> (acct, setAccounts m c))) = (acct, c1)" by fastforce
  from start have c1: "acc_GetAddress A acct = x" "ak_GetAccount A (accounts c1) = ak_GetAccount A (accounts c)" "vmOf c1 = vmOf c"
    using Get_address New_account by (auto split: option.splits prod.splits)
  obtain acct1 where r: "acc_SetSequence A acct (acNonce account) = Inr acct1"
    "SetAccountBalance V x account (setAccounts (ak_SetAccount A (accounts c1) acct1)
       (setVm (if IsEmptyCodeHash (vkGeth V) (acCodeHash account) then DeleteCodeHash x (vmOf c1) else SetCodeHash x (acCodeHash account) (vmOf c1)) c1)) = Inr c'"
    using assms(2) by (auto simp: Vm_SetAccount_def assms(1) start Let_def cong: if_cong)
  note f = SetAccountBalance_frame [OF r(2)] and q = SetSequence_Inr [OF r(1)]
  show "GetNonce V c' x = acNonce account" using f q c1 by (simp add: GetNonce_def assms(1) Get_Set)
  show "hashAt c' x = (if IsEmptyCodeHash (vkGeth V) (acCodeHash account) then [] else acCodeHash account)"
    using f by (simp add: hashAt_def DeleteCodeHash_def SetCodeHash_def)
  show "storageAt c' = storageAt c" using f c1(3) by (simp add: storageAt_def fun_eq_iff DeleteCodeHash_def SetCodeHash_def)
  show "ak_GetAccount A (accounts c') y = ak_GetAccount A (accounts c) y \<and> hashAt c' y = hashAt c y" if "y \<noteq> x"
    using f q c1 that by (simp add: hashAt_def DeleteCodeHash_def SetCodeHash_def Get_Set)
qed

lemma DeleteAccount_effect:
  assumes "vkAccounts V = A" and "DeleteAccount V x c = Inr c'"
  shows "ak_GetAccount A (accounts c') x = None"
    and "y \<noteq> x \<Longrightarrow> ak_GetAccount A (accounts c') y = ak_GetAccount A (accounts c) y \<and> hashAt c' y = hashAt c y \<and> storageAt c' y = storageAt c y"
proof -
  have "ak_GetAccount A (accounts c') x = None \<and>
    (y \<noteq> x \<longrightarrow> ak_GetAccount A (accounts c') y = ak_GetAccount A (accounts c) y \<and> hashAt c' y = hashAt c y \<and> storageAt c' y = storageAt c y)"
  proof (cases "ak_GetAccount A (accounts c) x")
    case None
    with assms show ?thesis by (simp add: DeleteAccount_def)
  next
    case (Some acct)
    let ?c = "setAccounts (ak_SetAccount A (accounts c) (acc_ToBase A acct)) c"
    from assms Some obtain c1 keys where r: "SetBalanceWithLocked V x (Some 0) 0 ?c = Inr c1"
      "c' = setAccounts (ak_RemoveAccount A (accounts c1) acct) (setVm (DeleteCodeHash x (fold (DeleteState x) keys (vmOf c1))) c1)"
      by (auto simp: DeleteAccount_def Let_def split: if_splits)
    note f = SetBalanceWithLocked_frame [OF r(1)]
    have loop: "vmCodeHash (fold (DeleteState x) ks v) = vmCodeHash v \<and> (y \<noteq> x \<longrightarrow> vmStorage (fold (DeleteState x) ks v) y = vmStorage v y)" for ks v
      by (induction ks arbitrary: v) (auto simp: DeleteState_def)
    have "acc_GetAddress A acct = x" by (rule Get_address [OF Some])
    with f r(2) loop [of keys "vmOf c1"] show ?thesis
      by (auto simp: hashAt_def storageAt_def DeleteCodeHash_def Get_Remove Get_Set ToBase)
  qed
  then show "ak_GetAccount A (accounts c') x = None"
    "y \<noteq> x \<Longrightarrow> ak_GetAccount A (accounts c') y = ak_GetAccount A (accounts c) y \<and> hashAt c' y = hashAt c y \<and> storageAt c' y = storageAt c y" by simp_all
qed

end

section \<open>One object\<close>

lemma vm_skeeper_writes [simp]:
  "sk_SetAccount (vm_skeeper V keccak) = Vm_SetAccount V" "sk_DeleteAccount (vm_skeeper V keccak) = DeleteAccount V"
  "sk_DeleteState (vm_skeeper V keccak) a key c = setVm (DeleteState a key (vmOf c)) c"
  "sk_SetState (vm_skeeper V keccak) a key val c = setVm (SetState a key val (vmOf c)) c"
  "sk_DeleteCode (vm_skeeper V keccak) h c = setVm (DeleteCode h (vmOf c)) c" "sk_SetCode (vm_skeeper V keccak) h code c = setVm (SetCode h code (vmOf c)) c"
  by (simp_all add: vm_skeeper_def)

text \<open>What the storage of the keeper holds of the dirty storage of an object: an empty value is deleted.\<close>

definition stored :: "Storage \<Rightarrow> (string \<rightharpoonup> string) \<Rightarrow> (string \<rightharpoonup> string)" where
  "stored dirty m key = (case map_of dirty key of None \<Rightarrow> m key | Some val \<Rightarrow> if val = [] then None else Some val)"

lemma commit_slots:
  fixes c :: "('s, 'k, 'm) vctx"
  assumes "set keys \<subseteq> dom (map_of (dirtyStorage obj))"
  shows "let c' = fold (commit_slot (vm_skeeper V keccak) obj) keys c in
    accounts c' = accounts c \<and> vmCodeHash (vmOf c') = vmCodeHash (vmOf c) \<and> (\<forall>y. y \<noteq> soAddress obj \<longrightarrow> vmStorage (vmOf c') y = vmStorage (vmOf c) y) \<and>
    map_of (vmStorage (vmOf c') (soAddress obj)) = (\<lambda>key. if key \<in> set keys then stored (dirtyStorage obj) (storageAt c (soAddress obj)) key
      else map_of (vmStorage (vmOf c) (soAddress obj)) key)"
  using assms
proof (induction keys arbitrary: c)
  case (Cons key keys)
  then obtain val where val: "map_of (dirtyStorage obj) key = Some val" by auto
  let ?c = "commit_slot (vm_skeeper V keccak) obj key c"
  have one: "accounts ?c = accounts c" "vmCodeHash (vmOf ?c) = vmCodeHash (vmOf c)" "\<And>y. y \<noteq> soAddress obj \<Longrightarrow> vmStorage (vmOf ?c) y = vmStorage (vmOf c) y"
    "map_of (vmStorage (vmOf ?c) (soAddress obj)) = (map_of (vmStorage (vmOf c) (soAddress obj)))(key := (if val = [] then None else Some val))"
    using val by (simp_all add: commit_slot_def Let_def DeleteState_def SetState_def update_conv' delete_conv')
  have st: "stored (dirtyStorage obj) m k = stored (dirtyStorage obj) m' k" if "k \<in> set keys" for m m' k
    using Cons.prems that by (force simp: stored_def)
  have "map_of (vmStorage (vmOf (fold (commit_slot (vm_skeeper V keccak) obj) keys ?c)) (soAddress obj)) k
      = (if k \<in> set (key # keys) then stored (dirtyStorage obj) (storageAt c (soAddress obj)) k else map_of (vmStorage (vmOf c) (soAddress obj)) k)" for k
    using Cons.IH [of ?c] Cons.prems one(4) val st [of k "storageAt ?c (soAddress obj)" "storageAt c (soAddress obj)"] by (auto simp: Let_def stored_def)
  with Cons.IH [of ?c] Cons.prems one(1-3) show ?case by (simp add: Let_def fun_eq_iff)
qed simp

lemma commit_code_frame:
  "accounts (commit_code (vm_skeeper V keccak) obj c) = accounts c" "vmCodeHash (vmOf (commit_code (vm_skeeper V keccak) obj c)) = vmCodeHash (vmOf c)"
  "vmStorage (vmOf (commit_code (vm_skeeper V keccak) obj c)) = vmStorage (vmOf c)"
  by (auto simp: commit_code_def DeleteCode_def SetCode_def split: option.split)

text \<open>What the keeper shows of an account after its object was committed.\<close>

definition written :: "('k, 'm, 'acc) VmKeeper \<Rightarrow> stateObject \<Rightarrow> ('s, 'k, 'm) vctx \<Rightarrow> ('s, 'k, 'm) vctx \<Rightarrow> bool" where
  "written V obj c c' \<longleftrightarrow> (let a = soAddress obj in
     if selfDestructed obj then ak_GetAccount (vkAccounts V) (accounts c') a = None
     else GetNonce V c' a = acNonce (soAccount obj) \<and>
       hashAt c' a = (if IsEmptyCodeHash (vkGeth V) (acCodeHash (soAccount obj)) then [] else acCodeHash (soAccount obj)) \<and>
       storageAt c' a = stored (dirtyStorage obj) (storageAt c a))"

definition untouched :: "('k, 'm, 'acc) VmKeeper \<Rightarrow> addr \<Rightarrow> ('s, 'k, 'm) vctx \<Rightarrow> ('s, 'k, 'm) vctx \<Rightarrow> bool" where
  "untouched V a c c' \<longleftrightarrow> ak_GetAccount (vkAccounts V) (accounts c') a = ak_GetAccount (vkAccounts V) (accounts c) a \<and>
     hashAt c' a = hashAt c a \<and> storageAt c' a = storageAt c a"

lemma untouched_refl [simp]: "untouched V a c c" and untouched_trans: "untouched V a c c1 \<Longrightarrow> untouched V a c1 c2 \<Longrightarrow> untouched V a c c2"
  by (simp_all add: untouched_def)

lemma written_untouched:
  "written V obj c c1 \<Longrightarrow> untouched V (soAddress obj) c1 c2 \<Longrightarrow> written V obj c c2"
  "untouched V (soAddress obj) c c1 \<Longrightarrow> written V obj c1 c2 \<Longrightarrow> written V obj c c2"
  by (auto simp: written_def untouched_def GetNonce_def Let_def split: if_splits)

lemma commit_object_effect:
  assumes "account_laws (vkAccounts V)" and "commit_object (vm_skeeper V keccak) obj c = Inr c'"
  shows "written V obj c c'" and "y \<noteq> soAddress obj \<Longrightarrow> untouched V y c c'"
proof -
  let ?a = "soAddress obj"
  have "written V obj c c' \<and> (y \<noteq> ?a \<longrightarrow> untouched V y c c')"
  proof (cases "selfDestructed obj")
    case True
    with assms(2) have "DeleteAccount V ?a c = Inr c'" by (simp add: commit_object_def)
    from account_laws.DeleteAccount_effect [OF assms(1) refl this] True show ?thesis by (auto simp: written_def untouched_def)
  next
    case False
    let ?c0 = "commit_code (vm_skeeper V keccak) obj c"
    from assms(2) False obtain c1 where c1: "Vm_SetAccount V ?a (soAccount obj) ?c0 = Inr c1"
      and c': "c' = fold (commit_slot (vm_skeeper V keccak) obj) (SortedKeys (dirtyStorage obj)) c1"
      by (auto simp: commit_object_def)
    note s = account_laws.SetAccount_effect [OF assms(1) refl c1]
    have keys: "set (SortedKeys (dirtyStorage obj)) = dom (map_of (dirtyStorage obj))" by (simp add: SortedKeys_def dom_map_of_conv_image_fst)
    have f: "storageAt ?c0 = storageAt c" "hashAt ?c0 = hashAt c" "accounts ?c0 = accounts c"
      by (simp_all add: storageAt_def hashAt_def fun_eq_iff commit_code_frame)
    from commit_slots [of "SortedKeys (dirtyStorage obj)" obj V keccak c1] keys
    have w: "accounts c' = accounts c1" "hashAt c' = hashAt c1" "\<And>y. y \<noteq> ?a \<Longrightarrow> storageAt c' y = storageAt c1 y"
      "storageAt c' ?a = stored (dirtyStorage obj) (storageAt c1 ?a)"
      by (auto simp: c' Let_def hashAt_def storageAt_def fun_eq_iff stored_def domIff split: option.split)
    show ?thesis using False s w f by (auto simp: written_def untouched_def Let_def GetNonce_def)
  qed
  then show "written V obj c c'" "y \<noteq> ?a \<Longrightarrow> untouched V y c c'" by simp_all
qed

section \<open>The whole commit\<close>

lemma commit_walk:
  assumes "account_laws (vkAccounts V)" and "distinct as" and "\<And>a obj. stateObjects s a = Some obj \<Longrightarrow> soAddress obj = a"
    and "forE (\<lambda>addr c. tryE (deref (stateObjects s addr)) (\<lambda>obj. commit_object (vm_skeeper V keccak) obj c)) as c = Inr c'"
  shows "(\<forall>a obj. a \<in> set as \<longrightarrow> stateObjects s a = Some obj \<longrightarrow> written V obj c c') \<and> (\<forall>a. a \<notin> set as \<longrightarrow> untouched V a c c')"
  using assms(2,4)
proof (induction as arbitrary: c)
  case (Cons b as)
  from Cons.prems(2) obtain obj c1 where o: "stateObjects s b = Some obj" and c1: "commit_object (vm_skeeper V keccak) obj c = Inr c1"
    and rest: "forE (\<lambda>addr c. tryE (deref (stateObjects s addr)) (\<lambda>obj. commit_object (vm_skeeper V keccak) obj c)) as c1 = Inr c'" by auto
  have b: "soAddress obj = b" by (rule assms(3) [OF o])
  note e = commit_object_effect [OF assms(1) c1]
  have IH: "\<And>a obj. a \<in> set as \<Longrightarrow> stateObjects s a = Some obj \<Longrightarrow> written V obj c1 c'" "\<And>a. a \<notin> set as \<Longrightarrow> untouched V a c1 c'"
    using Cons.IH [OF _ rest] Cons.prems(1) by auto
  have "written V obj c c'" using written_untouched(1) [OF e(1)] IH(2) [of b] Cons.prems(1) b by simp
  moreover have "written V o1 c c'" if "a \<in> set as" "stateObjects s a = Some o1" for a o1
  proof -
    have "a \<noteq> soAddress obj" "soAddress o1 = a" using assms(3) [OF that(2)] that(1) Cons.prems(1) b by auto
    then have "untouched V (soAddress o1) c c1" using e(2) by simp
    then show ?thesis by (rule written_untouched(2) [OF _ IH(1) [OF that]])
  qed
  moreover have "untouched V a c c'" if "a \<notin> set (b # as)" for a
    using untouched_trans [OF e(2) IH(2)] that b by auto
  ultimately show ?case using o by auto
qed simp

text \<open>The stores a commit starts from: those of the cache when a precompiled contract has run.\<close>

definition baseCtx :: "('s, 'b) StateDB \<Rightarrow> ('s, 'b) ctx" where
  "baseCtx s = (case sdCache s of None \<Rightarrow> sdCtx s | Some k \<Rightarrow> cacheCtx k)"

lemma Commit_context:
  assumes "Db_Commit (vm_skeeper V keccak) s = Inr s1"
  obtains c c' where "commitWithCtx (vm_skeeper V keccak) s c = Inr c'" "bank c = bank (baseCtx s)" "bank (sdCtx s1) = bank c'"
proof (cases "sdCache s")
  case None
  with assms obtain c' where "commitWithCtx (vm_skeeper V keccak) s (CacheContext (sdCtx s)) = Inr c'" "s1 = s\<lparr>sdCtx := writeContext c' (sdCtx s)\<rparr>"
    by (auto simp: Db_Commit_def)
  with None show thesis by (intro that [of "CacheContext (sdCtx s)" c']) (simp_all add: baseCtx_def CacheContext_def writeContext_def)
next
  case (Some k)
  with assms obtain c' where "commitWithCtx (vm_skeeper V keccak) s (cacheCtx k) = Inr c'" "bank (sdCtx s1) = snd (baseStore (kv_Commit (snapshotter (setCacheCtx c' k))))"
    by (auto simp: Db_Commit_def Let_def)
  with Some show thesis by (intro that [of "cacheCtx k" c']) (simp_all add: baseCtx_def kv_Commit_eq setCacheCtx_def)
qed

section \<open>Results\<close>

lemma Commit_effect:
  fixes V :: "('k, 'm, 'acc) VmKeeper" and s :: "('s, ('k, 'm) sdk_state) StateDB"
  assumes "account_laws (vkAccounts V)" and "statedb_laws (vm_skeeper V keccak :: ('s, ('k, 'm) sdk_state) SKeeper)"
    and "Prepare rules sender coinbase dst precompiles list (Db_New c cfg) = Inr s0" and "(db_step (vm_skeeper V keccak))\<^sup>*\<^sup>* s0 s"
    and "Db_Commit (vm_skeeper V keccak) s = Inr s1"
  shows "\<forall>a obj. map_of (dirties s) a \<noteq> None \<longrightarrow> stateObjects s a = Some obj \<longrightarrow>
      (if selfDestructed obj then ak_GetAccount (vkAccounts V) (accounts (sdCtx s1)) a = None
       else GetNonce V (sdCtx s1) a = acNonce (soAccount obj) \<and> GetCodeHash V (vmOf (sdCtx s1)) a = acCodeHash (soAccount obj) \<and>
         storageAt (sdCtx s1) a = stored (dirtyStorage obj) (storageAt (baseCtx s) a))"
    and "\<forall>a. map_of (dirties s) a = None \<longrightarrow>
      ak_GetAccount (vkAccounts V) (accounts (sdCtx s1)) a = ak_GetAccount (vkAccounts V) (accounts (baseCtx s)) a \<and>
      GetCodeHash V (vmOf (sdCtx s1)) a = GetCodeHash V (vmOf (baseCtx s)) a \<and> storageAt (sdCtx s1) a = storageAt (baseCtx s) a"
proof -
  let ?K = "vm_skeeper V keccak :: ('s, ('k, 'm) sdk_state) SKeeper"
  have "db_ok ?K s" using assms(4) by (induction rule: rtranclp_induct)
      (auto intro: Prepare_start [OF assms(3)] statedb_laws.db_step_ok [OF assms(2)])
  then have ok: "objects_ok ?K s" "distinct (map fst (dirties s))" by (simp_all add: db_ok_def core_ok_def)
  obtain c c' where r: "commitWithCtx ?K s c = Inr c'" "bank c = bank (baseCtx s)" "bank (sdCtx s1) = bank c'"
    by (rule Commit_context [OF assms(5)])
  have same: "accounts c = accounts (baseCtx s)" "hashAt c = hashAt (baseCtx s)" "storageAt c = storageAt (baseCtx s)"
    "accounts (sdCtx s1) = accounts c'" "hashAt (sdCtx s1) = hashAt c'" "storageAt (sdCtx s1) = storageAt c'"
    using r(2,3) by (simp_all add: hashAt_def storageAt_def fun_eq_iff)
  have dom: "set (sortedDirties s) = dom (map_of (dirties s))" "distinct (sortedDirties s)"
    using ok(2) by (simp_all add: sortedDirties_def dom_map_of_conv_image_fst)
  have walk: "\<And>a obj. map_of (dirties s) a \<noteq> None \<Longrightarrow> stateObjects s a = Some obj \<Longrightarrow> written V obj c c'"
    "\<And>a. map_of (dirties s) a = None \<Longrightarrow> untouched V a c c'"
    using commit_walk [OF assms(1) dom(2), of s keccak c c'] r(1) ok(1) dom(1) by (auto simp: objects_ok_def commitWithCtx_def domIff)
  have hash: "GetCodeHash V (vmOf x) a = (if hashAt x a = [] then BytesToHash (vkGeth V) (EmptyCodeHash (vkGeth V)) else BytesToHash (vkGeth V) (hashAt x a))"
    for x :: "('s, 'k, 'm) vctx" and a by (simp add: GetCodeHash_def hashAt_def)
  show "\<forall>a obj. map_of (dirties s) a \<noteq> None \<longrightarrow> stateObjects s a = Some obj \<longrightarrow>
      (if selfDestructed obj then ak_GetAccount (vkAccounts V) (accounts (sdCtx s1)) a = None
       else GetNonce V (sdCtx s1) a = acNonce (soAccount obj) \<and> GetCodeHash V (vmOf (sdCtx s1)) a = acCodeHash (soAccount obj) \<and>
         storageAt (sdCtx s1) a = stored (dirtyStorage obj) (storageAt (baseCtx s) a))"
  proof (intro allI impI)
    fix a obj
    assume a: "map_of (dirties s) a \<noteq> None" "stateObjects s a = Some obj"
    then have o: "soAddress obj = a" "BytesToHash (vkGeth V) (acCodeHash (soAccount obj)) = acCodeHash (soAccount obj)"
      using ok(1) by (auto simp: objects_ok_def obj_ok_def)
    have ne: "acCodeHash (soAccount obj) \<noteq> []" using o(2) statedb_laws.hash_nonempty [OF assms(2)] by (metis vm_skeeper_sel(1))
    have em: "BytesToHash (vkGeth V) (EmptyCodeHash (vkGeth V)) = EmptyCodeHash (vkGeth V)" using statedb_laws.hash_empty [OF assms(2)] by simp
    from walk(1) [OF a] o ne em same hash show "if selfDestructed obj then ak_GetAccount (vkAccounts V) (accounts (sdCtx s1)) a = None
       else GetNonce V (sdCtx s1) a = acNonce (soAccount obj) \<and> GetCodeHash V (vmOf (sdCtx s1)) a = acCodeHash (soAccount obj) \<and>
         storageAt (sdCtx s1) a = stored (dirtyStorage obj) (storageAt (baseCtx s) a)"
      by (auto simp: written_def Let_def IsEmptyCodeHash_def GetNonce_def split: if_splits)
  qed
  show "\<forall>a. map_of (dirties s) a = None \<longrightarrow>
      ak_GetAccount (vkAccounts V) (accounts (sdCtx s1)) a = ak_GetAccount (vkAccounts V) (accounts (baseCtx s)) a \<and>
      GetCodeHash V (vmOf (sdCtx s1)) a = GetCodeHash V (vmOf (baseCtx s)) a \<and> storageAt (sdCtx s1) a = storageAt (baseCtx s) a"
    using walk(2) same hash by (auto simp: untouched_def)
qed

text \<open>C26.
  A commit writes exactly the dirty accounts. Start a database for a transaction over the x/vm keeper and let
  the virtual machine call any methods, with snapshots and returns. When the commit then succeeds, every dirty
  account that was not destroyed has in the stores the nonce, the code hash and the changed storage of its
  object, with its other storage as it was; every destroyed account is gone; and every account that is not
  dirty, such as one touched only in a part of the execution that was reverted, has its account, its code hash
  and its storage unchanged.\<close>

theorem commit_writes_dirty_accounts:
  fixes V :: "('k, 'm, 'acc) VmKeeper" and s :: "('s, ('k, 'm) sdk_state) StateDB"
  assumes "account_laws (vkAccounts V)" and "statedb_laws (vm_skeeper V keccak :: ('s, ('k, 'm) sdk_state) SKeeper)"
    and "Prepare rules sender coinbase dst precompiles list (Db_New c cfg) = Inr s0" and "(db_step (vm_skeeper V keccak))\<^sup>*\<^sup>* s0 s"
    and "Db_Commit (vm_skeeper V keccak) s = Inr s1"
  shows "(\<forall>a obj. map_of (dirties s) a \<noteq> None \<longrightarrow> stateObjects s a = Some obj \<longrightarrow>
      (if selfDestructed obj then ak_GetAccount (vkAccounts V) (accounts (sdCtx s1)) a = None
       else GetNonce V (sdCtx s1) a = acNonce (soAccount obj) \<and> GetCodeHash V (vmOf (sdCtx s1)) a = acCodeHash (soAccount obj) \<and>
         storageAt (sdCtx s1) a = stored (dirtyStorage obj) (storageAt (baseCtx s) a))) \<and>
     (\<forall>a. map_of (dirties s) a = None \<longrightarrow>
      ak_GetAccount (vkAccounts V) (accounts (sdCtx s1)) a = ak_GetAccount (vkAccounts V) (accounts (baseCtx s)) a \<and>
      GetCodeHash V (vmOf (sdCtx s1)) a = GetCodeHash V (vmOf (baseCtx s)) a \<and> storageAt (sdCtx s1) a = storageAt (baseCtx s) a)"
  by (intro conjI Commit_effect [OF assms])

text \<open>A database that gives carol, who has no account, the nonce 4.\<close>

definition carol_obj :: stateObject where
  "carol_obj = setNonce 4 (newObject ref_geth ''carol'' zeroAccount)"

definition carol_db :: "(unit, (ledger, addr \<Rightarrow> (u64 \<times> bool) option) sdk_state) StateDB" where
  "carol_db = (Db_New vm_demo demo_cfg)\<lparr>entries := [createObjectChange ''carol'', nonceChange ''carol'' 0], dirties := [(''carol'', 2)],
     stateObjects := [''carol'' \<mapsto> carol_obj]\<rparr>"

lemma demo_write: "\<not> isl (Vm_SetAccount ref_vm ''carol'' (soAccount carol_obj) (CacheContext vm_demo))"
  by code_simp

lemma demo_nonce: "Db_SetNonce ref_sk ''carol'' 4 (Db_New vm_demo demo_cfg) = Inr carol_db"
proof -
  have g: "sk_geth ref_sk = ref_geth" by (simp add: ref_sk_def ref_vm_def)
  have "sk_GetAccount ref_sk vm_demo ''carol'' = Inr None"
    by (simp add: ref_sk_def Vm_GetAccount_def ref_vm_def ref_accounts_def vm_demo_def)
  then show ?thesis
    by (simp add: Db_SetNonce_def getOrNewStateObject_def getStateObject_def createObject_def Obj_SetNonce_def Let_def journal_append_def g
        setStateObject_def carol_db_def carol_obj_def Db_New_def dirtyCount_def zeroAccount_def newObject_def setNonce_def)
qed

lemma demo_commit: "\<exists>s1. Db_Commit ref_sk carol_db = Inr s1"
proof -
  obtain c1 where "Vm_SetAccount ref_vm ''carol'' (soAccount carol_obj) (CacheContext vm_demo) = Inr c1" using demo_write Inr_of by blast
  then have "commit_object ref_sk carol_obj (CacheContext vm_demo) = Inr c1"
    by (simp add: commit_object_def commit_code_def carol_obj_def setNonce_def newObject_def SortedKeys_def ref_sk_def)
  then show ?thesis by (simp add: Db_Commit_def commitWithCtx_def sortedDirties_def carol_db_def Db_New_def)
qed

theorem commit_writes_dirty_accounts_witness:
  "\<exists>s s1. Db_SetNonce ref_sk ''carol'' 4 (Db_New vm_demo demo_cfg) = Inr s \<and> Db_Commit ref_sk s = Inr s1 \<and>
     GetNonce ref_vm (sdCtx s1) ''carol'' = 4 \<and> GetNonce ref_vm (sdCtx s1) ''alice'' = 7"
proof -
  let ?s = carol_db
  obtain s1 where s1: "Db_Commit ref_sk ?s = Inr s1" using demo_commit by blast
  have d: "stateObjects ?s ''carol'' = Some carol_obj" "\<not> selfDestructed carol_obj" "acNonce (soAccount carol_obj) = 4"
    "map_of (dirties ?s) ''carol'' \<noteq> None" "map_of (dirties ?s) ''alice'' = None" "GetNonce ref_vm (baseCtx ?s) ''alice'' = 7"
    by (simp_all add: carol_db_def carol_obj_def setNonce_def newObject_def baseCtx_def Db_New_def GetNonce_def ref_vm_def ref_accounts_def vm_demo_def)
  have "db_step ref_sk (Db_New vm_demo demo_cfg) ?s" using demo_nonce by (auto intro: db_step.op db_op.intros)
  then have steps: "(db_step (vm_skeeper ref_vm ref_keccak))\<^sup>*\<^sup>* (Db_New vm_demo demo_cfg) ?s" unfolding ref_sk_def by simp
  have laws: "account_laws (vkAccounts ref_vm)" "statedb_laws (vm_skeeper ref_vm ref_keccak :: (unit, (ledger, addr \<Rightarrow> (u64 \<times> bool) option) sdk_state) SKeeper)"
    using refvm.account_laws_axioms refsdb.statedb_laws_axioms by (simp_all add: ref_sk_def)
  note c = commit_writes_dirty_accounts [OF laws demo_prepare steps s1 [unfolded ref_sk_def]]
  have "GetNonce ref_vm (sdCtx s1) ''carol'' = 4" using c d(1-4) by auto
  moreover have "GetNonce ref_vm (sdCtx s1) ''alice'' = 7" using c d(5,6) by (simp add: GetNonce_def)
  ultimately show ?thesis using demo_nonce s1 by blast
qed

end
