(* ===== verification/State_Dirty.thy ===== *)
theory State_Dirty
  imports State_Commit
begin

text \<open>
  The dirty accounts of the state database. The journal counts, for every account, the entries that changed
  it; a commit looks up the object of every account with a count, through a pointer it does not check. The
  invariant \<open>counted\<close> says that the counts are right and that the object is always there: the one way an object
  disappears is the undo of its creation, and nothing in the journal before that entry is about the account.
\<close>

definition changes :: "journal_entry list \<Rightarrow> addr \<Rightarrow> nat" where
  "changes es a = length (filter (\<lambda>e. Dirtied e = Some a) es)"

text \<open>An account is created only when nothing before in the journal is about it.\<close>

definition fresh :: "journal_entry list \<Rightarrow> bool" where
  "fresh es \<longleftrightarrow> (\<forall>es1 a es2. es = es1 @ createObjectChange a # es2 \<longrightarrow> changes es1 a = 0)"

definition counted :: "journal_entry list \<Rightarrow> ('s, 'b) StateDB \<Rightarrow> bool" where
  "counted es s \<longleftrightarrow> fresh es \<and> (\<forall>a. map_of (dirties s) a = (if changes es a = 0 then None else Some (int (changes es a)))) \<and>
     (\<forall>a. changes es a \<noteq> 0 \<longrightarrow> stateObjects s a \<noteq> None)"

lemma changes_simps [simp]: "changes [] a = 0" "changes (es @ [e]) a = changes es a + (if Dirtied e = Some a then 1 else 0)"
  by (simp_all add: changes_def)

lemma fresh_append: "fresh (es @ [e]) \<longleftrightarrow> fresh es \<and> (\<forall>a. e = createObjectChange a \<longrightarrow> changes es a = 0)"
proof
  assume f: "fresh (es @ [e])"
  have "changes es1 a = 0" if "es = es1 @ createObjectChange a # es2" for es1 a es2
  proof -
    have "es @ [e] = es1 @ createObjectChange a # (es2 @ [e])" using that by simp
    then show ?thesis using f unfolding fresh_def by blast
  qed
  then have "fresh es" by (auto simp: fresh_def)
  moreover have "\<forall>a. e = createObjectChange a \<longrightarrow> changes es a = 0" using f by (auto simp: fresh_def)
  ultimately show "fresh es \<and> (\<forall>a. e = createObjectChange a \<longrightarrow> changes es a = 0)" ..
next
  assume h: "fresh es \<and> (\<forall>a. e = createObjectChange a \<longrightarrow> changes es a = 0)"
  show "fresh (es @ [e])" unfolding fresh_def
  proof (intro allI impI)
    fix es1 a es2
    assume eq: "es @ [e] = es1 @ createObjectChange a # es2"
    show "changes es1 a = 0"
    proof (cases es2 rule: rev_cases)
      case Nil
      with eq h show ?thesis by simp
    next
      case (snoc es2' x)
      with eq have "es = es1 @ createObjectChange a # es2'" by (metis append.assoc append_Cons butlast_snoc)
      with h show ?thesis by (auto simp: fresh_def)
    qed
  qed
qed

section \<open>Methods keep the counts\<close>

definition keeps :: "('s, 'b) StateDB \<Rightarrow> ('s, 'b) StateDB \<Rightarrow> bool" where
  "keeps s s1 \<longleftrightarrow> (counted (entries s) s \<longrightarrow> counted (entries s1) s1)"

lemma keeps_refl [simp]: "keeps s s" and keeps_trans [trans]: "keeps s s1 \<Longrightarrow> keeps s1 s2 \<Longrightarrow> keeps s s2"
  by (auto simp: keeps_def)

text \<open>More live objects, nothing else.\<close>

lemma keeps_live:
  assumes "entries s1 = entries s" "dirties s1 = dirties s" and "\<And>a. stateObjects s a \<noteq> None \<Longrightarrow> stateObjects s1 a \<noteq> None"
  shows "keeps s s1"
  using assms by (auto simp: keeps_def counted_def)

lemma keeps_put [simp]: "keeps s (setStateObject obj s)"
  by (rule keeps_live) auto

text \<open>An entry about a live object, or one that opens the journal of a new one.\<close>

lemma keeps_entry:
  assumes "entries s1 = entries s @ [e]" "dirties s1 = dirties (journal_append e s)" and "\<And>a. stateObjects s a \<noteq> None \<Longrightarrow> stateObjects s1 a \<noteq> None"
    and "\<And>a. Dirtied e = Some a \<Longrightarrow> stateObjects s1 a \<noteq> None" and "\<And>a. e = createObjectChange a \<Longrightarrow> stateObjects s a = None"
  shows "keeps s s1"
  unfolding keeps_def
proof
  assume c: "counted (entries s) s"
  have "fresh (entries s1)" using c assms(1,5) by (auto simp: fresh_append counted_def)
  moreover have "map_of (dirties s1) a = (if changes (entries s1) a = 0 then None else Some (int (changes (entries s1) a)))" for a
    using c by (auto simp: assms(1,2) counted_def dirtied_def split: option.split)
  moreover have "stateObjects s1 a \<noteq> None" if "changes (entries s1) a \<noteq> 0" for a
  proof (cases "Dirtied e = Some a")
    case False
    with that have "changes (entries s) a \<noteq> 0" by (simp add: assms(1))
    then show ?thesis using c assms(3) by (auto simp: counted_def)
  qed (rule assms(4))
  ultimately show "counted (entries s1) s1" by (simp add: counted_def)
qed

lemma keeps_change:
  assumes "Dirtied e = Some (soAddress obj)" and "\<And>a. e \<noteq> createObjectChange a"
  shows "keeps s (setStateObject obj (journal_append e s))"
  by (rule keeps_entry [where e = e]) (use assms in auto)

lemma keeps_plain:
  assumes "Dirtied e = None" "entries s1 = entries s @ [e]" "dirties s1 = dirties s" "stateObjects s1 = stateObjects s"
  shows "keeps s s1"
  by (rule keeps_entry [where e = e]) (use assms in auto)

lemma keeps_get: "getStateObject K a s = Inr (x, s1) \<Longrightarrow> keeps s s1"
  by (auto simp: getStateObject_def Let_def split: option.splits)

lemma keeps_create: "createObject K a s = Inr (obj, prev, s1) \<Longrightarrow> keeps s s1"
proof -
  assume "createObject K a s = Inr (obj, prev, s1)"
  then obtain s0 where g: "getStateObject K a s = Inr (prev, s0)"
    and s1: "s1 = setStateObject (newObject (sk_geth K) a zeroAccount) (journal_append (case prev of None \<Rightarrow> createObjectChange a | Some p \<Rightarrow> resetObjectChange p) s0)"
    by (auto simp: createObject_def Let_def)
  have "prev = stateObjects s0 a" using g by (auto simp: getStateObject_def Let_def split: option.splits)
  then have "keeps s0 s1" unfolding s1
    by (intro keeps_entry [where e = "case prev of None \<Rightarrow> createObjectChange a | Some p \<Rightarrow> resetObjectChange p"]) (auto split: option.splits)
  with keeps_get [OF g] show "keeps s s1" by (rule keeps_trans)
qed

lemma keeps_getOrNew: "getOrNewStateObject K a s = Inr (obj, s1) \<Longrightarrow> keeps s s1"
  by (auto simp: getOrNewStateObject_def split: option.splits dest!: keeps_get keeps_create intro: keeps_trans)

lemma keeps_via:
  assumes "tryE (getOrNewStateObject K a s) (\<lambda>(obj, s0). f obj s0) = Inr r" and "\<And>obj s0. f obj s0 = Inr r \<Longrightarrow> keeps s0 s1"
  shows "keeps s s1"
proof -
  from assms(1) obtain obj s0 where "getOrNewStateObject K a s = Inr (obj, s0)" "f obj s0 = Inr r" by auto
  with keeps_getOrNew assms(2) keeps_trans show ?thesis by blast
qed

lemma keeps_SetBalance: "Obj_SetBalance x obj s = Inr (r, s1) \<Longrightarrow> keeps s s1"
  by (auto simp: Obj_SetBalance_def intro: keeps_change)

lemma keeps_objects:
  "Db_AddBalance K a x s = Inr (r, s1) \<Longrightarrow> keeps s s1" "Db_SubBalance K a x s = Inr (r, s1) \<Longrightarrow> keeps s s1"
  "Db_SetBalance K a x s = Inr s1 \<Longrightarrow> keeps s s1" "Db_SetNonce K a n s = Inr s1 \<Longrightarrow> keeps s s1"
  "Db_SetCode K a code s = Inr (rc, s1) \<Longrightarrow> keeps s s1" "Db_SetState K a key val s = Inr (rh, s1) \<Longrightarrow> keeps s s1"
  unfolding Db_AddBalance_def Db_SubBalance_def Db_SetBalance_def Db_SetNonce_def Db_SetCode_def Db_SetState_def
  by (erule keeps_via; auto simp: Obj_AddBalance_def Obj_SubBalance_def Obj_SetNonce_def Obj_SetCode_def Obj_SetState_def
      intro!: keeps_change dest: keeps_SetBalance split: if_splits prod.splits)+

lemma keeps_accounts:
  "CreateAccount K a s = Inr s1 \<Longrightarrow> keeps s s1" "CreateContract K a s = Inr s1 \<Longrightarrow> keeps s s1"
proof -
  assume "CreateAccount K a s = Inr s1"
  then show "keeps s s1"
    by (auto simp: CreateAccount_def split: option.splits dest!: keeps_create intro: keeps_trans [OF _ keeps_put])
next
  assume "CreateContract K a s = Inr s1"
  then obtain obj s0 where g: "getStateObject K a s = Inr (Some obj, s0)"
    and s1: "s1 = (if \<not> newContract obj then journal_append (createContractChange a) (setStateObject (obj\<lparr>newContract := True\<rparr>) s0) else s0)"
    by (auto simp: CreateContract_def split: if_splits)
  have "keeps s0 (journal_append (createContractChange a) (setStateObject (obj\<lparr>newContract := True\<rparr>) s0))"
    by (rule keeps_trans [OF keeps_put [of s0 "obj\<lparr>newContract := True\<rparr>"] keeps_plain [where e = "createContractChange a"]]) simp_all
  with keeps_get [OF g] s1 show "keeps s s1" using keeps_trans by auto
qed

text \<open>The entry of a self-destruction names the argument, under which the object is live.\<close>

lemma keeps_destruct: "SelfDestruct K a s = Inr (r, s1) \<Longrightarrow> keeps s s1"
proof -
  assume r: "SelfDestruct K a s = Inr (r, s1)"
  then obtain x s0 where g: "getStateObject K a s = Inr (x, s0)" by (auto simp: SelfDestruct_def)
  have live: "stateObjects s0 a = x" using g by (auto simp: getStateObject_def Let_def split: option.splits)
  have "keeps s0 s1"
  proof (cases x)
    case (Some obj)
    with r g obtain prev where "s1 = setStateObject (setBalance (Some 0) (obj\<lparr>selfDestructed := True\<rparr>))
        (journal_append (selfDestructChange a (selfDestructed obj) (Some prev)) s0)" by (auto simp: SelfDestruct_def)
    with live Some show ?thesis by (intro keeps_entry [where e = "selfDestructChange a (selfDestructed obj) (Some prev)"]) (auto split: if_splits)
  qed (use r g in \<open>simp add: SelfDestruct_def\<close>)
  with keeps_get [OF g] show ?thesis by (rule keeps_trans)
qed

lemma keeps_destruct6780: "SelfDestruct6780 K a s = Inr (r, s1) \<Longrightarrow> keeps s s1"
  by (auto simp: SelfDestruct6780_def split: option.splits if_splits dest!: keeps_get keeps_destruct intro: keeps_trans)

lemma keeps_read: "readObject K a m f s = Inr (r, s1) \<Longrightarrow> keeps s s1"
  by (auto simp: readObject_def case_prod_beta split: option.splits dest!: keeps_get intro: keeps_trans [OF _ keeps_put])

lemma keeps_readers:
  "Exist K a s = Inr (b, s1) \<Longrightarrow> keeps s s1" "Db_Empty K a s = Inr (b, s1) \<Longrightarrow> keeps s s1"
  "Db_GetBalance K a s = Inr (r1, s1) \<Longrightarrow> keeps s s1" "Db_GetNonce K a s = Inr (r2, s1) \<Longrightarrow> keeps s s1"
  "Db_GetCode K a s = Inr (r3, s1) \<Longrightarrow> keeps s s1" "Db_GetCodeHash K a s = Inr (r4, s1) \<Longrightarrow> keeps s s1"
  "Db_GetState K a key s = Inr (r5, s1) \<Longrightarrow> keeps s s1" "Db_GetCommittedState K a key s = Inr (r6, s1) \<Longrightarrow> keeps s s1"
  "HasSelfDestructed K a s = Inr (r7, s1) \<Longrightarrow> keeps s s1"
  by (auto simp: Exist_def Db_Empty_def Db_GetBalance_def Db_GetNonce_def Db_GetCode_def Db_GetCodeHash_def Db_GetState_def
      Db_GetCommittedState_def HasSelfDestructed_def split: option.splits dest: keeps_get keeps_read)

lemma keeps_rest:
  "keeps s (AddLog log s)" "keeps s (AddRefund gas s)" "SubRefund gas s = Inr s1 \<Longrightarrow> keeps s s1" "keeps s (SetTransientState a key val s)"
  "keeps s (AddAddressToAccessList a s)"
proof -
  show "keeps s (AddLog log s)" by (rule keeps_plain [where e = addLogChange]) (simp_all add: AddLog_def Let_def)
  show "keeps s (AddRefund gas s)" by (rule keeps_plain [where e = "refundChange (refund s)"]) (simp_all add: AddRefund_def Let_def)
  show "keeps s s1" if "SubRefund gas s = Inr s1" using that
    by (intro keeps_plain [where e = "refundChange (refund s)"]) (auto simp: SubRefund_def Let_def split: if_splits)
  show "keeps s (SetTransientState a key val s)"
    by (cases "GetTransientState a key s = val")
      (simp add: SetTransientState_def, rule keeps_plain [where e = "transientStorageChange a key (GetTransientState a key s)"], simp_all add: SetTransientState_def Let_def)
  show "keeps s (AddAddressToAccessList a s)"
    by (cases "fst (AddAddress a (accessList s))") (rule keeps_plain [where e = "accessListAddAccountChange a"] keeps_live,
        simp_all add: AddAddressToAccessList_def Let_def case_prod_beta)+
qed

lemma keeps_slot: "AddSlotToAccessList a slot s = Inr s1 \<Longrightarrow> keeps s s1"
proof -
  assume "AddSlotToAccessList a slot s = Inr s1"
  then obtain b d al where s1: "s1 = (let s2 = (if b then journal_append (accessListAddAccountChange a) (s\<lparr>accessList := al\<rparr>) else s\<lparr>accessList := al\<rparr>)
      in if d then journal_append (accessListAddSlotChange a slot) s2 else s2)" by (auto simp: AddSlotToAccessList_def Let_def)
  have 1: "keeps s (s\<lparr>accessList := al\<rparr>)" by (rule keeps_live) simp_all
  have 2: "keeps s' (journal_append (accessListAddAccountChange a) s')" for s' :: "('a, 'b) StateDB"
    by (rule keeps_plain [where e = "accessListAddAccountChange a"]) simp_all
  have 3: "keeps s' (journal_append (accessListAddSlotChange a slot) s')" for s' :: "('a, 'b) StateDB"
    by (rule keeps_plain [where e = "accessListAddSlotChange a slot"]) simp_all
  show ?thesis unfolding s1 Let_def using 1 keeps_trans [OF 1 2] keeps_trans [OF 1 3] keeps_trans [OF keeps_trans [OF 1 2] 3] by auto
qed

lemma keeps_precompile: "precompile_run s s1 \<Longrightarrow> keeps s s1"
proof -
  assume "precompile_run s s1"
  then obtain i s2 err s3 k c n where r: "MultiStoreSnapshot (snd (GetCacheContext s)) = Inr (i, s2)" "AddPrecompileFn i s2 = Inr (err, s3)"
    "s1 = s3\<lparr>sdCache := Some (setCacheCtx c k), processedEventsCount := n\<rparr>" by (auto simp: precompile_run_def)
  from r(1) have "entries s2 = entries s" "dirties s2 = dirties s" "stateObjects s2 = stateObjects s"
    by (auto simp: MultiStoreSnapshot_def GetCacheContext_def Let_def split: option.splits prod.splits)
  moreover from r(2) obtain es m where "entries s3 = entries s2 @ [precompileCallChange i es m]" "dirties s3 = dirties s2" "stateObjects s3 = stateObjects s2"
    by (auto simp: AddPrecompileFn_def Let_def)
  ultimately show ?thesis using r(3) by (intro keeps_plain [where e = "precompileCallChange i es m"]) simp_all
qed

lemma db_op_keeps: "db_op K s s1 \<Longrightarrow> keeps s s1"
  by (induction rule: db_op.induct)
    (simp_all add: keeps_objects keeps_accounts keeps_destruct keeps_destruct6780 keeps_rest keeps_slot keeps_precompile keeps_readers)

section \<open>Returns keep the counts\<close>

definition grown :: "('s, 'b) StateDB \<Rightarrow> ('s, 'b) StateDB \<Rightarrow> bool" where
  "grown s s1 \<longleftrightarrow> entries s1 = entries s \<and> dirties s1 = dirties s \<and> (\<forall>a. stateObjects s a \<noteq> None \<longrightarrow> stateObjects s1 a \<noteq> None)"

lemma grown_refl [simp]: "grown s s" and grown_put [simp]: "grown s (setStateObject obj s)"
  and grown_trans: "grown s s1 \<Longrightarrow> grown s1 s2 \<Longrightarrow> grown s s2"
  by (simp_all add: grown_def)

lemma grown_get: "getStateObject K a s = Inr (x, s1) \<Longrightarrow> grown s s1"
  by (auto simp: getStateObject_def Let_def split: option.splits)

lemma grown_onObject: "onObject K a f s = Inr s1 \<Longrightarrow> grown s s1"
  by (auto simp: onObject_def dest!: grown_get intro: grown_trans [OF _ grown_put])

lemma Revert_grown:
  assumes "Revert K e s = Inr s1"
  shows "(\<forall>a. e \<noteq> createObjectChange a) \<Longrightarrow> grown s s1"
    and "e = createObjectChange a \<Longrightarrow> entries s1 = entries s \<and> dirties s1 = dirties s \<and> stateObjects s1 = (stateObjects s)(a := None)"
proof -
  show "grown s s1" if "\<forall>a. e \<noteq> createObjectChange a"
  proof (cases e)
    case (selfDestructChange a d b)
    with assms obtain x s0 where g: "getStateObject K a s = Inr (x, s0)"
      and "s1 = (case x of None \<Rightarrow> s0 | Some obj \<Rightarrow> setStateObject (setBalance b (obj\<lparr>selfDestructed := d\<rparr>)) s0)" by (auto split: option.splits)
    then have "grown s0 s1" by (cases x) auto
    with grown_get [OF g] show ?thesis by (rule grown_trans)
  next
    case (precompileCallChange i es n)
    with assms show ?thesis by (auto simp: RevertMultiStore_def grown_def)
  qed (use assms that in \<open>auto dest!: grown_onObject simp: grown_def split: if_splits\<close>)
  show "entries s1 = entries s \<and> dirties s1 = dirties s \<and> stateObjects s1 = (stateObjects s)(a := None)" if "e = createObjectChange a"
    using assms that by auto
qed

lemma Revert_frame: "Revert K e s = Inr s1 \<Longrightarrow> entries s1 = entries s \<and> dirties s1 = dirties s"
  using Revert_grown [of K e s s1] by (cases "\<exists>a. e = createObjectChange a") (auto simp: grown_def)

lemma Revert_live: "Revert K e s = Inr s1 \<Longrightarrow> e \<noteq> createObjectChange b \<Longrightarrow> stateObjects s b \<noteq> None \<Longrightarrow> stateObjects s1 b \<noteq> None"
  using Revert_grown [of K e s s1] by (cases "\<exists>a. e = createObjectChange a") (auto simp: grown_def)

lemma counted_undo:
  assumes "counted (es @ [e]) s" and "Revert K e s = Inr s1"
  shows "counted es (undirty e s1)"
proof -
  have d: "map_of (dirties s) a = (if changes (es @ [e]) a = 0 then None else Some (int (changes (es @ [e]) a)))" for a
    using assms(1) by (simp add: counted_def)
  have "map_of (dirties (undirty e s1)) a = (if changes es a = 0 then None else Some (int (changes es a)))" for a
    using d Revert_frame [OF assms(2)]
    by (cases "Dirtied e") (auto simp: undirty_def Let_def dirtyCount_def update_conv' delete_conv' split: option.splits if_splits)
  moreover have "stateObjects (undirty e s1) a \<noteq> None" if a: "changes es a \<noteq> 0" for a
  proof -
    have "e \<noteq> createObjectChange a" using assms(1) a by (auto simp: counted_def fresh_append)
    moreover have "stateObjects s a \<noteq> None" using assms(1) a by (simp add: counted_def)
    ultimately have "stateObjects s1 a \<noteq> None" by (rule Revert_live [OF assms(2)])
    then show ?thesis by (auto simp: undirty_def Let_def split: option.split)
  qed
  ultimately show ?thesis using assms(1) by (auto simp: counted_def fresh_append)
qed

lemma counted_undo_all:
  assumes "forE (\<lambda>entry s. tryE (Revert K entry s) (\<lambda>s1. Inr (undirty entry s1))) (rev fs) s = Inr s1" and "counted (es @ fs) s"
  shows "counted es s1"
  using assms
proof (induction fs arbitrary: s rule: rev_induct)
  case (snoc e fs)
  then obtain s0 where "Revert K e s = Inr s0"
    "forE (\<lambda>entry s. tryE (Revert K entry s) (\<lambda>s1. Inr (undirty entry s1))) (rev fs) (undirty e s0) = Inr s1" by auto
  with snoc.IH counted_undo [of "es @ fs" e s K s0] snoc.prems(2) show ?case by simp
qed simp

lemma counted_RevertToSnapshot:
  assumes "RevertToSnapshot K i s = Inr s1" and "counted (entries s) s"
  shows "counted (entries s1) s1"
proof -
  from assms(1) obtain n m s0 where r: "forE (\<lambda>entry s. tryE (Revert K entry s) (\<lambda>s1. Inr (undirty entry s1))) (rev (drop n (entries s))) s = Inr s0"
    "s1 = s0\<lparr>entries := take n (entries s0), validRevisions := take m (validRevisions s0)\<rparr>"
    by (auto simp: RevertToSnapshot_def journal_Revert_def Let_def split: if_splits)
  have "entries s0 = entries s" by (rule forE_invariant [where P = "\<lambda>t. entries t = entries s", OF r(1)]) (auto dest: Revert_frame)
  with counted_undo_all [OF r(1), of "take n (entries s)"] assms(2) show ?thesis by (simp add: r(2) counted_def)
qed

text \<open>A commit finds the object of every dirty account. In every state that the methods of the database reach from
  the start of a transaction, with any snapshots and returns, the count of an account in the dirty set is the
  number of journal entries that changed it, and an account with a count has a live object: the commit and the
  flush before a precompiled contract never follow a nil pointer.\<close>

theorem dirty_accounts_live:
  assumes "Prepare rules sender coinbase dst precompiles list (Db_New c cfg) = Inr s0" and "(db_step K)\<^sup>*\<^sup>* s0 s"
  shows "(\<forall>a. map_of (dirties s) a = (if changes (entries s) a = 0 then None else Some (int (changes (entries s) a)))) \<and>
     (\<forall>a. a \<in> set (sortedDirties s) \<longrightarrow> stateObjects s a \<noteq> None)"
proof -
  have "entries s0 = []" "dirties s0 = []" using assms(1) by (auto simp: Prepare_def Db_New_def Let_def split: if_splits)
  then have "counted (entries s0) s0" by (simp add: counted_def fresh_def)
  with assms(2) have c: "counted (entries s) s"
  proof (induction rule: rtranclp_induct)
    case (step s1 s2)
    then have "counted (entries s1) s1" by simp
    with step.hyps(2) show ?case
      by cases (use db_op_keeps counted_RevertToSnapshot in \<open>auto simp: keeps_def\<close>, simp add: counted_def Db_Snapshot_def Let_def)
  qed simp
  have "map_of (dirties s) a \<noteq> None" if "a \<in> set (sortedDirties s)" for a
    using that by (auto simp: sortedDirties_def map_of_eq_None_iff)
  with c show ?thesis unfolding counted_def by (metis (no_types, lifting))
qed

theorem dirty_accounts_live_witness:
  "\<exists>s. Db_SetNonce ref_sk ''carol'' 4 (Db_New vm_demo demo_cfg) = Inr s \<and> map_of (dirties s) ''carol'' = Some 2 \<and>
     changes (entries s) ''carol'' = 2 \<and> stateObjects s ''carol'' \<noteq> None"
proof -
  have "db_step ref_sk (Db_New vm_demo demo_cfg) carol_db" using demo_nonce by (auto intro: db_step.op db_op.intros)
  then have steps: "(db_step ref_sk)\<^sup>*\<^sup>* (Db_New vm_demo demo_cfg) carol_db" by simp
  note d = dirty_accounts_live [OF demo_prepare steps]
  have "changes (entries carol_db) ''carol'' = 2" "''carol'' \<in> set (sortedDirties carol_db)"
    by (simp_all add: changes_def carol_db_def sortedDirties_def)
  with d have "map_of (dirties carol_db) ''carol'' = Some 2 \<and> stateObjects carol_db ''carol'' \<noteq> None" by (metis of_nat_numeral zero_neq_numeral)
  with demo_nonce show ?thesis using \<open>changes (entries carol_db) ''carol'' = 2\<close> by blast
qed

end
