(* ===== verification/Evm_Ante.thy ===== *)
theory Evm_Ante
  imports Vm_Keeper Proposal
begin

text \<open>
  The mono decorator of the fork (\<^verbatim>\<open>forks/cosmos-evm-v0.6.0/ante/evm\<close>: \<^verbatim>\<open>mono_decorator.go\<close>, \<^verbatim>\<open>01_setup_ctx.go\<close> to
  \<^verbatim>\<open>11_emit_event.go\<close>, \<^verbatim>\<open>utils.go\<close>), through which every Ethereum transaction goes: it validates the wrapping
  transaction and the Ethereum one, checks fees, balance and signature, charges the fee and raises the
  sequence of the sender.

  The protobuf view of the transaction, its \<open>ValidateBasic\<close> and the interfaces it implements are parameters of
  \<open>MonoDecorator\<close>; so is the payload of a message. The gas configuration and the meter of the context are not
  part of the context here: the limit of the meter and the priority that the decorator sets are the second
  result of \<open>MonoDecorator_checks\<close>.
\<close>

section \<open>The wrapping transaction\<close>

record tx_fee =
  feeAmount :: coins
  feeGasLimit :: u64
  feePayer :: string
  feeGranter :: string

record tx_body =
  bodyMemo :: string
  bodyTimeoutHeight :: u64
  bodyExtensionOptions :: "ext_option list"
  bodyNonCriticalExtensionOptions :: "ext_option list"

record auth_info =
  aiSignerInfos :: "string list"
  aiFee :: "tx_fee option"

record proto_tx =
  ptBody :: "tx_body option"
  ptAuthInfo :: "auth_info option"
  ptSignatures :: "string list"

datatype AccessType = AccessTypePermissionless | AccessTypeRestricted | AccessTypePermissioned

record evm_params =
  accessCreate :: AccessType
  accessCall :: AccessType

text \<open>\<open>txValidateBasic\<close> and \<open>txProto\<close> are \<open>None\<close> for a transaction type that has no such method.\<close>

record ('k, 'm, 'acc, 'a) MonoDecorator =
  mdVm :: "('k, 'm, 'acc) VmKeeper"
  mdEth :: "'a eth_api"
  mdRaw :: "'a \<Rightarrow> eth_tx option"
  txValidateBasic :: "'a tx \<Rightarrow> unit res option"
  txProto :: "'a tx \<Rightarrow> proto_tx option"
  txIsGasTx :: "'a tx \<Rightarrow> bool"
  mdIsLondon :: "int \<Rightarrow> bool"
  DecCoins_AmountOf :: "(denom \<times> dec) list \<Rightarrow> denom \<Rightarrow> dec"
  maxGasWanted :: u64
  evmParams :: evm_params
  feemarketParams :: fm_params

definition ErrNoSignatures :: go_err where "ErrNoSignatures = SdkErr ''no signatures supplied''"

definition ValidateTx :: "('k, 'm, 'acc, 'a) MonoDecorator \<Rightarrow> 'a tx \<Rightarrow> tx_fee res" where
  "ValidateTx md tx =
     tryE (case txValidateBasic md tx of Some (Inl e) \<Rightarrow> if e \<noteq> ErrNoSignatures then Inl e else Inr () | _ \<Rightarrow> Inr ()) (\<lambda>_.
     case txProto md tx of None \<Rightarrow> Inl (SdkErr ''unknown request: not a ProtoTxProvider'')
     | Some protoTx \<Rightarrow>
       tryE (deref (ptBody protoTx)) (\<lambda>body.
       if bodyMemo body \<noteq> [] \<or> bodyTimeoutHeight body \<noteq> 0 \<or> 0 < length (bodyNonCriticalExtensionOptions body)
       then Inl (SdkErr ''invalid request: for eth tx body Memo TimeoutHeight NonCriticalExtensionOptions should be empty'')
       else if length (bodyExtensionOptions body) \<noteq> 1
       then Inl (SdkErr ''invalid request: for eth tx length of ExtensionOptions should be 1'')
       else tryE (deref (ptAuthInfo protoTx)) (\<lambda>authInfo.
       if 0 < length (aiSignerInfos authInfo) then Inl (SdkErr ''invalid request: for eth tx AuthInfo SignerInfos should be empty'')
       else tryE (deref (aiFee authInfo)) (\<lambda>fee.
       if feePayer fee \<noteq> [] \<or> feeGranter fee \<noteq> [] then Inl (SdkErr ''invalid request: for eth tx AuthInfo Fee payer and granter should be empty'')
       else if 0 < length (ptSignatures protoTx) then Inl (SdkErr ''invalid request: for eth tx Signatures should be empty'')
       else Inr fee))))"

section \<open>The checks\<close>

definition SetupContextAndResetTransientGas :: "('k, 'm, 'acc, 'a) MonoDecorator \<Rightarrow> 'a tx \<Rightarrow> ('s, 'k, 'm) vctx \<Rightarrow> ('s, 'k, 'm) vctx res" where
  "SetupContextAndResetTransientGas md tx c =
     (if \<not> txIsGasTx md tx then Inl (SdkErr ''invalid type: expected GasTx'') else Inr (setVm (ResetTransientGasUsed (vmOf c)) c))"

record DecoratorUtils =
  duRules :: eth_rules
  duBaseFee :: "int option"
  MempoolMinGasPrice :: dec
  GlobalMinGasPrice :: "dec option"
  BlockTxIndex :: u64
  TxGasLimit :: u64
  GasWanted :: u64
  MinPriority :: int
  TxFee :: int

definition NewMonoDecoratorUtils :: "('k, 'm, 'acc, 'a) MonoDecorator \<Rightarrow> check_ctx \<Rightarrow> ('s, 'k, 'm) vctx \<Rightarrow> DecoratorUtils res" where
  "NewMonoDecoratorUtils md info c =
     (let V = mdVm md; K = vkSdk V; rules = chainRules (vkGeth V) info in
      tryE (Vm_GetBaseFee K (vkCoin V) (mdIsLondon md) (BlockHeight info) (feemarketParams md)) (\<lambda>baseFee.
      if IsLondon rules \<and> baseFee = None then Inl (SdkErr ''invalid base fee: base fee is supported but evm block context value is nil'')
      else tryE (ConvertAmountTo18DecimalsLegacy K (vkCoin V) (DecCoins_AmountOf md (MinGasPrices info) (eciDenom (vkCoin V)))) (\<lambda>mempoolMinGasPrice.
      Inr \<lparr>duRules = rules, duBaseFee = baseFee, MempoolMinGasPrice = mempoolMinGasPrice,
        GlobalMinGasPrice = MinGasPrice (feemarketParams md), BlockTxIndex = GetTxIndexTransient (vmOf c),
        TxGasLimit = 0, GasWanted = 0, MinPriority = MaxInt64, TxFee = 0\<rparr>)))"

definition UnpackEthMsg :: "('k, 'm, 'acc, 'a) MonoDecorator \<Rightarrow> 'a sdk_msg \<Rightarrow> ('a \<times> eth_tx option) res" where
  "UnpackEthMsg md msg = (case msg of MsgEthereumTx e \<Rightarrow> Inr (e, mdRaw md e) | _ \<Rightarrow> Inl (SdkErr ''unknown request: invalid message type''))"

definition CheckMempoolFee :: "'x fee_sdk_scheme \<Rightarrow> dec \<Rightarrow> dec \<Rightarrow> dec \<Rightarrow> bool \<Rightarrow> unit res" where
  "CheckMempoolFee K fee mempoolMinGasPrice gasLimit isLondon =
     (if isLondon then Inr ()
      else tryE (chkDec K (Dec_Mul K mempoolMinGasPrice gasLimit)) (\<lambda>requiredFee.
      failIf (fee < requiredFee) (SdkErr ''insufficient fee'')))"

definition CheckGlobalFee :: "'x fee_sdk_scheme \<Rightarrow> dec \<Rightarrow> dec option \<Rightarrow> dec \<Rightarrow> unit res" where
  "CheckGlobalFee K fee globalMinGasPrice gasLimit =
     tryE (deref globalMinGasPrice) (\<lambda>p.
     if p = 0 then Inr ()
     else tryE (chkDec K (Dec_Mul K p gasLimit)) (\<lambda>requiredFee.
     failIf (fee < requiredFee) (SdkErr ''insufficient fee: provided fee < minimum global fee'')))"

definition checkDisabledCreateCall :: "eth_tx \<Rightarrow> evm_params \<Rightarrow> unit res" where
  "checkDisabledCreateCall t p =
     (let blockCreate = (accessCreate p = AccessTypeRestricted); blockCall = (accessCall p = AccessTypeRestricted) in
      if blockCreate \<and> TxTo t = None then Inl (SdkErr ''EVM Create operation is disabled'')
      else if blockCall \<and> TxTo t \<noteq> None then Inl (SdkErr ''EVM Call operation is disabled'')
      else Inr ())"

definition ValidateMsg :: "evm_params \<Rightarrow> eth_tx option \<Rightarrow> unit res" where
  "ValidateMsg p ethTx = (case ethTx of None \<Rightarrow> Inl (SdkErr ''invalid request: transaction is nil'') | Some t \<Rightarrow> checkDisabledCreateCall t p)"

definition SignatureVerification :: "'a eth_api \<Rightarrow> check_ctx \<Rightarrow> 'a \<Rightarrow> unit res" where
  "SignatureVerification E info ethMsg = asErr (SdkErr ''signature verification failed'') (VerifySender E info ethMsg)"

definition VerifyAccountBalance :: "('k, 'm, 'acc) VmKeeper \<Rightarrow> vm_account option \<Rightarrow> addr \<Rightarrow> eth_tx \<Rightarrow> ('s, 'k, 'm) vctx \<Rightarrow> ('s, 'k, 'm) vctx res" where
  "VerifyAccountBalance V account from t c =
     (let G = vkGeth V in
      if notNilAnd account (\<lambda>a. HasCodeHash G a \<and>
           (let code = GetCode (vmOf c) (BytesToHash G (acCodeHash a)) in 0 < length code \<and> \<not> ParseDelegation G code))
      then Inl (SdkErr ''invalid type: the sender is not EOA'')
      else let (a, c1) = (case account of Some a \<Rightarrow> (a, c)
             | None \<Rightarrow> (case ak_NewAccountWithAddress (vkAccounts V) (accounts c) from of (acc, m) \<Rightarrow>
                 (NewEmptyAccount G, setAccounts (ak_SetAccount (vkAccounts V) m acc) c))) in
      tryE (deref (acBalance a)) (\<lambda>balance.
      tryE (CheckSenderBalance G balance t) (\<lambda>_. Inr c1)))"

definition CanTransfer :: "('k, 'm, 'acc) VmKeeper \<Rightarrow> core_message \<Rightarrow> int option \<Rightarrow> bool \<Rightarrow> ('s, 'k, 'm) vctx \<Rightarrow> unit res" where
  "CanTransfer V msg baseFee isLondon c =
     tryE (if isLondon then tryE (deref baseFee) (\<lambda>b. failIf (cmGasFeeCap msg < b) (SdkErr ''insufficient fee: max fee per gas less than block base fee''))
           else Inr ()) (\<lambda>_.
     tryE (Uint256FromBigInt (cmValue msg)) (\<lambda>convertedValue.
     if 0 < cmValue msg then
       tryE (Vm_GetAccount V c (cmFrom msg)) (\<lambda>account.
       tryE (deref account) (\<lambda>a.
       tryE (deref (acBalance a)) (\<lambda>balance.
       failIf (balance < convertedValue) (SdkErr ''insufficient funds: failed to transfer''))))
     else Inr ()))"

definition EmitTo :: "event \<Rightarrow> ('s, 'b) ctx \<Rightarrow> ('s, 'b) ctx" where
  "EmitTo e c = c\<lparr>events := events c @ [e]\<rparr>"

definition deductFees :: "'a eth_api \<Rightarrow> ('k, 'm, 'acc) VmKeeper \<Rightarrow> coins \<Rightarrow> addr \<Rightarrow> ('s, 'k, 'm) vctx \<Rightarrow> ('s, 'k, 'm) vctx res" where
  "deductFees E V fees payer c = (if Coins_IsZero fees then Inr c else DeductTxCostsFromUserBalance V fees (BytesToAddress E payer) c)"

definition ConsumeFeesAndEmitEvent :: "'a eth_api \<Rightarrow> ('k, 'm, 'acc) VmKeeper \<Rightarrow> coins \<Rightarrow> addr \<Rightarrow> ('s, 'k, 'm) vctx \<Rightarrow> ('s, 'k, 'm) vctx res" where
  "ConsumeFeesAndEmitEvent E V fees from c =
     tryE (deductFees E V fees from c) (\<lambda>c1. Inr (EmitTo (Event ''tx'' [(''fee'', vkCoinsString V fees)]) c1))"

definition UpdateCumulativeGasWanted :: "check_ctx \<Rightarrow> u64 \<Rightarrow> u64 \<Rightarrow> u64 \<Rightarrow> u64" where
  "UpdateCumulativeGasWanted info msgGasWanted maxTxGasWanted cumulativeGasWanted =
     (if IsCheckTx info \<and> maxTxGasWanted \<noteq> 0
      then if maxTxGasWanted < msgGasWanted then cumulativeGasWanted + maxTxGasWanted else cumulativeGasWanted + msgGasWanted
      else cumulativeGasWanted + msgGasWanted)"

definition GetMsgPriority :: "'x fee_sdk_scheme \<Rightarrow> geth \<Rightarrow> eth_tx \<Rightarrow> int \<Rightarrow> int option \<Rightarrow> int res" where
  "GetMsgPriority K G t minPriority baseFee =
     tryE (GetTxPriority K G t baseFee) (\<lambda>priority. Inr (if priority < minPriority then priority else minPriority))"

text \<open>The messages of the two nonce errors are those of the fork's mempool; \<open>Wrapf\<close> puts its text in front.\<close>

definition ErrNonceGap :: string where "ErrNonceGap = ''tx nonce is higher than account nonce''"
definition ErrNonceLow :: string where "ErrNonceLow = ''tx nonce is lower than account nonce''"
definition ErrInvalidSequence :: string where "ErrInvalidSequence = ''invalid sequence''"

definition IncrementNonce :: "('m, 'acc) AccountKeeper \<Rightarrow> 'acc \<Rightarrow> u64 \<Rightarrow> 'm \<Rightarrow> 'm res" where
  "IncrementNonce A account txNonce m =
     (let accountNonce = acc_GetSequence A account in
      if accountNonce < txNonce then
        Inl (Errorf (''tx nonce: '' @ FormatUint txNonce @ '', account accountNonce: '' @ FormatUint accountNonce @ '': '' @ ErrNonceGap))
      else if txNonce < accountNonce then
        Inl (Errorf (''invalid nonce; got '' @ FormatUint txNonce @ '', expected '' @ FormatUint accountNonce @ '': '' @ ErrNonceLow))
      else if accountNonce = - 1 then
        Inl (Errorf (''nonce overflow: increment beyond 2^64-1 violates EIP-2681: '' @ ErrInvalidSequence))
      else tryE (acc_SetSequence A account (accountNonce + 1)) (\<lambda>account1. Inr (ak_SetAccount A m account1)))"

definition EmitTxHashEvent :: "eth_tx \<Rightarrow> u64 \<Rightarrow> u64 \<Rightarrow> ('s, 'b) ctx \<Rightarrow> ('s, 'b) ctx" where
  "EmitTxHashEvent t blockTxIndex msgIndex c =
     EmitTo (Event ''ethereum_tx'' [(''ethereumTxHash'', TxHash t), (''txIndex'', FormatUint (blockTxIndex + msgIndex))]) c"

definition CheckTxFee :: "'x fee_sdk_scheme \<Rightarrow> EvmCoinInfo \<Rightarrow> tx_fee option \<Rightarrow> int \<Rightarrow> u64 \<Rightarrow> unit res" where
  "CheckTxFee K evmCoin txFeeInfo txFee txGasLimit =
     (case txFeeInfo of None \<Rightarrow> Inr ()
      | Some info \<Rightarrow>
          tryE (Coins_AmountOf K (feeAmount info) (eciExtendedDenom evmCoin)) (\<lambda>amount.
          tryE (chk256 txFee) (\<lambda>fee.
          if amount \<noteq> fee then Inl (SdkErr ''invalid request: invalid AuthInfo Fee Amount'')
          else failIf (feeGasLimit info \<noteq> txGasLimit) (SdkErr ''invalid request: invalid AuthInfo Fee GasLimit''))))"

text \<open>The limit of the gas meter and the priority of the context for the rest of the chain.\<close>

record tx_settings =
  GasMeterLimit :: u64
  Priority :: int

definition CheckBlockGasLimit :: "check_ctx \<Rightarrow> u64 \<Rightarrow> int \<Rightarrow> tx_settings res" where
  "CheckBlockGasLimit info gasWanted minPriority =
     (if BlockGasLimit (block_ctx.truncate info) < gasWanted then Inl (SdkErr ''out of gas: tx gas exceeds block gas limit'')
      else Inr \<lparr>GasMeterLimit = gasWanted, Priority = minPriority\<rparr>)"

definition fmAdd :: "u64 \<Rightarrow> ('s, 'k, 'm) vctx \<Rightarrow> (u64 \<times> ('s, 'k, 'm) vctx) res" where
  "fmAdd g c = (case AddTransientGasWanted g (fmOf c) of (r, f) \<Rightarrow> Inr (r, setFm f c))"

section \<open>The decorator\<close>

text \<open>In three parts: the fee checks up to the signature; balance, transfer and fee; sequence, gas, events.\<close>

definition mono_fees :: "('k, 'm, 'acc, 'a) MonoDecorator \<Rightarrow> check_ctx \<Rightarrow> bool \<Rightarrow> DecoratorUtils \<Rightarrow> 'a \<Rightarrow> eth_tx \<Rightarrow> unit res" where
  "mono_fees md info simulate u ethMsg t =
     (let V = mdVm md; K = vkSdk V; G = vkGeth V;
          feeAmt = GetEthMsgFee G t; gasLimit = Dec_FromInt K (uint (TxGas t)) in
      tryE (if \<not> Protected t then Inl (SdkErr ''invalid request: rejected unprotected Ethereum transaction'') else Inr ()) (\<lambda>_.
      tryE (ValidateTransaction G info (duBaseFee u) t) (\<lambda>_.
      tryE (if IsCheckTx info \<and> \<not> simulate
            then CheckMempoolFee K (Dec_FromInt K feeAmt) (MempoolMinGasPrice u) gasLimit (IsLondon (duRules u)) else Inr ()) (\<lambda>_.
      let fee = (case duBaseFee u of Some b \<Rightarrow> if DynamicFeeTxType \<le> TxType t then GetEffectiveFee G t b else feeAmt | None \<Rightarrow> feeAmt) in
      tryE (CheckGlobalFee K (Dec_FromInt K fee) (GlobalMinGasPrice u) gasLimit) (\<lambda>_.
      tryE (ValidateMsg (evmParams md) (Some t)) (\<lambda>_.
      SignatureVerification (mdEth md) info ethMsg))))))"

definition mono_charge :: "('k, 'm, 'acc, 'a) MonoDecorator \<Rightarrow> check_ctx \<Rightarrow> DecoratorUtils \<Rightarrow> 'a \<Rightarrow> eth_tx \<Rightarrow>
    ('s, 'k, 'm) vctx \<Rightarrow> ('s, 'k, 'm) vctx res" where
  "mono_charge md info u ethMsg t c =
     (let V = mdVm md; G = vkGeth V; from = msgFrom (mdEth md) ethMsg; fromAddr = BytesToAddress (mdEth md) from in
      tryE (Vm_GetAccount V c fromAddr) (\<lambda>account.
      tryE (VerifyAccountBalance V account fromAddr t c) (\<lambda>c1.
      tryE (CanTransfer V (AsMessage G (GetSender (mdEth md) ethMsg) t (duBaseFee u)) (duBaseFee u) (IsLondon (duRules u)) c1) (\<lambda>_.
      tryE (VerifyFee G t (eciDenom (vkCoin V)) (duBaseFee u) (IsHomestead (duRules u)) (IsIstanbul (duRules u)) (IsShanghai (duRules u))
        (IsCheckTx info)) (\<lambda>msgFees.
      ConsumeFeesAndEmitEvent (mdEth md) V msgFees from c1)))))"

definition mono_finish :: "('k, 'm, 'acc, 'a) MonoDecorator \<Rightarrow> check_ctx \<Rightarrow> tx_fee option \<Rightarrow> DecoratorUtils \<Rightarrow> 'a \<Rightarrow> eth_tx \<Rightarrow>
    'a tx \<Rightarrow> ('s, 'k, 'm) vctx \<Rightarrow> (('s, 'k, 'm) vctx \<times> tx_settings) res" where
  "mono_finish md info txFeeInfo u ethMsg t tx c =
     (let V = mdVm md; K = vkSdk V; G = vkGeth V; A = vkAccounts V; from = msgFrom (mdEth md) ethMsg; gas = TxGas t;
          gasWanted = UpdateCumulativeGasWanted info gas (maxGasWanted md) (GasWanted u) in
      tryE (GetMsgPriority K G t (MinPriority u) (duBaseFee u)) (\<lambda>minPriority.
      let txFee = TxFee u + GetEthMsgFee G t; txGasLimit = TxGasLimit u + gas in
      case ak_GetAccount A (accounts c) from of None \<Rightarrow> Inl (SdkErr ''unknown address: account does not exist'')
      | Some acc \<Rightarrow>
        tryE (IncrementNonce A acc (TxNonce t) (accounts c)) (\<lambda>m.
        tryE (CheckGasWanted fmAdd (block_ctx.truncate info) tx (IsLondon (duRules u)) (feemarketParams md) (setAccounts m c)) (\<lambda>c1.
        let c2 = EmitTxHashEvent t (BlockTxIndex u) 0 c1 in
        tryE (CheckTxFee K (vkCoin V) txFeeInfo txFee txGasLimit) (\<lambda>_.
        tryE (CheckBlockGasLimit info gasWanted minPriority) (\<lambda>settings. Inr (c2, settings)))))))"

definition MonoDecorator_checks :: "('k, 'm, 'acc, 'a) MonoDecorator \<Rightarrow> check_ctx \<Rightarrow> ('s, 'k, 'm) vctx \<Rightarrow> 'a tx \<Rightarrow> bool \<Rightarrow>
    (('s, 'k, 'm) vctx \<times> tx_settings) res" where
  "MonoDecorator_checks md info c tx simulate =
     tryE (if IsReCheckTx info then Inr None else tryE (ValidateTx md tx) (\<lambda>f. Inr (Some f))) (\<lambda>txFeeInfo.
     tryE (SetupContextAndResetTransientGas md tx c) (\<lambda>c0.
     tryE (NewMonoDecoratorUtils md info c0) (\<lambda>u.
     if length (GetMsgs tx) \<noteq> 1 then Inl (SdkErr ''invalid request: expected 1 message'')
     else tryE (UnpackEthMsg md (GetMsgs tx ! 0)) (\<lambda>(ethMsg, raw).
     tryE (deref raw) (\<lambda>t.
     tryE (mono_fees md info simulate u ethMsg t) (\<lambda>_.
     tryE (mono_charge md info u ethMsg t c0) (\<lambda>c1.
     mono_finish md info txFeeInfo u ethMsg t tx c1)))))))"

definition MonoDecorator_AnteHandle :: "('k, 'm, 'acc, 'a) MonoDecorator \<Rightarrow> check_ctx \<Rightarrow> ('s, ('k, 'm) sdk_state, 'a) ante_decorator" where
  "MonoDecorator_AnteHandle md info nxt c tx simulate =
     tryE (MonoDecorator_checks md info c tx simulate) (\<lambda>(c', _). nxt c' tx simulate)"

section \<open>What an accepted transaction has gone through\<close>

text \<open>A recovered sender is an address, and the rules of a block say London when the chain configuration does.\<close>

locale mono_env = vm_env "mdVm md" wfb
  for md :: "('k, 'm, 'acc, 'a) MonoDecorator" and wfb :: "'k \<Rightarrow> bool" +
  assumes Recovered: "recoverSender (mdEth md) info e = Inr a \<Longrightarrow> BytesToAddress (mdEth md) a = a"
    and London: "IsLondon (chainRules (vkGeth (mdVm md)) info) = mdIsLondon md (BlockHeight info)"

lemma EmitTo_simps [simp]: "bank (EmitTo e c) = bank c" "store (EmitTo e c) = store c"
  by (simp_all add: EmitTo_def)

lemma GasWanted_step:
  "CheckGasWanted fmAdd b tx london p c = Inr c' \<Longrightarrow> accounts c' = accounts c \<and> coinsOf c' = coinsOf c \<and> vmOf c' = vmOf c \<and> store c' = store c"
  by (auto simp: CheckGasWanted_def Let_def fmAdd_def split: if_splits prod.splits)

lemma IncrementNonce_Inr:
  "IncrementNonce A acc n m = Inr m' \<longleftrightarrow> acc_GetSequence A acc = n \<and> n \<noteq> - 1 \<and>
     (\<exists>acc'. acc_SetSequence A acc (n + 1) = Inr acc' \<and> m' = ak_SetAccount A m acc')"
  by (auto simp: IncrementNonce_def Let_def split: if_splits)

lemma mono_finish_Inr:
  assumes "mono_finish md info txFeeInfo u ethMsg t tx c = Inr (c', settings)"
  obtains acc acc' where "ak_GetAccount (vkAccounts (mdVm md)) (accounts c) (msgFrom (mdEth md) ethMsg) = Some acc"
    and "acc_GetSequence (vkAccounts (mdVm md)) acc = TxNonce t" and "TxNonce t \<noteq> - 1"
    and "acc_SetSequence (vkAccounts (mdVm md)) acc (TxNonce t + 1) = Inr acc'"
    and "accounts c' = ak_SetAccount (vkAccounts (mdVm md)) (accounts c) acc'"
    and "coinsOf c' = coinsOf c" and "store c' = store c" and "vmOf c' = vmOf c"
    and "CheckTxFee (vkSdk (mdVm md)) (vkCoin (mdVm md)) txFeeInfo (TxFee u + GetEthMsgFee (vkGeth (mdVm md)) t) (TxGasLimit u + TxGas t) = Inr ()"
    and "CheckBlockGasLimit info (UpdateCumulativeGasWanted info (TxGas t) (maxGasWanted md) (GasWanted u)) (Priority settings) = Inr settings"
proof -
  from assms obtain acc m c1 p where r:
    "ak_GetAccount (vkAccounts (mdVm md)) (accounts c) (msgFrom (mdEth md) ethMsg) = Some acc"
    "IncrementNonce (vkAccounts (mdVm md)) acc (TxNonce t) (accounts c) = Inr m"
    "CheckGasWanted fmAdd (block_ctx.truncate info) tx (IsLondon (duRules u)) (feemarketParams md) (setAccounts m c) = Inr c1"
    "c' = EmitTxHashEvent t (BlockTxIndex u) 0 c1"
    "CheckTxFee (vkSdk (mdVm md)) (vkCoin (mdVm md)) txFeeInfo (TxFee u + GetEthMsgFee (vkGeth (mdVm md)) t) (TxGasLimit u + TxGas t) = Inr ()"
    "CheckBlockGasLimit info (UpdateCumulativeGasWanted info (TxGas t) (maxGasWanted md) (GasWanted u)) p = Inr settings"
    by (auto simp: mono_finish_def Let_def split: option.splits)
  from r(6) have "Priority settings = p" by (auto simp: CheckBlockGasLimit_def split: if_splits)
  with r GasWanted_step [OF r(3)] that show thesis by (auto simp: IncrementNonce_Inr EmitTxHashEvent_def)
qed

lemma CheckBlockGasLimit_Inr:
  "CheckBlockGasLimit info g p = Inr s \<longleftrightarrow> s = \<lparr>GasMeterLimit = g, Priority = p\<rparr> \<and> g \<le> BlockGasLimit (block_ctx.truncate info)"
  by (auto simp: CheckBlockGasLimit_def not_less)

lemma u64_succ: "w \<noteq> - 1 \<Longrightarrow> uint w < 2 ^ 64 - 1 \<and> uint (w + 1) = uint w + 1" for w :: u64
proof -
  assume w: "w \<noteq> - 1"
  have "uint w \<noteq> 2 ^ 64 - 1"
  proof
    assume "uint w = 2 ^ 64 - 1"
    then have "w = word_of_int (2 ^ 64 - 1)" by (metis word_of_int_uint)
    with w show False by simp
  qed
  with uint_bounded [of w] have "uint w < 2 ^ 64 - 1" by simp
  moreover have "uint (w + 1) = (uint w + 1) mod 2 ^ 64" by (simp add: uint_word_ariths)
  ultimately show ?thesis using uint_nonnegative [of w] by simp
qed

text \<open>The price a transaction pays per gas over a base fee.\<close>

definition effective_price :: "eth_tx \<Rightarrow> int \<Rightarrow> int" where
  "effective_price t b = min (GasTipCap t + b) (GasFeeCap t)"

definition ceil_cm :: "int \<Rightarrow> int" where
  "ceil_cm v = CM * (- ((- v) div CM))"

lemma ceil_cm_bounds: "v \<le> ceil_cm v \<and> ceil_cm v < v + CM"
  using CM_div [of "- v"] unfolding ceil_cm_def by (simp add: algebra_simps)

lemma a_send_zero [simp]: "a_send f t 0 L = L"
  by (simp add: a_send_def)

lemma singleton_mset: "mset xs = {#x#} \<Longrightarrow> xs = [x]"
  by simp

context mono_env
begin

lemma effective: "EffectiveGasTip (vkGeth (mdVm md)) t (Some b) + b = effective_price t b"
  by (simp add: Tip_eq effective_price_def)

lemma VerifyFee_Inr:
  assumes "VerifyFee (vkGeth (mdVm md)) t d (Some b) h i s ck = Inr fees"
  shows "b \<le> GasFeeCap t" and "fees = (if uint (TxGas t) * effective_price t b = 0 then [] else [mk_coin d (uint (TxGas t) * effective_price t b)])"
  using assms by (auto simp: VerifyFee_def Let_def effective split: if_splits)

lemma pay_fee:
  assumes "W_SendCoinsFromAccountToModule (mdVm md) x m [mk_coin (eciDenom (vkCoin (mdVm md))) v] e = Inr e'" and "wfb (ebank e)"
  shows "wfb (ebank e') \<and> others_same (vkBank (mdVm md)) (ebank e) (ebank e') \<and>
    evm_abs (vkBank (mdVm md)) (ebank e') = a_send x (moduleOf (mdVm md) m) (ceil_cm v) (evm_abs (vkBank (mdVm md)) (ebank e))"
proof -
  let ?cs = "[mk_coin (eb_evmDenom (vkBank (mdVm md))) v]"
  have conv: "ConvertCoinsDenomToExtendedDenom (mdVm md) [mk_coin (eciDenom (vkCoin (mdVm md))) v] = ?cs"
    using singleton_mset [of "vkCoinsSort (mdVm md) ?cs"] Sort_mset [of ?cs]
    by (simp add: ConvertCoinsDenomToExtendedDenom_def coin_denoms)
  show ?thesis
  proof (cases "v = 0")
    case True
    then have "e' = e" using assms(1) unfolding W_SendCoinsFromAccountToModule_def conv Let_def by (simp add: Coins_IsZero_def)
    with True assms(2) show ?thesis by (simp add: others_same_def ceil_cm_def)
  next
    case False
    then have "Evm_SendCoinsFromAccountToModule (vkSdk (mdVm md)) (vkBank (mdVm md)) e x m ?cs = Inr e'"
      using assms(1) by (simp add: W_SendCoinsFromAccountToModule_def conv Let_def Coins_IsZero_def)
    from Evm_AccountToModule_Inr [OF assms(2) this] show ?thesis by (simp add: ceils_def ceil_cm_def)
  qed
qed

lemma Consume_Inr:
  assumes "ConsumeFeesAndEmitEvent (mdEth md) (mdVm md) fees from c = Inr c'" and "BytesToAddress (mdEth md) from = from" and "wfb (coinsOf c)"
    and "fees = (if v = 0 then [] else [mk_coin (eciDenom (vkCoin (mdVm md))) v])"
  shows "wfb (coinsOf c') \<and> others_same (vkBank (mdVm md)) (coinsOf c) (coinsOf c') \<and> accounts c' = accounts c \<and> store c' = store c \<and>
    evmL (mdVm md) c' = a_send from (moduleOf (mdVm md) feeCollector) (ceil_cm v) (evmL (mdVm md) c)"
proof (cases "v = 0")
  case True
  with assms show ?thesis
    by (auto simp: ConsumeFeesAndEmitEvent_def deductFees_def Coins_IsZero_def others_same_def ceil_cm_def)
next
  case False
  let ?e = "\<lparr>ebank = coinsOf c, eevents = Some (events c)\<rparr>"
  from False assms(1,2,4) obtain acc e1 where acc: "ak_GetAccount (vkAccounts (mdVm md)) (accounts c) from = Some acc"
    and pay: "vkDeductFees (mdVm md) (W_SendCoinsFromAccountToModule (mdVm md)) (acc_GetAddress (vkAccounts (mdVm md)) acc) fees ?e = Inr e1"
    and c': "coinsOf c' = ebank e1" "accounts c' = accounts c" "store c' = store c"
    by (auto simp: ConsumeFeesAndEmitEvent_def deductFees_def Coins_IsZero_def DeductTxCostsFromUserBalance_def split: option.splits)
  from DeductFees_Inr [OF pay] have "W_SendCoinsFromAccountToModule (mdVm md) from feeCollector [mk_coin (eciDenom (vkCoin (mdVm md))) v] ?e = Inr e1"
    using Get_address [OF acc] False assms(4) by simp
  from pay_fee [OF this] assms(3) c' show ?thesis by simp
qed

lemma spendable_covers:
  assumes "wfb (coinsOf c)" and "Vm_GetAccount (mdVm md) c x = Inr (Some a)" and "acBalance a = Some v"
  shows "v \<le> fst (evmL (mdVm md) c) x"
  using assms W_SpendableCoin_Inr(2) [OF assms(1)]
  by (auto simp: Vm_GetAccount_def Vm_SpendableCoin_def Uint256FromBigInt_def split: option.splits sum.splits if_splits)

lemma balance_nonneg: "wfb b \<Longrightarrow> 0 \<le> fst (evm_abs (vkBank (mdVm md)) b) x"
  using bal_nonneg by (simp add: evm_abs_def)

text \<open>Looking at the sender: its account is there afterwards with the sequence it had (zero when it is new), and
  its balance covers the cost.\<close>

lemma VerifyAccount_Inr:
  assumes "Vm_GetAccount (mdVm md) c x = Inr account" and "VerifyAccountBalance (mdVm md) account x t c = Inr c1" and "wfb (coinsOf c)"
  shows "coinsOf c1 = coinsOf c" and "store c1 = store c" and "Cost (vkGeth (mdVm md)) t \<le> fst (evmL (mdVm md) c) x"
    and "GetNonce (mdVm md) c1 x = GetNonce (mdVm md) c x"
    and "y \<noteq> x \<Longrightarrow> ak_GetAccount (vkAccounts (mdVm md)) (accounts c1) y = ak_GetAccount (vkAccounts (mdVm md)) (accounts c) y"
    and "events c1 = events c"
proof -
  have "coinsOf c1 = coinsOf c \<and> store c1 = store c \<and> Cost (vkGeth (mdVm md)) t \<le> fst (evmL (mdVm md) c) x \<and>
    GetNonce (mdVm md) c1 x = GetNonce (mdVm md) c x \<and> events c1 = events c \<and>
    (\<forall>y. y \<noteq> x \<longrightarrow> ak_GetAccount (vkAccounts (mdVm md)) (accounts c1) y = ak_GetAccount (vkAccounts (mdVm md)) (accounts c) y)"
  proof (cases account)
    case None
    then have none: "ak_GetAccount (vkAccounts (mdVm md)) (accounts c) x = None"
      using assms(1) by (auto simp: Vm_GetAccount_def split: option.splits)
    obtain acc m where new: "ak_NewAccountWithAddress (vkAccounts (mdVm md)) (accounts c) x = (acc, m)" by fastforce
    with None assms(2) have "c1 = setAccounts (ak_SetAccount (vkAccounts (mdVm md)) m acc) c" "Cost (vkGeth (mdVm md)) t \<le> 0"
      by (auto simp: VerifyAccountBalance_def Let_def NewEmptyAccount_def CheckSenderBalance_def split: if_splits)
    with New_account [OF new] none balance_nonneg [OF assms(3), of x] show ?thesis by (auto simp: GetNonce_def Get_Set)
  next
    case (Some a)
    with assms(2) obtain v where "acBalance a = Some v" "Cost (vkGeth (mdVm md)) t \<le> v" "c1 = c"
      by (auto simp: VerifyAccountBalance_def Let_def CheckSenderBalance_def split: if_splits)
    with spendable_covers [OF assms(3)] Some assms(1) show ?thesis by force
  qed
  then show "coinsOf c1 = coinsOf c" "store c1 = store c" "Cost (vkGeth (mdVm md)) t \<le> fst (evmL (mdVm md) c) x"
    "GetNonce (mdVm md) c1 x = GetNonce (mdVm md) c x" "events c1 = events c"
    "y \<noteq> x \<Longrightarrow> ak_GetAccount (vkAccounts (mdVm md)) (accounts c1) y = ak_GetAccount (vkAccounts (mdVm md)) (accounts c) y"
    by simp_all
qed

lemma SetSequence_nonce:
  assumes "ak_GetAccount (vkAccounts (mdVm md)) m x = Some acc" and "acc_SetSequence (vkAccounts (mdVm md)) acc n = Inr acc'"
  shows "ak_GetAccount (vkAccounts (mdVm md)) (ak_SetAccount (vkAccounts (mdVm md)) m acc') y =
    (if y = x then Some acc' else ak_GetAccount (vkAccounts (mdVm md)) m y)" and "acc_GetSequence (vkAccounts (mdVm md)) acc' = n"
  using SetSequence_Inr [OF assms(2)] Get_address [OF assms(1)] by (simp_all add: Get_Set)

text \<open>The decorator as a whole.\<close>

lemma checks_parts:
  assumes "MonoDecorator_checks md info c tx sim = Inr (c', settings)"
  obtains e t u c0 c1 txFeeInfo where "GetMsgs tx = [MsgEthereumTx e]" and "mdRaw md e = Some t"
    and "txFeeInfo = None \<longleftrightarrow> IsReCheckTx info" and "\<And>f. txFeeInfo = Some f \<Longrightarrow> ValidateTx md tx = Inr f"
    and "c0 = setVm (ResetTransientGasUsed (vmOf c)) c" and "NewMonoDecoratorUtils md info c0 = Inr u"
    and "mono_fees md info sim u e t = Inr ()" and "mono_charge md info u e t c0 = Inr c1"
    and "mono_finish md info txFeeInfo u e t tx c1 = Inr (c', settings)"
proof -
  from assms obtain txFeeInfo e t u c1 where r: "length (GetMsgs tx) = 1" "GetMsgs tx ! 0 = MsgEthereumTx e" "mdRaw md e = Some t"
    "(if IsReCheckTx info then Inr None else tryE (ValidateTx md tx) (\<lambda>f. Inr (Some f))) = Inr txFeeInfo"
    "NewMonoDecoratorUtils md info (setVm (ResetTransientGasUsed (vmOf c)) c) = Inr u" "mono_fees md info sim u e t = Inr ()"
    "mono_charge md info u e t (setVm (ResetTransientGasUsed (vmOf c)) c) = Inr c1" "mono_finish md info txFeeInfo u e t tx c1 = Inr (c', settings)"
    by (auto simp: MonoDecorator_checks_def SetupContextAndResetTransientGas_def UnpackEthMsg_def split: if_splits sdk_msg.splits)
  from r(1,2) have m: "GetMsgs tx = [MsgEthereumTx e]" by (cases "GetMsgs tx") auto
  from r(4) have i: "txFeeInfo = None \<longleftrightarrow> IsReCheckTx info" "\<And>f. txFeeInfo = Some f \<Longrightarrow> ValidateTx md tx = Inr f" by (auto split: if_splits)
  show thesis by (rule that [OF m r(3) i refl r(5-8)])
qed

lemma fees_parts:
  assumes "mono_fees md info sim u e t = Inr ()"
  shows "Protected t" and "ValidateTransaction (vkGeth (mdVm md)) info (duBaseFee u) t = Inr ()"
    and "recoverSender (mdEth md) info e = Inr (msgFrom (mdEth md) e)" and "ValidateMsg (evmParams md) (Some t) = Inr ()"
  using assms by (auto simp: mono_fees_def Let_def SignatureVerification_def VerifySender_def split: if_splits)

lemma utils_parts:
  assumes "NewMonoDecoratorUtils md info c0 = Inr u"
  shows "duRules u = chainRules (vkGeth (mdVm md)) info"
    and "Vm_GetBaseFee (vkSdk (mdVm md)) (vkCoin (mdVm md)) (mdIsLondon md) (BlockHeight info) (feemarketParams md) = Inr (duBaseFee u)"
    and "mdIsLondon md (BlockHeight info) \<Longrightarrow> duBaseFee u \<noteq> None" and "TxFee u = 0" and "TxGasLimit u = 0" and "GasWanted u = 0"
    and "GlobalMinGasPrice u = MinGasPrice (feemarketParams md)"
  using assms by (auto simp: NewMonoDecoratorUtils_def Let_def London split: if_splits)

lemma charge_parts:
  assumes "mono_charge md info u e t c = Inr c'" and "BytesToAddress (mdEth md) (msgFrom (mdEth md) e) = msgFrom (mdEth md) e"
    and "wfb (coinsOf c)" and "duBaseFee u = Some b"
  defines "x \<equiv> msgFrom (mdEth md) e"
  shows "b \<le> GasFeeCap t" and "Cost (vkGeth (mdVm md)) t \<le> fst (evmL (mdVm md) c) x" and "GetNonce (mdVm md) c' x = GetNonce (mdVm md) c x"
    and "y \<noteq> x \<Longrightarrow> ak_GetAccount (vkAccounts (mdVm md)) (accounts c') y = ak_GetAccount (vkAccounts (mdVm md)) (accounts c) y"
    and "store c' = store c" and "wfb (coinsOf c')" and "others_same (vkBank (mdVm md)) (coinsOf c) (coinsOf c')"
    and "evmL (mdVm md) c' = a_send x (moduleOf (mdVm md) feeCollector) (ceil_cm (uint (TxGas t) * effective_price t b)) (evmL (mdVm md) c)"
proof -
  from assms(1,2) obtain account c1 fees where r: "Vm_GetAccount (mdVm md) c x = Inr account" "VerifyAccountBalance (mdVm md) account x t c = Inr c1"
    "VerifyFee (vkGeth (mdVm md)) t (eciDenom (vkCoin (mdVm md))) (duBaseFee u) (IsHomestead (duRules u)) (IsIstanbul (duRules u))
       (IsShanghai (duRules u)) (IsCheckTx info) = Inr fees"
    "ConsumeFeesAndEmitEvent (mdEth md) (mdVm md) fees x c1 = Inr c'"
    by (auto simp: mono_charge_def Let_def x_def)
  note a = VerifyAccount_Inr [OF r(1,2) assms(3)]
  note f = VerifyFee_Inr [OF r(3) [unfolded assms(4)]]
  have w: "wfb (coinsOf c1)" using assms(3) a(1) by simp
  note p = Consume_Inr [OF r(4) assms(2) [folded x_def] w f(2)]
  show "b \<le> GasFeeCap t" by (rule f(1))
  show "Cost (vkGeth (mdVm md)) t \<le> fst (evmL (mdVm md) c) x" by (rule a(3))
  show "GetNonce (mdVm md) c' x = GetNonce (mdVm md) c x" using p a(4) by (simp add: GetNonce_def)
  show "y \<noteq> x \<Longrightarrow> ak_GetAccount (vkAccounts (mdVm md)) (accounts c') y = ak_GetAccount (vkAccounts (mdVm md)) (accounts c) y"
    using p a(5) by simp
  show "store c' = store c" "wfb (coinsOf c')" "others_same (vkBank (mdVm md)) (coinsOf c) (coinsOf c')"
    "evmL (mdVm md) c' = a_send x (moduleOf (mdVm md) feeCollector) (ceil_cm (uint (TxGas t) * effective_price t b)) (evmL (mdVm md) c)"
    using p a(1,2) by simp_all
qed

text \<open>The nonce and the accounts over an acceptance.\<close>

lemma accepted:
  assumes "wfb (coinsOf c)" and "mdIsLondon md (BlockHeight info)" and "MonoDecorator_checks md info c tx sim = Inr (c', settings)"
  obtains e t where "GetMsgs tx = [MsgEthereumTx e]" and "mdRaw md e = Some t" and "Protected t"
    and "recoverSender (mdEth md) info e = Inr (msgFrom (mdEth md) e)" and "ValidateMsg (evmParams md) (Some t) = Inr ()"
    and "GetNonce (mdVm md) c (msgFrom (mdEth md) e) = TxNonce t" and "uint (TxNonce t) < 2 ^ 64 - 1"
    and "uint (GetNonce (mdVm md) c' (msgFrom (mdEth md) e)) = uint (TxNonce t) + 1"
    and "GasMeterLimit settings \<le> BlockGasLimit (block_ctx.truncate info)"
    and "\<forall>y. y \<noteq> msgFrom (mdEth md) e \<longrightarrow> ak_GetAccount (vkAccounts (mdVm md)) (accounts c') y = ak_GetAccount (vkAccounts (mdVm md)) (accounts c) y"
    and "store c' = store c"
proof -
  obtain e t u c0 c1 f where r: "GetMsgs tx = [MsgEthereumTx e]" "mdRaw md e = Some t" "c0 = setVm (ResetTransientGasUsed (vmOf c)) c"
    "NewMonoDecoratorUtils md info c0 = Inr u" "mono_fees md info sim u e t = Inr ()" "mono_charge md info u e t c0 = Inr c1"
    "mono_finish md info f u e t tx c1 = Inr (c', settings)"
    using checks_parts [OF assms(3)] by metis
  note fp = fees_parts [OF r(5)]
  obtain b where b: "duBaseFee u = Some b" using utils_parts(3) [OF r(4) assms(2)] by auto
  have w: "wfb (coinsOf c0)" using assms(1) r(3) by simp
  note ch = charge_parts [OF r(6) Recovered [OF fp(3)] w b]
  obtain acc acc' where fin: "ak_GetAccount (vkAccounts (mdVm md)) (accounts c1) (msgFrom (mdEth md) e) = Some acc"
    "acc_GetSequence (vkAccounts (mdVm md)) acc = TxNonce t" "TxNonce t \<noteq> - 1"
    "acc_SetSequence (vkAccounts (mdVm md)) acc (TxNonce t + 1) = Inr acc'"
    "accounts c' = ak_SetAccount (vkAccounts (mdVm md)) (accounts c1) acc'" "store c' = store c1"
    "CheckBlockGasLimit info (UpdateCumulativeGasWanted info (TxGas t) (maxGasWanted md) (GasWanted u)) (Priority settings) = Inr settings"
    using mono_finish_Inr [OF r(7)] by metis
  note seq = SetSequence_nonce [OF fin(1,4)]
  have n: "GetNonce (mdVm md) c (msgFrom (mdEth md) e) = TxNonce t" using ch(3) fin(1,2) r(3) by (simp add: GetNonce_def)
  have "GetNonce (mdVm md) c' (msgFrom (mdEth md) e) = TxNonce t + 1" using seq by (simp add: GetNonce_def fin(5))
  then have n': "uint (GetNonce (mdVm md) c' (msgFrom (mdEth md) e)) = uint (TxNonce t) + 1" by (simp only: u64_succ [OF fin(3)])
  have lim: "GasMeterLimit settings \<le> BlockGasLimit (block_ctx.truncate info)"
    using fin(7) unfolding CheckBlockGasLimit_Inr by (metis tx_settings.select_convs(1))
  have others: "\<forall>y. y \<noteq> msgFrom (mdEth md) e \<longrightarrow>
      ak_GetAccount (vkAccounts (mdVm md)) (accounts c') y = ak_GetAccount (vkAccounts (mdVm md)) (accounts c) y"
    using seq(1) ch(4) r(3) by (simp add: fin(5))
  have "store c' = store c" using fin(6) ch(5) r(3) by simp
  from that [OF r(1,2) fp(1,3,4) n conjunct1 [OF u64_succ [OF fin(3)]] n' lim others this] show thesis .
qed

end

section \<open>Theorems\<close>

text \<open>C23.
  What the decorator lets through. An accepted transaction has one message, an Ethereum transaction that is
  bound to a chain and carries a signature of the account it names as sender; its nonce is the sequence of
  that account and not the largest 64-bit number, and the sequence is one higher afterwards. Its creation or
  call is not disabled, and its gas fits into the block. No other account and nothing in the store of the
  token module changes.\<close>

theorem mono_decorator_accepts:
  assumes "mono_env md wfb" and "wfb (coinsOf c)" and "mdIsLondon md (BlockHeight info)"
    and "MonoDecorator_checks md info c tx sim = Inr (c', settings)"
  shows "\<exists>e t x. GetMsgs tx = [MsgEthereumTx e] \<and> mdRaw md e = Some t \<and> x = msgFrom (mdEth md) e \<and>
    Protected t \<and> recoverSender (mdEth md) info e = Inr x \<and>
    GetNonce (mdVm md) c x = TxNonce t \<and> uint (TxNonce t) < 2 ^ 64 - 1 \<and> uint (GetNonce (mdVm md) c' x) = uint (TxNonce t) + 1 \<and>
    \<not> (accessCreate (evmParams md) = AccessTypeRestricted \<and> TxTo t = None) \<and>
    \<not> (accessCall (evmParams md) = AccessTypeRestricted \<and> TxTo t \<noteq> None) \<and>
    GasMeterLimit settings \<le> BlockGasLimit (block_ctx.truncate info) \<and>
    (\<forall>y. y \<noteq> x \<longrightarrow> ak_GetAccount (vkAccounts (mdVm md)) (accounts c') y = ak_GetAccount (vkAccounts (mdVm md)) (accounts c) y) \<and>
    store c' = store c"
proof -
  obtain e t where r: "GetMsgs tx = [MsgEthereumTx e]" "mdRaw md e = Some t" "Protected t"
    "recoverSender (mdEth md) info e = Inr (msgFrom (mdEth md) e)" "ValidateMsg (evmParams md) (Some t) = Inr ()"
    "GetNonce (mdVm md) c (msgFrom (mdEth md) e) = TxNonce t" "uint (TxNonce t) < 2 ^ 64 - 1"
    "uint (GetNonce (mdVm md) c' (msgFrom (mdEth md) e)) = uint (TxNonce t) + 1" "GasMeterLimit settings \<le> BlockGasLimit (block_ctx.truncate info)"
    "\<forall>y. y \<noteq> msgFrom (mdEth md) e \<longrightarrow> ak_GetAccount (vkAccounts (mdVm md)) (accounts c') y = ak_GetAccount (vkAccounts (mdVm md)) (accounts c) y"
    "store c' = store c"
    by (rule mono_env.accepted [OF assms])
  have "\<not> (accessCreate (evmParams md) = AccessTypeRestricted \<and> TxTo t = None)"
    "\<not> (accessCall (evmParams md) = AccessTypeRestricted \<and> TxTo t \<noteq> None)"
    using r(5) by (auto simp: ValidateMsg_def checkDisabledCreateCall_def Let_def split: if_splits)
  with r show ?thesis by (intro exI [of _ e] exI [of _ t] exI [of _ "msgFrom (mdEth md) e"] conjI refl) 
qed

text \<open>C11.
  What an accepted Ethereum transaction pays. Let the price be the base fee plus the tip, at most the fee cap.
  The price is not below the base fee and not above the cap. The sender held gas times cap plus the value of
  the transaction, and pays gas times price, rounded up to a whole Cosmos unit, to the fee collector; no
  other balance and no supply changes. What is left to it falls short of the value by less than one Cosmos
  unit.\<close>

theorem evm_fee_charged:
  assumes "mono_env md wfb" and "wfb (coinsOf c)" and "mdIsLondon md (BlockHeight info)"
    and "MonoDecorator_checks md info c tx sim = Inr (c', settings)"
  shows "\<exists>e t b x fee. GetMsgs tx = [MsgEthereumTx e] \<and> mdRaw md e = Some t \<and> x = msgFrom (mdEth md) e \<and>
    Vm_GetBaseFee (vkSdk (mdVm md)) (vkCoin (mdVm md)) (mdIsLondon md) (BlockHeight info) (feemarketParams md) = Inr (Some b) \<and>
    b \<le> effective_price t b \<and> effective_price t b \<le> GasFeeCap t \<and>
    uint (TxGas t) * GasFeeCap t + TxValue t \<le> fst (evmL (mdVm md) c) x \<and>
    uint (TxGas t) * effective_price t b \<le> fee \<and> fee < uint (TxGas t) * effective_price t b + CM \<and> CM dvd fee \<and>
    evmL (mdVm md) c' = a_send x (moduleOf (mdVm md) feeCollector) fee (evmL (mdVm md) c) \<and>
    others_same (vkBank (mdVm md)) (coinsOf c) (coinsOf c') \<and> TxValue t - CM < fst (evmL (mdVm md) c) x - fee"
proof -
  obtain e t u c0 c1 f where r: "GetMsgs tx = [MsgEthereumTx e]" "mdRaw md e = Some t" "c0 = setVm (ResetTransientGasUsed (vmOf c)) c"
    "NewMonoDecoratorUtils md info c0 = Inr u" "mono_fees md info sim u e t = Inr ()" "mono_charge md info u e t c0 = Inr c1"
    "mono_finish md info f u e t tx c1 = Inr (c', settings)"
    using mono_env.checks_parts [OF assms(1,4)] by metis
  have G: "geth_laws (vkGeth (mdVm md))" using assms(1) by (simp add: mono_env_def vm_env_def)
  note fp = mono_env.fees_parts [OF assms(1) r(5)]
  note v = geth_laws.ValidateTransaction_Inr [OF G fp(2)]
  obtain b where b: "duBaseFee u = Some b" using mono_env.utils_parts(3) [OF assms(1) r(4) assms(3)] by auto
  have w: "wfb (coinsOf c0)" using assms(2) r(3) by simp
  note ch = mono_env.charge_parts [OF assms(1) r(6) mono_env.Recovered [OF assms(1) fp(3)] w b]
  define price fee where "price = effective_price t b" and "fee = ceil_cm (uint (TxGas t) * price)"
  have p: "b \<le> price" "price \<le> GasFeeCap t" using v ch(1) by (auto simp: price_def effective_price_def)
  have fb: "uint (TxGas t) * price \<le> fee" "fee < uint (TxGas t) * price + CM" "CM dvd fee"
    using ceil_cm_bounds [of "uint (TxGas t) * price"] by (simp_all add: fee_def ceil_cm_def)
  have cost: "uint (TxGas t) * GasFeeCap t + TxValue t \<le> fst (evmL (mdVm md) c) (msgFrom (mdEth md) e)"
    using ch(2) geth_laws.Cost_eq [OF G, of t] v r(3) by (simp add: geth_laws.GasPrice_eq [OF G])
  have "uint (TxGas t) * price \<le> uint (TxGas t) * GasFeeCap t" using p(2) by (simp add: mult_left_mono)
  with cost fb(2) have left: "TxValue t - CM < fst (evmL (mdVm md) c) (msgFrom (mdEth md) e) - fee" by linarith
  have "coinsOf c' = coinsOf c1" using mono_finish_Inr [OF r(7)] by metis
  then show ?thesis
    using r(1-3) mono_env.utils_parts(2) [OF assms(1) r(4)] b p fb cost left ch(7,8)
    by (intro exI [of _ e] exI [of _ t] exI [of _ b] exI [of _ "msgFrom (mdEth md) e"] exI [of _ fee])
       (simp add: price_def [symmetric] fee_def [symmetric])
qed

text \<open>C15.
  No replay. Once the decorator has accepted a transaction, it refuses the same transaction in every later
  state, for any block, mode and simulation flag, as long as the sequence of the sender has not gone back
  below the value the acceptance left it with.\<close>

theorem evm_no_replay:
  assumes "mono_env md wfb" and "mono_env md2 wfb" and "mdVm md2 = mdVm md" and "mdEth md2 = mdEth md" and "mdRaw md2 = mdRaw md"
    and "wfb (coinsOf c)" and "wfb (coinsOf c2)" and "mdIsLondon md (BlockHeight info)" and "mdIsLondon md2 (BlockHeight info2)"
    and "MonoDecorator_checks md info c tx sim = Inr (c', settings)" and "GetMsgs tx = [MsgEthereumTx e]"
    and "GetNonce (mdVm md) c' (msgFrom (mdEth md) e) \<le> GetNonce (mdVm md) c2 (msgFrom (mdEth md) e)"
  shows "\<exists>err. MonoDecorator_checks md2 info2 c2 tx sim2 = Inl err"
proof (rule ccontr)
  assume "\<nexists>err. MonoDecorator_checks md2 info2 c2 tx sim2 = Inl err"
  then obtain c3 settings2 where run2: "MonoDecorator_checks md2 info2 c2 tx sim2 = Inr (c3, settings2)"
    by (cases "MonoDecorator_checks md2 info2 c2 tx sim2") auto
  obtain e1 t1 where 1: "GetMsgs tx = [MsgEthereumTx e1]" "mdRaw md e1 = Some t1"
    "uint (GetNonce (mdVm md) c' (msgFrom (mdEth md) e1)) = uint (TxNonce t1) + 1"
    by (rule mono_env.accepted [OF assms(1,6,8,10)]) (rule that)
  obtain e2 t2 where 2: "GetMsgs tx = [MsgEthereumTx e2]" "mdRaw md2 e2 = Some t2" "GetNonce (mdVm md2) c2 (msgFrom (mdEth md2) e2) = TxNonce t2"
    by (rule mono_env.accepted [OF assms(2,7,9) run2]) (rule that)
  from 1 2 assms(3-5,11,12) show False by (simp add: word_le_def)
qed

lemma permanent_suffix:
  assumes "p \<in> set permanentNonceErrSubstrings" and "sublist p q" and "sublist q r"
  shows "IsPermanentNonceErr r"
  using assms by (auto simp: IsPermanentNonceErr_def list_ex_iff Contains_def intro: sublist_order.order_trans)

lemma sublist_tail: "q = a @ p \<Longrightarrow> sublist p q"
  by simp

lemma nonce_texts:
  "IsPermanentNonceErr (a @ ErrNonceGap)" "IsPermanentNonceErr (a @ ErrNonceLow)" "IsPermanentNonceErr (a @ ErrInvalidSequence)"
proof -
  have s: "sublist q (a @ q)" for q by simp
  have g: "sublist ''nonce is higher than account nonce'' ErrNonceGap" by (rule sublist_tail [of _ "''tx ''"]) (simp add: ErrNonceGap_def)
  have l: "sublist ''nonce is lower than account nonce'' ErrNonceLow" by (rule sublist_tail [of _ "''tx ''"]) (simp add: ErrNonceLow_def)
  show "IsPermanentNonceErr (a @ ErrNonceGap)" by (rule permanent_suffix [OF _ g s]) (simp add: permanentNonceErrSubstrings_def)
  show "IsPermanentNonceErr (a @ ErrNonceLow)" by (rule permanent_suffix [OF _ l s]) (simp add: permanentNonceErrSubstrings_def)
  show "IsPermanentNonceErr (a @ ErrInvalidSequence)"
    by (rule permanent_suffix [OF _ _ s, of "''invalid sequence''"]) (simp_all add: permanentNonceErrSubstrings_def ErrInvalidSequence_def)
qed

text \<open>The nonce errors of the decorator are the ones the block builder acts on. For an account whose sequence can
  be set, raising the sequence fails exactly when the nonce of the transaction is not the sequence or the
  sequence is the largest number, and the text of the error is then a permanent nonce error of the proposal
  handler, which drops all waiting transactions of the sender.\<close>

theorem nonce_errors_permanent:
  assumes "\<exists>acc'. acc_SetSequence A acc (acc_GetSequence A acc + 1) = Inr acc'"
  shows "case IncrementNonce A acc n m of Inr _ \<Rightarrow> n = acc_GetSequence A acc \<and> n \<noteq> - 1
    | Inl err \<Rightarrow> (n \<noteq> acc_GetSequence A acc \<or> n = - 1) \<and> (\<exists>msg. err = Errorf msg \<and> IsPermanentNonceErr msg)"
proof -
  let ?s = "acc_GetSequence A acc"
  consider (gap) "?s < n" | (low) "n < ?s" | (max) "n = ?s" "?s = - 1" | (ok) "n = ?s" "?s \<noteq> - 1"
    by (metis linorder_neqE)
  then show ?thesis
  proof cases
    case gap
    let ?pre = "''tx nonce: '' @ FormatUint n @ '', account accountNonce: '' @ FormatUint ?s @ '': ''"
    from gap have "IncrementNonce A acc n m = Inl (Errorf (?pre @ ErrNonceGap))" by (simp add: IncrementNonce_def Let_def)
    then obtain pre where "IncrementNonce A acc n m = Inl (Errorf (pre @ ErrNonceGap))" by blast
    with gap nonce_texts(1) [of pre] show ?thesis by auto
  next
    case low
    let ?pre = "''invalid nonce; got '' @ FormatUint n @ '', expected '' @ FormatUint ?s @ '': ''"
    from low have "IncrementNonce A acc n m = Inl (Errorf (?pre @ ErrNonceLow))" by (auto simp: IncrementNonce_def Let_def)
    then obtain pre where "IncrementNonce A acc n m = Inl (Errorf (pre @ ErrNonceLow))" by blast
    with low nonce_texts(2) [of pre] show ?thesis by auto
  next
    case max
    then have "IncrementNonce A acc n m = Inl (Errorf (''nonce overflow: increment beyond 2^64-1 violates EIP-2681: '' @ ErrInvalidSequence))"
      by (simp add: IncrementNonce_def)
    then obtain pre where "IncrementNonce A acc n m = Inl (Errorf (pre @ ErrInvalidSequence))" by blast
    with max nonce_texts(3) [of pre] show ?thesis by auto
  next
    case ok
    then show ?thesis using assms by (auto simp: IncrementNonce_def)
  qed
qed

text \<open>The floor under the price of Ethereum transactions. Take any state of the fee market that governance and
  blocks can reach, with the base fee enabled, and a transaction whose fee cap is at least the base fee in 18
  decimals, as every accepted one has. The price it pays is at least the minimum gas price in 18 decimals,
  rounded down. And if the base fee is at least one unit there, the separate check against the minimum gas
  price, which compares the two in different scales, never refuses it: the base fee is the binding floor.\<close>

theorem evm_price_floor:
  assumes "mono_env md wfb" and "K = vkSdk (mdVm md)" and "FeeParams_Validate K (GetParams K s0) = Inr ()"
    and "(fm_step K gov (vkCoin (mdVm md)))\<^sup>*\<^sup>* s0 s" and "feemarketParams md = GetParams K s"
    and "ConversionFactor (eciDecimals (vkCoin (mdVm md))) = Some f"
    and "Vm_GetBaseFee K (vkCoin (mdVm md)) (mdIsLondon md) height (feemarketParams md) = Inr (Some b)"
    and "b \<le> GasFeeCap t" and "0 \<le> GasTipCap t"
  shows "\<exists>g. MinGasPrice (feemarketParams md) = Some g \<and> g * f div dec_one \<le> effective_price t b \<and>
    (1 \<le> b \<and> 1 < f \<longrightarrow>
      CheckGlobalFee K (Dec_FromInt K (GetEffectiveFee (vkGeth (mdVm md)) t b)) (Some g) (Dec_FromInt K (uint (TxGas t))) = Inr () \<and>
      CheckGlobalFee K (Dec_FromInt K (GetEthMsgFee (vkGeth (mdVm md)) t)) (Some g) (Dec_FromInt K (uint (TxGas t))) = Inr ())"
proof -
  have L: "fee_sdk_laws K" and G: "geth_laws (vkGeth (mdVm md))" using assms(1,2) by (simp_all add: mono_env_def vm_env_def)
  have leg: "legacy_dec K" using L by (simp add: fee_sdk_laws_def sdk_laws_def)
  have ok: "fm_ok K (GetParams K s)" by (rule fee_sdk_laws.fm_reach_ok [OF L assms(4,3)])
  obtain B where B: "BaseFee (feemarketParams md) = Some B" "\<not> NoBaseFee (feemarketParams md)" "b = Dec_TruncateInt K (B * f)" "B \<noteq> 0"
    using assms(6,7) by (auto simp: Vm_GetBaseFee_def ConvertAmountTo18DecimalsLegacy_def chkDec_def split: if_splits)
  obtain g where g: "MinGasPrice (feemarketParams md) = Some g" "0 \<le> g" "g \<le> B" "0 \<le> B" "g \<le> MaxFeemarketGasPrice K"
    using ok B(1,2) assms(5) by (auto simp: fm_ok_def)
  have f: "0 < f" using factor_div [OF assms(6)] by simp
  have b: "b = B * f div dec_one" using B(3) legacy_dec.Dec_TruncateInt_nonneg [OF leg, of "B * f"] g f by simp
  have price: "b \<le> effective_price t b" using assms(8,9) by (simp add: effective_price_def)
  have "g * f div dec_one \<le> b" unfolding b using g(3) f by (intro zdiv_mono1) simp_all
  moreover have "CheckGlobalFee K (Dec_FromInt K (uint (TxGas t) * p)) (Some g) (Dec_FromInt K (uint (TxGas t))) = Inr ()"
    if "1 \<le> b" "1 < f" "b \<le> p" for p
  proof -
    have "B * f < (b + 1) * dec_one" unfolding b using div_mult_mod_eq [of "B * f" dec_one] pos_mod_bound [of dec_one "B * f"] by (simp add: algebra_simps)
    moreover have "B * 2 \<le> B * f" "(b + 1) * dec_one \<le> b * 2 * dec_one" using that g by (simp_all add: mult_left_mono)
    ultimately have "g \<le> b * dec_one" using g(3) by linarith
    then have "g \<le> p * dec_one" using that(3) by simp
    then have "g * uint (TxGas t) \<le> p * dec_one * uint (TxGas t)" by (simp add: mult_right_mono)
    moreover have "g * uint (TxGas t) \<le> 10 ^ 36 * 2 ^ 64"
      using g(2,5) uint_bounded [of "TxGas t"] by (intro mult_mono) (simp_all add: MaxFeemarketGasPrice_def legacy_dec.Dec_FromInt_eq [OF leg])
    then have "chkDec K (g * uint (TxGas t)) = Inr (g * uint (TxGas t))"
      using g(2) by (intro fee_sdk_laws.chkDec_small [OF L]) (simp add: abs_of_nonneg)
    ultimately show ?thesis
      unfolding CheckGlobalFee_def legacy_dec.Dec_Mul_FromInt_right [OF leg] by (simp add: legacy_dec.Dec_FromInt_eq [OF leg] mult.commute mult.left_commute)
  qed
  moreover have "GetEffectiveFee (vkGeth (mdVm md)) t b = uint (TxGas t) * effective_price t b"
    using mono_env.effective [OF assms(1)] by (simp add: GetEffectiveFee_def)
  moreover have "GetEthMsgFee (vkGeth (mdVm md)) t = uint (TxGas t) * GasFeeCap t"
    by (simp add: GetEthMsgFee_def geth_laws.GasPrice_eq [OF G])
  ultimately show ?thesis using g(1) price assms(8) by auto
qed

lemma MaxPending_passes: "MaxPendingTxPerWalletDecorator E g mx info nxt c tx sim = Inr c' \<Longrightarrow> nxt c tx sim = Inr c'"
  by (auto simp: MaxPendingTxPerWalletDecorator_def Let_def split: if_splits sdk_msg.splits option.splits prod.splits)

text \<open>C8.
  There is one way in for Ethereum transactions. When the router of the application, with the mono decorator
  in its EVM chain, admits a transaction that has an Ethereum message among its messages, that is its only
  message, the transaction carries the Ethereum extension option and no other, and the checks of the mono
  decorator passed: the nonce was the sequence of the sender and has been used up.\<close>

theorem ethereum_only_through_mono:
  assumes "ante_env opt wfs" and "mono_env md wfb" and "wfb (coinsOf c)" and "mdIsLondon md (BlockHeight info)"
    and "EVMMonoDecorator opt c = MonoDecorator_AnteHandle md info"
    and "NewAnteHandler opt info c tx sim = Inr c'" and "MsgEthereumTx e \<in> set (GetMsgs tx)"
  shows "\<exists>x t c1 settings. GetExtensionOptions tx = Some [x] \<and> GetTypeUrl x = ''/cosmos.evm.vm.v1.ExtensionOptionsEthereumTx'' \<and>
    GetMsgs tx = [MsgEthereumTx e] \<and> mdRaw md e = Some t \<and> MonoDecorator_checks md info c tx sim = Inr (c1, settings) \<and>
    GetNonce (mdVm md) c (msgFrom (mdEth md) e) = TxNonce t \<and>
    uint (GetNonce (mdVm md) c1 (msgFrom (mdEth md) e)) = uint (TxNonce t) + 1"
proof -
  from assms(6) consider
      (evm) x where "GetExtensionOptions tx = Some [x]" "GetTypeUrl x = ''/cosmos.evm.vm.v1.ExtensionOptionsEthereumTx''"
        "newMonoEVMAnteHandler opt info c c tx sim = Inr c'"
    | (cosmos) "newCosmosAnteHandler opt info c c tx sim = Inr c'"
    by (auto simp: NewAnteHandler_def Let_def length_Suc_conv not_less le_Suc_eq split: option.splits if_splits)
  then show ?thesis
  proof cases
    case evm
    note h = evm(3) [unfolded newMonoEVMAnteHandler_def ante_env.chain [OF assms(1)]]
    obtain c1 settings where run: "MonoDecorator_checks md info c tx sim = Inr (c1, settings)"
      using MaxPending_passes h assms(5) by (fastforce simp: MonoDecorator_AnteHandle_def)
    obtain e1 t where r: "GetMsgs tx = [MsgEthereumTx e1]" "mdRaw md e1 = Some t" "GetNonce (mdVm md) c (msgFrom (mdEth md) e1) = TxNonce t"
      "uint (GetNonce (mdVm md) c1 (msgFrom (mdEth md) e1)) = uint (TxNonce t) + 1"
      by (rule mono_env.accepted [OF assms(2-4) run]) (rule that)
    with assms(7) have "e1 = e" by simp
    with r evm(1,2) run show ?thesis by blast
  next
    case cosmos
    from ante_env.cosmos_handler [OF assms(1) this] assms(7) show ?thesis by (auto simp: no_eth_def)
  qed
qed

section \<open>A concrete chain\<close>

text \<open>One signed transfer of one Cosmos unit with a cap of 2 gwei and 21000 gas, in its wrapping transaction.\<close>

definition eth_demo :: eth_tx where
  "eth_demo = \<lparr>Protected = True, TxType = 2, TxNonce = 7, TxGas = 21000, GasFeeCap = 2000000000, GasTipCap = 500000000,
     TxTo = Some ''bob'', TxValue = 1000000000000, TxData = [], AccessList = [], SetCodeAuthorizations = [], TxHash = ''0xab''\<rparr>"

definition eth_demo_tx :: "ref_any tx" where
  "eth_demo_tx = \<lparr>GetMsgs = [MsgEthereumTx RNil], GetFee = None, GetGas = 21000, IsFeeTx = True,
     GetExtensionOptions = Some [\<lparr>GetTypeUrl = ''/cosmos.evm.vm.v1.ExtensionOptionsEthereumTx'', dynamicFee = None\<rparr>]\<rparr>"

definition eth_state :: "((string \<times> string) list, ledger, addr \<Rightarrow> (u64 \<times> bool) option) vctx" where
  "eth_state = \<lparr>store = [], bank = (bank vm_demo)\<lparr>sdkBank := empty_ledger\<lparr>lgBal := (\<lambda>a d. if a = ''alice'' \<and> d = ''ustoc'' then 100 else 0)\<rparr>\<rparr>,
     events = []\<rparr>"

lemma eth_state_wf: "ledger_ok (coinsOf eth_state)"
  by (simp add: eth_state_def ledger_ok_def empty_ledger_def)

definition ref_md :: "(ledger, addr \<Rightarrow> (u64 \<times> bool) option, ref_acc, ref_any) MonoDecorator" where
  "ref_md = \<lparr>mdVm = ref_vm, mdEth = ref_eth, mdRaw = (\<lambda>_. Some eth_demo), txValidateBasic = (\<lambda>_. Some (Inl ErrNoSignatures)),
     txProto = (\<lambda>_. Some \<lparr>ptBody = Some \<lparr>bodyMemo = [], bodyTimeoutHeight = 0,
         bodyExtensionOptions = [\<lparr>GetTypeUrl = ''/cosmos.evm.vm.v1.ExtensionOptionsEthereumTx'', dynamicFee = None\<rparr>],
         bodyNonCriticalExtensionOptions = []\<rparr>,
       ptAuthInfo = Some \<lparr>aiSignerInfos = [], aiFee = Some \<lparr>feeAmount = [mk_coin ''astoc'' 42000000000000], feeGasLimit = 21000, feePayer = [], feeGranter = []\<rparr>\<rparr>,
       ptSignatures = []\<rparr>),
     txIsGasTx = (\<lambda>_. True), mdIsLondon = (\<lambda>_. True), DecCoins_AmountOf = (\<lambda>ps d. 0), maxGasWanted = 0,
     evmParams = \<lparr>accessCreate = AccessTypePermissionless, accessCall = AccessTypePermissionless\<rparr>, feemarketParams = v5_params\<rparr>"

interpretation refmono: mono_env ref_md ledger_ok
proof (intro mono_env.intro mono_env_axioms.intro)
  show "vm_env (mdVm ref_md) ledger_ok" by (simp add: ref_md_def refvm.vm_env_axioms)
qed (simp_all add: ref_md_def ref_vm_def ref_eth_def ref_geth_def)

lemma ref_md_sel [simp]: "mdVm ref_md = ref_vm" "mdEth ref_md = ref_eth" "mdRaw ref_md = (\<lambda>_. Some eth_demo)" "mdIsLondon ref_md = (\<lambda>_. True)"
  "feemarketParams ref_md = v5_params" "msgFrom ref_eth = (\<lambda>_. ''alice'')"
  by (simp_all add: ref_md_def ref_eth_def)

text \<open>The stages of the decorator on this transaction, one after the other.\<close>

lemma ref_vm_sel [simp]: "vkSdk ref_vm = ref_fee" "vkBank ref_vm = ref_eb" "vkAccounts ref_vm = ref_accounts" "vkCoin ref_vm = stoc_coin"
  "vkGeth ref_vm = ref_geth" "vkDeductFees ref_vm = (\<lambda>send x fees e. send x feeCollector fees e)" "vkCoinsSort ref_vm = (\<lambda>cs. cs)" "vkCoinsString ref_vm = (\<lambda>cs. [])"
  by (simp_all add: ref_vm_def)

lemma ref_geth_sel [simp]: "GasPrice ref_geth = GasFeeCap" "Cost ref_geth = (\<lambda>t. uint (TxGas t) * GasFeeCap t + TxValue t)"
   "EffectiveGasTip ref_geth t (Some b) = min (GasTipCap t) (GasFeeCap t - b)" "IntrinsicGas ref_geth = (\<lambda>_ _ _ _ _ _ _. Inr 21000)"
   "chainRules ref_geth = (\<lambda>_. \<lparr>IsHomestead = True, IsIstanbul = True, IsLondon = True, IsShanghai = True\<rparr>)" "BytesToHash ref_geth = (\<lambda>b. if b = [] then ''0'' else b)" "EmptyCodeHash ref_geth = ''empty''"
   "ParseDelegation ref_geth = (\<lambda>_. False)"
  by (simp_all add: ref_geth_def)

definition demo_utils :: DecoratorUtils where "demo_utils = \<lparr>duRules = \<lparr>IsHomestead = True, IsIstanbul = True, IsLondon = True, IsShanghai = True\<rparr>, duBaseFee = Some 1000000000,
   MempoolMinGasPrice = 0, GlobalMinGasPrice = Some (10 ^ 15), BlockTxIndex = 3, TxGasLimit = 0, GasWanted = 0, MinPriority = MaxInt64, TxFee = 0\<rparr>"

lemma demo_ValidateTx: "ValidateTx ref_md eth_demo_tx = Inr \<lparr>feeAmount = [mk_coin ''astoc'' 42000000000000], feeGasLimit = 21000, feePayer = [], feeGranter = []\<rparr>"
  by (simp add: ValidateTx_def ref_md_def ErrNoSignatures_def)

lemma demo_utils_ok: "vmTxIndex (vmOf c) = 3 \<Longrightarrow> NewMonoDecoratorUtils ref_md plain_ctx c = Inr demo_utils"
  using stoc_factor by (simp add: NewMonoDecoratorUtils_def demo_utils_def ref_md_def Vm_GetBaseFee_def v5_params_def DefaultParams_def ConvertAmountTo18DecimalsLegacy_def chkDec_def
    GetTxIndexTransient_def Let_def)

lemma demo_mono_fees: "mono_fees ref_md plain_ctx False demo_utils RNil eth_demo = Inr ()"
proof -
  have g: "CheckGlobalFee ref_fee (Dec_FromInt ref_fee 31500000000000) (Some (10 ^ 15)) (Dec_FromInt ref_fee 21000) = Inr ()"
    unfolding CheckGlobalFee_def reffee.Dec_Mul_FromInt_right by (simp add: chkDec_def reffee.Dec_FromInt_eq)
  have e: "GetEffectiveFee ref_geth eth_demo 1000000000 = 31500000000000" by (simp add: GetEffectiveFee_def eth_demo_def)
  have v: "ValidateTransaction ref_geth plain_ctx b eth_demo = Inr ()" for b by (simp add: ref_geth_def eth_demo_def BlobTxType_def)
  have t: "Protected eth_demo" "TxType eth_demo = 2" "TxGas eth_demo = 21000" "TxTo eth_demo = Some ''bob''" by (simp_all add: eth_demo_def)
  show ?thesis using g by (simp add: mono_fees_def Let_def t v e demo_utils_def CheckMempoolFee_def DynamicFeeTxType_def ValidateMsg_def checkDisabledCreateCall_def
      SignatureVerification_def VerifySender_def asErr_def ref_eth_def ref_md_def del: ref_md_sel)
qed

lemma demo_reset: "setVm (ResetTransientGasUsed (vmOf eth_state)) eth_state = eth_state"
  by (simp add: setVm_def eth_state_def vm_demo_def ResetTransientGasUsed_def)

lemma demo_spendable: "W_SpendableCoin ref_vm (coinsOf eth_state) ''alice'' ''ustoc'' = Inr (mk_coin ''astoc'' 100000000000000)"
proof -
  have "SpendableCoin ref_full (coinsOf eth_state) ''alice'' ''ustoc'' = mk_coin ''ustoc'' 100"
    by (simp add: ref_full_def BankKeeper.defs FullBankKeeper.defs ref_bank_def eth_state_def)
  then show ?thesis using refvm.view_coin [of "mk_coin ''ustoc'' 100"]
   by (simp add: W_SpendableCoin_def stoc_coin_def Evm_SpendableCoin_def ref_eb_def orZero_def)
qed

lemma demo_locked: "lockedCoin ref_vm (coinsOf eth_state) ''alice'' = Inr 0"
proof -
  have "LockedCoins ref_full (coinsOf eth_state) ''alice'' = []"
    by (simp add: ref_full_def BankKeeper.defs FullBankKeeper.defs ref_bank_def eth_state_def)
  moreover have "NewCoins ref_fee [] = Inr []" by (simp add: ref_fee_def ref_sdk_def sdk.defs ref_NewCoins_def)
  moreover have "ValidateDenom ref_fee ''ustoc'' = Inr ()" using refvm.valid_cosmos by (simp add: ref_eb_def)
  ultimately show ?thesis by (simp add: lockedCoin_def Evm_LockedCoins_def evm_coins_def ref_eb_def Coins_AmountOf_def asErr_def stoc_coin_def)
qed

lemma demo_account: "Vm_GetAccount ref_vm eth_state ''alice'' = Inr (Some \<lparr>acNonce = 7, acBalance = Some 100000000000000, acCodeHash = ''empty'', lockedBalance = Some 0\<rparr>)"
proof -
  have "ak_GetAccount ref_accounts (accounts eth_state) ''alice'' = Some (''alice'', 7, False)" by (simp add: ref_accounts_def eth_state_def vm_demo_def)
  moreover have "GetCodeHash ref_vm (vmOf eth_state) ''alice'' = ''empty''" by (simp add: GetCodeHash_def eth_state_def vm_demo_def)
  moreover have "acc_GetSequence ref_accounts (''alice'', 7, False) = 7" by (simp add: ref_accounts_def)
  moreover have "eciDenom stoc_coin = ''ustoc''" by (simp add: stoc_coin_def)
  ultimately show ?thesis using demo_spendable demo_locked by (simp add: Vm_GetAccount_def Vm_SpendableCoin_def Uint256FromBigInt_def)
qed

lemma demo_pay: "\<not> isl (ConsumeFeesAndEmitEvent ref_eth ref_vm [mk_coin ''ustoc'' 31500000000000] ''alice'' eth_state)"
  by code_simp

lemma demo_mono_charge: "\<exists>c1. mono_charge ref_md plain_ctx demo_utils RNil eth_demo eth_state = Inr c1 \<and> accounts c1 = accounts eth_state"
proof -
  obtain c1 where c1: "ConsumeFeesAndEmitEvent ref_eth ref_vm [mk_coin ''ustoc'' 31500000000000] ''alice'' eth_state = Inr c1" using demo_pay Inr_of by blast
  have r: "ConsumeFeesAndEmitEvent (mdEth ref_md) (mdVm ref_md) [mk_coin ''ustoc'' 31500000000000] ''alice'' eth_state = Inr c1"
    "BytesToAddress (mdEth ref_md) ''alice'' = ''alice''" using c1 by (simp_all only: ref_md_sel) (simp add: ref_eth_def)
  have fees: "[mk_coin ''ustoc'' 31500000000000] = (if (31500000000000::int) = 0 then [] else [mk_coin (eciDenom (vkCoin (mdVm ref_md))) 31500000000000])"
    by (simp add: stoc_coin_def)
  have acc: "accounts c1 = accounts eth_state" using refmono.Consume_Inr [OF r eth_state_wf fees] by blast
  have f: "VerifyFee ref_geth eth_demo ''ustoc'' (Some 1000000000) True True True True = Inr [mk_coin ''ustoc'' 31500000000000]"
    by (simp add: VerifyFee_def eth_demo_def Let_def)
  have b: "VerifyAccountBalance ref_vm (Some \<lparr>acNonce = 7, acBalance = Some 100000000000000, acCodeHash = ''empty'', lockedBalance = Some 0\<rparr>) ''alice'' eth_demo eth_state = Inr eth_state"
    by (simp add: VerifyAccountBalance_def HasCodeHash_def IsEmptyCodeHash_def CheckSenderBalance_def eth_demo_def Let_def)
  have t: "CanTransfer ref_vm (AsMessage ref_geth ''alice'' eth_demo (Some 1000000000)) (Some 1000000000) True eth_state = Inr ()"
    using demo_account by (simp add: CanTransfer_def AsMessage_def eth_demo_def Uint256FromBigInt_def)
  have "BytesToAddress ref_eth ''alice'' = ''alice''" "GetSender ref_eth RNil = ''alice''" "IsCheckTx plain_ctx" "eciDenom stoc_coin = ''ustoc''"
    by (simp_all add: ref_eth_def GetSender_def plain_ctx_def stoc_coin_def)
  then show ?thesis using acc c1 demo_account f b t by (simp add: mono_charge_def demo_utils_def Let_def)
qed

lemma demo_no_cap: "maxGasWanted ref_md = 0" by (simp add: ref_md_def)

lemma demo_mono_finish: "accounts c1 = accounts eth_state \<Longrightarrow> \<exists>c' settings. mono_finish ref_md plain_ctx
    (Some \<lparr>feeAmount = [mk_coin ''astoc'' 42000000000000], feeGasLimit = 21000, feePayer = [], feeGranter = []\<rparr>) demo_utils RNil eth_demo eth_demo_tx c1 = Inr (c', settings)
   \<and> GetNonce ref_vm c' ''alice'' = 8"
proof -
  assume acc: "accounts c1 = accounts eth_state"
  have "ak_GetAccount ref_accounts (accounts eth_state) ''alice'' = Some (''alice'', 7, False)" by (simp add: ref_accounts_def eth_state_def vm_demo_def)
  moreover have "IncrementNonce ref_accounts (''alice'', 7, False) (TxNonce eth_demo) (accounts eth_state) = Inr ((accounts eth_state)(''alice'' \<mapsto> (8, False)))"
    by (simp add: IncrementNonce_def ref_accounts_def eth_demo_def)
  moreover have "GetMsgPriority ref_fee ref_geth eth_demo (MinPriority demo_utils) (duBaseFee demo_utils) = Inr 500"
    by (simp add: GetMsgPriority_def GetTxPriority_def eth_demo_def demo_utils_def QuoRaw_def IntQuo_def clampInt64_def MaxInt64_def)
  moreover have gw: "\<exists>c2. CheckGasWanted fmAdd (block_ctx.truncate plain_ctx) eth_demo_tx True v5_params c = Inr c2" for c :: "('u, ledger, addr \<Rightarrow> (u64 \<times> bool) option) vctx"
    by (simp add: CheckGasWanted_def eth_demo_tx_def plain_ctx_def block_ctx.defs BlockGasLimit_def IsBaseFeeEnabled_def v5_params_def DefaultParams_def fmAdd_def Let_def split: prod.splits)
  moreover obtain c2 where c2: "CheckGasWanted fmAdd (block_ctx.truncate plain_ctx) eth_demo_tx True v5_params (setAccounts ((accounts eth_state)(''alice'' \<mapsto> (8, False))) c1) = Inr c2"
    using gw by blast
  moreover have "accounts c2 = (accounts eth_state)(''alice'' \<mapsto> (8, False))" using GasWanted_step [OF c2] by simp
  moreover have "CheckTxFee ref_fee stoc_coin (Some \<lparr>feeAmount = [mk_coin ''astoc'' 42000000000000], feeGasLimit = 21000, feePayer = [], feeGranter = []\<rparr>) 42000000000000 21000 = Inr ()"
    using refvm.valid_evm by (simp add: CheckTxFee_def Coins_AmountOf_def asErr_def stoc_coin_def ref_eb_def)
  moreover have "CheckBlockGasLimit plain_ctx 21000 500 = Inr \<lparr>GasMeterLimit = 21000, Priority = 500\<rparr>"
    by (simp add: CheckBlockGasLimit_def plain_ctx_def block_ctx.defs BlockGasLimit_def)
  moreover have "ak_GetAccount ref_accounts ((accounts eth_state)(''alice'' \<mapsto> (8, False))) ''alice'' = Some (''alice'', 8, False)"
    "acc_GetSequence ref_accounts (''alice'', 8, False) = 8" by (simp_all add: ref_accounts_def)
  moreover have "UpdateCumulativeGasWanted plain_ctx 21000 0 0 = 21000" "GetEthMsgFee ref_geth eth_demo = 42000000000000" "TxGas eth_demo = 21000"
     by (simp_all add: UpdateCumulativeGasWanted_def GetEthMsgFee_def eth_demo_def)
  ultimately show ?thesis using acc
    by (simp add: mono_finish_def Let_def demo_utils_def GetNonce_def EmitTxHashEvent_def demo_no_cap)
qed

lemma demo_accepted:
  obtains c' settings where "MonoDecorator_checks ref_md plain_ctx eth_state eth_demo_tx False = Inr (c', settings)"
    and "GetNonce ref_vm c' ''alice'' = 8"
proof -
  obtain c1 where c1: "mono_charge ref_md plain_ctx demo_utils RNil eth_demo eth_state = Inr c1" "accounts c1 = accounts eth_state"
    using demo_mono_charge by blast
  obtain c' settings where f: "mono_finish ref_md plain_ctx
    (Some \<lparr>feeAmount = [mk_coin ''astoc'' 42000000000000], feeGasLimit = 21000, feePayer = [], feeGranter = []\<rparr>) demo_utils RNil eth_demo eth_demo_tx c1 = Inr (c', settings)"
    "GetNonce ref_vm c' ''alice'' = 8" using demo_mono_finish [OF c1(2)] by blast
  have u: "NewMonoDecoratorUtils ref_md plain_ctx eth_state = Inr demo_utils" by (rule demo_utils_ok) (simp add: eth_state_def vm_demo_def)
  have s: "SetupContextAndResetTransientGas ref_md eth_demo_tx eth_state = Inr eth_state"
    using demo_reset by (simp add: SetupContextAndResetTransientGas_def ref_md_def)
  have m: "GetMsgs eth_demo_tx = [MsgEthereumTx RNil]" "UnpackEthMsg ref_md (MsgEthereumTx RNil) = Inr (RNil, Some eth_demo)" "\<not> IsReCheckTx plain_ctx"
    by (simp_all add: eth_demo_tx_def UnpackEthMsg_def plain_ctx_def)
  have "MonoDecorator_checks ref_md plain_ctx eth_state eth_demo_tx False = Inr (c', settings)"
    by (simp add: MonoDecorator_checks_def demo_ValidateTx s u m demo_mono_fees c1(1) f(1))
  then show thesis using f(2) by (rule that)
qed

theorem mono_decorator_accepts_witness:
  "\<exists>c' settings. MonoDecorator_checks ref_md plain_ctx eth_state eth_demo_tx False = Inr (c', settings) \<and>
     GetNonce ref_vm eth_state ''alice'' = 7 \<and> uint (GetNonce ref_vm c' ''alice'') = 8"
proof -
  obtain c' settings where run: "MonoDecorator_checks ref_md plain_ctx eth_state eth_demo_tx False = Inr (c', settings)" by (rule demo_accepted)
  have l: "mdIsLondon ref_md (BlockHeight plain_ctx)" by simp
  from mono_decorator_accepts [OF refmono.mono_env_axioms eth_state_wf l run] run show ?thesis by (auto simp: eth_demo_def)
qed

theorem evm_fee_charged_witness:
  "\<exists>c' settings fee. MonoDecorator_checks ref_md plain_ctx eth_state eth_demo_tx False = Inr (c', settings) \<and>
     evmL ref_vm c' = a_send ''alice'' (moduleOf ref_vm feeCollector) fee (evmL ref_vm eth_state) \<and> 31500000000000 \<le> fee \<and> fee < 32500000000000"
proof -
  obtain c' settings where run: "MonoDecorator_checks ref_md plain_ctx eth_state eth_demo_tx False = Inr (c', settings)" by (rule demo_accepted)
  have l: "mdIsLondon ref_md (BlockHeight plain_ctx)" by simp
  have b: "Vm_GetBaseFee (vkSdk ref_vm) (vkCoin ref_vm) (\<lambda>_. True) (BlockHeight plain_ctx) v5_params = Inr (Some 1000000000)" by code_simp
  have p: "uint (TxGas eth_demo) * effective_price eth_demo 1000000000 = 31500000000000" by code_simp
  from evm_fee_charged [OF refmono.mono_env_axioms eth_state_wf l run] run b p show ?thesis by (auto simp: Let_def)
qed

theorem evm_no_replay_witness:
  "\<exists>err. MonoDecorator_checks ref_md plain_ctx (setAccounts (\<lambda>x. Some (9, False)) eth_state) eth_demo_tx False = Inl err"
proof -
  obtain c' settings where run: "MonoDecorator_checks ref_md plain_ctx eth_state eth_demo_tx False = Inr (c', settings)"
    and n: "GetNonce ref_vm c' ''alice'' = 8" by (rule demo_accepted)
  let ?c = "setAccounts (\<lambda>x. Some (9, False)) eth_state"
  have l: "mdIsLondon ref_md (BlockHeight plain_ctx)" "ledger_ok (coinsOf ?c)" "GetMsgs eth_demo_tx = [MsgEthereumTx RNil]"
    by (simp_all add: eth_state_wf eth_demo_tx_def)
  have "GetNonce ref_vm ?c ''alice'' = 9" by code_simp
  then have "GetNonce (mdVm ref_md) c' (msgFrom (mdEth ref_md) RNil) \<le> GetNonce (mdVm ref_md) ?c (msgFrom (mdEth ref_md) RNil)" using n by simp
  from evm_no_replay [OF refmono.mono_env_axioms refmono.mono_env_axioms refl refl refl eth_state_wf l(2) l(1) l(1) run l(3) this] show ?thesis .
qed

theorem nonce_errors_permanent_witness:
  "case IncrementNonce ref_accounts (''alice'', 7, False) 9 Map.empty of Inr _ \<Rightarrow> False | Inl err \<Rightarrow> (\<exists>msg. err = Errorf msg \<and> IsPermanentNonceErr msg)"
proof -
  have "acc_SetSequence ref_accounts (''alice'', 7, False) (acc_GetSequence ref_accounts (''alice'', 7, False) + 1) = Inr (''alice'', 8, False)"
    and s: "acc_GetSequence ref_accounts (''alice'', 7, False) = 7"
    by (simp_all add: ref_accounts_def)
  then have "\<exists>acc'. acc_SetSequence ref_accounts (''alice'', 7, False) (acc_GetSequence ref_accounts (''alice'', 7, False) + 1) = Inr acc'" by blast
  with s nonce_errors_permanent [of ref_accounts "(''alice'', 7, False)" 9 Map.empty] show ?thesis by (auto split: sum.splits)
qed

theorem evm_price_floor_witness:
  "\<exists>g. MinGasPrice v5_params = Some g \<and> g * 10 ^ 12 div dec_one \<le> effective_price eth_demo 1000000000"
proof -
  have k: "vkSdk (mdVm ref_md) = ref_fee" "vkCoin (mdVm ref_md) = stoc_coin" by (simp_all add: ref_vm_def)
  have p: "feemarketParams ref_md = GetParams ref_fee fm_start" by (simp add: GetParams_def fm_start_def)
  have b: "Vm_GetBaseFee ref_fee (vkCoin (mdVm ref_md)) (mdIsLondon ref_md) 100 (feemarketParams ref_md) = Inr (Some 1000000000)"
    unfolding k ref_md_sel by code_simp
  have c: "1000000000 \<le> GasFeeCap eth_demo" "0 \<le> GasTipCap eth_demo" by (simp_all add: eth_demo_def)
  from evm_price_floor [OF refmono.mono_env_axioms k(1) [symmetric] v5_valid rtranclp.rtrancl_refl p _ b c, of "10 ^ 12"] show ?thesis
    unfolding k using stoc_factor by auto
qed

text \<open>A token keeper whose bank is a part of the larger state.\<close>

definition lift_bank :: "'k BankKeeper \<Rightarrow> ('k, 'm) sdk_state BankKeeper" where
  "lift_bank B = (let up = (\<lambda>s r. tryE r (\<lambda>b. Inr (s\<lparr>sdkBank := b\<rparr>))) in
     \<lparr>SpendableCoins = (\<lambda>s. SpendableCoins B (sdkBank s)), SendCoins = (\<lambda>s f t cs. up s (SendCoins B (sdkBank s) f t cs)),
      SendCoinsFromModuleToAccount = (\<lambda>s m t cs. up s (SendCoinsFromModuleToAccount B (sdkBank s) m t cs)),
      SendCoinsFromAccountToModule = (\<lambda>s f m cs. up s (SendCoinsFromAccountToModule B (sdkBank s) f m cs)),
      MintCoins = (\<lambda>s m cs. up s (MintCoins B (sdkBank s) m cs)), BurnCoins = (\<lambda>s m cs. up s (BurnCoins B (sdkBank s) m cs)),
      GetAllBalances = (\<lambda>s. GetAllBalances B (sdkBank s)), GetBalance = (\<lambda>s. GetBalance B (sdkBank s)),
      GetSupply = (\<lambda>s. GetSupply B (sdkBank s)), SetDenomMetaData = (\<lambda>s md. s\<lparr>sdkBank := SetDenomMetaData B (sdkBank s) md\<rparr>),
      IterateAccountBalances = (\<lambda>s. IterateAccountBalances B (sdkBank s)), BlockedAddr = BlockedAddr B\<rparr>)"

lemma lift_bank_laws:
  assumes "bank_laws K B wfb"
  shows "bank_laws K (lift_bank B) (\<lambda>s. wfb (sdkBank s))"
  by (rule bank_laws.intro; clarsimp simp: lift_bank_def Let_def split del: if_split;
      (rule bank_laws.supply_nonneg [OF assms] bank_laws.bal_nonneg [OF assms] bank_laws.Mint_wf [OF assms] bank_laws.Mint_supply [OF assms]
        bank_laws.Mint_bal [OF assms] bank_laws.Burn_wf [OF assms] bank_laws.Burn_supply [OF assms] bank_laws.Burn_bal [OF assms]
        bank_laws.Send_wf [OF assms] bank_laws.Send_supply [OF assms] bank_laws.Send_bal [OF assms] bank_laws.Meta_wf [OF assms] bank_laws.Meta_supply [OF assms] bank_laws.Meta_bal [OF assms];
       assumption)?)
     (auto dest: bank_laws.ModuleToAccount [OF assms] bank_laws.AccountToModule [OF assms])

definition eth_k :: "((string \<times> string) list, (ledger, addr \<Rightarrow> (u64 \<times> bool) option) sdk_state) Keeper" where
  "eth_k = sdk.extend ref_sdk (Keeper.fields ref_kv ref_Marshal ref_Unmarshal [] ''gov'' (lift_bank (ref_bank ref_sdk [''modulestoc''])))"

definition eth_opts :: "((string \<times> string) list, (ledger, addr \<Rightarrow> (u64 \<times> bool) option) sdk_state, ref_any) StocAnteOptions" where
  "eth_opts = \<lparr>StocKeeper = eth_k, msgApi = ref_api, ethApi = ref_eth, feeSdk = ref_fee, evmCoinInfo = stoc_coin,
     ethIsLondon = (\<lambda>_. True), fmGetParams = (\<lambda>_. v5_params), fmAddTransientGasWanted = fmAdd,
     DynamicFeeChecker = True, sdkDecorators = ref_decorators, EVMMonoDecorator = (\<lambda>_. MonoDecorator_AnteHandle ref_md plain_ctx),
     PendingTxListener = None, GetEVMMempool = None, MaxPendingTxPerWallet = 0\<rparr>"

lemma eth_k_sel [simp]:
  "storeService eth_k = ref_kv" "cdc_MarshalToken eth_k = ref_Marshal" "cdc_UnmarshalToken eth_k = ref_Unmarshal"
  "bankKeeper eth_k = lift_bank (ref_bank ref_sdk [''modulestoc''])" "DefaultBondDenom eth_k = ''ustoc''"
  "NewModuleAddress eth_k = NewModuleAddress ref_sdk"
  by (simp_all add: eth_k_def ref_sdk_def sdk.defs Keeper.defs)

lemma eth_k_env: "stoc_env eth_k (\<lambda>s. ledger_ok (sdkBank s))"
proof (intro stoc_env.intro)
  show "sdk_laws eth_k" unfolding eth_k_def by (rule sdk_laws_extend) (rule ref.sdk_laws_axioms)
  have "bank_laws ref_sdk (lift_bank (ref_bank ref_sdk [''modulestoc''])) (\<lambda>s. ledger_ok (sdkBank s))"
    by (rule lift_bank_laws) (rule refbank.bank_laws_axioms)
  then show "bank_laws eth_k (bankKeeper eth_k) (\<lambda>s. ledger_ok (sdkBank s))" unfolding bank_laws_def eth_k_sel .
  show "kv_laws (storeService eth_k)" by (simp add: refkv.kv_laws_axioms)
  show "token_codec eth_k" by unfold_locales (simp_all add: ref_codec, simp add: ref_Marshal_def)
  show "stoc_env_axioms eth_k" by unfold_locales (simp add: lift_bank_def ref_bank_def ref_sdk_def)
qed

interpretation ethante: ante_env eth_opts "\<lambda>s. ledger_ok (sdkBank s)"
proof (intro ante_env.intro ante_env_axioms.intro)
  show "stoc_env (StocKeeper eth_opts) (\<lambda>s. ledger_ok (sdkBank s))" by (simp add: eth_opts_def eth_k_env)
  show "bond_ok (StocKeeper eth_opts)" by (simp add: eth_opts_def bond_ok_def)
qed (auto simp: eth_opts_def ref_decorators_def transparent_id fmAdd_def split: prod.splits)

theorem ethereum_only_through_mono_witness:
  "\<exists>c'. NewAnteHandler eth_opts plain_ctx eth_state eth_demo_tx False = Inr c' \<and> GetNonce ref_vm eth_state ''alice'' = 7"
proof -
  obtain c1 settings where run: "MonoDecorator_checks ref_md plain_ctx eth_state eth_demo_tx False = Inr (c1, settings)" by (rule demo_accepted)
  then have adm: "NewAnteHandler eth_opts plain_ctx eth_state eth_demo_tx False = Inr c1"
    by (simp add: NewAnteHandler_def eth_demo_tx_def newMonoEVMAnteHandler_def eth_opts_def ref_decorators_def
        MonoDecorator_AnteHandle_def TxListenerDecorator_def MaxPendingTxPerWalletDecorator_def VerifySender_def ref_eth_def plain_ctx_def)
  have l: "mdIsLondon ref_md (BlockHeight plain_ctx)" "EVMMonoDecorator eth_opts eth_state = MonoDecorator_AnteHandle ref_md plain_ctx"
    "MsgEthereumTx RNil \<in> set (GetMsgs eth_demo_tx)" by (simp_all add: eth_opts_def eth_demo_tx_def)
  from ethereum_only_through_mono [OF ethante.ante_env_axioms refmono.mono_env_axioms eth_state_wf l(1,2) adm l(3)] adm
  show ?thesis by (auto simp: eth_demo_def)
qed

end
