(* ===== verification/State_Transition.thy ===== *)
theory State_Transition
  imports State_Dirty Evm_Ante
begin

text \<open>
  The execution of an Ethereum message (the fork's \<^verbatim>\<open>x/vm/keeper/state_transition.go\<close>, \<^verbatim>\<open>config.go\<close>, \<^verbatim>\<open>gas.go\<close> and
  \<^verbatim>\<open>x/vm/types/gasmeter.go\<close>): \<open>ApplyMessageWithConfig\<close> runs the virtual machine on the state database and
  commits it, \<open>ApplyTransaction\<close> runs a transaction in a branch of the context, keeps or drops the branch, calls
  the hooks and gives the gas that was not used back.

  The virtual machine of go-ethereum is a parameter: \<open>evCall\<close> and \<open>evCreate\<close> give the result of the interpreter
  and the database it leaves. The theorems assume of it, in the locale \<open>evm_laws\<close>, that it changes the database
  only through its methods. An error of a call that returns one next to a changed database drops the database
  with it, as \<open>ApplyTransaction\<close> does. The bloom filter of the block, the tracer and the logger are left out.
\<close>

section \<open>What go-ethereum provides\<close>

record SetCodeAuthorization =
  auChainID :: int
  auAddress :: addr
  auNonce :: u64
  auSignature :: string

record vm_result =
  evRet :: string
  evLeftoverGas :: u64
  evErr :: "string option"
  evReturnData :: string

record EVMConfig =
  ecFeeMarketParams :: fm_params
  ecCoinBase :: addr
  ecBaseFee :: "int option"

text \<open>The rules of a block, the constants of the gas schedule, the access tuples and authorizations of a message
  as the fields of a transaction carry them, the recovery of a signer, and the two entries of the interpreter.
  \<open>evValidator\<close> is the staking keeper: the operator address of the proposer.\<close>

record ('s, 'b) evm_api =
  evRules :: "check_ctx \<Rightarrow> prepare_rules"
  evIsPrague :: "check_ctx \<Rightarrow> bool"
  evChainID :: int
  CallNewAccountGas :: u64
  TxAuthTupleGas :: u64
  RefundQuotient :: u64
  RefundQuotientEIP3529 :: u64
  ActivePrecompiles :: "check_ctx \<Rightarrow> addr list"
  AccessTuples :: "string list \<Rightarrow> (addr \<times> hash list) list"
  evAuthorization :: "string \<Rightarrow> SetCodeAuthorization"
  Authority :: "SetCodeAuthorization \<Rightarrow> addr res"
  AddressToDelegation :: "addr \<Rightarrow> string"
  DelegationTarget :: "string \<Rightarrow> addr"
  FloorDataGas :: "string \<Rightarrow> u64 res"
  CreateAddress :: "addr \<Rightarrow> u64 \<Rightarrow> addr"
  TransactionToMessage :: "check_ctx \<Rightarrow> eth_tx \<Rightarrow> int option \<Rightarrow> core_message res"
  Signer_Sender :: "check_ctx \<Rightarrow> eth_tx \<Rightarrow> addr res"
  evIsLondon :: "int \<Rightarrow> bool"
  evValidator :: "check_ctx \<Rightarrow> addr res"
  evCreate :: "check_ctx \<Rightarrow> EVMConfig \<Rightarrow> core_message \<Rightarrow> addr \<Rightarrow> string \<Rightarrow> u64 \<Rightarrow> int \<Rightarrow> ('s, 'b) StateDB \<Rightarrow> (vm_result \<times> ('s, 'b) StateDB) res"
  evCall :: "check_ctx \<Rightarrow> EVMConfig \<Rightarrow> core_message \<Rightarrow> addr \<Rightarrow> addr \<Rightarrow> string \<Rightarrow> u64 \<Rightarrow> int \<Rightarrow> ('s, 'b) StateDB \<Rightarrow> (vm_result \<times> ('s, 'b) StateDB) res"

definition zeroAddress :: addr where "zeroAddress = replicate 20 (CHR 0x00)"

section \<open>Delegations of EIP-7702\<close>

text \<open>The error of an authorization is a value next to the database, which is changed in both cases; a panic of
  the keeper is the error of the result.\<close>

definition validateAuthorization :: "('s, 'b) evm_api \<Rightarrow> ('s, 'b) SKeeper \<Rightarrow> SetCodeAuthorization \<Rightarrow> ('s, 'b) StateDB \<Rightarrow>
    ((go_err + addr) \<times> ('s, 'b) StateDB) res" where
  "validateAuthorization E K auth s =
     (if auChainID auth = 0 then Inr (Inl (Errorf ''EIP-7702 authorization chain ID mismatch: STOChain rejects EIP-7702 ChainID=0 wildcard''), s)
      else if auChainID auth \<noteq> evChainID E then Inr (Inl (Errorf ''EIP-7702 authorization chain ID mismatch''), s)
      else if auNonce auth + 1 < auNonce auth then Inr (Inl (Errorf ''EIP-7702 authorization nonce > 64 bit''), s)
      else case Authority E auth of
        Inl e \<Rightarrow> Inr (Inl (Errorf ''EIP-7702 authorization has invalid signature''), s)
      | Inr authAddr \<Rightarrow>
          let s1 = AddAddressToAccessList authAddr s in
          tryE (Db_GetCode K authAddr s1) (\<lambda>(code, s2).
          if length (bytesOf code) \<noteq> 0 \<and> \<not> ParseDelegation (sk_geth K) (bytesOf code)
          then Inr (Inl (Errorf ''EIP-7702 authorization destination is a contract''), s2)
          else tryE (Db_GetNonce K authAddr s2) (\<lambda>(have_nonce, s3).
          if have_nonce \<noteq> auNonce auth then Inr (Inl (Errorf ''EIP-7702 authorization nonce does not match current account nonce''), s3)
          else Inr (Inr authAddr, s3))))"

definition applyAuthorization :: "('s, 'b) evm_api \<Rightarrow> ('s, 'b) SKeeper \<Rightarrow> SetCodeAuthorization \<Rightarrow> ('s, 'b) StateDB \<Rightarrow>
    (go_err option \<times> ('s, 'b) StateDB) res" where
  "applyAuthorization E K auth s =
     tryE (validateAuthorization E K auth s) (\<lambda>(r, s1).
     case r of Inl e \<Rightarrow> Inr (Some e, s1)
     | Inr authAddr \<Rightarrow>
         tryE (Exist K authAddr s1) (\<lambda>(ex, s2).
         let s3 = (if ex then AddRefund (CallNewAccountGas E - TxAuthTupleGas E) s2 else s2) in
         tryE (Db_SetNonce K authAddr (auNonce auth + 1) s3) (\<lambda>s4.
         tryE (Db_SetCode K authAddr (if auAddress auth = zeroAddress then None else Some (AddressToDelegation E (auAddress auth))) s4) (\<lambda>(_, s5).
         Inr (None, s5)))))"

section \<open>Applying a message\<close>

record MsgEthereumTxResponse =
  resGasUsed :: u64
  resMaxUsedGas :: u64
  resVmError :: string
  resRet :: string
  resLogs :: "eth_log list"
  resHash :: hash

definition Failed :: "MsgEthereumTxResponse \<Rightarrow> bool" where
  "Failed r = (0 < length (resVmError r))"

definition ErrExecutionReverted :: string where "ErrExecutionReverted = ''execution reverted''"

definition GetEthIntrinsicGas :: "('k, 'm, 'acc) VmKeeper \<Rightarrow> check_ctx \<Rightarrow> core_message \<Rightarrow> bool \<Rightarrow> u64 res" where
  "GetEthIntrinsicGas V info msg isContractCreation =
     (let rules = chainRules (vkGeth V) info in
      IntrinsicGas (vkGeth V) (cmData msg) (cmAccessList msg) (cmSetCodeAuthorizations msg) isContractCreation
        (IsHomestead rules) (IsIstanbul rules) (IsShanghai rules))"

text \<open>The checks before the execution: intrinsic gas and, from Prague on, the floor of the data cost.\<close>

definition apply_gas_checks :: "('s, 'b) evm_api \<Rightarrow> ('k, 'm, 'acc) VmKeeper \<Rightarrow> check_ctx \<Rightarrow> core_message \<Rightarrow> u64 res" where
  "apply_gas_checks E V info msg =
     tryE (GetEthIntrinsicGas V info msg (cmTo msg = None)) (\<lambda>intrinsicGas.
     if cmGasLimit msg < intrinsicGas then Inl (Errorf ''intrinsic gas too low: apply message'')
     else if evIsPrague E info then
       tryE (FloorDataGas E (cmData msg)) (\<lambda>floorDataGas.
       if cmGasLimit msg < floorDataGas then Inl (Errorf ''insufficient gas for floor data gas cost'') else Inr intrinsicGas)
     else Inr intrinsicGas)"

text \<open>An authorization that is refused is skipped.\<close>

definition applyAuthorizations :: "('s, 'b) evm_api \<Rightarrow> ('s, 'b) SKeeper \<Rightarrow> string list \<Rightarrow> ('s, 'b) StateDB \<Rightarrow> ('s, 'b) StateDB res" where
  "applyAuthorizations E K = forE (\<lambda>a s. tryE (applyAuthorization E K (evAuthorization E a) s) (\<lambda>(_, s1). Inr s1))"

text \<open>The nonce of a creator is managed here: it is the nonce of the message while the code runs and one more
  after it, whatever the result.\<close>

definition apply_run :: "('s, 'b) evm_api \<Rightarrow> ('s, 'b) SKeeper \<Rightarrow> check_ctx \<Rightarrow> EVMConfig \<Rightarrow> core_message \<Rightarrow> u64 \<Rightarrow> int \<Rightarrow> ('s, 'b) StateDB \<Rightarrow>
    (vm_result \<times> ('s, 'b) StateDB) res" where
  "apply_run E K info cfg msg leftoverGas convertedValue s =
     (case cmTo msg of
        None \<Rightarrow>
          tryE (Db_SetNonce K (cmFrom msg) (cmNonce msg) s) (\<lambda>s1.
          tryE (evCreate E info cfg msg (cmFrom msg) (cmData msg) leftoverGas convertedValue s1) (\<lambda>(r, s2).
          tryE (Db_SetNonce K (cmFrom msg) (cmNonce msg + 1) s2) (\<lambda>s3.
          Inr (r, s3))))
      | Some to \<Rightarrow>
          tryE (applyAuthorizations E K (cmSetCodeAuthorizations msg) s) (\<lambda>s1.
          tryE (Db_GetCode K to s1) (\<lambda>(code, s2).
          let s3 = (if ParseDelegation (sk_geth K) (bytesOf code) then AddAddressToAccessList (DelegationTarget E (bytesOf code)) s2 else s2) in
          evCall E info cfg msg (cmFrom msg) to (cmData msg) leftoverGas convertedValue s3)))"

text \<open>Gas in decimals: the number of used gas passes through a signed integer of 64 bits.\<close>

definition gas_charged :: "'x fee_sdk_scheme \<Rightarrow> dec option \<Rightarrow> bool \<Rightarrow> u64 \<Rightarrow> u64 \<Rightarrow> u64 \<Rightarrow> u64 res" where
  "gas_charged S multiplier internal gasLimit leftoverGas temporaryGasUsed =
     (let minGasMultiplier = (case multiplier of None \<Rightarrow> 0 | Some m \<Rightarrow> m) in
      tryE (chkDec S (Dec_Mul S (Dec_FromInt S (uint gasLimit)) minGasMultiplier)) (\<lambda>minimumGasUsed.
      let minimum = Dec_TruncateInt S minimumGasUsed in
      if \<not> (0 \<le> minimum \<and> minimum \<le> MaxUint64) then Inl (SdkErr ''gas overflow: minimumGasUsed is not a uint64'')
      else if gasLimit < leftoverGas then Inl (SdkErr ''gas overflow: message gas limit < leftover gas'')
      else let gasUsed = Dec_FromInt S (sint temporaryGasUsed);
               charged = Dec_TruncateInt S (if internal then gasUsed else max gasUsed minimumGasUsed) in
      if \<not> (0 \<le> charged \<and> charged \<le> MaxUint64) then Inl (GoPanic ''Uint64() out of bounds'')
      else Inr (word_of_int charged)))"

definition apply_finish :: "('s, 'b) evm_api \<Rightarrow> ('k, 'm, 'acc) VmKeeper \<Rightarrow> ('s, 'b) SKeeper \<Rightarrow> check_ctx \<Rightarrow> EVMConfig \<Rightarrow> core_message \<Rightarrow> bool \<Rightarrow> bool \<Rightarrow>
    TxConfig \<Rightarrow> bool \<Rightarrow> vm_result \<Rightarrow> ('s, 'b) StateDB \<Rightarrow> (MsgEthereumTxResponse \<times> ('s, 'b) StateDB) res" where
  "apply_finish E V K info cfg msg commit callFromPrecompile txCfg internal r s =
     (let refundQuotient = (if internal then 1 else if IsLondon (chainRules (vkGeth V) info) then RefundQuotientEIP3529 E else RefundQuotient E) in
      if cmGasLimit msg < evLeftoverGas r then Inl (SdkErr ''gas overflow: apply message'')
      else let maxUsedGas = cmGasLimit msg - evLeftoverGas r in
      tryE (GasToRefund (refund s) maxUsedGas refundQuotient) (\<lambda>gasRefund.
      let leftoverGas = evLeftoverGas r + gasRefund;
          temporaryGasUsed = maxUsedGas - gasRefund;
          vmError = (case evErr r of None \<Rightarrow> [] | Some e \<Rightarrow> e) in
      tryE (if \<not> commit then Inr s else if callFromPrecompile then FlushToCacheCtx K s else Db_Commit K s) (\<lambda>s1.
      tryE (gas_charged (vkSdk V) (MinGasMultiplier (ecFeeMarketParams cfg)) internal (cmGasLimit msg) leftoverGas temporaryGasUsed) (\<lambda>gasUsed.
      Inr (\<lparr>resGasUsed = gasUsed, resMaxUsedGas = maxUsedGas, resVmError = vmError,
         resRet = (if vmError = ErrExecutionReverted then evReturnData r else evRet r), resLogs = logs s1, resHash = cfgTxHash txCfg\<rparr>, s1)))))"

text \<open>\<open>overrides\<close> is what the state overrides of a query do to the database; a transaction has none.\<close>

definition ApplyMessageWithConfig :: "('s, 'b) evm_api \<Rightarrow> ('k, 'm, 'acc) VmKeeper \<Rightarrow> ('s, 'b) SKeeper \<Rightarrow> check_ctx \<Rightarrow> ('s, 'b) StateDB option \<Rightarrow> core_message \<Rightarrow>
    bool \<Rightarrow> bool \<Rightarrow> EVMConfig \<Rightarrow> TxConfig \<Rightarrow> bool \<Rightarrow> (('s, 'b) StateDB \<Rightarrow> ('s, 'b) StateDB res) option \<Rightarrow> (MsgEthereumTxResponse \<times> ('s, 'b) StateDB) res" where
  "ApplyMessageWithConfig E V K info stateDB msg commit callFromPrecompile cfg txCfg internal overrides =
     (case stateDB of None \<Rightarrow> Inl (SdkErr ''stateDB cannot be nil'')
      | Some s \<Rightarrow>
          tryE (case overrides of None \<Rightarrow> Inr s | Some apply_to \<Rightarrow> apply_to s) (\<lambda>s0.
          tryE (apply_gas_checks E V info msg) (\<lambda>intrinsicGas.
          tryE (if callFromPrecompile then Inr s0
                else Prepare (evRules E info) (cmFrom msg) zeroAddress (cmTo msg) (ActivePrecompiles E info) (AccessTuples E (cmAccessList msg)) s0) (\<lambda>s1.
          tryE (Uint256FromBigInt (cmValue msg)) (\<lambda>convertedValue.
          tryE (apply_run E K info cfg msg (cmGasLimit msg - intrinsicGas) convertedValue s1) (\<lambda>(r, s2).
          apply_finish E V K info cfg msg commit callFromPrecompile txCfg internal r s2))))))"

section \<open>Applying a transaction\<close>

subsection \<open>The gas meter\<close>

record gas_meter =
  meterConsumed :: u64
  meterLimit :: u64

definition addUint64Overflow :: "u64 \<Rightarrow> u64 \<Rightarrow> u64 \<times> bool" where
  "addUint64Overflow a b = (if - 1 - a < b then (0, True) else (a + b, False))"

definition meter_ConsumeGas :: "u64 \<Rightarrow> gas_meter \<Rightarrow> gas_meter res" where
  "meter_ConsumeGas amount g = (case addUint64Overflow (meterConsumed g) amount of (consumed, overflow) \<Rightarrow>
     if overflow then Inl (GoPanic ''gas overflow'') else Inr (g\<lparr>meterConsumed := consumed\<rparr>))"

definition meter_RefundGas :: "u64 \<Rightarrow> gas_meter \<Rightarrow> gas_meter res" where
  "meter_RefundGas amount g = (if meterConsumed g < amount then Inl (GoPanic ''negative gas consumed'')
     else Inr (g\<lparr>meterConsumed := meterConsumed g - amount\<rparr>))"

definition ResetGasMeterAndConsumeGas :: "u64 \<Rightarrow> gas_meter \<Rightarrow> gas_meter res" where
  "ResetGasMeterAndConsumeGas gasUsed g = tryE (meter_RefundGas (meterConsumed g) g) (meter_ConsumeGas gasUsed)"

definition calculateCumulativeGasFromEthResponse :: "gas_meter \<Rightarrow> MsgEthereumTxResponse \<Rightarrow> u64" where
  "calculateCumulativeGasFromEthResponse g r =
     (let cumulativeGasUsed = resGasUsed r + meterConsumed g in if meterLimit g < cumulativeGasUsed then meterLimit g else cumulativeGasUsed)"

subsection \<open>The transaction\<close>

record receipt =
  rcType :: nat
  rcCumulativeGasUsed :: u64
  rcLogs :: "eth_log list"
  rcTxHash :: hash
  rcContractAddress :: addr
  rcGasUsed :: u64
  rcTransactionIndex :: u64
  rcSuccessful :: bool

type_synonym ('s, 'b) evm_hooks = "addr \<Rightarrow> core_message \<Rightarrow> receipt \<Rightarrow> ('s, 'b) ctx \<Rightarrow> (receipt \<times> ('s, 'b) ctx) res"

text \<open>The parameters of the module are those the interpreter was built with; the coinbase is the operator of the
  proposer.\<close>

definition Vm_EVMConfig :: "('s, ('k, 'm) sdk_state) evm_api \<Rightarrow> ('k, 'm, 'acc) VmKeeper \<Rightarrow> check_ctx \<Rightarrow> ('s, 'k, 'm) vctx \<Rightarrow> EVMConfig res" where
  "Vm_EVMConfig E V info c =
     (let feemarketParams = GetParams (vkSdk V) (fmOf c) in
      tryE (asErr (SdkErr ''failed to obtain coinbase address'') (evValidator E info)) (\<lambda>coinbase.
      tryE (Vm_GetBaseFee (vkSdk V) (vkCoin V) (evIsLondon E) (BlockHeight info) feemarketParams) (\<lambda>baseFee.
      Inr \<lparr>ecFeeMarketParams = feemarketParams, ecCoinBase = coinbase, ecBaseFee = baseFee\<rparr>)))"

definition Vm_TxConfig :: "vm_state \<Rightarrow> hash \<Rightarrow> TxConfig" where
  "Vm_TxConfig v txHash = \<lparr>cfgTxHash = txHash, cfgTxIndex = GetTxIndexTransient v, cfgLogIndex = GetLogSizeTransient v\<rparr>"

definition HasHooks :: "('s, 'b) evm_hooks option \<Rightarrow> bool" where "HasHooks hooks = (hooks \<noteq> None)"

text \<open>The branch is written back when the execution and the hooks succeed; a failed execution leaves the hooks a
  new branch. A panic of the hooks is a panic of the transaction.\<close>

definition post_processing :: "('s, 'b) evm_hooks option \<Rightarrow> addr \<Rightarrow> core_message \<Rightarrow> receipt \<Rightarrow> ('s, 'b) ctx \<Rightarrow> ('s, 'b) ctx \<Rightarrow> MsgEthereumTxResponse \<Rightarrow>
    (MsgEthereumTxResponse \<times> ('s, 'b) ctx) res" where
  "post_processing hooks signerAddr msg rc tmpCtx c r =
     (case hooks of
        None \<Rightarrow> Inr (r, if \<not> Failed r then writeContext tmpCtx c else c)
      | Some h \<Rightarrow>
          case h signerAddr msg rc tmpCtx of
            Inl (GoPanic p) \<Rightarrow> Inl (GoPanic p)
          | Inl err \<Rightarrow> Inr (r\<lparr>resVmError := ''failed to execute post transaction processing'', resLogs := []\<rparr>, c)
          | Inr (rc1, tmp1) \<Rightarrow>
              let c1 = writeContext tmp1 c in
              Inr (r\<lparr>resLogs := (if Failed r then [] else rcLogs rc1)\<rparr>, c1\<lparr>events := events c1 @ drop (length (events tmpCtx)) (events tmp1)\<rparr>))"

definition apply_settle :: "('s, ('k, 'm) sdk_state) evm_api \<Rightarrow> ('k, 'm, 'acc) VmKeeper \<Rightarrow> ('s, ('k, 'm) sdk_state) evm_hooks option \<Rightarrow> check_ctx \<Rightarrow> eth_tx \<Rightarrow>
    core_message \<Rightarrow> TxConfig \<Rightarrow> gas_meter \<Rightarrow> MsgEthereumTxResponse \<Rightarrow> ('s, 'k, 'm) vctx \<Rightarrow> ('s, 'k, 'm) vctx \<Rightarrow> (MsgEthereumTxResponse \<times> u64 \<times> ('s, 'k, 'm) vctx) res" where
  "apply_settle E V hooks info t msg txCfg g r branch c =
     (let rc = \<lparr>rcType = TxType t, rcCumulativeGasUsed = calculateCumulativeGasFromEthResponse g r, rcLogs = resLogs r, rcTxHash = cfgTxHash txCfg,
            rcContractAddress = (if cmTo msg = None then CreateAddress E (cmFrom msg) (cmNonce msg) else zeroAddress),
            rcGasUsed = resGasUsed r, rcTransactionIndex = cfgTxIndex txCfg, rcSuccessful = (\<not> Failed r)\<rparr>;
          tmpCtx = (if Failed r then CacheContext c else branch) in
      tryE (Signer_Sender E info t) (\<lambda>signerAddr.
      tryE (post_processing hooks signerAddr msg rc tmpCtx c r) (\<lambda>(r1, c1).
      let remainingGas = (if resGasUsed r1 < cmGasLimit msg then cmGasLimit msg - resGasUsed r1 else 0) in
      tryE (RefundGas V msg remainingGas (eciDenom (vkCoin V)) c1) (\<lambda>c2.
      let v1 = (if resLogs r1 \<noteq> [] then SetLogSizeTransient (cfgLogIndex txCfg + of_nat (length (resLogs r1))) (vmOf c2) else vmOf c2);
          v2 = SetTxIndexTransient (cfgTxIndex txCfg + 1) v1 in
      tryE (AddTransientGasUsed (resGasUsed r1) v2) (\<lambda>(totalGasUsed, v3).
      Inr (r1, totalGasUsed, setVm v3 c2))))))"

text \<open>The gas meter of the transaction is changed also when the message fails: then it is used up.\<close>

definition ApplyTransaction :: "('s, ('k, 'm) sdk_state) evm_api \<Rightarrow> ('k, 'm, 'acc) VmKeeper \<Rightarrow> ('s, ('k, 'm) sdk_state) SKeeper \<Rightarrow>
    ('s, ('k, 'm) sdk_state) evm_hooks option \<Rightarrow> check_ctx \<Rightarrow> eth_tx \<Rightarrow> gas_meter \<Rightarrow> ('s, 'k, 'm) vctx \<Rightarrow> gas_meter \<times> (MsgEthereumTxResponse \<times> ('s, 'k, 'm) vctx) res" where
  "ApplyTransaction E V K hooks info t g c =
     (case tryE (Vm_EVMConfig E V info c) (\<lambda>cfg. tryE (TransactionToMessage E info t (ecBaseFee cfg)) (\<lambda>msg. Inr (cfg, msg))) of
        Inl e \<Rightarrow> (g, Inl e)
      | Inr (cfg, msg) \<Rightarrow>
          let txCfg = Vm_TxConfig (vmOf c) (TxHash t) in
          case ApplyMessageWithConfig E V K info (Some (Db_New (CacheContext c) txCfg)) msg True False cfg txCfg False None of
            Inl (GoPanic p) \<Rightarrow> (g, Inl (GoPanic p))
          | Inl err \<Rightarrow>
              (case ResetGasMeterAndConsumeGas (meterLimit g) g of Inl p \<Rightarrow> (g, Inl p)
               | Inr g1 \<Rightarrow> (g1, Inl (SdkErr ''failed to apply ethereum core message'')))
          | Inr (r, s) \<Rightarrow>
              (case apply_settle E V hooks info t msg txCfg g r (sdCtx s) c of Inl e \<Rightarrow> (g, Inl e)
               | Inr (r1, totalGasUsed, c1) \<Rightarrow>
                   (case ResetGasMeterAndConsumeGas totalGasUsed g of Inl p \<Rightarrow> (g, Inl p) | Inr g1 \<Rightarrow> (g1, Inr (r1, c1)))))"

text \<open>The handler of the message adds the events; \<open>hexOf\<close> prints an address, \<open>txHash\<close> is the hash of the bytes of
  the Cosmos transaction, when the context has them.\<close>

definition EthereumTx :: "('s, ('k, 'm) sdk_state) evm_api \<Rightarrow> ('k, 'm, 'acc) VmKeeper \<Rightarrow> ('s, ('k, 'm) sdk_state) SKeeper \<Rightarrow>
    ('s, ('k, 'm) sdk_state) evm_hooks option \<Rightarrow> (addr \<Rightarrow> string) \<Rightarrow> string option \<Rightarrow> check_ctx \<Rightarrow> addr \<Rightarrow> eth_tx \<Rightarrow> gas_meter \<Rightarrow> ('s, 'k, 'm) vctx \<Rightarrow>
    gas_meter \<times> (MsgEthereumTxResponse \<times> ('s, 'k, 'm) vctx) res" where
  "EthereumTx E V K hooks hexOf txBytesHash info from t g c =
     (let txIndex = GetTxIndexTransient (vmOf c) in
      case ApplyTransaction E V K hooks info t g c of
        (g1, Inl e) \<Rightarrow> (g1, Inl e)
      | (g1, Inr (response, c1)) \<Rightarrow>
          let attrs = [(''amount'', show_int (TxValue t)), (''ethereumTxHash'', resHash response), (''txIndex'', FormatUint txIndex),
                (''txGasUsed'', FormatUint (resGasUsed response))] @
              (case txBytesHash of None \<Rightarrow> [] | Some h \<Rightarrow> [(''txHash'', h)]) @
              (case TxTo t of None \<Rightarrow> [] | Some to \<Rightarrow> [(''recipient'', hexOf to)]) @
              (if Failed response then [(''ethereumTxFailed'', resVmError response)] else []) in
          (g1, Inr (response, EmitTo (Event ''message'' [(''module'', ''evm''), (''sender'', hexOf from), (''txType'', show_int (int (TxType t)))])
            (EmitTo (Event ''ethereum_tx'' attrs) c1))))"

end
