(* ===== verification/Transition_Results.thy ===== *)
theory Transition_Results
  imports State_Transition
begin

text \<open>
  Theorems about the execution of Ethereum messages: the bounds of the gas that is charged, the delegations of
  EIP-7702, and what a transaction leaves in the stores when it fails and when it succeeds. The contract of the
  interpreter is the locale \<open>evm_laws\<close>.
\<close>

text \<open>The interpreter works on the database through its methods and returns no more gas than it got.\<close>

locale evm_laws =
  fixes E :: "('s, 'b) evm_api" and K :: "('s, 'b) SKeeper"
  assumes Call_steps: "evCall E info cfg msg from to data gas v s = Inr (r, s1) \<Longrightarrow> (db_step K)\<^sup>*\<^sup>* s s1"
    and Create_steps: "evCreate E info cfg msg from data gas v s = Inr (r, s1) \<Longrightarrow> (db_step K)\<^sup>*\<^sup>* s s1"
    and Call_gas: "evCall E info cfg msg from to data gas v s = Inr (r, s1) \<Longrightarrow> evLeftoverGas r \<le> gas"
    and Create_gas: "evCreate E info cfg msg from data gas v s = Inr (r, s1) \<Longrightarrow> evLeftoverGas r \<le> gas"

section \<open>Gas\<close>

lemma sint_small: "uint (x :: u64) \<le> MaxInt64 \<Longrightarrow> sint x = uint x"
proof -
  assume "uint x \<le> MaxInt64"
  then have "uint x < 2 ^ 63" by (simp add: MaxInt64_def)
  then have "signed_take_bit 63 (uint x) = uint x" by (intro signed_take_bit_int_eq_self) (simp_all add: order_trans [OF _ uint_nonnegative])
  then show ?thesis by (simp add: sint_uint)
qed

lemma max_div: "0 < d \<Longrightarrow> max (a * d) b div d = max a (b div d)" for a b d :: int
proof (cases "a * d \<le> b")
  case True
  assume d: "0 < d"
  with True zdiv_mono1 [OF True d] show ?thesis by (simp add: max_absorb2)
next
  case False
  assume d: "0 < d"
  have "b div d * d \<le> b" using d div_mult_mod_eq [of b d] pos_mod_sign [OF d, of b] by linarith
  with False have "b div d * d < a * d" by linarith
  then have "b div d < a" using d by simp
  with False d show ?thesis by (simp add: max_def)
qed

context fee_sdk_laws
begin

lemma gas_charged_max:
  assumes "gas_charged K (Some m) False limit leftover temp = Inr g" and "0 \<le> m" and "m \<le> dec_one" and "uint limit \<le> MaxInt64" and "temp \<le> limit"
  shows "uint g = max (uint temp) (uint limit * m div dec_one)" and "g \<le> limit"
proof -
  have t: "sint temp = uint temp" using assms(4,5) by (intro sint_small) (simp add: word_le_def)
  have n: "0 \<le> uint limit * m" using assms(2) by simp
  let ?x = "max (uint temp * dec_one) (uint limit * m)"
  have x: "0 \<le> ?x" using n by (simp add: max_def)
  from assms(1) have "g = word_of_int (Dec_TruncateInt K ?x)" "Dec_TruncateInt K ?x \<le> MaxUint64" "0 \<le> Dec_TruncateInt K ?x"
    by (auto simp: gas_charged_def Let_def t Dec_FromInt_eq [of "uint temp"] Dec_Mul_FromInt dest!: chkDec_InrD split: if_splits)
  then have "uint g = ?x div dec_one"
    using x by (simp add: Dec_TruncateInt_nonneg uint_word_of_int MaxUint64_def)
  moreover have "max (uint temp * dec_one) (uint limit * m) div dec_one = max (uint temp) (uint limit * m div dec_one)"
    by (rule max_div) simp
  ultimately show u: "uint g = max (uint temp) (uint limit * m div dec_one)" by simp
  have "uint limit * m div dec_one \<le> uint limit"
    using assms(3) mult_left_mono [OF assms(3) uint_nonnegative [of limit]] zdiv_mono1 [of "uint limit * m" "uint limit * dec_one" dec_one]
    by simp
  then show "g \<le> limit" using u assms(5) by (simp add: word_le_def)
qed

end

section \<open>The parts of an applied message\<close>

lemma GasToRefund_Inr:
  assumes "GasToRefund available used q = Inr g"
  shows "g \<le> used div q" and "g \<le> used" and "g \<le> available"
proof -
  have "used div q \<le> used" by (simp add: word_le_nat_alt unat_div)
  then show "g \<le> used div q" "g \<le> used" "g \<le> available" using assms by (auto simp: GasToRefund_def Let_def split: if_splits)
qed

lemma ApplyMessage_parts:
  assumes "ApplyMessageWithConfig E V K info (Some s) msg commit False cfg txCfg internal None = Inr (r, s')"
  obtains i s1 v x s2 where "apply_gas_checks E V info msg = Inr i"
    and "Prepare (evRules E info) (cmFrom msg) zeroAddress (cmTo msg) (ActivePrecompiles E info) (AccessTuples E (cmAccessList msg)) s = Inr s1"
    and "Uint256FromBigInt (cmValue msg) = Inr v" and "apply_run E K info cfg msg (cmGasLimit msg - i) v s1 = Inr (x, s2)"
    and "apply_finish E V K info cfg msg commit False txCfg internal x s2 = Inr (r, s')"
  using assms unfolding ApplyMessageWithConfig_def by auto

lemma apply_finish_parts:
  assumes "apply_finish E V K info cfg msg commit False txCfg internal x s = Inr (r, s')"
  obtains g q where "evLeftoverGas x \<le> cmGasLimit msg"
    and "q = (if internal then 1 else if IsLondon (chainRules (vkGeth V) info) then RefundQuotientEIP3529 E else RefundQuotient E)"
    and "GasToRefund (refund s) (cmGasLimit msg - evLeftoverGas x) q = Inr g"
    and "gas_charged (vkSdk V) (MinGasMultiplier (ecFeeMarketParams cfg)) internal (cmGasLimit msg) (evLeftoverGas x + g)
      (cmGasLimit msg - evLeftoverGas x - g) = Inr (resGasUsed r)"
    and "resMaxUsedGas r = cmGasLimit msg - evLeftoverGas x" and "resVmError r = (case evErr x of None \<Rightarrow> [] | Some e \<Rightarrow> e)"
    and "(if commit then Db_Commit K s else Inr s) = Inr s'"
  using assms unfolding apply_finish_def
  by (auto simp: Let_def not_less split: if_splits)

lemma word_minus_le: "g \<le> (x :: u64) \<Longrightarrow> uint (x - g) = uint x - uint g"
  by (simp add: uint_minus_simple_alt)

lemma apply_gas_checks_Inr:
  "apply_gas_checks E V info msg = Inr i \<Longrightarrow> GetEthIntrinsicGas V info msg (cmTo msg = None) = Inr i \<and> i \<le> cmGasLimit msg"
  by (auto simp: apply_gas_checks_def not_less split: if_splits)

context evm_laws
begin

lemma apply_run_gas: "apply_run E K info cfg msg gas v s = Inr (x, s1) \<Longrightarrow> evLeftoverGas x \<le> gas"
  by (auto simp: apply_run_def Let_def split: option.splits dest: Call_gas Create_gas)

lemma step1: "db_op K s s1 \<Longrightarrow> (db_step K)\<^sup>*\<^sup>* s s1"
  by (intro r_into_rtranclp db_step.op)

lemma op_steps:
  "Db_SetNonce K a n s = Inr s1 \<Longrightarrow> (db_step K)\<^sup>*\<^sup>* s s1" "Db_SetCode K a code s = Inr (rc, s1) \<Longrightarrow> (db_step K)\<^sup>*\<^sup>* s s1"
  "Db_GetCode K a s = Inr (rc, s1) \<Longrightarrow> (db_step K)\<^sup>*\<^sup>* s s1" "Db_GetNonce K a s = Inr (n, s1) \<Longrightarrow> (db_step K)\<^sup>*\<^sup>* s s1"
  "Exist K a s = Inr (b, s1) \<Longrightarrow> (db_step K)\<^sup>*\<^sup>* s s1" "(db_step K)\<^sup>*\<^sup>* s (AddAddressToAccessList a s)" "(db_step K)\<^sup>*\<^sup>* s (AddRefund gas s)"
  by (rule step1, blast intro: db_op.intros)+

lemma validate_steps: "validateAuthorization E K auth s = Inr (e, s1) \<Longrightarrow> (db_step K)\<^sup>*\<^sup>* s s1"
proof -
  assume r: "validateAuthorization E K auth s = Inr (e, s1)"
  show ?thesis
  proof (cases "s1 = s")
    case False
    with r obtain a code s2 where g: "Db_GetCode K a (AddAddressToAccessList a s) = Inr (code, s2)"
      and rest: "s1 = s2 \<or> (\<exists>n. Db_GetNonce K a s2 = Inr (n, s1))"
      by (auto simp: validateAuthorization_def Let_def split: if_splits sum.splits)
    have "(db_step K)\<^sup>*\<^sup>* s2 s1" using rest op_steps(4) by auto
    with rtranclp_trans [OF op_steps(6) op_steps(3) [OF g]] show ?thesis by (rule rtranclp_trans)
  qed simp
qed

lemma applyAuthorization_steps: "applyAuthorization E K auth s = Inr (e, s1) \<Longrightarrow> (db_step K)\<^sup>*\<^sup>* s s1"
proof -
  assume "applyAuthorization E K auth s = Inr (e, s1)"
  then obtain r s2 where v: "validateAuthorization E K auth s = Inr (r, s2)"
    and rest: "case r of Inl e \<Rightarrow> s1 = s2 | Inr a \<Rightarrow> (\<exists>b s3 s4 code rc. Exist K a s2 = Inr (b, s3) \<and>
      Db_SetNonce K a (auNonce auth + 1) (if b then AddRefund (CallNewAccountGas E - TxAuthTupleGas E) s3 else s3) = Inr s4 \<and> Db_SetCode K a code s4 = Inr (rc, s1))"
    by (fastforce simp: applyAuthorization_def Let_def split: sum.splits)
  have "(db_step K)\<^sup>*\<^sup>* s2 s1"
  proof (cases r)
    case (Inr a)
    with rest obtain b s3 s4 code rc where o: "Exist K a s2 = Inr (b, s3)"
      "Db_SetNonce K a (auNonce auth + 1) (if b then AddRefund (CallNewAccountGas E - TxAuthTupleGas E) s3 else s3) = Inr s4" "Db_SetCode K a code s4 = Inr (rc, s1)" by auto
    have "(db_step K)\<^sup>*\<^sup>* s3 (if b then AddRefund (CallNewAccountGas E - TxAuthTupleGas E) s3 else s3)" using op_steps(7) by simp
    from rtranclp_trans [OF op_steps(5) [OF o(1)] this] rtranclp_trans [OF op_steps(1) [OF o(2)] op_steps(2) [OF o(3)]] show ?thesis by (rule rtranclp_trans)
  qed (use rest in simp)
  with validate_steps [OF v] show ?thesis by (rule rtranclp_trans)
qed

lemma applyAuthorizations_steps: "applyAuthorizations E K as s = Inr s1 \<Longrightarrow> (db_step K)\<^sup>*\<^sup>* s s1"
  unfolding applyAuthorizations_def
  by (erule forE_invariant [where P = "\<lambda>t. (db_step K)\<^sup>*\<^sup>* s t"]) (auto dest!: applyAuthorization_steps)

lemma apply_run_steps:
  assumes "apply_run E K info cfg msg gas v s = Inr (x, s1)"
  shows "(db_step K)\<^sup>*\<^sup>* s s1"
proof (cases "cmTo msg")
  case None
  with assms obtain s2 s3 where o: "Db_SetNonce K (cmFrom msg) (cmNonce msg) s = Inr s2"
    "evCreate E info cfg msg (cmFrom msg) (cmData msg) gas v s2 = Inr (x, s3)" "Db_SetNonce K (cmFrom msg) (cmNonce msg + 1) s3 = Inr s1"
    by (auto simp: apply_run_def)
  from op_steps(1) [OF o(1)] rtranclp_trans [OF Create_steps [OF o(2)] op_steps(1) [OF o(3)]] show ?thesis by (rule rtranclp_trans)
next
  case (Some to)
  with assms obtain s2 code s3 where o: "applyAuthorizations E K (cmSetCodeAuthorizations msg) s = Inr s2" "Db_GetCode K to s2 = Inr (code, s3)"
    "evCall E info cfg msg (cmFrom msg) to (cmData msg) gas v
      (if ParseDelegation (sk_geth K) (bytesOf code) then AddAddressToAccessList (DelegationTarget E (bytesOf code)) s3 else s3) = Inr (x, s1)"
    by (auto simp: apply_run_def Let_def)
  have "(db_step K)\<^sup>*\<^sup>* s3 (if ParseDelegation (sk_geth K) (bytesOf code) then AddAddressToAccessList (DelegationTarget E (bytesOf code)) s3 else s3)"
    using op_steps(6) by simp
  from rtranclp_trans [OF applyAuthorizations_steps [OF o(1)] op_steps(3) [OF o(2)]] rtranclp_trans [OF this Call_steps [OF o(3)]]
  show ?thesis by (rule rtranclp_trans)
qed

end

section \<open>The refund and the settlement\<close>

lemma RefundGas_frame:
  "RefundGas V msg left d c = Inr c' \<Longrightarrow> accounts c' = accounts c \<and> vmOf c' = vmOf c \<and> fmOf c' = fmOf c \<and> store c' = store c"
  by (auto simp: RefundGas_def Let_def split: if_splits)

context vm_env
begin

lemma RefundGas_ledger:
  assumes "wfb (coinsOf c)" and "RefundGas V msg left (eciDenom (vkCoin V)) c = Inr c'"
  shows "evmL V c' = a_send (moduleOf V feeCollector) (cmFrom msg) (CM * (uint left * cmGasPrice msg div CM)) (evmL V c)"
    and "0 \<le> uint left * cmGasPrice msg"
proof -
  let ?v = "uint left * cmGasPrice msg"
  show n: "0 \<le> ?v" using assms(2) by (auto simp: RefundGas_def Let_def split: if_splits)
  show "evmL V c' = a_send (moduleOf V feeCollector) (cmFrom msg) (CM * (?v div CM)) (evmL V c)"
  proof (cases "?v = 0")
    case True
    with assms(2) have "c' = c" by (simp add: RefundGas_def Let_def)
    with True show ?thesis by (auto simp: a_send_def prod_eq_iff fun_eq_iff)
  next
    case False
    let ?cs = "[mk_coin (eb_evmDenom (vkBank V)) ?v]"
    have conv: "ConvertCoinsDenomToExtendedDenom V [mk_coin (eciDenom (vkCoin V)) ?v] = ?cs"
      using singleton_mset [of "vkCoinsSort V ?cs"] Sort_mset [of ?cs] by (simp add: ConvertCoinsDenomToExtendedDenom_def coin_denoms)
    have coin: "NewCoin (vkSdk V) (eciDenom (vkCoin V)) ?v = Inr (mk_coin (eciDenom (vkCoin V)) ?v)" using NewCoin_cosmos n coin_denoms by simp
    from False n assms(2) coin obtain e where
      e: "Evm_SendCoinsFromModuleToAccount (vkSdk V) (vkBank V) \<lparr>ebank = coinsOf c, eevents = Some (events c)\<rparr> feeCollector (cmFrom msg) ?cs = Inr e"
      and c': "coinsOf c' = ebank e"
      by (auto simp: RefundGas_def Let_def chk256_def W_SendCoinsFromModuleToAccount_def conv Coins_IsZero_def split: if_splits)
    from Evm_ModuleToAccount_Inr [OF _ e] assms(1) c' show ?thesis by (simp add: floors_def)
  qed
qed

end

lemma ResetGas_Inr: "ResetGasMeterAndConsumeGas x g = Inr (g\<lparr>meterConsumed := x\<rparr>)"
proof -
  have "\<not> - 1 - (0::u64) < x" by (simp add: not_less)
  then show ?thesis by (simp add: ResetGasMeterAndConsumeGas_def meter_RefundGas_def meter_ConsumeGas_def addUint64Overflow_def)
qed

lemma ApplyTransaction_parts:
  assumes "ApplyTransaction E V K hooks info t g c = (g', Inr (r, c'))"
  obtains cfg msg x s where "Vm_EVMConfig E V info c = Inr cfg" and "TransactionToMessage E info t (ecBaseFee cfg) = Inr msg"
    and "ApplyMessageWithConfig E V K info (Some (Db_New (CacheContext c) (Vm_TxConfig (vmOf c) (TxHash t)))) msg True False cfg
      (Vm_TxConfig (vmOf c) (TxHash t)) False None = Inr (x, s)"
    and "apply_settle E V hooks info t msg (Vm_TxConfig (vmOf c) (TxHash t)) g x (sdCtx s) c = Inr (r, meterConsumed g', c')"
proof -
  from assms obtain cfg msg where 1: "Vm_EVMConfig E V info c = Inr cfg" "TransactionToMessage E info t (ecBaseFee cfg) = Inr msg"
    by (auto simp: ApplyTransaction_def split: sum.splits prod.splits)
  let ?txc = "Vm_TxConfig (vmOf c) (TxHash t)"
  let ?run = "ApplyMessageWithConfig E V K info (Some (Db_New (CacheContext c) ?txc)) msg True False cfg ?txc False None"
  obtain x s where 2: "?run = Inr (x, s)" using assms 1 by (cases ?run) (auto simp: ApplyTransaction_def Let_def ResetGas_Inr split: go_err.splits)
  from assms 1 2 have "apply_settle E V hooks info t msg ?txc g x (sdCtx s) c = Inr (r, meterConsumed g', c')"
    by (auto simp: ApplyTransaction_def Let_def ResetGas_Inr split: sum.splits)
  with 1 2 show thesis by (rule that)
qed

text \<open>Without hooks: the branch is written unless the execution failed; then the refund and the counters.\<close>

lemma apply_settle_parts:
  assumes "apply_settle E V None info t msg txCfg g x branch c = Inr (r, tot, c')"
  obtains c1 c2 where "r = x" and "c1 = (if Failed x then c else writeContext branch c)"
    and "RefundGas V msg (if resGasUsed x < cmGasLimit msg then cmGasLimit msg - resGasUsed x else 0) (eciDenom (vkCoin V)) c1 = Inr c2"
    and "c' = setVm (vmOf c') c2" and "vmGasUsed (vmOf c') = tot" and "vmTxIndex (vmOf c') = cfgTxIndex txCfg + 1"
    and "vmCodeHash (vmOf c') = vmCodeHash (vmOf c2)" and "vmCode (vmOf c') = vmCode (vmOf c2)" and "vmStorage (vmOf c') = vmStorage (vmOf c2)"
  using assms unfolding apply_settle_def
  by (auto simp: Let_def post_processing_def AddTransientGasUsed_def SetTransientGasUsed_def SetTxIndexTransient_def SetLogSizeTransient_def
      GetTransientGasUsed_def split: if_splits)

section \<open>Accounts in the database\<close>

text \<open>The account that the database shows at an address: of a live object or of the keeper.\<close>

definition acctAt :: "('s, 'b) SKeeper \<Rightarrow> ('s, 'b) StateDB \<Rightarrow> addr \<Rightarrow> vm_account option res" where
  "acctAt K s a = (case stateObjects s a of Some obj \<Rightarrow> Inr (Some (soAccount obj))
     | None \<Rightarrow> tryE (sk_GetAccount K (sdCtx s) a) (\<lambda>acc. Inr (map_option (\<lambda>x. soAccount (newObject (sk_geth K) a x)) acc)))"

definition placed :: "('s, 'b) StateDB \<Rightarrow> bool" where
  "placed s \<longleftrightarrow> (\<forall>a obj. stateObjects s a = Some obj \<longrightarrow> soAddress obj = a)"

lemma placed_ok: "objects_ok K s \<Longrightarrow> placed s"
  by (simp add: objects_ok_def placed_def)

lemma acctAt_put [simp]: "acctAt K (setStateObject obj s) = (acctAt K s)(soAddress obj := Inr (Some (soAccount obj)))"
  by (auto simp: acctAt_def fun_eq_iff split: option.split)

lemma placed_put [simp]: "placed s \<Longrightarrow> placed (setStateObject obj s)"
  by (simp add: placed_def)

lemma acctAt_same: "stateObjects s1 = stateObjects s \<Longrightarrow> sdCtx s1 = sdCtx s \<Longrightarrow> acctAt K s1 = acctAt K s \<and> placed s1 = placed s"
  by (simp add: acctAt_def placed_def fun_eq_iff split: option.split)

lemma acctAt_marks [simp]:
  "acctAt K (AddAddressToAccessList a s) = acctAt K s" "placed (AddAddressToAccessList a s) = placed s"
  "acctAt K (AddRefund gas s) = acctAt K s" "placed (AddRefund gas s) = placed s"
  "acctAt K (journal_append e s) = acctAt K s" "placed (journal_append e s) = placed s"
  using acctAt_same [of "AddAddressToAccessList a s" s K] acctAt_same [of "AddRefund gas s" s K] acctAt_same [of "journal_append e s" s K]
  by (simp_all add: AddAddressToAccessList_def AddRefund_def Let_def split: prod.splits)

lemma get_acct:
  assumes "getStateObject K a s = Inr (x, s0)" and "placed s"
  shows "acctAt K s0 = acctAt K s" and "acctAt K s a = Inr (map_option soAccount x)" and "placed s0" and "\<And>obj. x = Some obj \<Longrightarrow> soAddress obj = a"
proof -
  consider (live) obj where "stateObjects s a = Some obj" "x = Some obj" "s0 = s"
    | (missing) "stateObjects s a = None" "sk_GetAccount K (sdCtx s) a = Inr None" "x = None" "s0 = s"
    | (kept) acc where "stateObjects s a = None" "sk_GetAccount K (sdCtx s) a = Inr (Some acc)" "x = Some (newObject (sk_geth K) a acc)"
        "s0 = setStateObject (newObject (sk_geth K) a acc) s"
    using assms(1) by (auto simp: getStateObject_def Let_def split: option.splits)
  then have "acctAt K s0 = acctAt K s \<and> acctAt K s a = Inr (map_option soAccount x) \<and> placed s0 \<and> (\<forall>obj. x = Some obj \<longrightarrow> soAddress obj = a)"
  proof cases
    case live
    then show ?thesis using assms(2) by (simp add: acctAt_def placed_def)
  next
    case missing
    then show ?thesis using assms(2) by (simp add: acctAt_def)
  next
    case kept
    have "acctAt K s a = Inr (Some (soAccount (newObject (sk_geth K) a acc)))" using kept by (simp add: acctAt_def)
    then show ?thesis using kept assms(2) by (auto simp: fun_eq_iff)
  qed
  then show "acctAt K s0 = acctAt K s" "acctAt K s a = Inr (map_option soAccount x)" "placed s0" "\<And>obj. x = Some obj \<Longrightarrow> soAddress obj = a" by auto
qed

lemma get_runs: "acctAt K s a = Inr y \<Longrightarrow> \<exists>x s0. getStateObject K a s = Inr (x, s0)"
proof (cases "stateObjects s a")
  case None
  assume "acctAt K s a = Inr y"
  with None obtain x where "sk_GetAccount K (sdCtx s) a = Inr x" by (auto simp: acctAt_def)
  with None show ?thesis by (cases x) (simp_all add: getStateObject_def tryE_def Let_def)
qed (simp add: getStateObject_def)

lemma read_acct:
  assumes "readObject K a m f s = Inr (r, s1)" and "placed s"
    and "\<And>obj. soAddress (snd (f obj)) = soAddress obj" "\<And>obj. soAccount (snd (f obj)) = soAccount obj"
  shows "acctAt K s1 = acctAt K s" and "placed s1" and "\<exists>x. acctAt K s a = Inr x"
proof -
  from assms(1) obtain x s0 where g: "getStateObject K a s = Inr (x, s0)"
    and s1: "case x of None \<Rightarrow> s1 = s0 | Some obj \<Rightarrow> s1 = setStateObject (snd (f obj)) s0"
    by (auto simp: readObject_def case_prod_beta split: option.splits)
  note h = get_acct [OF g assms(2)]
  show "acctAt K s1 = acctAt K s" using s1 h assms(3,4) by (cases x) (auto simp: fun_eq_iff)
  show "placed s1" using s1 h(3) by (cases x) auto
  show "\<exists>x. acctAt K s a = Inr x" using h(2) by blast
qed

lemma GetNonce_acct:
  assumes "Db_GetNonce K a s = Inr (n, s1)" and "placed s"
  shows "acctAt K s1 = acctAt K s" and "placed s1" and "\<exists>x. acctAt K s a = Inr x \<and> n = (case x of None \<Rightarrow> 0 | Some acc \<Rightarrow> acNonce acc)"
proof -
  show "acctAt K s1 = acctAt K s" "placed s1" using read_acct [OF assms(1) [unfolded Db_GetNonce_def] assms(2)] by simp_all
  from assms(1) obtain x s0 where g: "getStateObject K a s = Inr (x, s0)" and n: "n = (case x of None \<Rightarrow> 0 | Some obj \<Rightarrow> acNonce (soAccount obj))"
    by (auto simp: Db_GetNonce_def readObject_def split: option.splits)
  from get_acct(2) [OF g assms(2)] n show "\<exists>x. acctAt K s a = Inr x \<and> n = (case x of None \<Rightarrow> 0 | Some acc \<Rightarrow> acNonce acc)" by (auto split: option.splits)
qed

lemma GetNonce_runs: "acctAt K s a = Inr x \<Longrightarrow> \<exists>n s1. Db_GetNonce K a s = Inr (n, s1)"
  using get_runs [of K s a x] by (auto simp: Db_GetNonce_def readObject_def tryE_def split: option.split)

lemma GetCode_acct:
  assumes "Db_GetCode K a s = Inr (code, s1)" and "placed s"
  shows "acctAt K s1 = acctAt K s" and "placed s1"
  using read_acct [OF assms(1) [unfolded Db_GetCode_def] assms(2)] by (simp_all add: Obj_Code_snd)

lemma GetCode_runs: "acctAt K s a = Inr x \<Longrightarrow> \<exists>code s1. Db_GetCode K a s = Inr (code, s1)"
  using get_runs [of K s a x] by (auto simp: Db_GetCode_def readObject_def tryE_def case_prod_beta split: option.split)

lemma getOrNew_acct:
  assumes "getOrNewStateObject K a s = Inr (obj, s1)" and "placed s"
  shows "soAddress obj = a" and "placed s1" and "\<And>b. b \<noteq> a \<Longrightarrow> acctAt K s1 b = acctAt K s b" and "acctAt K s a = Inr (Some acc) \<Longrightarrow> soAccount obj = acc"
proof -
  from assms(1) obtain x s0 where g: "getStateObject K a s = Inr (x, s0)"
    and n: "(case x of None \<Rightarrow> (\<exists>p. createObject K a s0 = Inr (obj, p, s1)) | Some o1 \<Rightarrow> obj = o1 \<and> s1 = s0)"
    by (auto simp: getOrNewStateObject_def split: option.splits)
  note h = get_acct [OF g assms(2)]
  have "soAddress obj = a \<and> placed s1 \<and> (\<forall>b. b \<noteq> a \<longrightarrow> acctAt K s1 b = acctAt K s b) \<and> (\<forall>acc. acctAt K s a = Inr (Some acc) \<longrightarrow> soAccount obj = acc)"
  proof (cases x)
    case None
    with n obtain p where "createObject K a s0 = Inr (obj, p, s1)" by auto
    then obtain y s2 e where g2: "getStateObject K a s0 = Inr (y, s2)" and c: "obj = newObject (sk_geth K) a zeroAccount" "s1 = setStateObject obj (journal_append e s2)"
      by (auto simp: createObject_def Let_def)
    note h2 = get_acct [OF g2 h(3)]
    show ?thesis using c h2(1,3) h(1,2) None by auto
  next
    case (Some o1)
    with n h show ?thesis by auto
  qed
  then show "soAddress obj = a" "placed s1" "\<And>b. b \<noteq> a \<Longrightarrow> acctAt K s1 b = acctAt K s b" "acctAt K s a = Inr (Some acc) \<Longrightarrow> soAccount obj = acc" by auto
qed

lemma SetNonce_acct:
  assumes "Db_SetNonce K a n s = Inr s1" and "placed s"
  shows "\<exists>acc. acctAt K s1 a = Inr (Some acc) \<and> acNonce acc = n" and "placed s1" and "\<And>b. b \<noteq> a \<Longrightarrow> acctAt K s1 b = acctAt K s b"
proof -
  from assms(1) obtain obj s0 where g: "getOrNewStateObject K a s = Inr (obj, s0)" and s1: "s1 = Obj_SetNonce n obj s0" by (auto simp: Db_SetNonce_def)
  note h = getOrNew_acct [OF g assms(2)]
  show "\<exists>acc. acctAt K s1 a = Inr (Some acc) \<and> acNonce acc = n" "placed s1" "\<And>b. b \<noteq> a \<Longrightarrow> acctAt K s1 b = acctAt K s b"
    using h(1-3) by (simp_all add: s1 Obj_SetNonce_def) (simp add: setNonce_def)
qed

lemma SetCode_acct:
  assumes "Db_SetCode K a code s = Inr (r, s1)" and "placed s" and "acctAt K s a = Inr (Some acc)"
  shows "acctAt K s1 a = Inr (Some (acc\<lparr>acCodeHash := Keccak256Hash K (bytesOf code)\<rparr>))" and "placed s1" and "\<And>b. b \<noteq> a \<Longrightarrow> acctAt K s1 b = acctAt K s b"
proof -
  from assms(1) obtain obj s0 where g: "getOrNewStateObject K a s = Inr (obj, s0)"
    and s1: "s1 = Obj_SetCode K (Keccak256Hash K (bytesOf code)) code obj s0" by (auto simp: Db_SetCode_def)
  note h = getOrNew_acct [OF g assms(2)]
  have o: "soAccount obj = acc" by (rule h(4) [OF assms(3)])
  have a: "soAddress (snd (Obj_Code K c obj)) = a" "soAccount (snd (Obj_Code K c obj)) = acc" for c using h(1) o by (simp_all add: Obj_Code_snd)
  show "acctAt K s1 a = Inr (Some (acc\<lparr>acCodeHash := Keccak256Hash K (bytesOf code)\<rparr>))" "placed s1" "\<And>b. b \<noteq> a \<Longrightarrow> acctAt K s1 b = acctAt K s b"
    using a h(2,3) by (simp_all add: s1 Obj_SetCode_def case_prod_beta) (simp add: setCode_def)
qed

lemma SetNonce_dirty: "Db_SetNonce K a n s = Inr s1 \<Longrightarrow> placed s \<Longrightarrow> map_of (dirties s1) a \<noteq> None \<and> stateObjects s1 a \<noteq> None"
  by (auto simp: Db_SetNonce_def Obj_SetNonce_def dirtied_def dest!: getOrNew_acct(1))

lemma prepared_ok:
  assumes "statedb_laws K" and "Prepare rules sender coinbase dst precompiles list (Db_New c cfg) = Inr s0" and "(db_step K)\<^sup>*\<^sup>* s0 s"
  shows "db_ok K s"
  using assms(3) by (induction rule: rtranclp_induct) (auto intro: Prepare_start [OF assms(2)] statedb_laws.db_step_ok [OF assms(1)])

lemma validate_acct:
  assumes "validateAuthorization E K auth s = Inr (r, s1)" and "placed s"
  shows "acctAt K s1 = acctAt K s" and "placed s1"
    and "r = Inr x \<Longrightarrow> auChainID auth = evChainID E \<and> auChainID auth \<noteq> 0 \<and> Authority E auth = Inr x \<and>
      (\<exists>acc. acctAt K s x = Inr acc \<and> auNonce auth = (case acc of None \<Rightarrow> 0 | Some a \<Rightarrow> acNonce a))"
proof -
  have "acctAt K s1 = acctAt K s \<and> placed s1 \<and> (r = Inr x \<longrightarrow> auChainID auth = evChainID E \<and> auChainID auth \<noteq> 0 \<and> Authority E auth = Inr x \<and>
      (\<exists>acc. acctAt K s x = Inr acc \<and> auNonce auth = (case acc of None \<Rightarrow> 0 | Some a \<Rightarrow> acNonce a)))"
  proof (cases "s1 = s \<and> isl r")
    case True
    with assms(2) show ?thesis by auto
  next
    case False
    with assms(1) obtain y code s2 where y: "auChainID auth = evChainID E" "auChainID auth \<noteq> 0" "Authority E auth = Inr y"
      and c: "Db_GetCode K y (AddAddressToAccessList y s) = Inr (code, s2)"
      and rest: "(isl r \<and> s1 = s2) \<or> (\<exists>n. Db_GetNonce K y s2 = Inr (n, s1) \<and> (r = Inr x \<longrightarrow> x = y \<and> n = auNonce auth))"
      by (auto simp: validateAuthorization_def Let_def split: if_splits sum.splits)
    have a2: "acctAt K s2 = acctAt K s" "placed s2" using GetCode_acct [OF c] assms(2) by simp_all
    from rest show ?thesis
    proof
      assume "\<exists>n. Db_GetNonce K y s2 = Inr (n, s1) \<and> (r = Inr x \<longrightarrow> x = y \<and> n = auNonce auth)"
      then obtain n where n: "Db_GetNonce K y s2 = Inr (n, s1)" "r = Inr x \<longrightarrow> x = y \<and> n = auNonce auth" by blast
      from GetNonce_acct [OF n(1) a2(2)] a2(1) y n(2) show ?thesis by auto
    qed (use a2 in auto)
  qed
  then show "acctAt K s1 = acctAt K s" "placed s1" "r = Inr x \<Longrightarrow> auChainID auth = evChainID E \<and> auChainID auth \<noteq> 0 \<and> Authority E auth = Inr x \<and>
      (\<exists>acc. acctAt K s x = Inr acc \<and> auNonce auth = (case acc of None \<Rightarrow> 0 | Some a \<Rightarrow> acNonce a))" by auto
qed

lemma apply_acct:
  assumes "applyAuthorization E K auth s = Inr (None, s1)" and "placed s"
  obtains x acc acc1 where "auChainID auth = evChainID E" and "auChainID auth \<noteq> 0" and "Authority E auth = Inr x"
    and "acctAt K s x = Inr acc" and "auNonce auth = (case acc of None \<Rightarrow> 0 | Some a \<Rightarrow> acNonce a)"
    and "acctAt K s1 x = Inr (Some acc1)" and "acNonce acc1 = auNonce auth + 1"
    and "acCodeHash acc1 = Keccak256Hash K (if auAddress auth = zeroAddress then [] else AddressToDelegation E (auAddress auth))"
    and "\<forall>y. y \<noteq> x \<longrightarrow> acctAt K s1 y = acctAt K s y" and "placed s1"
proof -
  let ?code = "if auAddress auth = zeroAddress then None else Some (AddressToDelegation E (auAddress auth))"
  obtain r0 s20 where v0: "validateAuthorization E K auth s = Inr (r0, s20)" using assms(1) by (auto simp: applyAuthorization_def)
  with assms(1) obtain x where "r0 = Inr x" by (cases r0) (auto simp: applyAuthorization_def)
  with assms(1) v0 obtain s2 b s3 s4 rc where v: "validateAuthorization E K auth s = Inr (Inr x, s2)" and e: "Exist K x s2 = Inr (b, s3)"
    and n: "Db_SetNonce K x (auNonce auth + 1) (if b then AddRefund (CallNewAccountGas E - TxAuthTupleGas E) s3 else s3) = Inr s4"
    and c: "Db_SetCode K x ?code s4 = Inr (rc, s1)"
    by (auto simp: applyAuthorization_def Let_def)
  note V = validate_acct [OF v assms(2)]
  from e obtain o1 where g: "getStateObject K x s2 = Inr (o1, s3)" by (auto simp: Exist_def)
  note h = get_acct [OF g V(2)]
  have p3: "placed (if b then AddRefund (CallNewAccountGas E - TxAuthTupleGas E) s3 else s3)"
    "acctAt K (if b then AddRefund (CallNewAccountGas E - TxAuthTupleGas E) s3 else s3) = acctAt K s" using h(1,3) V(1) by simp_all
  note N = SetNonce_acct [OF n p3(1)]
  obtain acc0 where acc0: "acctAt K s4 x = Inr (Some acc0)" "acNonce acc0 = auNonce auth + 1" using N(1) by blast
  note C = SetCode_acct [OF c N(2) acc0(1)]
  have "bytesOf ?code = (if auAddress auth = zeroAddress then [] else AddressToDelegation E (auAddress auth))" by (simp add: bytesOf_def)
  moreover have "\<forall>y. y \<noteq> x \<longrightarrow> acctAt K s1 y = acctAt K s y" using C(3) N(3) p3(2) by simp
  ultimately show thesis using V(3) [OF refl] acc0(2) C(1,2) by (auto intro!: that [of x])
qed

text \<open>An authorization whose nonce the account has left behind is refused.\<close>

lemma apply_stale:
  assumes "Authority E auth = Inr x" and "acctAt K s x = Inr (Some acc)" and "acNonce acc \<noteq> auNonce auth" and "placed s"
  shows "\<exists>e s1. applyAuthorization E K auth s = Inr (Some e, s1)"
proof -
  obtain code s2 where c: "Db_GetCode K x (AddAddressToAccessList x s) = Inr (code, s2)" using GetCode_runs [of K _ x] assms(2) by (metis acctAt_marks(1))
  have a2: "acctAt K s2 = acctAt K s" "placed s2" using GetCode_acct [OF c] assms(4) by simp_all
  obtain n s3 where n: "Db_GetNonce K x s2 = Inr (n, s3)" using GetNonce_runs [of K s2 x] a2 assms(2) by metis
  have "n = acNonce acc" using GetNonce_acct(3) [OF n a2(2)] a2(1) assms(2) by auto
  then have "\<exists>e s1. validateAuthorization E K auth s = Inr (Inl e, s1)"
    using assms(1,3) c n by (simp add: validateAuthorization_def Let_def tryE_def)
  then show ?thesis by (auto simp: applyAuthorization_def tryE_def)
qed

section \<open>Results\<close>

text \<open>C25.
  The gas that a message is charged. Let the multiplier of the fee market be between 0 and 1, as its validation
  has it, and the gas limit fit into 63 bits. Then the gas used by the execution, before refunds, is at least
  the intrinsic gas and at most the limit; and the gas charged is at most the limit, at least the part of the
  limit that the multiplier asks for, at least the gas used less the share of it that can be refunded, and no
  more than the larger of the gas used and that part.\<close>

theorem applied_gas_bounds:
  assumes "fee_sdk_laws (vkSdk V)" and "evm_laws E K"
    and "ApplyMessageWithConfig E V K info (Some s) msg commit False cfg txCfg False None = Inr (r, s')"
    and "MinGasMultiplier (ecFeeMarketParams cfg) = Some m" and "0 \<le> m" and "m \<le> dec_one" and "uint (cmGasLimit msg) \<le> MaxInt64"
    and "q = (if IsLondon (chainRules (vkGeth V) info) then RefundQuotientEIP3529 E else RefundQuotient E)"
  shows "\<exists>i. GetEthIntrinsicGas V info msg (cmTo msg = None) = Inr i \<and> i \<le> resMaxUsedGas r \<and> resMaxUsedGas r \<le> cmGasLimit msg \<and>
    resGasUsed r \<le> cmGasLimit msg \<and> uint (cmGasLimit msg) * m div dec_one \<le> uint (resGasUsed r) \<and>
    uint (resMaxUsedGas r) - uint (resMaxUsedGas r) div uint q \<le> uint (resGasUsed r) \<and>
    uint (resGasUsed r) \<le> max (uint (resMaxUsedGas r)) (uint (cmGasLimit msg) * m div dec_one)"
proof -
  obtain i s1 v x s2 where p: "apply_gas_checks E V info msg = Inr i" "apply_run E K info cfg msg (cmGasLimit msg - i) v s1 = Inr (x, s2)"
    "apply_finish E V K info cfg msg commit False txCfg False x s2 = Inr (r, s')" by (rule ApplyMessage_parts [OF assms(3)])
  obtain g where f: "evLeftoverGas x \<le> cmGasLimit msg" "GasToRefund (refund s2) (cmGasLimit msg - evLeftoverGas x) q = Inr g"
    "gas_charged (vkSdk V) (Some m) False (cmGasLimit msg) (evLeftoverGas x + g) (cmGasLimit msg - evLeftoverGas x - g) = Inr (resGasUsed r)"
    "resMaxUsedGas r = cmGasLimit msg - evLeftoverGas x"
    using apply_finish_parts [OF p(3)] assms(4,8) by (metis (no_types, lifting))
  let ?used = "cmGasLimit msg - evLeftoverGas x"
  note i = apply_gas_checks_Inr [OF p(1)]
  have lg: "evLeftoverGas x \<le> cmGasLimit msg - i" by (rule evm_laws.apply_run_gas [OF assms(2) p(2)])
  note G = GasToRefund_Inr [OF f(2)]
  have u: "uint ?used = uint (cmGasLimit msg) - uint (evLeftoverGas x)" "uint (?used - g) = uint ?used - uint g"
    "uint (cmGasLimit msg - i) = uint (cmGasLimit msg) - uint i" using f(1) G(2) i by (simp_all add: word_minus_le)
  have g: "uint g \<le> uint ?used div uint q" using G(1) by (simp add: word_le_def uint_div)
  have tl: "?used - g \<le> cmGasLimit msg" using u uint_nonnegative [of "evLeftoverGas x"] uint_nonnegative [of g] unfolding word_le_def by linarith
  note c = fee_sdk_laws.gas_charged_max [OF assms(1) f(3) assms(5-7) tl]
  have "i \<le> ?used" "?used \<le> cmGasLimit msg" using lg u uint_nonnegative [of "evLeftoverGas x"] unfolding word_le_def by linarith+
  moreover have "uint ?used - uint ?used div uint q \<le> uint (resGasUsed r)" "uint (resGasUsed r) \<le> max (uint ?used) (uint (cmGasLimit msg) * m div dec_one)"
    "uint (cmGasLimit msg) * m div dec_one \<le> uint (resGasUsed r)"
    using c(1) u(2) g uint_nonnegative [of g] by linarith+
  ultimately show ?thesis using i c(2) f(4) by auto
qed

text \<open>C16.
  A failed transaction only pays. When the execution of an Ethereum transaction ends with an error of the
  virtual machine, and no hooks are set, as in this application, the accounts with their nonces, the code, the
  storage, the store of x/stoc and the fee market are as before. Of the balances only one changes with the fee
  collector's: the sender gets the price of the unused gas back, rounded down to a whole Cosmos unit. The
  gas meter of the transaction shows the gas the block's counter was raised to.\<close>

theorem failed_tx_only_pays:
  assumes "vm_env V wfb" and "wfb (coinsOf c)" and "ApplyTransaction E V K None info t g c = (g', Inr (r, c'))" and "Failed r"
  shows "\<exists>cfg msg left. Vm_EVMConfig E V info c = Inr cfg \<and> TransactionToMessage E info t (ecBaseFee cfg) = Inr msg \<and>
    left = (if resGasUsed r < cmGasLimit msg then cmGasLimit msg - resGasUsed r else 0) \<and>
    evmL V c' = a_send (moduleOf V feeCollector) (cmFrom msg) (CM * (uint left * cmGasPrice msg div CM)) (evmL V c) \<and>
    accounts c' = accounts c \<and> vmCodeHash (vmOf c') = vmCodeHash (vmOf c) \<and> vmCode (vmOf c') = vmCode (vmOf c) \<and>
    vmStorage (vmOf c') = vmStorage (vmOf c) \<and> store c' = store c \<and> fmOf c' = fmOf c \<and>
    vmTxIndex (vmOf c') = vmTxIndex (vmOf c) + 1 \<and> meterConsumed g' = vmGasUsed (vmOf c')"
proof -
  obtain cfg msg x s where a: "Vm_EVMConfig E V info c = Inr cfg" "TransactionToMessage E info t (ecBaseFee cfg) = Inr msg"
    "ApplyMessageWithConfig E V K info (Some (Db_New (CacheContext c) (Vm_TxConfig (vmOf c) (TxHash t)))) msg True False cfg
      (Vm_TxConfig (vmOf c) (TxHash t)) False None = Inr (x, s)"
    "apply_settle E V None info t msg (Vm_TxConfig (vmOf c) (TxHash t)) g x (sdCtx s) c = Inr (r, meterConsumed g', c')"
    by (rule ApplyTransaction_parts [OF assms(3)])
  obtain c1 c2 where b: "r = x" "c1 = (if Failed x then c else writeContext (sdCtx s) c)"
    "RefundGas V msg (if resGasUsed x < cmGasLimit msg then cmGasLimit msg - resGasUsed x else 0) (eciDenom (vkCoin V)) c1 = Inr c2"
    "c' = setVm (vmOf c') c2" "vmGasUsed (vmOf c') = meterConsumed g'" "vmTxIndex (vmOf c') = cfgTxIndex (Vm_TxConfig (vmOf c) (TxHash t)) + 1"
    "vmCodeHash (vmOf c') = vmCodeHash (vmOf c2)" "vmCode (vmOf c') = vmCode (vmOf c2)" "vmStorage (vmOf c') = vmStorage (vmOf c2)"
    by (rule apply_settle_parts [OF a(4)])
  have "c1 = c" using b(1,2) assms(4) by simp
  note R = b(3) [unfolded this]
  have k: "coinsOf c' = coinsOf c2" "accounts c' = accounts c2" "store c' = store c2" "fmOf c' = fmOf c2" by (subst b(4), simp)+
  from vm_env.RefundGas_ledger(1) [OF assms(1,2) R] RefundGas_frame [OF R] a(1,2) b(1,5-9) k show ?thesis
    by (simp add: Vm_TxConfig_def GetTxIndexTransient_def)
qed

lemma apply_run_parts:
  assumes "apply_run E K info cfg msg gas v s = Inr (y, s')"
  shows "case cmTo msg of
      None \<Rightarrow> \<exists>s1 s2. Db_SetNonce K (cmFrom msg) (cmNonce msg) s = Inr s1 \<and>
        evCreate E info cfg msg (cmFrom msg) (cmData msg) gas v s1 = Inr (y, s2) \<and> Db_SetNonce K (cmFrom msg) (cmNonce msg + 1) s2 = Inr s'
    | Some to \<Rightarrow> \<exists>s1 code s2. applyAuthorizations E K (cmSetCodeAuthorizations msg) s = Inr s1 \<and> Db_GetCode K to s1 = Inr (code, s2) \<and>
        evCall E info cfg msg (cmFrom msg) to (cmData msg) gas v
          (if ParseDelegation (sk_geth K) (bytesOf code) then AddAddressToAccessList (DelegationTarget E (bytesOf code)) s2 else s2) = Inr (y, s')"
  using assms by (auto simp: apply_run_def Let_def split: option.splits split del: if_split)

lemma apply_finish_response:
  assumes "apply_finish E V K info cfg msg True False txCfg internal y s = Inr (r, s')"
  shows "Db_Commit K s = Inr s'" and "resLogs r = logs s'" and "resHash r = cfgTxHash txCfg"
    and "\<not> Failed r \<Longrightarrow> evErr y \<in> {None, Some []} \<and> resRet r = evRet y"
  using assms unfolding apply_finish_def
  by (auto simp: Let_def Failed_def ErrExecutionReverted_def split: if_splits option.splits)

text \<open>C17.
  A successful transaction leaves what its execution wrote. When the execution of an Ethereum
  transaction succeeds, and no hooks are set, the interpreter was run on the prepared database over a cache of
  the state, with the gas limit less the intrinsic gas and the value of the message: a creation between the two writes of the sender's nonce, or
  a call after the authorizations were applied and the delegation target of the callee entered into the access list. The run ended without an
  error, the database it left was committed, and the response carries its return value, the logs of
  the database and the hash of the transaction. Accounts, code, storage and the store of x/stoc after the
  transaction are those of this commit, and the balances are those of the commit with the price of the unused
  gas moved from the fee collector to the sender, rounded down to a whole Cosmos unit.\<close>

theorem applied_tx_commits:
  assumes "vm_env V wfb" and "evm_laws E K" and "ApplyTransaction E V K None info t g c = (g', Inr (r, c'))" and "\<not> Failed r"
  shows "\<exists>cfg msg i v y left s0 s s1. Vm_EVMConfig E V info c = Inr cfg \<and> TransactionToMessage E info t (ecBaseFee cfg) = Inr msg \<and>
    GetEthIntrinsicGas V info msg (cmTo msg = None) = Inr i \<and> i \<le> cmGasLimit msg \<and> Uint256FromBigInt (cmValue msg) = Inr v \<and>
    left = (if resGasUsed r < cmGasLimit msg then cmGasLimit msg - resGasUsed r else 0) \<and>
    Prepare (evRules E info) (cmFrom msg) zeroAddress (cmTo msg) (ActivePrecompiles E info) (AccessTuples E (cmAccessList msg))
      (Db_New (CacheContext c) (Vm_TxConfig (vmOf c) (TxHash t))) = Inr s0 \<and>
    (case cmTo msg of
       None \<Rightarrow> \<exists>s2 s3. Db_SetNonce K (cmFrom msg) (cmNonce msg) s0 = Inr s2 \<and>
         evCreate E info cfg msg (cmFrom msg) (cmData msg) (cmGasLimit msg - i) v s2 = Inr (y, s3) \<and> Db_SetNonce K (cmFrom msg) (cmNonce msg + 1) s3 = Inr s
     | Some to \<Rightarrow> \<exists>s2 code s3. applyAuthorizations E K (cmSetCodeAuthorizations msg) s0 = Inr s2 \<and> Db_GetCode K to s2 = Inr (code, s3) \<and>
         evCall E info cfg msg (cmFrom msg) to (cmData msg) (cmGasLimit msg - i) v
           (if ParseDelegation (sk_geth K) (bytesOf code) then AddAddressToAccessList (DelegationTarget E (bytesOf code)) s3 else s3) = Inr (y, s)) \<and>
    evErr y \<in> {None, Some []} \<and> (db_step K)\<^sup>*\<^sup>* s0 s \<and> Db_Commit K s = Inr s1 \<and>
    resRet r = evRet y \<and> resLogs r = logs s1 \<and> resHash r = TxHash t \<and>
    accounts c' = accounts (sdCtx s1) \<and> vmCodeHash (vmOf c') = vmCodeHash (vmOf (sdCtx s1)) \<and> vmCode (vmOf c') = vmCode (vmOf (sdCtx s1)) \<and>
    vmStorage (vmOf c') = vmStorage (vmOf (sdCtx s1)) \<and> store c' = store (sdCtx s1) \<and>
    (wfb (coinsOf (sdCtx s1)) \<longrightarrow>
      evmL V c' = a_send (moduleOf V feeCollector) (cmFrom msg) (CM * (uint left * cmGasPrice msg div CM)) (evmL V (sdCtx s1)))"
proof -
  let ?txc = "Vm_TxConfig (vmOf c) (TxHash t)"
  obtain cfg msg x s1 where a: "Vm_EVMConfig E V info c = Inr cfg" "TransactionToMessage E info t (ecBaseFee cfg) = Inr msg"
    "ApplyMessageWithConfig E V K info (Some (Db_New (CacheContext c) ?txc)) msg True False cfg ?txc False None = Inr (x, s1)"
    "apply_settle E V None info t msg ?txc g x (sdCtx s1) c = Inr (r, meterConsumed g', c')"
    by (rule ApplyTransaction_parts [OF assms(3)])
  obtain i s0 v y s where p: "apply_gas_checks E V info msg = Inr i"
    "Prepare (evRules E info) (cmFrom msg) zeroAddress (cmTo msg) (ActivePrecompiles E info) (AccessTuples E (cmAccessList msg))
      (Db_New (CacheContext c) ?txc) = Inr s0" "Uint256FromBigInt (cmValue msg) = Inr v"
    "apply_run E K info cfg msg (cmGasLimit msg - i) v s0 = Inr (y, s)"
    "apply_finish E V K info cfg msg True False ?txc False y s = Inr (x, s1)" by (rule ApplyMessage_parts [OF a(3)])
  obtain c1 c2 where b: "r = x" "c1 = (if Failed x then c else writeContext (sdCtx s1) c)"
    "RefundGas V msg (if resGasUsed x < cmGasLimit msg then cmGasLimit msg - resGasUsed x else 0) (eciDenom (vkCoin V)) c1 = Inr c2"
    "c' = setVm (vmOf c') c2"
    "vmCodeHash (vmOf c') = vmCodeHash (vmOf c2)" "vmCode (vmOf c') = vmCode (vmOf c2)" "vmStorage (vmOf c') = vmStorage (vmOf c2)"
    by (rule apply_settle_parts [OF a(4)])
  note R = apply_finish_response [OF p(5)]
  have c1: "bank c1 = bank (sdCtx s1)" "store c1 = store (sdCtx s1)" using b(1,2) assms(4) by (simp_all add: writeContext_def)
  have k: "coinsOf c' = coinsOf c2" "accounts c' = accounts c2" "store c' = store c2" by (subst b(4), simp)+
  note F = RefundGas_frame [OF b(3)]
  have L: "wfb (coinsOf (sdCtx s1)) \<longrightarrow> evmL V c' = a_send (moduleOf V feeCollector) (cmFrom msg)
      (CM * (uint (if resGasUsed r < cmGasLimit msg then cmGasLimit msg - resGasUsed r else 0) * cmGasPrice msg div CM)) (evmL V (sdCtx s1))"
    using vm_env.RefundGas_ledger(1) [OF assms(1) _ b(3)] c1(1) k(1) b(1) by simp
  have W: "accounts c' = accounts (sdCtx s1)" "vmCodeHash (vmOf c') = vmCodeHash (vmOf (sdCtx s1))" "vmCode (vmOf c') = vmCode (vmOf (sdCtx s1))"
    "vmStorage (vmOf c') = vmStorage (vmOf (sdCtx s1))" "store c' = store (sdCtx s1)" using F b(5-7) c1 k(2,3) by simp_all
  have O: "evErr y \<in> {None, Some []}" "resRet r = evRet y" "resLogs r = logs s1" "resHash r = TxHash t"
    using R b(1) assms(4) by (auto simp: Vm_TxConfig_def)
  have G: "GetEthIntrinsicGas V info msg (cmTo msg = None) = Inr i" "i \<le> cmGasLimit msg" using apply_gas_checks_Inr [OF p(1)] by auto
  show ?thesis
    by (intro exI [of _ cfg] exI [of _ msg] exI [of _ i] exI [of _ v] exI [of _ y] exI [of _ "if resGasUsed r < cmGasLimit msg then cmGasLimit msg - resGasUsed r else 0"]
        exI [of _ s0] exI [of _ s] exI [of _ s1] conjI a(1,2) G p(2,3) apply_run_parts [OF p(4)] refl O W L R(1) evm_laws.apply_run_steps [OF assms(2) p(4)])
qed

text \<open>C24.
  A delegation of EIP-7702 is bound to this chain and used once. In every state of the database that the virtual
  machine reaches, an authorization is applied only if it names the identifier of this chain, which is not the
  wildcard 0, and the nonce of the account whose signature it carries. It then raises the nonce of this
  account by one, sets the hash of its code to that of the delegation and changes no other account; applied
  again, it is refused. An authorization that is refused changes no account.\<close>

theorem authorization_once:
  assumes "statedb_laws K" and "Prepare rules sender coinbase dst precompiles list (Db_New c cfg) = Inr s0" and "(db_step K)\<^sup>*\<^sup>* s0 s"
    and "applyAuthorization E K auth s = Inr (err, s1)"
  shows "if err \<noteq> None then acctAt K s1 = acctAt K s
    else \<exists>x acc acc1. auChainID auth = evChainID E \<and> auChainID auth \<noteq> 0 \<and> Authority E auth = Inr x \<and>
      acctAt K s x = Inr acc \<and> auNonce auth = (case acc of None \<Rightarrow> 0 | Some a \<Rightarrow> acNonce a) \<and>
      acctAt K s1 x = Inr (Some acc1) \<and> acNonce acc1 = auNonce auth + 1 \<and>
      acCodeHash acc1 = Keccak256Hash K (if auAddress auth = zeroAddress then [] else AddressToDelegation E (auAddress auth)) \<and>
      (\<forall>y. y \<noteq> x \<longrightarrow> acctAt K s1 y = acctAt K s y) \<and> (\<exists>e s2. applyAuthorization E K auth s1 = Inr (Some e, s2))"
proof -
  have "db_ok K s" by (rule prepared_ok [OF assms(1-3)])
  then have p: "placed s" by (auto simp: db_ok_def core_ok_def intro: placed_ok)
  show ?thesis
  proof (cases err)
    case None
    obtain x acc acc1 where a: "auChainID auth = evChainID E" "auChainID auth \<noteq> 0" "Authority E auth = Inr x" "acctAt K s x = Inr acc"
      "auNonce auth = (case acc of None \<Rightarrow> 0 | Some a \<Rightarrow> acNonce a)" "acctAt K s1 x = Inr (Some acc1)" "acNonce acc1 = auNonce auth + 1"
      "acCodeHash acc1 = Keccak256Hash K (if auAddress auth = zeroAddress then [] else AddressToDelegation E (auAddress auth))"
      "\<forall>y. y \<noteq> x \<longrightarrow> acctAt K s1 y = acctAt K s y" "placed s1" by (rule apply_acct [OF assms(4) [unfolded None] p])
    have "acNonce acc1 \<noteq> auNonce auth" using a(7) by simp
    then obtain e s2 where st: "applyAuthorization E K auth s1 = Inr (Some e, s2)" using apply_stale [OF a(3,6) _ a(10)] by blast
    have ne: "\<not> err \<noteq> None" using None by simp
    show ?thesis unfolding if_not_P [OF ne] by (intro exI conjI) (rule a st)+
  next
    case (Some e)
    obtain r0 s2 where v: "validateAuthorization E K auth s = Inr (r0, s2)" using assms(4) by (auto simp: applyAuthorization_def)
    with assms(4) Some have "validateAuthorization E K auth s = Inr (Inl e, s1)" by (cases r0) (auto simp: applyAuthorization_def Let_def)
    from validate_acct(1) [OF this p] Some show ?thesis by simp
  qed
qed

text \<open>A creation uses up its nonce. Let the ante handler have left the sender of a contract creation with the
  sequence after the nonce of the message. After the transaction, whether the code of the contract ran or
  failed, and whatever it did to the nonce of its creator, the sequence of the sender is that one again, unless
  the code destroyed the account of its creator.\<close>

theorem creation_uses_nonce:
  fixes V :: "('k, 'm, 'acc) VmKeeper" and c :: "('s, 'k, 'm) vctx"
  assumes "account_laws (vkAccounts V)" and "statedb_laws (vm_skeeper V keccak :: ('s, ('k, 'm) sdk_state) SKeeper)" and "evm_laws E (vm_skeeper V keccak)"
    and "ApplyTransaction E V (vm_skeeper V keccak) None info t g c = (g', Inr (r, c'))"
    and "Vm_EVMConfig E V info c = Inr cfg" and "TransactionToMessage E info t (ecBaseFee cfg) = Inr msg" and "cmTo msg = None"
    and "GetNonce V c (cmFrom msg) = cmNonce msg + 1"
  shows "GetNonce V c' (cmFrom msg) = cmNonce msg + 1 \<or> ak_GetAccount (vkAccounts V) (accounts c') (cmFrom msg) = None"
proof -
  let ?K = "vm_skeeper V keccak :: ('s, ('k, 'm) sdk_state) SKeeper" and ?txc = "Vm_TxConfig (vmOf c) (TxHash t)"
  obtain cfg' msg' x s1 where a: "Vm_EVMConfig E V info c = Inr cfg'" "TransactionToMessage E info t (ecBaseFee cfg') = Inr msg'"
    "ApplyMessageWithConfig E V ?K info (Some (Db_New (CacheContext c) ?txc)) msg' True False cfg' ?txc False None = Inr (x, s1)"
    "apply_settle E V None info t msg' ?txc g x (sdCtx s1) c = Inr (r, meterConsumed g', c')"
    by (rule ApplyTransaction_parts [OF assms(4)])
  have m: "cfg' = cfg" "msg' = msg" using a(1,2) assms(5,6) by auto
  obtain c1 c2 where b: "c1 = (if Failed x then c else writeContext (sdCtx s1) c)"
    "RefundGas V msg (if resGasUsed x < cmGasLimit msg then cmGasLimit msg - resGasUsed x else 0) (eciDenom (vkCoin V)) c1 = Inr c2" "c' = setVm (vmOf c') c2"
    by (rule apply_settle_parts [OF a(4) [unfolded m]])
  have k: "accounts c' = accounts c1" using RefundGas_frame [OF b(2)] by (subst b(3)) simp
  show ?thesis
  proof (cases "Failed x")
    case True
    then show ?thesis using k b(1) assms(8) by (simp add: GetNonce_def)
  next
    case False
    obtain i s0 v y s where p: "Prepare (evRules E info) (cmFrom msg) zeroAddress (cmTo msg) (ActivePrecompiles E info) (AccessTuples E (cmAccessList msg))
        (Db_New (CacheContext c) ?txc) = Inr s0" "apply_run E ?K info cfg msg (cmGasLimit msg - i) v s0 = Inr (y, s)"
      "apply_finish E V ?K info cfg msg True False ?txc False y s = Inr (x, s1)" by (rule ApplyMessage_parts [OF a(3) [unfolded m]])
    have commit: "Db_Commit ?K s = Inr s1" by (rule apply_finish_parts [OF p(3)]) simp
    from p(2) assms(7) obtain s2 s3 where o: "Db_SetNonce ?K (cmFrom msg) (cmNonce msg) s0 = Inr s2"
      "evCreate E info cfg msg (cmFrom msg) (cmData msg) (cmGasLimit msg - i) v s2 = Inr (y, s3)" "Db_SetNonce ?K (cmFrom msg) (cmNonce msg + 1) s3 = Inr s"
      by (auto simp: apply_run_def)
    have "(db_step ?K)\<^sup>*\<^sup>* s0 s3" using evm_laws.op_steps(1) [OF assms(3) o(1)] evm_laws.Create_steps [OF assms(3) o(2)] by (rule rtranclp_trans)
    from prepared_ok [OF assms(2) p(1) this] have pl: "placed s3" by (auto simp: db_ok_def core_ok_def intro: placed_ok)
    obtain obj where obj: "stateObjects s (cmFrom msg) = Some obj" using SetNonce_dirty [OF o(3) pl] by auto
    have n: "acNonce (soAccount obj) = cmNonce msg + 1" using SetNonce_acct(1) [OF o(3) pl] obj by (simp add: acctAt_def)
    have d: "map_of (dirties s) (cmFrom msg) \<noteq> None" using SetNonce_dirty [OF o(3) pl] by blast
    from Commit_effect(1) [OF assms(1,2) p(1) evm_laws.apply_run_steps [OF assms(3) p(2)] commit, rule_format, OF d obj] n
    have "GetNonce V (sdCtx s1) (cmFrom msg) = cmNonce msg + 1 \<or> ak_GetAccount (vkAccounts V) (accounts (sdCtx s1)) (cmFrom msg) = None"
      by (auto split: if_splits)
    moreover have "accounts c1 = accounts (sdCtx s1)" using b(1) False by (simp add: writeContext_def)
    ultimately show ?thesis using k by (simp add: GetNonce_def)
  qed
qed

section \<open>A concrete interpreter\<close>

text \<open>Every call is reverted and every creation succeeds without doing anything.\<close>

definition ref_evm :: "(unit, (ledger, addr \<Rightarrow> (u64 \<times> bool) option) sdk_state) evm_api" where
  "ref_evm = \<lparr>evRules = (\<lambda>_. demo_rules), evIsPrague = (\<lambda>_. False), evChainID = 7, CallNewAccountGas = 25000, TxAuthTupleGas = 12500,
     RefundQuotient = 2, RefundQuotientEIP3529 = 5, ActivePrecompiles = (\<lambda>_. []), AccessTuples = (\<lambda>_. []),
     evAuthorization = (\<lambda>_. \<lparr>auChainID = 7, auAddress = ''bob'', auNonce = 0, auSignature = []\<rparr>), Authority = (\<lambda>_. Inr ''carol''),
     AddressToDelegation = (\<lambda>a. ''ef'' @ a), DelegationTarget = (\<lambda>_. ''bob''), FloorDataGas = (\<lambda>_. Inr 21000), CreateAddress = (\<lambda>_ _. ''new''),
     TransactionToMessage = (\<lambda>_ t b. Inr (AsMessage ref_geth ''alice'' t b)), Signer_Sender = (\<lambda>_ _. Inr ''alice''), evIsLondon = (\<lambda>_. True),
     evValidator = (\<lambda>_. Inr ''val''),
     evCreate = (\<lambda>_ _ _ _ _ gas _ s. Inr (\<lparr>evRet = [], evLeftoverGas = gas, evErr = None, evReturnData = []\<rparr>, s)),
     evCall = (\<lambda>_ _ _ _ _ _ gas _ s. Inr (\<lparr>evRet = [], evLeftoverGas = gas, evErr = Some ErrExecutionReverted, evReturnData = ''why''\<rparr>, s))\<rparr>"

interpretation refexec: evm_laws ref_evm ref_sk
  by unfold_locales (auto simp: ref_evm_def)

definition exec_state :: "(unit, ledger, addr \<Rightarrow> (u64 \<times> bool) option) vctx" where
  "exec_state = vm_demo\<lparr>bank := (bank vm_demo)\<lparr>sdkBank := empty_ledger\<lparr>lgBal := (\<lambda>a d. if d = ''ustoc'' \<and> (a = ''alice'' \<or> a = ''modulefee_collector'') then 100 else 0)\<rparr>,
     sdkAccounts := (\<lambda>x. if x = ''alice'' then Some (8, False) else None)\<rparr>\<rparr>"

definition exec_call :: eth_tx where "exec_call = eth_demo\<lparr>TxGas := 42000\<rparr>"
definition exec_create :: eth_tx where "exec_create = eth_demo\<lparr>TxGas := 42000, TxTo := None\<rparr>"

lemma exec_state_wf: "ledger_ok (coinsOf exec_state)"
  by (simp add: exec_state_def ledger_ok_def empty_ledger_def)

lemma exec_call_runs:
  "case ApplyTransaction ref_evm ref_vm ref_sk None plain_ctx exec_call \<lparr>meterConsumed = 0, meterLimit = 42000\<rparr> exec_state of
     (g, Inl _) \<Rightarrow> False | (g, Inr (r, c)) \<Rightarrow> resVmError r = ErrExecutionReverted \<and> resGasUsed r = 21000"
  by code_simp

lemma exec_create_runs:
  "case ApplyTransaction ref_evm ref_vm ref_sk None plain_ctx exec_create \<lparr>meterConsumed = 0, meterLimit = 42000\<rparr> exec_state of
     (g, Inl _) \<Rightarrow> False | (g, Inr (r, c)) \<Rightarrow> resVmError r = [] \<and> resGasUsed r = 21000"
  by code_simp

lemma exec_parts:
  obtains g r c where "ApplyTransaction ref_evm ref_vm ref_sk None plain_ctx exec_call \<lparr>meterConsumed = 0, meterLimit = 42000\<rparr> exec_state = (g, Inr (r, c))"
    and "Failed r" and "resGasUsed r = 21000"
proof -
  obtain g q where r: "ApplyTransaction ref_evm ref_vm ref_sk None plain_ctx exec_call \<lparr>meterConsumed = 0, meterLimit = 42000\<rparr> exec_state = (g, q)" by fastforce
  with exec_call_runs obtain r c where "q = Inr (r, c)" "resVmError r = ErrExecutionReverted" "resGasUsed r = 21000" by (auto split: sum.splits)
  with r show thesis using that by (auto simp: Failed_def ErrExecutionReverted_def)
qed

lemma exec_create_parts:
  obtains g r c where "ApplyTransaction ref_evm ref_vm ref_sk None plain_ctx exec_create \<lparr>meterConsumed = 0, meterLimit = 42000\<rparr> exec_state = (g, Inr (r, c))"
    and "\<not> Failed r"
proof -
  obtain g q where r: "ApplyTransaction ref_evm ref_vm ref_sk None plain_ctx exec_create \<lparr>meterConsumed = 0, meterLimit = 42000\<rparr> exec_state = (g, q)" by fastforce
  with exec_create_runs obtain r c where "q = Inr (r, c)" "resVmError r = []" by (auto split: sum.splits)
  with r show thesis using that by (auto simp: Failed_def)
qed

lemma exec_config: "map_sum id ecBaseFee (Vm_EVMConfig ref_evm ref_vm plain_ctx exec_state) = Inr (Some 1000000000)"
  by code_simp

lemma exec_message:
  assumes "Vm_EVMConfig ref_evm ref_vm plain_ctx exec_state = Inr cfg" and "TransactionToMessage ref_evm plain_ctx t (ecBaseFee cfg) = Inr msg"
  shows "msg = AsMessage ref_geth ''alice'' t (Some 1000000000)"
  using assms exec_config by (simp add: ref_evm_def)

theorem failed_tx_only_pays_witness:
  "\<exists>g r c. ApplyTransaction ref_evm ref_vm ref_sk None plain_ctx exec_call \<lparr>meterConsumed = 0, meterLimit = 42000\<rparr> exec_state = (g, Inr (r, c)) \<and> Failed r \<and>
     evmL ref_vm c = a_send (moduleOf ref_vm feeCollector) ''alice'' 31000000000000 (evmL ref_vm exec_state) \<and> accounts c = accounts exec_state"
proof -
  obtain g r c where run: "ApplyTransaction ref_evm ref_vm ref_sk None plain_ctx exec_call \<lparr>meterConsumed = 0, meterLimit = 42000\<rparr> exec_state = (g, Inr (r, c))"
    and f: "Failed r" "resGasUsed r = 21000" by (rule exec_parts)
  from failed_tx_only_pays [OF refvm.vm_env_axioms exec_state_wf run f(1)] obtain cfg msg left where
    m: "Vm_EVMConfig ref_evm ref_vm plain_ctx exec_state = Inr cfg" "TransactionToMessage ref_evm plain_ctx exec_call (ecBaseFee cfg) = Inr msg"
    "left = (if resGasUsed r < cmGasLimit msg then cmGasLimit msg - resGasUsed r else 0)"
    "evmL ref_vm c = a_send (moduleOf ref_vm feeCollector) (cmFrom msg) (CM * (uint left * cmGasPrice msg div CM)) (evmL ref_vm exec_state)"
    "accounts c = accounts exec_state" by blast
  have "msg = AsMessage ref_geth ''alice'' exec_call (Some 1000000000)" by (rule exec_message [OF m(1,2)])
  then have "cmFrom msg = ''alice''" "left = 21000" "cmGasPrice msg = 1500000000" using m(3) f(2) by (simp_all add: AsMessage_def exec_call_def eth_demo_def)
  with m(4) have "evmL ref_vm c = a_send (moduleOf ref_vm feeCollector) ''alice'' 31000000000000 (evmL ref_vm exec_state)" by simp
  with run f(1) m(5) show ?thesis by blast
qed

theorem applied_tx_commits_witness:
  "\<exists>g r c s s1. ApplyTransaction ref_evm ref_vm ref_sk None plain_ctx exec_create \<lparr>meterConsumed = 0, meterLimit = 42000\<rparr> exec_state = (g, Inr (r, c)) \<and>
     Db_Commit ref_sk s = Inr s1 \<and> accounts c = accounts (sdCtx s1)"
proof -
  obtain g r c where run: "ApplyTransaction ref_evm ref_vm ref_sk None plain_ctx exec_create \<lparr>meterConsumed = 0, meterLimit = 42000\<rparr> exec_state = (g, Inr (r, c))"
    and f: "\<not> Failed r" by (rule exec_create_parts)
  from applied_tx_commits [OF refvm.vm_env_axioms refexec.evm_laws_axioms run f] run show ?thesis by blast
qed

theorem creation_uses_nonce_witness:
  "\<exists>g r c. ApplyTransaction ref_evm ref_vm (vm_skeeper ref_vm ref_keccak) None plain_ctx exec_create \<lparr>meterConsumed = 0, meterLimit = 42000\<rparr> exec_state = (g, Inr (r, c)) \<and>
     (GetNonce ref_vm c ''alice'' = 8 \<or> ak_GetAccount ref_accounts (accounts c) ''alice'' = None)"
proof -
  obtain g r c where run: "ApplyTransaction ref_evm ref_vm ref_sk None plain_ctx exec_create \<lparr>meterConsumed = 0, meterLimit = 42000\<rparr> exec_state = (g, Inr (r, c))"
    by (rule exec_create_parts)
  obtain cfg where cfg: "Vm_EVMConfig ref_evm ref_vm plain_ctx exec_state = Inr cfg" using exec_config by (cases "Vm_EVMConfig ref_evm ref_vm plain_ctx exec_state") auto
  obtain msg where msg: "TransactionToMessage ref_evm plain_ctx exec_create (ecBaseFee cfg) = Inr msg" by (simp add: ref_evm_def)
  have eq: "msg = AsMessage ref_geth ''alice'' exec_create (Some 1000000000)" by (rule exec_message [OF cfg msg])
  have m: "cmTo msg = None" "GetNonce ref_vm exec_state (cmFrom msg) = cmNonce msg + 1" "cmFrom msg = ''alice''" "cmNonce msg = 7"
    by (simp_all add: eq AsMessage_def exec_create_def eth_demo_def GetNonce_def exec_state_def ref_accounts_def vm_demo_def)
  have laws: "account_laws (vkAccounts ref_vm)" "statedb_laws (vm_skeeper ref_vm ref_keccak :: (unit, (ledger, addr \<Rightarrow> (u64 \<times> bool) option) sdk_state) SKeeper)"
    "evm_laws ref_evm (vm_skeeper ref_vm ref_keccak)"
    using refvm.account_laws_axioms refsdb.statedb_laws_axioms refexec.evm_laws_axioms by (simp_all add: ref_sk_def)
  from creation_uses_nonce [OF laws run [unfolded ref_sk_def] cfg msg m(1,2)] run m(3,4) show ?thesis by (auto simp: ref_sk_def)
qed

theorem authorization_once_witness:
  "\<exists>s acc. applyAuthorization ref_evm ref_sk \<lparr>auChainID = 7, auAddress = ''bob'', auNonce = 0, auSignature = []\<rparr> (Db_New vm_demo demo_cfg) = Inr (None, s) \<and>
     acctAt ref_sk s ''carol'' = Inr (Some acc) \<and> acNonce acc = 1 \<and> acCodeHash acc = ref_keccak ''efbob''"
proof -
  let ?a = "\<lparr>auChainID = 7, auAddress = ''bob'', auNonce = 0, auSignature = []\<rparr>"
  have "case applyAuthorization ref_evm ref_sk ?a (Db_New vm_demo demo_cfg) of Inl _ \<Rightarrow> False | Inr (e, s) \<Rightarrow> e = None" by code_simp
  then obtain s where run: "applyAuthorization ref_evm ref_sk ?a (Db_New vm_demo demo_cfg) = Inr (None, s)" by (auto split: sum.splits)
  have k: "Authority ref_evm ?a = Inr ''carol''" "AddressToDelegation ref_evm ''bob'' = ''efbob''" "Keccak256Hash ref_sk = ref_keccak" "''bob'' \<noteq> zeroAddress"
    by (simp_all add: ref_evm_def ref_sk_def zeroAddress_def numeral_eq_Suc)
  from authorization_once [OF refsdb.statedb_laws_axioms demo_prepare rtranclp.rtrancl_refl run] run k show ?thesis by auto
qed

theorem applied_gas_bounds_witness:
  "\<exists>r s. ApplyMessageWithConfig ref_evm ref_vm ref_sk plain_ctx (Some (Db_New exec_state demo_cfg)) (AsMessage ref_geth ''alice'' exec_call (Some 1000000000)) True False
     \<lparr>ecFeeMarketParams = v5_params, ecCoinBase = ''val'', ecBaseFee = Some 1000000000\<rparr> demo_cfg False None = Inr (r, s) \<and>
     resGasUsed r \<le> 42000 \<and> 21000 \<le> uint (resGasUsed r)"
proof -
  let ?cfg = "\<lparr>ecFeeMarketParams = v5_params, ecCoinBase = ''val'', ecBaseFee = Some 1000000000\<rparr>" and ?msg = "AsMessage ref_geth ''alice'' exec_call (Some 1000000000)"
  have "\<not> isl (ApplyMessageWithConfig ref_evm ref_vm ref_sk plain_ctx (Some (Db_New exec_state demo_cfg)) ?msg True False ?cfg demo_cfg False None)" by code_simp
  then obtain r s where run: "ApplyMessageWithConfig ref_evm ref_vm ref_sk plain_ctx (Some (Db_New exec_state demo_cfg)) ?msg True False ?cfg demo_cfg False None = Inr (r, s)"
    using Inr_of by fastforce
  have m: "MinGasMultiplier (ecFeeMarketParams ?cfg) = Some (dec_one div 2)" "0 \<le> dec_one div 2" "dec_one div 2 \<le> dec_one" "uint (cmGasLimit ?msg) \<le> MaxInt64"
    and l: "cmGasLimit ?msg = 42000"
    by (simp_all add: v5_params_def DefaultParams_def AsMessage_def exec_call_def eth_demo_def MaxInt64_def)
  have laws: "fee_sdk_laws (vkSdk ref_vm)" by (simp add: reffee.fee_sdk_laws_axioms)
  from applied_gas_bounds [OF laws refexec.evm_laws_axioms run m refl] l have "resGasUsed r \<le> 42000" "21000 \<le> uint (resGasUsed r)" by auto
  with run show ?thesis by blast
qed

end
