(* ===== verification/Token_Query.thy ===== *)
theory Token_Query
  imports Token_Genesis "HOL-Library.Sublist"
begin

text \<open>
  The gRPC queries of the token module (\<^verbatim>\<open>x/stoc/keeper/query_token.go\<close>, \<^verbatim>\<open>query_params.go\<close>). Requests
  are pointers, so a missing one is \<open>None\<close>. Two things come from the SDK and are parameters:
  \<open>Paginate\<close>, which walks a store under a page request, and the list of balances the bank's iterator
  visits for an account, of which \<open>balance_loop\<close> reads no more than it needs. The locale \<open>paginator\<close>
  states what the module relies on: a page shows entries of the store, none twice, and no more than asked.
\<close>

section \<open>Requests and responses\<close>

record page_request =
  prKey :: string
  prOffset :: u64
  prLimit :: u64
  prCountTotal :: bool
  prReverse :: bool

record page_response =
  pgNextKey :: string
  pgTotal :: u64

record BalanceWithMetadata =
  bwDenom :: denom
  bwAmount :: string
  bwMetadata :: "Token option"

definition status_Error :: "string \<Rightarrow> string \<Rightarrow> go_err" where
  "status_Error code desc = Errorf (''rpc error: code = '' @ code @ '' desc = '' @ desc)"

definition MaxQueryLimit64 :: u64 where "MaxQueryLimit64 = 100"
definition DefaultQueryLimit :: u64 where "DefaultQueryLimit = 20"
definition MaxBalancesResult :: nat where "MaxBalancesResult = 200"

type_synonym paging = "(string \<times> string) list \<Rightarrow> page_request \<Rightarrow> ((string \<times> string) list \<times> page_response) res"

section \<open>Handlers\<close>

definition TokensBySymbol :: "('s, 'b, 'x) Keeper_scheme \<Rightarrow> ('s, 'b) ctx \<Rightarrow> string option \<Rightarrow> Token list res" where
  "TokensBySymbol k c req = (case req of
     None \<Rightarrow> Inl (status_Error ''InvalidArgument'' ''invalid request'')
   | Some symbol \<Rightarrow>
       (let tokens = GetTokensBySymbol k c symbol in
        if length tokens = 0 then Inl (status_Error ''NotFound'' (''no tokens with symbol '' @ symbol))
        else Inr tokens))"

definition Query_Token :: "('s, 'b, 'x) Keeper_scheme \<Rightarrow> ('s, 'b) ctx \<Rightarrow> denom option \<Rightarrow> Token res" where
  "Query_Token k c req = (case req of
     None \<Rightarrow> Inl (status_Error ''InvalidArgument'' ''invalid request'')
   | Some minimalDenom \<Rightarrow>
       if minimalDenom = [] then Inl (status_Error ''InvalidArgument'' ''minimal_denom is required'')
       else case GetToken k c minimalDenom of
         None \<Rightarrow> Inl (status_Error ''NotFound'' (''token not found: '' @ minimalDenom))
       | Some token \<Rightarrow> Inr token)"

definition clamp_page :: "page_request option \<Rightarrow> page_request" where
  "clamp_page pagination = (case pagination of
     None \<Rightarrow> \<lparr>prKey = [], prOffset = 0, prLimit = DefaultQueryLimit, prCountTotal = False, prReverse = False\<rparr>
   | Some p \<Rightarrow>
       (let p1 = (if prLimit p = 0 then p\<lparr>prLimit := DefaultQueryLimit\<rparr> else p)
        in if MaxQueryLimit64 < prLimit p1 then p1\<lparr>prLimit := MaxQueryLimit64\<rparr> else p1))"

definition token_view :: "('s, 'b, 'x) Keeper_scheme \<Rightarrow> ('s, 'b) ctx \<Rightarrow> (string \<times> string) list" where
  "token_view k c = map (\<lambda>(key, bz). (drop (length TokenKey) key, bz)) (KV_Iter (storeService k) (store c) TokenKey)"

definition collect_token :: "('s, 'b, 'x) Keeper_scheme \<Rightarrow> string \<times> string \<Rightarrow> Token list \<Rightarrow> Token list res" where
  "collect_token k e tokens = tryE (cdc_UnmarshalToken k (snd e)) (\<lambda>token. Inr (tokens @ [token]))"

definition Tokens :: "('s, 'b, 'x) Keeper_scheme \<Rightarrow> paging \<Rightarrow> ('s, 'b) ctx \<Rightarrow> page_request option option \<Rightarrow>
    (Token list \<times> page_response) res" where
  "Tokens k Paginate c req = (case req of
     None \<Rightarrow> Inl (status_Error ''InvalidArgument'' ''invalid request'')
   | Some pagination \<Rightarrow>
       (case tryE (Paginate (token_view k c) (clamp_page pagination)) (\<lambda>(entries, pageRes).
              tryE (forE (collect_token k) entries []) (\<lambda>tokens. Inr (tokens, pageRes)))
        of Inr r \<Rightarrow> Inr r
         | Inl (GoPanic s) \<Rightarrow> Inl (GoPanic s)
         | Inl _ \<Rightarrow> Inl (status_Error ''Internal'' [])))"

definition with_metadata :: "('s, 'b, 'x) Keeper_scheme \<Rightarrow> ('s, 'b) ctx \<Rightarrow> coin \<Rightarrow> BalanceWithMetadata" where
  "with_metadata k c coin = \<lparr>bwDenom = Denom coin, bwAmount = show_int (Amount coin), bwMetadata = GetToken k c (Denom coin)\<rparr>"

fun balance_loop :: "('s, 'b, 'x) Keeper_scheme \<Rightarrow> ('s, 'b) ctx \<Rightarrow> BalanceWithMetadata list \<Rightarrow> coin list \<Rightarrow>
    BalanceWithMetadata list \<times> bool" where
  "balance_loop k c balancesWithMetadata [] = (balancesWithMetadata, False)"
| "balance_loop k c balancesWithMetadata (coin # rest) =
     (if MaxBalancesResult \<le> length balancesWithMetadata then (balancesWithMetadata, True)
      else balance_loop k c (balancesWithMetadata @ [with_metadata k c coin]) rest)"

definition BalancesWithMetadata :: "('s, 'b, 'x) Keeper_scheme \<Rightarrow> ('b \<Rightarrow> addr \<Rightarrow> coin list) \<Rightarrow> ('s, 'b) ctx \<Rightarrow>
    string option \<Rightarrow> (BalanceWithMetadata list \<times> page_response) res" where
  "BalancesWithMetadata k visited c req = (case req of
     None \<Rightarrow> Inl (status_Error ''InvalidArgument'' ''invalid request'')
   | Some address \<Rightarrow>
       if address = [] then Inl (status_Error ''InvalidArgument'' ''address cannot be empty'')
       else case AccAddressFromBech32 k address of
         Inl _ \<Rightarrow> Inl (status_Error ''InvalidArgument'' ''invalid address'')
       | Inr addr \<Rightarrow>
           (case balance_loop k c [] (visited (bank c) addr) of (balances, truncated) \<Rightarrow>
              Inr (balances, \<lparr>pgNextKey = (if truncated then ''truncated:'' @ show_nat MaxBalancesResult else []),
                pgTotal = of_nat (length balances)\<rparr>)))"

section \<open>Pages of tokens\<close>

locale paginator =
  fixes Paginate :: paging
  assumes page_entries: "Paginate view p = Inr (entries, pageRes) \<Longrightarrow> subseq entries (if prReverse p then rev view else view)"
    and page_limit: "Paginate view p = Inr (entries, pageRes) \<Longrightarrow> prLimit p \<noteq> 0 \<Longrightarrow> length entries \<le> unat (prLimit p)"
begin

lemma page_set: "Paginate view p = Inr (entries, pageRes) \<Longrightarrow> set entries \<subseteq> set view"
proof -
  assume p: "Paginate view p = Inr (entries, pageRes)"
  have "set xs \<subseteq> set ys" if "subseq xs ys" for xs ys :: "(string \<times> string) list"
    using that by (induction rule: list_emb.induct) auto
  from this [OF page_entries [OF p]] show "set entries \<subseteq> set view" by (simp split: if_splits)
qed

end

text \<open>The walk of the SDK as its documentation gives it: by offset, or from a key; not both.\<close>

definition ref_Paginate :: paging where
  "ref_Paginate view p =
     (if prKey p \<noteq> [] \<and> prOffset p \<noteq> 0 then Inl (Errorf ''invalid request, either offset or key is expected, got both'')
      else let rows = (if prReverse p then rev view else view);
               from_key = (if prKey p = [] then drop (unat (prOffset p)) rows
                 else dropWhile (\<lambda>e. if prReverse p then prKey p < fst e else fst e < prKey p) rows);
               n = (if prLimit p = 0 then 100 else unat (prLimit p))
           in Inr (take n from_key, \<lparr>pgNextKey = (case drop n from_key of [] \<Rightarrow> [] | e # _ \<Rightarrow> fst e),
                pgTotal = (if prCountTotal p \<or> prLimit p = 0 then of_nat (length view) else 0)\<rparr>))"

lemma subseq_take_drop: "subseq (take n (drop m xs)) xs" "subseq (take n (dropWhile P xs)) xs"
  by (meson subseq_order.trans sublist_imp_subseq sublist_take sublist_drop suffix_dropWhile suffix_imp_sublist)+

interpretation ref_page: paginator ref_Paginate
  by unfold_locales (auto simp: ref_Paginate_def Let_def subseq_take_drop split: if_splits)

lemma clamp_limit: "0 < prLimit (clamp_page p) \<and> prLimit (clamp_page p) \<le> 100"
  by (auto simp: clamp_page_def DefaultQueryLimit_def MaxQueryLimit64_def Let_def not_less word_gt_0 split: option.splits)

lemma clamp_unat: "unat (prLimit (clamp_page p)) \<le> 100"
  using clamp_limit [of p] by (simp add: word_le_nat_alt)

lemma collect_all:
  assumes "\<And>e. e \<in> set entries \<Longrightarrow> \<exists>t. cdc_UnmarshalToken k (snd e) = Inr t \<and> P e t"
  shows "\<exists>ts. forE (collect_token k) entries acc = Inr (acc @ ts) \<and> list_all2 P entries ts"
  using assms
proof (induction entries arbitrary: acc)
  case (Cons e entries)
  from Cons.prems [of e] obtain t where t: "cdc_UnmarshalToken k (snd e) = Inr t" "P e t" by auto
  from Cons.IH [of "acc @ [t]"] Cons.prems obtain ts where
    "forE (collect_token k) entries (acc @ [t]) = Inr ((acc @ [t]) @ ts)" "list_all2 P entries ts" by auto
  with t have "forE (collect_token k) (e # entries) acc = Inr (acc @ (t # ts)) \<and> list_all2 P (e # entries) (t # ts)"
    by (simp add: collect_token_def)
  then show ?case by blast
qed simp

context stoc_env
begin

lemma view_token:
  assumes "store_ok k c" and "e \<in> set (token_view k c)"
  shows "\<exists>t. cdc_UnmarshalToken k (snd e) = Inr t \<and> GetToken k c (fst e) = Some t \<and> tkMinimalDenom t = fst e"
proof -
  from assms(2) obtain key where m: "(key, snd e) \<in> set (KV_Iter (storeService k) (store c) TokenKey)"
    and f: "fst e = drop (length TokenKey) key" by (auto simp: token_view_def)
  from GetAllTokens_keys [OF assms(1) m] f obtain t where t: "key = TokenKey @ fst e" "GetToken k c (fst e) = Some t" by auto
  with m have "KV_Get (storeService k) (store c) (TokenKey @ fst e) = Some (snd e)" by (simp add: Iter_mem)
  with t have "cdc_UnmarshalToken k (snd e) = Inr t" by (auto simp: GetToken_def split: sum.splits)
  with t store_okD [OF assms(1) t(2)] show ?thesis by (auto simp: stored_ok_def)
qed

lemma view_distinct: "distinct (map fst (token_view k c))"
proof -
  have "map fst (token_view k c) = map (drop (length TokenKey)) (map fst (KV_Iter (storeService k) (store c) TokenKey))"
    by (simp add: token_view_def case_prod_beta)
  moreover have "inj_on (drop (length TokenKey)) (set (map fst (KV_Iter (storeService k) (store c) TokenKey)))"
    by (rule inj_onI) (auto simp: Iter_mem elim!: prefixE)
  ultimately show ?thesis using Iter_distinct [of "store c" TokenKey] by (simp only: distinct_map [of "drop (length TokenKey)"] simp_thms)
qed

end

lemma balance_loop_eq:
  "balance_loop k c acc coins = (acc @ map (with_metadata k c) (take (MaxBalancesResult - length acc) coins),
     MaxBalancesResult - length acc < length coins)"
proof (induction coins arbitrary: acc)
  case (Cons coin rest)
  show ?case
  proof (cases "MaxBalancesResult \<le> length acc")
    case False
    then have d: "MaxBalancesResult - length acc = Suc (MaxBalancesResult - Suc (length acc))" by simp
    show ?thesis unfolding d using False Cons.IH [of "acc @ [with_metadata k c coin]"] by simp
  qed simp
qed simp

text \<open>A page of tokens. On a well-formed store, whatever limit the request carries, the query answers with
  exactly the tokens the walk shows, in its order, at most 100 of them, each registered and none twice.
\<close>

theorem tokens_page:
  assumes "stoc_env k wfb" and "paginator Paginate" and "store_ok k c"
    and "Paginate (token_view k c) (clamp_page pagination) = Inr (entries, pageRes)"
  shows "\<exists>ts. Tokens k Paginate c (Some pagination) = Inr (ts, pageRes) \<and> length ts \<le> 100 \<and>
    map tkMinimalDenom ts = map fst entries \<and> distinct (map tkMinimalDenom ts) \<and>
    (\<forall>t \<in> set ts. GetToken k c (tkMinimalDenom t) = Some t)"
proof -
  note L = stoc_env.view_token [OF assms(1,3)]
  have sub: "subseq entries (if prReverse (clamp_page pagination) then rev (token_view k c) else token_view k c)"
    using assms(2,4) by (rule paginator.page_entries)
  have "set entries \<subseteq> set (token_view k c)" using assms(2,4) by (rule paginator.page_set)
  then have "\<exists>t. cdc_UnmarshalToken k (snd e) = Inr t \<and> GetToken k c (fst e) = Some t \<and> tkMinimalDenom t = fst e"
    if "e \<in> set entries" for e using L [of e] that by blast
  then have "\<exists>ts. forE (collect_token k) entries [] = Inr ([] @ ts) \<and>
      list_all2 (\<lambda>e t. GetToken k c (fst e) = Some t \<and> tkMinimalDenom t = fst e) entries ts" by (rule collect_all)
  then obtain ts where ts: "forE (collect_token k) entries [] = Inr ts"
    and R: "list_all2 (\<lambda>e t. GetToken k c (fst e) = Some t \<and> tkMinimalDenom t = fst e) entries ts" by auto
  have den: "map tkMinimalDenom ts = map fst entries" and len: "length ts = length entries"
    using R by (induction rule: list_all2_induct) auto
  have "subseq (map fst entries) (map fst (if prReverse (clamp_page pagination) then rev (token_view k c) else token_view k c))"
    using sub by (rule subseq_map)
  moreover have "distinct (map fst (if prReverse (clamp_page pagination) then rev (token_view k c) else token_view k c))"
    using stoc_env.view_distinct [OF assms(1)] by (simp flip: rev_map)
  ultimately have "distinct (map tkMinimalDenom ts)" unfolding den by (metis subseq_conv_nths distinct_nthsI)
  moreover have "length ts \<le> 100"
    using paginator.page_limit [OF assms(2,4)] clamp_limit [of pagination] clamp_unat [of pagination] len by fastforce
  moreover have "\<forall>t \<in> set ts. GetToken k c (tkMinimalDenom t) = Some t"
    using R by (auto simp: list_all2_conv_all_nth in_set_conv_nth)
  moreover have "Tokens k Paginate c (Some pagination) = Inr (ts, pageRes)"
    using assms(4) ts by (simp add: Tokens_def)
  ultimately show ?thesis using den by blast
qed

theorem tokens_page_witness:
  "\<exists>ts pr. Tokens ref_k ref_Paginate demo1 (Some None) = Inr (ts, pr) \<and> length ts \<le> 100 \<and>
     map tkMinimalDenom ts = map fst (take 20 (token_view ref_k demo1))"
proof -
  have "ref_Paginate (token_view ref_k demo1) (clamp_page None) = Inr (take 20 (token_view ref_k demo1),
      \<lparr>pgNextKey = (case drop 20 (token_view ref_k demo1) of [] \<Rightarrow> [] | e # _ \<Rightarrow> fst e), pgTotal = 0\<rparr>)"
    by (simp add: ref_Paginate_def clamp_page_def DefaultQueryLimit_def Let_def)
  moreover have "store_ok ref_k demo1" using demo1_inv by (simp add: supply_inv_def)
  ultimately show ?thesis using tokens_page [OF refenv.stoc_env_axioms ref_page.paginator_axioms] by blast
qed

lemma show_200: "show_nat 200 = ''200''"
  by code_simp

text \<open>Balances with metadata. For an address that parses, the query returns the first 200 balances of the
  account in the order of the bank, each with the record of its token if the module has one, and the marker
  \<open>truncated:200\<close> exactly when the account holds more.
\<close>

theorem balances_truncated:
  assumes "address \<noteq> []" and "AccAddressFromBech32 k address = Inr addr"
  shows "BalancesWithMetadata k visited c (Some address) =
    Inr (map (with_metadata k c) (take 200 (visited (bank c) addr)),
      \<lparr>pgNextKey = (if 200 < length (visited (bank c) addr) then ''truncated:200'' else []),
       pgTotal = of_nat (min 200 (length (visited (bank c) addr)))\<rparr>)"
  using assms by (simp add: BalancesWithMetadata_def balance_loop_eq MaxBalancesResult_def min.commute show_200)

theorem balances_truncated_witness:
  "BalancesWithMetadata ref_k (\<lambda>_ _. [mk_coin ''AB_0'' 4]) demo1 (Some ''alice'') =
    Inr ([with_metadata ref_k demo1 (mk_coin ''AB_0'' 4)], \<lparr>pgNextKey = [], pgTotal = 1\<rparr>)"
proof -
  have "AccAddressFromBech32 ref_k ''alice'' = Inr ''alice''" by code_simp
  from balances_truncated [OF _ this, of "\<lambda>_ _. [mk_coin ''AB_0'' 4]" demo1] show ?thesis by simp
qed

end
