(* ===== verification/Mempool_Order.thy ===== *)
theory Mempool_Order
  imports Stoc_Prelude "HOL-Library.Multiset" "HOL-Library.Sublist"
begin

text \<open>
  The order in which the transaction pool gives its Ethereum transactions to a block
  (\<^verbatim>\<open>mempool/miner/ordering.go\<close>): a binary heap of the first transaction of every account, by effective tip and
  then by the time of arrival. \<open>Shift\<close> replaces the best head by the next transaction of its account, \<open>Pop\<close> drops
  the account.

  The heap operations of Go's \<^verbatim>\<open>container/heap\<close> that the code calls are modelled on lists. The locale
  \<open>heap_order\<close> carries the heap lemmas for any strict weak order; it is interpreted on \<open>txLess\<close>, the comparison
  of the code.
\<close>

section \<open>The heap of the standard library\<close>

definition swap :: "nat \<Rightarrow> nat \<Rightarrow> 'a list \<Rightarrow> 'a list" where
  "swap i j xs = xs[i := xs ! j, j := xs ! i]"

definition smaller_child :: "('a \<Rightarrow> 'a \<Rightarrow> bool) \<Rightarrow> 'a list \<Rightarrow> nat \<Rightarrow> nat \<Rightarrow> nat" where
  "smaller_child lt xs i n = (let j1 = 2 * i + 1; j2 = j1 + 1 in if j2 < n \<and> lt (xs ! j2) (xs ! j1) then j2 else j1)"

text \<open>The result is the list and the place where the element ends.\<close>

function heap_down :: "('a \<Rightarrow> 'a \<Rightarrow> bool) \<Rightarrow> 'a list \<Rightarrow> nat \<Rightarrow> nat \<Rightarrow> 'a list \<times> nat" where
  "heap_down lt xs i n =
     (if n \<le> 2 * i + 1 then (xs, i)
      else let j = smaller_child lt xs i n in
        if \<not> lt (xs ! j) (xs ! i) then (xs, i) else heap_down lt (swap i j xs) j n)"
  by pat_completeness auto
termination
  by (relation "measure (\<lambda>(lt, xs, i, n). n - i)") (auto simp: smaller_child_def Let_def)

function heap_up :: "('a \<Rightarrow> 'a \<Rightarrow> bool) \<Rightarrow> 'a list \<Rightarrow> nat \<Rightarrow> 'a list" where
  "heap_up lt xs j =
     (let i = (j - 1) div 2 in if i = j \<or> \<not> lt (xs ! j) (xs ! i) then xs else heap_up lt (swap i j xs) i)"
  by pat_completeness auto
termination
  by (relation "measure (\<lambda>(lt, xs, j). j)") auto

declare heap_down.simps [simp del] heap_up.simps [simp del]

definition heap_Init :: "('a \<Rightarrow> 'a \<Rightarrow> bool) \<Rightarrow> 'a list \<Rightarrow> 'a list" where
  "heap_Init lt xs = fold (\<lambda>i ys. fst (heap_down lt ys i (length xs))) (rev [0..<length xs div 2]) xs"

definition heap_Fix :: "('a \<Rightarrow> 'a \<Rightarrow> bool) \<Rightarrow> 'a list \<Rightarrow> nat \<Rightarrow> 'a list" where
  "heap_Fix lt xs i = (case heap_down lt xs i (length xs) of (ys, k) \<Rightarrow> if k \<le> i then heap_up lt ys i else ys)"

definition heap_Pop :: "('a \<Rightarrow> 'a \<Rightarrow> bool) \<Rightarrow> 'a list \<Rightarrow> ('a \<times> 'a list) res" where
  "heap_Pop lt xs =
     (if xs = [] then Inl (GoPanic ''index out of range'')
      else let n = length xs - 1; ys = fst (heap_down lt (swap 0 n xs) 0 n) in Inr (last ys, butlast ys))"

section \<open>Transactions by price and nonce\<close>

record 'x LazyTransaction =
  lzTx :: 'x
  lzTime :: int
  lzGasFeeCap :: int
  lzGasTipCap :: int

record 'x txWithMinerFee =
  hdTx :: "'x LazyTransaction"
  hdFrom :: addr
  hdFees :: int

definition newTxWithMinerFee :: "'x LazyTransaction \<Rightarrow> addr \<Rightarrow> int option \<Rightarrow> 'x txWithMinerFee res" where
  "newTxWithMinerFee tx from baseFee =
     (case baseFee of
        None \<Rightarrow> Inr \<lparr>hdTx = tx, hdFrom = from, hdFees = lzGasTipCap tx\<rparr>
      | Some b \<Rightarrow>
          if lzGasFeeCap tx < b then Inl (Errorf ''fee cap less than base fee'')
          else let tip = lzGasFeeCap tx - b in
            Inr \<lparr>hdTx = tx, hdFrom = from, hdFees = (if lzGasTipCap tx < tip then lzGasTipCap tx else tip)\<rparr>)"

definition txLess :: "'x txWithMinerFee \<Rightarrow> 'x txWithMinerFee \<Rightarrow> bool" where
  "txLess a b = (if hdFees a = hdFees b then lzTime (hdTx a) < lzTime (hdTx b) else hdFees b < hdFees a)"

record 'x TransactionsByPriceAndNonce =
  tpnTxs :: "addr \<rightharpoonup> 'x LazyTransaction list"
  tpnHeads :: "'x txWithMinerFee list"
  tpnBaseFee :: "int option"

definition uint256_FromBig :: "int \<Rightarrow> int option" where
  "uint256_FromBig b = (if 2 ^ 256 \<le> \<bar>b\<bar> then None else Some (b mod 2 ^ 256))"

text \<open>The constructor ranges over a Go map, whose order is not fixed: it is the argument \<open>order\<close>. An account
  whose first transaction cannot pay the base fee is left out.\<close>

fun new_heads :: "int option \<Rightarrow> addr list \<Rightarrow> (addr \<rightharpoonup> 'x LazyTransaction list) \<Rightarrow> 'x txWithMinerFee list \<Rightarrow>
    ((addr \<rightharpoonup> 'x LazyTransaction list) \<times> 'x txWithMinerFee list) res" where
  "new_heads baseFee [] txs heads = Inr (txs, heads)"
| "new_heads baseFee (from # order) txs heads =
     (case txs from of
        Some (tx # rest) \<Rightarrow>
          (case newTxWithMinerFee tx from baseFee of
             Inl _ \<Rightarrow> new_heads baseFee order (txs(from := None)) heads
           | Inr wrapped \<Rightarrow> new_heads baseFee order (txs(from \<mapsto> rest)) (heads @ [wrapped]))
      | _ \<Rightarrow> Inl (GoPanic ''index out of range''))"

definition NewTransactionsByPriceAndNonce :: "addr list \<Rightarrow> (addr \<rightharpoonup> 'x LazyTransaction list) \<Rightarrow> int option \<Rightarrow>
    'x TransactionsByPriceAndNonce res" where
  "NewTransactionsByPriceAndNonce order txs baseFee =
     tryE (case baseFee of None \<Rightarrow> Inr None
           | Some b \<Rightarrow> (case uint256_FromBig b of None \<Rightarrow> Inl (GoPanic ''overflow'') | Some u \<Rightarrow> Inr (Some u))) (\<lambda>base.
     tryE (new_heads base order txs []) (\<lambda>(txs1, heads).
     Inr \<lparr>tpnTxs = txs1, tpnHeads = heap_Init txLess heads, tpnBaseFee = base\<rparr>))"

definition tpn_Peek :: "'x TransactionsByPriceAndNonce \<Rightarrow> ('x LazyTransaction \<times> int) option" where
  "tpn_Peek t = (case tpnHeads t of [] \<Rightarrow> None | h # _ \<Rightarrow> Some (hdTx h, hdFees h))"

definition tpn_Pop :: "'x TransactionsByPriceAndNonce \<Rightarrow> 'x TransactionsByPriceAndNonce res" where
  "tpn_Pop t = tryE (heap_Pop txLess (tpnHeads t)) (\<lambda>(_, heads). Inr (t\<lparr>tpnHeads := heads\<rparr>))"

definition tpn_Shift :: "'x TransactionsByPriceAndNonce \<Rightarrow> 'x TransactionsByPriceAndNonce res" where
  "tpn_Shift t =
     (case tpnHeads t of [] \<Rightarrow> Inl (GoPanic ''index out of range'')
      | h # _ \<Rightarrow>
          let acc = hdFrom h in
          case tpnTxs t acc of
            Some (tx # rest) \<Rightarrow>
              (case newTxWithMinerFee tx acc (tpnBaseFee t) of
                 Inr wrapped \<Rightarrow> Inr (t\<lparr>tpnHeads := heap_Fix txLess ((tpnHeads t)[0 := wrapped]) 0, tpnTxs := (tpnTxs t)(acc \<mapsto> rest)\<rparr>)
               | Inl _ \<Rightarrow> tpn_Pop t)
          | _ \<Rightarrow> tpn_Pop t)"

definition tpn_Empty :: "'x TransactionsByPriceAndNonce \<Rightarrow> bool" where
  "tpn_Empty t = (length (tpnHeads t) = 0)"

section \<open>Heaps\<close>

abbreviation parent :: "nat \<Rightarrow> nat" where "parent j \<equiv> (j - 1) div 2"

text \<open>No element among the first \<open>n\<close> comes before its parent, as far as the parent is at \<open>k\<close> or after it.\<close>

definition heap_from :: "('a \<Rightarrow> 'a \<Rightarrow> bool) \<Rightarrow> 'a list \<Rightarrow> nat \<Rightarrow> nat \<Rightarrow> bool" where
  "heap_from lt xs n k = (\<forall>j. 0 < j \<and> j < n \<and> k \<le> parent j \<longrightarrow> \<not> lt (xs ! j) (xs ! parent j))"

text \<open>The same except below \<open>i\<close>, whose children do not come before its parent.\<close>

definition heap_except :: "('a \<Rightarrow> 'a \<Rightarrow> bool) \<Rightarrow> 'a list \<Rightarrow> nat \<Rightarrow> nat \<Rightarrow> nat \<Rightarrow> bool" where
  "heap_except lt xs n k i = ((\<forall>j. 0 < j \<and> j < n \<and> k \<le> parent j \<and> parent j \<noteq> i \<longrightarrow> \<not> lt (xs ! j) (xs ! parent j)) \<and>
     (\<forall>j. 0 < j \<and> j < n \<and> parent j = i \<and> 0 < i \<and> k \<le> parent i \<longrightarrow> \<not> lt (xs ! j) (xs ! parent i)))"

lemma length_swap [simp]: "length (swap i j xs) = length xs" by (simp add: swap_def)

lemma nth_swap: "i < length xs \<Longrightarrow> j < length xs \<Longrightarrow> swap i j xs ! m = (if m = i then xs ! j else if m = j then xs ! i else xs ! m)"
  by (auto simp: swap_def nth_list_update)

lemma mset_swap_nth: "i < length xs \<Longrightarrow> j < length xs \<Longrightarrow> mset (swap i j xs) = mset xs"
  by (simp add: swap_def mset_swap)

lemma parent_eq: "0 < j \<Longrightarrow> parent j = i \<longleftrightarrow> j = 2 * i + 1 \<or> j = 2 * i + 2" by auto

lemma smaller_child_cases: "smaller_child lt xs i n = 2 * i + 1 \<or> smaller_child lt xs i n = 2 * i + 2"
  by (auto simp: smaller_child_def Let_def)

lemma smaller_child_less: "2 * i + 1 < n \<Longrightarrow> smaller_child lt xs i n < n"
  by (auto simp: smaller_child_def Let_def)

lemma heap_up_root [simp]: "heap_up lt xs 0 = xs" by (simp add: heap_up.simps)

locale heap_order =
  fixes lt :: "'a \<Rightarrow> 'a \<Rightarrow> bool"
  assumes asym: "lt a b \<Longrightarrow> \<not> lt b a" and
    weak: "\<not> lt a b \<Longrightarrow> \<not> lt b c \<Longrightarrow> \<not> lt a c"
begin

lemma child_best:
  assumes "j < n" and "0 < j" and "parent j = i"
  shows "\<not> lt (xs ! j) (xs ! smaller_child lt xs i n)"
proof -
  have irr: "\<not> lt a a" for a using asym by blast
  have "j = 2 * i + 1 \<or> j = 2 * i + 2" using assms parent_eq by simp
  then show ?thesis using assms(1) irr asym by (auto simp: smaller_child_def Let_def)
qed

lemma except_stop:
  assumes "heap_except lt xs n k i" and "2 * i + 1 < n \<Longrightarrow> \<not> lt (xs ! smaller_child lt xs i n) (xs ! i)"
  shows "heap_from lt xs n k"
  unfolding heap_from_def
proof (intro allI impI)
  fix j assume j: "0 < j \<and> j < n \<and> k \<le> parent j"
  show "\<not> lt (xs ! j) (xs ! parent j)"
  proof (cases "parent j = i")
    case True
    then have "2 * i + 1 < n" using j by auto
    then show ?thesis using assms(2) child_best [of j n i xs] j True weak by blast
  qed (use assms(1) j in \<open>auto simp: heap_except_def\<close>)
qed

lemma except_swap:
  assumes "heap_except lt xs n k i" and "2 * i + 1 < n" and "n \<le> length xs" and "k \<le> i"
    and "lt (xs ! smaller_child lt xs i n) (xs ! i)"
  shows "heap_except lt (swap i (smaller_child lt xs i n) xs) n k (smaller_child lt xs i n)"
proof -
  define c where "c = smaller_child lt xs i n"
  have c: "c < n" "parent c = i" "0 < c" "i < c" "i < n" using smaller_child_less [OF assms(2)] smaller_child_cases [of lt xs i n] assms(2) by (auto simp: c_def)
  have s: "swap i c xs ! m = (if m = i then xs ! c else if m = c then xs ! i else xs ! m)" for m
    using c assms(3) by (simp add: nth_swap)
  have old: "\<not> lt (xs ! j) (xs ! parent j)" if "0 < j" "j < n" "k \<le> parent j" "parent j \<noteq> i" for j
    using assms(1) that by (auto simp: heap_except_def)
  have up: "\<not> lt (xs ! c) (xs ! parent i)" if "0 < i" "k \<le> parent i"
    using assms(1) c that by (auto simp: heap_except_def)
  have "\<not> lt (swap i c xs ! j) (swap i c xs ! parent j)" if j: "0 < j" "j < n" "k \<le> parent j" "parent j \<noteq> c" for j
  proof -
    consider "j = i" | "j = c" | "j \<noteq> i" "j \<noteq> c" "parent j = i" | "j \<noteq> i" "j \<noteq> c" "parent j \<noteq> i" by blast
    then show ?thesis
    proof cases
      case 1
      then have "parent i < i" "parent i \<noteq> c" "\<not> lt (xs ! c) (xs ! parent i)" using j up by auto
      then show ?thesis using 1 s [of i] s [of "parent i"] by simp
    next
      case 2 then show ?thesis using c s asym assms(5) by (auto simp: c_def [symmetric])
    next
      case 3 then show ?thesis using child_best [of j n i xs] j s by (auto simp: c_def [symmetric])
    next
      case 4 then show ?thesis using old j s by auto
    qed
  qed
  moreover have "\<not> lt (swap i c xs ! j) (swap i c xs ! parent c)" if j: "0 < j" "j < n" "parent j = c" for j
  proof -
    have "j \<noteq> i" "j \<noteq> c" using j c by auto
    then show ?thesis using old [of j] j c s assms(4) by auto
  qed
  ultimately show ?thesis by (auto simp: heap_except_def c_def [symmetric])
qed

lemma down_correct:
  assumes "heap_except lt xs n k i" and "n \<le> length xs" and "k \<le> i"
  shows "heap_from lt (fst (heap_down lt xs i n)) n k \<and> mset (fst (heap_down lt xs i n)) = mset xs \<and>
    (\<forall>j. n \<le> j \<longrightarrow> fst (heap_down lt xs i n) ! j = xs ! j)"
  using assms
proof (induction "n - i" arbitrary: xs i rule: less_induct)
  case less
  define c where "c = smaller_child lt xs i n"
  show ?case
  proof (cases "2 * i + 1 < n \<and> lt (xs ! c) (xs ! i)")
    case False
    then have "heap_down lt xs i n = (xs, i)" by (subst heap_down.simps) (auto simp: c_def Let_def)
    then show ?thesis using except_stop [OF less.prems(1)] False by (auto simp: c_def)
  next
    case True
    then have c: "c < n" "i < c" using smaller_child_less [of i n lt xs] smaller_child_cases [of lt xs i n] by (auto simp: c_def)
    have "heap_down lt xs i n = heap_down lt (swap i c xs) c n" using True by (subst heap_down.simps) (auto simp: c_def Let_def)
    moreover have "heap_except lt (swap i c xs) n k c" using except_swap [OF less.prems(1) _ less.prems(2,3)] True by (simp add: c_def)
    moreover have "mset (swap i c xs) = mset xs" using c less.prems(2) by (simp add: mset_swap_nth)
    moreover have "swap i c xs ! j = xs ! j" if "n \<le> j" for j using that c less.prems(2) by (simp add: nth_swap)
    ultimately show ?thesis using less.hyps [of c "swap i c xs"] c less.prems by simp
  qed
qed

lemma heap_top:
  assumes "heap_from lt xs n 0" and "j < n"
  shows "\<not> lt (xs ! j) (xs ! 0)"
  using assms(2)
proof (induction j rule: less_induct)
  case (less j)
  show ?case
  proof (cases "j = 0")
    case False
    then have "\<not> lt (xs ! j) (xs ! parent j)" "parent j < j" using assms(1) less.prems by (auto simp: heap_from_def)
    then show ?thesis using less weak by fastforce
  qed (use asym in blast)
qed

lemma Init_correct: "heap_from lt (heap_Init lt xs) (length xs) 0 \<and> mset (heap_Init lt xs) = mset xs"
proof -
  have "heap_from lt (fold (\<lambda>i ys. fst (heap_down lt ys i (length xs))) (rev [0..<m]) ys) (length xs) 0 \<and>
      mset (fold (\<lambda>i ys. fst (heap_down lt ys i (length xs))) (rev [0..<m]) ys) = mset xs"
    if "heap_from lt ys (length xs) m" and "mset ys = mset xs" for m ys
    using that
  proof (induction m arbitrary: ys)
    case (Suc m)
    have "heap_except lt ys (length xs) m m" using Suc.prems(1)
      by (auto simp: heap_from_def heap_except_def) 
    then have "heap_from lt (fst (heap_down lt ys m (length xs))) (length xs) m \<and> mset (fst (heap_down lt ys m (length xs))) = mset xs"
      using down_correct [of ys "length xs" m m] Suc.prems(2) mset_eq_length [OF Suc.prems(2)] by simp
    then show ?case using Suc.IH by simp
  qed simp
  moreover have "heap_from lt xs (length xs) (length xs div 2)" by (auto simp: heap_from_def)
  ultimately show ?thesis by (simp add: heap_Init_def)
qed

lemma Fix_root:
  assumes "heap_from lt xs (length xs) 0" and "xs \<noteq> []"
  shows "heap_from lt (heap_Fix lt (xs[0 := x]) 0) (length xs) 0 \<and> mset (heap_Fix lt (xs[0 := x]) 0) = add_mset x (mset (tl xs))"
proof -
  have "heap_except lt (xs[0 := x]) (length xs) 0 0" using assms(1) by (auto simp: heap_from_def heap_except_def nth_list_update)
  moreover have "mset (xs[0 := x]) = add_mset x (mset (tl xs))" using assms(2) by (cases xs) auto
  ultimately show ?thesis using down_correct [of "xs[0 := x]" "length xs" 0 0] by (auto simp: heap_Fix_def split: prod.splits)
qed

lemma Pop_root:
  assumes "heap_from lt xs (length xs) 0" and "xs \<noteq> []"
  shows "\<exists>ys. heap_Pop lt xs = Inr (xs ! 0, ys) \<and> heap_from lt ys (length ys) 0 \<and> mset ys = mset (tl xs)"
proof -
  define n where "n = length xs - 1"
  define zs where "zs = fst (heap_down lt (swap 0 n xs) 0 n)"
  have n: "n < length xs" "length xs = Suc n" using assms(2) by (auto simp: n_def)
  have "heap_except lt (swap 0 n xs) n 0 0" using assms(1) n by (auto simp: heap_from_def heap_except_def nth_swap)
  then have z: "heap_from lt zs n 0" "mset zs = mset (swap 0 n xs)" "zs ! n = swap 0 n xs ! n"
    using down_correct [of "swap 0 n xs" n 0 0] n by (auto simp: zs_def)
  have l: "length zs = Suc n" "zs \<noteq> []" using mset_eq_length [OF z(2)] n by auto
  have last: "last zs = xs ! 0" using z(3) l n by (simp add: last_conv_nth nth_swap)
  have m: "mset zs = mset xs" using z(2) n by (simp add: mset_swap_nth)
  have "mset xs = add_mset (xs ! 0) (mset (tl xs))" using assms(2) by (cases xs) auto
  moreover have "mset zs = add_mset (last zs) (mset (butlast zs))" using l(2) by (metis append_butlast_last_id mset_append mset.simps mset_single_iff_right union_commute add_mset_add_single)
  ultimately have "mset (butlast zs) = mset (tl xs)" using m last by simp
  moreover have "heap_from lt (butlast zs) (length (butlast zs)) 0" using z(1) l by (auto simp: heap_from_def nth_butlast)
  moreover have "heap_Pop lt xs = Inr (xs ! 0, butlast zs)" using assms(2) last by (simp add: heap_Pop_def Let_def n_def zs_def)
  ultimately show ?thesis by blast
qed

end

interpretation txh: heap_order "txLess :: 'x txWithMinerFee \<Rightarrow> 'x txWithMinerFee \<Rightarrow> bool"
  by unfold_locales (auto simp: txLess_def split: if_splits)

section \<open>The queues of the accounts\<close>

definition payable :: "int option \<Rightarrow> 'x LazyTransaction \<Rightarrow> bool" where
  "payable base tx = (case base of None \<Rightarrow> True | Some b \<Rightarrow> b \<le> lzGasFeeCap tx)"

definition effectiveTip :: "int option \<Rightarrow> 'x LazyTransaction \<Rightarrow> int" where
  "effectiveTip base tx = (case base of None \<Rightarrow> lzGasTipCap tx | Some b \<Rightarrow> min (lzGasTipCap tx) (lzGasFeeCap tx - b))"

text \<open>A larger tip goes first; of equal tips the older transaction.\<close>

definition comes_first :: "int option \<Rightarrow> 'x LazyTransaction \<Rightarrow> 'x LazyTransaction \<Rightarrow> bool" where
  "comes_first base x y = (effectiveTip base y < effectiveTip base x \<or> effectiveTip base x = effectiveTip base y \<and> lzTime x < lzTime y)"

text \<open>What is left of an account: its head, if it has one, and the transactions after it.\<close>

definition queue :: "'x TransactionsByPriceAndNonce \<Rightarrow> addr \<Rightarrow> 'x LazyTransaction list" where
  "queue t a = (case map_of (map (\<lambda>h. (hdFrom h, hdTx h)) (tpnHeads t)) a of None \<Rightarrow> []
     | Some tx \<Rightarrow> tx # (case tpnTxs t a of None \<Rightarrow> [] | Some l \<Rightarrow> l))"

definition q_start :: "int option \<Rightarrow> 'x LazyTransaction list \<Rightarrow> 'x LazyTransaction list" where
  "q_start base l = (case l of [] \<Rightarrow> [] | x # _ \<Rightarrow> if payable base x then l else [])"

definition tpn_ok :: "'x TransactionsByPriceAndNonce \<Rightarrow> bool" where
  "tpn_ok t = (heap_from txLess (tpnHeads t) (length (tpnHeads t)) 0 \<and> distinct (map hdFrom (tpnHeads t)) \<and>
     (\<forall>h \<in> set (tpnHeads t). payable (tpnBaseFee t) (hdTx h) \<and> hdFees h = effectiveTip (tpnBaseFee t) (hdTx h)))"

lemma new_fee: "newTxWithMinerFee tx a base = (if payable base tx then Inr \<lparr>hdTx = tx, hdFrom = a, hdFees = effectiveTip base tx\<rparr>
    else Inl (Errorf ''fee cap less than base fee''))"
  by (cases base; cases "payable base tx") (simp_all add: newTxWithMinerFee_def payable_def effectiveTip_def Let_def min_def)

lemma heads_map_of:
  assumes "distinct (map hdFrom hs)"
  shows "map_of (map (\<lambda>h. (hdFrom h, hdTx h)) hs) a = Some x \<longleftrightarrow> (\<exists>h \<in> set hs. hdFrom h = a \<and> hdTx h = x)"
  using assms by (subst map_of_eq_Some_iff) (auto simp: comp_def)

lemma heads_map_None: "map_of (map (\<lambda>h. (hdFrom h, hdTx h)) hs) a = None \<longleftrightarrow> a \<notin> hdFrom ` set hs"
  by (auto simp: map_of_eq_None_iff image_image)

lemma heads_perm:
  assumes "mset hs = mset ks" and "distinct (map hdFrom ks)"
  shows "distinct (map hdFrom hs) \<and> map_of (map (\<lambda>h. (hdFrom h, hdTx h)) hs) = map_of (map (\<lambda>h. (hdFrom h, hdTx h)) ks)"
proof -
  have d: "distinct (map hdFrom hs)" using assms by (metis mset_eq_imp_distinct_iff mset_map)
  moreover have "set hs = set ks" using assms(1) by (rule mset_eq_setD)
  ultimately show ?thesis using assms(2) by (auto intro!: map_of_inject_set [THEN iffD2] simp: comp_def)
qed

text \<open>The heads after the operations hold the same entries in another order.\<close>

lemma heads_changed:
  assumes "tpnHeads t = h # hs" and "tpn_ok t" and "mset ks = mset (ws @ hs)" and "heap_from txLess ks (length ks) 0"
    and "ws = [] \<or> (\<exists>w. ws = [w] \<and> hdFrom w = hdFrom h \<and> payable (tpnBaseFee t) (hdTx w) \<and> hdFees w = effectiveTip (tpnBaseFee t) (hdTx w))"
    and "tpnHeads t' = ks" and "tpnBaseFee t' = tpnBaseFee t" and "\<forall>a. a \<noteq> hdFrom h \<longrightarrow> tpnTxs t' a = tpnTxs t a"
  shows "tpn_ok t' \<and> queue t' = (queue t)(hdFrom h := (case ws of [] \<Rightarrow> [] | w # _ \<Rightarrow> hdTx w # (case tpnTxs t' (hdFrom h) of None \<Rightarrow> [] | Some l \<Rightarrow> l)))"
proof -
  have d: "distinct (map hdFrom (ws @ hs))" using assms(1,2,5) by (auto simp: tpn_ok_def)
  have p: "distinct (map hdFrom ks)" "map_of (map (\<lambda>h. (hdFrom h, hdTx h)) ks) = map_of (map (\<lambda>h. (hdFrom h, hdTx h)) (ws @ hs))"
    using heads_perm [OF assms(3) d] by auto
  have "set ks = set (ws @ hs)" using assms(3) by (rule mset_eq_setD)
  then have "tpn_ok t'" using assms p(1) by (auto simp: tpn_ok_def)
  moreover have "queue t' a = ((queue t)(hdFrom h := (case ws of [] \<Rightarrow> [] | w # _ \<Rightarrow> hdTx w # (case tpnTxs t' (hdFrom h) of None \<Rightarrow> [] | Some l \<Rightarrow> l)))) a" for a
  proof (cases "a = hdFrom h")
    case True
    have "hdFrom h \<notin> hdFrom ` set hs" using assms(1,2) by (auto simp: tpn_ok_def)
    then show ?thesis using assms(5,6) True p(2) heads_map_None [of hs "hdFrom h"] by (auto simp: queue_def)
  next
    case False
    then have "tpnTxs t' a = tpnTxs t a" using assms(8) by blast
    then show ?thesis using assms(1,5,6) p(2) False by (auto simp: queue_def split: option.splits)
  qed
  ultimately show ?thesis by blast
qed

lemma Pop_queue:
  assumes "tpn_ok t" and "tpnHeads t = h # hs"
  shows "\<exists>t'. tpn_Pop t = Inr t' \<and> tpn_ok t' \<and> tpnBaseFee t' = tpnBaseFee t \<and> queue t' = (queue t)(hdFrom h := [])"
proof -
  obtain ys where y: "heap_Pop txLess (tpnHeads t) = Inr (h, ys)" "heap_from txLess ys (length ys) 0" "mset ys = mset hs"
    using txh.Pop_root [of "tpnHeads t"] assms by (auto simp: tpn_ok_def)
  have "tpn_ok (t\<lparr>tpnHeads := ys\<rparr>) \<and> queue (t\<lparr>tpnHeads := ys\<rparr>) = (queue t)(hdFrom h := [])"
    using heads_changed [OF assms(2,1), of ys "[]" "t\<lparr>tpnHeads := ys\<rparr>"] y by simp
  then show ?thesis using y by (simp add: tpn_Pop_def)
qed

lemma queue_head:
  assumes "tpn_ok t" and "tpnHeads t = h # hs"
  shows "queue t (hdFrom h) = hdTx h # (case tpnTxs t (hdFrom h) of None \<Rightarrow> [] | Some l \<Rightarrow> l)"
  using assms by (simp add: queue_def)

lemma Shift_queue:
  assumes "tpn_ok t" and "tpnHeads t = h # hs"
  shows "\<exists>t'. tpn_Shift t = Inr t' \<and> tpn_ok t' \<and> tpnBaseFee t' = tpnBaseFee t \<and>
    queue t' = (queue t)(hdFrom h := q_start (tpnBaseFee t) (tl (queue t (hdFrom h))))"
proof (cases "\<exists>tx rest. tpnTxs t (hdFrom h) = Some (tx # rest) \<and> payable (tpnBaseFee t) tx")
  case True
  then obtain tx rest where x: "tpnTxs t (hdFrom h) = Some (tx # rest)" "payable (tpnBaseFee t) tx" by blast
  define w where "w = \<lparr>hdTx = tx, hdFrom = hdFrom h, hdFees = effectiveTip (tpnBaseFee t) tx\<rparr>"
  define ks where "ks = heap_Fix txLess ((tpnHeads t)[0 := w]) 0"
  define t' where "t' = t\<lparr>tpnHeads := ks, tpnTxs := (tpnTxs t)(hdFrom h \<mapsto> rest)\<rparr>"
  have k: "heap_from txLess ks (length (tpnHeads t)) 0" "mset ks = add_mset w (mset hs)"
    using txh.Fix_root [of "tpnHeads t" w] assms by (auto simp: ks_def tpn_ok_def)
  have "length ks = length (tpnHeads t)" using arg_cong [OF k(2), of size] assms(2) by simp
  then have "tpn_ok t' \<and> queue t' = (queue t)(hdFrom h := tx # rest)"
    using heads_changed [OF assms(2,1), of ks "[w]" t'] k x by (simp add: t'_def w_def)
  moreover have "tpn_Shift t = Inr t'" using assms(2) x by (simp add: tpn_Shift_def Let_def new_fee t'_def ks_def w_def)
  moreover have "q_start (tpnBaseFee t) (tl (queue t (hdFrom h))) = tx # rest" using queue_head [OF assms] x by (simp add: q_start_def)
  ultimately show ?thesis by (auto simp: t'_def)
next
  case False
  then have "tpn_Shift t = tpn_Pop t" using assms(2) by (auto simp: tpn_Shift_def Let_def new_fee split: option.splits list.splits)
  moreover have "q_start (tpnBaseFee t) (tl (queue t (hdFrom h))) = []" using False queue_head [OF assms]
    by (auto simp: q_start_def split: option.splits list.splits)
  ultimately show ?thesis using Pop_queue [OF assms] by simp
qed

lemma queue_empty: "tpnHeads t = [] \<longleftrightarrow> (\<forall>a. queue t a = [])"
proof
  assume a: "\<forall>a. queue t a = []"
  show "tpnHeads t = []"
  proof (cases "tpnHeads t")
    case (Cons h hs)
    then have "queue t (hdFrom h) \<noteq> []" by (simp add: queue_def)
    then show ?thesis using a by blast
  qed
qed (simp add: queue_def)

lemma Peek_best:
  assumes "tpn_ok t" and "tpnHeads t = h # hs" and "queue t b = y # r"
  shows "\<not> comes_first (tpnBaseFee t) y (hdTx h)"
proof -
  have "map_of (map (\<lambda>h. (hdFrom h, hdTx h)) (tpnHeads t)) b = Some y" using assms(3) by (auto simp: queue_def split: option.splits)
  then obtain k where k: "k \<in> set (tpnHeads t)" "hdTx k = y" using assms(1) heads_map_of [of "tpnHeads t" b y] unfolding tpn_ok_def by blast
  then obtain j where j: "j < length (tpnHeads t)" "tpnHeads t ! j = k" by (auto simp: in_set_conv_nth)
  have "\<not> txLess k h" using txh.heap_top [of "tpnHeads t" "length (tpnHeads t)" j] assms(1,2) j by (auto simp: tpn_ok_def)
  moreover have "hdFees k = effectiveTip (tpnBaseFee t) y" "hdFees h = effectiveTip (tpnBaseFee t) (hdTx h)"
    using assms(1,2) k by (auto simp: tpn_ok_def)
  ultimately show ?thesis using k(2) by (auto simp: txLess_def comes_first_def split: if_splits)
qed

subsection \<open>The constructor\<close>

lemma new_heads_spec:
  assumes "new_heads base order txs heads = Inr (txs1, hs)" and "distinct order"
  shows "(\<forall>a \<in> set order. \<exists>x r. txs a = Some (x # r)) \<and>
    hs = heads @ map (\<lambda>a. \<lparr>hdTx = hd (the (txs a)), hdFrom = a, hdFees = effectiveTip base (hd (the (txs a)))\<rparr>)
      (filter (\<lambda>a. payable base (hd (the (txs a)))) order) \<and>
    (\<forall>a. txs1 a = (if a \<notin> set order then txs a else if payable base (hd (the (txs a))) then Some (tl (the (txs a))) else None))"
  using assms
proof (induction base order txs heads arbitrary: txs1 hs rule: new_heads.induct)
  case (2 base a order txs heads)
  then obtain x r where x: "txs a = Some (x # r)" by (auto split: option.splits list.splits)
  have d: "a \<notin> set order" "distinct order" using "2.prems"(2) by auto
  show ?case
  proof (cases "payable base x")
    case True
    then have "new_heads base order (txs(a \<mapsto> r)) (heads @ [\<lparr>hdTx = x, hdFrom = a, hdFees = effectiveTip base x\<rparr>]) = Inr (txs1, hs)"
      using "2.prems"(1) x by (simp add: new_fee)
    note ih = "2.IH"(2) [OF x refl _ this d(2)]
    have "filter (\<lambda>b. payable base (hd (the ((txs(a \<mapsto> r)) b)))) order = filter (\<lambda>b. payable base (hd (the (txs b)))) order"
      using d(1) by (intro filter_cong) auto
    moreover have "map (\<lambda>b. \<lparr>hdTx = hd (the ((txs(a \<mapsto> r)) b)), hdFrom = b, hdFees = effectiveTip base (hd (the ((txs(a \<mapsto> r)) b)))\<rparr>) l =
        map (\<lambda>b. \<lparr>hdTx = hd (the (txs b)), hdFrom = b, hdFees = effectiveTip base (hd (the (txs b)))\<rparr>) l" if "set l \<subseteq> set order" for l
      using d(1) that by auto
    ultimately show ?thesis using ih True x d by (auto simp: new_fee split: if_splits)
  next
    case False
    then have "new_heads base order (txs(a := None)) heads = Inr (txs1, hs)" using "2.prems"(1) x by (simp add: new_fee)
    note ih = "2.IH"(1) [OF x refl _ this d(2)]
    have "filter (\<lambda>b. payable base (hd (the ((txs(a := None)) b)))) order = filter (\<lambda>b. payable base (hd (the (txs b)))) order"
      using d(1) by (intro filter_cong) auto
    moreover have "map (\<lambda>b. \<lparr>hdTx = hd (the ((txs(a := None)) b)), hdFrom = b, hdFees = effectiveTip base (hd (the ((txs(a := None)) b)))\<rparr>) l =
        map (\<lambda>b. \<lparr>hdTx = hd (the (txs b)), hdFrom = b, hdFees = effectiveTip base (hd (the (txs b)))\<rparr>) l" if "set l \<subseteq> set order" for l
      using d(1) that by auto
    ultimately show ?thesis using ih False x d by (auto simp: new_fee split: if_splits)
  qed
qed simp

text \<open>The queues at the start do not depend on the order of the map.\<close>

lemma New_queue:
  assumes "NewTransactionsByPriceAndNonce order m baseFee = Inr t" and "distinct order" and "set order = dom m"
  shows "tpn_ok t \<and> tpnBaseFee t = (case baseFee of None \<Rightarrow> None | Some b \<Rightarrow> Some (b mod 2 ^ 256)) \<and>
    queue t = (\<lambda>a. case m a of None \<Rightarrow> [] | Some l \<Rightarrow> q_start (tpnBaseFee t) l)"
proof -
  define base where "base = (case baseFee of None \<Rightarrow> None | Some b \<Rightarrow> Some (b mod 2 ^ 256 :: int))"
  obtain txs1 hs where h: "new_heads base order m [] = Inr (txs1, hs)" and t: "t = \<lparr>tpnTxs = txs1, tpnHeads = heap_Init txLess hs, tpnBaseFee = base\<rparr>"
    using assms(1) by (cases baseFee) (auto simp: NewTransactionsByPriceAndNonce_def uint256_FromBig_def base_def tryE_Inr split: if_splits)
  note sp = new_heads_spec [OF h assms(2)]
  have frm: "map hdFrom hs = filter (\<lambda>a. payable base (hd (the (m a)))) order" using sp by (simp add: comp_def)
  have d: "distinct (map hdFrom hs)" using frm assms(2) by simp
  have i: "heap_from txLess (heap_Init txLess hs) (length hs) 0" "mset (heap_Init txLess hs) = mset hs" using txh.Init_correct [of hs] by auto
  have len: "length (heap_Init txLess hs) = length hs" using i(2) by (rule mset_eq_length)
  have p: "distinct (map hdFrom (heap_Init txLess hs))" "map_of (map (\<lambda>h. (hdFrom h, hdTx h)) (heap_Init txLess hs)) = map_of (map (\<lambda>h. (hdFrom h, hdTx h)) hs)"
    using heads_perm [OF i(2) d] by auto
  have "tpn_ok t" using i len p(1) sp mset_eq_setD [OF i(2)] by (auto simp: tpn_ok_def t)
  moreover have "queue t a = (case m a of None \<Rightarrow> [] | Some l \<Rightarrow> q_start base l)" for a
  proof (cases "m a")
    case None
    then have "a \<notin> hdFrom ` set hs" using sp assms(3) by auto
    then show ?thesis using None heads_map_None [of hs a] by (simp add: queue_def t p(2))
  next
    case (Some l)
    then obtain x r where l: "m a = Some (x # r)" using sp assms(3) by blast
    have o: "a \<in> set order" using l assms(3) by auto
    show ?thesis
    proof (cases "payable base x")
      case True
      then have "\<exists>h \<in> set hs. hdFrom h = a \<and> hdTx h = x" using sp l o by (auto simp: image_iff)
      then have "map_of (map (\<lambda>h. (hdFrom h, hdTx h)) hs) a = Some x" using heads_map_of [OF d] by blast
      moreover have "txs1 a = Some r" using sp l o True by simp
      ultimately show ?thesis using True l by (simp add: queue_def t p(2) q_start_def)
    next
      case False
      then have "a \<notin> hdFrom ` set hs" using sp l by auto
      then show ?thesis using False l heads_map_None [of hs a] by (simp add: queue_def t p(2) q_start_def)
    qed
  qed
  ultimately have "tpn_ok t \<and> queue t = (\<lambda>a. case m a of None \<Rightarrow> [] | Some l \<Rightarrow> q_start base l)" by blast
  moreover have "tpnBaseFee t = base" by (simp add: t)
  ultimately show ?thesis by (simp only: base_def)
qed

section \<open>Best transaction first, nonces in order\<close>

inductive tpn_step :: "'x TransactionsByPriceAndNonce \<Rightarrow> 'x TransactionsByPriceAndNonce \<Rightarrow> bool" where
  shift: "tpn_Shift t = Inr t' \<Longrightarrow> tpn_step t t'"
| pop: "tpn_Pop t = Inr t' \<Longrightarrow> tpn_step t t'"

inductive_cases tpn_stepE: "tpn_step t t'"

lemma q_start_suffix: "suffix (q_start base l) l" by (auto simp: q_start_def split: list.splits)

lemma tpn_step_ok:
  assumes "tpn_step t t'" and "tpn_ok t"
  shows "tpn_ok t' \<and> tpnBaseFee t' = tpnBaseFee t \<and> (\<forall>a. suffix (queue t' a) (queue t a))"
proof (cases "tpnHeads t")
  case Nil
  then show ?thesis using assms(1) by (auto simp: tpn_Shift_def tpn_Pop_def heap_Pop_def tryE_Inr elim!: tpn_stepE)
next
  case (Cons h hs)
  have "suffix (q_start (tpnBaseFee t) (tl (queue t a))) (queue t a)" for a
    using q_start_suffix suffix_tl suffix_order.trans by blast
  then show ?thesis using assms(1) Shift_queue [OF assms(2) Cons] Pop_queue [OF assms(2) Cons] by (auto elim!: tpn_stepE)
qed

lemma tpn_steps_ok: "tpn_step\<^sup>*\<^sup>* t t' \<Longrightarrow> tpn_ok t \<Longrightarrow> tpn_ok t' \<and> tpnBaseFee t' = tpnBaseFee t \<and> (\<forall>a. suffix (queue t' a) (queue t a))"
proof (induction rule: rtranclp_induct)
  case (step u v)
  then have "tpn_ok v \<and> tpnBaseFee v = tpnBaseFee u \<and> (\<forall>a. suffix (queue v a) (queue u a))" using tpn_step_ok by blast
  then show ?case using step by (metis suffix_order.trans)
qed simp

text \<open>C20.
  The pool gives its best transaction first and keeps the order of nonces. Build the iterator over any pool, with
  the accounts in any order of the map, and advance it by any sequence of shifts and account drops. What is left
  of an account is always a tail of its list. The transaction shown is missing only when every account is
  used up; otherwise it is the first one left of its account, its fee is its effective tip, and no
  account has a first transaction left with a larger tip, or with the same tip and an earlier arrival. A shift then
  succeeds and moves this account alone to its next transaction, dropping the rest when that one cannot pay the
  base fee; a drop succeeds and removes this account alone.\<close>

theorem best_transaction_first:
  assumes "NewTransactionsByPriceAndNonce order m baseFee = Inr t0" and "distinct order" and "set order = dom m" and "tpn_step\<^sup>*\<^sup>* t0 t"
  shows "(\<forall>a. suffix (queue t a) (case m a of None \<Rightarrow> [] | Some l \<Rightarrow> l)) \<and>
    (case tpn_Peek t of None \<Rightarrow> \<forall>a. queue t a = []
     | Some (x, fee) \<Rightarrow> \<exists>a. hd (queue t a) = x \<and> queue t a \<noteq> [] \<and> fee = effectiveTip (tpnBaseFee t0) x \<and>
        (\<forall>b y r. queue t b = y # r \<longrightarrow> \<not> comes_first (tpnBaseFee t0) y x) \<and>
        (\<exists>t'. tpn_Shift t = Inr t' \<and> queue t' = (queue t)(a := q_start (tpnBaseFee t0) (tl (queue t a)))) \<and>
        (\<exists>t'. tpn_Pop t = Inr t' \<and> queue t' = (queue t)(a := [])))"
proof -
  have n: "tpn_ok t0" "queue t0 = (\<lambda>a. case m a of None \<Rightarrow> [] | Some l \<Rightarrow> q_start (tpnBaseFee t0) l)"
    using New_queue [OF assms(1-3)] by auto
  have s: "tpn_ok t" "tpnBaseFee t = tpnBaseFee t0" "\<And>a. suffix (queue t a) (queue t0 a)" using tpn_steps_ok [OF assms(4) n(1)] by auto
  have "suffix (queue t0 a) (case m a of None \<Rightarrow> [] | Some l \<Rightarrow> l)" for a using n(2) q_start_suffix by (auto split: option.splits)
  then have suf: "suffix (queue t a) (case m a of None \<Rightarrow> [] | Some l \<Rightarrow> l)" for a using s(3) suffix_order.trans by blast
  show ?thesis
  proof (cases "tpnHeads t")
    case Nil
    then show ?thesis using suf queue_empty [of t] by (simp add: tpn_Peek_def)
  next
    case (Cons h hs)
    have q: "queue t (hdFrom h) \<noteq> []" "hd (queue t (hdFrom h)) = hdTx h" using queue_head [OF s(1) Cons] by auto
    have f: "hdFees h = effectiveTip (tpnBaseFee t0) (hdTx h)" using s(1,2) Cons by (simp add: tpn_ok_def)
    show ?thesis using suf q f Peek_best [OF s(1) Cons] Shift_queue [OF s(1) Cons] Pop_queue [OF s(1) Cons] s(2) Cons
      by (auto simp: tpn_Peek_def intro!: exI [of _ "hdFrom h"])
  qed
qed

definition demo_lazy :: "string \<Rightarrow> int \<Rightarrow> int \<Rightarrow> int \<Rightarrow> string LazyTransaction" where
  "demo_lazy x time cap tip = \<lparr>lzTx = x, lzTime = time, lzGasFeeCap = cap, lzGasTipCap = tip\<rparr>"

definition demo_pool :: "addr \<rightharpoonup> string LazyTransaction list" where
  "demo_pool = [''alice'' \<mapsto> [demo_lazy ''a0'' 1 9 2, demo_lazy ''a1'' 2 5 1], ''bob'' \<mapsto> [demo_lazy ''b0'' 3 12 4, demo_lazy ''b1'' 4 20 1]]"

definition demo_tpn :: "string TransactionsByPriceAndNonce" where
  "demo_tpn = \<lparr>tpnTxs = [''alice'' \<mapsto> [demo_lazy ''a1'' 2 5 1], ''bob'' \<mapsto> [demo_lazy ''b1'' 4 20 1]],
     tpnHeads = [\<lparr>hdTx = demo_lazy ''b0'' 3 12 4, hdFrom = ''bob'', hdFees = 4\<rparr>, \<lparr>hdTx = demo_lazy ''a0'' 1 9 2, hdFrom = ''alice'', hdFees = 2\<rparr>],
     tpnBaseFee = Some 7\<rparr>"

lemma demo_tpn_new: "NewTransactionsByPriceAndNonce [''alice'', ''bob''] demo_pool (Some 7) = Inr demo_tpn"
  by (simp add: NewTransactionsByPriceAndNonce_def uint256_FromBig_def demo_pool_def new_fee payable_def effectiveTip_def demo_lazy_def demo_tpn_def
      heap_Init_def heap_down.simps smaller_child_def txLess_def swap_def fun_upd_twist)

text \<open>In a pool of two accounts, with base fee 7, the account with the larger tip is served first.\<close>

theorem best_transaction_first_witness:
  "NewTransactionsByPriceAndNonce [''alice'', ''bob''] demo_pool (Some 7) = Inr demo_tpn \<and>
   (\<exists>t'. tpn_Shift demo_tpn = Inr t' \<and> queue t' = (queue demo_tpn)(''bob'' := [demo_lazy ''b1'' 4 20 1]))"
proof -
  have "distinct [''alice'', ''bob'']" "set [''alice'', ''bob''] = dom demo_pool" by (auto simp: demo_pool_def split: if_splits)
  note b = best_transaction_first [OF demo_tpn_new this rtranclp.rtrancl_refl]
  have q: "queue demo_tpn ''alice'' = [demo_lazy ''a0'' 1 9 2, demo_lazy ''a1'' 2 5 1]" "queue demo_tpn ''bob'' = [demo_lazy ''b0'' 3 12 4, demo_lazy ''b1'' 4 20 1]"
    "\<And>a. a \<noteq> ''alice'' \<Longrightarrow> a \<noteq> ''bob'' \<Longrightarrow> queue demo_tpn a = []"
    by (simp_all add: queue_def demo_tpn_def)
  have p: "tpn_Peek demo_tpn = Some (demo_lazy ''b0'' 3 12 4, 4)" "tpnBaseFee demo_tpn = Some 7" by (simp_all add: tpn_Peek_def demo_tpn_def)
  obtain a t' where a: "hd (queue demo_tpn a) = demo_lazy ''b0'' 3 12 4" "queue demo_tpn a \<noteq> []"
    "tpn_Shift demo_tpn = Inr t'" "queue t' = (queue demo_tpn)(a := q_start (Some 7) (tl (queue demo_tpn a)))"
    using b p by auto
  have "a = ''bob''" using a(1,2) q by (cases "a = ''alice''"; cases "a = ''bob''") (auto simp: demo_lazy_def)
  then have "queue t' = (queue demo_tpn)(''bob'' := [demo_lazy ''b1'' 4 20 1])" using a(4) q by (simp add: q_start_def payable_def demo_lazy_def)
  then show ?thesis using a(3) demo_tpn_new by blast
qed

end
