(* ===== verification/Mempool_Iter.thy ===== *)
theory Mempool_Iter
  imports Mempool_Order Proposal
begin

text \<open>
  The mempool of the EVM fork (\<^verbatim>\<open>mempool/iterator.go\<close>, \<^verbatim>\<open>mempool/mempool.go\<close>, \<^verbatim>\<open>mempool/check_tx.go\<close>): one
  iterator over the Ethereum transactions of the pool and the Cosmos transactions of the SDK's mempool, chosen by
  effective tip; insertion, removal and the recheck that drops transactions the pool no longer holds.

  The transaction pool of go-ethereum, the SDK's mempool with its iterator, the decoder and the conversion of a
  signed Ethereum transaction are parameters. A panic is \<open>GoPanic\<close>.
\<close>

section \<open>The iterator\<close>

text \<open>\<open>ciTx\<close> and \<open>ciNext\<close> are the iterator of the SDK's mempool, \<open>feeTx\<close> the fee and gas of a transaction that
  has them, \<open>headerBaseFee\<close> the base fee of the current header, where there is one.\<close>

record ('t, 'x, 'm, 'c) iter_env =
  ciTx :: "'c \<Rightarrow> 't option"
  ciNext :: "'c \<Rightarrow> 'c option"
  feeTx :: "'t \<Rightarrow> (coins \<times> u64) option"
  iterDenom :: denom
  headerBaseFee :: "int option"
  FromSignedEthereumTx :: "'x \<Rightarrow> 'm res"
  BuildTx :: "'m \<Rightarrow> 't res"

record ('x, 'c) EVMMempoolIterator =
  evmIterator :: "'x TransactionsByPriceAndNonce option"
  cosmosIterator :: "'c option"
  lastReturnedFromEVM :: bool

definition getCurrentBaseFee :: "('t, 'x, 'm, 'c) iter_env \<Rightarrow> int option" where
  "getCurrentBaseFee E = (case headerBaseFee E of None \<Rightarrow> None | Some b \<Rightarrow> uint256_FromBig b)"

definition extractCosmosEffectiveTip :: "('t, 'x, 'm, 'c) iter_env \<Rightarrow> 't \<Rightarrow> int option res" where
  "extractCosmosEffectiveTip E tx =
     (case feeTx E tx of None \<Rightarrow> Inr None
      | Some (fees, gas) \<Rightarrow>
          let bondDenomFeeAmount = fold (\<lambda>coin amt. if Denom coin = iterDenom E then Amount coin else amt) fees 0 in
          if gas = 0 then Inl (GoPanic ''division by zero'')
          else case uint256_FromBig (IntQuo bondDenomFeeAmount (uint gas)) of
            None \<Rightarrow> Inr None
          | Some gasPrice \<Rightarrow>
              (case getCurrentBaseFee E of None \<Rightarrow> Inr (Some gasPrice)
               | Some baseFee \<Rightarrow> if gasPrice < baseFee then Inr (Some 0) else Inr (Some (gasPrice - baseFee))))"

definition getNextEVMTx :: "('x, 'c) EVMMempoolIterator \<Rightarrow> ('x LazyTransaction \<times> int) option" where
  "getNextEVMTx i = (case evmIterator i of None \<Rightarrow> None | Some t \<Rightarrow> tpn_Peek t)"

definition getNextCosmosTx :: "('t, 'x, 'm, 'c) iter_env \<Rightarrow> ('x, 'c) EVMMempoolIterator \<Rightarrow> ('t \<times> int) option res" where
  "getNextCosmosTx E i =
     (case cosmosIterator i of None \<Rightarrow> Inr None
      | Some c \<Rightarrow> (case ciTx E c of None \<Rightarrow> Inr None
          | Some tx \<Rightarrow> tryE (extractCosmosEffectiveTip E tx) (\<lambda>tip. Inr (Some (tx, case tip of None \<Rightarrow> 0 | Some v \<Rightarrow> v)))))"

definition shouldUseEVM :: "('t, 'x, 'm, 'c) iter_env \<Rightarrow> ('x, 'c) EVMMempoolIterator \<Rightarrow> bool res" where
  "shouldUseEVM E i =
     tryE (getNextCosmosTx E i) (\<lambda>nextCosmos.
     case getNextEVMTx i of None \<Rightarrow> Inr False
     | Some (_, evmFee) \<Rightarrow> (case nextCosmos of None \<Rightarrow> Inr True
         | Some (_, cosmosFee) \<Rightarrow> if cosmosFee = 0 then Inr True else Inr (\<not> evmFee < cosmosFee)))"

definition convertEVMToSDKTx :: "('t, 'x, 'm, 'c) iter_env \<Rightarrow> 'x LazyTransaction \<Rightarrow> 't option" where
  "convertEVMToSDKTx E nextEVMTx =
     (case FromSignedEthereumTx E (lzTx nextEVMTx) of Inl _ \<Rightarrow> None
      | Inr msgEthereumTx \<Rightarrow> (case BuildTx E msgEthereumTx of Inl _ \<Rightarrow> None | Inr cosmosTx \<Rightarrow> Some cosmosTx))"

definition getPreferredTransaction :: "('t, 'x, 'm, 'c) iter_env \<Rightarrow> ('x, 'c) EVMMempoolIterator \<Rightarrow> 'x LazyTransaction option \<Rightarrow> 't option \<Rightarrow>
    ('t option \<times> ('x, 'c) EVMMempoolIterator) res" where
  "getPreferredTransaction E i nextEVMTx nextCosmosTx =
     (if nextEVMTx = None \<and> nextCosmosTx = None then Inr (None, i)
      else tryE (shouldUseEVM E i) (\<lambda>useEVM.
        if useEVM then
          (case (case nextEVMTx of None \<Rightarrow> None | Some tx \<Rightarrow> convertEVMToSDKTx E tx) of
             Some evmTx \<Rightarrow> Inr (Some evmTx, i\<lparr>lastReturnedFromEVM := True\<rparr>)
           | None \<Rightarrow> Inr (nextCosmosTx, i\<lparr>lastReturnedFromEVM := False\<rparr>))
        else Inr (nextCosmosTx, i\<lparr>lastReturnedFromEVM := False\<rparr>)))"

definition iter_Tx :: "('t, 'x, 'm, 'c) iter_env \<Rightarrow> ('x, 'c) EVMMempoolIterator \<Rightarrow> ('t option \<times> ('x, 'c) EVMMempoolIterator) res" where
  "iter_Tx E i =
     tryE (getNextCosmosTx E i) (\<lambda>nextCosmos.
     getPreferredTransaction E i (map_option fst (getNextEVMTx i)) (map_option fst nextCosmos))"

definition advanceCurrentIterator :: "('t, 'x, 'm, 'c) iter_env \<Rightarrow> ('x, 'c) EVMMempoolIterator \<Rightarrow> ('x, 'c) EVMMempoolIterator res" where
  "advanceCurrentIterator E i =
     (if lastReturnedFromEVM i then
        (case evmIterator i of None \<Rightarrow> Inr i | Some t \<Rightarrow> tryE (tpn_Shift t) (\<lambda>t'. Inr (i\<lparr>evmIterator := Some t'\<rparr>)))
      else (case cosmosIterator i of None \<Rightarrow> Inr i | Some c \<Rightarrow> Inr (i\<lparr>cosmosIterator := ciNext E c\<rparr>)))"

definition hasMoreTransactions :: "('t, 'x, 'm, 'c) iter_env \<Rightarrow> ('x, 'c) EVMMempoolIterator \<Rightarrow> bool res" where
  "hasMoreTransactions E i = tryE (getNextCosmosTx E i) (\<lambda>nextCosmos. Inr (getNextEVMTx i \<noteq> None \<or> nextCosmos \<noteq> None))"

definition iter_Next :: "('t, 'x, 'm, 'c) iter_env \<Rightarrow> ('x, 'c) EVMMempoolIterator \<Rightarrow> ('x, 'c) EVMMempoolIterator option res" where
  "iter_Next E i =
     tryE (getNextCosmosTx E i) (\<lambda>nextCosmos.
     if getNextEVMTx i = None \<and> nextCosmos = None then Inr None
     else tryE (advanceCurrentIterator E i) (\<lambda>i1.
       tryE (hasMoreTransactions E i1) (\<lambda>more. Inr (if more then Some i1 else None))))"

definition PopCurrentAccount :: "('x, 'c) EVMMempoolIterator \<Rightarrow> ('x, 'c) EVMMempoolIterator res" where
  "PopCurrentAccount i =
     (case evmIterator i of None \<Rightarrow> Inr i
      | Some t \<Rightarrow> if tpn_Empty t then Inr i else if \<not> lastReturnedFromEVM i then Inr i
          else tryE (tpn_Pop t) (\<lambda>t'. Inr (i\<lparr>evmIterator := Some t'\<rparr>)))"

definition CurrentIsEVM :: "('x, 'c) EVMMempoolIterator \<Rightarrow> bool" where
  "CurrentIsEVM i = lastReturnedFromEVM i"

definition NewEVMMempoolIterator :: "('t, 'x, 'm, 'c) iter_env \<Rightarrow> 'x TransactionsByPriceAndNonce option \<Rightarrow> 'c option \<Rightarrow> ('x, 'c) EVMMempoolIterator option" where
  "NewEVMMempoolIterator E evmIter cosmosIter =
     (let hasEVM = (case evmIter of None \<Rightarrow> False | Some t \<Rightarrow> \<not> tpn_Empty t);
          hasCosmos = (case cosmosIter of None \<Rightarrow> False | Some c \<Rightarrow> ciTx E c \<noteq> None) in
      if \<not> hasEVM \<and> \<not> hasCosmos then None
      else Some \<lparr>evmIterator = evmIter, cosmosIterator = cosmosIter, lastReturnedFromEVM = False\<rparr>)"

section \<open>Selection\<close>

text \<open>\<open>Pending\<close> is what the pool returns for the filter of the code, \<open>order\<close> the order of the Go map,
  \<open>cosmosSelect\<close> the iterator of the SDK's mempool.\<close>

definition getIterators :: "addr list \<Rightarrow> int option \<Rightarrow> (int option \<Rightarrow> addr \<rightharpoonup> 'x LazyTransaction list) \<Rightarrow> 'c option \<Rightarrow>
    ('x TransactionsByPriceAndNonce \<times> 'c option) res" where
  "getIterators order baseFee Pending cosmosSelect =
     tryE (case baseFee of None \<Rightarrow> Inr None
           | Some b \<Rightarrow> (case uint256_FromBig b of None \<Rightarrow> Inl (GoPanic ''overflow'') | Some u \<Rightarrow> Inr (Some u))) (\<lambda>baseFeeUint.
     tryE (NewTransactionsByPriceAndNonce order (Pending baseFeeUint) baseFee) (\<lambda>t. Inr (t, cosmosSelect)))"

definition mempool_Select :: "('t, 'x, 'm, 'c) iter_env \<Rightarrow> addr list \<Rightarrow> int option \<Rightarrow> (int option \<Rightarrow> addr \<rightharpoonup> 'x LazyTransaction list) \<Rightarrow> 'c option \<Rightarrow>
    ('x, 'c) EVMMempoolIterator option res" where
  "mempool_Select E order baseFee Pending cosmosSelect =
     tryE (getIterators order baseFee Pending cosmosSelect) (\<lambda>(t, c). Inr (NewEVMMempoolIterator E (Some t) c))"

text \<open>The loop of \<open>SelectBy\<close>; the callback acts on a state \<open>'w\<close>. Out of fuel is \<open>None\<close>.\<close>

fun select_loop :: "('t, 'x, 'm, 'c) iter_env \<Rightarrow> ('t option \<Rightarrow> 'w \<Rightarrow> bool \<times> 'w) \<Rightarrow> nat \<Rightarrow> ('x, 'c) EVMMempoolIterator option \<Rightarrow> 'w \<Rightarrow> 'w res option" where
  "select_loop E f fuel None w = Some (Inr w)"
| "select_loop E f 0 (Some i) w = None"
| "select_loop E f (Suc fuel) (Some i) w =
     (case iter_Tx E i of Inl e \<Rightarrow> Some (Inl e)
      | Inr (tx, i1) \<Rightarrow> (case f tx w of
          (False, w1) \<Rightarrow> Some (Inr w1)
        | (True, w1) \<Rightarrow> (case iter_Next E i1 of Inl e \<Rightarrow> Some (Inl e) | Inr i2 \<Rightarrow> select_loop E f fuel i2 w1)))"

definition SelectBy :: "('t, 'x, 'm, 'c) iter_env \<Rightarrow> addr list \<Rightarrow> int option \<Rightarrow> (int option \<Rightarrow> addr \<rightharpoonup> 'x LazyTransaction list) \<Rightarrow> 'c option \<Rightarrow>
    ('t option \<Rightarrow> 'w \<Rightarrow> bool \<times> 'w) \<Rightarrow> nat \<Rightarrow> 'w \<Rightarrow> 'w res option" where
  "SelectBy E order baseFee Pending cosmosSelect f fuel w =
     (case mempool_Select E order baseFee Pending cosmosSelect of Inl e \<Rightarrow> Some (Inl e) | Inr i \<Rightarrow> select_loop E f fuel i w)"

section \<open>What the iterator shows\<close>

text \<open>The transactions that the SDK's iterator has left.\<close>

inductive cosmos_list :: "('t, 'x, 'm, 'c) iter_env \<Rightarrow> 'c option \<Rightarrow> 't list \<Rightarrow> bool" for E where
  none: "cosmos_list E None []"
| empty: "ciTx E c = None \<Longrightarrow> cosmos_list E (Some c) []"
| more: "ciTx E c = Some x \<Longrightarrow> cosmos_list E (ciNext E c) xs \<Longrightarrow> cosmos_list E (Some c) (x # xs)"

inductive_cases cosmos_listE: "cosmos_list E c xs"

text \<open>A transaction with a fee has a gas limit: the division by it does not panic.\<close>

definition has_gas :: "('t, 'x, 'm, 'c) iter_env \<Rightarrow> 't \<Rightarrow> bool" where
  "has_gas E tx = (case feeTx E tx of None \<Rightarrow> True | Some (_, gas) \<Rightarrow> gas \<noteq> 0)"

definition cosmosTip :: "('t, 'x, 'm, 'c) iter_env \<Rightarrow> 't \<Rightarrow> int" where
  "cosmosTip E tx = (case extractCosmosEffectiveTip E tx of Inr (Some v) \<Rightarrow> v | _ \<Rightarrow> 0)"

definition iter_ok :: "('t, 'x, 'm, 'c) iter_env \<Rightarrow> ('x, 'c) EVMMempoolIterator \<Rightarrow> 'x TransactionsByPriceAndNonce \<Rightarrow> 't list \<Rightarrow> bool" where
  "iter_ok E i t xs = (evmIterator i = Some t \<and> tpn_ok t \<and> cosmos_list E (cosmosIterator i) xs \<and> list_all (has_gas E) xs)"

definition convertible :: "('t, 'x, 'm, 'c) iter_env \<Rightarrow> 'x TransactionsByPriceAndNonce \<Rightarrow> bool" where
  "convertible E t = (\<forall>a. \<forall>x \<in> set (queue t a). convertEVMToSDKTx E x \<noteq> None)"

definition exhausted :: "'x TransactionsByPriceAndNonce \<Rightarrow> 't list \<Rightarrow> bool" where
  "exhausted t xs = (tpnHeads t = [] \<and> xs = [])"

lemma extract_tip: "has_gas E tx \<Longrightarrow> \<exists>tip. extractCosmosEffectiveTip E tx = Inr tip"
  by (auto simp: has_gas_def extractCosmosEffectiveTip_def Let_def split: option.splits)

lemma next_cosmos:
  assumes "iter_ok E i t xs"
  shows "getNextCosmosTx E i = Inr (case xs of [] \<Rightarrow> None | x # _ \<Rightarrow> Some (x, cosmosTip E x))"
proof -
  have l: "cosmos_list E (cosmosIterator i) xs" and g: "list_all (has_gas E) xs" using assms by (auto simp: iter_ok_def)
  from l show ?thesis
  proof cases
    case (more c x ys)
    then obtain tip where "extractCosmosEffectiveTip E x = Inr tip" using extract_tip g by force
    then show ?thesis using more by (simp add: getNextCosmosTx_def cosmosTip_def split: option.splits)
  qed (simp_all add: getNextCosmosTx_def)
qed

lemma next_evm: "iter_ok E i t xs \<Longrightarrow> getNextEVMTx i = (case tpnHeads t of [] \<Rightarrow> None | h # _ \<Rightarrow> Some (hdTx h, hdFees h))"
  by (simp add: getNextEVMTx_def iter_ok_def tpn_Peek_def)

lemma iter_ok_flag [simp]: "iter_ok E (i\<lparr>lastReturnedFromEVM := b\<rparr>) t xs = iter_ok E i t xs"
  by (simp add: iter_ok_def)

text \<open>The lane of the next transaction: a Cosmos transaction goes first only with a strictly larger tip.\<close>

definition lane :: "('t, 'x, 'm, 'c) iter_env \<Rightarrow> 'x TransactionsByPriceAndNonce \<Rightarrow> 't list \<Rightarrow> bool" where
  "lane E t xs = (case tpnHeads t of [] \<Rightarrow> False
     | h # _ \<Rightarrow> (case xs of [] \<Rightarrow> True | x # _ \<Rightarrow> cosmosTip E x = 0 \<or> cosmosTip E x \<le> hdFees h))"

lemma should_use: "iter_ok E i t xs \<Longrightarrow> shouldUseEVM E i = Inr (lane E t xs)"
  by (auto simp: shouldUseEVM_def next_cosmos next_evm lane_def split: list.splits)

lemma head_converts:
  assumes "iter_ok E i t xs" and "convertible E t" and "tpnHeads t = h # hs"
  obtains tx where "convertEVMToSDKTx E (hdTx h) = Some tx"
proof -
  have "hdTx h \<in> set (queue t (hdFrom h))" using queue_head [of t h hs] assms(1,3) by (simp add: iter_ok_def)
  then show thesis using assms(2) that by (auto simp: convertible_def)
qed

lemma Tx_shows:
  assumes "iter_ok E i t xs" and "convertible E t" and "\<not> exhausted t xs"
  shows "\<exists>tx. iter_Tx E i = Inr (Some tx, i\<lparr>lastReturnedFromEVM := lane E t xs\<rparr>) \<and>
    (if lane E t xs then \<exists>h hs. tpnHeads t = h # hs \<and> convertEVMToSDKTx E (hdTx h) = Some tx else \<exists>ys. xs = tx # ys)"
proof (cases "lane E t xs")
  case True
  then obtain h hs where h: "tpnHeads t = h # hs" by (auto simp: lane_def split: list.splits)
  obtain tx where "convertEVMToSDKTx E (hdTx h) = Some tx" using head_converts [OF assms(1,2) h] .
  then show ?thesis using True h assms(1)
    by (simp add: iter_Tx_def next_cosmos next_evm getPreferredTransaction_def should_use split: list.splits)
next
  case False
  then obtain tx ys where x: "xs = tx # ys" using assms(3) by (cases xs) (auto simp: lane_def exhausted_def split: list.splits)
  then show ?thesis using False assms(1) by (simp add: iter_Tx_def next_cosmos next_evm getPreferredTransaction_def should_use)
qed

lemma more_left: "iter_ok E i t xs \<Longrightarrow> hasMoreTransactions E i = Inr (\<not> exhausted t xs)"
  by (auto simp: hasMoreTransactions_def next_cosmos next_evm exhausted_def split: list.splits)

lemma cosmos_list_next: "cosmos_list E (Some c) (x # xs) \<Longrightarrow> cosmos_list E (ciNext E c) xs"
  by (auto elim: cosmos_listE)

lemma Next_moves:
  assumes "iter_ok E i t xs" and "\<not> exhausted t xs" and "lastReturnedFromEVM i = lane E t xs"
  shows "\<exists>j t' xs'. iter_Next E i = Inr (if exhausted t' xs' then None else Some j) \<and> iter_ok E j t' xs' \<and> tpnBaseFee t' = tpnBaseFee t \<and>
    (if lane E t xs then \<exists>h hs. tpnHeads t = h # hs \<and> xs' = xs \<and> queue t' = (queue t)(hdFrom h := q_start (tpnBaseFee t) (tl (queue t (hdFrom h))))
     else t' = t \<and> xs' = tl xs)"
proof (cases "lane E t xs")
  case True
  then obtain h hs where h: "tpnHeads t = h # hs" by (auto simp: lane_def split: list.splits)
  obtain t' where t: "tpn_Shift t = Inr t'" "tpn_ok t'" "tpnBaseFee t' = tpnBaseFee t"
    "queue t' = (queue t)(hdFrom h := q_start (tpnBaseFee t) (tl (queue t (hdFrom h))))" using Shift_queue [of t h hs] assms(1) h by (auto simp: iter_ok_def)
  define j where "j = i\<lparr>evmIterator := Some t'\<rparr>"
  have ok: "iter_ok E j t' xs" using assms(1) t(2) by (simp add: iter_ok_def j_def)
  have "advanceCurrentIterator E i = Inr j" using True assms(1,3) t(1) by (simp add: advanceCurrentIterator_def iter_ok_def j_def)
  then have "iter_Next E i = Inr (if exhausted t' xs then None else Some j)"
    using h assms(1) more_left [OF ok] by (simp add: iter_Next_def next_cosmos next_evm)
  then show ?thesis using ok t True h by auto
next
  case False
  then obtain x ys where x: "xs = x # ys" using assms(2) by (cases xs) (auto simp: lane_def exhausted_def split: list.splits)
  then obtain c where c: "cosmosIterator i = Some c" using assms(1) by (auto simp: iter_ok_def elim: cosmos_listE)
  define j where "j = i\<lparr>cosmosIterator := ciNext E c\<rparr>"
  have ok: "iter_ok E j t ys" using assms(1) x c cosmos_list_next [of E c x ys] by (simp add: iter_ok_def j_def)
  have "advanceCurrentIterator E i = Inr j" using False assms(3) c by (simp add: advanceCurrentIterator_def j_def)
  then have "iter_Next E i = Inr (if exhausted t ys then None else Some j)"
    using x assms(1) more_left [OF ok] by (simp add: iter_Next_def next_cosmos next_evm)
  then show ?thesis using ok False x by auto
qed

section \<open>A complete selection\<close>

definition left :: "addr set \<Rightarrow> 'x TransactionsByPriceAndNonce \<Rightarrow> nat" where
  "left A t = (\<Sum>a \<in> A. length (queue t a))"

abbreviation collect :: "'t option \<Rightarrow> 't option list \<Rightarrow> bool \<times> 't option list" where
  "collect tx seen \<equiv> (True, seen @ [tx])"

lemma q_start_length: "length (q_start base l) \<le> length l" by (auto simp: q_start_def split: list.splits)

lemma q_start_set: "set (q_start base l) \<subseteq> set l" by (auto simp: q_start_def split: list.splits if_splits)

lemma takeWhile_start: "takeWhile (payable base) (q_start base l) = takeWhile (payable base) l"
  by (auto simp: q_start_def split: list.splits)

lemma left_shift:
  assumes "finite A" and "a \<in> A" and "queue t a \<noteq> []" and "queue t' = (queue t)(a := q_start base (tl (queue t a)))"
  shows "left A t' < left A t"
proof -
  have "length (queue t' a) < length (queue t a)" using assms(3,4) q_start_length [of base "tl (queue t a)"] by (cases "queue t a") auto
  moreover have "length (queue t' b) \<le> length (queue t b)" if "b \<in> A" for b using calculation assms(4) by (cases "b = a") auto
  ultimately show ?thesis unfolding left_def using assms(1,2) by (intro sum_strict_mono_ex1) auto
qed

lemma convertible_shift:
  assumes "convertible E t" and "queue t' = (queue t)(a := q_start base (tl (queue t a)))"
  shows "convertible E t'"
proof -
  have "set (q_start base (tl (queue t a))) \<subseteq> set (queue t a)" using q_start_set [of base "tl (queue t a)"] by (cases "queue t a") auto
  then have "set (queue t' b) \<subseteq> set (queue t b)" for b using assms(2) by simp
  then show ?thesis using assms(1) unfolding convertible_def by blast
qed

lemma head_payable: "tpn_ok t \<Longrightarrow> tpnHeads t = h # hs \<Longrightarrow> payable (tpnBaseFee t) (hdTx h)" by (simp add: tpn_ok_def)

lemma select_visits:
  assumes "iter_ok E i t xs" and "convertible E t" and "\<not> exhausted t xs" and "finite A" and "\<forall>a. queue t a \<noteq> [] \<longrightarrow> a \<in> A"
    and "left A t + length xs \<le> fuel"
  shows "\<exists>evm out. select_loop E collect fuel (Some i) w = Some (Inr (w @ map Some out)) \<and>
    out \<in> shuffles (map (\<lambda>p. the (convertEVMToSDKTx E (snd p))) evm) xs \<and>
    (\<forall>a. map snd (filter (\<lambda>p. fst p = a) evm) = takeWhile (payable (tpnBaseFee t)) (queue t a))"
  using assms
proof (induction "left A t + length xs" arbitrary: i t xs fuel w rule: less_induct)
  case less
  obtain tx where x: "iter_Tx E i = Inr (Some tx, i\<lparr>lastReturnedFromEVM := lane E t xs\<rparr>)"
    "if lane E t xs then \<exists>h hs. tpnHeads t = h # hs \<and> convertEVMToSDKTx E (hdTx h) = Some tx else \<exists>ys. xs = tx # ys"
    using Tx_shows [OF less.prems(1-3)] by blast
  obtain j t' xs' where n: "iter_Next E (i\<lparr>lastReturnedFromEVM := lane E t xs\<rparr>) = Inr (if exhausted t' xs' then None else Some j)"
    "iter_ok E j t' xs'" "tpnBaseFee t' = tpnBaseFee t"
    "if lane E t xs then \<exists>h hs. tpnHeads t = h # hs \<and> xs' = xs \<and> queue t' = (queue t)(hdFrom h := q_start (tpnBaseFee t) (tl (queue t (hdFrom h))))
     else t' = t \<and> xs' = tl xs"
    using Next_moves [of E "i\<lparr>lastReturnedFromEVM := lane E t xs\<rparr>" t xs] less.prems(1,3) by auto
  have ok: "tpn_ok t" using less.prems(1) by (simp add: iter_ok_def)
  have c: "convertible E t'" using n(4) less.prems(2) by (cases "lane E t xs") (auto intro: convertible_shift)
  have sub: "\<forall>a. queue t' a \<noteq> [] \<longrightarrow> a \<in> A" 
  proof (cases "lane E t xs")
    case True
    then obtain h hs where "tpnHeads t = h # hs" "queue t' = (queue t)(hdFrom h := q_start (tpnBaseFee t) (tl (queue t (hdFrom h))))" using n(4) by auto
    then show ?thesis using less.prems(5) queue_head [OF ok] by auto
  qed (use n(4) less.prems(5) in simp)
  have step: "left A t' + length xs' < left A t + length xs"
  proof (cases "lane E t xs")
    case True
    then obtain h hs where h: "tpnHeads t = h # hs" "xs' = xs" "queue t' = (queue t)(hdFrom h := q_start (tpnBaseFee t) (tl (queue t (hdFrom h))))" using n(4) by auto
    have "queue t (hdFrom h) \<noteq> []" using queue_head [OF ok h(1)] by simp
    then show ?thesis using left_shift [OF less.prems(4) _ _ h(3)] less.prems(5) h(2) by simp
  qed (use n(4) x(2) in auto)
  obtain f where f: "fuel = Suc f" "left A t' + length xs' \<le> f" using step less.prems(6) by (cases fuel) auto
  have "\<exists>evm out. select_loop E collect f (if exhausted t' xs' then None else Some j) (w @ [Some tx]) = Some (Inr ((w @ [Some tx]) @ map Some out)) \<and>
    out \<in> shuffles (map (\<lambda>p. the (convertEVMToSDKTx E (snd p))) evm) xs' \<and>
    (\<forall>a. map snd (filter (\<lambda>p. fst p = a) evm) = takeWhile (payable (tpnBaseFee t)) (queue t' a))"
  proof (cases "exhausted t' xs'")
    case True
    then have "queue t' a = []" for a using queue_empty [of t'] by (simp add: exhausted_def)
    then show ?thesis using True by (auto simp: exhausted_def intro!: exI [of _ "[]"])
  next
    case False
    then show ?thesis using less.hyps [OF step n(2) c False less.prems(4) sub f(2), of "w @ [Some tx]"] n(3) by simp
  qed
  then obtain evm out where e: "select_loop E collect f (if exhausted t' xs' then None else Some j) (w @ [Some tx]) = Some (Inr ((w @ [Some tx]) @ map Some out))"
    "out \<in> shuffles (map (\<lambda>p. the (convertEVMToSDKTx E (snd p))) evm) xs'"
    "\<And>a. map snd (filter (\<lambda>p. fst p = a) evm) = takeWhile (payable (tpnBaseFee t)) (queue t' a)" by blast
  have l: "select_loop E collect fuel (Some i) w = Some (Inr (w @ map Some (tx # out)))" using x(1) n(1) e(1) f(1) by simp
  show ?case
  proof (cases "lane E t xs")
    case True
    then obtain h hs where h: "tpnHeads t = h # hs" "xs' = xs" "queue t' = (queue t)(hdFrom h := q_start (tpnBaseFee t) (tl (queue t (hdFrom h))))"
      "convertEVMToSDKTx E (hdTx h) = Some tx" using n(4) x(2) by auto
    have "tx # out \<in> shuffles (map (\<lambda>p. the (convertEVMToSDKTx E (snd p))) ((hdFrom h, hdTx h) # evm)) xs" using e(2) h(2,4) by (simp add: Cons_in_shuffles_iff)
    moreover have "map snd (filter (\<lambda>p. fst p = a) ((hdFrom h, hdTx h) # evm)) = takeWhile (payable (tpnBaseFee t)) (queue t a)" for a
      using e(3) [of a] h(3) queue_head [OF ok h(1)] head_payable [OF ok h(1)] by (cases "a = hdFrom h") (auto simp: takeWhile_start)
    ultimately show ?thesis using l by blast
  next
    case False
    then have "tx # out \<in> shuffles (map (\<lambda>p. the (convertEVMToSDKTx E (snd p))) evm) xs" "t' = t" using e(2) n(4) x(2) by (auto simp: Cons_in_shuffles_iff)
    then show ?thesis using l e(3) by blast
  qed
qed

lemma new_heads_runs:
  "distinct order \<Longrightarrow> \<forall>a \<in> set order. \<exists>x r. txs a = Some (x # r) \<Longrightarrow> \<exists>txs1 hs. new_heads base order txs heads = Inr (txs1, hs)"
proof (induction order arbitrary: txs heads)
  case (Cons a order)
  then obtain x r where x: "txs a = Some (x # r)" by auto
  have "\<exists>txs1 hs. new_heads base order (txs(a := v)) hs0 = Inr (txs1, hs)" for v hs0 using Cons by auto
  then show ?case using x by (simp add: new_fee)
qed simp

definition base_fits256 :: "int option \<Rightarrow> bool" where
  "base_fits256 baseFee = (case baseFee of None \<Rightarrow> True | Some b \<Rightarrow> 0 \<le> b \<and> b < 2 ^ 256)"

lemma getIterators_runs:
  assumes "base_fits256 baseFee" and "distinct order" and "set order = dom (Pending baseFee)" and "\<forall>l \<in> ran (Pending baseFee). l \<noteq> []"
  shows "\<exists>t. getIterators order baseFee Pending cs = Inr (t, cs) \<and> tpn_ok t \<and> tpnBaseFee t = baseFee \<and>
    queue t = (\<lambda>a. case Pending baseFee a of None \<Rightarrow> [] | Some l \<Rightarrow> q_start baseFee l)"
proof -
  have "\<exists>x r. Pending baseFee a = Some (x # r)" if "a \<in> set order" for a
  proof -
    have "a \<in> dom (Pending baseFee)" using that assms(3) by simp
    then obtain l where l: "Pending baseFee a = Some l" by (auto simp: dom_def)
    then have "l \<noteq> []" using assms(4) by (auto simp: ran_def)
    then show ?thesis using l by (cases l) auto
  qed
  then obtain txs1 hs where h: "new_heads baseFee order (Pending baseFee) [] = Inr (txs1, hs)" using new_heads_runs [OF assms(2)] by blast
  have u: "(case baseFee of None \<Rightarrow> Inr None | Some b \<Rightarrow> (case uint256_FromBig b of None \<Rightarrow> Inl (GoPanic ''overflow'') | Some u \<Rightarrow> Inr (Some u))) = Inr baseFee"
    using assms(1) by (cases baseFee) (auto simp: base_fits256_def uint256_FromBig_def)
  obtain t where t: "NewTransactionsByPriceAndNonce order (Pending baseFee) baseFee = Inr t" using h by (simp add: NewTransactionsByPriceAndNonce_def u)
  have b: "(case baseFee of None \<Rightarrow> None | Some b \<Rightarrow> Some (b mod 2 ^ 256)) = baseFee" using assms(1) by (cases baseFee) (auto simp: base_fits256_def)
  note n = New_queue [OF t assms(2,3), unfolded b]
  have e: "tpnBaseFee t = baseFee" using n by blast
  show ?thesis using n [unfolded e] e t by (simp add: getIterators_def u)
qed

lemma select_start:
  assumes "base_fits256 baseFee" and "distinct order" and "set order = dom (Pending baseFee)" and "\<forall>l \<in> ran (Pending baseFee). l \<noteq> []"
    and "\<forall>l \<in> ran (Pending baseFee). \<forall>x \<in> set l. convertEVMToSDKTx E x \<noteq> None" and "cosmos_list E cs xs" and "list_all (has_gas E) xs"
  shows "\<exists>t i. mempool_Select E order baseFee Pending cs = Inr (if exhausted t xs then None else Some i) \<and> iter_ok E i t xs \<and> convertible E t \<and>
    tpnBaseFee t = baseFee \<and> queue t = (\<lambda>a. case Pending baseFee a of None \<Rightarrow> [] | Some l \<Rightarrow> q_start baseFee l) \<and>
    (\<forall>a. queue t a \<noteq> [] \<longrightarrow> a \<in> set order) \<and> left (set order) t \<le> (\<Sum>a \<in> set order. length (the (Pending baseFee a)))"
proof -
  obtain t where t: "getIterators order baseFee Pending cs = Inr (t, cs)" "tpn_ok t" "tpnBaseFee t = baseFee"
    "queue t = (\<lambda>a. case Pending baseFee a of None \<Rightarrow> [] | Some l \<Rightarrow> q_start baseFee l)" using getIterators_runs [where Pending = Pending and baseFee = baseFee, OF assms(1-4)] by blast
  define i where "i = \<lparr>evmIterator = Some t, cosmosIterator = cs, lastReturnedFromEVM = False\<rparr>"
  have ok: "iter_ok E i t xs" using t(2) assms(6,7) by (simp add: iter_ok_def i_def)
  have "(case cs of None \<Rightarrow> False | Some c \<Rightarrow> ciTx E c \<noteq> None) \<longleftrightarrow> xs \<noteq> []" using assms(6) by (auto elim: cosmos_listE)
  then have "NewEVMMempoolIterator E (Some t) cs = (if exhausted t xs then None else Some i)"
    by (auto simp: NewEVMMempoolIterator_def exhausted_def tpn_Empty_def i_def Let_def)
  moreover have "convertEVMToSDKTx E x \<noteq> None" if x: "x \<in> set (queue t a)" for x a
  proof (cases "Pending baseFee a")
    case (Some l)
    then have "x \<in> set l" "l \<in> ran (Pending baseFee)" using x t(4) q_start_set [of baseFee l] by (auto intro: ranI)
    then show ?thesis using assms(5) by blast
  qed (use x t(4) in simp)
  then have "convertible E t" by (simp add: convertible_def)
  moreover have "a \<in> set order" if "queue t a \<noteq> []" for a using that t(4) assms(3) by (auto split: option.splits)
  moreover have "left (set order) t \<le> (\<Sum>a \<in> set order. length (the (Pending baseFee a)))"
    unfolding left_def using t(4) q_start_length by (intro sum_mono) (auto split: option.splits)
  ultimately show ?thesis using t ok by (auto simp: mempool_Select_def)
qed

text \<open>C18.
  A selection shows every transaction once and ends. Let the pool hold no empty list, every Ethereum transaction
  in it be convertible, and every Cosmos transaction with a fee have a gas limit. Then \<open>SelectBy\<close> with a callback
  that never stops it ends within as many rounds as there are transactions. What the callback has seen is a merge of
  the Cosmos transactions, all of them and in their order, with Ethereum transactions; and the Ethereum
  transactions of every account are seen once each, in the order of the pool, up to the first that cannot pay
  the base fee.\<close>

theorem selection_shows_everything_once:
  assumes "base_fits256 baseFee" and "distinct order" and "set order = dom (Pending baseFee)" and "\<forall>l \<in> ran (Pending baseFee). l \<noteq> []"
    and "\<forall>l \<in> ran (Pending baseFee). \<forall>x \<in> set l. convertEVMToSDKTx E x \<noteq> None" and "cosmos_list E cs xs" and "list_all (has_gas E) xs"
    and "(\<Sum>a \<in> set order. length (the (Pending baseFee a))) + length xs \<le> fuel"
  shows "\<exists>evm out. SelectBy E order baseFee Pending cs collect fuel [] = Some (Inr (map Some out)) \<and>
    out \<in> shuffles (map (\<lambda>p. the (convertEVMToSDKTx E (snd p))) evm) xs \<and>
    (\<forall>a. map snd (filter (\<lambda>p. fst p = a) evm) = (case Pending baseFee a of None \<Rightarrow> [] | Some l \<Rightarrow> takeWhile (payable baseFee) l))"
proof -
  obtain t i where i: "mempool_Select E order baseFee Pending cs = Inr (if exhausted t xs then None else Some i)" "iter_ok E i t xs" "convertible E t"
    "tpnBaseFee t = baseFee" "queue t = (\<lambda>a. case Pending baseFee a of None \<Rightarrow> [] | Some l \<Rightarrow> q_start baseFee l)"
    "\<forall>a. queue t a \<noteq> [] \<longrightarrow> a \<in> set order" "left (set order) t \<le> (\<Sum>a \<in> set order. length (the (Pending baseFee a)))"
    using select_start [where Pending = Pending and baseFee = baseFee, OF assms(1-7)] by blast
  have q: "takeWhile (payable baseFee) (queue t a) = (case Pending baseFee a of None \<Rightarrow> [] | Some l \<Rightarrow> takeWhile (payable baseFee) l)" for a
    using i(5) by (auto simp: takeWhile_start split: option.splits)
  show ?thesis
  proof (cases "exhausted t xs")
    case True
    then have "queue t a = []" for a using queue_empty [of t] by (simp add: exhausted_def)
    then show ?thesis using True i(1) q by (auto simp: SelectBy_def exhausted_def intro!: exI [of _ "[]"])
  next
    case False
    then show ?thesis using select_visits [OF i(2,3) False _ i(6), of fuel "[]"] i(1,4,7) q assms(8) by (simp add: SelectBy_def)
  qed
qed

text \<open>C35.
  A Cosmos transaction waits for the Ethereum transactions unless its price in the small Cosmos unit reaches the
  base fee in the unit of the EVM. The fee of a Cosmos transaction is divided by its gas in units of
  \<^verbatim>\<open>ustoc\<close> and compared with the base fee of the header and the tips of the pool, which are in \<^verbatim>\<open>astoc\<close>: as long as
  the fee is below gas times the number that the header holds, the iterator shows an Ethereum transaction while
  one is left, whatever its tip.\<close>

theorem cosmos_waits_for_evm:
  assumes "iter_ok E i t (x # xs)" and "convertible E t" and "tpnHeads t \<noteq> []" and "feeTx E x = Some (fees, gas)"
    and "headerBaseFee E = Some b" and "b < 2 ^ 256"
    and "0 \<le> fold (\<lambda>coin amt. if Denom coin = iterDenom E then Amount coin else amt) fees 0"
    and "fold (\<lambda>coin amt. if Denom coin = iterDenom E then Amount coin else amt) fees 0 < uint gas * b"
  shows "\<exists>a y r. queue t a = y # r \<and> map_option fst (tpn_Peek t) = Some y \<and>
    (\<exists>tx. convertEVMToSDKTx E y = Some tx \<and> iter_Tx E i = Inr (Some tx, i\<lparr>lastReturnedFromEVM := True\<rparr>))"
proof -
  define f where "f = fold (\<lambda>coin amt. if Denom coin = iterDenom E then Amount coin else amt) fees 0"
  obtain h hs where h: "tpnHeads t = h # hs" using assms(3) by (cases "tpnHeads t") auto
  have g0: "gas \<noteq> 0" using assms(1,4) by (simp add: iter_ok_def has_gas_def)
  then have "uint gas \<noteq> 0" by (simp add: uint_0_iff)
  then have g: "gas \<noteq> 0" "0 < uint gas" using g0 uint_ge_0 [of gas] by (auto simp: order_less_le simp del: uint_ge_0)
  have b: "0 < b" using le_less_trans [OF assms(7,8)] g(2) by (simp add: zero_less_mult_iff)
  have f: "0 \<le> f" "f < b * uint gas" using assms(7,8) by (simp_all add: f_def mult.commute)
  have "f div uint gas < b"
  proof (rule ccontr)
    assume "\<not> f div uint gas < b"
    then have "b * uint gas \<le> f div uint gas * uint gas" using g(2) by simp
    also have "\<dots> \<le> f" using minus_mod_eq_div_mult [of f "uint gas"] pos_mod_sign [OF g(2), of f] by linarith
    finally show False using f(2) by simp
  qed
  then have q: "IntQuo f (uint gas) = f div uint gas" "0 \<le> f div uint gas" "f div uint gas < b"
    using f(1) g(2) by (simp_all add: IntQuo_def pos_imp_zdiv_nonneg_iff)
  have p: "uint256_FromBig (IntQuo f (uint gas)) = Some (f div uint gas)" "getCurrentBaseFee E = Some b"
    using q assms(5,6) b by (simp_all add: uint256_FromBig_def getCurrentBaseFee_def)
  have "cosmosTip E x = 0" using assms(4) g(1) q(3) p by (simp add: cosmosTip_def extractCosmosEffectiveTip_def f_def [symmetric] Let_def)
  then have l: "lane E t (x # xs)" using h by (simp add: lane_def)
  obtain tx where "iter_Tx E i = Inr (Some tx, i\<lparr>lastReturnedFromEVM := True\<rparr>)" "convertEVMToSDKTx E (hdTx h) = Some tx"
    using Tx_shows [OF assms(1,2)] l h by (auto simp: exhausted_def)
  then show ?thesis using queue_head [of t h hs] assms(1) h by (auto simp: iter_ok_def tpn_Peek_def)
qed

section \<open>The iterator in a block proposal\<close>

text \<open>The handler of proposals reads the transaction before it asks the iterator anything else: the iterator it
  then uses is the one that \<open>iter_Tx\<close> has left.\<close>

definition with_iter :: "('t, 'x, 'm, 'c) iter_env \<Rightarrow> ('w, 't, ('x, 'c) EVMMempoolIterator) proposal_api \<Rightarrow> ('w, 't, ('x, 'c) EVMMempoolIterator) proposal_api" where
  "with_iter E P = P\<lparr>
     it_Tx := \<lambda>i. tryE (iter_Tx E i) (\<lambda>(tx, _). Inr tx),
     it_Next := \<lambda>i w. (tryE (iter_Tx E i) (\<lambda>(_, i1). iter_Next E i1), w),
     it_CurrentIsEVM := \<lambda>i. case iter_Tx E i of Inl _ \<Rightarrow> None | Inr (_, i1) \<Rightarrow> Some (CurrentIsEVM i1),
     it_PopCurrentAccount := \<lambda>i w. (tryE (iter_Tx E i) (\<lambda>(_, i1). PopCurrentAccount i1), w)\<rparr>"

text \<open>A round that goes on has asked for the next transaction or dropped the account of an Ethereum one.\<close>

lemma round_moves:
  assumes "prop_round P it memTx st w = (Continue, st', w')"
  shows "(\<exists>w0. fst (it_Next P it w0) = Inr (piter st')) \<or>
    (\<exists>w0 it'. fst (it_PopCurrentAccount P it w0) = Inr it' \<and> piter st' = Some it' \<and> it_CurrentIsEVM P it = Some True)"
proof -
  have n: "\<exists>w0. fst (it_Next P it w0) = Inr (piter st')" if "next_iter P it s v = (Continue, st', w')" for s v
    using that by (auto simp: next_iter_def split: prod.splits sum.splits)
      (metis fst_conv proposal_state.select_convs(1) proposal_state.surjective proposal_state.update_convs(1))+
  have v: "(\<exists>w0. fst (it_Next P it w0) = Inr (piter st')) \<or>
      (\<exists>w0 it'. fst (it_PopCurrentAccount P it w0) = Inr it' \<and> piter st' = Some it' \<and> it_CurrentIsEVM P it = Some True)"
    if "verify_failed P it memTx e s v = (Continue, st', w')" for e s v
    using that n by (auto simp: verify_failed_def Let_def split: if_splits prod.splits sum.splits) (metis fst_conv)+
  have t: "(\<exists>w0. fst (it_Next P it w0) = Inr (piter st')) \<or>
      (\<exists>w0 it'. fst (it_PopCurrentAccount P it w0) = Inr it' \<and> piter st' = Some it' \<and> it_CurrentIsEVM P it = Some True)"
    if "prop_tx P it memTx s v = (Continue, st', w')" for s v
    using that n v by (auto simp: prop_tx_def select_tx_def Let_def split: if_splits prod.splits sum.splits)
  show ?thesis using assms n t by (auto simp: prop_round_def Let_def split: if_splits)
qed

lemma left_pop:
  assumes "finite A" and "a \<in> A" and "queue t a \<noteq> []" and "queue t' = (queue t)(a := [])"
  shows "left A t' < left A t"
  unfolding left_def using assms by (intro sum_strict_mono_ex1) auto

lemma Pop_drops:
  assumes "iter_ok E i t xs" and "convertible E t" and "\<not> exhausted t xs" and "lane E t xs"
  shows "\<exists>h hs t' j. tpnHeads t = h # hs \<and> PopCurrentAccount (i\<lparr>lastReturnedFromEVM := True\<rparr>) = Inr j \<and> iter_ok E j t' xs \<and>
    convertible E t' \<and> queue t' = (queue t)(hdFrom h := [])"
proof -
  obtain h hs where h: "tpnHeads t = h # hs" using assms(4) by (auto simp: lane_def split: list.splits)
  obtain t' where t: "tpn_Pop t = Inr t'" "tpn_ok t'" "queue t' = (queue t)(hdFrom h := [])"
    using Pop_queue [of t h hs] assms(1) h by (auto simp: iter_ok_def)
  have "PopCurrentAccount (i\<lparr>lastReturnedFromEVM := True\<rparr>) = Inr (i\<lparr>lastReturnedFromEVM := True, evmIterator := Some t'\<rparr>)"
    using t(1) h assms(1) by (simp add: PopCurrentAccount_def iter_ok_def tpn_Empty_def)
  moreover have "iter_ok E (i\<lparr>lastReturnedFromEVM := True, evmIterator := Some t'\<rparr>) t' xs" using assms(1) t(2) by (simp add: iter_ok_def)
  moreover have "convertible E t'" using assms(2) t(3) by (simp add: convertible_def)
  ultimately show ?thesis using h t(3) by blast
qed

lemma round_shrinks:
  assumes "iter_ok E i t xs" and "convertible E t" and "\<not> exhausted t xs" and "finite A" and "\<forall>a. queue t a \<noteq> [] \<longrightarrow> a \<in> A"
    and "prop_round (with_iter E P) i memTx st w = (Continue, st', w')"
  shows "piter st' = None \<or> (\<exists>j t' xs'. piter st' = Some j \<and> iter_ok E j t' xs' \<and> convertible E t' \<and> (\<forall>a. queue t' a \<noteq> [] \<longrightarrow> a \<in> A) \<and>
    left A t' + length xs' < left A t + length xs)"
proof -
  let ?i = "i\<lparr>lastReturnedFromEVM := lane E t xs\<rparr>"
  obtain tx where x: "iter_Tx E i = Inr (Some tx, ?i)" using Tx_shows [OF assms(1-3)] by blast
  have ok: "tpn_ok t" using assms(1) by (simp add: iter_ok_def)
  have a: "hdFrom h \<in> A" "queue t (hdFrom h) \<noteq> []" if "tpnHeads t = h # hs" for h hs using queue_head [OF ok that] assms(5) by auto
  consider "iter_Next E ?i = Inr (piter st')" | j where "lane E t xs" "PopCurrentAccount ?i = Inr j" "piter st' = Some j"
    using round_moves [OF assms(6)] x by (auto simp: with_iter_def CurrentIsEVM_def)
  then show ?thesis
  proof cases
    case 1
    obtain j t' xs' where n: "iter_Next E ?i = Inr (if exhausted t' xs' then None else Some j)" "iter_ok E j t' xs'"
      "if lane E t xs then \<exists>h hs. tpnHeads t = h # hs \<and> xs' = xs \<and> queue t' = (queue t)(hdFrom h := q_start (tpnBaseFee t) (tl (queue t (hdFrom h))))
       else t' = t \<and> xs' = tl xs"
      using Next_moves [of E ?i t xs] assms(1,3) by auto
    have "convertible E t' \<and> (\<forall>a. queue t' a \<noteq> [] \<longrightarrow> a \<in> A) \<and> left A t' + length xs' < left A t + length xs"
    proof (cases "lane E t xs")
      case True
      then obtain h hs where h: "tpnHeads t = h # hs" "xs' = xs" "queue t' = (queue t)(hdFrom h := q_start (tpnBaseFee t) (tl (queue t (hdFrom h))))"
        using n(3) by auto
      then show ?thesis using left_shift [OF assms(4) a [OF h(1)] h(3)] convertible_shift [OF assms(2) h(3)] a(1) [OF h(1)] assms(5) by auto
    next
      case False
      then have "xs \<noteq> []" using assms(3) by (auto simp: lane_def exhausted_def split: list.splits)
      then show ?thesis using False n(3) assms(2,5) by (auto simp: neq_Nil_conv)
    qed
    moreover have "piter st' = (if exhausted t' xs' then None else Some j)" using 1 n(1) by simp
    ultimately show ?thesis using n(2) by metis
  next
    case 2
    obtain h hs t' j' where h: "tpnHeads t = h # hs" "PopCurrentAccount ?i = Inr j'" "iter_ok E j' t' xs" "convertible E t'" "queue t' = (queue t)(hdFrom h := [])"
      using Pop_drops [OF assms(1-3) 2(1)] 2(1) by auto
    have "\<forall>a. queue t' a \<noteq> [] \<longrightarrow> a \<in> A" using h(5) assms(5) by simp
    moreover have "left A t' + length xs < left A t + length xs" using left_pop [OF assms(4) a [OF h(1)] h(5)] by simp
    moreover have "piter st' = Some j'" using 2(2,3) h(2) by simp
    ultimately show ?thesis using h(3,4) by blast
  qed
qed

lemma Tx_exhausted: "iter_ok E i t xs \<Longrightarrow> exhausted t xs \<Longrightarrow> iter_Tx E i = Inr (None, i)"
  by (simp add: iter_Tx_def next_cosmos next_evm getPreferredTransaction_def exhausted_def)

lemma loop_rounds:
  assumes "piter st = Some i \<Longrightarrow> iter_ok E i t xs \<and> convertible E t \<and> (\<forall>a. queue t a \<noteq> [] \<longrightarrow> a \<in> A)" and "piter st = None \<or> piter st = Some i" and "finite A"
    and "prop_loop (with_iter E P) n st w = (fl, st', w', n')"
  shows "n' \<le> n + (left A t + length xs)"
  using assms
proof (induction "left A t + length xs" arbitrary: i t xs st w n rule: less_induct)
  case less
  show ?case
  proof (cases "piter st")
    case None
    then show ?thesis using less.prems(4) by (simp add: prop_loop.simps)
  next
    case (Some i0)
    then have i: "piter st = Some i" "iter_ok E i t xs" "convertible E t" "\<forall>a. queue t a \<noteq> [] \<longrightarrow> a \<in> A" using less.prems(1,2) by auto
    show ?thesis
    proof (cases "exhausted t xs")
      case True
      then show ?thesis using less.prems(4) i(1) Tx_exhausted [OF i(2)] by (subst (asm) prop_loop.simps) (simp add: with_iter_def)
    next
      case False
      obtain tx where x: "it_Tx (with_iter E P) i = Inr (Some tx)" using Tx_shows [OF i(2,3) False] by (auto simp: with_iter_def)
      have pos: "1 \<le> left A t + length xs"
      proof (cases "tpnHeads t")
        case (Cons h hs)
        have "queue t (hdFrom h) \<noteq> []" using queue_head [of t h hs] i(2) Cons by (simp add: iter_ok_def)
        then show ?thesis using i(4) sum_pos2 [OF less.prems(3), of "hdFrom h" "\<lambda>a. length (queue t a)"]
          by (auto simp: left_def Suc_le_eq)
      qed (use False in \<open>auto simp: exhausted_def Suc_le_eq\<close>)
      obtain g s1 w1 where r: "prop_round (with_iter E P) i tx st w = (g, s1, w1)" by (cases "prop_round (with_iter E P) i tx st w") auto
      show ?thesis
      proof (cases "maxIterations < n + 1 \<or> g \<noteq> Continue")
        case True
        then have "n' = n + 1" using less.prems(4) i(1) x r by (subst (asm) prop_loop.simps) (auto split: if_splits flow.splits)
        then show ?thesis using pos by simp
      next
        case c: False
        then have l: "prop_loop (with_iter E P) (n + 1) s1 w1 = (fl, st', w', n')" using less.prems(4) i(1) x r by (subst (asm) prop_loop.simps) simp
        have "piter s1 = None \<or> (\<exists>j t' xs'. piter s1 = Some j \<and> iter_ok E j t' xs' \<and> convertible E t' \<and> (\<forall>a. queue t' a \<noteq> [] \<longrightarrow> a \<in> A) \<and>
          left A t' + length xs' < left A t + length xs)" using round_shrinks [OF i(2,3) False less.prems(3) i(4), of P tx st w s1 w1] r c by simp
        then show ?thesis
        proof (elim disjE exE conjE)
          assume "piter s1 = None"
          then have "n' = n + 1" using l by (simp add: prop_loop.simps)
          then show ?thesis using pos by simp
        next
          fix j t' xs'
          assume j: "piter s1 = Some j" "iter_ok E j t' xs'" "convertible E t'" "\<forall>a. queue t' a \<noteq> [] \<longrightarrow> a \<in> A" "left A t' + length xs' < left A t + length xs"
          have "n' \<le> n + 1 + (left A t' + length xs')" using less.hyps [OF j(5) _ _ less.prems(3) l, of j] j by simp
          then show ?thesis using j(5) by simp
        qed
      qed
    qed
  qed
qed

text \<open>C22.
  A block proposal reads the pool once. With the iterator of this mempool, the loop of the proposal handler does
  at most as many rounds as the pool holds transactions, whatever the verifier, the selector and the signers do,
  failures and dropped accounts included. So the cap on its rounds cuts no proposal short while the pool
  holds no more transactions than the cap.\<close>

theorem proposal_reads_pool_once:
  assumes "base_fits256 baseFee" and "distinct order" and "set order = dom (Pending baseFee)" and "\<forall>l \<in> ran (Pending baseFee). l \<noteq> []"
    and "\<forall>l \<in> ran (Pending baseFee). \<forall>x \<in> set l. convertEVMToSDKTx E x \<noteq> None" and "cosmos_list E cs xs" and "list_all (has_gas E) xs"
    and "prop_loop (with_iter E P) 0 (proposal_start iter) w = (fl, st', w', rounds)" and "mempool_Select E order baseFee Pending cs = Inr iter"
  shows "rounds \<le> (\<Sum>a \<in> set order. length (the (Pending baseFee a))) + length xs"
proof -
  obtain t i where i: "mempool_Select E order baseFee Pending cs = Inr (if exhausted t xs then None else Some i)" "iter_ok E i t xs" "convertible E t"
    "\<forall>a. queue t a \<noteq> [] \<longrightarrow> a \<in> set order" "left (set order) t \<le> (\<Sum>a \<in> set order. length (the (Pending baseFee a)))"
    using select_start [where Pending = Pending and baseFee = baseFee, OF assms(1-7)] by blast
  have "piter (proposal_start iter) = None \<or> piter (proposal_start iter) = Some i" using i(1) assms(9) by (auto simp: proposal_start_def split: if_splits)
  then have "rounds \<le> 0 + (left (set order) t + length xs)"
    using loop_rounds [of "proposal_start iter" i E t xs "set order", OF _ _ _ assms(8)] i(2-4) by blast
  then show ?thesis using i(5) by simp
qed

section \<open>A pool of three senders\<close>

definition demo_env :: "(string, string, string, string list) iter_env" where
  "demo_env = \<lparr>ciTx = \<lambda>l. case l of [] \<Rightarrow> None | x # _ \<Rightarrow> Some x, ciNext = \<lambda>l. case l of [] \<Rightarrow> None | _ # r \<Rightarrow> Some r,
     feeTx = \<lambda>_. Some ([mk_coin ''ustoc'' 200000], 100000), iterDenom = ''ustoc'', headerBaseFee = Some 1000000000,
     FromSignedEthereumTx = Inr, BuildTx = Inr\<rparr>"

lemma demo_env_sel [simp]: "ciTx demo_env l = (case l of [] \<Rightarrow> None | x # _ \<Rightarrow> Some x)" "ciNext demo_env l = (case l of [] \<Rightarrow> None | _ # r \<Rightarrow> Some r)"
  "feeTx demo_env x = Some ([mk_coin ''ustoc'' 200000], 100000)" "iterDenom demo_env = ''ustoc''" "headerBaseFee demo_env = Some 1000000000"
  "convertEVMToSDKTx demo_env z = Some (lzTx z)" "has_gas demo_env x"
  by (simp_all add: demo_env_def convertEVMToSDKTx_def has_gas_def)

lemma demo_cosmos: "cosmos_list demo_env (Some l) l"
proof (induction l)
  case (Cons x l)
  then show ?case by (intro cosmos_list.more) auto
qed (auto intro: cosmos_list.empty)

lemma demo_order: "distinct [''alice'', ''bob'']" "set [''alice'', ''bob''] = dom demo_pool"
  "\<forall>l \<in> ran demo_pool. l \<noteq> []" "base_fits256 (Some 7)"
  by (auto simp: demo_pool_def base_fits256_def ran_def split: if_splits)

lemma demo_size: "(\<Sum>a \<in> set [''alice'', ''bob'']. length (the (demo_pool a))) = 4" by (simp add: demo_pool_def)

text \<open>Two senders of Ethereum transactions and one Cosmos transaction, base fee 7: Bob's two transactions and
  Alice's first are shown, her second cannot pay.\<close>

theorem selection_shows_everything_once_witness:
  "\<exists>evm out. SelectBy demo_env [''alice'', ''bob''] (Some 7) (\<lambda>_. demo_pool) (Some [''c0'']) collect 5 [] = Some (Inr (map Some out)) \<and>
    out \<in> shuffles (map (\<lambda>p. lzTx (snd p)) evm) [''c0''] \<and> map snd (filter (\<lambda>p. fst p = ''alice'') evm) = [demo_lazy ''a0'' 1 9 2] \<and>
    map snd (filter (\<lambda>p. fst p = ''bob'') evm) = [demo_lazy ''b0'' 3 12 4, demo_lazy ''b1'' 4 20 1]"
proof -
  obtain evm out where e: "SelectBy demo_env [''alice'', ''bob''] (Some 7) (\<lambda>_. demo_pool) (Some [''c0'']) collect 5 [] = Some (Inr (map Some out))"
    "out \<in> shuffles (map (\<lambda>p. the (convertEVMToSDKTx demo_env (snd p))) evm) [''c0'']"
    "\<And>a. map snd (filter (\<lambda>p. fst p = a) evm) = (case demo_pool a of None \<Rightarrow> [] | Some l \<Rightarrow> takeWhile (payable (Some 7)) l)"
    using selection_shows_everything_once [where E = demo_env and Pending = "\<lambda>_. demo_pool" and fuel = 5, OF demo_order(4,1,2,3) _ demo_cosmos [of "[''c0'']"]] demo_size by auto
  show ?thesis using e(1,2) e(3) [of "''alice''"] e(3) [of "''bob''"]
    by (auto simp: demo_pool_def payable_def demo_lazy_def)
qed

text \<open>A Cosmos transaction that pays 2 \<^verbatim>\<open>ustoc\<close> for each unit of gas, two thousand times the base fee of 1 gwei, waits
  for a transaction with a tip of 4 wei.\<close>

theorem cosmos_waits_for_evm_witness:
  "\<exists>a y r. queue demo_tpn a = y # r \<and> map_option fst (tpn_Peek demo_tpn) = Some y \<and>
    iter_Tx demo_env \<lparr>evmIterator = Some demo_tpn, cosmosIterator = Some [''c0''], lastReturnedFromEVM = False\<rparr> =
      Inr (Some (lzTx y), \<lparr>evmIterator = Some demo_tpn, cosmosIterator = Some [''c0''], lastReturnedFromEVM = True\<rparr>)"
proof -
  have "tpn_ok demo_tpn" using New_queue [OF demo_tpn_new demo_order(1,2)] by blast
  then have "iter_ok demo_env \<lparr>evmIterator = Some demo_tpn, cosmosIterator = Some [''c0''], lastReturnedFromEVM = False\<rparr> demo_tpn [''c0'']"
    using demo_cosmos by (simp add: iter_ok_def)
  moreover have "convertible demo_env demo_tpn" by (simp add: convertible_def)
  moreover have "tpnHeads demo_tpn \<noteq> []" by (simp add: demo_tpn_def)
  ultimately show ?thesis using cosmos_waits_for_evm [of demo_env _ demo_tpn "''c0''" "[]" "[mk_coin ''ustoc'' 200000]" 100000 1000000000]
    by (fastforce simp: mk_coin_def)
qed

definition demo_api :: "(nat, string, (string, string list) EVMMempoolIterator) proposal_api" where
  "demo_api = \<lparr>mp_Select = \<lambda>_ w. (Inr None, w), mp_Remove = \<lambda>_ w. (Inr (), w), it_Tx = \<lambda>_. Inr None, it_Next = \<lambda>_ w. (Inr None, w),
     it_CurrentIsEVM = \<lambda>_. None, it_PopCurrentAccount = \<lambda>i w. (Inr i, w), tx_Unordered = \<lambda>_. True, GetSigners = \<lambda>_. Inr [],
     PrepareProposalVerifyTx = \<lambda>t w. (Inr t, w), TxDecode = Inr, err_Error = \<lambda>_. [], SelectTxForProposal = \<lambda>_ _ w. (Inr False, w + 1),
     SelectedTxs = \<lambda>_. [], selector_Clear = id, inner_PrepareProposal = \<lambda>l w. (Inr l, w)\<rparr>"

text \<open>In this pool the handler does at most five rounds.\<close>

theorem proposal_reads_pool_once_witness:
  "\<exists>iter fl st' w' rounds. mempool_Select demo_env [''alice'', ''bob''] (Some 7) (\<lambda>_. demo_pool) (Some [''c0'']) = Inr iter \<and>
    prop_loop (with_iter demo_env demo_api) 0 (proposal_start iter) 0 = (fl, st', w', rounds) \<and> rounds \<le> 5"
proof -
  have "\<exists>iter. mempool_Select demo_env [''alice'', ''bob''] (Some 7) (\<lambda>_. demo_pool) (Some [''c0'']) = Inr iter"
    using select_start [where E = demo_env and Pending = "\<lambda>_. demo_pool", OF demo_order(4,1,2,3) _ demo_cosmos [of "[''c0'']"]] by auto
  then obtain iter where i: "mempool_Select demo_env [''alice'', ''bob''] (Some 7) (\<lambda>_. demo_pool) (Some [''c0'']) = Inr iter" by blast
  obtain fl st' w' rounds where p: "prop_loop (with_iter demo_env demo_api) 0 (proposal_start iter) 0 = (fl, st', w', rounds)"
    by (metis prod_cases4)
  have "rounds \<le> 5"
    using proposal_reads_pool_once [where E = demo_env and Pending = "\<lambda>_. demo_pool", OF demo_order(4,1,2,3) _ demo_cosmos [of "[''c0'']"] _ p i] demo_size by simp
  then show ?thesis using i p by blast
qed

end
