(* ===== verification/Mempool_Ops.thy ===== *)
theory Mempool_Ops
  imports Mempool_Iter Evm_Ante
begin

text \<open>
  The operations of the mempool of the EVM fork (\<^verbatim>\<open>mempool/mempool.go\<close>) and its handler of \<open>CheckTx\<close>
  (\<^verbatim>\<open>mempool/check_tx.go\<close>): insertion, removal, the triage of transactions with a nonce that does not fit, and the
  recheck that drops from the outer mempool what the transaction pool no longer holds. The verdict of the recheck
  remembers the decoded shape of a transaction in a cache; the theorems show that the cache does not change it.

  The two pools, the decoder, the ante handler, the hash and the cache are parameters that act on a world \<open>'w\<close>
  and a cache \<open>'q\<close>. \<open>errIs\<close> is \<open>errors.Is\<close>, with the text of the sentinel.
\<close>

section \<open>What the mempool calls\<close>

record orphanDecodeEntry =
  entryHash :: string
  entryIsEVM :: bool

text \<open>A message is \<open>Some\<close> Ethereum transaction or another message. The pool answers an addition with one entry per
  transaction, or with no list at all.\<close>

record ('t, 'x, 'w, 'q) mempool_api =
  mpTxDecoder :: "bytes \<Rightarrow> 't res"
  mpGetMsgs :: "'t \<Rightarrow> 'x option list"
  ethHash :: "'x \<Rightarrow> string"
  txPool_Add :: "'x list \<Rightarrow> bool \<Rightarrow> 'w \<Rightarrow> go_err option list option \<times> 'w"
  txPool_Pending :: "'w \<Rightarrow> nat"
  legacy_RemoveTx :: "string \<Rightarrow> 'w \<Rightarrow> 'w"
  legacy_Has :: "'w \<Rightarrow> string \<Rightarrow> bool"
  cosmos_Insert :: "'t \<Rightarrow> 'w \<Rightarrow> unit res \<times> 'w"
  cosmos_Remove :: "'t \<Rightarrow> 'w \<Rightarrow> unit res \<times> 'w"
  cosmos_CountTx :: "'w \<Rightarrow> nat"
  latestHeight :: "'w \<Rightarrow> int"
  latestContext :: "'w \<Rightarrow> unit res"
  mpAnteHandler :: "('t \<Rightarrow> 'w \<Rightarrow> unit res) option"
  errIs :: "go_err \<Rightarrow> string \<Rightarrow> bool"
  sha256 :: "bytes \<Rightarrow> string"
  lruGet :: "'q \<Rightarrow> string \<Rightarrow> orphanDecodeEntry option"
  lruAdd :: "string \<Rightarrow> orphanDecodeEntry \<Rightarrow> 'q \<Rightarrow> 'q"

definition ErrNoMessages :: string where "ErrNoMessages = ''transaction has no messages''"
definition ErrExpectedOneMessage :: string where "ErrExpectedOneMessage = ''expected 1 message''"
definition ErrExpectedOneError :: string where "ErrExpectedOneError = ''expected 1 error''"
definition ErrNotEVMTransaction :: string where "ErrNotEVMTransaction = ''transaction is not an EVM transaction''"

section \<open>The operations\<close>

definition getEVMMessage :: "('t, 'x, 'w, 'q) mempool_api \<Rightarrow> 't \<Rightarrow> 'x res" where
  "getEVMMessage M tx =
     (case mpGetMsgs M tx of
        [] \<Rightarrow> Inl (Errorf ErrNoMessages)
      | [Some ethMsg] \<Rightarrow> Inr ethMsg
      | [None] \<Rightarrow> Inl (Errorf ErrNotEVMTransaction)
      | _ \<Rightarrow> Inl (Errorf ErrExpectedOneMessage))"

definition mempool_Insert :: "('t, 'x, 'w, 'q) mempool_api \<Rightarrow> 't \<Rightarrow> 'w \<Rightarrow> unit res \<times> 'w" where
  "mempool_Insert M tx w =
     (case getEVMMessage M tx of
        Inr ethMsg \<Rightarrow> (case txPool_Add M [ethMsg] True w of
            (Some (Some e # _), w1) \<Rightarrow> (Inl e, w1)
          | (_, w1) \<Rightarrow> (Inr (), w1))
      | Inl _ \<Rightarrow> cosmos_Insert M tx w)"

definition InsertInvalidNonce :: "('t, 'x, 'w, 'q) mempool_api \<Rightarrow> bytes \<Rightarrow> 'w \<Rightarrow> unit res \<times> 'w" where
  "InsertInvalidNonce M txBytes w =
     (case mpTxDecoder M txBytes of Inl e \<Rightarrow> (Inl e, w)
      | Inr tx \<Rightarrow>
          if length (mpGetMsgs M tx) \<noteq> 1 then (Inl (Errorf ErrExpectedOneMessage), w)
          else case txPool_Add M (map the (filter (\<lambda>m. m \<noteq> None) (mpGetMsgs M tx))) False w of
            (None, w1) \<Rightarrow> (Inr (), w1)
          | (Some errs, w1) \<Rightarrow>
              if length errs \<noteq> 1 then (Inl (Errorf ErrExpectedOneError), w1)
              else (case hd errs of None \<Rightarrow> Inr () | Some e \<Rightarrow> Inl e, w1))"

definition CountTx :: "('t, 'x, 'w, 'q) mempool_api \<Rightarrow> 'w \<Rightarrow> nat" where
  "CountTx M w = cosmos_CountTx M w + txPool_Pending M w"

text \<open>The ante handler runs on a context of its own: only its error is used.\<close>

definition shouldRemoveFromEVMPool :: "('t, 'x, 'w, 'q) mempool_api \<Rightarrow> 't \<Rightarrow> 'w \<Rightarrow> bool" where
  "shouldRemoveFromEVMPool M tx w =
     (case mpAnteHandler M of None \<Rightarrow> False
      | Some ante \<Rightarrow> (case latestContext M w of Inl _ \<Rightarrow> False
          | Inr _ \<Rightarrow> (case ante tx w of Inr _ \<Rightarrow> False
              | Inl err \<Rightarrow> \<not> (errIs M err ErrNonceGap \<or> errIs M err ErrInvalidSequence \<or> errIs M err ''out of gas''))))"

definition mempool_Remove :: "('t, 'x, 'w, 'q) mempool_api \<Rightarrow> 't \<Rightarrow> 'w \<Rightarrow> unit res \<times> 'w" where
  "mempool_Remove M tx w =
     (if latestHeight M w = 0 then (Inr (), w)
      else case getEVMMessage M tx of
        Inr msg \<Rightarrow> (Inr (), if shouldRemoveFromEVMPool M tx w then legacy_RemoveTx M (ethHash M msg) w else w)
      | Inl err \<Rightarrow> if err = Errorf ErrNoMessages then (Inl err, w) else cosmos_Remove M tx w)"

definition IsOrphanEVMTx :: "('t, 'x, 'w, 'q) mempool_api \<Rightarrow> bytes \<Rightarrow> 'w \<Rightarrow> 'q \<Rightarrow> bool \<times> 'q" where
  "IsOrphanEVMTx M txBytes w q =
     (let cacheKey = sha256 M txBytes in
      case lruGet M q cacheKey of
        Some entry \<Rightarrow> (if \<not> entryIsEVM entry then False else \<not> legacy_Has M w (entryHash entry), q)
      | None \<Rightarrow>
          (case mpTxDecoder M txBytes of Inl _ \<Rightarrow> (True, q)
           | Inr tx \<Rightarrow> (case mpGetMsgs M tx of
               [Some ethMsg] \<Rightarrow> (\<not> legacy_Has M w (ethHash M ethMsg), lruAdd M cacheKey \<lparr>entryHash = ethHash M ethMsg, entryIsEVM = True\<rparr> q)
             | _ \<Rightarrow> (False, lruAdd M cacheKey \<lparr>entryHash = [], entryIsEVM = False\<rparr> q))))"

section \<open>The handler of CheckTx\<close>

datatype check_type = CheckNew | Recheck

record check_request =
  rqType :: check_type
  rqTx :: bytes

text \<open>A response carries the error it was made from, the gas and, on success, the data.\<close>

record ResponseCheckTx =
  rsErr :: "go_err option"
  rsGasWanted :: u64
  rsGasUsed :: u64
  rsData :: string

definition ResponseCheckTxWithEvents :: "go_err \<Rightarrow> u64 \<Rightarrow> u64 \<Rightarrow> ResponseCheckTx" where
  "ResponseCheckTxWithEvents e gw gu = \<lparr>rsErr = Some e, rsGasWanted = gw, rsGasUsed = gu, rsData = []\<rparr>"

definition NewCheckTxHandler :: "('t, 'x, 'w, 'q) mempool_api \<Rightarrow> (bytes \<Rightarrow> 'w \<Rightarrow> ((u64 \<times> u64) \<times> string res) \<times> 'w) \<Rightarrow> check_request \<Rightarrow> 'w \<Rightarrow> 'q \<Rightarrow>
    ResponseCheckTx \<times> 'w \<times> 'q" where
  "NewCheckTxHandler M runTx request w q =
     (let (orphan, q1) = (if rqType request = Recheck then IsOrphanEVMTx M (rqTx request) w q else (False, q)) in
      if orphan then (ResponseCheckTxWithEvents (SdkErr ''invalid request: EVM tx orphan'') 0 0, w, q1)
      else case runTx (rqTx request) w of
        (((gw, gu), Inl err), w1) \<Rightarrow>
          if errIs M err ErrNonceGap \<or> errIs M err ErrNonceLow then
            (case InsertInvalidNonce M (rqTx request) w1 of
               (Inl err1, w2) \<Rightarrow> (ResponseCheckTxWithEvents err1 gw gu, w2, q1)
             | (Inr _, w2) \<Rightarrow> (ResponseCheckTxWithEvents err gw gu, w2, q1))
          else (ResponseCheckTxWithEvents err gw gu, w1, q1)
      | (((gw, gu), Inr result), w1) \<Rightarrow> (\<lparr>rsErr = None, rsGasWanted = gw, rsGasUsed = gu, rsData = result\<rparr>, w1, q1))"

section \<open>The cache does not change the verdict\<close>

text \<open>A cache returns for a key only what was added under it; it may forget.\<close>

definition cache_laws :: "('t, 'x, 'w, 'q) mempool_api \<Rightarrow> bool" where
  "cache_laws M = (\<forall>q k e k' e'. lruGet M (lruAdd M k e q) k' = Some e' \<longrightarrow> k' = k \<and> e' = e \<or> lruGet M q k' = Some e')"

text \<open>The verdict from the bytes alone.\<close>

definition is_orphan :: "('t, 'x, 'w, 'q) mempool_api \<Rightarrow> bytes \<Rightarrow> 'w \<Rightarrow> bool" where
  "is_orphan M txBytes w =
     (case mpTxDecoder M txBytes of Inl _ \<Rightarrow> True
      | Inr tx \<Rightarrow> (case getEVMMessage M tx of Inl _ \<Rightarrow> False | Inr ethMsg \<Rightarrow> \<not> legacy_Has M w (ethHash M ethMsg)))"

definition entry_of :: "('t, 'x, 'w, 'q) mempool_api \<Rightarrow> 't \<Rightarrow> orphanDecodeEntry" where
  "entry_of M tx = (case getEVMMessage M tx of Inl _ \<Rightarrow> \<lparr>entryHash = [], entryIsEVM = False\<rparr>
     | Inr ethMsg \<Rightarrow> \<lparr>entryHash = ethHash M ethMsg, entryIsEVM = True\<rparr>)"

text \<open>Every entry is the shape of the bytes with its key.\<close>

definition cache_ok :: "('t, 'x, 'w, 'q) mempool_api \<Rightarrow> bytes set \<Rightarrow> 'q \<Rightarrow> bool" where
  "cache_ok M T q = (\<forall>b \<in> T. \<forall>e. lruGet M q (sha256 M b) = Some e \<longrightarrow> (\<exists>tx. mpTxDecoder M b = Inr tx \<and> e = entry_of M tx))"

lemma shape_cases:
  "(case mpGetMsgs M tx of [Some ethMsg] \<Rightarrow> f ethMsg | _ \<Rightarrow> g) = (case getEVMMessage M tx of Inl _ \<Rightarrow> g | Inr ethMsg \<Rightarrow> f ethMsg)"
  by (auto simp: getEVMMessage_def split: list.splits option.splits)

lemma orphan_eq:
  assumes "cache_laws M" and "inj_on (sha256 M) T" and "cache_ok M T q" and "b \<in> T"
  shows "fst (IsOrphanEVMTx M b w q) = is_orphan M b w \<and> cache_ok M T (snd (IsOrphanEVMTx M b w q))"
proof (cases "lruGet M q (sha256 M b)")
  case (Some e)
  then obtain tx where "mpTxDecoder M b = Inr tx" "e = entry_of M tx" using assms(3,4) by (auto simp: cache_ok_def)
  then show ?thesis using Some assms(3) by (auto simp: IsOrphanEVMTx_def is_orphan_def entry_of_def Let_def split: sum.splits)
next
  case None
  show ?thesis
  proof (cases "mpTxDecoder M b")
    case (Inl e)
    then show ?thesis using None assms(3) by (simp add: IsOrphanEVMTx_def is_orphan_def Let_def)
  next
    case (Inr tx)
    have "IsOrphanEVMTx M b w q = (is_orphan M b w, lruAdd M (sha256 M b) (entry_of M tx) q)"
      using None Inr by (simp add: IsOrphanEVMTx_def is_orphan_def entry_of_def Let_def shape_cases split: sum.splits)
    moreover have "cache_ok M T (lruAdd M (sha256 M b) (entry_of M tx) q)"
      unfolding cache_ok_def
    proof (intro ballI allI impI)
      fix b' e assume b': "b' \<in> T" and "lruGet M (lruAdd M (sha256 M b) (entry_of M tx) q) (sha256 M b') = Some e"
      then have "sha256 M b' = sha256 M b \<and> e = entry_of M tx \<or> lruGet M q (sha256 M b') = Some e" using assms(1) unfolding cache_laws_def by blast
      then show "\<exists>tx. mpTxDecoder M b' = Inr tx \<and> e = entry_of M tx"
        using Inr assms(3) inj_onD [OF assms(2) _ b' assms(4)] b' by (auto simp: cache_ok_def)
    qed
    ultimately show ?thesis by simp
  qed
qed

text \<open>The mempool at work on transactions of the set \<open>T\<close>: checks, between which the pools change in any way and the cache
  forgets what it likes.\<close>

inductive check_step :: "('t, 'x, 'w, 'q) mempool_api \<Rightarrow> (bytes \<Rightarrow> 'w \<Rightarrow> ((u64 \<times> u64) \<times> string res) \<times> 'w) \<Rightarrow> bytes set \<Rightarrow> 'w \<times> 'q \<Rightarrow> 'w \<times> 'q \<Rightarrow> bool" for M runTx T where
  check: "NewCheckTxHandler M runTx request w q = (r, w', q') \<Longrightarrow> rqTx request \<in> T \<Longrightarrow> check_step M runTx T (w, q) (w', q')"
| pool: "check_step M runTx T (w, q) (w', q)"
| forget: "\<forall>k e. lruGet M q' k = Some e \<longrightarrow> lruGet M q k = Some e \<Longrightarrow> check_step M runTx T (w, q) (w, q')"

lemma handler_cache: "snd (snd (NewCheckTxHandler M runTx request w q)) = (if rqType request = Recheck then snd (IsOrphanEVMTx M (rqTx request) w q) else q)"
  by (auto simp: NewCheckTxHandler_def Let_def split: prod.splits sum.splits)

lemma check_steps_cache:
  assumes "(check_step M runTx T)\<^sup>*\<^sup>* s s'" and "cache_laws M" and "inj_on (sha256 M) T" and "cache_ok M T (snd s)"
  shows "cache_ok M T (snd s')"
  using assms
proof (induction rule: rtranclp_induct)
  case (step y z)
  from step.hyps(2) show ?case
  proof cases
    case (check request w q r w' q')
    then have "q' = (if rqType request = Recheck then snd (IsOrphanEVMTx M (rqTx request) w q) else q)" using handler_cache by (metis snd_conv)
    then show ?thesis using check step.IH step.prems orphan_eq [OF step.prems(1,2)] by auto
  next
    case (forget q' q w)
    then show ?thesis using step.IH step.prems by (auto simp: cache_ok_def)
  qed (use step in auto)
qed simp

text \<open>C33.
  The recheck drops what cannot be included and nothing else, and its cache does not change the verdict. From an empty cache, after
  any history of checks, changes of the pools and evictions from the cache, with one decoder and no two of the
  transactions concerned sharing a hash: a recheck answers with an error and leaves the pools as they are exactly when the bytes do not decode or
  decode to one Ethereum message that the transaction pool does not hold. Every other check
  runs the transaction, answers with its outcome, and only a nonce that is too low or leaves a gap sends the transaction through the
  triage of nonces.\<close>

theorem recheck_drops_orphans:
  assumes "cache_laws M" and "inj_on (sha256 M) T" and "\<forall>k. lruGet M q0 k = None" and "(check_step M runTx T)\<^sup>*\<^sup>* (w0, q0) (w, q)"
    and "NewCheckTxHandler M runTx request w q = (r, w', q')" and "rqTx request \<in> T"
  shows "if rqType request = Recheck \<and> (case mpTxDecoder M (rqTx request) of Inl _ \<Rightarrow> True
      | Inr tx \<Rightarrow> \<exists>ethMsg. mpGetMsgs M tx = [Some ethMsg] \<and> \<not> legacy_Has M w (ethHash M ethMsg))
    then rsErr r \<noteq> None \<and> w' = w
    else \<exists>gw gu out w1. runTx (rqTx request) w = (((gw, gu), out), w1) \<and> (rsErr r = None \<longleftrightarrow> \<not> isl out) \<and>
      (case out of Inr data \<Rightarrow> rsData r = data \<and> w' = w1
       | Inl err \<Rightarrow> w' = (if errIs M err ErrNonceGap \<or> errIs M err ErrNonceLow then snd (InsertInvalidNonce M (rqTx request) w1) else w1))"
proof -
  have orph: "is_orphan M b w = (case mpTxDecoder M b of Inl _ \<Rightarrow> True
      | Inr tx \<Rightarrow> \<exists>ethMsg. mpGetMsgs M tx = [Some ethMsg] \<and> \<not> legacy_Has M w (ethHash M ethMsg))" for b
    by (auto simp: is_orphan_def getEVMMessage_def split: sum.splits list.splits option.splits)
  have "cache_ok M T q" using check_steps_cache [OF assms(4,1,2)] assms(3) by (simp add: cache_ok_def)
  then have o: "fst (IsOrphanEVMTx M (rqTx request) w q) = is_orphan M (rqTx request) w" using orphan_eq [OF assms(1,2) _ assms(6)] by blast
  show ?thesis unfolding orph [symmetric]
  proof (cases "rqType request = Recheck \<and> is_orphan M (rqTx request) w")
    case True
    then have "rsErr r \<noteq> None \<and> w' = w" using assms(5) o by (auto simp: NewCheckTxHandler_def ResponseCheckTxWithEvents_def Let_def split: prod.splits)
    with True show "if rqType request = Recheck \<and> is_orphan M (rqTx request) w then rsErr r \<noteq> None \<and> w' = w
      else \<exists>gw gu out w1. runTx (rqTx request) w = (((gw, gu), out), w1) \<and> (rsErr r = None \<longleftrightarrow> \<not> isl out) \<and>
      (case out of Inr data \<Rightarrow> rsData r = data \<and> w' = w1
       | Inl err \<Rightarrow> w' = (if errIs M err ErrNonceGap \<or> errIs M err ErrNonceLow then snd (InsertInvalidNonce M (rqTx request) w1) else w1))" by simp
  next
    case False
    obtain gw gu out w1 where run: "runTx (rqTx request) w = (((gw, gu), out), w1)" by (metis prod.exhaust)
    have n: "\<not> fst (if rqType request = Recheck then IsOrphanEVMTx M (rqTx request) w q else (False, q))" using False o by auto
    show "if rqType request = Recheck \<and> is_orphan M (rqTx request) w then rsErr r \<noteq> None \<and> w' = w
      else \<exists>gw gu out w1. runTx (rqTx request) w = (((gw, gu), out), w1) \<and> (rsErr r = None \<longleftrightarrow> \<not> isl out) \<and>
      (case out of Inr data \<Rightarrow> rsData r = data \<and> w' = w1
       | Inl err \<Rightarrow> w' = (if errIs M err ErrNonceGap \<or> errIs M err ErrNonceLow then snd (InsertInvalidNonce M (rqTx request) w1) else w1))"
      using False assms(5) n run
      by (cases out) (auto simp: NewCheckTxHandler_def ResponseCheckTxWithEvents_def Let_def split: prod.splits sum.splits if_splits)
  qed
qed

definition demo_mempool :: "(string, string, string list, string \<rightharpoonup> orphanDecodeEntry) mempool_api" where
  "demo_mempool = \<lparr>mpTxDecoder = Inr, mpGetMsgs = \<lambda>t. [Some t], ethHash = id,
     txPool_Add = \<lambda>l _ w. (Some (map (\<lambda>_. None) l), w @ l), txPool_Pending = length,
     legacy_RemoveTx = \<lambda>h w. filter (\<lambda>x. x \<noteq> h) w, legacy_Has = \<lambda>w h. h \<in> set w, cosmos_Insert = \<lambda>_ w. (Inr (), w), cosmos_Remove = \<lambda>_ w. (Inr (), w),
     cosmos_CountTx = \<lambda>_. 0, latestHeight = \<lambda>_. 1, latestContext = \<lambda>_. Inr (), mpAnteHandler = None, errIs = \<lambda>e t. e = Errorf t, sha256 = id,
     lruGet = \<lambda>q. q, lruAdd = \<lambda>k e q. q(k \<mapsto> e)\<rparr>"

lemma demo_mempool_laws: "cache_laws demo_mempool" "inj (sha256 demo_mempool)" "\<forall>k. lruGet demo_mempool Map.empty k = None"
  by (auto simp: demo_mempool_def cache_laws_def split: if_splits)

text \<open>The pool has evicted \<^verbatim>\<open>t2\<close>, which the cache still remembers from an earlier recheck.\<close>

theorem recheck_drops_orphans_witness:
  "rsErr (fst (NewCheckTxHandler demo_mempool (\<lambda>_ w. (((0, 0), Inr []), w)) \<lparr>rqType = Recheck, rqTx = ''t2''\<rparr> [''t1'']
     [''t2'' \<mapsto> \<lparr>entryHash = ''t2'', entryIsEVM = True\<rparr>])) \<noteq> None"
proof -
  let ?run = "\<lambda>_ w. (((0, 0), Inr []), w) :: ((u64 \<times> u64) \<times> string res) \<times> string list"
  let ?rq = "\<lparr>rqType = Recheck, rqTx = ''t2''\<rparr>" and ?q = "[''t2'' \<mapsto> \<lparr>entryHash = ''t2'', entryIsEVM = True\<rparr>]"
  have i: "inj_on (sha256 demo_mempool) {''t2''}" by simp
  have "snd (NewCheckTxHandler demo_mempool ?run ?rq [''t1'', ''t2''] Map.empty) = ([''t1'', ''t2''], ?q)"
    by (simp add: NewCheckTxHandler_def IsOrphanEVMTx_def demo_mempool_def)
  moreover have t: "rqTx ?rq \<in> {''t2''}" by simp
  ultimately have "check_step demo_mempool ?run {''t2''} ([''t1'', ''t2''], Map.empty) ([''t1'', ''t2''], ?q)"
    by (metis check_step.check prod.collapse)
  then have s: "(check_step demo_mempool ?run {''t2''})\<^sup>*\<^sup>* ([''t1'', ''t2''], Map.empty) ([''t1''], ?q)"
    by (meson check_step.pool rtranclp.rtrancl_into_rtrancl rtranclp.rtrancl_refl)
  obtain r w' q' where r: "NewCheckTxHandler demo_mempool ?run ?rq [''t1''] ?q = (r, w', q')" by (metis prod_cases3)
  have "case mpTxDecoder demo_mempool ''t2'' of Inl _ \<Rightarrow> True | Inr tx \<Rightarrow> \<exists>ethMsg. mpGetMsgs demo_mempool tx = [Some ethMsg] \<and>
      \<not> legacy_Has demo_mempool [''t1''] (ethHash demo_mempool ethMsg)" by (simp add: demo_mempool_def)
  then show ?thesis using recheck_drops_orphans [OF demo_mempool_laws(1) i demo_mempool_laws(3) s r t] r by simp
qed

end
