(* ===== verification/Evm_Params.thy ===== *)
theory Evm_Params
  imports State_Db
begin

text \<open>
  The parameters of the EVM module (\<^verbatim>\<open>x/vm/types/params.go\<close>, \<^verbatim>\<open>x/vm/keeper/params.go\<close>), the coin of the EVM derived
  from them and from the metadata of the bank (\<^verbatim>\<open>x/vm/keeper/coin_info.go\<close>), the permission policy and the hooks of
  the interpreter (\<^verbatim>\<open>x/vm/types/permissions.go\<close>, \<^verbatim>\<open>opcodes_hooks.go\<close>), and the lookup of precompiled contracts
  (\<^verbatim>\<open>static_precompiles.go\<close>, \<^verbatim>\<open>precompiles.go\<close>).

  The table of EIPs of go-ethereum, its address syntax, the channel identifiers of IBC and the precompiles of the
  ERC20 keeper are parameters.
\<close>

section \<open>Parameters\<close>

datatype VmAccessType = AccessTypePermissionless | AccessTypeRestricted | AccessTypePermissioned | AccessTypeUnknown int

record AccessControlType =
  actAccessType :: VmAccessType
  actAccessControlList :: "string list"

record AccessControl =
  acCreate :: AccessControlType
  acCall :: AccessControlType

record vm_params =
  EvmDenom :: denom
  ExtraEIPs :: "int list"
  EVMChannels :: "string list"
  vpAccessControl :: AccessControl
  ActiveStaticPrecompiles :: "string list"
  HistoryServeWindow :: u64
  ExtendedDenomOptions :: "denom option"

text \<open>\<open>hexOf\<close> is \<open>Address.String()\<close>, the spelling with the checksum.\<close>

record geth_names =
  ValidEip :: "int \<Rightarrow> bool"
  IsHexAddress :: "string \<Rightarrow> bool"
  ChannelIdentifierValidator :: "string \<Rightarrow> unit res"
  hexOf :: "addr \<Rightarrow> string"
  PrecompiledAddressesPrague :: "addr list"

definition DefaultEVMExtendedDenom :: denom where "DefaultEVMExtendedDenom = ''astoc''"

definition DefaultHistoryServeWindow :: u64 where "DefaultHistoryServeWindow = 8192"

definition DefaultAccessControl :: AccessControl where
  "DefaultAccessControl = \<lparr>acCreate = \<lparr>actAccessType = AccessTypePermissionless, actAccessControlList = []\<rparr>,
     acCall = \<lparr>actAccessType = AccessTypePermissionless, actAccessControlList = []\<rparr>\<rparr>"

definition Vm_NewParams :: "int list \<Rightarrow> string list \<Rightarrow> string list \<Rightarrow> AccessControl \<Rightarrow> vm_params" where
  "Vm_NewParams extraEIPs activeStaticPrecompiles evmChannels accessControl =
     \<lparr>EvmDenom = DefaultEVMExtendedDenom, ExtraEIPs = extraEIPs, EVMChannels = evmChannels, vpAccessControl = accessControl,
      ActiveStaticPrecompiles = activeStaticPrecompiles, HistoryServeWindow = 0, ExtendedDenomOptions = Some DefaultEVMExtendedDenom\<rparr>"

definition Vm_DefaultParams :: vm_params where
  "Vm_DefaultParams = \<lparr>EvmDenom = DefaultEVMExtendedDenom, ExtraEIPs = [], EVMChannels = [], vpAccessControl = DefaultAccessControl,
     ActiveStaticPrecompiles = [], HistoryServeWindow = DefaultHistoryServeWindow, ExtendedDenomOptions = Some DefaultEVMExtendedDenom\<rparr>"

subsection \<open>Validation\<close>

definition deniedExtraEIPs :: "int list" where "deniedExtraEIPs = [2]"

fun validateEIPs :: "geth_names \<Rightarrow> int list \<Rightarrow> int list \<Rightarrow> unit res" where
  "validateEIPs G uniqueEIPs [] = Inr ()"
| "validateEIPs G uniqueEIPs (eip # eips) =
     (if \<not> ValidEip G eip then Inl (Errorf ''EIP is not activateable'')
      else if eip \<in> set uniqueEIPs then Inl (Errorf ''found duplicate EIP'')
      else validateEIPs G (eip # uniqueEIPs) eips)"

definition ValidateAddress :: "geth_names \<Rightarrow> string \<Rightarrow> unit res" where
  "ValidateAddress G address = (if \<not> IsHexAddress G address then Inl ErrInvalidAddress else Inr ())"

fun precompile_loop :: "geth_names \<Rightarrow> string list \<Rightarrow> string list \<Rightarrow> unit res" where
  "precompile_loop G seenPrecompiles [] = Inr ()"
| "precompile_loop G seenPrecompiles (precompile # rest) =
     (if precompile \<in> set seenPrecompiles then Inl (Errorf ''duplicate precompile'')
      else case ValidateAddress G precompile of Inl _ \<Rightarrow> Inl (Errorf ''invalid precompile'')
      | Inr _ \<Rightarrow> precompile_loop G (precompile # seenPrecompiles) rest)"

definition ValidatePrecompiles :: "geth_names \<Rightarrow> string list \<Rightarrow> unit res" where
  "ValidatePrecompiles G precompiles =
     tryE (precompile_loop G [] precompiles) (\<lambda>_. if \<not> sorted precompiles then Inl (Errorf ''precompiles need to be sorted'') else Inr ())"

definition validateAccessType :: "VmAccessType \<Rightarrow> unit res" where
  "validateAccessType t = (case t of AccessTypeUnknown _ \<Rightarrow> Inl (Errorf ''invalid access type'') | _ \<Rightarrow> Inr ())"

definition validateAllowlistAddresses :: "geth_names \<Rightarrow> string list \<Rightarrow> unit res" where
  "validateAllowlistAddresses G addresses = allE (map (\<lambda>a. asErr (Errorf ''invalid whitelist address'') (ValidateAddress G a)) addresses)"

definition AccessControlType_Validate :: "geth_names \<Rightarrow> AccessControlType \<Rightarrow> unit res" where
  "AccessControlType_Validate G act = tryE (validateAccessType (actAccessType act)) (\<lambda>_. validateAllowlistAddresses G (actAccessControlList act))"

definition AccessControl_Validate :: "geth_names \<Rightarrow> AccessControl \<Rightarrow> unit res" where
  "AccessControl_Validate G ac = tryE (AccessControlType_Validate G (acCreate ac)) (\<lambda>_. AccessControlType_Validate G (acCall ac))"

definition validateChannels :: "geth_names \<Rightarrow> string list \<Rightarrow> unit res" where
  "validateChannels G channels = allE (map (\<lambda>c. asErr (SdkErr ''invalid channel identifier'') (ChannelIdentifierValidator G c)) channels)"

definition VmParams_Validate :: "'x sdk_scheme \<Rightarrow> geth_names \<Rightarrow> vm_params \<Rightarrow> unit res" where
  "VmParams_Validate K G p = allE
     [validateEIPs G [] (ExtraEIPs p),
      failIf (list_ex (\<lambda>eip. eip \<in> set deniedExtraEIPs) (ExtraEIPs p)) (Errorf ''EIP 0o002 blocked by deny-list''),
      ValidatePrecompiles G (ActiveStaticPrecompiles p),
      AccessControl_Validate G (vpAccessControl p),
      asErr (Errorf ''invalid EvmDenom'') (ValidateDenom K (EvmDenom p)),
      failIf (ExtendedDenomOptions p = None) (Errorf ''ExtendedDenomOptions must be non-nil''),
      (case ExtendedDenomOptions p of None \<Rightarrow> Inr () | Some d \<Rightarrow> asErr (Errorf ''invalid ExtendedDenom'') (ValidateDenom K d)),
      validateChannels G (EVMChannels p)]"

definition IsEVMChannel :: "vm_params \<Rightarrow> string \<Rightarrow> bool" where
  "IsEVMChannel p channel = (channel \<in> set (EVMChannels p))"

section \<open>The keeper\<close>

record vm_conf =
  vcParams :: "vm_params option"
  vcCoinInfo :: "EvmCoinInfo option"

text \<open>Parameters that were never set read as the zero value.\<close>

definition Vm_GetParams :: "vm_conf \<Rightarrow> vm_params" where
  "Vm_GetParams s = (case vcParams s of
     None \<Rightarrow> \<lparr>EvmDenom = [], ExtraEIPs = [], EVMChannels = [], vpAccessControl = DefaultAccessControl, ActiveStaticPrecompiles = [],
       HistoryServeWindow = 0, ExtendedDenomOptions = None\<rparr>
   | Some p \<Rightarrow> p)"

definition Vm_SetParams :: "'x sdk_scheme \<Rightarrow> geth_names \<Rightarrow> vm_params \<Rightarrow> vm_conf \<Rightarrow> vm_conf res" where
  "Vm_SetParams K G params s =
     (let params1 = params\<lparr>ActiveStaticPrecompiles := sort (ActiveStaticPrecompiles params)\<rparr> in
      tryE (VmParams_Validate K G params1) (\<lambda>_. Inr (s\<lparr>vcParams := Some params1\<rparr>)))"

fun appendPrecompiles :: "geth_names \<Rightarrow> string list \<Rightarrow> addr list \<Rightarrow> string list res" where
  "appendPrecompiles G existing addresses =
     (if list_ex (\<lambda>a. hexOf G a \<in> set existing) addresses then Inl (Errorf ''precompile already registered'')
      else Inr (sort (existing @ map (hexOf G) addresses)))"

definition EnableStaticPrecompiles :: "'x sdk_scheme \<Rightarrow> geth_names \<Rightarrow> addr list \<Rightarrow> vm_conf \<Rightarrow> vm_conf res" where
  "EnableStaticPrecompiles K G addresses s =
     tryE (appendPrecompiles G (ActiveStaticPrecompiles (Vm_GetParams s)) addresses) (\<lambda>updated.
     Vm_SetParams K G ((Vm_GetParams s)\<lparr>ActiveStaticPrecompiles := updated\<rparr>) s)"

definition EnableEIPs :: "'x sdk_scheme \<Rightarrow> geth_names \<Rightarrow> int list \<Rightarrow> vm_conf \<Rightarrow> vm_conf res" where
  "EnableEIPs K G eips s = Vm_SetParams K G ((Vm_GetParams s)\<lparr>ExtraEIPs := sort (ExtraEIPs (Vm_GetParams s) @ eips)\<rparr>) s"

definition Vm_UpdateParams :: "'x sdk_scheme \<Rightarrow> geth_names \<Rightarrow> string \<Rightarrow> string \<Rightarrow> vm_params \<Rightarrow> vm_conf \<Rightarrow> vm_conf res" where
  "Vm_UpdateParams K G govAuthority reqAuthority params s =
     (if govAuthority \<noteq> reqAuthority then Inl ErrInvalidSigner else Vm_SetParams K G params s)"

subsection \<open>The coin of the EVM\<close>

text \<open>The last unit with the name of the display denomination gives the decimals; without one they are zero.\<close>

definition LoadEvmCoinInfo :: "(denom \<Rightarrow> metadata option) \<Rightarrow> vm_conf \<Rightarrow> EvmCoinInfo res" where
  "LoadEvmCoinInfo metaOf s =
     (let params = Vm_GetParams s in
      case metaOf (EvmDenom params) of
        None \<Rightarrow> Inl (Errorf ''denom metadata could not be found'')
      | Some md \<Rightarrow>
          let decimals = fold (\<lambda>u d. if duDenom u = mdDisplay md then duExponent u else d) (mdDenomUnits md) 0 in
          tryE (if decimals = 18 then Inr (EvmDenom params)
                else case ExtendedDenomOptions params of
                  None \<Rightarrow> Inl (Errorf ''extended denom options cannot be nil for non-18-decimal chains'')
                | Some d \<Rightarrow> Inr d) (\<lambda>extendedDenom.
          Inr \<lparr>eciDenom = EvmDenom params, eciExtendedDenom = extendedDenom, eciDisplayDenom = mdDisplay md, eciDecimals = decimals\<rparr>))"

definition SetEvmCoinInfo :: "EvmCoinInfo \<Rightarrow> vm_conf \<Rightarrow> vm_conf" where
  "SetEvmCoinInfo info s = s\<lparr>vcCoinInfo := Some info\<rparr>"

definition GetEvmCoinInfo :: "EvmCoinInfo \<Rightarrow> vm_conf \<Rightarrow> EvmCoinInfo" where
  "GetEvmCoinInfo defaultEvmCoinInfo s = (case vcCoinInfo s of None \<Rightarrow> defaultEvmCoinInfo | Some i \<Rightarrow> i)"

definition InitEvmCoinInfo :: "(denom \<Rightarrow> metadata option) \<Rightarrow> vm_conf \<Rightarrow> vm_conf res" where
  "InitEvmCoinInfo metaOf s = tryE (LoadEvmCoinInfo metaOf s) (\<lambda>info. Inr (SetEvmCoinInfo info s))"

section \<open>Permissions and precompiles\<close>

definition permissionlessCheckFn :: "geth_names \<Rightarrow> string list \<Rightarrow> addr \<Rightarrow> addr \<Rightarrow> bool" where
  "permissionlessCheckFn G addresses signer caller \<longleftrightarrow> hexOf G signer \<notin> set addresses \<and> hexOf G caller \<notin> set addresses"

definition permissionedCheckFn :: "geth_names \<Rightarrow> string list \<Rightarrow> addr \<Rightarrow> addr \<Rightarrow> bool" where
  "permissionedCheckFn G addresses signer caller \<longleftrightarrow> hexOf G signer \<in> set addresses \<or> hexOf G caller \<in> set addresses"

definition access_allows :: "geth_names \<Rightarrow> AccessControlType \<Rightarrow> addr \<Rightarrow> addr \<Rightarrow> bool" where
  "access_allows G act signer caller =
     (case actAccessType act of
        AccessTypePermissionless \<Rightarrow> permissionlessCheckFn G (actAccessControlList act) signer caller
      | AccessTypeRestricted \<Rightarrow> False
      | AccessTypePermissioned \<Rightarrow> permissionedCheckFn G (actAccessControlList act) signer caller
      | AccessTypeUnknown _ \<Rightarrow> False)"

definition getCanCreateFn :: "geth_names \<Rightarrow> AccessControl \<Rightarrow> addr \<Rightarrow> addr \<Rightarrow> bool" where
  "getCanCreateFn G ac = access_allows G (acCreate ac)"

definition getCanCallFn :: "geth_names \<Rightarrow> AccessControl \<Rightarrow> addr \<Rightarrow> addr \<Rightarrow> bool" where
  "getCanCallFn G ac = access_allows G (acCall ac)"

definition GetCreateHook :: "geth_names \<Rightarrow> AccessControl \<Rightarrow> addr \<Rightarrow> addr \<Rightarrow> unit res" where
  "GetCreateHook G ac signer caller =
     (if getCanCreateFn G ac signer caller then Inr () else Inl (Errorf ''caller address does not have permission to deploy contracts''))"

text \<open>The part of the interpreter that the hooks change: its table of precompiles and its database.\<close>

record ('p, 's, 'b) interp =
  inPrecompiles :: "addr \<rightharpoonup> 'p"
  inDb :: "('s, 'b) StateDB"

type_synonym ('p, 's, 'b) call_hook = "addr \<Rightarrow> addr \<Rightarrow> ('p, 's, 'b) interp \<Rightarrow> ('p, 's, 'b) interp res"

definition GetCallHook :: "geth_names \<Rightarrow> AccessControl \<Rightarrow> addr \<Rightarrow> ('p, 's, 'b) call_hook" where
  "GetCallHook G ac signer caller recipient ev =
     (if getCanCallFn G ac signer caller then Inr ev else Inl (Errorf ''caller address does not have permission to perform a call''))"

definition IsAvailableStaticPrecompile :: "geth_names \<Rightarrow> vm_params \<Rightarrow> addr \<Rightarrow> bool" where
  "IsAvailableStaticPrecompile G params address \<longleftrightarrow> hexOf G address \<in> set (ActiveStaticPrecompiles params) \<or> address \<in> set (PrecompiledAddressesPrague G)"

definition GetStaticPrecompileInstance :: "geth_names \<Rightarrow> (addr \<rightharpoonup> 'p) \<Rightarrow> vm_params \<Rightarrow> addr \<Rightarrow> 'p option res" where
  "GetStaticPrecompileInstance G precompiles params address =
     (if IsAvailableStaticPrecompile G params address then
        (case precompiles address of None \<Rightarrow> Inl (GoPanic ''precompiled contract not stored in memory'') | Some p \<Rightarrow> Inr (Some p))
      else Inr None)"

definition GetPrecompileInstance :: "geth_names \<Rightarrow> (addr \<rightharpoonup> 'p) \<Rightarrow> (addr \<Rightarrow> 'p option res) option \<Rightarrow> vm_conf \<Rightarrow> addr \<Rightarrow> (addr \<rightharpoonup> 'p) option res" where
  "GetPrecompileInstance G precompiles erc20Keeper s address =
     tryE (GetStaticPrecompileInstance G precompiles (Vm_GetParams s) address) (\<lambda>found.
     case found of Some p \<Rightarrow> Inr (Some [address \<mapsto> p])
     | None \<Rightarrow> (case erc20Keeper of None \<Rightarrow> Inr None
         | Some GetERC20PrecompileInstance \<Rightarrow> tryE (GetERC20PrecompileInstance address) (\<lambda>found. Inr (map_option (\<lambda>p. [address \<mapsto> p]) found))))"

definition GetPrecompilesCallHook :: "geth_names \<Rightarrow> (addr \<rightharpoonup> 'p) \<Rightarrow> (addr \<Rightarrow> 'p option res) option \<Rightarrow> vm_conf \<Rightarrow> ('p, 's, 'b) call_hook" where
  "GetPrecompilesCallHook G precompiles erc20Keeper s caller recipient ev =
     tryE (GetPrecompileInstance G precompiles erc20Keeper s recipient) (\<lambda>found.
     case found of None \<Rightarrow> Inr ev
     | Some m \<Rightarrow> Inr (ev\<lparr>inPrecompiles := m, inDb := AddAddressToAccessList recipient (inDb ev)\<rparr>))"

definition GetPrecompileRecipientCallHook :: "geth_names \<Rightarrow> (addr \<rightharpoonup> 'p) \<Rightarrow> (addr \<Rightarrow> 'p option res) option \<Rightarrow> vm_conf \<Rightarrow> ('p, 's, 'b) call_hook" where
  "GetPrecompileRecipientCallHook G precompiles erc20Keeper s caller recipient ev =
     tryE (GetPrecompileInstance G precompiles erc20Keeper s recipient) (\<lambda>found.
     case found of None \<Rightarrow> Inr ev
     | Some m \<Rightarrow> Inr (ev\<lparr>inDb := AddAddressToAccessList recipient (inDb ev)\<rparr>))"

text \<open>The hooks run in the order they were added; the first error ends the call.\<close>

fun CallHook :: "('p, 's, 'b) call_hook list \<Rightarrow> ('p, 's, 'b) call_hook" where
  "CallHook [] caller recipient ev = Inr ev"
| "CallHook (hook # hooks) caller recipient ev = tryE (hook caller recipient ev) (CallHook hooks caller recipient)"

text \<open>The hooks that a new interpreter gets for a message from \<open>signer\<close>.\<close>

definition evm_call_hooks :: "geth_names \<Rightarrow> (addr \<rightharpoonup> 'p) \<Rightarrow> (addr \<Rightarrow> 'p option res) option \<Rightarrow> vm_conf \<Rightarrow> addr \<Rightarrow> bool \<Rightarrow> ('p, 's, 'b) call_hook list" where
  "evm_call_hooks G precompiles erc20Keeper s signer overridePrecompiles =
     [GetCallHook G (vpAccessControl (Vm_GetParams s)) signer,
      (if overridePrecompiles then GetPrecompilesCallHook G precompiles erc20Keeper s else GetPrecompileRecipientCallHook G precompiles erc20Keeper s)]"

section \<open>Valid parameters\<close>

lemma validateEIPs_iff: "validateEIPs G seen eips = Inr () \<longleftrightarrow> list_all (ValidEip G) eips \<and> distinct eips \<and> set eips \<inter> set seen = {}"
  by (induction G seen eips rule: validateEIPs.induct) auto

lemma precompile_loop_iff: "precompile_loop G seen ps = Inr () \<longleftrightarrow> list_all (IsHexAddress G) ps \<and> distinct ps \<and> set ps \<inter> set seen = {}"
  by (induction G seen ps rule: precompile_loop.induct) (auto simp: ValidateAddress_def)

text \<open>What the validation promises to the rest of the module.\<close>

definition vm_params_ok :: "'x sdk_scheme \<Rightarrow> geth_names \<Rightarrow> vm_params \<Rightarrow> bool" where
  "vm_params_ok K G p \<longleftrightarrow> list_all (ValidEip G) (ExtraEIPs p) \<and> distinct (ExtraEIPs p) \<and> 2 \<notin> set (ExtraEIPs p) \<and>
     list_all (IsHexAddress G) (ActiveStaticPrecompiles p) \<and> sorted_wrt (<) (ActiveStaticPrecompiles p) \<and>
     ValidateDenom K (EvmDenom p) = Inr () \<and> (\<exists>d. ExtendedDenomOptions p = Some d \<and> ValidateDenom K d = Inr ())"

lemma asErr_unit [simp]: "asErr e r = Inr () \<longleftrightarrow> r = Inr ()" by (auto simp: asErr_def split: sum.splits)

lemma VmParams_Validate_ok: "VmParams_Validate K G p = Inr () \<Longrightarrow> vm_params_ok K G p"
  by (auto simp: VmParams_Validate_def vm_params_ok_def validateEIPs_iff precompile_loop_iff ValidatePrecompiles_def deniedExtraEIPs_def list_ex_iff
      strict_sorted_iff tryE_Inr split: option.splits if_splits)

lemma SetParams_ok: "Vm_SetParams K G p s = Inr s' \<Longrightarrow> vm_params_ok K G (Vm_GetParams s') \<and> vcCoinInfo s' = vcCoinInfo s \<and>
    Vm_GetParams s' = p\<lparr>ActiveStaticPrecompiles := sort (ActiveStaticPrecompiles p)\<rparr>"
  using VmParams_Validate_ok [of K G "p\<lparr>ActiveStaticPrecompiles := sort (ActiveStaticPrecompiles p)\<rparr>"]
  by (auto simp: Vm_SetParams_def Vm_GetParams_def Let_def tryE_Inr)

section \<open>Activation of precompiles\<close>

lemma set_active: "Vm_SetParams K G p s = Inr s' \<Longrightarrow> set (ActiveStaticPrecompiles (Vm_GetParams s')) = set (ActiveStaticPrecompiles p)"
  using SetParams_ok [of K G p s s'] by simp

lemma Enable_active:
  assumes "EnableStaticPrecompiles K G addrs s = Inr s'" and "inj (hexOf G)"
  shows "vm_params_ok K G (Vm_GetParams s') \<and> vpAccessControl (Vm_GetParams s') = vpAccessControl (Vm_GetParams s) \<and>
    (\<forall>a. IsAvailableStaticPrecompile G (Vm_GetParams s') a \<longleftrightarrow> a \<in> set addrs \<or> IsAvailableStaticPrecompile G (Vm_GetParams s) a)"
proof -
  obtain u where u: "appendPrecompiles G (ActiveStaticPrecompiles (Vm_GetParams s)) addrs = Inr u"
    "Vm_SetParams K G ((Vm_GetParams s)\<lparr>ActiveStaticPrecompiles := u\<rparr>) s = Inr s'" using assms(1) by (auto simp: EnableStaticPrecompiles_def tryE_Inr)
  have "set u = set (ActiveStaticPrecompiles (Vm_GetParams s)) \<union> hexOf G ` set addrs" using u(1) by (auto split: if_splits)
  then have "hexOf G a \<in> set (ActiveStaticPrecompiles (Vm_GetParams s')) \<longleftrightarrow> hexOf G a \<in> set (ActiveStaticPrecompiles (Vm_GetParams s)) \<or> a \<in> set addrs" for a
    using set_active [OF u(2)] assms(2) by (auto simp: inj_image_mem_iff)
  then show ?thesis using SetParams_ok [OF u(2)] by (auto simp: IsAvailableStaticPrecompile_def)
qed

lemma hooks_two: "CallHook (evm_call_hooks G ps erc20 s signer True) caller b ev =
    (if getCanCallFn G (vpAccessControl (Vm_GetParams s)) signer caller then GetPrecompilesCallHook G ps erc20 s caller b ev
     else Inl (Errorf ''caller address does not have permission to perform a call''))"
proof -
  have "tryE r (CallHook [] caller b) = r" for r :: "('a, 'b, 'c) interp res" by (cases r) (auto simp: tryE_def)
  then show ?thesis by (simp add: evm_call_hooks_def GetCallHook_def)
qed

lemma hooks_cong:
  assumes "vpAccessControl (Vm_GetParams s') = vpAccessControl (Vm_GetParams s)"
    and "IsAvailableStaticPrecompile G (Vm_GetParams s') b \<longleftrightarrow> IsAvailableStaticPrecompile G (Vm_GetParams s) b"
  shows "CallHook (evm_call_hooks G ps erc20 s' signer True) caller b ev = CallHook (evm_call_hooks G ps erc20 s signer True) caller b ev"
proof -
  have "GetPrecompilesCallHook G ps erc20 s' caller b x = GetPrecompilesCallHook G ps erc20 s caller b x" for x :: "('a, 'b, 'c) interp"
    using assms(2) by (simp add: GetPrecompilesCallHook_def GetPrecompileInstance_def GetStaticPrecompileInstance_def)
  then show ?thesis using assms(1) by (simp add: hooks_two)
qed

text \<open>C30.
  Governance activates precompiles one by one and nothing else. When a list of static precompiles has been enabled,
  and the keeper holds their code, every permitted call to one of them runs it: the interpreter is left with
  exactly this precompile, and its address is warm. Calls to every other address go as before, refused ones
  included, and the new parameters are valid: sorted without duplicates, with no denied EIP.\<close>

theorem precompile_activation:
  assumes "EnableStaticPrecompiles K G addrs s = Inr s'" and "inj (hexOf G)" and "\<forall>a \<in> set addrs. ps a \<noteq> None"
  shows "vm_params_ok K G (Vm_GetParams s') \<and>
    (\<forall>a \<in> set addrs. getCanCallFn G (vpAccessControl (Vm_GetParams s)) signer caller \<longrightarrow>
      CallHook (evm_call_hooks G ps erc20 s' signer True) caller a ev =
        Inr (ev\<lparr>inPrecompiles := [a \<mapsto> the (ps a)], inDb := AddAddressToAccessList a (inDb ev)\<rparr>)) \<and>
    (\<forall>b. b \<notin> set addrs \<longrightarrow> CallHook (evm_call_hooks G ps erc20 s' signer True) caller b ev = CallHook (evm_call_hooks G ps erc20 s signer True) caller b ev)"
proof -
  note e = Enable_active [OF assms(1,2)]
  have "CallHook (evm_call_hooks G ps erc20 s' signer True) caller a ev = Inr (ev\<lparr>inPrecompiles := [a \<mapsto> the (ps a)], inDb := AddAddressToAccessList a (inDb ev)\<rparr>)"
    if "a \<in> set addrs" "getCanCallFn G (vpAccessControl (Vm_GetParams s)) signer caller" for a
  proof -
    have "ps a \<noteq> None" using assms(3) that(1) by simp
    then obtain p where "ps a = Some p" by auto
    moreover have "IsAvailableStaticPrecompile G (Vm_GetParams s') a" "vpAccessControl (Vm_GetParams s') = vpAccessControl (Vm_GetParams s)" using e that(1) by blast+
    ultimately show ?thesis using that(2) by (simp add: hooks_two GetPrecompilesCallHook_def GetPrecompileInstance_def GetStaticPrecompileInstance_def)
  qed
  moreover have "CallHook (evm_call_hooks G ps erc20 s' signer True) caller b ev = CallHook (evm_call_hooks G ps erc20 s signer True) caller b ev"
    if "b \<notin> set addrs" for b using e that by (intro hooks_cong) auto
  ultimately show ?thesis using e by blast
qed

text \<open>C36.
  An address that is not spelt with its checksum is accepted into an access list and then never matches. The
  policy compares the entries with the spelling that go-ethereum prints, while the validation takes any
  hexadecimal address: such an entry blocks nobody in a list of blocked callers and admits nobody in a list of
  admitted ones.\<close>

theorem unprinted_entry_ignored:
  assumes "IsHexAddress G e" and "\<forall>a. hexOf G a \<noteq> e" and "AccessControlType_Validate G act = Inr ()"
  shows "AccessControlType_Validate G (act\<lparr>actAccessControlList := e # actAccessControlList act\<rparr>) = Inr () \<and>
    access_allows G (act\<lparr>actAccessControlList := e # actAccessControlList act\<rparr>) = access_allows G act"
proof -
  have "access_allows G (act\<lparr>actAccessControlList := e # actAccessControlList act\<rparr>) signer caller = access_allows G act signer caller" for signer caller
    using assms(2) by (auto simp: access_allows_def permissionlessCheckFn_def permissionedCheckFn_def split: VmAccessType.splits)
  then show ?thesis using assms(1,3)
    by (auto simp: AccessControlType_Validate_def validateAllowlistAddresses_def ValidateAddress_def fun_eq_iff tryE_Inr)
qed

definition demo_names :: geth_names where
  "demo_names = \<lparr>ValidEip = \<lambda>e. 0 \<le> e, IsHexAddress = \<lambda>s. s \<noteq> [], ChannelIdentifierValidator = \<lambda>_. Inr (), hexOf = \<lambda>a. ''0x'' @ a,
     PrecompiledAddressesPrague = [''01'']\<rparr>"

definition demo_conf :: vm_conf where "demo_conf = \<lparr>vcParams = Some Vm_DefaultParams, vcCoinInfo = None\<rparr>"

lemma demo_enable: "EnableStaticPrecompiles ref_sdk demo_names [''0800'', ''0100''] demo_conf =
    Inr \<lparr>vcParams = Some (Vm_DefaultParams\<lparr>ActiveStaticPrecompiles := [''0x0100'', ''0x0800'']\<rparr>), vcCoinInfo = None\<rparr>"
  by (simp add: EnableStaticPrecompiles_def Vm_SetParams_def VmParams_Validate_def Vm_GetParams_def demo_conf_def demo_names_def Vm_DefaultParams_def
      ValidatePrecompiles_def ValidateAddress_def AccessControl_Validate_def AccessControlType_Validate_def validateAccessType_def validateAllowlistAddresses_def
      validateChannels_def DefaultAccessControl_def DefaultEVMExtendedDenom_def Let_def less_char_def less_eq_char_def asErr_def
      ref_sdk_def ref_ValidateDenom_def is_alpha_def is_lower_def is_denom_char_def is_alnum_def code_of_def)

theorem precompile_activation_witness:
  "CallHook (evm_call_hooks demo_names [''0800'' \<mapsto> 1, ''0100'' \<mapsto> (2 :: nat)] None
      \<lparr>vcParams = Some (Vm_DefaultParams\<lparr>ActiveStaticPrecompiles := [''0x0100'', ''0x0800'']\<rparr>), vcCoinInfo = None\<rparr> ''alice'' True) ''alice'' ''0800''
      \<lparr>inPrecompiles = Map.empty, inDb = Db_New (\<lparr>store = (), bank = (), events = []\<rparr>) \<lparr>cfgTxHash = [], cfgTxIndex = 0, cfgLogIndex = 0\<rparr>\<rparr> =
    Inr \<lparr>inPrecompiles = [''0800'' \<mapsto> 1],
      inDb = AddAddressToAccessList ''0800'' (Db_New (\<lparr>store = (), bank = (), events = []\<rparr>) \<lparr>cfgTxHash = [], cfgTxIndex = 0, cfgLogIndex = 0\<rparr>)\<rparr>"
proof -
  have i: "inj (hexOf demo_names)" by (simp add: demo_names_def inj_def)
  have c: "getCanCallFn demo_names (vpAccessControl (Vm_GetParams demo_conf)) ''alice'' ''alice''"
    by (simp add: getCanCallFn_def access_allows_def Vm_GetParams_def demo_conf_def Vm_DefaultParams_def DefaultAccessControl_def permissionlessCheckFn_def)
  show ?thesis using precompile_activation [OF demo_enable i, of "[''0800'' \<mapsto> 1, ''0100'' \<mapsto> (2 :: nat)]" "''alice''" "''alice''" None
      "\<lparr>inPrecompiles = Map.empty, inDb = Db_New (\<lparr>store = (), bank = (), events = []\<rparr>) \<lparr>cfgTxHash = [], cfgTxIndex = 0, cfgLogIndex = 0\<rparr>\<rparr>"] c by auto
qed

theorem unprinted_entry_ignored_witness:
  "access_allows demo_names \<lparr>actAccessType = AccessTypePermissionless, actAccessControlList = [''bob'']\<rparr> =
   access_allows demo_names \<lparr>actAccessType = AccessTypePermissionless, actAccessControlList = []\<rparr>"
proof -
  have "IsHexAddress demo_names ''bob''" "\<forall>a. hexOf demo_names a \<noteq> ''bob''"
    "AccessControlType_Validate demo_names \<lparr>actAccessType = AccessTypePermissionless, actAccessControlList = []\<rparr> = Inr ()"
    by (simp_all add: demo_names_def AccessControlType_Validate_def validateAccessType_def validateAllowlistAddresses_def)
  from unprinted_entry_ignored [OF this] show ?thesis by simp
qed

end
