(* ===== verification/Upgrades.thy ===== *)
theory Upgrades
  imports Evm_Params
begin

text \<open>
  The upgrade handlers of the application (\<^verbatim>\<open>app/upgrades.go\<close>): each runs the migrations of the modules and then
  writes the parameters of the fee market, and the first two the denomination of the EVM, in a branch of the
  state that is kept only when every write succeeds.

  The migrations of the SDK and the parameters of the staking module are parameters of the handlers. The bank of
  the EVM keeper is the wrapper of \<open>Evm_Bank\<close>. The store loader for new modules is start-up code and left out.
\<close>

section \<open>The handlers\<close>

record 'b up_state =
  upBank :: 'b
  upVm :: vm_conf
  upFm :: fm_state

text \<open>\<open>bondDenomOf\<close> reads the parameters of the staking module; the two keepers may be missing.\<close>

record ('x, 'b, 'v) up_app =
  upSdk :: "'x fee_sdk_scheme"
  upNames :: geth_names
  upEvmBank :: "'b EvmBankKeeper"
  RunMigrations :: "'v \<Rightarrow> 'b up_state \<Rightarrow> 'b up_state \<times> 'v res"
  hasStakingKeeper :: bool
  hasEVMKeeper :: bool
  bondDenomOf :: "'b up_state \<Rightarrow> denom res"

definition UpgradeName :: string where "UpgradeName = ''v2-evm''"
definition UpgradeNameFixEVMDenom :: string where "UpgradeNameFixEVMDenom = ''v3-fix-evm-denom''"
definition UpgradeNameV5 :: string where "UpgradeNameV5 = ''v5.0.0''"

text \<open>The fee market: the fields that the handler does not own must be usable, and the result valid.\<close>

definition set_feemarket :: "('x, 'b, 'v) up_app \<Rightarrow> (fm_params \<Rightarrow> fm_params) \<Rightarrow> 'b up_state \<Rightarrow> 'b up_state res" where
  "set_feemarket A patch s =
     (let params = GetParams (upSdk A) (upFm s) in
      if BaseFeeChangeDenominator params = 0 then Inl (Errorf ''upgrade aborted: BaseFeeChangeDenominator=0'')
      else if ElasticityMultiplier params = 0 then Inl (Errorf ''upgrade aborted: ElasticityMultiplier=0'')
      else tryE (asErr (Errorf ''upgrade aborted: feemarket params invalid'') (FeeParams_Validate (upSdk A) (patch params))) (\<lambda>_.
        Inr (s\<lparr>upFm := SetFeeParams (patch params) (upFm s)\<rparr>)))"

definition display_metadata :: "denom \<Rightarrow> denom \<Rightarrow> metadata option \<Rightarrow> metadata" where
  "display_metadata bondDenom displayDenom found =
     (case found of
        Some existing \<Rightarrow> existing\<lparr>mdBase := bondDenom, mdDisplay := displayDenom\<rparr>
      | None \<Rightarrow> \<lparr>mdDescription = [], mdDenomUnits = [\<lparr>duDenom = bondDenom, duExponent = 0, duAliases = []\<rparr>, \<lparr>duDenom = displayDenom, duExponent = 6, duAliases = []\<rparr>],
          mdBase = bondDenom, mdDisplay = displayDenom, mdName = map to_upper displayDenom, mdSymbol = map to_upper displayDenom, mdURI = [], mdURIHash = []\<rparr>)"

definition setEvmDenomFromStaking :: "('x, 'b, 'v) up_app \<Rightarrow> 'b up_state \<Rightarrow> 'b up_state res" where
  "setEvmDenomFromStaking A s =
     (if \<not> hasStakingKeeper A then Inl (Errorf ''staking keeper not initialized during upgrade'')
      else if \<not> hasEVMKeeper A then Inl (Errorf ''evm keeper not initialized during upgrade'')
      else tryE (asErr (Errorf ''failed to get staking params'') (bondDenomOf A s)) (\<lambda>bondDenom.
        if length bondDenom < 2 \<or> bondDenom ! 0 \<noteq> CHR ''u'' then Inl (Errorf ''invalid bond_denom: must start with u'')
        else let extendedDenom = ''a'' @ drop 1 bondDenom; displayDenom = drop 1 bondDenom;
                 evmParams = (Vm_GetParams (upVm s))\<lparr>EvmDenom := bondDenom, ExtendedDenomOptions := Some extendedDenom\<rparr> in
          tryE (asErr (Errorf ''failed to set evm params'') (Vm_SetParams (upSdk A) (upNames A) evmParams (upVm s))) (\<lambda>vm1.
          let B = eb_bank (upEvmBank A);
              bank1 = SetDenomMetaData B (upBank s) (display_metadata bondDenom displayDenom (GetDenomMetaData B (upBank s) bondDenom)) in
          tryE (asErr (Errorf ''failed to init evm coin info'') (InitEvmCoinInfo (Evm_GetDenomMetaData (upSdk A) (upEvmBank A) bank1) vm1)) (\<lambda>vm2.
          Inr (s\<lparr>upBank := bank1, upVm := vm2\<rparr>)))))"

text \<open>The migrations run on the state itself, the writes after them in a branch of it. The result is the state
  that the handler leaves, with the versions of the modules or an error.\<close>

definition run_handler :: "('x, 'b, 'v) up_app \<Rightarrow> ('b up_state \<Rightarrow> 'b up_state res) \<Rightarrow> 'v \<Rightarrow> 'b up_state \<Rightarrow> 'b up_state \<times> 'v res" where
  "run_handler A writes fromVM s =
     (case RunMigrations A fromVM s of (s1, r) \<Rightarrow>
        case r of Inl e \<Rightarrow> (s1, Inl e)
        | Inr vm \<Rightarrow> (case writes s1 of Inl e \<Rightarrow> (s1, Inl e) | Inr s2 \<Rightarrow> (s2, Inr vm)))"

definition v2_patch :: "fm_params \<Rightarrow> fm_params" where
  "v2_patch p = p\<lparr>NoBaseFee := True, BaseFee := Some 0, MinGasPrice := Some 0\<rparr>"

definition upgrade_v2 :: "('x, 'b, 'v) up_app \<Rightarrow> 'v \<Rightarrow> 'b up_state \<Rightarrow> 'b up_state \<times> 'v res" where
  "upgrade_v2 A = run_handler A (\<lambda>s. tryE (set_feemarket A v2_patch s) (setEvmDenomFromStaking A))"

definition v3_patch :: "('x, 'b, 'v) up_app \<Rightarrow> fm_params \<Rightarrow> fm_params" where
  "v3_patch A p = p\<lparr>NoBaseFee := True, BaseFee := Some 0, MinGasPrice := Some (Dec_FromInt (upSdk A) 1000000000)\<rparr>"

definition upgrade_v3 :: "('x, 'b, 'v) up_app \<Rightarrow> 'v \<Rightarrow> 'b up_state \<Rightarrow> 'b up_state \<times> 'v res" where
  "upgrade_v3 A = run_handler A (\<lambda>s. tryE (setEvmDenomFromStaking A s) (set_feemarket A (v3_patch A)))"

text \<open>\<open>LegacyNewDecWithPrec(1, 3)\<close> is one thousandth.\<close>

definition v5_patch :: "fm_params \<Rightarrow> fm_params" where
  "v5_patch p = p\<lparr>NoBaseFee := False, BaseFee := Some (dec_one div 1000), MinGasPrice := Some (dec_one div 1000)\<rparr>"

definition upgrade_v5 :: "('x, 'b, 'v) up_app \<Rightarrow> 'v \<Rightarrow> 'b up_state \<Rightarrow> 'b up_state \<times> 'v res" where
  "upgrade_v5 A = run_handler A (set_feemarket A v5_patch)"

definition RegisterUpgradeHandlers :: "('x, 'b, 'v) up_app \<Rightarrow> string \<rightharpoonup> ('v \<Rightarrow> 'b up_state \<Rightarrow> 'b up_state \<times> 'v res)" where
  "RegisterUpgradeHandlers A = [UpgradeName \<mapsto> upgrade_v2 A, UpgradeNameFixEVMDenom \<mapsto> upgrade_v3 A, UpgradeNameV5 \<mapsto> upgrade_v5 A]"

section \<open>What the handlers leave\<close>

text \<open>The metadata that a bank holds, after it was set.\<close>

definition meta_laws :: "'b FullBankKeeper \<Rightarrow> bool" where
  "meta_laws B = (\<forall>b md d. GetDenomMetaData B (SetDenomMetaData B b md) d = (if d = mdBase md then Some md else GetDenomMetaData B b d))"

lemma set_feemarket_Inr:
  assumes "set_feemarket A patch s = Inr s'"
  shows "fm_ok (upSdk A) (GetParams (upSdk A) (upFm s')) \<and> GetParams (upSdk A) (upFm s') = patch (GetParams (upSdk A) (upFm s)) \<and>
    FeeParams_Validate (upSdk A) (GetParams (upSdk A) (upFm s')) = Inr () \<and> upBank s' = upBank s \<and> upVm s' = upVm s"
  using assms FeeParams_Validate_iff [of "upSdk A" "patch (GetParams (upSdk A) (upFm s))"]
  by (auto simp: set_feemarket_def Let_def tryE_Inr split: if_splits)

lemma set_feemarket_runs:
  assumes "BaseFeeChangeDenominator (GetParams (upSdk A) (upFm s)) \<noteq> 0" and "ElasticityMultiplier (GetParams (upSdk A) (upFm s)) \<noteq> 0"
    and "FeeParams_Validate (upSdk A) (patch (GetParams (upSdk A) (upFm s))) = Inr ()"
  shows "set_feemarket A patch s = Inr (s\<lparr>upFm := SetFeeParams (patch (GetParams (upSdk A) (upFm s))) (upFm s)\<rparr>)"
  using assms by (simp add: set_feemarket_def Let_def asErr_def)

definition unit_decimals :: "denom \<Rightarrow> denom_unit list \<Rightarrow> u32" where
  "unit_decimals display us = fold (\<lambda>u d. if duDenom u = display then duExponent u else d) us 0"

lemma unit_decimals_none: "display \<notin> duDenom ` set us \<Longrightarrow> unit_decimals display us = 0"
proof -
  have "fold (\<lambda>u d. if duDenom u = display then duExponent u else d) us x = x" if "display \<notin> duDenom ` set us" for x
    using that by (induction us arbitrary: x) auto
  then show "display \<notin> duDenom ` set us \<Longrightarrow> ?thesis" by (simp add: unit_decimals_def)
qed

lemma setEvmDenom_Inr:
  assumes "setEvmDenomFromStaking A s = Inr s'" and "meta_laws (eb_bank (upEvmBank A))" and "bondDenomOf A s = Inr (CHR ''u'' # d)"
    and "eb_evmDenom (upEvmBank A) \<noteq> CHR ''u'' # d"
  shows "\<exists>md. GetDenomMetaData (eb_bank (upEvmBank A)) (upBank s') (CHR ''u'' # d) = Some md \<and>
    md = display_metadata (CHR ''u'' # d) d (GetDenomMetaData (eb_bank (upEvmBank A)) (upBank s) (CHR ''u'' # d)) \<and>
    upBank s' = SetDenomMetaData (eb_bank (upEvmBank A)) (upBank s) md \<and> upFm s' = upFm s \<and>
    EvmDenom (Vm_GetParams (upVm s')) = CHR ''u'' # d \<and> ExtendedDenomOptions (Vm_GetParams (upVm s')) = Some (CHR ''a'' # d) \<and>
    vm_params_ok (upSdk A) (upNames A) (Vm_GetParams (upVm s')) \<and>
    vcCoinInfo (upVm s') = Some \<lparr>eciDenom = CHR ''u'' # d,
      eciExtendedDenom = (if unit_decimals d (mdDenomUnits md) = 18 then CHR ''u'' # d else CHR ''a'' # d), eciDisplayDenom = d, eciDecimals = unit_decimals d (mdDenomUnits md)\<rparr>"
proof -
  let ?B = "eb_bank (upEvmBank A)" and ?u = "CHR ''u'' # d"
  define md where "md = display_metadata ?u d (GetDenomMetaData ?B (upBank s) ?u)"
  define bank1 where "bank1 = SetDenomMetaData ?B (upBank s) md"
  have m: "mdBase md = ?u" "mdDisplay md = d" by (simp_all add: md_def display_metadata_def split: option.splits)
  obtain vm1 vm2 where v: "Vm_SetParams (upSdk A) (upNames A) ((Vm_GetParams (upVm s))\<lparr>EvmDenom := ?u, ExtendedDenomOptions := Some (CHR ''a'' # d)\<rparr>) (upVm s) = Inr vm1"
    "InitEvmCoinInfo (Evm_GetDenomMetaData (upSdk A) (upEvmBank A) bank1) vm1 = Inr vm2" "s' = s\<lparr>upBank := bank1, upVm := vm2\<rparr>"
    using assms(1,3) by (auto simp: setEvmDenomFromStaking_def Let_def tryE_Inr asErr_def bank1_def md_def split: if_splits sum.splits)
  have g: "GetDenomMetaData ?B bank1 ?u = Some md" using assms(2) m(1) by (simp add: meta_laws_def bank1_def)
  have p: "EvmDenom (Vm_GetParams vm1) = ?u" "ExtendedDenomOptions (Vm_GetParams vm1) = Some (CHR ''a'' # d)" "vm_params_ok (upSdk A) (upNames A) (Vm_GetParams vm1)"
    using SetParams_ok [OF v(1)] by auto
  have "vm2 = SetEvmCoinInfo \<lparr>eciDenom = ?u, eciExtendedDenom = (if unit_decimals d (mdDenomUnits md) = 18 then ?u else CHR ''a'' # d), eciDisplayDenom = d,
      eciDecimals = unit_decimals d (mdDenomUnits md)\<rparr> vm1"
    using v(2) p assms(4) g m by (simp add: InitEvmCoinInfo_def LoadEvmCoinInfo_def Evm_GetDenomMetaData_def unit_decimals_def Let_def split: if_splits)
  then show ?thesis using v(3) p g md_def bank1_def by (simp add: SetEvmCoinInfo_def Vm_GetParams_def)
qed

text \<open>What the derivation of the EVM denomination writes, from the bond denomination that it finds in state \<open>t\<close>.\<close>

definition evm_denom_set :: "('x, 'b, 'v) up_app \<Rightarrow> 'b up_state \<Rightarrow> 'b up_state \<Rightarrow> bool" where
  "evm_denom_set A t s' \<longleftrightarrow> (\<exists>d info. let B = eb_bank (upEvmBank A); u = CHR ''u'' # d; p = Vm_GetParams (upVm t) in
     bondDenomOf A t = Inr u \<and> d \<noteq> [] \<and>
     Vm_GetParams (upVm s') = p\<lparr>EvmDenom := u, ExtendedDenomOptions := Some (CHR ''a'' # d), ActiveStaticPrecompiles := sort (ActiveStaticPrecompiles p)\<rparr> \<and>
     vm_params_ok (upSdk A) (upNames A) (Vm_GetParams (upVm s')) \<and>
     upBank s' = SetDenomMetaData B (upBank t) (display_metadata u d (GetDenomMetaData B (upBank t) u)) \<and>
     vcCoinInfo (upVm s') = Some info \<and> LoadEvmCoinInfo (Evm_GetDenomMetaData (upSdk A) (upEvmBank A) (upBank s')) (upVm s') = Inr info)"

lemma setEvmDenom_wrote:
  assumes "setEvmDenomFromStaking A t = Inr s'"
  shows "evm_denom_set A t s' \<and> upFm s' = upFm t"
proof -
  let ?B = "eb_bank (upEvmBank A)"
  from assms obtain u where b: "bondDenomOf A t = Inr u" "\<not> (length u < 2 \<or> u ! 0 \<noteq> CHR ''u'')"
    by (auto simp: setEvmDenomFromStaking_def tryE_Inr asErr_def split: if_splits sum.splits)
  then obtain d where u: "u = CHR ''u'' # d" "d \<noteq> []" by (cases u) auto
  define bank1 where "bank1 = SetDenomMetaData ?B (upBank t) (display_metadata u d (GetDenomMetaData ?B (upBank t) u))"
  obtain vm1 vm2 where v: "Vm_SetParams (upSdk A) (upNames A) ((Vm_GetParams (upVm t))\<lparr>EvmDenom := u, ExtendedDenomOptions := Some (CHR ''a'' # d)\<rparr>) (upVm t) = Inr vm1"
    "InitEvmCoinInfo (Evm_GetDenomMetaData (upSdk A) (upEvmBank A) bank1) vm1 = Inr vm2" "s' = t\<lparr>upBank := bank1, upVm := vm2\<rparr>"
    using assms b u by (auto simp: setEvmDenomFromStaking_def Let_def tryE_Inr asErr_def bank1_def split: if_splits sum.splits)
  from v(2) obtain info where i: "LoadEvmCoinInfo (Evm_GetDenomMetaData (upSdk A) (upEvmBank A) bank1) vm1 = Inr info" "vm2 = SetEvmCoinInfo info vm1"
    by (auto simp: InitEvmCoinInfo_def tryE_Inr)
  have p: "Vm_GetParams vm2 = Vm_GetParams vm1" "vcCoinInfo vm2 = Some info" by (simp_all add: i(2) SetEvmCoinInfo_def Vm_GetParams_def)
  with i(1) have "LoadEvmCoinInfo (Evm_GetDenomMetaData (upSdk A) (upEvmBank A) bank1) vm2 = Inr info" by (simp add: LoadEvmCoinInfo_def)
  moreover have ok: "vm_params_ok (upSdk A) (upNames A) (Vm_GetParams (upVm s'))" using SetParams_ok [OF v(1), THEN conjunct1] p(1) v(3) by simp
  ultimately show ?thesis using SetParams_ok [OF v(1), THEN conjunct2, THEN conjunct2] p v(3) b(1) u
    unfolding evm_denom_set_def Let_def by (intro conjI exI [of _ d] exI [of _ info] ok) (simp_all add: bank1_def)
qed

lemma feemarket_wrote:
  "set_feemarket A patch s = Inr s' \<Longrightarrow> s' = s\<lparr>upFm := upFm s'\<rparr> \<and> GetParams (upSdk A) (upFm s') = patch (GetParams (upSdk A) (upFm s)) \<and>
     FeeParams_Validate (upSdk A) (GetParams (upSdk A) (upFm s')) = Inr ()"
  using set_feemarket_Inr [of A patch s s'] by (cases s, cases s') simp

text \<open>What the writes of the handler of each name leave.\<close>

definition handler_wrote :: "('x, 'b, 'v) up_app \<Rightarrow> string \<Rightarrow> 'b up_state \<Rightarrow> 'b up_state \<Rightarrow> bool" where
  "handler_wrote A name s1 s' \<longleftrightarrow> FeeParams_Validate (upSdk A) (GetParams (upSdk A) (upFm s')) = Inr () \<and>
     GetParams (upSdk A) (upFm s') = (GetParams (upSdk A) (upFm s1))\<lparr>NoBaseFee := name \<noteq> UpgradeNameV5,
       BaseFee := Some (if name = UpgradeNameV5 then 10 ^ 15 else 0),
       MinGasPrice := Some (if name = UpgradeNameV5 then 10 ^ 15 else if name = UpgradeName then 0 else Dec_FromInt (upSdk A) (10 ^ 9))\<rparr> \<and>
     (if name = UpgradeNameV5 then upBank s' = upBank s1 \<and> upVm s' = upVm s1
      else evm_denom_set A (if name = UpgradeName then s1\<lparr>upFm := upFm s'\<rparr> else s1) s')"

lemma names_differ: "UpgradeName \<noteq> UpgradeNameV5" "UpgradeNameFixEVMDenom \<noteq> UpgradeNameV5" "UpgradeNameFixEVMDenom \<noteq> UpgradeName"
  by (simp_all add: UpgradeName_def UpgradeNameFixEVMDenom_def UpgradeNameV5_def)

lemma handlers_written:
  "tryE (set_feemarket A v2_patch s) (setEvmDenomFromStaking A) = Inr s' \<Longrightarrow> handler_wrote A UpgradeName s s'"
  "tryE (setEvmDenomFromStaking A s) (set_feemarket A (v3_patch A)) = Inr s' \<Longrightarrow> handler_wrote A UpgradeNameFixEVMDenom s s'"
  "set_feemarket A v5_patch s = Inr s' \<Longrightarrow> handler_wrote A UpgradeNameV5 s s'"
proof -
  assume "tryE (set_feemarket A v2_patch s) (setEvmDenomFromStaking A) = Inr s'"
  then obtain t where t: "set_feemarket A v2_patch s = Inr t" "setEvmDenomFromStaking A t = Inr s'" by (auto simp: tryE_Inr)
  note f = feemarket_wrote [OF t(1), THEN conjunct2] and e = setEvmDenom_wrote [OF t(2)]
  have q: "t = s\<lparr>upFm := upFm s'\<rparr>" unfolding e [THEN conjunct2] by (rule feemarket_wrote [OF t(1), THEN conjunct1])
  have "evm_denom_set A (s\<lparr>upFm := upFm s'\<rparr>) s'" using e [THEN conjunct1] unfolding q .
  with f [folded e [THEN conjunct2]] names_differ show "handler_wrote A UpgradeName s s'" by (auto simp: handler_wrote_def v2_patch_def)
next
  assume "tryE (setEvmDenomFromStaking A s) (set_feemarket A (v3_patch A)) = Inr s'"
  then obtain t where t: "setEvmDenomFromStaking A s = Inr t" "set_feemarket A (v3_patch A) t = Inr s'" by (auto simp: tryE_Inr)
  note f = feemarket_wrote [OF t(2), THEN conjunct2] and e = setEvmDenom_wrote [OF t(1)]
  have "upBank s' = upBank t" "upVm s' = upVm t" using set_feemarket_Inr [OF t(2)] by simp_all
  then have "evm_denom_set A s s'" using e [THEN conjunct1] by (simp add: evm_denom_set_def)
  with f [unfolded e [THEN conjunct2]] names_differ show "handler_wrote A UpgradeNameFixEVMDenom s s'" by (auto simp: handler_wrote_def v3_patch_def)
next
  assume v: "set_feemarket A v5_patch s = Inr s'"
  show "handler_wrote A UpgradeNameV5 s s'" using set_feemarket_Inr [OF v] by (auto simp: handler_wrote_def v5_patch_def)
qed

lemma run_handler_cases:
  assumes "run_handler A writes fromVM s = (s', r)"
  shows "case r of Inl _ \<Rightarrow> s' = fst (RunMigrations A fromVM s)
    | Inr vm \<Rightarrow> \<exists>s1. RunMigrations A fromVM s = (s1, Inr vm) \<and> writes s1 = Inr s'"
  using assms by (auto simp: run_handler_def split: sum.splits prod.splits)

text \<open>C19.
  An upgrade is all or nothing after the migrations, and never moves a coin. Whichever handler runs: when it returns
  an error, the state is the one the migrations left, successful or not. When it succeeds, everything it has to write is written:
  the parameters of the fee market are those the migrations left with the base fee switched off and zero and the minimum gas
  price 0 (v2) or \<open>10 ^ 9\<close> (v3), or with the base fee switched on and both prices at one thousandth (v5), and they are valid.
  v2 and v3 store the EVM denomination and its extended form derived from the bond denomination, the display metadata of
  the bank and the coin info that is loaded from them; v5 leaves bank and EVM configuration as they
  are. Every balance and supply is that of the migrated state.\<close>

theorem upgrades_all_or_nothing:
  assumes "RegisterUpgradeHandlers A name = Some handler" and "handler fromVM s = (s', r)" and "bank_laws (upSdk A) (eb_bank (upEvmBank A)) wfb"
  shows "case r of Inl _ \<Rightarrow> s' = fst (RunMigrations A fromVM s)
    | Inr vm \<Rightarrow> \<exists>s1. RunMigrations A fromVM s = (s1, Inr vm) \<and> FeeParams_Validate (upSdk A) (GetParams (upSdk A) (upFm s')) = Inr () \<and>
        GetParams (upSdk A) (upFm s') = (GetParams (upSdk A) (upFm s1))\<lparr>NoBaseFee := name \<noteq> UpgradeNameV5,
          BaseFee := Some (if name = UpgradeNameV5 then 10 ^ 15 else 0),
          MinGasPrice := Some (if name = UpgradeNameV5 then 10 ^ 15 else if name = UpgradeName then 0 else Dec_FromInt (upSdk A) (10 ^ 9))\<rparr> \<and>
        (if name = UpgradeNameV5 then upBank s' = upBank s1 \<and> upVm s' = upVm s1
         else evm_denom_set A (if name = UpgradeName then s1\<lparr>upFm := upFm s'\<rparr> else s1) s') \<and>
        (\<forall>a d. bal (eb_bank (upEvmBank A)) (upBank s') a d = bal (eb_bank (upEvmBank A)) (upBank s1) a d) \<and>
        (\<forall>d. bsupply (eb_bank (upEvmBank A)) (upBank s') d = bsupply (eb_bank (upEvmBank A)) (upBank s1) d)"
proof -
  from assms(1) consider "name = UpgradeName" "handler = upgrade_v2 A" | "name = UpgradeNameFixEVMDenom" "handler = upgrade_v3 A"
    | "name = UpgradeNameV5" "handler = upgrade_v5 A" by (auto simp: RegisterUpgradeHandlers_def split: if_splits)
  then have "\<exists>writes. handler = run_handler A writes \<and> (\<forall>t t'. writes t = Inr t' \<longrightarrow> handler_wrote A name t t')"
  proof cases
    case 1 then show ?thesis unfolding upgrade_v2_def using handlers_written(1) by blast
  next
    case 2 then show ?thesis unfolding upgrade_v3_def using handlers_written(2) by blast
  next
    case 3 then show ?thesis unfolding upgrade_v5_def using handlers_written(3) by blast
  qed
  then obtain writes where w: "handler = run_handler A writes" "\<And>t t'. writes t = Inr t' \<Longrightarrow> handler_wrote A name t t'" by blast
  have coins: "bal (eb_bank (upEvmBank A)) (upBank t') a d = bal (eb_bank (upEvmBank A)) (upBank t) a d \<and>
      bsupply (eb_bank (upEvmBank A)) (upBank t') d = bsupply (eb_bank (upEvmBank A)) (upBank t) d" if "handler_wrote A name t t'" for t t' a d
    using that bank_laws.Meta_bal [OF assms(3)] bank_laws.Meta_supply [OF assms(3)]
    by (auto simp: handler_wrote_def evm_denom_set_def Let_def split: if_splits)
  show ?thesis
  proof (cases r)
    case (Inl e)
    then show ?thesis using run_handler_cases [of A writes fromVM s s' r] assms(2) w(1) by simp
  next
    case (Inr vm)
    then obtain s1 where s1: "RunMigrations A fromVM s = (s1, Inr vm)" "handler_wrote A name s1 s'"
      using run_handler_cases [of A writes fromVM s s' r] assms(2) w by auto
    note h = s1(2) [unfolded handler_wrote_def]
    show ?thesis unfolding Inr sum.case
      by (intro exI [of _ s1] conjI s1(1) h [THEN conjunct1] h [THEN conjunct2, THEN conjunct1] h [THEN conjunct2, THEN conjunct2] allI
          coins [OF s1(2), THEN conjunct1] coins [OF s1(2), THEN conjunct2])
  qed
qed

text \<open>The v5.0.0 upgrade cannot abort on valid parameters and can be run again. If the migrations succeed and leave valid
  parameters, the handler succeeds, enables the base fee with base fee and minimum gas price at one thousandth of
  the small Cosmos unit, and changes nothing else; its writes applied to the result leave it as it is.\<close>

theorem v5_upgrade_total:
  assumes "fee_sdk_laws (upSdk A)" and "RunMigrations A fromVM s = (s1, Inr vm)" and "FeeParams_Validate (upSdk A) (GetParams (upSdk A) (upFm s1)) = Inr ()"
  shows "\<exists>s'. upgrade_v5 A fromVM s = (s', Inr vm) \<and> upBank s' = upBank s1 \<and> upVm s' = upVm s1 \<and>
    GetParams (upSdk A) (upFm s') = (GetParams (upSdk A) (upFm s1))\<lparr>NoBaseFee := False, BaseFee := Some (10 ^ 15), MinGasPrice := Some (10 ^ 15)\<rparr> \<and>
    set_feemarket A v5_patch s' = Inr s'"
proof -
  let ?p = "GetParams (upSdk A) (upFm s1)"
  have ok: "fm_ok (upSdk A) ?p" using assms(3) FeeParams_Validate_iff by blast
  have "MaxFeemarketGasPrice (upSdk A) = 10 ^ 36"
    using legacy_dec.Dec_FromInt_eq [of "upSdk A"] assms(1) by (simp add: MaxFeemarketGasPrice_def fee_sdk_laws_def sdk_laws_def)
  then have "FeeParams_Validate (upSdk A) (v5_patch ?p) = Inr ()" using ok by (auto simp: FeeParams_Validate_iff fm_ok_def v5_patch_def)
  then have v: "set_feemarket A v5_patch s1 = Inr (s1\<lparr>upFm := SetFeeParams (v5_patch ?p) (upFm s1)\<rparr>)" (is "_ = Inr ?s2")
    using ok by (intro set_feemarket_runs) (auto simp: fm_ok_def)
  note r = set_feemarket_Inr [OF v]
  have "v5_patch (v5_patch ?p) = v5_patch ?p" by (simp add: v5_patch_def)
  then have "set_feemarket A v5_patch ?s2 = Inr (?s2\<lparr>upFm := SetFeeParams (v5_patch ?p) (upFm ?s2)\<rparr>)"
    using r by (subst set_feemarket_runs) (auto simp: fm_ok_def)
  moreover have "?s2\<lparr>upFm := SetFeeParams (v5_patch ?p) (upFm ?s2)\<rparr> = ?s2" by (simp add: SetFeeParams_def)
  ultimately show ?thesis using assms(2) v r by (auto simp: upgrade_v5_def run_handler_def v5_patch_def)
qed

text \<open>C34.
  The upgrades derive the coin of the EVM from the bond denomination. After the v3 upgrade, with bond denomination
  \<^verbatim>\<open>u\<close> followed by a name, the EVM runs on the bond denomination, its extended denomination is \<^verbatim>\<open>a\<close> followed by the
  name, and the stored parameters are valid. Where the bank had no metadata the coin has 6 decimals. Metadata
  that the bank had keeps its description, links and units; if no unit has the new display name, the coin is
  stored with 0 decimals, for which there is no conversion factor.\<close>

theorem upgrade_derives_evm_coin:
  assumes "upgrade_v3 A fromVM s = (s', Inr vm)" and "RunMigrations A fromVM s = (s1, Inr vm)" and "meta_laws (eb_bank (upEvmBank A))"
    and "bondDenomOf A s1 = Inr (CHR ''u'' # d)" and "eb_evmDenom (upEvmBank A) \<noteq> CHR ''u'' # d"
  shows "\<exists>md info. GetDenomMetaData (eb_bank (upEvmBank A)) (upBank s') (CHR ''u'' # d) = Some md \<and> vcCoinInfo (upVm s') = Some info \<and>
    vm_params_ok (upSdk A) (upNames A) (Vm_GetParams (upVm s')) \<and> EvmDenom (Vm_GetParams (upVm s')) = CHR ''u'' # d \<and>
    ExtendedDenomOptions (Vm_GetParams (upVm s')) = Some (CHR ''a'' # d) \<and> eciDenom info = CHR ''u'' # d \<and> eciDisplayDenom info = d \<and>
    (case GetDenomMetaData (eb_bank (upEvmBank A)) (upBank s1) (CHR ''u'' # d) of
       None \<Rightarrow> eciDecimals info = 6 \<and> eciExtendedDenom info = CHR ''a'' # d
     | Some old \<Rightarrow> mdDescription md = mdDescription old \<and> mdURI md = mdURI old \<and> mdURIHash md = mdURIHash old \<and> mdDenomUnits md = mdDenomUnits old \<and>
         (d \<notin> duDenom ` set (mdDenomUnits old) \<longrightarrow> eciDecimals info = 0 \<and> ConversionFactor (eciDecimals info) = None))"
proof -
  obtain s2 where s: "setEvmDenomFromStaking A s1 = Inr s2" "set_feemarket A (v3_patch A) s2 = Inr s'"
    using assms(1,2) by (auto simp: upgrade_v3_def run_handler_def tryE_def split: sum.splits)
  have u: "upBank s' = upBank s2" "upVm s' = upVm s2" using set_feemarket_Inr [OF s(2)] by auto
  obtain md where md: "GetDenomMetaData (eb_bank (upEvmBank A)) (upBank s2) (CHR ''u'' # d) = Some md"
    "md = display_metadata (CHR ''u'' # d) d (GetDenomMetaData (eb_bank (upEvmBank A)) (upBank s1) (CHR ''u'' # d))"
    "EvmDenom (Vm_GetParams (upVm s2)) = CHR ''u'' # d" "ExtendedDenomOptions (Vm_GetParams (upVm s2)) = Some (CHR ''a'' # d)"
    "vm_params_ok (upSdk A) (upNames A) (Vm_GetParams (upVm s2))"
    "vcCoinInfo (upVm s2) = Some \<lparr>eciDenom = CHR ''u'' # d,
      eciExtendedDenom = (if unit_decimals d (mdDenomUnits md) = 18 then CHR ''u'' # d else CHR ''a'' # d), eciDisplayDenom = d, eciDecimals = unit_decimals d (mdDenomUnits md)\<rparr>"
    using setEvmDenom_Inr [OF s(1) assms(3-5)] by blast
  show ?thesis
  proof (cases "GetDenomMetaData (eb_bank (upEvmBank A)) (upBank s1) (CHR ''u'' # d)")
    case None
    then show ?thesis using md u by (simp add: display_metadata_def unit_decimals_def)
  next
    case (Some old)
    then show ?thesis using md u unit_decimals_none [of d "mdDenomUnits old"] by (auto simp: display_metadata_def ConversionFactor_def)
  qed
qed

section \<open>A chain to upgrade\<close>

definition meta_bank :: "ledger FullBankKeeper" where
  "meta_bank = BankKeeper.extend (ref_bank ref_fee [''modulestoc'']) (FullBankKeeper.fields
     (\<lambda>s m n cs. lg_Send s (''module'' @ m) (''module'' @ n) cs) (\<lambda>s a d. mk_coin d (lgBal s a d)) (\<lambda>s a. [])
     (\<lambda>s d. find (\<lambda>md. mdBase md = d) (lgMeta s)) (\<lambda>s c. True) (\<lambda>s cs. Inr ()) (\<lambda>s. []) (\<lambda>s. map (\<lambda>d. mk_coin d (lgSupply s d)) (lgDenoms s)))"

definition demo_app :: "(unit, ledger, nat) up_app" where
  "demo_app = \<lparr>upSdk = ref_fee, upNames = demo_names, upEvmBank = \<lparr>eb_bank = meta_bank, eb_evmDenom = ''astoc'', eb_cosmosDenom = ''ustoc''\<rparr>,
     RunMigrations = \<lambda>v s. (s, Inr (v + 1)), hasStakingKeeper = True, hasEVMKeeper = True, bondDenomOf = \<lambda>_. Inr ''ustoc''\<rparr>"

definition demo_up :: "ledger up_state" where
  "demo_up = \<lparr>upBank = empty_ledger, upVm = demo_conf, upFm = fm_start\<rparr>"

lemma meta_bank_sel [simp]: "SetDenomMetaData meta_bank b md = b\<lparr>lgMeta := md # lgMeta b\<rparr>" "GetDenomMetaData meta_bank b d = find (\<lambda>md. mdBase md = d) (lgMeta b)"
  by (simp_all add: meta_bank_def ref_bank_def BankKeeper.defs FullBankKeeper.defs)

lemma meta_bank_laws: "bank_laws ref_fee meta_bank ledger_ok" "meta_laws meta_bank"
  by (simp add: meta_bank_def bank_laws_extend refbank.bank_laws_axioms) (auto simp: meta_laws_def)

lemma demo_app_sel [simp]: "upSdk demo_app = ref_fee" "upNames demo_app = demo_names" "eb_bank (upEvmBank demo_app) = meta_bank" "eb_evmDenom (upEvmBank demo_app) = ''astoc''"
  "RunMigrations demo_app v t = (t, Inr (v + 1))" "hasStakingKeeper demo_app" "hasEVMKeeper demo_app" "bondDenomOf demo_app t = Inr ''ustoc''"
  by (simp_all add: demo_app_def)

lemma ref_fee_denoms: "ValidateDenom ref_fee ''ustoc'' = Inr ()" "ValidateDenom ref_fee ''astoc'' = Inr ()"
  by (simp_all add: ref_fee_def sdk.defs ref_sdk_def ref_ValidateDenom_def is_alpha_def is_lower_def is_denom_char_def is_alnum_def code_of_def)

lemma demo_v3: "\<exists>s'. upgrade_v3 demo_app 1 demo_up = (s', Inr 2)"
proof -
  have "VmParams_Validate ref_fee demo_names (Vm_DefaultParams\<lparr>EvmDenom := ''ustoc'', ExtendedDenomOptions := Some ''astoc''\<rparr>) = Inr ()"
    by (simp add: VmParams_Validate_def ref_fee_denoms demo_names_def Vm_DefaultParams_def ValidatePrecompiles_def AccessControl_Validate_def
        AccessControlType_Validate_def validateAccessType_def validateAllowlistAddresses_def validateChannels_def DefaultAccessControl_def)
  then have "\<exists>vm1. Vm_SetParams ref_fee demo_names (Vm_DefaultParams\<lparr>EvmDenom := ''ustoc'', ExtendedDenomOptions := Some ''astoc''\<rparr>) demo_conf = Inr vm1"
    by (simp add: Vm_SetParams_def Let_def Vm_DefaultParams_def)
  then obtain vm1 where v: "Vm_SetParams ref_fee demo_names (Vm_DefaultParams\<lparr>EvmDenom := ''ustoc'', ExtendedDenomOptions := Some ''astoc''\<rparr>) demo_conf = Inr vm1" by blast
  note p = SetParams_ok [OF v]
  have "Vm_GetParams demo_conf = Vm_DefaultParams" by (simp add: Vm_GetParams_def demo_conf_def)
  then have "\<exists>s2. setEvmDenomFromStaking demo_app demo_up = Inr s2" using v p
    by (simp add: setEvmDenomFromStaking_def demo_up_def Let_def asErr_def InitEvmCoinInfo_def LoadEvmCoinInfo_def Evm_GetDenomMetaData_def display_metadata_def
        empty_ledger_def)
  then obtain s2 where s2: "setEvmDenomFromStaking demo_app demo_up = Inr s2" "upFm s2 = fm_start" using setEvmDenom_wrote [of demo_app demo_up] by (auto simp: demo_up_def)
  have "FeeParams_Validate ref_fee (v3_patch demo_app (GetParams ref_fee fm_start)) = Inr ()"
    using v5_valid by (auto simp: FeeParams_Validate_iff fm_ok_def v3_patch_def MaxFeemarketGasPrice_def reffee.Dec_FromInt_eq)
  then have "\<exists>s'. set_feemarket demo_app (v3_patch demo_app) s2 = Inr s'" using v5_valid s2(2)
    using set_feemarket_runs [of demo_app s2 "v3_patch demo_app"] by (auto simp: FeeParams_Validate_iff fm_ok_def)
  then show ?thesis using s2(1) by (auto simp: upgrade_v3_def run_handler_def)
qed

theorem upgrades_all_or_nothing_witness:
  "\<exists>s' d info. upgrade_v3 demo_app 1 demo_up = (s', Inr 2) \<and> MinGasPrice (GetParams ref_fee (upFm s')) = Some (10 ^ 27) \<and>
     EvmDenom (Vm_GetParams (upVm s')) = CHR ''u'' # d \<and> vcCoinInfo (upVm s') = Some info"
proof -
  obtain s' where s': "upgrade_v3 demo_app 1 demo_up = (s', Inr 2)" using demo_v3 by blast
  have "RegisterUpgradeHandlers demo_app UpgradeNameFixEVMDenom = Some (upgrade_v3 demo_app)"
    by (simp add: RegisterUpgradeHandlers_def UpgradeName_def UpgradeNameFixEVMDenom_def UpgradeNameV5_def)
  from upgrades_all_or_nothing [OF this s', of ledger_ok] s' meta_bank_laws(1) names_differ show ?thesis
    by (auto simp: evm_denom_set_def Let_def reffee.Dec_FromInt_eq)
qed

theorem v5_upgrade_total_witness:
  "\<exists>s'. upgrade_v5 demo_app 1 demo_up = (s', Inr 2) \<and> BaseFee (GetParams ref_fee (upFm s')) = Some (10 ^ 15) \<and> set_feemarket demo_app v5_patch s' = Inr s'"
  using v5_upgrade_total [of demo_app 1 demo_up demo_up 2] reffee.fee_sdk_laws_axioms v5_valid by (auto simp: demo_up_def)

theorem upgrade_derives_evm_coin_witness:
  "\<exists>s' info. upgrade_v3 demo_app 1 demo_up = (s', Inr 2) \<and> vcCoinInfo (upVm s') = Some info \<and> eciDenom info = ''ustoc'' \<and>
    eciExtendedDenom info = ''astoc'' \<and> eciDecimals info = 6"
proof -
  obtain s' where s': "upgrade_v3 demo_app 1 demo_up = (s', Inr 2)" using demo_v3 by blast
  show ?thesis using upgrade_derives_evm_coin [OF s', of demo_up "''stoc''"] s' meta_bank_laws(2) by (auto simp: demo_up_def empty_ledger_def)
qed

end
