(* ===== verification/Erc20_Pairs.thy ===== *)
theory Erc20_Pairs
  imports Evm_Params "HOL-Library.Sublist"
begin

text \<open>
  The registry of the ERC20 module of the fork (\<^verbatim>\<open>x/erc20/types/token_pair.go\<close>, \<^verbatim>\<open>keys.go\<close>, \<^verbatim>\<open>keeper/token_pairs.go\<close>,
  \<^verbatim>\<open>allowance.go\<close>, \<^verbatim>\<open>params.go\<close>, \<^verbatim>\<open>precompiles.go\<close>). A token pair joins a contract and a denomination. The store keeps
  it under the hash of its two names, with one index by contract and one by denomination, and beside it the
  allowances of the contracts and the addresses of the precompiled contracts. The record \<open>erc_store\<close> has one
  field for each prefix of the store. An id is a string of bytes, empty where Go has \<open>nil\<close>.

  Hashes and the syntax of addresses are parameters; \<open>erc_names_laws\<close> states what the module needs of them.
\<close>

section \<open>Names, pairs and the store\<close>

record erc_names = geth_names +
  HexToAddress :: "string \<Rightarrow> addr"
  tmhash :: "string \<Rightarrow> string"
  ParseHexHash :: "string \<Rightarrow> string res"
  BytesToAddress :: "string \<Rightarrow> addr"

datatype pair_owner = OWNER_UNSPECIFIED | OWNER_MODULE | OWNER_EXTERNAL | OWNER_OTHER int

record TokenPair =
  tpErc20Address :: string
  tpDenom :: denom
  tpEnabled :: bool
  tpOwner :: pair_owner

record Allowance =
  alErc20Address :: string
  alOwner :: string
  alSpender :: string
  alValue :: int

record erc_store =
  erPairs :: "string \<rightharpoonup> TokenPair"
  erByErc20 :: "addr \<rightharpoonup> string"
  erByDenom :: "denom \<rightharpoonup> string"
  erAllowances :: "string \<rightharpoonup> Allowance"
  erNative :: "string set"
  erDynamic :: "string set"
  erEnabled :: bool
  erPermissionless :: bool

record erc_params =
  EnableErc20 :: bool
  PermissionlessRegistration :: bool

definition erc_err :: "string \<Rightarrow> go_err" where "erc_err s = SdkErr (''erc20: '' @ s)"

definition ErrERC20Disabled :: go_err where "ErrERC20Disabled = erc_err ''erc20 module is disabled''"
definition ErrInternalTokenPair :: go_err where "ErrInternalTokenPair = erc_err ''internal ethereum token mapping error''"
definition ErrTokenPairNotFound :: go_err where "ErrTokenPairNotFound = erc_err ''token pair not found''"
definition ErrTokenPairAlreadyExists :: go_err where "ErrTokenPairAlreadyExists = erc_err ''token pair already exists''"
definition ErrUndefinedOwner :: go_err where "ErrUndefinedOwner = erc_err ''undefined owner of contract pair''"
definition ErrBalanceInvariance :: go_err where "ErrBalanceInvariance = erc_err ''post transfer balance invariant failed''"
definition ErrUnexpectedEvent :: go_err where "ErrUnexpectedEvent = erc_err ''unexpected event''"
definition ErrABIUnpack :: go_err where "ErrABIUnpack = erc_err ''contract ABI unpack failed''"
definition ErrEVMCall :: go_err where "ErrEVMCall = erc_err ''EVM call unexpected error''"
definition ErrERC20TokenPairDisabled :: go_err where "ErrERC20TokenPairDisabled = erc_err ''erc20 token pair is disabled''"
definition ErrNativeConversionDisabled :: go_err where "ErrNativeConversionDisabled = erc_err ''native coins manual conversion is disabled''"
definition ErrInvalidAllowance :: go_err where "ErrInvalidAllowance = erc_err ''invalid allowance''"
definition ErrNegativeToken :: go_err where "ErrNegativeToken = erc_err ''token amount is negative''"
definition ErrExpectedEvent :: go_err where "ErrExpectedEvent = erc_err ''expected event''"

subsection \<open>Token pairs\<close>

definition GetIBCDenomAddress :: "'n erc_names_scheme \<Rightarrow> denom \<Rightarrow> addr res" where
  "GetIBCDenomAddress N denom =
     (if \<not> prefix ''ibc/'' denom then Inl (SdkErr ''invalid denomination for transfer'')
      else if length denom < 5 \<or> list_all is_space (drop 4 denom) then Inl (SdkErr ''invalid denomination for transfer'')
      else tryE (asErr (SdkErr ''invalid denomination for transfer'') (ParseHexHash N (drop 4 denom))) (\<lambda>bz. Inr (BytesToAddress N bz)))"

definition NewTokenPair :: "'n erc_names_scheme \<Rightarrow> addr \<Rightarrow> denom \<Rightarrow> pair_owner \<Rightarrow> TokenPair" where
  "NewTokenPair N erc20Address denom contractOwner =
     \<lparr>tpErc20Address = hexOf N erc20Address, tpDenom = denom, tpEnabled = True, tpOwner = contractOwner\<rparr>"

definition NewTokenPairSTRv2 :: "'n erc_names_scheme \<Rightarrow> denom \<Rightarrow> TokenPair res" where
  "NewTokenPairSTRv2 N denom =
     tryE (GetIBCDenomAddress N denom) (\<lambda>address.
     Inr \<lparr>tpErc20Address = hexOf N address, tpDenom = denom, tpEnabled = True, tpOwner = OWNER_MODULE\<rparr>)"

definition GetID :: "'n erc_names_scheme \<Rightarrow> TokenPair \<Rightarrow> string" where
  "GetID N tp = tmhash N (tpErc20Address tp @ ''|'' @ tpDenom tp)"

definition GetERC20Contract :: "'n erc_names_scheme \<Rightarrow> TokenPair \<Rightarrow> addr" where
  "GetERC20Contract N tp = HexToAddress N (tpErc20Address tp)"

definition TokenPair_Validate :: "'x sdk_scheme \<Rightarrow> 'n erc_names_scheme \<Rightarrow> TokenPair \<Rightarrow> unit res" where
  "TokenPair_Validate K N tp =
     tryE (ValidateDenom K (tpDenom tp)) (\<lambda>_. if \<not> IsHexAddress N (tpErc20Address tp) then Inl ErrInvalidAddress else Inr ())"

definition IsNativeCoin :: "TokenPair \<Rightarrow> bool" where "IsNativeCoin tp \<longleftrightarrow> tpOwner tp = OWNER_MODULE"

definition IsNativeERC20 :: "TokenPair \<Rightarrow> bool" where "IsNativeERC20 tp \<longleftrightarrow> tpOwner tp = OWNER_EXTERNAL"

definition NewAllowance :: "'n erc_names_scheme \<Rightarrow> addr \<Rightarrow> addr \<Rightarrow> addr \<Rightarrow> int \<Rightarrow> Allowance" where
  "NewAllowance N erc20 owner spender value =
     \<lparr>alErc20Address = hexOf N erc20, alOwner = hexOf N owner, alSpender = hexOf N spender, alValue = value\<rparr>"

definition Allowance_Validate :: "'n erc_names_scheme \<Rightarrow> Allowance \<Rightarrow> unit res" where
  "Allowance_Validate N a =
     (if \<not> IsHexAddress N (alErc20Address a) then Inl ErrInvalidAddress
      else if \<not> IsHexAddress N (alOwner a) then Inl ErrInvalidAddress
      else if \<not> IsHexAddress N (alSpender a) then Inl ErrInvalidAddress
      else if \<not> 0 < alValue a then Inl ErrInvalidAllowance
      else Inr ())"

definition AllowanceKey :: "addr \<Rightarrow> addr \<Rightarrow> addr \<Rightarrow> string" where
  "AllowanceKey erc20 owner spender = erc20 @ owner @ spender"

section \<open>The keeper\<close>

subsection \<open>Pairs and their indices\<close>

definition IsERC20Registered :: "erc_store \<Rightarrow> addr \<Rightarrow> bool" where "IsERC20Registered s erc20 \<longleftrightarrow> erByErc20 s erc20 \<noteq> None"

definition IsDenomRegistered :: "erc_store \<Rightarrow> denom \<Rightarrow> bool" where "IsDenomRegistered s denom \<longleftrightarrow> erByDenom s denom \<noteq> None"

definition IsTokenPairRegistered :: "erc_store \<Rightarrow> string \<Rightarrow> bool" where "IsTokenPairRegistered s i \<longleftrightarrow> erPairs s i \<noteq> None"

definition GetERC20Map :: "erc_store \<Rightarrow> addr \<Rightarrow> string" where
  "GetERC20Map s erc20 = (case erByErc20 s erc20 of None \<Rightarrow> [] | Some i \<Rightarrow> i)"

definition GetDenomMap :: "erc_store \<Rightarrow> denom \<Rightarrow> string" where
  "GetDenomMap s denom = (case erByDenom s denom of None \<Rightarrow> [] | Some i \<Rightarrow> i)"

definition SetERC20Map :: "addr \<Rightarrow> string \<Rightarrow> erc_store \<Rightarrow> erc_store" where
  "SetERC20Map erc20 i s = s\<lparr>erByErc20 := (erByErc20 s)(erc20 \<mapsto> i)\<rparr>"

definition SetDenomMap :: "denom \<Rightarrow> string \<Rightarrow> erc_store \<Rightarrow> erc_store" where
  "SetDenomMap denom i s = s\<lparr>erByDenom := (erByDenom s)(denom \<mapsto> i)\<rparr>"

definition deleteERC20Map :: "addr \<Rightarrow> erc_store \<Rightarrow> erc_store" where
  "deleteERC20Map erc20 s = s\<lparr>erByErc20 := (erByErc20 s)(erc20 := None)\<rparr>"

definition deleteDenomMap :: "denom \<Rightarrow> erc_store \<Rightarrow> erc_store" where
  "deleteDenomMap denom s = s\<lparr>erByDenom := (erByDenom s)(denom := None)\<rparr>"

definition GetTokenPairID :: "'n erc_names_scheme \<Rightarrow> erc_store \<Rightarrow> string \<Rightarrow> string" where
  "GetTokenPairID N s token = (if IsHexAddress N token then GetERC20Map s (HexToAddress N token) else GetDenomMap s token)"

definition GetTokenPair :: "erc_store \<Rightarrow> string \<Rightarrow> TokenPair option" where
  "GetTokenPair s i = (if i = [] then None else erPairs s i)"

definition SetTokenPair :: "'n erc_names_scheme \<Rightarrow> TokenPair \<Rightarrow> erc_store \<Rightarrow> erc_store" where
  "SetTokenPair N tokenPair s = s\<lparr>erPairs := (erPairs s)(GetID N tokenPair \<mapsto> tokenPair)\<rparr>"

definition deleteTokenPair :: "string \<Rightarrow> erc_store \<Rightarrow> erc_store" where
  "deleteTokenPair i s = s\<lparr>erPairs := (erPairs s)(i := None)\<rparr>"

definition deleteAllowances :: "addr \<Rightarrow> erc_store \<Rightarrow> erc_store" where
  "deleteAllowances erc20 s = s\<lparr>erAllowances := (\<lambda>key. if prefix erc20 key then None else erAllowances s key)\<rparr>"

definition DeleteTokenPair :: "'n erc_names_scheme \<Rightarrow> TokenPair \<Rightarrow> erc_store \<Rightarrow> erc_store" where
  "DeleteTokenPair N tokenPair s =
     (let s1 = deleteTokenPair (GetID N tokenPair) s;
          s2 = deleteERC20Map (GetERC20Contract N tokenPair) s1;
          s3 = deleteDenomMap (tpDenom tokenPair) s2
      in deleteAllowances (GetERC20Contract N tokenPair) s3)"

definition Erc20_SetToken :: "'n erc_names_scheme \<Rightarrow> TokenPair \<Rightarrow> erc_store \<Rightarrow> erc_store res" where
  "Erc20_SetToken N pair s =
     (if IsDenomRegistered s (tpDenom pair) then Inl ErrTokenPairAlreadyExists
      else if IsERC20Registered s (GetERC20Contract N pair) then Inl ErrTokenPairAlreadyExists
      else Inr (SetERC20Map (GetERC20Contract N pair) (GetID N pair) (SetDenomMap (tpDenom pair) (GetID N pair) (SetTokenPair N pair s))))"

definition GetCoinAddress :: "'n erc_names_scheme \<Rightarrow> erc_store \<Rightarrow> denom \<Rightarrow> addr res" where
  "GetCoinAddress N s denom =
     (if GetDenomMap s denom = [] then GetIBCDenomAddress N denom
      else case GetTokenPair s (GetDenomMap s denom) of None \<Rightarrow> Inl ErrTokenPairNotFound
        | Some tokenPair \<Rightarrow> Inr (GetERC20Contract N tokenPair))"

definition GetTokenDenom :: "erc_store \<Rightarrow> addr \<Rightarrow> denom res" where
  "GetTokenDenom s tokenAddress =
     (if GetERC20Map s tokenAddress = [] then Inl ErrTokenPairNotFound
      else case GetTokenPair s (GetERC20Map s tokenAddress) of None \<Rightarrow> Inl ErrTokenPairNotFound
        | Some tokenPair \<Rightarrow> Inr (tpDenom tokenPair))"

definition toggleConversion :: "'n erc_names_scheme \<Rightarrow> string \<Rightarrow> erc_store \<Rightarrow> (TokenPair \<times> erc_store) res" where
  "toggleConversion N token s =
     (if GetTokenPairID N s token = [] then Inl ErrTokenPairNotFound
      else case GetTokenPair s (GetTokenPairID N s token) of None \<Rightarrow> Inl ErrTokenPairNotFound
        | Some pair0 \<Rightarrow> let pair = pair0\<lparr>tpEnabled := \<not> tpEnabled pair0\<rparr> in Inr (pair, SetTokenPair N pair s))"

subsection \<open>Parameters\<close>

definition IsERC20Enabled :: "erc_store \<Rightarrow> bool" where "IsERC20Enabled s = erEnabled s"

definition isPermissionlessRegistration :: "erc_store \<Rightarrow> bool" where "isPermissionlessRegistration s = erPermissionless s"

definition Erc20_GetParams :: "erc_store \<Rightarrow> erc_params" where
  "Erc20_GetParams s = \<lparr>EnableErc20 = IsERC20Enabled s, PermissionlessRegistration = isPermissionlessRegistration s\<rparr>"

definition Erc20_SetParams :: "erc_params \<Rightarrow> erc_store \<Rightarrow> erc_store" where
  "Erc20_SetParams p s = s\<lparr>erEnabled := EnableErc20 p, erPermissionless := PermissionlessRegistration p\<rparr>"

subsection \<open>Allowances\<close>

definition GetAllowance :: "erc_store \<Rightarrow> addr \<Rightarrow> addr \<Rightarrow> addr \<Rightarrow> int" where
  "GetAllowance s erc20 owner spender =
     (case erAllowances s (AllowanceKey erc20 owner spender) of None \<Rightarrow> 0 | Some allowance \<Rightarrow> alValue allowance)"

definition emptyAddress :: addr where "emptyAddress = replicate 20 (char_of (0 :: nat))"

definition setAllowance :: "'n erc_names_scheme \<Rightarrow> addr \<Rightarrow> addr \<Rightarrow> addr \<Rightarrow> int option \<Rightarrow> bool \<Rightarrow> erc_store \<Rightarrow> erc_store res" where
  "setAllowance N erc20 owner spender value allowDisabledTokenPair s =
     (case GetTokenPair s (GetERC20Map s erc20) of None \<Rightarrow> Inl ErrTokenPairNotFound
      | Some tokenPair \<Rightarrow>
        if \<not> allowDisabledTokenPair \<and> \<not> tpEnabled tokenPair then Inl ErrERC20TokenPairDisabled
        else if owner = emptyAddress then Inl ErrInvalidAddress
        else if spender = emptyAddress then Inl ErrInvalidAddress
        else case value of None \<Rightarrow> Inl ErrInvalidAllowance
        | Some v \<Rightarrow>
          if v < 0 then Inl ErrInvalidAllowance
          else if 2 ^ 256 \<le> v then Inl ErrInvalidAllowance
          else if v = 0 then Inr (s\<lparr>erAllowances := (erAllowances s)(AllowanceKey erc20 owner spender := None)\<rparr>)
          else Inr (s\<lparr>erAllowances := (erAllowances s)(AllowanceKey erc20 owner spender \<mapsto> NewAllowance N erc20 owner spender v)\<rparr>))"

definition SetAllowance :: "'n erc_names_scheme \<Rightarrow> addr \<Rightarrow> addr \<Rightarrow> addr \<Rightarrow> int option \<Rightarrow> erc_store \<Rightarrow> erc_store res" where
  "SetAllowance N erc20 owner spender value = setAllowance N erc20 owner spender value False"

definition DeleteAllowance :: "'n erc_names_scheme \<Rightarrow> addr \<Rightarrow> addr \<Rightarrow> addr \<Rightarrow> erc_store \<Rightarrow> erc_store res" where
  "DeleteAllowance N erc20 owner spender = setAllowance N erc20 owner spender (Some 0) False"

definition UnsafeSetAllowance :: "'n erc_names_scheme \<Rightarrow> addr \<Rightarrow> addr \<Rightarrow> addr \<Rightarrow> int option \<Rightarrow> erc_store \<Rightarrow> erc_store res" where
  "UnsafeSetAllowance N erc20 owner spender value = setAllowance N erc20 owner spender value True"

subsection \<open>Precompiled contracts\<close>

definition IsNativePrecompileAvailable :: "'n erc_names_scheme \<Rightarrow> erc_store \<Rightarrow> addr \<Rightarrow> bool" where
  "IsNativePrecompileAvailable N s precompile \<longleftrightarrow> hexOf N precompile \<in> erNative s"

definition SetNativePrecompile :: "'n erc_names_scheme \<Rightarrow> addr \<Rightarrow> erc_store \<Rightarrow> erc_store" where
  "SetNativePrecompile N precompile s = s\<lparr>erNative := insert (hexOf N precompile) (erNative s)\<rparr>"

definition DeleteNativePrecompile :: "'n erc_names_scheme \<Rightarrow> addr \<Rightarrow> erc_store \<Rightarrow> erc_store" where
  "DeleteNativePrecompile N precompile s = s\<lparr>erNative := erNative s - {hexOf N precompile}\<rparr>"

definition IsDynamicPrecompileAvailable :: "'n erc_names_scheme \<Rightarrow> erc_store \<Rightarrow> addr \<Rightarrow> bool" where
  "IsDynamicPrecompileAvailable N s precompile \<longleftrightarrow> hexOf N precompile \<in> erDynamic s"

definition SetDynamicPrecompile :: "'n erc_names_scheme \<Rightarrow> addr \<Rightarrow> erc_store \<Rightarrow> erc_store" where
  "SetDynamicPrecompile N precompile s = s\<lparr>erDynamic := insert (hexOf N precompile) (erDynamic s)\<rparr>"

definition DeleteDynamicPrecompile :: "'n erc_names_scheme \<Rightarrow> addr \<Rightarrow> erc_store \<Rightarrow> erc_store" where
  "DeleteDynamicPrecompile N precompile s = s\<lparr>erDynamic := erDynamic s - {hexOf N precompile}\<rparr>"

text \<open>An instance is the pair it serves and whether it has the methods of wrapped tokens.\<close>

definition InstantiateERC20Precompile :: "'n erc_names_scheme \<Rightarrow> erc_store \<Rightarrow> addr \<Rightarrow> bool \<Rightarrow> (TokenPair \<times> bool) res" where
  "InstantiateERC20Precompile N s contractAddr hasWrappedMethods =
     (if GetTokenPairID N s (hexOf N contractAddr) = [] then Inl (Errorf ''precompile id not found'')
      else case GetTokenPair s (GetTokenPairID N s (hexOf N contractAddr)) of None \<Rightarrow> Inl (Errorf ''token pair not found'')
        | Some pair \<Rightarrow> Inr (pair, hasWrappedMethods))"

definition Erc20_GetERC20PrecompileInstance :: "'n erc_names_scheme \<Rightarrow> erc_store \<Rightarrow> addr \<Rightarrow> (TokenPair \<times> bool) option res" where
  "Erc20_GetERC20PrecompileInstance N s address =
     (let isNative = IsNativePrecompileAvailable N s address;
          isDynamic = IsDynamicPrecompileAvailable N s address
      in if \<not> (isNative \<or> isDynamic) then Inr None
         else tryE (InstantiateERC20Precompile N s address isNative) (\<lambda>p. Inr (Some p)))"

section \<open>The registry is consistent\<close>

locale erc_names_laws =
  fixes N :: "'n erc_names_scheme"
  assumes hex_roundtrip: "length a = 20 \<Longrightarrow> HexToAddress N (hexOf N a) = a"
    and hex_length: "length (HexToAddress N t) = 20"
    and bytes_length: "length (BytesToAddress N bz) = 20"
    and hex_valid: "IsHexAddress N (hexOf N a)"
    and hex_no_bar: "IsHexAddress N t \<Longrightarrow> CHR ''|'' \<notin> set t"
    and tmhash_inj: "tmhash N x = tmhash N y \<Longrightarrow> x = y"
    and tmhash_nonempty: "tmhash N x \<noteq> []"

text \<open>Every pair lies under its id and both indices lead to it; the indices hold nothing else; an
  allowance belongs to the contract of a pair.\<close>

definition pairs_ok :: "'n erc_names_scheme \<Rightarrow> erc_store \<Rightarrow> bool" where
  "pairs_ok N s \<longleftrightarrow>
     (\<forall>i p. erPairs s i = Some p \<longrightarrow> i = GetID N p \<and> IsHexAddress N (tpErc20Address p) \<and>
        erByErc20 s (GetERC20Contract N p) = Some i \<and> erByDenom s (tpDenom p) = Some i) \<and>
     (\<forall>a i. erByErc20 s a = Some i \<longrightarrow> (\<exists>p. erPairs s i = Some p \<and> GetERC20Contract N p = a)) \<and>
     (\<forall>d i. erByDenom s d = Some i \<longrightarrow> (\<exists>p. erPairs s i = Some p \<and> tpDenom p = d)) \<and>
     (\<forall>key al. erAllowances s key = Some al \<longrightarrow>
        (\<exists>a r. key = a @ r \<and> length a = 20 \<and> erByErc20 s a \<noteq> None \<and> 0 < alValue al \<and> alValue al < 2 ^ 256))"

lemma append_bar: "x @ CHR ''|'' # y = x' @ CHR ''|'' # y' \<Longrightarrow> CHR ''|'' \<notin> set x \<Longrightarrow> CHR ''|'' \<notin> set x' \<Longrightarrow> x = x' \<and> y = y'"
proof (induction x arbitrary: x')
  case Nil
  then show ?case by (cases x') auto
next
  case (Cons c x)
  then show ?case by (cases x') auto
qed

lemma pairs_okD:
  assumes "pairs_ok N s"
  shows "erPairs s i = Some p \<Longrightarrow> i = GetID N p" "erPairs s i = Some p \<Longrightarrow> IsHexAddress N (tpErc20Address p)"
    "erPairs s i = Some p \<Longrightarrow> erByErc20 s (GetERC20Contract N p) = Some i" "erPairs s i = Some p \<Longrightarrow> erByDenom s (tpDenom p) = Some i"
    "erByErc20 s a = Some i \<Longrightarrow> \<exists>p. erPairs s i = Some p \<and> GetERC20Contract N p = a"
    "erByDenom s d = Some i \<Longrightarrow> \<exists>p. erPairs s i = Some p \<and> tpDenom p = d"
    "erAllowances s key = Some al \<Longrightarrow> \<exists>a r. key = a @ r \<and> length a = 20 \<and> erByErc20 s a \<noteq> None \<and> 0 < alValue al \<and> alValue al < 2 ^ 256"
  using assms [unfolded pairs_ok_def, THEN conjunct1, rule_format, of i p]
    assms [unfolded pairs_ok_def, THEN conjunct2, THEN conjunct1, rule_format, of a i]
    assms [unfolded pairs_ok_def, THEN conjunct2, THEN conjunct2, THEN conjunct1, rule_format, of d i]
    assms [unfolded pairs_ok_def, THEN conjunct2, THEN conjunct2, THEN conjunct2, rule_format, of key al]
  by simp_all

lemma pairs_okI:
  assumes "\<And>i p. erPairs s i = Some p \<Longrightarrow> i = GetID N p \<and> IsHexAddress N (tpErc20Address p) \<and>
        erByErc20 s (GetERC20Contract N p) = Some i \<and> erByDenom s (tpDenom p) = Some i"
    and "\<And>a i. erByErc20 s a = Some i \<Longrightarrow> \<exists>p. erPairs s i = Some p \<and> GetERC20Contract N p = a"
    and "\<And>d i. erByDenom s d = Some i \<Longrightarrow> \<exists>p. erPairs s i = Some p \<and> tpDenom p = d"
    and "\<And>key al. erAllowances s key = Some al \<Longrightarrow>
        \<exists>a r. key = a @ r \<and> length a = 20 \<and> erByErc20 s a \<noteq> None \<and> 0 < alValue al \<and> alValue al < 2 ^ 256"
  shows "pairs_ok N s"
  unfolding pairs_ok_def using assms by blast

lemma pairs_ok_cong:
  "erPairs s' = erPairs s \<Longrightarrow> erByErc20 s' = erByErc20 s \<Longrightarrow> erByDenom s' = erByDenom s \<Longrightarrow> erAllowances s' = erAllowances s \<Longrightarrow>
   pairs_ok N s' = pairs_ok N s"
  unfolding pairs_ok_def by simp

lemma Register_Inr: "Erc20_SetToken N p s = Inr s' \<longleftrightarrow> erByDenom s (tpDenom p) = None \<and> erByErc20 s (GetERC20Contract N p) = None \<and>
    s' = s\<lparr>erPairs := (erPairs s)(GetID N p \<mapsto> p), erByErc20 := (erByErc20 s)(GetERC20Contract N p \<mapsto> GetID N p),
      erByDenom := (erByDenom s)(tpDenom p \<mapsto> GetID N p)\<rparr>"
  by (auto simp: Erc20_SetToken_def IsDenomRegistered_def IsERC20Registered_def SetERC20Map_def SetDenomMap_def SetTokenPair_def)

lemma Delete_eq: "DeleteTokenPair N p s = s\<lparr>erPairs := (erPairs s)(GetID N p := None), erByErc20 := (erByErc20 s)(GetERC20Contract N p := None),
    erByDenom := (erByDenom s)(tpDenom p := None), erAllowances := (\<lambda>key. if prefix (GetERC20Contract N p) key then None else erAllowances s key)\<rparr>"
  by (simp add: DeleteTokenPair_def deleteTokenPair_def deleteERC20Map_def deleteDenomMap_def deleteAllowances_def Let_def cong: if_cong)

context erc_names_laws
begin

lemma GetID_inj:
  assumes "IsHexAddress N (tpErc20Address p)" and "IsHexAddress N (tpErc20Address q)" and "GetID N p = GetID N q"
  shows "tpErc20Address p = tpErc20Address q \<and> tpDenom p = tpDenom q"
  using assms append_bar [of "tpErc20Address p" "tpDenom p" "tpErc20Address q" "tpDenom q"] tmhash_inj hex_no_bar
  by (auto simp: GetID_def)

lemma contract_length: "length (GetERC20Contract N p) = 20" by (simp add: GetERC20Contract_def hex_length)

lemma lookup:
  assumes "pairs_ok N s"
  shows "GetTokenPair s (GetERC20Map s a) = Some p \<longleftrightarrow> erPairs s (GetID N p) = Some p \<and> GetERC20Contract N p = a"
    and "GetTokenPair s (GetDenomMap s d) = Some p \<longleftrightarrow> erPairs s (GetID N p) = Some p \<and> tpDenom p = d"
proof -
  note D = pairs_okD [OF assms]
  have ne: "GetID N q \<noteq> []" for q by (simp add: GetID_def tmhash_nonempty)
  show "GetTokenPair s (GetERC20Map s a) = Some p \<longleftrightarrow> erPairs s (GetID N p) = Some p \<and> GetERC20Contract N p = a"
  proof (cases "erByErc20 s a")
    case None
    then show ?thesis using D(3) [of "GetID N p" p] by (auto simp: GetTokenPair_def GetERC20Map_def)
  next
    case (Some i)
    then obtain q where q: "erPairs s i = Some q" "GetERC20Contract N q = a" using D(5) by blast
    then have "i = GetID N q" using D(1) by blast
    then show ?thesis using Some q D(3) [of "GetID N p" p] ne by (auto simp: GetTokenPair_def GetERC20Map_def)
  qed
  show "GetTokenPair s (GetDenomMap s d) = Some p \<longleftrightarrow> erPairs s (GetID N p) = Some p \<and> tpDenom p = d"
  proof (cases "erByDenom s d")
    case None
    then show ?thesis using D(4) [of "GetID N p" p] by (auto simp: GetTokenPair_def GetDenomMap_def)
  next
    case (Some i)
    then obtain q where q: "erPairs s i = Some q" "tpDenom q = d" using D(6) by blast
    then have "i = GetID N q" using D(1) by blast
    then show ?thesis using Some q D(4) [of "GetID N p" p] ne by (auto simp: GetTokenPair_def GetDenomMap_def)
  qed
qed

lemma found_registered:
  assumes "pairs_ok N s" and "GetTokenPair s (GetTokenPairID N s token) = Some p"
  shows "erPairs s (GetID N p) = Some p" "IsHexAddress N (tpErc20Address p)"
proof -
  show p: "erPairs s (GetID N p) = Some p" using assms lookup [OF assms(1)] by (auto simp: GetTokenPairID_def split: if_splits)
  show "IsHexAddress N (tpErc20Address p)" using p pairs_okD(2) [OF assms(1)] by blast
qed

lemma SetToken_ok:
  assumes "pairs_ok N s" and "Erc20_SetToken N p s = Inr s'" and "IsHexAddress N (tpErc20Address p)"
  shows "pairs_ok N s'"
proof -
  note D = pairs_okD [OF assms(1)]
  have n: "erByDenom s (tpDenom p) = None" "erByErc20 s (GetERC20Contract N p) = None"
    and s': "s' = s\<lparr>erPairs := (erPairs s)(GetID N p \<mapsto> p), erByErc20 := (erByErc20 s)(GetERC20Contract N p \<mapsto> GetID N p),
      erByDenom := (erByDenom s)(tpDenom p \<mapsto> GetID N p)\<rparr>"
    using assms(2) by (auto simp: Register_Inr)
  have new: "erPairs s (GetID N p) = None"
  proof (rule ccontr)
    assume "erPairs s (GetID N p) \<noteq> None"
    then obtain q where q: "erPairs s (GetID N p) = Some q" by blast
    then have "tpDenom q = tpDenom p" using GetID_inj [of q p] D(1,2) [OF q] assms(3) by metis
    then show False using D(4) [OF q] n by simp
  qed
  show ?thesis unfolding s'
  proof (rule pairs_okI, goal_cases)
    case (1 i q)
    then show ?case using D(1-4) [of i q] assms(3) n by (auto split: if_splits)
  next
    case (2 a i)
    then show ?case using D(5) [of a i] new by (auto split: if_splits)
  next
    case (3 d i)
    then show ?case using D(6) [of d i] new by (auto split: if_splits)
  next
    case (4 key al)
    then show ?case using D(7) [of key al] by (auto split: if_splits)
  qed
qed

lemma Delete_ok:
  assumes "pairs_ok N s" and "erPairs s (GetID N p) = Some p"
  shows "pairs_ok N (DeleteTokenPair N p s)"
proof -
  note D = pairs_okD [OF assms(1)]
  have other: "GetERC20Contract N q \<noteq> GetERC20Contract N p \<and> tpDenom q \<noteq> tpDenom p" if "erPairs s i = Some q" "i \<noteq> GetID N p" for i q
    using D(3,4) [OF that(1)] D(3,4) [OF assms(2)] that(2) by (metis option.inject)
  show ?thesis unfolding Delete_eq
  proof (rule pairs_okI, goal_cases)
    case (1 i q)
    then show ?case using D(1-4) [of i q] other [of i q] by (auto split: if_splits)
  next
    case (2 a i)
    then have a: "erByErc20 s a = Some i" "a \<noteq> GetERC20Contract N p" by (auto split: if_splits)
    then obtain q where q: "erPairs s i = Some q" "GetERC20Contract N q = a" using D(5) by blast
    then have "i \<noteq> GetID N p" using a(2) assms(2) by auto
    then show ?case using q by auto
  next
    case (3 d i)
    then have d: "erByDenom s d = Some i" "d \<noteq> tpDenom p" by (auto split: if_splits)
    then obtain q where q: "erPairs s i = Some q" "tpDenom q = d" using D(6) by blast
    then have "i \<noteq> GetID N p" using d(2) assms(2) by auto
    then show ?case using q by auto
  next
    case (4 key al)
    then obtain a r where a: "key = a @ r" "length a = 20" "erByErc20 s a \<noteq> None" "0 < alValue al" "alValue al < 2 ^ 256"
      and np: "\<not> prefix (GetERC20Contract N p) key" using D(7) [of key al] by (auto split: if_splits)
    have "a \<noteq> GetERC20Contract N p" using a(1) np by auto
    then show ?case using a by auto
  qed
qed

lemma toggle_ok:
  assumes "pairs_ok N s" and "toggleConversion N token s = Inr (p, s')"
  shows "pairs_ok N s'"
proof -
  note D = pairs_okD [OF assms(1)]
  from assms(2) obtain q where q: "GetTokenPair s (GetTokenPairID N s token) = Some q" "p = q\<lparr>tpEnabled := \<not> tpEnabled q\<rparr>" "s' = SetTokenPair N p s"
    by (auto simp: toggleConversion_def Let_def split: if_splits option.splits)
  note r = found_registered [OF assms(1) q(1)]
  have i: "GetID N p = GetID N q" "GetERC20Contract N p = GetERC20Contract N q" "tpDenom p = tpDenom q" "tpErc20Address p = tpErc20Address q"
    using q(2) by (simp_all add: GetID_def GetERC20Contract_def)
  show ?thesis unfolding q(3) SetTokenPair_def
  proof (rule pairs_okI, goal_cases)
    case (1 j x)
    then show ?case using D(1-4) [of j x] D(1-4) [OF r(1)] i by (auto split: if_splits)
  next
    case (2 a j)
    then show ?case using D(5) [of a j] r(1) i by (auto split: if_splits)
  next
    case (3 d j)
    then show ?case using D(6) [of d j] r(1) i by (auto split: if_splits)
  next
    case (4 key al)
    then show ?case using D(7) [of key al] by auto
  qed
qed

lemma allowance_ok:
  assumes "pairs_ok N s" and "setAllowance N erc20 owner spender value allow s = Inr s'"
  shows "pairs_ok N s'"
proof -
  note D = pairs_okD [OF assms(1)]
  from assms(2) obtain p where p: "GetTokenPair s (GetERC20Map s erc20) = Some p" by (auto simp: setAllowance_def split: option.splits)
  then have a: "erByErc20 s erc20 \<noteq> None" "length erc20 = 20" using lookup(1) [OF assms(1)] D(3) contract_length by auto
  obtain v where "value = Some v" using assms(2) by (auto simp: setAllowance_def split: option.splits if_splits)
  then have v: "0 \<le> v" "v < 2 ^ 256" "s' = s\<lparr>erAllowances := (erAllowances s)(AllowanceKey erc20 owner spender :=
      (if v = 0 then None else Some (NewAllowance N erc20 owner spender v)))\<rparr>"
    using assms(2) p by (auto simp: setAllowance_def split: if_splits)
  show ?thesis unfolding v(3)
  proof (rule pairs_okI, goal_cases)
    case (1 i q)
    then show ?case using D(1-4) [of i q] by auto
  next
    case (4 key al)
    then show ?case using D(7) [of key al] a v(1,2) by (fastforce simp: AllowanceKey_def NewAllowance_def split: if_splits)
  qed (use D(5,6) in auto)
qed

end

text \<open>The operations of the module on its registry.\<close>

inductive pair_step :: "'n erc_names_scheme \<Rightarrow> erc_store \<Rightarrow> erc_store \<Rightarrow> bool" for N where
  created: "Erc20_SetToken N p s = Inr s' \<Longrightarrow> IsHexAddress N (tpErc20Address p) \<Longrightarrow> pair_step N s s'"
| toggled: "toggleConversion N token s = Inr (p, s') \<Longrightarrow> pair_step N s s'"
| deleted: "GetTokenPair s (GetTokenPairID N s token) = Some p \<Longrightarrow> pair_step N s (DeleteTokenPair N p s)"
| allowed: "setAllowance N erc20 owner spender value allow s = Inr s' \<Longrightarrow> pair_step N s s'"
| params: "pair_step N s (Erc20_SetParams p s)"
| precompiles: "pair_step N s (s\<lparr>erNative := n, erDynamic := d\<rparr>)"

context erc_names_laws
begin

lemma pair_step_ok: "pair_step N s s' \<Longrightarrow> pairs_ok N s \<Longrightarrow> pairs_ok N s'"
proof (induction rule: pair_step.induct)
  case (deleted s token p)
  then show ?case using Delete_ok found_registered(1) by blast
qed (auto intro: SetToken_ok toggle_ok allowance_ok simp: Erc20_SetParams_def cong: pairs_ok_cong)

lemma pair_steps_ok: "(pair_step N)\<^sup>*\<^sup>* s s' \<Longrightarrow> pairs_ok N s \<Longrightarrow> pairs_ok N s'"
  by (induction rule: rtranclp_induct) (auto intro: pair_step_ok)

end

end
