(* ===== verification/Erc20_Convert.thy ===== *)
theory Erc20_Convert
  imports Erc20_Pairs State_Transition
begin

text \<open>
  Conversions between contracts and coins (the fork's \<^verbatim>\<open>x/erc20/keeper/convert.go\<close>, \<^verbatim>\<open>msg_server.go\<close>, \<^verbatim>\<open>mint.go\<close>,
  \<^verbatim>\<open>evm.go\<close>, \<^verbatim>\<open>proposals.go\<close>, \<^verbatim>\<open>ibc_callbacks.go\<close>, \<^verbatim>\<open>util.go\<close>, \<^verbatim>\<open>types/msg.go\<close>, \<^verbatim>\<open>types/utils.go\<close>). The module sees the rest
  of the chain through the interfaces of \<^verbatim>\<open>types/interfaces.go\<close>: they are the fields of \<open>erc_env\<close>, functions on a
  state \<open>'w\<close> of the EVM and the bank. Call data have the type \<open>'d\<close>; packing and unpacking belong to go-ethereum.
  The context is the record \<open>erc_ctx\<close>.

  An operation returns the context with its result, also when it fails: a message server drops the context of a
  failed message, a callback of IBC that swallows an error keeps it. Every call builds its database on the
  context it gets, as the message server does. Attributes of events that print a bech32 address, a channel or the
  text of an error are left out.
\<close>

section \<open>The environment\<close>

datatype abi_arg = AbiAddr addr | AbiInt int

record ('w, 'd) erc_env =
  erNames :: erc_names
  erGeth :: geth
  erModuleAddress :: addr
  erAuthority :: string
  erAccAddressFromBech32 :: "string \<Rightarrow> addr res"
  erStringToBytes :: "string \<Rightarrow> addr res"
  erTransferSigHash :: hash
  ebGetBalance :: "'w \<Rightarrow> addr \<Rightarrow> denom \<Rightarrow> coin res"
  ebBlockedAddr :: "addr \<Rightarrow> bool"
  ebIsSendEnabledCoin :: "'w \<Rightarrow> coin \<Rightarrow> bool res"
  ebMintCoins :: "'w \<Rightarrow> string \<Rightarrow> coins \<Rightarrow> 'w res"
  ebBurnCoins :: "'w \<Rightarrow> string \<Rightarrow> coins \<Rightarrow> 'w res"
  ebSendCoinsFromModuleToAccount :: "'w \<Rightarrow> string \<Rightarrow> addr \<Rightarrow> coins \<Rightarrow> 'w res"
  ebSendCoinsFromAccountToModule :: "'w \<Rightarrow> addr \<Rightarrow> string \<Rightarrow> coins \<Rightarrow> 'w res"
  ebGetDenomMetaData :: "'w \<Rightarrow> denom \<Rightarrow> metadata option"
  ebSetDenomMetaData :: "'w \<Rightarrow> metadata \<Rightarrow> 'w"
  ebValidateMetadata :: "metadata \<Rightarrow> unit res"
  evGetAccountWithoutBalance :: "'w \<Rightarrow> addr \<Rightarrow> vm_account option"
  CallEVMWithData :: "'w \<Rightarrow> addr \<Rightarrow> addr \<Rightarrow> 'd \<Rightarrow> bool \<Rightarrow> bool \<Rightarrow> 'w \<times> MsgEthereumTxResponse res"
  abiPack :: "string \<Rightarrow> abi_arg list \<Rightarrow> 'd res"
  abiUnpackBool :: "string \<Rightarrow> bool res"
  abiUnpackString :: "string \<Rightarrow> string res"
  abiUnpackUint8 :: "string \<Rightarrow> 8 word res"
  abiUnpackBig :: "string \<Rightarrow> int option"

record 'w erc_ctx =
  erStore :: erc_store
  erWorld :: 'w
  erEvents :: "event list"

definition erc20Module :: string where "erc20Module = ''erc20''"

text \<open>Sequencing with the context, and an operation of the bank on it.\<close>

definition tryS :: "'c \<times> 'a res \<Rightarrow> ('a \<Rightarrow> 'c \<Rightarrow> 'c \<times> 'b res) \<Rightarrow> 'c \<times> 'b res" where
  "tryS m f = (case m of (c, Inl e) \<Rightarrow> (c, Inl e) | (c, Inr x) \<Rightarrow> f x c)"

definition onWorld :: "'w res \<Rightarrow> 'w erc_ctx \<Rightarrow> 'w erc_ctx \<times> unit res" where
  "onWorld r c = (case r of Inl e \<Rightarrow> (c, Inl e) | Inr w \<Rightarrow> (c\<lparr>erWorld := w\<rparr>, Inr ()))"

definition erEmit :: "event \<Rightarrow> 'w erc_ctx \<Rightarrow> 'w erc_ctx" where
  "erEmit e c = c\<lparr>erEvents := erEvents c @ [e]\<rparr>"

section \<open>Calls of contracts\<close>

definition CallEVM :: "('w, 'd) erc_env \<Rightarrow> addr \<Rightarrow> addr \<Rightarrow> bool \<Rightarrow> bool \<Rightarrow> string \<Rightarrow> abi_arg list \<Rightarrow> 'w erc_ctx \<Rightarrow> 'w erc_ctx \<times> MsgEthereumTxResponse res" where
  "CallEVM E from contract commit callFromPrecompile method args c =
     (case abiPack E method args of Inl _ \<Rightarrow> (c, Inl (SdkErr ''evm: contract ABI pack failed''))
      | Inr data \<Rightarrow> (case CallEVMWithData E (erWorld c) from contract data commit callFromPrecompile of
          (w, r) \<Rightarrow> (c\<lparr>erWorld := w\<rparr>, r)))"

definition BalanceOf :: "('w, 'd) erc_env \<Rightarrow> addr \<Rightarrow> addr \<Rightarrow> 'w erc_ctx \<Rightarrow> 'w erc_ctx \<times> int option" where
  "BalanceOf E contract account c =
     (case CallEVM E (erModuleAddress E) contract False False ''balanceOf'' [AbiAddr account] c of
        (c1, Inl _) \<Rightarrow> (c1, None)
      | (c1, Inr res) \<Rightarrow> (c1, abiUnpackBig E (resRet res)))"

definition Bytes32ToString :: "string \<Rightarrow> string" where
  "Bytes32ToString data = takeWhile (\<lambda>c. c \<noteq> char_of (0 :: nat)) data"

definition queryERC20String :: "('w, 'd) erc_env \<Rightarrow> addr \<Rightarrow> string \<Rightarrow> 'w erc_ctx \<Rightarrow> 'w erc_ctx \<times> string res" where
  "queryERC20String E contract method c =
     tryS (CallEVM E (erModuleAddress E) contract False False method [] c) (\<lambda>res c1.
     (c1, case abiUnpackString E (resRet res) of Inr v \<Rightarrow> Inr v
       | Inl _ \<Rightarrow> if length (resRet res) = 32 then Inr (Bytes32ToString (resRet res)) else Inl ErrABIUnpack))"

record ERC20Data =
  edName :: string
  edSymbol :: string
  edDecimals :: "8 word"

definition QueryERC20 :: "('w, 'd) erc_env \<Rightarrow> addr \<Rightarrow> 'w erc_ctx \<Rightarrow> 'w erc_ctx \<times> ERC20Data res" where
  "QueryERC20 E contract c =
     tryS (queryERC20String E contract ''name'' c) (\<lambda>name c1.
     tryS (queryERC20String E contract ''symbol'' c1) (\<lambda>symbol c2.
     tryS (CallEVM E (erModuleAddress E) contract False False ''decimals'' [] c2) (\<lambda>res c3.
     (c3, case abiUnpackUint8 E (resRet res) of Inl _ \<Rightarrow> Inl ErrABIUnpack
       | Inr v \<Rightarrow> Inr \<lparr>edName = name, edSymbol = symbol, edDecimals = v\<rparr>))))"

text \<open>The log of a call without return value: one event of a transfer, from the contract. A log without topics
  ends the loop with a panic.\<close>

fun transfer_logs :: "hash \<Rightarrow> addr \<Rightarrow> bool \<Rightarrow> eth_log list \<Rightarrow> unit res" where
  "transfer_logs sig tokenAddress found [] = (if found then Inr () else Inl ErrExpectedEvent)"
| "transfer_logs sig tokenAddress found (log # rest) =
     (case logTopics log of [] \<Rightarrow> Inl (GoPanic ''index out of range'')
      | t # _ \<Rightarrow>
          if t = sig then
            if logAddress log \<noteq> tokenAddress then Inl ErrUnexpectedEvent
            else if found then Inl ErrUnexpectedEvent
            else transfer_logs sig tokenAddress True rest
          else transfer_logs sig tokenAddress found rest)"

definition validateTransferEventExists :: "hash \<Rightarrow> eth_log list \<Rightarrow> addr \<Rightarrow> unit res" where
  "validateTransferEventExists sig ls tokenAddress =
     (if ls = [] then Inl ErrExpectedEvent else transfer_logs sig tokenAddress False ls)"

definition transfer_reply :: "('w, 'd) erc_env \<Rightarrow> addr \<Rightarrow> MsgEthereumTxResponse \<Rightarrow> unit res" where
  "transfer_reply E contract res =
     (if resRet res = [] then validateTransferEventExists (erTransferSigHash E) (resLogs res) contract
      else tryE (abiUnpackBool E (resRet res)) (\<lambda>v. if \<not> v then Inl (SdkErr ''internal logic error'') else Inr ()))"

section \<open>Conversions\<close>

definition MintingEnabled :: "('w, 'd) erc_env \<Rightarrow> addr \<Rightarrow> string \<Rightarrow> 'w erc_ctx \<Rightarrow> TokenPair res" where
  "MintingEnabled E receiver token c =
     (if \<not> IsERC20Enabled (erStore c) then Inl ErrERC20Disabled
      else if GetTokenPairID (erNames E) (erStore c) token = [] then Inl ErrTokenPairNotFound
      else case GetTokenPair (erStore c) (GetTokenPairID (erNames E) (erStore c) token) of None \<Rightarrow> Inl ErrTokenPairNotFound
      | Some pair \<Rightarrow>
        if \<not> tpEnabled pair then Inl ErrERC20TokenPairDisabled
        else if ebBlockedAddr E receiver then Inl ErrUnauthorized
        else tryE (ebIsSendEnabledCoin E (erWorld c) (mk_coin (tpDenom pair) 0)) (\<lambda>enabled.
          if \<not> enabled then Inl (SdkErr ''bank: send transactions are disabled'') else Inr pair))"

definition selfdestructed :: "('w, 'd) erc_env \<Rightarrow> TokenPair \<Rightarrow> 'w erc_ctx \<Rightarrow> bool" where
  "selfdestructed E pair c =
     (case evGetAccountWithoutBalance E (erWorld c) (GetERC20Contract (erNames E) pair) of None \<Rightarrow> True
      | Some acc \<Rightarrow> \<not> HasCodeHash (erGeth E) acc)"

definition coin_add :: "coin \<Rightarrow> coin \<Rightarrow> coin res" where
  "coin_add a b = (if Denom a \<noteq> Denom b then Inl (GoPanic ''invalid coin denominations'')
     else tryE (chk256 (Amount a + Amount b)) (\<lambda>n. Inr (mk_coin (Denom a) n)))"

definition convert_escrow :: "('w, 'd) erc_env \<Rightarrow> addr \<Rightarrow> int \<Rightarrow> addr \<Rightarrow> bool \<Rightarrow> bool \<Rightarrow> 'w erc_ctx \<Rightarrow> 'w erc_ctx \<times> unit res" where
  "convert_escrow E erc20Contract amount sender commit callFromPrecompile c =
     (case BalanceOf E erc20Contract (erModuleAddress E) c of
        (c1, None) \<Rightarrow> (c1, Inl ErrEVMCall)
      | (c1, Some balanceToken) \<Rightarrow>
        tryS (c1, abiPack E ''transfer'' [AbiAddr (erModuleAddress E), AbiInt amount]) (\<lambda>transferData c1.
        tryS (case CallEVMWithData E (erWorld c1) sender erc20Contract transferData commit callFromPrecompile of (w, r) \<Rightarrow> (c1\<lparr>erWorld := w\<rparr>, r)) (\<lambda>res c2.
        tryS (c2, transfer_reply E erc20Contract res) (\<lambda>_ c2.
        (case BalanceOf E erc20Contract (erModuleAddress E) c2 of
           (c3, None) \<Rightarrow> (c3, Inl ErrEVMCall)
         | (c3, Some balanceTokenAfter) \<Rightarrow>
             (c3, if balanceTokenAfter \<noteq> balanceToken + amount then Inl ErrBalanceInvariance else Inr ()))))))"

definition convert_mint :: "('w, 'd) erc_env \<Rightarrow> denom \<Rightarrow> int \<Rightarrow> addr \<Rightarrow> coin \<Rightarrow> 'w erc_ctx \<Rightarrow> 'w erc_ctx \<times> unit res" where
  "convert_mint E denom amount receiver balanceCoin c =
     (let coins = [mk_coin denom amount] in
      tryS (onWorld (ebMintCoins E (erWorld c) erc20Module coins) c) (\<lambda>_ c1.
      tryS (onWorld (ebSendCoinsFromModuleToAccount E (erWorld c1) erc20Module receiver coins) c1) (\<lambda>_ c2.
      tryS (c2, ebGetBalance E (erWorld c2) receiver denom) (\<lambda>balanceCoinAfter c2.
      tryS (c2, coin_add balanceCoin (mk_coin denom amount)) (\<lambda>expCoin c2.
      (c2, if balanceCoinAfter \<noteq> expCoin then Inl ErrBalanceInvariance else Inr ()))))))"

definition ConvertERC20IntoCoinsForNativeToken :: "('w, 'd) erc_env \<Rightarrow> addr \<Rightarrow> int \<Rightarrow> addr \<Rightarrow> addr \<Rightarrow> bool \<Rightarrow> bool \<Rightarrow> 'w erc_ctx \<Rightarrow> 'w erc_ctx \<times> unit res" where
  "ConvertERC20IntoCoinsForNativeToken E contract amount receiver sender commit callFromPrecompile c =
     (if \<not> 0 < amount then (c, Inl ErrNegativeToken)
      else tryS (c, MintingEnabled E receiver (hexOf (erNames E) contract) c) (\<lambda>pair c.
      if \<not> IsNativeERC20 pair then (c, Inl (if IsNativeCoin pair then ErrNativeConversionDisabled else ErrUndefinedOwner))
      else if selfdestructed E pair c then
        (erEmit (Event ''erc20_pair_deleted_suicided'' [(''contract'', tpErc20Address pair), (''denom'', tpDenom pair)])
           (c\<lparr>erStore := DeleteTokenPair (erNames E) pair (erStore c)\<rparr>), Inl ErrUndefinedOwner)
      else
        tryS (c, ebGetBalance E (erWorld c) receiver (tpDenom pair)) (\<lambda>balanceCoin c.
        tryS (convert_escrow E (GetERC20Contract (erNames E) pair) amount sender commit callFromPrecompile c) (\<lambda>_ c1.
        tryS (convert_mint E (tpDenom pair) amount receiver balanceCoin c1) (\<lambda>_ c2.
        (erEmit (Event ''convert_erc20'' [(''sender'', hexOf (erNames E) sender), (''amount'', show_int amount),
           (''cosmos_coin'', tpDenom pair), (''erc20_token'', hexOf (erNames E) contract)]) c2, Inr ()))))))"

definition ConvertCoinNativeERC20 :: "('w, 'd) erc_env \<Rightarrow> TokenPair \<Rightarrow> int \<Rightarrow> addr \<Rightarrow> addr \<Rightarrow> bool \<Rightarrow> 'w erc_ctx \<Rightarrow> 'w erc_ctx \<times> unit res" where
  "ConvertCoinNativeERC20 E pair amount receiver sender callFromPrecompile c =
     (if \<not> 0 < amount then (c, Inl ErrNegativeToken)
      else let contract = GetERC20Contract (erNames E) pair; coins = [mk_coin (tpDenom pair) amount] in
      case BalanceOf E contract receiver c of
        (c1, None) \<Rightarrow> (c1, Inl ErrEVMCall)
      | (c1, Some balanceToken) \<Rightarrow>
        tryS (onWorld (ebSendCoinsFromAccountToModule E (erWorld c1) sender erc20Module coins) c1) (\<lambda>_ c2.
        tryS (CallEVM E (erModuleAddress E) contract True callFromPrecompile ''transfer'' [AbiAddr receiver, AbiInt amount] c2) (\<lambda>res c3.
        tryS (c3, transfer_reply E contract res) (\<lambda>_ c3.
        (case BalanceOf E contract receiver c3 of
           (c4, None) \<Rightarrow> (c4, Inl ErrEVMCall)
         | (c4, Some balanceTokenAfter) \<Rightarrow>
             if balanceTokenAfter \<noteq> balanceToken + amount then (c4, Inl ErrBalanceInvariance)
             else onWorld (ebBurnCoins E (erWorld c4) erc20Module coins) c4)))))"

section \<open>The message server\<close>

record MsgConvertERC20 =
  mceContractAddress :: string
  mceAmount :: int
  mceReceiver :: string
  mceSender :: string

record MsgConvertCoin =
  mccCoin :: coin
  mccReceiver :: string
  mccSender :: string

record MsgRegisterERC20 =
  mreSigner :: string
  mreErc20Addresses :: "string list"

record MsgToggleConversion =
  mtcAuthority :: string
  mtcToken :: string

definition MsgConvertERC20_ValidateBasic :: "('w, 'd) erc_env \<Rightarrow> MsgConvertERC20 \<Rightarrow> unit res" where
  "MsgConvertERC20_ValidateBasic E msg =
     (if \<not> IsHexAddress (erNames E) (mceContractAddress msg) then Inl ErrInvalidAddress
      else if \<not> 0 < mceAmount msg then Inl (SdkErr ''invalid coins'')
      else tryE (erAccAddressFromBech32 E (mceReceiver msg)) (\<lambda>_.
        if \<not> IsHexAddress (erNames E) (mceSender msg) then Inl ErrInvalidAddress else Inr ()))"

definition MsgConvertCoin_ValidateBasic :: "('w, 'd) erc_env \<Rightarrow> MsgConvertCoin \<Rightarrow> unit res" where
  "MsgConvertCoin_ValidateBasic E msg =
     (if Denom (mccCoin msg) = [] then Inl (SdkErr ''invalid coins'')
      else if \<not> 0 < Amount (mccCoin msg) then Inl (SdkErr ''invalid coins'')
      else tryE (erAccAddressFromBech32 E (mccSender msg)) (\<lambda>_.
        if \<not> IsHexAddress (erNames E) (mccReceiver msg) then Inl ErrInvalidAddress else Inr ()))"

definition maxRegisterERC20Batch :: nat where "maxRegisterERC20Batch = 50"

definition MsgRegisterERC20_ValidateBasic :: "('w, 'd) erc_env \<Rightarrow> MsgRegisterERC20 \<Rightarrow> unit res" where
  "MsgRegisterERC20_ValidateBasic E m =
     tryE (erAccAddressFromBech32 E (mreSigner m)) (\<lambda>_.
     if maxRegisterERC20Batch < length (mreErc20Addresses m) then Inl (SdkErr ''invalid request: too many ERC20 addresses in single Msg'')
     else if \<not> list_all (IsHexAddress (erNames E)) (mreErc20Addresses m) then Inl ErrInvalidAddress
     else Inr ())"

definition MsgToggleConversion_ValidateBasic :: "('w, 'd) erc_env \<Rightarrow> MsgToggleConversion \<Rightarrow> unit res" where
  "MsgToggleConversion_ValidateBasic E m = tryE (erAccAddressFromBech32 E (mtcAuthority m)) (\<lambda>_. Inr ())"

definition erc20_MsgUpdateParams_ValidateBasic :: "('w, 'd) erc_env \<Rightarrow> string \<Rightarrow> unit res" where
  "erc20_MsgUpdateParams_ValidateBasic E auth = tryE (erAccAddressFromBech32 E auth) (\<lambda>_. Inr ())"

definition ConvertERC20 :: "('w, 'd) erc_env \<Rightarrow> MsgConvertERC20 \<Rightarrow> 'w erc_ctx \<Rightarrow> 'w erc_ctx \<times> unit res" where
  "ConvertERC20 E msg c =
     tryS (c, erAccAddressFromBech32 E (mceReceiver msg)) (\<lambda>receiver c.
     ConvertERC20IntoCoinsForNativeToken E (HexToAddress (erNames E) (mceContractAddress msg)) (mceAmount msg) receiver
       (HexToAddress (erNames E) (mceSender msg)) True False c)"

definition ConvertCoin :: "('w, 'd) erc_env \<Rightarrow> MsgConvertCoin \<Rightarrow> 'w erc_ctx \<Rightarrow> 'w erc_ctx \<times> unit res" where
  "ConvertCoin E msg c =
     tryS (c, asErr (GoPanic ''invalid address'') (erAccAddressFromBech32 E (mccSender msg))) (\<lambda>sender c.
     let receiver = HexToAddress (erNames E) (mccReceiver msg) in
     tryS (c, MintingEnabled E receiver (Denom (mccCoin msg)) c) (\<lambda>pair c.
     if IsNativeERC20 pair then
       if selfdestructed E pair c then (c\<lparr>erStore := DeleteTokenPair (erNames E) pair (erStore c)\<rparr>, Inr ())
       else ConvertCoinNativeERC20 E pair (Amount (mccCoin msg)) receiver sender False c
     else if IsNativeCoin pair then (c, Inl ErrNativeConversionDisabled)
     else (c, Inl ErrUndefinedOwner)))"

definition erc20_validateAuthority :: "('w, 'd) erc_env \<Rightarrow> string \<Rightarrow> unit res" where
  "erc20_validateAuthority E auth =
     tryE (asErr ErrInvalidAddress (erStringToBytes E auth)) (\<lambda>_.
     if erAuthority E \<noteq> auth then Inl ErrInvalidSigner else Inr ())"

definition erc20_UpdateParams :: "('w, 'd) erc_env \<Rightarrow> string \<Rightarrow> erc_params \<Rightarrow> 'w erc_ctx \<Rightarrow> 'w erc_ctx \<times> unit res" where
  "erc20_UpdateParams E reqAuthority params c =
     (if erAuthority E \<noteq> reqAuthority then (c, Inl ErrInvalidSigner)
      else (c\<lparr>erStore := Erc20_SetParams params (erStore c)\<rparr>, Inr ()))"

subsection \<open>Registration\<close>

text \<open>Names of tokens are cleaned: digits at the start of a line, then a first character that is no letter
  and all special characters, then prefixes of other denominations.\<close>

fun drop_line_digits :: "bool \<Rightarrow> string \<Rightarrow> string" where
  "drop_line_digits atStart [] = []"
| "drop_line_digits atStart (c # cs) =
     (if atStart \<and> is_digit c then drop_line_digits True cs else c # drop_line_digits (code_of c = 10) cs)"

definition removeLeadingNumbers :: "string \<Rightarrow> string" where "removeLeadingNumbers str = drop_line_digits True str"

definition removeSpecialChars :: "string \<Rightarrow> string" where
  "removeSpecialChars str =
     filter (\<lambda>c. is_alnum c \<or> c \<in> {CHR ''/'', CHR '':'', CHR ''-''})
       (case str of [] \<Rightarrow> [] | c # cs \<Rightarrow> if is_alpha c then c # cs else cs)"

function removeInvalidPrefixes :: "string \<Rightarrow> string" where
  "removeInvalidPrefixes str =
     (if prefix ''ibc/'' str then removeInvalidPrefixes (drop 4 str)
      else if prefix ''erc20/'' str then removeInvalidPrefixes (drop 6 str)
      else if prefix ''erc20:'' str then removeInvalidPrefixes (drop 6 str)
      else str)"
  by auto
termination by (relation "measure length") (auto simp: prefix_def)

declare removeInvalidPrefixes.simps [simp del]

definition SanitizeERC20Name :: "string \<Rightarrow> string" where
  "SanitizeERC20Name name = removeInvalidPrefixes (take 128 (removeSpecialChars (removeLeadingNumbers name)))"

definition CreateDenom :: "string \<Rightarrow> denom" where "CreateDenom address = ''erc20:'' @ address"

definition CreateDenomDescription :: "string \<Rightarrow> string" where
  "CreateDenomDescription address = ''Cosmos coin token representation of '' @ address"

definition erc20_metadata :: "string \<Rightarrow> ERC20Data \<Rightarrow> metadata" where
  "erc20_metadata strContract erc20Data =
     (let base = CreateDenom strContract;
          md = \<lparr>mdDescription = CreateDenomDescription strContract, mdDenomUnits = [\<lparr>duDenom = base, duExponent = 0, duAliases = []\<rparr>],
            mdBase = base, mdDisplay = base, mdName = CreateDenom strContract, mdSymbol = edSymbol erc20Data, mdURI = [], mdURIHash = []\<rparr>
      in if 0 < edDecimals erc20Data then
           let nameSanitized = SanitizeERC20Name (edName erc20Data) in
           md\<lparr>mdDenomUnits := mdDenomUnits md @ [\<lparr>duDenom = nameSanitized, duExponent = ucast (edDecimals erc20Data), duAliases = []\<rparr>],
              mdDisplay := nameSanitized\<rparr>
         else md)"

definition CreateCoinMetadata :: "('w, 'd) erc_env \<Rightarrow> addr \<Rightarrow> 'w erc_ctx \<Rightarrow> 'w erc_ctx \<times> metadata res" where
  "CreateCoinMetadata E contract c =
     (let strContract = hexOf (erNames E) contract in
      tryS (QueryERC20 E contract c) (\<lambda>erc20Data c1.
      if ebGetDenomMetaData E (erWorld c1) (CreateDenom strContract) \<noteq> None then (c1, Inl ErrInternalTokenPair)
      else if IsDenomRegistered (erStore c1) (CreateDenom strContract) then (c1, Inl ErrInternalTokenPair)
      else let md = erc20_metadata strContract erc20Data in
      tryS (c1, ebValidateMetadata E md) (\<lambda>_ c1.
      (c1\<lparr>erWorld := ebSetDenomMetaData E (erWorld c1) md\<rparr>, Inr md))))"

definition registerERC20 :: "('w, 'd) erc_env \<Rightarrow> addr \<Rightarrow> 'w erc_ctx \<Rightarrow> 'w erc_ctx \<times> TokenPair res" where
  "registerERC20 E contract c =
     (if IsERC20Registered (erStore c) contract then (c, Inl ErrTokenPairAlreadyExists)
      else tryS (CreateCoinMetadata E contract c) (\<lambda>md c1.
        let pair = NewTokenPair (erNames E) contract (mdName md) OWNER_EXTERNAL in
        (case Erc20_SetToken (erNames E) pair (erStore c1) of Inl e \<Rightarrow> (c1, Inl e)
         | Inr s \<Rightarrow> (c1\<lparr>erStore := s\<rparr>, Inr pair))))"

fun register_loop :: "('w, 'd) erc_env \<Rightarrow> string list \<Rightarrow> 'w erc_ctx \<Rightarrow> 'w erc_ctx \<times> unit res" where
  "register_loop E [] c = (c, Inr ())"
| "register_loop E (addr # rest) c =
     (if \<not> IsHexAddress (erNames E) addr then (c, Inl ErrInvalidAddress)
      else tryS (registerERC20 E (HexToAddress (erNames E) addr) c) (\<lambda>pair c1.
        register_loop E rest (erEmit (Event ''register_erc20'' [(''cosmos_coin'', tpDenom pair), (''erc20_token'', tpErc20Address pair)]) c1)))"

definition RegisterERC20 :: "('w, 'd) erc_env \<Rightarrow> MsgRegisterERC20 \<Rightarrow> 'w erc_ctx \<Rightarrow> 'w erc_ctx \<times> unit res" where
  "RegisterERC20 E req c =
     tryS (c, if PermissionlessRegistration (Erc20_GetParams (erStore c)) then Inr () else erc20_validateAuthority E (mreSigner req)) (\<lambda>_ c.
     if \<not> IsERC20Enabled (erStore c) then (c, Inl ErrERC20Disabled)
     else register_loop E (mreErc20Addresses req) c)"

definition ToggleConversion :: "('w, 'd) erc_env \<Rightarrow> MsgToggleConversion \<Rightarrow> 'w erc_ctx \<Rightarrow> 'w erc_ctx \<times> unit res" where
  "ToggleConversion E req c =
     tryS (c, erc20_validateAuthority E (mtcAuthority req)) (\<lambda>_ c.
     if GetTokenPairID (erNames E) (erStore c) (mtcToken req) = [] then (c, Inl ErrTokenPairNotFound)
     else case GetTokenPair (erStore c) (GetTokenPairID (erNames E) (erStore c) (mtcToken req)) of None \<Rightarrow> (c, Inl ErrTokenPairNotFound)
     | Some existing \<Rightarrow>
       let willEnable = \<not> tpEnabled existing in
       if willEnable \<and> \<not> IsERC20Enabled (erStore c) then (c, Inl ErrERC20Disabled)
       else (case toggleConversion (erNames E) (mtcToken req) (erStore c) of Inl e \<Rightarrow> (c, Inl e)
         | Inr (pair, s) \<Rightarrow> (erEmit (Event ''toggle_token_conversion'' [(''cosmos_coin'', tpDenom pair), (''erc20_token'', tpErc20Address pair)])
             (c\<lparr>erStore := s\<rparr>), Inr ())))"

section \<open>Callbacks of IBC\<close>

record FungibleTokenPacketData =
  ftDenom :: string
  ftAmount :: string
  ftSender :: string
  ftReceiver :: string

text \<open>Packets, their coins and the kinds of accounts belong to ibc-go and the SDK.\<close>

record ('w, 'p) erc_ibc =
  ibUnmarshalData :: "'p \<Rightarrow> FungibleTokenPacketData res"
  ibReceivedCoin :: "'p \<Rightarrow> FungibleTokenPacketData \<Rightarrow> coin"
  ibSentCoin :: "string \<Rightarrow> string \<Rightarrow> coin"
  ibIsModuleAccount :: "'w \<Rightarrow> addr \<Rightarrow> bool"
  ibBondDenom :: "'w \<Rightarrow> denom res"

datatype 'a ack = Passed 'a | ErrorAck go_err

definition errorAck :: "'c \<times> go_err \<Rightarrow> 'c \<times> 'a ack res" where
  "errorAck r = (case r of (c, GoPanic s) \<Rightarrow> (c, Inl (GoPanic s)) | (c, e) \<Rightarrow> (c, Inr (ErrorAck e)))"

definition Erc20_OnRecvPacket :: "('w, 'd) erc_env \<Rightarrow> ('w, 'p) erc_ibc \<Rightarrow> 'p \<Rightarrow> 'a \<Rightarrow> 'w erc_ctx \<Rightarrow> 'w erc_ctx \<times> 'a ack res" where
  "Erc20_OnRecvPacket E I packet ackIn c =
     (if \<not> IsERC20Enabled (erStore c) then (c, Inr (Passed ackIn))
      else case ibUnmarshalData I packet of Inl _ \<Rightarrow> errorAck (c, SdkErr ''invalid type'')
      | Inr data \<Rightarrow> (case erStringToBytes E (ftReceiver data) of Inl e \<Rightarrow> errorAck (c, e)
      | Inr recipient \<Rightarrow>
        if ibIsModuleAccount I (erWorld c) recipient then (c, Inr (Passed ackIn))
        else let coin = ibReceivedCoin I packet data in
        if prefix ''factory/'' (ftDenom data) then (c, Inr (Passed ackIn))
        else (case ibBondDenom I (erWorld c) of Inl e \<Rightarrow> errorAck (c, e)
        | Inr bondDenom \<Rightarrow>
          if Denom coin = bondDenom then (c, Inr (Passed ackIn))
          else (case GetTokenPair (erStore c) (GetTokenPairID (erNames E) (erStore c) (Denom coin)) of
            None \<Rightarrow>
              if prefix ''ibc/'' (Denom coin) then
                (erEmit (Event ''erc20_ibc_pair_not_registered'' [(''cosmos_coin'', Denom coin)]) c, Inr (Passed ackIn))
              else (c, Inr (Passed ackIn))
          | Some pair0 \<Rightarrow>
              if IsNativeERC20 pair0 then
                if \<not> tpEnabled pair0 then (c, Inr (Passed ackIn))
                else (case MintingEnabled E recipient (Denom coin) c of
                    Inl e \<Rightarrow> errorAck (erEmit (Event ''erc20_callback_failure'' [(''convert_coin'', ''mint_failure''), (''cosmos_coin'', Denom coin)]) c, e)
                  | Inr pair \<Rightarrow> (case ConvertCoinNativeERC20 E pair (Amount coin) recipient recipient False c of
                      (c1, Inl e) \<Rightarrow> errorAck (c1, e)
                    | (c1, Inr _) \<Rightarrow> (c1, Inr (Passed ackIn))))
              else (c, Inr (Passed ackIn))))))"

definition ConvertCoinToERC20FromPacket :: "('w, 'd) erc_env \<Rightarrow> ('w, 'p) erc_ibc \<Rightarrow> FungibleTokenPacketData \<Rightarrow> 'w erc_ctx \<Rightarrow> 'w erc_ctx \<times> unit res" where
  "ConvertCoinToERC20FromPacket E I data c =
     tryS (c, erStringToBytes E (ftSender data)) (\<lambda>sender c.
     case GetTokenPair (erStore c) (GetTokenPairID (erNames E) (erStore c) (ftDenom data)) of None \<Rightarrow> (c, Inr ())
     | Some pair \<Rightarrow>
       let coin = ibSentCoin I (ftDenom data) (ftAmount data) in
       if IsNativeCoin pair then (c, Inr ())
       else if IsNativeERC20 pair then
         if \<not> EnableErc20 (Erc20_GetParams (erStore c)) \<or> \<not> IsDenomRegistered (erStore c) (Denom coin) then (c, Inr ())
         else if ibIsModuleAccount I (erWorld c) sender then (c, Inr ())
         else (case ConvertCoinNativeERC20 E pair (Amount coin) sender sender False c of
             (c1, Inl (GoPanic s)) \<Rightarrow> (c1, Inl (GoPanic s))
           | (c1, Inl _) \<Rightarrow> (erEmit (Event ''failed_convert_erc20'' [(''source_channel'', tpDenom pair), (''erc20_token'', tpErc20Address pair)]) c1, Inr ())
           | (c1, Inr _) \<Rightarrow> (c1, Inr ()))
       else (c, Inr ()))"

text \<open>The flag says whether the acknowledgement reports an error.\<close>

definition Erc20_OnAcknowledgementPacket :: "('w, 'd) erc_env \<Rightarrow> ('w, 'p) erc_ibc \<Rightarrow> FungibleTokenPacketData \<Rightarrow> bool \<Rightarrow> 'w erc_ctx \<Rightarrow> 'w erc_ctx \<times> unit res" where
  "Erc20_OnAcknowledgementPacket E I data isError c = (if isError then ConvertCoinToERC20FromPacket E I data c else (c, Inr ()))"

definition Erc20_OnTimeoutPacket :: "('w, 'd) erc_env \<Rightarrow> ('w, 'p) erc_ibc \<Rightarrow> FungibleTokenPacketData \<Rightarrow> 'w erc_ctx \<Rightarrow> 'w erc_ctx \<times> unit res" where
  "Erc20_OnTimeoutPacket E I data c = ConvertCoinToERC20FromPacket E I data c"

end
