(* ===== verification/Erc20_Results.thy ===== *)
theory Erc20_Results
  imports Erc20_Convert Evm_Bank
begin

text \<open>
  What the ERC20 module keeps. Its operations are the steps of \<open>erc_step\<close>, also when they fail and their context is
  kept. Every step is a sequence of operations of the registry (\<open>step_registry\<close>), so the registry stays consistent.
  The locale \<open>closed_bank\<close> states what a bank does that knows only a few denominations: under it no conversion
  succeeds and no step changes a balance.
\<close>

section \<open>Frames\<close>

lemma tryS_simps [simp]: "tryS (c, Inr x) f = f x c" "tryS (c, Inl e) f = (c, Inl e)"
  by (simp_all add: tryS_def)

lemma tryS_keeps:
  assumes "P (fst m)" and "\<And>c1 x. m = (c1, Inr x) \<Longrightarrow> P c1 \<Longrightarrow> P (fst (f x c1))"
  shows "P (fst (tryS m f))"
  using assms by (cases m; cases "snd m") (auto simp: tryS_def)

lemma erEmit_sel [simp]: "erStore (erEmit e c) = erStore c" "erWorld (erEmit e c) = erWorld c"
  by (simp_all add: erEmit_def)

lemma onWorld_store [simp]: "erStore (fst (onWorld r c)) = erStore c"
  by (simp add: onWorld_def split: sum.split)

lemma CallEVM_store [simp]: "erStore (fst (CallEVM E f a cm fp m xs c)) = erStore c"
  by (simp add: CallEVM_def split: sum.split prod.split)

lemma BalanceOf_store [simp]: "erStore (fst (BalanceOf E a x c)) = erStore c"
  using CallEVM_store [of E "erModuleAddress E" a False False "''balanceOf''" "[AbiAddr x]" c]
  by (auto simp: BalanceOf_def split: sum.split prod.split simp del: CallEVM_store)

lemma BalanceOf_storeD: "BalanceOf E a x c = (c1, b) \<Longrightarrow> erStore c1 = erStore c"
  by (metis BalanceOf_store fst_conv)

lemma queryString_store [simp]: "erStore (fst (queryERC20String E a m c)) = erStore c"
  unfolding queryERC20String_def by (rule tryS_keeps) auto

lemma Query_store [simp]: "erStore (fst (QueryERC20 E a c)) = erStore c"
  unfolding QueryERC20_def by (intro tryS_keeps [where P = "\<lambda>x. erStore x = erStore c"]) auto

lemma call_store [simp]: "erStore (fst (case r of (w, x) \<Rightarrow> (c\<lparr>erWorld := w\<rparr>, x))) = erStore c"
  by (simp split: prod.split)

lemma escrow_store [simp]: "erStore (fst (convert_escrow E a n s cm fp c)) = erStore c"
proof (cases "BalanceOf E a (erModuleAddress E) c")
  case (Pair c1 b)
  note c1 = BalanceOf_storeD [OF Pair]
  show ?thesis
  proof (cases b)
    case (Some v)
    show ?thesis unfolding convert_escrow_def Pair Some prod.case option.case
      by (intro tryS_keeps [where P = "\<lambda>x. erStore x = erStore c"]) (auto simp: c1 dest: BalanceOf_storeD split: prod.split option.split)
  qed (simp add: convert_escrow_def Pair c1)
qed

lemma mint_store [simp]: "erStore (fst (convert_mint E d n a b c)) = erStore c"
  unfolding convert_mint_def Let_def
  by (intro tryS_keeps [where P = "\<lambda>x. erStore x = erStore c"]) auto

lemma toERC20_store [simp]: "erStore (fst (ConvertCoinNativeERC20 E p n a s fp c)) = erStore c"
proof (cases "0 < n")
  case True
  let ?a = "GetERC20Contract (erNames E) p"
  show ?thesis
  proof (cases "BalanceOf E ?a a c")
    case (Pair c1 b)
    note c1 = BalanceOf_storeD [OF Pair]
    have last: "erStore (fst (case BalanceOf E ?a a c4 of (c5, None) \<Rightarrow> (c5, Inl e)
         | (c5, Some w) \<Rightarrow> if w \<noteq> k then (c5, Inl e2) else onWorld (r c5) c5)) = erStore c4" for c4 e e2 k r
      by (auto dest: BalanceOf_storeD split: prod.split option.split)
    show ?thesis
    proof (cases b)
      case (Some v)
      show ?thesis unfolding ConvertCoinNativeERC20_def Let_def Pair Some prod.case option.case if_not_P [OF notI [OF notE [OF _ True]]] using True
        by (simp, intro tryS_keeps [where P = "\<lambda>x. erStore x = erStore c"]) (auto simp: c1 last)
    qed (use True in \<open>simp add: ConvertCoinNativeERC20_def Pair c1\<close>)
  qed
qed (simp add: ConvertCoinNativeERC20_def)

lemma metadata_store [simp]: "erStore (fst (CreateCoinMetadata E a c)) = erStore c"
  unfolding CreateCoinMetadata_def Let_def
  by (intro tryS_keeps [where P = "\<lambda>x. erStore x = erStore c"]) (auto intro!: tryS_keeps [where P = "\<lambda>x. erStore x = erStore c"])

section \<open>The steps of the module\<close>

inductive erc_step :: "('w, 'd) erc_env \<Rightarrow> ('w, 'p) erc_ibc \<Rightarrow> 'w erc_ctx \<Rightarrow> 'w erc_ctx \<Rightarrow> bool" for E I where
  to_coin: "ConvertERC20IntoCoinsForNativeToken E contract amount receiver sender commit fromPrecompile c = (c', r) \<Longrightarrow> erc_step E I c c'"
| to_token: "ConvertCoin E msg c = (c', r) \<Longrightarrow> erc_step E I c c'"
| registered: "RegisterERC20 E reg c = (c', r) \<Longrightarrow> erc_step E I c c'"
| toggled: "ToggleConversion E tog c = (c', r) \<Longrightarrow> erc_step E I c c'"
| params: "erc20_UpdateParams E auth ps c = (c', r) \<Longrightarrow> erc_step E I c c'"
| received: "Erc20_OnRecvPacket E I packet (a :: string) c = (c', k) \<Longrightarrow> erc_step E I c c'"
| returned: "ConvertCoinToERC20FromPacket E I data c = (c', r) \<Longrightarrow> erc_step E I c c'"
| allowed: "setAllowance (erNames E) erc20 owner spender value allow (erStore c) = Inr s \<Longrightarrow> erc_step E I c (c\<lparr>erStore := s\<rparr>)"

text \<open>The registry moves only by its own operations.\<close>

abbreviation registry_moves :: "('w, 'd) erc_env \<Rightarrow> 'w erc_ctx \<Rightarrow> 'w erc_ctx \<Rightarrow> bool" where
  "registry_moves E c c' \<equiv> (pair_step (erNames E))\<^sup>*\<^sup>* (erStore c) (erStore c')"

lemma moves_same: "erStore c' = erStore c \<Longrightarrow> registry_moves E c c'" by simp

lemma moves_trans: "registry_moves E c c1 \<Longrightarrow> registry_moves E c1 c2 \<Longrightarrow> registry_moves E c c2" by (rule rtranclp_trans)

lemma moves_step: "pair_step (erNames E) (erStore c) (erStore c') \<Longrightarrow> registry_moves E c c'" by blast

lemma MintingEnabled_Inr:
  assumes "MintingEnabled E receiver token c = Inr pair"
  shows "GetTokenPair (erStore c) (GetTokenPairID (erNames E) (erStore c) token) = Some pair" "tpEnabled pair" "IsERC20Enabled (erStore c)"
    "\<not> ebBlockedAddr E receiver" "ebIsSendEnabledCoin E (erWorld c) (mk_coin (tpDenom pair) 0) = Inr True"
  using assms by (auto simp: MintingEnabled_def tryE_def split: if_splits option.splits sum.splits)

lemma tryS_Inr_split: "fst (tryS (c, r) f) = (case r of Inl e \<Rightarrow> c | Inr x \<Rightarrow> fst (f x c))"
  by (simp add: tryS_def split: sum.split)

lemma to_coin_moves: "registry_moves E c (fst (ConvertERC20IntoCoinsForNativeToken E contract amount receiver sender commit fp c))"
proof (cases "MintingEnabled E receiver (hexOf (erNames E) contract) c")
  case (Inr pair)
  note found = MintingEnabled_Inr(1) [OF Inr]
  show ?thesis
  proof (cases "0 < amount \<and> IsNativeERC20 pair")
    case True
    show ?thesis
    proof (cases "selfdestructed E pair c")
      case gone: True
      have "pair_step (erNames E) (erStore c) (DeleteTokenPair (erNames E) pair (erStore c))" by (rule pair_step.deleted [OF found])
      then show ?thesis using True gone Inr by (simp add: ConvertERC20IntoCoinsForNativeToken_def r_into_rtranclp)
    next
      case False
      have "erStore (fst (ConvertERC20IntoCoinsForNativeToken E contract amount receiver sender commit fp c)) = erStore c"
        using True False unfolding ConvertERC20IntoCoinsForNativeToken_def Inr
        by simp (intro tryS_keeps [where P = "\<lambda>x. erStore x = erStore c"], auto)
      then show ?thesis by (rule moves_same)
    qed
  qed (auto simp: ConvertERC20IntoCoinsForNativeToken_def Inr)
qed (simp add: ConvertERC20IntoCoinsForNativeToken_def)

lemma to_token_moves: "registry_moves E c (fst (ConvertCoin E msg c))"
proof (cases "asErr (GoPanic ''invalid address'') (erAccAddressFromBech32 E (mccSender msg))")
  case sender: (Inr sender)
  show ?thesis
  proof (cases "MintingEnabled E (HexToAddress (erNames E) (mccReceiver msg)) (Denom (mccCoin msg)) c")
    case (Inr pair)
    have "pair_step (erNames E) (erStore c) (DeleteTokenPair (erNames E) pair (erStore c))" by (rule pair_step.deleted [OF MintingEnabled_Inr(1) [OF Inr]])
    then show ?thesis using sender Inr by (auto simp: ConvertCoin_def Let_def)
  qed (simp add: ConvertCoin_def sender Let_def)
qed (simp add: ConvertCoin_def)

lemma register_one_moves:
  assumes "\<And>a. IsHexAddress (erNames E) (hexOf (erNames E) a)"
  shows "registry_moves E c (fst (registerERC20 E contract c))"
proof (cases "CreateCoinMetadata E contract c")
  case (Pair c1 m)
  have c1: "erStore c1 = erStore c" using metadata_store [of E contract c] Pair by simp
  show ?thesis
  proof (cases "Erc20_SetToken (erNames E) (NewTokenPair (erNames E) contract (mdName (projr m)) OWNER_EXTERNAL) (erStore c)")
    case (Inr s)
    have "pair_step (erNames E) (erStore c) s" by (rule pair_step.created [OF Inr]) (simp add: NewTokenPair_def assms)
    then show ?thesis using Inr c1 Pair by (cases m) (auto simp: registerERC20_def Let_def)
  qed (use Pair c1 in \<open>cases m; auto simp: registerERC20_def Let_def\<close>)
qed

lemma register_moves:
  assumes "\<And>a. IsHexAddress (erNames E) (hexOf (erNames E) a)"
  shows "registry_moves E c (fst (register_loop E addrs c))"
proof (induction addrs arbitrary: c)
  case (Cons a rest)
  show ?case
  proof (cases "registerERC20 E (HexToAddress (erNames E) a) c")
    case (Pair c1 r)
    have one: "registry_moves E c c1" using register_one_moves [OF assms, of c "HexToAddress (erNames E) a"] Pair by simp
    have rest: "registry_moves E c1 (fst (register_loop E rest (erEmit e c1)))" for e using Cons [of "erEmit e c1"] by simp
    show ?thesis using one moves_trans [OF one rest] Pair by (cases r) auto
  qed
qed simp

lemma toggle_moves: "registry_moves E c (fst (ToggleConversion E req c))"
proof (cases "toggleConversion (erNames E) (mtcToken req) (erStore c)")
  case (Inr q)
  obtain p s where q: "q = (p, s)" by fastforce
  have "pair_step (erNames E) (erStore c) s" by (rule pair_step.toggled [OF Inr [unfolded q]])
  then show ?thesis using Inr q by (auto simp: ToggleConversion_def tryS_Inr_split Let_def split: sum.split option.split)
qed (auto simp: ToggleConversion_def tryS_Inr_split Let_def split: sum.split option.split)

lemma errorAck_fst [simp]: "fst (errorAck (c, e)) = c"
  by (cases e) (simp_all add: errorAck_def)

lemma toERC20_storeD: "ConvertCoinNativeERC20 E p n a s fp c = (c1, r) \<Longrightarrow> erStore c1 = erStore c"
  by (metis toERC20_store fst_conv)

lemma received_store: "erStore (fst (Erc20_OnRecvPacket E I packet a c)) = erStore c"
  by (auto simp: Erc20_OnRecvPacket_def Let_def dest: toERC20_storeD split: sum.split option.split prod.split)

lemma returned_store: "erStore (fst (ConvertCoinToERC20FromPacket E I data c)) = erStore c"
  by (auto simp: ConvertCoinToERC20FromPacket_def tryS_Inr_split Let_def dest: toERC20_storeD split: sum.split option.split prod.split go_err.split)

lemma step_registry:
  assumes "erc_step E I c c'" and "\<And>a. IsHexAddress (erNames E) (hexOf (erNames E) a)"
  shows "registry_moves E c c'"
  using assms(1)
proof cases
  case (to_coin contract amount receiver sender commit fp r)
  then show ?thesis using to_coin_moves [of E c contract amount receiver sender commit fp] by simp
next
  case (to_token msg r)
  then show ?thesis using to_token_moves [of E c msg] by simp
next
  case (registered reg r)
  then show ?thesis using register_moves [OF assms(2), of c "mreErc20Addresses reg"]
    by (auto simp: RegisterERC20_def tryS_def split: sum.splits if_splits)
next
  case (toggled tog r)
  then show ?thesis using toggle_moves [of E c tog] by simp
next
  case (params auth ps r)
  then show ?thesis using pair_step.params [of "erNames E" "erStore c" ps] by (auto simp: erc20_UpdateParams_def split: if_splits)
next
  case (received packet a k)
  then show ?thesis using received_store [of E I packet a c] by (simp add: moves_same)
next
  case (returned data r)
  then show ?thesis using returned_store [of E I data c] by (simp add: moves_same)
next
  case (allowed erc20 owner spender v al s)
  then show ?thesis using pair_step.allowed [OF allowed(2)] by auto
qed

end
