(* ===== verification/Erc20_App.thy ===== *)
theory Erc20_App
  imports Erc20_Results Transition_Results
begin

text \<open>
  The ERC20 module in the application (\<^verbatim>\<open>src/app/evm.go\<close>): its bank is the wrapper of \<open>Evm_Bank\<close>, its calls of
  contracts run on the state database of \<open>State_Transition\<close> (\<^verbatim>\<open>x/vm/keeper/call_evm.go\<close>, \<^verbatim>\<open>keeper.go\<close>). The wrapper knows
  two denominations only, the native coin in its two forms. So, with the pairs that the module itself can make,
  no conversion ever succeeds and nothing moves.
\<close>

section \<open>Calls of contracts by modules\<close>

definition NewEmptyTxConfig :: TxConfig where
  "NewEmptyTxConfig = \<lparr>cfgTxHash = zeroHash, cfgTxIndex = 0, cfgLogIndex = 0\<rparr>"

definition DefaultGasCap :: u64 where "DefaultGasCap = 25000000"

definition ApplyMessage :: "('s, ('k, 'm) sdk_state) evm_api \<Rightarrow> ('k, 'm, 'acc) VmKeeper \<Rightarrow> ('s, ('k, 'm) sdk_state) SKeeper \<Rightarrow> check_ctx \<Rightarrow>
    ('s, ('k, 'm) sdk_state) StateDB option \<Rightarrow> core_message \<Rightarrow> bool \<Rightarrow> bool \<Rightarrow> bool \<Rightarrow> ('s, 'k, 'm) vctx \<Rightarrow>
    (MsgEthereumTxResponse \<times> ('s, ('k, 'm) sdk_state) StateDB) res" where
  "ApplyMessage E V K info stateDB msg commit callFromPrecompile internal c =
     tryE (asErr (SdkErr ''failed to load evm config'') (Vm_EVMConfig E V info c)) (\<lambda>cfg.
     ApplyMessageWithConfig E V K info stateDB msg commit callFromPrecompile cfg NewEmptyTxConfig internal None)"

text \<open>The database is made on the context of the caller. Without a commit it is dropped; a commit writes to the
  context, and so does a call that ends with an error of the virtual machine. The gas meter is left out.\<close>

definition Vm_CallEVMWithData :: "('s, ('k, 'm) sdk_state) evm_api \<Rightarrow> ('k, 'm, 'acc) VmKeeper \<Rightarrow> ('s, ('k, 'm) sdk_state) SKeeper \<Rightarrow> check_ctx \<Rightarrow>
    ('s, 'k, 'm) vctx \<Rightarrow> addr \<Rightarrow> addr \<Rightarrow> string \<Rightarrow> bool \<Rightarrow> bool \<Rightarrow> ('s, 'k, 'm) vctx \<times> MsgEthereumTxResponse res" where
  "Vm_CallEVMWithData E V K info c from contract data commit callFromPrecompile =
     (case ak_GetAccount (vkAccounts V) (accounts c) from of None \<Rightarrow> (c, Inl (SdkErr ''account does not exist''))
      | Some acc \<Rightarrow>
        let msg = \<lparr>cmNonce = acc_GetSequence (vkAccounts V) acc, cmGasLimit = DefaultGasCap, cmGasPrice = 0, cmGasFeeCap = 0, cmGasTipCap = 0,
              cmTo = Some contract, cmValue = 0, cmData = data, cmAccessList = [], cmSetCodeAuthorizations = [], cmFrom = from\<rparr> in
        (case ApplyMessage E V K info (Some (Db_New c NewEmptyTxConfig)) msg commit callFromPrecompile True c of
           Inl e \<Rightarrow> (c, Inl e)
         | Inr (r, s) \<Rightarrow> (if commit then sdCtx s else c, if Failed r then Inl (SdkErr ''evm transaction execution failed'') else Inr r)))"

definition Vm_GetAccountWithoutBalance :: "('k, 'm, 'acc) VmKeeper \<Rightarrow> ('s, 'k, 'm) vctx \<Rightarrow> addr \<Rightarrow> vm_account option" where
  "Vm_GetAccountWithoutBalance V c addr =
     (case ak_GetAccount (vkAccounts V) (accounts c) addr of None \<Rightarrow> None
      | Some acct \<Rightarrow> Some \<lparr>acNonce = acc_GetSequence (vkAccounts V) acct, acBalance = None, acCodeHash = GetCodeHash V (vmOf c) addr, lockedBalance = None\<rparr>)"

section \<open>The keepers of the application\<close>

text \<open>\<open>B\<close> brings what is outside: names, codecs and the addresses of the module and of its authority.\<close>

definition erc20_app :: "('s, ('k, 'm) sdk_state) evm_api \<Rightarrow> ('k, 'm, 'acc) VmKeeper \<Rightarrow> ('s, ('k, 'm) sdk_state) SKeeper \<Rightarrow> check_ctx \<Rightarrow>
    (('s, 'k, 'm) vctx, string) erc_env \<Rightarrow> (('s, 'k, 'm) vctx, string) erc_env" where
  "erc20_app E V K info B = B\<lparr>
     erGeth := vkGeth V,
     ebGetBalance := (\<lambda>w addr d. Evm_GetBalance (vkSdk V) (vkBank V) (coinsOf w) addr d),
     ebBlockedAddr := Evm_BlockedAddr (vkBank V),
     ebIsSendEnabledCoin := (\<lambda>w coin. Evm_IsSendEnabledCoin (vkSdk V) (vkBank V) (coinsOf w) coin),
     ebMintCoins := (\<lambda>w m cs. onBank (\<lambda>e. Evm_MintCoins (vkSdk V) (vkBank V) e m cs) w),
     ebBurnCoins := (\<lambda>w m cs. onBank (\<lambda>e. Evm_BurnCoins (vkSdk V) (vkBank V) e m cs) w),
     ebSendCoinsFromModuleToAccount := (\<lambda>w m t cs. onBank (\<lambda>e. Evm_SendCoinsFromModuleToAccount (vkSdk V) (vkBank V) e m t cs) w),
     ebSendCoinsFromAccountToModule := (\<lambda>w f m cs. onBank (\<lambda>e. Evm_SendCoinsFromAccountToModule (vkSdk V) (vkBank V) e f m cs) w),
     ebGetDenomMetaData := (\<lambda>w d. Evm_GetDenomMetaData (vkSdk V) (vkBank V) (coinsOf w) d),
     ebSetDenomMetaData := (\<lambda>w md. case onBank (\<lambda>e. Inr (Evm_SetDenomMetaData (vkBank V) e md)) w of Inl _ \<Rightarrow> w | Inr w1 \<Rightarrow> w1),
     evGetAccountWithoutBalance := Vm_GetAccountWithoutBalance V,
     CallEVMWithData := Vm_CallEVMWithData E V K info\<rparr>"

section \<open>A bank that knows a few denominations\<close>

locale closed_bank =
  fixes E :: "('w, 'd) erc_env" and ds :: "denom set"
  assumes query_silent: "fst (CallEVMWithData E w sender contract data False fp) = w"
    and foreign_disabled: "Denom coin \<notin> ds \<Longrightarrow> ebIsSendEnabledCoin E w coin = Inr False"
    and foreign_not_sent: "d \<notin> ds \<Longrightarrow> 0 < n \<Longrightarrow> \<exists>e. ebSendCoinsFromAccountToModule E w sender m [mk_coin d n] = Inl e"
    and foreign_unknown: "mdBase md \<notin> ds \<Longrightarrow> ebSetDenomMetaData E w md = w"

text \<open>The denominations of the contracts are foreign to the bank; a registration makes one of the form of \<open>own_denom\<close>.\<close>

definition pairs_foreign :: "denom set \<Rightarrow> erc_store \<Rightarrow> bool" where
  "pairs_foreign ds s \<longleftrightarrow> (\<forall>i p. erPairs s i = Some p \<and> IsNativeERC20 p \<longrightarrow> tpDenom p \<notin> ds)"

definition own_denom :: "denom \<Rightarrow> bool" where "own_denom d \<longleftrightarrow> prefix ''erc20:'' d"

lemma foreign_found: "pairs_foreign ds s \<Longrightarrow> GetTokenPair s i = Some p \<Longrightarrow> IsNativeERC20 p \<Longrightarrow> tpDenom p \<notin> ds"
  unfolding pairs_foreign_def GetTokenPair_def by (auto split: if_splits)

context closed_bank
begin

lemma CallEVM_silent [simp]: "erWorld (fst (CallEVM E f a False fp m xs c)) = erWorld c"
  using query_silent [of "erWorld c" f a _ fp] by (auto simp: CallEVM_def split: sum.split prod.split) (metis fst_conv)

lemma BalanceOf_silent [simp]: "erWorld (fst (BalanceOf E a x c)) = erWorld c"
  using CallEVM_silent [of "erModuleAddress E" a False "''balanceOf''" "[AbiAddr x]" c]
  by (auto simp: BalanceOf_def split: sum.split prod.split simp del: CallEVM_silent)

lemma queryString_silent [simp]: "erWorld (fst (queryERC20String E a m c)) = erWorld c"
  unfolding queryERC20String_def by (rule tryS_keeps) auto

lemma Query_silent [simp]: "erWorld (fst (QueryERC20 E a c)) = erWorld c"
  unfolding QueryERC20_def by (intro tryS_keeps [where P = "\<lambda>x. erWorld x = erWorld c"]) auto

lemma not_enabled:
  assumes "pairs_foreign ds (erStore c)" and "MintingEnabled E receiver token c = Inr pair"
  shows "\<not> IsNativeERC20 pair"
proof
  assume e: "IsNativeERC20 pair"
  note M = MintingEnabled_Inr [OF assms(2)]
  have "tpDenom pair \<notin> ds" by (rule foreign_found [OF assms(1) M(1) e])
  then show False using M(5) foreign_disabled [of "mk_coin (tpDenom pair) 0" "erWorld c"] by simp
qed

text \<open>The conversions fail and leave the context alone.\<close>

lemma to_coin_fails:
  assumes "pairs_foreign ds (erStore c)"
  shows "\<exists>e. ConvertERC20IntoCoinsForNativeToken E contract amount receiver sender commit fp c = (c, Inl e)"
  using not_enabled [OF assms] by (auto simp: ConvertERC20IntoCoinsForNativeToken_def tryS_def split: sum.splits prod.splits)

lemma to_token_fails:
  assumes "pairs_foreign ds (erStore c)"
  shows "\<exists>e. ConvertCoin E msg c = (c, Inl e)"
  using not_enabled [OF assms] by (auto simp: ConvertCoin_def tryS_def Let_def split: sum.splits prod.splits)

lemma native_fails:
  assumes "tpDenom p \<notin> ds"
  shows "erWorld (fst (ConvertCoinNativeERC20 E p n a s fp c)) = erWorld c \<and> isl (snd (ConvertCoinNativeERC20 E p n a s fp c))"
proof (cases "0 < n")
  case True
  obtain e where e: "ebSendCoinsFromAccountToModule E (erWorld c) s erc20Module [mk_coin (tpDenom p) n] = Inl e"
    using foreign_not_sent [OF assms True] by blast
  show ?thesis
  proof (cases "BalanceOf E (GetERC20Contract (erNames E) p) a c")
    case (Pair c1 b)
    have c1: "erWorld c1 = erWorld c" using BalanceOf_silent [of "GetERC20Contract (erNames E) p" a c] Pair by simp
    then show ?thesis using True e Pair by (auto simp: ConvertCoinNativeERC20_def Let_def onWorld_def split: option.split)
  qed
qed (simp add: ConvertCoinNativeERC20_def)

lemma received_silent:
  assumes "pairs_foreign ds (erStore c)"
  shows "erWorld (fst (Erc20_OnRecvPacket E I packet a c)) = erWorld c"
proof -
  have "False" if "MintingEnabled E x t c = Inr p" "GetTokenPair (erStore c) (GetTokenPairID (erNames E) (erStore c) t) = Some q" "IsNativeERC20 q" for x t p q
    using not_enabled [OF assms that(1)] MintingEnabled_Inr(1) [OF that(1)] that(2,3) by simp
  then show ?thesis by (auto simp: Erc20_OnRecvPacket_def Let_def split: sum.split option.split prod.split)
qed

lemma returned_silent:
  assumes "pairs_foreign ds (erStore c)"
  shows "erWorld (fst (ConvertCoinToERC20FromPacket E I data c)) = erWorld c"
proof -
  have "erWorld c1 = erWorld c" if "GetTokenPair (erStore c) i = Some p" "IsNativeERC20 p" "ConvertCoinNativeERC20 E p n x s fp c = (c1, r)" for i p n x s fp c1 r
    using native_fails [OF foreign_found [OF assms that(1,2)], of n x s fp c] that(3) by simp
  then show ?thesis
    by (auto simp: ConvertCoinToERC20FromPacket_def tryS_Inr_split Let_def split: sum.split option.split prod.split go_err.split)
qed

lemma register_one_silent:
  assumes "\<And>d. d \<in> ds \<Longrightarrow> \<not> own_denom d" and "pairs_foreign ds (erStore c)"
  shows "erWorld (fst (registerERC20 E contract c)) = erWorld c \<and> pairs_foreign ds (erStore (fst (registerERC20 E contract c)))"
proof -
  have md: "mdBase (erc20_metadata s d) = CreateDenom s" "mdName (erc20_metadata s d) = CreateDenom s" for s d
    by (simp_all add: erc20_metadata_def Let_def)
  have new: "CreateDenom s \<notin> ds" for s using assms(1) [of "CreateDenom s"] by (auto simp: own_denom_def CreateDenom_def)
  have w: "erWorld (fst (CreateCoinMetadata E contract c)) = erWorld c"
    unfolding CreateCoinMetadata_def Let_def
    by (rule tryS_keeps) (auto simp: tryS_Inr_split md new foreign_unknown split: sum.split)
  have nm: "mdName m = CreateDenom (hexOf (erNames E) contract)" if "CreateCoinMetadata E contract c = (c1, Inr m)" for c1 m
    using that by (auto simp: CreateCoinMetadata_def tryS_def Let_def md split: sum.splits prod.splits if_splits)
  show ?thesis
  proof (cases "CreateCoinMetadata E contract c")
    case (Pair c1 r)
    have c1: "erWorld c1 = erWorld c" "erStore c1 = erStore c" using w metadata_store [of E contract c] Pair by simp_all
    show ?thesis
    proof (cases r)
      case (Inl e)
      then show ?thesis using Pair c1 assms(2) by (simp add: registerERC20_def)
    next
      case (Inr m)
      note d = nm [OF Pair [unfolded Inr]]
      show ?thesis
        using Pair Inr c1 assms(2) new [of "hexOf (erNames E) contract"]
        by (auto simp: registerERC20_def Let_def d Register_Inr pairs_foreign_def NewTokenPair_def IsNativeERC20_def split: sum.split if_splits)
    qed
  qed
qed

lemma register_silent:
  assumes "\<And>d. d \<in> ds \<Longrightarrow> \<not> own_denom d"
  shows "pairs_foreign ds (erStore c) \<Longrightarrow>
    erWorld (fst (register_loop E addrs c)) = erWorld c \<and> pairs_foreign ds (erStore (fst (register_loop E addrs c)))"
proof (induction addrs arbitrary: c)
  case (Cons a rest)
  show ?case
  proof (cases "registerERC20 E (HexToAddress (erNames E) a) c")
    case (Pair c1 r)
    have one: "erWorld c1 = erWorld c" "pairs_foreign ds (erStore c1)"
      using register_one_silent [OF assms Cons.prems, of "HexToAddress (erNames E) a"] Pair by simp_all
    then show ?thesis using Cons.IH [of "erEmit e c1" for e] Cons.prems Pair by (cases r) auto
  qed
qed simp

lemma toggle_silent:
  assumes "pairs_foreign ds (erStore c)"
  shows "erWorld (fst (ToggleConversion E req c)) = erWorld c \<and> pairs_foreign ds (erStore (fst (ToggleConversion E req c)))"
proof -
  have "pairs_foreign ds s" if "toggleConversion (erNames E) t (erStore c) = Inr (p, s)" for t p s
    using that assms
    by (auto simp: toggleConversion_def Let_def SetTokenPair_def pairs_foreign_def IsNativeERC20_def GetTokenPair_def split: if_splits option.splits)
  then show ?thesis using assms
    by (auto simp: ToggleConversion_def tryS_Inr_split Let_def split: sum.split option.split)
qed

lemma step_silent:
  assumes "erc_step E I c c'" and "\<And>d. d \<in> ds \<Longrightarrow> \<not> own_denom d" and "pairs_foreign ds (erStore c)"
  shows "erWorld c' = erWorld c \<and> pairs_foreign ds (erStore c')"
  using assms(1)
proof cases
  case (to_coin contract amount receiver sender commit fp r)
  then show ?thesis using to_coin_fails [OF assms(3), of contract amount receiver sender commit fp] assms(3) by auto
next
  case (to_token msg r)
  then show ?thesis using to_token_fails [OF assms(3), of msg] assms(3) by auto
next
  case (registered reg r)
  then show ?thesis using register_silent [OF assms(2,3), of "mreErc20Addresses reg"] assms(3)
    by (auto simp: RegisterERC20_def tryS_def split: sum.splits if_splits)
next
  case (toggled tog r)
  then show ?thesis using toggle_silent [OF assms(3), of tog] by simp
next
  case (params auth ps r)
  then show ?thesis using assms(3) by (auto simp: erc20_UpdateParams_def Erc20_SetParams_def pairs_foreign_def split: if_splits)
next
  case (received packet a k)
  then show ?thesis using received_store [of E I packet a c] received_silent [OF assms(3), of I packet a] assms(3) by simp
next
  case (returned data r)
  then show ?thesis using returned_store [of E I data c] returned_silent [OF assms(3), of I data] assms(3) by simp
next
  case (allowed erc20 owner spender v al s)
  then have "erPairs s = erPairs (erStore c)" by (auto simp: setAllowance_def split: option.splits if_splits)
  then show ?thesis using allowed(1) assms(3) by (simp add: pairs_foreign_def)
qed

lemma steps_silent:
  assumes "(erc_step E I)\<^sup>*\<^sup>* c c'" and "\<And>d. d \<in> ds \<Longrightarrow> \<not> own_denom d" and "pairs_foreign ds (erStore c)"
  shows "erWorld c' = erWorld c \<and> pairs_foreign ds (erStore c')"
  using assms(1)
proof (induction rule: rtranclp_induct)
  case (step y z)
  then show ?case using step_silent [OF step(2) assms(2)] by simp
qed (simp add: assms(3))

end

section \<open>The wrapper of the application is such a bank\<close>

lemma app_sel [simp]:
  "erNames (erc20_app E V K info B) = erNames B" "CallEVMWithData (erc20_app E V K info B) = Vm_CallEVMWithData E V K info"
  "ebIsSendEnabledCoin (erc20_app E V K info B) = (\<lambda>w coin. Evm_IsSendEnabledCoin (vkSdk V) (vkBank V) (coinsOf w) coin)"
  "ebSendCoinsFromAccountToModule (erc20_app E V K info B) = (\<lambda>w f m cs. onBank (\<lambda>e. Evm_SendCoinsFromAccountToModule (vkSdk V) (vkBank V) e f m cs) w)"
  "ebSetDenomMetaData (erc20_app E V K info B) = (\<lambda>w md. case onBank (\<lambda>e. Inr (Evm_SetDenomMetaData (vkBank V) e md)) w of Inl _ \<Rightarrow> w | Inr w1 \<Rightarrow> w1)"
  by (simp_all add: erc20_app_def)

interpretation app: closed_bank "erc20_app E V K info B" "{eb_evmDenom (vkBank V), eb_cosmosDenom (vkBank V)}" for E V K info B
proof unfold_locales
  show "fst (CallEVMWithData (erc20_app E V K info B) w sender contract data False fp) = w" for w sender contract data fp
    by (auto simp: Vm_CallEVMWithData_def Let_def split: option.split sum.split prod.split)
next
  fix coin :: coin and w assume "Denom coin \<notin> {eb_evmDenom (vkBank V), eb_cosmosDenom (vkBank V)}"
  then show "ebIsSendEnabledCoin (erc20_app E V K info B) w coin = Inr False" by (simp add: Evm_IsSendEnabledCoin_def)
next
  fix d n w sender m assume "d \<notin> {eb_evmDenom (vkBank V), eb_cosmosDenom (vkBank V)}" and "0 < (n :: int)"
  then show "\<exists>e. ebSendCoinsFromAccountToModule (erc20_app E V K info B) w sender m [mk_coin d n] = Inl e"
    by (auto simp: onBank_def Evm_SendCoinsFromAccountToModule_def convertCoinsForInflow_def inflow_coin_def tryE_def)
next
  fix md :: metadata and w assume "mdBase md \<notin> {eb_evmDenom (vkBank V), eb_cosmosDenom (vkBank V)}"
  then show "ebSetDenomMetaData (erc20_app E V K info B) w md = w" by (simp add: onBank_def Evm_SetDenomMetaData_def tryE_def)
qed

section \<open>Names of go-ethereum, concretely\<close>

definition hexDigit :: "nat \<Rightarrow> char" where "hexDigit n = ''0123456789abcdef'' ! n"

definition unhex :: "char \<Rightarrow> nat" where
  "unhex c = (if is_digit c then code_of c - 48 else if 97 \<le> code_of c \<and> code_of c \<le> 102 then code_of c - 87
     else if 65 \<le> code_of c \<and> code_of c \<le> 70 then code_of c - 55 else 16)"

definition hexByte :: "char \<Rightarrow> string" where "hexByte c = [hexDigit (code_of c div 16), hexDigit (code_of c mod 16)]"

fun hexBytes :: "string \<Rightarrow> string" where
  "hexBytes (x # y # rest) = char_of (16 * unhex x + unhex y) # hexBytes rest"
| "hexBytes _ = []"

definition fit20 :: "string \<Rightarrow> addr" where
  "fit20 a = (let b = drop (length a - 20) a in replicate (20 - length b) (CHR 0x00) @ b)"

definition hexPart :: "string \<Rightarrow> string" where
  "hexPart t = (if prefix ''0x'' t \<or> prefix ''0X'' t then drop 2 t else t)"

definition ref_names :: erc_names where
  "ref_names = \<lparr>ValidEip = (\<lambda>_. True), IsHexAddress = (\<lambda>t. length (hexPart t) = 40 \<and> list_all (\<lambda>c. unhex c < 16) (hexPart t)),
     ChannelIdentifierValidator = (\<lambda>_. Inr ()), hexOf = (\<lambda>a. ''0x'' @ concat (map hexByte (fit20 a))), PrecompiledAddressesPrague = [],
     HexToAddress = (\<lambda>t. fit20 (hexBytes (hexPart t))), tmhash = (\<lambda>x. ''#'' @ x), ParseHexHash = (\<lambda>x. Inr (hexBytes x)), BytesToAddress = fit20\<rparr>"

lemma unhex_digit: "n < 16 \<Longrightarrow> unhex (hexDigit n) = n"
  by (simp add: less_Suc_eq numeral_eq_Suc) (elim disjE; simp add: hexDigit_def; code_simp)

lemma hexByte_inverse: "hexBytes (hexByte c @ rest) = c # hexBytes rest"
proof -
  have "code_of c < 256" by (simp add: code_of_def)
  then have "code_of c div 16 < 16" by (simp add: less_mult_imp_div_less)
  then have "hexBytes (hexByte c @ rest) = char_of (16 * (code_of c div 16) + code_of c mod 16) # hexBytes rest"
    by (simp add: hexByte_def unhex_digit)
  then show ?thesis by (simp add: code_of_def)
qed

lemma hexBytes_concat: "hexBytes (concat (map hexByte cs)) = cs"
  by (induction cs) (simp_all add: hexByte_inverse)

lemma hexByte_digits: "list_all (\<lambda>c. unhex c < 16) (concat (map hexByte cs))" "length (concat (map hexByte cs)) = 2 * length cs"
proof -
  have "unhex (hexDigit (code_of c div 16)) < 16" "unhex (hexDigit (code_of c mod 16)) < 16" for c
    using unhex_digit [of "code_of c div 16"] unhex_digit [of "code_of c mod 16"] by (simp_all add: code_of_def less_mult_imp_div_less)
  then show "list_all (\<lambda>c. unhex c < 16) (concat (map hexByte cs))" by (induction cs) (simp_all add: hexByte_def)
  show "length (concat (map hexByte cs)) = 2 * length cs" by (induction cs) (simp_all add: hexByte_def)
qed

lemma fit20_length [simp]: "length (fit20 a) = 20" "length a = 20 \<Longrightarrow> fit20 a = a"
  by (auto simp: fit20_def Let_def)

lemma hexPart_hex: "hexPart (''0x'' @ t) = t" by (simp add: hexPart_def)

interpretation refnames: erc_names_laws ref_names
proof unfold_locales
  show "HexToAddress ref_names (hexOf ref_names a) = a" if "length a = 20" for a
    using that hexPart_hex by (simp add: ref_names_def hexBytes_concat)
  show "IsHexAddress ref_names (hexOf ref_names a)" for a
    using hexPart_hex hexByte_digits by (simp add: ref_names_def)
  show "CHR ''|'' \<notin> set t" if "IsHexAddress ref_names t" for t
  proof
    assume bar: "CHR ''|'' \<in> set t"
    have u: "unhex (CHR ''|'') = 16" by code_simp
    have "set t \<subseteq> set (hexPart t) \<union> {CHR ''0'', CHR ''x'', CHR ''X''}"
      by (auto simp: hexPart_def prefix_def)
    with bar have "CHR ''|'' \<in> set (hexPart t)" by auto
    then have "unhex (CHR ''|'') < 16" using that unfolding ref_names_def list_all_iff by fastforce
    then show False using u by simp
  qed
qed (simp_all add: ref_names_def)

context erc_names_laws
begin

lemma indices_inverse:
  assumes "pairs_ok N s"
  shows "IsDenomRegistered s d \<Longrightarrow> \<exists>a. GetCoinAddress N s d = Inr a \<and> GetTokenDenom s a = Inr d"
    and "IsERC20Registered s a \<Longrightarrow> \<exists>d. GetTokenDenom s a = Inr d \<and> GetCoinAddress N s d = Inr a"
proof -
  have both: "GetCoinAddress N s (tpDenom p) = Inr (GetERC20Contract N p) \<and> GetTokenDenom s (GetERC20Contract N p) = Inr (tpDenom p)"
    if p: "erPairs s i = Some p" for i p
  proof -
    have l: "erPairs s (GetID N p) = Some p" using pairs_okD(1) [OF assms p] p by simp
    then have g: "GetTokenPair s (GetERC20Map s (GetERC20Contract N p)) = Some p" "GetTokenPair s (GetDenomMap s (tpDenom p)) = Some p"
      using lookup [OF assms] by simp_all
    then have "GetERC20Map s (GetERC20Contract N p) \<noteq> []" "GetDenomMap s (tpDenom p) \<noteq> []" by (auto simp: GetTokenPair_def)
    with g show ?thesis by (simp add: GetCoinAddress_def GetTokenDenom_def)
  qed
  show "IsDenomRegistered s d \<Longrightarrow> \<exists>a. GetCoinAddress N s d = Inr a \<and> GetTokenDenom s a = Inr d"
    using pairs_okD(6) [OF assms, of d] both unfolding IsDenomRegistered_def by blast
  show "IsERC20Registered s a \<Longrightarrow> \<exists>d. GetTokenDenom s a = Inr d \<and> GetCoinAddress N s d = Inr a"
    using pairs_okD(5) [OF assms, of a] both unfolding IsERC20Registered_def by blast
qed

lemma allowance_registered:
  assumes "pairs_ok N s" and "length a = 20" and "GetAllowance s a owner spender \<noteq> 0"
  shows "IsERC20Registered s a"
proof -
  obtain al where "erAllowances s (a @ owner @ spender) = Some al" using assms(3) by (auto simp: GetAllowance_def AllowanceKey_def split: option.splits)
  then obtain b r where "a @ owner @ spender = b @ r" "length b = 20" "erByErc20 s b \<noteq> None" using pairs_okD(7) [OF assms(1)] by blast
  then show ?thesis using assms(2) by (simp add: IsERC20Registered_def)
qed

end

section \<open>The properties\<close>

text \<open>C27. From a consistent registry, whatever messages, callbacks and other changes of the chain follow, and
  whether the operations fail or not: every denomination and every contract in an index leads to one pair,
  the two lookups are inverse to each other, and only registered contracts have allowances.\<close>

theorem erc20_registry_consistent:
  assumes "erc_names_laws (erNames E)" and "pairs_ok (erNames E) (erStore c)"
    and "(\<lambda>x y. erc_step E I x y \<or> (\<exists>w. y = x\<lparr>erWorld := w\<rparr>))\<^sup>*\<^sup>* c c'"
  shows "pairs_ok (erNames E) (erStore c') \<and>
    (\<forall>d. IsDenomRegistered (erStore c') d \<longrightarrow> (\<exists>a. GetCoinAddress (erNames E) (erStore c') d = Inr a \<and> GetTokenDenom (erStore c') a = Inr d)) \<and>
    (\<forall>a. IsERC20Registered (erStore c') a \<longrightarrow> (\<exists>d. GetTokenDenom (erStore c') a = Inr d \<and> GetCoinAddress (erNames E) (erStore c') d = Inr a)) \<and>
    (\<forall>a owner spender. length a = 20 \<and> GetAllowance (erStore c') a owner spender \<noteq> 0 \<longrightarrow> IsERC20Registered (erStore c') a)"
proof -
  have "(pair_step (erNames E))\<^sup>*\<^sup>* (erStore c) (erStore c')" using assms(3)
  proof (induction rule: rtranclp_induct)
    case (step y z)
    then have "(pair_step (erNames E))\<^sup>*\<^sup>* (erStore y) (erStore z)"
      using step_registry [of E I y z] erc_names_laws.hex_valid [OF assms(1)] by auto
    with step show ?case by auto
  qed simp
  then have ok: "pairs_ok (erNames E) (erStore c')" using erc_names_laws.pair_steps_ok [OF assms(1)] assms(2) by blast
  show ?thesis using ok erc_names_laws.indices_inverse [OF assms(1) ok] erc_names_laws.allowance_registered [OF assms(1) ok] by blast
qed

text \<open>C21. In the application, with a registry whose external pairs have denominations other than the two of the
  bank wrapper, as all pairs have that the module registers: whatever sequence of messages and callbacks of the
  module runs, bank, accounts and EVM stay as they are, and every conversion in either direction fails.\<close>

theorem erc20_moves_nothing:
  assumes "\<not> own_denom (eb_evmDenom (vkBank V))" and "\<not> own_denom (eb_cosmosDenom (vkBank V))"
    and "pairs_foreign {eb_evmDenom (vkBank V), eb_cosmosDenom (vkBank V)} (erStore c)"
    and "(erc_step (erc20_app E V K info B) I)\<^sup>*\<^sup>* c c'"
  shows "erWorld c' = erWorld c \<and>
    (\<forall>msg. \<exists>e. ConvertERC20 (erc20_app E V K info B) msg c' = (c', Inl e)) \<and>
    (\<forall>msg. \<exists>e. ConvertCoin (erc20_app E V K info B) msg c' = (c', Inl e))"
proof -
  have own: "\<not> own_denom d" if "d \<in> {eb_evmDenom (vkBank V), eb_cosmosDenom (vkBank V)}" for d using assms(1,2) that by auto
  from app.steps_silent [OF assms(4) own assms(3)]
  have s: "erWorld c' = erWorld c" "pairs_foreign {eb_evmDenom (vkBank V), eb_cosmosDenom (vkBank V)} (erStore c')" by auto
  have "\<exists>e. ConvertERC20 (erc20_app E V K info B) msg c' = (c', Inl e)" for msg
    using app.to_coin_fails [OF s(2)] by (auto simp: ConvertERC20_def tryS_def split: sum.split)
  then show ?thesis using s(1) app.to_token_fails [OF s(2)] by blast
qed

text \<open>A refund whose contract call fails is reported as a success, in the context of the failed conversion: the coins
  that it sent to the account of the module before the call stay there.\<close>

theorem failed_refund_strands_coins:
  assumes "erStringToBytes E (ftSender data) = Inr sender" and "\<not> ibIsModuleAccount I (erWorld c) sender" and "IsERC20Enabled (erStore c)"
    and "GetTokenPair (erStore c) (GetTokenPairID (erNames E) (erStore c) (ftDenom data)) = Some pair" and "IsNativeERC20 pair"
    and "ibSentCoin I (ftDenom data) (ftAmount data) = mk_coin d n" and "IsDenomRegistered (erStore c) d" and "0 < n"
    and "BalanceOf E (GetERC20Contract (erNames E) pair) sender c = (c1, Some b)"
    and "ebSendCoinsFromAccountToModule E (erWorld c1) sender erc20Module [mk_coin (tpDenom pair) n] = Inr w"
    and "CallEVM E (erModuleAddress E) (GetERC20Contract (erNames E) pair) True False ''transfer'' [AbiAddr sender, AbiInt n] (c1\<lparr>erWorld := w\<rparr>) = (c2, Inl (SdkErr s))"
  shows "\<exists>ev. Erc20_OnTimeoutPacket E I data c = (erEmit ev c2, Inr ()) \<and> Erc20_OnAcknowledgementPacket E I data True c = (erEmit ev c2, Inr ())"
proof -
  have "ConvertCoinNativeERC20 E pair n sender sender False c = (c2, Inl (SdkErr s))"
    using assms(8-11) by (simp add: ConvertCoinNativeERC20_def Let_def onWorld_def)
  moreover have "\<not> IsNativeCoin pair" using assms(5) by (simp add: IsNativeERC20_def IsNativeCoin_def)
  ultimately show ?thesis
    using assms(1-7) by (simp add: Erc20_OnTimeoutPacket_def Erc20_OnAcknowledgementPacket_def ConvertCoinToERC20FromPacket_def Erc20_GetParams_def Let_def) blast
qed

section \<open>A concrete application\<close>

type_synonym demo_world = "(unit, ledger, addr \<Rightarrow> (u64 \<times> bool) option) vctx"

definition erc_outside :: "(demo_world, string) erc_env" where
  "erc_outside = \<lparr>erNames = ref_names, erGeth = ref_geth, erModuleAddress = ''moduleerc20'', erAuthority = ''gov'',
     erAccAddressFromBech32 = Inr, erStringToBytes = Inr, erTransferSigHash = ''sig'',
     ebGetBalance = (\<lambda>_ _ d. Inr (mk_coin d 0)), ebBlockedAddr = (\<lambda>_. False), ebIsSendEnabledCoin = (\<lambda>_ _. Inr True),
     ebMintCoins = (\<lambda>w _ _. Inr w), ebBurnCoins = (\<lambda>w _ _. Inr w), ebSendCoinsFromModuleToAccount = (\<lambda>w _ _ _. Inr w),
     ebSendCoinsFromAccountToModule = (\<lambda>w f m cs. tryE (lg_Send (coinsOf w) f (''module'' @ m) cs) (\<lambda>b. Inr (w\<lparr>bank := (bank w)\<lparr>sdkBank := b\<rparr>\<rparr>))),
     ebGetDenomMetaData = (\<lambda>_ _. None), ebSetDenomMetaData = (\<lambda>w _. w), ebValidateMetadata = (\<lambda>_. Inr ()),
     evGetAccountWithoutBalance = (\<lambda>_ _. None), CallEVMWithData = (\<lambda>w _ _ _ _ _. (w, Inl (SdkErr ''no machine''))),
     abiPack = (\<lambda>m _. Inr m), abiUnpackBool = (\<lambda>_. Inr True), abiUnpackString = Inr, abiUnpackUint8 = (\<lambda>_. Inr 6), abiUnpackBig = (\<lambda>_. Some 5)\<rparr>"

definition erc_demo :: "(demo_world, string) erc_env" where "erc_demo = erc20_app ref_evm ref_vm ref_sk plain_ctx erc_outside"

text \<open>Another bank, that knows every denomination, with a contract that answers a query of a balance and reverts
  every transfer.\<close>

definition erc_plain :: "(demo_world, string) erc_env" where
  "erc_plain = erc_outside\<lparr>CallEVMWithData := (\<lambda>w _ _ data _ _. (w, if data = ''balanceOf''
     then Inr \<lparr>resGasUsed = 0, resMaxUsedGas = 0, resVmError = [], resRet = ''5'', resLogs = [], resHash = zeroHash\<rparr>
     else Inl (SdkErr ''evm transaction execution failed'')))\<rparr>"

definition erc_pair :: TokenPair where
  "erc_pair = NewTokenPair ref_names ''token'' ''erc20:token'' OWNER_EXTERNAL"

definition erc_registry :: erc_store where
  "erc_registry = projr (Erc20_SetToken ref_names erc_pair \<lparr>erPairs = Map.empty, erByErc20 = Map.empty, erByDenom = Map.empty,
     erAllowances = Map.empty, erNative = {}, erDynamic = {}, erEnabled = True, erPermissionless = False\<rparr>)"

definition erc_start :: "demo_world erc_ctx" where
  "erc_start = \<lparr>erStore = erc_registry,
     erWorld = exec_state\<lparr>bank := (bank exec_state)\<lparr>
       sdkBank := empty_ledger\<lparr>lgBal := (\<lambda>a d. if a = ''alice'' \<and> d = ''erc20:token'' then 100 else 0)\<rparr>,
       sdkAccounts := (\<lambda>x. if x = ''alice'' then Some (8, False) else if x = ''moduleerc20'' then Some (0, True) else None)\<rparr>\<rparr>,
     erEvents = []\<rparr>"

definition erc_packets :: "(demo_world, unit) erc_ibc" where
  "erc_packets = \<lparr>ibUnmarshalData = (\<lambda>_. Inl (SdkErr ''no data'')), ibReceivedCoin = (\<lambda>_ _. mk_coin [] 0),
     ibSentCoin = (\<lambda>d _. mk_coin d 3), ibIsModuleAccount = (\<lambda>_ _. False), ibBondDenom = (\<lambda>_. Inr ''ustoc'')\<rparr>"

definition erc_refund :: FungibleTokenPacketData where
  "erc_refund = \<lparr>ftDenom = ''erc20:token'', ftAmount = ''3'', ftSender = ''alice'', ftReceiver = ''bob''\<rparr>"

lemma erc_registry_eq: "Erc20_SetToken ref_names erc_pair \<lparr>erPairs = Map.empty, erByErc20 = Map.empty, erByDenom = Map.empty,
     erAllowances = Map.empty, erNative = {}, erDynamic = {}, erEnabled = True, erPermissionless = False\<rparr> = Inr erc_registry"
  by (simp add: erc_registry_def Erc20_SetToken_def IsDenomRegistered_def IsERC20Registered_def)

lemma erc_start_ok: "pairs_ok ref_names (erStore erc_start)"
proof -
  have "pairs_ok ref_names \<lparr>erPairs = Map.empty, erByErc20 = Map.empty, erByDenom = Map.empty,
     erAllowances = Map.empty, erNative = {}, erDynamic = {}, erEnabled = True, erPermissionless = False\<rparr>" by (simp add: pairs_ok_def)
  from refnames.SetToken_ok [OF this erc_registry_eq] show ?thesis
    by (simp add: erc_start_def erc_pair_def NewTokenPair_def refnames.hex_valid)
qed

lemma erc_registry_sel: "erPairs erc_registry = [GetID ref_names erc_pair \<mapsto> erc_pair]" "erByDenom erc_registry = [''erc20:token'' \<mapsto> GetID ref_names erc_pair]"
  "erEnabled erc_registry"
  unfolding erc_registry_eq [unfolded Register_Inr, THEN conjunct2, THEN conjunct2]
  by (simp_all add: erc_pair_def NewTokenPair_def)

lemma token_no_hex: "\<not> IsHexAddress ref_names ''erc20:token''"
  by (simp add: ref_names_def hexPart_def)

lemma erc_start_found: "GetTokenPair (erStore erc_start) (GetTokenPairID ref_names (erStore erc_start) ''erc20:token'') = Some erc_pair"
proof -
  have "erPairs (erStore erc_start) (GetID ref_names erc_pair) = Some erc_pair" "tpDenom erc_pair = ''erc20:token''"
    by (simp_all add: erc_start_def erc_registry_sel) (simp add: erc_pair_def NewTokenPair_def)
  then show ?thesis using refnames.lookup(2) [OF erc_start_ok] token_no_hex by (simp add: GetTokenPairID_def)
qed

lemma erc_start_registered: "IsDenomRegistered (erStore erc_start) ''erc20:token''" "IsERC20Enabled (erStore erc_start)"
  by (simp_all add: IsDenomRegistered_def IsERC20Enabled_def erc_start_def erc_registry_sel)

lemma refund_escrow:
  defines "w \<equiv> (erWorld erc_start)\<lparr>bank := (bank (erWorld erc_start))\<lparr>sdkBank :=
     projr (lg_Send (coinsOf (erWorld erc_start)) ''alice'' ''moduleerc20'' [mk_coin ''erc20:token'' 3])\<rparr>\<rparr>"
  shows "BalanceOf erc_plain a x erc_start = (erc_start, Some 5)"
    and "ebSendCoinsFromAccountToModule erc_plain (erWorld erc_start) ''alice'' erc20Module [mk_coin ''erc20:token'' 3] = Inr w"
    and "CallEVM erc_plain m a True False ''transfer'' [AbiAddr ''alice'', AbiInt 3] (erc_start\<lparr>erWorld := w\<rparr>)
       = (erc_start\<lparr>erWorld := w\<rparr>, Inl (SdkErr ''evm transaction execution failed''))"
    and "lgBal (coinsOf w) ''alice'' ''erc20:token'' = 97" and "lgBal (coinsOf w) ''moduleerc20'' ''erc20:token'' = 3"
proof -
  let ?l = "empty_ledger\<lparr>lgBal := (\<lambda>a d. if a = ''alice'' \<and> d = ''erc20:token'' then 100 else 0)\<rparr>"
  have l: "coinsOf (erWorld erc_start) = ?l" by (simp add: erc_start_def)
  have sent: "case lg_Send ?l ''alice'' ''moduleerc20'' [mk_coin ''erc20:token'' 3] of Inl _ \<Rightarrow> False
     | Inr b \<Rightarrow> lgBal b ''alice'' ''erc20:token'' = 97 \<and> lgBal b ''moduleerc20'' ''erc20:token'' = 3" by code_simp
  then obtain b where b: "lg_Send (coinsOf (erWorld erc_start)) ''alice'' ''moduleerc20'' [mk_coin ''erc20:token'' 3] = Inr b"
    by (auto simp: l split: sum.splits)
  show "BalanceOf erc_plain a x erc_start = (erc_start, Some 5)"
    by (simp add: BalanceOf_def CallEVM_def erc_plain_def erc_outside_def)
  show "ebSendCoinsFromAccountToModule erc_plain (erWorld erc_start) ''alice'' erc20Module [mk_coin ''erc20:token'' 3] = Inr w"
    using b by (simp add: erc_plain_def erc_outside_def erc20Module_def w_def tryE_def)
  show "CallEVM erc_plain m a True False ''transfer'' [AbiAddr ''alice'', AbiInt 3] (erc_start\<lparr>erWorld := w\<rparr>)
       = (erc_start\<lparr>erWorld := w\<rparr>, Inl (SdkErr ''evm transaction execution failed''))"
    by (simp add: CallEVM_def erc_plain_def erc_outside_def)
  show "lgBal (coinsOf w) ''alice'' ''erc20:token'' = 97" and "lgBal (coinsOf w) ''moduleerc20'' ''erc20:token'' = 3"
    using sent b by (simp_all add: w_def l)
qed

definition erc_toggle :: MsgToggleConversion where "erc_toggle = \<lparr>mtcAuthority = ''gov'', mtcToken = ''erc20:token''\<rparr>"

lemma erc_toggle_runs:
  obtains c' where "ToggleConversion erc_demo erc_toggle erc_start = (c', Inr ())" and "IsDenomRegistered (erStore c') ''erc20:token''"
proof -
  have sel: "erNames erc_demo = ref_names" "erAuthority erc_demo = ''gov''" "erStringToBytes erc_demo = Inr"
    by (simp_all add: erc_demo_def erc20_app_def erc_outside_def)
  have f: "GetTokenPairID ref_names (erStore erc_start) ''erc20:token'' \<noteq> []" using erc_start_found by (auto simp: GetTokenPair_def)
  have "\<exists>c'. ToggleConversion erc_demo erc_toggle erc_start = (c', Inr ()) \<and> erByDenom (erStore c') = erByDenom (erStore erc_start)"
    using f erc_start_found erc_start_registered(2)
    by (simp add: ToggleConversion_def erc_toggle_def erc20_validateAuthority_def sel tryE_def asErr_def toggleConversion_def Let_def SetTokenPair_def)
  then show thesis using that erc_start_registered(1) by (auto simp: IsDenomRegistered_def)
qed

theorem erc20_registry_consistent_witness:
  "\<exists>c'. ToggleConversion erc_demo erc_toggle erc_start = (c', Inr ()) \<and> pairs_ok ref_names (erStore c') \<and>
     (\<exists>a. GetCoinAddress ref_names (erStore c') ''erc20:token'' = Inr a \<and> GetTokenDenom (erStore c') a = Inr ''erc20:token'')"
proof -
  obtain c' where run: "ToggleConversion erc_demo erc_toggle erc_start = (c', Inr ())" and d: "IsDenomRegistered (erStore c') ''erc20:token''"
    by (rule erc_toggle_runs)
  have n: "erNames erc_demo = ref_names" by (simp add: erc_demo_def erc_outside_def)
  have s: "(\<lambda>x y. erc_step erc_demo erc_packets x y \<or> (\<exists>w. y = x\<lparr>erWorld := w\<rparr>))\<^sup>*\<^sup>* erc_start c'"
    using erc_step.toggled [OF run, of erc_packets] by blast
  from erc20_registry_consistent [OF _ _ s, unfolded n, OF refnames.erc_names_laws_axioms erc_start_ok] run d show ?thesis by blast
qed

theorem erc20_moves_nothing_witness:
  "\<exists>c'. ToggleConversion erc_demo erc_toggle erc_start = (c', Inr ()) \<and> erWorld c' = erWorld erc_start \<and>
     (\<forall>msg. \<exists>e. ConvertCoin erc_demo msg c' = (c', Inl e))"
proof -
  obtain c' where run: "ToggleConversion erc_demo erc_toggle erc_start = (c', Inr ())" by (rule erc_toggle_runs)
  have own: "\<not> own_denom (eb_evmDenom (vkBank ref_vm))" "\<not> own_denom (eb_cosmosDenom (vkBank ref_vm))"
    by (simp_all add: own_denom_def ref_vm_def ref_eb_def)
  have f: "pairs_foreign {eb_evmDenom (vkBank ref_vm), eb_cosmosDenom (vkBank ref_vm)} (erStore erc_start)"
    by (simp add: pairs_foreign_def erc_start_def erc_registry_sel) (simp add: erc_pair_def NewTokenPair_def ref_vm_def ref_eb_def)
  have "(erc_step (erc20_app ref_evm ref_vm ref_sk plain_ctx erc_outside) erc_packets)\<^sup>*\<^sup>* erc_start c'"
    using erc_step.toggled [OF run, of erc_packets] unfolding erc_demo_def by blast
  from erc20_moves_nothing [OF own f this] run show ?thesis by (auto simp: erc_demo_def)
qed

theorem failed_refund_strands_coins_witness:
  "\<exists>c'. Erc20_OnTimeoutPacket erc_plain erc_packets erc_refund erc_start = (c', Inr ()) \<and>
     lgBal (coinsOf (erWorld c')) ''alice'' ''erc20:token'' = 97 \<and> lgBal (coinsOf (erWorld c')) ''moduleerc20'' ''erc20:token'' = 3"
proof -
  have sel: "erNames erc_plain = ref_names" "erStringToBytes erc_plain = Inr" by (simp_all add: erc_plain_def erc_outside_def)
  have pk: "ibIsModuleAccount erc_packets w x = False" "ibSentCoin erc_packets d a = mk_coin d 3" for w x d a by (simp_all add: erc_packets_def)
  have rf: "ftDenom erc_refund = ''erc20:token''" "ftSender erc_refund = ''alice''" by (simp_all add: erc_refund_def)
  have pr: "IsNativeERC20 erc_pair" "tpDenom erc_pair = ''erc20:token''" by (simp_all add: erc_pair_def NewTokenPair_def IsNativeERC20_def)
  show ?thesis
    using failed_refund_strands_coins [of erc_plain erc_refund "''alice''" erc_packets erc_start erc_pair "''erc20:token''" 3, OF _ _ _ _ _ _ _ _ refund_escrow(1) _ refund_escrow(3)]
      refund_escrow(2,4,5) erc_start_found erc_start_registered
    by (auto simp: sel pk rf pr)
qed

end
