(* ===== verification/Erc20_Genesis.thy ===== *)
theory Erc20_Genesis
  imports Erc20_App
begin

text \<open>
  Genesis of the ERC20 module and the activation of its precompiled contracts (the fork's \<^verbatim>\<open>x/erc20/genesis.go\<close>,
  \<^verbatim>\<open>types/genesis.go\<close>, \<^verbatim>\<open>types/params.go\<close>, \<^verbatim>\<open>keeper/precompiles.go\<close>, \<^verbatim>\<open>keeper/dynamic_precompiles.go\<close>,
  \<^verbatim>\<open>keeper/token_pairs.go\<close>). The validation compares addresses as strings, the store keeps them as bytes: a genesis
  whose contracts differ as addresses is imported whole or panics for one of the reasons it names (\<open>erc20_genesis_complete\<close>), one that spells an address in two
  ways is validated, and cut off at the second spelling (\<open>respelled_genesis_cut\<close>).

  The export lists the store in the order of its keys and is not modelled. A panic of the import is an error.
\<close>

section \<open>Genesis states\<close>

record erc_genesis =
  egParams :: erc_params
  egTokenPairs :: "TokenPair list"
  egAllowances :: "Allowance list"
  egNativePrecompiles :: "string list"
  egDynamicPrecompiles :: "string list"

definition Erc20_NewParams :: "bool \<Rightarrow> bool \<Rightarrow> erc_params" where
  "Erc20_NewParams enableErc20 permissionlessRegistration =
     \<lparr>EnableErc20 = enableErc20, PermissionlessRegistration = permissionlessRegistration\<rparr>"

definition Erc20_DefaultParams :: erc_params where
  "Erc20_DefaultParams = \<lparr>EnableErc20 = True, PermissionlessRegistration = False\<rparr>"

definition Erc20_NewGenesisState :: "erc_params \<Rightarrow> TokenPair list \<Rightarrow> Allowance list \<Rightarrow> erc_genesis" where
  "Erc20_NewGenesisState params pairs allowances =
     \<lparr>egParams = params, egTokenPairs = pairs, egAllowances = allowances, egNativePrecompiles = [], egDynamicPrecompiles = []\<rparr>"

definition Erc20_DefaultGenesisState :: erc_genesis where
  "Erc20_DefaultGenesisState =
     \<lparr>egParams = Erc20_DefaultParams, egTokenPairs = [], egAllowances = [], egNativePrecompiles = [], egDynamicPrecompiles = []\<rparr>"

fun genesis_pairs :: "'x sdk_scheme \<Rightarrow> 'n erc_names_scheme \<Rightarrow> string list \<Rightarrow> denom list \<Rightarrow> TokenPair list \<Rightarrow> string list res" where
  "genesis_pairs K N seenErc20 seenDenom [] = Inr seenErc20"
| "genesis_pairs K N seenErc20 seenDenom (b # rest) =
     (if tpErc20Address b \<in> set seenErc20 then Inl (Errorf ''token ERC20 contract duplicated on genesis'')
      else if tpDenom b \<in> set seenDenom then Inl (Errorf ''coin denomination duplicated on genesis'')
      else tryE (TokenPair_Validate K N b) (\<lambda>_. genesis_pairs K N (tpErc20Address b # seenErc20) (tpDenom b # seenDenom) rest))"

definition hasActiveTokenPair :: "TokenPair list \<Rightarrow> string \<Rightarrow> bool" where
  "hasActiveTokenPair pairs address = list_ex (\<lambda>p. tpErc20Address p = address \<and> tpEnabled p) pairs"

definition validatePrecompiles :: "TokenPair list \<Rightarrow> string list \<Rightarrow> unit res" where
  "validatePrecompiles tokenPairs precompiles =
     (if list_all (hasActiveTokenPair tokenPairs) precompiles then Inr () else Inl (Errorf ''precompile address not found in token pairs''))"

fun genesis_allowances :: "'n erc_names_scheme \<Rightarrow> string list \<Rightarrow> string list \<Rightarrow> Allowance list \<Rightarrow> unit res" where
  "genesis_allowances N seenErc20 seenAllowance [] = Inr ()"
| "genesis_allowances N seenErc20 seenAllowance (a # rest) =
     (let key = alErc20Address a @ alOwner a @ alSpender a in
      if key \<in> set seenAllowance then Inl (Errorf ''duplicated allowance on genesis'')
      else if alErc20Address a \<notin> set seenErc20 then Inl (Errorf ''allowance has no corresponding token pair on genesis'')
      else tryE (asErr (Errorf ''invalid allowance on genesis'') (Allowance_Validate N a)) (\<lambda>_. genesis_allowances N seenErc20 (key # seenAllowance) rest))"

definition Erc20Genesis_Validate :: "'x sdk_scheme \<Rightarrow> 'n erc_names_scheme \<Rightarrow> erc_genesis \<Rightarrow> unit res" where
  "Erc20Genesis_Validate K N gs =
     tryE (genesis_pairs K N [] [] (egTokenPairs gs)) (\<lambda>seenErc20.
     tryE (asErr (Errorf ''invalid dynamic precompiles on genesis'') (validatePrecompiles (egTokenPairs gs) (egDynamicPrecompiles gs))) (\<lambda>_.
     tryE (asErr (Errorf ''invalid native precompiles on genesis'') (validatePrecompiles (egTokenPairs gs) (egNativePrecompiles gs))) (\<lambda>_.
     genesis_allowances N seenErc20 [] (egAllowances gs))))"

section \<open>Activation of precompiled contracts\<close>

datatype PrecompileType = PrecompileTypeNative | PrecompileTypeDynamic | PrecompileTypeOther int

text \<open>\<open>keccak\<close> is the hash function, \<open>code\<close> the byte code that the accounts of the precompiled contracts share.\<close>

definition RegisterERC20CodeHash :: "('k, 'm, 'acc) VmKeeper \<Rightarrow> (string \<Rightarrow> hash) \<Rightarrow> string \<Rightarrow> addr \<Rightarrow> ('s, 'k, 'm) vctx \<Rightarrow> ('s, 'k, 'm) vctx res" where
  "RegisterERC20CodeHash V keccak code erc20Addr w =
     (let codeHash = keccak code;
          w1 = (if GetCode (vmOf w) codeHash = [] then setVm (SetCode codeHash code (vmOf w)) w else w) in
      tryE (Vm_GetAccount V w1 erc20Addr) (\<lambda>acc.
      Vm_SetAccount V erc20Addr ((case acc of None \<Rightarrow> NewEmptyAccount (vkGeth V) | Some a \<Rightarrow> a)\<lparr>acCodeHash := codeHash\<rparr>) w1))"

definition UnRegisterERC20CodeHash :: "('k, 'm, 'acc) VmKeeper \<Rightarrow> (string \<Rightarrow> hash) \<Rightarrow> addr \<Rightarrow> ('s, 'k, 'm) vctx \<Rightarrow> ('s, 'k, 'm) vctx res" where
  "UnRegisterERC20CodeHash V keccak erc20Addr w =
     tryE (Vm_GetAccount V w erc20Addr) (\<lambda>acc.
     Vm_SetAccount V erc20Addr \<lparr>acNonce = (case acc of None \<Rightarrow> 0 | Some a \<Rightarrow> acNonce a),
       acBalance = (case acc of None \<Rightarrow> Some 0 | Some a \<Rightarrow> acBalance a), acCodeHash = keccak [], lockedBalance = None\<rparr> w)"

definition RegisterCodeHash :: "('k, 'm, 'acc) VmKeeper \<Rightarrow> (string \<Rightarrow> hash) \<Rightarrow> string \<Rightarrow> 'n erc_names_scheme \<Rightarrow> addr \<Rightarrow> PrecompileType \<Rightarrow>
    ('s, 'k, 'm) vctx erc_ctx \<Rightarrow> ('s, 'k, 'm) vctx erc_ctx res" where
  "RegisterCodeHash V keccak code N addr pType c =
     tryE (case pType of PrecompileTypeNative \<Rightarrow> Inr (\<not> IsNativePrecompileAvailable N (erStore c) addr)
       | PrecompileTypeDynamic \<Rightarrow> Inr (\<not> IsDynamicPrecompileAvailable N (erStore c) addr)
       | PrecompileTypeOther _ \<Rightarrow> Inl (Errorf ''invalid precompile type'')) (\<lambda>shouldRegister.
     if shouldRegister then tryE (RegisterERC20CodeHash V keccak code addr (erWorld c)) (\<lambda>w. Inr (c\<lparr>erWorld := w\<rparr>)) else Inr c)"

definition EnableNativePrecompile :: "('k, 'm, 'acc) VmKeeper \<Rightarrow> (string \<Rightarrow> hash) \<Rightarrow> string \<Rightarrow> 'n erc_names_scheme \<Rightarrow> addr \<Rightarrow>
    ('s, 'k, 'm) vctx erc_ctx \<Rightarrow> ('s, 'k, 'm) vctx erc_ctx res" where
  "EnableNativePrecompile V keccak code N addr c =
     tryE (RegisterCodeHash V keccak code N addr PrecompileTypeNative c) (\<lambda>c1. Inr (c1\<lparr>erStore := SetNativePrecompile N addr (erStore c1)\<rparr>))"

definition EnableDynamicPrecompile :: "('k, 'm, 'acc) VmKeeper \<Rightarrow> (string \<Rightarrow> hash) \<Rightarrow> string \<Rightarrow> 'n erc_names_scheme \<Rightarrow> addr \<Rightarrow>
    ('s, 'k, 'm) vctx erc_ctx \<Rightarrow> ('s, 'k, 'm) vctx erc_ctx res" where
  "EnableDynamicPrecompile V keccak code N addr c =
     tryE (RegisterCodeHash V keccak code N addr PrecompileTypeDynamic c) (\<lambda>c1. Inr (c1\<lparr>erStore := SetDynamicPrecompile N addr (erStore c1)\<rparr>))"

definition CreateNewTokenPair :: "('k, 'm, 'acc) VmKeeper \<Rightarrow> 'n erc_names_scheme \<Rightarrow> denom \<Rightarrow> ('s, 'k, 'm) vctx erc_ctx \<Rightarrow>
    (TokenPair \<times> ('s, 'k, 'm) vctx erc_ctx) res" where
  "CreateNewTokenPair V N denom c =
     tryE (NewTokenPairSTRv2 N denom) (\<lambda>pair.
     tryE (Vm_GetAccount V (erWorld c) (GetERC20Contract N pair)) (\<lambda>account.
     if (case account of None \<Rightarrow> False | Some a \<Rightarrow> HasCodeHash (vkGeth V) a) then Inl ErrTokenPairAlreadyExists
     else tryE (Erc20_SetToken N pair (erStore c)) (\<lambda>s. Inr (pair, c\<lparr>erStore := s\<rparr>))))"

definition RegisterERC20Extension :: "('k, 'm, 'acc) VmKeeper \<Rightarrow> (string \<Rightarrow> hash) \<Rightarrow> string \<Rightarrow> 'n erc_names_scheme \<Rightarrow> denom \<Rightarrow>
    ('s, 'k, 'm) vctx erc_ctx \<Rightarrow> (TokenPair \<times> ('s, 'k, 'm) vctx erc_ctx) res" where
  "RegisterERC20Extension V keccak code N denom c =
     tryE (CreateNewTokenPair V N denom c) (\<lambda>(pair, c1).
     tryE (EnableDynamicPrecompile V keccak code N (GetERC20Contract N pair) c1) (\<lambda>c2. Inr (pair, c2)))"

section \<open>Import\<close>

text \<open>The flag tells whether the list of pairs was walked to its end.\<close>

fun init_pairs :: "'n erc_names_scheme \<Rightarrow> TokenPair list \<Rightarrow> 'w erc_ctx \<Rightarrow> 'w erc_ctx \<times> bool" where
  "init_pairs N [] c = (c, True)"
| "init_pairs N (pair # rest) c =
     (case Erc20_SetToken N pair (erStore c) of Inl _ \<Rightarrow> (c, False) | Inr s \<Rightarrow> init_pairs N rest (c\<lparr>erStore := s\<rparr>))"

definition init_allowance :: "'n erc_names_scheme \<Rightarrow> Allowance \<Rightarrow> 'w erc_ctx \<Rightarrow> 'w erc_ctx res" where
  "init_allowance N allowance c =
     tryE (asErr (GoPanic ''error setting allowance'') (UnsafeSetAllowance N (HexToAddress N (alErc20Address allowance))
       (HexToAddress N (alOwner allowance)) (HexToAddress N (alSpender allowance)) (Some (alValue allowance)) (erStore c)))
     (\<lambda>s. Inr (c\<lparr>erStore := s\<rparr>))"

definition Erc20_InitGenesis :: "('k, 'm, 'acc) VmKeeper \<Rightarrow> (string \<Rightarrow> hash) \<Rightarrow> string \<Rightarrow> 'n erc_names_scheme \<Rightarrow> (('s, 'k, 'm) vctx \<Rightarrow> bool) \<Rightarrow> erc_genesis \<Rightarrow>
    ('s, 'k, 'm) vctx erc_ctx \<Rightarrow> ('s, 'k, 'm) vctx erc_ctx res" where
  "Erc20_InitGenesis V keccak code N hasModuleAccount data c =
     (let c1 = c\<lparr>erStore := Erc20_SetParams (egParams data) (erStore c)\<rparr> in
      if \<not> hasModuleAccount (erWorld c1) then Inl (GoPanic ''the erc20 module account has not been set'')
      else case init_pairs N (egTokenPairs data) c1 of
        (c2, False) \<Rightarrow> Inr c2
      | (c2, True) \<Rightarrow>
          tryE (forE (\<lambda>precompile c. asErr (GoPanic ''error registering native precompiles'')
            (EnableNativePrecompile V keccak code N (HexToAddress N precompile) c)) (egNativePrecompiles data) c2) (\<lambda>c3.
          tryE (forE (\<lambda>precompile c. asErr (GoPanic ''error registering dynamic precompiles'')
            (EnableDynamicPrecompile V keccak code N (HexToAddress N precompile) c)) (egDynamicPrecompiles data) c3) (\<lambda>c4.
          forE (init_allowance N) (egAllowances data) c4)))"

section \<open>What the validation ensures\<close>

lemma genesis_pairs_Inr:
  "genesis_pairs K N se sd ps = Inr se' \<Longrightarrow> (\<forall>p \<in> set ps. IsHexAddress N (tpErc20Address p)) \<and> distinct (map tpDenom ps) \<and>
     set (map tpDenom ps) \<inter> set sd = {} \<and> set se' = set se \<union> set (map tpErc20Address ps)"
proof (induction ps arbitrary: se sd)
  case (Cons b rest)
  from Cons.prems have "TokenPair_Validate K N b = Inr ()" and r: "genesis_pairs K N (tpErc20Address b # se) (tpDenom b # sd) rest = Inr se'" "tpDenom b \<notin> set sd"
    by (auto simp: tryE_def split: if_splits sum.splits)
  then have "IsHexAddress N (tpErc20Address b)" by (auto simp: TokenPair_Validate_def tryE_def split: sum.splits if_splits)
  with Cons.IH [OF r(1)] r(2) show ?case by auto
qed simp

lemma Validate_Inr:
  assumes "Erc20Genesis_Validate K N gs = Inr ()"
  shows "\<And>p. p \<in> set (egTokenPairs gs) \<Longrightarrow> IsHexAddress N (tpErc20Address p)" "distinct (map tpDenom (egTokenPairs gs))"
    "\<And>x. x \<in> set (egNativePrecompiles gs) \<union> set (egDynamicPrecompiles gs) \<Longrightarrow> \<exists>p \<in> set (egTokenPairs gs). tpErc20Address p = x \<and> tpEnabled p"
proof -
  from assms obtain se where g: "genesis_pairs K N [] [] (egTokenPairs gs) = Inr se"
    and "validatePrecompiles (egTokenPairs gs) (egDynamicPrecompiles gs) = Inr ()" "validatePrecompiles (egTokenPairs gs) (egNativePrecompiles gs) = Inr ()"
    by (auto simp: Erc20Genesis_Validate_def tryE_def asErr_def split: sum.splits)
  then show "\<And>x. x \<in> set (egNativePrecompiles gs) \<union> set (egDynamicPrecompiles gs) \<Longrightarrow> \<exists>p \<in> set (egTokenPairs gs). tpErc20Address p = x \<and> tpEnabled p"
    by (auto simp: validatePrecompiles_def hasActiveTokenPair_def list_all_iff list_ex_iff split: if_splits)
  show "\<And>p. p \<in> set (egTokenPairs gs) \<Longrightarrow> IsHexAddress N (tpErc20Address p)" "distinct (map tpDenom (egTokenPairs gs))"
    using genesis_pairs_Inr [OF g] by auto
qed

lemma genesis_allowances_Inr:
  "genesis_allowances N se seen xs = Inr () \<Longrightarrow> a \<in> set xs \<Longrightarrow> alErc20Address a \<in> set se \<and> 0 < alValue a"
  by (induction xs arbitrary: seen) (auto simp: Let_def tryE_def asErr_def Allowance_Validate_def split: if_splits sum.splits)

lemma Validate_allowance:
  assumes "Erc20Genesis_Validate K N gs = Inr ()" and "a \<in> set (egAllowances gs)"
  shows "0 < alValue a" "\<exists>p \<in> set (egTokenPairs gs). tpErc20Address p = alErc20Address a"
proof -
  from assms(1) obtain se where g: "genesis_pairs K N [] [] (egTokenPairs gs) = Inr se" "genesis_allowances N se [] (egAllowances gs) = Inr ()"
    by (auto simp: Erc20Genesis_Validate_def tryE_def asErr_def split: sum.splits)
  from genesis_allowances_Inr [OF g(2) assms(2)] genesis_pairs_Inr [OF g(1)]
  show "0 < alValue a" "\<exists>p \<in> set (egTokenPairs gs). tpErc20Address p = alErc20Address a" by auto
qed

section \<open>What the import leaves\<close>

definition erc_empty :: erc_store where
  "erc_empty = \<lparr>erPairs = Map.empty, erByErc20 = Map.empty, erByDenom = Map.empty, erAllowances = Map.empty, erNative = {}, erDynamic = {},
     erEnabled = False, erPermissionless = False\<rparr>"

text \<open>Two stores with the same pairs and indices.\<close>

definition same_pairs :: "erc_store \<Rightarrow> erc_store \<Rightarrow> bool" where
  "same_pairs s s' \<longleftrightarrow> erPairs s' = erPairs s \<and> erByErc20 s' = erByErc20 s \<and> erByDenom s' = erByDenom s \<and>
     erEnabled s' = erEnabled s \<and> erPermissionless s' = erPermissionless s"

text \<open>An allowance that passes the validation and that the keeper refuses, and what the import writes of the others.\<close>

definition refused_allowance :: "'n erc_names_scheme \<Rightarrow> Allowance \<Rightarrow> bool" where
  "refused_allowance N a \<longleftrightarrow> HexToAddress N (alOwner a) = emptyAddress \<or> HexToAddress N (alSpender a) = emptyAddress \<or> 2 ^ 256 \<le> alValue a"

definition put_allowance :: "'n erc_names_scheme \<Rightarrow> Allowance \<Rightarrow> (string \<rightharpoonup> Allowance) \<Rightarrow> (string \<rightharpoonup> Allowance)" where
  "put_allowance N a m =
     (let erc20 = HexToAddress N (alErc20Address a); owner = HexToAddress N (alOwner a); spender = HexToAddress N (alSpender a)
      in m(AllowanceKey erc20 owner spender \<mapsto> NewAllowance N erc20 owner spender (alValue a)))"

text \<open>One registration of the shared code at a listed contract, as a step between worlds; and a contract at which
  the code was registered on the way from one world to the other.\<close>

definition code_step :: "('k, 'm, 'acc) VmKeeper \<Rightarrow> (string \<Rightarrow> hash) \<Rightarrow> string \<Rightarrow> 'n erc_names_scheme \<Rightarrow> string set \<Rightarrow>
    ('s, 'k, 'm) vctx \<Rightarrow> ('s, 'k, 'm) vctx \<Rightarrow> bool" where
  "code_step V keccak code N A w w' \<longleftrightarrow> (\<exists>x \<in> A. RegisterERC20CodeHash V keccak code (HexToAddress N x) w = Inr w')"

definition code_registered :: "('k, 'm, 'acc) VmKeeper \<Rightarrow> (string \<Rightarrow> hash) \<Rightarrow> string \<Rightarrow> 'n erc_names_scheme \<Rightarrow> string set \<Rightarrow> string \<Rightarrow>
    ('s, 'k, 'm) vctx \<Rightarrow> ('s, 'k, 'm) vctx \<Rightarrow> bool" where
  "code_registered V keccak code N A x w w' \<longleftrightarrow> (\<exists>w1 w2. (code_step V keccak code N A)\<^sup>*\<^sup>* w w1 \<and>
     RegisterERC20CodeHash V keccak code (HexToAddress N x) w1 = Inr w2 \<and> (code_step V keccak code N A)\<^sup>*\<^sup>* w2 w')"

lemma code_registered_extend:
  assumes "(code_step V keccak code N A)\<^sup>*\<^sup>* w w'" and "(code_step V keccak code N A)\<^sup>*\<^sup>* v v'" and "code_registered V keccak code N A x w' v"
  shows "code_registered V keccak code N A x w v'"
  using assms unfolding code_registered_def by (meson rtranclp_trans)

context erc_names_laws
begin

lemma fresh_id:
  assumes "pairs_ok N s" and "erByDenom s (tpDenom p) = None" and "IsHexAddress N (tpErc20Address p)"
  shows "erPairs s (GetID N p) = None"
proof (rule ccontr)
  assume "erPairs s (GetID N p) \<noteq> None"
  then obtain q where q: "erPairs s (GetID N p) = Some q" by blast
  note D = pairs_okD [OF assms(1)]
  have "tpDenom q = tpDenom p" using GetID_inj [of q p] D(1,2) [OF q] assms(3) by metis
  then show False using D(4) [OF q] assms(2) by simp
qed

text \<open>A list of pairs with new denominations and contracts is registered as a whole.\<close>

lemma init_pairs_all:
  assumes "pairs_ok N (erStore c)" and "\<And>p. p \<in> set ps \<Longrightarrow> IsHexAddress N (tpErc20Address p)"
    and "distinct (map tpDenom ps)" and "distinct (map (GetERC20Contract N) ps)"
    and "\<And>p. p \<in> set ps \<Longrightarrow> erByDenom (erStore c) (tpDenom p) = None \<and> erByErc20 (erStore c) (GetERC20Contract N p) = None"
  shows "\<exists>s. init_pairs N ps c = (c\<lparr>erStore := s\<rparr>, True) \<and> pairs_ok N s \<and> (\<forall>p \<in> set ps. erPairs s (GetID N p) = Some p) \<and>
    (\<forall>i p. erPairs (erStore c) i = Some p \<longrightarrow> erPairs s i = Some p) \<and> (\<forall>d. d \<notin> set (map tpDenom ps) \<longrightarrow> erByDenom s d = erByDenom (erStore c) d) \<and>
    erAllowances s = erAllowances (erStore c) \<and> erNative s = erNative (erStore c) \<and> erDynamic s = erDynamic (erStore c) \<and>
    erEnabled s = erEnabled (erStore c) \<and> erPermissionless s = erPermissionless (erStore c)"
  using assms
proof (induction ps arbitrary: c)
  case Nil
  then show ?case by (intro exI [of _ "erStore c"]) simp
next
  case (Cons p ps)
  define s1 where "s1 = (erStore c)\<lparr>erPairs := (erPairs (erStore c))(GetID N p \<mapsto> p), erByErc20 := (erByErc20 (erStore c))(GetERC20Contract N p \<mapsto> GetID N p),
      erByDenom := (erByDenom (erStore c))(tpDenom p \<mapsto> GetID N p)\<rparr>"
  have set: "Erc20_SetToken N p (erStore c) = Inr s1" using Cons.prems(5) [of p] by (simp add: Register_Inr s1_def)
  have fresh: "erPairs (erStore c) (GetID N p) = None" using fresh_id [OF Cons.prems(1)] Cons.prems(2,5) by simp
  let ?c = "c\<lparr>erStore := s1\<rparr>"
  have "\<exists>s. init_pairs N ps ?c = (?c\<lparr>erStore := s\<rparr>, True) \<and> pairs_ok N s \<and> (\<forall>p \<in> set ps. erPairs s (GetID N p) = Some p) \<and>
    (\<forall>i p. erPairs (erStore ?c) i = Some p \<longrightarrow> erPairs s i = Some p) \<and> (\<forall>d. d \<notin> set (map tpDenom ps) \<longrightarrow> erByDenom s d = erByDenom (erStore ?c) d) \<and>
    erAllowances s = erAllowances (erStore ?c) \<and> erNative s = erNative (erStore ?c) \<and> erDynamic s = erDynamic (erStore ?c) \<and>
    erEnabled s = erEnabled (erStore ?c) \<and> erPermissionless s = erPermissionless (erStore ?c)"
  proof (rule Cons.IH)
    show "pairs_ok N (erStore ?c)" using SetToken_ok [OF Cons.prems(1) set] Cons.prems(2) by simp
    show "erByDenom (erStore ?c) (tpDenom q) = None \<and> erByErc20 (erStore ?c) (GetERC20Contract N q) = None" if "q \<in> set ps" for q
    proof -
      have "tpDenom q \<noteq> tpDenom p" "GetERC20Contract N q \<noteq> GetERC20Contract N p" using Cons.prems(3,4) that by (auto simp: image_iff)
      then show ?thesis using Cons.prems(5) [of q] that by (simp add: s1_def)
    qed
  qed (use Cons.prems(2-4) in auto)
  then obtain s where s: "init_pairs N ps ?c = (?c\<lparr>erStore := s\<rparr>, True)" "pairs_ok N s" "\<forall>p \<in> set ps. erPairs s (GetID N p) = Some p"
    "\<forall>i p. erPairs s1 i = Some p \<longrightarrow> erPairs s i = Some p" "\<forall>d. d \<notin> set (map tpDenom ps) \<longrightarrow> erByDenom s d = erByDenom s1 d"
    "erAllowances s = erAllowances s1" "erNative s = erNative s1" "erDynamic s = erDynamic s1" "erEnabled s = erEnabled s1" "erPermissionless s = erPermissionless s1"
    by auto
  have "erPairs s1 i = Some q" if "erPairs (erStore c) i = Some q" for i q using that fresh by (auto simp: s1_def)
  moreover have "erPairs s1 (GetID N p) = Some p" by (simp add: s1_def)
  ultimately have "\<forall>q \<in> set (p # ps). erPairs s (GetID N q) = Some q" "\<forall>i q. erPairs (erStore c) i = Some q \<longrightarrow> erPairs s i = Some q"
    using s(3,4) by auto
  moreover have "init_pairs N (p # ps) c = (c\<lparr>erStore := s\<rparr>, True)" using s(1) set by simp
  moreover have "\<forall>d. d \<notin> set (map tpDenom (p # ps)) \<longrightarrow> erByDenom s d = erByDenom (erStore c) d" using s(5) by (simp add: s1_def)
  ultimately show ?case using s(2,6-10) by (intro exI [of _ s]) (simp add: s1_def)
qed

lemma empty_ok: "pairs_ok N (Erc20_SetParams ps erc_empty)"
  by (simp add: pairs_ok_def erc_empty_def Erc20_SetParams_def)

lemma allowance_same: "setAllowance N a x y v f s = Inr s' \<Longrightarrow> same_pairs s s' \<and> erNative s' = erNative s \<and> erDynamic s' = erDynamic s"
  by (auto simp: setAllowance_def same_pairs_def split: option.splits if_splits)

lemma allowances_keep:
  assumes "forE (init_allowance N) xs c = Inr c'" and "pairs_ok N (erStore c)"
  shows "pairs_ok N (erStore c') \<and> same_pairs (erStore c) (erStore c') \<and> erNative (erStore c') = erNative (erStore c) \<and> erDynamic (erStore c') = erDynamic (erStore c)"
proof (rule forE_invariant [OF assms(1)])
  fix x t t'
  assume t: "pairs_ok N (erStore t) \<and> same_pairs (erStore c) (erStore t) \<and> erNative (erStore t) = erNative (erStore c) \<and> erDynamic (erStore t) = erDynamic (erStore c)"
    and run: "init_allowance N x t = Inr t'"
  from run have set: "setAllowance N (HexToAddress N (alErc20Address x)) (HexToAddress N (alOwner x)) (HexToAddress N (alSpender x)) (Some (alValue x)) True (erStore t) = Inr (erStore t')"
    by (auto simp: init_allowance_def UnsafeSetAllowance_def tryE_def asErr_def split: sum.splits)
  from allowance_ok [OF _ set] allowance_same [OF set] t
  show "pairs_ok N (erStore t') \<and> same_pairs (erStore c) (erStore t') \<and> erNative (erStore t') = erNative (erStore c) \<and> erDynamic (erStore t') = erDynamic (erStore c)"
    by (simp add: same_pairs_def)
qed (simp add: assms(2) same_pairs_def)

lemma registered_found:
  assumes "pairs_ok N s" and "erPairs s (GetID N p) = Some p"
  shows "GetTokenPair s (GetTokenPairID N s (tpErc20Address p)) = Some p"
  using lookup(1) [OF assms(1), of "GetERC20Contract N p" p] assms(2) pairs_okD(2) [OF assms]
  by (simp add: GetTokenPairID_def GetERC20Contract_def)

lemma listed_instance:
  assumes "pairs_ok N s" and "erPairs s (GetID N p) = Some p"
    and "hexOf N (HexToAddress N (tpErc20Address p)) \<in> erNative s \<union> erDynamic s"
  shows "\<exists>w. Erc20_GetERC20PrecompileInstance N s (HexToAddress N (tpErc20Address p)) = Inr (Some (p, w))"
proof -
  have found: "GetTokenPair s (GetERC20Map s (GetERC20Contract N p)) = Some p" using lookup(1) [OF assms(1)] assms(2) by simp
  have "GetTokenPairID N s (hexOf N (HexToAddress N (tpErc20Address p))) = GetERC20Map s (GetERC20Contract N p)"
    by (simp add: GetTokenPairID_def GetERC20Contract_def hex_valid hex_roundtrip hex_length)
  moreover have "GetERC20Map s (GetERC20Contract N p) \<noteq> []" using found by (auto simp: GetTokenPair_def)
  ultimately show ?thesis using found assms(3)
    by (auto simp: Erc20_GetERC20PrecompileInstance_def InstantiateERC20Precompile_def Let_def IsNativePrecompileAvailable_def IsDynamicPrecompileAvailable_def)
qed

lemma allowances_found:
  assumes "length e = 20" and "length o' = 20"
  shows "map_option alValue (fold (put_allowance N) xs m (AllowanceKey e o' s)) =
    (case find (\<lambda>a. HexToAddress N (alErc20Address a) = e \<and> HexToAddress N (alOwner a) = o' \<and> HexToAddress N (alSpender a) = s) (rev xs) of
       None \<Rightarrow> map_option alValue (m (AllowanceKey e o' s)) | Some a \<Rightarrow> Some (alValue a))"
proof (induction xs rule: rev_induct)
  case (snoc a xs)
  have "AllowanceKey e o' s = AllowanceKey (HexToAddress N (alErc20Address a)) (HexToAddress N (alOwner a)) (HexToAddress N (alSpender a)) \<longleftrightarrow>
      HexToAddress N (alErc20Address a) = e \<and> HexToAddress N (alOwner a) = o' \<and> HexToAddress N (alSpender a) = s"
    using assms by (auto simp: AllowanceKey_def hex_length)
  then show ?case using snoc.IH by (simp add: put_allowance_def Let_def NewAllowance_def)
qed simp

lemma hex_same: "hexOf N (HexToAddress N x) = hexOf N (HexToAddress N y) \<Longrightarrow> HexToAddress N x = HexToAddress N y"
  using hex_roundtrip [OF hex_length] by metis

lemma allowance_run:
  assumes "pairs_ok N (erStore c)" and "erPairs (erStore c) (GetID N p) = Some p" and "tpErc20Address p = alErc20Address a" and "0 < alValue a"
  shows "init_allowance N a c = (if refused_allowance N a then Inl (GoPanic ''error setting allowance'') else
    Inr (c\<lparr>erStore := (erStore c)\<lparr>erAllowances := put_allowance N a (erAllowances (erStore c))\<rparr>\<rparr>))"
proof -
  have "GetTokenPair (erStore c) (GetERC20Map (erStore c) (HexToAddress N (alErc20Address a))) = Some p"
    using lookup(1) [OF assms(1), of "GetERC20Contract N p" p] assms(2,3) by (simp add: GetERC20Contract_def)
  then show ?thesis using assms(4)
    by (simp add: init_allowance_def UnsafeSetAllowance_def setAllowance_def refused_allowance_def asErr_def put_allowance_def Let_def)
qed

lemma allowances_run:
  assumes "pairs_ok N (erStore c)"
    and "\<And>a. a \<in> set xs \<Longrightarrow> 0 < alValue a \<and> (\<exists>p. erPairs (erStore c) (GetID N p) = Some p \<and> tpErc20Address p = alErc20Address a)"
  shows "case forE (init_allowance N) xs c of Inl e \<Rightarrow> \<exists>a \<in> set xs. refused_allowance N a
    | Inr c' \<Rightarrow> (\<forall>a \<in> set xs. \<not> refused_allowance N a) \<and> erWorld c' = erWorld c \<and>
        erAllowances (erStore c') = fold (put_allowance N) xs (erAllowances (erStore c))"
  using assms
proof (induction xs arbitrary: c)
  case (Cons a xs)
  obtain p where p: "erPairs (erStore c) (GetID N p) = Some p" "tpErc20Address p = alErc20Address a" "0 < alValue a" using Cons.prems(2) [of a] by auto
  note run = allowance_run [OF Cons.prems(1) p]
  show ?case
  proof (cases "refused_allowance N a")
    case False
    then obtain c1 where c1: "init_allowance N a c = Inr c1" using run by simp
    then have ok: "pairs_ok N (erStore c1)" "erPairs (erStore c1) = erPairs (erStore c)"
      using allowances_keep [of "[a]" c c1] Cons.prems(1) by (auto simp: same_pairs_def)
    have "case forE (init_allowance N) xs c1 of Inl e \<Rightarrow> \<exists>a \<in> set xs. refused_allowance N a
      | Inr c' \<Rightarrow> (\<forall>a \<in> set xs. \<not> refused_allowance N a) \<and> erWorld c' = erWorld c1 \<and>
        erAllowances (erStore c') = fold (put_allowance N) xs (erAllowances (erStore c1))"
      using Cons.IH [OF ok(1)] Cons.prems(2) ok(2) by simp
    moreover have "erWorld c1 = erWorld c" "erAllowances (erStore c1) = put_allowance N a (erAllowances (erStore c))"
      using c1 run False by auto
    ultimately show ?thesis using c1 False by (auto split: sum.splits)
  qed (simp add: run)
qed simp

lemma enable_all:
  assumes f: "\<And>x c. f x c = tryE (if hexOf N (HexToAddress N x) \<in> get (erStore c) then Inr c
      else tryE (RegisterERC20CodeHash V keccak code (HexToAddress N x) (erWorld c)) (\<lambda>w. Inr (c\<lparr>erWorld := w\<rparr>))) (\<lambda>c1. Inr (c1\<lparr>erStore := add x (erStore c1)\<rparr>))"
    and add: "\<And>x s. get (add x s) = insert (hexOf N (HexToAddress N x)) (get s)" and "set xs \<subseteq> A"
  shows "case forE (\<lambda>x c. asErr e (f x c)) xs c of
      Inl _ \<Rightarrow> \<exists>x \<in> A. \<exists>w e'. (code_step V keccak code N A)\<^sup>*\<^sup>* (erWorld c) w \<and> RegisterERC20CodeHash V keccak code (HexToAddress N x) w = Inl e'
    | Inr c' \<Rightarrow> (code_step V keccak code N A)\<^sup>*\<^sup>* (erWorld c) (erWorld c') \<and>
        (\<forall>x \<in> set xs. hexOf N (HexToAddress N x) \<in> get (erStore c) \<or> code_registered V keccak code N A x (erWorld c) (erWorld c'))"
  using assms(3)
proof (induction xs arbitrary: c)
  case (Cons x xs)
  let ?R = "code_step V keccak code N A" and ?h = "\<lambda>x. hexOf N (HexToAddress N x)"
  show ?case
  proof (cases "f x c")
    case (Inl e1)
    then obtain e2 where "RegisterERC20CodeHash V keccak code (HexToAddress N x) (erWorld c) = Inl e2" by (auto simp: f tryE_def split: if_splits sum.splits)
    then show ?thesis using Inl Cons.prems by (auto simp: asErr_def)
  next
    case (Inr c1)
    then have s1: "get (erStore c1) = insert (?h x) (get (erStore c))"
      and w1: "?h x \<in> get (erStore c) \<and> erWorld c1 = erWorld c \<or> RegisterERC20CodeHash V keccak code (HexToAddress N x) (erWorld c) = Inr (erWorld c1)"
      by (auto simp: f add tryE_def split: if_splits sum.splits)
    have "erWorld c1 = erWorld c \<or> ?R (erWorld c) (erWorld c1)" using w1 Cons.prems by (auto simp: code_step_def)
    then have r1: "?R\<^sup>*\<^sup>* (erWorld c) (erWorld c1)" by auto
    have IH: "case forE (\<lambda>x c. asErr e (f x c)) xs c1 of
        Inl _ \<Rightarrow> \<exists>x \<in> A. \<exists>w e'. ?R\<^sup>*\<^sup>* (erWorld c1) w \<and> RegisterERC20CodeHash V keccak code (HexToAddress N x) w = Inl e'
      | Inr c' \<Rightarrow> ?R\<^sup>*\<^sup>* (erWorld c1) (erWorld c') \<and>
          (\<forall>x \<in> set xs. ?h x \<in> get (erStore c1) \<or> code_registered V keccak code N A x (erWorld c1) (erWorld c'))" using Cons.IH [of c1] Cons.prems by simp
    have head: "?h x \<in> get (erStore c) \<or> code_registered V keccak code N A z (erWorld c) (erWorld c')"
      if "?R\<^sup>*\<^sup>* (erWorld c1) (erWorld c')" "HexToAddress N z = HexToAddress N x" for c' z
      using w1 that unfolding code_registered_def by auto
    show ?thesis
    proof (cases "forE (\<lambda>x c. asErr e (f x c)) xs c1")
      case (Inl e2)
      then show ?thesis using IH r1 Inr by (auto simp: asErr_def intro: rtranclp_trans)
    next
      case (Inr c')
      then have r2: "?R\<^sup>*\<^sup>* (erWorld c1) (erWorld c')" and all: "\<And>z. z \<in> set xs \<Longrightarrow> ?h z \<in> get (erStore c1) \<or> code_registered V keccak code N A z (erWorld c1) (erWorld c')"
        using IH by auto
      have "?h z \<in> get (erStore c) \<or> code_registered V keccak code N A z (erWorld c) (erWorld c')" if "z \<in> set (x # xs)" for z
        using that all [of z] head [OF r2, of z] s1 hex_same [of z x] code_registered_extend [OF r1 rtranclp.rtrancl_refl] by auto
      then show ?thesis using Inr \<open>f x c = Inr c1\<close> r1 r2 by (auto simp: asErr_def)
    qed
  qed
qed simp

end

lemma init_pairs_append: "init_pairs N (ps @ ys) x =
    (if snd (init_pairs N ps x) then init_pairs N ys (fst (init_pairs N ps x)) else init_pairs N ps x)"
  by (induction ps arbitrary: x) (auto split: sum.split)

lemma RegisterCodeHash_store: "RegisterCodeHash V keccak code N a ty c = Inr c' \<Longrightarrow> erStore c' = erStore c"
  by (auto simp: RegisterCodeHash_def tryE_def split: sum.splits if_splits)

lemma native_store:
  assumes "forE (\<lambda>x c. asErr e (EnableNativePrecompile V keccak code N (HexToAddress N x) c)) xs c = Inr c'"
  shows "erStore c' = (erStore c)\<lparr>erNative := erNative (erStore c) \<union> (\<lambda>x. hexOf N (HexToAddress N x)) ` set xs\<rparr>"
  using assms
proof (induction xs arbitrary: c)
  case (Cons x xs)
  then obtain c1 where c1: "EnableNativePrecompile V keccak code N (HexToAddress N x) c = Inr c1"
    "forE (\<lambda>x c. asErr e (EnableNativePrecompile V keccak code N (HexToAddress N x) c)) xs c1 = Inr c'"
    by (auto simp: tryE_def asErr_def split: sum.splits)
  have "erStore c1 = SetNativePrecompile N (HexToAddress N x) (erStore c)"
    using c1(1) by (auto simp: EnableNativePrecompile_def tryE_def dest: RegisterCodeHash_store split: sum.splits)
  then show ?case using Cons.IH [OF c1(2)] by (simp add: SetNativePrecompile_def)
qed simp

lemma dynamic_store:
  assumes "forE (\<lambda>x c. asErr e (EnableDynamicPrecompile V keccak code N (HexToAddress N x) c)) xs c = Inr c'"
  shows "erStore c' = (erStore c)\<lparr>erDynamic := erDynamic (erStore c) \<union> (\<lambda>x. hexOf N (HexToAddress N x)) ` set xs\<rparr>"
  using assms
proof (induction xs arbitrary: c)
  case (Cons x xs)
  then obtain c1 where c1: "EnableDynamicPrecompile V keccak code N (HexToAddress N x) c = Inr c1"
    "forE (\<lambda>x c. asErr e (EnableDynamicPrecompile V keccak code N (HexToAddress N x) c)) xs c1 = Inr c'"
    by (auto simp: tryE_def asErr_def split: sum.splits)
  have "erStore c1 = SetDynamicPrecompile N (HexToAddress N x) (erStore c)"
    using c1(1) by (auto simp: EnableDynamicPrecompile_def tryE_def dest: RegisterCodeHash_store split: sum.splits)
  then show ?case using Cons.IH [OF c1(2)] by (simp add: SetDynamicPrecompile_def)
qed simp

lemma enable_rules:
  "EnableNativePrecompile V keccak code N (HexToAddress N x) c = tryE (if hexOf N (HexToAddress N x) \<in> erNative (erStore c) then Inr c
      else tryE (RegisterERC20CodeHash V keccak code (HexToAddress N x) (erWorld c)) (\<lambda>w. Inr (c\<lparr>erWorld := w\<rparr>)))
    (\<lambda>c1. Inr (c1\<lparr>erStore := SetNativePrecompile N (HexToAddress N x) (erStore c1)\<rparr>))"
  "EnableDynamicPrecompile V keccak code N (HexToAddress N x) c = tryE (if hexOf N (HexToAddress N x) \<in> erDynamic (erStore c) then Inr c
      else tryE (RegisterERC20CodeHash V keccak code (HexToAddress N x) (erWorld c)) (\<lambda>w. Inr (c\<lparr>erWorld := w\<rparr>)))
    (\<lambda>c1. Inr (c1\<lparr>erStore := SetDynamicPrecompile N (HexToAddress N x) (erStore c1)\<rparr>))"
  "erNative (SetNativePrecompile N (HexToAddress N x) s) = insert (hexOf N (HexToAddress N x)) (erNative s)"
  "erDynamic (SetDynamicPrecompile N (HexToAddress N x) s) = insert (hexOf N (HexToAddress N x)) (erDynamic s)"
  by (simp_all add: EnableNativePrecompile_def EnableDynamicPrecompile_def RegisterCodeHash_def IsNativePrecompileAvailable_def
    IsDynamicPrecompileAvailable_def SetNativePrecompile_def SetDynamicPrecompile_def)

text \<open>The two loops that enable the precompiled contracts, run on a store without any.\<close>

definition enable_precompiles :: "('k, 'm, 'acc) VmKeeper \<Rightarrow> (string \<Rightarrow> hash) \<Rightarrow> string \<Rightarrow> 'n erc_names_scheme \<Rightarrow> erc_genesis \<Rightarrow>
    ('s, 'k, 'm) vctx erc_ctx \<Rightarrow> ('s, 'k, 'm) vctx erc_ctx res" where
  "enable_precompiles V keccak code N gs c =
     tryE (forE (\<lambda>x c. asErr (GoPanic ''error registering native precompiles'')
       (EnableNativePrecompile V keccak code N (HexToAddress N x) c)) (egNativePrecompiles gs) c)
     (forE (\<lambda>x c. asErr (GoPanic ''error registering dynamic precompiles'')
       (EnableDynamicPrecompile V keccak code N (HexToAddress N x) c)) (egDynamicPrecompiles gs))"

lemma InitGenesis_parts:
  assumes "init_pairs N (egTokenPairs gs) (c\<lparr>erStore := Erc20_SetParams (egParams gs) (erStore c)\<rparr>) = (c2, True)"
  shows "Erc20_InitGenesis V keccak code N hasModuleAccount gs c = (if \<not> hasModuleAccount (erWorld c) then Inl (GoPanic ''the erc20 module account has not been set'')
    else tryE (enable_precompiles V keccak code N gs c2) (forE (init_allowance N) (egAllowances gs)))"
  using assms by (auto simp: Erc20_InitGenesis_def enable_precompiles_def Let_def tryE_def split: sum.split)

lemma enable_precompiles_run:
  assumes "erc_names_laws N" and "erNative (erStore c) = {}" and "erDynamic (erStore c) = {}"
    and A: "A = set (egNativePrecompiles gs) \<union> set (egDynamicPrecompiles gs)"
  shows "case enable_precompiles V keccak code N gs c of
      Inl _ \<Rightarrow> \<exists>x \<in> A. \<exists>w e. (code_step V keccak code N A)\<^sup>*\<^sup>* (erWorld c) w \<and> RegisterERC20CodeHash V keccak code (HexToAddress N x) w = Inl e
    | Inr c' \<Rightarrow> (\<forall>x \<in> A. code_registered V keccak code N A x (erWorld c) (erWorld c')) \<and>
        erStore c' = (erStore c)\<lparr>erNative := (\<lambda>x. hexOf N (HexToAddress N x)) ` set (egNativePrecompiles gs),
          erDynamic := (\<lambda>x. hexOf N (HexToAddress N x)) ` set (egDynamicPrecompiles gs)\<rparr>"
proof -
  note en = erc_names_laws.enable_all [OF assms(1) enable_rules(1,3), where A = A and xs = "egNativePrecompiles gs" and V = V and keccak = keccak and code = code]
    erc_names_laws.enable_all [OF assms(1) enable_rules(2,4), where A = A and xs = "egDynamicPrecompiles gs" and V = V and keccak = keccak and code = code]
  let ?nat = "forE (\<lambda>x c. asErr (GoPanic ''error registering native precompiles'') (EnableNativePrecompile V keccak code N (HexToAddress N x) c)) (egNativePrecompiles gs)"
  let ?dyn = "forE (\<lambda>x c. asErr (GoPanic ''error registering dynamic precompiles'') (EnableDynamicPrecompile V keccak code N (HexToAddress N x) c)) (egDynamicPrecompiles gs)"
  let ?step = "(code_step V keccak code N A)\<^sup>*\<^sup>*" and ?reg = "code_registered V keccak code N A"
  have N1: "case ?nat c of Inl _ \<Rightarrow> \<exists>x \<in> A. \<exists>w e'. ?step (erWorld c) w \<and> RegisterERC20CodeHash V keccak code (HexToAddress N x) w = Inl e'
    | Inr c3 \<Rightarrow> ?step (erWorld c) (erWorld c3) \<and> (\<forall>x \<in> set (egNativePrecompiles gs). ?reg x (erWorld c) (erWorld c3))"
    using en(1) [where e = "GoPanic ''error registering native precompiles''" and c = c] assms(2) A by (simp cong: sum.case_cong)
  show ?thesis
  proof (cases "?nat c")
    case (Inl e)
    then show ?thesis using N1 by (simp add: enable_precompiles_def)
  next
    case n: (Inr c3)
    have D1: "case ?dyn c3 of Inl _ \<Rightarrow> \<exists>x \<in> A. \<exists>w e'. ?step (erWorld c3) w \<and> RegisterERC20CodeHash V keccak code (HexToAddress N x) w = Inl e'
      | Inr c4 \<Rightarrow> ?step (erWorld c3) (erWorld c4) \<and> (\<forall>x \<in> set (egDynamicPrecompiles gs). ?reg x (erWorld c3) (erWorld c4))"
      using en(2) [where e = "GoPanic ''error registering dynamic precompiles''" and c = c3] native_store [OF n] assms(3) A by (simp cong: sum.case_cong)
    show ?thesis
    proof (cases "?dyn c3")
      case (Inl e)
      then show ?thesis using D1 N1 n by (auto simp: enable_precompiles_def intro: rtranclp_trans)
    next
      case d: (Inr c4)
      have "?reg x (erWorld c) (erWorld c4)" if "x \<in> A" for x
        using that A D1 N1 n d code_registered_extend [OF _ rtranclp.rtrancl_refl, of V keccak code N A "erWorld c" "erWorld c3" x "erWorld c4"]
          code_registered_extend [OF rtranclp.rtrancl_refl, of V keccak code N A "erWorld c3" "erWorld c4" x "erWorld c"] by auto
      then show ?thesis using n d native_store [OF n] dynamic_store [OF d] assms(2,3) by (simp add: enable_precompiles_def)
    qed
  qed
qed

section \<open>The properties\<close>

text \<open>C29. A validated genesis whose contracts are different addresses is imported as a whole or not at all. The import
  panics only without the module account, for an allowance that the validation lets through and the keeper refuses (the zero
  address as owner or spender, or a value of more than 256 bits), or when the EVM keeper refuses to register the shared code at
  a listed contract. Otherwise the registry is
  consistent, every pair is found under the spelling of its contract, the parameters are those of the genesis, the code was
  registered at every listed precompiled contract, which serves an enabled pair of the list, and the allowances are exactly those of the list:
  the last entry for a contract, owner and spender counts, and everything else is zero.\<close>

theorem erc20_genesis_complete:
  assumes "erc_names_laws N" and "Erc20Genesis_Validate K N gs = Inr ()" and "distinct (map (GetERC20Contract N) (egTokenPairs gs))"
    and "erStore c = erc_empty" and "A = set (egNativePrecompiles gs) \<union> set (egDynamicPrecompiles gs)"
  shows "case Erc20_InitGenesis V keccak code N hasModuleAccount gs c of
      Inl _ \<Rightarrow> \<not> hasModuleAccount (erWorld c) \<or> (\<exists>a \<in> set (egAllowances gs). refused_allowance N a) \<or>
        (\<exists>x \<in> A. \<exists>w e. (code_step V keccak code N A)\<^sup>*\<^sup>* (erWorld c) w \<and> RegisterERC20CodeHash V keccak code (HexToAddress N x) w = Inl e)
    | Inr c' \<Rightarrow> hasModuleAccount (erWorld c) \<and> pairs_ok N (erStore c') \<and> Erc20_GetParams (erStore c') = egParams gs \<and>
        (\<forall>p \<in> set (egTokenPairs gs). GetTokenPair (erStore c') (GetTokenPairID N (erStore c') (tpErc20Address p)) = Some p) \<and>
        (\<forall>x \<in> A. code_registered V keccak code N A x (erWorld c) (erWorld c') \<and> (\<exists>p \<in> set (egTokenPairs gs). \<exists>w.
           tpErc20Address p = x \<and> tpEnabled p \<and> Erc20_GetERC20PrecompileInstance N (erStore c') (HexToAddress N x) = Inr (Some (p, w)))) \<and>
        (\<forall>a \<in> set (egAllowances gs). \<not> refused_allowance N a) \<and>
        (\<forall>erc20 owner spender. length erc20 = 20 \<longrightarrow> length owner = 20 \<longrightarrow> GetAllowance (erStore c') erc20 owner spender =
           (case find (\<lambda>a. HexToAddress N (alErc20Address a) = erc20 \<and> HexToAddress N (alOwner a) = owner \<and> HexToAddress N (alSpender a) = spender)
             (rev (egAllowances gs)) of None \<Rightarrow> 0 | Some a \<Rightarrow> alValue a))"
proof -
  note L = assms(1)
  note v = Validate_Inr [OF assms(2)]
  let ?c1 = "c\<lparr>erStore := Erc20_SetParams (egParams gs) (erStore c)\<rparr>"
  have emp: "erByDenom (erStore ?c1) d = None" "erByErc20 (erStore ?c1) a = None" "erNative (erStore ?c1) = {}" "erDynamic (erStore ?c1) = {}" "erAllowances (erStore ?c1) = Map.empty" for d a
    by (simp_all add: assms(4) erc_empty_def Erc20_SetParams_def)
  have ok1: "pairs_ok N (erStore ?c1)" using erc_names_laws.empty_ok [OF L] assms(4) by simp
  obtain s where s: "init_pairs N (egTokenPairs gs) ?c1 = (?c1\<lparr>erStore := s\<rparr>, True)" "pairs_ok N s"
    "\<And>p. p \<in> set (egTokenPairs gs) \<Longrightarrow> erPairs s (GetID N p) = Some p"
    "erEnabled s = erEnabled (erStore ?c1)" "erPermissionless s = erPermissionless (erStore ?c1)"
    "erNative s = {}" "erDynamic s = {}" "erAllowances s = Map.empty"
    using erc_names_laws.init_pairs_all [OF L ok1 v(1,2) assms(3)] emp by auto
  let ?c2 = "c\<lparr>erStore := s\<rparr>"
  have "init_pairs N (egTokenPairs gs) ?c1 = (?c2, True)" using s(1) by simp
  note run = InitGenesis_parts [OF this, of V keccak code hasModuleAccount]
  have E: "case enable_precompiles V keccak code N gs ?c2 of
      Inl _ \<Rightarrow> \<exists>x \<in> A. \<exists>w e. (code_step V keccak code N A)\<^sup>*\<^sup>* (erWorld c) w \<and> RegisterERC20CodeHash V keccak code (HexToAddress N x) w = Inl e
    | Inr c' \<Rightarrow> (\<forall>x \<in> A. code_registered V keccak code N A x (erWorld c) (erWorld c')) \<and>
        erStore c' = s\<lparr>erNative := (\<lambda>x. hexOf N (HexToAddress N x)) ` set (egNativePrecompiles gs),
          erDynamic := (\<lambda>x. hexOf N (HexToAddress N x)) ` set (egDynamicPrecompiles gs)\<rparr>"
    using enable_precompiles_run [OF L _ _ assms(5), of ?c2 V keccak code] s(6,7) by (simp cong: sum.case_cong)
  show ?thesis
  proof (cases "hasModuleAccount (erWorld c)")
    case acc: True
    show ?thesis
    proof (cases "enable_precompiles V keccak code N gs ?c2")
      case (Inl e)
      then show ?thesis using acc E run by simp
    next
      case (Inr c4)
      then have s4: "erStore c4 = s\<lparr>erNative := (\<lambda>x. hexOf N (HexToAddress N x)) ` set (egNativePrecompiles gs),
          erDynamic := (\<lambda>x. hexOf N (HexToAddress N x)) ` set (egDynamicPrecompiles gs)\<rparr>"
        and reg: "\<And>x. x \<in> A \<Longrightarrow> code_registered V keccak code N A x (erWorld c) (erWorld c4)" using E by auto
      have ok: "pairs_ok N (erStore c4)" using s(2) s4 pairs_ok_cong [of "erStore c4" s N] by simp
      have all: "0 < alValue a \<and> (\<exists>p. erPairs (erStore c4) (GetID N p) = Some p \<and> tpErc20Address p = alErc20Address a)" if "a \<in> set (egAllowances gs)" for a
        using Validate_allowance [OF assms(2) that] s(3) s4 by auto
      note al = erc_names_laws.allowances_run [OF L ok, of "egAllowances gs", OF all]
      show ?thesis
      proof (cases "forE (init_allowance N) (egAllowances gs) c4")
        case (Inl e)
        then show ?thesis using acc run al \<open>_ = Inr c4\<close> by simp
      next
        case a: (Inr c')
        have k: "pairs_ok N (erStore c')" "same_pairs s (erStore c')" "erNative (erStore c') = erNative (erStore c4)" "erDynamic (erStore c') = erDynamic (erStore c4)"
          using erc_names_laws.allowances_keep [OF L a ok] s4 by (auto simp: same_pairs_def)
        have fnd: "erPairs (erStore c') (GetID N p) = Some p" if "p \<in> set (egTokenPairs gs)" for p using s(3) [OF that] k(2) by (simp add: same_pairs_def)
        have serve: "\<exists>p \<in> set (egTokenPairs gs). \<exists>w. tpErc20Address p = x \<and> tpEnabled p \<and> Erc20_GetERC20PrecompileInstance N (erStore c') (HexToAddress N x) = Inr (Some (p, w))"
          if x: "x \<in> A" for x
        proof -
          obtain p where p: "p \<in> set (egTokenPairs gs)" "tpErc20Address p = x" "tpEnabled p" using v(3) x assms(5) by blast
          have "hexOf N (HexToAddress N (tpErc20Address p)) \<in> erNative (erStore c') \<union> erDynamic (erStore c')" using x p(2) k(3,4) s4 assms(5) by auto
          from erc_names_laws.listed_instance [OF L k(1) fnd [OF p(1)] this] p show ?thesis by auto
        qed
        have par: "Erc20_GetParams (erStore c') = egParams gs"
          using k(2) s(4,5) by (simp add: same_pairs_def Erc20_GetParams_def IsERC20Enabled_def isPermissionlessRegistration_def Erc20_SetParams_def)
        have get: "GetAllowance (erStore c') erc20 owner spender =
            (case find (\<lambda>a. HexToAddress N (alErc20Address a) = erc20 \<and> HexToAddress N (alOwner a) = owner \<and> HexToAddress N (alSpender a) = spender)
              (rev (egAllowances gs)) of None \<Rightarrow> 0 | Some a \<Rightarrow> alValue a)" if "length erc20 = 20" "length owner = 20" for erc20 owner spender
          using erc_names_laws.allowances_found [OF L that, of "egAllowances gs" "erAllowances s" spender] al a s4 s(8)
          by (auto simp: GetAllowance_def split: option.splits)
        have "Erc20_InitGenesis V keccak code N hasModuleAccount gs c = Inr c'" using acc run a \<open>_ = Inr c4\<close> by simp
        then show ?thesis using acc k(1) par fnd erc_names_laws.registered_found [OF L k(1)] reg serve get al a by simp
      qed
    qed
  next
    case False then show ?thesis by (simp add: run)
  qed
qed

text \<open>C37. Where a validated genesis spells the contract of an earlier pair in another way, the import ends there
  without an error: that pair and the later ones are missing, and so are all precompiled contracts and
  allowances.\<close>

theorem respelled_genesis_cut:
  assumes "erc_names_laws N" and "Erc20Genesis_Validate K N gs = Inr ()" and "egTokenPairs gs = ps @ q # rest"
    and "distinct (map (GetERC20Contract N) ps)" and "GetERC20Contract N q \<in> GetERC20Contract N ` set ps"
    and "erStore c = erc_empty" and "hasModuleAccount (erWorld c)"
  shows "\<exists>s. Erc20_InitGenesis V keccak code N hasModuleAccount gs c = Inr (c\<lparr>erStore := s\<rparr>) \<and>
    (\<forall>p \<in> set ps. GetTokenPair s (GetTokenPairID N s (tpErc20Address p)) = Some p) \<and>
    (\<forall>p \<in> set (q # rest). \<not> IsDenomRegistered s (tpDenom p)) \<and>
    erAllowances s = Map.empty \<and> (\<forall>a. Erc20_GetERC20PrecompileInstance N s a = Inr None)"
proof -
  note L = assms(1)
  note v = Validate_Inr [OF assms(2), unfolded assms(3)]
  let ?c1 = "c\<lparr>erStore := Erc20_SetParams (egParams gs) (erStore c)\<rparr>"
  have emp: "erByDenom (erStore ?c1) d = None" "erByErc20 (erStore ?c1) a = None" "erAllowances (erStore ?c1) = Map.empty" "erNative (erStore ?c1) = {}" "erDynamic (erStore ?c1) = {}" for d a
    by (simp_all add: assms(6) erc_empty_def Erc20_SetParams_def)
  have ok1: "pairs_ok N (erStore ?c1)" using erc_names_laws.empty_ok [OF L] assms(6) by simp
  have hex: "IsHexAddress N (tpErc20Address p)" if "p \<in> set ps" for p using v(1) [of p] that by simp
  have dd: "distinct (map tpDenom ps)" "tpDenom ` set (q # rest) \<inter> set (map tpDenom ps) = {}" using v(2) by auto
  obtain s where s: "init_pairs N ps ?c1 = (?c1\<lparr>erStore := s\<rparr>, True)" "pairs_ok N s" "\<And>p. p \<in> set ps \<Longrightarrow> erPairs s (GetID N p) = Some p"
    "\<forall>d. d \<notin> set (map tpDenom ps) \<longrightarrow> erByDenom s d = erByDenom (erStore ?c1) d" "erAllowances s = erAllowances (erStore ?c1)" "erNative s = erNative (erStore ?c1)"
    "erDynamic s = erDynamic (erStore ?c1)"
    using erc_names_laws.init_pairs_all [OF L ok1 hex dd(1) assms(4)] emp by blast
  obtain p where p: "p \<in> set ps" "GetERC20Contract N p = GetERC20Contract N q" using assms(5) by auto
  have "erByErc20 s (GetERC20Contract N q) \<noteq> None" using pairs_okD(3) [OF s(2) s(3) [OF p(1)]] p(2) by simp
  then have "\<exists>e. Erc20_SetToken N q s = Inl e" by (simp add: Erc20_SetToken_def IsERC20Registered_def)
  then have "init_pairs N (egTokenPairs gs) ?c1 = (?c1\<lparr>erStore := s\<rparr>, False)" using s(1) assms(3) by (auto simp: init_pairs_append)
  then have "Erc20_InitGenesis V keccak code N hasModuleAccount gs c = Inr (c\<lparr>erStore := s\<rparr>)"
    using assms(7) by (simp add: Erc20_InitGenesis_def Let_def)
  moreover have "GetTokenPair s (GetTokenPairID N s (tpErc20Address p)) = Some p" if "p \<in> set ps" for p
    using erc_names_laws.registered_found [OF L s(2) s(3) [OF that]] .
  moreover have "\<not> IsDenomRegistered s (tpDenom p)" if "p \<in> set (q # rest)" for p
    using s(4) emp(1) dd(2) that unfolding IsDenomRegistered_def by (metis IntI empty_iff imageI)
  moreover have "Erc20_GetERC20PrecompileInstance N s a = Inr None" for a
    using s(6,7) emp by (simp add: Erc20_GetERC20PrecompileInstance_def IsNativePrecompileAvailable_def IsDynamicPrecompileAvailable_def)
  ultimately show ?thesis using s(5) emp by auto
qed

section \<open>Concrete genesis states\<close>

text \<open>An address in small and in capital letters, and another address.\<close>

definition addrSmall :: string where "addrSmall = ''0x'' @ replicate 40 (CHR ''a'')"
definition addrCapital :: string where "addrCapital = ''0x'' @ replicate 40 (CHR ''A'')"
definition addrOther :: string where "addrOther = ''0x'' @ replicate 40 (CHR ''b'')"

definition pair_of :: "string \<Rightarrow> denom \<Rightarrow> TokenPair" where
  "pair_of a d = \<lparr>tpErc20Address = a, tpDenom = d, tpEnabled = True, tpOwner = OWNER_MODULE\<rparr>"

definition gs_good :: erc_genesis where
  "gs_good = \<lparr>egParams = Erc20_DefaultParams, egTokenPairs = [pair_of addrSmall ''coina'', pair_of addrOther ''coinb''],
     egAllowances = [\<lparr>alErc20Address = addrSmall, alOwner = addrOther, alSpender = addrCapital, alValue = 5\<rparr>],
     egNativePrecompiles = [addrSmall], egDynamicPrecompiles = []\<rparr>"

definition gs_respelled :: erc_genesis where
  "gs_respelled = gs_good\<lparr>egTokenPairs := [pair_of addrSmall ''coina'', pair_of addrCapital ''coinb'']\<rparr>"

definition gs_start :: "demo_world erc_ctx" where "gs_start = erc_start\<lparr>erStore := erc_empty\<rparr>"

lemma gs_valid: "Erc20Genesis_Validate ref_sdk ref_names gs_good = Inr ()" "Erc20Genesis_Validate ref_sdk ref_names gs_respelled = Inr ()"
  by code_simp+

lemma gs_allowance: "\<not> refused_allowance ref_names \<lparr>alErc20Address = addrSmall, alOwner = addrOther, alSpender = addrCapital, alValue = 5\<rparr>"
  by code_simp

lemma gs_contracts: "distinct (map (GetERC20Contract ref_names) (egTokenPairs gs_good))"
  "GetERC20Contract ref_names (pair_of addrCapital ''coinb'') = GetERC20Contract ref_names (pair_of addrSmall ''coina'')"
  by code_simp+

lemma gs_code: "\<not> isl (RegisterERC20CodeHash ref_vm ref_keccak ''code'' (HexToAddress ref_names addrSmall) exec_state)"
  by code_simp

lemma gs_imported: "\<exists>c'. Erc20_InitGenesis ref_vm ref_keccak ''code'' ref_names (\<lambda>_. True) gs_good (gs_start\<lparr>erWorld := exec_state\<rparr>) = Inr c'"
proof -
  let ?c = "gs_start\<lparr>erWorld := exec_state\<rparr>"
  let ?c1 = "?c\<lparr>erStore := Erc20_SetParams (egParams gs_good) (erStore ?c)\<rparr>"
  have e: "erStore ?c = erc_empty" by (simp add: gs_start_def)
  note v = Validate_Inr [OF gs_valid(1)]
  have "\<exists>s. init_pairs ref_names (egTokenPairs gs_good) ?c1 = (?c1\<lparr>erStore := s\<rparr>, True) \<and> erNative s = {} \<and> pairs_ok ref_names s \<and>
      (\<forall>p \<in> set (egTokenPairs gs_good). erPairs s (GetID ref_names p) = Some p)"
    using refnames.init_pairs_all [of ?c1 "egTokenPairs gs_good"] v(1,2) gs_contracts(1) refnames.empty_ok [of "egParams gs_good"]
    by (auto simp: e) (auto simp: erc_empty_def Erc20_SetParams_def)
  then obtain s where s: "init_pairs ref_names (egTokenPairs gs_good) ?c1 = (?c1\<lparr>erStore := s\<rparr>, True)" "erNative s = {}" "pairs_ok ref_names s"
    "erPairs s (GetID ref_names (pair_of addrSmall ''coina'')) = Some (pair_of addrSmall ''coina'')" by (auto simp: gs_good_def)
  obtain w where w: "RegisterERC20CodeHash ref_vm ref_keccak ''code'' (HexToAddress ref_names addrSmall) exec_state = Inr w" using gs_code Inr_of by blast
  let ?c3 = "?c\<lparr>erWorld := w, erStore := SetNativePrecompile ref_names (HexToAddress ref_names addrSmall) s\<rparr>"
  have n: "EnableNativePrecompile ref_vm ref_keccak ''code'' ref_names (HexToAddress ref_names addrSmall) (?c1\<lparr>erStore := s\<rparr>) = Inr ?c3"
    using s(2) w by (simp add: EnableNativePrecompile_def RegisterCodeHash_def IsNativePrecompileAvailable_def)
  have "pairs_ok ref_names (erStore ?c3)" using s(3) pairs_ok_cong [of "erStore ?c3" s ref_names] by (simp add: SetNativePrecompile_def)
  from refnames.allowance_run [OF this, of "pair_of addrSmall ''coina''"] s(4) gs_allowance n s(1) show ?thesis
    by (auto simp: InitGenesis_parts enable_precompiles_def asErr_def gs_good_def pair_of_def SetNativePrecompile_def)
qed

theorem erc20_genesis_complete_witness:
  "\<exists>c' p w. Erc20_InitGenesis ref_vm ref_keccak ''code'' ref_names (\<lambda>_. True) gs_good (gs_start\<lparr>erWorld := exec_state\<rparr>) = Inr c' \<and>
     pairs_ok ref_names (erStore c') \<and> tpErc20Address p = addrSmall \<and>
     Erc20_GetERC20PrecompileInstance ref_names (erStore c') (HexToAddress ref_names addrSmall) = Inr (Some (p, w)) \<and>
     GetAllowance (erStore c') (HexToAddress ref_names addrSmall) (HexToAddress ref_names addrOther) (HexToAddress ref_names addrCapital) = 5"
proof -
  obtain c' where run: "Erc20_InitGenesis ref_vm ref_keccak ''code'' ref_names (\<lambda>_. True) gs_good (gs_start\<lparr>erWorld := exec_state\<rparr>) = Inr c'" using gs_imported by blast
  have e: "erStore (gs_start\<lparr>erWorld := exec_state\<rparr>) = erc_empty" by (simp add: gs_start_def)
  have x: "addrSmall \<in> set (egNativePrecompiles gs_good) \<union> set (egDynamicPrecompiles gs_good)" by (simp add: gs_good_def)
  note all = erc20_genesis_complete [OF refnames.erc_names_laws_axioms gs_valid(1) gs_contracts(1) e refl,
    where V = ref_vm and keccak = ref_keccak and code = "''code''" and hasModuleAccount = "\<lambda>_. True", unfolded run sum.case]
  have "GetAllowance (erStore c') (HexToAddress ref_names addrSmall) (HexToAddress ref_names addrOther) (HexToAddress ref_names addrCapital) = 5"
    using all by (simp add: refnames.hex_length gs_good_def)
  with all x run show ?thesis by blast
qed

theorem respelled_genesis_cut_witness:
  "\<exists>s. Erc20Genesis_Validate ref_sdk ref_names gs_respelled = Inr () \<and>
     Erc20_InitGenesis ref_vm ref_keccak ''code'' ref_names (\<lambda>_. True) gs_respelled gs_start = Inr (gs_start\<lparr>erStore := s\<rparr>) \<and>
     egNativePrecompiles gs_respelled = [addrSmall] \<and> \<not> IsDenomRegistered s ''coinb'' \<and> (\<forall>a. Erc20_GetERC20PrecompileInstance ref_names s a = Inr None)"
proof -
  have p: "egTokenPairs gs_respelled = [pair_of addrSmall ''coina''] @ pair_of addrCapital ''coinb'' # []" by (simp add: gs_respelled_def)
  have e: "erStore gs_start = erc_empty" by (simp add: gs_start_def)
  have "tpDenom (pair_of addrCapital ''coinb'') = ''coinb''" "egNativePrecompiles gs_respelled = [addrSmall]" by (simp_all add: pair_of_def gs_respelled_def gs_good_def)
  with respelled_genesis_cut [OF refnames.erc_names_laws_axioms gs_valid(2) p _ _ e, where hasModuleAccount = "\<lambda>_. True" and V = ref_vm and keccak = ref_keccak and code = "''code''"]
  show ?thesis using gs_contracts(2) gs_valid(2) by simp blast
qed

end
