(* ===== verification/Spec2Isabelle.thy ===== *)
theory Spec2Isabelle
  imports Tax_Post Evm_Bank App_Ante Send_Restrictions Proposal Transition_Results Token_Query Mempool_Ops Upgrades Erc20_Genesis
begin

text \<open>
  \<^bold>\<open>A verification of the STOChain node.\<close> The program is a Cosmos SDK application in Go (directory
  \<^verbatim>\<open>src/\<close>). Its own logic is the module x/stoc, in which users create, mint, release and burn custom
  tokens; a tax on transfers of these tokens; restrictions that keep them on this chain and in wallets; a
  bank wrapper that lets the EVM, which counts in 18 decimals, use a six-decimal currency; the ante handler
  that admits transactions; the fee market; and the building of blocks. The EVM is a fork of cosmos/evm around
  go-ethereum; modelled of it are its mempool, the admission of its transactions, its accounts and balances, the
  journaled state database on which contracts run, the execution of a message around the interpreter, the
  module's parameters with the permissions they grant, and the ERC20 module that pairs contracts with coins.

  \<^bold>\<open>How the parts interact.\<close> A transaction passes the ante handler (\<open>App_Ante\<close>): the router sends it to
  the EVM chain or to the Cosmos chain, whose decorators check fees (\<open>Cosmos_Fees\<close>, with the parameters
  of \<open>Fee_Market\<close>), authz wrappers (\<open>Authz_Screen\<close>) and custom tokens (\<open>Ante_Restrictions\<close>). Its messages
  run against the token keeper (\<open>Token_Msgs\<close>) or the bank, where every movement of coins passes the send
  restrictions (\<open>Send_Restrictions\<close>). After success the post handler collects the transfer tax
  (\<open>Tax_Post\<close>). A proposer fills its block from the mempool (\<open>Proposal\<close>), which keeps the EVM transactions and
  the Cosmos transactions in two pools and shows both through one iterator (\<open>Mempool_Iter\<close>, over the priority
  queue of \<open>Mempool_Order\<close>); a recheck drops what the EVM pool has lost (\<open>Mempool_Ops\<close>). On the EVM chain the mono decorator
  (\<open>Evm_Ante\<close>) checks and charges the transaction against the EVM keeper (\<open>Vm_Keeper\<close>), which keeps nonces in
  the account keeper, code and storage in its own store and balances in the bank, through the wrapper
  (\<open>Evm_Bank\<close>). The virtual machine changes the state database (\<open>State_Db\<close>), which loads accounts from the
  keeper, journals every change so that a failed call is undone, gives precompiled contracts a branch of the
  stores (\<open>Snapshot_Store\<close>), and writes the dirty accounts back at the end. \<open>State_Transition\<close> runs a message on
  it: intrinsic gas, delegations, the interpreter, refund, commit and hooks. Which callers and which precompiled
  contracts the interpreter admits is decided by the parameters (\<open>Evm_Params\<close>), which governance and the
  upgrade handlers (\<open>Upgrades\<close>) write, together with those of the fee market. The ERC20 module converts tokens of
  contracts to coins and back (\<open>Erc20_Convert\<close>, over the registry of \<open>Erc20_Pairs\<close>): it calls contracts through
  the execution of messages and moves coins through the bank wrapper (\<open>Erc20_App\<close>), which knows the native coin
  only.

  \<^bold>\<open>Theories and sources.\<close>

  \<^item> \<open>Stoc_Prelude\<close>: results of fallible Go code (\<open>tryE\<close>, \<open>forE\<close>), errors, coins, strings, decimal
    printing; the named collections \<open>go_simps\<close>, \<open>kv_simps\<close>.
  \<^item> \<open>Sdk_Interface\<close>, \<open>Kv_Interface\<close>: the SDK, the bank and the key-value store as parameters, with what
    the program relies on as locales (\<open>bech32_codec\<close>, \<open>coin_api\<close>, \<open>legacy_dec\<close>, \<open>bank_laws\<close>,
    \<open>kv_laws\<close>) and their interpretations on concrete functions. \<open>Ref_Keeper\<close> assembles these into a
    concrete keeper on which the witnesses run.
  \<^item> \<open>Token_Types\<close> (\<^verbatim>\<open>x/stoc/types\<close>): tokens, messages, \<open>Validate\<close>, \<open>ValidateState\<close>, \<open>ValidateBasic\<close>, with
    the exact condition each accepts.
  \<^item> \<open>Token_Keeper\<close> (\<^verbatim>\<open>x/stoc/keeper/keeper.go\<close>, \<^verbatim>\<open>token.go\<close>, \<^verbatim>\<open>params.go\<close>): the store layout, the symbol
    index and every operation on them; the state is the record \<open>ctx\<close> (store, bank, events). The locale
    \<open>stoc_env\<close> collects the laws a keeper rests on.
  \<^item> \<open>Token_Msgs\<close>, \<open>Token_Theorems\<close> (\<^verbatim>\<open>msg_server_*.go\<close>, \<^verbatim>\<open>invariants.go\<close>): the five handlers, the step relation
    \<open>stoc_step\<close> over handlers and outside movements of the bank, and the supply invariant: recorded
    supply equals bank supply, the module account holds the reserve.
  \<^item> \<open>Token_Genesis\<close> (\<^verbatim>\<open>types/genesis.go\<close>, \<^verbatim>\<open>module/genesis.go\<close>): validation, import, export.
  \<^item> \<open>Ante_Msgs\<close>: messages as the type switches of the handlers see them, with \<open>carried\<close> and \<open>executed\<close>,
    the messages a transaction carries at each depth of nesting. \<open>Ante_Restrictions\<close>
    (\<^verbatim>\<open>x/stoc/ante/ibc_restriction.go\<close>, \<^verbatim>\<open>custom_token_restriction.go\<close>): the two recursive walkers, through the
    locale \<open>walker\<close>. \<open>Tax_Post\<close> (\<^verbatim>\<open>tax_post.go\<close>): the tax, against the list of what is due.
  \<^item> \<open>Authz_Screen\<close> (\<^verbatim>\<open>app/ante/top_level_authz_screen.go\<close>, \<^verbatim>\<open>authz_disabled_types.go\<close>, the fork's
    \<^verbatim>\<open>ante/cosmos/authz.go\<close>).
  \<^item> \<open>Fee_Market\<close> (the fork's \<^verbatim>\<open>x/feemarket\<close>): parameters, base fee, hooks, governance, genesis, over the
    state \<open>fm_state\<close> and the step relations \<open>fm_step\<close> (blocks with a positive gas target) and \<open>fm_any_step\<close> (all
    blocks). \<open>Cosmos_Fees\<close> (\<^verbatim>\<open>app/ante/cosmos_min_gas_price.go\<close>, the
    fork's \<^verbatim>\<open>ante/evm/fee_checker.go\<close>, \<^verbatim>\<open>10_gas_wanted.go\<close>).
  \<^item> \<open>App_Ante\<close> (\<^verbatim>\<open>app/ante/ante.go\<close>, \<^verbatim>\<open>cosmos_handler.go\<close>, \<^verbatim>\<open>evm_handler.go\<close>, \<^verbatim>\<open>max_pending_tx.go\<close>): the router
    and the chains; the locale \<open>ante_env\<close> says what is assumed of the SDK's decorators.
  \<^item> \<open>Send_Restrictions\<close> (\<^verbatim>\<open>app/app.go\<close>): the bank restrictions and the escrow cache, with the
    channels it knows after any calls.
  \<^item> \<open>Evm_Bank\<close> (\<^verbatim>\<open>x/evmutil/keeper/bank_keeper.go\<close>): every method of the wrapper, and its refinement of an
    18-decimal ledger.
  \<^item> \<open>Proposal\<close> (\<^verbatim>\<open>app/abci_proposal.go\<close>, \<^verbatim>\<open>permanent_nonce_err.go\<close>): the loop over the mempool and the recovery
    from panics.

  \<^item> \<open>Vm_Keeper\<close> (the fork's \<^verbatim>\<open>x/vm/keeper/statedb.go\<close>, \<^verbatim>\<open>keeper.go\<close>, \<^verbatim>\<open>fees.go\<close>, \<^verbatim>\<open>gas.go\<close>, \<^verbatim>\<open>x/vm/wrappers/bank.go\<close>): accounts
    and balances of the EVM, fee deduction and refund; the locale \<open>account_laws\<close> is the contract of the
    account keeper.
  \<^item> \<open>Evm_Ante\<close> (the fork's \<^verbatim>\<open>ante/evm/mono_decorator.go\<close> and its steps \<^verbatim>\<open>01\<close> to \<^verbatim>\<open>11\<close>): the decorator that \<open>App_Ante\<close>
    takes as an argument, with signature recovery and the stateless checks of go-ethereum as parameters.
  \<^item> \<open>Snapshot_Store\<close> (the fork's \<^verbatim>\<open>x/vm/store\<close>): stacks of cache layers, and the multi store as one stack.
  \<^item> \<open>State_Db\<close> (the fork's \<^verbatim>\<open>x/vm/statedb\<close>): state objects, journal, access list, transient storage, the cache
    context and commit, over any keeper \<open>SKeeper\<close>. \<open>State_Revert\<close>: the locale \<open>statedb_laws\<close>, the step relation
    \<open>db_step\<close> over the methods the virtual machine calls, and the undo of every entry. \<open>State_Commit\<close>: what a
    commit writes to the x/vm keeper. \<open>State_Dirty\<close>: the dirty counts.
  \<^item> \<open>State_Transition\<close> (the fork's \<^verbatim>\<open>x/vm/keeper/state_transition.go\<close>, \<^verbatim>\<open>msg_server.go\<close>, \<^verbatim>\<open>config.go\<close>, \<^verbatim>\<open>gas.go\<close>,
    \<^verbatim>\<open>x/vm/types/gasmeter.go\<close>): \<open>ApplyMessageWithConfig\<close>, \<open>ApplyTransaction\<close> and the message handler, over an
    interpreter that is a parameter; \<open>Transition_Results\<close>: what they leave, under the locale that says what the
    interpreter keeps.
  \<^item> \<open>Evm_Params\<close> (the fork's \<^verbatim>\<open>x/vm/types/params.go\<close>, \<^verbatim>\<open>permissions.go\<close>, \<^verbatim>\<open>x/vm/keeper/params.go\<close>, \<^verbatim>\<open>coin_info.go\<close>,
    \<^verbatim>\<open>precompiles.go\<close>): parameters, validation, coin info, access control and call hooks. \<open>Upgrades\<close>
    (\<^verbatim>\<open>app/upgrades.go\<close>): the three handlers over fee market, EVM parameters and bank metadata.
  \<^item> \<open>Mempool_Order\<close> (the fork's \<^verbatim>\<open>mempool/miner/ordering.go\<close>): the heap of the accounts' next transactions; the
    locale \<open>heap_order\<close> proves the operations of \<^verbatim>\<open>container/heap\<close>. \<open>Mempool_Iter\<close> (\<^verbatim>\<open>mempool/iterator.go\<close>): the merged
    iterator. \<open>Mempool_Ops\<close> (\<^verbatim>\<open>mempool/mempool.go\<close>, \<^verbatim>\<open>check_tx.go\<close>): insertion, removal, and the recheck rule with its
    cache.
  \<^item> \<open>Erc20_Pairs\<close> (the fork's \<^verbatim>\<open>x/erc20/keeper/token_pairs.go\<close>, \<^verbatim>\<open>allowance.go\<close>, \<^verbatim>\<open>precompiles.go\<close>, \<^verbatim>\<open>types/token_pair.go\<close>): the
    registry with its two indices, one record field for each prefix of the store; the locale \<open>erc_names_laws\<close> says
    what is assumed of hashes and of the syntax of addresses. \<open>Erc20_Convert\<close> (\<^verbatim>\<open>convert.go\<close>, \<^verbatim>\<open>msg_server.go\<close>,
    \<^verbatim>\<open>proposals.go\<close>, \<^verbatim>\<open>ibc_callbacks.go\<close>): messages and callbacks over the interfaces of \<open>erc_env\<close>. \<open>Erc20_Results\<close>: the
    step relation \<open>erc_step\<close>. \<open>Erc20_App\<close> (\<^verbatim>\<open>app/evm.go\<close>, \<^verbatim>\<open>x/vm/keeper/call_evm.go\<close>): the module over the wrapper
    and the state database, through the locale \<open>closed_bank\<close>. \<open>Erc20_Genesis\<close> (\<^verbatim>\<open>x/erc20/genesis.go\<close>): validation,
    import and the activation of precompiled contracts.
  \<^item> \<open>Token_Query\<close> (\<^verbatim>\<open>x/stoc/keeper/query_token.go\<close>): the queries; the locale \<open>paginator\<close> is the contract of the SDK's
    pagination.

  \<^bold>\<open>What the lemmas show.\<close> Tokens: each handler's full effect, the supply invariant in every reachable
  state, immutability of a token's configuration, round trips of store and genesis. Tax and restrictions:
  the walkers accept exactly the transactions without custom tokens in the wrong place at any nesting;
  every admitted transfer is exempt by rule or owes its exact tax, and what is owed is paid unless the bank refuses
  the payment. Admission: what every transaction
  the router admits satisfies. Fees: the parameters stay in range through all blocks, the floor of the base fee is lost only
  in a block with gas target zero, the block hooks stop the chain exactly on a decimal overflow or a missing conversion factor,
  the base fee follows EIP-1559, accepted transactions pay at least base fee and minimum price and at most
  their offer. EVM bank: refinement, safe rounding, custom tokens invisible. EVM transactions: they enter only
  alone and through the mono decorator, the sender pays the effective price for the whole gas limit up front,
  no transaction is accepted twice, a transfer conserves the total. State database: a return to a snapshot
  always succeeds and restores everything a contract can see, a commit writes exactly the dirty accounts and
  never meets a missing object, and the stores of all keys move together. Execution: a transaction that fails
  only pays, one that succeeds commits the database that the interpreter left, the charge lies between the minimum share and
  the gas limit, and a delegation is used once. Parameters: activating a precompiled contract makes exactly it
  callable; an upgrade writes nothing or everything its version has to write. ERC20 module: its indices
  stay inverse to each other, a genesis is imported as a whole with its allowances, panics for stated reasons, or is cut off at the first address spelled twice, and in
  this application no conversion succeeds and nothing moves. Mempool: the queue shows a best
  transaction first, the iterator shows everything once in nonce order, a recheck answers for orphans and undecodable bytes and for
  nothing else. Blocks: building ends, every result of the handler is accounted for, a panic falls back to the default handler, sequences of each signer are consecutive,
  and the builder reads the pool once.

  \<^bold>\<open>Bounds.\<close> No fuel is used. The walkers recurse under the program's own depth caps (3 and 7), the
  proposal loop under its cap of 8192 rounds; these give the termination measures. The binary search for a
  revision shrinks its interval, the walks of the heap go down or up its levels, and the iterator loses one
  transaction with every step. Gas, nonces, counters, decimals of a token and percentages are words of their
  width; \<open>math.Int\<close> is \<open>int\<close> with a panic beyond 256 bits where the program can reach it, and so does a
  balance of the state database that leaves the range of \<open>uint256\<close>; \<open>LegacyDec\<close> is the \<open>int\<close> of its \<open>10 ^ -18\<close> units with a panic beyond its range in the
  fee market.

  \<^bold>\<open>Not modelled.\<close> Generated protobuf code (the codec is a parameter), command line, RPC and module wiring
  (no logic of the program), logging and telemetry, gas metering of store accesses. Of the fork: the
  interpreter of go-ethereum, the transaction pool behind the mempool (\<^verbatim>\<open>mempool/txpool\<close>) and the view of the
  chain it runs on, the bodies of the precompiled contracts and JSON-RPC, which are third-party code with local
  fixes; of the ERC20 module its export, its queries and the routing of packets to its callbacks; the precise bank, which
  the application does not wire in. What could follow next: the frame that
  precompiled contracts share (\<^verbatim>\<open>precompiles/common\<close>) over the state database, the genesis of the EVM module and the
  stateless rules of \<^verbatim>\<open>mempool/txpool/validation.go\<close>.
\<close>

end
